(* ===== verification/LircPrelude.thy ===== *)
theory LircPrelude
  imports Main "HOL-Library.Word" "HOL-Library.Signed_Division" "HOL-Library.Monad_Syntax"
begin

text \<open>
  Shared vocabulary of the development: the C integer types as the daemon uses them,
  shifts and conversions with their machine behaviour, C strings, and the fault monad.

  \<^item> \<open>int\<close> and \<open>lirc_t\<close> values are HOL integers; every arithmetic result of that type is
    passed through \<open>i32\<close>, the two's complement value of its low 32 bits.
  \<^item> \<open>__u32\<close> and \<open>unsigned int\<close> are \<open>32 word\<close>, \<open>ir_code\<close> and \<open>unsigned long\<close> are
    \<open>64 word\<close>; a conversion to a signed type is \<open>sint\<close>, to an unsigned one \<open>word_of_int\<close>.
  \<^item> A C run-time fault (an index outside an array, a null dereference, a division by zero)
    is the value \<open>None\<close> of the option monad, so every function that can fault has an
    option as its result and the callers pass the fault on.
\<close>

unbundle bit_operations_syntax

section \<open>Collections of rules\<close>

named_theorems c_eval \<open>equations that evaluate C arithmetic on literals\<close>
named_theorems flag_defs \<open>the numeric values of the flag constants\<close>
named_theorems ir_preds \<open>definitions of the one-line predicates on remotes\<close>

section \<open>Integers\<close>

type_synonym lirc_t = int
type_synonym ir_code = "64 word"
type_synonym u32 = "32 word"
type_synonym ulong = "64 word"

definition i32 :: "int \<Rightarrow> int" where
  "i32 x = (x + 2147483648) mod 4294967296 - 2147483648"

definition i32_range :: "int \<Rightarrow> bool" where
  "i32_range x \<longleftrightarrow> - 2147483648 \<le> x \<and> x < 2147483648"

definition c_abs :: "int \<Rightarrow> int" where
  "c_abs x = i32 \<bar>x\<bar>"

text \<open>Shifts of a 64-bit value. A count outside 0..63 is undefined in C; the x86-64 target
  of this port takes the count modulo 64, and so does the model.\<close>

definition shl64 :: "64 word \<Rightarrow> int \<Rightarrow> 64 word" where
  "shl64 x n = push_bit (nat (n mod 64)) x"

definition shr64 :: "64 word \<Rightarrow> int \<Rightarrow> 64 word" where
  "shr64 x n = drop_bit (nat (n mod 64)) x"

lemma i32_id [simp]: "i32_range x \<Longrightarrow> i32 x = x"
  by (simp add: i32_def i32_range_def)

lemma i32_in_range [simp, intro]: "i32_range (i32 x)"
  unfolding i32_def i32_range_def
  using pos_mod_bound [of 4294967296 "x + 2147483648"]
    pos_mod_sign [of 4294967296 "x + 2147483648"] by linarith

lemma i32_idem [simp]: "i32 (i32 x) = i32 x"
  by (rule i32_id) simp

lemma i32_sint: "i32 x = sint (word_of_int x :: 32 word)"
  by (simp add: i32_def int_word_sint)

lemma i32_rangeI [intro]: "- 2147483648 \<le> x \<Longrightarrow> x < 2147483648 \<Longrightarrow> i32_range x"
  by (simp add: i32_range_def)

lemma i32_range_nonneg: "0 \<le> x \<Longrightarrow> x < 2147483648 \<Longrightarrow> i32_range x"
  by (simp add: i32_range_def)

lemma c_abs_range: "i32_range x \<Longrightarrow> x \<noteq> - 2147483648 \<Longrightarrow> c_abs x = \<bar>x\<bar>"
  by (auto simp: c_abs_def i32_def i32_range_def abs_if)

lemma sint32_range [simp]: "i32_range (sint (w :: 32 word))"
  using sint_range_size [of w] by (simp add: i32_range_def word_size)

lemma sint32_small: "uint w < 2147483648 \<Longrightarrow> sint (w :: 32 word) = uint w"
  by (simp add: sint_uint signed_take_bit_int_eq_self uint_ge_0 order_trans [OF _ uint_ge_0])

lemma shl64_in [simp]: "0 \<le> n \<Longrightarrow> n < 64 \<Longrightarrow> shl64 x n = push_bit (nat n) x"
  by (simp add: shl64_def)

lemma shr64_in [simp]: "0 \<le> n \<Longrightarrow> n < 64 \<Longrightarrow> shr64 x n = drop_bit (nat n) x"
  by (simp add: shr64_def)

lemma shl64_zero [simp]: "shl64 0 n = 0"
  by (simp add: shl64_def)

lemma shr64_zero [simp]: "shr64 0 n = 0"
  by (simp add: shr64_def)

lemmas [c_eval] = i32_def c_abs_def signed_divide_int_def shl64_def shr64_def

lemma sdiv_pos: "0 \<le> a \<Longrightarrow> 0 < b \<Longrightarrow> (a :: int) sdiv b = a div b"
  by (cases "a = 0") (simp_all add: signed_divide_int_def sgn_if)

section \<open>Words and bits\<close>

lemma bit_push64:
  "bit (push_bit n (x :: 64 word)) k \<longleftrightarrow> n \<le> k \<and> k < 64 \<and> bit x (k - n)"
  by (auto simp: bit_push_bit_iff dest: bit_imp_le_length)

lemma word64_eqI: "(\<And>k. k < 64 \<Longrightarrow> bit x k = bit y k) \<Longrightarrow> x = (y :: 64 word)"
  by (rule bit_word_eqI) simp

lemma bit_of_cond: "bit (if P then 1 else (0 :: 64 word)) k \<longleftrightarrow> P \<and> k = 0"
  by (simp add: bit_1_iff)

lemma and_one_nonzero: "(x :: 64 word) AND 1 \<noteq> 0 \<longleftrightarrow> bit x 0"
  by (simp add: and_one_eq odd_iff_mod_2_eq_one bit_0 flip: odd_iff_mod_2_eq_one)

lemma and_push_one_nonzero: "n < 64 \<Longrightarrow> (x :: 64 word) AND push_bit n 1 \<noteq> 0 \<longleftrightarrow> bit x n"
  using and_exp_eq_0_iff_not_bit [of x n] by (simp add: push_bit_of_1)

section \<open>C strings\<close>

text \<open>Bytes as \<open>char\<close>; a C string is the list of its bytes before the terminating zero.
  \<open>strcasecmp (a, b) == 0\<close> in the C locale folds the 26 ASCII letters.\<close>

definition tolower :: "char \<Rightarrow> char" where
  "tolower c = (let n = (of_char c :: nat) in if 65 \<le> n \<and> n \<le> 90 then char_of (n + 32) else c)"

definition strcaseeq :: "string \<Rightarrow> string \<Rightarrow> bool" where
  "strcaseeq a b \<longleftrightarrow> map tolower a = map tolower b"

lemma strcaseeq_refl [simp]: "strcaseeq a a"
  by (simp add: strcaseeq_def)

lemma strcaseeq_sym: "strcaseeq a b \<longleftrightarrow> strcaseeq b a"
  by (auto simp: strcaseeq_def)

lemma strcaseeq_trans: "strcaseeq a b \<Longrightarrow> strcaseeq b c \<Longrightarrow> strcaseeq a c"
  by (simp add: strcaseeq_def)

section \<open>Lists\<close>

text \<open>The address and index of the first element with a property, as the daemon's
  linear searches return a pointer to it.\<close>

fun find_index_from :: "nat \<Rightarrow> ('a \<Rightarrow> bool) \<Rightarrow> 'a list \<Rightarrow> nat option" where
  "find_index_from k P [] = None"
| "find_index_from k P (x # xs) = (if P x then Some k else find_index_from (Suc k) P xs)"

lemma find_index_from_None [simp]:
  "find_index_from k P xs = None \<longleftrightarrow> (\<forall>x \<in> set xs. \<not> P x)"
  by (induction xs arbitrary: k) auto

lemma find_index_from_Some:
  "find_index_from k P xs = Some j \<Longrightarrow>
     k \<le> j \<and> j < k + length xs \<and> P (xs ! (j - k)) \<and> (\<forall>i < j - k. \<not> P (xs ! i))"
proof (induction xs arbitrary: k)
  case Nil
  then show ?case by simp
next
  case (Cons x xs)
  show ?case
  proof (cases "P x")
    case True
    with Cons.prems show ?thesis by simp
  next
    case False
    with Cons.prems have "find_index_from (Suc k) P xs = Some j" by simp
    note IH = Cons.IH [OF this]
    then have j: "j - k = Suc (j - Suc k)" by auto
    show ?thesis
      using IH False by (auto simp: j nth_Cons split: nat.splits)
  qed
qed

lemma fold_invariant_list:
  "(\<And>x s. x \<in> set xs \<Longrightarrow> I s \<Longrightarrow> I (f x s)) \<Longrightarrow> I s \<Longrightarrow> I (fold f xs s)"
  by (induction xs arbitrary: s) auto

end
