(* ===== verification/IrTypes.thy ===== *)
theory IrTypes
  imports LircPrelude
begin

text \<open>
  The data of \<open>daemons/ir_remote_types.h\<close>, \<open>daemons/hardware.h\<close> and the constants of
  \<open>drivers/lirc.h\<close>: remotes, their buttons, and the flag bits.

  Pointers. A \<open>struct ir_remote\<close> lives at an address (a natural number) of a store; the
  linked list of remotes is the list of its addresses, so that pointer comparisons are
  comparisons of addresses. A pointer to a button of a remote is its index in the remote's
  \<open>codes\<close> array, whose terminating entry (name NULL) is the end of the list; a pointer to a
  further code of a button is the index in its \<open>nodes\<close> (the C list \<open>next\<close>). NULL is \<open>None\<close>.
  The length of a raw signal is the length of its list, as the parser sets it.
  The members behind \<open>#ifdef DYNCODES\<close> (off by default) are left out.
\<close>

section \<open>Records\<close>

type_synonym addr = nat

record timeval =
  tv_sec :: int
  tv_usec :: int

record ir_ncode =
  nc_name :: string
  nc_code :: ir_code
  nc_signals :: "lirc_t list option"
  nc_nodes :: "ir_code list"
  nc_current :: "nat option"
  nc_transmit_state :: "nat option"

record ir_remote =
  name :: string
  codes :: "ir_ncode list option"
  bits :: int
  flags :: u32
  eps :: int
  aeps :: int
  phead :: lirc_t
  shead :: lirc_t
  pthree :: lirc_t
  sthree :: lirc_t
  ptwo :: lirc_t
  stwo :: lirc_t
  pone :: lirc_t
  sone :: lirc_t
  pzero :: lirc_t
  szero :: lirc_t
  plead :: lirc_t
  ptrail :: lirc_t
  pfoot :: lirc_t
  sfoot :: lirc_t
  prepeat :: lirc_t
  srepeat :: lirc_t
  pre_data_bits :: int
  pre_data :: ir_code
  post_data_bits :: int
  post_data :: ir_code
  pre_p :: lirc_t
  pre_s :: lirc_t
  post_p :: lirc_t
  post_s :: lirc_t
  gap :: u32
  gap2 :: u32
  repeat_gap :: u32
  toggle_bit :: int
  toggle_bit_mask :: ir_code
  suppress_repeat :: int
  min_repeat :: int
  min_code_repeat :: u32
  freq :: u32
  duty_cycle :: u32
  toggle_mask :: ir_code
  rc6_mask :: ir_code
  baud :: u32
  bits_in_byte :: u32
  parity :: u32
  stop_bits :: u32
  ignore_mask :: ir_code
  toggle_bit_mask_state :: ir_code
  toggle_mask_state :: int
  repeat_countdown :: int
  last_code :: "nat option"
  toggle_code :: "nat option"
  reps :: int
  last_send :: timeval
  min_remaining_gap :: lirc_t
  max_remaining_gap :: lirc_t
  min_total_signal_length :: lirc_t
  max_total_signal_length :: lirc_t
  min_gap_length :: lirc_t
  max_gap_length :: lirc_t
  min_pulse_length :: lirc_t
  max_pulse_length :: lirc_t
  min_space_length :: lirc_t
  max_space_length :: lirc_t
  release_detected :: int

text \<open>The zeroed structures that \<open>s_malloc\<close> and \<open>memset\<close> produce.\<close>

definition timeval0 :: timeval where
  "timeval0 = \<lparr>tv_sec = 0, tv_usec = 0\<rparr>"

definition ncode0 :: ir_ncode where
  "ncode0 = \<lparr>nc_name = '''', nc_code = 0, nc_signals = None, nc_nodes = [],
     nc_current = None, nc_transmit_state = None\<rparr>"

definition remote0 :: ir_remote where
  "remote0 = \<lparr>name = '''', codes = None, bits = 0, flags = 0, eps = 0, aeps = 0,
     phead = 0, shead = 0, pthree = 0, sthree = 0, ptwo = 0, stwo = 0, pone = 0, sone = 0,
     pzero = 0, szero = 0, plead = 0, ptrail = 0, pfoot = 0, sfoot = 0, prepeat = 0, srepeat = 0,
     pre_data_bits = 0, pre_data = 0, post_data_bits = 0, post_data = 0, pre_p = 0, pre_s = 0,
     post_p = 0, post_s = 0, gap = 0, gap2 = 0, repeat_gap = 0, toggle_bit = 0,
     toggle_bit_mask = 0, suppress_repeat = 0, min_repeat = 0, min_code_repeat = 0, freq = 0,
     duty_cycle = 0, toggle_mask = 0, rc6_mask = 0, baud = 0, bits_in_byte = 0, parity = 0,
     stop_bits = 0, ignore_mask = 0, toggle_bit_mask_state = 0, toggle_mask_state = 0,
     repeat_countdown = 0, last_code = None, toggle_code = None, reps = 0,
     last_send = timeval0, min_remaining_gap = 0, max_remaining_gap = 0,
     min_total_signal_length = 0, max_total_signal_length = 0, min_gap_length = 0,
     max_gap_length = 0, min_pulse_length = 0, max_pulse_length = 0, min_space_length = 0,
     max_space_length = 0, release_detected = 0\<rparr>"

text \<open>The part of \<open>struct hardware\<close> that decoding and encoding read; the function pointers of
  the driver are parameters of the functions that call them.\<close>

record hardware =
  rec_mode :: u32
  send_mode :: u32
  features :: u32
  code_length :: u32
  resolution :: u32

section \<open>Constants\<close>

definition IR_PROTOCOL_MASK :: u32 where [flag_defs]: "IR_PROTOCOL_MASK = 0x07ff"
definition RAW_CODES :: u32 where [flag_defs]: "RAW_CODES = 0x0001"
definition RC5 :: u32 where [flag_defs]: "RC5 = 0x0002"
definition SHIFT_ENC :: u32 where [flag_defs]: "SHIFT_ENC = 0x0002"
definition RC6 :: u32 where [flag_defs]: "RC6 = 0x0004"
definition RCMM :: u32 where [flag_defs]: "RCMM = 0x0008"
definition SPACE_ENC :: u32 where [flag_defs]: "SPACE_ENC = 0x0010"
definition SPACE_FIRST :: u32 where [flag_defs]: "SPACE_FIRST = 0x0020"
definition GOLDSTAR :: u32 where [flag_defs]: "GOLDSTAR = 0x0040"
definition GRUNDIG :: u32 where [flag_defs]: "GRUNDIG = 0x0080"
definition BO :: u32 where [flag_defs]: "BO = 0x0100"
definition SERIAL :: u32 where [flag_defs]: "SERIAL = 0x0200"
definition XMP :: u32 where [flag_defs]: "XMP = 0x0400"
definition REVERSE :: u32 where [flag_defs]: "REVERSE = 0x0800"
definition NO_HEAD_REP :: u32 where [flag_defs]: "NO_HEAD_REP = 0x1000"
definition NO_FOOT_REP :: u32 where [flag_defs]: "NO_FOOT_REP = 0x2000"
definition CONST_LENGTH :: u32 where [flag_defs]: "CONST_LENGTH = 0x4000"
definition REPEAT_HEADER :: u32 where [flag_defs]: "REPEAT_HEADER = 0x8000"
definition COMPAT_REVERSE :: u32 where [flag_defs]: "COMPAT_REVERSE = 0x00010000"

definition IR_PARITY_NONE :: u32 where [flag_defs]: "IR_PARITY_NONE = 0"
definition IR_PARITY_EVEN :: u32 where [flag_defs]: "IR_PARITY_EVEN = 1"
definition IR_PARITY_ODD :: u32 where [flag_defs]: "IR_PARITY_ODD = 2"

definition LIRC_MODE_RAW :: u32 where [flag_defs]: "LIRC_MODE_RAW = 0x00000001"
definition LIRC_MODE_PULSE :: u32 where [flag_defs]: "LIRC_MODE_PULSE = 0x00000002"
definition LIRC_MODE_MODE2 :: u32 where [flag_defs]: "LIRC_MODE_MODE2 = 0x00000004"
definition LIRC_MODE_LIRCCODE :: u32 where [flag_defs]: "LIRC_MODE_LIRCCODE = 0x00000010"

text \<open>\<open>drivers/lirc.h\<close>: a sample is a length in its low 24 bits and a kind in its top byte.
  The masks are applied to the two's complement representation of the sample.\<close>

definition PULSE_BIT :: int where [c_eval]: "PULSE_BIT = 0x01000000"
definition PULSE_MASK :: int where [c_eval]: "PULSE_MASK = 0x00FFFFFF"

definition LIRC_VALUE :: "lirc_t \<Rightarrow> lirc_t" where
  "LIRC_VALUE v = v AND PULSE_MASK"

definition LIRC_MODE2 :: "lirc_t \<Rightarrow> u32" where
  "LIRC_MODE2 v = word_of_int v AND 0xFF000000"

definition LIRC_IS_TIMEOUT :: "lirc_t \<Rightarrow> bool" where
  "LIRC_IS_TIMEOUT v \<longleftrightarrow> LIRC_MODE2 v = 0x03000000"

lemma pulse_mask_mod: "v AND PULSE_MASK = v mod 16777216"
proof -
  have "v AND mask 24 = v mod 16777216"
    by (simp flip: take_bit_eq_mask add: take_bit_eq_mod)
  then show ?thesis
    by (simp add: PULSE_MASK_def mask_eq_exp_minus_1)
qed

lemma pulse_mask_id [simp]: "0 \<le> v \<Longrightarrow> v < 16777216 \<Longrightarrow> v AND PULSE_MASK = v"
  by (simp add: pulse_mask_mod)

lemma pulse_mask_pulse [simp]:
  "0 \<le> v \<Longrightarrow> v < 16777216 \<Longrightarrow> (v + PULSE_BIT) AND PULSE_MASK = v"
  by (simp add: pulse_mask_mod PULSE_BIT_def)

lemma pulse_mask_range: "0 \<le> v AND PULSE_MASK \<and> v AND PULSE_MASK < 16777216"
  by (simp add: pulse_mask_mod)

end
