(* ===== verification/IrRemoteH.thy ===== *)
theory IrRemoteH
  imports IrTypes
begin

text \<open>
  The inline functions of \<open>daemons/ir_remote.h\<close>: predicates on the protocol flags, gaps and
  tolerances, masks, bit reversal and the packing of pre data, code and post data.
\<close>

section \<open>Codes and bits\<close>

definition get_ir_code :: "ir_ncode \<Rightarrow> nat option \<Rightarrow> ir_code" where
  "get_ir_code ncode node =
     (case node of
        Some i \<Rightarrow> if nc_nodes ncode \<noteq> [] then nc_nodes ncode ! i else nc_code ncode
      | None \<Rightarrow> nc_code ncode)"

definition node_ptr :: "ir_ncode \<Rightarrow> nat \<Rightarrow> nat option" where
  "node_ptr ncode i = (if i < length (nc_nodes ncode) then Some i else None)"

definition get_next_ir_code_node :: "ir_ncode \<Rightarrow> nat option \<Rightarrow> nat option" where
  "get_next_ir_code_node ncode node =
     (case node of None \<Rightarrow> node_ptr ncode 0 | Some i \<Rightarrow> node_ptr ncode (Suc i))"

definition bit_count :: "ir_remote \<Rightarrow> int" where
  "bit_count r = i32 (i32 (pre_data_bits r + bits r) + post_data_bits r)"

text \<open>\<open>while (data) \<dots> data >>= 1\<close>: the loop ends because the value gets smaller.\<close>

lemma drop_bit_1_less: "w \<noteq> 0 \<Longrightarrow> unat (drop_bit 1 (w :: 64 word)) < unat w"
proof -
  assume "w \<noteq> 0"
  then have "0 < unat w" by (simp add: unat_gt_0)
  then show ?thesis by (simp add: unat_drop_bit_eq drop_bit_eq_div unat_div)
qed

function bits_set_loop :: "ir_code \<Rightarrow> int \<Rightarrow> int" where
  "bits_set_loop data ret =
     (if data = 0 then ret
      else bits_set_loop (drop_bit 1 data) (if data AND 1 \<noteq> 0 then ret + 1 else ret))"
  by pat_completeness auto
termination
  by (relation "measure (\<lambda>(d, _). unat d)") (use drop_bit_1_less in auto)

declare bits_set_loop.simps [simp del]

definition bits_set :: "ir_code \<Rightarrow> int" where
  "bits_set data = bits_set_loop data 0"

definition reverse_step :: "ir_code \<Rightarrow> int \<Rightarrow> nat \<Rightarrow> ir_code \<Rightarrow> ir_code" where
  "reverse_step data nbits i c =
     c OR shl64 (if data AND shl64 1 (int i) \<noteq> 0 then 1 else 0) (nbits - 1 - int i)"

definition reverse :: "ir_code \<Rightarrow> int \<Rightarrow> ir_code" where
  "reverse data nbits = fold (reverse_step data nbits) [0..<nat nbits] 0"

definition gen_mask :: "int \<Rightarrow> ir_code" where
  "gen_mask nbits = ((\<lambda>m. push_bit 1 m OR 1) ^^ nat nbits) 0"

section \<open>Predicates\<close>

definition is_pulse :: "lirc_t \<Rightarrow> bool" where "is_pulse d \<longleftrightarrow> d AND PULSE_BIT \<noteq> 0"

definition is_space :: "lirc_t \<Rightarrow> bool" where "is_space d \<longleftrightarrow> \<not> is_pulse d"

definition has_repeat :: "ir_remote \<Rightarrow> bool" where [ir_preds]:
  "has_repeat r \<longleftrightarrow> prepeat r > 0 \<and> srepeat r > 0"

definition set_protocol :: "ir_remote \<Rightarrow> u32 \<Rightarrow> ir_remote" where
  "set_protocol r protocol = r\<lparr>flags := (flags r AND NOT IR_PROTOCOL_MASK) OR protocol\<rparr>"

definition is_raw :: "ir_remote \<Rightarrow> bool" where [ir_preds]:
  "is_raw r \<longleftrightarrow> flags r AND IR_PROTOCOL_MASK = RAW_CODES"

definition is_space_enc :: "ir_remote \<Rightarrow> bool" where [ir_preds]:
  "is_space_enc r \<longleftrightarrow> flags r AND IR_PROTOCOL_MASK = SPACE_ENC"

definition is_space_first :: "ir_remote \<Rightarrow> bool" where [ir_preds]:
  "is_space_first r \<longleftrightarrow> flags r AND IR_PROTOCOL_MASK = SPACE_FIRST"

definition is_rc5 :: "ir_remote \<Rightarrow> bool" where [ir_preds]:
  "is_rc5 r \<longleftrightarrow> flags r AND IR_PROTOCOL_MASK = RC5"

definition is_rc6 :: "ir_remote \<Rightarrow> bool" where [ir_preds]:
  "is_rc6 r \<longleftrightarrow> flags r AND IR_PROTOCOL_MASK = RC6 \<or> rc6_mask r \<noteq> 0"

definition is_biphase :: "ir_remote \<Rightarrow> bool" where [ir_preds]:
  "is_biphase r \<longleftrightarrow> is_rc5 r \<or> is_rc6 r"

definition is_rcmm :: "ir_remote \<Rightarrow> bool" where [ir_preds]:
  "is_rcmm r \<longleftrightarrow> flags r AND IR_PROTOCOL_MASK = RCMM"

definition is_goldstar :: "ir_remote \<Rightarrow> bool" where [ir_preds]:
  "is_goldstar r \<longleftrightarrow> flags r AND IR_PROTOCOL_MASK = GOLDSTAR"

definition is_grundig :: "ir_remote \<Rightarrow> bool" where [ir_preds]:
  "is_grundig r \<longleftrightarrow> flags r AND IR_PROTOCOL_MASK = GRUNDIG"

definition is_bo :: "ir_remote \<Rightarrow> bool" where [ir_preds]:
  "is_bo r \<longleftrightarrow> flags r AND IR_PROTOCOL_MASK = BO"

definition is_serial :: "ir_remote \<Rightarrow> bool" where [ir_preds]:
  "is_serial r \<longleftrightarrow> flags r AND IR_PROTOCOL_MASK = SERIAL"

definition is_xmp :: "ir_remote \<Rightarrow> bool" where [ir_preds]:
  "is_xmp r \<longleftrightarrow> flags r AND IR_PROTOCOL_MASK = XMP"

definition is_const :: "ir_remote \<Rightarrow> bool" where [ir_preds]:
  "is_const r \<longleftrightarrow> flags r AND CONST_LENGTH \<noteq> 0"

definition has_repeat_gap :: "ir_remote \<Rightarrow> bool" where [ir_preds]:
  "has_repeat_gap r \<longleftrightarrow> repeat_gap r > 0"

definition has_pre :: "ir_remote \<Rightarrow> bool" where [ir_preds]: "has_pre r \<longleftrightarrow> pre_data_bits r > 0"

definition has_post :: "ir_remote \<Rightarrow> bool" where [ir_preds]: "has_post r \<longleftrightarrow> post_data_bits r > 0"

definition has_header :: "ir_remote \<Rightarrow> bool" where [ir_preds]:
  "has_header r \<longleftrightarrow> phead r > 0 \<and> shead r > 0"

definition has_foot :: "ir_remote \<Rightarrow> bool" where [ir_preds]:
  "has_foot r \<longleftrightarrow> pfoot r > 0 \<and> sfoot r > 0"

definition has_toggle_bit_mask :: "ir_remote \<Rightarrow> bool" where [ir_preds]:
  "has_toggle_bit_mask r \<longleftrightarrow> toggle_bit_mask r > 0"

definition has_ignore_mask :: "ir_remote \<Rightarrow> bool" where [ir_preds]:
  "has_ignore_mask r \<longleftrightarrow> ignore_mask r > 0"

definition has_toggle_mask :: "ir_remote \<Rightarrow> bool" where [ir_preds]:
  "has_toggle_mask r \<longleftrightarrow> toggle_mask r > 0"

section \<open>Gaps and tolerances\<close>

definition min_gap :: "ir_remote \<Rightarrow> lirc_t" where
  "min_gap r = (if gap2 r \<noteq> 0 \<and> gap2 r < gap r then sint (gap2 r) else sint (gap r))"

definition max_gap :: "ir_remote \<Rightarrow> lirc_t" where
  "max_gap r = (if gap2 r > gap r then sint (gap2 r) else sint (gap r))"

text \<open>\<open>hw.resolution\<close> is unsigned, so \<open>remote->aeps\<close> is converted before the comparison.\<close>

definition eff_aeps :: "hardware \<Rightarrow> ir_remote \<Rightarrow> int" where
  "eff_aeps h r =
     (if resolution h > word_of_int (aeps r) then sint (resolution h) else aeps r)"

definition expect :: "hardware \<Rightarrow> ir_remote \<Rightarrow> lirc_t \<Rightarrow> lirc_t \<Rightarrow> bool" where
  "expect h r delta exdelta \<longleftrightarrow>
     c_abs (i32 (exdelta - delta)) \<le> i32 (exdelta * eps r) sdiv 100 \<or>
     c_abs (i32 (exdelta - delta)) \<le> eff_aeps h r"

definition expect_at_least :: "hardware \<Rightarrow> ir_remote \<Rightarrow> lirc_t \<Rightarrow> lirc_t \<Rightarrow> bool" where
  "expect_at_least h r delta exdelta \<longleftrightarrow>
     i32 (delta + i32 (exdelta * eps r) sdiv 100) \<ge> exdelta \<or>
     i32 (delta + eff_aeps h r) \<ge> exdelta"

definition expect_at_most :: "hardware \<Rightarrow> ir_remote \<Rightarrow> lirc_t \<Rightarrow> lirc_t \<Rightarrow> bool" where
  "expect_at_most h r delta exdelta \<longleftrightarrow>
     delta \<le> i32 (exdelta + i32 (exdelta * eps r) sdiv 100) \<or>
     delta \<le> i32 (exdelta + eff_aeps h r)"

definition upper_limit :: "hardware \<Rightarrow> ir_remote \<Rightarrow> lirc_t \<Rightarrow> lirc_t" where
  "upper_limit h r val =
     (let eps_val = i32 (val * i32 (100 + eps r)) sdiv 100; aeps_val = i32 (val + eff_aeps h r)
      in if eps_val > aeps_val then eps_val else aeps_val)"

definition lower_limit :: "hardware \<Rightarrow> ir_remote \<Rightarrow> lirc_t \<Rightarrow> lirc_t" where
  "lower_limit h r val =
     (let eps_val = i32 (val * i32 (100 - eps r)) sdiv 100;
          aeps_val = i32 (val - eff_aeps h r);
          eps_val = (if eps_val \<le> 0 then 1 else eps_val);
          aeps_val = (if aeps_val \<le> 0 then 1 else aeps_val)
      in if eps_val < aeps_val then eps_val else aeps_val)"

definition time_elapsed :: "timeval \<Rightarrow> timeval \<Rightarrow> ulong" where
  "time_elapsed from_tv current =
     (let secs = word_of_int (tv_sec current - tv_sec from_tv)
      in 1000000 * secs + word_of_int (tv_usec current) - word_of_int (tv_usec from_tv))"

section \<open>Packing a code\<close>

definition gen_ir_code :: "ir_remote \<Rightarrow> ir_code \<Rightarrow> ir_code \<Rightarrow> ir_code \<Rightarrow> ir_code" where
  "gen_ir_code r pre code post =
     (let a = pre AND gen_mask (pre_data_bits r);
          a = shl64 a (bits r);
          a = a OR (if is_raw r then code else code AND gen_mask (bits r));
          a = shl64 a (post_data_bits r)
      in a OR (post AND gen_mask (post_data_bits r)))"

section \<open>Bit-level facts\<close>

lemma gen_mask_eq: "gen_mask n = mask (nat n)"
proof -
  have "((\<lambda>m. push_bit 1 m OR 1) ^^ k) 0 = (mask k :: 64 word)" for k
    by (induction k) (simp_all add: mask_Suc_double ac_simps)
  then show ?thesis by (simp add: gen_mask_def)
qed

lemma gen_mask_neg [simp]: "n \<le> 0 \<Longrightarrow> gen_mask n = 0"
  by (simp add: gen_mask_eq)

lemma bit_gen_mask: "bit (gen_mask n) k \<longleftrightarrow> k < 64 \<and> int k < n"
  by (auto simp: gen_mask_eq bit_mask_iff)

lemma bit_and_gen_mask: "bit (x AND gen_mask n) k \<longleftrightarrow> bit x k \<and> int k < n"
  by (auto simp: bit_and_iff bit_gen_mask dest: bit_imp_le_length)

lemma gen_mask_idem [simp]: "(x AND gen_mask n) AND gen_mask n = x AND gen_mask n"
  by (simp add: and.assoc)

lemma gen_mask_full: "64 \<le> n \<Longrightarrow> x AND gen_mask n = x"
  by (rule word64_eqI) (simp add: bit_and_gen_mask)

lemma bit_reverse_step:
  assumes "0 \<le> n" "n \<le> 64" "i < nat n"
  shows "bit (reverse_step d n i c) k \<longleftrightarrow> bit c k \<or> k = nat n - 1 - i \<and> bit d i"
proof -
  let ?j = "nat n - Suc i"
  have i: "i < 64" and j: "?j < 64" using assms by auto
  have e: "nat (n - 1 - int i) = ?j" and lo: "0 \<le> n - 1 - int i" and hi: "n - 1 - int i < 64"
    using assms by auto
  have "bit (push_bit ?j (if bit d i then 1 else (0 :: 64 word))) k \<longleftrightarrow> k = ?j \<and> bit d i"
    using j by (auto simp: bit_push64 bit_of_cond)
  then show ?thesis
    using i lo hi by (simp add: reverse_step_def bit_or_iff e and_push_one_nonzero del: push_bit_of_1)
qed

lemma bit_reverse_fold:
  assumes "0 \<le> n" "n \<le> 64" "m \<le> nat n"
  shows "bit (fold (reverse_step d n) [0..<m] 0) k \<longleftrightarrow>
           k < nat n \<and> nat n - 1 - k < m \<and> bit d (nat n - 1 - k)"
  using assms(3)
proof (induction m)
  case 0
  then show ?case by simp
next
  case (Suc m)
  then have IH: "bit (fold (reverse_step d n) [0..<m] 0) k \<longleftrightarrow>
      k < nat n \<and> nat n - 1 - k < m \<and> bit d (nat n - 1 - k)" by simp
  have "k = nat n - 1 - m \<longleftrightarrow> k < nat n \<and> nat n - 1 - k = m"
    using Suc.prems by auto
  then show ?case
    using Suc.prems assms(1,2) by (auto simp: bit_reverse_step IH less_Suc_eq)
qed

lemma bit_reverse:
  assumes "n \<le> 64"
  shows "bit (reverse d n) k \<longleftrightarrow> int k < n \<and> bit d (nat n - 1 - k)"
proof (cases "0 \<le> n")
  case True
  then show ?thesis
    using bit_reverse_fold [OF True assms order_refl, of d k] by (auto simp: reverse_def)
next
  case False
  then show ?thesis by (simp add: reverse_def)
qed

lemma reverse_masked: "n \<le> 64 \<Longrightarrow> reverse d n AND gen_mask n = reverse d n"
  by (rule word64_eqI) (auto simp: bit_and_gen_mask bit_reverse)

lemma reverse_and_mask: "n \<le> 64 \<Longrightarrow> reverse (d AND gen_mask n) n = reverse d n"
  by (rule word64_eqI) (auto simp: bit_and_gen_mask bit_reverse)

lemma reverse_involution: "n \<le> 64 \<Longrightarrow> reverse (reverse d n) n = d AND gen_mask n"
  by (rule word64_eqI) (auto simp: bit_and_gen_mask bit_reverse)

lemma bits_step:
  "{k. bit (d :: 64 word) k} = (if d AND 1 \<noteq> 0 then {0} else {}) \<union> Suc ` {k. bit (drop_bit 1 d) k}"
proof (rule set_eqI)
  fix k
  show "k \<in> {k. bit d k} \<longleftrightarrow>
      k \<in> (if d AND 1 \<noteq> 0 then {0} else {}) \<union> Suc ` {k. bit (drop_bit 1 d) k}"
    unfolding and_one_nonzero by (cases k) (auto simp: bit_drop_bit_eq image_iff)
qed

lemma finite_bits64 [simp]: "finite {k. bit (d :: 64 word) k}"
  by (rule finite_subset [of _ "{..<64}"]) (auto dest: bit_imp_le_length)

lemma bits_set_loop_card: "bits_set_loop d ret = ret + int (card {k. bit d k})"
proof (induction d ret rule: bits_set_loop.induct)
  case (1 d ret)
  show ?case
  proof (cases "d = 0")
    case True
    then show ?thesis by (simp add: bits_set_loop.simps)
  next
    case False
    have "card {k. bit d k} =
        (if d AND 1 \<noteq> 0 then 1 else 0) + card {k. bit (drop_bit 1 d) k}"
      by (subst bits_step) (simp add: card_image)
    with "1.IH" [OF False] False show ?thesis
      by (simp add: bits_set_loop.simps [of d ret])
  qed
qed

lemma bits_set_card: "bits_set d = int (card {k. bit d k})"
  by (simp add: bits_set_def bits_set_loop_card)

section \<open>Gaps and tolerances\<close>

lemma min_gap_le_max_gap:
  assumes "uint (gap r) < 2147483648" "uint (gap2 r) < 2147483648"
  shows "0 \<le> min_gap r \<and> min_gap r \<le> max_gap r"
  using assms by (auto simp: min_gap_def max_gap_def sint32_small word_less_def)

text \<open>No tolerance computation overflows: the condition under which the \<open>int\<close> arithmetic of
  \<open>expect\<close> and the limits is the arithmetic of the integers.\<close>

definition tolerance_fits :: "hardware \<Rightarrow> ir_remote \<Rightarrow> int \<Rightarrow> bool" where
  "tolerance_fits h r v \<longleftrightarrow> 0 \<le> v \<and> v < 16777216 \<and> 0 \<le> eps r \<and> eps r \<le> 100 \<and>
     0 \<le> aeps r \<and> aeps r < 1073741824 \<and> uint (resolution h) < 1073741824"

definition tolerance :: "hardware \<Rightarrow> ir_remote \<Rightarrow> int \<Rightarrow> int" where
  "tolerance h r v = max (v * eps r div 100) (max (uint (resolution h)) (aeps r))"

lemma eff_aeps_max:
  assumes "0 \<le> aeps r" "aeps r < 2147483648" "uint (resolution h) < 2147483648"
  shows "eff_aeps h r = max (uint (resolution h)) (aeps r)"
proof -
  have "uint (word_of_int (aeps r) :: 32 word) = aeps r"
    using assms by (simp add: uint_word_of_int)
  then show ?thesis
    using assms by (auto simp: eff_aeps_def word_less_def sint32_small)
qed

lemma tolerance_product:
  assumes "tolerance_fits h r v"
  shows "i32 (v * eps r) sdiv 100 = v * eps r div 100"
    and "0 \<le> v * eps r div 100" and "v * eps r div 100 \<le> v"
proof -
  have nn: "0 \<le> v" "0 \<le> eps r" "eps r \<le> 100" "v < 16777216"
    using assms by (auto simp: tolerance_fits_def)
  have le: "v * eps r \<le> v * 100" using nn by (intro mult_left_mono) auto
  have p0: "0 \<le> v * eps r" using nn by simp
  have "i32_range (v * eps r)" using le p0 nn by (intro i32_range_nonneg) linarith+
  with p0 show "i32 (v * eps r) sdiv 100 = v * eps r div 100" by (simp add: sdiv_pos)
  show "0 \<le> v * eps r div 100" using p0 by (simp add: pos_imp_zdiv_nonneg_iff)
  show "v * eps r div 100 \<le> v" using zdiv_mono1 [OF le, of 100] by simp
qed

lemma tolerance_nonneg: "tolerance_fits h r v \<Longrightarrow> 0 \<le> tolerance h r v"
  by (auto simp: tolerance_def tolerance_fits_def max_def)

lemma tolerance_small: "tolerance_fits h r v \<Longrightarrow> tolerance h r v < 1073741824"
  using tolerance_product(3) [of h r v]
  by (auto simp: tolerance_def tolerance_fits_def)

lemma expect_iff:
  assumes "tolerance_fits h r ex" "0 \<le> d" "d < 16777216"
  shows "expect h r d ex \<longleftrightarrow> \<bar>ex - d\<bar> \<le> tolerance h r ex"
proof -
  have ex: "0 \<le> ex" "ex < 16777216" using assms by (auto simp: tolerance_fits_def)
  have rng: "i32_range (ex - d)" "i32_range \<bar>ex - d\<bar>"
    using ex assms(2,3) by (auto simp: i32_range_def)
  have "eff_aeps h r = max (uint (resolution h)) (aeps r)"
    using assms(1) by (intro eff_aeps_max) (auto simp: tolerance_fits_def)
  then show ?thesis
    using rng tolerance_product(1) [OF assms(1)]
    by (simp add: expect_def c_abs_def tolerance_def le_max_iff_disj)
qed

lemma expect_exact:
  assumes "tolerance_fits h r ex"
  shows "expect h r ex ex"
proof -
  have "0 \<le> ex \<and> ex < 16777216" using assms by (auto simp: tolerance_fits_def)
  then show ?thesis using assms by (simp add: expect_iff tolerance_nonneg)
qed

lemma expect_at_least_iff:
  assumes "tolerance_fits h r ex" "0 \<le> d" "d < 16777216"
  shows "expect_at_least h r d ex \<longleftrightarrow> ex - tolerance h r ex \<le> d"
proof -
  have a: "eff_aeps h r = max (uint (resolution h)) (aeps r)"
    using assms(1) by (intro eff_aeps_max) (auto simp: tolerance_fits_def)
  have ex: "ex < 16777216" "max (uint (resolution h)) (aeps r) < 1073741824"
      "0 \<le> max (uint (resolution h)) (aeps r)"
    using assms(1) by (auto simp: tolerance_fits_def)
  have "i32_range (d + ex * eps r div 100)"
    using tolerance_product [OF assms(1)] ex assms(2,3) by (intro i32_range_nonneg) linarith+
  moreover have "i32_range (d + max (uint (resolution h)) (aeps r))"
    using ex assms(2,3) by (intro i32_range_nonneg) linarith+
  ultimately show ?thesis
    by (auto simp: expect_at_least_def a tolerance_product(1) [OF assms(1)] tolerance_def)
qed

lemma expect_at_most_iff:
  assumes "tolerance_fits h r ex"
  shows "expect_at_most h r d ex \<longleftrightarrow> d \<le> ex + tolerance h r ex"
proof -
  have a: "eff_aeps h r = max (uint (resolution h)) (aeps r)"
    using assms(1) by (intro eff_aeps_max) (auto simp: tolerance_fits_def)
  have ex: "0 \<le> ex" "ex < 16777216" "max (uint (resolution h)) (aeps r) < 1073741824"
      "0 \<le> max (uint (resolution h)) (aeps r)"
    using assms(1) by (auto simp: tolerance_fits_def)
  have "i32_range (ex + ex * eps r div 100)"
    using tolerance_product [OF assms(1)] ex by (intro i32_range_nonneg) linarith+
  moreover have "i32_range (ex + max (uint (resolution h)) (aeps r))"
    using ex by (intro i32_range_nonneg) linarith+
  ultimately show ?thesis
    by (auto simp: expect_at_most_def a tolerance_product(1) [OF assms(1)] tolerance_def)
qed

end
