(* ===== verification/Receive.thy ===== *)
theory Receive
  imports IrRemoteH
begin

text \<open>
  The receive buffer of \<open>daemons/receive.c\<close> and the reading of pulses and spaces from it.

  The global \<open>rec_buffer\<close> is the record \<open>rbuf\<close>; its array is a function that is only read
  and written at indices \<open>0..RBUF_SIZE - 1\<close>, any other index is a fault. The record \<open>rx\<close>
  adds what the functions use besides: the \<open>hw\<close> structure, the samples the driver's
  \<open>readdata\<close> will return (one per call; 0, its report of a timeout, when there are no more),
  the byte strings its file descriptor will deliver, and the readings of the clock.
\<close>

section \<open>State\<close>

record rbuf =
  rdata :: "nat \<Rightarrow> lirc_t"
  decoded :: ir_code
  rptr :: int
  wptr :: int
  too_long :: int
  rec_is_biphase :: int
  pendingp :: lirc_t
  pendings :: lirc_t
  rsum :: lirc_t
  last_signal_time :: timeval

record rx = rbuf +
  hw :: hardware
  hw_input :: "lirc_t list"
  hw_read :: "8 word list list"
  clock :: "nat \<Rightarrow> timeval"
  ticks :: nat

definition RBUF_SIZE :: int where [c_eval]: "RBUF_SIZE = 512"
definition REC_SYNC :: int where [c_eval]: "REC_SYNC = 8"
definition MIN_RECEIVE_TIMEOUT :: int where [c_eval]: "MIN_RECEIVE_TIMEOUT = 100000"

section \<open>The world outside\<close>

definition readdata :: "'z rx_scheme \<Rightarrow> lirc_t \<times> 'z rx_scheme" where
  "readdata s = (case hw_input s of [] \<Rightarrow> (0, s) | d # ds \<Rightarrow> (d, s\<lparr>hw_input := ds\<rparr>))"

definition gettimeofday :: "'z rx_scheme \<Rightarrow> timeval \<times> 'z rx_scheme" where
  "gettimeofday s = (clock s (ticks s), s\<lparr>ticks := Suc (ticks s)\<rparr>)"

definition timerisset :: "timeval \<Rightarrow> bool" where
  "timerisset tv \<longleftrightarrow> tv_sec tv \<noteq> 0 \<or> tv_usec tv \<noteq> 0"

section \<open>The buffer\<close>

definition receive_timeout :: "lirc_t \<Rightarrow> lirc_t" where
  "receive_timeout usec =
     (if i32 (2 * usec) < MIN_RECEIVE_TIMEOUT then MIN_RECEIVE_TIMEOUT else i32 (2 * usec))"

definition lirc_t_max :: "lirc_t \<Rightarrow> lirc_t \<Rightarrow> lirc_t" where
  "lirc_t_max a b = (if a > b then a else b)"

definition set_pending_pulse :: "lirc_t \<Rightarrow> 'z rx_scheme \<Rightarrow> 'z rx_scheme" where
  "set_pending_pulse d s = s\<lparr>pendingp := d\<rparr>"

definition set_pending_space :: "lirc_t \<Rightarrow> 'z rx_scheme \<Rightarrow> 'z rx_scheme" where
  "set_pending_space d s = s\<lparr>pendings := d\<rparr>"

definition in_rbuf :: "int \<Rightarrow> bool" where
  "in_rbuf i \<longleftrightarrow> 0 \<le> i \<and> i < RBUF_SIZE"

definition buf_get :: "int \<Rightarrow> 'z rx_scheme \<Rightarrow> lirc_t option" where
  "buf_get i s = (if in_rbuf i then Some (rdata s (nat i)) else None)"

definition buf_set :: "int \<Rightarrow> lirc_t \<Rightarrow> 'z rx_scheme \<Rightarrow> 'z rx_scheme option" where
  "buf_set i d s = (if in_rbuf i then Some (s\<lparr>rdata := (rdata s)(nat i := d)\<rparr>) else None)"

definition elapsed_since_signal :: "'z rx_scheme \<Rightarrow> ulong \<times> 'z rx_scheme" where
  "elapsed_since_signal s =
     (if timerisset (last_signal_time s)
      then let (current, s) = gettimeofday s in (time_elapsed (last_signal_time s) current, s)
      else (0, s))"

text \<open>The sample the driver delivers within \<open>maxusec\<close>: none is asked for when that much
  time has passed since the last signal already.\<close>

definition fetch_sample :: "lirc_t \<Rightarrow> 'z rx_scheme \<Rightarrow> lirc_t \<times> 'z rx_scheme" where
  "fetch_sample maxusec s =
     (let (elapsed, s) = elapsed_since_signal s
      in if elapsed < word_of_int maxusec then readdata s else (0, s))"

lemma fetch_sample_input:
  "(d, s') = fetch_sample maxusec s \<Longrightarrow> d \<noteq> 0 \<Longrightarrow> length (hw_input s') < length (hw_input s)"
  by (auto simp: fetch_sample_def elapsed_since_signal_def gettimeofday_def readdata_def
      split: prod.splits if_splits list.splits)

lemma fetch_sample_plain:
  assumes "\<not> timerisset (last_signal_time s)" "0 < maxusec" "maxusec < 18446744073709551616"
  shows "fetch_sample maxusec s = readdata s"
  using assms
  by (simp add: fetch_sample_def elapsed_since_signal_def word_less_def uint_word_of_int)

function get_next_rec_buffer_internal ::
  "lirc_t \<Rightarrow> 'z rx_scheme \<Rightarrow> (lirc_t \<times> 'z rx_scheme) option" where
  "get_next_rec_buffer_internal maxusec s =
     (if rptr s < wptr s then
        do { d \<leftarrow> buf_get (rptr s) s;
             Some (d, s\<lparr>rsum := i32 (rsum s + (d AND PULSE_MASK)), rptr := rptr s + 1\<rparr>) }
      else if wptr s < RBUF_SIZE then
        (case fetch_sample maxusec s of (d, s1) \<Rightarrow>
           if d = 0 then Some (0, s1)
           else if LIRC_IS_TIMEOUT d then
             (if LIRC_VALUE d < maxusec
              then get_next_rec_buffer_internal (i32 (maxusec - LIRC_VALUE d)) s1
              else Some (0, s1))
           else
             do { s2 \<leftarrow> buf_set (wptr s1) d s1;
                  e \<leftarrow> buf_get (rptr s2) s2;
                  s3 \<leftarrow> Some (s2\<lparr>rsum := i32 (rsum s2 + (e AND PULSE_MASK)),
                                wptr := wptr s2 + 1, rptr := rptr s2 + 1\<rparr>);
                  f \<leftarrow> buf_get (rptr s3 - 1) s3;
                  Some (f, s3) })
      else Some (0, s\<lparr>too_long := 1\<rparr>))"
  by pat_completeness auto
termination
  by (relation "measure (\<lambda>(_, s). length (hw_input s))") (auto intro: fetch_sample_input)

declare get_next_rec_buffer_internal.simps [simp del]

definition get_next_rec_buffer :: "lirc_t \<Rightarrow> 'z rx_scheme \<Rightarrow> (lirc_t \<times> 'z rx_scheme) option" where
  "get_next_rec_buffer maxusec s = get_next_rec_buffer_internal (receive_timeout maxusec) s"

definition init_rec_buffer :: "'z rx_scheme \<Rightarrow> 'z rx_scheme" where
  "init_rec_buffer s = s\<lparr>rdata := (\<lambda>_. 0), decoded := 0, rptr := 0, wptr := 0, too_long := 0,
     rec_is_biphase := 0, pendingp := 0, pendings := 0, rsum := 0, last_signal_time := timeval0\<rparr>"

definition rewind_rec_buffer :: "'z rx_scheme \<Rightarrow> 'z rx_scheme" where
  "rewind_rec_buffer s =
     s\<lparr>rptr := 0, too_long := 0, pendingp := 0, pendings := 0, rsum := 0\<rparr>"

text \<open>\<open>read (hw.fd, buffer, count)\<close>: the bytes of the next delivery; anything but exactly
  \<open>count\<close> bytes counts as a failure. \<open>buffer\<close> has \<open>sizeof (ir_code)\<close> bytes.\<close>

definition hw_fd_read :: "'z rx_scheme \<Rightarrow> 8 word list \<times> 'z rx_scheme" where
  "hw_fd_read s = (case hw_read s of [] \<Rightarrow> ([], s) | b # bs \<Rightarrow> (b, s\<lparr>hw_read := bs\<rparr>))"

definition lirccode_bytes :: "hardware \<Rightarrow> nat" where
  "lirccode_bytes h =
     unat (code_length h) div 8 + (if unat (code_length h) mod 8 \<noteq> 0 then 1 else 0)"

definition decoded_of_bytes :: "8 word list \<Rightarrow> ir_code" where
  "decoded_of_bytes bs = fold (\<lambda>b c. push_bit 8 c + ucast b) bs 0"

definition clear_rec_buffer_code :: "'z rx_scheme \<Rightarrow> (bool \<times> 'z rx_scheme) option" where
  "clear_rec_buffer_code s =
     (let count = lirccode_bytes (hw s)
      in if count > 8 then None
         else let (b, s) = hw_fd_read s
              in if length b \<noteq> count then Some (False, s)
                 else Some (True, s\<lparr>decoded := decoded_of_bytes b\<rparr>))"

definition clear_rec_buffer_signal :: "'z rx_scheme \<Rightarrow> 'z rx_scheme option" where
  "clear_rec_buffer_signal s =
     (let move = wptr s - rptr s
      in if move > 0 \<and> rptr s > 0
         then if wptr s \<le> RBUF_SIZE
              then Some (s\<lparr>rdata := (\<lambda>i. if int i < move then rdata s (i + nat (rptr s))
                                         else rdata s i),
                           wptr := wptr s - rptr s\<rparr>)
              else None
         else let s = s\<lparr>wptr := 0\<rparr>;
                  (d, s) = readdata s
              in do { s \<leftarrow> buf_set (wptr s) d s; Some (s\<lparr>wptr := wptr s + 1\<rparr>) })"

definition clear_rec_buffer :: "'z rx_scheme \<Rightarrow> (bool \<times> 'z rx_scheme) option" where
  "clear_rec_buffer s =
     (let s = s\<lparr>last_signal_time := timeval0\<rparr>
      in do { (ok, s) \<leftarrow> if rec_mode (hw s) = LIRC_MODE_LIRCCODE then clear_rec_buffer_code s
                        else do { s \<leftarrow> clear_rec_buffer_signal s; Some (True, s) };
              if ok then Some (True, (rewind_rec_buffer s)\<lparr>rec_is_biphase := 0\<rparr>)
              else Some (False, s) })"

definition unget_rec_buffer :: "int \<Rightarrow> 'z rx_scheme \<Rightarrow> 'z rx_scheme option" where
  "unget_rec_buffer count s =
     (if count = 1 \<or> count = 2 then
        do { s \<leftarrow> Some (s\<lparr>rptr := rptr s - count\<rparr>);
             d \<leftarrow> buf_get (rptr s) s;
             s \<leftarrow> Some (s\<lparr>rsum := i32 (rsum s - (d AND PULSE_MASK))\<rparr>);
             if count = 2 then
               do { e \<leftarrow> buf_get (rptr s + 1) s;
                    Some (s\<lparr>rsum := i32 (rsum s - (e AND PULSE_MASK))\<rparr>) }
             else Some s }
      else Some s)"

definition unget_rec_buffer_delta :: "lirc_t \<Rightarrow> 'z rx_scheme \<Rightarrow> 'z rx_scheme option" where
  "unget_rec_buffer_delta delta s =
     buf_set (rptr s - 1) delta
       (s\<lparr>rptr := rptr s - 1, rsum := i32 (rsum s - (delta AND PULSE_MASK))\<rparr>)"

section \<open>Pulses and spaces\<close>

definition get_next_pulse :: "lirc_t \<Rightarrow> 'z rx_scheme \<Rightarrow> (lirc_t \<times> 'z rx_scheme) option" where
  "get_next_pulse maxusec s =
     do { (d, s) \<leftarrow> get_next_rec_buffer maxusec s;
          if d = 0 then Some (0, s)
          else if \<not> is_pulse d then Some (0, s)
          else Some (d AND PULSE_MASK, s) }"

definition get_next_space :: "lirc_t \<Rightarrow> 'z rx_scheme \<Rightarrow> (lirc_t \<times> 'z rx_scheme) option" where
  "get_next_space maxusec s =
     do { (d, s) \<leftarrow> get_next_rec_buffer maxusec s;
          if d = 0 then Some (0, s)
          else if \<not> is_space d then Some (0, s)
          else Some (d, s) }"

definition sync_pending_pulse :: "ir_remote \<Rightarrow> 'z rx_scheme \<Rightarrow> (bool \<times> 'z rx_scheme) option" where
  "sync_pending_pulse r s =
     (if pendingp s > 0 then
        do { (deltap, s) \<leftarrow> get_next_pulse (pendingp s) s;
             if deltap = 0 then Some (False, s)
             else if \<not> expect (hw s) r deltap (pendingp s) then Some (False, s)
             else Some (True, set_pending_pulse 0 s) }
      else Some (True, s))"

definition sync_pending_space :: "ir_remote \<Rightarrow> 'z rx_scheme \<Rightarrow> (bool \<times> 'z rx_scheme) option" where
  "sync_pending_space r s =
     (if pendings s > 0 then
        do { (deltas, s) \<leftarrow> get_next_space (pendings s) s;
             if deltas = 0 then Some (False, s)
             else if \<not> expect (hw s) r deltas (pendings s) then Some (False, s)
             else Some (True, set_pending_space 0 s) }
      else Some (True, s))"

definition expectpulse :: "ir_remote \<Rightarrow> int \<Rightarrow> 'z rx_scheme \<Rightarrow> (bool \<times> 'z rx_scheme) option" where
  "expectpulse r exdelta s =
     do { (ok, s) \<leftarrow> sync_pending_space r s;
          if \<not> ok then Some (False, s)
          else do {
            (deltap, s) \<leftarrow> get_next_pulse (i32 (pendingp s + exdelta)) s;
            if deltap = 0 then Some (False, s)
            else if pendingp s > 0 then
              (if pendingp s > deltap then Some (False, s)
               else if \<not> expect (hw s) r (i32 (deltap - pendingp s)) exdelta then Some (False, s)
               else Some (True, set_pending_pulse 0 s))
            else Some (expect (hw s) r deltap exdelta, s) } }"

definition expectspace :: "ir_remote \<Rightarrow> int \<Rightarrow> 'z rx_scheme \<Rightarrow> (bool \<times> 'z rx_scheme) option" where
  "expectspace r exdelta s =
     do { (ok, s) \<leftarrow> sync_pending_pulse r s;
          if \<not> ok then Some (False, s)
          else do {
            (deltas, s) \<leftarrow> get_next_space (i32 (pendings s + exdelta)) s;
            if deltas = 0 then Some (False, s)
            else if pendings s > 0 then
              (if pendings s > deltas then Some (False, s)
               else if \<not> expect (hw s) r (i32 (deltas - pendings s)) exdelta then Some (False, s)
               else Some (True, set_pending_space 0 s))
            else Some (expect (hw s) r deltas exdelta, s) } }"

text \<open>
  The protocol decoders of \<open>daemons/receive.c\<close>, built on this buffer.

  Functions that only read the remote take it as a value. \<open>sync_rec_buffer\<close> and
  \<open>receive_decode\<close> work on the store of remotes, because \<open>last_remote\<close> may be the remote that
  is tried; \<open>get_data\<close> returns the remote too, because for the Goldstar protocol it overwrites
  the lengths of a one. Where the C code leaves a loop by \<open>return\<close>, the recursive function
  returns. The C result \<open>(ir_code) -1\<close> is the word \<open>- 1\<close>.
\<close>

record decoder = rx +
  store :: "addr \<Rightarrow> ir_remote"
  last_remote :: "addr option"

section \<open>One bit\<close>

definition expect_or_unget ::
  "bool \<Rightarrow> ('z rx_scheme \<Rightarrow> (bool \<times> 'z rx_scheme) option) \<Rightarrow> int \<Rightarrow> 'z rx_scheme \<Rightarrow> (bool \<times> 'z rx_scheme) option" where
  "expect_or_unget guard op n s =
     (if guard then
        do { (ok, s) \<leftarrow> op s;
             if ok then Some (True, s) else do { s \<leftarrow> unget_rec_buffer n s; Some (False, s) } }
      else Some (True, s))"

definition rc6_bit :: "ir_remote \<Rightarrow> int \<Rightarrow> bool" where
  "rc6_bit r b \<longleftrightarrow> shl64 1 (i32 (bit_count r - 1 - b)) AND rc6_mask r \<noteq> 0"

definition expectone :: "ir_remote \<Rightarrow> int \<Rightarrow> 'z rx_scheme \<Rightarrow> (bool \<times> 'z rx_scheme) option" where
  "expectone r b s =
     (if is_biphase r then
        (if rc6_bit r b then
           do { (ok, s) \<leftarrow> expect_or_unget (sone r > 0) (expectspace r (i32 (2 * sone r))) 1 s;
                if ok then Some (True, set_pending_pulse (i32 (2 * pone r)) s) else Some (False, s) }
         else
           do { (ok, s) \<leftarrow> expect_or_unget (sone r > 0) (expectspace r (sone r)) 1 s;
                if ok then Some (True, set_pending_pulse (pone r) s) else Some (False, s) })
      else if is_space_first r then
        do { (ok, s) \<leftarrow> expect_or_unget (sone r > 0) (expectspace r (sone r)) 1 s;
             if ok then expect_or_unget (pone r > 0) (expectpulse r (pone r)) 2 s
             else Some (False, s) }
      else
        do { (ok, s) \<leftarrow> expect_or_unget (pone r > 0) (expectpulse r (pone r)) 1 s;
             if \<not> ok then Some (False, s)
             else if ptrail r > 0 then
               expect_or_unget (sone r > 0) (expectspace r (sone r)) 2 s
             else Some (True, set_pending_space (sone r) s) })"

definition expectzero :: "ir_remote \<Rightarrow> int \<Rightarrow> 'z rx_scheme \<Rightarrow> (bool \<times> 'z rx_scheme) option" where
  "expectzero r b s =
     (if is_biphase r then
        (if rc6_bit r b then
           do { (ok, s) \<leftarrow> expect_or_unget True (expectpulse r (i32 (2 * pzero r))) 1 s;
                if ok then Some (True, set_pending_space (i32 (2 * szero r)) s)
                else Some (False, s) }
         else
           do { (ok, s) \<leftarrow> expect_or_unget True (expectpulse r (pzero r)) 1 s;
                if ok then Some (True, set_pending_space (szero r) s) else Some (False, s) })
      else if is_space_first r then
        do { (ok, s) \<leftarrow> expect_or_unget (szero r > 0) (expectspace r (szero r)) 1 s;
             if ok then expect_or_unget (pzero r > 0) (expectpulse r (pzero r)) 2 s
             else Some (False, s) }
      else
        do { (ok, s) \<leftarrow> expect_or_unget True (expectpulse r (pzero r)) 1 s;
             if \<not> ok then Some (False, s)
             else if ptrail r > 0 then
               expect_or_unget True (expectspace r (szero r)) 2 s
             else Some (True, set_pending_space (szero r) s) })"

section \<open>Synchronisation\<close>

text \<open>The search for a gap that is long enough for the remote that sent last, over at most
  \<open>REC_SYNC\<close> further pulse/space pairs; 0 when there is none.\<close>

function sync_loop ::
  "addr \<Rightarrow> int \<Rightarrow> lirc_t \<Rightarrow> 'z decoder_scheme \<Rightarrow> (lirc_t \<times> 'z decoder_scheme) option" where
  "sync_loop lp count deltas s =
     (if expect_at_least (hw s) (store s lp) deltas (min_remaining_gap (store s lp))
      then Some (deltas, s)
      else
        do { (deltap, s) \<leftarrow> get_next_pulse 1000000 s;
             if deltap = 0 then Some (0, s)
             else do {
               (deltas, s) \<leftarrow> get_next_space 1000000 s;
               if deltas = 0 then Some (0, s)
               else if count + 1 > REC_SYNC then Some (0, s)
               else sync_loop lp (count + 1) deltas s } })"
  by pat_completeness auto
termination
  by (relation "measure (\<lambda>(_, count, _, _). nat (REC_SYNC + 1 - count))") auto

declare sync_loop.simps [simp del]

definition sync_rec_buffer ::
  "addr \<Rightarrow> 'z decoder_scheme \<Rightarrow> (lirc_t \<times> 'z decoder_scheme) option" where
  "sync_rec_buffer p s =
     do { (deltas, s) \<leftarrow> get_next_space 1000000 s;
          if deltas = 0 then Some (0, s)
          else do {
            (deltas, s) \<leftarrow>
              (case last_remote s of
                 Some lp \<Rightarrow>
                   if is_rcmm (store s p) then Some (deltas, s)
                   else do {
                     (deltas, s) \<leftarrow> sync_loop lp 0 deltas s;
                     if deltas \<noteq> 0 \<and> has_toggle_mask (store s p) \<and>
                        \<not> expect_at_most (hw s) (store s lp) deltas (max_remaining_gap (store s lp))
                     then Some (deltas, s\<lparr>store := (store s)
                            (p := (store s p)\<lparr>toggle_mask_state := 0, toggle_code := None\<rparr>)\<rparr>)
                     else Some (deltas, s) }
               | None \<Rightarrow> Some (deltas, s));
            if deltas = 0 then Some (0, s) else Some (deltas, s\<lparr>rsum := 0\<rparr>) } }"

section \<open>Header, foot, leading and trailing pulses, gap, repeat\<close>

definition get_header_rcmm :: "ir_remote \<Rightarrow> 'z rx_scheme \<Rightarrow> (bool \<times> 'z rx_scheme) option" where
  "get_header_rcmm r s =
     do { (deltap, s) \<leftarrow> get_next_pulse (phead r) s;
          if deltap = 0 then do { s \<leftarrow> unget_rec_buffer 1 s; Some (False, s) }
          else do {
            (deltas, s) \<leftarrow> get_next_space (shead r) s;
            if deltas = 0 then do { s \<leftarrow> unget_rec_buffer 2 s; Some (False, s) }
            else if expect (hw s) r (i32 (deltap + deltas)) (i32 (phead r + shead r))
            then Some (True, s)
            else do { s \<leftarrow> unget_rec_buffer 2 s; Some (False, s) } } }"

text \<open>\<open>f (\<dots>) && g (\<dots>) && \<dots>\<close>: the expectations in order, up to the first that fails.\<close>

fun expect_all :: "('z rx_scheme \<Rightarrow> (bool \<times> 'z rx_scheme) option) list \<Rightarrow> 'z rx_scheme \<Rightarrow> (bool \<times> 'z rx_scheme) option" where
  "expect_all [] s = Some (True, s)"
| "expect_all (f # fs) s = do { (ok, s) \<leftarrow> f s; if ok then expect_all fs s else Some (False, s) }"

definition get_header :: "ir_remote \<Rightarrow> 'z rx_scheme \<Rightarrow> (bool \<times> 'z rx_scheme) option" where
  "get_header r s =
     (if is_rcmm r then get_header_rcmm r s
      else if is_bo r then
        expect_all [expectpulse r (pone r), expectspace r (sone r),
                    expectpulse r (pone r), expectspace r (sone r),
                    expectpulse r (phead r), expectspace r (shead r)] s
      else if shead r = 0 then
        do { (ok, s) \<leftarrow> sync_pending_space r s;
             if ok then Some (True, set_pending_pulse (phead r) s) else Some (False, s) }
      else
        do { (ok, s) \<leftarrow> expect_or_unget True (expectpulse r (phead r)) 1 s;
             if \<not> ok then Some (False, s)
             else if flags r AND NO_HEAD_REP \<noteq> 0 then
               do { (deltas, s) \<leftarrow> get_next_space (shead r) s;
                    if deltas \<noteq> 0 then
                      (if expect (hw s) r (shead r) deltas then Some (True, s)
                       else do { s \<leftarrow> unget_rec_buffer 2 s; Some (False, s) })
                    else Some (True, set_pending_space (shead r) s) }
             else Some (True, set_pending_space (shead r) s) })"

definition get_foot :: "ir_remote \<Rightarrow> 'z rx_scheme \<Rightarrow> (bool \<times> 'z rx_scheme) option" where
  "get_foot r s = expect_all [expectspace r (sfoot r), expectpulse r (pfoot r)] s"

definition get_lead :: "ir_remote \<Rightarrow> 'z rx_scheme \<Rightarrow> (bool \<times> 'z rx_scheme) option" where
  "get_lead r s =
     (if plead r = 0 then Some (True, s)
      else do { (ok, s) \<leftarrow> sync_pending_space r s;
                if ok then Some (True, set_pending_pulse (plead r) s) else Some (False, s) })"

definition get_trail :: "ir_remote \<Rightarrow> 'z rx_scheme \<Rightarrow> (bool \<times> 'z rx_scheme) option" where
  "get_trail r s =
     do { (ok, s) \<leftarrow> if ptrail r \<noteq> 0 then expectpulse r (ptrail r) s else Some (True, s);
          if \<not> ok then Some (False, s)
          else if pendingp s > 0 then sync_pending_pulse r s
          else Some (True, s) }"

definition get_gap :: "ir_remote \<Rightarrow> lirc_t \<Rightarrow> 'z rx_scheme \<Rightarrow> (bool \<times> 'z rx_scheme) option" where
  "get_gap r g s =
     do { (d, s) \<leftarrow> get_next_rec_buffer (i32 (g - i32 (g * eps r) sdiv 100)) s;
          if d = 0 then Some (True, s)
          else if \<not> is_space d then Some (False, s)
          else do { s \<leftarrow> unget_rec_buffer 1 s;
                    Some (expect_at_least (hw s) r d g, s) } }"

text \<open>\<open>g > rec_buffer.sum ? g - rec_buffer.sum : 0\<close>\<close>

definition rest_of_gap :: "lirc_t \<Rightarrow> lirc_t \<Rightarrow> lirc_t" where
  "rest_of_gap g sm = (if g > sm then i32 (g - sm) else 0)"

definition repeat_gap_or :: "ir_remote \<Rightarrow> lirc_t \<Rightarrow> lirc_t \<Rightarrow> lirc_t" where
  "repeat_gap_or r g sm =
     (if is_const r then rest_of_gap g sm
      else if has_repeat_gap r then sint (repeat_gap r) else g)"

definition get_repeat :: "ir_remote \<Rightarrow> 'z rx_scheme \<Rightarrow> (bool \<times> 'z rx_scheme) option" where
  "get_repeat r s =
     do { (ok, s) \<leftarrow> get_lead r s;
          if \<not> ok then Some (False, s)
          else do {
            (ok, s) \<leftarrow>
              if is_biphase r
              then expect_all [expectspace r (srepeat r), expectpulse r (prepeat r)] s
              else do { (ok, s) \<leftarrow> expectpulse r (prepeat r) s;
                        if ok then Some (True, set_pending_space (srepeat r) s)
                        else Some (False, s) };
            if \<not> ok then Some (False, s)
            else do {
              (ok, s) \<leftarrow> get_trail r s;
              if \<not> ok then Some (False, s)
              else get_gap r (repeat_gap_or r (min_gap r) (rsum s)) s } } }"

end
