(* ===== verification/GetData.thy ===== *)
theory GetData
  imports Receive
begin

text \<open>
  \<open>get_data\<close> of \<open>daemons/receive.c\<close>: the bits of one field in each of the protocols, one
  definition per branch of the C function.
\<close>

section \<open>RC-MM: two bits per pulse/space pair\<close>

definition rcmm_symbol :: "hardware \<Rightarrow> ir_remote \<Rightarrow> lirc_t \<Rightarrow> ir_code option" where
  "rcmm_symbol h r sm =
     (if expect h r sm (i32 (pzero r + szero r)) then Some 0
      else if expect h r sm (i32 (pone r + sone r)) then Some 1
      else if expect h r sm (i32 (ptwo r + stwo r)) then Some 2
      else if expect h r sm (i32 (pthree r + sthree r)) then Some 3
      else None)"

definition all_pulses :: "ir_remote \<Rightarrow> lirc_t" where
  "all_pulses r = i32 (pzero r + pone r + ptwo r + pthree r)"

definition all_spaces :: "ir_remote \<Rightarrow> lirc_t" where
  "all_spaces r = i32 (szero r + sone r + stwo r + sthree r)"

function rcmm_loop ::
  "ir_remote \<Rightarrow> int \<Rightarrow> int \<Rightarrow> ir_code \<Rightarrow> 'z rx_scheme \<Rightarrow> (ir_code \<times> 'z rx_scheme) option" where
  "rcmm_loop r nbits i code s =
     (if i < nbits then
        do { (deltap, s) \<leftarrow> get_next_pulse (all_pulses r) s;
             (deltas, s) \<leftarrow> get_next_space (all_spaces r) s;
             if deltap = 0 \<or> deltas = 0 then Some (- 1, s)
             else case rcmm_symbol (hw s) r (i32 (deltap + deltas)) of
                    None \<Rightarrow> Some (- 1, s)
                  | Some d \<Rightarrow> rcmm_loop r nbits (i + 2) (push_bit 2 code OR d) s }
      else Some (code, s))"
  by pat_completeness auto
termination
  by (relation "measure (\<lambda>(_, nbits, i, _, _). nat (nbits - i))") auto

declare rcmm_loop.simps [simp del]

definition get_data_rcmm ::
  "ir_remote \<Rightarrow> int \<Rightarrow> int \<Rightarrow> 'z rx_scheme \<Rightarrow> (ir_code \<times> 'z rx_scheme) option" where
  "get_data_rcmm r nbits dn s =
     (if nbits mod 2 \<noteq> 0 \<or> dn mod 2 \<noteq> 0 then Some (- 1, s)
      else do { (ok, s) \<leftarrow> sync_pending_space r s;
                if \<not> ok then Some (0, s) else rcmm_loop r nbits 0 0 s })"

section \<open>Grundig: pairs of space/pulse lengths\<close>

definition grundig_state :: "hardware \<Rightarrow> ir_remote \<Rightarrow> lirc_t \<Rightarrow> int option" where
  "grundig_state h r sm =
     (if expect h r sm (i32 (szero r + pzero r)) then Some 0
      else if expect h r sm (i32 (sone r + pone r)) then Some 1
      else if expect h r sm (i32 (stwo r + ptwo r)) then Some 2
      else if expect h r sm (i32 (sthree r + pthree r)) then Some 3
      else None)"

text \<open>The two bits that the previous and the current length stand for: \<open>6T\<close>, \<open>4T2T\<close>,
  \<open>3T3T\<close>, \<open>2T4T\<close>. The test \<open>state \<noteq> - 1\<close> of the loop below holds for every state that
  \<open>grundig_state\<close> returns; it makes the termination argument local.\<close>

definition grundig_bits :: "int \<Rightarrow> int \<Rightarrow> ir_code option" where
  "grundig_bits laststate state =
     (if state = 3 then Some 0
      else if laststate = 2 \<and> state = 0 then Some 1
      else if laststate = 1 \<and> state = 1 then Some 2
      else if laststate = 0 \<and> state = 2 then Some 3
      else None)"

function grundig_loop ::
  "ir_remote \<Rightarrow> int \<Rightarrow> int \<Rightarrow> int \<Rightarrow> ir_code \<Rightarrow> 'z rx_scheme \<Rightarrow> (ir_code \<times> 'z rx_scheme) option" where
  "grundig_loop r nbits i laststate code s =
     (if i < nbits then
        do { (deltas, s) \<leftarrow> get_next_space (all_spaces r) s;
             (deltap, s) \<leftarrow> get_next_pulse (all_pulses r) s;
             if deltas = 0 \<or> deltap = 0 then Some (- 1, s)
             else case grundig_state (hw s) r (i32 (deltas + deltap)) of
                    None \<Rightarrow> Some (- 1, s)
                  | Some state \<Rightarrow>
                     (case grundig_bits laststate state of
                        Some d \<Rightarrow> grundig_loop r nbits (i + 2) (- 1) (push_bit 2 code OR d) s
                      | None \<Rightarrow>
                          if laststate = - 1 \<and> state \<noteq> - 1
                          then grundig_loop r nbits i state code s
                          else Some (- 1, s)) }
      else Some (code, s))"
  by pat_completeness auto
termination
  by (relation "measure (\<lambda>(_, nbits, i, laststate, _, _).
        2 * nat (nbits - i) + (if laststate = - 1 then 1 else 0))") auto

declare grundig_loop.simps [simp del]

definition get_data_grundig ::
  "ir_remote \<Rightarrow> int \<Rightarrow> int \<Rightarrow> 'z rx_scheme \<Rightarrow> (ir_code \<times> 'z rx_scheme) option" where
  "get_data_grundig r nbits dn s =
     (if nbits mod 2 \<noteq> 0 \<or> dn mod 2 \<noteq> 0 then Some (- 1, s)
      else do { (ok, s) \<leftarrow> sync_pending_pulse r s;
                if \<not> ok then Some (- 1, s) else grundig_loop r nbits 0 (- 1) 0 s })"

section \<open>Bang and Olufsen: the length depends on the previous bit\<close>

definition bo_bit :: "hardware \<Rightarrow> ir_remote \<Rightarrow> bool \<Rightarrow> lirc_t \<Rightarrow> lirc_t \<Rightarrow> bool option" where
  "bo_bit h r lastbit deltap deltas =
     (let (p0, s0, p1, s1) =
            (if lastbit then (pone r, sone r, ptwo r, stwo r)
             else (ptwo r, stwo r, pthree r, sthree r))
      in if expect h r deltap p0 \<and> expect h r deltas s0 then Some False
         else if expect h r deltap p1 \<and> expect h r deltas s1 then Some True
         else None)"

function bo_loop ::
  "ir_remote \<Rightarrow> int \<Rightarrow> int \<Rightarrow> bool \<Rightarrow> ir_code \<Rightarrow> 'z rx_scheme \<Rightarrow> (ir_code \<times> 'z rx_scheme) option" where
  "bo_loop r nbits i lastbit code s =
     (if i < nbits then
        do { (deltap, s) \<leftarrow> get_next_pulse (all_pulses r) s;
             (deltas, s) \<leftarrow> get_next_space (all_spaces r) s;
             if deltap = 0 \<or> deltas = 0 then Some (- 1, s)
             else case bo_bit (hw s) r lastbit deltap deltas of
                    None \<Rightarrow> Some (- 1, s)
                  | Some d \<Rightarrow>
                      bo_loop r nbits (i + 1) d (push_bit 1 code OR (if d then 1 else 0)) s }
      else Some (code, s))"
  by pat_completeness auto
termination
  by (relation "measure (\<lambda>(_, nbits, i, _, _, _). nat (nbits - i))") auto

declare bo_loop.simps [simp del]

definition get_data_bo ::
  "ir_remote \<Rightarrow> int \<Rightarrow> 'z rx_scheme \<Rightarrow> (ir_code \<times> 'z rx_scheme) option" where
  "get_data_bo r nbits s = bo_loop r nbits 0 True 0 s"

section \<open>XMP: a nibble per pulse/space pair\<close>

text \<open>\<open>n = (sum - (pzero + szero) + sone / 2) / sone\<close>, converted to an unsigned 64-bit value;
  \<open>sone\<close> = 0 is a division by zero.\<close>

definition xmp_nibble :: "ir_remote \<Rightarrow> lirc_t \<Rightarrow> ir_code option" where
  "xmp_nibble r sm =
     (if sone r = 0 then None
      else Some (word_of_int
             (i32 (i32 (sm - i32 (pzero r + szero r)) + sone r sdiv 2) sdiv sone r)))"

function xmp_loop ::
  "ir_remote \<Rightarrow> int \<Rightarrow> int \<Rightarrow> ir_code \<Rightarrow> 'z rx_scheme \<Rightarrow> (ir_code \<times> 'z rx_scheme) option" where
  "xmp_loop r nbits i code s =
     (if i < nbits then
        do { (deltap, s) \<leftarrow> get_next_pulse (pzero r) s;
             (deltas, s) \<leftarrow> get_next_space (i32 (szero r + i32 (16 * sone r))) s;
             if deltap = 0 \<or> deltas = 0 then Some (- 1, s)
             else do {
               n \<leftarrow> xmp_nibble r (i32 (deltap + deltas));
               if n \<ge> 16 then Some (- 1, s)
               else xmp_loop r nbits (i + 4) (push_bit 4 code OR n) s } }
      else Some (code, s))"
  by pat_completeness auto
termination
  by (relation "measure (\<lambda>(_, nbits, i, _, _). nat (nbits - i))") auto

declare xmp_loop.simps [simp del]

definition get_data_xmp ::
  "ir_remote \<Rightarrow> int \<Rightarrow> int \<Rightarrow> 'z rx_scheme \<Rightarrow> (ir_code \<times> 'z rx_scheme) option" where
  "get_data_xmp r nbits dn s =
     (if nbits mod 4 \<noteq> 0 \<or> dn mod 4 \<noteq> 0 then Some (- 1, s)
      else do { (ok, s) \<leftarrow> sync_pending_space r s;
                if \<not> ok then Some (0, s) else xmp_loop r nbits 0 0 s })"

section \<open>One bit at a time\<close>

text \<open>For Goldstar the remote's lengths of a one are replaced before each bit, in place.\<close>

definition goldstar_set :: "ir_remote \<Rightarrow> int \<Rightarrow> ir_remote" where
  "goldstar_set r k =
     (if is_goldstar r then
        (if k mod 2 \<noteq> 0 then r\<lparr>pone := ptwo r, sone := stwo r\<rparr>
         else r\<lparr>pone := pthree r, sone := sthree r\<rparr>)
      else r)"

function bits_loop ::
  "ir_remote \<Rightarrow> int \<Rightarrow> int \<Rightarrow> int \<Rightarrow> ir_code \<Rightarrow> 'z rx_scheme \<Rightarrow> (ir_code \<times> ir_remote \<times> 'z rx_scheme) option" where
  "bits_loop r nbits dn i code s =
     (if i < nbits then
        do { r \<leftarrow> Some (goldstar_set r (dn + i));
             (one, s) \<leftarrow> expectone r (dn + i) s;
             if one then bits_loop r nbits dn (i + 1) (push_bit 1 code OR 1) s
             else do {
               (zero, s) \<leftarrow> expectzero r (dn + i) s;
               if zero then bits_loop r nbits dn (i + 1) (push_bit 1 code) s
               else Some (- 1, r, s) } }
      else Some (code, r, s))"
  by pat_completeness auto
termination
  by (relation "measure (\<lambda>(_, nbits, _, i, _, _). nat (nbits - i))") auto

declare bits_loop.simps [simp del]

section \<open>Serial: a UART decoded from pulse and space lengths\<close>

text \<open>The local variables of the branch that its loop changes.\<close>

record serial_st =
  ser_delta :: lirc_t
  ser_orig :: lirc_t
  ser_received :: int
  ser_space :: bool
  ser_stop_bit :: bool
  ser_parity :: bool
  ser_gap_delta :: lirc_t
  ser_code :: ir_code

text \<open>And those it computes once.\<close>

record serial_cfg =
  cfg_base :: lirc_t
  cfg_stop :: lirc_t
  cfg_max_space :: lirc_t
  cfg_max_pulse :: lirc_t
  cfg_parity_bit :: int
  cfg_bits :: int

definition serial_config :: "ir_remote \<Rightarrow> int \<Rightarrow> serial_cfg option" where
  "serial_config r nbits =
     (if baud r = 0 then None
      else
        let base = sint (1000000 div baud r);
            stop = sint ((word_of_int base * stop_bits r) div 2);
            max_space = sint (word_of_int (sone r) * bits_in_byte r + word_of_int stop);
            max_pulse = sint (word_of_int (pzero r) * (1 + bits_in_byte r))
        in if parity r = IR_PARITY_NONE then
             Some \<lparr>cfg_base = base, cfg_stop = stop, cfg_max_space = max_space,
                   cfg_max_pulse = max_pulse, cfg_parity_bit = 0, cfg_bits = nbits\<rparr>
           else if bits_in_byte r = 0 then None
           else
             Some \<lparr>cfg_base = base, cfg_stop = stop, cfg_max_space = i32 (max_space + sone r),
                   cfg_max_pulse = i32 (max_pulse + pzero r), cfg_parity_bit = 1,
                   cfg_bits = sint (word_of_int nbits + word_of_int nbits div bits_in_byte r)\<rparr>)"

definition serial_fetch ::
  "ir_remote \<Rightarrow> serial_cfg \<Rightarrow> serial_st \<Rightarrow> 'z rx_scheme \<Rightarrow> (serial_st \<times> 'z rx_scheme) option" where
  "serial_fetch r c l s =
     (if ser_delta l = 0 then
        do { (d, s) \<leftarrow> if ser_space l then get_next_space (cfg_max_space c) s
                       else get_next_pulse (cfg_max_pulse c) s;
             d \<leftarrow> Some (if d = 0 \<and> ser_space l \<and>
                          word_of_int (ser_received l) + bits_in_byte r + word_of_int (cfg_parity_bit c)
                            \<ge> (word_of_int (cfg_bits c) :: u32)
                       then cfg_max_space c else d);
             Some (l\<lparr>ser_delta := d, ser_orig := d\<rparr>, s) }
      else Some (l, s))"

text \<open>The part of the loop body after a pending length (a start, stop or earlier bit) was found.\<close>

definition serial_pending ::
  "serial_cfg \<Rightarrow> serial_st \<Rightarrow> 'z rx_scheme \<Rightarrow> serial_st \<times> 'z rx_scheme" where
  "serial_pending c l s =
     (if ser_stop_bit l then
        (l\<lparr>ser_gap_delta := ser_delta l, ser_delta := 0, ser_stop_bit := False, ser_space := False\<rparr>,
         set_pending_space 0 (set_pending_pulse (cfg_base c) s))
      else
        (if ser_delta l = 0 then l\<lparr>ser_space := \<not> ser_space l\<rparr> else l,
         set_pending_space 0 (set_pending_pulse 0 s)))"

text \<open>A whole byte has been received: parity check, bit order, start of the stop bit.
  \<open>False\<close> in the result is \<open>return (ir_code) -1\<close>.\<close>

definition serial_byte ::
  "ir_remote \<Rightarrow> serial_cfg \<Rightarrow> serial_st \<Rightarrow> 'z rx_scheme \<Rightarrow> bool \<times> serial_st \<times> 'z rx_scheme" where
  "serial_byte r c l s =
     (if parity r = IR_PARITY_EVEN \<and> ser_parity l \<or> parity r = IR_PARITY_ODD \<and> \<not> ser_parity l
      then (False, l, s)
      else
        let temp = shr64 (ser_code l) (uint (bits_in_byte r + word_of_int (cfg_parity_bit c)));
            code = shl64 temp (uint (bits_in_byte r)) OR
                   reverse (shr64 (ser_code l) (cfg_parity_bit c)) (sint (bits_in_byte r));
            l = l\<lparr>ser_parity := False, ser_code := code\<rparr>
        in if ser_space l \<and> ser_delta l = 0 then (False, l, s)
           else (True, l\<lparr>ser_stop_bit := True\<rparr>, set_pending_space (cfg_stop c) s))"

definition serial_bit ::
  "ir_remote \<Rightarrow> serial_cfg \<Rightarrow> serial_st \<Rightarrow> 'z rx_scheme \<Rightarrow> (bool \<times> serial_st \<times> 'z rx_scheme) option" where
  "serial_bit r c l s =
     (let expecting = (if ser_space l then sone r else pzero r);
          byte_bits = bits_in_byte r + word_of_int (cfg_parity_bit c) :: u32
      in do { (ok, l, s) \<leftarrow>
                if ser_delta l > expecting \<or> expect (hw s) r (ser_delta l) expecting then
                  (let l = l\<lparr>ser_delta := i32 (ser_delta l -
                             (if expecting > ser_delta l then ser_delta l else expecting)),
                           ser_received := ser_received l + 1,
                           ser_code := push_bit 1 (ser_code l) OR (if ser_space l then 1 else 0),
                           ser_parity := (ser_parity l \<noteq> ser_space l)\<rparr>
                   in if byte_bits = 0 then None
                      else if word_of_int (ser_received l) mod byte_bits = 0
                           then Some (serial_byte r c l s)
                           else Some (True, l, s))
                else if ser_delta l = ser_orig l then Some (False, l, s)
                else Some (True, l\<lparr>ser_delta := 0\<rparr>, s);
              Some (ok, if ok \<and> ser_delta l = 0 then l\<lparr>ser_space := \<not> ser_space l\<rparr> else l, s) })"

definition serial_step ::
  "ir_remote \<Rightarrow> serial_cfg \<Rightarrow> serial_st \<Rightarrow> 'z rx_scheme \<Rightarrow> (bool \<times> serial_st \<times> 'z rx_scheme) option" where
  "serial_step r c l s =
     do { (l, s) \<leftarrow> serial_fetch r c l s;
          if ser_delta l = 0 then Some (False, l, s)
          else
            let pending = (if ser_space l then pendings s else pendingp s);
                found = expect (hw s) r (ser_delta l) pending
            in if \<not> found \<and> \<not> ser_delta l > pending then Some (False, l, s)
               else
                 let l = l\<lparr>ser_delta := (if found then 0 else i32 (ser_delta l - pending))\<rparr>
                 in if pending > 0 then (case serial_pending c l s of (l, s) \<Rightarrow> Some (True, l, s))
                    else serial_bit r c l s }"

text \<open>A remote whose lengths are zero can keep the loop busy without reading anything, so the
  loop is a partial function: \<open>None\<close> is a fault or a loop without end.\<close>

partial_function (option) serial_loop ::
  "ir_remote \<Rightarrow> serial_cfg \<Rightarrow> serial_st \<Rightarrow> 'z rx_scheme \<Rightarrow> (bool \<times> serial_st \<times> 'z rx_scheme) option" where
  "serial_loop r c l s =
     (if ser_received l < cfg_bits c \<or> ser_stop_bit l then
        Option.bind (serial_step r c l s)
          (\<lambda>(ok, l, s). if ok then serial_loop r c l s else Some (False, l, s))
      else Some (True, l, s))"

declare serial_loop.simps [code]

definition get_data_serial ::
  "ir_remote \<Rightarrow> int \<Rightarrow> 'z rx_scheme \<Rightarrow> (ir_code \<times> 'z rx_scheme) option" where
  "get_data_serial r nbits s =
     do { c \<leftarrow> serial_config r nbits;
          s \<leftarrow> Some (set_pending_pulse (cfg_base c) s);
          (ok, l, s) \<leftarrow> serial_loop r c
             \<lparr>ser_delta = 0, ser_orig = 0, ser_received = 0, ser_space = (pendingp s = 0),
              ser_stop_bit = False, ser_parity = False, ser_gap_delta = 0, ser_code = 0\<rparr> s;
          if \<not> ok then Some (- 1, s)
          else do {
            s \<leftarrow> if ser_gap_delta l \<noteq> 0 then unget_rec_buffer_delta (ser_gap_delta l) s else Some s;
            Some (ser_code l, set_pending_space 0 (set_pending_pulse 0 s)) } }"

section \<open>The dispatch\<close>

definition with_remote :: "ir_remote \<Rightarrow> (ir_code \<times> 'z rx_scheme) option \<Rightarrow>
    (ir_code \<times> ir_remote \<times> 'z rx_scheme) option" where
  "with_remote r m = map_option (\<lambda>(c, s). (c, r, s)) m"

definition get_data ::
  "ir_remote \<Rightarrow> int \<Rightarrow> int \<Rightarrow> 'z rx_scheme \<Rightarrow> (ir_code \<times> ir_remote \<times> 'z rx_scheme) option" where
  "get_data r nbits dn s =
     (if is_rcmm r then with_remote r (get_data_rcmm r nbits dn s)
      else if is_grundig r then with_remote r (get_data_grundig r nbits dn s)
      else if is_serial r then with_remote r (get_data_serial r nbits s)
      else if is_bo r then with_remote r (get_data_bo r nbits s)
      else if is_xmp r then with_remote r (get_data_xmp r nbits dn s)
      else bits_loop r nbits dn 0 0 s)"

definition get_pre :: "ir_remote \<Rightarrow> 'z rx_scheme \<Rightarrow> (ir_code \<times> ir_remote \<times> 'z rx_scheme) option" where
  "get_pre r s =
     do { (pre, r, s) \<leftarrow> get_data r (pre_data_bits r) 0 s;
          if pre = - 1 then Some (- 1, r, s)
          else if pre_p r > 0 \<and> pre_s r > 0 then
            do { (ok, s) \<leftarrow> expectpulse r (pre_p r) s;
                 if ok then Some (pre, r, set_pending_space (pre_s r) s)
                 else Some (- 1, r, s) }
          else Some (pre, r, s) }"

definition get_post :: "ir_remote \<Rightarrow> 'z rx_scheme \<Rightarrow> (ir_code \<times> ir_remote \<times> 'z rx_scheme) option" where
  "get_post r s =
     do { (ok, s) \<leftarrow> if post_p r > 0 \<and> post_s r > 0 then
              do { (ok, s) \<leftarrow> expectpulse r (post_p r) s;
                   if ok then Some (True, set_pending_space (post_s r) s) else Some (False, s) }
            else Some (True, s);
          if ok then get_data r (post_data_bits r) (i32 (pre_data_bits r + bits r)) s
          else Some (- 1, r, s) }"

end
