(* ===== verification/ReceiveDecode.thy ===== *)
theory ReceiveDecode
  imports GetData
begin

text \<open>
  \<open>receive_decode\<close> of \<open>daemons/receive.c\<close>: one attempt to read a button press of one remote
  from the buffer. The inner result \<open>None\<close> is \<open>return 0\<close>; \<open>Some d\<close> is \<open>return 1\<close> with the six
  results that the C function stores through its pointer arguments.
\<close>

record dec_result =
  d_pre :: ir_code
  d_code :: ir_code
  d_post :: ir_code
  d_repeat :: bool
  d_min_remaining_gap :: lirc_t
  d_max_remaining_gap :: lirc_t

definition set_remote :: "addr \<Rightarrow> ir_remote \<Rightarrow> 'z decoder_scheme \<Rightarrow> 'z decoder_scheme" where
  "set_remote p r s = s\<lparr>store := (store s)(p := r)\<rparr>"

definition samples_mode :: "hardware \<Rightarrow> bool" where
  "samples_mode h \<longleftrightarrow> rec_mode h = LIRC_MODE_MODE2 \<or> rec_mode h = LIRC_MODE_PULSE \<or>
     rec_mode h = LIRC_MODE_RAW"

section \<open>The start of a signal\<close>

text \<open>How the first part of the function ends: it fails, it has found a repeat signal, or
  decoding goes on with \<open>sync\<close> and the \<open>header\<close> flag.\<close>

datatype recv_start = Start_fail | Start_repeat dec_result | Start_go lirc_t bool

definition repeat_result :: "ir_remote \<Rightarrow> lirc_t \<Rightarrow> nat \<Rightarrow> dec_result option" where
  "repeat_result r sm i =
     do { cs \<leftarrow> codes r;
          if i < length cs then
            Some \<lparr>d_pre = pre_data r, d_code = nc_code (cs ! i), d_post = post_data r, d_repeat = True,
                  d_min_remaining_gap = repeat_gap_or r (min_gap r) sm,
                  d_max_remaining_gap = repeat_gap_or r (max_gap r) sm\<rparr>
          else None }"

definition try_repeat ::
  "addr \<Rightarrow> 'z decoder_scheme \<Rightarrow> (recv_start option \<times> 'z decoder_scheme) option" where
  "try_repeat p s =
     (let r = store s p in
      do { (ok, s) \<leftarrow> if flags r AND REPEAT_HEADER \<noteq> 0 \<and> has_header r then get_header r s
                    else Some (True, s);
           if \<not> ok then Some (Some Start_fail, s)
           else do {
             (rep, s) \<leftarrow> get_repeat r s;
             if rep then
               (case last_code r of
                  None \<Rightarrow> Some (Some Start_fail, s)
                | Some i \<Rightarrow> do { d \<leftarrow> repeat_result r (rsum s) i;
                                 Some (Some (Start_repeat d), s) })
             else do { (_, s) \<leftarrow> sync_rec_buffer p (rewind_rec_buffer s);
                       Some (None, s) } } })"

definition recv_start_of ::
  "addr \<Rightarrow> 'z decoder_scheme \<Rightarrow> (recv_start \<times> 'z decoder_scheme) option" where
  "recv_start_of p s =
     do { s \<leftarrow> Some ((rewind_rec_buffer s)
                  \<lparr>rec_is_biphase := (if is_biphase (store s p) then 1 else 0)\<rparr>);
          (sync, s) \<leftarrow> sync_rec_buffer p s;
          if sync = 0 then Some (Start_fail, s)
          else do {
            (early, s) \<leftarrow> if has_repeat (store s p) \<and> last_remote s = Some p then try_repeat p s
                        else Some (None, s);
            case early of
              Some e \<Rightarrow> Some (e, s)
            | None \<Rightarrow>
                if has_header (store s p) then
                  do { (ok, s) \<leftarrow> get_header (store s p) s;
                       if ok then Some (Start_go sync True, s)
                       else if flags (store s p) AND NO_HEAD_REP \<noteq> 0 \<and>
                               expect_at_most (hw s) (store s p) sync (max_gap (store s p))
                       then Some (Start_go sync False, s)
                       else Some (Start_fail, s) }
                else Some (Start_go sync False, s) } }"

section \<open>Raw codes\<close>

fun raw_signals ::
  "ir_remote \<Rightarrow> lirc_t list \<Rightarrow> 'z rx_scheme \<Rightarrow> (bool \<times> 'z rx_scheme) option" where
  "raw_signals r [] s = Some (True, s)"
| "raw_signals r [p] s = expectpulse r p s"
| "raw_signals r (p # q # sigs) s =
     do { (ok, s) \<leftarrow> expectpulse r p s;
          if \<not> ok then Some (False, s)
          else do { (ok, s) \<leftarrow> expectspace r q s;
                    if ok then raw_signals r sigs s else Some (False, s) } }"

fun raw_codes ::
  "addr \<Rightarrow> ir_ncode list \<Rightarrow> 'z decoder_scheme \<Rightarrow> (ir_ncode option \<times> 'z decoder_scheme) option" where
  "raw_codes p [] s = Some (None, s)"
| "raw_codes p (c # cs) s =
     do { (ok, s) \<leftarrow> raw_signals (store s p) (case nc_signals c of None \<Rightarrow> [] | Some l \<Rightarrow> l) s;
          if \<not> ok then
            do { (_, s) \<leftarrow> sync_rec_buffer p (rewind_rec_buffer s); raw_codes p cs s }
          else do {
            (g, s) \<leftarrow> get_gap (store s p)
                      (if is_const (store s p) then i32 (min_gap (store s p) - rsum s)
                       else min_gap (store s p)) s;
            if g then Some (Some c, s) else raw_codes p cs s } }"

section \<open>The mode specific parts\<close>

text \<open>A code that the hardware has decoded (\<open>LIRC_MODE_LIRCCODE\<close>); the result holds pre, code
  and post data, the new \<open>sync\<close> and the time of reading.\<close>

definition nominal_length :: "ir_remote \<Rightarrow> lirc_t" where
  "nominal_length r =
     i32 (phead r + shead r +
          lirc_t_max (i32 (pone r + sone r)) (i32 (pzero r + szero r)) * bit_count r +
          plead r + ptrail r + pfoot r + sfoot r + pre_p r + pre_s r + post_p r + post_s r)"

definition recv_lirccode ::
  "ir_remote \<Rightarrow> 'z rx_scheme \<Rightarrow>
     ((ir_code \<times> ir_code \<times> ir_code \<times> lirc_t \<times> timeval) option \<times> 'z rx_scheme)" where
  "recv_lirccode r s =
     (if code_length (hw s) \<noteq> word_of_int (bit_count r) then (None, s)
      else
        let d = decoded s;
            post = d AND gen_mask (post_data_bits r);
            d = shr64 d (post_data_bits r);
            code = d AND gen_mask (bits r);
            pre = shr64 d (bits r);
            (current, s) = gettimeofday s;
            sm = nominal_length r;
            s = s\<lparr>rsum := (if word_of_int sm \<ge> gap r then sint (gap r - 1) else sm)\<rparr>;
            sync = i32 (uint (time_elapsed (last_send r) current - word_of_int (rsum s)))
        in (Some (pre, code, post, sync, current), s))"

definition end_gap :: "ir_remote \<Rightarrow> lirc_t \<Rightarrow> lirc_t" where
  "end_gap r sm =
     (if is_rcmm r then 1000
      else if is_const r then rest_of_gap (min_gap r) sm
      else min_gap r)"

definition recv_signal ::
  "addr \<Rightarrow> bool \<Rightarrow> 'z decoder_scheme \<Rightarrow> ((ir_code \<times> ir_code \<times> ir_code) option \<times> 'z decoder_scheme) option" where
  "recv_signal p header s =
     do { (ok, s) \<leftarrow> get_lead (store s p) s;
          if \<not> ok then Some (None, s)
          else do {
            (pre, r, s) \<leftarrow> if has_pre (store s p) then get_pre (store s p) s
                          else Some (0, store s p, s);
            s \<leftarrow> Some (set_remote p r s);
            if has_pre r \<and> pre = - 1 then Some (None, s)
            else do {
              (code, r, s) \<leftarrow> get_data r (bits r) (pre_data_bits r) s;
              s \<leftarrow> Some (set_remote p r s);
              if code = - 1 then Some (None, s)
              else do {
                (post, r, s) \<leftarrow> if has_post r then get_post r s else Some (0, r, s);
                s \<leftarrow> Some (set_remote p r s);
                if has_post r \<and> post = - 1 then Some (None, s)
                else do {
                  (ok, s) \<leftarrow> get_trail r s;
                  if \<not> ok then Some (None, s)
                  else do {
                    (ok, s) \<leftarrow> if has_foot r then get_foot r s else Some (True, s);
                    if \<not> ok then Some (None, s)
                    else do {
                      s \<leftarrow> Some (if header \<and> is_const r \<and> flags r AND NO_HEAD_REP \<noteq> 0
                                then s\<lparr>rsum := i32 (rsum s - i32 (phead r + shead r))\<rparr> else s);
                      (ok, s) \<leftarrow> get_gap r (end_gap r (rsum s)) s;
                      if ok then Some (Some (pre, code, post), s) else Some (None, s) } } } } } } }"

section \<open>The results\<close>

definition remaining_gap :: "ir_remote \<Rightarrow> lirc_t \<Rightarrow> lirc_t \<Rightarrow> lirc_t" where
  "remaining_gap r g sm = (if is_const r then rest_of_gap g sm else g)"

definition recv_finish ::
  "ir_remote \<Rightarrow> hardware \<Rightarrow> lirc_t \<Rightarrow> lirc_t \<Rightarrow> timeval \<Rightarrow> ir_code \<times> ir_code \<times> ir_code \<Rightarrow> dec_result" where
  "recv_finish r h sm sync current pcp =
     (case pcp of (pre, code, post) \<Rightarrow>
        \<lparr>d_pre = pre, d_code = code, d_post = post,
         d_repeat =
           ((\<not> has_repeat r \<or> word_of_int (reps r) < min_code_repeat r) \<and>
              expect_at_most h r sync (max_remaining_gap r)) \<or>
           rec_mode h = LIRC_MODE_LIRCCODE \<and> time_elapsed (last_send r) current < 325000,
         d_min_remaining_gap = remaining_gap r (min_gap r) sm,
         d_max_remaining_gap = remaining_gap r (max_gap r) sm\<rparr>)"

definition receive_decode ::
  "addr \<Rightarrow> 'z decoder_scheme \<Rightarrow> (dec_result option \<times> 'z decoder_scheme) option" where
  "receive_decode p s =
     do { (start, s) \<leftarrow> if samples_mode (hw s) then recv_start_of p s
                      else Some (Start_go 0 False, s);
          case start of
            Start_fail \<Rightarrow> Some (None, s)
          | Start_repeat d \<Rightarrow> Some (Some d, s)
          | Start_go sync header \<Rightarrow>
              if is_raw (store s p) then
                (if rec_mode (hw s) = LIRC_MODE_LIRCCODE then Some (None, s)
                 else do {
                   cs \<leftarrow> codes (store s p);
                   (found, s) \<leftarrow> raw_codes p cs s;
                   case found of
                     None \<Rightarrow> Some (None, s)
                   | Some c \<Rightarrow>
                       Some (Some (recv_finish (store s p) (hw s) (rsum s) sync timeval0
                                     (0, nc_code c, 0)), s) })
              else if rec_mode (hw s) = LIRC_MODE_LIRCCODE then
                (case recv_lirccode (store s p) s of
                   (None, s) \<Rightarrow> Some (None, s)
                 | (Some (pre, code, post, sync, current), s) \<Rightarrow>
                     Some (Some (recv_finish (store s p) (hw s) (rsum s) sync current
                                   (pre, code, post)), s))
              else do {
                (res, s) \<leftarrow> recv_signal p header s;
                case res of
                  None \<Rightarrow> Some (None, s)
                | Some pcp \<Rightarrow>
                    Some (Some (recv_finish (store s p) (hw s) (rsum s) sync timeval0 pcp), s) } }"

end
