(* ===== verification/RxFacts.thy ===== *)
theory RxFacts
  imports ReceiveDecode
begin

text \<open>
  The receive buffer as a reader with push-back: what has been read, and what is still to be
  read. Sample reading and ungetting move one element between the two lists; the interface is
  a locale, interpreted on the functions of the buffer.
\<close>

section \<open>The view of a buffer\<close>

definition rx_ok :: "'z rx_scheme \<Rightarrow> bool" where
  "rx_ok s \<longleftrightarrow> 0 \<le> rptr s \<and> rptr s \<le> wptr s \<and> wptr s \<le> RBUF_SIZE \<and>
     \<not> timerisset (last_signal_time s)"

definition consumed :: "'z rx_scheme \<Rightarrow> lirc_t list" where
  "consumed s = map (rdata s) [0..<nat (rptr s)]"

definition upcoming :: "'z rx_scheme \<Rightarrow> lirc_t list" where
  "upcoming s = map (rdata s) [nat (rptr s)..<nat (wptr s)] @ hw_input s"

definition sample :: "lirc_t \<Rightarrow> bool" where
  "sample d \<longleftrightarrow> d \<noteq> 0 \<and> \<not> LIRC_IS_TIMEOUT d"

text \<open>What no reading changes.\<close>

definition same_regs :: "'z rx_scheme \<Rightarrow> 'z rx_scheme \<Rightarrow> bool" where
  "same_regs s s' \<longleftrightarrow> hw s' = hw s \<and> decoded s' = decoded s \<and>
     rec_is_biphase s' = rec_is_biphase s \<and> clock s' = clock s \<and> rx.more s' = rx.more s"

definition rd :: "'z rx_scheme \<Rightarrow> lirc_t list \<Rightarrow> lirc_t list \<Rightarrow> lirc_t \<Rightarrow> lirc_t \<Rightarrow> lirc_t \<Rightarrow> bool" where
  "rd s cs us pp ps sm \<longleftrightarrow> rx_ok s \<and> consumed s = cs \<and> upcoming s = us \<and>
     pendingp s = pp \<and> pendings s = ps \<and> rsum s = sm"

lemma same_regs_refl [simp, intro]: "same_regs s s"
  by (simp add: same_regs_def)

lemma same_regs_trans: "same_regs s t \<Longrightarrow> same_regs t u \<Longrightarrow> same_regs s u"
  by (simp add: same_regs_def)

lemma same_regs_hw: "same_regs s s' \<Longrightarrow> hw s' = hw s"
  by (simp add: same_regs_def)

lemma same_regs_store:
  fixes s s' :: "'z decoder_scheme"
  shows "same_regs s s' \<Longrightarrow> store s' = store s \<and> last_remote s' = last_remote s"
  by (cases s; cases s') (simp add: same_regs_def)

lemma rd_length: "rd s cs us pp ps sm \<Longrightarrow> int (length cs) = rptr s"
  by (auto simp: rd_def rx_ok_def consumed_def)

lemma receive_timeout_range: "0 < receive_timeout m \<and> receive_timeout m < 2147483648"
  using i32_in_range [of "2 * m"]
  by (auto simp: receive_timeout_def MIN_RECEIVE_TIMEOUT_def i32_range_def)

section \<open>Reading and ungetting one sample\<close>

lemma rd_get:
  assumes s: "rd s cs (d # us) pp ps sm" and cap: "length cs < 512" and d: "sample d"
  shows "\<exists>s'. get_next_rec_buffer m s = Some (d, s') \<and> same_regs s s' \<and>
           rd s' (cs @ [d]) us pp ps (i32 (sm + (d AND PULSE_MASK)))"
proof (cases "rptr s < wptr s")
  case True
  then have up: "d = rdata s (nat (rptr s))"
      "us = map (rdata s) [Suc (nat (rptr s))..<nat (wptr s)] @ hw_input s"
    using s by (auto simp: rd_def rx_ok_def upcoming_def upt_conv_Cons)
  have "in_rbuf (rptr s)"
    using True s by (auto simp: rd_def rx_ok_def in_rbuf_def)
  then show ?thesis
    using True s up
    by (auto simp: get_next_rec_buffer_def get_next_rec_buffer_internal.simps [of _ s] buf_get_def
        rd_def rx_ok_def consumed_def upcoming_def same_regs_def nat_add_distrib)
next
  case False
  then have eq: "wptr s = rptr s" "hw_input s = d # us" "0 \<le> rptr s" "\<not> timerisset (last_signal_time s)"
    using s by (auto simp: rd_def rx_ok_def upcoming_def)
  have lt: "rptr s < RBUF_SIZE"
    using cap rd_length [OF s] by (simp add: RBUF_SIZE_def)
  have f: "fetch_sample (receive_timeout m) s = (d, s\<lparr>hw_input := us\<rparr>)"
    using eq receive_timeout_range [of m]
    by (subst fetch_sample_plain) (auto simp: readdata_def)
  have "in_rbuf (rptr s)" using eq lt by (simp add: in_rbuf_def)
  then show ?thesis
    using eq lt s d f
    by (auto simp: get_next_rec_buffer_def get_next_rec_buffer_internal.simps [of _ s] buf_get_def
        buf_set_def rd_def rx_ok_def consumed_def upcoming_def same_regs_def nat_add_distrib sample_def)
qed

lemma rd_get_Nil:
  assumes s: "rd s cs [] pp ps sm" and cap: "length cs < 512"
  shows "get_next_rec_buffer m s = Some (0, s)"
proof -
  have eq: "wptr s = rptr s" "hw_input s = []" "\<not> timerisset (last_signal_time s)"
    using s by (auto simp: rd_def rx_ok_def upcoming_def)
  have lt: "rptr s < RBUF_SIZE"
    using cap rd_length [OF s] by (simp add: RBUF_SIZE_def)
  have "fetch_sample (receive_timeout m) s = (0, s)"
    using eq receive_timeout_range [of m]
    by (subst fetch_sample_plain) (auto simp: readdata_def)
  with eq lt show ?thesis
    by (simp add: get_next_rec_buffer_def get_next_rec_buffer_internal.simps [of _ s])
qed

lemma rd_unget1:
  assumes s: "rd s (cs @ [d]) us pp ps sm"
  shows "\<exists>s'. unget_rec_buffer 1 s = Some s' \<and> same_regs s s' \<and>
           rd s' cs (d # us) pp ps (i32 (sm - (d AND PULSE_MASK)))"
proof -
  have n: "rptr s = int (length cs) + 1" using rd_length [OF s] by simp
  have c: "map (rdata s) [0..<Suc (length cs)] = cs @ [d]"
    using s n by (simp add: rd_def consumed_def nat_add_distrib)
  then have c': "map (rdata s) [0..<length cs] = cs" "rdata s (length cs) = d" by simp_all
  have "length cs < nat (wptr s)" using n s by (auto simp: rd_def rx_ok_def)
  then have "in_rbuf (int (length cs))" 
    using s by (auto simp: rd_def rx_ok_def in_rbuf_def)
  then show ?thesis
    using s n c' \<open>length cs < nat (wptr s)\<close>
    by (auto simp: unget_rec_buffer_def buf_get_def rd_def rx_ok_def consumed_def upcoming_def
        same_regs_def upt_conv_Cons nat_add_distrib)
qed

lemma rd_unget2:
  assumes s: "rd s (cs @ [d, e]) us pp ps sm"
  shows "\<exists>s'. unget_rec_buffer 2 s = Some s' \<and> same_regs s s' \<and>
           rd s' cs (d # e # us) pp ps (i32 (i32 (sm - (d AND PULSE_MASK)) - (e AND PULSE_MASK)))"
proof -
  have n: "rptr s = int (length cs) + 2" using rd_length [OF s] by simp
  have c: "map (rdata s) [0..<Suc (Suc (length cs))] = cs @ [d, e]"
    using s n by (simp add: rd_def consumed_def nat_add_distrib)
  then have c': "map (rdata s) [0..<length cs] = cs" "rdata s (length cs) = d"
      "rdata s (Suc (length cs)) = e" by simp_all
  have lt: "Suc (length cs) < nat (wptr s)" using n s by (auto simp: rd_def rx_ok_def)
  then have "in_rbuf (int (length cs))" "in_rbuf (int (length cs) + 1)"
    using s by (auto simp: rd_def rx_ok_def in_rbuf_def)
  then show ?thesis
    using s n c' lt
    by (auto simp: unget_rec_buffer_def buf_get_def rd_def rx_ok_def consumed_def upcoming_def
        same_regs_def upt_conv_Cons nat_add_distrib)
qed

section \<open>Pulses and spaces\<close>

text \<open>The samples a driver delivers for a pulse and a space of a given length.\<close>

definition pulse_sample :: "lirc_t \<Rightarrow> lirc_t" where
  "pulse_sample p = p + PULSE_BIT"

definition len24 :: "lirc_t \<Rightarrow> bool" where
  "len24 p \<longleftrightarrow> 0 < p \<and> p < 16777216"

lemma timeout_bit: "LIRC_IS_TIMEOUT v \<Longrightarrow> bit v 25"
proof -
  let ?w = "word_of_int v :: 32 word"
  assume "LIRC_IS_TIMEOUT v"
  then have "?w AND 0xFF000000 = 0x03000000"
    by (simp add: LIRC_IS_TIMEOUT_def LIRC_MODE2_def)
  then have "(?w AND 0xFF000000) AND 0x02000000 = 0x03000000 AND 0x02000000"
    by (rule arg_cong)
  then have "?w AND 0x02000000 = 0x02000000"
    by (simp add: and.assoc)
  then have "?w AND 2 ^ 25 \<noteq> 0" by simp
  then have "bit ?w 25" using and_exp_eq_0_iff_not_bit [of ?w 25] by blast
  then show ?thesis by (simp add: bit_word_of_int_iff)
qed

lemma not_bit25: "0 \<le> v \<Longrightarrow> v < 33554432 \<Longrightarrow> \<not> bit (v :: int) 25"
  by (simp add: bit_iff_odd)

lemma sample_small: "v \<noteq> 0 \<Longrightarrow> 0 \<le> v \<Longrightarrow> v < 33554432 \<Longrightarrow> sample v"
  using timeout_bit not_bit25 by (auto simp: sample_def)

lemma is_pulse_bit: "is_pulse d \<longleftrightarrow> bit d 24"
  using and_exp_eq_0_iff_not_bit [of d 24] by (simp add: is_pulse_def PULSE_BIT_def)

lemma pulse_sample_facts:
  assumes "len24 p"
  shows "sample (pulse_sample p)" "is_pulse (pulse_sample p)"
    "pulse_sample p AND PULSE_MASK = p" "pulse_sample p \<noteq> 0"
proof -
  have "(p + 16777216) div 16777216 = 1"
    using assms by (intro int_div_pos_eq [of _ _ _ p]) (auto simp: len24_def)
  then show "is_pulse (pulse_sample p)"
    by (simp add: is_pulse_bit bit_iff_odd pulse_sample_def PULSE_BIT_def)
  show "sample (pulse_sample p)"
    using assms by (intro sample_small) (auto simp: pulse_sample_def PULSE_BIT_def len24_def)
  show "pulse_sample p AND PULSE_MASK = p" "pulse_sample p \<noteq> 0"
    using assms by (auto simp: pulse_sample_def len24_def PULSE_BIT_def pulse_mask_mod)
qed

lemma space_sample_facts:
  assumes "len24 q"
  shows "sample q" "\<not> is_pulse q" "is_space q" "q AND PULSE_MASK = q" "q \<noteq> 0"
proof -
  show "\<not> is_pulse q" "is_space q"
    using assms by (auto simp: is_pulse_bit is_space_def bit_iff_odd len24_def)
  show "sample q" using assms by (intro sample_small) (auto simp: len24_def)
  show "q AND PULSE_MASK = q" "q \<noteq> 0" using assms by (auto simp: len24_def)
qed

lemma rd_pulse:
  assumes "rd s cs (pulse_sample p # us) pp ps sm" "length cs < 512" "len24 p"
  shows "\<exists>s'. get_next_pulse m s = Some (p, s') \<and> same_regs s s' \<and>
           rd s' (cs @ [pulse_sample p]) us pp ps (i32 (sm + p))"
  using rd_get [OF assms(1,2) pulse_sample_facts(1) [OF assms(3)], of m]
    pulse_sample_facts [OF assms(3)]
  by (auto simp: get_next_pulse_def)

lemma rd_space:
  assumes "rd s cs (q # us) pp ps sm" "length cs < 512" "len24 q"
  shows "\<exists>s'. get_next_space m s = Some (q, s') \<and> same_regs s s' \<and>
           rd s' (cs @ [q]) us pp ps (i32 (sm + q))"
  using rd_get [OF assms(1,2) space_sample_facts(1) [OF assms(3)], of m]
    space_sample_facts [OF assms(3)]
  by (auto simp: get_next_space_def)

lemma rd_space_at_pulse:
  assumes "rd s cs (pulse_sample p # us) pp ps sm" "length cs < 512" "len24 p"
  shows "\<exists>s'. get_next_space m s = Some (0, s') \<and> same_regs s s' \<and>
           rd s' (cs @ [pulse_sample p]) us pp ps (i32 (sm + p))"
  using rd_get [OF assms(1,2) pulse_sample_facts(1) [OF assms(3)], of m]
    pulse_sample_facts [OF assms(3)]
  by (auto simp: get_next_space_def is_space_def)

lemma rd_pulse_at_space:
  assumes "rd s cs (q # us) pp ps sm" "length cs < 512" "len24 q"
  shows "\<exists>s'. get_next_pulse m s = Some (0, s') \<and> same_regs s s' \<and>
           rd s' (cs @ [q]) us pp ps (i32 (sm + q))"
  using rd_get [OF assms(1,2) space_sample_facts(1) [OF assms(3)], of m]
    space_sample_facts [OF assms(3)]
  by (auto simp: get_next_pulse_def)

lemma rd_set_pending:
  assumes "rd s cs us pp ps sm"
  shows "rd (set_pending_pulse x s) cs us x ps sm" "rd (set_pending_space x s) cs us pp x sm"
    "same_regs s (set_pending_pulse x s)" "same_regs s (set_pending_space x s)"
  using assms
  by (simp_all add: rd_def rx_ok_def consumed_def upcoming_def same_regs_def
      set_pending_pulse_def set_pending_space_def)

section \<open>Expected pulses and spaces\<close>

text \<open>Without pending lengths.\<close>

lemma expectpulse_plain:
  assumes s: "rd s cs (pulse_sample p # us) 0 0 sm" and "length cs < 512" "len24 p"
  shows "\<exists>s'. expectpulse r x s = Some (expect (hw s) r p x, s') \<and> same_regs s s' \<and>
           rd s' (cs @ [pulse_sample p]) us 0 0 (i32 (sm + p))"
proof -
  obtain s' where "get_next_pulse (i32 (pendingp s + x)) s = Some (p, s')" "same_regs s s'"
      "rd s' (cs @ [pulse_sample p]) us 0 0 (i32 (sm + p))"
    using rd_pulse [OF assms] by blast
  moreover have "pendings s = 0" "p \<noteq> 0" "pendingp s' = 0"
    using s assms(3) calculation by (auto simp: rd_def len24_def)
  ultimately show ?thesis
    by (auto simp: expectpulse_def sync_pending_space_def same_regs_def)
qed

lemma expectspace_plain:
  assumes s: "rd s cs (q # us) 0 0 sm" and "length cs < 512" "len24 q"
  shows "\<exists>s'. expectspace r x s = Some (expect (hw s) r q x, s') \<and> same_regs s s' \<and>
           rd s' (cs @ [q]) us 0 0 (i32 (sm + q))"
proof -
  obtain s' where "get_next_space (i32 (pendings s + x)) s = Some (q, s')" "same_regs s s'"
      "rd s' (cs @ [q]) us 0 0 (i32 (sm + q))"
    using rd_space [OF assms] by blast
  moreover have "pendingp s = 0" "q \<noteq> 0" "pendings s' = 0"
    using s assms(3) calculation by (auto simp: rd_def len24_def)
  ultimately show ?thesis
    by (auto simp: expectspace_def sync_pending_pulse_def same_regs_def)
qed

text \<open>A pending space is read and checked before the pulse.\<close>

lemma expectpulse_after_space:
  assumes s: "rd s cs (q # pulse_sample p # us) 0 ps sm" and "Suc (length cs) < 512"
    "len24 p" "len24 q" "0 < ps" "expect (hw s) r q ps"
  shows "\<exists>s'. expectpulse r x s = Some (expect (hw s) r p x, s') \<and> same_regs s s' \<and>
           rd s' (cs @ [q, pulse_sample p]) us 0 0 (i32 (i32 (sm + q) + p))"
proof -
  obtain t where t: "get_next_space ps s = Some (q, t)" "same_regs s t"
      "rd t (cs @ [q]) (pulse_sample p # us) 0 ps (i32 (sm + q))"
    using rd_space [OF s, of ps] assms(2,4) by auto
  let ?t = "set_pending_space 0 t"
  have t': "rd ?t (cs @ [q]) (pulse_sample p # us) 0 0 (i32 (sm + q))" "same_regs t ?t"
    using rd_set_pending [OF t(3)] by auto
  obtain s' where s': "expectpulse r x ?t = Some (expect (hw ?t) r p x, s')" "same_regs ?t s'"
      "rd s' ((cs @ [q]) @ [pulse_sample p]) us 0 0 (i32 (i32 (sm + q) + p))"
    using expectpulse_plain [OF t'(1)] assms(2,3) by auto
  have "expectpulse r x s = expectpulse r x ?t"
    using s t t' assms(4,5,6)
    by (simp add: expectpulse_def sync_pending_space_def rd_def same_regs_hw len24_def)
  moreover have "same_regs s s'" using t(2) t'(2) s'(2) same_regs_trans by blast
  ultimately show ?thesis
    using s' t t' by (auto simp: same_regs_hw)
qed

end
