(* ===== verification/Transmit.thy ===== *)
theory Transmit
  imports IrRemoteH
begin

text \<open>
  \<open>daemons/transmit.c\<close>: the transmit buffer and the encoding of a button press as pulses and
  spaces.

  The array \<open>_data\<close> with \<open>wptr\<close> is the list of the samples below \<open>wptr\<close>; nothing above is
  read. The pointer \<open>data\<close>, which drivers send from, is NULL (after start-up), \<open>_data\<close>
  itself, or the array of a raw signal; \<open>swptr\<close> counts samples of whichever array is meant.
\<close>

section \<open>The transmit buffer\<close>

datatype send_ptr = Null_ptr | Own_data | Raw_signal "lirc_t list"

record sbuf =
  sdata :: send_ptr
  sown :: "lirc_t list"
  swptr :: int
  stoo_long :: bool
  sis_biphase :: bool
  spendingp :: lirc_t
  spendings :: lirc_t
  ssum :: lirc_t

definition WBUF_SIZE :: int where [c_eval]: "WBUF_SIZE = 256"
definition LIRCD_EXACT_GAP_THRESHOLD :: int where [c_eval]: "LIRCD_EXACT_GAP_THRESHOLD = 10000"

definition set_bit_at :: "ir_code \<Rightarrow> int \<Rightarrow> int \<Rightarrow> ir_code" where
  "set_bit_at code b d =
     (code AND NOT (shl64 1 b)) OR shl64 (if d \<noteq> 0 then 1 else 0) b"

definition init_send_buffer :: sbuf where
  "init_send_buffer = \<lparr>sdata = Null_ptr, sown = [], swptr = 0, stoo_long = False,
     sis_biphase = False, spendingp = 0, spendings = 0, ssum = 0\<rparr>"

text \<open>\<open>clear_send_buffer\<close> leaves \<open>data\<close> as it is.\<close>

definition clear_send_buffer :: "sbuf \<Rightarrow> sbuf" where
  "clear_send_buffer b = b\<lparr>swptr := 0, stoo_long := False, sis_biphase := False,
     spendingp := 0, spendings := 0, ssum := 0\<rparr>"

text \<open>Writing at \<open>wptr\<close> overwrites what an earlier transmission left there.\<close>

definition put_at :: "lirc_t list \<Rightarrow> nat \<Rightarrow> lirc_t \<Rightarrow> lirc_t list" where
  "put_at xs n d = (if n < length xs then xs[n := d] else xs @ replicate (n - length xs) 0 @ [d])"

definition add_send_buffer :: "lirc_t \<Rightarrow> sbuf \<Rightarrow> sbuf" where
  "add_send_buffer d b =
     (if swptr b < WBUF_SIZE
      then b\<lparr>ssum := i32 (ssum b + d), sown := put_at (sown b) (nat (swptr b)) d,
             swptr := swptr b + 1\<rparr>
      else b\<lparr>stoo_long := True\<rparr>)"

definition send_pulse :: "lirc_t \<Rightarrow> sbuf \<Rightarrow> sbuf" where
  "send_pulse d b =
     (if spendingp b > 0 then b\<lparr>spendingp := i32 (spendingp b + d)\<rparr>
      else
        let b = (if spendings b > 0 then (add_send_buffer (spendings b) b)\<lparr>spendings := 0\<rparr> else b)
        in b\<lparr>spendingp := d\<rparr>)"

definition send_space :: "lirc_t \<Rightarrow> sbuf \<Rightarrow> sbuf" where
  "send_space d b =
     (if swptr b = 0 \<and> spendingp b = 0 then b
      else if spendings b > 0 then b\<lparr>spendings := i32 (spendings b + d)\<rparr>
      else
        let b = (if spendingp b > 0 then (add_send_buffer (spendingp b) b)\<lparr>spendingp := 0\<rparr> else b)
        in b\<lparr>spendings := d\<rparr>)"

definition bad_send_buffer :: "sbuf \<Rightarrow> bool" where
  "bad_send_buffer b \<longleftrightarrow> stoo_long b \<or> swptr b = WBUF_SIZE \<and> spendingp b > 0"

text \<open>The first \<open>wptr\<close> samples that \<open>data\<close> points to; a NULL pointer and a raw signal that is
  shorter than \<open>wptr\<close> fault.\<close>

definition buffer_samples :: "sbuf \<Rightarrow> lirc_t list option" where
  "buffer_samples b =
     (case sdata b of
        Null_ptr \<Rightarrow> if swptr b \<le> 0 then Some [] else None
      | Own_data \<Rightarrow> Some (take (nat (swptr b)) (sown b))
      | Raw_signal xs \<Rightarrow> if swptr b \<le> int (length xs) then Some (take (nat (swptr b)) xs) else None)"

text \<open>The scan stops at the first zero.\<close>

definition check_send_buffer :: "sbuf \<Rightarrow> bool option" where
  "check_send_buffer b =
     (if swptr b = 0 then Some False
      else
        (case sdata b of
           Raw_signal xs \<Rightarrow>
             if 0 \<in> set (take (nat (swptr b)) xs) then Some False
             else if swptr b \<le> int (length xs) then Some True else None
         | _ \<Rightarrow> map_option (\<lambda>xs. 0 \<notin> set xs) (buffer_samples b)))"

definition flush_send_buffer :: "sbuf \<Rightarrow> sbuf" where
  "flush_send_buffer b =
     (let b = (if spendingp b > 0 then (add_send_buffer (spendingp b) b)\<lparr>spendingp := 0\<rparr> else b)
      in if spendings b > 0 then (add_send_buffer (spendings b) b)\<lparr>spendings := 0\<rparr> else b)"

definition sync_send_buffer :: "sbuf \<Rightarrow> sbuf" where
  "sync_send_buffer b =
     (let b = (if spendingp b > 0 then (add_send_buffer (spendingp b) b)\<lparr>spendingp := 0\<rparr> else b)
      in if swptr b > 0 \<and> swptr b mod 2 = 0 then b\<lparr>swptr := swptr b - 1\<rparr> else b)"

section \<open>The parts of a signal\<close>

definition send_header :: "ir_remote \<Rightarrow> sbuf \<Rightarrow> sbuf" where
  "send_header r b =
     (if has_header r then send_space (shead r) (send_pulse (phead r) b) else b)"

definition send_foot :: "ir_remote \<Rightarrow> sbuf \<Rightarrow> sbuf" where
  "send_foot r b = (if has_foot r then send_pulse (pfoot r) (send_space (sfoot r) b) else b)"

definition send_lead :: "ir_remote \<Rightarrow> sbuf \<Rightarrow> sbuf" where
  "send_lead r b = (if plead r \<noteq> 0 then send_pulse (plead r) b else b)"

definition send_trail :: "ir_remote \<Rightarrow> sbuf \<Rightarrow> sbuf" where
  "send_trail r b = (if ptrail r \<noteq> 0 then send_pulse (ptrail r) b else b)"

text \<open>\<open>reverse\<close> has turned the first bit to send into the lowest one.\<close>

definition send_rcmm_step :: "ir_remote \<Rightarrow> nat \<Rightarrow> ir_code \<times> sbuf \<Rightarrow> ir_code \<times> sbuf" where
  "send_rcmm_step r i db =
     (case db of (d, b) \<Rightarrow>
        (drop_bit 2 d,
         if d AND 3 = 0 then send_space (szero r) (send_pulse (pzero r) b)
         else if d AND 3 = 2 then send_space (sone r) (send_pulse (pone r) b)
         else if d AND 3 = 1 then send_space (stwo r) (send_pulse (ptwo r) b)
         else send_space (sthree r) (send_pulse (pthree r) b)))"

text \<open>\<open>szero + nibble * sone\<close> is computed in 64 bits and truncated to an \<open>int\<close>.\<close>

definition send_xmp_step :: "ir_remote \<Rightarrow> nat \<Rightarrow> ir_code \<times> sbuf \<Rightarrow> ir_code \<times> sbuf" where
  "send_xmp_step r i db =
     (case db of (d, b) \<Rightarrow>
        let nibble = reverse (d AND 0xf) 4
        in (drop_bit 4 d,
            send_space (i32 (uint (word_of_int (szero r) + nibble * word_of_int (sone r) :: ulong)))
              (send_pulse (pzero r) b)))"

text \<open>The bit that is sent: toggle bits replace it (one bit, for compatibility) or invert it,
  and the toggle mask inverts it in every second signal.\<close>

definition toggled_bit :: "ir_remote \<Rightarrow> ir_code \<Rightarrow> bool \<Rightarrow> bool" where
  "toggled_bit r m d =
     (let d = (if has_toggle_bit_mask r \<and> m AND toggle_bit_mask r \<noteq> 0 then
                 (if bits_set (toggle_bit_mask r) = 1
                  then toggle_bit_mask_state r AND m \<noteq> 0
                  else (d \<noteq> (toggle_bit_mask_state r AND m \<noteq> 0)))
               else d)
      in if has_toggle_mask r \<and> m AND toggle_mask r \<noteq> 0 \<and> toggle_mask_state r mod 2 \<noteq> 0
         then \<not> d else d)"

definition send_one :: "ir_remote \<Rightarrow> ir_code \<Rightarrow> sbuf \<Rightarrow> sbuf" where
  "send_one r m b =
     (if is_biphase r then
        (if m AND rc6_mask r \<noteq> 0
         then send_pulse (i32 (2 * pone r)) (send_space (i32 (2 * sone r)) b)
         else send_pulse (pone r) (send_space (sone r) b))
      else if is_space_first r then send_pulse (pone r) (send_space (sone r) b)
      else send_space (sone r) (send_pulse (pone r) b))"

definition send_zero :: "ir_remote \<Rightarrow> ir_code \<Rightarrow> sbuf \<Rightarrow> sbuf" where
  "send_zero r m b =
     (if m AND rc6_mask r \<noteq> 0
      then send_space (i32 (2 * szero r)) (send_pulse (i32 (2 * pzero r)) b)
      else if is_space_first r then send_pulse (pzero r) (send_space (szero r) b)
      else send_space (szero r) (send_pulse (pzero r) b))"

definition send_bit_step ::
  "ir_remote \<Rightarrow> nat \<Rightarrow> ir_code \<times> ir_code \<times> sbuf \<Rightarrow> ir_code \<times> ir_code \<times> sbuf" where
  "send_bit_step r i dmb =
     (case dmb of (d, m, b) \<Rightarrow>
        (drop_bit 1 d, drop_bit 1 m,
         if toggled_bit r m (d AND 1 \<noteq> 0) then send_one r m b else send_zero r m b))"

definition send_data :: "ir_remote \<Rightarrow> ir_code \<Rightarrow> int \<Rightarrow> int \<Rightarrow> sbuf \<Rightarrow> sbuf" where
  "send_data r data nbits dn b =
     (let d = reverse data nbits
      in if is_rcmm r then
           (if nbits mod 2 \<noteq> 0 \<or> dn mod 2 \<noteq> 0 then b
            else snd (fold (send_rcmm_step r) [0..<nat nbits div 2] (d, b)))
         else if is_xmp r then
           (if nbits mod 4 \<noteq> 0 \<or> dn mod 4 \<noteq> 0 then b
            else snd (fold (send_xmp_step r) [0..<nat nbits div 4] (d, b)))
         else
           snd (snd (fold (send_bit_step r) [0..<nat nbits]
                       (d, shl64 1 (i32 (bit_count r - 1 - dn)), b))))"

definition send_pre :: "ir_remote \<Rightarrow> sbuf \<Rightarrow> sbuf" where
  "send_pre r b =
     (if has_pre r then
        let b = send_data r (pre_data r) (pre_data_bits r) 0 b
        in if pre_p r > 0 \<and> pre_s r > 0 then send_space (pre_s r) (send_pulse (pre_p r) b) else b
      else b)"

definition send_post :: "ir_remote \<Rightarrow> sbuf \<Rightarrow> sbuf" where
  "send_post r b =
     (if has_post r then
        let b = (if post_p r > 0 \<and> post_s r > 0
                 then send_space (post_s r) (send_pulse (post_p r) b) else b)
        in send_data r (post_data r) (post_data_bits r) (i32 (pre_data_bits r + bits r)) b
      else b)"

definition send_repeat :: "ir_remote \<Rightarrow> sbuf \<Rightarrow> sbuf" where
  "send_repeat r b = send_trail r (send_space (srepeat r) (send_pulse (prepeat r) (send_lead r b)))"

definition send_code :: "ir_remote \<Rightarrow> ir_code \<Rightarrow> bool \<Rightarrow> sbuf \<Rightarrow> sbuf" where
  "send_code r code rep b =
     (let b = (if \<not> rep \<or> flags r AND NO_HEAD_REP = 0 then send_header r b else b);
          b = send_lead r b;
          b = send_pre r b;
          b = send_data r code (bits r) (pre_data_bits r) b;
          b = send_post r b;
          b = send_trail r b;
          b = (if \<not> rep \<or> flags r AND NO_FOOT_REP = 0 then send_foot r b else b)
      in if \<not> rep \<and> flags r AND NO_HEAD_REP \<noteq> 0 \<and> flags r AND CONST_LENGTH \<noteq> 0
         then b\<lparr>ssum := i32 (ssum b - i32 (phead r + shead r))\<rparr> else b)"

definition send_signals :: "lirc_t list \<Rightarrow> sbuf \<Rightarrow> sbuf" where
  "send_signals signals b = fold add_send_buffer signals b"

text \<open>
  \<open>init_send_or_sim\<close> of \<open>daemons/transmit.c\<close>: a complete transmission, in which signals with
  a short gap between them are joined in one buffer (the \<open>goto init_send_loop\<close> of the C code).
  The remote, the button and the buffer are passed and returned; \<open>sim\<close> is the dry run that the
  configuration parser uses to measure signals.
\<close>

text \<open>One signal in the buffer; the flag is \<open>False\<close> when the function gives up (\<open>return 0\<close>).\<close>

definition next_send_code :: "ir_ncode \<Rightarrow> bool \<Rightarrow> ir_code" where
  "next_send_code c sim =
     (case nc_transmit_state c of
        Some i \<Rightarrow> if sim then nc_code c else nc_nodes c ! i
      | None \<Rightarrow> nc_code c)"

definition toggle_after_send :: "ir_remote \<Rightarrow> bool \<Rightarrow> ir_remote" where
  "toggle_after_send r sim =
     (if \<not> sim \<and> has_toggle_mask r then
        r\<lparr>toggle_mask_state := (if toggle_mask_state r + 1 = 4 then 2
                                else i32 (toggle_mask_state r + 1))\<rparr>
      else r)"

definition send_raw :: "lirc_t list \<Rightarrow> sbuf \<Rightarrow> sbuf" where
  "send_raw signals b =
     (if swptr b > 0 then send_signals signals b
      else b\<lparr>sdata := Raw_signal signals, swptr := int (length signals),
             ssum := fold (\<lambda>x sm. i32 (sm + x)) signals (ssum b)\<rparr>)"

definition send_frame ::
  "bool \<Rightarrow> bool \<Rightarrow> ir_remote \<Rightarrow> ir_ncode \<Rightarrow> sbuf \<Rightarrow> bool \<times> ir_remote \<times> sbuf" where
  "send_frame sim rep r c b =
     (if rep \<and> has_repeat r then
        (True, r,
         send_repeat r (if flags r AND REPEAT_HEADER \<noteq> 0 \<and> has_header r then send_header r b else b))
      else if \<not> is_raw r then
        (True, toggle_after_send r sim,
         (send_code r (next_send_code c sim) rep b)\<lparr>sdata := Own_data\<rparr>)
      else
        (case nc_signals c of
           None \<Rightarrow> (False, r, b)
         | Some signals \<Rightarrow> (True, r, send_raw signals b)))"

text \<open>The gap that has to follow; \<open>False\<close> is the error \<open>too short gap\<close>.\<close>

definition set_remaining_gap :: "bool \<Rightarrow> ir_remote \<Rightarrow> sbuf \<Rightarrow> bool \<times> ir_remote" where
  "set_remaining_gap rep r b =
     (if has_repeat_gap r \<and> rep \<and> has_repeat r then
        (True, r\<lparr>min_remaining_gap := sint (repeat_gap r), max_remaining_gap := sint (repeat_gap r)\<rparr>)
      else if is_const r then
        (if min_gap r > ssum b then
           (True, r\<lparr>min_remaining_gap := i32 (min_gap r - ssum b),
                    max_remaining_gap := i32 (max_gap r - ssum b)\<rparr>)
         else
           (False, r\<lparr>min_remaining_gap := min_gap r, max_remaining_gap := max_gap r\<rparr>))
      else (True, r\<lparr>min_remaining_gap := min_gap r, max_remaining_gap := max_gap r\<rparr>))"

definition update_transmit_state :: "ir_remote \<Rightarrow> ir_ncode \<Rightarrow> ir_ncode" where
  "update_transmit_state r c =
     (if nc_nodes c \<noteq> [] then
        (case nc_transmit_state c of
           None \<Rightarrow> c\<lparr>nc_transmit_state := node_ptr c 0\<rparr>
         | Some i \<Rightarrow>
             let t = node_ptr c (Suc i)
             in c\<lparr>nc_transmit_state := (if is_xmp r \<and> t = None then node_ptr c 0 else t)\<rparr>)
      else c)"

text \<open>The signal in a raw button's own array is copied before another one is joined to it.\<close>

definition unroll_raw :: "sbuf \<Rightarrow> sbuf option" where
  "unroll_raw b =
     (if sdata b = Own_data then Some b
      else do { signals \<leftarrow> buffer_samples b;
                Some (send_signals signals (b\<lparr>sdata := Own_data, swptr := 0\<rparr>)) })"

definition join_signal ::
  "ir_remote \<Rightarrow> ir_ncode \<Rightarrow> sbuf \<Rightarrow> (ir_remote \<times> sbuf) option" where
  "join_signal r c b =
     do { b \<leftarrow> unroll_raw b;
          r \<leftarrow> Some (if nc_nodes c = [] \<or> nc_transmit_state c = None
                    then r\<lparr>repeat_countdown := i32 (repeat_countdown r - 1)\<rparr> else r);
          Some (r, (flush_send_buffer (send_space (min_remaining_gap r) b))\<lparr>ssum := 0\<rparr>) }"

definition join_next :: "ir_remote \<Rightarrow> ir_ncode \<Rightarrow> bool" where
  "join_next r c \<longleftrightarrow>
     (repeat_countdown r > 0 \<or> nc_transmit_state c \<noteq> None) \<and>
     min_remaining_gap r < LIRCD_EXACT_GAP_THRESHOLD"

text \<open>One round of the loop.\<close>

datatype send_round =
    Round_fail ir_remote ir_ncode sbuf
  | Round_ready ir_remote ir_ncode sbuf
  | Round_again ir_remote ir_ncode sbuf

definition send_round_of ::
  "bool \<Rightarrow> bool \<Rightarrow> ir_remote \<Rightarrow> ir_ncode \<Rightarrow> sbuf \<Rightarrow> send_round option" where
  "send_round_of sim rep r c b =
     (case send_frame sim rep r c b of (ok, r, b) \<Rightarrow>
        if \<not> ok then Some (Round_fail r c b)
        else
          let b = sync_send_buffer b
          in if bad_send_buffer b then Some (Round_fail r c b)
             else if sim then Some (Round_ready r c b)
             else
               case set_remaining_gap rep r b of (ok, r) \<Rightarrow>
                 if \<not> ok then Some (Round_fail r c b)
                 else
                   let c = update_transmit_state r c
                   in if join_next r c then
                        do { (r, b) \<leftarrow> join_signal r c b; Some (Round_again r c b) }
                      else Some (Round_ready r c b))"

text \<open>An XMP button with further codes never reaches the end of its sequence, so that the loop
  only ends when the buffer is full; nothing bounds it when the signals are empty. It is a
  partial function: \<open>None\<close> is a fault or a loop without end.\<close>

partial_function (option) send_loop ::
  "bool \<Rightarrow> bool \<Rightarrow> ir_remote \<Rightarrow> ir_ncode \<Rightarrow> sbuf \<Rightarrow> (bool \<times> ir_remote \<times> ir_ncode \<times> sbuf) option" where
  "send_loop sim rep r c b =
     Option.bind (send_round_of sim rep r c b)
       (\<lambda>rd. case rd of
          Round_fail r c b \<Rightarrow> Some (False, r, c, b)
        | Round_ready r c b \<Rightarrow>
            Option.bind (check_send_buffer b) (\<lambda>ok. Some (ok, r, c, b))
        | Round_again r c b \<Rightarrow> send_loop sim True r c b)"

declare send_loop.simps [code]

definition init_send_or_sim ::
  "bool \<Rightarrow> ir_remote \<Rightarrow> ir_ncode \<Rightarrow> bool \<Rightarrow> bool \<Rightarrow> sbuf \<Rightarrow> (bool \<times> ir_remote \<times> ir_ncode \<times> sbuf) option" where
  "init_send_or_sim repeating r c sim repeat_preset b =
     (if is_grundig r \<or> is_goldstar r \<or> is_serial r \<or> is_bo r then Some (False, r, c, b)
      else
        let b = clear_send_buffer b;
            b = (if is_biphase r then b\<lparr>sis_biphase := True\<rparr> else b);
            rep = (if \<not> sim \<and> repeating then True else repeat_preset);
            r = (if \<not> sim \<and> \<not> repeating then r\<lparr>repeat_countdown := min_repeat r\<rparr> else r)
        in send_loop sim rep r c b)"

text \<open>\<open>repeating\<close> is \<open>repeat_remote != NULL\<close>.\<close>

definition init_send ::
  "bool \<Rightarrow> ir_remote \<Rightarrow> ir_ncode \<Rightarrow> sbuf \<Rightarrow> (bool \<times> ir_remote \<times> ir_ncode \<times> sbuf) option" where
  "init_send repeating r c b = init_send_or_sim repeating r c False False b"

definition init_sim ::
  "bool \<Rightarrow> ir_remote \<Rightarrow> ir_ncode \<Rightarrow> bool \<Rightarrow> sbuf \<Rightarrow> (bool \<times> ir_remote \<times> ir_ncode \<times> sbuf) option" where
  "init_sim repeating r c repeat_preset b = init_send_or_sim repeating r c True repeat_preset b"

end
