(* ===== verification/TxFacts.thy ===== *)
theory TxFacts
  imports Transmit
begin

text \<open>
  What the transmit buffer means: the pulses and spaces given to it, adjacent ones of the same
  kind merged. The functions of \<open>Transmit\<close> that fill the buffer are shown to send a list of
  tokens, and the buffer is shown to hold the merged lengths of the tokens it was sent.
\<close>

section \<open>Tokens\<close>

datatype tok = Pulse lirc_t | Space lirc_t

fun tok_len :: "tok \<Rightarrow> lirc_t" where
  "tok_len (Pulse d) = d"
| "tok_len (Space d) = d"

fun send_tok :: "tok \<Rightarrow> sbuf \<Rightarrow> sbuf" where
  "send_tok (Pulse d) b = send_pulse d b"
| "send_tok (Space d) b = send_space d b"

definition send_toks :: "tok list \<Rightarrow> sbuf \<Rightarrow> sbuf" where
  "send_toks ts b = fold send_tok ts b"

text \<open>The specification: a signal is a list of lengths, pulses at the even positions; a space
  at the very start is dropped.\<close>

fun add_tok :: "tok \<Rightarrow> lirc_t list \<Rightarrow> lirc_t list" where
  "add_tok (Pulse d) xs = (if odd (length xs) then butlast xs @ [last xs + d] else xs @ [d])"
| "add_tok (Space d) xs =
     (if xs = [] then []
      else if even (length xs) then butlast xs @ [last xs + d] else xs @ [d])"

definition merge_toks :: "tok list \<Rightarrow> lirc_t list" where
  "merge_toks ts = fold add_tok ts []"

lemma send_toks_simps [simp]:
  "send_toks [] b = b" "send_toks (t # ts) b = send_toks ts (send_tok t b)"
  "send_toks (ts @ us) b = send_toks us (send_toks ts b)"
  by (simp_all add: send_toks_def)

section \<open>The encoders send tokens\<close>

definition pair_toks :: "lirc_t \<Rightarrow> lirc_t \<Rightarrow> tok list" where
  "pair_toks p s = [Pulse p, Space s]"

definition one_toks :: "ir_remote \<Rightarrow> ir_code \<Rightarrow> tok list" where
  "one_toks r m =
     (if is_biphase r then
        (if m AND rc6_mask r \<noteq> 0 then [Space (i32 (2 * sone r)), Pulse (i32 (2 * pone r))]
         else [Space (sone r), Pulse (pone r)])
      else if is_space_first r then [Space (sone r), Pulse (pone r)]
      else [Pulse (pone r), Space (sone r)])"

definition zero_toks :: "ir_remote \<Rightarrow> ir_code \<Rightarrow> tok list" where
  "zero_toks r m =
     (if m AND rc6_mask r \<noteq> 0 then [Pulse (i32 (2 * pzero r)), Space (i32 (2 * szero r))]
      else if is_space_first r then [Space (szero r), Pulse (pzero r)]
      else [Pulse (pzero r), Space (szero r)])"

definition bit_toks :: "ir_remote \<Rightarrow> ir_code \<Rightarrow> bool \<Rightarrow> tok list" where
  "bit_toks r m d = (if toggled_bit r m d then one_toks r m else zero_toks r m)"

text \<open>The bits of a field, the highest of its \<open>nbits\<close> bits first; \<open>m\<close> is the mask of the first bit
  within the whole code.\<close>

definition field_toks :: "ir_remote \<Rightarrow> ir_code \<Rightarrow> nat \<Rightarrow> ir_code \<Rightarrow> tok list" where
  "field_toks r m nbits data =
     concat (map (\<lambda>i. bit_toks r (drop_bit i m) (bit data (nbits - 1 - i))) [0..<nbits])"

lemma send_one_toks: "send_one r m b = send_toks (one_toks r m) b"
  by (simp add: send_one_def one_toks_def)

lemma send_zero_toks: "send_zero r m b = send_toks (zero_toks r m) b"
  by (simp add: send_zero_def zero_toks_def)

lemma send_bit_step_toks:
  "send_bit_step r i (drop_bit n d, drop_bit n m, b) =
     (drop_bit (Suc n) d, drop_bit (Suc n) m,
      send_toks (bit_toks r (drop_bit n m) (bit d n)) b)"
proof -
  have "drop_bit 1 (drop_bit n x) = drop_bit (Suc n) x" for x :: ir_code
    by (simp only: drop_bit_drop_bit) simp
  moreover have "bit (drop_bit n d) 0 = bit d n" by (simp add: bit_drop_bit_eq)
  ultimately show ?thesis
    unfolding send_bit_step_def and_one_nonzero bit_toks_def
    by (simp only: prod.case send_one_toks send_zero_toks if_distrib [of "\<lambda>ts. send_toks ts b"])
qed

lemma send_bits_toks:
  "fold (send_bit_step r) [0..<n] (d, m, b) =
     (drop_bit n d, drop_bit n m,
      send_toks (concat (map (\<lambda>i. bit_toks r (drop_bit i m) (bit d i)) [0..<n])) b)"
proof (induction n)
  case 0
  then show ?case by simp
next
  case (Suc n)
  have "fold (send_bit_step r) [0..<Suc n] (d, m, b) =
      send_bit_step r n (fold (send_bit_step r) [0..<n] (d, m, b))" by simp
  then show ?case by (simp only: Suc send_bit_step_toks) simp
qed

definition plain_bits :: "ir_remote \<Rightarrow> bool" where
  "plain_bits r \<longleftrightarrow> \<not> is_rcmm r \<and> \<not> is_xmp r"

lemma field_toks_reverse:
  assumes "nbits \<le> 64"
  shows "concat (map (\<lambda>i. bit_toks r (drop_bit i m) (bit (reverse data nbits) i)) [0..<nat nbits]) =
     field_toks r m (nat nbits) data"
  unfolding field_toks_def using assms
  by (intro arg_cong [of _ _ concat] map_cong) (auto simp: bit_reverse zless_nat_eq_int_zless)

lemma send_data_toks:
  assumes "plain_bits r" "nbits \<le> 64"
  shows "send_data r data nbits dn b =
     send_toks (field_toks r (shl64 1 (i32 (bit_count r - 1 - dn))) (nat nbits) data) b"
  using assms(1)
  by (simp only: send_data_def plain_bits_def Let_def send_bits_toks field_toks_reverse [OF assms(2)]) simp

definition cond_toks :: "bool \<Rightarrow> tok list \<Rightarrow> tok list" where
  "cond_toks c ts = (if c then ts else [])"

lemma send_cond_toks: "send_toks (cond_toks c ts) b = (if c then send_toks ts b else b)"
  by (simp add: cond_toks_def)

definition header_toks :: "ir_remote \<Rightarrow> tok list" where
  "header_toks r = cond_toks (has_header r) [Pulse (phead r), Space (shead r)]"

definition foot_toks :: "ir_remote \<Rightarrow> tok list" where
  "foot_toks r = cond_toks (has_foot r) [Space (sfoot r), Pulse (pfoot r)]"

definition lead_toks :: "ir_remote \<Rightarrow> tok list" where
  "lead_toks r = cond_toks (plead r \<noteq> 0) [Pulse (plead r)]"

definition trail_toks :: "ir_remote \<Rightarrow> tok list" where
  "trail_toks r = cond_toks (ptrail r \<noteq> 0) [Pulse (ptrail r)]"

definition data_toks :: "ir_remote \<Rightarrow> ir_code \<Rightarrow> int \<Rightarrow> int \<Rightarrow> tok list" where
  "data_toks r data nbits dn =
     field_toks r (shl64 1 (i32 (bit_count r - 1 - dn))) (nat nbits) data"

definition pre_toks :: "ir_remote \<Rightarrow> tok list" where
  "pre_toks r = cond_toks (has_pre r)
     (data_toks r (pre_data r) (pre_data_bits r) 0 @
      cond_toks (pre_p r > 0 \<and> pre_s r > 0) [Pulse (pre_p r), Space (pre_s r)])"

definition post_toks :: "ir_remote \<Rightarrow> tok list" where
  "post_toks r = cond_toks (has_post r)
     (cond_toks (post_p r > 0 \<and> post_s r > 0) [Pulse (post_p r), Space (post_s r)] @
      data_toks r (post_data r) (post_data_bits r) (i32 (pre_data_bits r + bits r)))"

definition code_toks :: "ir_remote \<Rightarrow> ir_code \<Rightarrow> bool \<Rightarrow> tok list" where
  "code_toks r code rep =
     cond_toks (\<not> rep \<or> flags r AND NO_HEAD_REP = 0) (header_toks r) @ lead_toks r @ pre_toks r @
     data_toks r code (bits r) (pre_data_bits r) @ post_toks r @ trail_toks r @
     cond_toks (\<not> rep \<or> flags r AND NO_FOOT_REP = 0) (foot_toks r)"

definition field_sizes_ok :: "ir_remote \<Rightarrow> bool" where
  "field_sizes_ok r \<longleftrightarrow> pre_data_bits r \<le> 64 \<and> bits r \<le> 64 \<and> post_data_bits r \<le> 64"

lemma send_part_toks:
  "send_header r b = send_toks (header_toks r) b"
  "send_foot r b = send_toks (foot_toks r) b"
  "send_lead r b = send_toks (lead_toks r) b"
  "send_trail r b = send_toks (trail_toks r) b"
  by (simp_all add: send_header_def send_foot_def send_lead_def send_trail_def
      header_toks_def foot_toks_def lead_toks_def trail_toks_def send_cond_toks)

lemma send_pre_toks:
  "plain_bits r \<Longrightarrow> field_sizes_ok r \<Longrightarrow> send_pre r b = send_toks (pre_toks r) b"
  by (simp add: send_pre_def pre_toks_def send_cond_toks send_data_toks data_toks_def
      field_sizes_ok_def Let_def)

lemma send_post_toks:
  "plain_bits r \<Longrightarrow> field_sizes_ok r \<Longrightarrow> send_post r b = send_toks (post_toks r) b"
  by (simp add: send_post_def post_toks_def send_cond_toks send_data_toks data_toks_def
      field_sizes_ok_def Let_def)

lemma send_code_toks:
  assumes "plain_bits r" "field_sizes_ok r"
  shows "send_code r code rep b =
     (let b = send_toks (code_toks r code rep) b
      in if \<not> rep \<and> flags r AND NO_HEAD_REP \<noteq> 0 \<and> flags r AND CONST_LENGTH \<noteq> 0
         then b\<lparr>ssum := i32 (ssum b - i32 (phead r + shead r))\<rparr> else b)"
proof -
  have d: "send_data r code (bits r) (pre_data_bits r) b =
      send_toks (data_toks r code (bits r) (pre_data_bits r)) b" for b
    using assms by (simp only: send_data_toks data_toks_def field_sizes_ok_def)
  show ?thesis
    by (simp only: send_code_def code_toks_def Let_def send_toks_simps send_cond_toks
        send_part_toks send_pre_toks [OF assms] send_post_toks [OF assms] d)
qed

section \<open>The buffer holds the merged tokens\<close>

definition sent :: "sbuf \<Rightarrow> lirc_t list" where
  "sent b = take (nat (swptr b)) (sown b)"

text \<open>The buffer represents the signal \<open>xs\<close>: all but the last length are in the array, the last
  one is pending.\<close>

definition tx :: "sbuf \<Rightarrow> lirc_t list \<Rightarrow> bool" where
  "tx b xs \<longleftrightarrow> \<not> stoo_long b \<and> 0 \<le> swptr b \<and> swptr b \<le> WBUF_SIZE \<and>
     swptr b \<le> int (length (sown b)) \<and> sent b = butlast xs \<and> ssum b = sum_list (butlast xs) \<and>
     (if xs = [] then spendingp b = 0 \<and> spendings b = 0
      else if odd (length xs) then spendingp b = last xs \<and> spendings b = 0
      else spendings b = last xs \<and> spendingp b = 0)"

definition signal_ok :: "lirc_t list \<Rightarrow> bool" where
  "signal_ok xs \<longleftrightarrow> (\<forall>x \<in> set xs. 0 < x) \<and> sum_list xs < 2147483648"

lemma tx_swptr: "tx b xs \<Longrightarrow> swptr b = int (length xs - 1)"
proof -
  assume t: "tx b xs"
  then have "length (sent b) = length xs - 1" by (simp add: tx_def)
  moreover have "length (sent b) = nat (swptr b)"
  proof -
    have "nat (swptr b) \<le> length (sown b)" using t unfolding tx_def by linarith
    then show ?thesis by (simp add: sent_def)
  qed
  ultimately show ?thesis using t unfolding tx_def by linarith
qed

lemma tx_clear: "tx (clear_send_buffer b) []"
  by (simp add: tx_def clear_send_buffer_def sent_def WBUF_SIZE_def)

lemma sum_list_member_le: "\<forall>x \<in> set xs. (0 :: int) < x \<Longrightarrow> y \<in> set xs \<Longrightarrow> y \<le> sum_list xs"
  by (rule member_le_sum_list) (auto intro: less_imp_le)

lemma put_at_take:
  "n \<le> length xs \<Longrightarrow> take (Suc n) (put_at xs n d) = take n xs @ [d] \<and> Suc n \<le> length (put_at xs n d)"
  by (auto simp: put_at_def take_Suc_conv_app_nth take_update_cancel)

lemma add_send_buffer_sent:
  assumes "0 \<le> swptr b" "swptr b < WBUF_SIZE" "swptr b \<le> int (length (sown b))"
    "i32_range (ssum b + d)"
  shows "sent (add_send_buffer d b) = sent b @ [d]"
    "swptr (add_send_buffer d b) = swptr b + 1"
    "swptr b + 1 \<le> int (length (sown (add_send_buffer d b)))"
    "ssum (add_send_buffer d b) = ssum b + d"
    "stoo_long (add_send_buffer d b) = stoo_long b"
    "spendingp (add_send_buffer d b) = spendingp b" "spendings (add_send_buffer d b) = spendings b"
    "sdata (add_send_buffer d b) = sdata b" "sis_biphase (add_send_buffer d b) = sis_biphase b"
proof -
  have "nat (swptr b) \<le> length (sown b)" using assms by linarith
  note p = put_at_take [OF this, of d]
  show "sent (add_send_buffer d b) = sent b @ [d]"
    using assms p by (simp add: add_send_buffer_def sent_def nat_add_distrib)
  show "swptr b + 1 \<le> int (length (sown (add_send_buffer d b)))"
    using assms(1,2) conjunct2 [OF p] by (simp add: add_send_buffer_def)
qed (use assms in \<open>simp_all add: add_send_buffer_def\<close>)

lemma sum_butlast_last: "xs \<noteq> [] \<Longrightarrow> sum_list xs = sum_list (butlast xs) + (last xs :: int)"
  by (subst append_butlast_last_id [symmetric], assumption) (simp only: sum_list_append sum_list.Cons sum_list.Nil add_0_right)

lemma signal_ok_parts:
  assumes "signal_ok xs" "xs \<noteq> []"
  shows "0 < last xs" "0 \<le> sum_list (butlast xs)"
    "i32_range (sum_list (butlast xs) + last xs)" "i32_range (sum_list xs)"
proof -
  show l: "0 < last xs" using assms by (simp add: signal_ok_def)
  show b: "0 \<le> sum_list (butlast xs)"
    using assms by (intro sum_list_nonneg) (auto simp: signal_ok_def dest: in_set_butlastD intro: less_imp_le)
  have u: "sum_list xs < 2147483648" using assms by (simp add: signal_ok_def)
  show "i32_range (sum_list (butlast xs) + last xs)" "i32_range (sum_list xs)"
    using u l b sum_butlast_last [OF assms(2)] unfolding i32_range_def by linarith+
qed

lemma add_tok_cases:
  assumes "0 < tok_len t"
  obtains (drop) d where "t = Space d" "xs = []"
  | (new) "add_tok t xs = xs @ [tok_len t]"
      "(\<exists>d. t = Pulse d) \<longleftrightarrow> even (length xs)" "xs \<noteq> [] \<or> (\<exists>d. t = Pulse d)"
  | (join) "add_tok t xs = butlast xs @ [last xs + tok_len t]" "xs \<noteq> []"
      "(\<exists>d. t = Pulse d) \<longleftrightarrow> odd (length xs)"
  by (cases t; cases "xs = []"; cases "odd (length xs)") auto

lemma flush_pending:
  assumes t: "tx b xs" and "signal_ok xs" "xs \<noteq> []" "length xs \<le> 256"
  shows "0 \<le> swptr b" "swptr b < WBUF_SIZE" "swptr b \<le> int (length (sown b))"
    "i32_range (ssum b + last xs)" "sent b @ [last xs] = xs"
  using t assms(3,4) signal_ok_parts [OF assms(2,3)] tx_swptr [OF t]
  by (auto simp: tx_def WBUF_SIZE_def)

lemma tx_send_tok:
  assumes t: "tx b xs" and ok: "signal_ok (add_tok tk xs)" "signal_ok xs" and pos: "0 < tok_len tk"
    and len: "length (add_tok tk xs) \<le> 257"
  shows "tx (send_tok tk b) (add_tok tk xs)"
  using pos
proof (cases rule: add_tok_cases [of tk xs, case_names drop new join])
  case (drop d)
  then show ?thesis using t tx_swptr [OF t] by (simp add: send_space_def tx_def)
next
  case join
  have "0 < last xs" using signal_ok_parts(1) [OF ok(2) join(2)] .
  moreover have "i32_range (last xs + tok_len tk)"
    using ok(1) join pos signal_ok_parts(3) [OF ok(1)] signal_ok_parts [OF ok(1)]
      calculation by (auto simp: i32_range_def)
  moreover have "swptr b \<noteq> 0 \<or> spendingp b \<noteq> 0"
    using t join calculation tx_swptr [OF t] by (cases xs) (auto simp: tx_def)
  ultimately show ?thesis
    using t join by (cases tk) (auto simp: tx_def send_pulse_def send_space_def sent_def)
next
  case new
  show ?thesis
  proof (cases "xs = []")
    case True
    then show ?thesis using t new tx_swptr [OF t]
      by (cases tk) (auto simp: tx_def send_pulse_def sent_def)
  next
    case False
    have l: "length xs \<le> 256" using len new by simp
    note f = flush_pending [OF t ok(2) False l]
    note a = add_send_buffer_sent [OF f(1-4)]
    have pend: "0 < last xs" "sum_list (butlast xs) + last xs = sum_list xs"
      using signal_ok_parts(1) [OF ok(2) False] sum_butlast_last [OF False] by auto
    show ?thesis
      using t new False a f pend
      by (cases tk) (auto simp: tx_def send_pulse_def send_space_def sent_def Let_def)
  qed
qed


lemma add_tok_mono:
  assumes "0 < tok_len t" "\<forall>x \<in> set xs. 0 < x"
  shows "\<forall>x \<in> set (add_tok t xs). 0 < x" "length xs \<le> length (add_tok t xs)"
    "sum_list (add_tok t xs) \<le> sum_list xs + tok_len t" "sum_list xs \<le> sum_list (add_tok t xs)"
proof -
  have "xs \<noteq> [] \<Longrightarrow> 0 < last xs" using assms(2) by simp
  moreover have "xs \<noteq> [] \<Longrightarrow> 0 < last xs + tok_len t" using assms(1) calculation by simp
  ultimately show "\<forall>x \<in> set (add_tok t xs). 0 < x" "length xs \<le> length (add_tok t xs)"
    "sum_list (add_tok t xs) \<le> sum_list xs + tok_len t" "sum_list xs \<le> sum_list (add_tok t xs)"
    by (cases rule: add_tok_cases [OF assms(1), of xs, case_names drop new join];
        use assms sum_butlast_last [of xs] in \<open>force dest: in_set_butlastD\<close>)+
qed

definition toks_len :: "tok list \<Rightarrow> lirc_t" where
  "toks_len ts = sum_list (map tok_len ts)"

definition toks_pos :: "tok list \<Rightarrow> bool" where
  "toks_pos ts \<longleftrightarrow> (\<forall>t \<in> set ts. 0 < tok_len t)"

lemma toks_simps [simp]:
  "toks_len [] = 0" "toks_len (t # ts) = tok_len t + toks_len ts"
  "toks_len (ts @ us) = toks_len ts + toks_len us"
  "toks_pos []" "toks_pos (t # ts) \<longleftrightarrow> 0 < tok_len t \<and> toks_pos ts"
  "toks_pos (ts @ us) \<longleftrightarrow> toks_pos ts \<and> toks_pos us"
  by (auto simp: toks_len_def toks_pos_def)

lemma toks_len_nonneg: "toks_pos ts \<Longrightarrow> 0 \<le> toks_len ts"
  by (induction ts) auto

lemma merge_mono:
  assumes "toks_pos ts" "\<forall>x \<in> set xs. 0 < x"
  shows "(\<forall>x \<in> set (fold add_tok ts xs). 0 < x) \<and> length xs \<le> length (fold add_tok ts xs) \<and>
    sum_list (fold add_tok ts xs) \<le> sum_list xs + toks_len ts"
  using assms
proof (induction ts arbitrary: xs)
  case (Cons t ts)
  have t: "0 < tok_len t" and ts: "toks_pos ts" using Cons.prems by auto
  note m = add_tok_mono [OF t Cons.prems(2)]
  show ?case using Cons.IH [OF ts m(1)] m by auto
qed simp

lemma tx_send_toks:
  assumes "tx b xs" "\<forall>x \<in> set xs. 0 < x" "toks_pos ts" "sum_list xs + toks_len ts < 2147483648"
    "length (fold add_tok ts xs) \<le> 257"
  shows "tx (send_toks ts b) (fold add_tok ts xs)"
  using assms
proof (induction ts arbitrary: b xs)
  case (Cons t ts)
  have t: "0 < tok_len t" and ts: "toks_pos ts" using Cons.prems by auto
  note m = add_tok_mono [OF t Cons.prems(2)]
  note mm = merge_mono [OF ts m(1)]
  have le: "sum_list (add_tok t xs) + toks_len ts < 2147483648"
    "sum_list xs < 2147483648" "sum_list (add_tok t xs) < 2147483648"
    using m Cons.prems(4) t toks_len_nonneg [OF ts] by auto
  have "tx (send_tok t b) (add_tok t xs)"
    by (rule tx_send_tok [OF Cons.prems(1) _ _ t])
      (use le m mm Cons.prems in \<open>auto simp: signal_ok_def\<close>)
  then show ?case using Cons.IH [OF _ m(1) ts le(1)] Cons.prems(5) by simp
qed simp

text \<open>\<open>sync_send_buffer\<close> ends a signal with a pulse: a last space is dropped.\<close>

definition end_pulse :: "lirc_t list \<Rightarrow> lirc_t list" where
  "end_pulse xs = (if even (length xs) then butlast xs else xs)"

lemma tx_sync:
  assumes t: "tx b xs" and ok: "signal_ok xs" and len: "length xs \<le> 256"
  shows "sent (sync_send_buffer b) = end_pulse xs"
    "ssum (sync_send_buffer b) = sum_list (end_pulse xs)"
    "\<not> bad_send_buffer (sync_send_buffer b)"
    "swptr (sync_send_buffer b) = int (length (end_pulse xs))"
    "sdata (sync_send_buffer b) = sdata b"
    "nat (swptr (sync_send_buffer b)) \<le> length (sown (sync_send_buffer b))"
proof -
  define c where "c = sync_send_buffer b"
  have "sent c = end_pulse xs \<and> ssum c = sum_list (end_pulse xs) \<and> \<not> bad_send_buffer c \<and>
      swptr c = int (length (end_pulse xs)) \<and> sdata c = sdata b \<and> nat (swptr c) \<le> length (sown c)"
  proof (cases "odd (length xs)")
    case True
    then have ne: "xs \<noteq> []" by auto
    note f = flush_pending [OF t ok ne len]
    note a = add_send_buffer_sent [OF f(1-4)]
    have pend: "0 < last xs" "sum_list (butlast xs) + last xs = sum_list xs"
      using signal_ok_parts(1) [OF ok ne] sum_butlast_last [OF ne] by auto
    have sw: "swptr b + 1 = int (length xs)" using tx_swptr [OF t] ne by (cases xs) auto
    have c: "c = (add_send_buffer (last xs) b)\<lparr>spendingp := 0\<rparr>"
      using t True ne pend sw a by (auto simp: c_def sync_send_buffer_def tx_def Let_def)
    then show ?thesis
      using t True a f(5) pend sw by (auto simp: end_pulse_def sent_def tx_def bad_send_buffer_def)
  next
    case False
    then have "xs = [] \<or> odd (length xs - 1)" by (cases xs) simp_all
    then have "swptr b = 0 \<or> odd (swptr b)"
    proof
      assume "xs = []"
      then show ?thesis using tx_swptr [OF t] by simp
    next
      assume "odd (length xs - 1)"
      then show ?thesis unfolding tx_swptr [OF t] even_of_nat by (rule disjI2)
    qed
    then have "swptr b = 0 \<or> swptr b mod 2 \<noteq> 0" by presburger
    moreover have "spendingp b = 0" using t False by (auto simp: tx_def split: if_splits)
    ultimately have "c = b"
      by (auto simp: c_def sync_send_buffer_def Let_def)
    then show ?thesis
      using t False tx_swptr [OF t] by (auto simp: end_pulse_def tx_def bad_send_buffer_def split: if_splits)
  qed
  then show "sent (sync_send_buffer b) = end_pulse xs"
    "ssum (sync_send_buffer b) = sum_list (end_pulse xs)"
    "\<not> bad_send_buffer (sync_send_buffer b)"
    "swptr (sync_send_buffer b) = int (length (end_pulse xs))"
    "sdata (sync_send_buffer b) = sdata b"
    "nat (swptr (sync_send_buffer b)) \<le> length (sown (sync_send_buffer b))"
    unfolding c_def by blast+
qed


section \<open>A whole transmission\<close>

text \<open>The samples of one signal.\<close>

definition frame_samples :: "ir_remote \<Rightarrow> ir_code \<Rightarrow> bool \<Rightarrow> lirc_t list" where
  "frame_samples r code rep = end_pulse (merge_toks (code_toks r code rep))"

text \<open>The signals this section is about: bits sent one by one, positive lengths that fit the buffer.\<close>

definition frame_ok :: "ir_remote \<Rightarrow> ir_code \<Rightarrow> bool \<Rightarrow> bool" where
  "frame_ok r code rep \<longleftrightarrow> plain_bits r \<and> field_sizes_ok r \<and> toks_pos (code_toks r code rep) \<and>
     toks_len (code_toks r code rep) < 2147483648 \<and>
     length (merge_toks (code_toks r code rep)) \<le> 256"

lemma frame_ok_merge:
  assumes "frame_ok r code rep"
  shows "signal_ok (merge_toks (code_toks r code rep))"
  using merge_mono [of "code_toks r code rep" "[]"] assms
  by (auto simp: frame_ok_def signal_ok_def merge_toks_def)

lemma tx_ssum_irrelevant:
  "sync_send_buffer (b\<lparr>ssum := x\<rparr>) =
     (sync_send_buffer b)\<lparr>ssum := i32 (x + (if spendingp b > 0 \<and> swptr b < WBUF_SIZE then spendingp b else 0))\<rparr>"
  if "i32_range x"
  using that by (auto simp: sync_send_buffer_def add_send_buffer_def Let_def)

lemma ssum_sdata: "b\<lparr>ssum := x, sdata := y\<rparr> = b\<lparr>sdata := y, ssum := x\<rparr>"
  by simp

definition length_correction :: "ir_remote \<Rightarrow> bool \<Rightarrow> lirc_t" where
  "length_correction r rep =
     (if \<not> rep \<and> flags r AND NO_HEAD_REP \<noteq> 0 \<and> flags r AND CONST_LENGTH \<noteq> 0
      then i32 (phead r + shead r) else 0)"

lemma end_pulse_set: "set (end_pulse xs) \<subseteq> set xs"
  by (auto simp: end_pulse_def dest: in_set_butlastD)

lemma send_code_synced:
  fixes b :: sbuf
  assumes ok: "frame_ok r code rep" and t: "tx b []"
  defines "c \<equiv> sync_send_buffer ((send_code r code rep b)\<lparr>sdata := Own_data\<rparr>)"
  shows "buffer_samples c = Some (frame_samples r code rep)"
    "\<not> bad_send_buffer c" "swptr c = int (length (frame_samples r code rep))" "sdata c = Own_data"
    "length_correction r rep = 0 \<Longrightarrow> ssum c = sum_list (frame_samples r code rep)"
proof -
  let ?xs = "merge_toks (code_toks r code rep)"
  let ?b = "send_toks (code_toks r code rep) b"
  have f: "plain_bits r" "field_sizes_ok r" "toks_pos (code_toks r code rep)"
    "toks_len (code_toks r code rep) < 2147483648" "length ?xs \<le> 256"
    using ok by (simp_all add: frame_ok_def)
  have tx: "tx (?b\<lparr>sdata := Own_data\<rparr>) ?xs"
    using tx_send_toks [OF t, of "code_toks r code rep"] f
    by (simp add: merge_toks_def tx_def sent_def)
  note s = tx_sync [OF tx frame_ok_merge [OF ok] f(5)]
  define x where "x = i32 (ssum ?b - i32 (phead r + shead r))"
  have c: "c = sync_send_buffer (?b\<lparr>sdata := Own_data\<rparr>) \<or>
      c = sync_send_buffer (?b\<lparr>sdata := Own_data, ssum := x\<rparr>) \<and>
        \<not> rep \<and> flags r AND NO_HEAD_REP \<noteq> 0 \<and> flags r AND CONST_LENGTH \<noteq> 0"
    unfolding c_def send_code_toks [OF f(1,2)] Let_def x_def
    by (auto simp: ssum_sdata)
  have "i32_range x" by (simp add: x_def)
  then have r: "sent c = frame_samples r code rep \<and> \<not> bad_send_buffer c \<and>
      swptr c = int (length (frame_samples r code rep)) \<and> sdata c = Own_data"
    using c s tx_ssum_irrelevant [of x "?b\<lparr>sdata := Own_data\<rparr>"]
    by (auto simp: frame_samples_def sent_def bad_send_buffer_def)
  then show "buffer_samples c = Some (frame_samples r code rep)"
    "\<not> bad_send_buffer c" "swptr c = int (length (frame_samples r code rep))" "sdata c = Own_data"
    by (auto simp: buffer_samples_def sent_def)
  show "ssum c = sum_list (frame_samples r code rep)" if "length_correction r rep = 0"
  proof (cases "c = sync_send_buffer (?b\<lparr>sdata := Own_data\<rparr>)")
    case True
    then show ?thesis using s(2) by (simp add: frame_samples_def)
  next
    case False
    then have "x = i32 (ssum ?b)"
      using c that by (simp add: length_correction_def x_def)
    moreover have "i32_range (ssum ?b)"
    proof (cases "?xs = []")
      case False
      then show ?thesis
        using signal_ok_parts [OF frame_ok_merge [OF ok] False] tx
        by (auto simp: tx_def i32_range_def)
    qed (use tx in \<open>simp add: tx_def i32_range_def\<close>)
    ultimately have "x = ssum ?b" by simp
    moreover have "?b\<lparr>sdata := Own_data, ssum := ssum ?b\<rparr> = ?b\<lparr>sdata := Own_data\<rparr>" by simp
    ultimately show ?thesis using c False by metis
  qed
qed

lemma frame_samples_pos: "frame_ok r code rep \<Longrightarrow> \<forall>x \<in> set (frame_samples r code rep). 0 < x"
  using frame_ok_merge end_pulse_set by (fastforce simp: frame_samples_def signal_ok_def)

lemma check_samples:
  "buffer_samples b = Some xs \<Longrightarrow> sdata b = Own_data \<Longrightarrow> swptr b = int (length xs) \<Longrightarrow>
   \<forall>x \<in> set xs. 0 < x \<Longrightarrow> check_send_buffer b = Some (xs \<noteq> [])"
  by (auto simp: check_send_buffer_def)

definition sendable :: "ir_remote \<Rightarrow> bool" where
  "sendable r \<longleftrightarrow> \<not> is_grundig r \<and> \<not> is_goldstar r \<and> \<not> is_serial r \<and> \<not> is_bo r \<and> \<not> is_raw r"

text \<open>The dry run measures exactly the samples of the signal.\<close>

lemma tx_start:
  "tx (clear_send_buffer b) []" "tx ((clear_send_buffer b)\<lparr>sis_biphase := True\<rparr>) []"
  using tx_clear [of b] by (simp_all add: tx_def sent_def)

lemma init_sim_samples:
  assumes "sendable r" "frame_ok r (nc_code c) rep" "\<not> (rep \<and> has_repeat r)"
    "frame_samples r (nc_code c) rep \<noteq> []"
  shows "\<exists>b'. init_sim repeating r c rep b = Some (True, r, c, b') \<and>
     buffer_samples b' = Some (frame_samples r (nc_code c) rep) \<and>
     (length_correction r rep = 0 \<longrightarrow> ssum b' = sum_list (frame_samples r (nc_code c) rep))"
proof -
  define d where "d = (if is_biphase r then (clear_send_buffer b)\<lparr>sis_biphase := True\<rparr> else clear_send_buffer b)"
  have "tx d []" using tx_start by (simp add: d_def)
  note s = send_code_synced [OF assms(2) this]
  let ?b = "sync_send_buffer ((send_code r (nc_code c) rep d)\<lparr>sdata := Own_data\<rparr>)"
  have "\<not> is_raw r" using assms(1) by (simp add: sendable_def)
  then have fr: "send_frame True rep r c d =
      (True, r, (send_code r (nc_code c) rep d)\<lparr>sdata := Own_data\<rparr>)"
    unfolding send_frame_def if_not_P [OF assms(3)]
    by (simp add: toggle_after_send_def next_send_code_def split: option.splits)
  have "init_sim repeating r c rep b = send_loop True rep r c d"
    using assms(1) by (simp add: init_sim_def init_send_or_sim_def sendable_def d_def Let_def)
  also have "\<dots> = Option.bind (check_send_buffer ?b) (\<lambda>ok. Some (ok, r, c, ?b))"
    using s(2) by (subst send_loop.simps) (simp add: send_round_of_def fr Let_def)
  also have "check_send_buffer ?b = Some True"
    using check_samples [OF s(1,4,3) frame_samples_pos [OF assms(2)]] assms(4) by simp
  finally show ?thesis using s(1,5) by simp
qed


lemma toggled_bit_countdown: "toggled_bit (r\<lparr>repeat_countdown := n\<rparr>) = toggled_bit r"
  by (intro ext) (simp add: toggled_bit_def ir_preds cong: if_cong)

lemma data_toks_countdown: "data_toks (r\<lparr>repeat_countdown := n\<rparr>) = data_toks r"
  by (intro ext) (simp add: data_toks_def field_toks_def bit_toks_def one_toks_def zero_toks_def
      toggled_bit_countdown ir_preds bit_count_def cong: if_cong)

lemma code_toks_countdown: "code_toks (r\<lparr>repeat_countdown := n\<rparr>) = code_toks r"
  by (intro ext) (simp add: code_toks_def header_toks_def lead_toks_def pre_toks_def post_toks_def
      trail_toks_def foot_toks_def data_toks_countdown ir_preds)

lemma frame_countdown:
  "frame_samples (r\<lparr>repeat_countdown := n\<rparr>) = frame_samples r"
  "frame_ok (r\<lparr>repeat_countdown := n\<rparr>) = frame_ok r"
  by (intro ext; simp add: frame_samples_def frame_ok_def code_toks_countdown plain_bits_def
      field_sizes_ok_def ir_preds)+

lemma toggle_after_send_gap:
  "min_gap (toggle_after_send r s) = min_gap r" "max_gap (toggle_after_send r s) = max_gap r"
  "is_const (toggle_after_send r s) = is_const r"
  "repeat_countdown (toggle_after_send r s) = repeat_countdown r"
  by (simp_all add: toggle_after_send_def min_gap_def max_gap_def ir_preds)

text \<open>The gap a signal of the given length is followed by.\<close>

definition gap_left :: "ir_remote \<Rightarrow> lirc_t \<Rightarrow> lirc_t" where
  "gap_left r len = (if is_const r then min_gap r - len else min_gap r)"

lemma init_send_samples:
  assumes "sendable r" "frame_ok r (nc_code c) False" "frame_samples r (nc_code c) False \<noteq> []"
    "min_repeat r \<le> 0" "nc_nodes c = []" "nc_transmit_state c = None"
    "is_const r \<Longrightarrow> sum_list (frame_samples r (nc_code c) False) < min_gap r"
    "length_correction r False = 0" "i32_range (min_gap r)"
  shows "\<exists>r' b'. init_send False r c b = Some (True, r', c, b') \<and>
     buffer_samples b' = Some (frame_samples r (nc_code c) False) \<and>
     min_remaining_gap r' = gap_left r (sum_list (frame_samples r (nc_code c) False))"
proof -
  let ?xs = "frame_samples r (nc_code c) False"
  define d where "d = (if is_biphase r then (clear_send_buffer b)\<lparr>sis_biphase := True\<rparr> else clear_send_buffer b)"
  define q where "q = r\<lparr>repeat_countdown := min_repeat r\<rparr>"
  have "tx d []" using tx_start by (simp add: d_def)
  have ok: "frame_ok q (nc_code c) False" using assms(2) by (simp add: q_def frame_countdown)
  note s = send_code_synced [OF ok \<open>tx d []\<close>]
  have xs: "frame_samples q (nc_code c) False = ?xs" by (simp add: q_def frame_countdown)
  have lc: "length_correction q False = 0"
    using assms(8) by (auto simp: q_def length_correction_def split: if_splits)
  define e where "e = sync_send_buffer ((send_code q (nc_code c) False d)\<lparr>sdata := Own_data\<rparr>)"
  note s' = s [folded e_def, unfolded xs]
  have sm: "ssum e = sum_list ?xs" using s'(5) lc by simp
  define t where "t = toggle_after_send q False"
  have qr: "min_gap q = min_gap r" "is_const q = is_const r" "\<not> is_raw q"
    "repeat_countdown q = min_repeat r"
    using assms(1) by (simp_all add: q_def min_gap_def ir_preds sendable_def)
  have fr: "send_frame False False q c d = (True, t, (send_code q (nc_code c) False d)\<lparr>sdata := Own_data\<rparr>)"
    using qr(3) assms(6) by (simp add: send_frame_def next_send_code_def t_def)
  define g where "g = snd (set_remaining_gap False t e)"
  have g: "set_remaining_gap False t e = (True, g)" "repeat_countdown g \<le> 0"
    "min_remaining_gap g = gap_left r (sum_list ?xs)"
  proof -
    have "0 \<le> sum_list ?xs"
      using frame_samples_pos [OF assms(2)] by (intro sum_list_nonneg) (auto intro: less_imp_le)
    then have "is_const r \<Longrightarrow> i32_range (min_gap r - sum_list ?xs)"
      using assms(7,9) by (auto simp: i32_range_def)
    then show "set_remaining_gap False t e = (True, g)" "repeat_countdown g \<le> 0"
      "min_remaining_gap g = gap_left r (sum_list ?xs)"
      using assms(4,7) qr sm
      by (auto simp: g_def set_remaining_gap_def t_def toggle_after_send_gap gap_left_def)
  qed
  have "init_send False r c b = send_loop False False q c d"
    using assms(1)
    by (simp add: init_send_def init_send_or_sim_def sendable_def d_def Let_def q_def)
  also have "\<dots> = Option.bind (check_send_buffer e) (\<lambda>ok. Some (ok, g, c, e))"
    using s'(2) g assms(5,6)
    by (subst send_loop.simps)
      (simp add: send_round_of_def fr Let_def e_def [symmetric] update_transmit_state_def join_next_def)
  also have "check_send_buffer e = Some True"
    using check_samples [OF s'(1,4,3) frame_samples_pos [OF assms(2)]] assms(3) by simp
  finally show ?thesis using s'(1) g(3) by simp
qed

end
