(* ===== verification/IrRemote.thy ===== *)
theory IrRemote
  imports ReceiveDecode
begin

text \<open>
  \<open>daemons/ir_remote.c\<close> without its two entry points \<open>decode_all\<close> and \<open>send_ir_ncode\<close>:
  searches in the list of remotes, code and gap mapping, the recognition of a button
  (\<open>get_code\<close>), the bookkeeping of repeats (\<open>set_code\<close>) and the text of an event.
\<close>

section \<open>Time and masks\<close>

definition time_left :: "timeval \<Rightarrow> timeval \<Rightarrow> lirc_t \<Rightarrow> lirc_t" where
  "time_left current from_tv g =
     (let secs = word_of_int (tv_sec current - tv_sec from_tv) :: ulong;
          diff = 1000000 * secs + word_of_int (tv_usec current) - word_of_int (tv_usec from_tv)
      in if diff < word_of_int g then i32 (uint (word_of_int g - diff)) else 0)"

definition match_ir_code :: "ir_remote \<Rightarrow> ir_code \<Rightarrow> ir_code \<Rightarrow> bool" where
  "match_ir_code r a b \<longleftrightarrow>
     (ignore_mask r OR a) = (ignore_mask r OR b) \<or>
     (ignore_mask r OR a) = (ignore_mask r OR (b XOR toggle_bit_mask r))"

section \<open>Searches in a list of remotes\<close>

definition freq_step :: "ir_remote \<Rightarrow> u32 \<times> u32 \<Rightarrow> u32 \<times> u32" where
  "freq_step r mm =
     (case mm of (mn, mx) \<Rightarrow>
        if freq r \<noteq> 0 then
          (if freq r > mx then (mn, freq r) else if freq r < mn then (freq r, mx) else (mn, mx))
        else (mn, mx))"

definition get_frequency_range :: "ir_remote list \<Rightarrow> u32 \<times> u32" where
  "get_frequency_range rs =
     (case rs of [] \<Rightarrow> (0, 0) | r # rest \<Rightarrow> fold freq_step rest (freq r, freq r))"

record filter_params =
  f_max_gap :: lirc_t
  f_min_pulse :: lirc_t
  f_min_space :: lirc_t
  f_max_pulse :: lirc_t
  f_max_space :: lirc_t

definition filter_step :: "hardware \<Rightarrow> ir_remote \<Rightarrow> filter_params \<Rightarrow> filter_params" where
  "filter_step h r f =
     (let mg = upper_limit h r (max_gap_length r);
          np = lower_limit h r (min_pulse_length r);
          ns = lower_limit h r (min_space_length r);
          xp = upper_limit h r (max_pulse_length r);
          xs = upper_limit h r (max_space_length r)
      in \<lparr>f_max_gap = (if mg > f_max_gap f then mg else f_max_gap f),
          f_min_pulse = (if f_min_pulse f = 0 \<or> np < f_min_pulse f then np else f_min_pulse f),
          f_min_space = (if f_min_space f = 0 \<or> ns > f_min_space f then ns else f_min_space f),
          f_max_pulse = (if xp > f_max_pulse f then xp else f_max_pulse f),
          f_max_space = (if xs > f_max_space f then xs else f_max_space f)\<rparr>)"

definition get_filter_parameters :: "hardware \<Rightarrow> ir_remote list \<Rightarrow> filter_params" where
  "get_filter_parameters h rs =
     fold (filter_step h) rs
       \<lparr>f_max_gap = 0, f_min_pulse = 0, f_min_space = 0, f_max_pulse = 0, f_max_space = 0\<rparr>"

definition is_in_remotes :: "addr list \<Rightarrow> addr \<Rightarrow> bool" where
  "is_in_remotes remotes p \<longleftrightarrow> List.member remotes p"

definition get_ir_remote :: "(addr \<Rightarrow> ir_remote) \<Rightarrow> addr list \<Rightarrow> string \<Rightarrow> addr option" where
  "get_ir_remote st remotes nm = find (\<lambda>p. strcaseeq (name (st p)) nm) remotes"

text \<open>A remote without a \<open>codes\<close> array: the search dereferences NULL.\<close>

definition get_code_by_name :: "ir_remote \<Rightarrow> string \<Rightarrow> nat option option" where
  "get_code_by_name r nm =
     map_option (find_index_from 0 (\<lambda>c. strcaseeq (nc_name c) nm)) (codes r)"

section \<open>Codes and gaps of drivers with their own decoder\<close>

definition map_code ::
  "ir_remote \<Rightarrow> int \<Rightarrow> ir_code \<Rightarrow> int \<Rightarrow> ir_code \<Rightarrow> int \<Rightarrow> ir_code \<Rightarrow> (ir_code \<times> ir_code \<times> ir_code) option" where
  "map_code r pre_n pre code_n code post_n post =
     (if i32 (i32 (pre_n + code_n) + post_n) \<noteq> bit_count r then None
      else
        let a = pre AND gen_mask pre_n;
            a = shl64 a code_n;
            a = a OR (code AND gen_mask code_n);
            a = shl64 a post_n;
            a = a OR (post AND gen_mask post_n);
            postp = a AND gen_mask (post_data_bits r);
            a = shr64 a (post_data_bits r);
            codep = a AND gen_mask (bits r);
            a = shr64 a (bits r);
            prep = a AND gen_mask (pre_data_bits r)
        in Some (prep, codep, postp))"

text \<open>The repeat flag and the range of the gap that remains.\<close>

definition map_gap ::
  "hardware \<Rightarrow> ir_remote \<Rightarrow> timeval \<Rightarrow> timeval \<Rightarrow> lirc_t \<Rightarrow> bool \<times> lirc_t \<times> lirc_t" where
  "map_gap h r start from_tv signal_length =
     (let rep = (if tv_sec start - tv_sec from_tv \<ge> 2 then False
                 else expect_at_most h r (i32 (uint (time_elapsed from_tv start)))
                        (max_remaining_gap r))
      in if is_const r then
           (if min_gap r > signal_length
            then (rep, i32 (min_gap r - signal_length), i32 (max_gap r - signal_length))
            else (rep, 0, if max_gap r > signal_length then i32 (max_gap r - signal_length) else 0))
         else (rep, min_gap r, max_gap r))"

section \<open>Recognising a button\<close>

text \<open>With a toggle mask, every second signal has the bits of the mask inverted.\<close>

datatype field = F_pre | F_code | F_post

definition toggle_flip_step ::
  "ir_remote \<Rightarrow> nat \<Rightarrow> (ir_code \<times> ir_code \<times> ir_code) \<times> field \<times> int \<times> ir_code
     \<Rightarrow> (ir_code \<times> ir_code \<times> ir_code) \<times> field \<times> int \<times> ir_code" where
  "toggle_flip_step r b st =
     (case st of ((pre, code, post), aff, cur, m) \<Rightarrow>
        let (aff, cur) = (if int b = post_data_bits r then (F_code, 0) else (aff, cur));
            (aff, cur) = (if int b = i32 (post_data_bits r + bits r) then (F_pre, 0) else (aff, cur));
            x = shl64 (m AND 1) cur
        in ((case aff of
               F_pre \<Rightarrow> (pre XOR x, code, post)
             | F_code \<Rightarrow> (pre, code XOR x, post)
             | F_post \<Rightarrow> (pre, code, post XOR x)), aff, cur + 1, drop_bit 1 m))"

definition toggle_flip ::
  "ir_remote \<Rightarrow> ir_code \<times> ir_code \<times> ir_code \<Rightarrow> ir_code \<times> ir_code \<times> ir_code" where
  "toggle_flip r pcp =
     (if has_toggle_mask r \<and> toggle_mask_state r mod 2 \<noteq> 0
      then fst (fold (toggle_flip_step r) [0..<nat (bit_count r)] (pcp, F_post, 0, toggle_mask r))
      else pcp)"

text \<open>The bits of pre and post data that are not compared.\<close>

definition pre_mask :: "ir_remote \<Rightarrow> ir_code" where
  "pre_mask r =
     (if has_toggle_bit_mask r then shr64 (toggle_bit_mask r) (i32 (bits r + post_data_bits r)) else 0)
     OR (if has_ignore_mask r then shr64 (ignore_mask r) (i32 (bits r + post_data_bits r)) else 0)"

definition post_mask :: "ir_remote \<Rightarrow> ir_code" where
  "post_mask r =
     (if has_toggle_bit_mask r then toggle_bit_mask r AND gen_mask (post_data_bits r) else 0)
     OR (if has_ignore_mask r then ignore_mask r AND gen_mask (post_data_bits r) else 0)"

definition code_at :: "ir_remote \<Rightarrow> ir_ncode \<Rightarrow> nat option \<Rightarrow> ir_code" where
  "code_at r nc node = gen_ir_code r (pre_data r) (get_ir_code nc node) (post_data r)"

text \<open>A button with further codes is a sequence; \<open>nc_current\<close> is the code awaited next. When
  it does not come, the longest beginning of the sequence that ends with the code just
  received is looked for. \<open>seq_walk\<close> is the inner loop: it compares the beginning with what was
  received up to \<open>current\<close> and returns the node before the awaited one.\<close>

function seq_walk :: "ir_ncode \<Rightarrow> nat option \<Rightarrow> nat \<Rightarrow> nat \<Rightarrow> nat option option" where
  "seq_walk nc prev nxt cur =
     (if nxt < cur then
        (if get_ir_code nc prev \<noteq> get_ir_code nc (Some nxt) then None
         else seq_walk nc (get_next_ir_code_node nc prev) (Suc nxt) cur)
      else Some prev)"
  by pat_completeness auto
termination
  by (relation "measure (\<lambda>(_, _, nxt, cur). cur - nxt)") auto

declare seq_walk.simps [simp del]

fun seq_search :: "ir_remote \<Rightarrow> ir_code \<Rightarrow> ir_ncode \<Rightarrow> nat \<Rightarrow> nat list \<Rightarrow> nat option option" where
  "seq_search r a nc cur [] = None"
| "seq_search r a nc cur (j # js) =
     (case seq_walk nc None j cur of
        Some prev \<Rightarrow>
          if match_ir_code r (code_at r nc prev) a then Some (get_next_ir_code_node nc prev)
          else seq_search r a nc cur js
      | None \<Rightarrow> seq_search r a nc cur js)"

definition seq_step :: "ir_remote \<Rightarrow> ir_code \<Rightarrow> ir_ncode \<Rightarrow> bool \<times> ir_ncode" where
  "seq_step r a nc =
     (if match_ir_code r (code_at r nc (nc_current nc)) a then
        (True, if nc_nodes nc \<noteq> []
               then nc\<lparr>nc_current := get_next_ir_code_node nc (nc_current nc)\<rparr> else nc)
      else
        (case (nc_nodes nc, nc_current nc) of
           (_ # _, Some cur) \<Rightarrow>
             (case seq_search r a nc cur [0..<Suc cur] of
                Some nxt \<Rightarrow> (True, nc\<lparr>nc_current := nxt\<rparr>)
              | None \<Rightarrow> (False, nc\<lparr>nc_current := None\<rparr>))
         | _ \<Rightarrow> (False, nc\<lparr>nc_current := None\<rparr>)))"

text \<open>The scan over all buttons: the first one that is complete, else the first that matched
  last before a complete one was seen. The flag of the accumulator is \<open>have_code\<close>.\<close>

fun scan_codes ::
  "ir_remote \<Rightarrow> ir_code \<Rightarrow> nat \<Rightarrow> nat option \<times> bool \<Rightarrow> ir_ncode list \<Rightarrow> nat option \<times> ir_ncode list" where
  "scan_codes r a i (found, have) [] = (found, [])"
| "scan_codes r a i (found, have) (nc # cs) =
     (let (ok, nc') = seq_step r a nc;
          complete = match_ir_code r (code_at r nc (nc_current nc)) a \<and> nc_current nc' = None;
          acc = (if ok \<and> \<not> have then (Some i, complete) else (found, have));
          (res, cs') = scan_codes r a (Suc i) acc cs
      in (res, nc' # cs'))"

definition toggle_mask_check :: "ir_remote \<Rightarrow> nat option \<Rightarrow> nat option \<times> ir_remote" where
  "toggle_mask_check r found =
     (if found \<noteq> None \<and> has_toggle_mask r then
        (if toggle_mask_state r mod 2 = 0 then (found, r\<lparr>toggle_code := found\<rparr>)
         else if found \<noteq> toggle_code r then (None, r\<lparr>toggle_code := None\<rparr>)
         else (found, r\<lparr>toggle_code := None\<rparr>))
      else (found, r))"

text \<open>The result: the index of the button and the state of the toggle bits, and the remote with
  the state of its sequences.\<close>

definition get_code ::
  "ir_remote \<Rightarrow> ir_code \<Rightarrow> ir_code \<Rightarrow> ir_code \<Rightarrow> (nat \<times> ir_code) option \<times> ir_remote" where
  "get_code r pre0 code0 post0 =
     (case toggle_flip r (pre0, code0, post0) of (pre, code, post) \<Rightarrow>
        if has_pre r \<and> (pre OR pre_mask r) \<noteq> (pre_data r OR pre_mask r) then (None, r)
        else if has_post r \<and> (post OR post_mask r) \<noteq> (post_data r OR post_mask r) then (None, r)
        else
          let a = gen_ir_code r pre code post;
              (found, cs') = (case codes r of None \<Rightarrow> (None, None)
                              | Some cs \<Rightarrow> map_prod id Some (scan_codes r a 0 (None, False) cs));
              (found, r') = toggle_mask_check (r\<lparr>codes := cs'\<rparr>) found
          in (map_option (\<lambda>i. (i, a AND toggle_bit_mask r)) found, r'))"

end
