(* ===== verification/Events.thy ===== *)
theory Events
  imports IrRemote
begin

text \<open>
  \<open>set_code\<close> and \<open>write_message\<close> of \<open>daemons/ir_remote.c\<close>: the bookkeeping of a recognised
  button and the line of text that clients receive for it.
\<close>

text \<open>The remaining globals of \<open>ir_remote.c\<close>: \<open>decoding\<close>, as the list of the remotes from that
  pointer on, the static \<open>last_decoded\<close> of \<open>set_code\<close>, and \<open>repeat_remote\<close>.\<close>

record lircd = decoder +
  decoding :: "addr list"
  last_decoded :: "addr option"
  repeat_remote :: "addr option"

section \<open>Repeats\<close>

definition ncode_at :: "ir_remote \<Rightarrow> nat \<Rightarrow> ir_ncode option" where
  "ncode_at r i =
     (case codes r of None \<Rightarrow> None | Some cs \<Rightarrow> if i < length cs then Some (cs ! i) else None)"

text \<open>Is this signal the repetition of the last one?\<close>

definition same_signal ::
  "addr \<Rightarrow> ir_ncode \<Rightarrow> nat \<Rightarrow> ir_code \<Rightarrow> bool \<Rightarrow> timeval \<Rightarrow> 'z lircd_scheme \<Rightarrow> bool" where
  "same_signal p nc i tbms repeat_flag current s \<longleftrightarrow>
     (let r = store s p in
        last_decoded s = Some p \<and>
        (last_code r = Some i \<or> nc_nodes nc \<noteq> [] \<and> nc_current nc \<noteq> None) \<and>
        repeat_flag \<and> time_elapsed (last_send r) current < 1000000 \<and>
        (\<not> has_toggle_bit_mask r \<or> tbms = toggle_bit_mask_state r))"

definition count_repeat :: "ir_remote \<Rightarrow> ir_ncode \<Rightarrow> ir_remote" where
  "count_repeat r nc =
     (if has_toggle_mask r then
        (if toggle_mask_state r + 1 = 4
         then r\<lparr>reps := i32 (reps r + 1), toggle_mask_state := 2\<rparr>
         else r\<lparr>toggle_mask_state := i32 (toggle_mask_state r + 1)\<rparr>)
      else if nc_current nc = None then r\<lparr>reps := i32 (reps r + 1)\<rparr>
      else r)"

definition start_press :: "ir_remote \<Rightarrow> ir_ncode \<Rightarrow> nat \<Rightarrow> ir_code \<Rightarrow> ir_remote" where
  "start_press r nc i tbms =
     (let r = r\<lparr>reps := (if nc_nodes nc \<noteq> [] \<and> nc_current nc = None then 1 else 0)\<rparr>;
          r = (if has_toggle_mask r then r\<lparr>toggle_mask_state := 1, toggle_code := Some i\<rparr> else r)
      in if has_toggle_bit_mask r then r\<lparr>toggle_bit_mask_state := tbms\<rparr> else r)"

text \<open>The code that is reported: pre data, the first code of the button, post data.\<close>

definition report_code :: "ir_remote \<Rightarrow> ir_ncode \<Rightarrow> ir_code" where
  "report_code r nc =
     (let c = (if has_pre r then shl64 (pre_data r) (bits r) else 0);
          c = c OR nc_code nc;
          c = (if has_post r then shl64 c (post_data_bits r) OR post_data r else c)
      in if flags r AND COMPAT_REVERSE \<noteq> 0 then reverse c (bit_count r) else c)"

definition set_code ::
  "addr \<Rightarrow> nat \<Rightarrow> ir_code \<Rightarrow> bool \<Rightarrow> lirc_t \<Rightarrow> lirc_t \<Rightarrow> 'z lircd_scheme \<Rightarrow> (ir_code \<times> 'z lircd_scheme) option" where
  "set_code p i tbms repeat_flag min_rem max_rem s =
     do { nc \<leftarrow> ncode_at (store s p) i;
          let (current, s) = gettimeofday s;
              r = store s p;
              repeat_flag = (repeat_flag \<and> release_detected r = 0);
              r = r\<lparr>release_detected := 0\<rparr>;
              r = (if same_signal p nc i tbms repeat_flag current s
                   then count_repeat r nc else start_press r nc i tbms);
              r = r\<lparr>last_code := (if nc_current nc = None then Some i else last_code r),
                    last_send := current,
                    min_remaining_gap := min_rem, max_remaining_gap := max_rem\<rparr>;
              s = s\<lparr>store := (store s)(p := r), last_remote := Some p, last_decoded := Some p\<rparr>
          in Some (report_code r nc, s) }"

section \<open>The message\<close>

definition hex_digit :: "nat \<Rightarrow> char" where
  "hex_digit n = ''0123456789abcdef'' ! n"

function hex_int :: "int \<Rightarrow> string" where
  "hex_int n = (if n < 16 then [hex_digit (nat n)] else hex_int (n div 16) @ [hex_digit (nat (n mod 16))])"
  by pat_completeness auto
termination
  by (relation "measure nat") auto

declare hex_int.simps [simp del]

definition pad_zero :: "nat \<Rightarrow> string \<Rightarrow> string" where
  "pad_zero w t = replicate (w - length t) CHR ''0'' @ t"

text \<open>The text that \<open>"%016llx %02x %s%s %s\n"\<close> describes, and \<open>snprintf\<close>: what fits in a buffer
  of \<open>buflen\<close> bytes, and the length of the whole text.\<close>

definition message_text :: "string \<Rightarrow> string \<Rightarrow> string \<Rightarrow> ir_code \<Rightarrow> int \<Rightarrow> string" where
  "message_text remote_name button_nm button_suffix code rp =
     pad_zero 16 (hex_int (uint code)) @ '' '' @
     pad_zero 2 (hex_int (uint (word_of_int rp :: u32))) @ '' '' @
     button_nm @ button_suffix @ '' '' @ remote_name @ [CHR 0x0A]"

definition write_message ::
  "nat \<Rightarrow> string \<Rightarrow> string \<Rightarrow> string \<Rightarrow> ir_code \<Rightarrow> int \<Rightarrow> string \<times> nat" where
  "write_message buflen remote_name button_nm button_suffix code rp =
     (let t = message_text remote_name button_nm button_suffix code rp
      in (take (buflen - 1) t, length t))"

definition PACKET_SIZE :: nat where [c_eval]: "PACKET_SIZE = 256"

text \<open>
  \<open>daemons/release.c\<close>: the button that is held down, the time at which its release is assumed,
  and the release events. The static variables are a record; the pointers \<open>release_remote\<close> and
  \<open>release_ncode\<close> are set and cleared together in the C code, except that
  \<open>release_map_remotes\<close> clears \<open>release_remote2\<close> alone, so all of them are kept.
\<close>

record rel_state =
  release_time :: timeval
  release_remote :: "addr option"
  release_ncode :: "nat option"
  release_code :: ir_code
  release_reps :: int
  release_gap :: lirc_t
  release_remote2 :: "addr option"
  release_ncode2 :: "nat option"
  release_code2 :: ir_code
  release_suffix :: string

record lircd_rel = lircd +
  rel :: rel_state

definition LIRC_RELEASE_SUFFIX :: string where "LIRC_RELEASE_SUFFIX = ''_UP''"

definition rel_state0 :: rel_state where
  "rel_state0 = \<lparr>release_time = timeval0, release_remote = None, release_ncode = None,
     release_code = 0, release_reps = 0, release_gap = 0, release_remote2 = None,
     release_ncode2 = None, release_code2 = 0, release_suffix = LIRC_RELEASE_SUFFIX\<rparr>"

text \<open>\<open>timeradd\<close>: the microseconds carry into the seconds once.\<close>

definition timeradd :: "timeval \<Rightarrow> timeval \<Rightarrow> timeval" where
  "timeradd a b =
     (let sec = tv_sec a + tv_sec b; usec = tv_usec a + tv_usec b
      in if usec \<ge> 1000000 then \<lparr>tv_sec = sec + 1, tv_usec = usec - 1000000\<rparr>
         else \<lparr>tv_sec = sec, tv_usec = usec\<rparr>)"

definition register_input :: "'z lircd_rel_scheme \<Rightarrow> 'z lircd_rel_scheme" where
  "register_input s =
     (if release_remote (rel s) = None then s
      else let (current, s) = gettimeofday s
           in s\<lparr>rel := (rel s)\<lparr>release_time :=
                   timeradd current \<lparr>tv_sec = 0, tv_usec = release_gap (rel s)\<rparr>\<rparr>\<rparr>)"

definition release_gap_of :: "hardware \<Rightarrow> ir_remote \<Rightarrow> lirc_t" where
  "release_gap_of h r =
     i32 (upper_limit h r (i32 (max_total_signal_length r - min_gap_length r)) +
          receive_timeout (upper_limit h r (min_gap_length r)) + 10000)"

definition register_button_press ::
  "addr \<Rightarrow> nat option \<Rightarrow> ir_code \<Rightarrow> int \<Rightarrow> 'z lircd_rel_scheme \<Rightarrow> 'z lircd_rel_scheme" where
  "register_button_press p nc code rp s =
     (let q = rel s;
          q = (if rp = 0 \<and> release_remote q \<noteq> None
               then q\<lparr>release_remote2 := release_remote q, release_ncode2 := release_ncode q,
                      release_code2 := release_code q\<rparr>
               else q);
          q = q\<lparr>release_remote := Some p, release_ncode := nc, release_code := code,
                release_reps := rp, release_gap := release_gap_of (hw s) (store s p)\<rparr>
      in register_input (s\<lparr>rel := q\<rparr>))"

definition set_release_suffix :: "string \<Rightarrow> 'z lircd_rel_scheme \<Rightarrow> 'z lircd_rel_scheme" where
  "set_release_suffix t s = s\<lparr>rel := (rel s)\<lparr>release_suffix := t\<rparr>\<rparr>"

definition get_release_time :: "'z lircd_rel_scheme \<Rightarrow> timeval" where
  "get_release_time s = release_time (rel s)"

text \<open>The name of a button through its two pointers; a NULL pointer faults.\<close>

definition button_name :: "(addr \<Rightarrow> ir_remote) \<Rightarrow> addr \<Rightarrow> nat option \<Rightarrow> string option" where
  "button_name st p nc = do { i \<leftarrow> nc; c \<leftarrow> ncode_at (st p) i; Some (nc_name c) }"

definition get_release_data :: "'z lircd_rel_scheme \<Rightarrow> (string \<times> string \<times> int) option" where
  "get_release_data s =
     do { p \<leftarrow> release_remote (rel s);
          b \<leftarrow> button_name (store s) p (release_ncode (rel s));
          Some (name (store s p), b, release_reps (rel s)) }"

text \<open>An event: the names of remote and button, and the message, \<open>None\<close> when it overflows the
  packet buffer.\<close>

type_synonym release_event = "string \<times> string \<times> string option"

definition release_message ::
  "'z lircd_rel_scheme \<Rightarrow> addr \<Rightarrow> string \<Rightarrow> ir_code \<Rightarrow> string option" where
  "release_message s p b code =
     (let (t, n) = write_message (PACKET_SIZE + 1) (name (store s p)) b (release_suffix (rel s)) code 0
      in if n \<ge> PACKET_SIZE + 1 then None else Some t)"

definition check_release_event ::
  "'z lircd_rel_scheme \<Rightarrow> (release_event option \<times> 'z lircd_rel_scheme) option" where
  "check_release_event s =
     (case release_remote2 (rel s) of
        None \<Rightarrow> Some (None, s)
      | Some p \<Rightarrow>
          do { b \<leftarrow> button_name (store s) p (release_ncode2 (rel s));
               Some (Some (name (store s p), b, release_message s p b (release_code2 (rel s))),
                     s\<lparr>rel := (rel s)\<lparr>release_remote2 := None, release_ncode2 := None,
                                       release_code2 := 0\<rparr>\<rparr>) })"

definition trigger_release_event ::
  "'z lircd_rel_scheme \<Rightarrow> (release_event option \<times> 'z lircd_rel_scheme) option" where
  "trigger_release_event s =
     (case release_remote (rel s) of
        None \<Rightarrow> Some (None, s)
      | Some p \<Rightarrow>
          do { s \<leftarrow> Some (s\<lparr>store := (store s)(p := (store s p)\<lparr>release_detected := 1\<rparr>)\<rparr>);
               b \<leftarrow> button_name (store s) p (release_ncode (rel s));
               Some (Some (name (store s p), b, release_message s p b (release_code (rel s))),
                     s\<lparr>rel := (rel s)\<lparr>release_time := timeval0, release_remote := None,
                                       release_ncode := None, release_code := 0\<rparr>\<rparr>) })"

text \<open>After a reload of the configuration: the held button is looked up by its names in the new
  list, or released when it is gone.\<close>

definition release_map_remotes ::
  "addr list \<Rightarrow> addr list \<Rightarrow> 'z lircd_rel_scheme \<Rightarrow> (release_event option \<times> 'z lircd_rel_scheme) option" where
  "release_map_remotes old new s =
     (let s = s\<lparr>rel := (rel s)\<lparr>release_remote2 := None\<rparr>\<rparr>
      in case release_remote (rel s) of
           None \<Rightarrow> Some (None, s)
         | Some p \<Rightarrow>
             if is_in_remotes old p then
               (case get_ir_remote (store s) new (name (store s p)) of
                  None \<Rightarrow> trigger_release_event s
                | Some q \<Rightarrow>
                    do { b \<leftarrow> button_name (store s) p (release_ncode (rel s));
                         found \<leftarrow> get_code_by_name (store s q) b;
                         case found of
                           None \<Rightarrow> trigger_release_event s
                         | Some i \<Rightarrow>
                             Some (None, s\<lparr>rel := (rel s)\<lparr>release_remote := Some q,
                                                           release_ncode := Some i\<rparr>\<rparr>) })
             else Some (None, s))"

end
