(* ===== verification/Demo.thy ===== *)
theory Demo
  imports Events
begin

text \<open>
  A concrete remote, its buttons, hardware and states: the inputs at which the properties of the
  other theories are evaluated. The remote has the format of a common NEC protocol, shortened
  to eight bits of pre data and eight bits of code.
\<close>

definition demo_button :: "string \<Rightarrow> ir_code \<Rightarrow> ir_ncode" where
  "demo_button n c = ncode0\<lparr>nc_name := n, nc_code := c\<rparr>"

definition demo_remote :: ir_remote where
  "demo_remote = remote0\<lparr>name := ''TV'',
     codes := Some [demo_button ''POWER'' 0x5A, demo_button ''MUTE'' 0x13],
     flags := SPACE_ENC OR CONST_LENGTH, eps := 30, aeps := 100, bits := 8,
     phead := 9000, shead := 4500, pone := 560, sone := 1690, pzero := 560, szero := 560,
     ptrail := 560, pre_data_bits := 8, pre_data := 0xC1, gap := 108000\<rparr>"

definition demo_hw :: hardware where
  "demo_hw = \<lparr>rec_mode = LIRC_MODE_MODE2, send_mode = LIRC_MODE_PULSE, features = 0, code_length = 0, resolution = 0\<rparr>"

definition demo_decoder :: "lirc_t list \<Rightarrow> decoder" where
  "demo_decoder input =
     \<lparr>rdata = (\<lambda>_. 0), decoded = 0, rptr = 0, wptr = 0, too_long = 0, rec_is_biphase = 0,
      pendingp = 0, pendings = 0, rsum = 0, last_signal_time = timeval0, hw = demo_hw,
      hw_input = input, hw_read = [], clock = (\<lambda>_. timeval0), ticks = 0,
      store = (\<lambda>_. demo_remote), last_remote = None\<rparr>"


definition demo_lircd :: "lirc_t list \<Rightarrow> lircd_rel" where
  "demo_lircd input =
     \<lparr>rdata = (\<lambda>_. 0), decoded = 0, rptr = 0, wptr = 0, too_long = 0, rec_is_biphase = 0,
      pendingp = 0, pendings = 0, rsum = 0, last_signal_time = timeval0, hw = demo_hw,
      hw_input = input, hw_read = [], clock = (\<lambda>_. timeval0), ticks = 0,
      store = (\<lambda>_. demo_remote), last_remote = None, decoding = [], last_decoded = None,
      repeat_remote = None, rel = rel_state0\<rparr>"

text \<open>A remote with one button and one bit, for evaluations with more steps.\<close>

definition tiny_button :: ir_ncode where
  "tiny_button = ncode0\<lparr>nc_name := ''B'', nc_code := 1\<rparr>"

definition tiny_remote :: ir_remote where
  "tiny_remote = remote0\<lparr>name := ''A'', codes := Some [tiny_button], flags := SPACE_ENC, bits := 1,
     pone := 5, sone := 7, pzero := 5, szero := 3, ptrail := 5, gap := 100\<rparr>"

text \<open>
  What the inline functions of \<open>ir_remote.h\<close> compute: reversal and counting of bits, tolerances.
\<close>

text \<open>\<open>reverse\<close> mirrors the lowest bits of a code and clears the others, so that doing it twice
  gives the code back, without the bits above.\<close>

theorem reverse_mirrors:
  assumes "n \<le> 64"
  shows "(\<forall>k. bit (reverse d n) k \<longleftrightarrow> int k < n \<and> bit d (nat n - 1 - k)) \<and>
     reverse (reverse d n) n = d AND gen_mask n"
  using assms by (simp add: bit_reverse reverse_involution)

lemma reverse_mirrors_witness:
  "reverse 0xC1 8 = 0x83 \<and> reverse (reverse 0x7C1 8) 8 = 0xC1"
proof -
  have "reverse 0xC1 8 = 0x83" "0x7C1 AND gen_mask 8 = 0xC1" by code_simp+
  then show ?thesis using reverse_mirrors [of 8 "0x7C1"] by simp
qed

text \<open>\<open>bits_set\<close> counts the bits that are set, for every code.\<close>

theorem bits_set_counts: "bits_set d = int (card {k. k < 64 \<and> bit d k}) \<and> bits_set d \<le> 64"
proof -
  have "{k. bit d k} = {k. k < 64 \<and> bit d k}" using bit_imp_le_length [of d] by auto
  moreover have "card {k. k < 64 \<and> bit d k} \<le> card {..<64 :: nat}"
    by (rule card_mono) auto
  ultimately show ?thesis by (simp add: bits_set_card)
qed

text \<open>Within the range in which the arithmetic does not overflow, a length is as expected exactly
  when it is both at least and at most as expected: it lies in the window of the remote's relative
  tolerance, its absolute tolerance and the resolution of the hardware around the expected length.\<close>

theorem tolerance_window:
  assumes "tolerance_fits h r ex" "0 \<le> d" "d < 16777216"
  shows "(expect h r d ex \<longleftrightarrow> expect_at_least h r d ex \<and> expect_at_most h r d ex) \<and>
     (expect h r d ex \<longleftrightarrow> d \<in> {ex - tolerance h r ex .. ex + tolerance h r ex})"
  using expect_iff [OF assms] expect_at_least_iff [OF assms] expect_at_most_iff [OF assms(1), of d]
  by auto

lemma tolerance_window_witness:
  "expect demo_hw demo_remote 728 560 \<and> \<not> expect demo_hw demo_remote 729 560 \<and>
   tolerance demo_hw demo_remote 560 = 168"
proof -
  have f: "tolerance_fits demo_hw demo_remote 560" "tolerance demo_hw demo_remote 560 = 168"
    by code_simp+
  then show ?thesis
    using tolerance_window [OF f(1), of 728, THEN conjunct2] tolerance_window [OF f(1), of 729, THEN conjunct2]
    by simp
qed

end
