(* ===== verification/RoundTrip.thy ===== *)
theory RoundTrip
  imports RxFacts TxFacts Demo
begin

text \<open>
  From the transmitter to the receiver: the samples that \<open>transmit.c\<close> produces for a button of
  a space encoded remote, read with every length within the tolerances of the remote, are
  decoded by \<open>receive.c\<close> to the code of the button.
\<close>

section \<open>Reading with an optional pending space\<close>

text \<open>\<open>n\<close> samples lie before \<open>us\<close>; the last of them is still to be read when a space is pending.\<close>

definition ready :: "ir_remote \<Rightarrow> 'z rx_scheme \<Rightarrow> nat \<Rightarrow> lirc_t list \<Rightarrow> lirc_t \<Rightarrow> bool" where
  "ready r s n us ps \<longleftrightarrow> (\<exists>cs qs sm. rd s cs (qs @ us) 0 ps sm \<and> length cs + length qs = n \<and>
     (if 0 < ps then \<exists>q. qs = [q] \<and> len24 q \<and> expect (hw s) r q ps else ps = 0 \<and> qs = []))"

lemma ready_rd: "rd s cs us 0 0 sm \<Longrightarrow> ready r s (length cs) us 0"
  by (auto simp: ready_def)

lemma ready_rd_space:
  "rd s cs (q # us) 0 ps sm \<Longrightarrow> 0 < ps \<Longrightarrow> len24 q \<Longrightarrow> expect (hw s) r q ps \<Longrightarrow>
   ready r s (Suc (length cs)) us ps"
  by (force simp: ready_def)

lemma ready_pulse:
  assumes s: "ready r s n (pulse_sample p # us) ps" and n: "n < 512" and p: "len24 p"
  shows "\<exists>s' cs sm. expectpulse r x s = Some (expect (hw s) r p x, s') \<and> same_regs s s' \<and>
     rd s' (cs @ [pulse_sample p]) us 0 0 sm \<and> length cs = n"
proof -
  from s obtain cs qs sm where 1: "rd s cs (qs @ pulse_sample p # us) 0 ps sm"
      "length cs + length qs = n"
      "if 0 < ps then \<exists>q. qs = [q] \<and> len24 q \<and> expect (hw s) r q ps else ps = 0 \<and> qs = []"
    by (auto simp: ready_def)
  show ?thesis
  proof (cases "0 < ps")
    case True
    then obtain q where q: "qs = [q]" "len24 q" "expect (hw s) r q ps" using 1(3) by auto
    have "rd s cs (q # pulse_sample p # us) 0 ps sm" using 1(1) q by simp
    from expectpulse_after_space [OF this, of r x] n 1(2) q p True
    obtain s' sm' where "expectpulse r x s = Some (expect (hw s) r p x, s')" "same_regs s s'"
        "rd s' (cs @ [q, pulse_sample p]) us 0 0 sm'"
      by auto
    then show ?thesis using 1(2) q by (intro exI [of _ s'] exI [of _ "cs @ [q]"]) auto
  next
    case False
    then have "rd s cs (pulse_sample p # us) 0 0 sm" "length cs = n" using 1 by auto
    from expectpulse_plain [OF this(1), of r x] n p this(2) show ?thesis by blast
  qed
qed

section \<open>One bit\<close>

text \<open>The remotes of this theory: space encoding, no toggling, a trailing pulse.\<close>

definition space_encoded :: "ir_remote \<Rightarrow> bool" where
  "space_encoded r \<longleftrightarrow> is_space_enc r \<and> rc6_mask r = 0 \<and> toggle_bit_mask r = 0 \<and>
     toggle_mask r = 0 \<and> flags r AND NO_HEAD_REP = 0 \<and> plead r = 0 \<and> 0 < ptrail r \<and>
     0 < pone r \<and> 0 < sone r \<and> 0 < pzero r \<and> 0 < szero r \<and> 0 < bits r \<and>
     bits r < 64 \<and> pre_data_bits r < 64 \<and> post_data_bits r < 64"

lemma space_encoded_preds:
  assumes "space_encoded r"
  shows "\<not> is_raw r" "\<not> is_space_first r" "\<not> is_biphase r" "\<not> is_rcmm r" "\<not> is_goldstar r"
    "\<not> is_grundig r" "\<not> is_bo r" "\<not> is_serial r" "\<not> is_xmp r" "\<not> has_toggle_bit_mask r"
    "\<not> has_toggle_mask r"
  using assms by (simp_all add: space_encoded_def ir_preds flag_defs)

definition bit_as :: "hardware \<Rightarrow> ir_remote \<Rightarrow> bool \<Rightarrow> lirc_t \<times> lirc_t \<Rightarrow> bool" where
  "bit_as h r d pq \<longleftrightarrow>
     (if d then expect h r (fst pq) (pone r) \<and> expect h r (snd pq) (sone r)
      else expect h r (fst pq) (pzero r) \<and> expect h r (snd pq) (szero r))"

definition bit_got :: "hardware \<Rightarrow> ir_remote \<Rightarrow> bool \<Rightarrow> lirc_t \<times> lirc_t \<Rightarrow> bool" where
  "bit_got h r d pq \<longleftrightarrow> len24 (fst pq) \<and> len24 (snd pq) \<and> bit_as h r d pq \<and>
     (\<not> d \<longrightarrow> \<not> bit_as h r True pq)"

lemma pair_hit_or_miss:
  assumes s: "ready r s n (pulse_sample p # q # us) ps" and n: "Suc n < 512" and pq: "len24 p" "len24 q"
  shows "\<exists>s'. do { (ok, s) \<leftarrow> expect_or_unget True (expectpulse r x) 1 s;
                   if \<not> ok then Some (False, s) else expect_or_unget True (expectspace r y) 2 s }
            = Some (expect (hw s) r p x \<and> expect (hw s) r q y, s') \<and> same_regs s s' \<and>
          (if expect (hw s) r p x \<and> expect (hw s) r q y then ready r s' (n + 2) us 0
           else ready r s' n (pulse_sample p # q # us) 0)"
proof -
  obtain t cs sm where t: "expectpulse r x s = Some (expect (hw s) r p x, t)" "same_regs s t"
      "rd t (cs @ [pulse_sample p]) (q # us) 0 0 sm" "length cs = n"
    using ready_pulse [OF s _ pq(1), of x] n by auto
  show ?thesis
  proof (cases "expect (hw s) r p x")
    case False
    obtain u where "unget_rec_buffer 1 t = Some u" "same_regs t u"
        "ready r u n (pulse_sample p # q # us) 0"
      using rd_unget1 [OF t(3)] ready_rd t(4) by metis
    with False t show ?thesis
      by (auto simp: expect_or_unget_def intro: same_regs_trans)
  next
    case True
    obtain u where u: "expectspace r y t = Some (expect (hw t) r q y, u)" "same_regs t u"
        "rd u (cs @ [pulse_sample p, q]) us 0 0 (i32 (sm + q))"
      using expectspace_plain [OF t(3), of r y] t(4) n pq(2) by auto
    have h: "hw t = hw s" using t(2) by (rule same_regs_hw)
    show ?thesis
    proof (cases "expect (hw s) r q y")
      case True': True
      have "ready r u (n + 2) us 0" using ready_rd [OF u(3)] t(4) by simp
      with True True' t u h show ?thesis
        by (auto simp: expect_or_unget_def intro: same_regs_trans)
    next
      case False
      obtain v where "unget_rec_buffer 2 u = Some v" "same_regs u v"
          "ready r v n (pulse_sample p # q # us) 0"
        using rd_unget2 [OF u(3)] ready_rd t(4) by metis
      with True False t u h show ?thesis
        by (auto simp: expect_or_unget_def intro: same_regs_trans)
    qed
  qed
qed

lemma expect_bit_pair:
  assumes "space_encoded r"
  shows "expectone r b s =
      do { (ok, s) \<leftarrow> expect_or_unget True (expectpulse r (pone r)) 1 s;
           if \<not> ok then Some (False, s) else expect_or_unget True (expectspace r (sone r)) 2 s }"
    "expectzero r b s =
      do { (ok, s) \<leftarrow> expect_or_unget True (expectpulse r (pzero r)) 1 s;
           if \<not> ok then Some (False, s) else expect_or_unget True (expectspace r (szero r)) 2 s }"
  using assms space_encoded_preds [OF assms]
  by (simp_all add: expectone_def expectzero_def space_encoded_def cong: if_cong)


lemma expectone_ready:
  assumes r: "space_encoded r" and s: "ready r s n (pulse_sample (fst pq) # snd pq # us) ps"
    and n: "Suc n < 512" and pq: "len24 (fst pq)" "len24 (snd pq)"
  shows "\<exists>s'. expectone r b s = Some (bit_as (hw s) r True pq, s') \<and> same_regs s s' \<and>
    (if bit_as (hw s) r True pq then ready r s' (n + 2) us 0
     else ready r s' n (pulse_sample (fst pq) # snd pq # us) 0)"
  using pair_hit_or_miss [OF s n pq, of "pone r" "sone r"]
  unfolding expect_bit_pair(1) [OF r] bit_as_def by simp

lemma expectzero_ready:
  assumes r: "space_encoded r" and s: "ready r s n (pulse_sample (fst pq) # snd pq # us) ps"
    and n: "Suc n < 512" and pq: "len24 (fst pq)" "len24 (snd pq)"
  shows "\<exists>s'. expectzero r b s = Some (bit_as (hw s) r False pq, s') \<and> same_regs s s' \<and>
    (if bit_as (hw s) r False pq then ready r s' (n + 2) us 0
     else ready r s' n (pulse_sample (fst pq) # snd pq # us) 0)"
  using pair_hit_or_miss [OF s n pq, of "pzero r" "szero r"]
  unfolding expect_bit_pair(2) [OF r] bit_as_def by simp

section \<open>A field\<close>

definition bits_value :: "bool list \<Rightarrow> ir_code \<Rightarrow> ir_code" where
  "bits_value bs c = fold (\<lambda>d c. push_bit 1 c OR (if d then 1 else 0)) bs c"

definition pair_samples :: "(lirc_t \<times> lirc_t) list \<Rightarrow> lirc_t list" where
  "pair_samples pqs = concat (map (\<lambda>pq. [pulse_sample (fst pq), snd pq]) pqs)"

lemma pair_samples_simps [simp]:
  "pair_samples [] = []"
  "pair_samples (pq # pqs) = pulse_sample (fst pq) # snd pq # pair_samples pqs"
  by (simp_all add: pair_samples_def)

lemma bits_loop_ready:
  assumes r: "space_encoded r" and b: "list_all2 (bit_got (hw s) r) bs pqs"
    and s: "ready r s n (pair_samples pqs @ us) ps" and n: "n + 2 * length bs \<le> 512"
    and i: "nbits = i + int (length bs)"
  shows "\<exists>s'. bits_loop r nbits dn i code s = Some (bits_value bs code, r, s') \<and> same_regs s s' \<and>
    ready r s' (n + 2 * length bs) us (if bs = [] then ps else 0)"
  using b s n i
proof (induction bs arbitrary: pqs s n ps i code)
  case Nil
  then show ?case by (simp add: bits_loop.simps [of r i dn i] bits_value_def)
next
  case (Cons d bs)
  then obtain pq pqs' where p: "pqs = pq # pqs'" "bit_got (hw s) r d pq"
      "list_all2 (bit_got (hw s) r) bs pqs'"
    by (auto simp: list_all2_Cons1)
  have l: "len24 (fst pq)" "len24 (snd pq)" using p(2) by (auto simp: bit_got_def)
  have s: "ready r s n (pulse_sample (fst pq) # snd pq # (pair_samples pqs' @ us)) ps"
    using Cons.prems p by simp
  have n: "Suc n < 512" using Cons.prems by simp
  have gs: "goldstar_set r (dn + i) = r" using space_encoded_preds [OF r] by (simp add: goldstar_set_def)
  have lt: "i < nbits" using Cons.prems by simp
  obtain t where t: "expectone r (dn + i) s = Some (bit_as (hw s) r True pq, t)" "same_regs s t"
      "if bit_as (hw s) r True pq then ready r t (n + 2) (pair_samples pqs' @ us) 0
       else ready r t n (pulse_sample (fst pq) # snd pq # (pair_samples pqs' @ us)) 0"
    using expectone_ready [OF r s n l] by blast
  have h: "hw t = hw s" using t(2) by (rule same_regs_hw)
  obtain u where u: "bits_loop r nbits dn i code s =
        bits_loop r nbits dn (i + 1) (push_bit 1 code OR (if d then 1 else 0)) u"
      "same_regs s u" "ready r u (n + 2) (pair_samples pqs' @ us) 0"
  proof (cases d)
    case True
    then have "bit_as (hw s) r True pq" using p(2) by (simp add: bit_got_def)
    then show thesis
      using that [of t] t True lt by (simp add: bits_loop.simps [of r nbits dn i] gs)
  next
    case False
    then have z: "bit_as (hw s) r False pq" "\<not> bit_as (hw s) r True pq"
      using p(2) by (simp_all add: bit_got_def)
    obtain u where "expectzero r (dn + i) t = Some (True, u)" "same_regs t u"
        "ready r u (n + 2) (pair_samples pqs' @ us) 0"
      using expectzero_ready [OF r _ n l, of t "pair_samples pqs' @ us" 0 "dn + i"] t(3) z h by auto
    then show thesis
      using that [of u] t z False lt same_regs_trans [OF t(2)]
      by (simp add: bits_loop.simps [of r nbits dn i] gs)
  qed
  have hu: "hw u = hw s" using u(2) by (rule same_regs_hw)
  obtain v where v: "bits_loop r nbits dn (i + 1) (push_bit 1 code OR (if d then 1 else 0)) u =
        Some (bits_value bs (push_bit 1 code OR (if d then 1 else 0)), r, v)" "same_regs u v"
      "ready r v (n + 2 + 2 * length bs) us (if bs = [] then 0 else 0)"
    using Cons.IH [of u pqs' "n + 2" 0 "i + 1" "push_bit 1 code OR (if d then 1 else 0)"]
      p(3) hu u(3) Cons.prems by auto
  show ?case
    using u(1) v same_regs_trans [OF u(2) v(2)]
    by (auto simp: bits_value_def)
qed

text \<open>The highest of the \<open>n\<close> bits of \<open>data\<close> comes first.\<close>

definition field_bits :: "nat \<Rightarrow> ir_code \<Rightarrow> bool list" where
  "field_bits n data = map (\<lambda>i. bit data (n - 1 - i)) [0..<n]"

lemma field_bits_Suc: "field_bits (Suc n) data = bit data n # field_bits n data"
proof -
  have "[0..<Suc n] = 0 # map Suc [0..<n]" by (simp add: upt_conv_Cons map_Suc_upt)
  then show ?thesis by (simp add: field_bits_def comp_def)
qed

lemma length_field_bits [simp]: "length (field_bits n data) = n"
  by (simp add: field_bits_def)

lemma bits_value_bit:
  assumes "j < 64"
  shows "bit (bits_value bs c) j =
     (if j < length bs then bs ! (length bs - 1 - j) else bit c (j - length bs))"
proof (induction bs arbitrary: c)
  case Nil
  then show ?case by (simp add: bits_value_def)
next
  case (Cons d bs)
  have "bit (push_bit 1 c OR (if d then 1 else 0)) k = (if k = 0 then d else bit c (k - 1))"
    if "k < 64" for k
    using that bit_push64 [of 1 c k] by (cases d; cases k) (auto simp: bit_or_iff simp del: push_bit_of_1)
  then show ?case
    using assms Cons.IH [of "push_bit 1 c OR (if d then 1 else 0)"]
    by (auto simp: bits_value_def nth_Cons')
qed

lemma bits_value_field:
  assumes "n < 64"
  shows "bits_value (field_bits n data) 0 = data AND gen_mask (int n)"
  using assms
  by (intro word64_eqI) (auto simp: bits_value_bit field_bits_def bit_and_gen_mask)


section \<open>Tokens as they are heard\<close>

text \<open>A sample of the driver that the receiver may get for a pulse or a space: its length is
  within the tolerance.\<close>

fun tok_heard :: "hardware \<Rightarrow> ir_remote \<Rightarrow> tok \<Rightarrow> lirc_t \<Rightarrow> bool" where
  "tok_heard h r (Pulse x) z \<longleftrightarrow> len24 (z - PULSE_BIT) \<and> expect h r (z - PULSE_BIT) x"
| "tok_heard h r (Space x) z \<longleftrightarrow> len24 z \<and> expect h r z x"

definition heard :: "hardware \<Rightarrow> ir_remote \<Rightarrow> tok list \<Rightarrow> lirc_t list \<Rightarrow> bool" where
  "heard h r ts zs \<longleftrightarrow> list_all2 (tok_heard h r) ts zs"

lemma heard_Nil [simp]: "heard h r [] zs \<longleftrightarrow> zs = []"
  by (simp add: heard_def)

lemma heard_length: "heard h r ts zs \<Longrightarrow> length zs = length ts"
  by (simp add: heard_def list_all2_lengthD)

lemma heard_appendE:
  assumes "heard h r (ts @ us) zs"
  obtains xs ys where "zs = xs @ ys" "heard h r ts xs" "heard h r us ys"
  using assms by (auto simp: heard_def list_all2_append1)

lemma heard_PulseE:
  assumes "heard h r (Pulse x # ts) zs"
  obtains y zs' where "zs = pulse_sample y # zs'" "len24 y" "expect h r y x" "heard h r ts zs'"
proof -
  obtain z zs' where z: "zs = z # zs'" "len24 (z - PULSE_BIT)" "expect h r (z - PULSE_BIT) x"
      "heard h r ts zs'"
    using assms by (auto simp: heard_def list_all2_Cons1)
  then show thesis using that [of "z - PULSE_BIT" zs'] by (simp add: pulse_sample_def)
qed

lemma heard_SpaceE:
  assumes "heard h r (Space x # ts) zs"
  obtains y zs' where "zs = y # zs'" "len24 y" "expect h r y x" "heard h r ts zs'"
  using assms by (auto simp: heard_def list_all2_Cons1)

definition pair_of_bit :: "ir_remote \<Rightarrow> bool \<Rightarrow> tok list" where
  "pair_of_bit r d = (if d then [Pulse (pone r), Space (sone r)] else [Pulse (pzero r), Space (szero r)])"

lemma field_toks_space_encoded:
  assumes "space_encoded r"
  shows "field_toks r m n data = concat (map (pair_of_bit r) (field_bits n data))"
proof -
  have "bit_toks r k d = pair_of_bit r d" for k d
    using assms space_encoded_preds [OF assms]
    by (simp add: bit_toks_def pair_of_bit_def one_toks_def zero_toks_def toggled_bit_def
        space_encoded_def)
  then show ?thesis by (simp add: field_toks_def field_bits_def comp_def)
qed

lemma pair_of_bit_simps:
  "pair_of_bit r True = [Pulse (pone r), Space (sone r)]"
  "pair_of_bit r False = [Pulse (pzero r), Space (szero r)]" "length (pair_of_bit r d) = 2"
  by (simp_all add: pair_of_bit_def)

lemma length_data_toks:
  "space_encoded r \<Longrightarrow> length (data_toks r data n dn) = 2 * nat n"
  by (simp add: data_toks_def field_toks_space_encoded length_concat comp_def pair_of_bit_simps(3)
      sum_list_triv)

text \<open>No pair of lengths is taken for a one and a zero.\<close>

definition bits_distinct :: "hardware \<Rightarrow> ir_remote \<Rightarrow> bool" where
  "bits_distinct h r \<longleftrightarrow>
     list_all (tolerance_fits h r) [pone r, sone r, pzero r, szero r] \<and>
     (tolerance h r (pone r) + tolerance h r (pzero r) < \<bar>pone r - pzero r\<bar> \<or>
      tolerance h r (sone r) + tolerance h r (szero r) < \<bar>sone r - szero r\<bar>)"

lemma bits_distinct_miss:
  assumes d: "bits_distinct h r" and pq: "len24 (fst pq)" "len24 (snd pq)" and z: "bit_as h r False pq"
  shows "\<not> bit_as h r True pq"
proof
  assume o: "bit_as h r True pq"
  have l: "0 \<le> fst pq" "fst pq < 16777216" "0 \<le> snd pq" "snd pq < 16777216"
    using pq by (auto simp: len24_def)
  have f: "tolerance_fits h r (pone r)" "tolerance_fits h r (sone r)"
      "tolerance_fits h r (pzero r)" "tolerance_fits h r (szero r)"
    using d by (auto simp: bits_distinct_def)
  have "\<bar>pone r - fst pq\<bar> \<le> tolerance h r (pone r)" "\<bar>sone r - snd pq\<bar> \<le> tolerance h r (sone r)"
      "\<bar>pzero r - fst pq\<bar> \<le> tolerance h r (pzero r)" "\<bar>szero r - snd pq\<bar> \<le> tolerance h r (szero r)"
    using o z l f by (auto simp: bit_as_def expect_iff)
  then show False using d unfolding bits_distinct_def by linarith
qed

lemma heard_pairs:
  assumes "heard h r (concat (map (pair_of_bit r) bs)) zs" "bits_distinct h r"
  shows "\<exists>pqs. zs = pair_samples pqs \<and> list_all2 (bit_got h r) bs pqs"
  using assms(1)
proof (induction bs arbitrary: zs)
  case Nil
  then show ?case by (intro exI [of _ "[]"]) simp
next
  case (Cons d bs)
  obtain p q zs' where z: "zs = pulse_sample p # q # zs'" "len24 p" "len24 q"
      "bit_as h r d (p, q)" "heard h r (concat (map (pair_of_bit r) bs)) zs'"
    using Cons.prems
    by (cases d) (auto simp: pair_of_bit_simps(1,2) bit_as_def elim!: heard_PulseE heard_SpaceE)
  then have "bit_got h r d (p, q)"
    using bits_distinct_miss [OF assms(2), of "(p, q)"] by (cases d) (auto simp: bit_got_def)
  moreover obtain pqs where "zs' = pair_samples pqs" "list_all2 (bit_got h r) bs pqs"
    using Cons.IH [OF z(5)] by blast
  ultimately show ?case using z(1) by (intro exI [of _ "(p, q) # pqs"]) auto
qed

section \<open>The parts of a signal\<close>

lemma get_data_ready:
  assumes r: "space_encoded r" and d: "bits_distinct (hw s) r"
    and z: "heard (hw s) r (data_toks r data nbits dn) zs"
    and s: "ready r s n (zs @ us) ps" and n: "n + length zs \<le> 512" and nb: "0 < nbits" "nbits < 64"
  shows "\<exists>s'. get_data r nbits dn' s = Some (data AND gen_mask nbits, r, s') \<and> same_regs s s' \<and>
    ready r s' (n + length zs) us 0"
proof -
  let ?bs = "field_bits (nat nbits) data"
  have "heard (hw s) r (concat (map (pair_of_bit r) ?bs)) zs"
    using z by (simp add: data_toks_def field_toks_space_encoded [OF r])
  then obtain pqs where p: "zs = pair_samples pqs" "list_all2 (bit_got (hw s) r) ?bs pqs"
    using heard_pairs d by blast
  have len: "length zs = 2 * length ?bs"
    using list_all2_lengthD [OF p(2)] unfolding p(1) pair_samples_def
    by (simp add: length_concat comp_def sum_list_triv)
  have ne: "?bs \<noteq> []" using nb by (auto simp: field_bits_def)
  obtain s' where "bits_loop r nbits dn' 0 0 s = Some (bits_value ?bs 0, r, s')" "same_regs s s'"
      "ready r s' (n + length zs) us 0"
    using bits_loop_ready [OF r p(2), of n us ps nbits 0 dn' 0] s n nb ne len unfolding p(1) by auto
  then show ?thesis
    using space_encoded_preds [OF r] nb bits_value_field [of "nat nbits" data]
    by (simp add: get_data_def)
qed

lemma masked_not_minus1: "0 < n \<Longrightarrow> n < 64 \<Longrightarrow> data AND gen_mask n \<noteq> (- 1 :: ir_code)"
proof
  assume n: "0 < n" "n < 64" and eq: "data AND gen_mask n = (- 1 :: ir_code)"
  have "bit (- 1 :: ir_code) 63" by simp
  then have "bit (data AND gen_mask n) 63" by (simp only: eq)
  with n show False unfolding bit_and_gen_mask by linarith
qed

text \<open>A pulse that is followed by a space which stays pending.\<close>

lemma pulse_then_pending:
  assumes s: "ready r s n (zs @ us) ps" and z: "heard (hw s) r [Pulse x, Space y] zs"
    and n: "n < 512" and y: "0 < y"
  shows "\<exists>s'. expectpulse r x s = Some (True, s') \<and> same_regs s s' \<and>
     ready r (set_pending_space y s') (n + 2) us y \<and> same_regs s (set_pending_space y s')"
proof -
  obtain p q where pq: "zs = [pulse_sample p, q]" "len24 p" "expect (hw s) r p x" "len24 q"
      "expect (hw s) r q y"
    using z by (auto elim!: heard_PulseE heard_SpaceE)
  have s': "ready r s n (pulse_sample p # (q # us)) ps" using s pq(1) by simp
  obtain t cs sm where t: "expectpulse r x s = Some (True, t)" "same_regs s t"
      "rd t (cs @ [pulse_sample p]) (q # us) 0 0 sm" "length cs = n"
    using ready_pulse [OF s' n pq(2), of x] pq(3) by auto
  let ?u = "set_pending_space y t"
  note u = rd_set_pending(2,4) [OF t(3), of y]
  have "hw ?u = hw s" using same_regs_hw t(2) u(2) by metis
  then have "ready r ?u (n + 2) us y"
    using ready_rd_space [OF u(1) y pq(4)] pq(5) t(4) by simp
  then show ?thesis using t u(2) same_regs_trans by blast
qed

lemma get_header_ready:
  assumes r: "space_encoded r" "has_header r" and s: "rd s cs (zs @ us) 0 0 sm"
    and z: "heard (hw s) r [Pulse (phead r), Space (shead r)] zs" and n: "length cs < 512"
  shows "\<exists>s'. get_header r s = Some (True, s') \<and> same_regs s s' \<and>
    ready r s' (length cs + 2) us (shead r)"
proof -
  have y: "0 < shead r" using r(2) by (simp add: has_header_def)
  have f: "flags r AND NO_HEAD_REP = 0" using r(1) by (simp add: space_encoded_def)
  show ?thesis
    using pulse_then_pending [OF ready_rd [OF s] z n y] space_encoded_preds [OF r(1)] y f
    by (auto simp: get_header_def expect_or_unget_def)
qed

lemma get_pre_ready:
  assumes r: "space_encoded r" "has_pre r" and d: "bits_distinct (hw s) r"
    and z: "heard (hw s) r (pre_toks r) zs" and s: "ready r s n (zs @ us) ps"
    and n: "n + length zs \<le> 512"
  shows "\<exists>s' ps'. get_pre r s = Some (pre_data r AND gen_mask (pre_data_bits r), r, s') \<and>
    same_regs s s' \<and> ready r s' (n + length zs) us ps'"
proof -
  have b: "0 < pre_data_bits r" "pre_data_bits r < 64"
    using r by (auto simp: has_pre_def space_encoded_def)
  note m = masked_not_minus1 [OF b, of "pre_data r"]
  obtain xs ys where xy: "zs = xs @ ys" "heard (hw s) r (data_toks r (pre_data r) (pre_data_bits r) 0) xs"
      "heard (hw s) r (cond_toks (pre_p r > 0 \<and> pre_s r > 0) [Pulse (pre_p r), Space (pre_s r)]) ys"
    using z r(2) by (auto simp: pre_toks_def cond_toks_def elim!: heard_appendE)
  obtain t where t: "get_data r (pre_data_bits r) 0 s =
        Some (pre_data r AND gen_mask (pre_data_bits r), r, t)" "same_regs s t"
      "ready r t (n + length xs) (ys @ us) 0"
    using get_data_ready [OF r(1) d xy(2), of n "ys @ us" ps 0] s n b xy(1) by auto
  show ?thesis
  proof (cases "pre_p r > 0 \<and> pre_s r > 0")
    case False
    then show ?thesis
      using t m xy by (auto simp: get_pre_def cond_toks_def)
  next
    case True
    have h: "hw t = hw s" using t(2) by (rule same_regs_hw)
    have y: "heard (hw t) r [Pulse (pre_p r), Space (pre_s r)] ys" "length ys = 2"
      using xy(3) True h heard_length [OF xy(3)] by (auto simp: cond_toks_def)
    obtain u where "expectpulse r (pre_p r) t = Some (True, u)"
        "ready r (set_pending_space (pre_s r) u) (n + length xs + 2) us (pre_s r)"
        "same_regs t (set_pending_space (pre_s r) u)"
      using pulse_then_pending [OF t(3) y(1)] n xy(1) y(2) True by auto
    then show ?thesis
      using t(1,2) m xy(1) y(2) True same_regs_trans [OF t(2)]
      by (auto simp: get_pre_def add.assoc intro!: exI [of _ "pre_s r"])
  qed
qed

lemma get_post_ready:
  assumes r: "space_encoded r" "has_post r" and d: "bits_distinct (hw s) r"
    and z: "heard (hw s) r (post_toks r) zs" and s: "ready r s n (zs @ us) ps"
    and n: "n + length zs \<le> 512"
  shows "\<exists>s'. get_post r s = Some (post_data r AND gen_mask (post_data_bits r), r, s') \<and>
    same_regs s s' \<and> ready r s' (n + length zs) us 0"
proof -
  have b: "0 < post_data_bits r" "post_data_bits r < 64"
    using r by (auto simp: has_post_def space_encoded_def)
  obtain xs ys where xy: "zs = xs @ ys"
      "heard (hw s) r (cond_toks (post_p r > 0 \<and> post_s r > 0) [Pulse (post_p r), Space (post_s r)]) xs"
      "heard (hw s) r (data_toks r (post_data r) (post_data_bits r) (i32 (pre_data_bits r + bits r))) ys"
    using z r(2) by (auto simp: post_toks_def cond_toks_def elim!: heard_appendE)
  have ys: "ys \<noteq> []"
    using heard_length [OF xy(3)] b by (auto simp: length_data_toks [OF r(1)])
  show ?thesis
  proof (cases "post_p r > 0 \<and> post_s r > 0")
    case False
    then have "xs = []" using xy(2) by (auto simp: cond_toks_def)
    then show ?thesis
      using get_data_ready [OF r(1) d xy(3), of n us ps] s n b xy(1) False by (auto simp: get_post_def)
  next
    case True
    have x: "heard (hw s) r [Pulse (post_p r), Space (post_s r)] xs" "length xs = 2"
      using xy(2) True heard_length [OF xy(2)] by (auto simp: cond_toks_def)
    have s': "ready r s n (xs @ (ys @ us)) ps" using s xy(1) by simp
    obtain t where t: "expectpulse r (post_p r) s = Some (True, t)"
        "ready r (set_pending_space (post_s r) t) (n + 2) (ys @ us) (post_s r)"
        "same_regs s (set_pending_space (post_s r) t)"
      using pulse_then_pending [OF s' x(1)] n xy(1) x(2) True by auto
    let ?t = "set_pending_space (post_s r) t"
    have h: "hw ?t = hw s" using t(3) by (rule same_regs_hw)
    obtain u where "get_data r (post_data_bits r) (i32 (pre_data_bits r + bits r)) ?t =
          Some (post_data r AND gen_mask (post_data_bits r), r, u)" "same_regs ?t u"
        "ready r u (n + 2 + length ys) us 0"
      using get_data_ready [OF r(1) _ _ t(2), of "post_data r" "post_data_bits r"] d h xy n b x(2) by auto
    then show ?thesis
      using t True xy(1) x(2) same_regs_trans [OF t(3)] by (auto simp: get_post_def)
  qed
qed


section \<open>The end of a signal\<close>

lemma get_trail_ready:
  assumes r: "space_encoded r" and z: "heard (hw s) r (trail_toks r) zs"
    and s: "ready r s n (zs @ us) ps" and n: "n < 512"
  shows "\<exists>s' cs sm. get_trail r s = Some (True, s') \<and> same_regs s s' \<and> rd s' cs us 0 0 sm \<and>
    length cs = n + length zs"
proof -
  have tr: "ptrail r \<noteq> 0" "trail_toks r = [Pulse (ptrail r)]"
    using r by (simp_all add: space_encoded_def trail_toks_def cond_toks_def)
  obtain y where y: "zs = [pulse_sample y]" "len24 y" "expect (hw s) r y (ptrail r)"
    using z unfolding tr(2) by (auto elim!: heard_PulseE)
  have s': "ready r s n (pulse_sample y # us) ps" using s y(1) by simp
  obtain t cs sm where t: "expectpulse r (ptrail r) s = Some (True, t)" "same_regs s t"
      "rd t (cs @ [pulse_sample y]) us 0 0 sm" "length cs = n"
    using ready_pulse [OF s' n y(2), of "ptrail r"] y(3) by auto
  then have "get_trail r s = Some (True, t)"
    using tr(1) by (simp add: get_trail_def rd_def)
  then show ?thesis
    using t y(1) by (intro exI [of _ t] exI [of _ "cs @ [pulse_sample y]"] exI [of _ sm]) simp
qed

lemma get_foot_ready:
  assumes f: "has_foot r" and z: "heard (hw s) r (foot_toks r) zs" and s: "rd s cs (zs @ us) 0 0 sm"
    and n: "Suc (length cs) < 512"
  shows "\<exists>s' cs' sm'. get_foot r s = Some (True, s') \<and> same_regs s s' \<and> rd s' cs' us 0 0 sm' \<and>
    length cs' = length cs + length zs"
proof -
  have "heard (hw s) r [Space (sfoot r), Pulse (pfoot r)] zs"
    using z f by (simp add: foot_toks_def cond_toks_def)
  then obtain p q where pq: "zs = [q, pulse_sample p]" "len24 q" "expect (hw s) r q (sfoot r)" "len24 p"
      "expect (hw s) r p (pfoot r)"
    by (auto elim!: heard_PulseE heard_SpaceE)
  have s': "rd s cs (q # (pulse_sample p # us)) 0 0 sm" using s pq(1) by simp
  obtain t sm1 where t: "expectspace r (sfoot r) s = Some (True, t)" "same_regs s t"
      "rd t (cs @ [q]) (pulse_sample p # us) 0 0 sm1"
    using expectspace_plain [OF s' _ pq(2), of r "sfoot r"] n pq(3) by auto
  obtain u sm2 where u: "expectpulse r (pfoot r) t = Some (True, u)" "same_regs t u"
      "rd u ((cs @ [q]) @ [pulse_sample p]) us 0 0 sm2"
    using expectpulse_plain [OF t(3) _ pq(4), of r "pfoot r"] n pq(5) same_regs_hw [OF t(2)] by auto
  have "same_regs s u" using t(2) u(2) by (rule same_regs_trans)
  then show ?thesis
    using t(1) u pq(1)
    by (intro exI [of _ u] exI [of _ "(cs @ [q]) @ [pulse_sample p]"] exI [of _ sm2]) (simp add: get_foot_def)
qed

lemma get_gap_at_end:
  assumes "rd s cs [] pp ps sm" "length cs < 512"
  shows "get_gap r g s = Some (True, s)"
  using rd_get_Nil [OF assms] by (simp add: get_gap_def)

lemma set_remote_same: "store s p = r \<Longrightarrow> set_remote p r s = s"
  by (cases s) (auto simp: set_remote_def)

lemma foot_or_not:
  assumes z: "heard (hw s) r (foot_toks r) zs" and s: "rd s cs (zs @ us) 0 0 sm"
    and n: "length cs + length zs < 512"
  shows "\<exists>s' cs' sm'. (if has_foot r then get_foot r s else Some (True, s)) = Some (True, s') \<and>
    same_regs s s' \<and> rd s' cs' us 0 0 sm' \<and> length cs' = length cs + length zs"
proof (cases "has_foot r")
  case True
  then have "length zs = 2" using heard_length [OF z] by (simp add: foot_toks_def cond_toks_def)
  then show ?thesis using get_foot_ready [OF True z s] n True by simp
next
  case False
  then have "zs = []" using z by (simp add: foot_toks_def cond_toks_def)
  with False s show ?thesis by auto
qed

lemma pre_or_not:
  assumes r: "space_encoded r" and d: "bits_distinct (hw s) r"
    and z: "heard (hw s) r (pre_toks r) zs" and s: "ready r s n (zs @ us) ps"
    and n: "n + length zs \<le> 512"
  shows "\<exists>s' ps'. (if has_pre r then get_pre r s else Some (0, r, s)) =
      Some (pre_data r AND gen_mask (pre_data_bits r), r, s') \<and>
    same_regs s s' \<and> ready r s' (n + length zs) us ps'"
proof (cases "has_pre r")
  case True
  then show ?thesis using get_pre_ready [OF r True d z s n] by simp
next
  case False
  then have "pre_data r AND gen_mask (pre_data_bits r) = 0"
    by (intro word64_eqI) (simp add: bit_and_gen_mask has_pre_def)
  moreover have "zs = []" using z False by (simp add: pre_toks_def cond_toks_def)
  ultimately show ?thesis using False s by auto
qed

lemma post_or_not:
  assumes r: "space_encoded r" and d: "bits_distinct (hw s) r"
    and z: "heard (hw s) r (post_toks r) zs" and s: "ready r s n (zs @ us) 0"
    and n: "n + length zs \<le> 512"
  shows "\<exists>s'. (if has_post r then get_post r s else Some (0, r, s)) =
      Some (post_data r AND gen_mask (post_data_bits r), r, s') \<and>
    same_regs s s' \<and> ready r s' (n + length zs) us 0"
proof (cases "has_post r")
  case True
  then show ?thesis using get_post_ready [OF r True d z s n] by simp
next
  case False
  then have "post_data r AND gen_mask (post_data_bits r) = 0"
    by (intro word64_eqI) (simp add: bit_and_gen_mask has_post_def)
  moreover have "zs = []" using z False by (simp add: post_toks_def cond_toks_def)
  ultimately show ?thesis using False s by auto
qed

section \<open>A signal\<close>

text \<open>What decoding without toggling leaves alone: the hardware, the clock, and everything outside
  the receive buffer.\<close>

definition same_session :: "'z rx_scheme \<Rightarrow> 'z rx_scheme \<Rightarrow> bool" where
  "same_session s s' \<longleftrightarrow> hw s' = hw s \<and> clock s' = clock s \<and> rx.more s' = rx.more s"

lemma same_session_regs: "same_regs s s' \<Longrightarrow> same_session s s'"
  by (simp add: same_regs_def same_session_def)

lemma same_session_trans: "same_session s t \<Longrightarrow> same_session t u \<Longrightarrow> same_session s u"
  by (simp add: same_session_def)

lemma same_session_hw: "same_session s s' \<Longrightarrow> hw s' = hw s"
  by (simp add: same_session_def)

lemma same_session_store:
  fixes s s' :: "'z decoder_scheme"
  shows "same_session s s' \<Longrightarrow> store s' = store s \<and> last_remote s' = last_remote s"
  by (cases s; cases s') (simp add: same_session_def)

text \<open>The fields of a code as they are received.\<close>

definition fields_of :: "ir_remote \<Rightarrow> ir_code \<Rightarrow> ir_code \<times> ir_code \<times> ir_code" where
  "fields_of r code =
     (pre_data r AND gen_mask (pre_data_bits r), code AND gen_mask (bits r),
      post_data r AND gen_mask (post_data_bits r))"

lemma recv_signal_ready:
  fixes s :: "'z decoder_scheme"
  assumes r: "space_encoded r" "store s p = r" and d: "bits_distinct (hw s) r"
    and z: "heard (hw s) r (pre_toks r @ data_toks r code (bits r) (pre_data_bits r) @
              post_toks r @ trail_toks r @ foot_toks r) zs"
    and s: "ready r s n zs ps" and n: "n + length zs < 512"
  shows "\<exists>s'. recv_signal p header s = Some (Some (fields_of r code), s') \<and> same_session s s'"
proof -
  obtain z1 z2 z3 z4 z5 where z: "zs = z1 @ z2 @ z3 @ z4 @ z5"
      "heard (hw s) r (pre_toks r) z1"
      "heard (hw s) r (data_toks r code (bits r) (pre_data_bits r)) z2"
      "heard (hw s) r (post_toks r) z3" "heard (hw s) r (trail_toks r) z4"
      "heard (hw s) r (foot_toks r) z5"
    using z by (auto elim!: heard_appendE)
  have b: "0 < bits r" "bits r < 64" "pre_data_bits r < 64" "post_data_bits r < 64"
    using r(1) by (auto simp: space_encoded_def)
  have nm: "has_pre r \<Longrightarrow> pre_data r AND gen_mask (pre_data_bits r) \<noteq> - 1"
    "code AND gen_mask (bits r) \<noteq> - 1"
    "has_post r \<Longrightarrow> post_data r AND gen_mask (post_data_bits r) \<noteq> - 1"
    using masked_not_minus1 b by (auto simp: has_pre_def has_post_def)
  have lead: "get_lead r s = Some (True, s)" using r(1) by (simp add: get_lead_def space_encoded_def)
  obtain t ps1 where t: "(if has_pre r then get_pre r s else Some (0, r, s)) =
        Some (pre_data r AND gen_mask (pre_data_bits r), r, t)" "same_regs s t"
      "ready r t (n + length z1) (z2 @ z3 @ z4 @ z5) ps1"
    using pre_or_not [OF r(1) d z(2), of n "z2 @ z3 @ z4 @ z5" ps] s n z(1) by auto
  have ht: "hw t = hw s" "store t = store s" using t(2) same_regs_hw same_regs_store by blast+
  obtain u where u: "get_data r (bits r) (pre_data_bits r) t = Some (code AND gen_mask (bits r), r, u)"
      "same_regs t u" "ready r u (n + length z1 + length z2) (z3 @ z4 @ z5) 0"
    using get_data_ready [OF r(1) _ _ t(3) _ b(1,2), of code "pre_data_bits r" "pre_data_bits r"]
      d ht(1) z(1,3) n by auto
  have hu: "hw u = hw s" "store u = store s" using u(2) same_regs_hw same_regs_store ht by metis+
  obtain v where v: "(if has_post r then get_post r u else Some (0, r, u)) =
        Some (post_data r AND gen_mask (post_data_bits r), r, v)" "same_regs u v"
      "ready r v (n + length z1 + length z2 + length z3) (z4 @ z5) 0"
    using post_or_not [OF r(1) _ _ u(3)] d hu(1) z(1,4) n by auto
  have hv: "hw v = hw s" "store v = store s" using v(2) same_regs_hw same_regs_store hu by metis+
  have z4: "length z4 = 1"
    using heard_length [OF z(5)] r(1) by (simp add: trail_toks_def cond_toks_def space_encoded_def)
  obtain w cs sm where w: "get_trail r v = Some (True, w)" "same_regs v w" "rd w cs z5 0 0 sm"
      "length cs = n + length z1 + length z2 + length z3 + length z4"
    using get_trail_ready [OF r(1) _ v(3)] hv(1) z(1,5) n z4 by auto
  have hw: "hw w = hw s" "store w = store s" using w(2) same_regs_hw same_regs_store hv by metis+
  obtain x cs' sm' where x: "(if has_foot r then get_foot r w else Some (True, w)) = Some (True, x)"
      "same_regs w x" "rd x cs' [] 0 0 sm'" "length cs' = length cs + length z5"
    using foot_or_not [of w r z5 cs "[]" sm] hw(1) z(6) w(3,4) n z(1) by auto
  have hx: "same_session s x"
    using t(2) u(2) v(2) w(2) x(2) by (blast intro: same_regs_trans same_session_regs)
  define y where "y = (if header \<and> is_const r \<and> flags r AND NO_HEAD_REP \<noteq> 0
      then x\<lparr>rsum := i32 (rsum x - i32 (phead r + shead r))\<rparr> else x)"
  have y: "y = x" using r(1) by (simp add: y_def space_encoded_def)
  have gap: "get_gap r (end_gap r (rsum x)) x = Some (True, x)"
    using get_gap_at_end [OF x(3)] x(4) w(4) n z(1) by simp
  have sr: "set_remote p r t = t" "set_remote p r u = u" "set_remote p r v = v"
    using r(2) ht(2) hu(2) hv(2) by (simp_all add: set_remote_same)
  have nm': "(has_pre r \<and> pre_data r AND gen_mask (pre_data_bits r) = - 1) = False"
    "(code AND gen_mask (bits r) = - 1) = False"
    "(has_post r \<and> post_data r AND gen_mask (post_data_bits r) = - 1) = False"
    using nm by auto
  have "recv_signal p header s = Some (Some (fields_of r code), x)"
    unfolding recv_signal_def r(2) lead
    by (simp only: r(2) t(1) u(1) v(1) w(1) x(1) sr nm' gap y [unfolded y_def] bind.bind_lunit prod.case
        if_True if_False not_True_eq_False fields_of_def)
  then show ?thesis using hx by blast
qed


section \<open>The start of a signal\<close>

text \<open>Everything that is in the buffer or still to come from the driver.\<close>

definition whole_input :: "'z rx_scheme \<Rightarrow> lirc_t list" where
  "whole_input s = map (rdata s) [0..<nat (wptr s)] @ hw_input s"

text \<open>The gap before the signal is long enough for the remote that sent last, and the signal is
  not a candidate for a repeat signal.\<close>

definition gap_accepted :: "addr \<Rightarrow> lirc_t \<Rightarrow> 'z decoder_scheme \<Rightarrow> bool" where
  "gap_accepted p g s \<longleftrightarrow> len24 g \<and>
     (case last_remote s of None \<Rightarrow> True
      | Some lp \<Rightarrow> expect_at_least (hw s) (store s lp) g (min_remaining_gap (store s lp)) \<and>
          (lp = p \<longrightarrow> \<not> has_repeat (store s p)))"

lemma sync_rec_buffer_accepted:
  fixes s :: "'z decoder_scheme"
  assumes r: "space_encoded (store s p)" and g: "gap_accepted p g s" and s: "rd s cs (g # us) 0 0 sm"
    and n: "length cs < 512"
  shows "\<exists>s'. sync_rec_buffer p s = Some (g, s') \<and> same_session s s' \<and>
    rd s' (cs @ [g]) us 0 0 0"
proof -
  have g0: "len24 g" "g \<noteq> 0" using g by (auto simp: gap_accepted_def len24_def)
  obtain t where t: "get_next_space 1000000 s = Some (g, t)" "same_regs s t"
      "rd t (cs @ [g]) us 0 0 (i32 (sm + g))"
    using rd_space [OF s n g0(1)] by blast
  have ht: "hw t = hw s" "store t = store s" "last_remote t = last_remote s"
    using t(2) same_regs_hw same_regs_store by blast+
  have nt: "\<not> has_toggle_mask (store s p)" "\<not> is_rcmm (store s p)"
    using space_encoded_preds [OF r] by auto
  have lp: "sync_loop q 0 g t = Some (g, t)" if "last_remote s = Some q" for q
    using g that ht by (subst sync_loop.simps) (simp add: gap_accepted_def)
  have "sync_rec_buffer p s = Some (g, t\<lparr>rsum := 0\<rparr>)"
    using t(1) g0(2) ht nt lp by (auto simp: sync_rec_buffer_def split: option.split)
  moreover have "rd (t\<lparr>rsum := 0\<rparr>) (cs @ [g]) us 0 0 0"
    using t(3) by (simp add: rd_def rx_ok_def consumed_def upcoming_def)
  moreover have "same_session s (t\<lparr>rsum := 0\<rparr>)"
    using same_session_regs [OF t(2)] by (simp add: same_session_def)
  ultimately show ?thesis by blast
qed

lemma recv_start_ready:
  fixes s :: "'z decoder_scheme"
  assumes r: "space_encoded (store s p)" and g: "gap_accepted p g s" and ok: "rx_ok s"
    and inp: "whole_input s = g # zs @ us"
    and z: "heard (hw s) (store s p) (header_toks (store s p)) zs"
  shows "\<exists>s' ps. recv_start_of p s = Some (Start_go g (has_header (store s p)), s') \<and> same_session s s' \<and>
    ready (store s p) s' (1 + length zs) us ps"
proof -
  let ?r = "store s p"
  define a where "a = (rewind_rec_buffer s)\<lparr>rec_is_biphase := (if is_biphase ?r then 1 else 0)\<rparr>"
  have sa: "same_session s a" by (simp add: a_def rewind_rec_buffer_def same_session_def)
  have a: "hw a = hw s" "store a = store s" "last_remote a = last_remote s"
      "rd a [] (g # zs @ us) 0 0 0"
    using ok inp
    by (simp_all add: a_def rewind_rec_buffer_def rd_def rx_ok_def consumed_def upcoming_def whole_input_def)
  obtain b where b0: "sync_rec_buffer p a = Some (g, b)" "same_session a b" "rd b [g] (zs @ us) 0 0 0"
  proof -
    have "gap_accepted p g a" using g a(1-3) by (simp add: gap_accepted_def cong: option.case_cong)
    then show thesis
      using sync_rec_buffer_accepted [of a p g "[]" "zs @ us" 0] r a that by auto
  qed
  have sb: "same_session s b" using sa b0(2) by (rule same_session_trans)
  have b: "sync_rec_buffer p a = Some (g, b)" "hw b = hw s" "store b = store s"
      "last_remote b = last_remote s" "rd b [g] (zs @ us) 0 0 0"
    using b0 same_session_hw [OF sb] same_session_store [OF sb] by auto
  have g0: "g \<noteq> 0" using g by (auto simp: gap_accepted_def len24_def)
  have rep: "\<not> (has_repeat ?r \<and> last_remote b = Some p)"
    using g b(3,4) by (auto simp: gap_accepted_def)
  have start: "recv_start_of p s =
      (if has_header ?r then
         do { (ok, s) \<leftarrow> get_header ?r b;
              if ok then Some (Start_go g True, s)
              else if flags (store s p) AND NO_HEAD_REP \<noteq> 0 \<and>
                 expect_at_most (hw s) (store s p) g (max_gap (store s p))
              then Some (Start_go g False, s) else Some (Start_fail, s) }
       else Some (Start_go g False, b))"
    unfolding recv_start_of_def bind.bind_lunit a_def [symmetric] b(1) prod.case if_not_P [OF g0]
      b(3) if_not_P [OF rep] option.case by (simp add: b(2,3))
  show ?thesis
  proof (cases "has_header ?r")
    case True
    have z': "heard (hw b) ?r [Pulse (phead ?r), Space (shead ?r)] zs" "length zs = 2"
      using z True b(2) heard_length [OF z] by (auto simp: header_toks_def cond_toks_def)
    obtain c where c: "get_header ?r b = Some (True, c)" "same_regs b c" "ready ?r c 3 us (shead ?r)"
      using get_header_ready [OF r True b(5) z'(1)] by (auto simp: numeral_3_eq_3)
    have "same_session s c" using sb same_session_regs [OF c(2)] by (rule same_session_trans)
    then show ?thesis using start True c z'(2) by (auto simp: numeral_3_eq_3)
  next
    case False
    then have "zs = []" using z by (simp add: header_toks_def cond_toks_def)
    then show ?thesis using start False sb ready_rd [OF b(5)] by auto
  qed
qed

section \<open>From the transmit buffer to samples that are heard\<close>

fun mark_from :: "bool \<Rightarrow> lirc_t list \<Rightarrow> lirc_t list" where
  "mark_from b [] = []"
| "mark_from b (y # ys) = (if b then pulse_sample y else y) # mark_from (\<not> b) ys"

lemma length_mark_from: "length (mark_from b ys) = length ys"
  by (induction ys arbitrary: b) auto

text \<open>What a driver delivers for a signal: every other length is a pulse, starting with the first.\<close>

definition mark_pulses :: "lirc_t list \<Rightarrow> lirc_t list" where
  "mark_pulses ys = mark_from True ys"

text \<open>Lengths that are off by no more than the tolerances.\<close>

definition received :: "hardware \<Rightarrow> ir_remote \<Rightarrow> lirc_t list \<Rightarrow> lirc_t list \<Rightarrow> bool" where
  "received h r xs ys \<longleftrightarrow> list_all2 (\<lambda>x y. len24 y \<and> expect h r y x) xs ys"

fun alternating :: "bool \<Rightarrow> tok list \<Rightarrow> bool" where
  "alternating b [] \<longleftrightarrow> True"
| "alternating b (Pulse x # ts) \<longleftrightarrow> b \<and> alternating False ts"
| "alternating b (Space x # ts) \<longleftrightarrow> \<not> b \<and> alternating True ts"

lemma alternating_append:
  "alternating b (ts @ us) \<longleftrightarrow> alternating b ts \<and> alternating (b = even (length ts)) us"
  by (induction b ts rule: alternating.induct) auto

lemma alternating_merge:
  "alternating (even (length xs)) ts \<Longrightarrow> fold add_tok ts xs = xs @ map tok_len ts"
proof (induction ts arbitrary: xs)
  case (Cons t ts)
  have "add_tok t xs = xs @ [tok_len t]" using Cons.prems by (cases t) auto
  moreover have "alternating (even (length (xs @ [tok_len t]))) ts" using Cons.prems by (cases t) auto
  ultimately show ?case using Cons.IH [of "xs @ [tok_len t]"] by simp
qed simp

lemma alternating_heard:
  "alternating b ts \<Longrightarrow> received h r (map tok_len ts) ys \<Longrightarrow> heard h r ts (mark_from b ys)"
  by (induction b ts arbitrary: ys rule: alternating.induct)
    (auto simp: received_def heard_def list_all2_Cons1 pulse_sample_def)

lemma alternating_pairs:
  "alternating True (concat (map (pair_of_bit r) bs)) \<and> even (length (concat (map (pair_of_bit r) bs)))"
  by (induction bs) (auto simp: pair_of_bit_def)

lemma alternating_data:
  assumes "space_encoded r"
  shows "alternating True (data_toks r data n dn)" "even (length (data_toks r data n dn))"
  using alternating_pairs by (simp_all add: data_toks_def field_toks_space_encoded [OF assms])

definition start_toks :: "ir_remote \<Rightarrow> ir_code \<Rightarrow> tok list" where
  "start_toks r code = header_toks r @ pre_toks r @ data_toks r code (bits r) (pre_data_bits r) @
     post_toks r"

lemma code_toks_space_encoded:
  assumes r: "space_encoded r"
  shows "code_toks r code False = start_toks r code @ trail_toks r @ foot_toks r"
    "alternating True (code_toks r code False)" "odd (length (code_toks r code False))"
proof -
  have lead: "lead_toks r = []" using r by (simp add: lead_toks_def cond_toks_def space_encoded_def)
  show c: "code_toks r code False = start_toks r code @ trail_toks r @ foot_toks r"
    by (simp add: code_toks_def start_toks_def lead cond_toks_def)
  have "alternating True (header_toks r) \<and> even (length (header_toks r))"
    "alternating True (pre_toks r) \<and> even (length (pre_toks r))"
    "alternating True (post_toks r) \<and> even (length (post_toks r))"
    using alternating_data [OF r]
    by (auto simp: header_toks_def pre_toks_def post_toks_def cond_toks_def alternating_append)
  then have st: "alternating True (start_toks r code)" "even (length (start_toks r code))"
    using alternating_data [OF r] by (auto simp: start_toks_def alternating_append)
  have tr: "trail_toks r = [Pulse (ptrail r)]"
    using r by (simp add: trail_toks_def cond_toks_def space_encoded_def)
  have ft: "alternating False (foot_toks r)" "even (length (foot_toks r))"
    by (simp_all add: foot_toks_def cond_toks_def)
  show "alternating True (code_toks r code False)" "odd (length (code_toks r code False))"
    using st tr ft by (simp_all add: c alternating_append)
qed

lemma frame_samples_space_encoded:
  assumes "space_encoded r"
  shows "frame_samples r code False = map tok_len (code_toks r code False)"
  using code_toks_space_encoded(2,3) [OF assms, of code]
    alternating_merge [of "[]" "code_toks r code False"]
  by (simp add: frame_samples_def merge_toks_def end_pulse_def)

section \<open>The receiver decodes what the transmitter sends\<close>

lemma receive_frame:
  fixes s :: "'z decoder_scheme"
  assumes r: "space_encoded r" "store s p = r" and d: "bits_distinct (hw s) r" and m: "samples_mode (hw s)"
    and g: "gap_accepted p g s" and ok: "rx_ok s"
    and y: "received (hw s) r (frame_samples r code False) ys"
    and inp: "whole_input s = g # mark_pulses ys" and len: "length ys < 511"
  shows "\<exists>res s'. receive_decode p s = Some (Some res, s') \<and>
    (d_pre res, d_code res, d_post res) = fields_of r code \<and> same_session s s'"
proof -
  have h: "heard (hw s) r (code_toks r code False) (mark_pulses ys)"
    using alternating_heard [OF code_toks_space_encoded(2) [OF r(1)]] y
    by (simp add: frame_samples_space_encoded [OF r(1)] mark_pulses_def)
  then obtain z1 z2 where z: "mark_pulses ys = z1 @ z2" "heard (hw s) r (header_toks r) z1"
      "heard (hw s) r (pre_toks r @ data_toks r code (bits r) (pre_data_bits r) @ post_toks r @
         trail_toks r @ foot_toks r) z2"
    unfolding code_toks_space_encoded(1) [OF r(1)] start_toks_def append_assoc by (rule heard_appendE)
  have "length (mark_pulses ys) = length ys" by (simp add: mark_pulses_def length_mark_from)
  then have n: "1 + length z1 + length z2 < 512" using len z(1) by simp
  obtain t ps where t: "recv_start_of p s = Some (Start_go g (has_header r), t)" "same_session s t"
      "ready r t (1 + length z1) z2 ps"
    using recv_start_ready [of s p g z1 z2] r g ok inp z(1,2) by auto
  have ht: "hw t = hw s" "store t = store s"
    using same_session_hw [OF t(2)] same_session_store [OF t(2)] by auto
  obtain u where u: "recv_signal p (has_header r) t = Some (Some (fields_of r code), u)"
      "same_session t u"
    using recv_signal_ready [OF r(1) _ _ _ t(3) n, of p code "has_header r"] d ht r(2) z(3) by auto
  have su: "same_session s u" using t(2) u(2) by (rule same_session_trans)
  have hu: "hw u = hw s" "store u = store s"
    using same_session_hw [OF su] same_session_store [OF su] by auto
  have mode: "rec_mode (hw s) \<noteq> LIRC_MODE_LIRCCODE"
    using m by (auto simp: samples_mode_def flag_defs)
  have "receive_decode p s = Some (Some (recv_finish r (hw s) (rsum u) g timeval0 (fields_of r code)), u)"
    using m t(1) u(1) ht hu mode r(2) space_encoded_preds(1) [OF r(1)]
    by (simp add: receive_decode_def)
  then show ?thesis
    using su by (auto simp: recv_finish_def fields_of_def)
qed


text \<open>The signals of the theorem fit the buffers and the 24 bits of a sample.\<close>

lemma received_length: "received h r xs ys \<Longrightarrow> length ys = length xs"
  by (simp add: received_def list_all2_lengthD)

lemma space_encoded_sendable: "space_encoded r \<Longrightarrow> sendable r"
  using space_encoded_preds [of r] by (simp add: sendable_def)

lemma space_encoded_correction: "space_encoded r \<Longrightarrow> length_correction r False = 0"
  by (simp add: space_encoded_def length_correction_def)

lemma frame_ok_length: "frame_ok r code rep \<Longrightarrow> length (frame_samples r code rep) \<le> 256"
  by (auto simp: frame_ok_def frame_samples_def end_pulse_def)

definition can_send_once :: "ir_remote \<Rightarrow> ir_ncode \<Rightarrow> bool" where
  "can_send_once r c \<longleftrightarrow> frame_ok r (nc_code c) False \<and> min_repeat r \<le> 0 \<and>
     nc_nodes c = [] \<and> nc_transmit_state c = None \<and> i32_range (min_gap r) \<and>
     (is_const r \<longrightarrow> sum_list (frame_samples r (nc_code c) False) < min_gap r)"

lemma can_send_once_frame: "can_send_once r c \<Longrightarrow> frame_ok r (nc_code c) False"
  by (simp add: can_send_once_def)

lemma init_send_frame:
  assumes "space_encoded r" "can_send_once r c"
  shows "\<exists>r' b'. init_send False r c b = Some (True, r', c, b') \<and>
     buffer_samples b' = Some (frame_samples r (nc_code c) False)"
proof -
  let ?xs = "frame_samples r (nc_code c) False"
  have c: "frame_ok r (nc_code c) False" "min_repeat r \<le> 0" "nc_nodes c = []"
    "nc_transmit_state c = None" "i32_range (min_gap r)" "is_const r \<longrightarrow> sum_list ?xs < min_gap r"
    using assms(2) by (simp_all add: can_send_once_def)
  have ne: "?xs \<noteq> []"
    using code_toks_space_encoded(3) [OF assms(1), of "nc_code c"]
    by (auto simp: frame_samples_space_encoded [OF assms(1)])
  show ?thesis
    using init_send_samples [OF space_encoded_sendable [OF assms(1)] c(1) ne c(2-4) _
        space_encoded_correction [OF assms(1)] c(5), of b] c(6) by blast
qed

text \<open>C2: For a space encoded remote the receiver decodes what the transmitter sends: the samples that
  \<open>init_send\<close> puts into the transmit buffer for a button are decoded by \<open>receive_decode\<close> to exactly the pre data,
  code and post data of that button, whatever else the receiver's state is, and nothing but the receive buffer
  changes. The remote has no toggle bits or masks, no leading pulse, a trailing pulse, fields below 64 bits and a
  header that is sent with every signal (\<open>space_encoded\<close>); the lengths of its zeros and ones can be told apart
  (\<open>bits_distinct\<close>); the button has one code, which is sent once and fits the buffer (\<open>can_send_once\<close>); the driver
  delivers samples; they arrive after a gap that the receiver accepts; and every length is within the tolerances of
  the remote.\<close>

theorem send_receive:
  fixes s :: "'z decoder_scheme"
  assumes "space_encoded (store s p)" "bits_distinct (hw s) (store s p)" "can_send_once (store s p) c"
    and "samples_mode (hw s)" "gap_accepted p g s" "rx_ok s"
    and "received (hw s) (store s p) (frame_samples (store s p) (nc_code c) False) ys"
    and "whole_input s = g # mark_pulses ys"
  shows "(\<exists>r' b'. init_send False (store s p) c b = Some (True, r', c, b') \<and>
       buffer_samples b' = Some (frame_samples (store s p) (nc_code c) False)) \<and>
     (\<exists>res s'. receive_decode p s = Some (Some res, s') \<and>
       (d_pre res, d_code res, d_post res) = fields_of (store s p) (nc_code c) \<and>
       same_session s s')"
proof -
  note f = can_send_once_frame [OF assms(3)]
  have "length ys < 511" using received_length [OF assms(7)] frame_ok_length [OF f] by simp
  from receive_frame [OF assms(1) refl assms(2,4,5,6,7,8) this] init_send_frame [OF assms(1,3)]
  show ?thesis by blast
qed

definition demo_heard_power :: "lirc_t list" where
  "demo_heard_power = map (\<lambda>x. x + 40) (frame_samples demo_remote 0x5A False)"

lemma send_receive_witness:
  "\<exists>res s'. receive_decode 0 (demo_decoder (50000 # mark_pulses demo_heard_power)) = Some (Some res, s') \<and>
     (d_pre res, d_code res, d_post res) = (0xC1, 0x5A, 0)"
proof -
  let ?s = "demo_decoder (50000 # mark_pulses demo_heard_power)"
  have s: "store ?s 0 = demo_remote" "hw ?s = demo_hw" by (simp_all add: demo_decoder_def)
  have "space_encoded demo_remote" "bits_distinct demo_hw demo_remote"
    "can_send_once demo_remote (demo_button ''POWER'' 0x5A)" "samples_mode demo_hw"
    "received demo_hw demo_remote (frame_samples demo_remote 0x5A False) demo_heard_power"
    by code_simp+
  moreover have "gap_accepted 0 50000 ?s" "rx_ok ?s" "whole_input ?s = 50000 # mark_pulses demo_heard_power"
    by (simp_all add: demo_decoder_def gap_accepted_def len24_def rx_ok_def RBUF_SIZE_def timerisset_def
        timeval0_def whole_input_def)
  moreover have "fields_of demo_remote 0x5A = (0xC1, 0x5A, 0)" "nc_code (demo_button ''POWER'' 0x5A) = 0x5A"
    by code_simp+
  ultimately show ?thesis
    using send_receive [of ?s 0 "demo_button ''POWER'' 0x5A" 50000 demo_heard_power init_send_buffer]
    unfolding s by auto
qed

end
