(* ===== verification/DecodeAll.thy ===== *)
theory DecodeAll
  imports Events
begin

text \<open>
  \<open>decode_all\<close> and \<open>send_ir_ncode\<close> of \<open>daemons/ir_remote.c\<close>. The driver's functions
  \<open>hw.decode_func\<close> and \<open>hw.send_func\<close> are parameters; \<open>receive_decode\<close> is the decoder that
  most drivers install.
\<close>

section \<open>Decoding\<close>

definition map_codes :: "(ir_ncode \<Rightarrow> ir_ncode) \<Rightarrow> ir_remote \<Rightarrow> ir_remote option" where
  "map_codes f r = map_option (\<lambda>cs. r\<lparr>codes := Some (map f cs)\<rparr>) (codes r)"

text \<open>All sequences of all remotes from \<open>decoding\<close> on start over.\<close>

fun reset_sequences :: "addr list \<Rightarrow> 'z decoder_scheme \<Rightarrow> 'z decoder_scheme option" where
  "reset_sequences [] s = Some s"
| "reset_sequences (p # ps) s =
     do { r \<leftarrow> map_codes (\<lambda>c. c\<lparr>nc_current := None\<rparr>) (store s p);
          reset_sequences ps (set_remote p r s) }"

definition xmp_restart :: "ir_remote \<Rightarrow> ir_remote option" where
  "xmp_restart r =
     do { i \<leftarrow> last_code r;
          cs \<leftarrow> codes r;
          if i < length cs
          then Some (r\<lparr>codes := Some (cs[i := (cs ! i)\<lparr>nc_current := node_ptr (cs ! i) 0\<rparr>])\<rparr>)
          else None }"

text \<open>\<open>suppress_repeat\<close>: the first repeats of a press are not reported.\<close>

definition reported_reps :: "ir_remote \<Rightarrow> ir_ncode \<Rightarrow> int option" where
  "reported_reps r nc =
     (let n = i32 (reps r - (if nc_nodes nc \<noteq> [] then 1 else 0))
      in if n > 0 then (if n \<le> suppress_repeat r then None else Some (i32 (n - suppress_repeat r)))
         else Some n)"

text \<open>What follows a successful \<open>get_code\<close>: the result is the message, if one is to be sent.\<close>

definition button_event ::
  "addr \<Rightarrow> nat \<Rightarrow> ir_code \<Rightarrow> dec_result \<Rightarrow> 'z lircd_rel_scheme \<Rightarrow> (string option \<times> 'z lircd_rel_scheme) option" where
  "button_event p i tbms d s =
     do { (code, s) \<leftarrow> set_code p i tbms (d_repeat d) (d_min_remaining_gap d)
                       (d_max_remaining_gap d) s;
          nc \<leftarrow> ncode_at (store s p) i;
          if has_toggle_mask (store s p) \<and> toggle_mask_state (store s p) mod 2 \<noteq> 0 \<or>
             nc_current nc \<noteq> None
          then Some (None, s\<lparr>decoding := []\<rparr>)
          else do {
            s \<leftarrow> reset_sequences (decoding s) s;
            s \<leftarrow> if is_xmp (store s p)
                then do { r \<leftarrow> xmp_restart (store s p); Some (set_remote p r s) }
                else Some s;
            case reported_reps (store s p) nc of
              None \<Rightarrow> Some (None, s\<lparr>decoding := []\<rparr>)
            | Some n \<Rightarrow>
                do { s \<leftarrow> Some (register_button_press p (last_code (store s p)) code n s);
                     b \<leftarrow> button_name (store s) p (last_code (store s p));
                     let (t, len) = write_message (PACKET_SIZE + 1) (name (store s p)) b '''' code n;
                         s = s\<lparr>decoding := []\<rparr>
                     in Some (if len \<ge> PACKET_SIZE + 1 then None else Some t, s) } } }"

type_synonym 'z decode_func =
  "addr \<Rightarrow> 'z lircd_rel_scheme \<Rightarrow> (dec_result option \<times> 'z lircd_rel_scheme) option"

definition try_remote ::
  "'z decode_func \<Rightarrow> addr \<Rightarrow> 'z lircd_rel_scheme \<Rightarrow>
     ((dec_result \<times> nat \<times> ir_code) option \<times> 'z lircd_rel_scheme) option" where
  "try_remote dec p s =
     do { (res, s) \<leftarrow> dec p s;
          case res of
            None \<Rightarrow> Some (None, s)
          | Some d \<Rightarrow>
              (case get_code (store s p) (d_pre d) (d_code d) (d_post d) of
                 (None, r) \<Rightarrow> Some (None, set_remote p r s)
               | (Some (i, tbms), r) \<Rightarrow> Some (Some (d, i, tbms), set_remote p r s)) }"

fun decode_loop ::
  "'z decode_func \<Rightarrow> addr list \<Rightarrow> 'z lircd_rel_scheme \<Rightarrow> (string option \<times> 'z lircd_rel_scheme) option" where
  "decode_loop dec [] s = Some (None, s\<lparr>decoding := [], last_remote := None\<rparr>)"
| "decode_loop dec (p # ps) s =
     do { (hit, s) \<leftarrow> try_remote dec p s;
          case hit of
            Some (d, i, tbms) \<Rightarrow> button_event p i tbms d s
          | None \<Rightarrow>
              decode_loop dec ps (set_remote p ((store s p)\<lparr>toggle_mask_state := 0\<rparr>) s) }"

definition decode_all ::
  "'z decode_func \<Rightarrow> addr list \<Rightarrow> 'z lircd_rel_scheme \<Rightarrow> (string option \<times> 'z lircd_rel_scheme) option" where
  "decode_all dec remotes s = decode_loop dec remotes (s\<lparr>decoding := remotes\<rparr>)"

section \<open>Sending\<close>

text \<open>The pause in microseconds that \<open>send_ir_ncode\<close> asks \<open>usleep\<close> for.\<close>

definition send_pause :: "addr \<Rightarrow> nat \<Rightarrow> 'z lircd_rel_scheme \<Rightarrow> ulong option \<times> 'z lircd_rel_scheme" where
  "send_pause p i s =
     (if last_code (store s p) \<noteq> None then
        let (current, s) = gettimeofday s;
            usecs = word_of_int (time_left current (last_send (store s p))
                                   (i32 (min_remaining_gap (store s p) * 2)))
        in if usecs > 0 \<and> (repeat_remote s = None \<or> repeat_remote s \<noteq> Some p \<or>
                            last_code (store s p) \<noteq> Some i)
           then (Some usecs, s) else (None, s)
      else (None, s))"

definition send_ir_ncode ::
  "(addr \<Rightarrow> nat \<Rightarrow> 'z lircd_rel_scheme \<Rightarrow> (bool \<times> 'z lircd_rel_scheme) option) \<Rightarrow>
     addr \<Rightarrow> nat \<Rightarrow> 'z lircd_rel_scheme \<Rightarrow> ((bool \<times> ulong option) \<times> 'z lircd_rel_scheme) option" where
  "send_ir_ncode snd_func p i s =
     (let (pause, s) = send_pause p i s
      in do { (ret, s) \<leftarrow> snd_func p i s;
              if ret then
                let (current, s) = gettimeofday s
                in Some ((True, pause),
                         set_remote p ((store s p)\<lparr>last_send := current, last_code := Some i\<rparr>) s)
              else Some ((False, pause), s) })"

end
