(* ===== verification/ButtonFacts.thy ===== *)
theory ButtonFacts
  imports DecodeAll Demo
begin

text \<open>
  Facts on \<open>get_code\<close>, \<open>map_code\<close>, \<open>set_code\<close> and the searches of \<open>ir_remote.c\<close>.
\<close>

section \<open>Buttons with a single code\<close>

text \<open>No button of the remote is a sequence of codes, and none is half received.\<close>

definition single_codes :: "ir_ncode list \<Rightarrow> bool" where
  "single_codes cs \<longleftrightarrow> list_all (\<lambda>c. nc_nodes c = [] \<and> nc_current c = None) cs"

lemma single_codes_simps [simp]:
  "single_codes []" "single_codes (c # cs) \<longleftrightarrow> nc_nodes c = [] \<and> nc_current c = None \<and> single_codes cs"
  by (auto simp: single_codes_def)

definition button_matches :: "ir_remote \<Rightarrow> ir_code \<Rightarrow> ir_ncode \<Rightarrow> bool" where
  "button_matches r a c \<longleftrightarrow>
     match_ir_code r (gen_ir_code r (pre_data r) (nc_code c) (post_data r)) a"

lemma seq_step_single:
  assumes "nc_nodes c = []" "nc_current c = None"
  shows "seq_step r a c = (button_matches r a c, c)"
  using assms by (simp add: seq_step_def code_at_def button_matches_def get_ir_code_def)

lemma code_at_single:
  "nc_current c = None \<Longrightarrow> code_at r c (nc_current c) = gen_ir_code r (pre_data r) (nc_code c) (post_data r)"
  by (simp add: code_at_def get_ir_code_def)

lemma scan_codes_have:
  "single_codes cs \<Longrightarrow> scan_codes r a i (found, True) cs = (found, cs)"
  by (induction cs arbitrary: i) (auto simp: seq_step_single Let_def)

lemma scan_codes_single:
  "single_codes cs \<Longrightarrow>
   scan_codes r a i (None, False) cs = (find_index_from i (button_matches r a) cs, cs)"
proof (induction cs arbitrary: i)
  case (Cons c cs)
  then have c: "nc_nodes c = []" "nc_current c = None" "single_codes cs" by auto
  show ?case
  proof (cases "button_matches r a c")
    case True
    then have "match_ir_code r (code_at r c None) a"
      using code_at_single [OF c(2), of r] c(2) by (simp add: button_matches_def)
    then show ?thesis using True c scan_codes_have [OF c(3)] by (simp add: seq_step_single Let_def)
  next
    case False
    then show ?thesis using c Cons.IH [OF c(3)] by (simp add: seq_step_single Let_def)
  qed
qed simp

definition data_accepted :: "ir_remote \<Rightarrow> ir_code \<Rightarrow> ir_code \<Rightarrow> bool" where
  "data_accepted r pre post \<longleftrightarrow>
     (has_pre r \<longrightarrow> (pre OR pre_mask r) = (pre_data r OR pre_mask r)) \<and>
     (has_post r \<longrightarrow> (post OR post_mask r) = (post_data r OR post_mask r))"

lemma get_code_single:
  assumes "codes r = Some cs" "single_codes cs" "\<not> has_toggle_mask r"
  shows "get_code r pre code post =
    (if data_accepted r pre post then
       map_option (\<lambda>i. (i, gen_ir_code r pre code post AND toggle_bit_mask r))
         (find_index_from 0 (button_matches r (gen_ir_code r pre code post)) cs)
     else None, r)"
proof -
  have r: "r\<lparr>codes := Some cs\<rparr> = r" using assms(1) by simp
  show ?thesis
    using assms scan_codes_single [OF assms(2)]
    by (auto simp: get_code_def toggle_flip_def data_accepted_def toggle_mask_check_def Let_def r)
qed

section \<open>Fields of a code\<close>

definition fields_fit :: "ir_remote \<Rightarrow> bool" where
  "fields_fit r \<longleftrightarrow> 0 \<le> pre_data_bits r \<and> 0 \<le> bits r \<and> 0 \<le> post_data_bits r \<and>
     pre_data_bits r + bits r + post_data_bits r < 64"

lemma fields_fit_bounds:
  "fields_fit r \<Longrightarrow> bit_count r = pre_data_bits r + bits r + post_data_bits r"
  by (simp add: fields_fit_def bit_count_def i32_range_def)

lemma bit_drop64: "bit (drop_bit n (x :: 64 word)) k \<longleftrightarrow> bit x (n + k)"
  by (simp add: bit_drop_bit_eq)

lemma bit_shl64: "0 \<le> n \<Longrightarrow> n < 64 \<Longrightarrow> bit (shl64 x n) k \<longleftrightarrow> nat n \<le> k \<and> k < 64 \<and> bit x (k - nat n)"
  by (simp add: bit_push64)

lemma bit_less64: "bit (w :: 64 word) k \<Longrightarrow> k < 64"
  by (auto dest: bit_imp_le_length)

text \<open>Bit \<open>k\<close> of three fields put together.\<close>

lemma bit_join:
  fixes pre code post :: ir_code
  assumes "0 \<le> n" "0 \<le> m" "n + m < 64"
  shows "bit (shl64 (shl64 (pre AND gen_mask l) n OR (code AND gen_mask n)) m OR (post AND gen_mask m)) k \<longleftrightarrow>
    (if int k < m then bit post k
     else if int k < m + n then bit code (k - nat m)
     else k < 64 \<and> int k < n + m + l \<and> bit pre (k - nat (n + m)))"
proof -
  have nm: "n < 64" "m < 64" using assms by linarith+
  have d: "k - nat m - nat n = k - nat (n + m)" using assms by (simp add: nat_add_distrib)
  show ?thesis
    unfolding bit_or_iff bit_shl64 [OF assms(1) nm(1)] bit_shl64 [OF assms(2) nm(2)] bit_and_gen_mask d
    using assms bit_less64 [of post k] by (auto simp: nat_le_iff) 
qed

definition join_fields :: "int \<Rightarrow> ir_code \<Rightarrow> int \<Rightarrow> ir_code \<Rightarrow> int \<Rightarrow> ir_code \<Rightarrow> ir_code" where
  "join_fields l pre n code m post =
     shl64 (shl64 (pre AND gen_mask l) n OR (code AND gen_mask n)) m OR (post AND gen_mask m)"

lemma gen_ir_code_join:
  "\<not> is_raw r \<Longrightarrow> gen_ir_code r pre code post =
     join_fields (pre_data_bits r) pre (bits r) code (post_data_bits r) post"
  by (simp add: gen_ir_code_def join_fields_def Let_def)

lemma join_fields_masked:
  "join_fields l (pre AND gen_mask l) n (code AND gen_mask n) m (post AND gen_mask m) =
   join_fields l pre n code m post"
  by (simp add: join_fields_def)

lemma bit_join_fields:
  assumes "0 \<le> n" "0 \<le> m" "n + m < 64"
  shows "bit (join_fields l pre n code m post) k \<longleftrightarrow>
    (if int k < m then bit post k
     else if int k < m + n then bit code (k - nat m)
     else k < 64 \<and> int k < n + m + l \<and> bit pre (k - nat (n + m)))"
  unfolding join_fields_def by (rule bit_join [OF assms])

text \<open>The fields of a whole code.\<close>

lemma split_join:
  assumes "0 \<le> l" "0 \<le> n" "0 \<le> m" "l + n + m < 64"
  shows "join_fields l (shr64 (shr64 a m) n AND gen_mask l) n (shr64 a m AND gen_mask n) m
           (a AND gen_mask m) = a AND gen_mask (l + n + m)"
proof (rule word64_eqI)
  fix k :: nat assume k: "k < 64"
  have e: "int k < m \<or> m \<le> int k \<and> int k < m + n \<or> m + n \<le> int k" by linarith
  have s: "shr64 a m = drop_bit (nat m) a" "shr64 (drop_bit (nat m) a) n = drop_bit (nat n) (drop_bit (nat m) a)"
    using assms by simp_all
  show "bit (join_fields l (shr64 (shr64 a m) n AND gen_mask l) n (shr64 a m AND gen_mask n) m
           (a AND gen_mask m)) k = bit (a AND gen_mask (l + n + m)) k"
    unfolding join_fields_masked s using assms k
    by (subst bit_join_fields) (auto simp: bit_and_gen_mask bit_drop64 nat_add_distrib nat_le_iff nat_less_iff)
qed

lemma join_inj:
  assumes "0 \<le> n" "0 \<le> m" "0 \<le> l" "l + n + m < 64"
    and "join_fields l pre n code m post = join_fields l pre' n code' m post'"
  shows "code AND gen_mask n = code' AND gen_mask n"
proof (rule word64_eqI)
  fix k :: nat
  have b: "bit (join_fields l pre n code m post) (k + nat m) = bit (join_fields l pre' n code' m post') (k + nat m)"
    using assms(5) by simp
  show "bit (code AND gen_mask n) k = bit (code' AND gen_mask n) k"
    using b assms(1-4) by (auto simp: bit_join_fields bit_and_gen_mask)
qed


lemma bits_zero_mask:
  assumes "\<And>k. bit (x :: ir_code) k \<Longrightarrow> int k < n"
  shows "x AND gen_mask n = x"
  by (rule word64_eqI) (use assms in \<open>auto simp: bit_and_gen_mask\<close>)

lemma join_fields_fits:
  assumes "0 \<le> n" "0 \<le> m" "n + m < 64" "0 \<le> l"
  shows "join_fields l pre n code m post AND gen_mask (l + n + m) = join_fields l pre n code m post"
  by (rule bits_zero_mask) (use assms in \<open>auto simp: bit_join_fields split: if_splits\<close>)

lemma map_code_fields:
  assumes "fields_fit r" "\<not> is_raw r" "0 \<le> a" "0 \<le> b" "0 \<le> c" "a + b + c < 64"
  shows "case map_code r a pre b code c post of
      None \<Rightarrow> a + b + c \<noteq> bit_count r
    | Some (p, q, t) \<Rightarrow> a + b + c = bit_count r \<and> gen_ir_code r p q t = join_fields a pre b code c post \<and>
        p AND gen_mask (pre_data_bits r) = p \<and> q AND gen_mask (bits r) = q \<and>
        t AND gen_mask (post_data_bits r) = t"
proof -
  have i: "i32 (i32 (a + b) + c) = a + b + c" using assms(3-6) by (simp add: i32_range_def)
  let ?w = "join_fields a pre b code c post"
  have f: "0 \<le> pre_data_bits r" "0 \<le> bits r" "0 \<le> post_data_bits r"
    "pre_data_bits r + bits r + post_data_bits r < 64"
    using assms(1) by (auto simp: fields_fit_def)
  have w: "shl64 (shl64 (pre AND gen_mask a) b OR (code AND gen_mask b)) c OR (post AND gen_mask c) = ?w"
    by (simp add: join_fields_def)
  show ?thesis
  proof (cases "a + b + c = bit_count r")
    case True
    then have "?w AND gen_mask (pre_data_bits r + bits r + post_data_bits r) = ?w"
      using join_fields_fits [of b c a pre code post] assms(3-6) fields_fit_bounds [OF assms(1)]
      by (simp add: add.commute add.left_commute)
    then show ?thesis
      using True i split_join [OF f, of ?w] by (simp add: map_code_def w gen_ir_code_join [OF assms(2)] Let_def)
  next
    case False
    then show ?thesis using i by (simp add: map_code_def)
  qed
qed

text \<open>C32: \<open>map_code\<close>, which drivers with a decoder of their own call, redistributes the bits of a
  received code over the fields of the remote: the whole code stays the same, each result fits its
  field, and a code with another number of bits is refused.\<close>

theorem map_code_keeps_code:
  assumes "fields_fit r" "\<not> is_raw r" "0 \<le> a" "0 \<le> b" "0 \<le> c" "a + b + c < 64"
  shows "case map_code r a pre b code c post of
      None \<Rightarrow> a + b + c \<noteq> bit_count r
    | Some (p, q, t) \<Rightarrow> a + b + c = bit_count r \<and> gen_ir_code r p q t = join_fields a pre b code c post \<and>
        p AND gen_mask (pre_data_bits r) = p \<and> q AND gen_mask (bits r) = q \<and>
        t AND gen_mask (post_data_bits r) = t"
  by (rule map_code_fields [OF assms])

lemma map_code_keeps_code_witness:
  "\<exists>p q t. map_code demo_remote 0 0 16 0xC113 0 0 = Some (p, q, t) \<and>
     gen_ir_code demo_remote p q t = join_fields 0 0 16 0xC113 0 0"
proof -
  have "fields_fit demo_remote" "\<not> is_raw demo_remote" "bit_count demo_remote = 16" by code_simp+
  then show ?thesis
    using map_code_keeps_code [of demo_remote 0 16 0 0 "0xC113" 0] by (auto split: option.splits)
qed



section \<open>Frequencies\<close>

lemma fold_freq:
  "\<lbrakk>mn \<le> mx; fold freq_step rs (mn, mx) = (a, b)\<rbrakk> \<Longrightarrow>
   a \<le> mn \<and> mx \<le> b \<and> (\<forall>r \<in> set rs. freq r \<noteq> 0 \<longrightarrow> a \<le> freq r \<and> freq r \<le> b) \<and>
   (a = mn \<or> a \<in> freq ` set rs) \<and> (b = mx \<or> b \<in> freq ` set rs)"
proof (induction rs arbitrary: mn mx)
  case (Cons r rs)
  obtain mn' mx' where st: "freq_step r (mn, mx) = (mn', mx')" by fastforce
  have s: "mn' \<le> mx'" "mn' \<le> mn" "mx \<le> mx'" "freq r \<noteq> 0 \<longrightarrow> mn' \<le> freq r \<and> freq r \<le> mx'"
    "mn' = mn \<or> mn' = freq r" "mx' = mx \<or> mx' = freq r"
    using st Cons.prems(1) by (auto simp: freq_step_def split: if_splits)
  have "fold freq_step rs (mn', mx') = (a, b)" using Cons.prems(2) st by simp
  from Cons.IH [OF s(1) this] s show ?case by (auto intro: order_trans)
qed simp


text \<open>\<open>get_frequency_range\<close> returns the tightest range: every remote with a frequency lies in it,
  and both ends are frequencies of remotes of the list.\<close>

theorem frequency_range_tight:
  assumes "rs \<noteq> []"
  shows "case get_frequency_range rs of (a, b) \<Rightarrow>
    (\<forall>r \<in> set rs. freq r = 0 \<or> a \<le> freq r \<and> freq r \<le> b) \<and> a \<in> freq ` set rs \<and> b \<in> freq ` set rs"
proof -
  obtain r rs' where rs: "rs = r # rs'" using assms by (cases rs) auto
  obtain a b where ab: "fold freq_step rs' (freq r, freq r) = (a, b)" by fastforce
  show ?thesis
    using fold_freq [OF order_refl ab] rs ab by (auto simp: get_frequency_range_def)
qed

lemma frequency_range_tight_witness:
  "get_frequency_range [demo_remote\<lparr>freq := 38000\<rparr>, demo_remote, demo_remote\<lparr>freq := 36000\<rparr>] = (36000, 38000) \<and>
   36000 \<in> freq ` set [demo_remote\<lparr>freq := 38000\<rparr>, demo_remote, demo_remote\<lparr>freq := 36000\<rparr>]"
proof -
  let ?rs = "[demo_remote\<lparr>freq := 38000\<rparr>, demo_remote, demo_remote\<lparr>freq := 36000\<rparr>]"
  have "get_frequency_range ?rs = (36000, 38000)" by code_simp
  then show ?thesis using frequency_range_tight [of ?rs] by simp
qed

section \<open>Time\<close>

definition micros :: "timeval \<Rightarrow> int" where
  "micros t = 1000000 * tv_sec t + tv_usec t"

lemma word_diff_less:
  assumes "0 \<le> d" "d < 9223372036854775808" "0 \<le> g" "g < 2147483648"
  shows "(if word_of_int d < (word_of_int g :: ulong) then i32 (uint (word_of_int g - word_of_int d :: ulong)) else 0)
    = max 0 (g - d)"
proof -
  have u: "uint (word_of_int d :: ulong) = d" "uint (word_of_int g :: ulong) = g"
    using assms by (simp_all add: uint_word_of_int)
  have "d < g \<Longrightarrow> uint (word_of_int g - word_of_int d :: ulong) = g - d"
  proof -
    assume "d < g"
    have "(word_of_int g - word_of_int d :: ulong) = word_of_int (g - d)" by simp
    then show ?thesis using \<open>d < g\<close> assms by (simp only: uint_word_of_int) simp
  qed
  then show ?thesis using u assms by (auto simp: word_less_def i32_range_def)
qed

text \<open>\<open>time_left\<close> computes, in unsigned arithmetic, how much of the gap that started at \<open>from\<close> is
  left now: the gap minus the time that has passed, but not less than zero.\<close>

theorem time_left_exact:
  assumes "0 \<le> micros current - micros from_tv" "micros current - micros from_tv < 9223372036854775808"
    and "0 \<le> g" "g < 2147483648"
  shows "time_left current from_tv g = max 0 (g - (micros current - micros from_tv))"
proof -
  have d: "1000000 * word_of_int (tv_sec current - tv_sec from_tv) + word_of_int (tv_usec current) -
      word_of_int (tv_usec from_tv) = (word_of_int (micros current - micros from_tv) :: ulong)"
    by (simp add: micros_def algebra_simps)
  show ?thesis
    unfolding time_left_def Let_def d by (rule word_diff_less [OF assms])
qed

lemma time_left_exact_witness:
  "time_left \<lparr>tv_sec = 11, tv_usec = 20000\<rparr> \<lparr>tv_sec = 10, tv_usec = 990000\<rparr> 68110 = 38110"
  using time_left_exact [of "\<lparr>tv_sec = 11, tv_usec = 20000\<rparr>" "\<lparr>tv_sec = 10, tv_usec = 990000\<rparr>" 68110]
  by (simp add: micros_def)

end
