(* ===== verification/EndToEnd.thy ===== *)
theory EndToEnd
  imports RoundTrip ButtonFacts
begin

text \<open>
  A button press from the transmitter of one daemon to the clients of another: what \<open>init_send\<close>
  sends is reported by \<open>decode_all\<close>, with \<open>receive_decode\<close> as the driver's decoder, as the
  message for that button.
\<close>

section \<open>The button is recognised\<close>

text \<open>What \<open>sanityChecks\<close> establishes, for a remote without masks and sequences.\<close>

definition masked_remote :: "ir_remote \<Rightarrow> bool" where
  "masked_remote r \<longleftrightarrow> fields_fit r \<and> ignore_mask r = 0 \<and>
     pre_data r AND gen_mask (pre_data_bits r) = pre_data r \<and>
     post_data r AND gen_mask (post_data_bits r) = post_data r"

text \<open>Button \<open>i\<close> is the first one with its code.\<close>

definition first_button :: "ir_remote \<Rightarrow> nat \<Rightarrow> bool" where
  "first_button r i \<longleftrightarrow>
     (case codes r of
        None \<Rightarrow> False
      | Some cs \<Rightarrow> single_codes cs \<and> i < length cs \<and>
          list_all (\<lambda>j. nc_code (cs ! j) AND gen_mask (bits r) \<noteq> nc_code (cs ! i) AND gen_mask (bits r)) [0..<i])"

lemma find_index_from_first:
  "i < length xs \<Longrightarrow> P (xs ! i) \<Longrightarrow> (\<And>j. j < i \<Longrightarrow> \<not> P (xs ! j)) \<Longrightarrow> find_index_from k P xs = Some (k + i)"
proof (induction xs arbitrary: i k)
  case (Cons x xs)
  show ?case
  proof (cases i)
    case 0
    then show ?thesis using Cons.prems by simp
  next
    case (Suc j)
    have "\<not> P x" using Cons.prems(3) [of 0] Suc by simp
    moreover have "find_index_from (Suc k) P xs = Some (Suc k + j)"
    proof (rule Cons.IH)
      show "j < length xs" "P (xs ! j)" using Cons.prems Suc by simp_all
      show "\<not> P (xs ! l)" if "l < j" for l using Cons.prems(3) [of "Suc l"] that Suc by simp
    qed
    ultimately show ?thesis using Suc by simp
  qed
qed simp

text \<open>A remote without raw codes, toggle masks and the extended multimedia protocol.\<close>

definition plain_remote :: "ir_remote \<Rightarrow> bool" where
  "plain_remote r \<longleftrightarrow> \<not> is_raw r \<and> \<not> has_toggle_mask r \<and> toggle_bit_mask r = 0 \<and> \<not> is_xmp r"

lemma space_encoded_plain: "space_encoded r \<Longrightarrow> plain_remote r"
  using space_encoded_preds [of r] by (auto simp: space_encoded_def plain_remote_def)

lemma get_code_plain_button:
  assumes r: "plain_remote r" "masked_remote r" "first_button r i" "codes r = Some cs"
  shows "get_code r (pre_data r AND gen_mask (pre_data_bits r)) (nc_code (cs ! i) AND gen_mask (bits r))
      (post_data r AND gen_mask (post_data_bits r)) = (Some (i, 0), r)"
proof -
  have raw: "\<not> is_raw r" "\<not> has_toggle_mask r" "toggle_bit_mask r = 0" "ignore_mask r = 0"
    using r(1,2) by (auto simp: plain_remote_def masked_remote_def)
  have fit: "0 \<le> bits r" "0 \<le> post_data_bits r" "0 \<le> pre_data_bits r"
    "pre_data_bits r + bits r + post_data_bits r < 64"
    using r(2) by (auto simp: masked_remote_def fields_fit_def)
  let ?a = "join_fields (pre_data_bits r) (pre_data r) (bits r) (nc_code (cs ! i)) (post_data_bits r) (post_data r)"
  have m: "button_matches r ?a c \<longleftrightarrow> nc_code c AND gen_mask (bits r) = nc_code (cs ! i) AND gen_mask (bits r)" for c
  proof -
    have "button_matches r ?a c \<longleftrightarrow> join_fields (pre_data_bits r) (pre_data r) (bits r) (nc_code c)
        (post_data_bits r) (post_data r) = ?a"
      using raw by (simp add: button_matches_def match_ir_code_def gen_ir_code_join)
    also have "\<dots> \<longleftrightarrow> nc_code c AND gen_mask (bits r) = nc_code (cs ! i) AND gen_mask (bits r)"
      using join_inj [OF fit] by (auto simp: join_fields_def)
    finally show ?thesis .
  qed
  have acc: "data_accepted r (pre_data r AND gen_mask (pre_data_bits r)) (post_data r AND gen_mask (post_data_bits r))"
    using r(2) by (simp add: data_accepted_def masked_remote_def)
  have s: "single_codes cs" "i < length cs"
    "\<And>j. j < i \<Longrightarrow> nc_code (cs ! j) AND gen_mask (bits r) \<noteq> nc_code (cs ! i) AND gen_mask (bits r)"
    using r(3,4) by (auto simp: first_button_def list_all_iff)
  have "find_index_from 0 (button_matches r ?a) cs = Some (0 + i)"
    using s(2,3) m by (intro find_index_from_first) auto
  then show ?thesis
    unfolding get_code_single [OF r(4) s(1) raw(2)] gen_ir_code_join [OF raw(1)] join_fields_masked
    using acc raw(3) by simp
qed

lemmas get_code_first_button = get_code_plain_button [OF space_encoded_plain]

section \<open>The button is reported\<close>

definition fresh_press :: "addr \<Rightarrow> 'z lircd_scheme \<Rightarrow> bool" where
  "fresh_press p s \<longleftrightarrow> last_decoded s \<noteq> Some p"

definition pressed :: "ir_remote \<Rightarrow> nat \<Rightarrow> timeval \<Rightarrow> lirc_t \<Rightarrow> lirc_t \<Rightarrow> ir_remote" where
  "pressed r i current mn mx = r\<lparr>release_detected := 0, reps := 0, last_code := Some i,
     last_send := current, min_remaining_gap := mn, max_remaining_gap := mx\<rparr>"

lemma set_code_fresh:
  assumes f: "fresh_press p s" and nc: "ncode_at (store s p) i = Some nc" "nc_nodes nc = []" "nc_current nc = None"
    and t: "\<not> has_toggle_mask (store s p)" "\<not> has_toggle_bit_mask (store s p)"
  shows "set_code p i tbms rf mn mx s = Some (report_code (store s p) nc,
      s\<lparr>ticks := Suc (ticks s), store := (store s)(p := pressed (store s p) i (clock s (ticks s)) mn mx),
        last_remote := Some p, last_decoded := Some p\<rparr>)"
proof -
  have [simp]: "same_signal p nc i tbms b cu (s\<lparr>ticks := n\<rparr>) = False" for b cu n
    using f by (simp add: same_signal_def fresh_press_def Let_def)
  show ?thesis
    using nc t
    by (simp add: set_code_def gettimeofday_def Let_def start_press_def ir_preds report_code_def
        bit_count_def pressed_def)
qed

lemma single_codes_reset: "single_codes cs \<Longrightarrow> map (\<lambda>c. c\<lparr>nc_current := None\<rparr>) cs = cs"
  by (induction cs) auto

lemma single_codes_nth:
  "single_codes cs \<Longrightarrow> i < length cs \<Longrightarrow> nc_nodes (cs ! i) = [] \<and> nc_current (cs ! i) = None"
  by (auto simp: single_codes_def list_all_length)

text \<open>The message a client receives for the first signal of a press.\<close>

definition press_message :: "ir_remote \<Rightarrow> nat \<Rightarrow> string option" where
  "press_message r i =
     (case codes r of
        None \<Rightarrow> None
      | Some cs \<Rightarrow> Some (message_text (name r) (nc_name (cs ! i)) '''' (report_code r (cs ! i)) 0))"

lemma button_event_fresh:
  fixes s :: "'z lircd_rel_scheme"
  assumes f: "fresh_press p s" and c: "codes (store s p) = Some cs" "single_codes cs" "i < length cs"
    and t: "\<not> has_toggle_mask (store s p)" "\<not> has_toggle_bit_mask (store s p)" "\<not> is_xmp (store s p)"
    and d: "decoding s = [p]"
    and m: "press_message (store s p) i = Some msg" "length msg \<le> PACKET_SIZE"
  shows "\<exists>s'. button_event p i tbms res s = Some (Some msg, s') \<and> decoding s' = [] \<and>
     last_remote s' = Some p \<and>
     store s' p = pressed (store s p) i (clock s (ticks s)) (d_min_remaining_gap res) (d_max_remaining_gap res) \<and>
     release_remote (rel s') = Some p \<and> release_ncode (rel s') = Some i"
proof -
  let ?nc = "cs ! i"
  let ?r = "pressed (store s p) i (clock s (ticks s)) (d_min_remaining_gap res) (d_max_remaining_gap res)"
  let ?s = "s\<lparr>ticks := Suc (ticks s), store := (store s)(p := ?r),
        last_remote := Some p, last_decoded := Some p\<rparr>"
  have nc: "ncode_at (store s p) i = Some ?nc" "nc_nodes ?nc = []" "nc_current ?nc = None"
    using single_codes_nth [OF c(2,3)] c by (simp_all add: ncode_at_def)
  have sc: "set_code p i tbms (d_repeat res) (d_min_remaining_gap res) (d_max_remaining_gap res) s =
      Some (report_code (store s p) ?nc, ?s)"
    by (rule set_code_fresh [OF f nc t(1,2)])
  have r: "ncode_at ?r i = Some ?nc" "has_toggle_mask ?r = False" "is_xmp ?r = False" "last_code ?r = Some i"
    "reps ?r = 0" "codes ?r = Some cs" "name ?r = name (store s p)"
    using nc t c by (simp_all add: pressed_def ncode_at_def ir_preds)
  have mc: "map_codes (\<lambda>c. c\<lparr>nc_current := None\<rparr>) ?r = Some ?r"
    using c(2) r(6) by (simp add: map_codes_def single_codes_reset)
  have rs: "reset_sequences (decoding ?s) ?s = Some ?s"
    using mc d by (simp add: set_remote_def)
  have rp: "reported_reps ?r ?nc = Some 0" using r(5) nc(2) by (simp add: reported_reps_def i32_def Let_def)
  have w: "write_message (PACKET_SIZE + 1) (name (store s p)) (nc_name ?nc) '''' (report_code (store s p) ?nc) 0
      = (msg, length msg)"
    using m c(1) by (auto simp: press_message_def write_message_def)
  show ?thesis
    unfolding button_event_def sc
    using r rs rp w nc m(2)
    by (simp add: register_button_press_def register_input_def gettimeofday_def button_name_def Let_def)
qed


section \<open>From the buffer to the message\<close>

lemma masked_fields:
  "masked_remote r \<Longrightarrow> fields_of r code =
     (pre_data r AND gen_mask (pre_data_bits r), code AND gen_mask (bits r),
      post_data r AND gen_mask (post_data_bits r))"
  by (simp add: fields_of_def)

definition listening :: "addr \<Rightarrow> lirc_t \<Rightarrow> lirc_t list \<Rightarrow> 'z lircd_rel_scheme \<Rightarrow> bool" where
  "listening p g ys s \<longleftrightarrow> samples_mode (hw s) \<and> gap_accepted p g s \<and> rx_ok s \<and> fresh_press p s \<and>
     whole_input s = g # mark_pulses ys"

lemma try_remote_frame:
  fixes s :: "'z lircd_rel_scheme"
  assumes r: "space_encoded (store s p)" "masked_remote (store s p)" "first_button (store s p) i"
      "codes (store s p) = Some cs"
    and d: "bits_distinct (hw s) (store s p)" and l: "listening p g ys s"
    and f: "frame_ok (store s p) (nc_code (cs ! i)) False"
    and y: "received (hw s) (store s p) (frame_samples (store s p) (nc_code (cs ! i)) False) ys"
  shows "\<exists>res s'. try_remote receive_decode p s = Some (Some (res, i, 0), s') \<and> same_session s s'"
proof -
  have "length ys < 511" using received_length [OF y] frame_ok_length [OF f] by simp
  then obtain res s' where rd: "receive_decode p s = Some (Some res, s')"
      "(d_pre res, d_code res, d_post res) = fields_of (store s p) (nc_code (cs ! i))" "same_session s s'"
    using receive_frame [OF r(1) refl d _ _ _ y, of g] l by (auto simp: listening_def)
  have st: "store s' = store s" using same_session_store [OF rd(3)] by simp
  have gc: "get_code (store s' p) (d_pre res) (d_code res) (d_post res) = (Some (i, 0), store s p)"
    using get_code_first_button [OF r] rd(2) by (simp add: fields_of_def st)
  have sr: "set_remote p (store s p) s' = s'" using st by (simp add: set_remote_same)
  have "try_remote receive_decode p s = Some (Some (res, i, 0), s')"
    unfolding try_remote_def rd(1) by (simp add: gc sr)
  with rd(3) show ?thesis by blast
qed

lemma decode_all_frame:
  fixes s :: "'z lircd_rel_scheme"
  assumes r: "space_encoded (store s p)" "masked_remote (store s p)" "first_button (store s p) i"
      "codes (store s p) = Some cs"
    and d: "bits_distinct (hw s) (store s p)" and l: "listening p g ys s"
    and f: "frame_ok (store s p) (nc_code (cs ! i)) False"
    and y: "received (hw s) (store s p) (frame_samples (store s p) (nc_code (cs ! i)) False) ys"
    and m: "press_message (store s p) i = Some msg" "length msg \<le> PACKET_SIZE"
  shows "\<exists>s'. decode_all receive_decode [p] s = Some (Some msg, s') \<and> decoding s' = [] \<and>
     last_remote s' = Some p \<and> last_code (store s' p) = Some i \<and> reps (store s' p) = 0 \<and>
     release_remote (rel s') = Some p \<and> release_ncode (rel s') = Some i"
proof -
  let ?s = "s\<lparr>decoding := [p]\<rparr>"
  have l': "listening p g ys ?s"
    using l by (simp add: listening_def gap_accepted_def rx_ok_def fresh_press_def whole_input_def
        cong: option.case_cong)
  obtain res t where t: "try_remote receive_decode p ?s = Some (Some (res, i, 0), t)" "same_session ?s t"
    using try_remote_frame [of ?s p i cs g ys] r d l' f y by auto
  have st: "store t = store s" "decoding t = [p]" "last_decoded t = last_decoded s"
    using t(2) by (cases t; cases s; simp add: same_session_def)+
  have fp: "fresh_press p t" using l st(3) by (simp add: listening_def fresh_press_def)
  have c: "single_codes cs" "i < length cs" using r(3,4) by (auto simp: first_button_def)
  note pr = space_encoded_preds [OF r(1)]
  have e: "\<exists>s'. button_event p i 0 res t = Some (Some msg, s') \<and> decoding s' = [] \<and>
     last_remote s' = Some p \<and>
     store s' p = pressed (store t p) i (clock t (ticks t)) (d_min_remaining_gap res) (d_max_remaining_gap res) \<and>
     release_remote (rel s') = Some p \<and> release_ncode (rel s') = Some i"
    by (rule button_event_fresh [OF fp _ c]) (use st r(4) pr m in \<open>simp_all\<close>)
  then show ?thesis
    unfolding decode_all_def decode_loop.simps t(1) by (auto simp: pressed_def)
qed


section \<open>Transmitter and receiver\<close>

text \<open>C1: The signal that \<open>init_send\<close> builds for a button of a space encoded remote, received after
  an accepted gap with every length within the remote's tolerances, makes \<open>decode_all\<close> report
  exactly this button: the packet that is sent to the clients is the message with its code, repeat
  count 0, its name and the remote's name; the press is registered for a later release event.\<close>

theorem press_reported:
  fixes s :: "'z lircd_rel_scheme"
  assumes "space_encoded (store s p)" "masked_remote (store s p)" "bits_distinct (hw s) (store s p)"
    and "codes (store s p) = Some cs" "first_button (store s p) i" "can_send_once (store s p) (cs ! i)"
    and "received (hw s) (store s p) (frame_samples (store s p) (nc_code (cs ! i)) False) ys"
    and "listening p g ys s"
    and "press_message (store s p) i = Some msg" "length msg \<le> PACKET_SIZE"
  shows "(\<exists>r' b'. init_send False (store s p) (cs ! i) b = Some (True, r', cs ! i, b') \<and>
       buffer_samples b' = Some (frame_samples (store s p) (nc_code (cs ! i)) False)) \<and>
     (\<exists>s'. decode_all receive_decode [p] s = Some (Some msg, s') \<and> decoding s' = [] \<and>
       last_remote s' = Some p \<and> last_code (store s' p) = Some i \<and> reps (store s' p) = 0 \<and>
       release_remote (rel s') = Some p \<and> release_ncode (rel s') = Some i)"
  using init_send_frame [OF assms(1,6)]
    decode_all_frame [OF assms(1,2,5,4,3,8) can_send_once_frame [OF assms(6)] assms(7,9,10)]
  by blast

definition demo_heard :: "lirc_t list" where
  "demo_heard = map (\<lambda>x. x + 40) (frame_samples demo_remote 0x13 False)"

lemma press_reported_witness:
  "\<exists>s'. decode_all receive_decode [0] (demo_lircd (50000 # mark_pulses demo_heard)) =
     Some (Some (''000000000000c113 00 MUTE TV'' @ [CHR 0x0A]), s') \<and> last_code (store s' 0) = Some 1"
proof -
  let ?s = "demo_lircd (50000 # mark_pulses demo_heard)"
  let ?cs = "[demo_button ''POWER'' 0x5A, demo_button ''MUTE'' 0x13]"
  have s: "store ?s 0 = demo_remote" "hw ?s = demo_hw" by (simp_all add: demo_lircd_def)
  have c: "?cs ! 1 = demo_button ''MUTE'' 0x13" "nc_code (demo_button ''MUTE'' 0x13) = 0x13"
    by (simp_all add: demo_button_def)
  have "space_encoded demo_remote" "masked_remote demo_remote" "bits_distinct demo_hw demo_remote"
    "first_button demo_remote 1" "can_send_once demo_remote (demo_button ''MUTE'' 0x13)"
    "received demo_hw demo_remote (frame_samples demo_remote 0x13 False) demo_heard"
    "press_message demo_remote 1 = Some (''000000000000c113 00 MUTE TV'' @ [CHR 0x0A])"
    "samples_mode demo_hw"
    by code_simp+
  moreover have "codes demo_remote = Some ?cs" by (simp add: demo_remote_def)
  moreover have "listening 0 50000 demo_heard ?s"
    using \<open>samples_mode demo_hw\<close>
    by (simp add: demo_lircd_def listening_def gap_accepted_def len24_def rx_ok_def RBUF_SIZE_def
        timerisset_def timeval0_def whole_input_def fresh_press_def)
  ultimately show ?thesis
    using press_reported [of ?s 0 ?cs 1 demo_heard 50000 "''000000000000c113 00 MUTE TV'' @ [CHR 0x0A]"
        init_send_buffer]
    unfolding s c by (auto simp: PACKET_SIZE_def)
qed

end
