(* ===== verification/CText.thy ===== *)
theory CText
  imports Events
begin

text \<open>
  The C library functions on strings that \<open>config_file.c\<close> and \<open>dump_config.c\<close> rely on: the
  number parsers \<open>strtoull\<close>, \<open>strtoul\<close> and \<open>strtol\<close> with base 0, \<open>strtok\<close> on blanks, \<open>fgets\<close>,
  \<open>dirname\<close>, and the conversions of \<open>printf\<close> that print integers.
\<close>

section \<open>Characters and digits\<close>

definition is_space_char :: "char \<Rightarrow> bool" where
  "is_space_char c \<longleftrightarrow> c \<in> {CHR '' '', CHR 0x09, CHR 0x0A, CHR 0x0B, CHR 0x0C, CHR 0x0D}"

definition digit_val :: "char \<Rightarrow> int option" where
  "digit_val c =
     (let n = of_char c :: int in
        if 48 \<le> n \<and> n \<le> 57 then Some (n - 48)
        else if 65 \<le> n \<and> n \<le> 90 then Some (n - 55)
        else if 97 \<le> n \<and> n \<le> 122 then Some (n - 87)
        else None)"

definition is_digit :: "int \<Rightarrow> char \<Rightarrow> bool" where
  "is_digit base c \<longleftrightarrow> (case digit_val c of None \<Rightarrow> False | Some d \<Rightarrow> d < base)"

definition digits_value :: "int \<Rightarrow> string \<Rightarrow> int" where
  "digits_value base cs =
     fold (\<lambda>c n. n * base + (case digit_val c of None \<Rightarrow> 0 | Some d \<Rightarrow> d)) cs 0"

section \<open>Number parsers\<close>

text \<open>The sign, the digits, their base and the rest of the subject of \<open>strtoul (s, &rest, 0)\<close>;
  without digits the rest is the whole string.\<close>

record number =
  num_neg :: bool
  num_abs :: int
  num_rest :: string

definition number_base :: "string \<Rightarrow> int \<times> string" where
  "number_base s =
     (case s of
        CHR ''0'' # x # d # t \<Rightarrow>
          if (x = CHR ''x'' \<or> x = CHR ''X'') \<and> is_digit 16 d then (16, d # t) else (8, s)
      | CHR ''0'' # t \<Rightarrow> (8, s)
      | _ \<Rightarrow> (10, s))"

definition number_sign :: "string \<Rightarrow> bool \<times> string" where
  "number_sign s =
     (case s of
        [] \<Rightarrow> (False, [])
      | c # t \<Rightarrow> if c = CHR ''-'' then (True, t) else if c = CHR ''+'' then (False, t) else (False, s))"

definition scan_number :: "string \<Rightarrow> number" where
  "scan_number s =
     (let (neg, t) = number_sign (dropWhile is_space_char s);
          (base, t) = number_base t;
          ds = takeWhile (is_digit base) t
      in if ds = [] then \<lparr>num_neg = False, num_abs = 0, num_rest = s\<rparr>
         else \<lparr>num_neg = neg, num_abs = digits_value base ds, num_rest = drop (length ds) t\<rparr>)"

text \<open>\<open>long\<close> and \<open>long long\<close> have 64 bits. The result is the value, the rest, and \<open>ERANGE\<close>.\<close>

definition strtoull :: "string \<Rightarrow> 64 word \<times> string \<times> bool" where
  "strtoull s =
     (let n = scan_number s in
        if num_abs n \<ge> 2 ^ 64 then (- 1, num_rest n, True)
        else (word_of_int (if num_neg n then - num_abs n else num_abs n), num_rest n, False))"

definition strtol :: "string \<Rightarrow> int \<times> string" where
  "strtol s =
     (let n = scan_number s;
          v = (if num_neg n then - num_abs n else num_abs n)
      in (max (- (2 ^ 63)) (min (2 ^ 63 - 1) v), num_rest n))"

section \<open>Splitting\<close>

definition is_blank :: "char \<Rightarrow> bool" where
  "is_blank c \<longleftrightarrow> c = CHR '' '' \<or> c = CHR 0x09"

text \<open>The tokens that successive calls of \<open>strtok (\<dots>, " \t")\<close> return.\<close>

function blank_tokens :: "string \<Rightarrow> string list" where
  "blank_tokens s =
     (let t = dropWhile is_blank s in
        if t = [] then []
        else takeWhile (\<lambda>c. \<not> is_blank c) t # blank_tokens (dropWhile (\<lambda>c. \<not> is_blank c) t))"
  by pat_completeness auto
termination
proof (relation "measure length", simp)
  fix s t assume t: "t = dropWhile is_blank s" "t \<noteq> []"
  have "\<not> is_blank (hd t)" using hd_dropWhile [of is_blank s] t by simp
  then have "length (dropWhile (\<lambda>c. \<not> is_blank c) t) < length t"
    using t(2) by (cases t) (auto simp: less_Suc_eq_le length_dropWhile_le)
  also have "length t \<le> length s" unfolding t(1) by (rule length_dropWhile_le)
  finally show "(dropWhile (\<lambda>c. \<not> is_blank c) t, s) \<in> measure length" by simp
qed

declare blank_tokens.simps [simp del]

text \<open>What a character separates, empty parts included.\<close>

fun split_on :: "char \<Rightarrow> string \<Rightarrow> string list" where
  "split_on x [] = [[]]"
| "split_on x (c # cs) =
     (if c = x then [] # split_on x cs
      else case split_on x cs of [] \<Rightarrow> [[c]] | p # ps \<Rightarrow> (c # p) # ps)"

text \<open>The strings that successive calls of \<open>fgets (buf, n + 1, f)\<close> read: at most \<open>n\<close> characters,
  up to and including a newline.\<close>

fun fgets_from :: "nat \<Rightarrow> nat \<Rightarrow> string \<Rightarrow> string \<Rightarrow> string list" where
  "fgets_from n k acc [] = (if acc = [] then [] else [rev acc])"
| "fgets_from n k acc (c # cs) =
     (if c = CHR 0x0A \<or> k \<le> 1 then rev (c # acc) # fgets_from n n [] cs
      else fgets_from n (k - 1) (c # acc) cs)"

definition fgets_lines :: "nat \<Rightarrow> string \<Rightarrow> string list" where
  "fgets_lines n s = map (takeWhile (\<lambda>c. c \<noteq> CHR 0x00)) (fgets_from n n [] s)"

definition strip_slashes :: "string \<Rightarrow> string" where
  "strip_slashes s = rev (dropWhile (\<lambda>c. c = CHR ''/'') (rev s))"

definition dirname :: "string \<Rightarrow> string" where
  "dirname s =
     (let t = strip_slashes s;
          d = rev (dropWhile (\<lambda>c. c \<noteq> CHR ''/'') (rev t))
      in if s = [] then ''.''
         else if t = [] then ''/''
         else if d = [] then ''.''
         else let e = strip_slashes d in if e = [] then ''/'' else e)"

section \<open>printf\<close>

fun digits_of :: "nat \<Rightarrow> int \<Rightarrow> int \<Rightarrow> string" where
  "digits_of 0 base n = ''''"
| "digits_of (Suc k) base n =
     (if n < base then [''0123456789ABCDEF'' ! nat n]
      else digits_of k base (n div base) @ [''0123456789ABCDEF'' ! nat (n mod base)])"

text \<open>\<open>%u\<close> and \<open>%llX\<close> of values with at most 64 bits, and \<open>%d\<close>.\<close>

definition show_dec :: "int \<Rightarrow> string" where "show_dec n = digits_of 64 10 n"

definition show_hex :: "int \<Rightarrow> string" where "show_hex n = digits_of 64 16 n"

definition show_int :: "int \<Rightarrow> string" where
  "show_int i = (if i < 0 then CHR ''-'' # show_dec (- i) else show_dec i)"

definition pad_left :: "nat \<Rightarrow> string \<Rightarrow> string" where
  "pad_left w s = replicate (w - length s) CHR '' '' @ s"

definition pad_right :: "nat \<Rightarrow> string \<Rightarrow> string" where
  "pad_right w s = s @ replicate (w - length s) CHR '' ''"

definition show_u32 :: "int \<Rightarrow> string" where
  "show_u32 x = show_dec (uint (word_of_int x :: u32))"

end
