(* ===== verification/ConfigFile.thy ===== *)
theory ConfigFile
  imports CText Transmit
begin

text \<open>
  \<open>daemons/config_file.c\<close>: numbers, flags and the definitions of a remote. A parser returns its
  value and a flag that is \<open>False\<close> when the C code sets \<open>parse_error\<close>; log messages and the line
  counter they print are left out. \<open>malloc\<close> does not fail. An empty \<open>name\<close> is the NULL pointer:
  a name is a token and so never empty.
\<close>

section \<open>Numbers\<close>

definition s_strtocode :: "string \<Rightarrow> ir_code \<times> bool" where
  "s_strtocode val =
     (let (code, rest, erange) = strtoull val
      in if code = - 1 \<and> erange \<or> rest \<noteq> [] \<or> val = [] then (0, False) else (code, True))"

definition s_strtou32 :: "string \<Rightarrow> u32 \<times> bool" where
  "s_strtou32 val =
     (let (n, rest, _) = strtoull val
      in if val = [] \<or> rest \<noteq> [] then (0, False) else (ucast n, True))"

definition s_strtoi :: "string \<Rightarrow> int \<times> bool" where
  "s_strtoi val =
     (let (n, rest) = strtol val; h = i32 n
      in if val = [] \<or> rest \<noteq> [] \<or> n \<noteq> h then (0, False) else (h, True))"

text \<open>The comparison \<open>n != (__u32) h\<close> of the next two functions is between equal values.\<close>

definition s_strtoui :: "string \<Rightarrow> u32 \<times> bool" where
  "s_strtoui val =
     (let (n64, rest, _) = strtoull val; n = ucast n64 :: u32; h = n
      in if val = [] \<or> rest \<noteq> [] \<or> n \<noteq> h then (0, False) else (h, True))"

definition s_strtolirc_t :: "string \<Rightarrow> lirc_t \<times> bool" where
  "s_strtolirc_t val =
     (let (n64, rest, _) = strtoull val; n = ucast n64 :: u32; h = sint n
      in if val = [] \<or> rest \<noteq> [] \<or> n \<noteq> word_of_int h then (0, False) else (h, True))"

section \<open>Flags\<close>

definition all_flags :: "(string \<times> u32) list" where
  "all_flags =
     [(''RAW_CODES'', RAW_CODES), (''RC5'', RC5), (''SHIFT_ENC'', SHIFT_ENC), (''RC6'', RC6),
      (''RCMM'', RCMM), (''SPACE_ENC'', SPACE_ENC), (''SPACE_FIRST'', SPACE_FIRST),
      (''GOLDSTAR'', GOLDSTAR), (''GRUNDIG'', GRUNDIG), (''BO'', BO), (''SERIAL'', SERIAL),
      (''XMP'', XMP), (''REVERSE'', REVERSE), (''NO_HEAD_REP'', NO_HEAD_REP),
      (''NO_FOOT_REP'', NO_FOOT_REP), (''CONST_LENGTH'', CONST_LENGTH),
      (''REPEAT_HEADER'', REPEAT_HEADER)]"

fun find_flag :: "(string \<times> u32) list \<Rightarrow> string \<Rightarrow> u32 option" where
  "find_flag [] t = None"
| "find_flag ((n, f) # fs) t = (if strcaseeq n t then Some f else find_flag fs t)"

fun parse_flag_list :: "u32 \<Rightarrow> string list \<Rightarrow> u32 \<times> bool" where
  "parse_flag_list acc [] = (acc, True)"
| "parse_flag_list acc (t # ts) =
     (case find_flag all_flags t of
        None \<Rightarrow> (0, False)
      | Some f \<Rightarrow>
          if f AND IR_PROTOCOL_MASK \<noteq> 0 \<and> acc AND IR_PROTOCOL_MASK \<noteq> 0 then (0, False)
          else parse_flag_list (acc OR f) ts)"

definition parseFlags :: "string \<Rightarrow> u32 \<times> bool" where
  "parseFlags val = parse_flag_list 0 (split_on CHR ''|'' val)"

section \<open>The definitions of a remote\<close>

text \<open>The number of arguments that were used (0 for an error), the remote, and whether parsing
  goes on.\<close>

type_synonym def_result = "int \<times> ir_remote \<times> bool"

definition set_one :: "(ir_remote \<Rightarrow> 'a \<Rightarrow> ir_remote) \<Rightarrow> ir_remote \<Rightarrow> 'a \<times> bool \<Rightarrow> def_result" where
  "set_one f r v = (1, f r (fst v), snd v)"

definition set_two ::
  "(ir_remote \<Rightarrow> lirc_t \<Rightarrow> lirc_t \<Rightarrow> ir_remote) \<Rightarrow> ir_remote \<Rightarrow> string \<Rightarrow> string \<Rightarrow> def_result" where
  "set_two f r a b =
     (2, f r (fst (s_strtolirc_t a)) (fst (s_strtolirc_t b)),
      snd (s_strtolirc_t a) \<and> snd (s_strtolirc_t b))"

definition define_gap :: "string \<Rightarrow> string option \<Rightarrow> ir_remote \<Rightarrow> def_result" where
  "define_gap val val2 r =
     (case val2 of
        None \<Rightarrow> (1, r\<lparr>gap := fst (s_strtou32 val)\<rparr>, snd (s_strtou32 val))
      | Some v2 \<Rightarrow>
          (2, r\<lparr>gap2 := fst (s_strtou32 v2), gap := fst (s_strtou32 val)\<rparr>,
           snd (s_strtou32 v2) \<and> snd (s_strtou32 val)))"

text \<open>\<open>serial_mode\<close>: data bits, parity letter, stop bits, e.g. \<open>8N1\<close>. Reading behind the end of a
  one letter value meets the terminating zero.\<close>

definition parity_of :: "string \<Rightarrow> u32 option" where
  "parity_of t =
     (case t of
        [] \<Rightarrow> None
      | c # _ \<Rightarrow>
          let l = tolower c
          in if l = CHR ''n'' then Some IR_PARITY_NONE
             else if l = CHR ''e'' then Some IR_PARITY_EVEN
             else if l = CHR ''o'' then Some IR_PARITY_ODD
             else None)"

definition define_serial_mode :: "string \<Rightarrow> ir_remote \<Rightarrow> def_result" where
  "define_serial_mode val r =
     (case val of
        [] \<Rightarrow> (0, r, False)
      | c # t \<Rightarrow>
          let n = of_char c :: nat
          in if n < 53 \<or> n > 57 then (0, r, False)
             else
               let r = r\<lparr>bits_in_byte := of_nat (n - 48)\<rparr>
               in case parity_of t of
                    None \<Rightarrow> (0, r, False)
                  | Some p \<Rightarrow>
                      let r = r\<lparr>parity := p\<rparr>
                      in if drop 1 t = ''1.5'' then (1, r\<lparr>stop_bits := 3\<rparr>, True)
                         else (1, r\<lparr>stop_bits := fst (s_strtoui (drop 1 t)) * 2\<rparr>,
                               snd (s_strtoui (drop 1 t))))"

definition define_pair :: "string \<Rightarrow> string \<Rightarrow> string option \<Rightarrow> ir_remote \<Rightarrow> def_result" where
  "define_pair key a val2 r =
     (case val2 of
        None \<Rightarrow> (0, r, False)
      | Some b \<Rightarrow>
          if strcaseeq ''header'' key then set_two (\<lambda>r x y. r\<lparr>phead := x, shead := y\<rparr>) r a b
          else if strcaseeq ''three'' key then set_two (\<lambda>r x y. r\<lparr>pthree := x, sthree := y\<rparr>) r a b
          else if strcaseeq ''two'' key then set_two (\<lambda>r x y. r\<lparr>ptwo := x, stwo := y\<rparr>) r a b
          else if strcaseeq ''one'' key then set_two (\<lambda>r x y. r\<lparr>pone := x, sone := y\<rparr>) r a b
          else if strcaseeq ''zero'' key then set_two (\<lambda>r x y. r\<lparr>pzero := x, szero := y\<rparr>) r a b
          else if strcaseeq ''foot'' key then set_two (\<lambda>r x y. r\<lparr>pfoot := x, sfoot := y\<rparr>) r a b
          else if strcaseeq ''repeat'' key then set_two (\<lambda>r x y. r\<lparr>prepeat := x, srepeat := y\<rparr>) r a b
          else if strcaseeq ''pre'' key then set_two (\<lambda>r x y. r\<lparr>pre_p := x, pre_s := y\<rparr>) r a b
          else if strcaseeq ''post'' key then set_two (\<lambda>r x y. r\<lparr>post_p := x, post_s := y\<rparr>) r a b
          else (0, r, False))"

definition defineRemote :: "string \<Rightarrow> string \<Rightarrow> string option \<Rightarrow> ir_remote \<Rightarrow> def_result" where
  "defineRemote key val val2 r =
     (if strcaseeq ''name'' key then (1, r\<lparr>name := val\<rparr>, True)
      else if strcaseeq ''bits'' key then set_one (\<lambda>r x. r\<lparr>bits := x\<rparr>) r (s_strtoi val)
      else if strcaseeq ''flags'' key then set_one (\<lambda>r x. r\<lparr>flags := flags r OR x\<rparr>) r (parseFlags val)
      else if strcaseeq ''eps'' key then set_one (\<lambda>r x. r\<lparr>eps := x\<rparr>) r (s_strtoi val)
      else if strcaseeq ''aeps'' key then set_one (\<lambda>r x. r\<lparr>aeps := x\<rparr>) r (s_strtoi val)
      else if strcaseeq ''plead'' key then set_one (\<lambda>r x. r\<lparr>plead := x\<rparr>) r (s_strtolirc_t val)
      else if strcaseeq ''ptrail'' key then set_one (\<lambda>r x. r\<lparr>ptrail := x\<rparr>) r (s_strtolirc_t val)
      else if strcaseeq ''pre_data_bits'' key then set_one (\<lambda>r x. r\<lparr>pre_data_bits := x\<rparr>) r (s_strtoi val)
      else if strcaseeq ''pre_data'' key then set_one (\<lambda>r x. r\<lparr>pre_data := x\<rparr>) r (s_strtocode val)
      else if strcaseeq ''post_data_bits'' key then set_one (\<lambda>r x. r\<lparr>post_data_bits := x\<rparr>) r (s_strtoi val)
      else if strcaseeq ''post_data'' key then set_one (\<lambda>r x. r\<lparr>post_data := x\<rparr>) r (s_strtocode val)
      else if strcaseeq ''gap'' key then define_gap val val2 r
      else if strcaseeq ''repeat_gap'' key then set_one (\<lambda>r x. r\<lparr>repeat_gap := x\<rparr>) r (s_strtou32 val)
      else if strcaseeq ''toggle_bit'' key then set_one (\<lambda>r x. r\<lparr>toggle_bit := x\<rparr>) r (s_strtoi val)
      else if strcaseeq ''toggle_bit_mask'' key then set_one (\<lambda>r x. r\<lparr>toggle_bit_mask := x\<rparr>) r (s_strtocode val)
      else if strcaseeq ''toggle_mask'' key then set_one (\<lambda>r x. r\<lparr>toggle_mask := x\<rparr>) r (s_strtocode val)
      else if strcaseeq ''rc6_mask'' key then set_one (\<lambda>r x. r\<lparr>rc6_mask := x\<rparr>) r (s_strtocode val)
      else if strcaseeq ''ignore_mask'' key then set_one (\<lambda>r x. r\<lparr>ignore_mask := x\<rparr>) r (s_strtocode val)
      else if strcaseeq ''repeat_bit'' key then set_one (\<lambda>r x. r\<lparr>toggle_bit := x\<rparr>) r (s_strtoi val)
      else if strcaseeq ''suppress_repeat'' key then set_one (\<lambda>r x. r\<lparr>suppress_repeat := x\<rparr>) r (s_strtoi val)
      else if strcaseeq ''min_repeat'' key then set_one (\<lambda>r x. r\<lparr>min_repeat := x\<rparr>) r (s_strtoi val)
      else if strcaseeq ''min_code_repeat'' key
      then set_one (\<lambda>r x. r\<lparr>min_code_repeat := word_of_int x\<rparr>) r (s_strtoi val)
      else if strcaseeq ''frequency'' key then set_one (\<lambda>r x. r\<lparr>freq := x\<rparr>) r (s_strtoui val)
      else if strcaseeq ''duty_cycle'' key then set_one (\<lambda>r x. r\<lparr>duty_cycle := x\<rparr>) r (s_strtoui val)
      else if strcaseeq ''baud'' key then set_one (\<lambda>r x. r\<lparr>baud := x\<rparr>) r (s_strtoui val)
      else if strcaseeq ''serial_mode'' key then define_serial_mode val r
      else define_pair key val val2 r)"

end
