(* ===== verification/ConfigRead.thy ===== *)
theory ConfigRead
  imports ConfigFile
begin

text \<open>
  \<open>daemons/config_file.c\<close>: the state machine that reads a configuration file, the work on the
  remotes that were read, and the measurement of their signals.

  The list that starts at \<open>top_rem\<close> is \<open>p_remotes\<close>; \<open>rem\<close> is the index \<open>p_cur\<close>, and NULL when the
  list is empty. Assigning \<open>rem->next\<close> cuts the list behind \<open>p_cur\<close>. The growing arrays are lists.
  The files that \<open>fopen\<close> can open are a parameter, a map from paths to contents. The outer
  result \<open>None\<close> is a NULL pointer that is dereferenced; the inner one is \<open>(void *) -1\<close>.
\<close>

section \<open>Checks and order\<close>

definition mask_code :: "ir_remote \<Rightarrow> ir_ncode \<Rightarrow> ir_ncode" where
  "mask_code r c = c\<lparr>nc_code := nc_code c AND gen_mask (bits r),
     nc_nodes := map (\<lambda>n. n AND gen_mask (bits r)) (nc_nodes c)\<rparr>"

definition sanityChecks :: "ir_remote \<Rightarrow> (bool \<times> ir_remote) option" where
  "sanityChecks r =
     (if name r = [] then Some (False, r)
      else if is_raw r then Some (True, r)
      else do { cs \<leftarrow> codes r;
                Some (True, r\<lparr>pre_data := pre_data r AND gen_mask (pre_data_bits r),
                              post_data := post_data r AND gen_mask (post_data_bits r),
                              codes := Some (map (mask_code r) cs)\<rparr>) })"

text \<open>Each remote goes behind all those with at most as many bits.\<close>

fun insert_by_bits :: "ir_remote \<Rightarrow> ir_remote list \<Rightarrow> ir_remote list" where
  "insert_by_bits r [] = [r]"
| "insert_by_bits r (x # xs) = (if bit_count x \<le> bit_count r then x # insert_by_bits r xs else r # x # xs)"

definition sort_by_bit_count :: "ir_remote list \<Rightarrow> ir_remote list" where
  "sort_by_bit_count rs = fold insert_by_bits rs []"

section \<open>Included files\<close>

definition lirc_parse_include :: "string \<Rightarrow> string option" where
  "lirc_parse_include s =
     (if length s < 2 then None
      else
        let t = rev (dropWhile is_blank (rev (tl s)))
        in if t = [] then None
           else if hd s = CHR 0x22 \<and> List.last t = CHR 0x22 \<or> hd s = CHR ''<'' \<and> List.last t = CHR ''>''
           then Some (butlast t) else None)"

definition FILENAME_MAX :: nat where [c_eval]: "FILENAME_MAX = 1024"

text \<open>\<open>dst_size\<close> is \<open>FILENAME_MAX + 1\<close>.\<close>

definition lirc_parse_relative :: "nat \<Rightarrow> string \<Rightarrow> string option \<Rightarrow> string option" where
  "lirc_parse_relative dst_size child current =
     (case current of
        None \<Rightarrow> Some child
      | Some cur \<Rightarrow>
          if child \<noteq> [] \<and> hd child = CHR ''/'' then Some child
          else if length cur \<ge> dst_size then None
          else
            let dir = dirname cur
            in if length dir + 1 + length child + 1 > dst_size then None
               else Some (dir @ ''/'' @ child))"

section \<open>The state of the parser\<close>

datatype directive = ID_none | ID_remote | ID_codes | ID_raw_codes | ID_raw_name

record parser =
  p_remotes :: "ir_remote list"
  p_cur :: nat
  p_mode :: directive
  p_codes :: "ir_ncode list"
  p_raw :: "ir_ncode list"
  p_raw_code :: ir_ncode
  p_signals :: "lirc_t list"
  p_error :: bool

definition parser0 :: parser where
  "parser0 = \<lparr>p_remotes = [], p_cur = 0, p_mode = ID_none, p_codes = [], p_raw = [],
     p_raw_code = ncode0, p_signals = [], p_error = False\<rparr>"

definition parse_fail :: "parser \<Rightarrow> parser" where
  "parse_fail s = s\<lparr>p_error := True\<rparr>"

definition cur_remote :: "parser \<Rightarrow> ir_remote option" where
  "cur_remote s = (if p_cur s < length (p_remotes s) then Some (p_remotes s ! p_cur s) else None)"

definition set_cur :: "ir_remote \<Rightarrow> parser \<Rightarrow> parser" where
  "set_cur r s = s\<lparr>p_remotes := (p_remotes s)[p_cur s := r]\<rparr>"

text \<open>\<open>rem->next = list; rem = rem->next\<close>, or the first remotes of the file.\<close>

definition append_remotes :: "ir_remote list \<Rightarrow> parser \<Rightarrow> parser" where
  "append_remotes rs s =
     (if p_remotes s = [] then s\<lparr>p_remotes := rs, p_cur := 0\<rparr>
      else s\<lparr>p_remotes := take (Suc (p_cur s)) (p_remotes s) @ rs,
             p_cur := (if rs = [] then p_cur s else Suc (p_cur s))\<rparr>)"

definition checkMode :: "directive \<Rightarrow> directive \<Rightarrow> bool" where
  "checkMode is_mode c_mode \<longleftrightarrow> is_mode = c_mode"

section \<open>Codes and signals\<close>

text \<open>Further codes of a button, up to a comment; an invalid one is stored as 0 and ends the
  loop.\<close>

fun define_nodes :: "string list \<Rightarrow> ir_code list \<times> bool" where
  "define_nodes [] = ([], True)"
| "define_nodes (t # ts) =
     (if t \<noteq> [] \<and> hd t = CHR ''#'' then ([], True)
      else
        let (c, ok) = s_strtocode t
        in if ok then (let (cs, ok) = define_nodes ts in (c # cs, ok)) else ([c], False))"

definition add_code_line :: "string \<Rightarrow> string list \<Rightarrow> parser \<Rightarrow> parser" where
  "add_code_line key vals s =
     (case vals of
        [] \<Rightarrow> s
      | val # rest \<Rightarrow>
          let (c, ok) = s_strtocode val;
              (ns, ok2) = (if ok then define_nodes rest else ([], True))
          in s\<lparr>p_codes := p_codes s @ [ncode0\<lparr>nc_name := key, nc_code := c, nc_nodes := ns\<rparr>],
               p_error := (p_error s \<or> \<not> ok \<or> \<not> ok2)\<rparr>)"

text \<open>\<open>addSignal\<close>: the unsigned value is stored in a \<open>lirc_t\<close>.\<close>

fun add_signals :: "string list \<Rightarrow> parser \<Rightarrow> parser" where
  "add_signals [] s = s"
| "add_signals (t # ts) s =
     (case s_strtoui t of (v, ok) \<Rightarrow>
        if ok then add_signals ts (s\<lparr>p_signals := p_signals s @ [sint v]\<rparr>) else parse_fail s)"

text \<open>A raw signal is complete: it has to have an odd number of lengths.\<close>

definition finish_raw :: "parser \<Rightarrow> parser" where
  "finish_raw s =
     s\<lparr>p_raw := p_raw s @ [(p_raw_code s)\<lparr>nc_signals := Some (p_signals s)\<rparr>],
       p_raw_code := (p_raw_code s)\<lparr>nc_signals := Some (p_signals s)\<rparr>,
       p_error := (p_error s \<or> even (length (p_signals s)))\<rparr>"

definition raw_line :: "string \<Rightarrow> string \<Rightarrow> string list \<Rightarrow> parser \<Rightarrow> parser" where
  "raw_line key val rest s =
     (if strcaseeq ''name'' key then
        let s = (if p_mode s = ID_raw_name then finish_raw s else s)
        in s\<lparr>p_raw_code := (p_raw_code s)\<lparr>nc_name := val, nc_code := nc_code (p_raw_code s) + 1\<rparr>,
             p_signals := [], p_mode := ID_raw_name\<rparr>
      else if p_mode s = ID_raw_codes then parse_fail s
      else add_signals (key # val # rest) s)"

section \<open>Sections\<close>

definition begin_line :: "string \<Rightarrow> string \<Rightarrow> string list \<Rightarrow> parser \<Rightarrow> parser option" where
  "begin_line key val rest s =
     (if strcaseeq ''codes'' val then
        (if \<not> checkMode (p_mode s) ID_remote then Some (parse_fail s)
         else do { r \<leftarrow> cur_remote s;
                   if codes r \<noteq> None then Some (parse_fail s)
                   else Some (s\<lparr>p_codes := [], p_mode := ID_codes\<rparr>) })
      else if strcaseeq ''raw_codes'' val then
        (if \<not> checkMode (p_mode s) ID_remote then Some (parse_fail s)
         else do { r \<leftarrow> cur_remote s;
                   if codes r \<noteq> None then Some (parse_fail s)
                   else Some ((set_cur (set_protocol r RAW_CODES) s)
                        \<lparr>p_raw_code := (p_raw_code s)\<lparr>nc_code := 0\<rparr>, p_raw := [], p_mode := ID_raw_codes\<rparr>) })
      else if strcaseeq ''remote'' val then
        (if \<not> checkMode (p_mode s) ID_none then Some (parse_fail s)
         else Some (append_remotes [remote0] (s\<lparr>p_mode := ID_remote\<rparr>)))
      else if p_mode s = ID_codes then Some (add_code_line key (val # rest) s)
      else Some (parse_fail s))"

definition end_line :: "string \<Rightarrow> string \<Rightarrow> string list \<Rightarrow> parser \<Rightarrow> parser option" where
  "end_line key val rest s =
     (if strcaseeq ''codes'' val then
        (if \<not> checkMode (p_mode s) ID_codes then Some (parse_fail s)
         else do { r \<leftarrow> cur_remote s;
                   Some ((set_cur (r\<lparr>codes := Some (p_codes s)\<rparr>) s)\<lparr>p_mode := ID_remote\<rparr>) })
      else if strcaseeq ''raw_codes'' val then
        (let s = (if p_mode s = ID_raw_name then (finish_raw s)\<lparr>p_mode := ID_raw_codes\<rparr> else s)
         in if \<not> checkMode (p_mode s) ID_raw_codes then Some (parse_fail s)
            else do { r \<leftarrow> cur_remote s;
                      Some ((set_cur (r\<lparr>codes := Some (p_raw s)\<rparr>) s)\<lparr>p_mode := ID_remote\<rparr>) })
      else if strcaseeq ''remote'' val then
        (if \<not> checkMode (p_mode s) ID_remote then Some (parse_fail s)
         else do { r \<leftarrow> cur_remote s;
                   (ok, r) \<leftarrow> sanityChecks r;
                   if \<not> ok then Some (parse_fail s)
                   else Some (s\<lparr>p_remotes := take (p_cur s) (p_remotes s) @ [r\<lparr>last_code := None\<rparr>],
                                p_mode := ID_none\<rparr>) })
      else if p_mode s = ID_codes then Some (add_code_line key (val # rest) s)
      else Some (parse_fail s))"


section \<open>Measuring the signals\<close>

record sig_lengths =
  min_signal :: lirc_t
  max_signal :: lirc_t
  max_pulse :: lirc_t
  max_space :: lirc_t
  first_sum :: bool

definition measure_samples :: "lirc_t list \<Rightarrow> sig_lengths \<Rightarrow> sig_lengths" where
  "measure_samples xs m =
     fold (\<lambda>(i, x) m. if odd i then (if x > max_space m then m\<lparr>max_space := x\<rparr> else m)
                      else (if x > max_pulse m then m\<lparr>max_pulse := x\<rparr> else m))
       (enumerate 0 xs) m"

definition measure_sum :: "lirc_t \<Rightarrow> sig_lengths \<Rightarrow> sig_lengths" where
  "measure_sum sm m =
     (if sm = 0 then m
      else m\<lparr>min_signal := (if first_sum m \<or> sm < min_signal m then sm else min_signal m),
             max_signal := (if first_sum m \<or> sm > max_signal m then sm else max_signal m),
             first_sum := False\<rparr>)"

text \<open>One dry run; \<open>init_sim\<close> works on the global \<open>send_buffer\<close>.\<close>

definition measure_run ::
  "ir_remote \<Rightarrow> ir_ncode \<Rightarrow> bool \<Rightarrow> sig_lengths \<times> sbuf \<Rightarrow> (sig_lengths \<times> sbuf) option" where
  "measure_run r c rep mb =
     (case mb of (m, b) \<Rightarrow>
        do { (ok, _, _, b) \<leftarrow> init_sim False r c rep b;
             if ok then do { xs \<leftarrow> buffer_samples b;
                             Some (measure_samples xs (measure_sum (ssum b) m), b) }
             else Some (m, b) })"

fun measure_runs ::
  "ir_remote \<Rightarrow> ir_ncode list \<Rightarrow> sig_lengths \<times> sbuf \<Rightarrow> (sig_lengths \<times> sbuf) option" where
  "measure_runs r [] mb = Some mb"
| "measure_runs r (c # cs) mb =
     do { mb \<leftarrow> measure_run r c False mb;
          mb \<leftarrow> measure_run r c True mb;
          measure_runs r cs mb }"

text \<open>Every code of every button, the further codes in place of the first.\<close>

definition all_codes :: "ir_ncode list \<Rightarrow> ir_ncode list" where
  "all_codes cs = concat (map (\<lambda>c. c # map (\<lambda>n. c\<lparr>nc_code := n\<rparr>) (nc_nodes c)) cs)"

definition signal_lengths_start :: "ir_remote \<Rightarrow> ir_remote" where
  "signal_lengths_start r =
     (if is_const r then r\<lparr>min_total_signal_length := min_gap r, max_total_signal_length := max_gap r\<rparr>
      else r\<lparr>min_gap_length := min_gap r, max_gap_length := max_gap r\<rparr>)"

definition set_signal_lengths :: "sig_lengths \<Rightarrow> ir_remote \<Rightarrow> ir_remote" where
  "set_signal_lengths m r =
     (if first_sum m then
        r\<lparr>min_total_signal_length := min_gap r, max_total_signal_length := max_gap r,
          min_gap_length := min_gap r, max_gap_length := max_gap r\<rparr>
      else if is_const r then
        r\<lparr>min_gap_length := (if min_total_signal_length r > max_signal m
                             then i32 (min_total_signal_length r - max_signal m) else 0),
          max_gap_length := (if max_total_signal_length r > min_signal m
                             then i32 (max_total_signal_length r - min_signal m) else 0)\<rparr>
      else
        r\<lparr>min_total_signal_length := i32 (min_signal m + min_gap_length r),
          max_total_signal_length := i32 (max_signal m + max_gap_length r)\<rparr>)"

definition sig_lengths0 :: sig_lengths where
  "sig_lengths0 = \<lparr>min_signal = 0, max_signal = 0, max_pulse = 0, max_space = 0, first_sum = True\<rparr>"

definition calculate_signal_lengths :: "ir_remote \<Rightarrow> sbuf \<Rightarrow> (ir_remote \<times> sbuf) option" where
  "calculate_signal_lengths r b =
     (let r = signal_lengths_start r
      in do { cs \<leftarrow> codes r;
              (m, b) \<leftarrow> measure_runs r (all_codes cs) (sig_lengths0, b);
              Some (set_signal_lengths m r, b) })"

section \<open>After reading\<close>

text \<open>The flag \<open>REVERSE\<close> is carried out once, on the data.\<close>

definition reverse_remote :: "ir_remote \<Rightarrow> ir_remote option" where
  "reverse_remote r =
     (if \<not> is_raw r \<and> flags r AND REVERSE \<noteq> 0 then
        do { cs \<leftarrow> codes r;
             Some (r\<lparr>pre_data := (if has_pre r then reverse (pre_data r) (pre_data_bits r) else pre_data r),
                     post_data := (if has_post r then reverse (post_data r) (post_data_bits r)
                                   else post_data r),
                     codes := Some (map (\<lambda>c. c\<lparr>nc_code := reverse (nc_code c) (bits r)\<rparr>) cs),
                     flags := (flags r AND NOT REVERSE) OR COMPAT_REVERSE\<rparr>) }
      else Some r)"

definition convert_toggle_bit :: "ir_remote \<Rightarrow> ir_remote" where
  "convert_toggle_bit r =
     (let mask = shl64 1 (i32 (bit_count r - toggle_bit r));
          r = (if flags r AND RC6 \<noteq> 0 \<and> rc6_mask r = 0 \<and> toggle_bit r > 0
               then r\<lparr>rc6_mask := mask\<rparr> else r)
      in if toggle_bit r > 0
         then r\<lparr>toggle_bit_mask := (if has_toggle_bit_mask r then toggle_bit_mask r else mask),
                toggle_bit := 0\<rparr>
         else r)"

definition start_toggle_state :: "ir_remote \<Rightarrow> ir_remote" where
  "start_toggle_state r =
     (if has_toggle_bit_mask r \<and> \<not> is_raw r then
        (case codes r of
           None \<Rightarrow> r
         | Some cs \<Rightarrow>
             let st = (case cs of [] \<Rightarrow> 0 | c # _ \<Rightarrow> nc_code c) AND toggle_bit_mask r
             in r\<lparr>toggle_bit_mask_state := (if st \<noteq> 0 then xor st (toggle_bit_mask r) else st)\<rparr>)
      else r)"

definition serial_defaults :: "ir_remote \<Rightarrow> ir_remote" where
  "serial_defaults r =
     (if is_serial r then
        let base = sint (1000000 div baud r);
            r = (if baud r > 0 \<and> pzero r = 0 \<and> szero r = 0 then r\<lparr>pzero := base\<rparr> else r);
            r = (if baud r > 0 \<and> pone r = 0 \<and> sone r = 0 then r\<lparr>sone := base\<rparr> else r)
        in if bits_in_byte r = 0 then r\<lparr>bits_in_byte := 8\<rparr> else r
      else r)"

definition check_min_code_repeat :: "ir_remote \<Rightarrow> ir_remote" where
  "check_min_code_repeat r =
     (if min_code_repeat r > 0 \<and> (\<not> has_repeat r \<or> min_code_repeat r > word_of_int (min_repeat r))
      then r\<lparr>min_code_repeat := 0\<rparr> else r)"

definition finish_remote :: "ir_remote \<Rightarrow> sbuf \<Rightarrow> (ir_remote \<times> sbuf) option" where
  "finish_remote r b =
     do { r \<leftarrow> reverse_remote r;
          calculate_signal_lengths
            (check_min_code_repeat (serial_defaults (start_toggle_state (convert_toggle_bit r)))) b }"

fun finish_remotes :: "ir_remote list \<Rightarrow> sbuf \<Rightarrow> (ir_remote list \<times> sbuf) option" where
  "finish_remotes [] b = Some ([], b)"
| "finish_remotes (r # rs) b =
     do { (r, b) \<leftarrow> finish_remote r b; (rs, b) \<leftarrow> finish_remotes rs b; Some (r # rs, b) }"

section \<open>Reading a file\<close>

type_synonym read_result = "(ir_remote list option \<times> sbuf) option"

text \<open>\<open>include\<close>: the reader of the next depth is missing when too many files are nested.\<close>

definition include_line ::
  "(string \<Rightarrow> string \<Rightarrow> sbuf \<Rightarrow> read_result) option \<Rightarrow> (string \<Rightarrow> string option) \<Rightarrow> string option \<Rightarrow>
     string \<Rightarrow> parser \<Rightarrow> sbuf \<Rightarrow> (parser \<times> sbuf) option" where
  "include_line child files path val s b =
     (case child of
        None \<Rightarrow> Some (parse_fail s, b)
      | Some reader \<Rightarrow>
          (case lirc_parse_include val of
             None \<Rightarrow> Some (parse_fail s, b)
           | Some nm \<Rightarrow>
               (case lirc_parse_relative (FILENAME_MAX + 1) nm path of
                  None \<Rightarrow> Some (parse_fail s, b)
                | Some full \<Rightarrow>
                    (case files full of
                       None \<Rightarrow> Some (s, b)
                     | Some text \<Rightarrow>
                         do { (res, b) \<leftarrow> reader full text b;
                              (case res of
                                 None \<Rightarrow> Some (parse_fail s, b)
                               | Some rs \<Rightarrow> Some (append_remotes rs s, b)) }))))"

definition config_line ::
  "(string \<Rightarrow> string \<Rightarrow> sbuf \<Rightarrow> read_result) option \<Rightarrow> (string \<Rightarrow> string option) \<Rightarrow> string option \<Rightarrow>
     string list \<Rightarrow> parser \<Rightarrow> sbuf \<Rightarrow> (parser \<times> sbuf) option" where
  "config_line child files path toks s b =
     (case toks of
        [] \<Rightarrow> Some (s, b)
      | [key] \<Rightarrow> Some (if p_mode s = ID_raw_name then add_signals [key] s else parse_fail s, b)
      | key # val # rest \<Rightarrow>
          if strcaseeq ''include'' key then include_line child files path val s b
          else if strcaseeq ''begin'' key then map_option (\<lambda>s. (s, b)) (begin_line key val rest s)
          else if strcaseeq ''end'' key then map_option (\<lambda>s. (s, b)) (end_line key val rest s)
          else
            (case p_mode s of
               ID_none \<Rightarrow> Some (s, b)
             | ID_remote \<Rightarrow>
                 do { r \<leftarrow> cur_remote s;
                      let (argc, r, ok) = defineRemote key val (case rest of [] \<Rightarrow> None | v # _ \<Rightarrow> Some v) r
                      in Some ((set_cur r s)\<lparr>p_error := (p_error s \<or> \<not> ok)\<rparr>, b) }
             | ID_codes \<Rightarrow> Some (add_code_line key (val # rest) s, b)
             | _ \<Rightarrow> Some (raw_line key val rest s, b)))"

definition LINE_LEN :: nat where [c_eval]: "LINE_LEN = 1024"

text \<open>The end of line is removed; what \<open>fgets\<close> returns has at most \<open>LINE_LEN - 1\<close> characters.\<close>

definition line_too_long :: "string \<Rightarrow> bool" where
  "line_too_long l \<longleftrightarrow> length l = LINE_LEN \<and> List.last l \<noteq> CHR 0x0A"

definition strip_line :: "string \<Rightarrow> string" where
  "strip_line l =
     (let n = length l;
          l1 = (if n > 0 \<and> l ! (n - 1) = CHR 0x0A then take (n - 1) l else l)
      in if n > 1 \<and> l ! (n - 2) = CHR 0x0D then take (n - 2) l1 else l1)"

fun config_lines ::
  "(string \<Rightarrow> string \<Rightarrow> sbuf \<Rightarrow> read_result) option \<Rightarrow> (string \<Rightarrow> string option) \<Rightarrow> string option \<Rightarrow>
     string list \<Rightarrow> parser \<Rightarrow> sbuf \<Rightarrow> (parser \<times> sbuf) option" where
  "config_lines child files path [] s b = Some (s, b)"
| "config_lines child files path (l # ls) s b =
     (if line_too_long l then Some (parse_fail s, b)
      else
        let t = strip_line l
        in if t \<noteq> [] \<and> hd t = CHR ''#'' then config_lines child files path ls s b
           else do { (s, b) \<leftarrow> config_line child files path (blank_tokens t) s b;
                     if p_error s then Some (s, b) else config_lines child files path ls s b })"

text \<open>\<open>n\<close> is the number of further nested files that may be opened.\<close>

fun read_config_recursive ::
  "(string \<Rightarrow> string option) \<Rightarrow> nat \<Rightarrow> string option \<Rightarrow> string \<Rightarrow> sbuf \<Rightarrow> read_result" where
  "read_config_recursive files n path text b =
     do { (s, b) \<leftarrow> config_lines
            (case n of 0 \<Rightarrow> None | Suc m \<Rightarrow> Some (\<lambda>path text. read_config_recursive files m (Some path) text))
            files path (fgets_lines (LINE_LEN - 1) text) parser0 b;
          if p_error s \<or> p_mode s \<noteq> ID_none then Some (None, b)
          else do { (rs, b) \<leftarrow> finish_remotes (p_remotes s) b;
                    Some (Some (sort_by_bit_count rs), b) } }"

definition MAX_INCLUDES :: nat where [c_eval]: "MAX_INCLUDES = 10"

definition read_config ::
  "(string \<Rightarrow> string option) \<Rightarrow> string option \<Rightarrow> string \<Rightarrow> sbuf \<Rightarrow> read_result" where
  "read_config files path text b = read_config_recursive files (MAX_INCLUDES + 1) path text b"

end
