(* ===== verification/DumpConfig.thy ===== *)
theory DumpConfig
  imports ConfigRead
begin

text \<open>
  \<open>daemons/dump_config.c\<close>: a remote as the text of a configuration file. Each function returns
  the text it prints. \<open>fprint_comment\<close> prints the date and the version of the program, which are
  parameters.
\<close>

definition nl :: string where "nl = [CHR 0x0A]"

definition fprint_comment :: "string \<Rightarrow> string \<Rightarrow> string \<Rightarrow> ir_remote \<Rightarrow> string" where
  "fprint_comment version hw_name date r =
     ''#'' @ nl @
     ''# this config file was automatically generated'' @ nl @
     ''# using lirc-'' @ version @ ''('' @ hw_name @ '') on '' @ date @ ''#'' @ nl @
     ''# contributed by '' @ nl @ ''#'' @ nl @
     ''# brand:                       '' @ name r @ nl @
     ''# model no. of remote control: '' @ nl @
     ''# devices being controlled by this remote:'' @ nl @ ''#'' @ nl @ nl"

section \<open>Flags\<close>

text \<open>The names of the flags that are set; a flag is cleared when it has been printed.\<close>

fun flag_names :: "(string \<times> u32) list \<Rightarrow> u32 \<Rightarrow> string list" where
  "flag_names [] fl = []"
| "flag_names ((n, f) # fs) fl =
     (if fl AND f \<noteq> 0 then n # flag_names fs (fl AND NOT f) else flag_names fs fl)"

fun join_bar :: "string list \<Rightarrow> string" where
  "join_bar [] = ''''"
| "join_bar [t] = t"
| "join_bar (t # ts) = t @ ''|'' @ join_bar ts"

definition fprint_flags :: "u32 \<Rightarrow> string" where
  "fprint_flags fl =
     (case flag_names all_flags fl of
        [] \<Rightarrow> ''''
      | ts \<Rightarrow> ''  flags '' @ join_bar ts @ nl)"

section \<open>The head\<close>

definition print_if :: "bool \<Rightarrow> string \<Rightarrow> string" where
  "print_if c t = (if c then t else '''')"

text \<open>\<open>%5u\<close>, and a line with one or two of them.\<close>

definition print_len :: "lirc_t \<Rightarrow> string" where "print_len x = pad_left 5 (show_u32 x)"

definition print_two :: "string \<Rightarrow> lirc_t \<Rightarrow> lirc_t \<Rightarrow> string" where
  "print_two key x y = key @ print_len x @ '' '' @ print_len y @ nl"

definition print_one :: "string \<Rightarrow> lirc_t \<Rightarrow> string" where
  "print_one key x = key @ print_len x @ nl"

definition print_code :: "string \<Rightarrow> ir_code \<Rightarrow> string" where
  "print_code key c = key @ ''0x'' @ show_hex (uint c) @ nl"

definition print_int :: "string \<Rightarrow> int \<Rightarrow> string" where
  "print_int key i = key @ show_int i @ nl"

definition print_uint :: "string \<Rightarrow> u32 \<Rightarrow> string" where
  "print_uint key w = key @ show_dec (uint w) @ nl"

definition fprint_remote_gap :: "ir_remote \<Rightarrow> string" where
  "fprint_remote_gap r =
     (if gap2 r \<noteq> 0
      then ''  gap          '' @ show_dec (uint (gap r)) @ '' '' @ show_dec (uint (gap2 r)) @ nl
      else print_uint ''  gap          '' (gap r))"

text \<open>\<open>%d\<close> of the unsigned members \<open>baud\<close>, \<open>bits_in_byte\<close> and \<open>stop_bits\<close>.\<close>

definition fprint_serial :: "ir_remote \<Rightarrow> string" where
  "fprint_serial r =
     print_int ''  baud            '' (sint (baud r)) @
     ''  serial_mode     '' @ show_int (sint (bits_in_byte r)) @ ''N'' @
     show_int (sint (stop_bits r div 2)) @ print_if (stop_bits r mod 2 \<noteq> 0) ''.5'' @ nl"

definition head_lengths :: "ir_remote \<Rightarrow> string" where
  "head_lengths r =
     print_if (\<not> is_raw r)
       (print_if (has_header r) (print_two ''  header      '' (phead r) (shead r)) @
        print_if (pthree r \<noteq> 0 \<or> sthree r \<noteq> 0) (print_two ''  three       '' (pthree r) (sthree r)) @
        print_if (ptwo r \<noteq> 0 \<or> stwo r \<noteq> 0) (print_two ''  two         '' (ptwo r) (stwo r)) @
        print_two ''  one         '' (pone r) (sone r) @
        print_two ''  zero        '' (pzero r) (szero r)) @
     print_if (ptrail r \<noteq> 0) (print_one ''  ptrail      '' (ptrail r)) @
     print_if (\<not> is_raw r)
       (print_if (plead r \<noteq> 0) (print_one ''  plead       '' (plead r)) @
        print_if (has_foot r) (print_two ''  foot        '' (pfoot r) (sfoot r))) @
     print_if (has_repeat r) (print_two ''  repeat      '' (prepeat r) (srepeat r))"

definition head_data :: "ir_remote \<Rightarrow> string" where
  "head_data r =
     print_if (\<not> is_raw r)
       (print_if (pre_data_bits r > 0)
          (print_int ''  pre_data_bits   '' (pre_data_bits r) @
           print_code ''  pre_data       '' (pre_data r)) @
        print_if (post_data_bits r > 0)
          (print_int ''  post_data_bits  '' (post_data_bits r) @
           print_code ''  post_data      '' (post_data r)) @
        print_if (pre_p r \<noteq> 0 \<and> pre_s r \<noteq> 0) (print_two ''  pre         '' (pre_p r) (pre_s r)) @
        print_if (post_p r \<noteq> 0 \<and> post_s r \<noteq> 0) (print_two ''  post        '' (post_p r) (post_s r)))"

definition head_repeats :: "ir_remote \<Rightarrow> string" where
  "head_repeats r =
     fprint_remote_gap r @
     print_if (has_repeat_gap r) (print_uint ''  repeat_gap   '' (repeat_gap r)) @
     print_if (suppress_repeat r > 0) (print_int ''  suppress_repeat '' (suppress_repeat r)) @
     print_if (min_repeat r > 0)
       (print_int ''  min_repeat      '' (min_repeat r) @
        print_if (suppress_repeat r = 0)
          (print_int ''#  suppress_repeat '' (min_repeat r) @
           ''#  uncomment to suppress unwanted repeats'' @ nl))"

definition head_masks :: "ir_remote \<Rightarrow> string" where
  "head_masks r =
     print_if (\<not> is_raw r)
       (print_if (min_code_repeat r > 0) (print_int ''  min_code_repeat '' (sint (min_code_repeat r))) @
        print_code ''  toggle_bit_mask '' (toggle_bit_mask r) @
        print_if (has_toggle_mask r) (print_code ''  toggle_mask    '' (toggle_mask r)) @
        print_if (rc6_mask r \<noteq> 0) (print_code ''  rc6_mask    '' (rc6_mask r)) @
        print_if (has_ignore_mask r) (print_code ''  ignore_mask '' (ignore_mask r)) @
        print_if (is_serial r) (fprint_serial r)) @
     print_if (freq r \<noteq> 0) (print_uint ''  frequency    '' (freq r)) @
     print_if (duty_cycle r \<noteq> 0) (print_uint ''  duty_cycle   '' (duty_cycle r))"

definition fprint_remote_head :: "ir_remote \<Rightarrow> string" where
  "fprint_remote_head r =
     ''begin remote'' @ nl @ nl @
     ''  name  '' @ name r @ nl @
     print_if (\<not> is_raw r) (''  bits        '' @ pad_left 5 (show_int (bits r)) @ nl) @
     fprint_flags (flags r) @
     ''  eps         '' @ pad_left 5 (show_int (eps r)) @ nl @
     ''  aeps        '' @ pad_left 5 (show_int (aeps r)) @ nl @ nl @
     head_lengths r @ head_data r @ head_repeats r @ head_masks r @ nl"

section \<open>The buttons\<close>

definition fprint_remote_foot :: string where
  "fprint_remote_foot = ''end remote'' @ nl"

definition fprint_remote_signal_head :: "ir_remote \<Rightarrow> string" where
  "fprint_remote_signal_head r =
     (if \<not> is_raw r then ''      begin codes'' @ nl else ''      begin raw_codes'' @ nl @ nl)"

definition fprint_remote_signal_foot :: "ir_remote \<Rightarrow> string" where
  "fprint_remote_signal_foot r =
     (if \<not> is_raw r then ''      end codes'' @ nl @ nl else ''      end raw_codes'' @ nl @ nl)"

text \<open>\<open>0x%0*llX\<close>\<close>

definition print_padded_code :: "int \<Rightarrow> ir_code \<Rightarrow> string" where
  "print_padded_code w c = ''0x'' @ pad_zero (nat w) (show_hex (uint c))"

text \<open>The lengths of a raw signal, six in a line. The second result is the column.\<close>

fun print_raw_lengths :: "nat \<Rightarrow> lirc_t list \<Rightarrow> string \<times> nat" where
  "print_raw_lengths j [] = ('''', j)"
| "print_raw_lengths j (x # xs) =
     (let t = pad_left 7 (show_u32 x);
          (rest, k) = print_raw_lengths (if j < 5 then Suc j else 0) xs
      in ((if j = 0 then ''          '' @ t else if j < 5 then '' '' @ t else '' '' @ t @ nl) @ rest, k))"

definition fprint_remote_signal :: "ir_remote \<Rightarrow> ir_ncode \<Rightarrow> string" where
  "fprint_remote_signal r c =
     (if \<not> is_raw r then
        ''          '' @ pad_right 24 (nc_name c) @ '' '' @
        print_padded_code (i32 (bits r + 3) sdiv 4) (nc_code c) @
        concat (map (\<lambda>n. '' '' @ print_padded_code (i32 (bits r + 3) sdiv 4) n) (nc_nodes c)) @ nl
      else
        (let (t, j) = print_raw_lengths 0 (case nc_signals c of None \<Rightarrow> [] | Some xs \<Rightarrow> xs)
         in ''          name '' @ nc_name c @ nl @ t @ (if j = 0 then nl else nl @ nl)))"

text \<open>A remote without codes faults.\<close>

definition fprint_remote_signals :: "ir_remote \<Rightarrow> string option" where
  "fprint_remote_signals r =
     do { cs \<leftarrow> codes r;
          Some (fprint_remote_signal_head r @ concat (map (fprint_remote_signal r) cs) @
                fprint_remote_signal_foot r) }"

definition fprint_remote :: "string \<Rightarrow> string \<Rightarrow> string \<Rightarrow> ir_remote \<Rightarrow> string option" where
  "fprint_remote version hw_name date r =
     do { t \<leftarrow> fprint_remote_signals r;
          Some (fprint_comment version hw_name date r @ fprint_remote_head r @ t @ fprint_remote_foot) }"

fun fprint_remotes :: "string \<Rightarrow> string \<Rightarrow> string \<Rightarrow> ir_remote list \<Rightarrow> string option" where
  "fprint_remotes version hw_name date [] = Some ''''"
| "fprint_remotes version hw_name date (r # rs) =
     do { t \<leftarrow> fprint_remote version hw_name date r;
          ts \<leftarrow> fprint_remotes version hw_name date rs;
          Some (t @ nl @ nl @ ts) }"

end
