(* ===== verification/TextFacts.thy ===== *)
theory TextFacts
  imports DumpConfig Demo
begin

text \<open>
  What is printed can be read back: digits, numbers, tokens, lines.
\<close>

section \<open>Digits\<close>

lemma all_lt_16: "0 \<le> d \<Longrightarrow> d < 16 \<Longrightarrow> d \<in> {0, 1, 2, 3, 4, 5, 6, 7, 8, 9, 10, 11, 12, 13, 14, 15 :: int}"
  by simp presburger

lemma digit_val_upper: "0 \<le> d \<Longrightarrow> d < 16 \<Longrightarrow> digit_val (''0123456789ABCDEF'' ! nat d) = Some d"
  by (drule (1) all_lt_16) (elim insertE emptyE; simp add: digit_val_def Let_def)

lemma digit_val_lower: "0 \<le> d \<Longrightarrow> d < 16 \<Longrightarrow> digit_val (hex_digit (nat d)) = Some d"
  unfolding hex_digit_def
  by (drule (1) all_lt_16) (elim insertE emptyE; simp add: digit_val_def Let_def)

lemma digits_value_snoc:
  "digits_value base (xs @ [c]) =
     digits_value base xs * base + (case digit_val c of None \<Rightarrow> 0 | Some d \<Rightarrow> d)"
  by (simp add: digits_value_def)

lemma digits_value_zeros: "digits_value base (replicate k CHR ''0'' @ xs) = digits_value base xs"
proof -
  have "fold (\<lambda>c n. n * base + (case digit_val c of None \<Rightarrow> 0 | Some d \<Rightarrow> d)) (replicate k CHR ''0'') 0 = 0"
    by (induction k) (simp_all add: digit_val_def)
  then show ?thesis by (simp add: digits_value_def)
qed

lemma int_div_less: "0 < b \<Longrightarrow> n < b * p \<Longrightarrow> n div b < (p :: int)"
proof (rule ccontr)
  assume b: "0 < b" "n < b * p" and "\<not> n div b < p"
  then have "b * p \<le> b * (n div b)" by (intro mult_left_mono) auto
  also have "\<dots> \<le> n" using pos_mod_sign [OF b(1), of n] by (simp add: minus_mod_eq_mult_div [symmetric])
  finally show False using b(2) by simp
qed

lemma digits_of_value:
  assumes "2 \<le> base" "base \<le> 16"
  shows "0 \<le> n \<Longrightarrow> n < base ^ k \<Longrightarrow> digits_value base (digits_of k base n) = n \<and>
    list_all (is_digit base) (digits_of k base n)"
proof (induction k arbitrary: n)
  case (Suc k)
  show ?case
  proof (cases "n < base")
    case True
    then show ?thesis
      using Suc.prems assms by (simp add: digits_value_def is_digit_def digit_val_upper)
  next
    case False
    have m: "0 \<le> n mod base" "n mod base < base" "n mod base < 16"
      using assms pos_mod_bound [of base n] pos_mod_sign [of base n] by linarith+
    have "n div base < base ^ k"
      using Suc.prems assms by (intro int_div_less) auto
    moreover have "0 \<le> n div base" using Suc.prems assms by (simp add: pos_imp_zdiv_nonneg_iff)
    ultimately have "digits_value base (digits_of k base (n div base)) = n div base"
      "list_all (is_digit base) (digits_of k base (n div base))"
      using Suc.IH by blast+
    moreover have "is_digit base (''0123456789ABCDEF'' ! nat (n mod base))"
      using m by (simp add: is_digit_def digit_val_upper)
    ultimately show ?thesis
      using False m by (simp add: digits_value_snoc digit_val_upper)
  qed
qed (simp add: digits_value_def)

lemma digits_of_head:
  assumes "2 \<le> base" "base \<le> 16"
  shows "0 < n \<Longrightarrow> n < base ^ k \<Longrightarrow> \<exists>c cs. digits_of k base n = c # cs \<and> c \<noteq> CHR ''0''"
proof (induction k arbitrary: n)
  case (Suc k)
  show ?case
  proof (cases "n < base")
    case True
    then have "''0123456789ABCDEF'' ! nat n \<noteq> CHR ''0''"
      using digit_val_upper [of n] Suc.prems assms by (auto simp: digit_val_def)
    then show ?thesis using True by simp
  next
    case False
    have "n div base < base ^ k"
      using Suc.prems assms by (intro int_div_less) auto
    moreover have "0 < n div base" using False assms by (simp add: pos_imp_zdiv_pos_iff)
    ultimately obtain c cs where "digits_of k base (n div base) = c # cs" "c \<noteq> CHR ''0''"
      using Suc.IH by blast
    then show ?thesis using False by simp
  qed
qed simp

lemma hex_int_value: "0 \<le> n \<Longrightarrow> digits_value 16 (hex_int n) = n"
proof (induction n rule: hex_int.induct)
  case (1 n)
  show ?case
  proof (cases "n < 16")
    case True
    then show ?thesis
      using 1(2) by (simp add: hex_int.simps [of n] digits_value_def digit_val_lower)
  next
    case False
    then have "digits_value 16 (hex_int (n div 16)) = n div 16" using 1 by simp
    then show ?thesis using False by (simp add: hex_int.simps [of n] digits_value_snoc digit_val_lower)
  qed
qed

lemma hex_int_length: "0 \<le> n \<Longrightarrow> n < 16 ^ Suc k \<Longrightarrow> length (hex_int n) \<le> Suc k"
proof (induction k arbitrary: n)
  case 0
  then show ?case by (simp add: hex_int.simps [of n])
next
  case (Suc k)
  then have "n \<ge> 16 \<Longrightarrow> length (hex_int (n div 16)) \<le> Suc k"
    by (intro Suc.IH) auto
  then show ?case by (auto simp: hex_int.simps [of n])
qed

section \<open>Numbers\<close>

lemma is_digit_chars:
  assumes "is_digit base c" "base \<le> 16"
  shows "\<not> is_space_char c" "c \<noteq> CHR ''-''" "c \<noteq> CHR ''+''" "\<not> is_blank c" "c \<noteq> CHR 0x0A" "c \<noteq> CHR 0x0D"
    "c \<noteq> CHR ''#''" "c \<noteq> CHR ''x''"
  using assms by (auto simp: is_digit_def digit_val_def is_space_char_def is_blank_def Let_def split: if_splits)

lemma takeWhile_digits: "list_all P xs \<Longrightarrow> takeWhile P xs = xs"
  by (induction xs) auto

lemma scan_number_digits:
  assumes d: "list_all (is_digit base) ds" "ds \<noteq> []" and b: "number_base ds = (base, ds)" "base \<le> 16"
  shows "scan_number ds = \<lparr>num_neg = False, num_abs = digits_value base ds, num_rest = []\<rparr>"
    "scan_number (CHR ''-'' # ds) = \<lparr>num_neg = True, num_abs = digits_value base ds, num_rest = []\<rparr>"
proof -
  obtain c cs where c: "ds = c # cs" using d(2) by (cases ds) auto
  have n: "\<not> is_space_char c" "c \<noteq> CHR ''-''" "c \<noteq> CHR ''+''"
    using is_digit_chars [of base c] d(1) b(2) c by auto
  have "\<not> is_space_char CHR ''-''" by (simp add: is_space_char_def)
  then show "scan_number ds = \<lparr>num_neg = False, num_abs = digits_value base ds, num_rest = []\<rparr>"
    "scan_number (CHR ''-'' # ds) = \<lparr>num_neg = True, num_abs = digits_value base ds, num_rest = []\<rparr>"
    using n b(1) c takeWhile_digits [OF d(1)]
    by (simp_all add: scan_number_def number_sign_def)
qed

lemma pow_le: "(18446744073709551616 :: int) \<le> 10 ^ 64" "(18446744073709551616 :: int) \<le> 16 ^ 64"
  by simp_all

lemma number_base_nonzero: "c \<noteq> CHR ''0'' \<Longrightarrow> number_base (c # cs) = (10, c # cs)"
  by (cases c) (auto simp: number_base_def split: list.splits bool.splits)

lemma show_dec_digits:
  assumes "0 \<le> n" "n < 18446744073709551616"
  shows "list_all (is_digit 10) (show_dec n)" "show_dec n \<noteq> []" "digits_value 10 (show_dec n) = n"
    "n \<noteq> 0 \<Longrightarrow> number_base (show_dec n) = (10, show_dec n)" "show_dec 0 = ''0''"
proof -
  have l: "n < 10 ^ 64" using assms(2) pow_le(1) by (rule less_le_trans)
  show "list_all (is_digit 10) (show_dec n)" "digits_value 10 (show_dec n) = n"
    using digits_of_value [of 10 n 64] assms l by (simp_all add: show_dec_def)
  show z: "show_dec 0 = ''0''" by (simp add: show_dec_def numeral_eq_Suc)
  have "n \<noteq> 0 \<Longrightarrow> \<exists>c cs. show_dec n = c # cs \<and> c \<noteq> CHR ''0''"
    using digits_of_head [of 10 n 64] assms l by (simp add: show_dec_def)
  then show "show_dec n \<noteq> []" "n \<noteq> 0 \<Longrightarrow> number_base (show_dec n) = (10, show_dec n)"
    using z number_base_nonzero by (cases "n = 0"; force)+
qed

lemma scan_show_dec:
  assumes "0 \<le> n" "n < 18446744073709551616"
  shows "scan_number (show_dec n) = \<lparr>num_neg = False, num_abs = n, num_rest = []\<rparr>"
    "0 < n \<Longrightarrow> scan_number (CHR ''-'' # show_dec n) = \<lparr>num_neg = True, num_abs = n, num_rest = []\<rparr>"
proof -
  note d = show_dec_digits [OF assms]
  show "0 < n \<Longrightarrow> scan_number (CHR ''-'' # show_dec n) = \<lparr>num_neg = True, num_abs = n, num_rest = []\<rparr>"
    using scan_number_digits(2) [OF d(1,2)] d(3,4) by simp
  show "scan_number (show_dec n) = \<lparr>num_neg = False, num_abs = n, num_rest = []\<rparr>"
  proof (cases "n = 0")
    case True
    then show ?thesis
      by (simp add: d(5) scan_number_def is_space_char_def number_sign_def number_base_def is_digit_def
          digit_val_def digits_value_def)
  next
    case False
    then show ?thesis using scan_number_digits(1) [OF d(1,2)] d(3,4) by simp
  qed
qed

lemma scan_hex:
  assumes "list_all (is_digit 16) ds" "ds \<noteq> []"
  shows "scan_number (''0x'' @ ds) = \<lparr>num_neg = False, num_abs = digits_value 16 ds, num_rest = []\<rparr>"
proof -
  obtain c cs where c: "ds = c # cs" using assms(2) by (cases ds) auto
  then have tw: "takeWhile (is_digit 16) cs = cs" and d: "is_digit 16 c"
    using takeWhile_digits [of "is_digit 16" cs] assms(1) by auto
  show ?thesis
    by (simp add: c tw d scan_number_def number_sign_def number_base_def is_space_char_def)
qed

lemma show_hex_digits:
  assumes "0 \<le> n" "n < 18446744073709551616"
  shows "list_all (is_digit 16) (show_hex n)" "show_hex n \<noteq> []" "digits_value 16 (show_hex n) = n"
proof -
  have "n < 16 ^ 64" using assms(2) pow_le(2) by (rule less_le_trans)
  then show "list_all (is_digit 16) (show_hex n)" "digits_value 16 (show_hex n) = n"
    using digits_of_value [of 16 n 64] assms by (simp_all add: show_hex_def)
  show "show_hex n \<noteq> []" by (simp add: show_hex_def numeral_eq_Suc)
qed


lemma strtoull_value:
  assumes "scan_number t = \<lparr>num_neg = False, num_abs = n, num_rest = []\<rparr>" "n < 18446744073709551616"
  shows "strtoull t = (word_of_int n, [], False)"
  using assms by (simp add: strtoull_def Let_def)

lemma show_int_nonempty: "i32_range i \<Longrightarrow> show_int i \<noteq> []"
  using show_dec_digits(2) by (auto simp: show_int_def i32_range_def)

lemma s_strtoi_show [simp]:
  assumes "i32_range i"
  shows "s_strtoi (show_int i) = (i, True)"
proof -
  have s: "strtol (show_int i) = (i, [])"
  proof (cases "i < 0")
    case True
    then show ?thesis
      using scan_show_dec(2) [of "- i"] assms by (simp add: strtol_def show_int_def i32_range_def Let_def)
  next
    case False
    then show ?thesis
      using scan_show_dec(1) [of i] assms by (simp add: strtol_def show_int_def i32_range_def Let_def)
  qed
  then show ?thesis using assms show_int_nonempty [OF assms] by (simp add: s_strtoi_def)
qed

lemma uint64_bounds: "0 \<le> uint (w :: 64 word)" "uint (w :: 64 word) < 18446744073709551616"
  using uint_bounded [of w] by simp_all

lemma uint32_bounds: "0 \<le> uint (w :: u32)" "uint (w :: u32) < 4294967296" "uint (w :: u32) < 18446744073709551616"
  using uint_bounded [of w] by simp_all

lemma s_strtocode_show [simp]: "s_strtocode (''0x'' @ show_hex (uint c)) = (c, True)"
proof -
  have "strtoull (''0x'' @ show_hex (uint c)) = (c, [], False)"
    using strtoull_value [OF scan_hex] show_hex_digits uint64_bounds by simp
  then show ?thesis by (simp add: s_strtocode_def)
qed

lemma digit_zero: "is_digit 16 CHR ''0''"
  by (simp add: is_digit_def digit_val_def)

lemma s_strtocode_padded [simp]: "s_strtocode (print_padded_code w c) = (c, True)"
proof -
  let ?ds = "pad_zero (nat w) (show_hex (uint c))"
  have "list_all (is_digit 16) ?ds" "?ds \<noteq> []" "digits_value 16 ?ds = uint c"
    using show_hex_digits uint64_bounds digit_zero
    by (auto simp: pad_zero_def list_all_iff digits_value_zeros)
  then have "strtoull (''0x'' @ ?ds) = (c, [], False)"
    using strtoull_value [OF scan_hex] uint64_bounds(2) [of c] by simp
  then show ?thesis by (simp add: s_strtocode_def print_padded_code_def)
qed

lemma strtoull_dec: "strtoull (show_dec (uint (w :: u32))) = (ucast w, [], False)"
proof -
  have "strtoull (show_dec (uint w)) = (word_of_int (uint w), [], False)"
    using strtoull_value [OF scan_show_dec(1)] uint32_bounds by blast
  then show ?thesis by simp
qed

lemma ucast_back: "ucast (ucast (w :: u32) :: 64 word) = w"
  by (rule bit_word_eqI) (simp add: bit_ucast_iff)

lemma dec_nonempty: "show_dec (uint (w :: u32)) \<noteq> []"
  using show_dec_digits(2) uint32_bounds by blast

lemma s_strtou32_show [simp]: "s_strtou32 (show_dec (uint w)) = (w, True)"
  by (simp add: s_strtou32_def strtoull_dec ucast_back dec_nonempty)

lemma s_strtoui_show [simp]: "s_strtoui (show_dec (uint w)) = (w, True)"
  by (simp add: s_strtoui_def strtoull_dec ucast_back dec_nonempty)

lemma s_strtolirc_t_show [simp]:
  assumes "i32_range x"
  shows "s_strtolirc_t (show_u32 x) = (x, True)"
proof -
  have "sint (word_of_int x :: u32) = x" using assms i32_sint [of x] by simp
  then show ?thesis
    by (simp add: s_strtolirc_t_def show_u32_def strtoull_dec ucast_back dec_nonempty)
qed

section \<open>Tokens\<close>

definition token :: "string \<Rightarrow> bool" where
  "token w \<longleftrightarrow> w \<noteq> [] \<and> list_all (\<lambda>c. \<not> is_blank c \<and> c \<noteq> CHR 0x0A \<and> c \<noteq> CHR 0x0D \<and> c \<noteq> CHR 0x00) w"

lemma blank_tokens_Nil [simp]: "blank_tokens [] = []"
  by (simp add: blank_tokens.simps)

lemma blank_tokens_blank [simp]: "is_blank c \<Longrightarrow> blank_tokens (c # s) = blank_tokens s"
  by (subst (1 2) blank_tokens.simps) simp

lemma blank_tokens_spaces [simp]: "blank_tokens (replicate k CHR '' '' @ s) = blank_tokens s"
  by (induction k) (simp_all add: is_blank_def)

lemma token_split:
  assumes "token w"
  shows "dropWhile is_blank (w @ s) = w @ s" "takeWhile (\<lambda>c. \<not> is_blank c) (w @ s) = w @ takeWhile (\<lambda>c. \<not> is_blank c) s"
    "dropWhile (\<lambda>c. \<not> is_blank c) (w @ s) = dropWhile (\<lambda>c. \<not> is_blank c) s"
  using assms by (cases w; auto simp: token_def list_all_iff)+

lemma blank_tokens_token [simp]: "token w \<Longrightarrow> blank_tokens w = [w]"
proof -
  assume w: "token w"
  have "dropWhile is_blank w = w" "takeWhile (\<lambda>c. \<not> is_blank c) w = w" "dropWhile (\<lambda>c. \<not> is_blank c) w = []"
    "w \<noteq> []"
    using token_split [OF w, of "[]"] w by (simp_all only: append_Nil2 takeWhile.simps dropWhile.simps token_def simp_thms)
  then show ?thesis by (subst blank_tokens.simps) (simp only: Let_def if_False blank_tokens_Nil)
qed

lemma blank_tokens_next [simp]:
  assumes "token w"
  shows "blank_tokens (w @ CHR '' '' # s) = w # blank_tokens s"
proof -
  have "w \<noteq> []" using assms by (simp add: token_def)
  then show ?thesis
    using token_split [OF assms, of "CHR '' '' # s"]
    by (subst blank_tokens.simps) (simp add: is_blank_def)
qed

lemma token_digits: "list_all (is_digit base) ds \<Longrightarrow> ds \<noteq> [] \<Longrightarrow> base \<le> 16 \<Longrightarrow> token ds"
  using is_digit_chars [of base]
  by (auto simp: token_def list_all_iff) (force simp: is_digit_def digit_val_def)


section \<open>Messages\<close>

lemma hex_int_digits: "0 \<le> n \<Longrightarrow> list_all (is_digit 16) (hex_int n) \<and> hex_int n \<noteq> []"
proof (induction n rule: hex_int.induct)
  case (1 n)
  have "0 \<le> k \<Longrightarrow> k < 16 \<Longrightarrow> is_digit 16 (hex_digit (nat k))" for k
    by (simp add: is_digit_def digit_val_lower)
  then show ?case using 1 by (subst (1 2) hex_int.simps) auto
qed

lemma padded_hex:
  assumes "0 \<le> n"
  shows "token (pad_zero w (hex_int n))" "digits_value 16 (pad_zero w (hex_int n)) = n"
proof -
  show "token (pad_zero w (hex_int n))"
    using hex_int_digits [OF assms] digit_zero
    by (intro token_digits [of 16]) (auto simp: pad_zero_def list_all_iff)
  show "digits_value 16 (pad_zero w (hex_int n)) = n"
    using hex_int_value [OF assms] by (simp add: pad_zero_def digits_value_zeros)
qed

text \<open>C33: Clients can take a message apart: of names without blanks, it consists of four fields, the
  code as sixteen hexadecimal digits, the repeat count in hexadecimal, the button with its suffix and
  the remote, ended by a newline; the numbers are those that were sent.\<close>

theorem message_fields:
  assumes "token (b @ sfx)" "token rn" "length (message_text rn b sfx code rp) < buflen"
  shows "case write_message buflen rn b sfx code rp of (msg, n) \<Rightarrow>
    n = length msg \<and> last msg = CHR 0x0A \<and>
    (\<exists>c m. blank_tokens (butlast msg) = [c, m, b @ sfx, rn] \<and> length c = 16 \<and>
       digits_value 16 c = uint code \<and> digits_value 16 m = uint (word_of_int rp :: u32))"
proof -
  let ?c = "pad_zero 16 (hex_int (uint code))"
  let ?m = "pad_zero 2 (hex_int (uint (word_of_int rp :: u32)))"
  have t: "message_text rn b sfx code rp = (?c @ '' '' @ ?m @ '' '' @ b @ sfx @ '' '' @ rn) @ [CHR 0x0A]"
    by (simp add: message_text_def)
  have w: "write_message buflen rn b sfx code rp =
      (message_text rn b sfx code rp, length (message_text rn b sfx code rp))"
    using assms(3) by (simp add: write_message_def Let_def)
  have c: "token ?c" "token ?m" "digits_value 16 ?c = uint code"
    "digits_value 16 ?m = uint (word_of_int rp :: u32)"
    by (simp_all add: padded_hex)
  have "blank_tokens (?c @ CHR '' '' # (?m @ CHR '' '' # ((b @ sfx) @ CHR '' '' # rn))) = [?c, ?m, b @ sfx, rn]"
    using c(1,2) assms(1,2) by (simp only: blank_tokens_next blank_tokens_token)
  then have "blank_tokens (butlast (message_text rn b sfx code rp)) = [?c, ?m, b @ sfx, rn]"
    unfolding t butlast_snoc by simp
  moreover have "length (hex_int (uint code)) \<le> 16"
    using hex_int_length [of "uint code" 15] uint64_bounds [of code] by simp
  then have "length ?c = 16" by (simp add: pad_zero_def)
  moreover have "last (message_text rn b sfx code rp) = CHR 0x0A" unfolding t by (rule last_snoc)
  ultimately show ?thesis
    unfolding w prod.case using c(3,4) by (intro conjI exI [of _ ?c] exI [of _ ?m]) (rule refl | assumption)+
qed

lemma message_fields_witness:
  "\<exists>c m. blank_tokens (butlast (fst (write_message 257 ''TV'' ''MUTE'' ''_UP'' 0xC113 2))) =
     [c, m, ''MUTE_UP'', ''TV''] \<and> digits_value 16 c = 0xC113 \<and> digits_value 16 m = 2"
proof -
  have "token (''MUTE'' @ ''_UP'')" "token ''TV''" "length (message_text ''TV'' ''MUTE'' ''_UP'' 0xC113 2) < 257"
    by code_simp+
  from message_fields [OF this] show ?thesis by (auto split: prod.splits)
qed

end
