(* ===== verification/ConfigRoundTrip.thy ===== *)
theory ConfigRoundTrip
  imports TextFacts
begin

text \<open>
  What \<open>dump_config.c\<close> prints for a remote, \<open>config_file.c\<close> reads back as this remote. The proof
  follows the text line by line: \<open>reads ls s s'\<close> says that the lines \<open>ls\<close> take the parser from
  \<open>s\<close> to \<open>s'\<close>.
\<close>

section \<open>Lines\<close>

definition line_ok :: "string \<Rightarrow> bool" where
  "line_ok l \<longleftrightarrow> length l < 1000 \<and> list_all (\<lambda>c. c \<noteq> CHR 0x0A \<and> c \<noteq> CHR 0x0D \<and> c \<noteq> CHR 0x00) l"

definition lines_text :: "string list \<Rightarrow> string" where
  "lines_text ls = concat (map (\<lambda>l. l @ nl) ls)"

lemma lines_text_simps [simp]:
  "lines_text [] = []" "lines_text (l # ls) = l @ nl @ lines_text ls"
  "lines_text (ls @ ls') = lines_text ls @ lines_text ls'"
  by (simp_all add: lines_text_def)

lemma fgets_from_line:
  assumes "list_all (\<lambda>c. c \<noteq> CHR 0x0A) l" "length l < k"
  shows "fgets_from n k acc (l @ CHR 0x0A # rest) = (rev acc @ l @ nl) # fgets_from n n [] rest"
  using assms
proof (induction l arbitrary: k acc)
  case (Cons c l)
  then show ?case by (cases k) (auto simp: nl_def)
qed (simp add: nl_def)

lemma fgets_lines_text:
  assumes "list_all line_ok ls"
  shows "fgets_lines 1023 (lines_text ls) = map (\<lambda>l. l @ nl) ls"
proof -
  have "fgets_from 1023 1023 [] (lines_text ls) = map (\<lambda>l. l @ nl) ls"
    using assms
  proof (induction ls)
    case (Cons l ls)
    then have "list_all (\<lambda>c. c \<noteq> CHR 0x0A) l" "length l < 1023"
      by (auto simp: line_ok_def list_all_iff)
    then show ?case using Cons fgets_from_line [of l 1023 1023 "[]" "lines_text ls"] by (simp add: nl_def)
  qed simp
  moreover have "takeWhile (\<lambda>c. c \<noteq> CHR 0x00) (l @ nl) = l @ nl" if "l \<in> set ls" for l
    using assms that by (subst takeWhile_eq_all_conv) (auto simp: line_ok_def nl_def list_all_iff)
  ultimately show ?thesis by (simp add: fgets_lines_def)
qed

lemma strip_line_nl: "line_ok l \<Longrightarrow> strip_line (l @ nl) = l \<and> \<not> line_too_long (l @ nl)"
proof -
  assume l: "line_ok l"
  have "l ! (length l - 1) \<noteq> CHR 0x0D" if "l \<noteq> []"
    using l that by (auto simp: line_ok_def list_all_length)
  then show ?thesis
    using l by (auto simp: strip_line_def nl_def line_too_long_def nth_append line_ok_def LINE_LEN_def Let_def)
qed

section \<open>Reading lines\<close>

definition reads :: "string list \<Rightarrow> parser \<Rightarrow> parser \<Rightarrow> bool" where
  "reads ls s s' \<longleftrightarrow> list_all line_ok ls \<and>
     (\<forall>child files path rest b.
        config_lines child files path (map (\<lambda>l. l @ nl) ls @ rest) s b =
        config_lines child files path rest s' b)"

lemma reads_Nil [intro]: "reads [] s s"
  by (simp add: reads_def)

lemma reads_append: "reads ls s t \<Longrightarrow> reads ls' t u \<Longrightarrow> reads (ls @ ls') s u"
  by (simp add: reads_def)

lemma reads_skip:
  assumes "line_ok l" "blank_tokens l = [] \<or> l \<noteq> [] \<and> hd l = CHR ''#''" "\<not> p_error s"
  shows "reads [l] s s"
  using assms strip_line_nl [OF assms(1)]
  by (auto simp: reads_def Let_def config_line_def)

lemma reads_line:
  assumes "line_ok l" "l \<noteq> []" "hd l \<noteq> CHR ''#''" "\<not> p_error s'"
    and "\<And>child files path b. config_line child files path (blank_tokens l) s b = Some (s', b)"
  shows "reads [l] s s'"
  using assms strip_line_nl [OF assms(1)] by (simp add: reads_def)

text \<open>The parser inside a remote.\<close>

definition in_remote :: "ir_remote \<Rightarrow> parser" where
  "in_remote r = parser0\<lparr>p_remotes := [r], p_mode := ID_remote\<rparr>"

definition plain_key :: "string \<Rightarrow> bool" where
  "plain_key k \<longleftrightarrow> \<not> strcaseeq ''include'' k \<and> \<not> strcaseeq ''begin'' k \<and> \<not> strcaseeq ''end'' k"

lemma reads_definition:
  assumes "line_ok l" "l \<noteq> []" "hd l \<noteq> CHR ''#''" and t: "blank_tokens l = key # val # rest" "plain_key key"
    and d: "defineRemote key val (case rest of [] \<Rightarrow> None | v # _ \<Rightarrow> Some v) r = (n, r', True)"
  shows "reads [l] (in_remote r) (in_remote r')"
proof (rule reads_line [OF assms(1-3)])
  show "\<not> p_error (in_remote r')" by (simp add: in_remote_def parser0_def)
  show "config_line child files path (blank_tokens l) (in_remote r) b = Some (in_remote r', b)"
    for child files path b
    using t(2) d
    by (simp add: t(1) config_line_def plain_key_def in_remote_def parser0_def cur_remote_def set_cur_def)
qed

lemma reads_if: "(c \<Longrightarrow> reads ls s s') \<Longrightarrow> reads (if c then ls else []) s (if c then s' else s)"
  by (simp add: reads_Nil)

section \<open>The keys\<close>

lemmas key_eval = strcaseeq_def tolower_def Let_def plain_key_def

lemma define_value:
  "defineRemote ''name'' v v2 r = (1, r\<lparr>name := v\<rparr>, True)"
  "defineRemote ''bits'' v v2 r = set_one (\<lambda>r x. r\<lparr>bits := x\<rparr>) r (s_strtoi v)"
  "defineRemote ''flags'' v v2 r = set_one (\<lambda>r x. r\<lparr>flags := flags r OR x\<rparr>) r (parseFlags v)"
  "defineRemote ''eps'' v v2 r = set_one (\<lambda>r x. r\<lparr>eps := x\<rparr>) r (s_strtoi v)"
  "defineRemote ''aeps'' v v2 r = set_one (\<lambda>r x. r\<lparr>aeps := x\<rparr>) r (s_strtoi v)"
  "defineRemote ''plead'' v v2 r = set_one (\<lambda>r x. r\<lparr>plead := x\<rparr>) r (s_strtolirc_t v)"
  "defineRemote ''ptrail'' v v2 r = set_one (\<lambda>r x. r\<lparr>ptrail := x\<rparr>) r (s_strtolirc_t v)"
  "defineRemote ''pre_data_bits'' v v2 r = set_one (\<lambda>r x. r\<lparr>pre_data_bits := x\<rparr>) r (s_strtoi v)"
  "defineRemote ''pre_data'' v v2 r = set_one (\<lambda>r x. r\<lparr>pre_data := x\<rparr>) r (s_strtocode v)"
  "defineRemote ''post_data_bits'' v v2 r = set_one (\<lambda>r x. r\<lparr>post_data_bits := x\<rparr>) r (s_strtoi v)"
  "defineRemote ''post_data'' v v2 r = set_one (\<lambda>r x. r\<lparr>post_data := x\<rparr>) r (s_strtocode v)"
  by (simp_all add: defineRemote_def key_eval)

lemma define_value2:
  "defineRemote ''gap'' v v2 r = define_gap v v2 r"
  "defineRemote ''repeat_gap'' v v2 r = set_one (\<lambda>r x. r\<lparr>repeat_gap := x\<rparr>) r (s_strtou32 v)"
  "defineRemote ''toggle_bit_mask'' v v2 r = set_one (\<lambda>r x. r\<lparr>toggle_bit_mask := x\<rparr>) r (s_strtocode v)"
  "defineRemote ''toggle_mask'' v v2 r = set_one (\<lambda>r x. r\<lparr>toggle_mask := x\<rparr>) r (s_strtocode v)"
  "defineRemote ''rc6_mask'' v v2 r = set_one (\<lambda>r x. r\<lparr>rc6_mask := x\<rparr>) r (s_strtocode v)"
  "defineRemote ''ignore_mask'' v v2 r = set_one (\<lambda>r x. r\<lparr>ignore_mask := x\<rparr>) r (s_strtocode v)"
  "defineRemote ''suppress_repeat'' v v2 r = set_one (\<lambda>r x. r\<lparr>suppress_repeat := x\<rparr>) r (s_strtoi v)"
  "defineRemote ''min_repeat'' v v2 r = set_one (\<lambda>r x. r\<lparr>min_repeat := x\<rparr>) r (s_strtoi v)"
  "defineRemote ''min_code_repeat'' v v2 r =
     set_one (\<lambda>r x. r\<lparr>min_code_repeat := word_of_int x\<rparr>) r (s_strtoi v)"
  "defineRemote ''frequency'' v v2 r = set_one (\<lambda>r x. r\<lparr>freq := x\<rparr>) r (s_strtoui v)"
  "defineRemote ''duty_cycle'' v v2 r = set_one (\<lambda>r x. r\<lparr>duty_cycle := x\<rparr>) r (s_strtoui v)"
  by (simp_all add: defineRemote_def key_eval)

lemma define_pairs:
  "defineRemote ''header'' v (Some w) r = set_two (\<lambda>r x y. r\<lparr>phead := x, shead := y\<rparr>) r v w"
  "defineRemote ''three'' v (Some w) r = set_two (\<lambda>r x y. r\<lparr>pthree := x, sthree := y\<rparr>) r v w"
  "defineRemote ''two'' v (Some w) r = set_two (\<lambda>r x y. r\<lparr>ptwo := x, stwo := y\<rparr>) r v w"
  "defineRemote ''one'' v (Some w) r = set_two (\<lambda>r x y. r\<lparr>pone := x, sone := y\<rparr>) r v w"
  "defineRemote ''zero'' v (Some w) r = set_two (\<lambda>r x y. r\<lparr>pzero := x, szero := y\<rparr>) r v w"
  "defineRemote ''foot'' v (Some w) r = set_two (\<lambda>r x y. r\<lparr>pfoot := x, sfoot := y\<rparr>) r v w"
  "defineRemote ''repeat'' v (Some w) r = set_two (\<lambda>r x y. r\<lparr>prepeat := x, srepeat := y\<rparr>) r v w"
  "defineRemote ''pre'' v (Some w) r = set_two (\<lambda>r x y. r\<lparr>pre_p := x, pre_s := y\<rparr>) r v w"
  "defineRemote ''post'' v (Some w) r = set_two (\<lambda>r x y. r\<lparr>post_p := x, post_s := y\<rparr>) r v w"
  by (simp_all add: defineRemote_def define_pair_def key_eval)


section \<open>Printed values\<close>

definition chars_ok :: "string \<Rightarrow> bool" where
  "chars_ok l \<longleftrightarrow> list_all (\<lambda>c. c \<noteq> CHR 0x0A \<and> c \<noteq> CHR 0x0D \<and> c \<noteq> CHR 0x00) l"

lemma line_ok_chars: "line_ok l \<longleftrightarrow> length l < 1000 \<and> chars_ok l"
  by (simp add: line_ok_def chars_ok_def)

lemma chars_ok_simps [simp]:
  "chars_ok []" "chars_ok (c # l) \<longleftrightarrow> c \<noteq> CHR 0x0A \<and> c \<noteq> CHR 0x0D \<and> c \<noteq> CHR 0x00 \<and> chars_ok l"
  "chars_ok (l @ l') \<longleftrightarrow> chars_ok l \<and> chars_ok l'" "chars_ok (replicate k CHR '' '')"
  by (auto simp: chars_ok_def list_all_iff)

lemma token_chars: "token t \<Longrightarrow> chars_ok t"
  by (auto simp: token_def chars_ok_def list_all_iff)

text \<open>A token that is short enough to be printed in a line.\<close>

definition value_ok :: "string \<Rightarrow> bool" where
  "value_ok t \<longleftrightarrow> token t \<and> length t < 100"

lemma length_digits_of: "length (digits_of k base n) \<le> k"
  by (induction k arbitrary: n) (auto intro: le_SucI)

lemma token_Cons_minus: "token t \<Longrightarrow> token (CHR ''-'' # t)"
  by (simp add: token_def is_blank_def)

lemma value_ok_dec: "0 \<le> n \<Longrightarrow> n < 18446744073709551616 \<Longrightarrow> value_ok (show_dec n)"
  using show_dec_digits [of n] length_digits_of [of 64 10 n] token_digits [of 10 "show_dec n"]
  by (simp add: value_ok_def show_dec_def)

lemma value_ok_uint [simp]: "value_ok (show_dec (uint (w :: u32)))"
  by (rule value_ok_dec) (use uint32_bounds in auto)

lemma value_ok_u32 [simp]: "value_ok (show_u32 x)"
  by (simp add: show_u32_def)

lemma value_ok_int [simp]: "i32_range i \<Longrightarrow> value_ok (show_int i)"
  using value_ok_dec [of "- i"] value_ok_dec [of i] token_Cons_minus [of "show_dec (- i)"]
    length_digits_of [of 64 10 "- i"]
  by (auto simp: show_int_def value_ok_def i32_range_def show_dec_def)

lemma value_ok_hex [simp]: "value_ok (''0x'' @ show_hex (uint (c :: ir_code)))"
proof -
  have "token (show_hex (uint c))"
    using show_hex_digits [of "uint c"] uint64_bounds [of c] token_digits [of 16 "show_hex (uint c)"] by simp
  then have "token (''0x'' @ show_hex (uint c))" by (simp add: token_def is_blank_def)
  then show ?thesis using length_digits_of [of 64 16 "uint c"] by (simp add: value_ok_def show_hex_def)
qed

lemma value_pad:
  assumes "value_ok t"
  shows "blank_tokens (pad_left w t) = [t]" "chars_ok (pad_left w t)" "w < 100 \<Longrightarrow> length (pad_left w t) < 100"
    "value_ok t' \<Longrightarrow> blank_tokens (pad_left w t @ CHR '' '' # pad_left w' t') = [t, t']"
proof -
  show "blank_tokens (pad_left w t) = [t]" "chars_ok (pad_left w t)"
    "value_ok t' \<Longrightarrow> blank_tokens (pad_left w t @ CHR '' '' # pad_left w' t') = [t, t']"
    using assms by (simp_all add: value_ok_def pad_left_def token_chars)
  show "w < 100 \<Longrightarrow> length (pad_left w t) < 100" using assms by (auto simp: value_ok_def pad_left_def)
qed

section \<open>Lines with a key\<close>

lemma blank_tokens_key:
  "token k \<Longrightarrow> blank_tokens (replicate i CHR '' '' @ k @ CHR '' '' # replicate j CHR '' '' @ body) = k # blank_tokens body"
  by simp

definition key_text :: "string \<Rightarrow> nat \<Rightarrow> string" where
  "key_text k j = ''  '' @ k @ CHR '' '' # replicate j CHR '' ''"

definition key_ok :: "string \<Rightarrow> bool" where
  "key_ok k \<longleftrightarrow> token k \<and> plain_key k \<and> length k < 50"

lemma reads_key:
  assumes k: "key_ok k" "j < 50" and b: "blank_tokens body = val # rest" "chars_ok body" "length body < 500"
    and d: "defineRemote k val (case rest of [] \<Rightarrow> None | v # _ \<Rightarrow> Some v) r = (n, r', True)"
  shows "reads [key_text k j @ body] (in_remote r) (in_remote r')"
proof (rule reads_definition [OF _ _ _ _ _ d])
  have t: "token k" "plain_key k" "length k < 50" using k by (simp_all add: key_ok_def)
  then show "plain_key k" by simp
  have "key_text k j @ body = replicate 2 CHR '' '' @ k @ CHR '' '' # replicate j CHR '' '' @ body"
    by (simp add: key_text_def numeral_2_eq_2)
  then show "blank_tokens (key_text k j @ body) = k # val # rest"
    by (simp only: blank_tokens_key [OF t(1)] b(1))
  show "line_ok (key_text k j @ body)" "key_text k j @ body \<noteq> []" "hd (key_text k j @ body) \<noteq> CHR ''#''"
    using t(3) k(2) b token_chars [OF t(1)] by (simp_all add: key_text_def line_ok_chars)
qed

lemma reads_key_value:
  assumes "key_ok k" "j < 50" "value_ok t" "defineRemote k t None r = (n, r', True)"
  shows "reads [key_text k j @ t] (in_remote r) (in_remote r')"
    "w < 100 \<Longrightarrow> reads [key_text k j @ pad_left w t] (in_remote r) (in_remote r')"
proof -
  have t: "blank_tokens t = [t]" "chars_ok t" "length t < 500"
    using assms(3) by (simp_all add: value_ok_def token_chars)
  show "reads [key_text k j @ t] (in_remote r) (in_remote r')"
    by (rule reads_key [OF assms(1,2) t]) (use assms(4) in simp)
  show "w < 100 \<Longrightarrow> reads [key_text k j @ pad_left w t] (in_remote r) (in_remote r')"
    by (rule reads_key [OF assms(1,2) value_pad(1,2) [OF assms(3)]])
      (use assms(4) value_pad(3) [OF assms(3), of w] in simp_all)
qed

lemma reads_key_values:
  assumes "key_ok k" "j < 50" "value_ok t" "value_ok t'" "defineRemote k t (Some t') r = (n, r', True)" "w < 100" "w' < 100"
  shows "reads [key_text k j @ pad_left w t @ '' '' @ pad_left w' t'] (in_remote r) (in_remote r')"
proof (rule reads_key [OF assms(1,2)])
  show "blank_tokens (pad_left w t @ '' '' @ pad_left w' t') = t # [t']"
    using value_pad(4) [OF assms(3,4)] by simp
  show "chars_ok (pad_left w t @ '' '' @ pad_left w' t')" "length (pad_left w t @ '' '' @ pad_left w' t') < 500"
    using value_pad(2,3) [OF assms(3), of w] value_pad(2,3) [OF assms(4), of w'] assms(6,7) by simp_all
qed (use assms(5) in simp)

text \<open>The kinds of lines that \<open>fprint_remote_head\<close> prints.\<close>

lemma reads_two:
  assumes "key_ok k" "j < 50" "i32_range x" "i32_range y"
    "\<And>v w r. defineRemote k v (Some w) r = set_two f r v w"
  shows "reads [key_text k j @ print_len x @ '' '' @ print_len y] (in_remote r) (in_remote (f r x y))"
  unfolding print_len_def
  by (rule reads_key_values [OF assms(1,2) value_ok_u32 value_ok_u32])
    (use assms(3-5) in \<open>simp_all add: set_two_def\<close>)

lemma reads_one:
  assumes "key_ok k" "j < 50" "i32_range x" "\<And>v w r. defineRemote k v w r = set_one f r (s_strtolirc_t v)"
  shows "reads [key_text k j @ print_len x] (in_remote r) (in_remote (f r x))"
  unfolding print_len_def
  by (rule reads_key_value(2) [OF assms(1,2) value_ok_u32]) (use assms(3,4) in \<open>simp_all add: set_one_def\<close>)

lemma reads_code:
  assumes "key_ok k" "j < 50" "\<And>v w r. defineRemote k v w r = set_one f r (s_strtocode v)"
  shows "reads [key_text k j @ ''0x'' @ show_hex (uint c)] (in_remote r) (in_remote (f r c))"
  by (rule reads_key_value(1) [OF assms(1,2) value_ok_hex])
    (simp only: assms(3) set_one_def s_strtocode_show fst_conv snd_conv)

lemma reads_int:
  assumes "key_ok k" "j < 50" "i32_range i" "\<And>v w r. defineRemote k v w r = set_one f r (s_strtoi v)"
  shows "reads [key_text k j @ show_int i] (in_remote r) (in_remote (f r i))"
    "reads [key_text k j @ pad_left 5 (show_int i)] (in_remote r) (in_remote (f r i))"
  using reads_key_value [OF assms(1,2) value_ok_int [OF assms(3)]] assms(3,4) by (simp_all add: set_one_def)

lemma reads_uint:
  assumes "key_ok k" "j < 50" "\<And>v r. defineRemote k v None r = set_one f r (g v)"
    "\<And>w. g (show_dec (uint w)) = (w :: u32, True)"
  shows "reads [key_text k j @ show_dec (uint w)] (in_remote r) (in_remote (f r w))"
  by (rule reads_key_value(1) [OF assms(1,2) value_ok_uint]) (use assms(3,4) in \<open>simp add: set_one_def\<close>)


section \<open>Flags\<close>

text \<open>Known flags only, and at most one protocol.\<close>

definition flags_ok :: "u32 \<Rightarrow> bool" where
  "flags_ok fl \<longleftrightarrow> fl AND NOT 0xFFFF = 0 \<and>
     list_all (\<lambda>(n, f). f AND IR_PROTOCOL_MASK = 0 \<or> fl AND f = 0 \<or>
                        (fl AND NOT f) AND IR_PROTOCOL_MASK = 0) all_flags"

definition flag_entry :: "string \<times> u32 \<Rightarrow> bool" where
  "flag_entry nf \<longleftrightarrow> find_flag all_flags (fst nf) = Some (snd nf) \<and>
     list_all (\<lambda>c. c \<noteq> CHR ''|'') (fst nf) \<and> token (fst nf) \<and> length (fst nf) < 20"

lemma all_flags_found: "list_all (\<lambda>(n, f). find_flag all_flags n = Some f) all_flags"
  by (simp add: all_flags_def strcaseeq_def tolower_def)

lemma all_flags_names:
  "list_all (\<lambda>(n, f). list_all (\<lambda>c. c \<noteq> CHR ''|'') n \<and> token n \<and> length n < 20) all_flags"
  by (simp add: all_flags_def token_def is_blank_def)

lemma list_all_pairs:
  "list_all (\<lambda>(x, y). P x y) xs \<Longrightarrow> list_all (\<lambda>(x, y). Q x y) xs \<Longrightarrow>
   list_all (\<lambda>p. P (fst p) (snd p) \<and> Q (fst p) (snd p)) xs"
  by (induction xs) auto

lemma all_flags_entries: "list_all flag_entry all_flags"
  unfolding flag_entry_def by (rule list_all_pairs [OF all_flags_found all_flags_names])

lemma single_bit_and: "(fl :: u32) AND 2 ^ k \<noteq> 0 \<Longrightarrow> fl AND 2 ^ k = 2 ^ k"
  by (rule bit_word_eqI) (auto simp: bit_and_iff bit_exp_iff and_exp_eq_0_iff_not_bit)

definition single_bit :: "u32 \<Rightarrow> bool" where
  "single_bit f \<longleftrightarrow> list_ex (\<lambda>k. f = 2 ^ k) [0..<32]"

lemma all_flags_single: "list_all (\<lambda>(n, f). single_bit f) all_flags"
  by (simp add: single_bit_def all_flags_def flag_defs upt_rec)

lemma single_bit_absorb: "single_bit f \<Longrightarrow> fl AND f \<noteq> 0 \<Longrightarrow> fl AND f = f"
  using single_bit_and by (auto simp: single_bit_def list_ex_iff)

fun flag_union :: "(string \<times> u32) list \<Rightarrow> u32" where
  "flag_union [] = 0"
| "flag_union ((n, f) # fs) = f OR flag_union fs"

lemma or_and_step:
  assumes "fl AND f = (f :: u32)"
  shows "(acc OR f) OR ((fl AND NOT f) AND u) = acc OR (fl AND (f OR u))"
proof (rule bit_word_eqI)
  fix k
  have "bit f k \<Longrightarrow> bit fl k" using assms by (metis bit_and_iff)
  then show "bit ((acc OR f) OR ((fl AND NOT f) AND u)) k \<longleftrightarrow> bit (acc OR (fl AND (f OR u))) k"
    if "k < LENGTH(32)" using that by (auto simp: bit_or_iff bit_and_iff bit_not_iff)
qed

lemma and_swap: "((x :: u32) AND y) AND z = (x AND z) AND y"
  by (rule bit_word_eqI) (auto simp: bit_and_iff)

lemma and_zero_sub: "(x :: u32) AND y = 0 \<Longrightarrow> (x AND z) AND y = 0"
  unfolding and_swap [of x z y] by simp

lemma parse_flag_names:
  assumes "list_all flag_entry fs" "list_all (\<lambda>(n, f). single_bit f) fs"
    "list_all (\<lambda>(n, f). f AND IR_PROTOCOL_MASK = 0 \<or> fl AND f = 0 \<or>
        acc AND IR_PROTOCOL_MASK = 0 \<and> (fl AND NOT f) AND IR_PROTOCOL_MASK = 0) fs"
  shows "parse_flag_list acc (flag_names fs fl) = (acc OR (fl AND flag_union fs), True)"
  using assms
proof (induction fs arbitrary: acc fl)
  case Nil
  then show ?case by simp
next
  case (Cons nf fs)
  obtain n f where nf: "nf = (n, f)" by (cases nf)
  have e: "find_flag all_flags n = Some f" "single_bit f"
    "f AND IR_PROTOCOL_MASK = 0 \<or> fl AND f = 0 \<or>
        acc AND IR_PROTOCOL_MASK = 0 \<and> (fl AND NOT f) AND IR_PROTOCOL_MASK = 0"
    using Cons.prems nf by (auto simp: flag_entry_def)
  show ?case
  proof (cases "fl AND f = 0")
    case True
    then have "fl AND flag_union (nf # fs) = fl AND flag_union fs"
      by (simp add: nf bit.conj_disj_distrib)
    then show ?thesis using Cons True nf by simp
  next
    case False
    have ab: "fl AND f = f" by (rule single_bit_absorb [OF e(2) False])
    have "list_all (\<lambda>(n, g). g AND IR_PROTOCOL_MASK = 0 \<or> (fl AND NOT f) AND g = 0 \<or>
        (acc OR f) AND IR_PROTOCOL_MASK = 0 \<and> ((fl AND NOT f) AND NOT g) AND IR_PROTOCOL_MASK = 0) fs"
    proof -
      have "g AND IR_PROTOCOL_MASK = 0 \<or> (fl AND NOT f) AND g = 0 \<or>
        (acc OR f) AND IR_PROTOCOL_MASK = 0 \<and> ((fl AND NOT f) AND NOT g) AND IR_PROTOCOL_MASK = 0"
        if g: "(m, g) \<in> set fs" for m g
      proof (cases "f AND IR_PROTOCOL_MASK = 0")
        case True
        have "g AND IR_PROTOCOL_MASK = 0 \<or> fl AND g = 0 \<or>
          acc AND IR_PROTOCOL_MASK = 0 \<and> (fl AND NOT g) AND IR_PROTOCOL_MASK = 0"
          using Cons.prems(3) g by (auto simp: list_all_iff)
        then show ?thesis
          using True and_zero_sub [of fl g "NOT f"] and_zero_sub [of "fl AND NOT g" IR_PROTOCOL_MASK "NOT f"]
          by (simp only: bit.conj_disj_distrib2 and_swap [of fl "NOT f" "NOT g"] or.left_neutral or.right_neutral) blast
      next
        case False
        then have p: "acc AND IR_PROTOCOL_MASK = 0" "(fl AND NOT f) AND IR_PROTOCOL_MASK = 0"
          using e(3) \<open>fl AND f \<noteq> 0\<close> by auto
        have "single_bit g" using Cons.prems(2) g by (auto simp: list_all_iff)
        show ?thesis
        proof (cases "g AND IR_PROTOCOL_MASK = 0")
          case False
          then have "IR_PROTOCOL_MASK AND g = g"
            using single_bit_absorb [OF \<open>single_bit g\<close>, of IR_PROTOCOL_MASK] by (simp add: and.commute)
          then have "(fl AND NOT f) AND g = ((fl AND NOT f) AND IR_PROTOCOL_MASK) AND g"
            by (simp add: and.assoc)
          then show ?thesis using p(2) by simp
        qed simp
      qed
      then show ?thesis by (auto simp: list_all_iff)
    qed
    then have "parse_flag_list (acc OR f) (flag_names fs (fl AND NOT f)) =
        ((acc OR f) OR ((fl AND NOT f) AND flag_union fs), True)"
      using Cons by simp
    moreover have "\<not> (f AND IR_PROTOCOL_MASK \<noteq> 0 \<and> acc AND IR_PROTOCOL_MASK \<noteq> 0)"
      using e(3) False by auto
    ultimately show ?thesis
      using False e(1) or_and_step [OF ab] by (simp add: nf)
  qed
qed


lemma split_on_part: "list_all (\<lambda>c. c \<noteq> x) w \<Longrightarrow> split_on x w = [w]"
  by (induction w) auto

lemma split_on_next: "list_all (\<lambda>c. c \<noteq> x) w \<Longrightarrow> split_on x (w @ x # s) = w # split_on x s"
  by (induction w) auto

lemma split_join_bar:
  "ts \<noteq> [] \<Longrightarrow> list_all (list_all (\<lambda>c. c \<noteq> CHR ''|'')) ts \<Longrightarrow> split_on CHR ''|'' (join_bar ts) = ts"
  by (induction ts rule: join_bar.induct) (simp_all add: split_on_part split_on_next)

lemma join_bar_token:
  "ts \<noteq> [] \<Longrightarrow> list_all (\<lambda>t. token t \<and> length t < 20) ts \<Longrightarrow>
   token (join_bar ts) \<and> length (join_bar ts) < 20 * length ts"
  by (induction ts rule: join_bar.induct) (auto simp: token_def is_blank_def)

lemma flag_names_sub: "set (flag_names fs fl) \<subseteq> fst ` set fs \<and> length (flag_names fs fl) \<le> length fs"
proof (induction fs arbitrary: fl)
  case (Cons nf fs)
  obtain n f where nf: "nf = (n, f)" by (cases nf)
  show ?case using Cons [of fl] Cons [of "fl AND NOT f"] by (auto simp: nf)
qed simp

lemma flag_names_entries:
  "list_all (list_all (\<lambda>c. c \<noteq> CHR ''|'')) (flag_names all_flags fl)"
  "list_all (\<lambda>t. token t \<and> length t < 20) (flag_names all_flags fl)"
  using flag_names_sub [of all_flags fl] all_flags_entries
  by (fastforce simp: list_all_iff flag_entry_def)+

lemma flag_union_all: "flag_union all_flags = 0xFFFF"
  by (simp add: all_flags_def flag_defs)

lemma flags_ok_known: "flags_ok fl \<Longrightarrow> fl AND 0xFFFF = fl"
proof -
  assume "flags_ok fl"
  then have n: "fl AND NOT 0xFFFF = 0" by (simp only: flags_ok_def)
  have "fl = fl AND (0xFFFF OR NOT 0xFFFF)" by (simp only: bit.disj_cancel_right bit.conj_one_right)
  also have "\<dots> = fl AND 0xFFFF" by (simp only: bit.conj_disj_distrib n or.right_neutral)
  finally show ?thesis by simp
qed

lemma parse_all_flags:
  assumes "flags_ok fl"
  shows "parse_flag_list 0 (flag_names all_flags fl) = (fl, True)"
proof -
  have "parse_flag_list 0 (flag_names all_flags fl) = (0 OR (fl AND flag_union all_flags), True)"
    by (rule parse_flag_names [OF all_flags_entries all_flags_single])
      (use assms in \<open>auto simp: flags_ok_def list_all_iff\<close>)
  then show ?thesis by (simp only: flag_union_all flags_ok_known [OF assms] or.left_neutral)
qed

section \<open>The head, line by line\<close>

lemma key_literals:
  "''  name  '' = key_text ''name'' 1" "''  bits        '' = key_text ''bits'' 7"
  "''  eps         '' = key_text ''eps'' 8" "''  aeps        '' = key_text ''aeps'' 7"
  "''  flags '' = key_text ''flags'' 0"
  "''  header      '' = key_text ''header'' 5" "''  three       '' = key_text ''three'' 6"
  "''  two         '' = key_text ''two'' 8" "''  one         '' = key_text ''one'' 8"
  "''  zero        '' = key_text ''zero'' 7" "''  ptrail      '' = key_text ''ptrail'' 5"
  "''  plead       '' = key_text ''plead'' 6" "''  foot        '' = key_text ''foot'' 7"
  "''  repeat      '' = key_text ''repeat'' 5"
  by (simp_all add: key_text_def numeral_eq_Suc)

lemma key_literals2:
  "''  pre_data_bits   '' = key_text ''pre_data_bits'' 2" "''  pre_data       '' = key_text ''pre_data'' 6"
  "''  post_data_bits  '' = key_text ''post_data_bits'' 1" "''  post_data      '' = key_text ''post_data'' 5"
  "''  pre         '' = key_text ''pre'' 8" "''  post        '' = key_text ''post'' 7"
  "''  gap          '' = key_text ''gap'' 9" "''  repeat_gap   '' = key_text ''repeat_gap'' 2"
  "''  suppress_repeat '' = key_text ''suppress_repeat'' 0" "''  min_repeat      '' = key_text ''min_repeat'' 5"
  "''  min_code_repeat '' = key_text ''min_code_repeat'' 0" "''  toggle_bit_mask '' = key_text ''toggle_bit_mask'' 0"
  "''  toggle_mask    '' = key_text ''toggle_mask'' 3" "''  rc6_mask    '' = key_text ''rc6_mask'' 3"
  "''  ignore_mask '' = key_text ''ignore_mask'' 0" "''  frequency    '' = key_text ''frequency'' 3"
  "''  duty_cycle   '' = key_text ''duty_cycle'' 2"
  by (simp_all add: key_text_def numeral_eq_Suc)

lemma keys_ok [simp]:
  "key_ok ''name''" "key_ok ''bits''" "key_ok ''eps''" "key_ok ''aeps''" "key_ok ''flags''"
  "key_ok ''header''" "key_ok ''three''" "key_ok ''two''" "key_ok ''one''" "key_ok ''zero''"
  "key_ok ''ptrail''" "key_ok ''plead''" "key_ok ''foot''" "key_ok ''repeat''"
  "key_ok ''pre_data_bits''" "key_ok ''pre_data''" "key_ok ''post_data_bits''"
  "key_ok ''post_data''" "key_ok ''pre''" "key_ok ''post''" "key_ok ''gap''"
  "key_ok ''repeat_gap''" "key_ok ''suppress_repeat''" "key_ok ''min_repeat''"
  "key_ok ''min_code_repeat''" "key_ok ''toggle_bit_mask''" "key_ok ''toggle_mask''"
  "key_ok ''rc6_mask''" "key_ok ''ignore_mask''" "key_ok ''frequency''" "key_ok ''duty_cycle''"
  by (simp_all add: key_ok_def token_def is_blank_def key_eval)

lemma lines_text_if: "lines_text (if c then ls else []) = print_if c (lines_text ls)"
  by (simp add: print_if_def)

lemma print_if_append: "print_if c (print_if d t) = print_if (c \<and> d) t"
  by (simp add: print_if_def)

definition two_line :: "string \<Rightarrow> nat \<Rightarrow> lirc_t \<Rightarrow> lirc_t \<Rightarrow> string" where
  "two_line k j x y = key_text k j @ print_len x @ '' '' @ print_len y"

definition lengths_lines :: "ir_remote \<Rightarrow> string list" where
  "lengths_lines r =
     (if has_header r then [two_line ''header'' 5 (phead r) (shead r)] else []) @
     (if pthree r \<noteq> 0 \<or> sthree r \<noteq> 0 then [two_line ''three'' 6 (pthree r) (sthree r)] else []) @
     (if ptwo r \<noteq> 0 \<or> stwo r \<noteq> 0 then [two_line ''two'' 8 (ptwo r) (stwo r)] else []) @
     [two_line ''one'' 8 (pone r) (sone r)] @ [two_line ''zero'' 7 (pzero r) (szero r)] @
     (if ptrail r \<noteq> 0 then [key_text ''ptrail'' 5 @ print_len (ptrail r)] else []) @
     (if plead r \<noteq> 0 then [key_text ''plead'' 6 @ print_len (plead r)] else []) @
     (if has_foot r then [two_line ''foot'' 7 (pfoot r) (sfoot r)] else []) @
     (if has_repeat r then [two_line ''repeat'' 5 (prepeat r) (srepeat r)] else [])"

lemma head_lengths_lines: "\<not> is_raw r \<Longrightarrow> head_lengths r = lines_text (lengths_lines r)"
  by (simp add: head_lengths_def lengths_lines_def lines_text_if print_two_def print_one_def two_line_def
      key_literals print_if_def)


lemma reads_opt:
  assumes "c \<Longrightarrow> reads ls (in_remote q) (in_remote q')" "\<not> c \<Longrightarrow> q' = q"
  shows "reads (if c then ls else []) (in_remote q) (in_remote q')"
  using assms by (auto intro: reads_Nil)

lemma reads_two_line:
  assumes "key_ok k" "j < 50" "i32_range x" "i32_range y"
    "\<And>v w r. defineRemote k v (Some w) r = set_two f r v w"
  shows "reads [two_line k j x y] (in_remote r) (in_remote (f r x y))"
  unfolding two_line_def by (rule reads_two [OF assms])

definition lengths_ok :: "ir_remote \<Rightarrow> bool" where
  "lengths_ok r \<longleftrightarrow>
     list_all i32_range [phead r, shead r, pthree r, sthree r, ptwo r, stwo r, pone r, sone r, pzero r,
       szero r, ptrail r, plead r, pfoot r, sfoot r, prepeat r, srepeat r, pre_p r, pre_s r, post_p r, post_s r] \<and>
     (has_header r \<or> phead r = 0 \<and> shead r = 0) \<and> (has_foot r \<or> pfoot r = 0 \<and> sfoot r = 0) \<and>
     (has_repeat r \<or> prepeat r = 0 \<and> srepeat r = 0) \<and>
     (pre_p r \<noteq> 0 \<and> pre_s r \<noteq> 0 \<or> pre_p r = 0 \<and> pre_s r = 0) \<and>
     (post_p r \<noteq> 0 \<and> post_s r \<noteq> 0 \<or> post_p r = 0 \<and> post_s r = 0)"

text \<open>Each step sets a pair of members to the values of \<open>r\<close>.\<close>

definition lengths_read :: "ir_remote \<Rightarrow> ir_remote \<Rightarrow> ir_remote" where
  "lengths_read r q = q\<lparr>phead := phead r, shead := shead r, pthree := pthree r, sthree := sthree r,
     ptwo := ptwo r, stwo := stwo r, pone := pone r, sone := sone r, pzero := pzero r, szero := szero r,
     ptrail := ptrail r, plead := plead r, pfoot := pfoot r, sfoot := sfoot r,
     prepeat := prepeat r, srepeat := srepeat r\<rparr>"

definition lengths_unset :: "ir_remote \<Rightarrow> bool" where
  "lengths_unset q \<longleftrightarrow> phead q = 0 \<and> shead q = 0 \<and> pthree q = 0 \<and> sthree q = 0 \<and> ptwo q = 0 \<and>
     stwo q = 0 \<and> ptrail q = 0 \<and> plead q = 0 \<and> pfoot q = 0 \<and> sfoot q = 0 \<and> prepeat q = 0 \<and>
     srepeat q = 0 \<and> pre_p q = 0 \<and> pre_s q = 0 \<and> post_p q = 0 \<and> post_s q = 0"

lemma reads_lengths:
  assumes ok: "lengths_ok r" and q: "lengths_unset q"
  shows "reads (lengths_lines r) (in_remote q) (in_remote (lengths_read r q))"
proof -
  have r: "i32_range (phead r)" "i32_range (shead r)" "i32_range (pthree r)" "i32_range (sthree r)"
    "i32_range (ptwo r)" "i32_range (stwo r)" "i32_range (pone r)" "i32_range (sone r)"
    "i32_range (pzero r)" "i32_range (szero r)" "i32_range (ptrail r)" "i32_range (plead r)"
    "i32_range (pfoot r)" "i32_range (sfoot r)" "i32_range (prepeat r)" "i32_range (srepeat r)"
    using ok by (simp_all add: lengths_ok_def)
  let ?q1 = "q\<lparr>phead := phead r, shead := shead r\<rparr>"
  let ?q2 = "?q1\<lparr>pthree := pthree r, sthree := sthree r\<rparr>"
  let ?q3 = "?q2\<lparr>ptwo := ptwo r, stwo := stwo r\<rparr>"
  let ?q4 = "?q3\<lparr>pone := pone r, sone := sone r\<rparr>"
  let ?q5 = "?q4\<lparr>pzero := pzero r, szero := szero r\<rparr>"
  let ?q6 = "?q5\<lparr>ptrail := ptrail r\<rparr>"
  let ?q7 = "?q6\<lparr>plead := plead r\<rparr>"
  let ?q8 = "?q7\<lparr>pfoot := pfoot r, sfoot := sfoot r\<rparr>"
  let ?q9 = "?q8\<lparr>prepeat := prepeat r, srepeat := srepeat r\<rparr>"
  note d = define_pairs define_value
  note z = lengths_ok_def lengths_unset_def
  have "reads (if has_header r then [two_line ''header'' 5 (phead r) (shead r)] else []) (in_remote q) (in_remote ?q1)"
    by (rule reads_opt, rule reads_two_line [OF _ _ r(1,2) d(1)]) (use ok q in \<open>simp_all add: z\<close>)
  moreover have "reads (if pthree r \<noteq> 0 \<or> sthree r \<noteq> 0 then [two_line ''three'' 6 (pthree r) (sthree r)] else [])
      (in_remote ?q1) (in_remote ?q2)"
    by (rule reads_opt, rule reads_two_line [OF _ _ r(3,4) d(2)]) (use ok q in \<open>simp_all add: z\<close>)
  moreover have "reads (if ptwo r \<noteq> 0 \<or> stwo r \<noteq> 0 then [two_line ''two'' 8 (ptwo r) (stwo r)] else [])
      (in_remote ?q2) (in_remote ?q3)"
    by (rule reads_opt, rule reads_two_line [OF _ _ r(5,6) d(3)]) (use ok q in \<open>simp_all add: z\<close>)
  moreover have "reads [two_line ''one'' 8 (pone r) (sone r)] (in_remote ?q3) (in_remote ?q4)"
    by (rule reads_two_line [OF _ _ r(7,8) d(4)]) simp_all
  moreover have "reads [two_line ''zero'' 7 (pzero r) (szero r)] (in_remote ?q4) (in_remote ?q5)"
    by (rule reads_two_line [OF _ _ r(9,10) d(5)]) simp_all
  moreover have "reads (if ptrail r \<noteq> 0 then [key_text ''ptrail'' 5 @ print_len (ptrail r)] else [])
      (in_remote ?q5) (in_remote ?q6)"
    by (rule reads_opt, rule reads_one [OF _ _ r(11) d(16)]) (use q in \<open>simp_all add: z\<close>)
  moreover have "reads (if plead r \<noteq> 0 then [key_text ''plead'' 6 @ print_len (plead r)] else [])
      (in_remote ?q6) (in_remote ?q7)"
    by (rule reads_opt, rule reads_one [OF _ _ r(12) d(15)]) (use q in \<open>simp_all add: z\<close>)
  moreover have "reads (if has_foot r then [two_line ''foot'' 7 (pfoot r) (sfoot r)] else [])
      (in_remote ?q7) (in_remote ?q8)"
    by (rule reads_opt, rule reads_two_line [OF _ _ r(13,14) d(6)]) (use ok q in \<open>simp_all add: z\<close>)
  moreover have "reads (if has_repeat r then [two_line ''repeat'' 5 (prepeat r) (srepeat r)] else [])
      (in_remote ?q8) (in_remote ?q9)"
    by (rule reads_opt, rule reads_two_line [OF _ _ r(15,16) d(7)]) (use ok q in \<open>simp_all add: z\<close>)
  ultimately have "reads (lengths_lines r) (in_remote q) (in_remote ?q9)"
    unfolding lengths_lines_def by (intro reads_append)
  then show ?thesis by (simp add: lengths_read_def)
qed


definition code_line :: "string \<Rightarrow> nat \<Rightarrow> ir_code \<Rightarrow> string" where
  "code_line k j c = key_text k j @ ''0x'' @ show_hex (uint c)"

definition int_line :: "string \<Rightarrow> nat \<Rightarrow> int \<Rightarrow> string" where
  "int_line k j i = key_text k j @ show_int i"

definition uint_line :: "string \<Rightarrow> nat \<Rightarrow> u32 \<Rightarrow> string" where
  "uint_line k j w = key_text k j @ show_dec (uint w)"

lemma reads_value_line:
  "key_ok k \<Longrightarrow> j < 50 \<Longrightarrow> (\<And>v w r. defineRemote k v w r = set_one f r (s_strtocode v)) \<Longrightarrow>
   reads [code_line k j c] (in_remote r) (in_remote (f r c))"
  "key_ok k \<Longrightarrow> j < 50 \<Longrightarrow> i32_range i \<Longrightarrow> (\<And>v w r. defineRemote k v w r = set_one g r (s_strtoi v)) \<Longrightarrow>
   reads [int_line k j i] (in_remote r) (in_remote (g r i))"
  "key_ok k \<Longrightarrow> j < 50 \<Longrightarrow> (\<And>v r. defineRemote k v None r = set_one h r (p v)) \<Longrightarrow>
   (\<And>w. p (show_dec (uint w)) = (w, True)) \<Longrightarrow> reads [uint_line k j w] (in_remote r) (in_remote (h r w))"
  unfolding code_line_def int_line_def uint_line_def
  by (rule reads_code reads_int(1) reads_uint; assumption)+

definition data_lines :: "ir_remote \<Rightarrow> string list" where
  "data_lines r =
     (if pre_data_bits r > 0
      then [int_line ''pre_data_bits'' 2 (pre_data_bits r)] @ [code_line ''pre_data'' 6 (pre_data r)] else []) @
     (if post_data_bits r > 0
      then [int_line ''post_data_bits'' 1 (post_data_bits r)] @ [code_line ''post_data'' 5 (post_data r)] else []) @
     (if pre_p r \<noteq> 0 \<and> pre_s r \<noteq> 0 then [two_line ''pre'' 8 (pre_p r) (pre_s r)] else []) @
     (if post_p r \<noteq> 0 \<and> post_s r \<noteq> 0 then [two_line ''post'' 7 (post_p r) (post_s r)] else [])"

lemma head_data_lines: "\<not> is_raw r \<Longrightarrow> head_data r = lines_text (data_lines r)"
  by (simp add: head_data_def data_lines_def lines_text_if print_two_def print_int_def print_code_def
      two_line_def int_line_def code_line_def key_literals2 print_if_def)

definition data_ok :: "ir_remote \<Rightarrow> bool" where
  "data_ok r \<longleftrightarrow> i32_range (pre_data_bits r) \<and> i32_range (post_data_bits r) \<and>
     (pre_data_bits r > 0 \<or> pre_data_bits r = 0 \<and> pre_data r = 0) \<and>
     (post_data_bits r > 0 \<or> post_data_bits r = 0 \<and> post_data r = 0)"

definition data_read :: "ir_remote \<Rightarrow> ir_remote \<Rightarrow> ir_remote" where
  "data_read r q = q\<lparr>pre_data_bits := pre_data_bits r, pre_data := pre_data r,
     post_data_bits := post_data_bits r, post_data := post_data r, pre_p := pre_p r, pre_s := pre_s r,
     post_p := post_p r, post_s := post_s r\<rparr>"

definition data_unset :: "ir_remote \<Rightarrow> bool" where
  "data_unset q \<longleftrightarrow> pre_data_bits q = 0 \<and> pre_data q = 0 \<and> post_data_bits q = 0 \<and> post_data q = 0 \<and>
     pre_p q = 0 \<and> pre_s q = 0 \<and> post_p q = 0 \<and> post_s q = 0"

lemma reads_data:
  assumes ok: "lengths_ok r" "data_ok r" and q: "data_unset q"
  shows "reads (data_lines r) (in_remote q) (in_remote (data_read r q))"
proof -
  have r: "i32_range (pre_data_bits r)" "i32_range (post_data_bits r)" "i32_range (pre_p r)" "i32_range (pre_s r)"
    "i32_range (post_p r)" "i32_range (post_s r)"
    using ok by (simp_all add: lengths_ok_def data_ok_def)
  let ?q1 = "q\<lparr>pre_data_bits := pre_data_bits r\<rparr>\<lparr>pre_data := pre_data r\<rparr>"
  let ?q2 = "?q1\<lparr>post_data_bits := post_data_bits r\<rparr>\<lparr>post_data := post_data r\<rparr>"
  let ?q3 = "?q2\<lparr>pre_p := pre_p r, pre_s := pre_s r\<rparr>"
  let ?q4 = "?q3\<lparr>post_p := post_p r, post_s := post_s r\<rparr>"
  note d = define_pairs define_value
  note z = data_ok_def data_unset_def
  have pp: "\<not> (pre_p r \<noteq> 0 \<and> pre_s r \<noteq> 0) \<Longrightarrow> pre_p r = 0 \<and> pre_s r = 0"
    "\<not> (post_p r \<noteq> 0 \<and> post_s r \<noteq> 0) \<Longrightarrow> post_p r = 0 \<and> post_s r = 0"
    using ok(1) unfolding lengths_ok_def by blast+
  have "reads (if pre_data_bits r > 0 then [int_line ''pre_data_bits'' 2 (pre_data_bits r)] @
        [code_line ''pre_data'' 6 (pre_data r)] else []) (in_remote q) (in_remote ?q1)"
    by (rule reads_opt, rule reads_append [OF reads_value_line(2) [OF _ _ r(1) d(17)] reads_value_line(1) [OF _ _ d(18)]])
      (use ok q in \<open>simp_all add: z\<close>)
  moreover have "reads (if post_data_bits r > 0 then [int_line ''post_data_bits'' 1 (post_data_bits r)] @
        [code_line ''post_data'' 5 (post_data r)] else []) (in_remote ?q1) (in_remote ?q2)"
    by (rule reads_opt, rule reads_append [OF reads_value_line(2) [OF _ _ r(2) d(19)] reads_value_line(1) [OF _ _ d(20)]])
      (use ok q in \<open>simp_all add: z\<close>)
  moreover have "reads (if pre_p r \<noteq> 0 \<and> pre_s r \<noteq> 0 then [two_line ''pre'' 8 (pre_p r) (pre_s r)] else [])
      (in_remote ?q2) (in_remote ?q3)"
  proof (rule reads_opt)
    assume "\<not> (pre_p r \<noteq> 0 \<and> pre_s r \<noteq> 0)"
    from pp(1) [OF this] q show "?q3 = ?q2" by (simp add: z)
  qed (rule reads_two_line [OF _ _ r(3,4) d(8)]; simp)
  moreover have "reads (if post_p r \<noteq> 0 \<and> post_s r \<noteq> 0 then [two_line ''post'' 7 (post_p r) (post_s r)] else [])
      (in_remote ?q3) (in_remote ?q4)"
  proof (rule reads_opt)
    assume "\<not> (post_p r \<noteq> 0 \<and> post_s r \<noteq> 0)"
    from pp(2) [OF this] q show "?q4 = ?q3" by (simp add: z)
  qed (rule reads_two_line [OF _ _ r(5,6) d(9)]; simp)
  ultimately have "reads (data_lines r) (in_remote q) (in_remote ?q4)"
    unfolding data_lines_def by (intro reads_append)
  then show ?thesis by (simp add: data_read_def)
qed

section \<open>Gaps, repeats, masks\<close>

definition gap_line :: "ir_remote \<Rightarrow> string" where
  "gap_line r =
     (if gap2 r \<noteq> 0 then key_text ''gap'' 9 @ show_dec (uint (gap r)) @ '' '' @ show_dec (uint (gap2 r))
      else uint_line ''gap'' 9 (gap r))"

lemma reads_gap:
  assumes "gap2 q = 0"
  shows "reads [gap_line r] (in_remote q) (in_remote (q\<lparr>gap2 := gap2 r, gap := gap r\<rparr>))"
proof (cases "gap2 r = 0")
  case True
  have "reads [key_text ''gap'' 9 @ show_dec (uint (gap r))] (in_remote q) (in_remote (q\<lparr>gap := gap r\<rparr>))"
    by (rule reads_key_value(1) [OF _ _ value_ok_uint]) (simp_all add: define_value2 define_gap_def)
  moreover have "q\<lparr>gap := gap r\<rparr> = q\<lparr>gap2 := gap2 r, gap := gap r\<rparr>" using assms True by simp
  ultimately show ?thesis using True by (simp add: gap_line_def uint_line_def)
next
  case False
  have "reads [key_text ''gap'' 9 @ pad_left 0 (show_dec (uint (gap r))) @ '' '' @ pad_left 0 (show_dec (uint (gap2 r)))]
      (in_remote q) (in_remote (q\<lparr>gap2 := gap2 r, gap := gap r\<rparr>))"
    by (rule reads_key_values [OF _ _ value_ok_uint value_ok_uint]) (simp_all add: define_value2 define_gap_def)
  then show ?thesis using False by (simp add: gap_line_def pad_left_def)
qed

lemma not_error_in_remote [simp]: "\<not> p_error (in_remote r)"
  by (simp add: in_remote_def parser0_def)

lemma reads_comment:
  assumes "line_ok (CHR ''#'' # l)" "\<not> p_error s"
  shows "reads [CHR ''#'' # l] s s"
  by (rule reads_skip [OF assms(1) _ assms(2)]) simp

definition comment_lines :: "ir_remote \<Rightarrow> string list" where
  "comment_lines r =
     [''#  suppress_repeat '' @ show_int (min_repeat r), ''#  uncomment to suppress unwanted repeats'']"

lemma reads_comment_lines:
  assumes "i32_range (min_repeat r)"
  shows "reads (comment_lines r) (in_remote q) (in_remote q)"
proof -
  have "chars_ok (show_int (min_repeat r))" "length (show_int (min_repeat r)) < 100"
    using value_ok_int [OF assms] by (simp_all add: value_ok_def token_chars)
  then have "reads [''#  suppress_repeat '' @ show_int (min_repeat r)] (in_remote q) (in_remote q)"
    using reads_comment [of "''  suppress_repeat '' @ show_int (min_repeat r)" "in_remote q"]
    by (simp add: line_ok_chars)
  moreover have "reads [''#  uncomment to suppress unwanted repeats''] (in_remote q) (in_remote q)"
    by (rule reads_comment) (simp_all add: line_ok_chars)
  ultimately show ?thesis unfolding comment_lines_def by (rule reads_append [of "[_]" _ _ "[_]", simplified])
qed

definition repeat_lines :: "ir_remote \<Rightarrow> string list" where
  "repeat_lines r =
     [gap_line r] @
     (if has_repeat_gap r then [uint_line ''repeat_gap'' 2 (repeat_gap r)] else []) @
     (if suppress_repeat r > 0 then [int_line ''suppress_repeat'' 0 (suppress_repeat r)] else []) @
     (if min_repeat r > 0
      then [int_line ''min_repeat'' 5 (min_repeat r)] @
        (if suppress_repeat r = 0 then comment_lines r else []) else [])"

lemma head_repeat_lines: "head_repeats r = lines_text (repeat_lines r)"
  by (simp add: head_repeats_def repeat_lines_def lines_text_if print_int_def print_uint_def
      int_line_def uint_line_def key_literals2 print_if_def fprint_remote_gap_def gap_line_def comment_lines_def)

definition repeat_ok :: "ir_remote \<Rightarrow> bool" where
  "repeat_ok r \<longleftrightarrow> i32_range (suppress_repeat r) \<and> i32_range (min_repeat r) \<and>
     0 \<le> suppress_repeat r \<and> 0 \<le> min_repeat r"

definition repeat_read :: "ir_remote \<Rightarrow> ir_remote \<Rightarrow> ir_remote" where
  "repeat_read r q = q\<lparr>gap2 := gap2 r, gap := gap r, repeat_gap := repeat_gap r,
     suppress_repeat := suppress_repeat r, min_repeat := min_repeat r\<rparr>"

definition repeat_unset :: "ir_remote \<Rightarrow> bool" where
  "repeat_unset q \<longleftrightarrow> gap2 q = 0 \<and> repeat_gap q = 0 \<and> suppress_repeat q = 0 \<and> min_repeat q = 0"

lemma reads_repeats:
  assumes ok: "repeat_ok r" and q: "repeat_unset q"
  shows "reads (repeat_lines r) (in_remote q) (in_remote (repeat_read r q))"
proof -
  have r: "i32_range (suppress_repeat r)" "i32_range (min_repeat r)" "0 \<le> suppress_repeat r" "0 \<le> min_repeat r"
    using ok by (simp_all add: repeat_ok_def)
  let ?q1 = "q\<lparr>gap2 := gap2 r, gap := gap r\<rparr>"
  let ?q2 = "?q1\<lparr>repeat_gap := repeat_gap r\<rparr>"
  let ?q3 = "?q2\<lparr>suppress_repeat := suppress_repeat r\<rparr>"
  let ?q4 = "?q3\<lparr>min_repeat := min_repeat r\<rparr>"
  note d = define_value2
  note z = repeat_unset_def
  have rg: "\<not> has_repeat_gap r \<Longrightarrow> repeat_gap r = 0" by (simp add: has_repeat_gap_def word_gt_0)
  have "reads [gap_line r] (in_remote q) (in_remote ?q1)"
    by (rule reads_gap) (use q in \<open>simp add: z\<close>)
  moreover have "reads (if has_repeat_gap r then [uint_line ''repeat_gap'' 2 (repeat_gap r)] else [])
      (in_remote ?q1) (in_remote ?q2)"
    by (rule reads_opt, rule reads_value_line(3) [OF _ _ d(2)]) (use q rg in \<open>simp_all add: z\<close>)
  moreover have "reads (if suppress_repeat r > 0 then [int_line ''suppress_repeat'' 0 (suppress_repeat r)] else [])
      (in_remote ?q2) (in_remote ?q3)"
    by (rule reads_opt, rule reads_value_line(2) [OF _ _ r(1) d(7)]) (use q r in \<open>simp_all add: z\<close>)
  moreover have "reads (if min_repeat r > 0 then [int_line ''min_repeat'' 5 (min_repeat r)] @
        (if suppress_repeat r = 0 then comment_lines r else []) else []) (in_remote ?q3) (in_remote ?q4)"
    by (rule reads_opt, rule reads_append [OF reads_value_line(2) [OF _ _ r(2) d(8)]])
      (use q r reads_comment_lines [OF r(2)] in \<open>simp_all add: z reads_Nil\<close>)
  ultimately have "reads (repeat_lines r) (in_remote q) (in_remote ?q4)"
    unfolding repeat_lines_def by (intro reads_append)
  then show ?thesis by (simp add: repeat_read_def)
qed


definition mask_lines :: "ir_remote \<Rightarrow> string list" where
  "mask_lines r =
     (if min_code_repeat r > 0 then [int_line ''min_code_repeat'' 0 (sint (min_code_repeat r))] else []) @
     [code_line ''toggle_bit_mask'' 0 (toggle_bit_mask r)] @
     (if has_toggle_mask r then [code_line ''toggle_mask'' 3 (toggle_mask r)] else []) @
     (if rc6_mask r \<noteq> 0 then [code_line ''rc6_mask'' 3 (rc6_mask r)] else []) @
     (if has_ignore_mask r then [code_line ''ignore_mask'' 0 (ignore_mask r)] else []) @
     (if freq r \<noteq> 0 then [uint_line ''frequency'' 3 (freq r)] else []) @
     (if duty_cycle r \<noteq> 0 then [uint_line ''duty_cycle'' 2 (duty_cycle r)] else [])"

lemma head_mask_lines: "\<not> is_raw r \<Longrightarrow> \<not> is_serial r \<Longrightarrow> head_masks r = lines_text (mask_lines r)"
  by (simp add: head_masks_def mask_lines_def lines_text_if print_int_def print_uint_def print_code_def
      int_line_def uint_line_def code_line_def key_literals2 print_if_def)

definition mask_read :: "ir_remote \<Rightarrow> ir_remote \<Rightarrow> ir_remote" where
  "mask_read r q = q\<lparr>min_code_repeat := min_code_repeat r, toggle_bit_mask := toggle_bit_mask r,
     toggle_mask := toggle_mask r, rc6_mask := rc6_mask r, ignore_mask := ignore_mask r,
     freq := freq r, duty_cycle := duty_cycle r\<rparr>"

definition mask_unset :: "ir_remote \<Rightarrow> bool" where
  "mask_unset q \<longleftrightarrow> min_code_repeat q = 0 \<and> toggle_mask q = 0 \<and> rc6_mask q = 0 \<and> ignore_mask q = 0 \<and>
     freq q = 0 \<and> duty_cycle q = 0"

lemma reads_masks:
  assumes q: "mask_unset q"
  shows "reads (mask_lines r) (in_remote q) (in_remote (mask_read r q))"
proof -
  let ?q1 = "q\<lparr>min_code_repeat := min_code_repeat r\<rparr>"
  let ?q2 = "?q1\<lparr>toggle_bit_mask := toggle_bit_mask r\<rparr>"
  let ?q3 = "?q2\<lparr>toggle_mask := toggle_mask r\<rparr>"
  let ?q4 = "?q3\<lparr>rc6_mask := rc6_mask r\<rparr>"
  let ?q5 = "?q4\<lparr>ignore_mask := ignore_mask r\<rparr>"
  let ?q6 = "?q5\<lparr>freq := freq r\<rparr>"
  let ?q7 = "?q6\<lparr>duty_cycle := duty_cycle r\<rparr>"
  note d = define_value2
  note z = mask_unset_def word_gt_0 ir_preds
  have "reads (if min_code_repeat r > 0 then [int_line ''min_code_repeat'' 0 (sint (min_code_repeat r))] else [])
      (in_remote q) (in_remote (q\<lparr>min_code_repeat := word_of_int (sint (min_code_repeat r))\<rparr>))"
    by (rule reads_opt, rule reads_value_line(2) [OF _ _ sint32_range d(9)]) (use q in \<open>simp_all add: z\<close>)
  then have "reads (if min_code_repeat r > 0 then [int_line ''min_code_repeat'' 0 (sint (min_code_repeat r))] else [])
      (in_remote q) (in_remote ?q1)" by simp
  moreover have "reads [code_line ''toggle_bit_mask'' 0 (toggle_bit_mask r)] (in_remote ?q1) (in_remote ?q2)"
    by (rule reads_value_line(1) [OF _ _ d(3)]) simp_all
  moreover have "reads (if has_toggle_mask r then [code_line ''toggle_mask'' 3 (toggle_mask r)] else [])
      (in_remote ?q2) (in_remote ?q3)"
    by (rule reads_opt, rule reads_value_line(1) [OF _ _ d(4)]) (use q in \<open>simp_all add: z\<close>)
  moreover have "reads (if rc6_mask r \<noteq> 0 then [code_line ''rc6_mask'' 3 (rc6_mask r)] else [])
      (in_remote ?q3) (in_remote ?q4)"
    by (rule reads_opt, rule reads_value_line(1) [OF _ _ d(5)]) (use q in \<open>simp_all add: z\<close>)
  moreover have "reads (if has_ignore_mask r then [code_line ''ignore_mask'' 0 (ignore_mask r)] else [])
      (in_remote ?q4) (in_remote ?q5)"
    by (rule reads_opt, rule reads_value_line(1) [OF _ _ d(6)]) (use q in \<open>simp_all add: z\<close>)
  moreover have "reads (if freq r \<noteq> 0 then [uint_line ''frequency'' 3 (freq r)] else [])
      (in_remote ?q5) (in_remote ?q6)"
    by (rule reads_opt, rule reads_value_line(3) [OF _ _ d(10)]) (use q in \<open>simp_all add: z\<close>)
  moreover have "reads (if duty_cycle r \<noteq> 0 then [uint_line ''duty_cycle'' 2 (duty_cycle r)] else [])
      (in_remote ?q6) (in_remote ?q7)"
    by (rule reads_opt, rule reads_value_line(3) [OF _ _ d(11)]) (use q in \<open>simp_all add: z\<close>)
  ultimately have "reads (mask_lines r) (in_remote q) (in_remote ?q7)"
    unfolding mask_lines_def by (intro reads_append)
  then show ?thesis by (simp add: mask_read_def)
qed

section \<open>The whole head\<close>

definition flag_lines :: "ir_remote \<Rightarrow> string list" where
  "flag_lines r =
     (if flag_names all_flags (flags r) \<noteq> []
      then [key_text ''flags'' 0 @ join_bar (flag_names all_flags (flags r))] else [])"

lemma fprint_flags_lines: "fprint_flags (flags r) = lines_text (flag_lines r)"
  by (simp add: fprint_flags_def flag_lines_def key_literals split: list.splits)

lemma reads_flags:
  assumes ok: "flags_ok (flags r)" and q: "flags q = 0"
  shows "reads (flag_lines r) (in_remote q) (in_remote (q\<lparr>flags := flags r\<rparr>))"
proof -
  let ?ts = "flag_names all_flags (flags r)"
  have p: "parse_flag_list 0 ?ts = (flags r, True)" by (rule parse_all_flags [OF ok])
  show ?thesis
  proof (cases "?ts = []")
    case True
    then have "flags r = 0" using p by simp
    then have "q\<lparr>flags := flags r\<rparr> = q" using q by simp
    then show ?thesis using True by (simp add: flag_lines_def reads_Nil)
  next
    case False
    have t: "token (join_bar ?ts)" "length (join_bar ?ts) < 20 * length ?ts"
      using join_bar_token [OF False flag_names_entries(2)] by auto
    have "length ?ts \<le> 17" using flag_names_sub [of all_flags "flags r"] by (simp add: all_flags_def)
    then have len: "length (join_bar ?ts) < 500" using t(2) by simp
    have "parseFlags (join_bar ?ts) = (flags r, True)"
      using p by (simp add: parseFlags_def split_join_bar [OF False flag_names_entries(1)])
    then have d: "defineRemote ''flags'' (join_bar ?ts) (case [] of [] \<Rightarrow> None | v # _ \<Rightarrow> Some v) q =
        (1, q\<lparr>flags := flags r\<rparr>, True)"
      using q by (simp add: define_value set_one_def)
    show ?thesis
      using reads_key [OF _ _ blank_tokens_token [OF t(1)] token_chars [OF t(1)] len d, of 0] False
      by (simp add: flag_lines_def)
  qed
qed

definition head_lines :: "ir_remote \<Rightarrow> string list" where
  "head_lines r =
     [key_text ''name'' 1 @ name r] @ [key_text ''bits'' 7 @ pad_left 5 (show_int (bits r))] @ flag_lines r @
     [key_text ''eps'' 8 @ pad_left 5 (show_int (eps r))] @ [key_text ''aeps'' 7 @ pad_left 5 (show_int (aeps r))] @
     [''''] @ lengths_lines r @ data_lines r @ repeat_lines r @ mask_lines r @ ['''']"

lemma fprint_head_lines:
  assumes "\<not> is_raw r" "\<not> is_serial r"
  shows "fprint_remote_head r = lines_text (''begin remote'' # '''' # head_lines r)"
  using assms
  by (simp add: fprint_remote_head_def head_lines_def head_lengths_lines head_data_lines head_repeat_lines
      head_mask_lines fprint_flags_lines key_literals print_if_def)

definition head_ok :: "ir_remote \<Rightarrow> bool" where
  "head_ok r \<longleftrightarrow> \<not> is_raw r \<and> \<not> is_serial r \<and> token (name r) \<and> length (name r) < 500 \<and>
     list_all i32_range [bits r, eps r, aeps r] \<and> flags_ok (flags r) \<and> lengths_ok r \<and> data_ok r \<and> repeat_ok r"

text \<open>The members that are printed, the others as in a new remote.\<close>

definition printed :: "ir_remote \<Rightarrow> ir_remote" where
  "printed r = mask_read r (repeat_read r (data_read r (lengths_read r
     (remote0\<lparr>name := name r, bits := bits r, flags := flags r, eps := eps r, aeps := aeps r\<rparr>))))"

lemma reads_blank: "\<not> p_error s \<Longrightarrow> reads [''''] s s"
  by (rule reads_skip) (simp_all add: line_ok_def)

lemma reads_head:
  assumes ok: "head_ok r"
  shows "reads (head_lines r) (in_remote remote0) (in_remote (printed r))"
proof -
  have r: "token (name r)" "length (name r) < 500" "i32_range (bits r)" "i32_range (eps r)" "i32_range (aeps r)"
    "flags_ok (flags r)" "lengths_ok r" "data_ok r" "repeat_ok r"
    using ok by (simp_all add: head_ok_def)
  let ?q1 = "remote0\<lparr>name := name r\<rparr>"
  let ?q2 = "?q1\<lparr>bits := bits r\<rparr>"
  let ?q3 = "?q2\<lparr>flags := flags r\<rparr>"
  let ?q4 = "?q3\<lparr>eps := eps r\<rparr>"
  let ?q5 = "?q4\<lparr>aeps := aeps r\<rparr>"
  note d = define_value
  have "reads [key_text ''name'' 1 @ name r] (in_remote remote0) (in_remote ?q1)"
    by (rule reads_key [OF _ _ blank_tokens_token [OF r(1)] token_chars [OF r(1)] r(2)]) (simp_all add: d)
  moreover have "reads [key_text ''bits'' 7 @ pad_left 5 (show_int (bits r))] (in_remote ?q1) (in_remote ?q2)"
    by (rule reads_int(2) [OF _ _ r(3) d(2)]) simp_all
  moreover have "reads (flag_lines r) (in_remote ?q2) (in_remote ?q3)"
    by (rule reads_flags [OF r(6)]) (simp add: remote0_def)
  moreover have "reads [key_text ''eps'' 8 @ pad_left 5 (show_int (eps r))] (in_remote ?q3) (in_remote ?q4)"
    by (rule reads_int(2) [OF _ _ r(4) d(4)]) simp_all
  moreover have "reads [key_text ''aeps'' 7 @ pad_left 5 (show_int (aeps r))] (in_remote ?q4) (in_remote ?q5)"
    by (rule reads_int(2) [OF _ _ r(5) d(5)]) simp_all
  moreover have "reads [''''] (in_remote ?q5) (in_remote ?q5)" by (rule reads_blank) simp
  moreover have "reads (lengths_lines r) (in_remote ?q5) (in_remote (lengths_read r ?q5))"
    by (rule reads_lengths [OF r(7)]) (simp add: lengths_unset_def remote0_def)
  moreover have "reads (data_lines r) (in_remote (lengths_read r ?q5)) (in_remote (data_read r (lengths_read r ?q5)))"
    by (rule reads_data [OF r(7,8)]) (simp add: data_unset_def lengths_read_def remote0_def)
  moreover have "reads (repeat_lines r) (in_remote (data_read r (lengths_read r ?q5)))
      (in_remote (repeat_read r (data_read r (lengths_read r ?q5))))"
    by (rule reads_repeats [OF r(9)]) (simp add: repeat_unset_def data_read_def lengths_read_def remote0_def)
  moreover have "reads (mask_lines r) (in_remote (repeat_read r (data_read r (lengths_read r ?q5))))
      (in_remote (printed r))"
    unfolding printed_def
    by (rule reads_masks) (simp add: mask_unset_def repeat_read_def data_read_def lengths_read_def remote0_def)
  moreover have "reads [''''] (in_remote (printed r)) (in_remote (printed r))" by (rule reads_blank) simp
  ultimately show ?thesis unfolding head_lines_def by (intro reads_append)
qed

end
