(* ===== verification/PrintRead.thy ===== *)
theory PrintRead
  imports ConfigRoundTrip
begin

text \<open>
  The buttons, the comment in front of a remote, and the round trip of a whole remote through
  \<open>dump_config.c\<close> and \<open>config_file.c\<close>.
\<close>

section \<open>The buttons\<close>

definition codes_state :: "directive \<Rightarrow> ir_remote \<Rightarrow> ir_ncode list \<Rightarrow> parser" where
  "codes_state m r cs = parser0\<lparr>p_remotes := [r], p_mode := m, p_codes := cs\<rparr>"

lemma in_remote_codes: "in_remote r = codes_state ID_remote r []"
  by (simp add: in_remote_def codes_state_def parser0_def)

lemma not_error_codes [simp]: "\<not> p_error (codes_state m r cs)"
  by (simp add: codes_state_def parser0_def)

definition button_line :: "ir_remote \<Rightarrow> ir_ncode \<Rightarrow> string" where
  "button_line r c =
     replicate 10 CHR '' '' @ pad_right 24 (nc_name c) @ '' '' @
     print_padded_code (i32 (bits r + 3) sdiv 4) (nc_code c) @
     concat (map (\<lambda>n. '' '' @ print_padded_code (i32 (bits r + 3) sdiv 4) n) (nc_nodes c))"

lemma fprint_button_line: "\<not> is_raw r \<Longrightarrow> fprint_remote_signal r = (\<lambda>c. button_line r c @ nl)"
  by (rule ext, simp add: fprint_remote_signal_def button_line_def numeral_eq_Suc)

text \<open>Of a button, its name and its codes are printed.\<close>

definition button_ok :: "ir_remote \<Rightarrow> ir_ncode \<Rightarrow> bool" where
  "button_ok r c \<longleftrightarrow> c = ncode0\<lparr>nc_name := nc_name c, nc_code := nc_code c, nc_nodes := nc_nodes c\<rparr> \<and>
     mask_code r c = c \<and> token (nc_name c) \<and> plain_key (nc_name c) \<and> length (button_line r c) < 1000"

lemma padded_token: "token (print_padded_code w c)"
proof -
  have "token (pad_zero (nat w) (show_hex (uint c)))"
    using show_hex_digits uint64_bounds digit_zero
    by (intro token_digits [of 16]) (auto simp: pad_zero_def list_all_iff)
  then show ?thesis by (simp add: print_padded_code_def token_def is_blank_def)
qed

lemma blank_tokens_row:
  "list_all token ts \<Longrightarrow> token t \<Longrightarrow> blank_tokens (t @ concat (map (\<lambda>n. CHR '' '' # n) ts)) = t # ts"
  by (induction ts arbitrary: t) simp_all

lemma chars_ok_concat: "list_all chars_ok ts \<Longrightarrow> chars_ok (concat ts)"
  by (induction ts) simp_all

lemma define_nodes_padded: "define_nodes (map (print_padded_code w) ns) = (ns, True)"
proof (induction ns)
  case (Cons n ns)
  have "hd (print_padded_code w n) = CHR ''0''" by (simp add: print_padded_code_def)
  then show ?case using Cons by simp
qed simp

lemma reads_button:
  assumes ok: "button_ok r c"
  shows "reads [button_line r c] (codes_state ID_codes q cs) (codes_state ID_codes q (cs @ [c]))"
proof (rule reads_line)
  let ?w = "i32 (bits r + 3) sdiv 4"
  let ?row = "print_padded_code ?w (nc_code c) @ concat (map (\<lambda>n. CHR '' '' # n) (map (print_padded_code ?w) (nc_nodes c)))"
  have t: "token (nc_name c)" "plain_key (nc_name c)"
    "c = ncode0\<lparr>nc_name := nc_name c, nc_code := nc_code c, nc_nodes := nc_nodes c\<rparr>"
    using ok unfolding button_ok_def by blast+
  have l: "button_line r c = replicate 10 CHR '' '' @ nc_name c @ CHR '' '' #
      replicate (24 - length (nc_name c)) CHR '' '' @ ?row"
    by (simp add: button_line_def pad_right_def comp_def replicate_app_Cons_same)
  have ts: "list_all token (map (print_padded_code ?w) (nc_nodes c))"
    by (simp add: list_all_iff padded_token)
  have b: "blank_tokens (button_line r c) =
      nc_name c # print_padded_code ?w (nc_code c) # map (print_padded_code ?w) (nc_nodes c)"
    unfolding l using blank_tokens_row [OF ts padded_token, of ?w "nc_code c"]
    by (simp only: blank_tokens_spaces blank_tokens_next [OF t(1)])
  have "chars_ok ?row"
    using ts token_chars padded_token by (fastforce simp: list_all_iff intro!: chars_ok_concat)
  then show "line_ok (button_line r c)"
    using ok token_chars [OF t(1)] by (simp add: line_ok_chars button_ok_def l)
  show "button_line r c \<noteq> []" "hd (button_line r c) \<noteq> CHR ''#''" by (simp_all add: l)
  show "config_line child files path (blank_tokens (button_line r c)) (codes_state ID_codes q cs) b =
      Some (codes_state ID_codes q (cs @ [c]), b)" for child files path b
    unfolding b config_line_def using t(2) t(3)
    by (simp add: plain_key_def codes_state_def parser0_def add_code_line_def define_nodes_padded)
qed simp

lemma reads_buttons:
  "list_all (button_ok r) bs \<Longrightarrow>
   reads (map (button_line r) bs) (codes_state ID_codes q cs) (codes_state ID_codes q (cs @ bs))"
proof (induction bs arbitrary: cs)
  case (Cons c bs)
  then have "reads [button_line r c] (codes_state ID_codes q cs) (codes_state ID_codes q (cs @ [c]))"
    "reads (map (button_line r) bs) (codes_state ID_codes q (cs @ [c])) (codes_state ID_codes q ((cs @ [c]) @ bs))"
    using reads_button Cons.prems Cons.IH [of "cs @ [c]"] by auto
  from reads_append [OF this] show ?case by simp
qed (simp add: reads_Nil)

section \<open>Sections\<close>

lemma blank_tokens_two:
  "token a \<Longrightarrow> token b \<Longrightarrow> blank_tokens (replicate k CHR '' '' @ a @ CHR '' '' # b) = [a, b]"
  by simp

lemma section_line:
  assumes "token a" "token b" "length a < 50" "length b < 50" "hd a \<noteq> CHR ''#''" "k < 50" "\<not> p_error s'"
    "\<And>child files path bf. config_line child files path [a, b] s bf = Some (s', bf)"
  shows "reads [replicate k CHR '' '' @ a @ CHR '' '' # b] s s'"
proof (rule reads_line)
  have "a \<noteq> []" using assms(1) by (simp add: token_def)
  then show "hd (replicate k CHR '' '' @ a @ CHR '' '' # b) \<noteq> CHR ''#''"
    using assms(5) by (cases k) auto
qed (use assms token_chars in \<open>simp_all add: line_ok_chars\<close>)

lemma section_tokens [simp]: "token ''begin''" "token ''end''" "token ''codes''" "token ''remote''"
  by (simp_all add: token_def is_blank_def)

lemma section_literals:
  "''begin remote'' = replicate 0 CHR '' '' @ ''begin'' @ CHR '' '' # ''remote''"
  "''      begin codes'' = replicate 6 CHR '' '' @ ''begin'' @ CHR '' '' # ''codes''"
  "''      end codes'' = replicate 6 CHR '' '' @ ''end'' @ CHR '' '' # ''codes''"
  "''end remote'' = replicate 0 CHR '' '' @ ''end'' @ CHR '' '' # ''remote''"
  by (simp_all add: numeral_eq_Suc)

lemma reads_begin_remote: "reads [''begin remote''] parser0 (in_remote remote0)"
  unfolding section_literals
  by (rule section_line)
    (simp_all add: config_line_def begin_line_def checkMode_def append_remotes_def in_remote_def parser0_def key_eval)

lemma reads_begin_codes:
  "codes q = None \<Longrightarrow> reads [''      begin codes''] (in_remote q) (codes_state ID_codes q [])"
  unfolding section_literals in_remote_codes
  by (rule section_line)
    (simp_all add: config_line_def begin_line_def checkMode_def codes_state_def cur_remote_def parser0_def key_eval)

lemma reads_end_codes:
  "reads [''      end codes''] (codes_state ID_codes q cs) (codes_state ID_remote (q\<lparr>codes := Some cs\<rparr>) cs)"
  unfolding section_literals
  by (rule section_line)
    (simp_all add: config_line_def end_line_def checkMode_def codes_state_def cur_remote_def set_cur_def
      parser0_def key_eval)

text \<open>A remote that \<open>sanityChecks\<close> accepts as it is.\<close>

lemma reads_end_remote:
  assumes "sanityChecks q = Some (True, q)" "last_code q = None"
  shows "reads [''end remote''] (codes_state ID_remote q cs) (codes_state ID_none q cs)"
  unfolding section_literals
proof (rule section_line)
  have q: "q\<lparr>last_code := None\<rparr> = q" using assms(2) by simp
  show "config_line child files path [''end'', ''remote''] (codes_state ID_remote q cs) bf =
      Some (codes_state ID_none q cs, bf)" for child files path bf
    using assms(1) q
    by (simp add: config_line_def end_line_def checkMode_def codes_state_def cur_remote_def parser0_def key_eval)
qed simp_all

section \<open>The comment\<close>

definition comment_ok :: "string \<Rightarrow> string \<Rightarrow> string \<Rightarrow> ir_remote \<Rightarrow> bool" where
  "comment_ok version hw_name date r \<longleftrightarrow> chars_ok version \<and> chars_ok hw_name \<and> chars_ok date \<and>
     length version + length hw_name + length date < 900"

definition comment_text :: "string \<Rightarrow> string \<Rightarrow> string \<Rightarrow> ir_remote \<Rightarrow> string list" where
  "comment_text version hw_name date r =
     [''#'', ''# this config file was automatically generated'',
      ''# using lirc-'' @ version @ ''('' @ hw_name @ '') on '' @ date,
      ''#'', ''# contributed by '', ''#'', ''# brand:                       '' @ name r,
      ''# model no. of remote control: '', ''# devices being controlled by this remote:'', ''#'', '''']"

lemma fprint_comment_text: "fprint_comment version hw_name (date @ nl) r = lines_text (comment_text version hw_name date r)"
  by (simp add: fprint_comment_def comment_text_def)

lemma reads_comments:
  assumes "comment_ok version hw_name date r" "token (name r)" "length (name r) < 500" "\<not> p_error s"
  shows "reads (comment_text version hw_name date r) s s"
proof -
  have l: "list_all line_ok (comment_text version hw_name date r)"
    using assms token_chars [OF assms(2)] by (simp add: comment_text_def comment_ok_def line_ok_chars)
  have "reads [l] s s" if "l \<in> set (comment_text version hw_name date r)" for l
    using that l assms(4) by (intro reads_skip) (auto simp: list_all_iff comment_text_def)
  then have "\<forall>l \<in> set ls. reads [l] s s" if "set ls \<subseteq> set (comment_text version hw_name date r)" for ls
    using that by blast
  moreover have "\<forall>l \<in> set ls. reads [l] s s \<Longrightarrow> reads ls s s" for ls
    by (induction ls) (auto simp: reads_Nil dest: reads_append)
  ultimately show ?thesis by blast
qed

section \<open>A whole remote\<close>

text \<open>A remote of this form has the members that are printed, the others as in a new remote, and
  its codes have no more bits than the remote.\<close>

definition canonical :: "ir_remote \<Rightarrow> bool" where
  "canonical r \<longleftrightarrow> head_ok r \<and> (case codes r of None \<Rightarrow> False | Some cs \<Rightarrow> list_all (button_ok r) cs) \<and>
     r = (printed r)\<lparr>codes := codes r\<rparr> \<and>
     pre_data r AND gen_mask (pre_data_bits r) = pre_data r \<and>
     post_data r AND gen_mask (post_data_bits r) = post_data r"

definition remote_lines :: "string \<Rightarrow> string \<Rightarrow> string \<Rightarrow> ir_remote \<Rightarrow> ir_ncode list \<Rightarrow> string list" where
  "remote_lines version hw_name date r cs =
     comment_text version hw_name date r @ [''begin remote''] @ [''''] @ head_lines r @
     [''      begin codes''] @ map (button_line r) cs @ [''      end codes''] @ [''''] @ [''end remote'']"

lemma concat_lines: "concat (map (\<lambda>l. f l @ nl) ls) = lines_text (map f ls)"
  by (induction ls) simp_all

lemma fprint_remote_lines:
  assumes "\<not> is_raw r" "\<not> is_serial r" "codes r = Some cs"
  shows "fprint_remote version hw_name (date @ nl) r = Some (lines_text (remote_lines version hw_name date r cs))"
  using assms
  by (simp add: fprint_remote_def fprint_remote_signals_def fprint_comment_text fprint_head_lines
      remote_lines_def fprint_remote_signal_head_def fprint_remote_signal_foot_def fprint_remote_foot_def
      concat_lines fprint_button_line)

lemma printed_fields: "codes (printed r) = None" "last_code (printed r) = None"
  by (simp_all add: printed_def mask_read_def repeat_read_def data_read_def lengths_read_def remote0_def)

lemma canonical_sane:
  assumes "canonical r"
  shows "sanityChecks r = Some (True, r)" "last_code r = None"
proof -
  obtain cs where cs: "codes r = Some cs" "list_all (button_ok r) cs"
    using assms by (auto simp: canonical_def split: option.splits)
  have r: "r = (printed r)\<lparr>codes := codes r\<rparr>" using assms by (simp only: canonical_def)
  have m: "map (mask_code r) cs = cs"
    by (rule map_idI) (use cs(2) in \<open>auto simp: button_ok_def list_all_iff\<close>)
  have "name r \<noteq> []" using assms by (auto simp: canonical_def head_ok_def token_def)
  moreover have "r\<lparr>pre_data := pre_data r, post_data := post_data r, codes := Some cs\<rparr> = r" using cs(1) by simp
  ultimately show "sanityChecks r = Some (True, r)"
    using assms cs m by (simp add: sanityChecks_def canonical_def head_ok_def)
  have "last_code ((printed r)\<lparr>codes := codes r\<rparr>) = None" by (simp add: printed_fields)
  then show "last_code r = None" using r by simp
qed

lemma reads_remote:
  assumes "canonical r" "comment_ok version hw_name date r" "codes r = Some cs"
  shows "reads (remote_lines version hw_name date r cs) parser0 (codes_state ID_none r cs)"
proof -
  have h: "head_ok r" "list_all (button_ok r) cs" "(printed r)\<lparr>codes := Some cs\<rparr> = r"
    using assms(1,3) by (auto simp: canonical_def)
  have n: "token (name r)" "length (name r) < 500" using h(1) by (simp_all add: head_ok_def)
  have b: "reads (map (button_line r) cs) (codes_state ID_codes (printed r) []) (codes_state ID_codes (printed r) cs)"
    using reads_buttons [OF h(2), of "printed r" "[]"] by simp
  have e: "reads [''      end codes''] (codes_state ID_codes (printed r) cs) (codes_state ID_remote r cs)"
    using reads_end_codes [of "printed r" cs] h(3) by simp
  have "reads [''''] (codes_state ID_remote r cs) (codes_state ID_remote r cs)" by (rule reads_blank) simp
  moreover have "reads [''''] (in_remote remote0) (in_remote remote0)" by (rule reads_blank) simp
  moreover have "reads (comment_text version hw_name date r) parser0 parser0"
    by (rule reads_comments [OF assms(2) n]) (simp add: parser0_def)
  ultimately show ?thesis
    unfolding remote_lines_def
    using reads_begin_remote reads_head [OF h(1)] reads_begin_codes [OF printed_fields(1)] b e
      reads_end_remote [OF canonical_sane [OF assms(1)], of cs]
    by (intro reads_append)
qed

lemma read_remote_lines:
  assumes "canonical r" "comment_ok version hw_name date r" "codes r = Some cs"
  shows "read_config files path (lines_text (remote_lines version hw_name date r cs)) b =
    do { (r', b') \<leftarrow> finish_remote r b; Some (Some [r'], b') }"
proof -
  let ?ls = "remote_lines version hw_name date r cs"
  note rd = reads_remote [OF assms]
  then have "list_all line_ok ?ls" by (simp only: reads_def)
  then have f: "fgets_lines (LINE_LEN - 1) (lines_text ?ls) = map (\<lambda>l. l @ nl) ?ls"
    using fgets_lines_text by (simp add: LINE_LEN_def)
  have "config_lines child files path (map (\<lambda>l. l @ nl) ?ls) parser0 b = Some (codes_state ID_none r cs, b)" for child
    using rd [unfolded reads_def, THEN conjunct2, rule_format, of child files path "[]" b] by simp
  then have "read_config files path (lines_text ?ls) b =
      do { (rs, b) \<leftarrow> finish_remotes [r] b; Some (Some (sort_by_bit_count rs), b) }"
    unfolding read_config_def
    by (subst read_config_recursive.simps) (simp only: f, simp add: codes_state_def parser0_def)
  then show ?thesis
    by (cases "finish_remote r b") (auto simp: sort_by_bit_count_def)
qed

text \<open>C3: For a remote in canonical form, neither raw nor serial, \<open>config_file.c\<close> reads back what
  \<open>dump_config.c\<close> prints: no line is rejected, and every printed number, flag, gap, mask and button returns with the
  value it had. The result of \<open>read_config\<close> is the one remote that \<open>finish_remote\<close> makes of it, which is what is done
  to every remote at the end of a file: the data of a \<open>REVERSE\<close> remote are turned round, a toggle bit becomes a
  mask, the toggle state and the repeat codes are initialised and the signals measured.\<close>

theorem printed_remote_is_read:
  assumes "canonical r" "comment_ok version hw_name date r"
    and "fprint_remote version hw_name (date @ nl) r = Some text"
  shows "read_config files path text b = do { (r', b') \<leftarrow> finish_remote r b; Some (Some [r'], b') }"
proof -
  obtain cs where cs: "codes r = Some cs" using assms(1) by (auto simp: canonical_def split: option.splits)
  have n: "\<not> is_raw r" "\<not> is_serial r" using assms(1) by (simp_all add: canonical_def head_ok_def)
  have "text = lines_text (remote_lines version hw_name date r cs)"
    using assms(3) fprint_remote_lines [OF n cs] by simp
  then show ?thesis by (simp only: read_remote_lines [OF assms(1,2) cs])
qed

lemma demo_canonical: "canonical demo_remote"
proof -
  have "head_ok demo_remote"
    unfolding head_ok_def
  proof (intro conjI)
    show "flags_ok (flags demo_remote)" by code_simp
    show "lengths_ok demo_remote" by code_simp
    show "data_ok demo_remote" by code_simp
    show "repeat_ok demo_remote" by code_simp
    show "token (name demo_remote)" by code_simp
  qed code_simp+
  moreover have "list_all (button_ok demo_remote) [demo_button ''POWER'' 0x5A, demo_button ''MUTE'' 0x13]"
    by code_simp
  moreover have "demo_remote = (printed demo_remote)\<lparr>codes := codes demo_remote\<rparr>"
    by (simp add: printed_def mask_read_def repeat_read_def data_read_def lengths_read_def demo_remote_def remote0_def)
  moreover have "pre_data demo_remote AND gen_mask (pre_data_bits demo_remote) = pre_data demo_remote"
    "post_data demo_remote AND gen_mask (post_data_bits demo_remote) = post_data demo_remote"
    by code_simp+
  ultimately show ?thesis by (simp add: canonical_def demo_remote_def)
qed

lemma printed_remote_is_read_witness:
  "\<exists>text. fprint_remote ''0.9.1'' ''default'' (''today'' @ nl) demo_remote = Some text \<and>
     read_config (\<lambda>_. None) None text init_send_buffer =
       do { (r', b') \<leftarrow> finish_remote demo_remote init_send_buffer; Some (Some [r'], b') }"
proof -
  have "comment_ok ''0.9.1'' ''default'' ''today'' demo_remote" by code_simp
  moreover obtain t where "fprint_remote ''0.9.1'' ''default'' (''today'' @ nl) demo_remote = Some t"
    by (simp add: fprint_remote_def fprint_remote_signals_def demo_remote_def)
  ultimately show ?thesis using printed_remote_is_read [OF demo_canonical] by blast
qed

end
