(* ===== verification/ConfigFacts.thy ===== *)
theory ConfigFacts
  imports PrintRead "HOL-Library.Multiset"
begin

text \<open>
  What reading a configuration file establishes, and where it fails.
\<close>

section \<open>The order of the remotes\<close>

lemma insert_by_bits_sorted:
  assumes "sorted (map bit_count xs)"
  shows "sorted (map bit_count (insert_by_bits r xs)) \<and> mset (insert_by_bits r xs) = mset (xs @ [r]) \<and>
     (\<forall>k. filter (\<lambda>x. bit_count x = k) (insert_by_bits r xs) = filter (\<lambda>x. bit_count x = k) (xs @ [r]))"
  using assms
proof (induction xs)
  case (Cons x xs)
  have "set (insert_by_bits r ys) = insert r (set ys)" for ys
    by (induction ys) auto
  moreover have "filter (\<lambda>y. bit_count y = bit_count r) xs = []" if "\<not> bit_count x \<le> bit_count r"
    using Cons.prems that by (auto simp: filter_empty_conv)
  ultimately show ?case using Cons by auto
qed simp

lemma sort_fold:
  "sorted (map bit_count ys) \<Longrightarrow>
   sorted (map bit_count (fold insert_by_bits rs ys)) \<and> mset (fold insert_by_bits rs ys) = mset (ys @ rs) \<and>
     (\<forall>k. filter (\<lambda>x. bit_count x = k) (fold insert_by_bits rs ys) = filter (\<lambda>x. bit_count x = k) (ys @ rs))"
proof (induction rs arbitrary: ys)
  case (Cons r rs)
  then show ?case using insert_by_bits_sorted [OF Cons.prems, of r] by auto
qed simp

text \<open>\<open>sort_by_bit_count\<close> is a stable sort by the number of bits: the decoder tries remotes with
  fewer bits first, and remotes with the same number in the order of the file.\<close>

theorem sort_by_bit_count_stable: "sort_by_bit_count rs = sort_key bit_count rs"
proof -
  have "sort_key bit_count rs = fold insert_by_bits rs []"
  proof (rule properties_for_sort_key)
    show "filter (\<lambda>x. bit_count k = bit_count x) (fold insert_by_bits rs []) = filter (\<lambda>x. bit_count k = bit_count x) rs" for k
      using sort_fold [of "[]" rs] by (simp add: eq_commute [of "bit_count k"])
  qed (use sort_fold [of "[]" rs] in auto)
  then show ?thesis by (simp add: sort_by_bit_count_def)
qed


section \<open>Sane remotes\<close>

text \<open>What \<open>sanityChecks\<close> establishes.\<close>

definition masked_code :: "int \<Rightarrow> ir_ncode \<Rightarrow> bool" where
  "masked_code n c \<longleftrightarrow> nc_code c AND gen_mask n = nc_code c \<and> list_all (\<lambda>d. d AND gen_mask n = d) (nc_nodes c)"

definition sane :: "ir_remote \<Rightarrow> bool" where
  "sane r \<longleftrightarrow> name r \<noteq> [] \<and>
     (is_raw r \<or> (case codes r of None \<Rightarrow> False | Some cs \<Rightarrow> list_all (masked_code (bits r)) cs) \<and>
        pre_data r AND gen_mask (pre_data_bits r) = pre_data r \<and>
        post_data r AND gen_mask (post_data_bits r) = post_data r)"

lemma sanityChecks_sane:
  assumes "sanityChecks r = Some (True, r')"
  shows "sane r'"
proof (cases "is_raw r")
  case True
  then show ?thesis using assms by (auto simp: sanityChecks_def sane_def split: if_splits)
next
  case False
  then obtain cs where "codes r = Some cs" "name r \<noteq> []" and r': "r' = r\<lparr>pre_data := pre_data r AND gen_mask (pre_data_bits r),
      post_data := post_data r AND gen_mask (post_data_bits r), codes := Some (map (mask_code r) cs)\<rparr>"
    using assms by (auto simp: sanityChecks_def split: if_splits option.splits bind_splits)
  then show ?thesis
    unfolding r' sane_def by (auto simp: list_all_iff masked_code_def mask_code_def)
qed

lemma sane_same:
  "name r' = name r \<Longrightarrow> flags r' = flags r \<Longrightarrow> codes r' = codes r \<Longrightarrow> bits r' = bits r \<Longrightarrow>
   pre_data r' = pre_data r \<Longrightarrow> pre_data_bits r' = pre_data_bits r \<Longrightarrow>
   post_data r' = post_data r \<Longrightarrow> post_data_bits r' = post_data_bits r \<Longrightarrow> sane r' = sane r"
  by (simp add: sane_def is_raw_def cong: option.case_cong)

lemma sane_last_code: "sane r \<Longrightarrow> sane (r\<lparr>last_code := x\<rparr>)"
  by (simp add: sane_same [of "r\<lparr>last_code := x\<rparr>" r])

definition parser_inv :: "parser \<Rightarrow> bool" where
  "parser_inv s \<longleftrightarrow> (if p_remotes s = [] then p_mode s = ID_none else p_cur s = length (p_remotes s) - 1) \<and>
     list_all sane (butlast (p_remotes s)) \<and> (p_mode s = ID_none \<longrightarrow> list_all sane (p_remotes s))"

lemma parser_inv_start: "parser_inv parser0"
  by (simp add: parser_inv_def parser0_def)

text \<open>Steps that change neither the remotes nor the mode, or only the current remote.\<close>

lemma parser_inv_same:
  "parser_inv s \<Longrightarrow> p_remotes s' = p_remotes s \<Longrightarrow> p_cur s' = p_cur s \<Longrightarrow> p_mode s' = p_mode s \<Longrightarrow> parser_inv s'"
  by (simp add: parser_inv_def)

lemma parser_inv_inside:
  "parser_inv s \<Longrightarrow> p_mode s \<noteq> ID_none \<Longrightarrow> p_mode s' \<noteq> ID_none \<Longrightarrow> p_remotes s' = p_remotes s \<Longrightarrow> p_cur s' = p_cur s \<Longrightarrow>
   parser_inv s'"
  by (auto simp: parser_inv_def split: if_splits)

lemma parser_inv_set_cur:
  assumes "parser_inv s" "p_mode s \<noteq> ID_none"
  shows "parser_inv (set_cur r s)"
proof -
  have "p_remotes s \<noteq> []" "p_cur s = length (p_remotes s) - 1" "list_all sane (butlast (p_remotes s))"
    using assms by (auto simp: parser_inv_def split: if_splits)
  moreover from this have "butlast ((p_remotes s)[p_cur s := r]) = butlast (p_remotes s)"
    by (metis butlast_list_update last_list_update length_list_update)
  ultimately show ?thesis using assms(2) by (simp add: parser_inv_def set_cur_def)
qed

lemma parser_inv_begin:
  assumes "parser_inv s" "p_mode s = ID_none"
  shows "parser_inv (append_remotes [r] (s\<lparr>p_mode := ID_remote\<rparr>))"
  using assms by (cases "p_remotes s = []") (auto simp: parser_inv_def append_remotes_def)

lemma parser_inv_end:
  assumes "parser_inv s" "p_mode s \<noteq> ID_none" "sane r"
  shows "parser_inv (s\<lparr>p_remotes := take (p_cur s) (p_remotes s) @ [r], p_mode := ID_none\<rparr>)"
proof -
  have "p_remotes s \<noteq> []" "p_cur s = length (p_remotes s) - 1" "list_all sane (butlast (p_remotes s))"
    using assms by (auto simp: parser_inv_def split: if_splits)
  then show ?thesis using assms(3) by (auto simp: parser_inv_def butlast_conv_take)
qed

lemma add_code_line_same:
  "p_remotes (add_code_line key vals s) = p_remotes s" "p_cur (add_code_line key vals s) = p_cur s"
  "p_mode (add_code_line key vals s) = p_mode s"
  by (auto simp: add_code_line_def Let_def split: list.splits prod.splits)

lemma add_signals_same:
  "p_remotes (add_signals ts s) = p_remotes s \<and> p_cur (add_signals ts s) = p_cur s \<and>
   p_mode (add_signals ts s) = p_mode s"
  by (induction ts arbitrary: s) (auto simp: parse_fail_def split: prod.splits)

lemma finish_raw_same:
  "p_remotes (finish_raw s) = p_remotes s" "p_cur (finish_raw s) = p_cur s" "p_mode (finish_raw s) = p_mode s"
  by (simp_all add: finish_raw_def)

lemma parse_fail_inv: "parser_inv s \<Longrightarrow> parser_inv (parse_fail s)"
  by (rule parser_inv_same) (simp_all add: parse_fail_def)

lemma parser_inv_begin_line:
  assumes "parser_inv s" "begin_line key val rest s = Some s'"
  shows "parser_inv s'"
proof -
  have c: "parser_inv (s\<lparr>p_codes := [], p_mode := ID_codes\<rparr>)" if "p_mode s = ID_remote"
    by (rule parser_inv_inside [OF assms(1)]) (use that in simp_all)
  have r: "parser_inv ((set_cur (set_protocol r RAW_CODES) s)\<lparr>p_raw_code := (p_raw_code s)\<lparr>nc_code := 0\<rparr>, p_raw := [],
      p_mode := ID_raw_codes\<rparr>)" if "p_mode s = ID_remote" for r
    by (rule parser_inv_inside [OF parser_inv_set_cur [OF assms(1)], of "set_protocol r RAW_CODES"])
      (use that in \<open>simp_all add: set_cur_def\<close>)
  show ?thesis
    using assms c r parse_fail_inv [OF assms(1)] parser_inv_begin [OF assms(1)]
      parser_inv_same [OF assms(1) add_code_line_same]
    by (auto simp: begin_line_def checkMode_def split: if_splits option.splits bind_splits)
qed

lemma parser_inv_end_line:
  assumes "parser_inv s" "end_line key val rest s = Some s'"
  shows "parser_inv s'"
proof -
  have cur: "parser_inv ((set_cur r t)\<lparr>p_mode := ID_remote\<rparr>)" if "parser_inv t" "p_mode t \<noteq> ID_none" for r t
    by (rule parser_inv_inside [OF parser_inv_set_cur [OF that], of r]) (use that in \<open>simp_all add: set_cur_def\<close>)
  have fr: "parser_inv ((finish_raw s)\<lparr>p_mode := ID_raw_codes\<rparr>)" if "p_mode s = ID_raw_name"
    by (rule parser_inv_inside [OF assms(1)]) (use that in \<open>simp_all add: finish_raw_same\<close>)
  have e: "parser_inv (s\<lparr>p_remotes := take (p_cur s) (p_remotes s) @ [r'\<lparr>last_code := None\<rparr>], p_mode := ID_none\<rparr>)"
    if "p_mode s = ID_remote" "sanityChecks r = Some (True, r')" for r r'
    by (rule parser_inv_end [OF assms(1)]) (use that sanityChecks_sane [OF that(2)] sane_last_code in simp_all)
  show ?thesis
    using assms cur [OF assms(1)] cur [OF fr] fr e parse_fail_inv [OF assms(1)] parse_fail_inv [OF fr]
      parser_inv_same [OF assms(1) add_code_line_same]
    by (auto simp: end_line_def checkMode_def Let_def split: if_splits option.splits bind_splits)
qed


lemma bind_Some_prod: "(x \<bind> (\<lambda>(a, b). f a b)) = Some y \<longleftrightarrow> (\<exists>a b. x = Some (a, b) \<and> f a b = Some y)"
  by (cases x) auto

lemma parser_inv_raw_line:
  assumes "parser_inv s" "p_mode s = ID_raw_codes \<or> p_mode s = ID_raw_name"
  shows "parser_inv (raw_line key val rest s)"
proof -
  have "parser_inv (t\<lparr>p_raw_code := c, p_signals := [], p_mode := ID_raw_name\<rparr>)"
    if "p_remotes t = p_remotes s" "p_cur t = p_cur s" "p_mode t = p_mode s" for t c
    by (rule parser_inv_inside [OF assms(1)]) (use that assms(2) in auto)
  then show ?thesis
    using parse_fail_inv [OF assms(1)] parser_inv_same [OF assms(1), of "add_signals (key # val # rest) s"]
      add_signals_same [of "key # val # rest" s]
    by (simp add: raw_line_def Let_def finish_raw_same)
qed

lemma parser_inv_config_line:
  assumes "parser_inv s" "config_line child (\<lambda>_. None) path toks s b = Some (s', b')"
  shows "parser_inv s' \<and> b' = b"
proof (cases toks rule: remdups_adj.cases)
  case 1
  then show ?thesis using assms by (simp add: config_line_def)
next
  case (2 key)
  then show ?thesis
    using assms parse_fail_inv [OF assms(1)] parser_inv_same [OF assms(1), of "add_signals [key] s"]
      add_signals_same [of "[key]" s]
    by (auto simp: config_line_def split: if_splits)
next
  case (3 key val rest)
  have inc: "parser_inv s' \<and> b' = b" if "include_line child (\<lambda>_. None) path val s b = Some (s', b')"
    using that assms(1) parse_fail_inv [OF assms(1)] by (auto simp: include_line_def split: option.splits)
  have bg: "parser_inv s' \<and> b' = b" if "map_option (\<lambda>s. (s, b)) (begin_line key val rest s) = Some (s', b')"
    using that parser_inv_begin_line [OF assms(1)] by auto
  have en: "parser_inv s' \<and> b' = b" if "map_option (\<lambda>s. (s, b)) (end_line key val rest s) = Some (s', b')"
    using that parser_inv_end_line [OF assms(1)] by auto
  have rem: "parser_inv ((set_cur r s)\<lparr>p_error := e\<rparr>)" if "p_mode s \<noteq> ID_none" for r e
    by (rule parser_inv_same [OF parser_inv_set_cur [OF assms(1) that], of _ r]) (simp_all add: set_cur_def)
  have ac: "parser_inv (add_code_line key vs s)" for vs
    by (rule parser_inv_same [OF assms(1) add_code_line_same])
  show ?thesis
  proof (cases "strcaseeq ''include'' key \<or> strcaseeq ''begin'' key \<or> strcaseeq ''end'' key")
    case True
    then show ?thesis
      using assms(2) 3 inc bg en by (auto simp: config_line_def split: if_splits)
  next
    case False
    then show ?thesis
      using assms 3 rem ac parser_inv_raw_line [OF assms(1)]
      by (cases "p_mode s") (auto simp: config_line_def Let_def split: option.splits prod.splits bind_splits)
  qed
qed

lemma parser_inv_config_lines:
  "parser_inv s \<Longrightarrow> config_lines child (\<lambda>_. None) path ls s b = Some (s', b') \<Longrightarrow> parser_inv s' \<and> b' = b"
proof (induction child "\<lambda>_ :: string. None :: string option" path ls s b rule: config_lines.induct)
  case (2 child path l ls s b)
  let ?t = "strip_line l"
  show ?case
  proof (cases "line_too_long l")
    case True
    then show ?thesis using 2 parse_fail_inv by auto
  next
    case long: False
    show ?thesis
    proof (cases "?t \<noteq> [] \<and> hd ?t = CHR ''#''")
      case True
      then show ?thesis using 2 long by (simp add: Let_def)
    next
      case False
      then obtain t c where t: "config_line child (\<lambda>_. None) path (blank_tokens ?t) s b = Some (t, c)"
        "(if p_error t then Some (t, c) else config_lines child (\<lambda>_. None) path ls t c) = Some (s', b')"
        using 2 long by (auto simp: Let_def bind_Some_prod)
      then have "parser_inv t \<and> c = b" using parser_inv_config_line 2(3) by blast
      then show ?thesis using 2(2) [OF long refl False, of "(t, c)" t c] t by (auto split: if_splits)
    qed
  qed
qed simp

section \<open>After reading\<close>

lemma masked_reverse: "reverse d n AND gen_mask n = reverse d n"
  by (cases "n \<le> 64") (simp_all add: reverse_masked gen_mask_full)

lemma sane_reverse:
  assumes "sane r" "reverse_remote r = Some r'"
  shows "sane r'"
proof (cases "\<not> is_raw r \<and> flags r AND REVERSE \<noteq> 0")
  case True
  then obtain cs where "codes r = Some cs" "list_all (masked_code (bits r)) cs" and
    r': "r' = r\<lparr>pre_data := (if has_pre r then reverse (pre_data r) (pre_data_bits r) else pre_data r),
        post_data := (if has_post r then reverse (post_data r) (post_data_bits r) else post_data r),
        codes := Some (map (\<lambda>c. c\<lparr>nc_code := reverse (nc_code c) (bits r)\<rparr>) cs),
        flags := (flags r AND NOT REVERSE) OR COMPAT_REVERSE\<rparr>"
    using assms by (auto simp: reverse_remote_def sane_def split: option.splits bind_splits)
  then show ?thesis
    using assms(1) True unfolding r' sane_def
    by (auto simp: list_all_iff masked_code_def masked_reverse)
next
  case False
  then show ?thesis using assms by (auto simp: reverse_remote_def)
qed

lemma measured_same:
  assumes "calculate_signal_lengths r b = Some (r', b')"
  shows "sane r' = sane r \<and> codes r' \<noteq> None"
proof -
  obtain m where r': "r' = set_signal_lengths m (signal_lengths_start r)" and
    c: "codes (signal_lengths_start r) \<noteq> None"
    using assms by (auto simp: calculate_signal_lengths_def Let_def split: bind_splits prod.splits)
  have "name r' = name r" "flags r' = flags r" "codes r' = codes r" "bits r' = bits r" "pre_data r' = pre_data r"
    "pre_data_bits r' = pre_data_bits r" "post_data r' = post_data r" "post_data_bits r' = post_data_bits r"
    by (simp_all add: r' set_signal_lengths_def signal_lengths_start_def)
  moreover from this c have "codes r' \<noteq> None"
    by (simp add: signal_lengths_start_def split: if_splits)
  ultimately show ?thesis by (simp add: sane_same [of r' r])
qed

lemma sane_adjusted:
  "sane (check_min_code_repeat (serial_defaults (start_toggle_state (convert_toggle_bit r)))) = sane r"
proof -
  have "sane (convert_toggle_bit q) = sane q" for q
    by (rule sane_same) (simp_all add: convert_toggle_bit_def Let_def)
  moreover have "sane (start_toggle_state q) = sane q" for q
    by (rule sane_same) (simp_all add: start_toggle_state_def Let_def split: option.splits)
  moreover have "sane (serial_defaults q) = sane q" for q
    by (rule sane_same) (simp_all add: serial_defaults_def Let_def)
  moreover have "sane (check_min_code_repeat q) = sane q" for q
    by (rule sane_same) (simp_all add: check_min_code_repeat_def)
  ultimately show ?thesis by simp
qed

lemma codes_adjusted:
  "codes (check_min_code_repeat (serial_defaults (start_toggle_state (convert_toggle_bit r)))) = codes r"
proof -
  have "codes (convert_toggle_bit q) = codes q" for q by (simp add: convert_toggle_bit_def Let_def)
  moreover have "codes (start_toggle_state q) = codes q" for q
    by (simp add: start_toggle_state_def Let_def split: option.splits)
  moreover have "codes (serial_defaults q) = codes q" for q by (simp add: serial_defaults_def Let_def)
  moreover have "codes (check_min_code_repeat q) = codes q" for q by (simp add: check_min_code_repeat_def)
  ultimately show ?thesis by simp
qed

lemma finish_remote_sane:
  assumes "sane r" "finish_remote r b = Some (r', b')"
  shows "sane r' \<and> codes r' \<noteq> None"
proof -
  obtain q where q: "reverse_remote r = Some q"
    "calculate_signal_lengths (check_min_code_repeat (serial_defaults (start_toggle_state (convert_toggle_bit q)))) b = Some (r', b')"
    using assms(2) by (auto simp: finish_remote_def split: bind_splits)
  then show ?thesis
    using measured_same [OF q(2)] sane_reverse [OF assms(1) q(1)] by (simp add: sane_adjusted)
qed

lemma finish_remotes_sane:
  "list_all sane rs \<Longrightarrow> finish_remotes rs b = Some (rs', b') \<Longrightarrow> list_all (\<lambda>r. sane r \<and> codes r \<noteq> None) rs'"
proof (induction rs arbitrary: b rs')
  case (Cons r rs)
  then show ?case using finish_remote_sane by (fastforce simp: bind_Some_prod)
qed simp

text \<open>C34: A configuration file that includes no other file yields, if it is accepted, remotes in the
  order of their number of bits. Every remote has a name and a list of buttons, which may be empty; and of a remote
  that is not raw no code, pre data or post data has bits beyond its length: what the decoder compares and the
  encoder sends fits its field. The codes of raw remotes are not restricted.\<close>

theorem read_config_sane:
  assumes "read_config (\<lambda>_. None) path text b = Some (Some rs, b')"
  shows "sorted (map bit_count rs) \<and> list_all (\<lambda>r. sane r \<and> codes r \<noteq> None) rs"
proof -
  obtain s c rs' where s: "config_lines (Some (\<lambda>path text. read_config_recursive (\<lambda>_. None) MAX_INCLUDES (Some path) text))
      (\<lambda>_. None) path (fgets_lines (LINE_LEN - 1) text) parser0 b = Some (s, c)"
    "p_mode s = ID_none" "finish_remotes (p_remotes s) c = Some (rs', b')" "rs = sort_by_bit_count rs'"
    using assms unfolding read_config_def
    by (subst (asm) read_config_recursive.simps) (auto simp: bind_Some_prod split: if_splits)
  have "list_all sane (p_remotes s)"
    using parser_inv_config_lines [OF parser_inv_start s(1)] s(2) by (simp add: parser_inv_def)
  then have "list_all (\<lambda>r. sane r \<and> codes r \<noteq> None) rs'" using finish_remotes_sane s(3) by blast
  moreover have "set rs = set rs'"
    using sort_fold [of "[]" rs'] s(4) by (simp add: sort_by_bit_count_def flip: set_mset_mset)
  ultimately show ?thesis
    using sort_fold [of "[]" rs'] s(4) by (simp add: sort_by_bit_count_def list_all_iff)
qed

lemma tiny_canonical: "canonical tiny_remote"
proof -
  have "head_ok tiny_remote" unfolding head_ok_def by (intro conjI; code_simp)
  moreover have "list_all (button_ok tiny_remote) [tiny_button]" by code_simp
  moreover have "tiny_remote = (printed tiny_remote)\<lparr>codes := codes tiny_remote\<rparr>"
    by (simp add: printed_def mask_read_def repeat_read_def data_read_def lengths_read_def tiny_remote_def remote0_def)
  moreover have "pre_data tiny_remote AND gen_mask (pre_data_bits tiny_remote) = pre_data tiny_remote"
    "post_data tiny_remote AND gen_mask (post_data_bits tiny_remote) = post_data tiny_remote"
    by code_simp+
  ultimately show ?thesis by (simp add: canonical_def tiny_remote_def)
qed

lemma tiny_measured: "finish_remote tiny_remote init_send_buffer \<noteq> None"
proof -
  have "map_option (\<lambda>(r, b). min_total_signal_length r) (finish_remote tiny_remote init_send_buffer) = Some 117"
    by code_simp
  then show ?thesis by auto
qed

definition tiny_text :: string where
  "tiny_text = lines_text (remote_lines ''0.9.1'' ''default'' ''today'' tiny_remote [tiny_button])"

lemma read_config_sane_witness:
  "\<exists>r b. read_config (\<lambda>_. None) None tiny_text init_send_buffer = Some (Some [r], b) \<and>
     name r \<noteq> [] \<and> sane r \<and> codes r \<noteq> None"
proof -
  have c: "comment_ok ''0.9.1'' ''default'' ''today'' tiny_remote" by code_simp
  obtain r b where "finish_remote tiny_remote init_send_buffer = Some (r, b)"
    using tiny_measured by auto
  then have "read_config (\<lambda>_. None) None tiny_text init_send_buffer = Some (Some [r], b)"
    using read_remote_lines [OF tiny_canonical c, of "[tiny_button]"] by (simp add: tiny_text_def tiny_remote_def)
  then show ?thesis using read_config_sane by (fastforce simp: sane_def)
qed

section \<open>Limits that are not checked\<close>

lemma fgets_from_length:
  "length acc + k \<le> n \<Longrightarrow> 1 \<le> k \<Longrightarrow> list_all (\<lambda>l. length l \<le> n) (fgets_from n k acc cs)"
proof (induction n k acc cs rule: fgets_from.induct)
  case (2 n k acc c cs)
  then show ?case by auto
qed simp

text \<open>The check for lines that are too long never applies: \<open>fgets\<close> is asked for strings of fewer
  than \<open>LINE_LEN\<close> characters, so none of them has \<open>LINE_LEN\<close>. A longer line is read in pieces.\<close>

theorem no_line_too_long: "list_all (\<lambda>l. \<not> line_too_long l) (fgets_lines (LINE_LEN - 1) text)"
proof -
  have "list_all (\<lambda>l. length l \<le> 1023) (fgets_from 1023 1023 [] text)"
    by (rule fgets_from_length) simp_all
  then have t: "length (takeWhile P l) \<le> 1023" if "l \<in> set (fgets_from 1023 1023 [] text)" for l P
    using that length_takeWhile_le [of P l] by (fastforce simp: list_all_iff)
  have "length l \<noteq> LINE_LEN" if "l \<in> set (fgets_lines (LINE_LEN - 1) text)" for l
  proof -
    from that obtain m where "l = takeWhile (\<lambda>c. c \<noteq> CHR 0x00) m" "m \<in> set (fgets_from 1023 1023 [] text)"
      by (auto simp: fgets_lines_def LINE_LEN_def)
    then have "length l \<le> 1023" using t by blast
    then show ?thesis by (simp add: LINE_LEN_def)
  qed
  then show ?thesis by (simp add: list_all_iff line_too_long_def)
qed

text \<open>A number that does not fit the 32 bit members \<open>gap\<close>, \<open>frequency\<close> or a pulse length is not
  refused but loses its upper bits, although the error messages promise a valid 32 bit number.\<close>

theorem wide_numbers_truncated:
  assumes "0 \<le> n" "n < 18446744073709551616"
  shows "s_strtou32 (show_dec n) = (word_of_int n, True) \<and> s_strtoui (show_dec n) = (word_of_int n, True) \<and>
     s_strtolirc_t (show_dec n) = (i32 n, True)"
proof -
  have t: "strtoull (show_dec n) = (word_of_int n, [], False)"
    by (rule strtoull_value [OF scan_show_dec(1)]) (use assms in auto)
  have u: "(ucast (word_of_int n :: 64 word) :: u32) = word_of_int n"
    by (rule bit_word_eqI) (simp add: bit_ucast_iff bit_word_of_int_iff)
  show ?thesis
    using show_dec_digits(2) [OF assms]
    by (simp add: s_strtou32_def s_strtoui_def s_strtolirc_t_def t u i32_sint)
qed

lemma wide_numbers_truncated_witness:
  "s_strtou32 ''4294967396'' = (100, True) \<and> s_strtolirc_t ''4294967396'' = (100, True)"
proof -
  have d: "show_dec 4294967396 = ''4294967396''" by code_simp
  have "(word_of_int 4294967396 :: u32) = 100" "i32 4294967396 = 100" by (simp_all add: i32_def)
  then show ?thesis using wide_numbers_truncated [of 4294967396] unfolding d by simp
qed

text \<open>A path that \<open>lirc_parse_relative\<close> composes fits the buffer it is copied to: it is the path of
  the file itself when this is absolute or nothing is known of the including file, and shorter
  than the buffer otherwise.\<close>

theorem relative_path_fits:
  assumes "lirc_parse_relative n child cur = Some p"
  shows "p = child \<and> (cur = None \<or> hd child = CHR ''/'') \<or> length p < n"
  using assms by (auto simp: lirc_parse_relative_def Let_def split: option.splits if_splits)

lemma relative_path_fits_witness:
  "lirc_parse_relative (FILENAME_MAX + 1) ''tv.conf'' (Some ''/etc/lirc/lircd.conf'') = Some ''/etc/lirc/tv.conf'' \<and>
   length ''/etc/lirc/tv.conf'' < FILENAME_MAX + 1"
proof -
  have p: "lirc_parse_relative (FILENAME_MAX + 1) ''tv.conf'' (Some ''/etc/lirc/lircd.conf'') = Some ''/etc/lirc/tv.conf''"
    by (simp add: lirc_parse_relative_def FILENAME_MAX_def dirname_def strip_slashes_def Let_def)
  then show ?thesis using relative_path_fits [OF p] by simp
qed

section \<open>Defects\<close>

text \<open>A remote without a section of codes stops the daemon: \<open>end remote\<close> dereferences the NULL
  pointer \<open>codes\<close>, or the measurement of the signals does when the remote is raw.\<close>

theorem codes_missing_faults:
  assumes "p_mode s = ID_remote" "cur_remote s = Some r" "name r \<noteq> []" "codes r = None"
  shows "(\<not> is_raw r \<longrightarrow> config_line child files path [''end'', ''remote''] s b = None) \<and>
     finish_remote r b = None"
proof -
  have "calculate_signal_lengths q b = None" if "codes q = None" for q
    using that by (simp add: calculate_signal_lengths_def signal_lengths_start_def)
  then have "finish_remote r b = None"
    using assms(4) by (simp add: finish_remote_def reverse_remote_def codes_adjusted)
  moreover have "config_line child files path [''end'', ''remote''] s b =
      map_option (\<lambda>s. (s, b)) (end_line ''end'' ''remote'' [] s)"
    by (simp add: config_line_def key_eval)
  moreover have "\<not> strcaseeq ''codes'' ''remote''" "\<not> strcaseeq ''raw_codes'' ''remote''" by (simp_all add: key_eval)
  then have "end_line ''end'' ''remote'' [] s = None" if "\<not> is_raw r"
    using that assms by (simp add: end_line_def checkMode_def sanityChecks_def)
  ultimately show ?thesis by simp
qed

lemma codes_missing_faults_witness:
  "config_line None (\<lambda>_. None) None [''end'', ''remote''] (in_remote (remote0\<lparr>name := ''TV''\<rparr>)) init_send_buffer = None"
proof -
  have "\<not> is_raw (remote0\<lparr>name := ''TV''\<rparr>)" by code_simp
  then show ?thesis
    using codes_missing_faults [of "in_remote (remote0\<lparr>name := ''TV''\<rparr>)" "remote0\<lparr>name := ''TV''\<rparr>" None "\<lambda>_. None" None init_send_buffer]
    by (simp add: in_remote_def cur_remote_def parser0_def remote0_def)
qed

text \<open>Of the remotes of an included file only the first one stays in the list when another remote
  or file follows: the parser goes on from the first included remote, and appending cuts the list
  behind it.\<close>

theorem include_keeps_first:
  assumes "p_remotes s = [] \<or> p_cur s = length (p_remotes s) - 1"
  shows "p_remotes (append_remotes ts (append_remotes (r # rs) s)) = p_remotes s @ r # ts"
  using assms by (auto simp: append_remotes_def)

lemma include_keeps_first_witness:
  "p_remotes (append_remotes [demo_remote] (append_remotes [tiny_remote, demo_remote, tiny_remote] parser0)) =
     [tiny_remote, demo_remote]"
  using include_keeps_first [of parser0 "[demo_remote]" tiny_remote "[demo_remote, tiny_remote]"]
  by (simp add: parser0_def)

end
