(* ===== verification/LengthFacts.thy ===== *)
theory LengthFacts
  imports PrintRead TxFacts
begin

text \<open>
  The signal lengths that \<open>calculate_signal_lengths\<close> stores are those of the signals that are sent.
\<close>

definition code_sums :: "ir_remote \<Rightarrow> ir_ncode \<Rightarrow> int list" where
  "code_sums r c = [sum_list (frame_samples r (nc_code c) False), sum_list (frame_samples r (nc_code c) True)]"

definition signal_sums :: "ir_remote \<Rightarrow> ir_ncode list \<Rightarrow> int list" where
  "signal_sums r cs = concat (map (code_sums r) cs)"

text \<open>Every button can be sent, as a first signal and as a repeat, and is measured as it is.\<close>

definition measurable :: "ir_remote \<Rightarrow> ir_ncode list \<Rightarrow> bool" where
  "measurable r cs \<longleftrightarrow> sendable r \<and> \<not> has_repeat r \<and> length_correction r False = 0 \<and>
     list_all (\<lambda>c. list_all (\<lambda>rep. frame_ok r (nc_code c) rep \<and> frame_samples r (nc_code c) rep \<noteq> []) [False, True]) cs"

lemma measure_samples_same:
  "min_signal (measure_samples xs m) = min_signal m \<and> max_signal (measure_samples xs m) = max_signal m \<and>
   first_sum (measure_samples xs m) = first_sum m"
  unfolding measure_samples_def by (rule fold_invariant_list) (auto split: prod.splits)

text \<open>What has been seen so far.\<close>

definition seen_sums :: "sig_lengths \<Rightarrow> int list \<Rightarrow> bool" where
  "seen_sums m ss \<longleftrightarrow> (if ss = [] then first_sum m
     else \<not> first_sum m \<and> min_signal m = Min (set ss) \<and> max_signal m = Max (set ss))"

lemma seen_sums_step:
  assumes "seen_sums m ss" "0 < x"
  shows "seen_sums (measure_samples xs (measure_sum x m)) (ss @ [x])"
proof (cases "ss = []")
  case True
  then show ?thesis
    using assms by (simp add: seen_sums_def measure_samples_same measure_sum_def)
next
  case False
  then have "Min (insert x (set ss)) = min x (Min (set ss))" "Max (insert x (set ss)) = max x (Max (set ss))"
    by simp_all
  moreover define lo hi where "lo = Min (set ss)" "hi = Max (set ss)"
  ultimately have "Min (insert x (set ss)) = min x lo" "Max (insert x (set ss)) = max x hi"
    "min_signal m = lo" "max_signal m = hi" "\<not> first_sum m"
    using assms(1) False by (simp_all add: seen_sums_def)
  then show ?thesis
    using assms(2) False by (simp add: seen_sums_def measure_samples_same measure_sum_def min_def max_def)
qed

lemma sum_list_pos: "\<forall>x \<in> set xs. (0 :: int) < x \<Longrightarrow> xs \<noteq> [] \<Longrightarrow> 0 < sum_list xs"
  by (induction xs) (auto intro: add_pos_nonneg sum_list_nonneg less_imp_le)

lemma measure_run_seen:
  assumes "measurable r [c]" "seen_sums m ss"
  shows "\<exists>m' b'. measure_run r c rep (m, b) = Some (m', b') \<and>
     seen_sums m' (ss @ [sum_list (frame_samples r (nc_code c) rep)])"
proof -
  let ?xs = "frame_samples r (nc_code c) rep"
  have r: "sendable r" "\<not> (rep \<and> has_repeat r)" "frame_ok r (nc_code c) rep" "?xs \<noteq> []"
    "length_correction r rep = 0"
    using assms(1) by (cases rep; auto simp: measurable_def length_correction_def)+
  obtain b' where b': "init_sim False r c rep b = Some (True, r, c, b')" "buffer_samples b' = Some ?xs"
    "ssum b' = sum_list ?xs"
    using init_sim_samples [OF r(1,3,2,4), of False b] r(5) by auto
  have "0 < sum_list ?xs" using sum_list_pos [OF frame_samples_pos [OF r(3)] r(4)] .
  then show ?thesis using seen_sums_step [OF assms(2)] b' by (simp add: measure_run_def)
qed

lemma measure_runs_seen:
  "measurable r cs \<Longrightarrow> seen_sums m ss \<Longrightarrow>
   \<exists>m' b'. measure_runs r cs (m, b) = Some (m', b') \<and> seen_sums m' (ss @ signal_sums r cs)"
proof (induction cs arbitrary: m ss b)
  case (Cons c cs)
  have one: "measurable r [c]" and more: "measurable r cs" using Cons.prems(1) by (simp_all add: measurable_def)
  obtain m1 b1 where 1: "measure_run r c False (m, b) = Some (m1, b1)"
    "seen_sums m1 (ss @ [sum_list (frame_samples r (nc_code c) False)])"
    using measure_run_seen [OF one Cons.prems(2)] by blast
  obtain m2 b2 where 2: "measure_run r c True (m1, b1) = Some (m2, b2)"
    "seen_sums m2 (ss @ code_sums r c)"
    using measure_run_seen [OF one 1(2), of True b1] by (auto simp: code_sums_def)
  then show ?case using Cons.IH [OF more 2(2), of b2] 1(1) by (simp add: signal_sums_def)
qed (simp add: signal_sums_def)

lemma start_form:
  obtains w x y z where "signal_lengths_start r = r\<lparr>min_total_signal_length := w, max_total_signal_length := x,
    min_gap_length := y, max_gap_length := z\<rparr>"
proof (cases "is_const r")
  case True
  then show ?thesis
    using that [where w = "min_gap r" and x = "max_gap r" and y = "min_gap_length r" and z = "max_gap_length r"]
    by (simp add: signal_lengths_start_def)
next
  case False
  then show ?thesis
    using that [where w = "min_total_signal_length r" and x = "max_total_signal_length r" and y = "min_gap r" and z = "max_gap r"]
    by (simp add: signal_lengths_start_def)
qed

lemma start_same:
  "frame_samples (signal_lengths_start r) = frame_samples r" "frame_ok (signal_lengths_start r) = frame_ok r"
  "sendable (signal_lengths_start r) = sendable r" "has_repeat (signal_lengths_start r) = has_repeat r"
  "length_correction (signal_lengths_start r) = length_correction r" "codes (signal_lengths_start r) = codes r"
  "is_const (signal_lengths_start r) = is_const r" "min_gap (signal_lengths_start r) = min_gap r"
  "max_gap (signal_lengths_start r) = max_gap r"
proof -
  obtain w x y z where q: "signal_lengths_start r = r\<lparr>min_total_signal_length := w, max_total_signal_length := x,
      min_gap_length := y, max_gap_length := z\<rparr>" by (rule start_form)
  let ?q = "r\<lparr>min_total_signal_length := w, max_total_signal_length := x, min_gap_length := y, max_gap_length := z\<rparr>"
  have t: "toggled_bit ?q = toggled_bit r"
    by (intro ext) (simp add: toggled_bit_def ir_preds cong: if_cong)
  have d: "data_toks ?q = data_toks r"
    by (intro ext) (simp add: data_toks_def field_toks_def bit_toks_def one_toks_def zero_toks_def t
        ir_preds bit_count_def cong: if_cong)
  have c: "code_toks ?q = code_toks r"
    by (intro ext) (simp add: code_toks_def header_toks_def lead_toks_def pre_toks_def post_toks_def
        trail_toks_def foot_toks_def d ir_preds)
  show "frame_samples (signal_lengths_start r) = frame_samples r" "frame_ok (signal_lengths_start r) = frame_ok r"
    unfolding q
    by (intro ext; simp add: frame_samples_def frame_ok_def c plain_bits_def field_sizes_ok_def ir_preds)+
  show "sendable (signal_lengths_start r) = sendable r" "has_repeat (signal_lengths_start r) = has_repeat r"
    "codes (signal_lengths_start r) = codes r" "min_gap (signal_lengths_start r) = min_gap r"
    "max_gap (signal_lengths_start r) = max_gap r" "is_const (signal_lengths_start r) = is_const r"
    "length_correction (signal_lengths_start r) = length_correction r"
    unfolding q by (auto simp: sendable_def ir_preds min_gap_def max_gap_def length_correction_def)
qed

lemma sdiff_range: "0 < m \<Longrightarrow> (m :: int) < sint (g :: u32) \<Longrightarrow> i32_range (sint g - m)"
  using sint32_range [of g] by (simp add: i32_range_def)

lemma gap_is_sint: "\<exists>w :: u32. min_gap r = sint w" "\<exists>w :: u32. max_gap r = sint w"
  by (auto simp: min_gap_def max_gap_def)

text \<open>C35: \<open>calculate_signal_lengths\<close> measures the signals by a dry run of the encoder: over all codes
  of all buttons, each as a first signal and as a repeat, it stores the shortest and the longest
  total length, and the gaps that go with them; for remotes of constant length the gap is what is
  left of the total, and never negative. The remotes are those whose signals are made of bits and that have no
  signal of their own for repeats: not raw, serial, B&O, Grundig, Goldstar, RC-MM or XMP, not both \<open>NO_HEAD_REP\<close> and
  \<open>CONST_LENGTH\<close>, with at least one button, every signal fitting the buffer (\<open>measurable\<close>) and sums below \<open>2 ^ 31\<close>.\<close>

theorem signal_lengths_measured:
  assumes "codes r = Some cs" "cs \<noteq> []" "measurable r (all_codes cs)"
    and "\<not> is_const r \<Longrightarrow> Min (set (signal_sums r (all_codes cs))) + min_gap r < 2147483648 \<and>
        Max (set (signal_sums r (all_codes cs))) + max_gap r < 2147483648"
  shows "\<exists>r' b'. calculate_signal_lengths r b = Some (r', b') \<and>
    (let shortest = Min (set (signal_sums r (all_codes cs))); longest = Max (set (signal_sums r (all_codes cs))) in
     if is_const r
     then min_total_signal_length r' = min_gap r \<and> max_total_signal_length r' = max_gap r \<and>
       min_gap_length r' = max 0 (min_gap r - longest) \<and> max_gap_length r' = max 0 (max_gap r - shortest)
     else min_gap_length r' = min_gap r \<and> max_gap_length r' = max_gap r \<and>
       min_total_signal_length r' = shortest + min_gap r \<and> max_total_signal_length r' = longest + max_gap r)"
proof -
  let ?q = "signal_lengths_start r" and ?ss = "signal_sums r (all_codes cs)"
  obtain c cs' where ac: "all_codes cs = c # cs'" using assms(2) by (cases cs) (auto simp: all_codes_def)
  have ne: "?ss \<noteq> []" by (simp add: ac signal_sums_def code_sums_def)
  have s: "signal_sums ?q (all_codes cs) = ?ss" by (simp add: signal_sums_def code_sums_def [abs_def] start_same)
  have "measurable ?q (all_codes cs)" using assms(3) by (simp add: measurable_def start_same)
  moreover have "seen_sums sig_lengths0 []" by (simp add: seen_sums_def sig_lengths0_def)
  ultimately obtain m b' where m: "measure_runs ?q (all_codes cs) (sig_lengths0, b) = Some (m, b')"
    "seen_sums m ?ss"
    using measure_runs_seen [of ?q "all_codes cs" sig_lengths0 "[]" b] s by auto
  have v: "\<not> first_sum m" "min_signal m = Min (set ?ss)" "max_signal m = Max (set ?ss)"
    using m(2) ne by (simp_all add: seen_sums_def)
  have pos: "0 < x" if "x \<in> set ?ss" for x
  proof -
    have "0 < sum_list (frame_samples r (nc_code d) rep)" if "d \<in> set (all_codes cs)" for d rep
    proof -
      have "frame_ok r (nc_code d) rep" "frame_samples r (nc_code d) rep \<noteq> []"
        using assms(3) that by (cases rep; auto simp: measurable_def list_all_iff)+
      then show ?thesis using sum_list_pos frame_samples_pos by blast
    qed
    then show ?thesis using that by (auto simp: signal_sums_def code_sums_def)
  qed
  have mm: "0 < Min (set ?ss)" "0 < Max (set ?ss)" "Min (set ?ss) \<le> Max (set ?ss)"
    using pos ne Min_in [of "set ?ss"] Max_in [of "set ?ss"] by auto
  obtain g g' :: u32 where g: "min_gap r = sint g" "max_gap r = sint g'" using gap_is_sint by blast
  have c: "calculate_signal_lengths r b = Some (set_signal_lengths m ?q, b')"
    using assms(1) m(1) by (simp add: calculate_signal_lengths_def start_same)
  define lo hi where lh: "lo = Min (set ?ss)" "hi = Max (set ?ss)"
  note v = v [folded lh] and mm = mm [folded lh] and fits = assms(4) [folded lh]
  show ?thesis
    unfolding lh [symmetric] Let_def
  proof (cases "is_const r")
    case True
    then have "min_total_signal_length ?q = sint g" "max_total_signal_length ?q = sint g'"
      by (simp_all add: signal_lengths_start_def g)
    then show "\<exists>r' b'. calculate_signal_lengths r b = Some (r', b') \<and>
      (if is_const r then min_total_signal_length r' = min_gap r \<and> max_total_signal_length r' = max_gap r \<and>
         min_gap_length r' = max 0 (min_gap r - hi) \<and> max_gap_length r' = max 0 (max_gap r - lo)
       else min_gap_length r' = min_gap r \<and> max_gap_length r' = max_gap r \<and>
         min_total_signal_length r' = lo + min_gap r \<and> max_total_signal_length r' = hi + max_gap r)"
      using True c v mm sdiff_range [of hi g] sdiff_range [of lo g']
      by (simp add: set_signal_lengths_def start_same g max_def)
  next
    case False
    then have "min_gap_length ?q = sint g" "max_gap_length ?q = sint g'"
      by (simp_all add: signal_lengths_start_def g)
    moreover have "i32_range (lo + sint g)" "i32_range (hi + sint g')"
      using fits [OF False] mm sint32_range [of g] sint32_range [of g'] by (simp_all add: g i32_range_def)
    ultimately show "\<exists>r' b'. calculate_signal_lengths r b = Some (r', b') \<and>
      (if is_const r then min_total_signal_length r' = min_gap r \<and> max_total_signal_length r' = max_gap r \<and>
         min_gap_length r' = max 0 (min_gap r - hi) \<and> max_gap_length r' = max 0 (max_gap r - lo)
       else min_gap_length r' = min_gap r \<and> max_gap_length r' = max_gap r \<and>
         min_total_signal_length r' = lo + min_gap r \<and> max_total_signal_length r' = hi + max_gap r)"
      using False c v by (simp add: set_signal_lengths_def start_same g)
  qed
qed

lemma signal_lengths_measured_witness:
  "(\<exists>r' b'. calculate_signal_lengths tiny_remote init_send_buffer = Some (r', b') \<and>
     min_total_signal_length r' = 117) \<and>
   (\<exists>r' b'. calculate_signal_lengths (tiny_remote\<lparr>flags := SPACE_ENC OR CONST_LENGTH\<rparr>) init_send_buffer = Some (r', b') \<and>
     min_gap_length r' = 83)"
proof -
  let ?q = "tiny_remote\<lparr>flags := SPACE_ENC OR CONST_LENGTH\<rparr>"
  have c: "codes tiny_remote = Some [tiny_button]" "codes ?q = Some [tiny_button]" by (simp_all add: tiny_remote_def)
  have m: "measurable tiny_remote (all_codes [tiny_button])" "measurable ?q (all_codes [tiny_button])" by code_simp+
  have g: "\<not> is_const tiny_remote" "min_gap tiny_remote = 100" "max_gap tiny_remote = 100"
    "is_const ?q" "min_gap ?q = 100" "max_gap ?q = 100" by code_simp+
  have s: "signal_sums tiny_remote (all_codes [tiny_button]) = [17, 17]" "signal_sums ?q (all_codes [tiny_button]) = [17, 17]"
    by code_simp+
  show ?thesis
    using signal_lengths_measured [OF c(1) _ m(1), of init_send_buffer]
      signal_lengths_measured [OF c(2) _ m(2), of init_send_buffer] g s by auto
qed

end
