(* ===== verification/TxBounds.thy ===== *)
theory TxBounds
  imports Transmit Demo
begin

text \<open>
  Two properties of every transmission, whatever the remote: the transmit buffer is never left,
  and the loop that joins signals ends. Both are invariants of the operations that append a pulse
  or a space; a locale states what such an invariant needs and carries it through the encoders.
\<close>

section \<open>Invariants of the encoders\<close>

locale tx_invariant =
  fixes I :: "sbuf \<Rightarrow> bool"
  assumes append: "I b \<Longrightarrow> I (add_send_buffer d b)"
    and pending: "I b \<Longrightarrow> I (b\<lparr>spendingp := d\<rparr>)" "I b \<Longrightarrow> I (b\<lparr>spendings := d\<rparr>)"
    and total: "I b \<Longrightarrow> I (b\<lparr>ssum := d\<rparr>)"
    and remove: "I b \<Longrightarrow> 0 < swptr b \<Longrightarrow> n = swptr b - 1 \<Longrightarrow> I (b\<lparr>swptr := n\<rparr>)"
begin

lemma pulse: "I b \<Longrightarrow> I (send_pulse d b)" by (simp add: send_pulse_def append pending Let_def)
lemma space: "I b \<Longrightarrow> I (send_space d b)" by (simp add: send_space_def append pending Let_def)
lemma flush: "I b \<Longrightarrow> I (flush_send_buffer b)" by (simp add: flush_send_buffer_def append pending Let_def)
lemma sync: "I b \<Longrightarrow> I (sync_send_buffer b)"
  by (auto simp: sync_send_buffer_def append pending Let_def intro!: remove)
lemma header: "I b \<Longrightarrow> I (send_header r b)" by (simp add: send_header_def pulse space)
lemma foot: "I b \<Longrightarrow> I (send_foot r b)" by (simp add: send_foot_def pulse space)
lemma lead: "I b \<Longrightarrow> I (send_lead r b)" by (simp add: send_lead_def pulse)
lemma trail: "I b \<Longrightarrow> I (send_trail r b)" by (simp add: send_trail_def pulse)

lemma rcmm_bits: "I (snd db) \<Longrightarrow> I (snd (fold (send_rcmm_step r) ns db))"
  by (rule fold_invariant_list [where I = "\<lambda>db. I (snd db)"])
    (auto simp: send_rcmm_step_def pulse space split: prod.splits)

lemma xmp_bits: "I (snd db) \<Longrightarrow> I (snd (fold (send_xmp_step r) ns db))"
  by (rule fold_invariant_list [where I = "\<lambda>db. I (snd db)"])
    (auto simp: send_xmp_step_def pulse space Let_def split: prod.splits)

lemma one: "I b \<Longrightarrow> I (send_one r m b)" by (simp add: send_one_def pulse space)
lemma zero: "I b \<Longrightarrow> I (send_zero r m b)" by (simp add: send_zero_def pulse space)

lemma plain_bits: "I (snd (snd dmb)) \<Longrightarrow> I (snd (snd (fold (send_bit_step r) ns dmb)))"
  by (rule fold_invariant_list [where I = "\<lambda>dmb. I (snd (snd dmb))"])
    (auto simp: send_bit_step_def one zero split: prod.splits)

lemma data: "I b \<Longrightarrow> I (send_data r d n k b)"
  by (simp add: send_data_def Let_def rcmm_bits xmp_bits plain_bits)

lemma pre: "I b \<Longrightarrow> I (send_pre r b)" by (simp add: send_pre_def Let_def data pulse space)
lemma post: "I b \<Longrightarrow> I (send_post r b)" by (simp add: send_post_def Let_def data pulse space)

lemma code: "I b \<Longrightarrow> I (send_code r c rep b)"
  by (simp add: send_code_def Let_def header lead pre data post trail foot total)

lemma repeated: "I b \<Longrightarrow> I (send_repeat r b)"
  by (simp add: send_repeat_def lead trail pulse space)

lemma signals: "I b \<Longrightarrow> I (send_signals xs b)"
  unfolding send_signals_def
  by (rule fold_invariant_list) (auto simp: append)

end

text \<open>The two invariants: the array is not left, and the pointer to the samples stays.\<close>

definition in_array :: "sbuf \<Rightarrow> bool" where
  "in_array b \<longleftrightarrow> length (sown b) \<le> 256 \<and> 0 \<le> swptr b"

lemma put_at_bound: "length xs \<le> m \<Longrightarrow> n < m \<Longrightarrow> length (put_at xs n d) \<le> m"
  by (simp add: put_at_def)

interpretation array: tx_invariant in_array
  by unfold_locales (auto simp: in_array_def add_send_buffer_def WBUF_SIZE_def intro!: put_at_bound)

interpretation pointer: tx_invariant "\<lambda>b. sdata b = p" for p
  by unfold_locales (auto simp: add_send_buffer_def)

section \<open>The array\<close>

lemma send_frame_in_array:
  "send_frame sim rep r c b = (ok, r', b') \<Longrightarrow> in_array b \<Longrightarrow> in_array b'"
  by (auto simp: send_frame_def send_raw_def array.repeated array.header array.code array.signals
      split: if_splits option.splits)
    (auto simp: in_array_def array.code [unfolded in_array_def])

lemma set_data_in_array: "in_array b \<Longrightarrow> in_array (b\<lparr>sdata := p\<rparr>)"
  by (simp add: in_array_def)

lemma join_signal_in_array: "join_signal r c b = Some (r', b') \<Longrightarrow> in_array b \<Longrightarrow> in_array b'"
proof -
  assume j: "join_signal r c b = Some (r', b')" and b: "in_array b"
  have "in_array (b\<lparr>sdata := Own_data, swptr := 0\<rparr>)" using b by (simp add: in_array_def)
  then have "unroll_raw b = Some u \<Longrightarrow> in_array u" for u
    using b array.signals by (auto simp: unroll_raw_def split: if_splits bind_splits)
  then show ?thesis
    using j array.total [OF array.flush [OF array.space]] by (auto simp: join_signal_def split: bind_splits)
qed

fun round_buffer :: "send_round \<Rightarrow> sbuf" where
  "round_buffer (Round_fail r c b) = b"
| "round_buffer (Round_ready r c b) = b"
| "round_buffer (Round_again r c b) = b"

lemma send_round_in_array:
  "send_round_of sim rep r c b = Some rd \<Longrightarrow> in_array b \<Longrightarrow> in_array (round_buffer rd)"
  using array.sync send_frame_in_array join_signal_in_array
  by (fastforce simp: send_round_of_def Let_def split: prod.splits if_splits bind_splits)


definition result_in_array :: "sbuf \<Rightarrow> bool \<times> ir_remote \<times> ir_ncode \<times> sbuf \<Rightarrow> bool" where
  "result_in_array b res \<longleftrightarrow>
     (in_array b \<longrightarrow> in_array (snd (snd (snd res))) \<and>
       (fst res \<longrightarrow> check_send_buffer (snd (snd (snd res))) = Some True))"

lemma send_round_result:
  assumes "\<And>rep r c b res. loop sim rep r c b = Some res \<Longrightarrow> result_in_array b res"
    and "Option.bind (send_round_of sim rep r c b)
       (\<lambda>rd. case rd of
          Round_fail r c b \<Rightarrow> Some (False, r, c, b)
        | Round_ready r c b \<Rightarrow> Option.bind (check_send_buffer b) (\<lambda>ok. Some (ok, r, c, b))
        | Round_again r c b \<Rightarrow> loop sim True r c b) = Some res"
  shows "result_in_array b res"
proof -
  obtain rd where rd: "send_round_of sim rep r c b = Some rd"
    using assms(2) by (cases "send_round_of sim rep r c b") auto
  note ib = send_round_in_array [OF rd]
  show ?thesis
  proof (cases rd)
    case (Round_fail r1 c1 b1)
    then show ?thesis using assms(2) rd ib by (auto simp: result_in_array_def)
  next
    case (Round_ready r1 c1 b1)
    then show ?thesis using assms(2) rd ib by (auto simp: result_in_array_def bind_eq_Some_conv)
  next
    case (Round_again r1 c1 b1)
    then have "loop sim True r1 c1 b1 = Some res" "in_array b \<Longrightarrow> in_array b1"
      using assms(2) rd ib by auto
    then show ?thesis using assms(1) unfolding result_in_array_def by blast
  qed
qed

lemma send_loop_result: "send_loop sim rep r c b = Some res \<Longrightarrow> result_in_array b res"
  by (rule send_loop.raw_induct [where P = "\<lambda>sim rep r c b res. result_in_array b res"])
    (rule send_round_result)

lemma send_loop_in_array:
  "send_loop sim rep r c b = Some (ok, r', c', b') \<Longrightarrow> in_array b \<Longrightarrow>
     in_array b' \<and> (ok \<longrightarrow> check_send_buffer b' = Some True)"
  using send_loop_result by (fastforce simp: result_in_array_def)

section \<open>The end of the loop\<close>

text \<open>The part of a remote that no transmission changes.\<close>

definition same_kind :: "ir_remote \<Rightarrow> ir_remote \<Rightarrow> bool" where
  "same_kind r q \<longleftrightarrow> is_raw q = is_raw r \<and> is_xmp q = is_xmp r \<and> has_repeat q = has_repeat r"

lemma send_frame_own:
  assumes "send_frame sim rep r c b = (ok, r', b')" "\<not> is_raw r" "sdata b = Own_data \<or> \<not> (rep \<and> has_repeat r)"
  shows "ok \<and> sdata b' = Own_data \<and> same_kind r r' \<and> repeat_countdown r' = repeat_countdown r"
  using assms
  by (auto simp: send_frame_def pointer.repeated pointer.header same_kind_def toggle_after_send_def ir_preds
      split: if_splits)

lemma set_remaining_gap_kind:
  assumes "set_remaining_gap rep r b = (ok, r')"
  shows "same_kind r r' \<and> repeat_countdown r' = repeat_countdown r"
  using assms by (auto simp: set_remaining_gap_def same_kind_def ir_preds split: if_splits)

lemma same_kind_trans: "same_kind r q \<Longrightarrow> same_kind q t \<Longrightarrow> same_kind r t"
  by (simp add: same_kind_def)

lemma check_own: "sdata b = Own_data \<Longrightarrow> \<exists>ok. check_send_buffer b = Some ok"
  by (cases "swptr b = 0") (auto simp: check_send_buffer_def buffer_samples_def)

text \<open>What is left to be sent: the repeats, and the codes of the sequence.\<close>

definition rest_of_sequence :: "ir_ncode \<Rightarrow> nat" where
  "rest_of_sequence c =
     (case nc_transmit_state c of None \<Rightarrow> Suc (length (nc_nodes c)) | Some i \<Rightarrow> length (nc_nodes c) - i)"

definition sequence_ok :: "ir_ncode \<Rightarrow> bool" where
  "sequence_ok c \<longleftrightarrow> (case nc_transmit_state c of None \<Rightarrow> True | Some i \<Rightarrow> i < length (nc_nodes c))"

lemma update_transmit_state_cases:
  assumes "sequence_ok c" "\<not> is_xmp r"
  obtains (ended) "nc_transmit_state (update_transmit_state r c) = None"
      "nc_nodes (update_transmit_state r c) = nc_nodes c" "sequence_ok (update_transmit_state r c)"
  | (moved) "nc_transmit_state (update_transmit_state r c) \<noteq> None" "nc_nodes (update_transmit_state r c) = nc_nodes c"
      "nc_nodes c \<noteq> []" "rest_of_sequence (update_transmit_state r c) < rest_of_sequence c"
      "sequence_ok (update_transmit_state r c)"
proof -
  have n: "nc_nodes (update_transmit_state r c) = nc_nodes c"
    by (simp add: update_transmit_state_def Let_def split: option.splits)
  have s: "sequence_ok (update_transmit_state r c)"
    using assms by (auto simp: update_transmit_state_def sequence_ok_def node_ptr_def split: option.splits)
  show ?thesis
  proof (cases "nc_transmit_state (update_transmit_state r c) = None")
    case True
    then show ?thesis using n s ended by blast
  next
    case False
    moreover have "nc_nodes c \<noteq> []"
      using False assms(1) by (auto simp: update_transmit_state_def sequence_ok_def split: option.splits)
    moreover have "rest_of_sequence (update_transmit_state r c) < rest_of_sequence c"
      using False assms by (auto simp: update_transmit_state_def rest_of_sequence_def node_ptr_def sequence_ok_def
          split: option.splits if_splits)
    ultimately show ?thesis using n s moved by blast
  qed
qed

abbreviation progress :: "((nat \<times> nat) \<times> (nat \<times> nat)) set" where
  "progress \<equiv> less_than <*lex*> less_than"

lemma join_signal_progress:
  assumes "sequence_ok c" "\<not> is_xmp r" "join_next r (update_transmit_state r c)" "sdata b = Own_data"
    "i32_range (repeat_countdown r)"
  shows "\<exists>r' b'. join_signal r (update_transmit_state r c) b = Some (r', b') \<and> sdata b' = Own_data \<and>
     same_kind r r' \<and> i32_range (repeat_countdown r') \<and> sequence_ok (update_transmit_state r c) \<and>
     ((nat (repeat_countdown r'), rest_of_sequence (update_transmit_state r c)),
      (nat (repeat_countdown r), rest_of_sequence c)) \<in> progress"
proof -
  let ?c = "update_transmit_state r c"
  have d: "sdata ((flush_send_buffer (send_space x b))\<lparr>ssum := 0\<rparr>) = Own_data" for x
    using assms(4) by (intro pointer.total pointer.flush pointer.space)
  show ?thesis
    using assms(1,2)
  proof (cases rule: update_transmit_state_cases)
    case ended
    then have "0 < repeat_countdown r" using assms(3) by (simp add: join_next_def)
    moreover from this have "i32_range (repeat_countdown r - 1)" using assms(5) by (simp add: i32_range_def)
    ultimately show ?thesis
      using ended assms(4) d by (simp add: join_signal_def unroll_raw_def same_kind_def ir_preds)
  next
    case moved
    then obtain y where "nc_transmit_state ?c = Some y" by auto
    then show ?thesis
      using moved assms(4,5) d by (simp add: join_signal_def unroll_raw_def same_kind_def)
  qed
qed

lemma round_total:
  assumes r: "\<not> is_raw r" "\<not> is_xmp r" "sequence_ok c" "sdata b = Own_data \<or> \<not> (rep \<and> has_repeat r)"
    "i32_range (repeat_countdown r)"
  obtains (failed) r' c' b' where "send_round_of sim rep r c b = Some (Round_fail r' c' b')"
  | (ready) r' c' b' where "send_round_of sim rep r c b = Some (Round_ready r' c' b')" "sdata b' = Own_data"
  | (again) r' c' b' where "send_round_of sim rep r c b = Some (Round_again r' c' b')" "sdata b' = Own_data"
      "\<not> is_raw r'" "\<not> is_xmp r'" "sequence_ok c'" "i32_range (repeat_countdown r')"
      "((nat (repeat_countdown r'), rest_of_sequence c'), (nat (repeat_countdown r), rest_of_sequence c)) \<in> progress"
proof -
  obtain ok r1 b1 where f: "send_frame sim rep r c b = (ok, r1, b1)" by (cases "send_frame sim rep r c b") auto
  note o = send_frame_own [OF f r(1,4)]
  let ?b = "sync_send_buffer b1"
  have b: "sdata ?b = Own_data" using o by (intro pointer.sync) simp
  show ?thesis
  proof (cases "bad_send_buffer ?b \<or> sim")
    case True
    show ?thesis
    proof (cases "bad_send_buffer ?b")
      case True
      then show ?thesis using f o failed [of r1 c ?b] by (simp add: send_round_of_def Let_def)
    next
      case False
      then show ?thesis using True f o b ready [of r1 c ?b] by (simp add: send_round_of_def Let_def)
    qed
  next
    case False
    obtain ok2 r2 where g: "set_remaining_gap rep r1 ?b = (ok2, r2)" by (cases "set_remaining_gap rep r1 ?b")
    note k = set_remaining_gap_kind [OF g]
    let ?c = "update_transmit_state r2 c"
    show ?thesis
    proof (cases "ok2 \<and> join_next r2 ?c")
      case True
      have "\<not> is_xmp r2" "\<not> is_raw r2" "repeat_countdown r2 = repeat_countdown r"
        using k o r(1,2) by (auto simp: same_kind_def)
      moreover from this obtain r3 b3 where "join_signal r2 ?c ?b = Some (r3, b3)" "sdata b3 = Own_data"
        "same_kind r2 r3" "i32_range (repeat_countdown r3)" "sequence_ok ?c"
        "((nat (repeat_countdown r3), rest_of_sequence ?c), (nat (repeat_countdown r2), rest_of_sequence c)) \<in> progress"
        using join_signal_progress [OF r(3) _ _ b, of r2] True r(5) by auto
      ultimately show ?thesis
        using f o g False True again by (auto simp: send_round_of_def Let_def same_kind_def)
    next
      case jn: False
      then show ?thesis
        using f o g b False failed ready by (cases ok2) (auto simp: send_round_of_def Let_def)
    qed
  qed
qed

lemma send_loop_total:
  assumes "\<not> is_raw r" "\<not> is_xmp r" "sequence_ok c" "sdata b = Own_data \<or> \<not> (rep \<and> has_repeat r)"
    "i32_range (repeat_countdown r)"
  shows "\<exists>res. send_loop sim rep r c b = Some res"
proof -
  have "wf progress" by (rule wf_lex_prod) simp_all
  then show ?thesis
    using assms
  proof (induction "(nat (repeat_countdown r), rest_of_sequence c)" arbitrary: rep r c b rule: wf_induct_rule)
    case less
    from less.prems show ?case
    proof (cases rule: round_total [where sim = sim, case_names failed ready again])
      case (failed r' c' b')
      then have "send_loop sim rep r c b = Some (False, r', c', b')" by (simp add: send_loop.simps [of sim rep])
      then show ?thesis by blast
    next
      case (ready r' c' b')
      then show ?thesis using check_own [of b'] by (auto simp: send_loop.simps [of sim rep])
    next
      case (again r' c' b')
      then have "\<exists>res. send_loop sim True r' c' b' = Some res" by (intro less.hyps) auto
      then show ?thesis using again by (simp add: send_loop.simps [of sim rep])
    qed
  qed
qed

section \<open>The properties\<close>

text \<open>C36: No transmission writes outside the array of the transmit buffer, whatever the remote, the
  button and the state of the buffer; and a transmission that is reported as ready passed the check
  for an empty buffer and for lengths of zero.\<close>

theorem transmit_array_bounds:
  assumes "in_array b" "init_send_or_sim repeating r c sim preset b = Some (ok, r', c', b')"
  shows "in_array b' \<and> (ok \<longrightarrow> check_send_buffer b' = Some True)"
proof -
  have "in_array (clear_send_buffer b)" "in_array ((clear_send_buffer b)\<lparr>sis_biphase := True\<rparr>)"
    using assms(1) by (simp_all add: in_array_def clear_send_buffer_def)
  then show ?thesis
    using assms send_loop_in_array by (fastforce simp: init_send_or_sim_def Let_def split: if_splits)
qed

lemma transmit_array_bounds_witness:
  "\<exists>r' c' b'. init_send_or_sim False tiny_remote tiny_button False False init_send_buffer = Some (True, r', c', b') \<and>
     in_array b' \<and> check_send_buffer b' = Some True"
proof -
  have "map_option fst (init_send_or_sim False tiny_remote tiny_button False False init_send_buffer) = Some True"
    by code_simp
  then obtain r' c' b' where s: "init_send_or_sim False tiny_remote tiny_button False False init_send_buffer =
      Some (True, r', c', b')" by auto
  have "in_array init_send_buffer" by (simp add: in_array_def init_send_buffer_def)
  from transmit_array_bounds [OF this s] s show ?thesis by blast
qed



text \<open>When the first signal a daemon sends is a repeat signal, the driver is given the NULL pointer
  that \<open>data\<close> still is: the branch for repeat signals does not set it.\<close>

theorem first_repeat_faults:
  "init_send_or_sim True (tiny_remote\<lparr>prepeat := 9, srepeat := 2, repeat_countdown := 0\<rparr>) tiny_button False False
     init_send_buffer = None"
  by code_simp

text \<open>For a remote that is not in raw mode the number of lengths never exceeds the transmit buffer,
  also where the pointer to the lengths is left over from another transmission.\<close>

definition fits_buffer :: "sbuf \<Rightarrow> bool" where "fits_buffer b \<longleftrightarrow> swptr b \<le> WBUF_SIZE"

interpretation fitting: tx_invariant fits_buffer
  by unfold_locales (auto simp: fits_buffer_def add_send_buffer_def)

lemma send_frame_fits:
  assumes "send_frame sim rep r c b = (ok, r', b')" "\<not> is_raw r" "fits_buffer b"
  shows "fits_buffer b' \<and> \<not> is_raw r'"
proof -
  have "fits_buffer (x\<lparr>sdata := p\<rparr>) = fits_buffer x" for x :: sbuf and p by (simp add: fits_buffer_def)
  then show ?thesis
    using assms by (auto simp: send_frame_def toggle_after_send_def ir_preds fitting.repeated fitting.header
        fitting.code split: if_splits)
qed

lemma join_signal_fits:
  "join_signal r c b = Some (r', b') \<Longrightarrow> \<not> is_raw r \<Longrightarrow> fits_buffer b \<Longrightarrow> fits_buffer b' \<and> \<not> is_raw r'"
proof -
  assume j: "join_signal r c b = Some (r', b')" and r: "\<not> is_raw r" and b: "fits_buffer b"
  have "fits_buffer (b\<lparr>sdata := Own_data, swptr := 0\<rparr>)" by (simp add: fits_buffer_def WBUF_SIZE_def)
  then have u: "unroll_raw b = Some u \<Longrightarrow> fits_buffer u" for u
    using b fitting.signals by (auto simp: unroll_raw_def split: if_splits bind_splits)
  from j obtain u where "unroll_raw b = Some u" "b' = (flush_send_buffer (send_space (min_remaining_gap r') u))\<lparr>ssum := 0\<rparr>"
    "\<not> is_raw r'"
    using r by (auto simp: join_signal_def ir_preds split: bind_splits if_splits)
  then show ?thesis using u fitting.total [OF fitting.flush [OF fitting.space]] by simp
qed

lemma send_round_fits:
  assumes "send_round_of sim rep r c b = Some rnd" "\<not> is_raw r" "fits_buffer b"
  shows "fits_buffer (round_buffer rnd) \<and> (\<forall>r' c' b'. rnd = Round_again r' c' b' \<longrightarrow> \<not> is_raw r')"
proof -
  obtain ok r1 b1 where f: "send_frame sim rep r c b = (ok, r1, b1)" by (cases "send_frame sim rep r c b") auto
  have b: "fits_buffer b1" "\<not> is_raw r1" using send_frame_fits [OF f assms(2,3)] by simp_all
  have s: "fits_buffer (sync_send_buffer b1)" using b by (intro fitting.sync)
  obtain ok2 r2 where g: "set_remaining_gap rep r1 (sync_send_buffer b1) = (ok2, r2)"
    by (cases "set_remaining_gap rep r1 (sync_send_buffer b1)")
  have r2: "\<not> is_raw r2" using set_remaining_gap_kind [OF g] b(2) by (simp add: same_kind_def)
  show ?thesis
    using assms(1) b s join_signal_fits [of r2 "update_transmit_state r2 c" "sync_send_buffer b1"] r2
    by (auto simp: send_round_of_def f g Let_def split: if_splits bind_splits prod.splits)
qed

lemma send_loop_round_fits:
  assumes loop: "\<And>sim rep r c b res. loop sim rep r c b = Some res \<Longrightarrow>
      \<not> is_raw r \<longrightarrow> fits_buffer b \<longrightarrow> fits_buffer (snd (snd (snd res)))"
    and step: "Option.bind (send_round_of sim rep r c b)
       (\<lambda>rd. case rd of
          Round_fail r c b \<Rightarrow> Some (False, r, c, b)
        | Round_ready r c b \<Rightarrow> Option.bind (check_send_buffer b) (\<lambda>ok. Some (ok, r, c, b))
        | Round_again r c b \<Rightarrow> loop sim True r c b) = Some res"
  shows "\<not> is_raw r \<longrightarrow> fits_buffer b \<longrightarrow> fits_buffer (snd (snd (snd res)))"
proof (intro impI)
  assume r: "\<not> is_raw r" and b: "fits_buffer b"
  obtain rnd where rnd: "send_round_of sim rep r c b = Some rnd"
    using step by (cases "send_round_of sim rep r c b") auto
  note ib = send_round_fits [OF rnd r b]
  show "fits_buffer (snd (snd (snd res)))"
  proof (cases rnd)
    case (Round_again r1 c1 b1)
    then have "loop sim True r1 c1 b1 = Some res" "\<not> is_raw r1" "fits_buffer b1" using step rnd ib by auto
    then show ?thesis using loop by blast
  qed (use step rnd ib in \<open>auto simp: bind_eq_Some_conv\<close>)
qed

lemma send_loop_fits:
  "send_loop sim rep r c b = Some res \<Longrightarrow> \<not> is_raw r \<longrightarrow> fits_buffer b \<longrightarrow> fits_buffer (snd (snd (snd res)))"
  by (rule send_loop.raw_induct
      [where P = "\<lambda>sim rep r c b res. \<not> is_raw r \<longrightarrow> fits_buffer b \<longrightarrow> fits_buffer (snd (snd (snd res)))"])
    (rule send_loop_round_fits)

lemma buffer_samples_fit:
  "buffer_samples b = Some xs \<Longrightarrow> fits_buffer b \<Longrightarrow> int (length xs) \<le> WBUF_SIZE"
  by (auto simp: buffer_samples_def fits_buffer_def WBUF_SIZE_def split: send_ptr.splits if_splits)

lemma init_send_fits:
  assumes "init_send repeating r c b = Some (ok, r', c', b')" "\<not> is_raw r"
  shows "fits_buffer b' \<or> \<not> ok"
proof -
  have 0: "fits_buffer (clear_send_buffer b)" "fits_buffer ((clear_send_buffer b)\<lparr>sis_biphase := True\<rparr>)"
    by (simp_all add: fits_buffer_def clear_send_buffer_def WBUF_SIZE_def)
  have "\<not> is_raw (r\<lparr>repeat_countdown := n\<rparr>)" for n using assms(2) by (simp add: is_raw_def)
  then show ?thesis
    using assms 0 send_loop_fits [where res = "(ok, r', c', b')"]
    by (fastforce simp: init_send_def init_send_or_sim_def Let_def split: if_splits)
qed

end
