(* ===== verification/Daemon.thy ===== *)
theory Daemon
  imports DecodeAll ConfigRead
begin

text \<open>
  The state of \<open>daemons/lircd.c\<close> and its connections: clients, peers, sockets, the driver. The
  state extends the decoder's by the globals of \<open>lircd.c\<close>; sections for Linux input devices
  are left out, as in the code for other systems, so that \<open>uinputfd\<close> stays -1.

  \<^item> \<open>clis\<close> is the used part of the array of that name (\<open>clin\<close> is its length); \<open>cli_type\<close> is
    the parallel array, which no operation shortens.
  \<^item> \<open>repeat_code\<close> is an index into the buttons of \<open>repeat_remote\<close>; lists of remotes are lists of
    addresses, \<open>NULL\<close> is the empty list.
  \<^item> \<open>next_addr\<close> is the first address that no remote has had; the next list read is put there.
  \<^item> \<open>timer\<close> is the interval timer: the microseconds to its signal when it runs.
  \<^item> The outside: \<open>sent\<close> is what has been written to sockets, in this order; \<open>wr_ok\<close> says
    which of the writes succeed; \<open>incoming\<close> is what reading from a socket yields, \<open>None\<close> for an
    error; \<open>dials\<close> are the answers of name lookup and \<open>connect\<close>; \<open>drv\<close> is the driver's own state.
\<close>

section \<open>State\<close>

record peer_connection =
  pc_host :: string
  pc_port :: int
  pc_reconnect :: timeval
  pc_failure :: int
  pc_socket :: int

datatype cli_kind = CT_NONE | CT_LOCAL | CT_REMOTE

record dial =
  d_socket :: int
  d_found :: bool
  d_connected :: bool

record 'd lircd_srv = lircd_rel +
  configfile :: "string option"
  next_addr :: addr
  remotes :: "addr list"
  free_remotes :: "addr list"
  repeat_code :: "nat option"
  repeat_fd :: int
  repeat_message :: "string option"
  repeat_max :: u32
  clis :: "int list"
  cli_type :: "nat \<Rightarrow> cli_kind"
  peers :: "peer_connection list"
  allow_simulate :: bool
  userelease :: bool
  useuinput :: bool
  uinputfd :: int
  term_flag :: bool
  hup_flag :: bool
  alrm_flag :: bool
  timer :: "lirc_t option"
  setup_min_freq :: u32
  setup_max_freq :: u32
  setup_filter_params :: filter_params
  hw_fd :: int
  drv :: 'd
  sent :: "(int \<times> string) list"
  wr_ok :: "nat \<Rightarrow> bool"
  wr_count :: nat
  incoming :: "int \<Rightarrow> string option list"
  dials :: "nat \<Rightarrow> dial"
  dial_count :: nat

text \<open>The functions of a driver. They work on the driver's own state and return what they change
  of \<open>hw\<close>, of the remote they send for, and their result. \<open>NULL\<close> function pointers are \<open>None\<close>;
  \<open>init_clears\<close> says that \<open>init_func\<close> calls \<open>init_rec_buffer\<close>.\<close>

datatype ioctl =
    SET_REC_CARRIER_RANGE u32 | SET_REC_CARRIER u32
  | GET_MIN_TIMEOUT | GET_MAX_TIMEOUT | SET_REC_TIMEOUT lirc_t | SET_REC_TIMEOUT_REPORTS u32
  | GET_MIN_FILTER_PULSE | GET_MAX_FILTER_PULSE | GET_MIN_FILTER_SPACE | GET_MAX_FILTER_SPACE
  | SET_REC_FILTER_PULSE lirc_t | SET_REC_FILTER_SPACE lirc_t | SET_REC_FILTER lirc_t
  | SET_TRANSMITTER_MASK u32 | SETUP_START | SETUP_END | NOTIFY_DECODE
  | GET_FEATURES | GET_REC_RESOLUTION | GET_LENGTH | SET_SEND_CARRIER u32 | SET_SEND_DUTY_CYCLE u32

record 'd driver =
  init_func :: "(hardware \<Rightarrow> int \<Rightarrow> 'd \<Rightarrow> bool \<times> hardware \<times> int \<times> 'd) option"
  init_clears :: bool
  deinit_func :: "(int \<Rightarrow> 'd \<Rightarrow> int \<times> 'd) option"
  ioctl_func :: "(ioctl \<Rightarrow> 'd \<Rightarrow> int \<times> int \<times> 'd) option"
  send_func :: "bool \<Rightarrow> hardware \<Rightarrow> ir_remote \<Rightarrow> nat \<Rightarrow> 'd \<Rightarrow> (bool \<times> ir_remote \<times> 'd) option"

section \<open>Time and timer\<close>

text \<open>\<open>setitimer\<close> refuses microseconds outside of 0 to 999999; zero stops the timer.\<close>

definition setitimer :: "lirc_t \<Rightarrow> ('d, 'z) lircd_srv_scheme \<Rightarrow> ('d, 'z) lircd_srv_scheme" where
  "setitimer usec s =
     (if 0 \<le> usec \<and> usec < 1000000 then s\<lparr>timer := (if usec = 0 then None else Some usec)\<rparr> else s)"

definition timercmp_less :: "timeval \<Rightarrow> timeval \<Rightarrow> bool" where
  "timercmp_less a b \<longleftrightarrow> (if tv_sec a = tv_sec b then tv_usec a < tv_usec b else tv_sec a < tv_sec b)"

definition timersub :: "timeval \<Rightarrow> timeval \<Rightarrow> timeval" where
  "timersub a b =
     (let sec = tv_sec a - tv_sec b; usec = tv_usec a - tv_usec b
      in if usec < 0 then \<lparr>tv_sec = sec - 1, tv_usec = usec + 1000000\<rparr>
         else \<lparr>tv_sec = sec, tv_usec = usec\<rparr>)"

section \<open>Sockets\<close>

text \<open>\<open>write_socket\<close>: the flag says that the whole text was written.\<close>

definition write_socket :: "int \<Rightarrow> string \<Rightarrow> ('d, 'z) lircd_srv_scheme \<Rightarrow> bool \<times> ('d, 'z) lircd_srv_scheme" where
  "write_socket fd t s =
     (if t = [] then (True, s)
      else if wr_ok s (wr_count s) then (True, s\<lparr>sent := sent s @ [(fd, t)], wr_count := Suc (wr_count s)\<rparr>)
      else (False, s\<lparr>wr_count := Suc (wr_count s)\<rparr>))"

text \<open>A chain of \<open>write_socket_len\<close> calls, given up at the first that fails.\<close>

fun write_all :: "int \<Rightarrow> string list \<Rightarrow> ('d, 'z) lircd_srv_scheme \<Rightarrow> bool \<times> ('d, 'z) lircd_srv_scheme" where
  "write_all fd [] s = (True, s)"
| "write_all fd (t # ts) s =
     (case write_socket fd t s of (ok, s) \<Rightarrow> if ok then write_all fd ts s else (False, s))"

text \<open>\<open>read_timeout\<close>: at most \<open>len\<close> bytes; the empty string is the end of file or a timeout.\<close>

definition read_timeout ::
  "int \<Rightarrow> nat \<Rightarrow> ('d, 'z) lircd_srv_scheme \<Rightarrow> string option \<times> ('d, 'z) lircd_srv_scheme" where
  "read_timeout fd len s =
     (case incoming s fd of
        [] \<Rightarrow> (Some '''', s)
      | None # rest \<Rightarrow> (None, s\<lparr>incoming := (incoming s)(fd := rest)\<rparr>)
      | Some t # rest \<Rightarrow>
          (Some (take len t),
           s\<lparr>incoming := (incoming s)(fd := (if drop len t = [] then rest else Some (drop len t) # rest))\<rparr>))"

section \<open>The driver\<close>

definition use_hw :: "('d, 'z) lircd_srv_scheme \<Rightarrow> bool" where
  "use_hw s \<longleftrightarrow> clis s \<noteq> [] \<or> (useuinput s \<and> uinputfd s \<noteq> - 1) \<or> repeat_remote s \<noteq> None"

definition deinit_unused :: "'d driver \<Rightarrow> ('d, 'z) lircd_srv_scheme \<Rightarrow> ('d, 'z) lircd_srv_scheme" where
  "deinit_unused d s =
     (case deinit_func d of
        None \<Rightarrow> s
      | Some f \<Rightarrow> if use_hw s then s
                  else case f (hw_fd s) (drv s) of (fd, dv) \<Rightarrow> s\<lparr>hw_fd := fd, drv := dv\<rparr>)"

definition init_driver :: "'d driver \<Rightarrow> ('d, 'z) lircd_srv_scheme \<Rightarrow> bool \<times> ('d, 'z) lircd_srv_scheme" where
  "init_driver d s =
     (case init_func d of
        None \<Rightarrow> (False, s)
      | Some f \<Rightarrow> case f (hw s) (hw_fd s) (drv s) of (ok, h, fd, dv) \<Rightarrow>
          (ok, (if init_clears d then init_rec_buffer s else s)\<lparr>hw := h, hw_fd := fd, drv := dv\<rparr>))"

text \<open>\<open>hw.ioctl_func (cmd, &arg)\<close>: the result, and the value it stores for a query; a NULL
  pointer faults.\<close>

definition ioctl :: "'d driver \<Rightarrow> ioctl \<Rightarrow> ('d, 'z) lircd_srv_scheme \<Rightarrow> (int \<times> int \<times> ('d, 'z) lircd_srv_scheme) option" where
  "ioctl d c s =
     (case ioctl_func d of
        None \<Rightarrow> None
      | Some f \<Rightarrow> case f c (drv s) of (ret, v, dv) \<Rightarrow> Some (ret, v, s\<lparr>drv := dv\<rparr>))"

definition driver_send ::
  "'d driver \<Rightarrow> addr \<Rightarrow> nat \<Rightarrow> ('d, 'z) lircd_srv_scheme \<Rightarrow> (bool \<times> ('d, 'z) lircd_srv_scheme) option" where
  "driver_send d p i s =
     do { (ok, r, dv) \<leftarrow> send_func d (repeat_remote s \<noteq> None) (hw s) (store s p) i (drv s);
          Some (ok, s\<lparr>store := (store s)(p := r), drv := dv\<rparr>) }"

text \<open>\<open>send_ir_ncode\<close> with this driver; the pause that it makes first is left out.\<close>

definition send_button ::
  "'d driver \<Rightarrow> addr \<Rightarrow> nat \<Rightarrow> ('d, 'z) lircd_srv_scheme \<Rightarrow> (bool \<times> ('d, 'z) lircd_srv_scheme) option" where
  "send_button d p i s = map_option (\<lambda>((ok, pause), s). (ok, s)) (send_ir_ncode (driver_send d) p i s)"

section \<open>Setup of the receiver\<close>

definition DEFAULT_FREQ :: u32 where [c_eval]: "DEFAULT_FREQ = 38000"
definition LIRC_CAN_SET_REC_CARRIER :: u32 where [flag_defs]: "LIRC_CAN_SET_REC_CARRIER = 0x01000000"
definition LIRC_CAN_SET_REC_CARRIER_RANGE :: u32 where [flag_defs]: "LIRC_CAN_SET_REC_CARRIER_RANGE = 0x80000000"
definition LIRC_CAN_SET_REC_TIMEOUT :: u32 where [flag_defs]: "LIRC_CAN_SET_REC_TIMEOUT = 0x10000000"
definition LIRC_CAN_SET_REC_FILTER :: u32 where [flag_defs]: "LIRC_CAN_SET_REC_FILTER = 0x08000000"
definition LIRC_CAN_SET_TRANSMITTER_MASK :: u32 where [flag_defs]: "LIRC_CAN_SET_TRANSMITTER_MASK = 0x00000400"
definition LIRC_CAN_NOTIFY_DECODE :: u32 where [flag_defs]: "LIRC_CAN_NOTIFY_DECODE = 0x01000000"

definition can :: "u32 \<Rightarrow> ('d, 'z) lircd_srv_scheme \<Rightarrow> bool" where
  "can feature s \<longleftrightarrow> features (hw s) AND feature \<noteq> 0"

definition setup_frequency ::
  "'d driver \<Rightarrow> ('d, 'z) lircd_srv_scheme \<Rightarrow> (bool \<times> ('d, 'z) lircd_srv_scheme) option" where
  "setup_frequency d s =
     (if \<not> can LIRC_CAN_SET_REC_CARRIER s then Some (True, s)
      else
        let s = (if setup_min_freq s = 0 \<or> setup_max_freq s = 0
                 then s\<lparr>setup_min_freq := DEFAULT_FREQ, setup_max_freq := DEFAULT_FREQ\<rparr> else s)
        in if can LIRC_CAN_SET_REC_CARRIER_RANGE s \<and> setup_min_freq s \<noteq> setup_max_freq s then
             do { (ret, v, s) \<leftarrow> ioctl d (SET_REC_CARRIER_RANGE (setup_min_freq s)) s;
                  if ret = - 1 then Some (False, s)
                  else do { (ret, v, s) \<leftarrow> ioctl d (SET_REC_CARRIER (setup_max_freq s)) s;
                            Some (ret \<noteq> - 1, s) } }
           else
             do { (ret, v, s) \<leftarrow> ioctl d (SET_REC_CARRIER ((setup_min_freq s + setup_max_freq s) div 2)) s;
                  Some (ret \<noteq> - 1, s) })"

text \<open>The timeout for the receiver: the longest gap when the hardware can wait as long, and
  otherwise as little as the longest space allows.\<close>

definition timeout_value :: "filter_params \<Rightarrow> lirc_t \<Rightarrow> lirc_t \<Rightarrow> lirc_t" where
  "timeout_value f min_timeout max_timeout =
     (if f_max_gap f \<ge> min_timeout \<and> f_max_gap f \<le> max_timeout then f_max_gap f
      else let val = i32 (f_max_space f + 1)
           in if val < min_timeout then min_timeout else if val > max_timeout then max_timeout else val)"

definition setup_timeout ::
  "'d driver \<Rightarrow> ('d, 'z) lircd_srv_scheme \<Rightarrow> (bool \<times> ('d, 'z) lircd_srv_scheme) option" where
  "setup_timeout d s =
     (if \<not> can LIRC_CAN_SET_REC_TIMEOUT s \<or> f_max_space (setup_filter_params s) = 0 then Some (True, s)
      else do {
        (ret, min_timeout, s) \<leftarrow> ioctl d GET_MIN_TIMEOUT s;
        if ret = - 1 then Some (False, s)
        else do {
          (ret, max_timeout, s) \<leftarrow> ioctl d GET_MAX_TIMEOUT s;
          if ret = - 1 then Some (False, s)
          else do {
            (ret, v, s) \<leftarrow> ioctl d (SET_REC_TIMEOUT
                             (timeout_value (setup_filter_params s) min_timeout max_timeout)) s;
            if ret = - 1 then Some (False, s)
            else do { (ret, v, s) \<leftarrow> ioctl d (SET_REC_TIMEOUT_REPORTS 1) s; Some (True, s) } } } })"

definition filter_value :: "lirc_t \<Rightarrow> lirc_t \<Rightarrow> lirc_t \<Rightarrow> lirc_t" where
  "filter_value v lo hi = (if v > hi then hi else if v < lo then 0 else v)"

text \<open>The four limits of the hardware filter. When a query fails the code goes on with limits that
  were not set: \<open>unset\<close> are the values these variables happen to have.\<close>

definition filter_limits ::
  "'d driver \<Rightarrow> (ioctl \<Rightarrow> lirc_t) \<Rightarrow> ('d, 'z) lircd_srv_scheme \<Rightarrow> ((ioctl \<Rightarrow> lirc_t) \<times> ('d, 'z) lircd_srv_scheme) option" where
  "filter_limits d unset s =
     do { (r1, v1, s) \<leftarrow> ioctl d GET_MIN_FILTER_PULSE s;
          if r1 = - 1 then Some (unset, s)
          else do { m \<leftarrow> Some (unset(GET_MIN_FILTER_PULSE := v1));
               (r2, v2, s) \<leftarrow> ioctl d GET_MAX_FILTER_PULSE s;
               if r2 = - 1 then Some (m, s)
               else do { m \<leftarrow> Some (m(GET_MAX_FILTER_PULSE := v2));
                    (r3, v3, s) \<leftarrow> ioctl d GET_MIN_FILTER_SPACE s;
                    if r3 = - 1 then Some (m, s)
                    else do { m \<leftarrow> Some (m(GET_MIN_FILTER_SPACE := v3));
                         (r4, v4, s) \<leftarrow> ioctl d GET_MAX_FILTER_SPACE s;
                         Some (if r4 = - 1 then m else m(GET_MAX_FILTER_SPACE := v4), s) } } } }"

definition setup_filter ::
  "'d driver \<Rightarrow> (ioctl \<Rightarrow> lirc_t) \<Rightarrow> ('d, 'z) lircd_srv_scheme \<Rightarrow> (bool \<times> ('d, 'z) lircd_srv_scheme) option" where
  "setup_filter d unset s =
     (if \<not> can LIRC_CAN_SET_REC_FILTER s then Some (True, s)
      else do {
        (m, s) \<leftarrow> filter_limits d unset s;
        f \<leftarrow> Some (setup_filter_params s);
        pulse \<leftarrow> Some (filter_value (f_min_pulse f) (m GET_MIN_FILTER_PULSE) (m GET_MAX_FILTER_PULSE));
        space \<leftarrow> Some (filter_value (f_min_space f) (m GET_MIN_FILTER_SPACE) (m GET_MAX_FILTER_SPACE));
        s \<leftarrow> Some (s\<lparr>setup_filter_params := f\<lparr>f_min_pulse := pulse, f_min_space := space\<rparr>\<rparr>);
        (r1, v, s) \<leftarrow> ioctl d (SET_REC_FILTER_PULSE pulse) s;
        (r2, v, s) \<leftarrow> ioctl d (SET_REC_FILTER_SPACE space) s;
        if r1 = - 1 \<or> r2 = - 1 then
          do { (r3, v, s) \<leftarrow> ioctl d (SET_REC_FILTER (if pulse < space then pulse else space)) s;
               Some (r3 \<noteq> - 1, s) }
        else Some (True, s) })"

definition setup_hardware ::
  "'d driver \<Rightarrow> (ioctl \<Rightarrow> lirc_t) \<Rightarrow> ('d, 'z) lircd_srv_scheme \<Rightarrow> (bool \<times> ('d, 'z) lircd_srv_scheme) option" where
  "setup_hardware d unset s =
     (if hw_fd s \<noteq> - 1 \<and> ioctl_func d \<noteq> None \<and>
         (can LIRC_CAN_SET_REC_CARRIER s \<or> can LIRC_CAN_SET_REC_TIMEOUT s \<or> can LIRC_CAN_SET_REC_FILTER s)
      then do {
        (r, v, s) \<leftarrow> ioctl d SETUP_START s;
        (ok, s) \<leftarrow> setup_frequency d s;
        (ok, s) \<leftarrow> if ok then setup_timeout d s else Some (False, s);
        (ok, s) \<leftarrow> if ok then setup_filter d unset s else Some (False, s);
        (r, v, s) \<leftarrow> ioctl d SETUP_END s;
        Some (ok, s) }
      else Some (True, s))"

section \<open>Clients\<close>

definition FD_SETSIZE :: int where [c_eval]: "FD_SETSIZE = 1024"
definition MAX_CLIENTS :: nat where [c_eval]: "MAX_CLIENTS = (1024 - 6) div 2"
definition MAX_PEERS :: nat where [c_eval]: "MAX_PEERS = (1024 - 6) div 2"

definition remove_client :: "'d driver \<Rightarrow> int \<Rightarrow> ('d, 'z) lircd_srv_scheme \<Rightarrow> ('d, 'z) lircd_srv_scheme" where
  "remove_client d fd s =
     (if fd \<in> set (clis s) then deinit_unused d (s\<lparr>clis := remove1 fd (clis s)\<rparr>) else s)"

lemma clis_deinit [simp]: "clis (deinit_unused d s) = clis s"
  by (simp add: deinit_unused_def split: option.splits prod.splits)

lemma clis_remove_client [simp]: "clis (remove_client d fd s) = remove1 fd (clis s)"
  by (simp add: remove_client_def remove1_idem)

lemma clis_write_socket: "write_socket fd t s = (ok, s') \<Longrightarrow> clis s' = clis s"
  by (auto simp: write_socket_def split: if_splits)

lemma clis_write_all: "write_all fd ts s = (ok, s') \<Longrightarrow> clis s' = clis s"
  by (induction ts arbitrary: s) (auto split: prod.splits if_splits dest!: clis_write_socket)

declare write_all.simps(2) [simp del]

text \<open>The loop over the clients, which writes the texts \<open>ts\<close> to each: a client that cannot be
  written to is removed, and the next one has moved to its index. The clients with the indices in
  \<open>skip\<close> are left out.\<close>

function write_clients ::
  "'d driver \<Rightarrow> (nat \<Rightarrow> bool) \<Rightarrow> string list \<Rightarrow> nat \<Rightarrow> ('d, 'z) lircd_srv_scheme \<Rightarrow> ('d, 'z) lircd_srv_scheme" where
  "write_clients d skip ts i s =
     (if i < length (clis s) then
        (if skip i then write_clients d skip ts (Suc i) s
         else case write_all (clis s ! i) ts s of (ok, s') \<Rightarrow>
           if ok then write_clients d skip ts (Suc i) s'
           else write_clients d skip ts i (remove_client d (clis s' ! i) s'))
      else s)"
  by pat_completeness auto
termination
  by (relation "measure (\<lambda>(_, _, _, i, s). length (clis s) - i)")
    (auto simp: length_remove1 dest!: clis_write_all [OF sym])

declare write_clients.simps [simp del]

definition broadcast_message :: "'d driver \<Rightarrow> string \<Rightarrow> ('d, 'z) lircd_srv_scheme \<Rightarrow> ('d, 'z) lircd_srv_scheme" where
  "broadcast_message d message s = write_clients d (\<lambda>_. False) [message] 0 s"

text \<open>\<open>add_client\<close>, after \<open>accept\<close> has returned the descriptor and the address family.\<close>

definition add_client ::
  "'d driver \<Rightarrow> (ioctl \<Rightarrow> lirc_t) \<Rightarrow> int \<Rightarrow> cli_kind \<Rightarrow>
     ('d, 'z) lircd_srv_scheme \<Rightarrow> ('d, 'z) lircd_srv_scheme option" where
  "add_client d unset fd family s =
     (if fd \<ge> FD_SETSIZE \<or> length (clis s) \<ge> MAX_CLIENTS then Some s
      else do {
        s \<leftarrow> Some (s\<lparr>cli_type := (cli_type s)(length (clis s) := family)\<rparr>);
        s \<leftarrow> if use_hw s \<or> init_func d = None then Some s
            else (case init_driver d s of (ok, s) \<Rightarrow> if ok then map_option snd (setup_hardware d unset s) else Some s);
        Some (s\<lparr>clis := clis s @ [fd]\<rparr>) })"

section \<open>Peers\<close>

text \<open>\<open>strtol (s, &end, 10)\<close>: the value and the rest.\<close>

definition strtol10 :: "string \<Rightarrow> int \<times> string" where
  "strtol10 s =
     (let (neg, t) = number_sign (dropWhile is_space_char s);
          ds = takeWhile (is_digit 10) t;
          v = (if neg then - digits_value 10 ds else digits_value 10 ds)
      in if ds = [] then (0, s) else (max (- (2 ^ 63)) (min (2 ^ 63 - 1) v), drop (length ds) t))"

definition LIRC_INET_PORT :: int where [c_eval]: "LIRC_INET_PORT = 8765"
definition USHRT_MAX :: int where [c_eval]: "USHRT_MAX = 65535"

text \<open>The port after the colon of a peer's address: the number of a service (\<open>services\<close> is
  \<open>getservbyname\<close>), or a number.\<close>

definition peer_port :: "(string \<Rightarrow> int option) \<Rightarrow> string \<Rightarrow> int option" where
  "peer_port services t =
     (case services t of
        Some p \<Rightarrow> Some p
      | None \<Rightarrow>
          (case strtol10 t of (p, rest) \<Rightarrow>
             if t = [] \<or> rest \<noteq> [] \<or> p < 1 \<or> p > USHRT_MAX then None else Some p))"

definition add_peer_connection ::
  "(string \<Rightarrow> int option) \<Rightarrow> string \<Rightarrow> ('d, 'z) lircd_srv_scheme \<Rightarrow> bool \<times> ('d, 'z) lircd_srv_scheme" where
  "add_peer_connection services server s =
     (if length (peers s) < MAX_PEERS then
        (case gettimeofday s of (now, s) \<Rightarrow>
           let h = takeWhile (\<lambda>c. c \<noteq> CHR '':'') server;
               port = (if CHR '':'' \<in> set server then peer_port services (drop (length h + 1) server)
                       else Some LIRC_INET_PORT)
           in case port of
                None \<Rightarrow> (False, s)
              | Some p \<Rightarrow>
                  (True, s\<lparr>peers := peers s @ [\<lparr>pc_host = h, pc_port = p, pc_reconnect = now,
                                                  pc_failure = 0, pc_socket = - 1\<rparr>]\<rparr>))
      else (False, s))"

text \<open>One peer in \<open>connect_to_peers\<close>: the delay grows by five seconds with every failure.\<close>

definition connect_failed :: "timeval \<Rightarrow> peer_connection \<Rightarrow> peer_connection" where
  "connect_failed now p =
     (let n = i32 (pc_failure p + 1)
      in p\<lparr>pc_failure := n, pc_reconnect := now\<lparr>tv_sec := tv_sec now + i32 (5 * n)\<rparr>, pc_socket := - 1\<rparr>)"

definition connect_peer ::
  "timeval \<Rightarrow> peer_connection \<Rightarrow> ('d, 'z) lircd_srv_scheme \<Rightarrow> peer_connection \<times> ('d, 'z) lircd_srv_scheme" where
  "connect_peer now p s =
     (if pc_socket p \<noteq> - 1 \<or> \<not> timercmp_less (pc_reconnect p) now then (p, s)
      else
        let d = dials s (dial_count s); s = s\<lparr>dial_count := Suc (dial_count s)\<rparr>
        in if \<not> d_found d \<or> \<not> d_connected d
           then (case gettimeofday s of (t, s) \<Rightarrow> (connect_failed t p, s))
           else (p\<lparr>pc_socket := d_socket d, pc_failure := 0\<rparr>, s))"

fun connect_loop ::
  "timeval \<Rightarrow> peer_connection list \<Rightarrow> ('d, 'z) lircd_srv_scheme \<Rightarrow> peer_connection list \<times> ('d, 'z) lircd_srv_scheme" where
  "connect_loop now [] s = ([], s)"
| "connect_loop now (p # ps) s =
     (case connect_peer now p s of (p, s) \<Rightarrow>
        case connect_loop now ps s of (ps, s) \<Rightarrow> (p # ps, s))"

definition connect_to_peers :: "('d, 'z) lircd_srv_scheme \<Rightarrow> ('d, 'z) lircd_srv_scheme" where
  "connect_to_peers s =
     (case gettimeofday s of (now, s) \<Rightarrow>
        case connect_loop now (peers s) s of (ps, s) \<Rightarrow> s\<lparr>peers := ps\<rparr>)"

text \<open>A C string in a buffer ends at its first zero byte.\<close>

definition cstr :: "string \<Rightarrow> string" where
  "cstr t = takeWhile (\<lambda>c. c \<noteq> CHR 0x00) t"

text \<open>\<open>False\<close>: the connection is to be closed.\<close>

definition get_peer_message ::
  "'d driver \<Rightarrow> int \<Rightarrow> ('d, 'z) lircd_srv_scheme \<Rightarrow> (bool \<times> ('d, 'z) lircd_srv_scheme) option" where
  "get_peer_message d fd s =
     (case read_timeout fd PACKET_SIZE s of
        (None, s) \<Rightarrow> None
      | (Some t, s) \<Rightarrow>
          if t = [] then Some (False, s)
          else
            let b = cstr t
            in if b = [] \<or> last b \<noteq> CHR 0x0A then Some (False, s)
               else Some (True, write_clients d (\<lambda>i. cli_type s i = CT_REMOTE) [b] 0 s))"

end
