(* ===== verification/Commands.thy ===== *)
theory Commands
  imports Daemon
begin

text \<open>
  The command protocol of \<open>daemons/lircd.c\<close>: the packets sent in reply, the directives, and
  \<open>get_command\<close>, which splits what a client sends into lines and runs them. A directive returns
  \<open>True\<close> unless the client is to be removed; a fault is \<open>None\<close>.
\<close>

section \<open>Replies\<close>

definition endl :: string where "endl = [CHR 0x0A]"

definition P_BEGIN :: string where "P_BEGIN = ''BEGIN'' @ endl"
definition P_DATA :: string where "P_DATA = ''DATA'' @ endl"
definition P_END :: string where "P_END = ''END'' @ endl"
definition P_ERROR :: string where "P_ERROR = ''ERROR'' @ endl"
definition P_SUCCESS :: string where "P_SUCCESS = ''SUCCESS'' @ endl"
definition P_SIGHUP :: string where "P_SIGHUP = ''SIGHUP'' @ endl"

lemmas protocol_strings = P_BEGIN_def P_DATA_def P_END_def P_ERROR_def P_SUCCESS_def P_SIGHUP_def

definition send_success ::
  "int \<Rightarrow> string \<Rightarrow> ('d, 'z) lircd_srv_scheme \<Rightarrow> bool \<times> ('d, 'z) lircd_srv_scheme" where
  "send_success fd message s = write_all fd [P_BEGIN, message, P_SUCCESS, P_END] s"

text \<open>\<open>send_error\<close> with the formatted text: \<open>vsprintf\<close> writes it to a buffer of
  \<open>PACKET_SIZE + 1\<close> bytes, and the number of its lines to one of four.\<close>

definition send_error ::
  "int \<Rightarrow> string \<Rightarrow> string \<Rightarrow> ('d, 'z) lircd_srv_scheme \<Rightarrow> (bool \<times> ('d, 'z) lircd_srv_scheme) option" where
  "send_error fd message t s =
     (let n = count_list t CHR 0x0A in
        if length t > PACKET_SIZE \<or> n > 99 then None
        else Some (write_all fd [P_BEGIN, message, P_ERROR, P_DATA, show_int (int n) @ endl, t, P_END] s))"

text \<open>\<open>snprintf (buffer, PACKET_SIZE, \<dots>)\<close>, the check of its result, and what \<open>write_socket\<close> then
  takes from the buffer: a text of exactly \<open>PACKET_SIZE\<close> characters passes the check, but has been
  cut, and the terminating zero is sent in place of its last character.\<close>

definition line_text :: "nat \<Rightarrow> string \<Rightarrow> string \<Rightarrow> string" where
  "line_text cap too_long_text t =
     (if length t \<ge> PACKET_SIZE + 1 then too_long_text
      else if length t < cap then t
      else take (cap - 1) t @ [CHR 0x00])"

definition list_entry :: "string \<Rightarrow> string" where
  "list_entry nm = line_text (PACKET_SIZE + 1) (''name_too_long'' @ endl) (nm @ endl)"

definition code_text :: "ir_ncode \<Rightarrow> string" where
  "code_text c = pad_zero 16 (hex_int (uint (nc_code c))) @ '' '' @ nc_name c @ endl"

definition send_remote_list ::
  "int \<Rightarrow> string \<Rightarrow> ('d, 'z) lircd_srv_scheme \<Rightarrow> bool \<times> ('d, 'z) lircd_srv_scheme" where
  "send_remote_list fd message s =
     (let rs = map (store s) (remotes s)
      in write_all fd
        ([P_BEGIN, message, P_SUCCESS] @
         (if rs = [] then []
          else [P_DATA, show_int (int (length rs)) @ endl] @ map (\<lambda>r. list_entry (name r)) rs) @
         [P_END]) s)"

definition send_remote ::
  "int \<Rightarrow> string \<Rightarrow> ir_remote \<Rightarrow> ('d, 'z) lircd_srv_scheme \<Rightarrow> bool \<times> ('d, 'z) lircd_srv_scheme" where
  "send_remote fd message r s =
     (let cs = (case codes r of None \<Rightarrow> [] | Some cs \<Rightarrow> cs)
      in write_all fd
        ([P_BEGIN, message, P_SUCCESS] @
         (if cs = [] then []
          else [P_DATA, show_int (int (length cs)) @ endl] @
               map (\<lambda>c. line_text PACKET_SIZE (''code_too_long'' @ endl) (code_text c)) cs) @
         [P_END]) s)"

definition send_name ::
  "int \<Rightarrow> string \<Rightarrow> ir_ncode \<Rightarrow> ('d, 'z) lircd_srv_scheme \<Rightarrow> bool \<times> ('d, 'z) lircd_srv_scheme" where
  "send_name fd message c s =
     write_all fd [P_BEGIN, message, P_SUCCESS, P_DATA,
       line_text PACKET_SIZE (''1'' @ endl @ ''code_too_long'' @ endl) (''1'' @ endl @ code_text c), P_END] s"

section \<open>Arguments\<close>

text \<open>The result of \<open>parse_rc\<close>: either an error has been reported already (with the result of
  reporting it), or the remote, its button and the number of repeats.\<close>

type_synonym parsed = "addr option \<times> nat option \<times> int"

definition quoted :: "string \<Rightarrow> string \<Rightarrow> string" where
  "quoted what t = what @ ''\"'' @ t @ ''\"'' @ endl"

definition refuse ::
  "int \<Rightarrow> string \<Rightarrow> string \<Rightarrow> ('d, 'z) lircd_srv_scheme \<Rightarrow> ((bool + 'a) \<times> ('d, 'z) lircd_srv_scheme) option" where
  "refuse fd message t s = map_option (\<lambda>(ok, s). (Inl ok, s)) (send_error fd message t s)"

text \<open>The check at the label \<open>arg_check\<close>.\<close>

definition arg_check ::
  "nat \<Rightarrow> int \<Rightarrow> string \<Rightarrow> parsed \<Rightarrow> ('d, 'z) lircd_srv_scheme \<Rightarrow> ((bool + parsed) \<times> ('d, 'z) lircd_srv_scheme) option" where
  "arg_check n fd message p s =
     (if n > 0 \<and> fst p = None then refuse fd message (''remote missing'' @ endl) s
      else if n > 1 \<and> fst (snd p) = None then refuse fd message (''code missing'' @ endl) s
      else Some (Inr p, s))"

text \<open>The number of repeats, \<open>-1\<close> when it is not given; the text of the error otherwise.\<close>

definition parse_reps :: "u32 \<Rightarrow> string list \<Rightarrow> string + int" where
  "parse_reps mx ts =
     (case ts of
        [] \<Rightarrow> Inr (- 1)
      | t # _ \<Rightarrow>
          (case strtol10 t of (v, rest) \<Rightarrow>
             let n = i32 v
             in if rest \<noteq> [] \<or> n < 0 then Inl (''bad send packet'' @ endl)
                else if n > uint mx
                  then Inl (''too many repeats: \"'' @ show_int n @ ''\" > \"'' @ show_dec (uint mx) @ ''\"'' @ endl)
                else Inr n))"

definition parse_rc ::
  "int \<Rightarrow> string \<Rightarrow> string option \<Rightarrow> bool \<Rightarrow> nat \<Rightarrow> ('d, 'z) lircd_srv_scheme \<Rightarrow>
     ((bool + parsed) \<times> ('d, 'z) lircd_srv_scheme) option" where
  "parse_rc fd message arguments with_reps n s =
     (case (case arguments of None \<Rightarrow> [] | Some a \<Rightarrow> blank_tokens a) of
        [] \<Rightarrow> arg_check n fd message (None, None, 0) s
      | nm # ts \<Rightarrow>
          (case get_ir_remote (store s) (remotes s) nm of
             None \<Rightarrow> refuse fd message (quoted ''unknown remote: '' nm) s
           | Some p \<Rightarrow>
               (case ts of
                  [] \<Rightarrow> arg_check n fd message (Some p, None, 0) s
                | command # ts \<Rightarrow>
                    do { code \<leftarrow> get_code_by_name (store s p) command;
                         case code of
                           None \<Rightarrow> refuse fd message (quoted ''unknown command: '' command) s
                         | Some i \<Rightarrow>
                             (case (if with_reps then parse_reps (repeat_max s) ts else Inr 0) of
                                Inl t \<Rightarrow> refuse fd message t s
                              | Inr n_reps \<Rightarrow>
                                  if (if with_reps then tl ts else ts) \<noteq> []
                                  then refuse fd message (''bad send packet'' @ endl) s
                                  else arg_check n fd message (Some p, Some i, n_reps) s) })))"

section \<open>Directives\<close>

definition list_command ::
  "int \<Rightarrow> string \<Rightarrow> string option \<Rightarrow> ('d, 'z) lircd_srv_scheme \<Rightarrow> (bool \<times> ('d, 'z) lircd_srv_scheme) option" where
  "list_command fd message arguments s =
     do { (res, s) \<leftarrow> parse_rc fd message arguments False 0 s;
          case res of
            Inl ok \<Rightarrow> Some (ok, s)
          | Inr (None, _) \<Rightarrow> Some (send_remote_list fd message s)
          | Inr (Some p, None, _) \<Rightarrow> Some (send_remote fd message (store s p) s)
          | Inr (Some p, Some i, _) \<Rightarrow>
              do { c \<leftarrow> ncode_at (store s p) i; Some (send_name fd message c s) } }"

definition MAX_TX :: int where [c_eval]: "MAX_TX = 32"

text \<open>\<open>strtoul (s, &end, 10)\<close>.\<close>

definition strtoul10 :: "string \<Rightarrow> ulong \<times> string" where
  "strtoul10 s =
     (let (neg, t) = number_sign (dropWhile is_space_char s);
          ds = takeWhile (is_digit 10) t; v = digits_value 10 ds
      in if ds = [] then (0, s)
         else (if v \<ge> 2 ^ 64 then - 1 else word_of_int (if neg then - v else v), drop (length ds) t))"

text \<open>The mask of the transmitters that the arguments number from 1, or the text of the error.\<close>

fun tx_mask :: "u32 \<Rightarrow> string list \<Rightarrow> string + u32" where
  "tx_mask channels [] = Inr channels"
| "tx_mask channels (t # ts) =
     (case strtoul10 t of (v, rest) \<Rightarrow>
        let n = ucast v :: u32
        in if rest \<noteq> [] \<or> n = 0 then Inl (''invalid argument'' @ endl)
           else if uint n > MAX_TX
             then Inl (''cannot support more than '' @ show_int MAX_TX @ '' transmitters'' @ endl)
           else tx_mask (channels OR push_bit (unat n - 1) 1) ts)"

definition set_transmitters ::
  "'d driver \<Rightarrow> int \<Rightarrow> string \<Rightarrow> string option \<Rightarrow> ('d, 'z) lircd_srv_scheme \<Rightarrow> (bool \<times> ('d, 'z) lircd_srv_scheme) option" where
  "set_transmitters d fd message arguments s =
     (case arguments of
        None \<Rightarrow> send_error fd message (''no arguments given'' @ endl) s
      | Some a \<Rightarrow>
          if send_mode (hw s) = 0 then send_error fd message (''hardware does not support sending'' @ endl) s
          else if ioctl_func d = None \<or> \<not> can LIRC_CAN_SET_TRANSMITTER_MASK s
            then send_error fd message (''hardware does not support multiple transmitters'' @ endl) s
          else if blank_tokens a = [] then send_error fd message (''no arguments given'' @ endl) s
          else
            (case tx_mask 0 (blank_tokens a) of
               Inl t \<Rightarrow> send_error fd message t s
             | Inr channels \<Rightarrow>
                 do { (ret, v, s) \<leftarrow> ioctl d (SET_TRANSMITTER_MASK channels) s;
                      if ret < 0 then send_error fd message (''error - could not set transmitters'' @ endl) s
                      else if ret > 0
                        then send_error fd message (''error - maximum of '' @ show_int ret @ '' transmitters'' @ endl) s
                      else Some (send_success fd message s) }))"

definition isxdigit :: "char \<Rightarrow> bool" where "isxdigit c = is_digit 16 c"

text \<open>The form of an event: 16 hexadecimal digits, a repeat count, a button and a remote.\<close>

definition valid_event :: "string \<Rightarrow> bool" where
  "valid_event a \<longleftrightarrow>
     length (take 16 a) = 16 \<and> list_all isxdigit (take 16 a) \<and>
     (case drop 16 a of
        [] \<Rightarrow> False
      | c # s \<Rightarrow>
          let n = takeWhile (\<lambda>x. x \<noteq> CHR '' '') s; t = drop (length n + 1) s;
              b = takeWhile (\<lambda>x. x \<noteq> CHR '' '') t; u = drop (length b + 1) t
          in c = CHR '' '' \<and> n \<noteq> [] \<and> length n < length s \<and> list_all isxdigit n \<and>
             b \<noteq> [] \<and> length b < length t \<and> u \<noteq> [] \<and> CHR '' '' \<notin> set u)"

definition simulate ::
  "'d driver \<Rightarrow> int \<Rightarrow> string \<Rightarrow> string option \<Rightarrow> ('d, 'z) lircd_srv_scheme \<Rightarrow> (bool \<times> ('d, 'z) lircd_srv_scheme) option" where
  "simulate d fd message arguments s =
     (if \<not> allow_simulate s then send_error fd message (''SIMULATE command is disabled'' @ endl) s
      else
        case arguments of
          None \<Rightarrow> send_error fd message (''no arguments given'' @ endl) s
        | Some a \<Rightarrow>
            if valid_event a then Some (send_success fd message (broadcast_message d (a @ endl) s))
            else send_error fd message (''invalid event'' @ endl) s)"

definition version ::
  "string \<Rightarrow> int \<Rightarrow> string \<Rightarrow> string option \<Rightarrow> ('d, 'z) lircd_srv_scheme \<Rightarrow> (bool \<times> ('d, 'z) lircd_srv_scheme) option" where
  "version VERSION fd message arguments s =
     (if arguments \<noteq> None then send_error fd message (''bad send packet'' @ endl) s
      else Some (write_all fd [P_BEGIN, message, P_SUCCESS, P_DATA, ''1'' @ endl @ VERSION @ endl, P_END] s))"

end
