(* ===== verification/Repeats.thy ===== *)
theory Repeats
  imports Commands
begin

text \<open>
  Sending for clients (\<open>send_core\<close>, \<open>send_stop\<close>) and the timer that repeats a signal
  (\<open>dosigalrm\<close>) of \<open>daemons/lircd.c\<close>. \<open>SEND_ONCE\<close> is answered when the last repeat has been
  sent: until then \<open>repeat_fd\<close> is its client and \<open>repeat_message\<close> the command.
\<close>

section \<open>Starting\<close>

text \<open>What \<open>send_core\<close> does to remote and button before the signal is sent.\<close>

definition prepare_send :: "ir_remote \<Rightarrow> nat \<Rightarrow> ir_remote" where
  "prepare_send r i =
     (let r = (if has_toggle_mask r then r\<lparr>toggle_mask_state := 0\<rparr> else r);
          r = (if has_toggle_bit_mask r
               then r\<lparr>toggle_bit_mask_state := toggle_bit_mask_state r XOR toggle_bit_mask r\<rparr> else r)
      in r\<lparr>codes := map_option (\<lambda>cs. cs[i := (cs ! i)\<lparr>nc_transmit_state := None\<rparr>]) (codes r)\<rparr>)"

text \<open>The number of repeats that the timer has to send.\<close>

definition countdown_start :: "u32 \<Rightarrow> bool \<Rightarrow> int \<Rightarrow> ir_remote \<Rightarrow> int" where
  "countdown_start mx once n_reps r =
     (if once then (if repeat_countdown r > n_reps then repeat_countdown r else n_reps) else sint mx)"

definition note_sent :: "addr \<Rightarrow> nat \<Rightarrow> bool \<Rightarrow> int \<Rightarrow> ('d, 'z) lircd_srv_scheme \<Rightarrow> ('d, 'z) lircd_srv_scheme" where
  "note_sent p i once n_reps s =
     (let (now, s) = gettimeofday s; r = store s p
      in s\<lparr>store := (store s)(p := r\<lparr>last_send := now, last_code := Some i,
             repeat_countdown := countdown_start (repeat_max s) once n_reps r\<rparr>)\<rparr>)"

definition begin_repeat ::
  "int \<Rightarrow> string \<Rightarrow> bool \<Rightarrow> addr \<Rightarrow> nat \<Rightarrow> ('d, 'z) lircd_srv_scheme \<Rightarrow> bool \<times> ('d, 'z) lircd_srv_scheme" where
  "begin_repeat fd message once p i s =
     (let s = s\<lparr>repeat_remote := Some p, repeat_code := Some i\<rparr>
      in if once
         then (True, setitimer (min_remaining_gap (store s p))
                       (s\<lparr>repeat_message := Some message, repeat_fd := fd\<rparr>))
         else (case send_success fd message s of
                 (True, s) \<Rightarrow> (True, setitimer (min_remaining_gap (store s p)) s)
               | (False, s) \<Rightarrow> (False, s\<lparr>repeat_remote := None, repeat_code := None\<rparr>)))"

definition send_core ::
  "'d driver \<Rightarrow> int \<Rightarrow> string \<Rightarrow> string option \<Rightarrow> bool \<Rightarrow> ('d, 'z) lircd_srv_scheme \<Rightarrow>
     (bool \<times> ('d, 'z) lircd_srv_scheme) option" where
  "send_core d fd message arguments once s =
     (if send_mode (hw s) = 0 then send_error fd message (''hardware does not support sending'' @ endl) s
      else do {
        (res, s) \<leftarrow> parse_rc fd message arguments once 2 s;
        case res of
          Inr (Some p, Some i, n_reps) \<Rightarrow>
            if repeat_remote s \<noteq> None
            then send_error fd message ((if once then ''busy: repeating'' else ''already repeating'') @ endl) s
            else do {
              s \<leftarrow> Some (s\<lparr>store := (store s)(p := prepare_send (store s p) i)\<rparr>);
              (ok, s) \<leftarrow> send_button d p i s;
              if \<not> ok then send_error fd message (''transmission failed'' @ endl) s
              else do {
                s \<leftarrow> Some (note_sent p i once n_reps s);
                c \<leftarrow> ncode_at (store s p) i;
                if repeat_countdown (store s p) > 0 \<or> nc_nodes c \<noteq> []
                then Some (begin_repeat fd message once p i s)
                else Some (send_success fd message s) } }
        | Inr _ \<Rightarrow> None
        | Inl ok \<Rightarrow> Some (ok, s) })"

definition send_once ::
  "'d driver \<Rightarrow> int \<Rightarrow> string \<Rightarrow> string option \<Rightarrow> ('d, 'z) lircd_srv_scheme \<Rightarrow> (bool \<times> ('d, 'z) lircd_srv_scheme) option" where
  "send_once d fd message arguments s = send_core d fd message arguments True s"

definition send_start ::
  "'d driver \<Rightarrow> int \<Rightarrow> string \<Rightarrow> string option \<Rightarrow> ('d, 'z) lircd_srv_scheme \<Rightarrow> (bool \<times> ('d, 'z) lircd_srv_scheme) option" where
  "send_start d fd message arguments s = send_core d fd message arguments False s"

section \<open>Stopping\<close>

text \<open>Remote and button of \<open>SEND_STOP\<close>, when given, have to be those that are repeated.\<close>

definition stop_mismatch :: "addr option \<Rightarrow> nat option \<Rightarrow> addr \<Rightarrow> nat \<Rightarrow> (addr \<Rightarrow> ir_remote) \<Rightarrow> string option option" where
  "stop_mismatch rm cd p i st =
     (case rm of
        None \<Rightarrow> Some None
      | Some q \<Rightarrow>
          if \<not> strcaseeq (name (st q)) (name (st p)) then Some (Some (''specified remote does not match'' @ endl))
          else (case cd of
                  None \<Rightarrow> Some None
                | Some j \<Rightarrow>
                    do { a \<leftarrow> ncode_at (st q) j; b \<leftarrow> ncode_at (st p) i;
                         Some (if strcaseeq (nc_name a) (nc_name b) then None
                               else Some (''specified code does not match'' @ endl)) }))"

text \<open>Repeats that are still due by \<open>min_repeat\<close> are sent, otherwise the timer stops at once.\<close>

definition stop_repeat :: "addr \<Rightarrow> ('d, 'z) lircd_srv_scheme \<Rightarrow> ('d, 'z) lircd_srv_scheme" where
  "stop_repeat p s =
     (let r = store s p;
          sent_reps = i32 (uint (repeat_max s - word_of_int (repeat_countdown r)))
      in if sent_reps < min_repeat r
         then s\<lparr>store := (store s)(p := r\<lparr>repeat_countdown := i32 (min_repeat r - sent_reps)\<rparr>)\<rparr>
         else (setitimer 0 s)\<lparr>store := (store s)(p := r\<lparr>toggle_mask_state := 0\<rparr>),
                repeat_remote := None, repeat_code := None, alrm_flag := False\<rparr>)"

definition send_stop ::
  "int \<Rightarrow> string \<Rightarrow> string option \<Rightarrow> ('d, 'z) lircd_srv_scheme \<Rightarrow> (bool \<times> ('d, 'z) lircd_srv_scheme) option" where
  "send_stop fd message arguments s =
     do { (res, s) \<leftarrow> parse_rc fd message arguments False 0 s;
          case res of
            Inl ok \<Rightarrow> Some (ok, s)
          | Inr (rm, cd, _) \<Rightarrow>
              (case (repeat_remote s, repeat_code s) of
                 (Some p, Some i) \<Rightarrow>
                   do { mismatch \<leftarrow> stop_mismatch rm cd p i (store s);
                        case mismatch of
                          Some t \<Rightarrow> send_error fd message t s
                        | None \<Rightarrow> Some (send_success fd message (stop_repeat p s)) }
               | _ \<Rightarrow> send_error fd message (''not repeating'' @ endl) s) }"

section \<open>The timer\<close>

text \<open>Has the sequence of the button come to its end, so that a repeat is used up?\<close>

definition sequence_done :: "ir_ncode \<Rightarrow> bool" where
  "sequence_done c \<longleftrightarrow>
     nc_nodes c = [] \<or>
     (case nc_transmit_state c of None \<Rightarrow> False | Some j \<Rightarrow> node_ptr c (Suc j) = None)"

definition end_repeat :: "'d driver \<Rightarrow> ('d, 'z) lircd_srv_scheme \<Rightarrow> ('d, 'z) lircd_srv_scheme option" where
  "end_repeat d s =
     (let s = s\<lparr>repeat_remote := None, repeat_code := None\<rparr>
      in if repeat_fd s \<noteq> - 1
         then do { m \<leftarrow> repeat_message s;
                   (ok, s) \<leftarrow> Some (send_success (repeat_fd s) m s);
                   Some (deinit_unused d (s\<lparr>repeat_message := None, repeat_fd := - 1\<rparr>)) }
         else Some (deinit_unused d s))"

definition interrupt_repeat :: "'d driver \<Rightarrow> ('d, 'z) lircd_srv_scheme \<Rightarrow> ('d, 'z) lircd_srv_scheme option" where
  "interrupt_repeat d s =
     do { s \<leftarrow> if repeat_fd s \<noteq> - 1
               then do { m \<leftarrow> repeat_message s;
                         (ok, s) \<leftarrow> send_error (repeat_fd s) m (''repeating interrupted'' @ endl) s;
                         Some s }
               else Some s;
          Some (deinit_unused d (s\<lparr>repeat_remote := None, repeat_code := None,
                                   repeat_message := None, repeat_fd := - 1\<rparr>)) }"

definition dosigalrm :: "'d driver \<Rightarrow> ('d, 'z) lircd_srv_scheme \<Rightarrow> ('d, 'z) lircd_srv_scheme option" where
  "dosigalrm d s =
     do { p \<leftarrow> repeat_remote s;
          if last_code (store s p) \<noteq> repeat_code s then interrupt_repeat d s
          else do {
            i \<leftarrow> repeat_code s;
            c \<leftarrow> ncode_at (store s p) i;
            s \<leftarrow> Some (if sequence_done c
                       then s\<lparr>store := (store s)(p := (store s p)\<lparr>repeat_countdown :=
                               i32 (repeat_countdown (store s p) - 1)\<rparr>)\<rparr>
                       else s);
            (ok, s) \<leftarrow> send_button d p i s;
            if ok \<and> repeat_countdown (store s p) > 0
            then Some (setitimer (min_remaining_gap (store s p)) s)
            else end_repeat d s } }"

end
