(* ===== verification/ServerLaws.thy ===== *)
theory ServerLaws
  imports Repeats
begin

text \<open>
  What the operations of \<open>daemons/lircd.c\<close> leave alone. A property of the state that does not
  speak of what has been written, of the clients that are left and of the driver is kept by
  everything that answers a client; one that does not speak of the remotes and of the repeating
  signal either is kept by every directive. The locales state this once for all operations.
\<close>

section \<open>Answering\<close>

locale connection_invariant =
  fixes I :: "('d, 'z) lircd_srv_scheme \<Rightarrow> bool"
  assumes wrote: "I s \<Longrightarrow> I (s\<lparr>sent := x, wr_count := n\<rparr>)"
    and counted: "I s \<Longrightarrow> I (s\<lparr>wr_count := n\<rparr>)"
    and dropped: "I s \<Longrightarrow> I (s\<lparr>clis := cs\<rparr>)"
    and driven: "I s \<Longrightarrow> I (s\<lparr>drv := dv\<rparr>)" "I s \<Longrightarrow> I (s\<lparr>hw_fd := f, drv := dv\<rparr>)"
begin

lemma write_socket: "write_socket fd t s = (ok, s') \<Longrightarrow> I s \<Longrightarrow> I s'"
  by (auto simp: write_socket_def wrote counted split: if_splits)

lemma write_all: "write_all fd ts s = (ok, s') \<Longrightarrow> I s \<Longrightarrow> I s'"
proof (induction ts arbitrary: s)
  case Nil
  then show ?case by simp
next
  case (Cons t ts)
  then show ?case using write_socket by (auto simp: write_all.simps split: prod.splits if_splits)
qed

lemma send_success: "send_success fd m s = (ok, s') \<Longrightarrow> I s \<Longrightarrow> I s'"
  unfolding send_success_def by (rule write_all)

lemma send_error: "send_error fd m t s = Some (ok, s') \<Longrightarrow> I s \<Longrightarrow> I s'"
  by (simp add: send_error_def Let_def write_all split: if_splits)

lemma deinit: "I s \<Longrightarrow> I (deinit_unused d s)"
  by (auto simp: deinit_unused_def driven split: option.splits prod.splits)

lemma remove_client: "I s \<Longrightarrow> I (remove_client d fd s)"
  by (simp add: remove_client_def deinit dropped)

lemma write_clients: "I s \<Longrightarrow> I (write_clients d skip ts i s)"
proof (induction d skip ts i s rule: write_clients.induct)
  case (1 d skip ts i s)
  show ?case
  proof (cases "i < length (clis s) \<and> \<not> skip i")
    case True
    obtain ok s' where w: "write_all (clis s ! i) ts s = (ok, s')" by fastforce
    then have s': "I s'" using write_all 1(4) by blast
    have "write_clients d skip ts i s =
        (if ok then write_clients d skip ts (Suc i) s' else write_clients d skip ts i (remove_client d (clis s' ! i) s'))"
      using True w by (subst write_clients.simps) simp
    then show ?thesis
      using 1(2,3) True w s' remove_client by (auto split: if_splits)
  next
    case False
    then show ?thesis using 1(1,4) by (subst write_clients.simps) auto
  qed
qed

lemma broadcast: "I s \<Longrightarrow> I (broadcast_message d m s)"
  by (simp add: broadcast_message_def write_clients)

lemma ioctl: "ioctl d c s = Some (r, v, s') \<Longrightarrow> I s \<Longrightarrow> I s'"
  by (auto simp: ioctl_def driven split: option.splits prod.splits)

lemma refuse: "refuse fd m t s = Some (res, s') \<Longrightarrow> I s \<Longrightarrow> I s'"
  using send_error by (auto simp: refuse_def)

lemma arg_check: "arg_check n fd m p s = Some (res, s') \<Longrightarrow> I s \<Longrightarrow> I s'"
  by (auto simp: arg_check_def refuse split: if_splits)

lemma parse_rc: "parse_rc fd m a w n s = Some (res, s') \<Longrightarrow> I s \<Longrightarrow> I s'"
  unfolding parse_rc_def
  by (auto split: list.splits option.splits bind_splits sum.splits if_splits intro: refuse arg_check)

lemma send_list: "send_remote_list fd m s = (ok, s') \<Longrightarrow> I s \<Longrightarrow> I s'"
  "send_remote fd m r s = (ok, s') \<Longrightarrow> I s \<Longrightarrow> I s'" "send_name fd m c s = (ok, s') \<Longrightarrow> I s \<Longrightarrow> I s'"
  unfolding send_remote_list_def send_remote_def send_name_def Let_def by (erule write_all, assumption)+

lemma list_command: "list_command fd m a s = Some (ok, s') \<Longrightarrow> I s \<Longrightarrow> I s'"
  by (auto simp: list_command_def split: bind_splits sum.splits prod.splits option.splits
      dest!: parse_rc intro: send_list)

lemma set_transmitters: "set_transmitters d fd m a s = Some (ok, s') \<Longrightarrow> I s \<Longrightarrow> I s'"
  by (auto simp: set_transmitters_def split: option.splits if_splits sum.splits bind_splits prod.splits
      dest!: ioctl intro: send_error send_success)

lemma simulate: "simulate d fd m a s = Some (ok, s') \<Longrightarrow> I s \<Longrightarrow> I s'"
  by (auto simp: simulate_def split: option.splits if_splits intro: send_error send_success [OF _ broadcast])

lemma version: "version v fd m a s = Some (ok, s') \<Longrightarrow> I s \<Longrightarrow> I s'"
  by (auto simp: version_def split: if_splits intro: send_error write_all)

end

section \<open>Sending and repeating\<close>

locale command_invariant = connection_invariant +
  assumes ticked: "I s \<Longrightarrow> I (s\<lparr>ticks := n\<rparr>)"
    and stored: "I s \<Longrightarrow> I (s\<lparr>store := st\<rparr>)"
    and repeating: "I s \<Longrightarrow> I (s\<lparr>repeat_remote := p, repeat_code := c\<rparr>)"
    and answering: "I s \<Longrightarrow> I (s\<lparr>repeat_message := m, repeat_fd := fd\<rparr>)"
    and timed: "I s \<Longrightarrow> I (s\<lparr>timer := t\<rparr>)" "I s \<Longrightarrow> I (s\<lparr>alrm_flag := a\<rparr>)"
begin

lemma setitimer: "I s \<Longrightarrow> I (setitimer u s)"
  by (simp add: setitimer_def timed)

lemma clocked: "I s \<Longrightarrow> I (snd (gettimeofday s))"
  by (simp add: gettimeofday_def ticked)

lemma driver_send: "driver_send d p i s = Some (ok, s') \<Longrightarrow> I s \<Longrightarrow> I s'"
  using driven stored by (fastforce simp: driver_send_def split: bind_splits prod.splits)

lemma send_button: "send_button d p i s = Some (ok, s') \<Longrightarrow> I s \<Longrightarrow> I s'"
  by (auto simp: send_button_def send_ir_ncode_def send_pause_def gettimeofday_def set_remote_def Let_def ticked
      split: bind_splits prod.splits if_splits intro!: stored ticked dest!: driver_send)

lemma begin_repeat: "begin_repeat fd m once p i s = (ok, s') \<Longrightarrow> I s \<Longrightarrow> I s'"
  by (auto simp: begin_repeat_def Let_def repeating answering
      split: if_splits prod.splits bool.splits intro: setitimer repeating answering dest!: send_success)

lemma note_sent: "I s \<Longrightarrow> I (note_sent p i once k s)"
  by (simp add: note_sent_def gettimeofday_def Let_def stored ticked)

lemma send_core: "send_core d fd m a once s = Some (ok, s') \<Longrightarrow> I s \<Longrightarrow> I s'"
  by (auto simp: send_core_def
      split: bind_splits prod.splits if_splits option.splits sum.splits
      dest!: parse_rc send_button intro: send_error send_success begin_repeat stored note_sent)

lemma stop_repeat: "I s \<Longrightarrow> I (stop_repeat p s)"
  unfolding stop_repeat_def Let_def
  by (auto intro!: stored timed(2) repeating setitimer)

lemma send_stop: "send_stop fd m a s = Some (ok, s') \<Longrightarrow> I s \<Longrightarrow> I s'"
  by (auto simp: send_stop_def
      split: bind_splits prod.splits if_splits option.splits sum.splits
      dest!: parse_rc intro: send_error send_success stop_repeat)

lemma end_repeat: "end_repeat d s = Some s' \<Longrightarrow> I s \<Longrightarrow> I s'"
  by (auto simp: end_repeat_def Let_def split: if_splits bind_splits option.splits prod.splits
      dest!: send_success intro!: deinit answering repeating)

lemma interrupt_repeat: "interrupt_repeat d s = Some s' \<Longrightarrow> I s \<Longrightarrow> I s'"
  by (auto simp: interrupt_repeat_def split: if_splits bind_splits option.splits prod.splits
      dest!: send_error intro!: deinit answering repeating)

lemma dosigalrm: "dosigalrm d s = Some s' \<Longrightarrow> I s \<Longrightarrow> I s'"
  by (auto simp: dosigalrm_def split: if_splits bind_splits option.splits prod.splits
      dest!: send_button intro: end_repeat interrupt_repeat setitimer stored)

end

section \<open>What no directive touches\<close>

interpretation input: command_invariant "\<lambda>s. incoming s = x" for x
  by unfold_locales simp_all

interpretation list_of_remotes: command_invariant "\<lambda>s. remotes s = x" for x
  by unfold_locales simp_all

interpretation answers: connection_invariant "\<lambda>s. store s = x" for x
  by unfold_locales simp_all

end
