(* ===== verification/Clients.thy ===== *)
theory Clients
  imports ServerLaws
begin

text \<open>
  \<open>get_command\<close> of \<open>daemons/lircd.c\<close>: the bytes a client sends are cut into lines, and every line
  is run as a directive. \<open>VERSION\<close> is the version string of the build.
\<close>

section \<open>One line\<close>

text \<open>\<open>strtok (buffer, " \t")\<close> and \<open>strtok (NULL, "")\<close>: the first word and what follows the blank
  behind it, \<open>None\<close> when nothing does.\<close>

definition first_word :: "string \<Rightarrow> (string \<times> string option) option" where
  "first_word line =
     (let t = dropWhile is_blank line;
          w = takeWhile (\<lambda>c. \<not> is_blank c) t;
          rest = drop (length w + 1) t
      in if w = [] then None else Some (w, if rest = [] then None else Some rest))"

definition strip_cr :: "string \<Rightarrow> string" where
  "strip_cr line = (if line \<noteq> [] \<and> last line = CHR 0x0D then butlast line else line)"

definition run_directive ::
  "'d driver \<Rightarrow> string \<Rightarrow> int \<Rightarrow> string \<Rightarrow> string \<Rightarrow> string option \<Rightarrow> ('d, 'z) lircd_srv_scheme \<Rightarrow>
     (bool \<times> ('d, 'z) lircd_srv_scheme) option" where
  "run_directive d VERSION fd message w arguments s =
     (if strcaseeq w ''LIST'' then list_command fd message arguments s
      else if strcaseeq w ''SEND_ONCE'' then send_once d fd message arguments s
      else if strcaseeq w ''SEND_START'' then send_start d fd message arguments s
      else if strcaseeq w ''SEND_STOP'' then send_stop fd message arguments s
      else if strcaseeq w ''VERSION'' then version VERSION fd message arguments s
      else if strcaseeq w ''SET_TRANSMITTERS'' then set_transmitters d fd message arguments s
      else if strcaseeq w ''SIMULATE'' then simulate d fd message arguments s
      else send_error fd message (quoted ''unknown directive: '' w) s)"

definition run_line ::
  "'d driver \<Rightarrow> string \<Rightarrow> int \<Rightarrow> string \<Rightarrow> ('d, 'z) lircd_srv_scheme \<Rightarrow> (bool \<times> ('d, 'z) lircd_srv_scheme) option" where
  "run_line d VERSION fd line s =
     (case first_word (strip_cr line) of
        None \<Rightarrow> send_error fd (line @ endl) (''bad send packet'' @ endl) s
      | Some (w, arguments) \<Rightarrow> run_directive d VERSION fd (line @ endl) w arguments s)"

context command_invariant begin

lemma run_directive: "run_directive d v fd m w a s = Some (ok, s') \<Longrightarrow> I s \<Longrightarrow> I s'"
  by (auto simp: run_directive_def send_once_def send_start_def split: if_splits
      intro: list_command send_core send_stop version set_transmitters simulate send_error)

lemma run_line: "run_line d v fd line s = Some (ok, s') \<Longrightarrow> I s \<Longrightarrow> I s'"
  by (auto simp: run_line_def split: option.splits intro: run_directive send_error)

end

section \<open>The lines of a client\<close>

text \<open>The line at the start of the buffer, without its newline, and the bytes behind it.\<close>

definition next_line :: "string \<Rightarrow> (string \<times> string) option" where
  "next_line b =
     (let t = cstr b; line = takeWhile (\<lambda>c. c \<noteq> CHR 0x0A) t
      in if CHR 0x0A \<in> set t then Some (line, drop (length line + 1) b) else None)"

lemma next_line_shorter: "next_line b = Some (line, rest) \<Longrightarrow> length rest < length b"
proof -
  assume n: "next_line b = Some (line, rest)"
  then have "b \<noteq> []" "rest = drop (length line + 1) b"
    by (auto simp: next_line_def cstr_def Let_def split: if_splits)
  then show "length rest < length b" by (cases b) auto
qed

definition unread :: "int \<Rightarrow> ('d, 'z) lircd_srv_scheme \<Rightarrow> nat" where
  "unread fd s = sum_list (map (\<lambda>r. case r of None \<Rightarrow> 0 | Some t \<Rightarrow> length t) (incoming s fd))"

lemma read_timeout_unread:
  "read_timeout fd len s = (Some t, s') \<Longrightarrow> length t + unread fd s' = unread fd s"
  by (auto simp: read_timeout_def unread_def split: list.splits option.splits if_splits)

lemma run_line_unread: "run_line d v fd line s = Some (ok, s') \<Longrightarrow> unread fd s' = unread fd s"
  using input.run_line [of d v fd line s ok s' "incoming s"] by (simp add: unread_def)

text \<open>The loop of \<open>get_command\<close>: \<open>b\<close> is what the buffer holds.\<close>

function command_loop ::
  "'d driver \<Rightarrow> string \<Rightarrow> int \<Rightarrow> string \<Rightarrow> ('d, 'z) lircd_srv_scheme \<Rightarrow> (bool \<times> ('d, 'z) lircd_srv_scheme) option" where
  "command_loop d VERSION fd b s =
     (case next_line b of
        None \<Rightarrow> Some (False, s)
      | Some (line, rest) \<Rightarrow>
          (case run_line d VERSION fd line s of
             None \<Rightarrow> None
           | Some (ok, s) \<Rightarrow>
               if \<not> ok then Some (False, s)
               else if rest = [] then Some (True, s)
               else if CHR 0x0A \<in> set (cstr rest) then command_loop d VERSION fd rest s
               else (case read_timeout fd (PACKET_SIZE - length rest) s of
                       (None, s) \<Rightarrow> Some (True, s)
                     | (Some t, s) \<Rightarrow>
                         if t = [] then Some (False, s) else command_loop d VERSION fd (rest @ t) s)))"
  by pat_completeness auto
termination
  by (relation "measure (\<lambda>(_, _, fd, b, s). length b + unread fd s)")
    (auto dest!: next_line_shorter run_line_unread read_timeout_unread [OF sym])

declare command_loop.simps [simp del]

definition get_command ::
  "'d driver \<Rightarrow> string \<Rightarrow> int \<Rightarrow> ('d, 'z) lircd_srv_scheme \<Rightarrow> (bool \<times> ('d, 'z) lircd_srv_scheme) option" where
  "get_command d VERSION fd s =
     (case read_timeout fd PACKET_SIZE s of
        (None, s) \<Rightarrow> Some (True, s)
      | (Some t, s) \<Rightarrow> if t = [] then Some (False, s) else command_loop d VERSION fd t s)"

end
