(* ===== verification/MainLoop.thy ===== *)
theory MainLoop
  imports Clients
begin

text \<open>
  Events for clients (\<open>input_message\<close>) and the change of the configuration (\<open>config\<close>,
  \<open>free_old_remotes\<close>, \<open>dosighup\<close>) of \<open>daemons/lircd.c\<close>. A new configuration replaces the list
  \<open>remotes\<close>; the old one becomes \<open>free_remotes\<close>, and is freed when no signal of it is being
  decoded or repeated any more.
\<close>

section \<open>Events\<close>

text \<open>A message goes to all clients. A button whose release is still due is released first. The
  code for Linux input devices, which uses the names and the repeat count, is left out.\<close>

lemma check_release_some:
  "check_release_event s = Some (Some ev, s') \<Longrightarrow> release_remote2 (rel s) \<noteq> None \<and> release_remote2 (rel s') = None"
  by (auto simp: check_release_event_def split: option.splits bind_splits)

definition deliver :: "'d driver \<Rightarrow> string \<Rightarrow> bool \<Rightarrow> ('d, 'z) lircd_srv_scheme \<Rightarrow> ('d, 'z) lircd_srv_scheme" where
  "deliver d message release s =
     (if \<not> release \<or> userelease s then broadcast_message d message s else s)"

function input_message ::
  "'d driver \<Rightarrow> string \<Rightarrow> bool \<Rightarrow> ('d, 'z) lircd_srv_scheme \<Rightarrow> ('d, 'z) lircd_srv_scheme option" where
  "input_message d message release s =
     (case check_release_event s of
        None \<Rightarrow> None
      | Some (ev, s1) \<Rightarrow>
          (case ev of
             Some (_, _, Some m) \<Rightarrow> map_option (deliver d message release) (input_message d m True s1)
           | _ \<Rightarrow> Some (deliver d message release s1)))"
  by pat_completeness auto
termination
  by (relation "measure (\<lambda>(_, _, _, s). if release_remote2 (rel s) = None then 0 else 1)")
    (auto dest!: check_release_some)

declare input_message.simps [simp del]

text \<open>A release event as \<open>release.c\<close> returns it, passed on when it has a message.\<close>

definition release_message_out ::
  "'d driver \<Rightarrow> release_event option \<Rightarrow> ('d, 'z) lircd_srv_scheme \<Rightarrow> ('d, 'z) lircd_srv_scheme option" where
  "release_message_out d ev s =
     (case ev of Some (_, _, Some m) \<Rightarrow> input_message d m True s | _ \<Rightarrow> Some s)"

section \<open>A new configuration\<close>

definition new_remotes :: "ir_remote list \<Rightarrow> ('d, 'z) lircd_srv_scheme \<Rightarrow> ('d, 'z) lircd_srv_scheme" where
  "new_remotes rs s =
     (let n = next_addr s
      in s\<lparr>store := (\<lambda>p. if n \<le> p \<and> p < n + length rs then rs ! (p - n) else store s p),
           remotes := [n..<n + length rs], next_addr := n + length rs\<rparr>)"

text \<open>The file that is read: \<open>default_file\<close> and \<open>old_file\<close> are the paths of the build.\<close>

definition config_path :: "(string \<Rightarrow> string option) \<Rightarrow> string \<Rightarrow> string \<Rightarrow> string option \<Rightarrow> string option" where
  "config_path files default_file old_file conf =
     (case conf of
        Some f \<Rightarrow> if files f = None then None else Some f
      | None \<Rightarrow> if files default_file \<noteq> None then Some default_file
                else if files old_file \<noteq> None then Some old_file else None)"

record build =
  b_version :: string
  b_default_file :: string
  b_old_file :: string

definition config ::
  "'d driver \<Rightarrow> build \<Rightarrow> (ioctl \<Rightarrow> lirc_t) \<Rightarrow> (string \<Rightarrow> string option) \<Rightarrow> ('d, 'z) lircd_srv_scheme \<Rightarrow>
     ('d, 'z) lircd_srv_scheme option" where
  "config d b unset files s =
     (if free_remotes s \<noteq> [] then Some s
      else
        case config_path files (b_default_file b) (b_old_file b) (configfile s) of
          None \<Rightarrow> Some s
        | Some f \<Rightarrow>
            do { t \<leftarrow> files f;
                 s \<leftarrow> Some (s\<lparr>configfile := Some f\<rparr>);
                 (res, sb) \<leftarrow> read_config files (Some f) t init_send_buffer;
                 case res of
                   None \<Rightarrow> Some s
                 | Some rs \<Rightarrow>
                     do { s \<leftarrow> Some ((new_remotes rs s)\<lparr>free_remotes := remotes s\<rparr>);
                          s \<leftarrow> Some (s\<lparr>setup_min_freq := fst (get_frequency_range rs),
                                      setup_max_freq := snd (get_frequency_range rs),
                                      setup_filter_params := get_filter_parameters (hw s) rs\<rparr>);
                          (ok, s) \<leftarrow> setup_hardware d unset s;
                          Some s } })"

text \<open>\<open>dosighup\<close>: the new configuration, a message for every client, and new attempts for peers.\<close>

fun restart_peers :: "peer_connection list \<Rightarrow> ('d, 'z) lircd_srv_scheme \<Rightarrow> peer_connection list \<times> ('d, 'z) lircd_srv_scheme" where
  "restart_peers [] s = ([], s)"
| "restart_peers (p # ps) s =
     (if pc_socket p = - 1 then
        (case gettimeofday s of (now, s) \<Rightarrow>
           case restart_peers ps s of (qs, s) \<Rightarrow> (p\<lparr>pc_reconnect := now, pc_failure := 0\<rparr> # qs, s))
      else (case restart_peers ps s of (qs, s) \<Rightarrow> (p # qs, s)))"

definition dosighup ::
  "'d driver \<Rightarrow> build \<Rightarrow> (ioctl \<Rightarrow> lirc_t) \<Rightarrow> (string \<Rightarrow> string option) \<Rightarrow> ('d, 'z) lircd_srv_scheme \<Rightarrow>
     ('d, 'z) lircd_srv_scheme option" where
  "dosighup d b unset files s =
     do { s \<leftarrow> config d b unset files s;
          s \<leftarrow> Some (write_clients d (\<lambda>_. False) [P_BEGIN, P_SIGHUP, P_END] 0 s);
          (ps, s) \<leftarrow> Some (restart_peers (peers s) s);
          Some (s\<lparr>peers := ps\<rparr>) }"

section \<open>The old configuration\<close>

text \<open>The button of the new list with the names of a button of an old remote: the remote that has
  the name, and the index of the button in it. Without a last code the NULL pointer is read.\<close>

definition find_new ::
  "addr list \<Rightarrow> (addr \<Rightarrow> ir_remote) \<Rightarrow> addr \<Rightarrow> nat option \<Rightarrow> (addr \<times> nat option) option option" where
  "find_new new st p nc =
     (case get_ir_remote st new (name (st p)) of
        None \<Rightarrow> Some None
      | Some q \<Rightarrow>
          do { b \<leftarrow> button_name st p nc;
               code \<leftarrow> get_code_by_name (st q) b;
               Some (Some (q, code)) })"

definition keep_state :: "ir_remote \<Rightarrow> ir_remote \<Rightarrow> ir_remote" where
  "keep_state old r =
     r\<lparr>toggle_bit_mask_state := toggle_bit_mask_state old,
       min_remaining_gap := min_remaining_gap old, max_remaining_gap := max_remaining_gap old,
       last_send := last_send old\<rparr>"

definition map_last_remote :: "('d, 'z) lircd_srv_scheme \<Rightarrow> ('d, 'z) lircd_srv_scheme option" where
  "map_last_remote s =
     (case last_remote s of
        None \<Rightarrow> Some s
      | Some p \<Rightarrow>
          if is_in_remotes (free_remotes s) p then
            do { found \<leftarrow> find_new (remotes s) (store s) p (last_code (store s p));
                 Some (case found of
                         Some (q, Some i) \<Rightarrow>
                           s\<lparr>store := (store s)(q := (keep_state (store s p) (store s q))\<lparr>reps := reps (store s p),
                                                        last_code := Some i\<rparr>),
                             last_remote := Some q\<rparr>
                       | _ \<Rightarrow> s) }
          else Some (s\<lparr>last_remote := None\<rparr>))"

text \<open>The flag says that the old list has to stay, because a signal of it is repeated that the
  new list does not have.\<close>

definition map_repeat :: "('d, 'z) lircd_srv_scheme \<Rightarrow> (bool \<times> ('d, 'z) lircd_srv_scheme) option" where
  "map_repeat s =
     (case repeat_remote s of
        None \<Rightarrow> Some (False, s)
      | Some p \<Rightarrow>
          if is_in_remotes (free_remotes s) p then
            do { found \<leftarrow> find_new (remotes s) (store s) p (repeat_code s);
                 Some (case found of
                         Some (q, Some i) \<Rightarrow>
                           (False, s\<lparr>store := (store s)(q := (keep_state (store s p) (store s q))\<lparr>last_code := Some i\<rparr>),
                                     repeat_remote := Some q, repeat_code := Some i\<rparr>)
                       | _ \<Rightarrow> (True, s)) }
          else Some (False, s))"

definition free_old_remotes :: "'d driver \<Rightarrow> ('d, 'z) lircd_srv_scheme \<Rightarrow> ('d, 'z) lircd_srv_scheme option" where
  "free_old_remotes d s =
     (if decoding s = free_remotes s then Some s
      else do {
        (ev, s) \<leftarrow> release_map_remotes (free_remotes s) (remotes s) s;
        s \<leftarrow> release_message_out d ev s;
        s \<leftarrow> map_last_remote s;
        (used, s) \<leftarrow> map_repeat s;
        Some (if \<not> used \<and> decoding s \<noteq> free_remotes s then s\<lparr>free_remotes := []\<rparr> else s) })"

text \<open>
  \<open>waitfordata\<close> and \<open>loop\<close> of \<open>daemons/lircd.c\<close>. What \<open>select\<close> reports, round by round, is a list
  of answers; the daemon waits forever when there are no more. Between two rounds signals may set
  the flags \<open>term\<close>, \<open>hup\<close> and \<open>alrm\<close>, so every answer says which of them have arrived.
\<close>

section \<open>The timeout of select\<close>

definition earliest_reconnect :: "peer_connection list \<Rightarrow> timeval" where
  "earliest_reconnect ps =
     fold (\<lambda>p tv. if pc_socket p \<noteq> - 1 then tv
                  else if timerisset tv then (if timercmp_less (pc_reconnect p) tv then pc_reconnect p else tv)
                  else pc_reconnect p) ps timeval0"

text \<open>The timeout, \<open>None\<close> to wait without limit, and whether peers are to be called again.\<close>

definition peer_timeout :: "('d, 'z) lircd_srv_scheme \<Rightarrow> timeval \<times> bool \<times> ('d, 'z) lircd_srv_scheme" where
  "peer_timeout s =
     (let tv = earliest_reconnect (peers s)
      in if timerisset tv
         then (case gettimeofday s of (now, s) \<Rightarrow>
                 (if timercmp_less tv now then timeval0 else timersub tv now, True, s))
         else (tv, False, s))"

definition limit_timeout :: "int \<Rightarrow> bool \<Rightarrow> bool \<Rightarrow> timeval \<Rightarrow> timeval" where
  "limit_timeout maxusec hw_lost reconnect tv =
     (let tv = (if maxusec > 0 then \<lparr>tv_sec = maxusec div 1000000, tv_usec = maxusec mod 1000000\<rparr> else tv)
      in if hw_lost \<and> (timercmp_less \<lparr>tv_sec = 1, tv_usec = 0\<rparr> tv \<or> (\<not> reconnect \<and> \<not> timerisset tv))
         then \<lparr>tv_sec = 1, tv_usec = 0\<rparr> else tv)"

definition release_timeout ::
  "timeval \<Rightarrow> bool \<Rightarrow> timeval \<Rightarrow> ('d, 'z) lircd_srv_scheme \<Rightarrow> timeval \<times> ('d, 'z) lircd_srv_scheme" where
  "release_timeout rt reconnect tv s =
     (if timerisset rt
      then (case gettimeofday s of (now, s) \<Rightarrow>
              (if timercmp_less rt now then timeval0
               else let gap = timersub rt now
                    in if \<not> (timerisset tv \<or> reconnect) \<or> timercmp_less gap tv then gap else tv, s))
      else (tv, s))"

text \<open>The timeout, the time at which the wait starts, and whether peers are to be called.\<close>

definition select_timeout ::
  "int \<Rightarrow> ('d, 'z) lircd_srv_scheme \<Rightarrow> timeval option \<times> timeval \<times> bool \<times> ('d, 'z) lircd_srv_scheme" where
  "select_timeout maxusec s =
     (case peer_timeout s of (tv, reconnect, s) \<Rightarrow>
        case gettimeofday s of (start, s) \<Rightarrow>
          let tv = limit_timeout maxusec (hw_fd s = - 1 \<and> use_hw s) reconnect tv;
              rt = get_release_time s
          in case release_timeout rt reconnect tv s of (tv, s) \<Rightarrow>
               (if timerisset tv \<or> timerisset rt \<or> reconnect then Some tv else None, start, reconnect, s))"

section \<open>One round\<close>

record answer =
  a_hup :: bool
  a_alrm :: bool
  a_intr :: bool
  a_ready :: "int list"
  a_accept :: "(int \<times> cli_kind) list"
  a_hw :: bool

text \<open>The pending signals. The flag of the timer is only cleared when its handler is done, so that
  a signal during the handler is lost.\<close>

definition handle_signals ::
  "'d driver \<Rightarrow> build \<Rightarrow> (ioctl \<Rightarrow> lirc_t) \<Rightarrow> (string \<Rightarrow> string option) \<Rightarrow> ('d, 'z) lircd_srv_scheme \<Rightarrow>
     ('d, 'z) lircd_srv_scheme option" where
  "handle_signals d b unset files s =
     do { s \<leftarrow> if hup_flag s then map_option (\<lambda>s. s\<lparr>hup_flag := False\<rparr>) (dosighup d b unset files s) else Some s;
          if alrm_flag s then map_option (\<lambda>s. s\<lparr>alrm_flag := False\<rparr>) (dosigalrm d s) else Some s }"

text \<open>The clients of which \<open>select\<close> is told: all but the one that waits for its answer.\<close>

definition watched :: "('d, 'z) lircd_srv_scheme \<Rightarrow> int list" where
  "watched s = filter (\<lambda>fd. fd \<noteq> repeat_fd s) (clis s)"

definition receiving :: "('d, 'z) lircd_srv_scheme \<Rightarrow> bool" where
  "receiving s \<longleftrightarrow> use_hw s \<and> rec_mode (hw s) \<noteq> 0 \<and> hw_fd s \<noteq> - 1"

text \<open>\<open>select\<close> only reports descriptors it was told of.\<close>

definition reported :: "('d, 'z) lircd_srv_scheme \<Rightarrow> answer \<Rightarrow> answer" where
  "reported s a =
     a\<lparr>a_ready := filter (\<lambda>fd. fd \<in> set (watched s) \<or> (\<exists>p \<in> set (peers s). pc_socket p = fd \<and> fd \<noteq> - 1)) (a_ready a),
       a_hw := a_hw a \<and> receiving s\<rparr>"

text \<open>Signals that arrive: the timer fires at most once after it was set.\<close>

definition deliver_signals :: "answer \<Rightarrow> ('d, 'z) lircd_srv_scheme \<Rightarrow> ('d, 'z) lircd_srv_scheme" where
  "deliver_signals a s =
     (let s = (if a_hup a then s\<lparr>hup_flag := True\<rparr> else s)
      in if a_alrm a \<and> timer s \<noteq> None then s\<lparr>timer := None, alrm_flag := True\<rparr> else s)"

text \<open>What follows \<open>select\<close>: the release of a button, the end of the old configuration and the rest
  of the time, \<open>None\<close> when it is over.\<close>

definition after_select ::
  "'d driver \<Rightarrow> int \<Rightarrow> timeval \<Rightarrow> timeval \<Rightarrow> bool \<Rightarrow> bool \<Rightarrow> ('d, 'z) lircd_srv_scheme \<Rightarrow>
     (int option \<times> ('d, 'z) lircd_srv_scheme) option" where
  "after_select d maxusec start rt reconnect timed_out s =
     (case gettimeofday s of (now, s) \<Rightarrow>
        do { s \<leftarrow> if timerisset rt \<and> timercmp_less rt now
                  then do { (ev, s) \<leftarrow> trigger_release_event s; release_message_out d ev s }
                  else Some s;
             s \<leftarrow> if free_remotes s \<noteq> [] then free_old_remotes d s else Some s;
             elapsed \<leftarrow> Some (time_elapsed start now);
             if maxusec > 0 \<and> (timed_out \<or> elapsed \<ge> word_of_int maxusec) then Some (None, s)
             else Some (Some (if maxusec > 0 then maxusec - uint elapsed else maxusec),
                        if reconnect then connect_to_peers s else s) })"

text \<open>The commands of the clients that have sent something.\<close>

function serve_clients ::
  "'d driver \<Rightarrow> string \<Rightarrow> int list \<Rightarrow> nat \<Rightarrow> ('d, 'z) lircd_srv_scheme \<Rightarrow> ('d, 'z) lircd_srv_scheme option" where
  "serve_clients d VERSION ready i s =
     (if i < length (clis s) then
        (if clis s ! i \<in> set ready then
           (case get_command d VERSION (clis s ! i) s of
              None \<Rightarrow> None
            | Some (ok, s') \<Rightarrow>
                let rest = removeAll (clis s ! i) ready
                in if ok then serve_clients d VERSION rest (Suc i) s'
                   else serve_clients d VERSION rest i (remove_client d (clis s ! i) s'))
         else serve_clients d VERSION ready (Suc i) s)
      else Some s)"
  by pat_completeness auto
termination
  by (relation "measures [\<lambda>(_, _, ready, i, s). length ready, \<lambda>(_, _, ready, i, s). length (clis s) - i]")
    (auto simp: length_removeAll_less)

declare serve_clients.simps [simp del]

fun serve_peers ::
  "'d driver \<Rightarrow> int list \<Rightarrow> peer_connection list \<Rightarrow> ('d, 'z) lircd_srv_scheme \<Rightarrow>
     (peer_connection list \<times> ('d, 'z) lircd_srv_scheme) option" where
  "serve_peers d ready [] s = Some ([], s)"
| "serve_peers d ready (p # ps) s =
     do { (p, s) \<leftarrow> if pc_socket p \<noteq> - 1 \<and> pc_socket p \<in> set ready
                    then do { (ok, s) \<leftarrow> get_peer_message d (pc_socket p) s;
                              if ok then Some (p, s)
                              else (case gettimeofday s of (now, s) \<Rightarrow>
                                      Some (p\<lparr>pc_socket := - 1, pc_failure := 1,
                                              pc_reconnect := now\<lparr>tv_sec := tv_sec now + 5\<rparr>\<rparr>, s)) }
                    else Some (p, s);
          (ps, s) \<leftarrow> serve_peers d ready ps s;
          Some (p # ps, s) }"

fun accept_clients ::
  "'d driver \<Rightarrow> (ioctl \<Rightarrow> lirc_t) \<Rightarrow> (int \<times> cli_kind) list \<Rightarrow> ('d, 'z) lircd_srv_scheme \<Rightarrow> ('d, 'z) lircd_srv_scheme option" where
  "accept_clients d unset [] s = Some s"
| "accept_clients d unset ((fd, family) # cs) s =
     do { s \<leftarrow> add_client d unset fd family s; accept_clients d unset cs s }"

text \<open>Everything \<open>select\<close> has reported; the flag says that the receiver has data.\<close>

definition serve ::
  "'d driver \<Rightarrow> build \<Rightarrow> (ioctl \<Rightarrow> lirc_t) \<Rightarrow> answer \<Rightarrow> ('d, 'z) lircd_srv_scheme \<Rightarrow>
     (bool \<times> ('d, 'z) lircd_srv_scheme) option" where
  "serve d b unset a s =
     do { s \<leftarrow> if hw_fd s = - 1 \<and> use_hw s \<and> init_func d \<noteq> None
               then map_option snd (setup_hardware d unset (snd (init_driver d s))) else Some s;
          s \<leftarrow> serve_clients d (b_version b) (a_ready a) 0 s;
          (ps, s) \<leftarrow> serve_peers d (a_ready a) (peers s) s;
          s \<leftarrow> accept_clients d unset (a_accept a) (s\<lparr>peers := ps\<rparr>);
          if receiving s \<and> a_hw a then Some (True, register_input s) else Some (False, s) }"

section \<open>The loops\<close>

text \<open>The result of \<open>waitfordata\<close>: its return value, the answers that are left, the state.
  \<open>None\<close> is a fault or a wait without end.\<close>

fun waitfordata ::
  "'d driver \<Rightarrow> build \<Rightarrow> (ioctl \<Rightarrow> lirc_t) \<Rightarrow> (string \<Rightarrow> string option) \<Rightarrow> int \<Rightarrow> answer list \<Rightarrow>
     ('d, 'z) lircd_srv_scheme \<Rightarrow> (bool \<times> answer list \<times> ('d, 'z) lircd_srv_scheme) option" where
  "waitfordata d b unset files maxusec [] s = None"
| "waitfordata d b unset files maxusec (a # as) s =
     do { s \<leftarrow> handle_signals d b unset files s;
          (tv, start, reconnect, s) \<leftarrow> Some (select_timeout maxusec s);
          rt \<leftarrow> Some (get_release_time s);
          a \<leftarrow> Some (reported s a);
          (rest, s) \<leftarrow> after_select d maxusec start rt reconnect
                        (\<not> a_intr a \<and> a_ready a = [] \<and> a_accept a = [] \<and> \<not> a_hw a)
                        (deliver_signals a s);
          case rest of
            None \<Rightarrow> Some (False, as, s)
          | Some maxusec \<Rightarrow>
              if a_intr a then waitfordata d b unset files maxusec as s
              else do { (data, s) \<leftarrow> serve d b unset a s;
                        if data then Some (True, as, s) else waitfordata d b unset files maxusec as s } }"

text \<open>\<open>loop\<close>, as long as there are answers. \<open>rec_func\<close> is the driver's decoding function, \<open>None\<close>
  when it has none.\<close>

definition loop_round ::
  "'d driver \<Rightarrow> build \<Rightarrow> (ioctl \<Rightarrow> lirc_t) \<Rightarrow> (string \<Rightarrow> string option) \<Rightarrow>
     (addr list \<Rightarrow> ('d, 'z) lircd_srv_scheme \<Rightarrow> (string option \<times> ('d, 'z) lircd_srv_scheme) option) option \<Rightarrow>
     answer list \<Rightarrow> ('d, 'z) lircd_srv_scheme \<Rightarrow> (answer list \<times> ('d, 'z) lircd_srv_scheme) option" where
  "loop_round d b unset files rec_func as s =
     do { (r, as, s) \<leftarrow> waitfordata d b unset files 0 as s;
          case rec_func of
            None \<Rightarrow> Some (as, s)
          | Some f \<Rightarrow>
              do { (message, s) \<leftarrow> f (remotes s) s;
                   case message of
                     None \<Rightarrow> Some (as, s)
                   | Some m \<Rightarrow>
                       do { s \<leftarrow> if ioctl_func d \<noteq> None \<and> can LIRC_CAN_NOTIFY_DECODE s
                                 then map_option (\<lambda>(r, v, s). s) (ioctl d NOTIFY_DECODE s) else Some s;
                            (rn, bn, n) \<leftarrow> get_release_data s;
                            s \<leftarrow> input_message d m False s;
                            Some (as, s) } } }"

end
