(* ===== verification/HwDefault.thy ===== *)
theory HwDefault
  imports Repeats Transmit
begin

text \<open>
  The default driver, \<open>daemons/hw_default.c\<close>: a device with the LIRC interface. The state of the
  driver is its transmit buffer and the device: the kind of its node, the descriptor that \<open>open\<close>
  or \<open>socket\<close> returns, its answers to \<open>ioctl\<close>, whether writes succeed, and the signals written.
\<close>

datatype dev_node = No_file | Socket bool | Fifo | Char_device | Other_file

record default_dev =
  dev_node :: dev_node
  dev_open :: int
  dev_ioctl :: "ioctl \<Rightarrow> int \<times> int"
  dev_write_ok :: bool
  dev_buf :: sbuf
  dev_sent :: "lirc_t list list"

definition LIRC_CAN_SEND_PULSE :: u32 where [flag_defs]: "LIRC_CAN_SEND_PULSE = 0x00000002"
definition LIRC_CAN_SEND_MASK :: u32 where [flag_defs]: "LIRC_CAN_SEND_MASK = 0x0000003f"
definition LIRC_CAN_SET_SEND_CARRIER :: u32 where [flag_defs]: "LIRC_CAN_SET_SEND_CARRIER = 0x00000100"
definition LIRC_CAN_SET_SEND_DUTY_CYCLE :: u32 where [flag_defs]: "LIRC_CAN_SET_SEND_DUTY_CYCLE = 0x00000200"
definition LIRC_CAN_REC_MODE2 :: u32 where [flag_defs]: "LIRC_CAN_REC_MODE2 = 0x00040000"
definition LIRC_CAN_REC_LIRCCODE :: u32 where [flag_defs]: "LIRC_CAN_REC_LIRCCODE = 0x00100000"
definition LIRC_CAN_REC_MASK :: u32 where [flag_defs]: "LIRC_CAN_REC_MASK = 0x003f0000"
definition LIRC_CAN_GET_REC_RESOLUTION :: u32 where [flag_defs]: "LIRC_CAN_GET_REC_RESOLUTION = 0x20000000"

section \<open>Opening and closing\<close>

definition default_deinit :: "int \<Rightarrow> default_dev \<Rightarrow> int \<times> default_dev" where
  "default_deinit fd d = (- 1, d)"

text \<open>The send and receive mode for the features of a device: one of the supported modes, if it is
  the only one the device has.\<close>

definition supported_send_mode :: "u32 \<Rightarrow> u32" where
  "supported_send_mode f = (if f AND LIRC_CAN_SEND_MASK = LIRC_CAN_SEND_PULSE then LIRC_MODE_PULSE else 0)"

definition supported_rec_mode :: "u32 \<Rightarrow> u32" where
  "supported_rec_mode f =
     (if f AND LIRC_CAN_REC_MASK = LIRC_CAN_REC_LIRCCODE then LIRC_MODE_LIRCCODE
      else if f AND LIRC_CAN_REC_MASK = LIRC_CAN_REC_MODE2 then LIRC_MODE_MODE2 else 0)"

definition init_char_device :: "int \<Rightarrow> hardware \<Rightarrow> default_dev \<Rightarrow> bool \<times> hardware \<times> int \<times> default_dev" where
  "init_char_device fd h d =
     (case dev_ioctl d GET_FEATURES of (ret, f) \<Rightarrow>
        if ret = - 1 then (False, h, - 1, d)
        else
          let f = word_of_int f;
              h = h\<lparr>features := f, send_mode := supported_send_mode f, rec_mode := supported_rec_mode f\<rparr>
          in if rec_mode h = LIRC_MODE_MODE2 then
               (case dev_ioctl d GET_REC_RESOLUTION of (ret, r) \<Rightarrow>
                  (True, h\<lparr>resolution := (if f AND LIRC_CAN_GET_REC_RESOLUTION \<noteq> 0 \<and> ret \<noteq> - 1
                                        then word_of_int r else 0)\<rparr>, fd, d))
             else if rec_mode h = LIRC_MODE_LIRCCODE then
               (case dev_ioctl d GET_LENGTH of (ret, n) \<Rightarrow>
                  if ret = - 1 then (False, h, - 1, d)
                  else let h = h\<lparr>code_length := word_of_int n\<rparr>
                       in if code_length h > 64 then (False, h, - 1, d) else (True, h, fd, d))
             else if send_mode h = 0 then (False, h, - 1, d)
             else (True, h, fd, d))"

definition default_init ::
  "hardware \<Rightarrow> int \<Rightarrow> default_dev \<Rightarrow> bool \<times> hardware \<times> int \<times> default_dev" where
  "default_init h old_fd d =
     (let d = d\<lparr>dev_buf := init_send_buffer\<rparr>; fd = dev_open d
      in case dev_node d of
           No_file \<Rightarrow> (False, h, old_fd, d)
         | Socket connected \<Rightarrow>
             if fd = - 1 \<or> \<not> connected then (False, h, - 1, d)
             else (True, h\<lparr>features := LIRC_CAN_REC_MODE2 OR LIRC_CAN_SEND_PULSE,
                           rec_mode := LIRC_MODE_MODE2, send_mode := LIRC_MODE_PULSE\<rparr>, fd, d)
         | Fifo \<Rightarrow>
             if fd < 0 then (False, h, fd, d)
             else (True, h\<lparr>features := LIRC_CAN_REC_MODE2, rec_mode := LIRC_MODE_MODE2\<rparr>, fd, d)
         | Other_file \<Rightarrow> (False, h, if fd < 0 then fd else - 1, d)
         | Char_device \<Rightarrow> if fd < 0 then (False, h, fd, d) else init_char_device fd h d)"

definition default_ioctl :: "ioctl \<Rightarrow> default_dev \<Rightarrow> int \<times> int \<times> default_dev" where
  "default_ioctl c d = (case dev_ioctl d c of (ret, v) \<Rightarrow> (ret, v, d))"

section \<open>Sending\<close>

text \<open>\<open>None\<close> is a fault; the flag tells whether the write succeeded.\<close>

definition write_send_buffer :: "default_dev \<Rightarrow> (bool \<times> default_dev) option" where
  "write_send_buffer d =
     (if swptr (dev_buf d) = 0 then Some (True, d)
      else do { xs \<leftarrow> buffer_samples (dev_buf d);
                Some (if dev_write_ok d then (True, d\<lparr>dev_sent := dev_sent d @ [xs]\<rparr>) else (False, d)) })"

definition put_code :: "nat \<Rightarrow> ir_ncode \<Rightarrow> ir_remote \<Rightarrow> ir_remote" where
  "put_code i c r = r\<lparr>codes := map_option (\<lambda>cs. cs[i := c]) (codes r)\<rparr>"

definition default_send ::
  "bool \<Rightarrow> hardware \<Rightarrow> ir_remote \<Rightarrow> nat \<Rightarrow> default_dev \<Rightarrow> (bool \<times> ir_remote \<times> default_dev) option" where
  "default_send repeating h r i d =
     (let carrier = (if freq r = 0 then DEFAULT_FREQ else freq r);
          duty = (if duty_cycle r = 0 then 50 else duty_cycle r)
      in if send_mode h \<noteq> LIRC_MODE_PULSE then Some (False, r, d)
         else if features h AND LIRC_CAN_SET_SEND_CARRIER \<noteq> 0 \<and> fst (dev_ioctl d (SET_SEND_CARRIER carrier)) = - 1
         then Some (False, r, d)
         else if features h AND LIRC_CAN_SET_SEND_DUTY_CYCLE \<noteq> 0 \<and> fst (dev_ioctl d (SET_SEND_DUTY_CYCLE duty)) = - 1
         then Some (False, r, d)
         else do {
           c \<leftarrow> ncode_at r i;
           (ok, r, c, b) \<leftarrow> init_send repeating r c (dev_buf d);
           r \<leftarrow> Some (put_code i c r);
           d \<leftarrow> Some (d\<lparr>dev_buf := b\<rparr>);
           if \<not> ok then Some (False, r, d)
           else do { (ok, d) \<leftarrow> write_send_buffer d; Some (ok, r, d) } })"

definition default_driver :: "default_dev driver" where
  "default_driver = \<lparr>init_func = Some default_init, init_clears = True, deinit_func = Some default_deinit,
     ioctl_func = Some default_ioctl, send_func = default_send\<rparr>"

section \<open>Receiving\<close>

text \<open>\<open>default_rec\<close>: the samples that are still in the buffer are dropped, and a signal is decoded.\<close>

definition default_rec ::
  "addr list \<Rightarrow> (default_dev, 'z) lircd_srv_scheme \<Rightarrow> (string option \<times> (default_dev, 'z) lircd_srv_scheme) option" where
  "default_rec rs s =
     do { (ok, s) \<leftarrow> clear_rec_buffer s;
          if ok then decode_all receive_decode rs s
          else Some (None, s\<lparr>hw_fd := fst (default_deinit (hw_fd s) (drv s))\<rparr>) }"

end
