(* ===== verification/DemoServer.thy ===== *)
theory DemoServer
  imports MainLoop HwDefault Demo
begin

text \<open>
  A concrete daemon: one remote, the default driver on a device that sends pulses, and clients on
  descriptors from 5 on. The properties of the daemon are evaluated in this state.
\<close>

definition demo_dev :: default_dev where
  "demo_dev = \<lparr>dev_node = Char_device, dev_open = 4, dev_ioctl = (\<lambda>_. (0, 0)), dev_write_ok = True,
     dev_buf = init_send_buffer, dev_sent = []\<rparr>"

definition demo_server :: "ir_remote list \<Rightarrow> int list \<Rightarrow> default_dev lircd_srv" where
  "demo_server rs cs =
     \<lparr>rdata = (\<lambda>_. 0), decoded = 0, rptr = 0, wptr = 0, too_long = 0, rec_is_biphase = 0,
      pendingp = 0, pendings = 0, rsum = 0, last_signal_time = timeval0, hw = demo_hw,
      hw_input = [], hw_read = [], clock = (\<lambda>_. timeval0), ticks = 0,
      store = (\<lambda>p. if p < length rs then rs ! p else remote0), last_remote = None, decoding = [],
      last_decoded = None, repeat_remote = None, rel = rel_state0, configfile = None,
      next_addr = length rs, remotes = [0..<length rs], free_remotes = [], repeat_code = None,
      repeat_fd = - 1, repeat_message = None, repeat_max = 600, clis = cs, cli_type = (\<lambda>_. CT_LOCAL),
      peers = [], allow_simulate = True, userelease = False, useuinput = False, uinputfd = - 1,
      term_flag = False, hup_flag = False, alrm_flag = False, timer = None, setup_min_freq = 0,
      setup_max_freq = 0, setup_filter_params = get_filter_parameters demo_hw [], hw_fd = 4,
      drv = demo_dev, sent = [], wr_ok = (\<lambda>_. True), wr_count = 0, incoming = (\<lambda>_. []),
      dials = (\<lambda>_. \<lparr>d_socket = - 1, d_found = False, d_connected = False\<rparr>), dial_count = 0\<rparr>"

end
