(* ===== verification/ClientFacts.thy ===== *)
theory ClientFacts
  imports DemoServer TextFacts
begin

text \<open>
  What clients receive: broadcasts, replies and the cutting of their input into lines.
\<close>

section \<open>Broadcasts\<close>

text \<open>The clients to which the next writes succeed, one write for each.\<close>

definition reached :: "('d, 'z) lircd_srv_scheme \<Rightarrow> int list \<Rightarrow> int list" where
  "reached s cs = map fst (filter (\<lambda>(c, k). wr_ok s k) (zip cs [wr_count s..<wr_count s + length cs]))"

lemma deinit_unused_frame [simp]:
  "sent (deinit_unused d s) = sent s" "wr_ok (deinit_unused d s) = wr_ok s" "wr_count (deinit_unused d s) = wr_count s"
  "repeat_fd (deinit_unused d s) = repeat_fd s" "repeat_message (deinit_unused d s) = repeat_message s"
  "repeat_remote (deinit_unused d s) = repeat_remote s" "repeat_code (deinit_unused d s) = repeat_code s"
  "store (deinit_unused d s) = store s" "timer (deinit_unused d s) = timer s" "alrm_flag (deinit_unused d s) = alrm_flag s"
  by (simp_all add: deinit_unused_def split: option.splits prod.splits)

lemma remove_client_frame [simp]:
  "sent (remove_client d fd s) = sent s" "wr_ok (remove_client d fd s) = wr_ok s"
  "wr_count (remove_client d fd s) = wr_count s"
  by (simp_all add: remove_client_def)

lemma reached_Cons:
  "reached s (c # cs) =
     (if wr_ok s (wr_count s) then [c] else []) @ reached (s\<lparr>wr_count := Suc (wr_count s)\<rparr>) cs"
  by (simp add: reached_def upt_conv_Cons del: upt_Suc)

lemma reached_cong: "wr_ok s = wr_ok t \<Longrightarrow> wr_count s = wr_count t \<Longrightarrow> reached s cs = reached t cs"
  by (simp add: reached_def)

lemma remove1_middle: "distinct (xs @ c # cs) \<Longrightarrow> remove1 c (xs @ c # cs) = xs @ cs"
  by (simp add: remove1_append)

lemma write_clients_one:
  assumes "m \<noteq> []" "clis s = done @ todo" "distinct (done @ todo)"
  shows "clis (write_clients d (\<lambda>_. False) [m] (length done) s) = done @ reached s todo \<and>
     sent (write_clients d (\<lambda>_. False) [m] (length done) s) = sent s @ map (\<lambda>c. (c, m)) (reached s todo)"
  using assms(2,3)
proof (induction todo arbitrary: "done" s)
  case Nil
  then show ?case by (subst (1 2) write_clients.simps) (simp add: reached_def)
next
  case (Cons c cs)
  have i: "length done < length (clis s)" "clis s ! length done = c" using Cons.prems(1) by simp_all
  show ?case
  proof (cases "wr_ok s (wr_count s)")
    case True
    let ?s = "s\<lparr>sent := sent s @ [(c, m)], wr_count := Suc (wr_count s)\<rparr>"
    have "write_clients d (\<lambda>_. False) [m] (length done) s = write_clients d (\<lambda>_. False) [m] (length (done @ [c])) ?s"
      using i True assms(1) by (subst write_clients.simps) (simp add: write_all.simps write_socket_def)
    moreover have "reached ?s cs = reached (s\<lparr>wr_count := Suc (wr_count s)\<rparr>) cs" by (rule reached_cong) simp_all
    ultimately show ?thesis
      using Cons.IH [of ?s "done @ [c]"] Cons.prems True by (simp add: reached_Cons)
  next
    case False
    let ?s = "remove_client d c (s\<lparr>wr_count := Suc (wr_count s)\<rparr>)"
    have "write_clients d (\<lambda>_. False) [m] (length done) s = write_clients d (\<lambda>_. False) [m] (length done) ?s"
      using i False assms(1) by (subst write_clients.simps) (simp add: write_all.simps write_socket_def)
    moreover have "reached ?s cs = reached (s\<lparr>wr_count := Suc (wr_count s)\<rparr>) cs" by (rule reached_cong) simp_all
    moreover have "clis ?s = done @ cs" using Cons.prems remove1_middle [of "done" c cs] by simp
    ultimately show ?thesis
      using Cons.IH [of ?s "done"] Cons.prems(2) False by (simp add: reached_Cons)
  qed
qed

text \<open>A broadcast writes the message once to every client, in their order; the clients that remain
  are those that could be written to, so that one that is removed neither loses nor repeats the
  message of another.\<close>

theorem broadcast_delivers:
  assumes "m \<noteq> []" "distinct (clis s)"
  shows "clis (broadcast_message d m s) = reached s (clis s) \<and>
     sent (broadcast_message d m s) = sent s @ map (\<lambda>c. (c, m)) (reached s (clis s))"
  using write_clients_one [OF assms(1), of s "[]" "clis s" d] assms(2) by (simp add: broadcast_message_def)

lemma broadcast_delivers_witness:
  "clis (broadcast_message default_driver ''m'' ((demo_server [] [5, 6, 7])\<lparr>wr_ok := (\<lambda>k. k \<noteq> 1)\<rparr>)) = [5, 7]"
proof -
  let ?s = "(demo_server [] [5, 6, 7])\<lparr>wr_ok := (\<lambda>k. k \<noteq> 1)\<rparr>"
  have "distinct (clis ?s)" by (simp add: demo_server_def)
  from broadcast_delivers [OF _ this, of "''m''" default_driver] show ?thesis
    by (simp add: demo_server_def reached_def)
qed

section \<open>Replies\<close>

abbreviation newline :: char where "newline \<equiv> CHR 0x0A"

lemma newline_show_int [simp]: "newline \<notin> set (show_int i)"
proof -
  have d: "(newline = ''0123456789ABCDEF'' ! nat n) = False" if "n < 10" for n :: int
  proof -
    have "nat n \<in> {0,1,2,3,4,5,6,7,8,9}" using that by auto
    then show ?thesis by auto
  qed
  have "newline \<notin> set (digits_of k 10 n)" for k n
    by (induction k arbitrary: n) (auto simp: d)
  then show ?thesis by (simp add: show_int_def show_dec_def)
qed

text \<open>The form of a reply: the command, whether it succeeded, and lines of data.\<close>

definition reply_packet :: "string \<Rightarrow> bool \<Rightarrow> string list \<Rightarrow> string" where
  "reply_packet message success data =
     P_BEGIN @ message @ (if success then P_SUCCESS else P_ERROR) @
     (if data = [] then []
      else P_DATA @ show_int (int (length data)) @ endl @ concat (map (\<lambda>l. l @ endl) data)) @ P_END"

definition replied ::
  "int \<Rightarrow> string \<Rightarrow> ('d, 'z) lircd_srv_scheme \<Rightarrow> bool \<times> ('d, 'z) lircd_srv_scheme \<Rightarrow> bool" where
  "replied fd message s res \<longleftrightarrow>
     fst res \<and> (\<exists>ts success data. sent (snd res) = sent s @ map (Pair fd) ts \<and>
       concat ts = reply_packet message success data \<and> list_all (\<lambda>l. newline \<notin> set l) data)"

definition all_written :: "('d, 'z) lircd_srv_scheme \<Rightarrow> bool" where
  "all_written s \<longleftrightarrow> (\<forall>k. wr_ok s k)"

lemma all_written_iff: "all_written s \<longleftrightarrow> wr_ok s = (\<lambda>k. True)"
  by (auto simp: all_written_def fun_eq_iff)

lemma write_all_written:
  "all_written s \<Longrightarrow> write_all fd ts s =
     (True, s\<lparr>sent := sent s @ map (Pair fd) (filter (\<lambda>t. t \<noteq> []) ts),
              wr_count := wr_count s + length (filter (\<lambda>t. t \<noteq> []) ts)\<rparr>)"
  by (induction ts arbitrary: s) (simp_all add: write_all.simps write_socket_def all_written_def)

lemma concat_nonempty: "concat (filter (\<lambda>t. t \<noteq> []) ts) = concat ts"
  by (induction ts) auto

lemma repliedI:
  assumes "all_written s" "concat ts = reply_packet message success data" "list_all (\<lambda>l. newline \<notin> set l) data"
  shows "replied fd message s (write_all fd ts s)"
  using assms(2,3) concat_nonempty [of ts] unfolding replied_def write_all_written [OF assms(1)]
  by (intro conjI exI [of _ "filter (\<lambda>t. t \<noteq> []) ts"] exI [of _ success] exI [of _ data]) simp_all

lemma replied_later: "replied fd m t res \<Longrightarrow> sent t = sent s \<Longrightarrow> replied fd m s res"
  by (simp add: replied_def)

lemma replied_success: "all_written s \<Longrightarrow> replied fd m s (send_success fd m s)"
  unfolding send_success_def by (rule repliedI [where success = True and data = "[]"]) (simp_all add: reply_packet_def)

lemma replied_error:
  assumes "send_error fd m (t @ endl) s = Some res" "all_written s" "newline \<notin> set t"
  shows "replied fd m s res"
proof -
  have "count_list (t @ endl) newline = 1" using assms(3) by (simp add: endl_def count_notin)
  then have "res = write_all fd [P_BEGIN, m, P_ERROR, P_DATA, show_int 1 @ endl, t @ endl, P_END] s"
    using assms(1) by (simp add: send_error_def Let_def split: if_splits)
  then show ?thesis
    using assms(2,3)
    by (auto intro!: repliedI [where success = False and data = "[t]"] simp: reply_packet_def)
qed

text \<open>Names that fit a line of the reply.\<close>

definition plain_name :: "string \<Rightarrow> bool" where
  "plain_name t \<longleftrightarrow> newline \<notin> set t \<and> length t \<le> 230"

definition plain_names :: "('d, 'z) lircd_srv_scheme \<Rightarrow> bool" where
  "plain_names s \<longleftrightarrow> (\<forall>p \<in> set (remotes s). plain_name (name (store s p)) \<and>
     (case codes (store s p) of None \<Rightarrow> True | Some cs \<Rightarrow> \<forall>c \<in> set cs. plain_name (nc_name c)))"

definition code_line :: "ir_ncode \<Rightarrow> string" where
  "code_line c = pad_zero 16 (hex_int (uint (nc_code c))) @ '' '' @ nc_name c"

lemma code_line_plain:
  assumes "plain_name (nc_name c)"
  shows "newline \<notin> set (code_line c) \<and> length (code_line c) \<le> 247"
proof -
  have "length (hex_int (uint (nc_code c))) \<le> 16"
    using hex_int_length [of "uint (nc_code c)" 15] uint64_bounds [of "nc_code c"] by simp
  moreover have "token (pad_zero 16 (hex_int (uint (nc_code c))))" by (simp add: padded_hex)
  then have "newline \<notin> set (pad_zero 16 (hex_int (uint (nc_code c))))"
    by (auto simp: token_def list_all_iff)
  ultimately show ?thesis using assms by (simp add: code_line_def plain_name_def pad_zero_def)
qed

lemma line_text_short: "length t < cap \<Longrightarrow> length t \<le> PACKET_SIZE \<Longrightarrow> line_text cap x t = t"
  by (simp add: line_text_def)

lemma replied_lines:
  assumes "all_written s" "\<And>x. x \<in> set xs \<Longrightarrow> f x = g x @ endl \<and> newline \<notin> set (g x)"
  shows "replied fd m s (write_all fd ([P_BEGIN, m, P_SUCCESS] @
     (if xs = [] then [] else [P_DATA, show_int (int (length xs)) @ endl] @ map f xs) @ [P_END]) s)"
proof -
  have "concat (map f xs) = concat (map (\<lambda>l. l @ endl) (map g xs))"
    using assms(2) by (auto intro!: arg_cong [of _ _ concat])
  then show ?thesis
    using assms
    by (intro repliedI [where success = True and data = "map g xs"]) (auto simp: reply_packet_def list_all_iff)
qed

lemma replied_remote_list:
  assumes "all_written s" "plain_names s"
  shows "replied fd m s (send_remote_list fd m s)"
proof -
  have "list_entry (name (store s p)) = name (store s p) @ endl" if "p \<in> set (remotes s)" for p
  proof -
    have "length (name (store s p)) \<le> 230" using assms(2) that by (simp add: plain_names_def plain_name_def)
    then show ?thesis unfolding list_entry_def by (subst line_text_short) (simp_all add: endl_def PACKET_SIZE_def)
  qed
  moreover have "newline \<notin> set (name (store s p))" if "p \<in> set (remotes s)" for p
    using assms(2) that by (simp add: plain_names_def plain_name_def)
  ultimately show ?thesis
    unfolding send_remote_list_def Let_def
    by (intro replied_lines [OF assms(1), where g = name]) auto
qed

lemma code_text_line: "code_text c = code_line c @ endl"
  by (simp add: code_text_def code_line_def)

lemma replied_remote:
  assumes "all_written s" "\<And>cs c. codes r = Some cs \<Longrightarrow> c \<in> set cs \<Longrightarrow> plain_name (nc_name c)"
  shows "replied fd m s (send_remote fd m r s)"
proof -
  let ?cs = "case codes r of None \<Rightarrow> [] | Some cs \<Rightarrow> cs"
  have "line_text PACKET_SIZE x (code_text c) = code_line c @ endl \<and> newline \<notin> set (code_line c)"
    if "c \<in> set ?cs" for c x
  proof -
    have "plain_name (nc_name c)" using that assms(2) by (cases "codes r") auto
    from code_line_plain [OF this] show ?thesis
      by (subst line_text_short) (simp_all add: code_text_line PACKET_SIZE_def endl_def)
  qed
  from replied_lines [OF assms(1) this] show ?thesis
    unfolding send_remote_def Let_def .
qed

lemma replied_name:
  assumes "all_written s" "plain_name (nc_name c)"
  shows "replied fd m s (send_name fd m c s)"
proof -
  have "line_text PACKET_SIZE x (''1'' @ endl @ code_text c) = ''1'' @ endl @ code_line c @ endl" for x
    using code_line_plain [OF assms(2)]
    by (subst line_text_short) (simp_all add: code_text_line PACKET_SIZE_def endl_def)
  moreover have "show_int 1 = ''1''" by (simp add: show_int_def show_dec_def numeral_eq_Suc)
  ultimately show ?thesis
    unfolding send_name_def
    using code_line_plain [OF assms(2)] assms(1)
    by (intro repliedI [where success = True and data = "[code_line c]"]) (simp_all add: reply_packet_def)
qed

text \<open>Arguments: what \<open>parse_rc\<close> refuses it has replied to, otherwise nothing has changed.\<close>

lemma replied_refuse:
  assumes "refuse fd m (t @ endl) s = Some (Inl ok, s')" "all_written s" "newline \<notin> set t"
  shows "replied fd m s (ok, s')"
  using assms by (auto simp: refuse_def dest: replied_error)

lemma refuse_Inl: "refuse fd m t s = Some (res, s') \<Longrightarrow> \<exists>ok. res = Inl ok"
  by (auto simp: refuse_def)

lemma blank_tokens_subset: "w \<in> set (blank_tokens t) \<Longrightarrow> set w \<subseteq> set t"
proof (induction t rule: blank_tokens.induct)
  case (1 t)
  let ?t = "dropWhile is_blank t"
  show ?case
  proof (cases "?t = []")
    case True
    then show ?thesis using 1(2) by (subst (asm) blank_tokens.simps) simp
  next
    case False
    then have "blank_tokens t = takeWhile (\<lambda>c. \<not> is_blank c) ?t # blank_tokens (dropWhile (\<lambda>c. \<not> is_blank c) ?t)"
      by (subst blank_tokens.simps) (simp only: Let_def if_False)
    then have "w = takeWhile (\<lambda>c. \<not> is_blank c) ?t \<or> w \<in> set (blank_tokens (dropWhile (\<lambda>c. \<not> is_blank c) ?t))"
      using 1(2) by (simp only: set_simps insert_iff)
    moreover have "set ?t \<subseteq> set t" by (auto dest: set_dropWhileD)
    moreover have "set (takeWhile P ?t) \<subseteq> set ?t" "set (dropWhile P ?t) \<subseteq> set ?t" for P
      by (auto dest: set_takeWhileD set_dropWhileD)
    ultimately show ?thesis using 1(1) [OF refl False] by blast
  qed
qed

lemma parse_reps_line: "parse_reps mx ts = Inl t \<Longrightarrow> \<exists>u. t = u @ endl \<and> newline \<notin> set u"
proof -
  assume t: "parse_reps mx ts = Inl t"
  have d: "newline \<notin> set (show_dec (uint mx))" using newline_show_int [of "uint mx"] by (simp add: show_int_def)
  from t have "t = ''bad send packet'' @ endl \<or>
      (\<exists>n. t = (''too many repeats: \"'' @ show_int n @ ''\" > \"'' @ show_dec (uint mx) @ ''\"'') @ endl)"
    by (auto simp: parse_reps_def Let_def split: list.splits prod.splits if_splits)
  then show "\<exists>u. t = u @ endl \<and> newline \<notin> set u"
  proof
    assume "t = ''bad send packet'' @ endl"
    then show ?thesis by (intro exI [of _ "''bad send packet''"]) simp
  next
    assume "\<exists>n. t = (''too many repeats: \"'' @ show_int n @ ''\" > \"'' @ show_dec (uint mx) @ ''\"'') @ endl"
    then obtain n where "t = (''too many repeats: \"'' @ show_int n @ ''\" > \"'' @ show_dec (uint mx) @ ''\"'') @ endl" ..
    then show ?thesis using d by (intro exI conjI) (assumption, simp)
  qed
qed

lemma parse_rc_replies:
  assumes "parse_rc fd m a w n s = Some (res, s')" "all_written s" "\<And>t. a = Some t \<Longrightarrow> newline \<notin> set t"
  shows "case res of Inl ok \<Rightarrow> replied fd m s (ok, s') | Inr _ \<Rightarrow> s' = s"
proof -
  have q: "refuse fd m (quoted x t) s = Some (res, s') \<Longrightarrow> newline \<notin> set x \<Longrightarrow> newline \<notin> set t \<Longrightarrow> ?thesis" for x t
    using replied_refuse [of fd m "x @ ''\"'' @ t @ ''\"''" s _ s'] assms(2) refuse_Inl
    by (fastforce simp: quoted_def)
  have e: "refuse fd m (t @ endl) s = Some (res, s') \<Longrightarrow> newline \<notin> set t \<Longrightarrow> ?thesis" for t
    using replied_refuse [of fd m t s _ s'] assms(2) refuse_Inl by fastforce
  have c: "arg_check n fd m p s = Some (res, s') \<Longrightarrow> ?thesis" for p
    using e [of "''remote missing''"] e [of "''code missing''"]
    by (auto simp: arg_check_def split: if_splits)
  have b: "newline \<notin> set x" if "x \<in> set (case a of None \<Rightarrow> [] | Some t \<Rightarrow> blank_tokens t)" for x
    using that assms(3) blank_tokens_subset by (fastforce split: option.splits)
  show ?thesis
  proof (cases "case a of None \<Rightarrow> [] | Some t \<Rightarrow> blank_tokens t")
    case Nil
    then show ?thesis using assms(1) c unfolding parse_rc_def by simp
  next
    case (Cons nm ts)
    show ?thesis
    proof (cases "get_ir_remote (store s) (remotes s) nm")
      case None
      then show ?thesis using assms(1) Cons q b [of nm] unfolding parse_rc_def by simp
    next
      case (Some p)
      note p = this
      show ?thesis
      proof (cases ts)
        case Nil
        then show ?thesis using assms(1) Cons c p unfolding parse_rc_def by simp
      next
        case (Cons command us)
        note cs = \<open>(case a of None \<Rightarrow> [] | Some t \<Rightarrow> blank_tokens t) = nm # ts\<close>[unfolded this]
        obtain code where code: "get_code_by_name (store s p) command = Some code"
          using assms(1) cs p unfolding parse_rc_def by (cases "get_code_by_name (store s p) command") auto
        show ?thesis
        proof (cases code)
          case None
          then show ?thesis using assms(1) cs p code q b [of command] unfolding parse_rc_def by simp
        next
          case (Some i)
          show ?thesis
          proof (cases "if w then parse_reps (repeat_max s) us else Inr 0")
            case (Inl t)
            then have "parse_reps (repeat_max s) us = Inl t" by (simp split: if_splits)
            from parse_reps_line [OF this] show ?thesis
              using assms(1) cs p code Some Inl e unfolding parse_rc_def by auto
          next
            case (Inr k)
            then show ?thesis
              using assms(1) cs p code Some c e [of "''bad send packet''"] unfolding parse_rc_def
              by (auto split: if_splits)
          qed
        qed
      qed
    qed
  qed
qed

section \<open>Directives\<close>

interpretation outbox: connection_invariant "\<lambda>s. wr_ok s = x" for x
  by unfold_locales simp_all

lemma driver_frame:
  "ioctl d c s = Some (r, v, s') \<Longrightarrow> sent s' = sent s \<and> wr_ok s' = wr_ok s"
  "send_button d p i s = Some (ok, s') \<Longrightarrow> sent s' = sent s \<and> wr_ok s' = wr_ok s"
  by (auto simp: ioctl_def send_button_def send_ir_ncode_def driver_send_def send_pause_def gettimeofday_def
      set_remote_def Let_def split: option.splits prod.splits bind_splits if_splits)

lemma parse_rc_found:
  assumes "parse_rc fd m a w n s = Some (Inr (Some q, cd, k), s')"
  shows "q \<in> set (remotes s)" "n > 1 \<Longrightarrow> cd \<noteq> None"
    "cd = Some i \<Longrightarrow> \<exists>b. get_code_by_name (store s q) b = Some (Some i)"
proof -
  have f: "find P rs = Some q \<Longrightarrow> q \<in> set rs" for P and rs :: "addr list"
    by (auto simp: find_Some_iff)
  have r: "refuse fd m t s \<noteq> Some (Inr x, s')" for t and x :: parsed
    using refuse_Inl by fastforce
  have c: "arg_check n fd m p s = Some (Inr x, s') \<Longrightarrow> x = p \<and> (n > 1 \<longrightarrow> fst (snd p) \<noteq> None)" for p x
    using r by (auto simp: arg_check_def split: if_splits)
  show "q \<in> set (remotes s)" "n > 1 \<Longrightarrow> cd \<noteq> None"
    "cd = Some i \<Longrightarrow> \<exists>b. get_code_by_name (store s q) b = Some (Some i)"
    using assms unfolding parse_rc_def get_ir_remote_def
    by (auto split: list.splits option.splits bind_splits sum.splits if_splits simp: r dest!: c f)
qed

lemma replied_list:
  assumes "list_command fd m a s = Some res" "all_written s" "plain_names s" "\<And>t. a = Some t \<Longrightarrow> newline \<notin> set t"
  shows "replied fd m s res"
proof -
  obtain r s1 where p: "parse_rc fd m a False 0 s = Some (r, s1)"
    using assms(1) by (auto simp: list_command_def split: bind_splits)
  note pr = parse_rc_replies [OF p assms(2,4)]
  show ?thesis
  proof (cases r)
    case (Inl ok)
    then show ?thesis using assms(1) p pr by (auto simp: list_command_def)
  next
    case (Inr x)
    then have s1: "s1 = s" using pr by simp
    obtain rm cd k where x: "x = (rm, cd, k)" by (cases x) auto
    show ?thesis
    proof (cases rm)
      case None
      then have "res = send_remote_list fd m s" using assms(1) p Inr x s1 by (simp add: list_command_def)
      then show ?thesis using replied_remote_list [OF assms(2,3)] by simp
    next
      case (Some q)
      have q: "q \<in> set (remotes s)" using parse_rc_found(1) p Inr x Some by blast
      then have pl: "codes (store s q) = Some cs \<Longrightarrow> c \<in> set cs \<Longrightarrow> plain_name (nc_name c)" for cs c
        using assms(3) by (force simp: plain_names_def)
      show ?thesis
      proof (cases cd)
        case None
        then have "res = send_remote fd m (store s q) s" using assms(1) p Inr x s1 Some by (simp add: list_command_def)
        then show ?thesis using replied_remote [OF assms(2) pl] by simp
      next
        case (Some i)
        then obtain c where c: "ncode_at (store s q) i = Some c" "res = send_name fd m c s"
          using assms(1) p Inr x s1 \<open>rm = Some q\<close> by (auto simp: list_command_def split: bind_splits)
        then have "plain_name (nc_name c)"
          using pl by (auto simp: ncode_at_def split: option.splits if_splits)
        then show ?thesis using c(2) replied_name [OF assms(2)] by simp
      qed
    qed
  qed
qed

lemma tx_mask_line: "tx_mask ch ts = Inl t \<Longrightarrow> \<exists>u. t = u @ endl \<and> newline \<notin> set u"
proof (induction ch ts rule: tx_mask.induct)
  case (1 ch)
  then show ?case by simp
next
  case (2 ch t ts)
  have "newline \<notin> set (''cannot support more than '' @ show_int MAX_TX @ '' transmitters'')"
    "newline \<notin> set ''invalid argument''" by simp_all
  then show ?case using 2 by (fastforce simp: Let_def split: prod.splits if_splits)
qed

lemma replied_version:
  assumes "version v fd m a s = Some res" "all_written s" "newline \<notin> set v"
  shows "replied fd m s res"
proof (cases a)
  case None
  have one: "show_int 1 = ''1''" by (simp add: show_int_def show_dec_def numeral_eq_Suc)
  show ?thesis
    using assms None
    by (auto simp: version_def reply_packet_def one intro!: repliedI [where success = True and data = "[v]"])
next
  case (Some b)
  then show ?thesis
    using assms replied_error [of fd m "''bad send packet''" s res] by (auto simp: version_def)
qed

lemma replied_transmitters:
  assumes "set_transmitters d fd m a s = Some res" "all_written s"
  shows "replied fd m s res"
proof -
  have e: "send_error fd m (t @ endl) s = Some res \<Longrightarrow> newline \<notin> set t \<Longrightarrow> replied fd m s res" for t
    using replied_error assms(2) by blast
  have later: "replied fd m s res" if "ioctl d c s = Some (ret, v, s1)"
      "send_error fd m (t @ endl) s1 = Some res \<and> newline \<notin> set t \<or> send_success fd m s1 = res" for c ret v s1 t
  proof -
    have f: "sent s1 = sent s" "all_written s1" using driver_frame(1) [OF that(1)] assms(2) by (simp_all add: all_written_def)
    then show ?thesis using that(2) replied_error replied_success [OF f(2)] replied_later [OF _ f(1)] by metis
  qed
  show ?thesis
  proof (cases a)
    case None
    then show ?thesis using assms(1) e [of "''no arguments given''"] by (simp add: set_transmitters_def)
  next
    case (Some b)
    show ?thesis
    proof (cases "send_mode (hw s) = 0 \<or> ioctl_func d = None \<or> \<not> can LIRC_CAN_SET_TRANSMITTER_MASK s \<or> blank_tokens b = []")
      case True
      then show ?thesis
        using assms(1) Some e [of "''no arguments given''"] e [of "''hardware does not support sending''"]
          e [of "''hardware does not support multiple transmitters''"]
        by (auto simp: set_transmitters_def split: if_splits)
    next
      case False
      show ?thesis
      proof (cases "tx_mask 0 (blank_tokens b)")
        case (Inl t)
        then show ?thesis using assms(1) Some False e tx_mask_line [OF Inl] by (auto simp: set_transmitters_def)
      next
        case (Inr ch)
        then obtain ret v s1 where io: "ioctl d (SET_TRANSMITTER_MASK ch) s = Some (ret, v, s1)"
          using assms(1) Some False by (auto simp: set_transmitters_def split: bind_splits)
        then have "send_error fd m (''error - could not set transmitters'' @ endl) s1 = Some res \<or>
            send_error fd m ((''error - maximum of '' @ show_int ret @ '' transmitters'') @ endl) s1 = Some res \<or>
            send_success fd m s1 = res"
          using assms(1) Some False Inr by (auto simp: set_transmitters_def split: if_splits)
        then show ?thesis
          using later [OF io, of "''error - could not set transmitters''"]
            later [OF io, of "''error - maximum of '' @ show_int ret @ '' transmitters''"] by auto
      qed
    qed
  qed
qed

lemma reached_all: "all_written s \<Longrightarrow> reached s cs = cs"
  by (simp add: reached_def all_written_def split_def)

lemma broadcast_written:
  assumes "all_written s" "t \<noteq> []" "distinct (clis s)"
  shows "sent (broadcast_message d t s) = sent s @ map (\<lambda>c. (c, t)) (clis s)" "all_written (broadcast_message d t s)"
proof -
  show "sent (broadcast_message d t s) = sent s @ map (\<lambda>c. (c, t)) (clis s)"
    using write_clients_one [OF assms(2), of s "[]" "clis s" d] assms(3) reached_all [OF assms(1)]
    by (simp add: broadcast_message_def)
  show "all_written (broadcast_message d t s)"
    using assms(1) outbox.broadcast [of s "wr_ok s" d t] by (simp add: all_written_def)
qed

lemma replied_simulate:
  assumes "simulate d fd m a s = Some res" "all_written s" "distinct (clis s)"
  shows "replied fd m s res \<or>
     (\<exists>t r. replied fd m r res \<and> sent r = sent s @ map (\<lambda>c. (c, t)) (clis s))"
proof (cases "\<exists>b. allow_simulate s \<and> a = Some b \<and> valid_event b")
  case True
  then obtain b where "a = Some b" "res = send_success fd m (broadcast_message d (b @ endl) s)"
    using assms(1) by (auto simp: simulate_def)
  moreover have "b @ endl \<noteq> []" by (simp add: endl_def)
  note w = broadcast_written [OF assms(2) this assms(3), of d]
  ultimately show ?thesis using replied_success [OF w(2), of fd m] w(1) by blast
next
  case False
  then show ?thesis
    using assms(1,2) replied_error [of fd m "''SIMULATE command is disabled''" s res]
      replied_error [of fd m "''no arguments given''" s res] replied_error [of fd m "''invalid event''" s res]
    by (auto simp: simulate_def split: if_splits option.splits)
qed

text \<open>The reply to \<open>SEND_ONCE\<close> may come later.\<close>

definition reply_due :: "int \<Rightarrow> string \<Rightarrow> ('d, 'z) lircd_srv_scheme \<Rightarrow> bool \<times> ('d, 'z) lircd_srv_scheme \<Rightarrow> bool" where
  "reply_due fd message s res \<longleftrightarrow>
     fst res \<and> sent (snd res) = sent s \<and> repeat_remote (snd res) \<noteq> None \<and>
     repeat_fd (snd res) = fd \<and> repeat_message (snd res) = Some message"

lemma setitimer_frame [simp]:
  "sent (setitimer u s) = sent s" "repeat_fd (setitimer u s) = repeat_fd s" "wr_ok (setitimer u s) = wr_ok s"
  "repeat_message (setitimer u s) = repeat_message s" "repeat_remote (setitimer u s) = repeat_remote s"
  "repeat_code (setitimer u s) = repeat_code s" "store (setitimer u s) = store s" "alrm_flag (setitimer u s) = alrm_flag s"
  "clis (setitimer u s) = clis s"
  by (simp_all add: setitimer_def)

lemma replied_begin:
  assumes "all_written s"
  shows "replied fd m s (begin_repeat fd m once p i s) \<or> reply_due fd m s (begin_repeat fd m once p i s)"
proof (cases once)
  case True
  then show ?thesis by (simp add: begin_repeat_def reply_due_def)
next
  case False
  let ?s = "s\<lparr>repeat_remote := Some p, repeat_code := Some i\<rparr>"
  have "all_written ?s" using assms by (simp add: all_written_def)
  then have r: "replied fd m ?s (send_success fd m ?s)" by (rule replied_success)
  then obtain s' where s': "send_success fd m ?s = (True, s')"
    by (cases "send_success fd m ?s") (auto simp: replied_def)
  then show ?thesis using r False by (simp add: begin_repeat_def replied_def)
qed

lemma replied_core:
  assumes "send_core d fd m a once s = Some res" "all_written s" "\<And>t. a = Some t \<Longrightarrow> newline \<notin> set t"
  shows "replied fd m s res \<or> reply_due fd m s res"
proof (cases "send_mode (hw s) = 0")
  case True
  then show ?thesis
    using assms(1,2) replied_error [of fd m "''hardware does not support sending''" s res]
    by (simp add: send_core_def)
next
  case False
  obtain r s1 where p: "parse_rc fd m a once 2 s = Some (r, s1)"
    using assms(1) False by (auto simp: send_core_def split: bind_splits)
  note pr = parse_rc_replies [OF p assms(2,3)]
  show ?thesis
  proof (cases r)
    case (Inl ok)
    then show ?thesis using assms(1) False p pr by (auto simp: send_core_def)
  next
    case (Inr x)
    then have s1: "s1 = s" using pr by simp
    obtain rm cd k where x: "x = (rm, cd, k)" by (cases x) auto
    obtain q i where q: "rm = Some q" "cd = Some i"
      using assms(1) False p Inr x by (auto simp: send_core_def split: option.splits)
    show ?thesis
    proof (cases "repeat_remote s")
      case (Some y)
      then show ?thesis
        using assms(1,2) False p Inr x q s1 replied_error [of fd m "''busy: repeating''" s res]
          replied_error [of fd m "''already repeating''" s res]
        by (auto simp: send_core_def split: if_splits)
    next
      case None
      let ?s = "s\<lparr>store := (store s)(q := prepare_send (store s q) i)\<rparr>"
      obtain ok s2 where b: "send_button d q i ?s = Some (ok, s2)"
        using assms(1) False p Inr x q s1 None by (auto simp: send_core_def split: bind_splits)
      have w: "sent s2 = sent s" "all_written s2"
        using driver_frame(2) [OF b] assms(2) by (simp_all add: all_written_def)
      show ?thesis
      proof (cases ok)
        case False
        then have "send_error fd m (''transmission failed'' @ endl) s2 = Some res"
          using assms(1) \<open>send_mode (hw s) \<noteq> 0\<close> p Inr x q s1 None b by (simp add: send_core_def)
        then show ?thesis using replied_error [OF _ w(2)] replied_later [OF _ w(1)] by fastforce
      next
        case True
        let ?s3 = "note_sent q i once k s2"
        have s3: "res = begin_repeat fd m once q i ?s3 \<or> res = send_success fd m ?s3"
          using assms(1) False p Inr x q s1 None b True
          by (auto simp: send_core_def split: bind_splits if_splits)
        have w3: "all_written ?s3" "sent ?s3 = sent s"
          using w by (simp_all add: all_written_def note_sent_def gettimeofday_def Let_def)
        have "replied fd m ?s3 res \<or> reply_due fd m ?s3 res"
          using s3 replied_begin [OF w3(1)] replied_success [OF w3(1)] by metis
        then show ?thesis using w3(2) replied_later unfolding reply_due_def by metis
      qed
    qed
  qed
qed

lemma stop_repeat_frame [simp]: "sent (stop_repeat p s) = sent s" "wr_ok (stop_repeat p s) = wr_ok s"
  by (simp_all add: stop_repeat_def Let_def)

lemma replied_stop:
  assumes "send_stop fd m a s = Some res" "all_written s" "\<And>t. a = Some t \<Longrightarrow> newline \<notin> set t"
  shows "replied fd m s res"
proof -
  obtain r s1 where p: "parse_rc fd m a False 0 s = Some (r, s1)"
    using assms(1) by (auto simp: send_stop_def split: bind_splits)
  note pr = parse_rc_replies [OF p assms(2,3)]
  show ?thesis
  proof (cases r)
    case (Inl ok)
    then show ?thesis using assms(1) p pr by (auto simp: send_stop_def)
  next
    case (Inr x)
    then have s1: "s1 = s" using pr by simp
    have st: "replied fd m s (send_success fd m (stop_repeat p s))" for p
      using replied_later [OF replied_success, of "stop_repeat p s"] assms(2) by (simp add: all_written_def)
    have mm: "\<exists>x. t = x @ endl \<and> newline \<notin> set x" if "stop_mismatch u v y i st = Some (Some t)" for u v y i st t
    proof -
      from that have "t = ''specified remote does not match'' @ endl \<or> t = ''specified code does not match'' @ endl"
        by (auto simp: stop_mismatch_def split: option.splits if_splits bind_splits)
      moreover have "newline \<notin> set ''specified remote does not match''" "newline \<notin> set ''specified code does not match''"
        by simp_all
      ultimately show ?thesis by blast
    qed
    have e: "send_error fd m (t @ endl) s = Some res \<Longrightarrow> newline \<notin> set t \<Longrightarrow> replied fd m s res" for t
      using replied_error assms(2) by blast
    obtain rm cd k where x: "x = (rm, cd, k)" by (cases x) auto
    show ?thesis
    proof (cases "repeat_remote s = None \<or> repeat_code s = None")
      case True
      then have "send_error fd m (''not repeating'' @ endl) s = Some res"
        using assms(1) p Inr s1 x by (auto simp: send_stop_def split: option.splits)
      then show ?thesis by (rule e) simp
    next
      case False
      then obtain q i where q: "repeat_remote s = Some q" "repeat_code s = Some i" by auto
      obtain v where v: "stop_mismatch rm cd q i (store s) = Some v"
        using assms(1) p Inr s1 x q by (auto simp: send_stop_def split: bind_splits)
      show ?thesis
      proof (cases v)
        case None
        then have "res = send_success fd m (stop_repeat q s)"
          using assms(1) p Inr s1 x q v by (simp add: send_stop_def)
        then show ?thesis using st by simp
      next
        case (Some t)
        then have "send_error fd m t s = Some res" using assms(1) p Inr s1 x q v by (simp add: send_stop_def)
        then show ?thesis using mm [OF v [unfolded Some]] e by blast
      qed
    qed
  qed
qed

section \<open>The protocol\<close>

lemma first_word_plain:
  assumes "first_word t = Some (w, a)" "newline \<notin> set t"
  shows "newline \<notin> set w \<and> (\<forall>u. a = Some u \<longrightarrow> newline \<notin> set u)"
  using assms
  by (auto simp: first_word_def Let_def split: if_splits dest!: set_takeWhileD set_dropWhileD in_set_dropD)

lemma strip_cr_plain: "newline \<notin> set t \<Longrightarrow> newline \<notin> set (strip_cr t)"
  by (auto simp: strip_cr_def dest: in_set_butlastD)

text \<open>C6: Every line a client sends is answered by exactly one packet of the protocol: \<open>BEGIN\<close>, the
  line itself, \<open>SUCCESS\<close> or \<open>ERROR\<close>, the number of lines of data and these lines, and \<open>END\<close>; the
  only other output is the event that \<open>SIMULATE\<close> sends to all clients before. The reply to
  \<open>SEND_ONCE\<close> may be deferred, and then the client and its line are noted. The client keeps its connection. This holds
  for a line whose handling does not fault, while all writes succeed and the descriptors differ, and when the names of
  all remotes and buttons are without newlines and at most 230 characters long; longer ones can be cut or overflow the
  reply.\<close>

theorem every_line_is_answered:
  assumes "run_line d VERSION fd line s = Some (ok, s')" "all_written s" "plain_names s" "distinct (clis s)"
    and "CHR 0x0A \<notin> set line" "CHR 0x0A \<notin> set VERSION"
  shows "ok \<and>
    (reply_due fd (line @ endl) s (ok, s') \<or>
     (\<exists>event ts success data.
        sent s' = sent s @ event @ map (Pair fd) ts \<and>
        (event = [] \<or> (\<exists>t. event = map (\<lambda>c. (c, t)) (clis s))) \<and>
        concat ts = reply_packet (line @ endl) success data \<and> list_all (\<lambda>l. CHR 0x0A \<notin> set l) data))"
    (is ?claim)
proof -
  let ?m = "line @ endl"
  define G where "G \<longleftrightarrow> ?claim"
  have r: G if "replied fd ?m r (ok, s')" "sent r = sent s @ event"
      "event = [] \<or> (\<exists>t. event = map (\<lambda>c. (c, t)) (clis s))" for r event
    using that unfolding replied_def G_def by fastforce
  have r0: G if "replied fd ?m s (ok, s')" by (rule r [OF that, of "[]"]) simp_all
  have due: G if "reply_due fd ?m s (ok, s')" using that unfolding G_def by (simp add: reply_due_def)
  have G
  proof (cases "first_word (strip_cr line)")
    case None
    then show ?thesis
      using assms(1) r0 replied_error [OF _ assms(2), of fd ?m "''bad send packet''"] by (simp add: run_line_def)
  next
    case (Some wa)
    then obtain w a where w: "first_word (strip_cr line) = Some (w, a)" by (cases wa) auto
    have p: "newline \<notin> set w" "\<And>u. a = Some u \<Longrightarrow> newline \<notin> set u"
      using first_word_plain [OF w strip_cr_plain [OF assms(5)]] by blast+
    have run: "run_directive d VERSION fd ?m w a s = Some (ok, s')" using assms(1) w by (simp add: run_line_def)
    have "newline \<notin> set (''unknown directive: '' @ ''\"'' @ w @ ''\"'')" using p(1) by simp
    note unknown = replied_error [OF _ assms(2) this, of fd ?m "(ok, s')"]
    show ?thesis
      using run unfolding run_directive_def send_once_def send_start_def
      using r r0 due unknown replied_list [OF _ assms(2,3) p(2), of fd ?m a "(ok, s')"]
        replied_core [OF _ assms(2) p(2), of d fd ?m a _ "(ok, s')"]
        replied_stop [OF _ assms(2) p(2), of fd ?m a "(ok, s')"]
        replied_version [OF _ assms(2,6), of fd ?m a "(ok, s')"]
        replied_transmitters [OF _ assms(2), of d fd ?m a "(ok, s')"]
        replied_simulate [OF _ assms(2,4), of d fd ?m a "(ok, s')"]
      by (auto simp: quoted_def split: if_splits)
  qed
  then show ?thesis unfolding G_def .
qed

lemma every_line_is_answered_witness:
  "\<exists>s'. run_line default_driver ''0.9'' 5 ''LIST'' (demo_server [tiny_remote] [5]) = Some (True, s') \<and>
     (reply_due 5 (''LIST'' @ endl) (demo_server [tiny_remote] [5]) (True, s') \<or>
      (\<exists>event ts success data. sent s' = event @ map (Pair 5) ts \<and>
         concat ts = reply_packet (''LIST'' @ endl) success data))"
proof -
  let ?s = "demo_server [tiny_remote] [5]"
  have "map_option fst (run_line default_driver ''0.9'' 5 ''LIST'' ?s) = Some True" by code_simp
  then obtain s' where s': "run_line default_driver ''0.9'' 5 ''LIST'' ?s = Some (True, s')" by auto
  have "all_written ?s" "plain_names ?s" "distinct (clis ?s)" "sent ?s = []"
    by (simp_all add: all_written_def plain_names_def plain_name_def demo_server_def tiny_remote_def tiny_button_def
        remote0_def ncode0_def)
  with every_line_is_answered [OF s'] show ?thesis using s' by auto
qed

section \<open>Cutting the input\<close>

text \<open>The lines of a client one after the other, until one of them costs it the connection.\<close>

fun run_lines ::
  "'d driver \<Rightarrow> string \<Rightarrow> int \<Rightarrow> string list \<Rightarrow> ('d, 'z) lircd_srv_scheme \<Rightarrow> (bool \<times> ('d, 'z) lircd_srv_scheme) option" where
  "run_lines d v fd [] s = Some (True, s)"
| "run_lines d v fd (l # ls) s =
     do { (ok, s) \<leftarrow> run_line d v fd l s; if ok then run_lines d v fd ls s else Some (False, s) }"

definition command_text :: "string \<Rightarrow> bool" where
  "command_text l \<longleftrightarrow> CHR 0x0A \<notin> set l \<and> CHR 0x00 \<notin> set l"

lemma cstr_line: "command_text l \<Longrightarrow> cstr (l @ newline # t) = l @ newline # cstr t"
  by (induction l) (auto simp: cstr_def command_text_def)

lemma takeWhile_line: "command_text l \<Longrightarrow> takeWhile (\<lambda>c. c \<noteq> newline) (l @ newline # t) = l"
  by (induction l) (auto simp: command_text_def)

lemma next_line_line [simp]: "command_text l \<Longrightarrow> next_line (l @ newline # t) = Some (l, t)"
  by (simp add: next_line_def cstr_line takeWhile_line Let_def)

lemma command_loop_lines:
  assumes "list_all command_text ls" "ls \<noteq> []"
  shows "command_loop d v fd (concat (map (\<lambda>l. l @ endl) ls)) s = run_lines d v fd ls s"
  using assms
proof (induction ls arbitrary: s)
  case Nil
  then show ?case by simp
next
  case (Cons l ls)
  let ?t = "concat (map (\<lambda>l. l @ endl) ls)"
  have "?t = [] \<or> (\<exists>k u. command_text k \<and> ?t = k @ newline # u)" if "list_all command_text ls"
    using that by (cases ls) (auto simp: endl_def)
  then have n: "?t \<noteq> [] \<Longrightarrow> newline \<in> set (cstr ?t)"
    using Cons.prems cstr_line by fastforce
  have e: "?t = [] \<longleftrightarrow> ls = []" by (cases ls) (auto simp: endl_def)
  show ?case
    using Cons n e
    by (subst command_loop.simps) (auto simp: endl_def split: option.splits)
qed

text \<open>However many lines arrive in one packet, \<open>get_command\<close> runs all of them, in their order and
  each exactly once, and stops only at one after which the client is removed.\<close>

theorem packet_of_lines:
  assumes "incoming s fd = Some (concat (map (\<lambda>l. l @ endl) ls)) # rest" "ls \<noteq> []" "list_all command_text ls"
    and "length (concat (map (\<lambda>l. l @ endl) ls)) \<le> PACKET_SIZE"
  shows "get_command d VERSION fd s = run_lines d VERSION fd ls (s\<lparr>incoming := (incoming s)(fd := rest)\<rparr>)"
proof -
  define t where "t = concat (map (\<lambda>l. l @ endl) ls)"
  have "t \<noteq> []" using assms(2) by (cases ls) (auto simp: endl_def t_def)
  then show ?thesis
    using assms(1,4) command_loop_lines [OF assms(3,2)] unfolding t_def [symmetric]
    by (simp add: get_command_def read_timeout_def)
qed

lemma packet_of_lines_witness:
  "\<exists>s'. get_command default_driver ''0.9'' 5 ((demo_server [] [5])\<lparr>incoming := (\<lambda>_. [Some (''VERSION'' @ endl @ ''LIST'' @ endl)])\<rparr>) =
     Some (True, s')"
proof -
  let ?s = "(demo_server [] [5])\<lparr>incoming := (\<lambda>_. [Some (''VERSION'' @ endl @ ''LIST'' @ endl)])\<rparr>"
  have "get_command default_driver ''0.9'' 5 ?s =
      run_lines default_driver ''0.9'' 5 [''VERSION'', ''LIST''] (?s\<lparr>incoming := (incoming ?s)(5 := [])\<rparr>)"
    by (rule packet_of_lines) (simp_all add: endl_def command_text_def PACKET_SIZE_def)
  moreover have "map_option fst (run_lines default_driver ''0.9'' 5 [''VERSION'', ''LIST'']
      (?s\<lparr>incoming := (incoming ?s)(5 := [])\<rparr>)) = Some True" by code_simp
  ultimately show ?thesis by auto
qed

section \<open>Single directives\<close>

definition tx_number :: "string \<Rightarrow> nat" where
  "tx_number t = unat (ucast (fst (strtoul10 t)) :: u32)"

lemma tx_mask_bits:
  "tx_mask ch ts = Inr channels \<Longrightarrow>
     list_all (\<lambda>t. snd (strtoul10 t) = [] \<and> 1 \<le> tx_number t \<and> tx_number t \<le> 32) ts \<and>
     (\<forall>k. bit channels k \<longleftrightarrow> bit ch k \<or> Suc k \<in> tx_number ` set ts)"
proof (induction ch ts rule: tx_mask.induct)
  case (1 ch)
  then show ?case by simp
next
  case (2 ch t ts)
  let ?n = "ucast (fst (strtoul10 t)) :: u32"
  have n: "snd (strtoul10 t) = []" "?n \<noteq> 0" "uint ?n \<le> 32"
    and r: "tx_mask (ch OR push_bit (unat ?n - 1) 1) ts = Inr channels"
    using 2(2) by (auto simp: Let_def MAX_TX_def split: prod.splits if_splits)
  have "unat ?n \<noteq> 0" using n(2) by (simp only: unat_eq_zero) simp
  moreover have "int (unat ?n) = uint ?n" by simp
  ultimately have u: "1 \<le> unat ?n" "unat ?n \<le> 32" using n(3) by linarith+
  have "bit (push_bit (unat ?n - 1) (1 :: u32)) k \<longleftrightarrow> Suc k = tx_number t" for k
    using u by (auto simp: push_bit_eq_mult bit_exp_iff tx_number_def)
  moreover have "list_all (\<lambda>t. snd (strtoul10 t) = [] \<and> 1 \<le> tx_number t \<and> tx_number t \<le> 32) ts \<and>
     (\<forall>k. bit channels k \<longleftrightarrow> bit (ch OR push_bit (unat ?n - 1) 1) k \<or> Suc k \<in> tx_number ` set ts)"
    using 2(1) [OF _ refl _ _] n r by (simp add: prod_eq_iff MAX_TX_def)
  ultimately show ?case using n(1) u by (auto simp: bit_or_iff tx_number_def)
qed

text \<open>\<open>SET_TRANSMITTERS\<close> hands the driver a mask with exactly the bits of the transmitters that were
  named; every argument is a number from 1 to 32, any other list is refused.\<close>

theorem transmitters_mask:
  assumes "tx_mask 0 ts = Inr channels"
  shows "list_all (\<lambda>t. snd (strtoul10 t) = [] \<and> 1 \<le> tx_number t \<and> tx_number t \<le> 32) ts \<and>
     (\<forall>k. bit channels k \<longleftrightarrow> Suc k \<in> tx_number ` set ts)"
  using tx_mask_bits [OF assms] by simp

lemma transmitters_mask_witness: "bit (0x80000001 :: u32) 31 \<longleftrightarrow> Suc 31 \<in> tx_number ` {''1'', ''32''}"
proof -
  have "tx_mask 0 [''1'', ''32''] = Inr 0x80000001" by code_simp
  from transmitters_mask [OF this, THEN conjunct2, rule_format, of 31] show ?thesis by (simp only: list.set)
qed

lemma takeWhile_token: "token w \<Longrightarrow> takeWhile (\<lambda>x. x \<noteq> CHR '' '') (w @ CHR '' '' # t) = w"
  by (auto simp: token_def is_blank_def list_all_iff)

lemma valid_event_message:
  assumes "token b" "token rn"
  shows "valid_event (butlast (message_text rn b '''' code rp))"
proof -
  let ?c = "pad_zero 16 (hex_int (uint code))"
  let ?m = "pad_zero 2 (hex_int (uint (word_of_int rp :: u32)))"
  have "message_text rn b '''' code rp = (?c @ CHR '' '' # ?m @ CHR '' '' # b @ CHR '' '' # rn) @ [CHR 0x0A]"
    by (simp add: message_text_def)
  then have t: "butlast (message_text rn b '''' code rp) = ?c @ CHR '' '' # ?m @ CHR '' '' # b @ CHR '' '' # rn"
    by (simp only: butlast_snoc)
  have "length (hex_int (uint code)) \<le> 16"
    using hex_int_length [of "uint code" 15] uint64_bounds [of code] by simp
  then have l: "length ?c = 16" by (simp add: pad_zero_def)
  have x: "list_all isxdigit (pad_zero w (hex_int n))" if "0 \<le> n" for w n
    using hex_int_digits [OF that] digit_zero by (auto simp: pad_zero_def isxdigit_def [abs_def] list_all_iff)
  have m: "token ?m" by (simp add: padded_hex)
  then have "?m \<noteq> []" by (simp add: token_def)
  moreover have "b \<noteq> []" "rn \<noteq> []" "CHR '' '' \<notin> set rn" using assms by (auto simp: token_def is_blank_def list_all_iff)
  ultimately show ?thesis
    unfolding valid_event_def t using l x assms takeWhile_token [OF m] takeWhile_token [OF assms(1)] by simp
qed

text \<open>An event as \<open>lircd\<close> writes it, for a button and a remote whose names have no blanks, is
  accepted by \<open>SIMULATE\<close> and reaches all clients exactly as it would have been written.\<close>

theorem simulate_accepts_events:
  assumes "token b" "token rn" "allow_simulate s" "all_written s" "distinct (clis s)"
  shows "\<exists>s' ts. simulate d fd m (Some (butlast (message_text rn b '''' code rp))) s = Some (True, s') \<and>
     sent s' = sent s @ map (\<lambda>c. (c, message_text rn b '''' code rp)) (clis s) @ map (Pair fd) ts"
proof -
  let ?t = "message_text rn b '''' code rp"
  have t: "butlast ?t @ endl = ?t" by (simp add: message_text_def endl_def butlast_append)
  have "?t \<noteq> []" by (simp add: message_text_def)
  note w = broadcast_written [OF assms(4) this assms(5), of d]
  have "simulate d fd m (Some (butlast ?t)) s = Some (send_success fd m (broadcast_message d ?t s))"
    using assms(3) valid_event_message [OF assms(1,2), of code rp] t by (simp add: simulate_def)
  moreover obtain s' where s': "send_success fd m (broadcast_message d ?t s) = (True, s')"
    using replied_success [OF w(2), of fd m] by (cases "send_success fd m (broadcast_message d ?t s)") (auto simp: replied_def)
  moreover from this obtain ts where "sent s' = sent (broadcast_message d ?t s) @ map (Pair fd) ts"
    using replied_success [OF w(2), of fd m] by (auto simp: replied_def)
  ultimately show ?thesis using w(1) by auto
qed

lemma simulate_accepts_events_witness:
  "\<exists>s' ts. simulate default_driver 5 [] (Some ''000000000000c113 00 MUTE TV'') (demo_server [] [5, 6]) = Some (True, s') \<and>
     sent s' = [(5, ''000000000000c113 00 MUTE TV'' @ endl), (6, ''000000000000c113 00 MUTE TV'' @ endl)] @ map (Pair 5) ts"
proof -
  have "token ''MUTE''" "token ''TV''" by code_simp+
  moreover have "allow_simulate (demo_server [] [5, 6])" "all_written (demo_server [] [5, 6])"
    "distinct (clis (demo_server [] [5, 6]))" "sent (demo_server [] [5, 6]) = []" "clis (demo_server [] [5, 6]) = [5, 6]"
    by (simp_all add: demo_server_def all_written_def)
  moreover have "message_text ''TV'' ''MUTE'' '''' 0xC113 0 = ''000000000000c113 00 MUTE TV'' @ endl" by code_simp
  ultimately show ?thesis
    using simulate_accepts_events [where b = "''MUTE''" and rn = "''TV''" and
        s = "demo_server [] [5, 6]" and d = default_driver and fd = 5 and m = "[]" and code = "0xC113" and rp = 0]
    by (simp add: endl_def)
qed

end
