(* ===== verification/EventOrder.thy ===== *)
theory EventOrder
  imports ClientFacts
begin

text \<open>
  The order of the messages for presses and releases, and the time the daemon sleeps.
\<close>

section \<open>Release before press\<close>

lemma check_release_frame:
  "check_release_event s = Some (ev, t) \<Longrightarrow>
     sent t = sent s \<and> clis t = clis s \<and> wr_ok t = wr_ok s \<and> userelease t = userelease s \<and>
     release_remote2 (rel t) = None"
  by (auto simp: check_release_event_def split: option.splits bind_splits)

interpretation wishes: connection_invariant "\<lambda>s. userelease s = u" for u
  by unfold_locales simp_all

lemma reached_clients: "all_written s \<Longrightarrow> distinct (clis s) \<Longrightarrow> m \<noteq> [] \<Longrightarrow> clis (broadcast_message d m s) = clis s"
  using write_clients_one [of m s "[]" "clis s" d] reached_all [of s "clis s"] by (simp add: broadcast_message_def)

lemma deliver_written:
  assumes "all_written s" "distinct (clis s)" "m \<noteq> []"
  shows "sent (deliver d m r s) = sent s @ (if \<not> r \<or> userelease s then map (\<lambda>c. (c, m)) (clis s) else [])"
    "all_written (deliver d m r s)" "clis (deliver d m r s) = clis s" "userelease (deliver d m r s) = userelease s"
  using broadcast_written [OF assms(1,3,2), of d] reached_clients [OF assms, of d]
    wishes.broadcast [of s "userelease s" d m] assms(1)
  by (simp_all add: deliver_def)

lemma input_message_plain:
  "release_remote2 (rel s) = None \<Longrightarrow> input_message d m r s = Some (deliver d m r s)"
  by (subst input_message.simps) (simp add: check_release_event_def)

text \<open>C38: When a button is pressed while the release of another is still due, the message of the release
  goes to all clients before the message of the press, unless releases are not wanted; the release is
  then no longer due.\<close>

theorem release_before_press:
  assumes "check_release_event s = Some (Some (rn, bn, Some t), s1)"
    and "all_written s" "distinct (clis s)" "t \<noteq> []" "m \<noteq> []"
  shows "\<exists>s'. input_message d m False s = Some s' \<and> clis s' = clis s \<and>
     sent s' = sent s @ (if userelease s then map (\<lambda>c. (c, t)) (clis s) else []) @ map (\<lambda>c. (c, m)) (clis s)"
proof -
  note f = check_release_frame [OF assms(1)]
  let ?r = "deliver d t True s1"
  have w: "all_written s1" "distinct (clis s1)" using f assms(2,3) by (simp_all add: all_written_def)
  note r = deliver_written [OF w assms(4), where d = d and r = True]
  have "distinct (clis ?r)" using r w by simp
  note p = deliver_written [OF r(2) this assms(5), where d = d and r = False]
  have "input_message d m False s = Some (deliver d m False ?r)"
    using assms(1) input_message_plain [of s1 d t True] f by (subst input_message.simps) simp
  then show ?thesis using p r f by simp
qed

lemma release_before_press_witness:
  "\<exists>s'. input_message default_driver ''press'' False ((demo_server [tiny_remote] [5, 6])
      \<lparr>userelease := True, rel := rel_state0\<lparr>release_remote2 := Some 0, release_ncode2 := Some 0, release_code2 := 1\<rparr>\<rparr>) =
     Some s' \<and> sent s' = [(5, ''0000000000000001 00 B_UP A'' @ endl), (6, ''0000000000000001 00 B_UP A'' @ endl),
       (5, ''press''), (6, ''press'')]"
proof -
  let ?s = "(demo_server [tiny_remote] [5, 6])
      \<lparr>userelease := True, rel := rel_state0\<lparr>release_remote2 := Some 0, release_ncode2 := Some 0, release_code2 := 1\<rparr>\<rparr>"
  have "map_option fst (check_release_event ?s) = Some (Some (''A'', ''B'', Some (''0000000000000001 00 B_UP A'' @ endl)))"
    by code_simp
  then obtain s1 where "check_release_event ?s =
      Some (Some (''A'', ''B'', Some (''0000000000000001 00 B_UP A'' @ endl)), s1)" by auto
  moreover have "all_written ?s" "distinct (clis ?s)" "sent ?s = []" "clis ?s = [5, 6]" "userelease ?s"
    by (simp_all add: demo_server_def all_written_def)
  ultimately show ?thesis
    using release_before_press [of ?s "''A''" "''B''" "''0000000000000001 00 B_UP A'' @ endl" s1 "''press''" default_driver]
    by auto
qed

section \<open>The time to sleep\<close>

definition usecs :: "timeval \<Rightarrow> int" where
  "usecs t = tv_sec t * 1000000 + tv_usec t"

definition normal_time :: "timeval \<Rightarrow> bool" where
  "normal_time t \<longleftrightarrow> 0 \<le> tv_usec t \<and> tv_usec t < 1000000"

lemma timercmp_usecs:
  assumes "normal_time a" "normal_time b"
  shows "timercmp_less a b \<longleftrightarrow> usecs a < usecs b"
proof (cases rule: linorder_cases [of "tv_sec a" "tv_sec b"])
  case less
  then have "tv_sec a + 1 \<le> tv_sec b" by simp
  then show ?thesis using assms unfolding timercmp_less_def usecs_def normal_time_def by (simp; linarith)
next
  case equal
  then show ?thesis by (simp add: timercmp_less_def usecs_def)
next
  case greater
  then have "tv_sec b + 1 \<le> tv_sec a" by simp
  then show ?thesis using assms unfolding timercmp_less_def usecs_def normal_time_def by (simp; linarith)
qed

lemma timersub_usecs: "usecs (timersub a b) = usecs a - usecs b"
  by (simp add: timersub_def usecs_def Let_def)

lemma timersub_normal: "normal_time a \<Longrightarrow> normal_time b \<Longrightarrow> normal_time (timersub a b)"
  by (auto simp: timersub_def normal_time_def Let_def)

lemma usecs_zero [simp]: "usecs timeval0 = 0" "normal_time timeval0"
  by (simp_all add: usecs_def normal_time_def timeval0_def)

lemma timerisset_usecs:
  assumes "normal_time t" "0 \<le> usecs t"
  shows "timerisset t \<longleftrightarrow> 0 < usecs t"
proof (cases rule: linorder_cases [of "tv_sec t" 0])
  case less
  then have "tv_sec t + 1 \<le> 0" by simp
  then show ?thesis using assms unfolding usecs_def normal_time_def by linarith
next
  case equal
  then show ?thesis using assms by (auto simp: timerisset_def usecs_def normal_time_def)
next
  case greater
  then show ?thesis using assms by (auto simp: timerisset_def usecs_def normal_time_def)
qed

lemma limit_timeout_bounds:
  assumes "normal_time tv" "0 \<le> usecs tv"
  shows "normal_time (limit_timeout m lost rc tv)" "0 \<le> usecs (limit_timeout m lost rc tv)"
    "0 < m \<Longrightarrow> usecs (limit_timeout m lost rc tv) \<le> m"
    "lost \<Longrightarrow> usecs (limit_timeout m lost rc tv) \<le> 1000000"
    "\<not> timerisset (limit_timeout m lost rc tv) \<Longrightarrow> m \<le> 0 \<and> (lost \<longrightarrow> rc)"
proof -
  define t where "t = (if 0 < m then \<lparr>tv_sec = m div 1000000, tv_usec = m mod 1000000\<rparr> else tv)"
  have t: "normal_time t" "0 \<le> usecs t" "0 < m \<Longrightarrow> usecs t = m"
    using assms by (auto simp: t_def normal_time_def usecs_def)
  let ?one = "\<lparr>tv_sec = 1, tv_usec = 0\<rparr>"
  have one: "normal_time ?one" "usecs ?one = 1000000" by (simp_all add: normal_time_def usecs_def)
  have l: "limit_timeout m lost rc tv =
      (if lost \<and> (timercmp_less ?one t \<or> (\<not> rc \<and> \<not> timerisset t)) then ?one else t)"
    unfolding limit_timeout_def t_def Let_def ..
  have c: "timercmp_less ?one t \<longleftrightarrow> 1000000 < usecs t" "timerisset t \<longleftrightarrow> 0 < usecs t" "timerisset ?one"
    using timercmp_usecs [OF one(1) t(1)] timerisset_usecs [OF t(1,2)] one(2) by (simp_all add: timerisset_def)
  show "normal_time (limit_timeout m lost rc tv)" "0 \<le> usecs (limit_timeout m lost rc tv)"
    "lost \<Longrightarrow> usecs (limit_timeout m lost rc tv) \<le> 1000000"
    unfolding l using t one c by simp_all
  show "usecs (limit_timeout m lost rc tv) \<le> m" if "0 < m"
    unfolding l using t(3) [OF that] that one c by simp
  show "m \<le> 0 \<and> (lost \<longrightarrow> rc)" if "\<not> timerisset (limit_timeout m lost rc tv)"
    using that t(3) c unfolding l by (cases "0 < m") (auto split: if_splits)
qed

lemma earliest_reconnect_normal:
  assumes "\<forall>p \<in> set ps. normal_time (pc_reconnect p)"
  shows "normal_time (earliest_reconnect ps)"
  unfolding earliest_reconnect_def
  using assms by (intro fold_invariant_list [where I = normal_time]) auto

lemma peer_timeout_bounds:
  assumes "peer_timeout s = (tv, rc, t)" "\<And>k. normal_time (clock s k)"
    "\<forall>p \<in> set (peers s). normal_time (pc_reconnect p)"
  shows "normal_time tv" "0 \<le> usecs tv" "clock t = clock s" "\<not> rc \<longrightarrow> tv = timeval0"
proof -
  note n = earliest_reconnect_normal [OF assms(3)]
  have "timerisset (earliest_reconnect (peers s)) \<or> earliest_reconnect (peers s) = timeval0"
    by (auto simp: timerisset_def timeval0_def)
  then show "normal_time tv" "0 \<le> usecs tv" "clock t = clock s" "\<not> rc \<longrightarrow> tv = timeval0"
    using assms(1) n assms(2) [of "ticks s"] timercmp_usecs [OF n assms(2) [of "ticks s"]]
    by (auto simp: peer_timeout_def gettimeofday_def timersub_normal timersub_usecs Let_def split: if_splits)
qed

lemma release_timeout_bounds:
  assumes "release_timeout rt rc tv s = (tv', s')" "normal_time rt" "normal_time (clock s (ticks s))"
    "normal_time tv" "0 \<le> usecs tv"
  shows "0 \<le> usecs tv'" "timerisset rt \<longrightarrow> usecs tv' \<le> max 0 (usecs rt - usecs (clock s (ticks s' - 1)))"
    "timerisset tv \<or> rc \<longrightarrow> usecs tv' \<le> usecs tv" "\<not> timerisset rt \<longrightarrow> tv' = tv"
proof -
  let ?now = "clock s (ticks s)"
  have "normal_time (timersub rt ?now)" using assms(2,3) by (rule timersub_normal)
  note c = timercmp_usecs [OF assms(2,3)] timercmp_usecs [OF this assms(4)] timersub_usecs [of rt ?now]
    timerisset_usecs [OF assms(4,5)]
  show "0 \<le> usecs tv'" "timerisset rt \<longrightarrow> usecs tv' \<le> max 0 (usecs rt - usecs (clock s (ticks s' - 1)))"
    "timerisset tv \<or> rc \<longrightarrow> usecs tv' \<le> usecs tv" "\<not> timerisset rt \<longrightarrow> tv' = tv"
    using assms(1,5) c by (auto simp: release_timeout_def gettimeofday_def Let_def split: if_splits)
qed

text \<open>C39: \<open>select\<close> never sleeps past the assumed release of a held button, nor longer than it was asked to,
  nor longer than a second while the receiver is to be opened again; without a limit it sleeps only
  if no release is due.\<close>

theorem sleeps_in_time:
  assumes "select_timeout maxusec s = (tv, start, reconnect, s')"
    and "\<And>k. normal_time (clock s k)" "normal_time (release_time (rel s))"
    and "\<forall>p \<in> set (peers s). normal_time (pc_reconnect p)"
  shows "case tv of
      None \<Rightarrow> \<not> timerisset (release_time (rel s)) \<and> maxusec \<le> 0 \<and> \<not> (hw_fd s = - 1 \<and> use_hw s)
    | Some t \<Rightarrow>
        0 \<le> usecs t \<and>
        (timerisset (release_time (rel s)) \<longrightarrow>
           usecs t \<le> max 0 (usecs (release_time (rel s)) - usecs (clock s (ticks s' - 1)))) \<and>
        (0 < maxusec \<longrightarrow> usecs t \<le> maxusec) \<and>
        (hw_fd s = - 1 \<and> use_hw s \<longrightarrow> usecs t \<le> 1000000)"
proof -
  let ?rt = "release_time (rel s)" and ?lost = "hw_fd s = - 1 \<and> use_hw s"
  obtain tv0 rc s1 where p: "peer_timeout s = (tv0, rc, s1)" by (metis prod_cases3)
  note b0 = peer_timeout_bounds [OF p assms(2,4)]
  have s1: "rel s1 = rel s" "hw_fd s1 = hw_fd s" "use_hw s1 = use_hw s"
    using p by (auto simp: peer_timeout_def gettimeofday_def use_hw_def Let_def split: if_splits)
  let ?tv = "limit_timeout maxusec ?lost rc tv0" and ?s2 = "s1\<lparr>ticks := Suc (ticks s1)\<rparr>"
  note b1 = limit_timeout_bounds [OF b0(1,2), where m = maxusec and lost = ?lost and rc = rc]
  obtain tv2 s3 where r: "release_timeout ?rt rc ?tv ?s2 = (tv2, s3)" by fastforce
  have "normal_time (clock ?s2 (ticks ?s2))" using b0(3) assms(2) by simp
  note b2 = release_timeout_bounds [OF r assms(3) this b1(1,2)]
  have e: "tv = (if timerisset tv2 \<or> timerisset ?rt \<or> rc then Some tv2 else None)" "s' = s3"
    using assms(1) p s1 r
    by (auto simp: select_timeout_def gettimeofday_def get_release_time_def use_hw_def Let_def)
  have unset: "\<not> (timerisset ?tv \<or> rc) \<Longrightarrow> maxusec \<le> 0 \<and> \<not> ?lost" using b1(5) by blast
  have m: "0 < maxusec \<longrightarrow> usecs tv2 \<le> maxusec"
  proof
    assume "0 < maxusec"
    then have "timerisset ?tv \<or> rc" "usecs ?tv \<le> maxusec" using unset b1(3) by linarith+
    then show "usecs tv2 \<le> maxusec" using b2(3) by linarith
  qed
  have l: "?lost \<longrightarrow> usecs tv2 \<le> 1000000"
  proof
    assume "?lost"
    then have "timerisset ?tv \<or> rc" "usecs ?tv \<le> 1000000" using unset b1(4) by blast+
    then show "usecs tv2 \<le> 1000000" using b2(3) by linarith
  qed
  show ?thesis
  proof (cases "timerisset tv2 \<or> timerisset ?rt \<or> rc")
    case True
    have "clock ?s2 = clock s" using b0(3) by simp
    then have "timerisset ?rt \<longrightarrow> usecs tv2 \<le> max 0 (usecs ?rt - usecs (clock s (ticks s' - 1)))"
      using b2(2) unfolding e(2) by (simp only:)
    then show ?thesis using e(1) True b2(1) m l by (simp only: if_True option.case)
  next
    case False
    then have "\<not> (timerisset ?tv \<or> rc)" using b2(4) by blast
    then show ?thesis using unset e(1) False by (simp only: if_False option.case not_False_eq_True) blast
  qed
qed

lemma sleeps_in_time_witness:
  "\<exists>t. fst (select_timeout 0 ((demo_server [] [5])\<lparr>rel := rel_state0\<lparr>release_time := \<lparr>tv_sec = 0, tv_usec = 7\<rparr>\<rparr>\<rparr>)) = Some t \<and>
     0 \<le> usecs t \<and> usecs t \<le> 7"
proof -
  let ?s = "(demo_server [] [5])\<lparr>rel := rel_state0\<lparr>release_time := \<lparr>tv_sec = 0, tv_usec = 7\<rparr>\<rparr>\<rparr>"
  obtain tv start rc s' where e: "select_timeout 0 ?s = (tv, start, rc, s')" by (metis prod_cases4)
  have "normal_time (clock ?s k)" "normal_time (release_time (rel ?s))" "\<forall>p \<in> set (peers ?s). normal_time (pc_reconnect p)" for k
    by (simp_all add: demo_server_def normal_time_def timeval0_def)
  note t = sleeps_in_time [OF e this]
  have "timerisset (release_time (rel ?s))" "usecs (release_time (rel ?s)) = 7" "clock ?s k = timeval0" for k
    by (simp_all add: timerisset_def usecs_def demo_server_def)
  then show ?thesis using t e by (auto split: option.splits)
qed

end
