(* ===== verification/DaemonLaws.thy ===== *)
theory DaemonLaws
  imports ClientFacts
begin

text \<open>
  What the daemon as a whole keeps. A property of the state that the directives, the handler of the
  timer and the mapping of a repeated signal keep, and that does not depend on the rest of the
  state, is kept by everything that \<open>waitfordata\<close> does.
\<close>

section \<open>Setup, peers and configuration\<close>

locale outside_invariant = connection_invariant +
  assumes received: "I s \<Longrightarrow> I (s\<lparr>incoming := x\<rparr>)"
    and clocked: "I s \<Longrightarrow> I (s\<lparr>ticks := n\<rparr>)"
    and initialised: "I s \<Longrightarrow> I (init_rec_buffer s)" "I s \<Longrightarrow> I (s\<lparr>hw := h, hw_fd := f, drv := dv\<rparr>)"
    and set_up: "I s \<Longrightarrow> I (s\<lparr>setup_min_freq := f1, setup_max_freq := f2\<rparr>)"
      "I s \<Longrightarrow> I (s\<lparr>setup_filter_params := fp\<rparr>)"
    and named: "I s \<Longrightarrow> I (s\<lparr>cli_type := ct\<rparr>)" "I s \<Longrightarrow> I (s\<lparr>configfile := cf\<rparr>)"
    and dialled: "I s \<Longrightarrow> I (s\<lparr>peers := ps\<rparr>)" "I s \<Longrightarrow> I (s\<lparr>dial_count := n\<rparr>)"
    and configured:
      "I s \<Longrightarrow> free_remotes s = [] \<Longrightarrow> old = remotes s \<Longrightarrow> I ((new_remotes rs s)\<lparr>free_remotes := old\<rparr>)"
      "I s \<Longrightarrow> I (s\<lparr>free_remotes := []\<rparr>)"
    and hung_up: "I s \<Longrightarrow> I (s\<lparr>hup_flag := hf\<rparr>)"
    and stored: "I s \<Longrightarrow> I (s\<lparr>store := st\<rparr>)"
    and released: "I s \<Longrightarrow> I (s\<lparr>rel := rl\<rparr>)"
    and decoded_last: "I s \<Longrightarrow> I (s\<lparr>last_remote := lr\<rparr>)"
begin

lemma gettimeofday: "gettimeofday s = (t, s') \<Longrightarrow> I s \<Longrightarrow> I s'"
  by (auto simp: gettimeofday_def clocked)

lemma read_timeout: "read_timeout fd n s = (t, s') \<Longrightarrow> I s \<Longrightarrow> I s'"
  by (auto simp: read_timeout_def received split: list.splits option.splits)

lemma init_driver: "init_driver d s = (ok, s') \<Longrightarrow> I s \<Longrightarrow> I s'"
  by (auto simp: init_driver_def initialised split: option.splits prod.splits if_splits)

lemma init_driver_state: "I s \<Longrightarrow> I (snd (init_driver d s))"
  by (cases "init_driver d s") (auto dest: init_driver)

lemma setup_frequency: "setup_frequency d s = Some (ok, s') \<Longrightarrow> I s \<Longrightarrow> I s'"
  by (auto simp: setup_frequency_def Let_def split: if_splits bind_splits prod.splits dest!: ioctl intro!: set_up)

lemma setup_timeout: "setup_timeout d s = Some (ok, s') \<Longrightarrow> I s \<Longrightarrow> I s'"
  by (auto simp: setup_timeout_def split: if_splits bind_splits prod.splits dest!: ioctl)

lemma filter_limits: "filter_limits d u s = Some (m, s') \<Longrightarrow> I s \<Longrightarrow> I s'"
  by (auto simp: filter_limits_def split: if_splits bind_splits prod.splits dest!: ioctl)

lemma setup_filter: "setup_filter d u s = Some (ok, s') \<Longrightarrow> I s \<Longrightarrow> I s'"
  by (auto simp: setup_filter_def split: if_splits bind_splits prod.splits
      dest!: ioctl filter_limits intro!: set_up)

lemma setup_hardware: "setup_hardware d u s = Some (ok, s') \<Longrightarrow> I s \<Longrightarrow> I s'"
  by (auto simp: setup_hardware_def split: if_splits bind_splits prod.splits
      dest!: ioctl setup_filter setup_timeout setup_frequency)

lemma add_client: "add_client d u fd k s = Some s' \<Longrightarrow> I s \<Longrightarrow> I s'"
  by (auto simp: add_client_def split: if_splits bind_splits prod.splits
      dest!: init_driver setup_hardware intro!: named dropped)

lemma accept_clients: "accept_clients d u cs s = Some s' \<Longrightarrow> I s \<Longrightarrow> I s'"
  by (induction d u cs s rule: accept_clients.induct) (auto split: bind_splits dest: add_client)

lemma get_peer_message: "get_peer_message d fd s = Some (ok, s') \<Longrightarrow> I s \<Longrightarrow> I s'"
  by (auto simp: get_peer_message_def Let_def split: prod.splits option.splits if_splits
      dest!: read_timeout intro!: write_clients)

lemma connect_peer: "connect_peer t p s = (q, s') \<Longrightarrow> I s \<Longrightarrow> I s'"
  by (auto simp: connect_peer_def Let_def split: if_splits prod.splits dest!: gettimeofday intro!: dialled)

lemma connect_loop: "connect_loop t ps s = (qs, s') \<Longrightarrow> I s \<Longrightarrow> I s'"
  by (induction ps arbitrary: s qs) (auto split: prod.splits dest: connect_peer)

lemma connect_to_peers: "I s \<Longrightarrow> I (connect_to_peers s)"
  by (auto simp: connect_to_peers_def split: prod.splits dest!: gettimeofday connect_loop intro!: dialled)

lemma restart_peers: "restart_peers ps s = (qs, s') \<Longrightarrow> I s \<Longrightarrow> I s'"
  by (induction ps arbitrary: s qs) (auto split: prod.splits if_splits dest!: gettimeofday)

lemma config: "config d b u fs s = Some s' \<Longrightarrow> I s \<Longrightarrow> I s'"
  by (auto simp: config_def split: if_splits option.splits bind_splits prod.splits
      dest!: setup_hardware intro!: set_up configured named)

lemma dosighup: "dosighup d b u fs s = Some s' \<Longrightarrow> I s \<Longrightarrow> I s'"
  by (auto simp: dosighup_def split: bind_splits prod.splits
      dest!: config restart_peers intro!: dialled write_clients)

lemma serve_peers: "serve_peers d ready ps s = Some (qs, s') \<Longrightarrow> I s \<Longrightarrow> I s'"
  by (induction d ready ps s arbitrary: qs rule: serve_peers.induct)
    (auto split: bind_splits prod.splits if_splits dest!: get_peer_message gettimeofday)

section \<open>Events and the old configuration\<close>

lemma check_release_event: "check_release_event s = Some (ev, s') \<Longrightarrow> I s \<Longrightarrow> I s'"
  by (auto simp: check_release_event_def split: option.splits bind_splits intro!: released)

lemma trigger_release_event: "trigger_release_event s = Some (ev, s') \<Longrightarrow> I s \<Longrightarrow> I s'"
  by (auto simp: trigger_release_event_def split: option.splits bind_splits intro!: released stored)

lemma release_map_remotes: "release_map_remotes old new s = Some (ev, s') \<Longrightarrow> I s \<Longrightarrow> I s'"
  by (auto simp: release_map_remotes_def Let_def split: option.splits bind_splits if_splits
      dest!: trigger_release_event intro!: released stored)

lemma deliver: "I s \<Longrightarrow> I (deliver d m r s)"
  by (simp add: deliver_def broadcast)

lemma input_message: "input_message d m r s = Some s' \<Longrightarrow> I s \<Longrightarrow> I s'"
proof (induction d m r s arbitrary: s' rule: input_message.induct)
  case (1 d m r s)
  show ?case
    using 1(1,3) 1(2) [unfolded input_message.simps [of d m r s]] check_release_event [of s] deliver
    by (auto split: option.splits prod.splits)
qed

lemma release_message_out: "release_message_out d ev s = Some s' \<Longrightarrow> I s \<Longrightarrow> I s'"
  by (auto simp: release_message_out_def split: option.splits prod.splits dest: input_message)

lemma map_last_remote: "map_last_remote s = Some s' \<Longrightarrow> I s \<Longrightarrow> I s'"
  by (auto simp: map_last_remote_def split: option.splits bind_splits if_splits intro!: decoded_last stored)

end

section \<open>The whole daemon\<close>

locale daemon_invariant = outside_invariant +
  assumes line: "run_line d v fd l s = Some (ok, s') \<Longrightarrow> I s \<Longrightarrow> I s'"
    and alarm: "dosigalrm d s = Some s' \<Longrightarrow> alrm_flag s \<Longrightarrow> I s \<Longrightarrow> I (s'\<lparr>alrm_flag := False\<rparr>)"
    and fired: "timer s \<noteq> None \<Longrightarrow> I s \<Longrightarrow> I (s\<lparr>timer := None, alrm_flag := True\<rparr>)"
    and mapped: "map_repeat s = Some (used, s') \<Longrightarrow> I s \<Longrightarrow> I s'"
begin

lemma command_loop: "command_loop d v fd b s = Some (ok, s') \<Longrightarrow> I s \<Longrightarrow> I s'"
proof (induction d v fd b s arbitrary: ok s' rule: command_loop.induct)
  case (1 d v fd b s)
  note loop = 1(3) [unfolded command_loop.simps [of d v fd b s]]
  show ?case
  proof (cases "next_line b")
    case None
    then show ?thesis using loop 1(4) by simp
  next
    case (Some lr)
    obtain l r where lr: "lr = (l, r)" by fastforce
    obtain ok1 s1 where run: "run_line d v fd l s = Some (ok1, s1)"
      using loop Some lr by (auto split: option.splits)
    have s1: "I s1" using line [OF run 1(4)] .
    obtain t s2 where read: "read_timeout fd (PACKET_SIZE - length r) s1 = (t, s2)" by fastforce
    have s2: "I s2" using read_timeout [OF read s1] .
    show ?thesis
      using loop Some lr run s1 read s2 1(1) [OF Some [unfolded lr] refl run refl] 1(2) [OF Some [unfolded lr] refl run refl _ _ _ read [symmetric]]
      by (auto split: if_splits option.splits)
  qed
qed

lemma get_command: "get_command d v fd s = Some (ok, s') \<Longrightarrow> I s \<Longrightarrow> I s'"
  by (auto simp: get_command_def split: prod.splits option.splits if_splits dest!: read_timeout command_loop)

lemma serve_clients: "serve_clients d v ready i s = Some s' \<Longrightarrow> I s \<Longrightarrow> I s'"
proof (induction d v ready i s arbitrary: s' rule: serve_clients.induct)
  case (1 d v ready i s)
  show ?case
    using 1(1-3,5) 1(4) [unfolded serve_clients.simps [of d v ready i s]] get_command [of d v "clis s ! i" s]
      remove_client
    by (auto simp: Let_def split: option.splits prod.splits if_splits)
qed

lemma handle_signals: "handle_signals d b u fs s = Some s' \<Longrightarrow> I s \<Longrightarrow> I s'"
  by (auto simp: handle_signals_def split: bind_splits if_splits dest!: dosighup intro!: alarm hung_up)

lemma select_timeout: "select_timeout m s = (tv, t, r, s') \<Longrightarrow> I s \<Longrightarrow> I s'"
  by (auto simp: select_timeout_def peer_timeout_def release_timeout_def Let_def
      split: prod.splits if_splits dest!: gettimeofday)

lemma deliver_signals: "I s \<Longrightarrow> I (deliver_signals a s)"
  by (auto simp: deliver_signals_def hung_up fired Let_def)

lemma free_old_remotes: "free_old_remotes d s = Some s' \<Longrightarrow> I s \<Longrightarrow> I s'"
  by (auto simp: free_old_remotes_def split: if_splits bind_splits
      dest!: release_map_remotes release_message_out map_last_remote mapped intro!: configured)

lemma after_select: "after_select d m t rt r o' s = Some (rest, s') \<Longrightarrow> I s \<Longrightarrow> I s'"
  by (auto simp: after_select_def split: if_splits bind_splits prod.splits
      dest!: gettimeofday trigger_release_event release_message_out free_old_remotes
      intro!: connect_to_peers)

lemma register_input: "I s \<Longrightarrow> I (register_input s)"
  by (auto simp: register_input_def Let_def released clocked gettimeofday_def)

lemma reopened:
  "(if c then map_option snd (setup_hardware d u (snd (init_driver d s))) else Some s) = Some s' \<Longrightarrow> I s \<Longrightarrow> I s'"
  using init_driver_state [of s d] by (auto split: if_splits dest!: setup_hardware)

lemma serve: "serve d b u a s = Some (data, s') \<Longrightarrow> I s \<Longrightarrow> I s'"
proof -
  assume "serve d b u a s = Some (data, s')" and s: "I s"
  then obtain s1 s2 ps s3 s4 where
      opened: "(if hw_fd s = - 1 \<and> use_hw s \<and> init_func d \<noteq> None
        then map_option snd (setup_hardware d u (snd (init_driver d s))) else Some s) = Some s1"
    and served: "serve_clients d (b_version b) (a_ready a) 0 s1 = Some s2"
      "serve_peers d (a_ready a) (peers s2) s2 = Some (ps, s3)"
      "accept_clients d u (a_accept a) (s3\<lparr>peers := ps\<rparr>) = Some s4"
    and s': "s' = register_input s4 \<or> s' = s4"
    unfolding serve_def by (auto split: bind_splits if_splits simp del: not_None_eq)
  have "I s3" using reopened [OF opened s] served(1,2) by (blast intro: serve_clients serve_peers)
  then have "I s4" using accept_clients [OF served(3)] dialled(1) by blast
  then show "I s'" using s' register_input by blast
qed

lemma waitfordata: "waitfordata d b u fs m as s = Some (r, as', s') \<Longrightarrow> I s \<Longrightarrow> I s'"
proof (induction d b u fs m as s rule: waitfordata.induct)
  case (1 d b u fs m s)
  then show ?case by simp
next
  case (2 d b u fs m a as s)
  then show ?case
    using handle_signals select_timeout deliver_signals after_select serve
    by (fastforce split: if_splits bind_splits prod.splits option.splits)
qed

end

end
