(* ===== verification/RepeatInvariant.thy ===== *)
theory RepeatInvariant
  imports DaemonLaws
begin

text \<open>
  The repeated signal as a state machine: commands, the timer, its signal, the change of the
  configuration, and everything else that happens in the daemon. The invariant says which of the
  variables are set together, so that the handler of the timer finds what it dereferences.
\<close>

section \<open>The invariant\<close>

definition repeat_inv :: "('d, 'z) lircd_srv_scheme \<Rightarrow> bool" where
  "repeat_inv s \<longleftrightarrow>
     (repeat_remote s = None \<longleftrightarrow> repeat_code s = None) \<and>
     (timer s \<noteq> None \<or> alrm_flag s \<longrightarrow> repeat_remote s \<noteq> None) \<and>
     \<not> (timer s \<noteq> None \<and> alrm_flag s) \<and>
     (repeat_fd s \<noteq> - 1 \<longrightarrow> repeat_message s \<noteq> None)"

text \<open>The six variables; what leaves them alone keeps the invariant.\<close>

definition same_repeat :: "('d, 'z) lircd_srv_scheme \<Rightarrow> ('d, 'z) lircd_srv_scheme \<Rightarrow> bool" where
  "same_repeat s s' \<longleftrightarrow>
     repeat_remote s' = repeat_remote s \<and> repeat_code s' = repeat_code s \<and> repeat_fd s' = repeat_fd s \<and>
     repeat_message s' = repeat_message s \<and> timer s' = timer s \<and> alrm_flag s' = alrm_flag s"

lemma same_repeat_inv: "same_repeat s s' \<Longrightarrow> repeat_inv s' = repeat_inv s"
  by (simp add: same_repeat_def repeat_inv_def)

interpretation kept: outside_invariant repeat_inv
  by unfold_locales (auto simp: repeat_inv_def init_rec_buffer_def new_remotes_def Let_def)

interpretation unchanged: connection_invariant "same_repeat s0" for s0
  by unfold_locales (simp_all add: same_repeat_def)

lemma same_repeat_refl [simp]: "same_repeat s s"
  by (simp add: same_repeat_def)

lemma send_button_frame:
  assumes "send_button d p i s = Some (ok, s')"
  shows "same_repeat s s'" "sent s' = sent s" "wr_ok s' = wr_ok s" "wr_count s' = wr_count s" "clis s' = clis s"
    "hw s' = hw s" "remotes s' = remotes s"
  using assms
  by (auto simp: send_button_def send_ir_ncode_def driver_send_def send_pause_def gettimeofday_def
      set_remote_def same_repeat_def Let_def split: option.splits prod.splits bind_splits if_splits)

lemma note_sent_frame [simp]: "same_repeat s (note_sent p i once k s)"
  by (simp add: note_sent_def gettimeofday_def same_repeat_def Let_def)

lemma setitimer_inv: "repeat_inv s \<Longrightarrow> repeat_remote s \<noteq> None \<Longrightarrow> \<not> alrm_flag s \<Longrightarrow> repeat_inv (setitimer u s)"
  by (auto simp: setitimer_def repeat_inv_def)

section \<open>Commands\<close>

lemma idle_timer: "repeat_inv s \<Longrightarrow> repeat_remote s = None \<Longrightarrow> timer s = None \<and> \<not> alrm_flag s \<and> repeat_code s = None"
  by (auto simp: repeat_inv_def)

lemma begin_repeat_inv:
  assumes "repeat_inv s" "repeat_remote s = None" "begin_repeat fd m once p i s = (ok, s')"
  shows "repeat_inv s'"
proof -
  note idle = idle_timer [OF assms(1,2)]
  let ?s = "s\<lparr>repeat_remote := Some p, repeat_code := Some i\<rparr>"
  have i: "repeat_inv ?s" using assms(1) idle by (simp add: repeat_inv_def)
  show ?thesis
  proof (cases once)
    case True
    let ?t = "?s\<lparr>repeat_message := Some m, repeat_fd := fd\<rparr>"
    have "repeat_inv (setitimer (min_remaining_gap (store ?s p)) ?t)"
      using i idle by (intro setitimer_inv) (simp_all add: repeat_inv_def)
    then show ?thesis using assms(3) True by (simp add: begin_repeat_def Let_def)
  next
    case False
    obtain ok1 s1 where w: "send_success fd m ?s = (ok1, s1)" by fastforce
    have f: "same_repeat ?s s1" using unchanged.send_success [OF w, of ?s] by simp
    show ?thesis
    proof (cases ok1)
      case True
      have "repeat_inv (setitimer (min_remaining_gap (store s1 p)) s1)"
        using f i idle same_repeat_inv [OF f] by (intro setitimer_inv) (simp_all add: same_repeat_def)
      then show ?thesis using assms(3) False True w by (simp add: begin_repeat_def Let_def)
    next
      case bad: False
      have "repeat_inv (s1\<lparr>repeat_remote := None, repeat_code := None\<rparr>)"
        using f i idle by (simp add: same_repeat_def repeat_inv_def)
      then show ?thesis using assms(3) False bad w by (simp add: begin_repeat_def Let_def)
    qed
  qed
qed

lemma send_core_inv: "send_core d fd m a once s = Some (ok, s') \<Longrightarrow> repeat_inv s \<Longrightarrow> repeat_inv s'"
proof -
  assume c: "send_core d fd m a once s = Some (ok, s')" and i: "repeat_inv s"
  show "repeat_inv s'"
  proof (cases "send_mode (hw s) = 0")
    case True
    then show ?thesis using c kept.send_error i by (simp add: send_core_def)
  next
    case False
    then obtain res s1 where p: "parse_rc fd m a once 2 s = Some (res, s1)"
      using c by (auto simp: send_core_def split: bind_splits)
    have i1: "repeat_inv s1" using kept.parse_rc [OF p i] .
    show ?thesis
    proof (cases res)
      case (Inl ok1)
      then show ?thesis using c False p i1 by (simp add: send_core_def)
    next
      case (Inr x)
      obtain q j k where x: "x = (Some q, Some j, k)"
        using c False p Inr by (cases x) (auto simp: send_core_def split: option.splits)
      let ?s = "s1\<lparr>store := (store s1)(q := prepare_send (store s1 q) j)\<rparr>"
      show ?thesis
      proof (cases "repeat_remote s1")
        case (Some y)
        then show ?thesis using c False p Inr x i1 kept.send_error by (auto simp: send_core_def split: if_splits)
      next
        case None
        obtain ok2 s2 where b: "send_button d q j ?s = Some (ok2, s2)"
          using c False p Inr x None by (auto simp: send_core_def split: bind_splits)
        have f: "same_repeat s1 s2" using send_button_frame(1) [OF b] by (simp add: same_repeat_def)
        have i2: "repeat_inv s2" "repeat_remote s2 = None"
          using same_repeat_inv [OF f] f i1 None by (simp_all add: same_repeat_def)
        let ?n = "note_sent q j once k s2"
        have i3: "repeat_inv ?n" "repeat_remote ?n = None"
          using same_repeat_inv [OF note_sent_frame [of s2 q j once k]] note_sent_frame [of s2 q j once k] i2
          by (simp_all add: same_repeat_def)
        show ?thesis
          using c False p Inr x None b begin_repeat_inv [OF i3] kept.send_error [OF _ i2(1)]
            kept.send_success [OF _ i3(1)]
          by (auto simp: send_core_def split: if_splits bind_splits)
      qed
    qed
  qed
qed

lemma stop_repeat_inv: "repeat_inv s \<Longrightarrow> repeat_inv (stop_repeat p s)"
  by (auto simp: stop_repeat_def setitimer_def repeat_inv_def Let_def)

lemma send_stop_inv: "send_stop fd m a s = Some (ok, s') \<Longrightarrow> repeat_inv s \<Longrightarrow> repeat_inv s'"
  by (auto simp: send_stop_def
      split: bind_splits prod.splits if_splits option.splits sum.splits
      dest!: kept.parse_rc intro: kept.send_error kept.send_success stop_repeat_inv)

lemma run_line_inv: "run_line d v fd line s = Some (ok, s') \<Longrightarrow> repeat_inv s \<Longrightarrow> repeat_inv s'"
  by (auto simp: run_line_def run_directive_def send_once_def send_start_def split: option.splits if_splits
      intro: kept.list_command send_core_inv send_stop_inv kept.version kept.set_transmitters
        kept.simulate kept.send_error)

section \<open>The timer and the old configuration\<close>

lemma same_repeat_deinit [simp]: "same_repeat s (deinit_unused d s')  = same_repeat s s'"
  by (simp add: same_repeat_def)

lemma end_repeat_inv:
  assumes "end_repeat d s = Some s'" "timer s = None"
  shows "repeat_inv (s'\<lparr>alrm_flag := False\<rparr>)"
proof (cases "repeat_fd s = - 1")
  case True
  then have "s' = deinit_unused d (s\<lparr>repeat_remote := None, repeat_code := None\<rparr>)"
    using assms(1) by (simp add: end_repeat_def)
  then show ?thesis using assms(2) True by (simp add: repeat_inv_def)
next
  case False
  let ?s = "s\<lparr>repeat_remote := None, repeat_code := None\<rparr>"
  obtain m ok s1 where w: "send_success (repeat_fd s) m ?s = (ok, s1)"
    and s': "s' = deinit_unused d (s1\<lparr>repeat_message := None, repeat_fd := - 1\<rparr>)"
    using assms(1) False by (auto simp: end_repeat_def split: bind_splits prod.splits)
  have "same_repeat ?s s1" using unchanged.send_success [OF w, of ?s] by simp
  then show ?thesis using assms(2) s' by (simp add: same_repeat_def repeat_inv_def)
qed

lemma interrupt_repeat_inv:
  assumes "interrupt_repeat d s = Some s'" "timer s = None"
  shows "repeat_inv (s'\<lparr>alrm_flag := False\<rparr>)"
proof -
  obtain s1 where s1: "same_repeat s s1"
    and s': "s' = deinit_unused d (s1\<lparr>repeat_remote := None, repeat_code := None, repeat_message := None, repeat_fd := - 1\<rparr>)"
  proof (cases "repeat_fd s = - 1")
    case True
    then show ?thesis using that [of s] assms(1) by (simp add: interrupt_repeat_def)
  next
    case False
    then obtain m ok s2 where w: "send_error (repeat_fd s) m (''repeating interrupted'' @ endl) s = Some (ok, s2)"
      and s': "s' = deinit_unused d (s2\<lparr>repeat_remote := None, repeat_code := None, repeat_message := None, repeat_fd := - 1\<rparr>)"
      using assms(1) by (auto simp: interrupt_repeat_def split: bind_splits)
    show ?thesis using that [OF _ s'] unchanged.send_error [OF w, of s] by simp
  qed
  then show ?thesis using assms(2) by (simp add: same_repeat_def repeat_inv_def)
qed

lemma dosigalrm_inv:
  assumes "dosigalrm d s = Some s'" "alrm_flag s" "repeat_inv s"
  shows "repeat_inv (s'\<lparr>alrm_flag := False\<rparr>)"
proof -
  have t: "timer s = None" using assms(2,3) by (simp add: repeat_inv_def)
  obtain p where p: "repeat_remote s = Some p" using assms(1) by (auto simp: dosigalrm_def split: bind_splits)
  show ?thesis
  proof (cases "last_code (store s p) = repeat_code s")
    case False
    then show ?thesis using assms(1) p t interrupt_repeat_inv by (simp add: dosigalrm_def)
  next
    case True
    then obtain i c where i: "repeat_code s = Some i" and c: "ncode_at (store s p) i = Some c"
      using assms(1) p by (auto simp: dosigalrm_def split: bind_splits)
    define u where "u = (if sequence_done c
      then s\<lparr>store := (store s)(p := (store s p)\<lparr>repeat_countdown := i32 (repeat_countdown (store s p) - 1)\<rparr>)\<rparr> else s)"
    have u: "same_repeat s u" by (simp add: u_def same_repeat_def)
    obtain ok s1 where b: "send_button d p i u = Some (ok, s1)"
      and s': "(if ok \<and> repeat_countdown (store s1 p) > 0
        then Some (setitimer (min_remaining_gap (store s1 p)) s1) else end_repeat d s1) = Some s'"
      using assms(1) p True i c by (auto simp: dosigalrm_def u_def [symmetric] split: bind_splits)
    have f: "same_repeat s s1" using u send_button_frame(1) [OF b] by (simp add: same_repeat_def)
    then have i1: "repeat_inv (s1\<lparr>alrm_flag := False\<rparr>)" "repeat_remote s1 \<noteq> None" "timer s1 = None"
      using assms(3) p t by (simp_all add: same_repeat_def repeat_inv_def)
    have "setitimer x s1\<lparr>alrm_flag := False\<rparr> = setitimer x (s1\<lparr>alrm_flag := False\<rparr>)" for x
      by (simp add: setitimer_def)
    then show ?thesis
      using s' i1 setitimer_inv [OF i1(1)] end_repeat_inv by (auto split: if_splits)
  qed
qed

lemma map_repeat_inv: "map_repeat s = Some (used, s') \<Longrightarrow> repeat_inv s \<Longrightarrow> repeat_inv s'"
  by (auto simp: map_repeat_def repeat_inv_def split: option.splits if_splits bind_splits)

lemma fired_inv: "timer s \<noteq> None \<Longrightarrow> repeat_inv s \<Longrightarrow> repeat_inv (s\<lparr>timer := None, alrm_flag := True\<rparr>)"
  by (auto simp: repeat_inv_def)

interpretation repeating: daemon_invariant repeat_inv
  by unfold_locales
    (fact run_line_inv dosigalrm_inv fired_inv map_repeat_inv)+

section \<open>The daemon as a state machine\<close>

text \<open>The steps between which the handlers run: signals are handled, the time to wait is computed,
  \<open>select\<close> returns while signals arrive, what is due is done, and clients, peers and new connections are
  served. What decodes a signal and delivers it leaves the six variables alone.\<close>

inductive step :: "'d driver \<Rightarrow> build \<Rightarrow> ('d, 'z) lircd_srv_scheme \<Rightarrow> ('d, 'z) lircd_srv_scheme \<Rightarrow> bool"
  for d :: "'d driver" and b :: build where
  handled: "handle_signals d b unset files s = Some s' \<Longrightarrow> step d b s s'"
| waits: "select_timeout maxusec s = (tv, start, reconnect, s') \<Longrightarrow> step d b s s'"
| arrived: "step d b s (deliver_signals a s)"
| selected: "after_select d maxusec start rt reconnect timed_out s = Some (rest, s') \<Longrightarrow> step d b s s'"
| served: "serve d b unset a s = Some (data, s') \<Longrightarrow> step d b s s'"
| delivered: "input_message d m False s = Some s' \<Longrightarrow> step d b s s'"
| elsewhere: "same_repeat s s' \<Longrightarrow> step d b s s'"

inductive_cases stepE: "step d b s s'"

lemma step_inv: "step d b s s' \<Longrightarrow> repeat_inv s \<Longrightarrow> repeat_inv s'"
  by (erule stepE)
    (auto intro: repeating.handle_signals repeating.select_timeout repeating.deliver_signals
      repeating.after_select repeating.serve kept.input_message dest: same_repeat_inv)

lemma waitfordata_steps:
  "waitfordata d b unset files maxusec as s = Some (r, as', s') \<Longrightarrow> (step d b)\<^sup>*\<^sup>* s s'"
proof (induction d b unset files maxusec as s rule: waitfordata.induct)
  case (1 d b unset files maxusec s)
  then show ?case by simp
next
  case (2 d b unset files maxusec a as s)
  obtain s1 where s1: "handle_signals d b unset files s = Some s1"
    using 2(3) by (auto split: bind_splits)
  obtain tv start rc s2 where s2: "select_timeout maxusec s1 = (tv, start, rc, s2)" by (metis prod_cases4)
  let ?a = "reported s2 a"
  obtain rest s3 where s3: "after_select d maxusec start (get_release_time s2) rc
      (\<not> a_intr ?a \<and> a_ready ?a = [] \<and> a_accept ?a = [] \<and> \<not> a_hw ?a) (deliver_signals ?a s2) = Some (rest, s3)"
    using 2(3) s1 s2 by (auto split: bind_splits)
  have "(step d b)\<^sup>*\<^sup>* s s3"
    using step.handled [OF s1] step.waits [OF s2] step.arrived step.selected [OF s3]
    by (meson rtranclp.rtrancl_into_rtrancl rtranclp.rtrancl_refl)
  moreover have "(step d b)\<^sup>*\<^sup>* s3 s'"
  proof (cases rest)
    case None
    then show ?thesis using 2(3) s1 s2 s3 by simp
  next
    case (Some m)
    show ?thesis
    proof (cases "a_intr ?a")
      case True
      then show ?thesis using 2(1,3) s1 s2 s3 Some by (auto simp del: waitfordata.simps simp: waitfordata.simps(2))
    next
      case False
      obtain data s4 where s4: "serve d b unset ?a s3 = Some (data, s4)"
        using 2(3) s1 s2 s3 Some False by (auto split: bind_splits)
      have "(step d b)\<^sup>*\<^sup>* s4 s'"
        using 2(2,3) s1 s2 s3 Some False s4 by (cases data) auto
      then show ?thesis using step.served [OF s4] by (rule converse_rtranclp_into_rtranclp [rotated])
    qed
  qed
  ultimately show ?case by (rule rtranclp_trans)
qed

text \<open>C7: The handler of the timer never finds a repetition without a remote, a button or, for a client
  that waits, its command: from the start of the daemon on, through all commands, timers, changes of
  the configuration and connections, \<open>dosigalrm\<close> runs only while all of them are set, and while the
  timer is not running.\<close>

theorem alarm_finds_repeat:
  assumes "(step d b)\<^sup>*\<^sup>* s0 s"
    and "timer s0 = None" "\<not> alrm_flag s0" "repeat_remote s0 = None" "repeat_code s0 = None" "repeat_fd s0 = - 1"
    and "alrm_flag s"
  shows "timer s = None \<and> (\<exists>p i. repeat_remote s = Some p \<and> repeat_code s = Some i) \<and>
     (repeat_fd s \<noteq> - 1 \<longrightarrow> repeat_message s \<noteq> None)"
proof -
  have "repeat_inv s0" using assms(2-6) by (simp add: repeat_inv_def)
  with assms(1) have "repeat_inv s" by (induction rule: rtranclp_induct) (auto dest: step_inv)
  then show ?thesis using assms(7) by (auto simp: repeat_inv_def)
qed

definition demo_build :: build where
  "demo_build = \<lparr>b_version = ''0.9'', b_default_file = ''new'', b_old_file = ''old''\<rparr>"

definition demo_answer :: answer where
  "demo_answer = \<lparr>a_hup = False, a_alrm = True, a_intr = False, a_ready = [5], a_accept = [], a_hw = False\<rparr>"

lemma alarm_finds_repeat_witness:
  "\<exists>s p i. (step default_driver demo_build)\<^sup>*\<^sup>*
     ((demo_server [tiny_remote] [5])\<lparr>incoming := (\<lambda>_. [Some (''SEND_START A B'' @ endl)])\<rparr>) s \<and>
     alrm_flag s \<and> repeat_remote s = Some p \<and> repeat_code s = Some i"
proof -
  let ?d = default_driver and ?b = demo_build and ?a = demo_answer
  let ?start = "(demo_server [tiny_remote] [5])\<lparr>incoming := (\<lambda>_. [Some (''SEND_START A B'' @ endl)])\<rparr>"
  have "map_option (\<lambda>(data, s). timer s) (serve ?d ?b (\<lambda>_. 0) ?a ?start) = Some (Some 100)" by code_simp
  then obtain data s1 where s1: "serve ?d ?b (\<lambda>_. 0) ?a ?start = Some (data, s1)" "timer s1 = Some 100" by auto
  have i0: "timer ?start = None" "\<not> alrm_flag ?start" "repeat_remote ?start = None" "repeat_code ?start = None" "repeat_fd ?start = - 1"
    by (simp_all add: demo_server_def)
  let ?s = "deliver_signals ?a s1"
  have st: "(step ?d ?b)\<^sup>*\<^sup>* ?start ?s"
    using step.served [OF s1(1)] step.arrived [of ?d ?b s1 ?a]
    by (meson rtranclp.rtrancl_into_rtrancl rtranclp.rtrancl_refl)
  have al: "alrm_flag ?s" using s1(2) by (simp add: deliver_signals_def demo_answer_def)
  from alarm_finds_repeat [OF st i0 al] st al show ?thesis by blast
qed

end
