(* ===== verification/Repetition.thy ===== *)
theory Repetition
  imports RepeatInvariant TxBounds
begin

text \<open>
  A repetition ends. What a driver has to do for this is a locale: it sends without a fault, keeps
  the button and does not raise the number of repeats that are left. The default driver does.
\<close>

section \<open>What a transmission keeps\<close>

definition transmittable :: "bool \<Rightarrow> ir_remote \<Rightarrow> ir_ncode \<Rightarrow> sbuf \<Rightarrow> bool" where
  "transmittable rep r c b \<longleftrightarrow>
     \<not> is_raw r \<and> \<not> is_xmp r \<and> sequence_ok c \<and> (sdata b = Own_data \<or> \<not> (rep \<and> has_repeat r)) \<and>
     i32_range (repeat_countdown r)"

definition sent_from :: "ir_remote \<Rightarrow> ir_ncode \<Rightarrow> ir_remote \<times> ir_ncode \<times> sbuf \<Rightarrow> bool" where
  "sent_from r c res \<longleftrightarrow>
     (case res of (r', c', b') \<Rightarrow>
        same_kind r r' \<and> repeat_countdown r' \<le> repeat_countdown r \<and> i32_range (repeat_countdown r') \<and>
        last_code r' = last_code r \<and> codes r' = codes r \<and> nc_nodes c' = nc_nodes c \<and> sequence_ok c' \<and>
        sdata b' = Own_data)"

lemma sent_from_next:
  assumes "transmittable rep r c b" "sent_from r c (r', c', b')"
  shows "transmittable rep' r' c' b'"
  using assms by (auto simp: transmittable_def sent_from_def same_kind_def)

lemma sent_from_trans: "sent_from r c (r', c', b') \<Longrightarrow> sent_from r' c' res \<Longrightarrow> sent_from r c res"
  by (auto simp: sent_from_def same_kind_def split: prod.splits)

fun round_state :: "send_round \<Rightarrow> ir_remote \<times> ir_ncode \<times> sbuf" where
  "round_state (Round_fail r c b) = (r, c, b)"
| "round_state (Round_ready r c b) = (r, c, b)"
| "round_state (Round_again r c b) = (r, c, b)"

lemma send_frame_kept:
  "send_frame sim rep r c b = (ok, r', b') \<Longrightarrow> last_code r' = last_code r \<and> codes r' = codes r"
  by (auto simp: send_frame_def toggle_after_send_def split: if_splits option.splits)

lemma set_remaining_gap_kept:
  "set_remaining_gap rep r b = (ok, r') \<Longrightarrow> last_code r' = last_code r \<and> codes r' = codes r"
  by (auto simp: set_remaining_gap_def split: if_splits)

lemma join_signal_kept:
  "join_signal r c b = Some (r', b') \<Longrightarrow> last_code r' = last_code r \<and> codes r' = codes r"
  by (auto simp: join_signal_def split: bind_splits if_splits)

lemma round_kept:
  assumes t: "transmittable rep r c b" and s: "send_round_of sim rep r c b = Some rd"
  shows "sent_from r c (round_state rd)"
proof -
  have r: "\<not> is_raw r" "\<not> is_xmp r" "sequence_ok c" "sdata b = Own_data \<or> \<not> (rep \<and> has_repeat r)"
      "i32_range (repeat_countdown r)"
    using t by (simp_all add: transmittable_def)
  obtain ok r1 b1 where f: "send_frame sim rep r c b = (ok, r1, b1)" by (cases "send_frame sim rep r c b") auto
  note o = send_frame_own [OF f r(1,4)] send_frame_kept [OF f]
  let ?b = "sync_send_buffer b1"
  have b: "sdata ?b = Own_data" using o by (intro pointer.sync) simp
  have s1: "sent_from r c (r1, c, ?b)" using o b r(3,5) by (simp add: sent_from_def)
  show ?thesis
  proof (cases "bad_send_buffer ?b \<or> sim")
    case True
    then show ?thesis using s f o s1 by (auto simp: send_round_of_def Let_def split: if_splits)
  next
    case False
    obtain ok2 r2 where g: "set_remaining_gap rep r1 ?b = (ok2, r2)" by (cases "set_remaining_gap rep r1 ?b")
    note k = set_remaining_gap_kind [OF g] set_remaining_gap_kept [OF g]
    let ?c = "update_transmit_state r2 c"
    have x: "\<not> is_xmp r2" using k o r(2) by (auto simp: same_kind_def)
    have c: "nc_nodes ?c = nc_nodes c" "sequence_ok ?c"
      using r(3) x by (cases rule: update_transmit_state_cases, auto)+
    have s2: "sent_from r c (r2, c, ?b)" "sent_from r c (r2, ?c, ?b)"
      using s1 k c by (auto simp: sent_from_def same_kind_def)
    show ?thesis
    proof (cases "ok2 \<and> join_next r2 ?c")
      case True
      have "i32_range (repeat_countdown r2)" using s2 by (simp add: sent_from_def)
      then obtain r3 b3 where j: "join_signal r2 ?c ?b = Some (r3, b3)" "sdata b3 = Own_data" "same_kind r2 r3"
          "i32_range (repeat_countdown r3)"
          "((nat (repeat_countdown r3), rest_of_sequence ?c), (nat (repeat_countdown r2), rest_of_sequence c)) \<in> progress"
        using join_signal_progress [OF r(3) x _ b] True by auto
      have "repeat_countdown r3 \<le> repeat_countdown r2"
      proof -
        have "repeat_countdown r3 = repeat_countdown r2 \<or> repeat_countdown r3 = i32 (repeat_countdown r2 - 1)"
          using j(1) by (auto simp: join_signal_def split: bind_splits if_splits)
        moreover have "nc_nodes ?c = [] \<or> nc_transmit_state ?c = None \<Longrightarrow> 0 < repeat_countdown r2"
          using True c(2) by (auto simp: join_next_def sequence_ok_def split: option.splits)
        ultimately show ?thesis
          using j(1,4) \<open>i32_range (repeat_countdown r2)\<close>
          by (auto simp: join_signal_def i32_range_def split: bind_splits if_splits)
      qed
      then have "sent_from r2 ?c (r3, ?c, b3)"
        using j c(2) join_signal_kept [OF j(1)] by (simp add: sent_from_def)
      with s2(2) have "sent_from r c (r3, ?c, b3)" by (rule sent_from_trans)
      then show ?thesis using s f o g j(1) False True by (auto simp: send_round_of_def Let_def)
    next
      case jn: False
      then show ?thesis
        using s f o g False s2 by (cases ok2) (auto simp: send_round_of_def Let_def)
    qed
  qed
qed

lemma send_loop_kept:
  assumes "send_loop sim rep r c b = Some res" "transmittable rep r c b"
  shows "sent_from r c (snd res)"
proof -
  have "transmittable rep r c b \<longrightarrow> sent_from r c (snd res)"
    using assms(1)
  proof (rule send_loop.raw_induct [where P = "\<lambda>sim rep r c b res. transmittable rep r c b \<longrightarrow> sent_from r c (snd res)", rotated])
    fix loop sim rep r c b res
    assume h: "\<And>sim rep r c b res. loop sim rep r c b = Some res \<Longrightarrow> transmittable rep r c b \<longrightarrow> sent_from r c (snd res)"
      and e: "Option.bind (send_round_of sim rep r c b)
       (\<lambda>rd. case rd of
          Round_fail r c b \<Rightarrow> Some (False, r, c, b)
        | Round_ready r c b \<Rightarrow> Option.bind (check_send_buffer b) (\<lambda>ok. Some (ok, r, c, b))
        | Round_again r c b \<Rightarrow> loop sim True r c b) = Some res"
    show "transmittable rep r c b \<longrightarrow> sent_from r c (snd res)"
    proof
      assume t: "transmittable rep r c b"
      obtain rd where rd: "send_round_of sim rep r c b = Some rd"
        using e by (cases "send_round_of sim rep r c b") auto
      note k = round_kept [OF t rd]
      show "sent_from r c (snd res)"
      proof (cases rd)
        case (Round_fail r1 c1 b1)
        then show ?thesis using e rd k by auto
      next
        case (Round_ready r1 c1 b1)
        then show ?thesis using e rd k by (auto simp: bind_eq_Some_conv)
      next
        case (Round_again r1 c1 b1)
        then have "loop sim True r1 c1 b1 = Some res" "sent_from r c (r1, c1, b1)" using e rd k by auto
        then show ?thesis using h sent_from_next [OF t] sent_from_trans by blast
      qed
    qed
  qed
  then show ?thesis using assms(2) by simp
qed

lemma init_send_kept:
  assumes "\<not> is_raw r" "\<not> is_xmp r" "sequence_ok c" "sdata b = Own_data \<or> \<not> has_repeat r"
    "i32_range (repeat_countdown r)"
  shows "\<exists>ok r' c' b'. init_send True r c b = Some (ok, r', c', b') \<and>
     (sent_from r c (r', c', b') \<or> (\<not> ok \<and> r' = r \<and> c' = c \<and> b' = b))"
proof (cases "is_grundig r \<or> is_goldstar r \<or> is_serial r \<or> is_bo r")
  case True
  then have "init_send True r c b = Some (False, r, c, b)" by (simp add: init_send_def init_send_or_sim_def)
  then show ?thesis by blast
next
  case False
  let ?b = "if is_biphase r then (clear_send_buffer b)\<lparr>sis_biphase := True\<rparr> else clear_send_buffer b"
  have t: "transmittable True r c ?b"
    using assms by (auto simp: transmittable_def clear_send_buffer_def)
  then obtain res where "send_loop False True r c ?b = Some res"
    using send_loop_total [of r c ?b True False] by (auto simp: transmittable_def)
  then show ?thesis
    using send_loop_kept [OF _ t] False
    by (cases res) (fastforce simp: init_send_def init_send_or_sim_def Let_def)
qed

section \<open>The contract of a driver\<close>

locale sender =
  fixes d :: "'d driver" and fit :: "hardware \<Rightarrow> ir_remote \<Rightarrow> nat \<Rightarrow> 'd \<Rightarrow> bool"
  assumes sends: "fit h r i dv \<Longrightarrow> \<exists>ok r' dv'. send_func d True h r i dv = Some (ok, r', dv')"
    and keeps: "fit h r i dv \<Longrightarrow> send_func d True h r i dv = Some (ok, r', dv') \<Longrightarrow>
      fit h r' i dv' \<and> repeat_countdown r' \<le> repeat_countdown r \<and> last_code r' = last_code r"
    and repeats: "fit h r i dv \<Longrightarrow> i32_range k \<Longrightarrow> fit h (r\<lparr>repeat_countdown := k\<rparr>) i dv"
    and noted: "fit h r i dv \<Longrightarrow> fit h (r\<lparr>last_send := t, last_code := Some i\<rparr>) i dv"
    and single: "fit h r i dv \<Longrightarrow> \<exists>c. ncode_at r i = Some c \<and> nc_nodes c = []"
    and counted: "fit h r i dv \<Longrightarrow> i32_range (repeat_countdown r)"
begin

text \<open>The repetition of a button that the driver can send, with repeats left.\<close>

definition repeats_button :: "addr \<Rightarrow> nat \<Rightarrow> ('d, 'z) lircd_srv_scheme \<Rightarrow> bool" where
  "repeats_button p i s \<longleftrightarrow>
     repeat_remote s = Some p \<and> repeat_code s = Some i \<and> last_code (store s p) = Some i \<and>
     fit (hw s) (store s p) i (drv s)"

lemma send_button_repeats:
  assumes "repeats_button p i s"
  obtains ok s' where "send_button d p i s = Some (ok, s')" "repeats_button p i s'"
    "repeat_countdown (store s' p) \<le> repeat_countdown (store s p)"
proof -
  have f: "fit (hw s) (store s p) i (drv s)" "repeat_remote s = Some p" "repeat_code s = Some i"
      "last_code (store s p) = Some i"
    using assms by (simp_all add: repeats_button_def)
  obtain ok r dv where r: "send_func d True (hw s) (store s p) i (drv s) = Some (ok, r, dv)"
    using sends [OF f(1)] by blast
  note k = keeps [OF f(1) r]
  obtain pause s1 where s1: "send_pause p i s = (pause, s1)" by fastforce
  then have p: "store s1 = store s" "drv s1 = drv s" "hw s1 = hw s" "repeat_remote s1 = Some p" "repeat_code s1 = Some i"
    using f by (auto simp: send_pause_def gettimeofday_def Let_def split: if_splits)
  let ?s = "s1\<lparr>store := (store s)(p := r), drv := dv\<rparr>"
  have e: "send_button d p i s = Some (ok, if ok
      then let (now, t) = gettimeofday ?s in set_remote p ((store t p)\<lparr>last_send := now, last_code := Some i\<rparr>) t
      else ?s)"
    using p r s1
    by (cases ok) (simp_all add: send_button_def send_ir_ncode_def driver_send_def Let_def gettimeofday_def)
  show ?thesis
    using k p f(4) noted [of "hw s" r i dv]
    by (intro that [OF e]) (auto simp: repeats_button_def gettimeofday_def set_remote_def Let_def split: prod.splits)
qed

end

section \<open>The end of a repetition\<close>

text \<open>The timer fires up to \<open>n\<close> times, each time its handler runs, as long as it is set.\<close>

fun alarms :: "'d driver \<Rightarrow> nat \<Rightarrow> ('d, 'z) lircd_srv_scheme \<Rightarrow> ('d, 'z) lircd_srv_scheme option" where
  "alarms d 0 s = Some s"
| "alarms d (Suc n) s =
     (if timer s = None then Some s
      else do { s \<leftarrow> dosigalrm d (s\<lparr>timer := None, alrm_flag := True\<rparr>); alarms d n (s\<lparr>alrm_flag := False\<rparr>) })"

lemma alarms_idle [simp]: "timer s = None \<Longrightarrow> alarms d n s = Some s"
  by (cases n) simp_all

text \<open>The repetition for the client \<open>fd\<close> with the command \<open>m\<close> is over and the client has its answer.\<close>

definition success_texts :: "string \<Rightarrow> string list" where
  "success_texts m = filter (\<lambda>t. t \<noteq> []) [P_BEGIN, m, P_SUCCESS, P_END]"

definition answered :: "int \<Rightarrow> string \<Rightarrow> ('d, 'z) lircd_srv_scheme \<Rightarrow> ('d, 'z) lircd_srv_scheme \<Rightarrow> bool" where
  "answered fd m s s' \<longleftrightarrow>
     repeat_remote s' = None \<and> repeat_code s' = None \<and> repeat_fd s' = - 1 \<and> repeat_message s' = None \<and>
     sent s' = sent s @ map (Pair fd) (success_texts m)"

text \<open>The timer was not set again, because the gap is out of the range of \<open>setitimer\<close>.\<close>

definition stalled :: "('d, 'z) lircd_srv_scheme \<Rightarrow> bool" where
  "stalled s \<longleftrightarrow>
     (\<exists>p. repeat_remote s = Some p \<and>
        (min_remaining_gap (store s p) \<le> 0 \<or> min_remaining_gap (store s p) \<ge> 1000000))"

lemma end_repeat_reply:
  assumes "repeat_fd s = fd" "fd \<noteq> - 1" "repeat_message s = Some m" "all_written s" "timer s = None"
  shows "\<exists>s'. end_repeat d s = Some s' \<and> answered fd m s s' \<and> timer s' = None"
  using assms(1-3,5) write_all_written [of "s\<lparr>repeat_remote := None, repeat_code := None\<rparr>" fd
      "[P_BEGIN, m, P_SUCCESS, P_END]"] assms(4)
  by (simp add: end_repeat_def send_success_def answered_def all_written_def success_texts_def)

context sender begin

lemma one_alarm:
  assumes r: "repeats_button p i s" "0 < repeat_countdown (store s p)"
    and c: "repeat_fd s = fd" "fd \<noteq> - 1" "repeat_message s = Some m" "all_written s" and t: "timer s = None"
  obtains (ended) s' where "dosigalrm d s = Some s'" "answered fd m s s'" "timer s' = None"
  | (again) s' where "dosigalrm d s = Some s'" "repeats_button p i s'" "0 < repeat_countdown (store s' p)"
      "repeat_countdown (store s' p) < repeat_countdown (store s p)" "repeat_fd s' = fd" "repeat_message s' = Some m"
      "all_written s'" "sent s' = sent s" "timer s' = None \<longrightarrow> stalled s'"
proof -
  let ?k = "repeat_countdown (store s p)"
  have f: "fit (hw s) (store s p) i (drv s)" "repeat_remote s = Some p" "repeat_code s = Some i"
      "last_code (store s p) = Some i"
    using r(1) by (simp_all add: repeats_button_def)
  obtain b where b: "ncode_at (store s p) i = Some b" "nc_nodes b = []" using single [OF f(1)] by blast
  have "i32_range (?k - 1)" using counted [OF f(1)] r(2) by (simp add: i32_range_def)
  let ?s = "s\<lparr>store := (store s)(p := (store s p)\<lparr>repeat_countdown := ?k - 1\<rparr>)\<rparr>"
  have "repeats_button p i ?s"
    using f repeats [OF f(1) \<open>i32_range (?k - 1)\<close>] by (simp add: repeats_button_def)
  then obtain ok s1 where s1: "send_button d p i ?s = Some (ok, s1)" "repeats_button p i s1"
      "repeat_countdown (store s1 p) \<le> repeat_countdown (store ?s p)"
    by (rule send_button_repeats)
  note same = send_button_frame [OF s1(1)]
  have e: "dosigalrm d s = (if ok \<and> repeat_countdown (store s1 p) > 0
      then Some (setitimer (min_remaining_gap (store s1 p)) s1) else end_repeat d s1)"
    using f b s1(1) \<open>i32_range (?k - 1)\<close> by (simp add: dosigalrm_def sequence_done_def)
  have k: "repeat_fd s1 = fd" "repeat_message s1 = Some m" "all_written s1" "timer s1 = None" "sent s1 = sent s"
    using same c t by (simp_all add: same_repeat_def all_written_def)
  show ?thesis
  proof (cases "ok \<and> repeat_countdown (store s1 p) > 0")
    case True
    let ?t = "setitimer (min_remaining_gap (store s1 p)) s1"
    have "repeats_button p i ?t" "timer ?t = None \<longrightarrow> stalled ?t"
      using s1(2) k(4) by (auto simp: repeats_button_def setitimer_def stalled_def)
    moreover have "dosigalrm d s = Some ?t" using e True by simp
    ultimately show ?thesis
      using True s1(3) k by (intro again [of ?t]) (simp_all add: setitimer_def all_written_def)
  next
    case False
    obtain s2 where "end_repeat d s1 = Some s2" "answered fd m s1 s2" "timer s2 = None"
      using end_repeat_reply [OF k(1) c(2) k(2,3,4)] by blast
    then show ?thesis using ended [of s2] e False k(5) by (simp add: answered_def)
  qed
qed

lemma repetition_runs_out:
  assumes "repeats_button p i s" "0 < repeat_countdown (store s p)" "repeat_countdown (store s p) \<le> int n"
    "repeat_fd s = fd" "fd \<noteq> - 1" "repeat_message s = Some m" "all_written s" "timer s \<noteq> None"
  shows "\<exists>s'. alarms d n s = Some s' \<and> timer s' = None \<and>
     (answered fd m s s' \<or> stalled s' \<and> sent s' = sent s)"
  using assms
proof (induction n arbitrary: s)
  case 0
  then show ?case by simp
next
  case (Suc n)
  let ?s = "s\<lparr>timer := None, alrm_flag := True\<rparr>"
  have q: "repeats_button p i ?s" "all_written ?s"
    using Suc.prems by (simp_all add: repeats_button_def all_written_def)
  show ?case
  proof (rule one_alarm [OF q(1) _ _ Suc.prems(5) _ q(2), of m])
    show "0 < repeat_countdown (store ?s p)" "repeat_fd ?s = fd" "repeat_message ?s = Some m" "timer ?s = None"
      using Suc.prems by simp_all
  next
    fix s1 assume "dosigalrm d ?s = Some s1" "answered fd m ?s s1" "timer s1 = None"
    then show ?thesis using Suc.prems(8) by (auto simp: answered_def)
  next
    fix s1
    assume a: "dosigalrm d ?s = Some s1" "repeats_button p i s1" "0 < repeat_countdown (store s1 p)"
      "repeat_countdown (store s1 p) < repeat_countdown (store ?s p)" "repeat_fd s1 = fd" "repeat_message s1 = Some m"
      "all_written s1" "sent s1 = sent ?s" "timer s1 = None \<longrightarrow> stalled s1"
    let ?t = "s1\<lparr>alrm_flag := False\<rparr>"
    show ?thesis
    proof (cases "timer s1 = None")
      case True
      then show ?thesis using a Suc.prems(8) by (auto simp: stalled_def)
    next
      case False
      have "\<exists>s'. alarms d n ?t = Some s' \<and> timer s' = None \<and>
          (answered fd m ?t s' \<or> stalled s' \<and> sent s' = sent ?t)"
        using a Suc.prems(3,5) False
        by (intro Suc.IH) (simp_all add: repeats_button_def all_written_def)
      then show ?thesis using a Suc.prems(8) by (auto simp: answered_def)
    qed
  qed
qed

end

section \<open>The default driver\<close>

definition default_fit :: "hardware \<Rightarrow> ir_remote \<Rightarrow> nat \<Rightarrow> default_dev \<Rightarrow> bool" where
  "default_fit h r i d \<longleftrightarrow>
     \<not> is_raw r \<and> \<not> is_xmp r \<and> i32_range (repeat_countdown r) \<and>
     (sdata (dev_buf d) = Own_data \<or> \<not> has_repeat r) \<and>
     (case ncode_at r i of None \<Rightarrow> False | Some c \<Rightarrow> nc_nodes c = [] \<and> nc_transmit_state c = None)"

lemma write_own:
  "sdata (dev_buf d) = Own_data \<Longrightarrow> \<exists>ok d'. write_send_buffer d = Some (ok, d') \<and> dev_buf d' = dev_buf d"
  by (auto simp: write_send_buffer_def buffer_samples_def)

lemma default_send_fit:
  assumes "default_fit h r i d"
  obtains ok r' d' where "default_send True h r i d = Some (ok, r', d')" "default_fit h r' i d'"
    "repeat_countdown r' \<le> repeat_countdown r" "last_code r' = last_code r"
proof -
  obtain c where c: "ncode_at r i = Some c" "nc_nodes c = []" "nc_transmit_state c = None"
    using assms by (auto simp: default_fit_def split: option.splits)
  have r: "\<not> is_raw r" "\<not> is_xmp r" "i32_range (repeat_countdown r)" "sdata (dev_buf d) = Own_data \<or> \<not> has_repeat r"
      "sequence_ok c"
    using assms c by (auto simp: default_fit_def sequence_ok_def)
  let ?refused = "default_send True h r i d = Some (False, r, d)"
  show ?thesis
  proof (cases ?refused)
    case True
    then show ?thesis using that [OF True assms] by simp
  next
    case False
    obtain ok r1 c1 b1 where s: "init_send True r c (dev_buf d) = Some (ok, r1, c1, b1)"
      and k: "sent_from r c (r1, c1, b1) \<or> (\<not> ok \<and> r1 = r \<and> c1 = c \<and> b1 = dev_buf d)"
      using init_send_kept [OF r(1,2,5,4,3)] by blast
    let ?r = "put_code i c1 r1" and ?d = "d\<lparr>dev_buf := b1\<rparr>"
    have b: "ok \<longrightarrow> sdata b1 = Own_data" using k by (auto simp: sent_from_def)
    obtain ok2 d2 where w: "ok \<longrightarrow> write_send_buffer ?d = Some (ok2, d2) \<and> dev_buf d2 = b1"
      using b write_own [of ?d] by (cases ok) fastforce+
    have e: "default_send True h r i d = (if ok then Some (ok2, ?r, d2) else Some (False, ?r, ?d))"
      using False s w c(1) by (cases ok) (auto simp: default_send_def Let_def split: if_splits)
    have q: "codes r1 = codes r" "nc_nodes c1 = []" "nc_transmit_state c1 = None" "\<not> is_raw r1" "\<not> is_xmp r1"
        "i32_range (repeat_countdown r1)" "last_code r1 = last_code r" "repeat_countdown r1 \<le> repeat_countdown r"
        "sdata b1 = Own_data \<or> \<not> has_repeat r1"
      using k c r by (auto simp: sent_from_def same_kind_def sequence_ok_def split: option.splits)
    obtain cs where cs: "codes r = Some cs" "i < length cs" "cs ! i = c"
      using c(1) by (auto simp: ncode_at_def split: option.splits if_splits)
    have "ncode_at ?r i = Some c1" using q(1) cs by (simp add: ncode_at_def put_code_def)
    then have f: "default_fit h ?r i x" if "dev_buf x = b1" for x
      using q that by (simp add: default_fit_def put_code_def ir_preds)
    show ?thesis
      using q(7,8) e w f by (cases ok) (auto intro!: that simp: put_code_def)
  qed
qed

interpretation lirc_device: sender default_driver default_fit
proof unfold_locales
  fix h r i dv ok r' dv'
  assume f: "default_fit h r i dv"
  show "\<exists>ok r' dv'. send_func default_driver True h r i dv = Some (ok, r', dv')"
    using default_send_fit [OF f] by (fastforce simp: default_driver_def)
  assume "send_func default_driver True h r i dv = Some (ok, r', dv')"
  then show "default_fit h r' i dv' \<and> repeat_countdown r' \<le> repeat_countdown r \<and> last_code r' = last_code r"
    using default_send_fit [OF f] by (fastforce simp: default_driver_def)
qed (auto simp: default_fit_def ncode_at_def ir_preds split: option.splits)

text \<open>C8: With the default driver a repetition for a waiting client comes to its end after at most as many
  signals of the timer as repeats are left: no step faults, and either the client has its reply and
  nothing is repeated any more, or the timer stands still because \<open>setitimer\<close> refused the gap. The remote is
  neither raw nor of the XMP protocol, the button has one code and no sequence (each code of a sequence would use up
  a signal of the timer), the pointer of the transmit buffer is set or there is no repeat signal
  (\<open>default_fit\<close>), all writes to clients succeed, and the timer is running.\<close>

theorem repetition_ends:
  assumes "repeat_remote s = Some p" "repeat_code s = Some i" "last_code (store s p) = Some i"
    and "default_fit (hw s) (store s p) i (drv s)" "0 < repeat_countdown (store s p)"
    and "repeat_fd s = fd" "fd \<noteq> - 1" "repeat_message s = Some m" "all_written s" "timer s \<noteq> None"
  shows "\<exists>s'. alarms default_driver (nat (repeat_countdown (store s p))) s = Some s' \<and> timer s' = None \<and>
     (answered fd m s s' \<or> stalled s' \<and> sent s' = sent s)"
proof (rule lirc_device.repetition_runs_out)
  show "lirc_device.repeats_button p i s" using assms by (simp add: lirc_device.repeats_button_def)
qed (use assms in auto)

definition repeating_server :: "default_dev lircd_srv" where
  "repeating_server =
     (demo_server [tiny_remote\<lparr>repeat_countdown := 2, last_code := Some 0\<rparr>] [5])
       \<lparr>repeat_remote := Some 0, repeat_code := Some 0, repeat_fd := 5, repeat_message := Some ''c'',
        timer := Some 100\<rparr>"

lemma repetition_ends_witness:
  "\<exists>s'. alarms default_driver 2 repeating_server = Some s' \<and>
     (answered 5 ''c'' repeating_server s' \<or> stalled s' \<and> sent s' = [])"
proof -
  have "default_fit demo_hw (tiny_remote\<lparr>repeat_countdown := 2, last_code := Some 0\<rparr>) 0 demo_dev" by code_simp
  then have "\<exists>s'. alarms default_driver (nat (repeat_countdown (store repeating_server 0))) repeating_server = Some s' \<and>
     timer s' = None \<and> (answered 5 ''c'' repeating_server s' \<or> stalled s' \<and> sent s' = sent repeating_server)"
    by (intro repetition_ends) (simp_all add: repeating_server_def demo_server_def all_written_def)
  then show ?thesis by (auto simp: repeating_server_def demo_server_def)
qed

text \<open>A remote whose gap is a second or more cannot be repeated: \<open>setitimer\<close> refuses the interval, so
  the client of \<open>SEND_ONCE\<close> is neither answered nor listened to any more, however often the timer might
  fire, and the repetition that blocks all others never ends.\<close>

theorem slow_gap_blocks:
  assumes "begin_repeat fd m True p i s = (ok, s')" "timer s = None"
    and "min_remaining_gap (store s p) \<le> 0 \<or> min_remaining_gap (store s p) \<ge> 1000000"
  shows "ok \<and> alarms d n s' = Some s' \<and> repeat_remote s' = Some p \<and> fd \<notin> set (watched s') \<and> sent s' = sent s"
proof -
  have "timer s' = None" "ok" "repeat_remote s' = Some p" "repeat_fd s' = fd" "sent s' = sent s"
    using assms by (auto simp: begin_repeat_def setitimer_def Let_def)
  then show ?thesis by (simp add: watched_def)
qed

lemma slow_gap_blocks_witness:
  "alarms default_driver 600 (snd (begin_repeat 5 ''c'' True 0 0 (demo_server [tiny_remote\<lparr>min_remaining_gap := 1000000\<rparr>] [5]))) =
     Some (snd (begin_repeat 5 ''c'' True 0 0 (demo_server [tiny_remote\<lparr>min_remaining_gap := 1000000\<rparr>] [5])))"
proof -
  let ?s = "demo_server [tiny_remote\<lparr>min_remaining_gap := 1000000\<rparr>] [5]"
  have "timer ?s = None" "min_remaining_gap (store ?s 0) \<ge> 1000000" by (simp_all add: demo_server_def)
  then show ?thesis
    using slow_gap_blocks [of 5 "''c''" 0 0 ?s _ _ default_driver 600] by (metis prod.collapse)
qed

section \<open>Stopping\<close>

text \<open>What answers a client writes to that client only.\<close>

definition only_to :: "int \<Rightarrow> ('d, 'z) lircd_srv_scheme \<Rightarrow> ('d, 'z) lircd_srv_scheme \<Rightarrow> bool" where
  "only_to fd s s' \<longleftrightarrow> (\<exists>ts. sent s' = sent s @ map (Pair fd) ts)"

lemma only_to_refl [simp]: "sent s' = sent s \<Longrightarrow> only_to fd s s'"
  by (simp add: only_to_def)

lemma only_to_trans: "only_to fd s t \<Longrightarrow> only_to fd t u \<Longrightarrow> only_to fd s u"
  unfolding only_to_def by (metis append.assoc map_append)

lemma write_all_only: "write_all fd ts s = (ok, s') \<Longrightarrow> only_to fd s s'"
proof (induction ts arbitrary: s)
  case Nil
  then show ?case by simp
next
  case (Cons t ts)
  obtain ok1 s1 where w: "write_socket fd t s = (ok1, s1)" by fastforce
  have "only_to fd s s1" using w by (auto simp: write_socket_def only_to_def split: if_splits intro: exI [of _ "[t]"])
  then show ?case using Cons w by (auto simp: write_all.simps split: if_splits intro: only_to_trans)
qed

lemma send_success_only: "send_success fd m s = (ok, s') \<Longrightarrow> only_to fd s s'"
  unfolding send_success_def by (rule write_all_only)

lemma send_error_only: "send_error fd m t s = Some (ok, s') \<Longrightarrow> only_to fd s s'"
  by (simp add: send_error_def Let_def write_all_only split: if_splits)

lemma refuse_only: "refuse fd m t s = Some (res, s') \<Longrightarrow> only_to fd s s'"
  using send_error_only by (auto simp: refuse_def)

lemma parse_rc_only: "parse_rc fd m a w n s = Some (res, s') \<Longrightarrow> only_to fd s s'"
  unfolding parse_rc_def
  by (auto simp: arg_check_def split: list.splits option.splits bind_splits sum.splits if_splits intro: refuse_only)

text \<open>C40: \<open>SEND_STOP\<close> forgets the client that waits for the end of its \<open>SEND_ONCE\<close>: the repetition is
  over, but its descriptor and its command stay, so that it gets no reply and \<open>select\<close> is not
  told of it any more.\<close>

theorem stopped_client_forgotten:
  assumes "send_stop fd m a s = Some (ok, s')" "repeat_remote s \<noteq> None" "repeat_remote s' = None"
  shows "repeat_fd s' = repeat_fd s \<and> repeat_message s' = repeat_message s \<and> timer s' = None \<and> \<not> alrm_flag s' \<and>
     repeat_fd s \<notin> set (watched s') \<and> only_to fd s s'"
proof -
  obtain res s1 where p: "parse_rc fd m a False 0 s = Some (res, s1)"
    using assms(1) by (auto simp: send_stop_def split: bind_splits)
  have s1: "same_repeat s s1" "only_to fd s s1"
    using unchanged.parse_rc [OF p, of s] parse_rc_only [OF p] by simp_all
  then have r1: "repeat_remote s1 \<noteq> None" using assms(2) by (simp add: same_repeat_def)
  have err: False if "send_error fd m t s1 = Some (ok, s')" for t
    using unchanged.send_error [OF that, of s1] assms(3) r1 by (simp add: same_repeat_def)
  obtain rm cd k where res: "res = Inr (rm, cd, k)"
    using assms(1,3) p r1 by (cases res) (auto simp: send_stop_def)
  obtain q i where qi: "repeat_remote s1 = Some q" "repeat_code s1 = Some i"
    using assms(1) p res r1 err by (auto simp: send_stop_def split: option.splits)
  have w: "send_success fd m (stop_repeat q s1) = (ok, s')"
    using assms(1) p res qi err by (auto simp: send_stop_def split: bind_splits option.splits)
  note f = unchanged.send_success [OF w, of "stop_repeat q s1", simplified]
  have "stop_repeat q s1 = (setitimer 0 s1)\<lparr>store := (store s1)(q := (store s1 q)\<lparr>toggle_mask_state := 0\<rparr>),
      repeat_remote := None, repeat_code := None, alrm_flag := False\<rparr>"
    using f assms(3) qi by (simp add: same_repeat_def stop_repeat_def Let_def split: if_splits)
  then have "repeat_fd s' = repeat_fd s1 \<and> repeat_message s' = repeat_message s1 \<and> timer s' = None \<and> \<not> alrm_flag s'"
      "only_to fd s1 (stop_repeat q s1)"
    using f by (simp_all add: same_repeat_def setitimer_def)
  moreover have "only_to fd s s'"
    using s1(2) \<open>only_to fd s1 _\<close> send_success_only [OF w] by (blast intro: only_to_trans)
  ultimately show ?thesis using s1(1) by (simp add: same_repeat_def watched_def)
qed

lemma stopped_client_forgotten_witness:
  "\<exists>s'. send_stop 6 ''SEND_STOP A B'' (Some ''A B'') (repeating_server\<lparr>clis := [5, 6]\<rparr>) = Some (True, s') \<and>
     timer s' = None \<and> repeat_remote s' = None \<and> 5 \<notin> set (watched s') \<and> repeat_fd s' = 5"
proof -
  let ?t = "repeating_server\<lparr>clis := [5, 6]\<rparr>"
  have "map_option (\<lambda>(ok, s). (ok, repeat_remote s)) (send_stop 6 ''SEND_STOP A B'' (Some ''A B'') ?t) = Some (True, None)"
    by code_simp
  then obtain s' where s': "send_stop 6 ''SEND_STOP A B'' (Some ''A B'') ?t = Some (True, s')" "repeat_remote s' = None"
    by auto
  have "repeat_remote ?t \<noteq> None" "repeat_fd ?t = 5" by (simp_all add: repeating_server_def)
  with stopped_client_forgotten [OF s'(1) this(1) s'(2)] s' show ?thesis by auto
qed

end
