(* ===== verification/ReloadFacts.thy ===== *)
theory ReloadFacts
  imports Repetition
begin

text \<open>
  A change of the configuration: the old list of remotes is freed only when the repeated and the
  held button have found their place in the new one.
\<close>

section \<open>Two lists\<close>

text \<open>The list in use and the old list are allocated and have no remote in common.\<close>

definition lists_ok :: "('d, 'z) lircd_srv_scheme \<Rightarrow> bool" where
  "lists_ok s \<longleftrightarrow>
     (\<forall>p \<in> set (remotes s). p < next_addr s \<and> p \<notin> set (free_remotes s)) \<and>
     (\<forall>p \<in> set (free_remotes s). p < next_addr s) \<and> distinct (remotes s)"

interpretation lists: outside_invariant lists_ok
  by unfold_locales (auto simp: lists_ok_def init_rec_buffer_def new_remotes_def Let_def)

interpretation addresses: command_invariant
  "\<lambda>s. remotes s = rs \<and> free_remotes s = fs \<and> next_addr s = n" for rs fs n
  by unfold_locales simp_all

lemma lists_line: "run_line d v fd l s = Some (ok, s') \<Longrightarrow> lists_ok s \<Longrightarrow> lists_ok s'"
  using addresses.run_line [of d v fd l s ok s' "remotes s" "free_remotes s" "next_addr s"] by (simp add: lists_ok_def)

lemma lists_alarm: "dosigalrm d s = Some s' \<Longrightarrow> alrm_flag s \<Longrightarrow> lists_ok s \<Longrightarrow> lists_ok (s'\<lparr>alrm_flag := False\<rparr>)"
  using addresses.dosigalrm [of d s s' "remotes s" "free_remotes s" "next_addr s"] by (simp add: lists_ok_def)

lemma lists_fired: "timer s \<noteq> None \<Longrightarrow> lists_ok s \<Longrightarrow> lists_ok (s\<lparr>timer := None, alrm_flag := True\<rparr>)"
  by (simp add: lists_ok_def)

lemma map_repeat_frame:
  "map_repeat s = Some (used, s') \<Longrightarrow>
     remotes s' = remotes s \<and> free_remotes s' = free_remotes s \<and> next_addr s' = next_addr s \<and> rel s' = rel s \<and>
     decoding s' = decoding s \<and> last_remote s' = last_remote s"
  by (auto simp: map_repeat_def split: option.splits if_splits bind_splits)

lemma lists_mapped: "map_repeat s = Some (used, s') \<Longrightarrow> lists_ok s \<Longrightarrow> lists_ok s'"
  using map_repeat_frame [of s used s'] by (simp add: lists_ok_def)

interpretation lists: daemon_invariant lists_ok
  by unfold_locales (fact lists_line lists_alarm lists_fired lists_mapped)+

text \<open>However often the configuration is changed while the daemon waits, serves clients and frees old
  lists, the remotes in use and those still to be freed are different, allocated objects.\<close>

theorem waiting_keeps_lists:
  assumes "waitfordata d b unset files maxusec as s = Some (r, as', s')" "lists_ok s"
  shows "lists_ok s'"
  using lists.waitfordata assms by blast

section \<open>The end of the old list\<close>

definition same_pointers :: "('d, 'z) lircd_srv_scheme \<Rightarrow> ('d, 'z) lircd_srv_scheme \<Rightarrow> bool" where
  "same_pointers s s' \<longleftrightarrow>
     remotes s' = remotes s \<and> free_remotes s' = free_remotes s \<and> decoding s' = decoding s \<and>
     repeat_remote s' = repeat_remote s \<and> repeat_code s' = repeat_code s \<and> last_remote s' = last_remote s \<and>
     rel s' = rel s \<and> store s' = store s"

interpretation pointers: connection_invariant "same_pointers s0" for s0
  by unfold_locales (simp_all add: same_pointers_def)

lemma same_pointers_refl [simp]: "same_pointers s s"
  by (simp add: same_pointers_def)

lemma release_message_out_frame:
  assumes "release_message_out d ev s = Some s'" "release_remote2 (rel s) = None"
  shows "same_pointers s s'"
proof -
  have "input_message d m True s = Some (deliver d m True s)" for m
    using assms(2) by (subst input_message.simps) (simp add: check_release_event_def)
  then show ?thesis
    using assms(1) pointers.broadcast [of s s]
    by (auto simp: release_message_out_def deliver_def split: option.splits prod.splits if_splits)
qed

lemma get_ir_remote_in: "get_ir_remote st ps n = Some q \<Longrightarrow> q \<in> set ps"
  by (auto simp: get_ir_remote_def find_Some_iff)

lemma release_map_remotes_points:
  assumes "release_map_remotes old new s = Some (ev, s')" "set old \<inter> set new = {}"
  shows "release_remote2 (rel s') = None" "release_remote (rel s') = Some p \<Longrightarrow> p \<notin> set old"
    "remotes s' = remotes s \<and> free_remotes s' = free_remotes s \<and> decoding s' = decoding s \<and>
     repeat_remote s' = repeat_remote s \<and> repeat_code s' = repeat_code s \<and> last_remote s' = last_remote s"
  using assms unfolding disjoint_iff
  by (auto simp: release_map_remotes_def trigger_release_event_def is_in_remotes_def Let_def
      split: option.splits bind_splits if_splits dest: get_ir_remote_in)

lemma find_new_in: "find_new new st p nc = Some (Some (q, i)) \<Longrightarrow> q \<in> set new"
  by (auto simp: find_new_def dest: get_ir_remote_in split: option.splits bind_splits)

lemma map_last_remote_frame:
  "map_last_remote s = Some s' \<Longrightarrow>
     remotes s' = remotes s \<and> free_remotes s' = free_remotes s \<and> decoding s' = decoding s \<and>
     repeat_remote s' = repeat_remote s \<and> repeat_code s' = repeat_code s \<and> rel s' = rel s"
  by (auto simp: map_last_remote_def split: option.splits if_splits bind_splits)

lemma map_repeat_points:
  assumes "map_repeat s = Some (False, s')" "set (free_remotes s) \<inter> set (remotes s) = {}"
  shows "repeat_remote s' = Some p \<Longrightarrow> p \<notin> set (free_remotes s)"
  using assms unfolding disjoint_iff
  by (fastforce dest: find_new_in simp: map_repeat_def is_in_remotes_def split: option.splits if_splits bind_splits)

text \<open>The last remote finds its place only when its names are in the new list.\<close>

lemma map_last_remote_points:
  assumes "map_last_remote s = Some s'" "set (free_remotes s) \<inter> set (remotes s) = {}"
    "last_remote s' = Some p" "p \<in> set (free_remotes s)"
  shows "last_remote s = Some p \<and> (\<exists>found. find_new (remotes s) (store s) p (last_code (store s p)) = Some found \<and>
     (\<forall>q i. found \<noteq> Some (q, Some i)))"
  using assms unfolding disjoint_iff
  by (fastforce dest: find_new_in simp: map_last_remote_def is_in_remotes_def split: option.splits if_splits bind_splits prod.splits)

text \<open>C9: When \<open>free_old_remotes\<close> frees the old list, no signal of it is being decoded, and neither the
  repeated signal nor the held button nor the one whose release is pending belongs to it any more.\<close>

theorem freed_list_unused:
  assumes "free_old_remotes d s = Some s'" "lists_ok s" "free_remotes s \<noteq> []" "free_remotes s' = []"
  shows "remotes s' = remotes s \<and> decoding s' \<noteq> free_remotes s \<and> release_remote2 (rel s') = None \<and>
     (\<forall>p. repeat_remote s' = Some p \<or> release_remote (rel s') = Some p \<longrightarrow> p \<notin> set (free_remotes s))"
proof -
  have disjoint: "set (free_remotes s) \<inter> set (remotes s) = {}" using assms(2) by (auto simp: lists_ok_def)
  have "decoding s \<noteq> free_remotes s" using assms(1,3,4) by (auto simp: free_old_remotes_def)
  then obtain ev s1 s2 s3 used s4
    where 1: "release_map_remotes (free_remotes s) (remotes s) s = Some (ev, s1)"
      and 2: "release_message_out d ev s1 = Some s2" and 3: "map_last_remote s2 = Some s3"
      and 4: "map_repeat s3 = Some (used, s4)"
      and s': "s' = (if \<not> used \<and> decoding s4 \<noteq> free_remotes s4 then s4\<lparr>free_remotes := []\<rparr> else s4)"
    using assms(1) by (auto simp: free_old_remotes_def split: bind_splits)
  note r = release_map_remotes_points [OF 1 disjoint]
  note f2 = release_message_out_frame [OF 2 r(1)]
  note f3 = map_last_remote_frame [OF 3]
  note f4 = map_repeat_frame [OF 4]
  have lists: "remotes s3 = remotes s" "free_remotes s3 = free_remotes s" "decoding s3 = decoding s"
    "rel s3 = rel s1"
    using r(3) f2 f3 by (simp_all add: same_pointers_def)
  have "\<not> used" "s' = s4\<lparr>free_remotes := []\<rparr>"
    using s' assms(3,4) f4 lists by (auto split: if_splits)
  then show ?thesis
    using map_repeat_points [of s3 s4] 4 lists disjoint f4 r(1,2) \<open>decoding s \<noteq> free_remotes s\<close> by auto
qed

definition reloaded_server :: "default_dev lircd_srv" where
  "reloaded_server =
     (demo_server [tiny_remote\<lparr>repeat_countdown := 300, last_code := Some 0\<rparr>, tiny_remote] [5])
       \<lparr>remotes := [1], free_remotes := [0], repeat_remote := Some 0, repeat_code := Some 0, timer := Some 100\<rparr>"

lemma freed_list_unused_witness:
  "\<exists>s'. free_old_remotes default_driver reloaded_server = Some s' \<and> repeat_remote s' = Some 1 \<and>
     1 \<notin> set (free_remotes reloaded_server) \<and> release_remote2 (rel s') = None"
proof -
  have "map_option (\<lambda>s. (free_remotes s, repeat_remote s)) (free_old_remotes default_driver reloaded_server) =
      Some ([], Some 1)" by code_simp
  then obtain s' where s': "free_old_remotes default_driver reloaded_server = Some s'" "free_remotes s' = []"
      "repeat_remote s' = Some 1" by auto
  have "lists_ok reloaded_server" "free_remotes reloaded_server \<noteq> []"
    by (simp_all add: lists_ok_def reloaded_server_def demo_server_def)
  with freed_list_unused [OF s'(1) this s'(2)] s' show ?thesis by blast
qed

lemma waiting_keeps_lists_witness:
  "\<exists>r as' s'. waitfordata default_driver \<lparr>b_version = ''0.9'', b_default_file = ''new'', b_old_file = ''old''\<rparr>
     (\<lambda>_. 0) (\<lambda>_. None) 1 [\<lparr>a_hup = False, a_alrm = False, a_intr = False, a_ready = [], a_accept = [], a_hw = False\<rparr>]
     reloaded_server = Some (r, as', s') \<and> lists_ok s'"
proof -
  let ?w = "waitfordata default_driver \<lparr>b_version = ''0.9'', b_default_file = ''new'', b_old_file = ''old''\<rparr>
     (\<lambda>_. 0) (\<lambda>_. None) 1 [\<lparr>a_hup = False, a_alrm = False, a_intr = False, a_ready = [], a_accept = [], a_hw = False\<rparr>]
     reloaded_server"
  have "map_option fst ?w = Some False" by code_simp
  then obtain r as' s' where w: "?w = Some (r, as', s')" by auto
  have "lists_ok reloaded_server" by (simp add: lists_ok_def reloaded_server_def demo_server_def)
  from waiting_keeps_lists [OF w this] w show ?thesis by blast
qed

section \<open>What gets lost\<close>

lemma release_map_remotes_names:
  "release_map_remotes old new s = Some (ev, s') \<Longrightarrow> name (store s' p) = name (store s p)"
  by (auto simp: release_map_remotes_def trigger_release_event_def Let_def
      split: option.splits bind_splits if_splits)

lemma get_ir_remote_cong:
  "(\<And>p. name (st p) = name (st' p)) \<Longrightarrow> get_ir_remote st ps n = get_ir_remote st' ps n"
  by (simp add: get_ir_remote_def)

text \<open>A last remote whose name is not in the new configuration is kept as the last remote although
  the list it belongs to is freed: \<open>last_remote\<close> points to freed memory.\<close>

theorem last_remote_dangles:
  assumes "free_old_remotes d s = Some s'" "free_remotes s \<noteq> []" "free_remotes s' = []"
    and "last_remote s = Some p" "p \<in> set (free_remotes s)"
    and "get_ir_remote (store s) (remotes s) (name (store s p)) = None"
  shows "last_remote s' = Some p \<and> p \<notin> set (free_remotes s')"
proof -
  have "decoding s \<noteq> free_remotes s" using assms(1-3) by (auto simp: free_old_remotes_def)
  then obtain ev s1 s2 s3 used s4
    where 1: "release_map_remotes (free_remotes s) (remotes s) s = Some (ev, s1)"
      and 2: "release_message_out d ev s1 = Some s2" and 3: "map_last_remote s2 = Some s3"
      and 4: "map_repeat s3 = Some (used, s4)" and s': "last_remote s' = last_remote s4"
    using assms(1) by (auto simp: free_old_remotes_def split: bind_splits)
  have r: "release_remote2 (rel s1) = None" "remotes s1 = remotes s" "free_remotes s1 = free_remotes s"
      "last_remote s1 = last_remote s"
    using 1 by (auto simp: release_map_remotes_def trigger_release_event_def Let_def
        split: option.splits bind_splits if_splits)
  have n: "name (store s2 q) = name (store s q)" for q
    using release_message_out_frame [OF 2 r(1)] release_map_remotes_names [OF 1] by (simp add: same_pointers_def)
  have "find_new (remotes s2) (store s2) p (last_code (store s2 p)) = Some None"
    using assms(6) get_ir_remote_cong [OF n] n release_message_out_frame [OF 2 r(1)] r
    by (simp add: find_new_def same_pointers_def)
  then have "last_remote s3 = Some p"
    using 3 assms(4,5) release_message_out_frame [OF 2 r(1)] r
    by (auto simp: map_last_remote_def same_pointers_def is_in_remotes_def)
  then show ?thesis using map_repeat_frame [OF 4] s' assms(3) by simp
qed

lemma last_remote_dangles_witness:
  "\<exists>s'. free_old_remotes default_driver
     ((demo_server [tiny_remote, tiny_remote\<lparr>name := ''N''\<rparr>] [])\<lparr>remotes := [1], free_remotes := [0], last_remote := Some 0\<rparr>) =
     Some s' \<and> last_remote s' = Some 0 \<and> free_remotes s' = []"
proof -
  let ?t = "(demo_server [tiny_remote, tiny_remote\<lparr>name := ''N''\<rparr>] [])
    \<lparr>remotes := [1], free_remotes := [0], last_remote := Some 0\<rparr>"
  have "map_option free_remotes (free_old_remotes default_driver ?t) = Some []" by code_simp
  then obtain s' where s': "free_old_remotes default_driver ?t = Some s'" "free_remotes s' = []" by auto
  have "get_ir_remote (store ?t) (remotes ?t) (name (store ?t 0)) = None" by code_simp
  moreover have "free_remotes ?t \<noteq> []" "last_remote ?t = Some 0" "0 \<in> set (free_remotes ?t)" by simp_all
  ultimately show ?thesis using last_remote_dangles [OF s'(1) _ s'(2), of 0] s' by simp
qed

lemma end_repeat_stops:
  assumes "repeat_fd s \<noteq> - 1 \<longrightarrow> repeat_message s \<noteq> None"
  shows "\<exists>s'. end_repeat d s = Some s' \<and> repeat_remote s' = None"
proof (cases "repeat_fd s = - 1")
  case True
  then show ?thesis by (simp add: end_repeat_def)
next
  case False
  let ?s = "s\<lparr>repeat_remote := None, repeat_code := None\<rparr>"
  obtain m where m: "repeat_message s = Some m" using assms False by blast
  obtain ok s1 where w: "send_success (repeat_fd s) m ?s = (ok, s1)" by fastforce
  have "same_repeat ?s s1" using unchanged.send_success [OF w, of ?s] by simp
  then show ?thesis using False m w by (simp add: end_repeat_def same_repeat_def)
qed

text \<open>A repeated button is found again in a new configuration, but the number of repeats that are left
  is not taken over: for the freshly read remote it is zero, and the next signal of the timer ends
  the repetition.\<close>

theorem reload_cuts_repetition:
  assumes "map_repeat s = Some (False, s')" "repeat_remote s = Some p" "p \<in> set (free_remotes s)"
    and "repeat_remote s' = Some q" "repeat_code s' = Some i" "repeat_countdown (store s q) = 0"
    and "default_fit (hw s') (store s' q) i (drv s')" "repeat_fd s' \<noteq> - 1 \<longrightarrow> repeat_message s' \<noteq> None"
  shows "\<exists>s''. dosigalrm default_driver s' = Some s'' \<and> repeat_remote s'' = None"
proof -
  have q: "repeat_countdown (store s' q) = 0" "last_code (store s' q) = Some i"
    using assms(1-6) by (auto simp: map_repeat_def is_in_remotes_def keep_state_def split: option.splits if_splits bind_splits)
  then have b: "lirc_device.repeats_button q i s'"
    using assms(4,5,7) by (simp add: lirc_device.repeats_button_def)
  let ?t = "s'\<lparr>store := (store s')(q := (store s' q)\<lparr>repeat_countdown := - 1\<rparr>)\<rparr>"
  have "i32_range (- 1)" by (simp add: i32_range_def)
  then have "lirc_device.repeats_button q i ?t"
    using b lirc_device.repeats [OF assms(7)] by (simp add: lirc_device.repeats_button_def)
  then obtain ok s1 where s1: "send_button default_driver q i ?t = Some (ok, s1)"
      "repeat_countdown (store s1 q) \<le> repeat_countdown (store ?t q)"
    by (rule lirc_device.send_button_repeats)
  obtain c where c: "ncode_at (store s' q) i = Some c" "nc_nodes c = []"
    using lirc_device.single [OF assms(7)] by blast
  have e: "dosigalrm default_driver s' = end_repeat default_driver s1"
    using s1 c q assms(4,5) by (simp add: dosigalrm_def sequence_done_def i32_range_def)
  have "same_repeat ?t s1" using send_button_frame(1) [OF s1(1)] .
  then have m: "repeat_fd s1 \<noteq> - 1 \<longrightarrow> repeat_message s1 \<noteq> None" using assms(8) by (simp add: same_repeat_def)
  have "\<exists>s''. end_repeat default_driver s1 = Some s'' \<and> repeat_remote s'' = None"
    using end_repeat_stops m by blast
  then show ?thesis using e by simp
qed

lemma reload_cuts_repetition_witness:
  "\<exists>s' s''. map_repeat reloaded_server = Some (False, s') \<and> dosigalrm default_driver s' = Some s'' \<and> repeat_remote s'' = None"
proof -
  let ?v = "\<lambda>(u, s). (u, repeat_remote s, repeat_code s, default_fit (hw s) (store s 1) 0 (drv s), repeat_fd s)"
  have "map_option ?v (map_repeat reloaded_server) = Some (False, Some 1, Some 0, True, - 1)" by code_simp
  then obtain s' where s': "map_repeat reloaded_server = Some (False, s')" "repeat_remote s' = Some 1"
    "repeat_code s' = Some 0" "default_fit (hw s') (store s' 1) 0 (drv s')" "repeat_fd s' = - 1" by auto
  have "repeat_remote reloaded_server = Some 0" "0 \<in> set (free_remotes reloaded_server)"
    "repeat_countdown (store reloaded_server 1) = 0"
    by (simp_all add: reloaded_server_def demo_server_def tiny_remote_def remote0_def)
  from reload_cuts_repetition [OF s'(1) this(1,2) s'(2,3) this(3) s'(4)] s' show ?thesis by auto
qed

end
