(* ===== verification/RcModes.thy ===== *)
theory RcModes
  imports CText
begin

text \<open>
  The client library, \<open>tools/lirc_client.c\<close>: the entries of a \<open>.lircrc\<close> file and how button presses
  become the strings for a program (\<open>lirc_code2char\<close>). An entry has a sequence of codes, a list of
  strings, and a position in each: the pointers \<open>next_code\<close> and \<open>next_config\<close> are indices, \<open>None\<close> for
  NULL. The names that may be NULL are options; \<open>LIRC_ALL\<close> is the wildcard \<open>(char *)(-1)\<close>, which faults
  when it is handed to \<open>strcasecmp\<close>.
\<close>

section \<open>Entries\<close>

datatype rc_name = LIRC_ALL | Named string

record lirc_code =
  lc_remote :: rc_name
  lc_button :: rc_name

record lirc_config_entry =
  en_prog :: "string option"
  en_code :: "lirc_code list"
  en_rep_delay :: u32
  en_rep :: u32
  en_config :: "string list"
  en_change_mode :: "string option"
  en_flags :: u32
  en_mode :: "string option"
  en_next_config :: "nat option"
  en_next_code :: "nat option"

record lirc_config =
  cf_mode :: "string option"
  cf_next :: "nat option"
  cf_first :: "lirc_config_entry list"
  cf_sockfd :: int

definition rc_once :: u32 where [flag_defs]: "rc_once = 0x01"
definition rc_quit :: u32 where [flag_defs]: "rc_quit = 0x02"
definition rc_mode :: u32 where [flag_defs]: "rc_mode = 0x04"
definition rc_ecno :: u32 where [flag_defs]: "rc_ecno = 0x08"
definition rc_startup_mode :: u32 where [flag_defs]: "rc_startup_mode = 0x10"
definition rc_toggle_reset :: u32 where [flag_defs]: "rc_toggle_reset = 0x20"

definition has_flag :: "u32 \<Rightarrow> lirc_config_entry \<Rightarrow> bool" where
  "has_flag f e \<longleftrightarrow> en_flags e AND f \<noteq> 0"

definition entry0 :: lirc_config_entry where
  "entry0 = \<lparr>en_prog = None, en_code = [], en_rep_delay = 0, en_rep = 0, en_config = [],
     en_change_mode = None, en_flags = 0, en_mode = None, en_next_config = None, en_next_code = None\<rparr>"

text \<open>The first element of a list, and the next one: \<open>NULL\<close> at the end.\<close>

definition first_of :: "'a list \<Rightarrow> nat option" where
  "first_of xs = (if xs = [] then None else Some 0)"

definition next_of :: "'a list \<Rightarrow> nat \<Rightarrow> nat option" where
  "next_of xs i = (if Suc i < length xs then Some (Suc i) else None)"

section \<open>Modes\<close>

text \<open>The startup mode: the first entry with that flag and a mode, which loses its mode; otherwise the
  mode with the name of the program. The flag \<open>ecno\<close> marks entries that have already been run for
  the mode.\<close>

fun take_startup_mode :: "lirc_config_entry list \<Rightarrow> string option \<times> lirc_config_entry list" where
  "take_startup_mode [] = (None, [])"
| "take_startup_mode (e # es) =
     (if has_flag rc_startup_mode e \<and> en_change_mode e \<noteq> None
      then (en_change_mode e, e\<lparr>en_change_mode := None\<rparr> # es)
      else case take_startup_mode es of (m, es) \<Rightarrow> (m, e # es))"

definition same_mode :: "string \<Rightarrow> string option \<Rightarrow> bool" where
  "same_mode m o' \<longleftrightarrow> (case o' of None \<Rightarrow> False | Some t \<Rightarrow> strcaseeq m t)"

definition mark_startup :: "string \<Rightarrow> lirc_config_entry \<Rightarrow> lirc_config_entry" where
  "mark_startup m e =
     (if has_flag rc_once e \<and> same_mode m (en_change_mode e) then e\<lparr>en_flags := en_flags e OR rc_ecno\<rparr> else e)"

definition lirc_startupmode ::
  "string option \<Rightarrow> lirc_config_entry list \<Rightarrow> (string option \<times> lirc_config_entry list) option" where
  "lirc_startupmode lirc_prog es =
     (case take_startup_mode es of
        (Some m, es) \<Rightarrow> Some (Some m, map (mark_startup m) es)
      | (None, es) \<Rightarrow>
          if \<forall>e \<in> set es. en_mode e = None then Some (None, es)
          else do {
            p \<leftarrow> lirc_prog;
            Some (if \<exists>e \<in> set es. same_mode p (en_mode e) then (Some p, map (mark_startup p) es) else (None, es)) })"

definition lirc_clearmode :: "lirc_config \<Rightarrow> lirc_config" where
  "lirc_clearmode c =
     (case cf_mode c of
        None \<Rightarrow> c
      | Some m \<Rightarrow>
          c\<lparr>cf_first := map (\<lambda>e. if same_mode m (en_change_mode e)
                                 then e\<lparr>en_flags := en_flags e AND NOT rc_ecno\<rparr> else e) (cf_first c),
            cf_mode := None\<rparr>)"

text \<open>\<open>lirc_execute\<close> for the entry with index \<open>i\<close>: the string for the program, if it gets one.\<close>

definition lirc_execute ::
  "string option \<Rightarrow> lirc_config \<Rightarrow> nat \<Rightarrow> string option \<times> lirc_config" where
  "lirc_execute lirc_prog c i =
     (let c = (if has_flag rc_mode (cf_first c ! i) then lirc_clearmode c else c);
          e = cf_first c ! i;
          changes = (en_change_mode e \<noteq> None);
          c = (if changes then c\<lparr>cf_mode := en_change_mode e\<rparr> else c);
          do_once = \<not> (changes \<and> has_flag rc_once e \<and> has_flag rc_ecno e);
          e = (if changes \<and> has_flag rc_once e then e\<lparr>en_flags := en_flags e OR rc_ecno\<rparr> else e);
          runs = (case en_prog e of None \<Rightarrow> False
                  | Some p \<Rightarrow> (case lirc_prog of None \<Rightarrow> True | Some q \<Rightarrow> strcaseeq p q))
      in case en_next_config e of
           Some k \<Rightarrow>
             if runs \<and> do_once
             then (Some (en_config e ! k),
                   c\<lparr>cf_first := (cf_first c)[i := e\<lparr>en_next_config :=
                       (case next_of (en_config e) k of None \<Rightarrow> first_of (en_config e) | j \<Rightarrow> j)\<rparr>]\<rparr>)
             else (None, c\<lparr>cf_first := (cf_first c)[i := e]\<rparr>)
         | None \<Rightarrow> (None, c\<lparr>cf_first := (cf_first c)[i := e]\<rparr>))"

section \<open>Is this the code?\<close>

text \<open>Repeats: the first after \<open>rep_delay\<close>, then every \<open>rep\<close>-th. \<open>rep\<close> is compared as unsigned.\<close>

definition repeat_due :: "lirc_config_entry \<Rightarrow> int \<Rightarrow> bool" where
  "repeat_due e rp \<longleftrightarrow>
     (let r = word_of_int rp :: u32
      in en_rep e > 0 \<and> r > en_rep_delay e \<and> (r - en_rep_delay e - 1) mod en_rep e = 0)"

definition matches_code :: "lirc_code \<Rightarrow> string \<Rightarrow> string \<Rightarrow> bool" where
  "matches_code c rm b \<longleftrightarrow>
     (case lc_remote c of LIRC_ALL \<Rightarrow> True | Named n \<Rightarrow> strcaseeq n rm) \<and>
     (case lc_button c of LIRC_ALL \<Rightarrow> True | Named n \<Rightarrow> strcaseeq n b)"

text \<open>Two names of a sequence: comparing a name with a wildcard faults.\<close>

definition same_name :: "rc_name \<Rightarrow> rc_name \<Rightarrow> bool option" where
  "same_name a b =
     (case a of LIRC_ALL \<Rightarrow> Some True
      | Named m \<Rightarrow> (case b of LIRC_ALL \<Rightarrow> None | Named n \<Rightarrow> Some (strcaseeq m n)))"

definition same_code :: "lirc_code \<Rightarrow> lirc_code \<Rightarrow> bool option" where
  "same_code a b =
     do { r \<leftarrow> same_name (lc_remote a) (lc_remote b);
          if r then same_name (lc_button a) (lc_button b) else Some False }"

text \<open>Does the sequence start with the codes from \<open>k\<close> up to, but without, \<open>i\<close>? The inner loop.\<close>

fun same_codes :: "lirc_code list \<Rightarrow> lirc_code list \<Rightarrow> bool option" where
  "same_codes (p # ps) (n # ns) = do { s \<leftarrow> same_code p n; if s then same_codes ps ns else Some False }"
| "same_codes ps ns = Some True"

text \<open>The loop that looks for the part of the sequence that the last presses, and the new one, have
  entered already. \<open>k\<close> runs up to the position \<open>i\<close>; the result is the new position.\<close>

function rebase :: "lirc_code list \<Rightarrow> nat \<Rightarrow> string \<Rightarrow> string \<Rightarrow> nat \<Rightarrow> nat option" where
  "rebase cs i rm b k =
     (if k > i then Some 0
      else do {
        flag \<leftarrow> same_codes cs (take (i - k) (drop k cs));
        if flag \<and> matches_code (cs ! (i - k)) rm b then Some (Suc (i - k)) else rebase cs i rm b (Suc k) })"
  by pat_completeness auto
termination by (relation "measure (\<lambda>(cs, i, rm, b, k). Suc i - k)") auto

declare rebase.simps [simp del]

text \<open>0: no; 1: a part of the sequence; 2: the code, or the whole sequence.\<close>

definition lirc_iscode ::
  "lirc_config_entry \<Rightarrow> string \<Rightarrow> string \<Rightarrow> int \<Rightarrow> (nat \<times> lirc_config_entry) option" where
  "lirc_iscode e rm b rp =
     (if en_code e = [] then Some (if rp = 0 \<or> repeat_due e rp then 1 else 0, e)
      else do {
        i \<leftarrow> en_next_code e;
        if matches_code (en_code e ! i) rm b then
          let sequence = (length (en_code e) > 1);
              advance = (\<not> sequence \<or> rp = 0);
              n = (if advance then next_of (en_code e) i else Some i)
          in Some (if n = None
                   then (if sequence \<or> rp = 0 \<or> repeat_due e rp then 2 else 0, e\<lparr>en_next_code := Some 0\<rparr>)
                   else (if advance \<and> sequence then 1 else 0, e\<lparr>en_next_code := n\<rparr>))
        else if rp \<noteq> 0 then Some (0, e)
        else do {
          e \<leftarrow> Some (if has_flag rc_toggle_reset e then e\<lparr>en_next_config := first_of (en_config e)\<rparr> else e);
          if i = 0 then Some (0, e)
          else do { j \<leftarrow> rebase (en_code e) i rm b 1; Some (0, e\<lparr>en_next_code := Some j\<rparr>) } } })"

section \<open>From codes to strings\<close>

text \<open>One conversion \<open>%x\<close> of \<open>sscanf\<close>: the value and the rest.\<close>

definition scanf_hex :: "string \<Rightarrow> (int \<times> string) option" where
  "scanf_hex s =
     (let (neg, t) = number_sign (dropWhile is_space_char s);
          t = (case t of
                 CHR ''0'' # x # r \<Rightarrow> if x = CHR ''x'' \<or> x = CHR ''X'' then r else t
               | _ \<Rightarrow> t);
          ds = takeWhile (is_digit 16) t; v = digits_value 16 ds
      in if ds = [] then None
         else Some (if v \<ge> 2 ^ 64 then - 1 else if neg then - v else v, drop (length ds) t))"

definition code_repeat :: "string \<Rightarrow> int option" where
  "code_repeat s = do { (c, r) \<leftarrow> scanf_hex s; (n, r) \<leftarrow> scanf_hex r; Some (i32 n) }"

text \<open>\<open>strtok\<close>: the token and what follows the delimiter behind it.\<close>

definition strtok :: "(char \<Rightarrow> bool) \<Rightarrow> string \<Rightarrow> (string \<times> string) option" where
  "strtok d s =
     (let t = dropWhile d s; w = takeWhile (\<lambda>c. \<not> d c) t
      in if w = [] then None else Some (w, drop (length w + 1) t))"

definition code_names :: "string \<Rightarrow> (string \<times> string) option" where
  "code_names s =
     do { (c, r) \<leftarrow> strtok (\<lambda>c. c = CHR '' '') s; (n, r) \<leftarrow> strtok (\<lambda>c. c = CHR '' '') r;
          (b, r) \<leftarrow> strtok (\<lambda>c. c = CHR '' '') r; (rm, r) \<leftarrow> strtok (\<lambda>c. c = CHR 0x0A) r;
          Some (b, rm) }"

definition in_mode :: "lirc_config \<Rightarrow> lirc_config_entry \<Rightarrow> bool" where
  "in_mode c e \<longleftrightarrow> (case en_mode e of None \<Rightarrow> True | Some m \<Rightarrow> same_mode m (cf_mode c))"

text \<open>The loop over the entries, from the one with index \<open>i\<close> on; \<open>out\<close> is the string found so far
  (with its program), \<open>quitted\<close> the flag \<open>quit_happened\<close>.\<close>

function scan_entries ::
  "string option \<Rightarrow> string \<Rightarrow> string \<Rightarrow> int \<Rightarrow> nat \<Rightarrow> bool \<Rightarrow> (string \<times> string option) option \<Rightarrow> lirc_config \<Rightarrow>
     ((string \<times> string option) option \<times> lirc_config) option" where
  "scan_entries lirc_prog rm b rp i quitted out c =
     (if i < length (cf_first c) then
        (case lirc_iscode (cf_first c ! i) rm b rp of
           None \<Rightarrow> None
         | Some (level, e) \<Rightarrow>
             let c1 = c\<lparr>cf_first := (cf_first c)[i := e]\<rparr>
             in if level > 0 \<and> in_mode c1 e \<and> \<not> quitted then
                  let (s, c2) = (if level > 1 then lirc_execute lirc_prog c1 i else (None, c1));
                      out = map_option (\<lambda>t. (t, en_prog e)) s
                  in if has_flag rc_quit (cf_first c2 ! i)
                     then scan_entries lirc_prog rm b rp (Suc i) True out (c2\<lparr>cf_next := None\<rparr>)
                     else if s \<noteq> None then Some (out, c2\<lparr>cf_next := next_of (cf_first c2) i\<rparr>)
                     else scan_entries lirc_prog rm b rp (Suc i) quitted out c2
                else scan_entries lirc_prog rm b rp (Suc i) quitted out c1)
      else Some (out, c))"
  by pat_completeness auto

lemma cf_first_clear [simp]: "length (cf_first (lirc_clearmode c)) = length (cf_first c)"
  by (simp add: lirc_clearmode_def split: option.splits)

lemma length_execute: "lirc_execute p c i = (s, c') \<Longrightarrow> length (cf_first c') = length (cf_first c)"
  by (auto simp: lirc_execute_def Let_def split: option.splits if_splits)

termination scan_entries
  by (relation "measure (\<lambda>(p, rm, b, rp, i, q, o', c). length (cf_first c) - i)")
    (auto split: if_splits dest!: length_execute [OF sym])

declare scan_entries.simps [simp del]

text \<open>\<open>lirc_code2char_internal\<close>: the string with its program, \<open>None\<close> inside when there is none.\<close>

definition code2char_internal ::
  "string option \<Rightarrow> string \<Rightarrow> lirc_config \<Rightarrow> ((string \<times> string option) option \<times> lirc_config) option" where
  "code2char_internal lirc_prog code c =
     (case code_repeat code of
        None \<Rightarrow> Some (None, c\<lparr>cf_next := first_of (cf_first c)\<rparr>)
      | Some rp \<Rightarrow>
          (case code_names code of
             None \<Rightarrow> Some (None, c)
           | Some (b, rm) \<Rightarrow>
               do { (out, c) \<leftarrow> (case cf_next c of None \<Rightarrow> Some (None, c)
                                | Some i \<Rightarrow> scan_entries lirc_prog rm b rp i False None c);
                    Some (out, if out = None then c\<lparr>cf_next := first_of (cf_first c)\<rparr> else c) }))"

text \<open>\<open>lirc_code2charprog\<close>: for the daemon that serves all programs.\<close>

definition code2charprog ::
  "string \<Rightarrow> lirc_config \<Rightarrow> ((string \<times> string option) option \<times> lirc_config) option" where
  "code2charprog code c = code2char_internal None code c"

end
