(* ===== verification/RcDemo.thy ===== *)
theory RcDemo
  imports RcModes
begin

text \<open>A small \<open>.lircrc\<close> configuration on which the properties of the client library are evaluated.\<close>

definition demo_code :: "string \<Rightarrow> lirc_code" where
  "demo_code b = \<lparr>lc_remote = Named ''tv'', lc_button = Named b\<rparr>"

definition demo_play :: lirc_config_entry where
  "demo_play = entry0\<lparr>en_prog := Some ''vlc'', en_code := [demo_code ''play''], en_rep := 3, en_config := [''on'', ''off''],
     en_next_config := Some 0, en_next_code := Some 0\<rparr>"

definition demo_secret :: lirc_config_entry where
  "demo_secret = entry0\<lparr>en_prog := Some ''vlc'', en_code := [demo_code ''up'', demo_code ''up'', demo_code ''play''],
     en_config := [''secret''], en_next_config := Some 0, en_next_code := Some 0\<rparr>"

definition demo_rc :: lirc_config where
  "demo_rc = \<lparr>cf_mode = None, cf_next = Some 0, cf_first = [demo_play, demo_secret], cf_sockfd = - 1\<rparr>"

lemmas demo_rc_defs = demo_rc_def demo_play_def demo_secret_def demo_code_def entry0_def

end
