(* ===== verification/RcSequence.thy ===== *)
theory RcSequence
  imports RcDemo "HOL-Library.Sublist"
begin

text \<open>
  Sequences of buttons in \<open>.lircrc\<close> entries: \<open>lirc_iscode\<close>, which keeps one position and moves it back when
  a press does not fit, against the plain reading of a sequence, that the last presses are its codes.
\<close>

section \<open>The plain reading\<close>

text \<open>The presses since the sequence was last recognised are \<open>h\<close>; \<open>None\<close> stands for a repeat.\<close>

fun recognised :: "'a list \<Rightarrow> 'a list \<Rightarrow> 'a option list \<Rightarrow> bool list" where
  "recognised ks h [] = []"
| "recognised ks h (None # xs) = False # recognised ks h xs"
| "recognised ks h (Some x # xs) =
     (if suffix ks (h @ [x]) then True # recognised ks [] xs else False # recognised ks (h @ [x]) xs)"

text \<open>The position \<open>i\<close> is right for the presses \<open>h\<close>: so many codes, and not more, have been entered.\<close>

definition at_position :: "'a list \<Rightarrow> 'a list \<Rightarrow> nat \<Rightarrow> bool" where
  "at_position ks h i \<longleftrightarrow>
     i < length ks \<and> suffix (take i ks) h \<and> (\<forall>n. i < n \<longrightarrow> n \<le> length ks \<longrightarrow> \<not> suffix (take n ks) h)"

text \<open>The first \<open>m\<close> codes are the last ones before \<open>i\<close>, and \<open>x\<close> comes next.\<close>

definition goes_on :: "'a list \<Rightarrow> nat \<Rightarrow> 'a \<Rightarrow> nat \<Rightarrow> bool" where
  "goes_on ks i x m \<longleftrightarrow> m < i \<and> take m ks = drop (i - m) (take i ks) \<and> ks ! m = x"

lemma at_start: "ks \<noteq> [] \<Longrightarrow> at_position ks [] 0"
  by (auto simp: at_position_def)

lemma suffix_take_snoc:
  "m < length ks \<Longrightarrow> suffix (take (Suc m) ks) (h @ [x]) \<longleftrightarrow> suffix (take m ks) h \<and> ks ! m = x"
  by (auto simp: take_Suc_conv_app_nth simp del: suffix_snoc)

lemma suffix_take_inside:
  assumes "suffix (take i ks) h" "m < i" "i < length ks"
  shows "suffix (take m ks) h \<longleftrightarrow> take m ks = drop (i - m) (take i ks)"
proof
  assume "suffix (take m ks) h"
  with assms have "suffix (take m ks) (take i ks)" by (auto intro: suffix_length_suffix)
  then obtain zs where "take i ks = zs @ take m ks" by (auto simp: suffix_def)
  moreover from this assms have "length zs = i - m" by (auto dest: arg_cong [of _ _ length])
  ultimately show "take m ks = drop (i - m) (take i ks)" by simp
next
  assume "take m ks = drop (i - m) (take i ks)"
  then have "suffix (take m ks) (take i ks)" by (metis suffix_drop)
  then show "suffix (take m ks) h" using assms(1) by (rule suffix_order.trans)
qed

lemma longer_goes_on:
  assumes a: "at_position ks h i" and "ks ! i \<noteq> x" "m < length ks" "suffix (take (Suc m) ks) (h @ [x])"
  shows "goes_on ks i x m"
proof -
  have m: "suffix (take m ks) h" "ks ! m = x" using assms(3,4) by (simp_all add: suffix_take_snoc del: suffix_snoc)
  then have "m \<le> i" "m \<noteq> i" using a assms(2,3) by (auto simp: at_position_def not_less [symmetric])
  then show ?thesis using a m suffix_take_inside [of i ks h m] by (simp add: goes_on_def at_position_def)
qed

lemma step_forward:
  assumes "at_position ks h i" "ks ! i = x"
  shows "if Suc i = length ks then suffix ks (h @ [x])
    else at_position ks (h @ [x]) (Suc i) \<and> \<not> suffix ks (h @ [x])"
proof -
  have s: "suffix (take (Suc i) ks) (h @ [x])" using assms by (simp add: at_position_def suffix_take_snoc del: suffix_snoc)
  have more: "\<not> suffix (take n ks) (h @ [x])" if n: "Suc i < n" "n \<le> length ks" for n
  proof -
    obtain m where m: "n = Suc m" using n(1) by (cases n) auto
    show ?thesis using assms(1) n unfolding m by (simp add: at_position_def suffix_take_snoc del: suffix_snoc)
  qed
  show ?thesis using s more [of "length ks"] more assms(1) by (auto simp: at_position_def simp del: suffix_snoc)
qed

lemma step_back:
  assumes a: "at_position ks h i" and x: "ks ! i \<noteq> x"
    and j: "j = 0 \<and> (\<forall>m. \<not> goes_on ks i x m) \<or>
      (\<exists>m. j = Suc m \<and> goes_on ks i x m \<and> (\<forall>m'. m < m' \<longrightarrow> \<not> goes_on ks i x m'))"
  shows "at_position ks (h @ [x]) j \<and> \<not> suffix ks (h @ [x])"
proof -
  have more: "\<not> suffix (take n ks) (h @ [x])" if n: "j < n" "n \<le> length ks" for n
  proof
    assume s: "suffix (take n ks) (h @ [x])"
    obtain m where m: "n = Suc m" using n(1) by (cases n) auto
    have "goes_on ks i x m" using longer_goes_on [OF a x] s n m by simp
    then show False using j n(1) m by auto
  qed
  have i: "i < length ks" "suffix (take i ks) h" using a by (simp_all add: at_position_def)
  have "suffix (take (Suc m) ks) (h @ [x])" "Suc m < length ks" if "goes_on ks i x m" for m
    using that i suffix_take_inside [OF i(2) _ i(1), of m]
    by (simp_all add: goes_on_def suffix_take_snoc del: suffix_snoc)
  then have "j < length ks \<and> suffix (take j ks) (h @ [x])" using j i by (auto simp del: suffix_snoc)
  moreover from this have "\<not> suffix ks (h @ [x])" using more [of "length ks"] by simp
  ultimately show ?thesis using more by (simp add: at_position_def)
qed

section \<open>The codes of an entry\<close>

definition name_key :: "rc_name \<Rightarrow> string" where
  "name_key n = (case n of LIRC_ALL \<Rightarrow> '''' | Named t \<Rightarrow> map tolower t)"

definition code_key :: "lirc_code \<Rightarrow> string \<times> string" where
  "code_key c = (name_key (lc_remote c), name_key (lc_button c))"

definition press_key :: "string \<Rightarrow> string \<Rightarrow> string \<times> string" where
  "press_key rm b = (map tolower rm, map tolower b)"

definition plain_code :: "lirc_code \<Rightarrow> bool" where
  "plain_code c \<longleftrightarrow> lc_remote c \<noteq> LIRC_ALL \<and> lc_button c \<noteq> LIRC_ALL"

lemma matches_plain: "plain_code c \<Longrightarrow> matches_code c rm b \<longleftrightarrow> code_key c = press_key rm b"
  by (auto simp: plain_code_def matches_code_def code_key_def press_key_def name_key_def strcaseeq_def
      split: rc_name.splits)

lemma same_plain: "plain_code a \<Longrightarrow> plain_code b \<Longrightarrow> same_code a b = Some (code_key a = code_key b)"
  by (auto simp: plain_code_def same_code_def same_name_def code_key_def name_key_def strcaseeq_def
      split: rc_name.splits)

lemma same_codes_plain:
  "list_all plain_code ps \<Longrightarrow> list_all plain_code ns \<Longrightarrow> length ns \<le> length ps \<Longrightarrow>
     same_codes ps ns = Some (take (length ns) (map code_key ps) = map code_key ns)"
  by (induction ps ns rule: same_codes.induct) (auto simp: same_plain)

lemma list_all_take_drop: "list_all P xs \<Longrightarrow> list_all P (take m (drop n xs))"
  by (auto simp: list_all_iff dest: in_set_takeD in_set_dropD)

text \<open>The loop of \<open>lirc_iscode\<close> finds the longest beginning of the sequence that goes on with the press.\<close>

lemma rebase_plain:
  fixes rm b
  assumes cs: "list_all plain_code cs" "i < length cs"
  defines "G \<equiv> goes_on (map code_key cs) i (press_key rm b)"
  shows "k > 0 \<Longrightarrow> (\<forall>m. i < m + k \<longrightarrow> \<not> G m) \<Longrightarrow>
    \<exists>j. rebase cs i rm b k = Some j \<and>
      (j = 0 \<and> (\<forall>m. \<not> G m) \<or> (\<exists>m. j = Suc m \<and> G m \<and> (\<forall>m'. m < m' \<longrightarrow> \<not> G m')))"
proof (induction "Suc i - k" arbitrary: k rule: less_induct)
  case less
  show ?case
  proof (cases "k > i")
    case True
    then show ?thesis using less.prems by (subst rebase.simps) simp
  next
    case k: False
    let ?m = "i - k"
    have s: "same_codes cs (take ?m (drop k cs)) =
        Some (take ?m (map code_key cs) = map code_key (take ?m (drop k cs)))"
      using cs k by (subst same_codes_plain) (simp_all add: list_all_take_drop)
    have p: "matches_code (cs ! ?m) rm b \<longleftrightarrow> code_key (cs ! ?m) = press_key rm b"
      using cs by (simp add: matches_plain list_all_length)
    have d: "drop (i - ?m) (take i (map code_key cs)) = map code_key (take ?m (drop k cs))"
      using k by (simp add: drop_take take_map drop_map)
    have g: "G ?m \<longleftrightarrow> take ?m (map code_key cs) = map code_key (take ?m (drop k cs)) \<and> matches_code (cs ! ?m) rm b"
      using k less.prems(1) cs(2) unfolding G_def goes_on_def d p by auto
    show ?thesis
    proof (cases "G ?m")
      case True
      then have "rebase cs i rm b k = Some (Suc ?m)" using k s g by (subst rebase.simps) simp
      then show ?thesis using True k less.prems(2) by auto
    next
      case False
      then have r: "rebase cs i rm b k = rebase cs i rm b (Suc k)" using k s g by (subst rebase.simps) auto
      have "\<not> G m" if "i < m + Suc k" for m
        using less.prems(2) False k that by (cases "m = ?m") auto
      then show ?thesis unfolding r using k by (intro less.hyps) auto
    qed
  qed
qed

section \<open>Presses\<close>

fun press_all :: "lirc_config_entry \<Rightarrow> (string \<times> string \<times> int) list \<Rightarrow> (nat list \<times> lirc_config_entry) option" where
  "press_all e [] = Some ([], e)"
| "press_all e ((rm, b, rp) # ps) =
     do { (l, e) \<leftarrow> lirc_iscode e rm b rp; (ls, e) \<leftarrow> press_all e ps; Some (l # ls, e) }"

definition press_of :: "string \<times> string \<times> int \<Rightarrow> (string \<times> string) option" where
  "press_of p = (case p of (rm, b, rp) \<Rightarrow> if rp = 0 then Some (press_key rm b) else None)"

lemma iscode_sequence:
  assumes e: "length (en_code e) \<ge> 2" "list_all plain_code (en_code e)" "en_next_code e = Some i"
    and a: "at_position (map code_key (en_code e)) h i"
  shows "\<exists>l e' j. lirc_iscode e rm b rp = Some (l, e') \<and> en_code e' = en_code e \<and> en_next_code e' = Some j \<and>
    (if rp \<noteq> 0 then l \<noteq> 2 \<and> j = i
     else if suffix (map code_key (en_code e)) (h @ [press_key rm b]) then l = 2 \<and> j = 0
     else l \<noteq> 2 \<and> at_position (map code_key (en_code e)) (h @ [press_key rm b]) j)"
proof -
  let ?ks = "map code_key (en_code e)" and ?x = "press_key rm b"
  have i: "i < length (en_code e)" "en_code e \<noteq> []" using a e(1) by (auto simp: at_position_def)
  have m: "matches_code (en_code e ! i) rm b \<longleftrightarrow> ?ks ! i = ?x"
    using e(2) i by (simp add: matches_plain list_all_length)
  consider (rep) "rp \<noteq> 0" | (fwd) "rp = 0" "?ks ! i = ?x" | (other) "rp = 0" "?ks ! i \<noteq> ?x" by blast
  then show ?thesis
  proof cases
    case rep
    then show ?thesis using e i by (simp add: lirc_iscode_def Let_def)
  next
    case fwd
    then show ?thesis
      using e i m step_forward [OF a, of ?x] by (auto simp: lirc_iscode_def Let_def next_of_def)
  next
    case other
    let ?G = "goes_on ?ks i ?x"
    have "\<exists>j. rebase (en_code e) i rm b 1 = Some j \<and>
        (j = 0 \<and> (\<forall>m. \<not> ?G m) \<or> (\<exists>m. j = Suc m \<and> ?G m \<and> (\<forall>m'. m < m' \<longrightarrow> \<not> ?G m')))"
      by (rule rebase_plain [OF e(2) i(1)]) (auto simp: goes_on_def)
    then obtain j where j: "rebase (en_code e) i rm b 1 = Some j"
      "at_position ?ks (h @ [?x]) j" "\<not> suffix ?ks (h @ [?x])"
      using step_back [OF a other(2)] by blast
    have "j = 0" if "i = 0"
      using j(1) that by (simp add: rebase.simps)
    then show ?thesis using e i m other j by (auto simp: lirc_iscode_def Let_def)
  qed
qed

lemma press_all_sequence:
  assumes "length (en_code e) \<ge> 2" "list_all plain_code (en_code e)" "en_next_code e = Some i"
    "at_position (map code_key (en_code e)) h i"
  shows "\<exists>ls e'. press_all e ps = Some (ls, e') \<and>
    map (\<lambda>l. l = 2) ls = recognised (map code_key (en_code e)) h (map press_of ps)"
  using assms
proof (induction ps arbitrary: e h i)
  case (Cons p ps)
  obtain rm b rp where p: "p = (rm, b, rp)" by (cases p)
  let ?ks = "map code_key (en_code e)"
  obtain l e' j where l: "lirc_iscode e rm b rp = Some (l, e')" "en_code e' = en_code e" "en_next_code e' = Some j"
    "if rp \<noteq> 0 then l \<noteq> 2 \<and> j = i
     else if suffix ?ks (h @ [press_key rm b]) then l = 2 \<and> j = 0
     else l \<noteq> 2 \<and> at_position ?ks (h @ [press_key rm b]) j"
    using iscode_sequence [OF Cons.prems] by metis
  have "at_position ?ks [] 0" using Cons.prems(1) by (intro at_start) auto
  then have a: "at_position ?ks (if rp \<noteq> 0 then h else if suffix ?ks (h @ [press_key rm b]) then [] else h @ [press_key rm b]) j"
    (is "at_position _ ?h _") using l(4) Cons.prems(4) by (auto split: if_splits)
  have "\<exists>ls e''. press_all e' ps = Some (ls, e'') \<and> map (\<lambda>l. l = 2) ls = recognised ?ks ?h (map press_of ps)"
    using Cons.IH [of e' j ?h] Cons.prems(1,2) a unfolding l(2,3) by simp
  then obtain ls e'' where "press_all e' ps = Some (ls, e'')"
    "map (\<lambda>l. l = 2) ls = recognised ?ks ?h (map press_of ps)" by blast
  moreover have "press_of p = (if rp = 0 then Some (press_key rm b) else None)" by (simp add: p press_of_def)
  ultimately show ?case using l p by (simp del: suffix_snoc split: if_splits)
qed simp

text \<open>C10: A sequence of buttons without wildcards is recognised at exactly those presses where the presses
  since it was last recognised end with its codes, however they overlap; repeats of a held button neither
  advance nor disturb it, and the matching never faults.\<close>

theorem sequence_recognised:
  assumes "length (en_code e) \<ge> 2" "list_all plain_code (en_code e)" "en_next_code e = Some 0"
  shows "\<exists>ls e'. press_all e ps = Some (ls, e') \<and>
    map (\<lambda>l. l = 2) ls = recognised (map code_key (en_code e)) [] (map press_of ps)"
proof (rule press_all_sequence [OF assms])
  show "at_position (map code_key (en_code e)) [] 0" using assms(1) by (intro at_start) auto
qed

lemma sequence_recognised_witness:
  "\<exists>ls e'. press_all demo_secret [(''tv'', ''up'', 0), (''tv'', ''up'', 0), (''tv'', ''up'', 0), (''tv'', ''up'', 1), (''tv'', ''play'', 0)] = Some (ls, e') \<and>
     map (\<lambda>l. l = 2) ls = [False, False, False, False, True]"
proof -
  have "length (en_code demo_secret) \<ge> 2" "list_all plain_code (en_code demo_secret)" "en_next_code demo_secret = Some 0"
    by (simp_all add: demo_rc_defs plain_code_def)
  note s = sequence_recognised [OF this,
      of "[(''tv'', ''up'', 0), (''tv'', ''up'', 0), (''tv'', ''up'', 0), (''tv'', ''up'', 1), (''tv'', ''play'', 0)]"]
  have "recognised (map code_key (en_code demo_secret)) []
      (map press_of [(''tv'', ''up'', 0), (''tv'', ''up'', 0), (''tv'', ''up'', 0), (''tv'', ''up'', 1), (''tv'', ''play'', 0)]) =
      [False, False, False, False, True]"
    by (simp add: demo_rc_defs press_of_def press_key_def code_key_def name_key_def tolower_def suffix_to_prefix)
  with s show ?thesis by simp
qed

end
