(* ===== verification/RcConfig.thy ===== *)
theory RcConfig
  imports RcModes
begin

text \<open>
  The client library, \<open>tools/lirc_client.c\<close>: reading of \<open>.lircrc\<close> files. The file system is a map from
  paths to texts; the paths of the build and the home directory are a record. A reader returns \<open>None\<close>
  for a fault, \<open>Some None\<close> where the C code returns \<open>-1\<close>. Warnings are left out, \<open>malloc\<close> does not fail.
\<close>

section \<open>Strings\<close>

definition lirc_trim :: "string \<Rightarrow> string" where
  "lirc_trim s = rev (dropWhile is_blank (rev (dropWhile is_blank s)))"

text \<open>The lines that \<open>lirc_readline\<close> returns; the last one may lack its newline.\<close>

definition rc_lines :: "string \<Rightarrow> string list" where
  "rc_lines t = (let ls = split_on (CHR 0x0A) t in if last ls = [] then butlast ls else ls)"

definition is_octal :: "char \<Rightarrow> bool" where "is_octal c = is_digit 8 c"

definition byte_of :: "int \<Rightarrow> char" where
  "byte_of n = char_of (nat (n mod 256))"

definition simple_escapes :: "(char \<times> char) list" where
  "simple_escapes =
     [(CHR ''a'', CHR 0x07), (CHR ''b'', CHR 0x08), (CHR ''e'', CHR 0x1B), (CHR ''f'', CHR 0x0C),
      (CHR ''n'', CHR 0x0A), (CHR ''r'', CHR 0x0D), (CHR ''t'', CHR 0x09), (CHR ''v'', CHR 0x0B),
      (CHR 0x0A, CHR 0x00)]"

text \<open>The character of an escape sequence, and the rest; hexadecimal values wrap in 32 bits, of which the
  last eight are used.\<close>

definition lirc_parse_escape :: "string \<Rightarrow> char \<times> string" where
  "lirc_parse_escape s =
     (case s of
        [] \<Rightarrow> (CHR 0x00, [])
      | c # t \<Rightarrow>
          (case map_of simple_escapes c of
             Some x \<Rightarrow> (x, t)
           | None \<Rightarrow>
               if is_octal c then
                 let ds = c # takeWhile is_octal (take 2 t)
                 in (byte_of (digits_value 8 ds), drop (length ds) s)
               else if c = CHR ''x'' then
                 let ds = takeWhile (is_digit 16) t
                 in (byte_of (digits_value 16 ds), drop (length ds) t)
               else
                 let n = (of_char c :: nat)
                 in (if 64 \<le> n \<and> n \<le> 90 then char_of (n - 64) else c, t)))"

lemma lirc_parse_escape_shorter: "lirc_parse_escape s = (x, r) \<Longrightarrow> length r \<le> length s"
  by (auto simp: lirc_parse_escape_def Let_def split: list.splits option.splits if_splits)

function unescape :: "string \<Rightarrow> string" where
  "unescape s =
     (case s of
        [] \<Rightarrow> []
      | c # t \<Rightarrow> if c = CHR 0x5C then (case lirc_parse_escape t of (x, r) \<Rightarrow> x # unescape r) else c # unescape t)"
  by pat_completeness auto
termination
  by (relation "measure length") (auto dest: lirc_parse_escape_shorter [OF sym])

declare unescape.simps [simp del]

text \<open>A zero byte among the characters ends the string.\<close>

definition lirc_parse_string :: "string \<Rightarrow> string" where
  "lirc_parse_string s = takeWhile (\<lambda>c. c \<noteq> CHR 0x00) (unescape s)"

definition lirc_parse_include_rc :: "string \<Rightarrow> string" where
  "lirc_parse_include_rc s =
     (if length s < 2 then s
      else if hd s = CHR 0x22 \<and> last s = CHR 0x22 \<or> hd s = CHR ''<'' \<and> last s = CHR ''>'' then butlast (tl s)
      else s)"

definition flag_value :: "string \<Rightarrow> u32" where
  "flag_value t =
     (if strcaseeq t ''once'' then rc_once
      else if strcaseeq t ''quit'' then rc_quit
      else if strcaseeq t ''mode'' then rc_mode
      else if strcaseeq t ''startup_mode'' then rc_startup_mode
      else if strcaseeq t ''toggle_reset'' then rc_toggle_reset
      else 0)"

text \<open>Only the first token may end at a bar: the calls for the others have blanks alone as delimiters.\<close>

definition lirc_flags :: "string \<Rightarrow> u32" where
  "lirc_flags s =
     (case strtok (\<lambda>c. is_blank c \<or> c = CHR ''|'') s of
        None \<Rightarrow> 0
      | Some (t, r) \<Rightarrow> fold (\<lambda>t f. f OR flag_value t) (t # blank_tokens r) 0)"

section \<open>Files\<close>

record rc_paths =
  rp_home :: "string option"
  rp_user_file :: string
  rp_root_file :: string
  rp_old_root_file :: string

definition lirc_getfilename :: "rc_paths \<Rightarrow> string option \<Rightarrow> string option \<Rightarrow> string" where
  "lirc_getfilename ps file current =
     (let home = (case rp_home ps of None \<Rightarrow> ''/'' | Some h \<Rightarrow> h)
      in case file of
           None \<Rightarrow> home @ (if home \<noteq> [] \<and> last home \<noteq> CHR ''/'' then ''/'' else '''') @ rp_user_file ps
         | Some f \<Rightarrow>
             if take 2 f = ''~/'' then home @ tl f
             else (case current of
                     None \<Rightarrow> f
                   | Some c \<Rightarrow>
                       if f \<noteq> [] \<and> hd f = CHR ''/'' then f
                       else rev (dropWhile (\<lambda>x. x \<noteq> CHR ''/'') (rev c)) @ f))"

text \<open>The name of the file that was opened, and its text.\<close>

definition lirc_open ::
  "rc_paths \<Rightarrow> (string \<Rightarrow> string option) \<Rightarrow> string option \<Rightarrow> string option \<Rightarrow> (string \<times> string) option" where
  "lirc_open ps files file current =
     (let n = lirc_getfilename ps file current; named = (\<lambda>n. map_option (Pair n) (files n))
      in case files n of
           Some t \<Rightarrow> Some (n, t)
         | None \<Rightarrow>
             if file \<noteq> None then None
             else if files (rp_root_file ps) \<noteq> None then named (rp_root_file ps)
             else named (rp_old_root_file ps))"

section \<open>Entries and modes\<close>

record rc_parser =
  pa_entry :: "lirc_config_entry option"
  pa_entries :: "lirc_config_entry list"
  pa_mode :: "string option"
  pa_remote :: rc_name

definition rc_parser0 :: rc_parser where
  "rc_parser0 = \<lparr>pa_entry = None, pa_entries = [], pa_mode = None, pa_remote = LIRC_ALL\<rparr>"

text \<open>The end of an entry. \<open>check\<close> is the caller's function for the strings of its program.\<close>

definition end_entry ::
  "string option \<Rightarrow> (string \<Rightarrow> int) option \<Rightarrow> lirc_config_entry \<Rightarrow> rc_parser \<Rightarrow> rc_parser option option" where
  "end_entry lirc_prog check e s =
     (let e = e\<lparr>en_next_code := first_of (en_code e), en_next_config := first_of (en_config e), en_mode := pa_mode s\<rparr>;
          done = e\<lparr>en_rep_delay := (if en_rep_delay e = 0 \<and> en_rep e > 0 then en_rep e - 1 else en_rep_delay e)\<rparr>;
          s = s\<lparr>pa_entries := pa_entries s @ [done], pa_entry := None\<rparr>
      in case (check, en_prog e) of
           (Some f, Some p) \<Rightarrow>
             do { q \<leftarrow> lirc_prog;
                  Some (if strcaseeq p q \<and> (\<exists>t \<in> set (en_config e). f t = - 1) then None else Some s) }
         | _ \<Rightarrow> Some (Some s))"

definition lirc_mode ::
  "string option \<Rightarrow> (string \<Rightarrow> int) option \<Rightarrow> string \<Rightarrow> string option \<Rightarrow> rc_parser \<Rightarrow> rc_parser option option" where
  "lirc_mode lirc_prog check token token2 s =
     (if strcaseeq token ''begin'' then
        (case token2 of
           None \<Rightarrow> Some (if pa_entry s = None then Some (s\<lparr>pa_entry := Some entry0\<rparr>) else None)
         | Some m \<Rightarrow> Some (if pa_entry s = None \<and> pa_mode s = None then Some (s\<lparr>pa_mode := Some m\<rparr>) else None))
      else if strcaseeq token ''end'' then
        (case token2 of
           None \<Rightarrow> (case pa_entry s of None \<Rightarrow> Some None | Some e \<Rightarrow> end_entry lirc_prog check e s)
         | Some t \<Rightarrow>
             Some (case pa_mode s of
                     None \<Rightarrow> None
                   | Some m \<Rightarrow> if pa_entry s = None \<and> strcaseeq m t then Some (s\<lparr>pa_mode := None\<rparr>) else None))
      else Some (Some s))"

text \<open>A line \<open>token = value\<close> within an entry.\<close>

definition name_or_all :: "string \<Rightarrow> rc_name" where
  "name_or_all t = (if strcaseeq ''*'' t then LIRC_ALL else Named t)"

definition rc_number :: "string \<Rightarrow> u32" where
  "rc_number t = (case strtoull t of (n, rest, erange) \<Rightarrow> ucast n)"

definition rc_assign :: "string \<Rightarrow> string \<Rightarrow> lirc_config_entry \<Rightarrow> rc_parser \<Rightarrow> rc_parser" where
  "rc_assign token value e s =
     (if strcaseeq token ''prog'' then s\<lparr>pa_entry := Some (e\<lparr>en_prog := Some value\<rparr>)\<rparr>
      else if strcaseeq token ''remote'' then s\<lparr>pa_remote := name_or_all value\<rparr>
      else if strcaseeq token ''button'' then
        s\<lparr>pa_entry := Some (e\<lparr>en_code := en_code e @ [\<lparr>lc_remote = pa_remote s, lc_button = name_or_all value\<rparr>]\<rparr>)\<rparr>
      else if strcaseeq token ''delay'' then s\<lparr>pa_entry := Some (e\<lparr>en_rep_delay := rc_number value\<rparr>)\<rparr>
      else if strcaseeq token ''repeat'' then s\<lparr>pa_entry := Some (e\<lparr>en_rep := rc_number value\<rparr>)\<rparr>
      else if strcaseeq token ''config'' then
        s\<lparr>pa_entry := Some (e\<lparr>en_config := en_config e @ [lirc_parse_string value]\<rparr>)\<rparr>
      else if strcaseeq token ''mode'' then s\<lparr>pa_entry := Some (e\<lparr>en_change_mode := Some value\<rparr>)\<rparr>
      else if strcaseeq token ''flags'' then s\<lparr>pa_entry := Some (e\<lparr>en_flags := lirc_flags value\<rparr>)\<rparr>
      else s)"

definition assign_line :: "string \<Rightarrow> rc_parser \<Rightarrow> rc_parser option" where
  "assign_line l s =
     (let before = takeWhile (\<lambda>c. c \<noteq> CHR ''='') l;
          token = lirc_trim before; value = lirc_trim (drop (length before + 1) l)
      in if token \<noteq> [] \<and> hd token = CHR ''#'' then Some s
         else map_option (\<lambda>e. rc_assign token value e s) (pa_entry s))"

definition mode_line ::
  "string option \<Rightarrow> (string \<Rightarrow> int) option \<Rightarrow> string list \<Rightarrow> rc_parser \<Rightarrow> rc_parser option option" where
  "mode_line lirc_prog check tokens s =
     (case tokens of
        [] \<Rightarrow> Some (Some s)
      | [t] \<Rightarrow> map_option (map_option (\<lambda>s. s\<lparr>pa_remote := LIRC_ALL\<rparr>)) (lirc_mode lirc_prog check t None s)
      | [t, u] \<Rightarrow> map_option (map_option (\<lambda>s. s\<lparr>pa_remote := LIRC_ALL\<rparr>)) (lirc_mode lirc_prog check t (Some u) s)
      | _ \<Rightarrow> Some (Some s))"

section \<open>The reader\<close>

definition RC_MAX_INCLUDES :: nat where [c_eval]: "RC_MAX_INCLUDES = 10"

record rc_env =
  re_paths :: rc_paths
  re_files :: "string \<Rightarrow> string option"
  re_prog :: "string option"
  re_check :: "(string \<Rightarrow> int) option"

text \<open>The lines of the file \<open>current\<close>, when \<open>n\<close> files are open. An included file is read before the next
  line. The argument of \<open>include\<close> is what follows the blank behind it; without one NULL is trimmed.\<close>

function read_rc ::
  "rc_env \<Rightarrow> nat \<Rightarrow> string \<Rightarrow> string list \<Rightarrow> rc_parser \<Rightarrow> rc_parser option option" where
  "read_rc env n current [] s = Some (Some s)"
| "read_rc env n current (l # ls) s =
     (if CHR ''='' \<in> set l then
        (case assign_line l s of None \<Rightarrow> Some None | Some s \<Rightarrow> read_rc env n current ls s)
      else
        (case strtok is_blank l of
           None \<Rightarrow> read_rc env n current ls s
         | Some (token, rest) \<Rightarrow>
             if hd token = CHR ''#'' then read_rc env n current ls s
             else if strcaseeq token ''include'' then
               if n \<ge> RC_MAX_INCLUDES then Some None
               else if rest = [] then None
               else (case lirc_open (re_paths env) (re_files env) (Some (lirc_parse_include_rc (lirc_trim rest))) (Some current) of
                       None \<Rightarrow> Some None
                     | Some (path, text) \<Rightarrow>
                         (case read_rc env (Suc n) path (rc_lines text) s of
                            None \<Rightarrow> None
                          | Some None \<Rightarrow> Some None
                          | Some (Some s) \<Rightarrow> read_rc env n current ls s))
             else (case mode_line (re_prog env) (re_check env) (token # blank_tokens rest) s of
                     None \<Rightarrow> None
                   | Some None \<Rightarrow> Some None
                   | Some (Some s) \<Rightarrow> read_rc env n current ls s)))"
  by pat_completeness auto
termination
  by (relation "measures [\<lambda>(env, n, c, ls, s). RC_MAX_INCLUDES - n, \<lambda>(env, n, c, ls, s). length ls]") auto

text \<open>\<open>lirc_readconfig_only_internal\<close>. \<open>wants_sha_bang\<close> says that the caller passes a pointer for the
  interpreter line; after an error that pointer is read, also when it is NULL.\<close>

definition sha_bang_of :: "string list \<Rightarrow> string option" where
  "sha_bang_of ls = (case ls of [] \<Rightarrow> None | l # _ \<Rightarrow> if take 2 l = ''#!'' then Some (drop 2 l) else None)"

definition readconfig_internal ::
  "rc_env \<Rightarrow> bool \<Rightarrow> string option \<Rightarrow> (lirc_config \<times> string option) option option" where
  "readconfig_internal env wants_sha_bang file =
     (case lirc_open (re_paths env) (re_files env) file None of
        None \<Rightarrow> Some None
      | Some (path, text) \<Rightarrow>
          do { res \<leftarrow> read_rc env 1 path (rc_lines text) rc_parser0;
               res \<leftarrow> (case res of
                        Some s \<Rightarrow> if pa_entry s = None then Some (Some s)
                                  else lirc_mode (re_prog env) (re_check env) ''end'' None s
                      | None \<Rightarrow> Some None);
               case res of
                 Some s \<Rightarrow>
                   do { (m, es) \<leftarrow> lirc_startupmode (re_prog env) (pa_entries s);
                        Some (Some (\<lparr>cf_mode = m, cf_next = first_of es, cf_first = es, cf_sockfd = - 1\<rparr>,
                                    if wants_sha_bang then sha_bang_of (rc_lines text) else None)) }
               | None \<Rightarrow> if wants_sha_bang then Some None else None })"

definition readconfig_only :: "rc_env \<Rightarrow> string option \<Rightarrow> lirc_config option option" where
  "readconfig_only env file = map_option (map_option fst) (readconfig_internal env False file)"

end
