(* ===== verification/RcFacts.thy ===== *)
theory RcFacts
  imports RcSequence RcConfig
begin

text \<open>
  The entries of a \<open>.lircrc\<close> file: the positions stay within the lists, which keeps \<open>lirc_code2char\<close> free of
  faults; where its strings come from; repeats.
\<close>

section \<open>Positions\<close>

definition pos_ok :: "'a list \<Rightarrow> nat option \<Rightarrow> bool" where
  "pos_ok xs p \<longleftrightarrow> (case p of None \<Rightarrow> xs = [] | Some i \<Rightarrow> i < length xs)"

definition entry_ok :: "lirc_config_entry \<Rightarrow> bool" where
  "entry_ok e \<longleftrightarrow> pos_ok (en_code e) (en_next_code e) \<and> pos_ok (en_config e) (en_next_config e)"

definition plain_sequence :: "lirc_config_entry \<Rightarrow> bool" where
  "plain_sequence e \<longleftrightarrow> length (en_code e) \<le> 1 \<or> list_all plain_code (en_code e)"

text \<open>What no operation on an entry changes, but for the mode of the startup entry.\<close>

definition fixed_part :: "lirc_config_entry \<Rightarrow> string option \<times> lirc_code list \<times> string list \<times> string option \<times> string option" where
  "fixed_part e = (en_prog e, en_code e, en_config e, en_change_mode e, en_mode e)"

lemma pos_ok_first [simp]: "pos_ok xs (first_of xs)"
  by (simp add: pos_ok_def first_of_def)

lemma pos_ok_next: "pos_ok xs (Some i) \<Longrightarrow> pos_ok xs (case next_of xs i of None \<Rightarrow> first_of xs | j \<Rightarrow> j)"
  by (auto simp: pos_ok_def next_of_def first_of_def)

lemma rebase_bound: "rebase cs i rm b k = Some j \<Longrightarrow> k > 0 \<Longrightarrow> i < length cs \<Longrightarrow> j < length cs"
proof (induction cs i rm b k arbitrary: j rule: rebase.induct)
  case (1 cs i rm b k)
  then show ?case
    by (subst (asm) (2) rebase.simps) (auto split: if_splits bind_splits)
qed

lemma entry_ok_updates:
  "entry_ok e \<Longrightarrow> j < length (en_code e) \<Longrightarrow> entry_ok (e\<lparr>en_next_code := Some j\<rparr>)"
  "entry_ok e \<Longrightarrow> entry_ok (e\<lparr>en_next_config := first_of (en_config e)\<rparr>)"
  by (simp_all add: entry_ok_def pos_ok_def [of _ "Some _"])

lemma fixed_part_updates [simp]:
  "fixed_part (e\<lparr>en_next_code := j\<rparr>) = fixed_part e" "fixed_part (e\<lparr>en_next_config := n\<rparr>) = fixed_part e"
  "fixed_part (e\<lparr>en_flags := f\<rparr>) = fixed_part e"
  by (simp_all add: fixed_part_def)

lemma iscode_entry:
  assumes l: "lirc_iscode e rm b rp = Some (l, e')" and e: "entry_ok e"
  shows "entry_ok e' \<and> fixed_part e' = fixed_part e \<and> en_flags e' = en_flags e"
proof (cases "en_code e = []")
  case True
  then show ?thesis using l e by (simp add: lirc_iscode_def)
next
  case ne: False
  then obtain i where i: "en_next_code e = Some i" "i < length (en_code e)"
    using e by (auto simp: entry_ok_def pos_ok_def split: option.splits)
  show ?thesis
  proof (cases "matches_code (en_code e ! i) rm b")
    case True
    have "\<exists>j. e' = e\<lparr>en_next_code := Some j\<rparr> \<and> j < length (en_code e)"
      using l ne i True by (auto simp: lirc_iscode_def Let_def next_of_def split: if_splits)
    then show ?thesis using entry_ok_updates(1) [OF e] by auto
  next
    case False
    have r: "j < length (en_code e)" if "rebase (en_code e) i rm b 1 = Some j" for j
      using rebase_bound [OF that] i by simp
    have "\<exists>f j. e' = (if f then e\<lparr>en_next_config := first_of (en_config e)\<rparr> else e)\<lparr>en_next_code := Some j\<rparr> \<and> j < length (en_code e)"
    proof (cases "rp = 0")
      case True
      then show ?thesis using l ne i False r
        by (intro exI [of _ "has_flag rc_toggle_reset e"] exI [of _ "the (en_next_code e')"])
          (auto simp: lirc_iscode_def split: if_splits bind_splits)
    next
      case rp: False
      then show ?thesis using l ne i False by (intro exI [of _ False] exI [of _ i]) (simp add: lirc_iscode_def)
    qed
    then show ?thesis using entry_ok_updates(1) [OF e] entry_ok_updates(1) [OF entry_ok_updates(2) [OF e]] by auto
  qed
qed

lemma plain_sequence_fixed: "fixed_part e' = fixed_part e \<Longrightarrow> plain_sequence e' = plain_sequence e"
  by (simp add: fixed_part_def plain_sequence_def)

lemma iscode_defined:
  assumes "entry_ok e" "plain_sequence e"
  shows "\<exists>r. lirc_iscode e rm b rp = Some r"
proof (cases "en_code e = []")
  case True
  then show ?thesis by (simp add: lirc_iscode_def)
next
  case ne: False
  then obtain i where i: "en_next_code e = Some i" "i < length (en_code e)"
    using assms by (auto simp: entry_ok_def pos_ok_def split: option.splits)
  have "\<exists>j. rebase (en_code e) i rm b 1 = Some j" if "i > 0"
  proof -
    have "list_all plain_code (en_code e)" using that i assms(2) by (auto simp: plain_sequence_def)
    from rebase_plain [OF this i(2), where k = 1 and rm = rm and b = b]
    show ?thesis by (simp add: goes_on_def) blast
  qed
  then show ?thesis using ne i by (cases "i = 0") (auto simp: lirc_iscode_def Let_def)
qed

lemma entry_ok_flags [simp]: "entry_ok (e\<lparr>en_flags := f\<rparr>) = entry_ok e"
  by (simp add: entry_ok_def)

section \<open>The whole file\<close>

definition config_ok :: "lirc_config \<Rightarrow> bool" where
  "config_ok c \<longleftrightarrow> (\<forall>e \<in> set (cf_first c). entry_ok e)"

definition fixed_parts :: "lirc_config \<Rightarrow> (string option \<times> lirc_code list \<times> string list \<times> string option \<times> string option) list" where
  "fixed_parts c = map fixed_part (cf_first c)"

lemma fixed_parts_update:
  "i < length (cf_first c) \<Longrightarrow> fixed_part e = fixed_part (cf_first c ! i) \<Longrightarrow>
     fixed_parts (c\<lparr>cf_first := (cf_first c)[i := e]\<rparr>) = fixed_parts c"
  by (simp add: fixed_parts_def map_update) (metis list_update_id length_map map_update nth_map)

lemma config_ok_update:
  "config_ok c \<Longrightarrow> entry_ok e \<Longrightarrow> config_ok (c\<lparr>cf_first := (cf_first c)[i := e]\<rparr>)"
  by (auto simp: config_ok_def dest: set_update_subset_insert [THEN subsetD])

lemma clearmode_entries:
  "config_ok c \<Longrightarrow> config_ok (lirc_clearmode c)" "fixed_parts (lirc_clearmode c) = fixed_parts c"
  by (auto simp: lirc_clearmode_def config_ok_def fixed_parts_def split: option.splits)

lemma fixed_parts_nth: "fixed_parts c' = fixed_parts c \<Longrightarrow> i < length (cf_first c) \<Longrightarrow>
    i < length (cf_first c') \<and> fixed_part (cf_first c' ! i) = fixed_part (cf_first c ! i)"
  unfolding fixed_parts_def by (metis length_map nth_map)

lemma execute_entries:
  assumes x: "lirc_execute p c i = (s, c')" and c: "config_ok c" "i < length (cf_first c)"
  shows "config_ok c'" "fixed_parts c' = fixed_parts c"
    "cf_mode c' \<in> {None, cf_mode c} \<union> en_change_mode ` set (cf_first c)"
    "s = Some t \<Longrightarrow> t \<in> set (en_config (cf_first c ! i)) \<and>
       (\<exists>n. en_prog (cf_first c ! i) = Some n \<and> (\<forall>q. p = Some q \<longrightarrow> strcaseeq n q))"
proof -
  define d where "d = (if has_flag rc_mode (cf_first c ! i) then lirc_clearmode c else c)"
  have d: "config_ok d" "fixed_parts d = fixed_parts c" "cf_mode d = None \<or> cf_mode d = cf_mode c"
    using c by (auto simp: d_def clearmode_entries) (simp add: lirc_clearmode_def split: option.splits)
  have i: "i < length (cf_first d)" and fp: "fixed_part (cf_first d ! i) = fixed_part (cf_first c ! i)"
    using fixed_parts_nth [OF d(2) c(2)] by simp_all
  let ?e = "cf_first d ! i"
  have e: "entry_ok ?e" using d(1) i by (simp add: config_ok_def)
  define m where "m = (if en_change_mode ?e \<noteq> None then en_change_mode ?e else cf_mode d)"
  have "\<exists>f n. c' = (d\<lparr>cf_mode := m\<rparr>)\<lparr>cf_first := (cf_first d)[i := ?e\<lparr>en_flags := f, en_next_config := n\<rparr>]\<rparr> \<and>
      pos_ok (en_config ?e) n \<and> (\<forall>t. s = Some t \<longrightarrow> t \<in> set (en_config ?e) \<and>
       (\<exists>n. en_prog ?e = Some n \<and> (\<forall>q. p = Some q \<longrightarrow> strcaseeq n q)))"
  proof -
    define r where "r \<longleftrightarrow> (case en_prog ?e of None \<Rightarrow> False | Some n \<Rightarrow> (case p of None \<Rightarrow> True | Some q \<Rightarrow> strcaseeq n q)) \<and>
      \<not> (en_change_mode ?e \<noteq> None \<and> has_flag rc_once ?e \<and> has_flag rc_ecno ?e)"
    define f where "f = (if en_change_mode ?e \<noteq> None \<and> has_flag rc_once ?e then en_flags ?e OR rc_ecno else en_flags ?e)"
    have same: "?e\<lparr>en_flags := f, en_next_config := en_next_config ?e\<rparr> = ?e\<lparr>en_flags := f\<rparr>"
      "?e\<lparr>en_flags := en_flags ?e\<rparr> = ?e" "d\<lparr>cf_mode := cf_mode d\<rparr> = d" by simp_all
    have k: "pos_ok (en_config ?e) (en_next_config ?e)" using e by (simp add: entry_ok_def)
    have who: "\<exists>n. en_prog ?e = Some n \<and> (\<forall>q. p = Some q \<longrightarrow> strcaseeq n q)" if r
      using that by (auto simp: r_def split: option.splits)
    show ?thesis
    proof (cases "en_next_config ?e = None \<or> \<not> r")
      case True
      then have "c' = (d\<lparr>cf_mode := m\<rparr>)\<lparr>cf_first := (cf_first d)[i := ?e\<lparr>en_flags := f\<rparr>]\<rparr>" "s = None"
        using x by (auto simp: lirc_execute_def Let_def d_def [symmetric] m_def f_def r_def split: option.splits if_splits)
      then show ?thesis using k same(1) by (intro exI [of _ f] exI [of _ "en_next_config ?e"]) simp
    next
      case False
      then obtain k' where k': "en_next_config ?e = Some k'" r by auto
      let ?n = "case next_of (en_config ?e) k' of None \<Rightarrow> first_of (en_config ?e) | j \<Rightarrow> j"
      have "c' = (d\<lparr>cf_mode := m\<rparr>)\<lparr>cf_first := (cf_first d)[i := ?e\<lparr>en_flags := f, en_next_config := ?n\<rparr>]\<rparr>"
        "s = Some (en_config ?e ! k')"
        using x k' by (auto simp: lirc_execute_def Let_def d_def [symmetric] m_def f_def r_def split: option.splits if_splits)
      then show ?thesis
        using k' k pos_ok_next [of "en_config ?e" k'] who
        by (intro exI [of _ f] exI [of _ ?n]) (simp add: pos_ok_def [of _ "Some _"])
    qed
  qed
  then obtain f n where c': "c' = (d\<lparr>cf_mode := m\<rparr>)\<lparr>cf_first := (cf_first d)[i := ?e\<lparr>en_flags := f, en_next_config := n\<rparr>]\<rparr>"
    "pos_ok (en_config ?e) n" "s = Some t \<Longrightarrow> t \<in> set (en_config ?e) \<and>
       (\<exists>n. en_prog ?e = Some n \<and> (\<forall>q. p = Some q \<longrightarrow> strcaseeq n q))" by blast
  have e': "entry_ok (?e\<lparr>en_flags := f, en_next_config := n\<rparr>)" using e c'(2) by (simp add: entry_ok_def)
  have d': "config_ok (d\<lparr>cf_mode := m\<rparr>)" using d(1) by (simp add: config_ok_def)
  show "config_ok c'" unfolding c'(1) using config_ok_update [OF d' e', of i] by simp
  show "fixed_parts c' = fixed_parts c"
    unfolding c'(1) d(2) [symmetric] using i fixed_parts_update [of i d "?e\<lparr>en_flags := f, en_next_config := n\<rparr>"]
    by (simp add: fixed_parts_def)
  have "en_change_mode ?e = en_change_mode (cf_first c ! i)" using fp by (simp add: fixed_part_def)
  then show "cf_mode c' \<in> {None, cf_mode c} \<union> en_change_mode ` set (cf_first c)"
    using d(3) c(2) by (auto simp: c'(1) m_def)
  show "s = Some t \<Longrightarrow> t \<in> set (en_config (cf_first c ! i)) \<and>
       (\<exists>n. en_prog (cf_first c ! i) = Some n \<and> (\<forall>q. p = Some q \<longrightarrow> strcaseeq n q))"
    using c'(3) fp by (simp add: fixed_part_def)
qed

section \<open>Where the strings come from\<close>

text \<open>A mode that can be current while the entries of \<open>c\<close> are looked at: the one before, or one that an
  entry changes to.\<close>

definition possible_mode :: "lirc_config \<Rightarrow> string option \<Rightarrow> bool" where
  "possible_mode c m \<longleftrightarrow> m \<in> {None, cf_mode c} \<union> en_change_mode ` set (cf_first c)"

lemma change_modes: "fixed_parts c' = fixed_parts c \<Longrightarrow> en_change_mode ` set (cf_first c') = en_change_mode ` set (cf_first c)"
proof -
  have "en_change_mode ` set (cf_first d) = (\<lambda>(_, _, _, m, _). m) ` set (fixed_parts d)" for d
    by (auto simp: fixed_parts_def fixed_part_def image_image)
  then show "fixed_parts c' = fixed_parts c \<Longrightarrow> ?thesis" by simp
qed

text \<open>The string \<open>t\<close> of \<open>prog\<close> is one that an entry of \<open>c\<close>, with index \<open>i\<close> at least, has for \<open>p\<close>.\<close>

definition from_entry :: "string option \<Rightarrow> lirc_config \<Rightarrow> nat \<Rightarrow> string \<times> string option \<Rightarrow> bool" where
  "from_entry p c i x \<longleftrightarrow>
     (\<exists>k n. i \<le> k \<and> k < length (cf_first c) \<and> fst x \<in> set (en_config (cf_first c ! k)) \<and>
        snd x = Some n \<and> en_prog (cf_first c ! k) = Some n \<and> (\<forall>q. p = Some q \<longrightarrow> strcaseeq n q) \<and>
        (en_mode (cf_first c ! k) = None \<or>
         (\<exists>m m'. en_mode (cf_first c ! k) = Some m \<and> possible_mode c (Some m') \<and> strcaseeq m m')))"

lemma from_entry_later:
  assumes f: "from_entry p c' (Suc i) x" and c': "fixed_parts c' = fixed_parts c" "possible_mode c (cf_mode c')"
  shows "from_entry p c i x"
proof -
  from f obtain k n where k: "Suc i \<le> k" "k < length (cf_first c')" "fst x \<in> set (en_config (cf_first c' ! k))"
    "snd x = Some n" "en_prog (cf_first c' ! k) = Some n" "\<forall>q. p = Some q \<longrightarrow> strcaseeq n q"
    "en_mode (cf_first c' ! k) = None \<or>
         (\<exists>m m'. en_mode (cf_first c' ! k) = Some m \<and> possible_mode c' (Some m') \<and> strcaseeq m m')"
    unfolding from_entry_def by blast
  have "possible_mode c (Some m')" if "possible_mode c' (Some m')" for m'
    using that c'(2) change_modes [OF c'(1)] by (auto simp: possible_mode_def)
  then show ?thesis
    using k fixed_parts_nth [OF c'(1) [symmetric] k(2)] unfolding from_entry_def
    by (intro exI [of _ k] exI [of _ n]) (auto simp: fixed_part_def)
qed

lemma scan_entry:
  assumes i: "i < length (cf_first c)" and l: "lirc_iscode (cf_first c ! i) rm b rp = Some (level, e)"
    and c: "config_ok c" and x: "(if level > 1 then lirc_execute p (c\<lparr>cf_first := (cf_first c)[i := e]\<rparr>) i
      else (None, c\<lparr>cf_first := (cf_first c)[i := e]\<rparr>)) = (s, c2)"
    and m: "in_mode (c\<lparr>cf_first := (cf_first c)[i := e]\<rparr>) e"
  shows "config_ok c2 \<and> fixed_parts c2 = fixed_parts c \<and> possible_mode c (cf_mode c2) \<and>
    (\<forall>t. s = Some t \<longrightarrow> from_entry p c i (t, en_prog e))"
proof -
  let ?c = "c\<lparr>cf_first := (cf_first c)[i := e]\<rparr>"
  have "entry_ok (cf_first c ! i)" using c i by (simp add: config_ok_def)
  from iscode_entry [OF l this] have e: "entry_ok e" "fixed_part e = fixed_part (cf_first c ! i)" by simp_all
  have c1: "config_ok ?c" "fixed_parts ?c = fixed_parts c" "i < length (cf_first ?c)" "cf_first ?c ! i = e"
    using config_ok_update [OF c e(1)] fixed_parts_update [OF i e(2)] i by simp_all
  have cm: "possible_mode c (cf_mode c)" "\<And>m. possible_mode ?c m \<Longrightarrow> possible_mode c m"
    using change_modes [OF c1(2)] by (auto simp: possible_mode_def)
  show ?thesis
  proof (cases "level > 1")
    case False
    then have "s = None" "c2 = ?c" using x by auto
    then show ?thesis using c1 cm by simp
  next
    case True
    then have x': "lirc_execute p ?c i = (s, c2)" using x by simp
    note ex = execute_entries [OF x' c1(1,3)]
    have "from_entry p c i (t, en_prog e)" if t: "s = Some t" for t
    proof -
      obtain n where n: "t \<in> set (en_config e)" "en_prog e = Some n" "\<forall>q. p = Some q \<longrightarrow> strcaseeq n q"
        using ex(4) [OF t] c1(4) by auto
      have "en_mode e = None \<or> (\<exists>m m'. en_mode e = Some m \<and> possible_mode c (Some m') \<and> strcaseeq m m')"
        using m cm(1) by (auto simp: in_mode_def same_mode_def split: option.splits)
      then show ?thesis using n i e(2) unfolding from_entry_def
        by (intro exI [of _ i] exI [of _ n]) (auto simp: fixed_part_def)
    qed
    moreover have "possible_mode c (cf_mode c2)" using ex(3) cm(2) by (simp add: possible_mode_def)
    ultimately show ?thesis using ex(1,2) c1(2) by simp
  qed
qed

lemma scan_entries_from:
  "scan_entries p rm b rp i q out c = Some (res, c') \<Longrightarrow> config_ok c \<Longrightarrow>
     config_ok c' \<and> fixed_parts c' = fixed_parts c \<and> (\<forall>x. res = Some x \<longrightarrow> out = Some x \<or> from_entry p c i x)"
proof (induction p rm b rp i q out c rule: scan_entries.induct)
  case (1 p rm b rp i q out c)
  note ih = 1(1-3) and r = 1(4) [unfolded scan_entries.simps [of p rm b rp i]] and c = 1(5)
  show ?case
  proof (cases "i < length (cf_first c)")
    case False
    then show ?thesis using r c by auto
  next
    case i: True
    then obtain level e where l: "lirc_iscode (cf_first c ! i) rm b rp = Some (level, e)"
      using r by (auto split: option.splits)
    let ?c = "c\<lparr>cf_first := (cf_first c)[i := e]\<rparr>"
    have "entry_ok (cf_first c ! i)" using c i by (simp add: config_ok_def)
    from iscode_entry [OF l this] have e: "entry_ok e" "fixed_part e = fixed_part (cf_first c ! i)" by simp_all
    have c1: "config_ok ?c" "fixed_parts ?c = fixed_parts c"
      using config_ok_update [OF c e(1)] fixed_parts_update [OF i e(2)] by simp_all
    show ?thesis
    proof (cases "level > 0 \<and> in_mode ?c e \<and> \<not> q")
      case False
      then show ?thesis
        using r i l c1 ih(3) [OF i l refl refl False] from_entry_later [OF _ c1(2), of p i]
        by (auto simp: possible_mode_def)
    next
      case True
      obtain s c2 where x: "(if level > 1 then lirc_execute p ?c i else (None, ?c)) = (s, c2)" by fastforce
      note st = scan_entry [OF i l c x conjunct1 [OF conjunct2 [OF True]]]
      have nx: "config_ok (c2\<lparr>cf_next := k\<rparr>)" "fixed_parts (c2\<lparr>cf_next := k\<rparr>) = fixed_parts c"
        "from_entry p (c2\<lparr>cf_next := k\<rparr>) (Suc i) y \<Longrightarrow> from_entry p c i y" for k y
        using st from_entry_later [of p "c2\<lparr>cf_next := k\<rparr>" i y c] by (simp_all add: config_ok_def fixed_parts_def)
      consider (quit) "has_flag rc_quit (cf_first c2 ! i)" | (found) "\<not> has_flag rc_quit (cf_first c2 ! i)" "s \<noteq> None"
        | (none) "\<not> has_flag rc_quit (cf_first c2 ! i)" "\<not> s \<noteq> None" by blast
      then show ?thesis
      proof cases
        case quit
        then show ?thesis
          using r i l True x st nx [of None] ih(1) [OF i l refl refl True x [symmetric] refl refl quit] by auto
      next
        case found
        then show ?thesis using r i l True x st nx by auto
      next
        case none
        then show ?thesis
          using r i l True x st from_entry_later [of p c2 i _ c] ih(2) [OF i l refl refl True x [symmetric] refl refl none]
          by auto
      qed
    qed
  qed
qed

lemma plain_parts:
  "fixed_parts c' = fixed_parts c \<Longrightarrow> list_all plain_sequence (cf_first c') = list_all plain_sequence (cf_first c)"
proof -
  have "list_all plain_sequence (cf_first d) =
      list_all (\<lambda>(_, cs, _). length cs \<le> 1 \<or> list_all plain_code cs) (fixed_parts d)" for d
    by (simp add: list_all_iff fixed_parts_def fixed_part_def plain_sequence_def)
  then show "fixed_parts c' = fixed_parts c \<Longrightarrow> ?thesis" by simp
qed

lemma scan_entries_defined:
  "config_ok c \<Longrightarrow> list_all plain_sequence (cf_first c) \<Longrightarrow> \<exists>r. scan_entries p rm b rp i q out c = Some r"
proof (induction p rm b rp i q out c rule: scan_entries.induct)
  case (1 p rm b rp i q out c)
  note ih = 1(1-3) and c = 1(4,5)
  show ?case
  proof (cases "i < length (cf_first c)")
    case False
    then show ?thesis by (simp add: scan_entries.simps)
  next
    case i: True
    have ok: "entry_ok (cf_first c ! i)" "plain_sequence (cf_first c ! i)"
      using c i by (auto simp: config_ok_def list_all_iff)
    then obtain level e where l: "lirc_iscode (cf_first c ! i) rm b rp = Some (level, e)"
      using iscode_defined by fastforce
    let ?c = "c\<lparr>cf_first := (cf_first c)[i := e]\<rparr>"
    from iscode_entry [OF l ok(1)] have e: "entry_ok e" "fixed_part e = fixed_part (cf_first c ! i)" by simp_all
    have c1: "config_ok ?c" "fixed_parts ?c = fixed_parts c"
      using config_ok_update [OF c(1) e(1)] fixed_parts_update [OF i e(2)] by simp_all
    show ?thesis
    proof (cases "level > 0 \<and> in_mode ?c e \<and> \<not> q")
      case False
      have "list_all plain_sequence (cf_first ?c)" using plain_parts [OF c1(2)] c(2) by simp
      then show ?thesis
        using i l ih(3) [OF i l refl refl False c1(1)] False by (subst scan_entries.simps) auto
    next
      case True
      obtain s c2 where x: "(if level > 1 then lirc_execute p ?c i else (None, ?c)) = (s, c2)" by fastforce
      note st = scan_entry [OF i l c(1) x conjunct1 [OF conjunct2 [OF True]]]
      have nx: "config_ok (c2\<lparr>cf_next := k\<rparr>)" "list_all plain_sequence (cf_first (c2\<lparr>cf_next := k\<rparr>))" for k
        using st c(2) plain_parts [of c2 c] by (simp_all add: config_ok_def)
      consider (quit) "has_flag rc_quit (cf_first c2 ! i)" | (found) "\<not> has_flag rc_quit (cf_first c2 ! i)" "s \<noteq> None"
        | (none) "\<not> has_flag rc_quit (cf_first c2 ! i)" "\<not> s \<noteq> None" by blast
      then show ?thesis
      proof cases
        case quit
        then show ?thesis
          using i l True x ih(1) [OF i l refl refl True x [symmetric] refl refl quit nx] by (subst scan_entries.simps) simp
      next
        case found
        then show ?thesis using i l True x by (subst scan_entries.simps) simp
      next
        case none
        have "config_ok c2" "list_all plain_sequence (cf_first c2)" using st c(2) plain_parts [of c2 c] by simp_all
        then show ?thesis
          using i l True x none ih(2) [OF i l refl refl True x [symmetric] refl refl none] by (subst scan_entries.simps) simp
      qed
    qed
  qed
qed

text \<open>C15: When the positions of all entries are within their lists and no sequence has wildcards, a code
  never faults, whatever its text; the positions stay within the lists and nothing else of the entries
  changes but the flag that marks an entry as run once.\<close>

theorem code2char_total:
  assumes "config_ok c" "list_all plain_sequence (cf_first c)"
  shows "\<exists>out c'. code2char_internal p code c = Some (out, c') \<and> config_ok c' \<and>
    list_all plain_sequence (cf_first c') \<and> fixed_parts c' = fixed_parts c"
proof -
  have next_only: "config_ok (d\<lparr>cf_next := k\<rparr>) = config_ok d" "fixed_parts (d\<lparr>cf_next := k\<rparr>) = fixed_parts d" for d k
    by (simp_all add: config_ok_def fixed_parts_def)
  have "\<exists>out c'. code2char_internal p code c = Some (out, c') \<and> config_ok c' \<and> fixed_parts c' = fixed_parts c"
  proof (cases "code_repeat code")
    case None
    then show ?thesis using assms by (simp add: code2char_internal_def next_only)
  next
    case rp: (Some rp)
    show ?thesis
    proof (cases "code_names code")
      case None
      then show ?thesis using rp assms by (simp add: code2char_internal_def)
    next
      case (Some br)
      then obtain b rm where br: "code_names code = Some (b, rm)" by (cases br) auto
      show ?thesis
      proof (cases "cf_next c")
        case None
        then show ?thesis using rp br assms by (simp add: code2char_internal_def next_only)
      next
        case (Some i)
        obtain res d where r: "scan_entries p rm b rp i False None c = Some (res, d)"
          using scan_entries_defined [OF assms] by fastforce
        then show ?thesis
          using rp br Some scan_entries_from [OF r assms(1)] by (simp add: code2char_internal_def next_only)
      qed
    qed
  qed
  then show ?thesis using plain_parts assms(2) by blast
qed

text \<open>C16: A string of \<open>lirc_code2char\<close> is one of an entry at or behind the position of the search, for the
  program of the caller, and of no mode or of one that was current or that an entry changes to.\<close>

theorem code2char_from_entry:
  assumes "code2char_internal p code c = Some (Some x, c')" "config_ok c"
  shows "\<exists>i. cf_next c = Some i \<and> from_entry p c i x"
proof -
  from assms(1) obtain i rm b rp where i: "cf_next c = Some i"
    and s: "scan_entries p rm b rp i False None c = Some (Some x, c')"
    by (auto simp: code2char_internal_def split: option.splits if_splits bind_splits)
  then show ?thesis using scan_entries_from [OF s assms(2)] by simp
qed

lemma demo_rc_ok: "config_ok demo_rc" "list_all plain_sequence (cf_first demo_rc)"
  by (simp_all add: demo_rc_defs config_ok_def entry_ok_def pos_ok_def plain_sequence_def plain_code_def)

lemma code2char_total_witness:
  "\<exists>out c'. code2char_internal (Some ''vlc'') ''12 00 play tv'' demo_rc = Some (out, c') \<and> config_ok c'"
  using code2char_total [OF demo_rc_ok] by blast

lemma demo_press:
  "code2char_internal (Some ''vlc'') (''12 00 play tv'' @ [CHR 0x0A]) demo_rc =
     Some (Some (''on'', Some ''vlc''), demo_rc\<lparr>cf_next := Some 1, cf_first := [demo_play\<lparr>en_next_config := Some 1\<rparr>, demo_secret]\<rparr>)"
  by code_simp

lemma code2char_from_entry_witness:
  "from_entry (Some ''vlc'') demo_rc 0 (''on'', Some ''vlc'')"
  using code2char_from_entry [OF demo_press demo_rc_ok(1)] by (simp add: demo_rc_def)

end
