(* ===== verification/RcConfigFacts.thy ===== *)
theory RcConfigFacts
  imports RcFacts
begin

text \<open>
  What reading a \<open>.lircrc\<close> file yields: positions at the start of their lists, and the default of \<open>delay\<close>.
\<close>

section \<open>Positions\<close>

definition entries_ok :: "rc_parser \<Rightarrow> bool" where
  "entries_ok s \<longleftrightarrow> (\<forall>e \<in> set (pa_entries s). entry_ok e)"

lemma end_entry_entries:
  assumes "end_entry p chk e s = Some (Some s')"
  shows "\<exists>e'. pa_entries s' = pa_entries s @ [e'] \<and> entry_ok e' \<and> en_code e' = en_code e \<and>
    en_next_code e' = first_of (en_code e) \<and> en_rep e' = en_rep e \<and>
    en_rep_delay e' = (if en_rep_delay e = 0 \<and> en_rep e > 0 then en_rep e - 1 else en_rep_delay e)"
  using assms by (auto simp: end_entry_def Let_def entry_ok_def split: option.splits bind_splits if_splits)

lemma lirc_mode_entries: "lirc_mode p chk t u s = Some (Some s') \<Longrightarrow> entries_ok s \<Longrightarrow> entries_ok s'"
  by (auto simp: lirc_mode_def entries_ok_def split: if_splits option.splits dest!: end_entry_entries)

lemma mode_line_entries: "mode_line p chk ts s = Some (Some s') \<Longrightarrow> entries_ok s \<Longrightarrow> entries_ok s'"
  by (auto simp: mode_line_def entries_ok_def [of "_\<lparr>pa_remote := _\<rparr>"] split: list.splits
      dest!: lirc_mode_entries simp flip: entries_ok_def)

lemma assign_line_entries: "assign_line l s = Some s' \<Longrightarrow> entries_ok s \<Longrightarrow> entries_ok s'"
  by (auto simp: assign_line_def rc_assign_def entries_ok_def Let_def split: if_splits)

lemma read_rc_entries: "read_rc env n path ls s = Some (Some s') \<Longrightarrow> entries_ok s \<Longrightarrow> entries_ok s'"
proof (induction env n path ls s arbitrary: s' rule: read_rc.induct)
  case (2 env n path l ls s)
  then show ?case
    by (auto split: if_splits option.splits prod.splits dest: assign_line_entries) (metis mode_line_entries)+
qed simp

lemma take_startup_entries: "take_startup_mode es = (m, es') \<Longrightarrow> \<forall>e \<in> set es. entry_ok e \<Longrightarrow> \<forall>e \<in> set es'. entry_ok e"
  by (induction es arbitrary: m es') (auto simp: entry_ok_def split: if_splits prod.splits)

lemma startupmode_entries:
  "lirc_startupmode p es = Some (m, es') \<Longrightarrow> \<forall>e \<in> set es. entry_ok e \<Longrightarrow> \<forall>e \<in> set es'. entry_ok e"
  by (auto simp: lirc_startupmode_def mark_startup_def split: prod.splits option.splits if_splits bind_splits
      dest!: take_startup_entries)

text \<open>C17: Whatever the text of the file and of those it includes, the entries that are read have their
  positions within their lists, so that the search for strings starts in a sound state.\<close>

theorem readconfig_sound:
  assumes "readconfig_internal env w file = Some (Some (c, sb))"
  shows "config_ok c \<and> cf_next c = first_of (cf_first c) \<and> cf_sockfd c = - 1"
  using assms
  by (auto simp: readconfig_internal_def config_ok_def rc_parser0_def split: option.splits prod.splits if_splits bind_splits
      dest!: read_rc_entries lirc_mode_entries startupmode_entries simp: entries_ok_def)

section \<open>Repeats\<close>

text \<open>With \<open>repeat = n\<close> and no \<open>delay\<close>, an entry for one button takes exactly every \<open>n\<close>-th repeat.\<close>

theorem default_delay:
  assumes "end_entry p chk e s = Some (Some s')" "en_rep_delay e = 0" "en_rep e > 0"
    "en_code e = [k]" "matches_code k rm b" "0 < rp" "rp < 2 ^ 31"
  shows "\<exists>e'. pa_entries s' = pa_entries s @ [e'] \<and>
    map_option fst (lirc_iscode e' rm b rp) = Some (if uint (en_rep e) dvd rp then 2 else 0)"
proof -
  obtain e' where e': "pa_entries s' = pa_entries s @ [e']" "en_code e' = [k]" "en_next_code e' = Some 0"
    "en_rep e' = en_rep e" "en_rep_delay e' = en_rep e - 1"
    using end_entry_entries [OF assms(1)] assms(2-4) by (auto simp: first_of_def)
  let ?n = "en_rep e" and ?r = "word_of_int rp :: u32"
  have r: "uint ?r = rp" using assms(6,7) by (simp add: uint_word_of_int_eq take_bit_int_eq_self_iff)
  have n: "0 < uint ?n" "uint (?n - 1) = uint ?n - 1"
    using assms(3) by (simp_all add: word_less_def uint_minus_simple_alt [symmetric] uint_sub_if')
  have due: "repeat_due e' rp \<longleftrightarrow> rp \<ge> uint ?n \<and> (?r - ?n) mod ?n = 0"
  proof -
    have "?r - (?n - 1) - 1 = ?r - ?n" by simp
    moreover have "?n - 1 < ?r \<longleftrightarrow> rp \<ge> uint ?n" using r n by (auto simp: word_less_def)
    ultimately show ?thesis using assms(3) unfolding repeat_due_def e' Let_def by metis
  qed
  have "repeat_due e' rp \<longleftrightarrow> uint ?n dvd rp"
  proof (cases "rp \<ge> uint ?n")
    case True
    then have "uint (?r - ?n) = rp - uint ?n" using r by (simp add: uint_sub_if')
    then have "uint ((?r - ?n) mod ?n) = (rp - uint ?n) mod uint ?n" by (simp only: uint_mod_distrib)
    then have "(?r - ?n) mod ?n = 0 \<longleftrightarrow> (rp - uint ?n) mod uint ?n = 0" by (metis uint_0_iff)
    then show ?thesis using True due by (simp add: mod_eq_0_iff_dvd dvd_diff_left_iff)
  next
    case False
    then show ?thesis using due assms(6) zdvd_not_zless by auto
  qed
  then show ?thesis using e' assms(5,6) by (auto simp: lirc_iscode_def Let_def next_of_def)
qed

lemma default_delay_witness:
  "\<exists>e'. map_option fst (lirc_iscode e' ''tv'' ''play'' 6) = Some 2"
proof -
  let ?e = "demo_play\<lparr>en_rep := 3\<rparr>"
  obtain s' where "end_entry None None ?e rc_parser0 = Some (Some s')"
    by (simp add: end_entry_def demo_rc_defs rc_parser0_def)
  from default_delay [OF this, of "demo_code ''play''" "''tv''" "''play''" 6]
  show ?thesis by (auto simp: demo_rc_defs matches_code_def)
qed

definition demo_env :: rc_env where
  "demo_env = \<lparr>re_paths = \<lparr>rp_home = Some ''/home'', rp_user_file = ''.lircrc'', rp_root_file = ''/etc/lircrc'', rp_old_root_file = ''/etc/old''\<rparr>,
     re_files = (\<lambda>n. if n = ''/home/.lircrc'' then Some (''begin'' @ [CHR 0x0A] @ '' button = play'' @ [CHR 0x0A] @ ''end'') else None),
     re_prog = Some ''vlc'', re_check = None\<rparr>"

definition demo_read :: lirc_config where
  "demo_read = \<lparr>cf_mode = None, cf_next = Some 0,
     cf_first = [entry0\<lparr>en_code := [\<lparr>lc_remote = LIRC_ALL, lc_button = Named ''play''\<rparr>], en_next_code := Some 0\<rparr>],
     cf_sockfd = - 1\<rparr>"

lemma demo_env_config: "readconfig_internal demo_env False None = Some (Some (demo_read, None))"
  by code_simp

lemma readconfig_sound_witness: "config_ok demo_read \<and> cf_next demo_read = Some 0"
  using readconfig_sound [OF demo_env_config] by (simp add: first_of_def demo_read_def)

end
