(* ===== verification/RcClient.thy ===== *)
theory RcClient
  imports RcConfig Daemon
begin

text \<open>
  The client library, \<open>tools/lirc_client.c\<close>: codes from \<open>lircd\<close> (\<open>lirc_nextcode\<close>) and the protocol
  with \<open>lircrcd\<close>, which runs the modes for all programs. What reading a socket yields is a list of
  results; every element is one \<open>read\<close>, of which the rest stays when the buffer is too small.
\<close>

datatype sock_read = Got string | Again | Failed

text \<open>One \<open>read\<close> of at most \<open>n\<close> bytes: what it yields, and the input that is left.\<close>

fun read_some :: "nat \<Rightarrow> sock_read list \<Rightarrow> sock_read \<times> sock_read list" where
  "read_some n [] = (Failed, [])"
| "read_some n (Got t # r) = (Got (take n t), if drop n t = [] then r else Got (drop n t) # r)"
| "read_some n (x # r) = (x, r)"

section \<open>Codes from the daemon\<close>

text \<open>The static variables: the buffer, \<open>None\<close> before the first call and after \<open>lirc_deinit\<close>, its size,
  and \<open>end_len\<close>. A fresh buffer has a zero byte at its start and unknown bytes up to \<open>end_len\<close>.\<close>

record nextcode =
  nc_buffer :: "string option"
  nc_packet_size :: nat
  nc_end_len :: nat
  nc_input :: "sock_read list"

definition NEXT_PACKET_SIZE :: nat where [c_eval]: "NEXT_PACKET_SIZE = 100"

text \<open>The first line of the buffer, with its newline, is returned.\<close>

definition take_code :: "string \<Rightarrow> nextcode \<Rightarrow> int \<times> string option \<times> nextcode" where
  "take_code b s =
     (let line = takeWhile (\<lambda>c. c \<noteq> CHR 0x0A) (cstr b) @ [CHR 0x0A]; rest = cstr (drop (length line) b)
      in (0, Some line, s\<lparr>nc_buffer := Some rest, nc_end_len := length rest\<rparr>))"

definition lirc_nextcode :: "nextcode \<Rightarrow> int \<times> string option \<times> nextcode" where
  "lirc_nextcode s =
     (let b = (case nc_buffer s of None \<Rightarrow> replicate (nc_end_len s) (CHR 0x00) | Some b \<Rightarrow> b);
          s = s\<lparr>nc_buffer := Some b\<rparr>
      in if CHR 0x0A \<in> set (cstr b) then take_code b s
         else
           let size = (if nc_end_len s \<ge> nc_packet_size s then nc_packet_size s + NEXT_PACKET_SIZE else nc_packet_size s);
               (x, r) = read_some (size - nc_end_len s) (nc_input s);
               s = s\<lparr>nc_packet_size := size, nc_input := r\<rparr>
           in case x of
                Again \<Rightarrow> (0, None, s)
              | Failed \<Rightarrow> (- 1, None, s)
              | Got t \<Rightarrow>
                  if t = [] then (- 1, None, s)
                  else
                    let b = b @ t; s = s\<lparr>nc_buffer := Some b, nc_end_len := nc_end_len s + length t\<rparr>
                    in if CHR 0x0A \<in> set (cstr b) then take_code b s else (0, None, s))"

definition nextcode_deinit :: "nextcode \<Rightarrow> nextcode" where
  "nextcode_deinit s = s\<lparr>nc_buffer := None\<rparr>"

section \<open>Lines from lircrcd\<close>

definition LIRC_PACKET_SIZE :: nat where [c_eval]: "LIRC_PACKET_SIZE = 255"

text \<open>The static buffer of \<open>lirc_read_string\<close> up to \<open>tail\<close>, and \<open>head\<close>. A timeout is a failed read.\<close>

record rc_reader =
  rd_buffer :: string
  rd_head :: nat
  rd_input :: "sock_read list"

definition pending :: "sock_read list \<Rightarrow> nat" where
  "pending xs = sum_list (map (\<lambda>x. case x of Got t \<Rightarrow> length t | _ \<Rightarrow> 0) xs)"

lemma read_some_pending: "read_some n xs = (Got t, r) \<Longrightarrow> pending xs = length t + pending r"
  by (cases "(n, xs)" rule: read_some.cases) (auto simp: pending_def split: if_splits)

function read_line :: "string \<Rightarrow> sock_read list \<Rightarrow> (string \<times> string) option \<times> sock_read list" where
  "read_line b input =
     (if CHR 0x0A \<in> set (cstr b) then (Some (takeWhile (\<lambda>c. c \<noteq> CHR 0x0A) b, b), input)
      else if LIRC_PACKET_SIZE \<le> length b then (None, input)
      else
        (case read_some (LIRC_PACKET_SIZE - length b) input of
           (Got t, r) \<Rightarrow> if t = [] then (None, r) else read_line (b @ t) r
         | (_, r) \<Rightarrow> (None, r)))"
  by pat_completeness auto
termination
  by (relation "measure (\<lambda>(b, input). pending input)") (auto dest: read_some_pending [OF sym])

declare read_line.simps [simp del]

definition lirc_read_string :: "rc_reader \<Rightarrow> string option \<times> rc_reader" where
  "lirc_read_string s =
     (let b = drop (rd_head s) (rd_buffer s)
      in if cstr b \<noteq> b then (None, s\<lparr>rd_buffer := '''', rd_head := 0\<rparr>)
         else
           (case read_line b (rd_input s) of
              (None, r) \<Rightarrow> (None, \<lparr>rd_buffer = '''', rd_head = 0, rd_input = r\<rparr>)
            | (Some (line, b), r) \<Rightarrow> (Some line, \<lparr>rd_buffer = b, rd_head = length line + 1, rd_input = r\<rparr>)))"

section \<open>Replies\<close>

datatype packet_state = PS_BEGIN | PS_MESSAGE | PS_STATUS | PS_DATA | PS_N | PS_DATA_N | PS_END

text \<open>The local variables of \<open>lirc_send_command\<close>; \<open>pk_copied\<close> are the strings that have been copied to
  the caller's buffer, one after the other, each with its zero byte.\<close>

record packet =
  pk_state :: packet_state
  pk_status :: int
  pk_n :: nat
  pk_data_n :: u32
  pk_copied :: "string list"
  pk_written :: nat

definition packet0 :: packet where
  "packet0 = \<lparr>pk_state = PS_BEGIN, pk_status = 0, pk_n = 0, pk_data_n = 0, pk_copied = [], pk_written = 0\<rparr>"

datatype packet_step = More packet | Good packet | Bad

definition packet_line :: "string \<Rightarrow> nat \<Rightarrow> string \<Rightarrow> packet \<Rightarrow> packet_step" where
  "packet_line command cap t p =
     (case pk_state p of
        PS_BEGIN \<Rightarrow> More (if strcaseeq t ''BEGIN'' then p\<lparr>pk_state := PS_MESSAGE\<rparr> else p)
      | PS_MESSAGE \<Rightarrow>
          More (if strcaseeq t (take (length t) command) \<and> length t + 1 = length command
                then p\<lparr>pk_state := PS_STATUS\<rparr> else p\<lparr>pk_state := PS_BEGIN\<rparr>)
      | PS_STATUS \<Rightarrow>
          if strcaseeq t ''SUCCESS'' then More (p\<lparr>pk_status := 0, pk_state := PS_DATA\<rparr>)
          else if strcaseeq t ''END'' then Good (p\<lparr>pk_status := 0\<rparr>)
          else if strcaseeq t ''ERROR'' then More (p\<lparr>pk_status := - 1, pk_state := PS_DATA\<rparr>)
          else Bad
      | PS_DATA \<Rightarrow>
          if strcaseeq t ''END'' then Good p
          else if strcaseeq t ''DATA'' then More (p\<lparr>pk_state := PS_N\<rparr>)
          else Bad
      | PS_N \<Rightarrow>
          (case strtoull t of (v, rest, erange) \<Rightarrow>
             if t = [] \<or> rest \<noteq> [] then Bad
             else More (p\<lparr>pk_data_n := ucast v, pk_state := (if (ucast v :: u32) = 0 then PS_END else PS_DATA_N)\<rparr>))
      | PS_DATA_N \<Rightarrow>
          let copied = (if pk_written p + length t + 1 < cap then pk_copied p @ [t] else pk_copied p);
              n = Suc (pk_n p)
          in More (p\<lparr>pk_copied := copied, pk_written := pk_written p + length t + 1, pk_n := n,
                     pk_state := (if int n = uint (pk_data_n p) then PS_END else PS_DATA_N)\<rparr>)
      | PS_END \<Rightarrow> if strcaseeq t ''END'' then Good p else Bad)"

definition unread_bytes :: "rc_reader \<Rightarrow> nat" where
  "unread_bytes s = length (drop (rd_head s) (rd_buffer s)) + pending (rd_input s)"

lemma read_line_pending:
  "read_line b input = (Some (line, b'), r) \<Longrightarrow>
     length b' + pending r = length b + pending input \<and> length line < length b'"
proof (induction b input arbitrary: line b' r rule: read_line.induct)
  case (1 b input)
  show ?case
  proof (cases "CHR 0x0A \<in> set (cstr b)")
    case True
    then have "CHR 0x0A \<in> set b" unfolding cstr_def by (blast dest: set_takeWhileD)
    then have "length (takeWhile (\<lambda>c. c \<noteq> CHR 0x0A) b) < length b" by (induction b) auto
    then show ?thesis using 1(2) True by (subst (asm) read_line.simps) auto
  next
    case False
    then show ?thesis
      using 1(1) 1(2) [unfolded read_line.simps [of b input]] read_some_pending [of _ input]
      by (auto split: if_splits prod.splits sock_read.splits)
  qed
qed

lemma lirc_read_string_shorter:
  "lirc_read_string s = (Some line, s') \<Longrightarrow> unread_bytes s' < unread_bytes s"
  by (auto simp: lirc_read_string_def unread_bytes_def Let_def split: prod.splits option.splits if_splits
      dest!: read_line_pending)

text \<open>The loop that receives a reply: \<open>None\<close> is the return value \<open>-1\<close>.\<close>

function receive_packet :: "string \<Rightarrow> nat \<Rightarrow> packet \<Rightarrow> rc_reader \<Rightarrow> packet option \<times> rc_reader" where
  "receive_packet command cap p s =
     (case lirc_read_string s of
        (None, s) \<Rightarrow> (None, s)
      | (Some t, s) \<Rightarrow>
          (case packet_line command cap t p of
             More p \<Rightarrow> receive_packet command cap p s
           | Good p \<Rightarrow> (Some p, s)
           | Bad \<Rightarrow> (None, s)))"
  by pat_completeness auto
termination
  by (relation "measure (\<lambda>(c, m, p, s). unread_bytes s)") (auto dest: lirc_read_string_shorter [OF sym])

declare receive_packet.simps [simp del]

text \<open>\<open>lirc_send_command\<close>, after its \<open>write\<close>s (\<open>written\<close> says whether they succeeded): the number of
  strings, the status, which is only set for a good packet, and the strings in the buffer.\<close>

definition lirc_send_command ::
  "bool \<Rightarrow> string \<Rightarrow> nat \<Rightarrow> rc_reader \<Rightarrow> (int \<times> int option \<times> string list) \<times> rc_reader" where
  "lirc_send_command written command cap s =
     (if \<not> written then ((- 1, None, []), s)
      else (case receive_packet command cap packet0 s of
              (None, s) \<Rightarrow> ((- 1, None, []), s)
            | (Some p, s) \<Rightarrow> ((i32 (uint (pk_data_n p)), Some (pk_status p), pk_copied p), s)))"

text \<open>What a caller takes from the reply. \<open>junk\<close> is the value of its variable for the status when
  \<open>lirc_send_command\<close> has not set it, \<open>old\<close> the string in its static buffer, which stays there when no
  new one is copied. The results: success, the string, and the string that is in the buffer now.\<close>

definition reply_string :: "int \<Rightarrow> string \<Rightarrow> int \<times> int option \<times> string list \<Rightarrow> bool \<times> string option \<times> string" where
  "reply_string junk old r =
     (case r of (n, status, ts) \<Rightarrow>
        let b = (case ts of [] \<Rightarrow> old | t # _ \<Rightarrow> t)
        in if (case status of None \<Rightarrow> junk | Some v \<Rightarrow> v) = 0 then (True, if n > 0 then Some b else None, b)
           else (False, None, b))"

text \<open>The connection to \<open>lircrcd\<close>: the reader, whether writing succeeds, the value of the uninitialised
  variable, and the static buffers of the three functions.\<close>

record rc_link =
  ln_reader :: rc_reader
  ln_written :: bool
  ln_junk :: int
  ln_getmode :: string
  ln_setmode :: string
  ln_code :: string

definition link_command :: "string \<Rightarrow> string \<Rightarrow> rc_link \<Rightarrow> (bool \<times> string option \<times> string) \<times> rc_link" where
  "link_command cmd old l =
     (case lirc_send_command (ln_written l) cmd LIRC_PACKET_SIZE (ln_reader l) of
        (r, s) \<Rightarrow> (reply_string (ln_junk l) old r, l\<lparr>ln_reader := s\<rparr>))"

definition lirc_getmode :: "lirc_config \<Rightarrow> rc_link \<Rightarrow> string option \<times> rc_link" where
  "lirc_getmode c l =
     (if cf_sockfd c \<noteq> - 1
      then (case link_command (''GETMODE'' @ [CHR 0x0A]) (ln_getmode l) l of
              ((ok, t, b), l) \<Rightarrow> (t, l\<lparr>ln_getmode := b\<rparr>))
      else (cf_mode c, l))"

definition setmode_command :: "string option \<Rightarrow> string" where
  "setmode_command m = ''SETMODE'' @ (case m of None \<Rightarrow> [] | Some t \<Rightarrow> CHR '' '' # t) @ [CHR 0x0A]"

definition lirc_setmode ::
  "string option \<Rightarrow> lirc_config \<Rightarrow> rc_link \<Rightarrow> string option \<times> lirc_config \<times> rc_link" where
  "lirc_setmode m c l =
     (if cf_sockfd c \<noteq> - 1 then
        (if length (setmode_command m) \<ge> LIRC_PACKET_SIZE then (None, c, l)
         else (case link_command (setmode_command m) (ln_setmode l) l of
                 ((ok, t, b), l) \<Rightarrow> (t, c, l\<lparr>ln_setmode := b\<rparr>)))
      else (m, c\<lparr>cf_mode := m\<rparr>, l))"

definition lirc_code2char ::
  "string option \<Rightarrow> string \<Rightarrow> lirc_config \<Rightarrow> rc_link \<Rightarrow> (bool \<times> string option \<times> lirc_config \<times> rc_link) option" where
  "lirc_code2char lirc_prog code c l =
     (if cf_sockfd c \<noteq> - 1
      then (case link_command (''CODE '' @ code) (ln_code l) l of
              ((ok, t, b), l) \<Rightarrow> Some (ok, if ok then t else None, c, l\<lparr>ln_code := b\<rparr>))
      else map_option (\<lambda>(out, c). (True, map_option fst out, c, l)) (code2char_internal lirc_prog code c))"

definition lirc_identify :: "string \<Rightarrow> rc_link \<Rightarrow> int \<times> rc_link" where
  "lirc_identify lirc_prog l =
     (case lirc_send_command (ln_written l) (''IDENT '' @ lirc_prog @ [CHR 0x0A]) 0 (ln_reader l) of
        ((n, status, ts), s) \<Rightarrow> (case status of None \<Rightarrow> ln_junk l | Some v \<Rightarrow> v, l\<lparr>ln_reader := s\<rparr>))"

definition lirc_getsocketname :: "string \<Rightarrow> nat \<Rightarrow> string option \<times> nat" where
  "lirc_getsocketname filename sz =
     (if length filename + 2 \<le> sz then Some (filename @ ''d'') else None, length filename + 2)"

section \<open>Connecting to lircrcd\<close>

text \<open>What the system answers to \<open>lirc_readconfig\<close>: the sockets (\<open>-1\<close> when there is none), whether they
  connect, and whether the interpreter of the file could be launched.\<close>

record rc_connect =
  rn_socket :: int
  rn_connected :: bool
  rn_launched :: bool
  rn_socket2 :: int
  rn_connected2 :: bool

definition SUN_PATH :: nat where [c_eval]: "SUN_PATH = 108"

text \<open>\<open>Some None\<close> is the return value \<open>-1\<close>. When the second socket cannot be opened, \<open>sha_bang\<close> and
  \<open>filename\<close> are freed twice.\<close>

definition lirc_readconfig ::
  "rc_env \<Rightarrow> string \<Rightarrow> rc_connect \<Rightarrow> string option \<Rightarrow> rc_link \<Rightarrow> (lirc_config option \<times> rc_link) option" where
  "lirc_readconfig env lirc_prog n file l =
     (case readconfig_internal env True file of
        None \<Rightarrow> None
      | Some None \<Rightarrow> Some (None, l)
      | Some (Some (c, sha_bang)) \<Rightarrow>
          let filename = (case lirc_open (re_paths env) (re_files env) file None of None \<Rightarrow> [] | Some (path, t) \<Rightarrow> path);
              identify = (\<lambda>fd. case lirc_identify lirc_prog l of
                (r, l) \<Rightarrow> (if r = 0 then Some (c\<lparr>cf_sockfd := fd\<rparr>) else None, l))
          in if sha_bang = None \<or> snd (lirc_getsocketname filename SUN_PATH) > SUN_PATH \<or> rn_socket n = - 1
             then Some (Some c, l)
             else if rn_connected n then Some (identify (rn_socket n))
             else if \<not> rn_launched n then Some (Some c, l)
             else if rn_socket2 n = - 1 then None
             else if rn_connected2 n then Some (identify (rn_socket2 n))
             else Some (None, l))"

end
