(* ===== verification/RcDaemon.thy ===== *)
theory RcDaemon
  imports RcClient Clients
begin

text \<open>
  \<open>tools/lircrcd.c\<close>: the daemon that runs one \<open>.lircrc\<close> file for all programs. Its clients ask for the
  strings of a code (\<open>CODE\<close>); what the entries yield is queued for every client. \<open>rcd_config\<close> is read with
  \<open>lirc_readconfig_only\<close>, so that the functions of the library work on it directly. Sockets are as in
  theory Daemon. A function returns \<open>None\<close> for a fault.
\<close>

section \<open>State\<close>

record event_info =
  ei_code :: string
  ei_first :: "string list"

record client_data =
  cd_fd :: int
  cd_ident :: "string option"
  cd_events :: "event_info list"
  cd_pending :: "string option"

record lircrcd =
  rcd_clis :: "client_data list"
  rcd_config :: lirc_config
  rcd_link :: rc_link
  rcd_lircd :: nextcode
  rcd_sent :: "(int \<times> string) list"
  rcd_wr_ok :: "nat \<Rightarrow> bool"
  rcd_wr_count :: nat
  rcd_incoming :: "int \<Rightarrow> string option list"

definition rcd_client :: "(client_data \<Rightarrow> client_data) \<Rightarrow> nat \<Rightarrow> lircrcd \<Rightarrow> lircrcd" where
  "rcd_client f i s = s\<lparr>rcd_clis := (rcd_clis s)[i := f (rcd_clis s ! i)]\<rparr>"

fun fd_index :: "int \<Rightarrow> client_data list \<Rightarrow> nat option" where
  "fd_index fd [] = None"
| "fd_index fd (c # cs) = (if fd = cd_fd c then Some 0 else map_option Suc (fd_index fd cs))"

definition get_client_index :: "int \<Rightarrow> lircrcd \<Rightarrow> nat option" where
  "get_client_index fd s = fd_index fd (rcd_clis s)"

text \<open>The mode of the socket on the command line; \<open>-1\<close> for a text that is no octal number.\<close>

definition oatoi :: "string \<Rightarrow> int" where
  "oatoi s =
     (let ds = takeWhile is_octal s
      in if s = [] \<or> ds \<noteq> s then - 1 else fold (\<lambda>c n. i32 (n * 8 + of_char c - 48)) ds 0)"

section \<open>Sockets and replies\<close>

definition rcd_write :: "int \<Rightarrow> string \<Rightarrow> lircrcd \<Rightarrow> bool \<times> lircrcd" where
  "rcd_write fd t s =
     (if t = [] then (True, s)
      else if rcd_wr_ok s (rcd_wr_count s)
      then (True, s\<lparr>rcd_sent := rcd_sent s @ [(fd, t)], rcd_wr_count := Suc (rcd_wr_count s)\<rparr>)
      else (False, s\<lparr>rcd_wr_count := Suc (rcd_wr_count s)\<rparr>))"

fun rcd_write_all :: "int \<Rightarrow> string list \<Rightarrow> lircrcd \<Rightarrow> bool \<times> lircrcd" where
  "rcd_write_all fd [] s = (True, s)"
| "rcd_write_all fd (t # ts) s =
     (case rcd_write fd t s of (ok, s) \<Rightarrow> if ok then rcd_write_all fd ts s else (False, s))"

definition rcd_read :: "int \<Rightarrow> nat \<Rightarrow> lircrcd \<Rightarrow> string option \<times> lircrcd" where
  "rcd_read fd len s =
     (case rcd_incoming s fd of
        [] \<Rightarrow> (Some '''', s)
      | None # rest \<Rightarrow> (None, s\<lparr>rcd_incoming := (rcd_incoming s)(fd := rest)\<rparr>)
      | Some t # rest \<Rightarrow>
          (Some (take len t),
           s\<lparr>rcd_incoming := (rcd_incoming s)(fd := (if drop len t = [] then rest else Some (drop len t) # rest))\<rparr>))"

definition rcd_result :: "int \<Rightarrow> string \<Rightarrow> string \<Rightarrow> lircrcd \<Rightarrow> bool \<times> lircrcd" where
  "rcd_result fd message result s =
     rcd_write_all fd [P_BEGIN, message, P_SUCCESS, P_DATA, ''1'' @ endl, result @ endl, P_END] s"

definition rcd_success :: "int \<Rightarrow> string \<Rightarrow> lircrcd \<Rightarrow> bool \<times> lircrcd" where
  "rcd_success fd message s = rcd_write_all fd [P_BEGIN, message, P_SUCCESS, P_END] s"

text \<open>The text is formatted into \<open>PACKET_SIZE + 1\<close> bytes.\<close>

definition rcd_error :: "int \<Rightarrow> string \<Rightarrow> string \<Rightarrow> lircrcd \<Rightarrow> (bool \<times> lircrcd) option" where
  "rcd_error fd message text s =
     (if length text > PACKET_SIZE then None
      else Some (rcd_write_all fd
             [P_BEGIN, message, P_ERROR, P_DATA, show_int (int (length (filter (\<lambda>c. c = CHR 0x0A) text))) @ endl, text, P_END] s))"

section \<open>Directives\<close>

text \<open>The head of the queue answers \<open>CODE\<close>: its next string, or, after the last, that there is none.
  Without a queue the request waits.\<close>

definition code_func :: "int \<Rightarrow> string \<Rightarrow> string option \<Rightarrow> lircrcd \<Rightarrow> (bool \<times> lircrcd) option" where
  "code_func fd message arguments s =
     (case arguments of
        None \<Rightarrow> rcd_error fd message (''protocol error'' @ endl) s
      | Some a \<Rightarrow>
          (case get_client_index fd s of
             None \<Rightarrow> rcd_error fd message (''identify yourself first!'' @ endl) s
           | Some i \<Rightarrow>
               let c = rcd_clis s ! i
               in if cd_pending c \<noteq> None then rcd_error fd message (''protocol error'' @ endl) s
                  else
                    (case cd_events c of
                       [] \<Rightarrow> Some (True, rcd_client (\<lambda>c. c\<lparr>cd_pending := Some a\<rparr>) i s)
                     | e # es \<Rightarrow>
                         if ei_code e = a then
                           (case ei_first e of
                              t # ts \<Rightarrow>
                                (case rcd_result fd message t s of
                                   (ok, s) \<Rightarrow> Some (ok, rcd_client (\<lambda>c. c\<lparr>cd_events := e\<lparr>ei_first := ts\<rparr> # es\<rparr>) i s))
                            | [] \<Rightarrow> Some (rcd_success fd message (rcd_client (\<lambda>c. c\<lparr>cd_events := es\<rparr>) i s)))
                         else Some (rcd_success fd message s))))"

definition ident_func :: "int \<Rightarrow> string \<Rightarrow> string option \<Rightarrow> lircrcd \<Rightarrow> (bool \<times> lircrcd) option" where
  "ident_func fd message arguments s =
     (case arguments of
        None \<Rightarrow> rcd_error fd message (''protocol error'' @ endl) s
      | Some a \<Rightarrow>
          do { i \<leftarrow> get_client_index fd s;
               if cd_ident (rcd_clis s ! i) \<noteq> None then rcd_error fd message (''protocol error'' @ endl) s
               else Some (rcd_success fd message (rcd_client (\<lambda>c. c\<lparr>cd_ident := Some a\<rparr>) i s)) })"

definition getmode_func :: "int \<Rightarrow> string \<Rightarrow> string option \<Rightarrow> lircrcd \<Rightarrow> (bool \<times> lircrcd) option" where
  "getmode_func fd message arguments s =
     (if arguments \<noteq> None then rcd_error fd message (''protocol error'' @ endl) s
      else (case lirc_getmode (rcd_config s) (rcd_link s) of
              (m, l) \<Rightarrow>
                let s = s\<lparr>rcd_link := l\<rparr>
                in Some (case m of Some t \<Rightarrow> rcd_result fd message t s | None \<Rightarrow> rcd_success fd message s)))"

definition setmode_func :: "int \<Rightarrow> string \<Rightarrow> string option \<Rightarrow> lircrcd \<Rightarrow> (bool \<times> lircrcd) option" where
  "setmode_func fd message arguments s =
     (case lirc_setmode arguments (rcd_config s) (rcd_link s) of
        (m, c, l) \<Rightarrow>
          let s = s\<lparr>rcd_config := c, rcd_link := l\<rparr>
          in case m of
               Some t \<Rightarrow> Some (rcd_result fd message t s)
             | None \<Rightarrow> if arguments = None then Some (rcd_success fd message s)
                       else rcd_error fd message (''out of memory'' @ endl) s)"

definition rcd_directive ::
  "int \<Rightarrow> string \<Rightarrow> string \<Rightarrow> string option \<Rightarrow> lircrcd \<Rightarrow> (bool \<times> lircrcd) option" where
  "rcd_directive fd message w arguments s =
     (if strcaseeq w ''CODE'' then code_func fd message arguments s
      else if strcaseeq w ''IDENT'' then ident_func fd message arguments s
      else if strcaseeq w ''GETMODE'' then getmode_func fd message arguments s
      else if strcaseeq w ''SETMODE'' then setmode_func fd message arguments s
      else rcd_error fd message (quoted ''unknown directive: '' w) s)"

definition rcd_line :: "int \<Rightarrow> string \<Rightarrow> lircrcd \<Rightarrow> (bool \<times> lircrcd) option" where
  "rcd_line fd line s =
     (case first_word line of
        None \<Rightarrow> rcd_error fd (line @ endl) (''bad send packet'' @ endl) s
      | Some (w, arguments) \<Rightarrow> rcd_directive fd (line @ endl) w arguments s)"

section \<open>The lines of a client\<close>

lemma rcd_write_frame [simp]:
  "rcd_incoming (snd (rcd_write fd t s)) = rcd_incoming s" "rcd_clis (snd (rcd_write fd t s)) = rcd_clis s"
  "rcd_config (snd (rcd_write fd t s)) = rcd_config s" "rcd_lircd (snd (rcd_write fd t s)) = rcd_lircd s"
  "rcd_wr_ok (snd (rcd_write fd t s)) = rcd_wr_ok s"
  by (simp_all add: rcd_write_def)

lemma rcd_write_all_frame [simp]:
  "rcd_incoming (snd (rcd_write_all fd ts s)) = rcd_incoming s"
  "rcd_clis (snd (rcd_write_all fd ts s)) = rcd_clis s"
  "rcd_config (snd (rcd_write_all fd ts s)) = rcd_config s"
  "rcd_lircd (snd (rcd_write_all fd ts s)) = rcd_lircd s"
  "rcd_wr_ok (snd (rcd_write_all fd ts s)) = rcd_wr_ok s"
proof (induction ts arbitrary: s)
  case (Cons t ts)
  { case 1 show ?case using Cons(1) [of "snd (rcd_write fd t s)"] rcd_write_frame(1) [of fd t s]
      by (cases "rcd_write fd t s") auto }
  { case 2 show ?case using Cons(2) [of "snd (rcd_write fd t s)"] rcd_write_frame(2) [of fd t s]
      by (cases "rcd_write fd t s") auto }
  { case 3 show ?case using Cons(3) [of "snd (rcd_write fd t s)"] rcd_write_frame(3) [of fd t s]
      by (cases "rcd_write fd t s") auto }
  { case 4 show ?case using Cons(4) [of "snd (rcd_write fd t s)"] rcd_write_frame(4) [of fd t s]
      by (cases "rcd_write fd t s") auto }
  { case 5 show ?case using Cons(5) [of "snd (rcd_write fd t s)"] rcd_write_frame(5) [of fd t s]
      by (cases "rcd_write fd t s") auto }
qed simp_all

declare rcd_write_all.simps [simp del]

lemma rcd_client_frame [simp]:
  "rcd_incoming (rcd_client f i s) = rcd_incoming s" "length (rcd_clis (rcd_client f i s)) = length (rcd_clis s)"
  "rcd_config (rcd_client f i s) = rcd_config s" "rcd_lircd (rcd_client f i s) = rcd_lircd s"
  by (simp_all add: rcd_client_def)

text \<open>What writing to clients, an update of one client and of the configuration keep, every directive keeps.
  The update may make a client wait when it has no events.\<close>

lemma fd_index_Some: "fd_index fd cs = Some i \<Longrightarrow> i < length cs \<and> cd_fd (cs ! i) = fd"
  by (induction fd cs arbitrary: i rule: fd_index.induct) (auto split: if_splits)

locale rcd_relation =
  fixes R :: "lircrcd \<Rightarrow> lircrcd \<Rightarrow> bool"
  assumes trans: "R s t \<Longrightarrow> R t u \<Longrightarrow> R s u"
    and written: "rcd_write_all fd ts s = (ok, s') \<Longrightarrow> R s s'"
    and config: "R s (s\<lparr>rcd_config := c, rcd_link := l\<rparr>)"
    and client: "i < length (rcd_clis s) \<Longrightarrow> cd_fd (f (rcd_clis s ! i)) = cd_fd (rcd_clis s ! i) \<Longrightarrow>
      (cd_pending (rcd_clis s ! i) \<noteq> None \<longrightarrow> cd_events (rcd_clis s ! i) = []) \<longrightarrow>
      (cd_pending (f (rcd_clis s ! i)) \<noteq> None \<longrightarrow> cd_events (f (rcd_clis s ! i)) = []) \<Longrightarrow> R s (rcd_client f i s)"
begin

lemma error: "rcd_error fd m t s = Some (ok, s') \<Longrightarrow> R s s'"
  by (auto simp: rcd_error_def split: if_splits intro: written)

lemma reply: "rcd_success fd m s = (ok, s') \<Longrightarrow> R s s'" "rcd_result fd m t s = (ok, s') \<Longrightarrow> R s s'"
  by (auto simp: rcd_success_def rcd_result_def intro: written)

lemma code:
  assumes f: "code_func fd m args s = Some (ok, s')"
  shows "R s s'"
proof (cases "\<exists>a i. args = Some a \<and> get_client_index fd s = Some i \<and> cd_pending (rcd_clis s ! i) = None")
  case False
  then have "\<exists>t. rcd_error fd m t s = Some (ok, s')"
    using f by (auto simp: code_func_def Let_def split: option.splits)
  then show ?thesis using error by blast
next
  case True
  then obtain a i where i: "args = Some a" "get_client_index fd s = Some i" "cd_pending (rcd_clis s ! i) = None" by blast
  then have l: "i < length (rcd_clis s)" using fd_index_Some by (auto simp: get_client_index_def)
  show ?thesis
  proof (cases "cd_events (rcd_clis s ! i)")
    case Nil
    then have "s' = rcd_client (\<lambda>c. c\<lparr>cd_pending := Some a\<rparr>) i s" using f i by (simp add: code_func_def Let_def)
    then show ?thesis using client [OF l] Nil by simp
  next
    case (Cons e es)
    show ?thesis
    proof (cases "\<exists>t ts. ei_code e = a \<and> ei_first e = t # ts")
      case True
      then obtain t ts u where u: "rcd_result fd m t s = (ok, u)"
        "s' = rcd_client (\<lambda>c. c\<lparr>cd_events := e\<lparr>ei_first := ts\<rparr> # es\<rparr>) i u"
        using f i Cons by (auto simp: code_func_def Let_def split: prod.splits)
      have "rcd_clis u = rcd_clis s"
        using u(1) rcd_write_all_frame(2) by (metis rcd_result_def snd_conv)
      then have "R u s'" unfolding u(2) using l i(3) by (intro client) simp_all
      then show ?thesis using reply(2) [OF u(1)] trans by blast
    next
      case False
      have "R s (rcd_client (\<lambda>c. c\<lparr>cd_events := es\<rparr>) i s)" using l i(3) by (intro client) simp_all
      moreover have "rcd_success fd m s = (ok, s') \<or> rcd_success fd m (rcd_client (\<lambda>c. c\<lparr>cd_events := es\<rparr>) i s) = (ok, s')"
        using f i Cons False by (auto simp: code_func_def Let_def split: if_splits list.splits)
      ultimately show ?thesis using reply(1) trans by blast
    qed
  qed
qed

lemma ident:
  assumes f: "ident_func fd m args s = Some (ok, s')"
  shows "R s s'"
proof (cases "\<exists>t. rcd_error fd m t s = Some (ok, s')")
  case True
  then show ?thesis using error by blast
next
  case False
  then obtain a i where i: "get_client_index fd s = Some i"
    "rcd_success fd m (rcd_client (\<lambda>c. c\<lparr>cd_ident := Some a\<rparr>) i s) = (ok, s')"
    using f by (auto simp: ident_func_def split: option.splits bind_splits if_splits)
  then have "i < length (rcd_clis s)" using fd_index_Some by (auto simp: get_client_index_def)
  then have "R s (rcd_client (\<lambda>c. c\<lparr>cd_ident := Some a\<rparr>) i s)" by (intro client) simp_all
  then show ?thesis using reply(1) [OF i(2)] trans by blast
qed

lemma modes:
  "getmode_func fd m a s = Some (ok, s') \<Longrightarrow> R s s'"
  "setmode_func fd m a s = Some (ok, s') \<Longrightarrow> R s s'"
proof -
  have c: "R s t" if "R (s\<lparr>rcd_config := c, rcd_link := l\<rparr>) t" for c l t
    using config that by (rule trans)
  have k: "R s t" if "R (s\<lparr>rcd_link := l\<rparr>) t" for l t
    using c [where c = "rcd_config s" and l = l and t = t] that by simp
  show "getmode_func fd m a s = Some (ok, s') \<Longrightarrow> R s s'"
    by (auto simp: getmode_func_def Let_def split: option.splits if_splits prod.splits intro: error dest!: reply k)
  show "setmode_func fd m a s = Some (ok, s') \<Longrightarrow> R s s'"
    by (auto simp: setmode_func_def Let_def split: option.splits if_splits prod.splits dest!: error reply c)
qed

lemma line: "rcd_line fd line s = Some (ok, s') \<Longrightarrow> R s s'"
  by (auto simp: rcd_line_def rcd_directive_def split: option.splits if_splits
      intro: error code ident modes)

end

definition rcd_same :: "lircrcd \<Rightarrow> lircrcd \<Rightarrow> bool" where
  "rcd_same s s' \<longleftrightarrow> rcd_incoming s' = rcd_incoming s \<and> length (rcd_clis s') = length (rcd_clis s)"

interpretation same: rcd_relation rcd_same
proof
  show "rcd_write_all fd ts s = (ok, s') \<Longrightarrow> rcd_same s s'" for fd ts s ok s'
    using rcd_write_all_frame [of fd ts s] by (simp add: rcd_same_def)
qed (simp_all add: rcd_same_def)

lemmas rcd_same_line = same.line

definition rcd_unread :: "int \<Rightarrow> lircrcd \<Rightarrow> nat" where
  "rcd_unread fd s = sum_list (map (\<lambda>r. case r of None \<Rightarrow> 0 | Some t \<Rightarrow> length t) (rcd_incoming s fd))"

lemma rcd_read_unread: "rcd_read fd len s = (Some t, s') \<Longrightarrow> length t + rcd_unread fd s' = rcd_unread fd s"
  by (auto simp: rcd_read_def rcd_unread_def split: list.splits option.splits if_splits)

lemma rcd_line_unread: "rcd_line fd line s = Some (ok, s') \<Longrightarrow> rcd_unread fd s' = rcd_unread fd s"
  by (drule rcd_same_line) (simp add: rcd_same_def rcd_unread_def)

text \<open>The loop of \<open>get_command\<close>: \<open>b\<close> is what the buffer holds.\<close>

function rcd_lines :: "int \<Rightarrow> string \<Rightarrow> lircrcd \<Rightarrow> (bool \<times> lircrcd) option" where
  "rcd_lines fd b s =
     (case next_line b of
        None \<Rightarrow> Some (False, s)
      | Some (line, rest) \<Rightarrow>
          (case rcd_line fd line s of
             None \<Rightarrow> None
           | Some (ok, s) \<Rightarrow>
               if \<not> ok then Some (False, s)
               else if rest = [] then Some (True, s)
               else if CHR 0x0A \<in> set (cstr rest) then rcd_lines fd rest s
               else (case rcd_read fd (PACKET_SIZE - length rest) s of
                       (None, s) \<Rightarrow> Some (True, s)
                     | (Some t, s) \<Rightarrow> if t = [] then Some (False, s) else rcd_lines fd (rest @ t) s)))"
  by pat_completeness auto
termination
  by (relation "measure (\<lambda>(fd, b, s). length b + rcd_unread fd s)")
    (auto dest!: next_line_shorter rcd_line_unread rcd_read_unread [OF sym])

declare rcd_lines.simps [simp del]

definition rcd_command :: "int \<Rightarrow> lircrcd \<Rightarrow> (bool \<times> lircrcd) option" where
  "rcd_command fd s =
     (case rcd_read fd PACKET_SIZE s of
        (None, s) \<Rightarrow> Some (True, s)
      | (Some t, s) \<Rightarrow> if t = [] then Some (False, s) else rcd_lines fd t s)"

end
