(* ===== verification/RcServe.thy ===== *)
theory RcServe
  imports RcDaemon
begin

text \<open>
  \<open>tools/lircrcd.c\<close>: what happens with a code from \<open>lircd\<close> (\<open>handle_input\<close>), and the main loop. What
  \<open>select\<close> reports is a list of answers, as in theory MainLoop.
\<close>

section \<open>The position among the entries\<close>

lemma cf_next_execute: "lirc_execute p c i = (s, c') \<Longrightarrow> cf_next c' = cf_next c"
  by (auto simp: lirc_execute_def lirc_clearmode_def Let_def split: option.splits if_splits)

text \<open>A string is found behind the position, and the next search starts behind it, or not at all.\<close>

definition next_within :: "nat \<Rightarrow> lirc_config \<Rightarrow> bool" where
  "next_within i c \<longleftrightarrow> (case cf_next c of None \<Rightarrow> True | Some j \<Rightarrow> i < j \<and> j < length (cf_first c))"

lemma scan_entries_next:
  "scan_entries p rm b rp i q out c = Some (Some x, c') \<Longrightarrow> (if q then cf_next c = None else out = None) \<Longrightarrow>
     next_within i c' \<and> length (cf_first c') = length (cf_first c)"
proof (induction p rm b rp i q out c rule: scan_entries.induct)
  case (1 p rm b rp i q out c)
  note ih = 1(1-3) and r = 1(4) [unfolded scan_entries.simps [of p rm b rp i]] and q = 1(5)
  show ?case
  proof (cases "i < length (cf_first c)")
    case False
    then show ?thesis using r q by (auto simp: next_within_def split: if_splits)
  next
    case i: True
    then obtain level e where l: "lirc_iscode (cf_first c ! i) rm b rp = Some (level, e)"
      using r by (auto split: option.splits)
    let ?c = "c\<lparr>cf_first := (cf_first c)[i := e]\<rparr>"
    have later: "next_within i c' \<and> length (cf_first c') = length (cf_first c)"
      if "next_within (Suc i) c' \<and> length (cf_first c') = length (cf_first c)"
      using that by (auto simp: next_within_def split: option.splits)
    show ?thesis
    proof (cases "level > 0 \<and> in_mode ?c e \<and> \<not> q")
      case False
      then show ?thesis using r i l q ih(3) [OF i l refl refl False] later by auto
    next
      case True
      obtain s c2 where x: "(if level > 1 then lirc_execute p ?c i else (None, ?c)) = (s, c2)" by fastforce
      then have c2: "length (cf_first c2) = length (cf_first c)" "cf_next c2 = cf_next c"
        by (auto split: if_splits dest: length_execute cf_next_execute)
      let ?out = "map_option (\<lambda>t. (t, en_prog e)) s"
      consider (quit) "has_flag rc_quit (cf_first c2 ! i)" | (found) "\<not> has_flag rc_quit (cf_first c2 ! i)" "s \<noteq> None"
        | (none) "\<not> has_flag rc_quit (cf_first c2 ! i)" "\<not> s \<noteq> None" by blast
      then show ?thesis
      proof cases
        case quit
        then show ?thesis
          using r i l True x c2 later ih(1) [OF i l refl refl True x [symmetric] refl refl quit] by simp
      next
        case found
        then show ?thesis using r i l True x c2 by (auto simp: next_of_def next_within_def)
      next
        case none
        then show ?thesis
          using r i l True x c2 q later ih(2) [OF i l refl refl True x [symmetric] refl refl none] by simp
      qed
    qed
  qed
qed

lemma scan_from_next:
  "scan_entries p rm b rp i False None c = Some (Some x, c') \<Longrightarrow> next_within i c'"
  "scan_entries p rm b rp i False None c = Some (Some x, c') \<Longrightarrow> length (cf_first c') = length (cf_first c)"
  by (auto dest: scan_entries_next)

lemma code2char_internal_next:
  assumes "code2char_internal p code c = Some (Some x, c')"
  shows "\<exists>i. cf_next c = Some i \<and> next_within i c' \<and> length (cf_first c') = length (cf_first c)"
proof -
  from assms obtain rp b rm i where "cf_next c = Some i" and r: "scan_entries p rm b rp i False None c = Some (Some x, c')"
    by (auto simp: code2char_internal_def split: option.splits if_splits bind_splits)
  then show ?thesis using scan_from_next [OF r] by blast
qed

section \<open>Codes from the daemon\<close>

text \<open>\<open>schedule\<close>: the string is put behind those of the last event of the client. The names of the entry
  and of the client are compared with \<open>strcmp\<close>, which faults for a client without a name.\<close>

definition schedule :: "string \<Rightarrow> client_data \<Rightarrow> client_data option" where
  "schedule t c =
     (if cd_events c = [] then None
      else let e = last (cd_events c)
           in Some (c\<lparr>cd_events := butlast (cd_events c) @ [e\<lparr>ei_first := ei_first e @ [t]\<rparr>]\<rparr>))"

fun schedule_all :: "string option \<Rightarrow> string \<Rightarrow> client_data list \<Rightarrow> client_data list option" where
  "schedule_all prog t [] = Some []"
| "schedule_all prog t (c # cs) =
     do { p \<leftarrow> prog; n \<leftarrow> cd_ident c;
          c \<leftarrow> (if p = n then schedule t c else Some c);
          cs \<leftarrow> schedule_all prog t cs; Some (c # cs) }"

function schedule_code :: "string \<Rightarrow> lircrcd \<Rightarrow> lircrcd option" where
  "schedule_code code s =
     (case code2charprog code (rcd_config s) of
        None \<Rightarrow> None
      | Some (None, c) \<Rightarrow> Some (s\<lparr>rcd_config := c\<rparr>)
      | Some (Some (t, prog), c) \<Rightarrow>
          (case schedule_all prog t (rcd_clis s) of
             None \<Rightarrow> None
           | Some cs \<Rightarrow> schedule_code code (s\<lparr>rcd_config := c, rcd_clis := cs\<rparr>)))"
  by pat_completeness auto
termination
  by (relation "measure (\<lambda>(code, s). case cf_next (rcd_config s) of None \<Rightarrow> 0 | Some i \<Rightarrow> Suc (length (cf_first (rcd_config s)) - i))")
    (auto simp: code2charprog_def next_within_def split: option.splits dest!: code2char_internal_next)

declare schedule_code.simps [simp del]

definition new_event :: "string \<Rightarrow> client_data \<Rightarrow> client_data" where
  "new_event code c = c\<lparr>cd_events := cd_events c @ [\<lparr>ei_code = butlast code, ei_first = []\<rparr>]\<rparr>"

text \<open>A string and its end are written into an array of \<open>n\<close> bytes; beyond its end is a fault.\<close>

definition into_array :: "nat \<Rightarrow> string \<Rightarrow> string option" where
  "into_array n t = (if length t < n then Some t else None)"

text \<open>The requests that wait are answered. The array has room for the code alone, and the command is
  written into it.\<close>

fun answer_pending :: "nat list \<Rightarrow> lircrcd \<Rightarrow> lircrcd option" where
  "answer_pending [] s = Some s"
| "answer_pending (i # is) s =
     (case cd_pending (rcd_clis s ! i) of
        None \<Rightarrow> answer_pending is s
      | Some a \<Rightarrow>
          do { m \<leftarrow> into_array (length a + 1) (''CODE '' @ a @ endl);
               (ok, s) \<leftarrow> code_func (cd_fd (rcd_clis s ! i)) m (Some a)
                 (rcd_client (\<lambda>c. c\<lparr>cd_pending := None\<rparr>) i s);
               answer_pending is s })"

text \<open>An incomplete line of \<open>lircd\<close> yields no code, and \<open>strdup\<close> (or \<open>sscanf\<close>) is called with NULL.\<close>

definition handle_input :: "lircrcd \<Rightarrow> (bool \<times> lircrcd) option" where
  "handle_input s =
     (case lirc_nextcode (rcd_lircd s) of
        (r, code, n) \<Rightarrow>
          let s = s\<lparr>rcd_lircd := n\<rparr>
          in if r \<noteq> 0 then Some (False, s)
             else do {
               code \<leftarrow> code;
               s \<leftarrow> schedule_code code (s\<lparr>rcd_clis := map (new_event code) (rcd_clis s)\<rparr>);
               s \<leftarrow> answer_pending [0..<length (rcd_clis s)] s;
               Some (True, s) })"

section \<open>Clients and main loop\<close>

definition RCD_MAX_CLIENTS :: nat where [c_eval]: "RCD_MAX_CLIENTS = 100"

definition rcd_remove :: "nat \<Rightarrow> lircrcd \<Rightarrow> lircrcd" where
  "rcd_remove i s = s\<lparr>rcd_clis := take i (rcd_clis s) @ drop (Suc i) (rcd_clis s)\<rparr>"

text \<open>\<open>fd\<close> is what \<open>accept\<close> returns.\<close>

definition rcd_add :: "int \<Rightarrow> lircrcd \<Rightarrow> lircrcd" where
  "rcd_add fd s =
     (if fd = - 1 \<or> fd \<ge> FD_SETSIZE \<or> length (rcd_clis s) \<ge> RCD_MAX_CLIENTS then s
      else s\<lparr>rcd_clis := rcd_clis s @ [\<lparr>cd_fd = fd, cd_ident = None, cd_events = [], cd_pending = None\<rparr>]\<rparr>)"

lemma rcd_read_clis: "rcd_read fd n s = (t, s') \<Longrightarrow> rcd_clis s' = rcd_clis s"
  by (auto simp: rcd_read_def split: list.splits option.splits)

lemma rcd_line_clis: "rcd_line fd line s = Some (ok, s') \<Longrightarrow> length (rcd_clis s') = length (rcd_clis s)"
  by (drule rcd_same_line) (simp add: rcd_same_def)

lemma rcd_lines_clis: "rcd_lines fd b s = Some (ok, s') \<Longrightarrow> length (rcd_clis s') = length (rcd_clis s)"
proof (induction fd b s arbitrary: ok s' rule: rcd_lines.induct)
  case (1 fd b s)
  note ih = 1(1,2)
  show ?case
  proof (cases "next_line b")
    case None
    then show ?thesis using 1(3) by (subst (asm) rcd_lines.simps) auto
  next
    case l: (Some lr)
    obtain line rest where lr: "lr = (line, rest)" by fastforce
    with 1(3) l obtain k t where k: "rcd_line fd line s = Some (k, t)"
      by (subst (asm) rcd_lines.simps) (auto split: option.splits)
    then show ?thesis
      using 1(3) l lr k ih [OF l lr [symmetric] k refl] rcd_line_clis [OF k]
      by (subst (asm) rcd_lines.simps) (auto split: option.splits prod.splits if_splits dest!: rcd_read_clis)
  qed
qed

lemma rcd_command_clis: "rcd_command fd s = Some (ok, s') \<Longrightarrow> length (rcd_clis s') = length (rcd_clis s)"
  by (auto simp: rcd_command_def split: prod.splits option.splits if_splits dest!: rcd_read_clis rcd_lines_clis)

text \<open>The clients that \<open>select\<close> reports are served in their order; the last one that leaves ends the
  daemon.\<close>

function rcd_serve :: "nat \<Rightarrow> int list \<Rightarrow> lircrcd \<Rightarrow> (bool \<times> lircrcd) option" where
  "rcd_serve i ready s =
     (if i < length (rcd_clis s) then
        let fd = cd_fd (rcd_clis s ! i)
        in if fd \<in> set ready then
             (case rcd_command fd s of
                None \<Rightarrow> None
              | Some (ok, s) \<Rightarrow>
                  if ok then rcd_serve (Suc i) (removeAll fd ready) s
                  else if rcd_clis (rcd_remove i s) = [] then Some (False, rcd_remove i s)
                  else rcd_serve i (removeAll fd ready) (rcd_remove i s))
           else rcd_serve (Suc i) ready s
      else Some (True, s))"
  by pat_completeness auto
termination
  by (relation "measure (\<lambda>(i, ready, s). length (rcd_clis s) - i)")
    (auto simp: rcd_remove_def dest!: rcd_command_clis)

declare rcd_serve.simps [simp del]

text \<open>An answer of \<open>select\<close>: the clients with input, what \<open>accept\<close> yields when a program connects, and
  whether \<open>lircd\<close> has sent something.\<close>

record rcd_ready =
  rr_clients :: "int list"
  rr_accept :: "int option"
  rr_lircd :: bool

definition rcd_round :: "rcd_ready \<Rightarrow> lircrcd \<Rightarrow> (bool \<times> lircrcd) option" where
  "rcd_round r s =
     do { (go, s) \<leftarrow> rcd_serve 0 (rr_clients r) s;
          if \<not> go then Some (False, s)
          else do {
            s \<leftarrow> Some (case rr_accept r of None \<Rightarrow> s | Some fd \<Rightarrow> rcd_add fd s);
            if \<not> rr_lircd r then Some (True, s)
            else do { (ok, s) \<leftarrow> handle_input s; Some (if ok then (True, s) else (False, s\<lparr>rcd_clis := []\<rparr>)) } } }"

text \<open>\<open>None\<close> among the answers stands for a signal to end.\<close>

fun rcd_loop :: "rcd_ready option list \<Rightarrow> lircrcd \<Rightarrow> (bool \<times> lircrcd) option" where
  "rcd_loop [] s = Some (True, s)"
| "rcd_loop (None # rs) s = Some (False, s)"
| "rcd_loop (Some r # rs) s = do { (go, s) \<leftarrow> rcd_round r s; if go then rcd_loop rs s else Some (False, s) }"

end
