(* ===== verification/RcReply.thy ===== *)
theory RcReply
  imports RcClient ClientFacts ConfigRoundTrip
begin

text \<open>
  The two ends of the protocol of \<open>lircd\<close> and \<open>lircrcd\<close>: what \<open>lirc_send_command\<close> makes of a reply packet,
  however the bytes arrive, and \<open>lirc_nextcode\<close> on the stream of codes.
\<close>

section \<open>Streams of bytes\<close>

definition bytes_of :: "sock_read list \<Rightarrow> string" where
  "bytes_of xs = concat (map (\<lambda>x. case x of Got t \<Rightarrow> t | _ \<Rightarrow> []) xs)"

text \<open>Nothing but bytes arrives, none of them zero.\<close>

definition all_got :: "sock_read list \<Rightarrow> bool" where
  "all_got xs \<longleftrightarrow> list_all (\<lambda>x. \<exists>t. x = Got t \<and> t \<noteq> [] \<and> CHR 0x00 \<notin> set t) xs"

lemma bytes_of_simps [simp]: "bytes_of [] = []" "bytes_of (Got t # xs) = t @ bytes_of xs"
  by (simp_all add: bytes_of_def)

lemma all_got_simps [simp]:
  "all_got []" "all_got (Got t # xs) \<longleftrightarrow> t \<noteq> [] \<and> CHR 0x00 \<notin> set t \<and> all_got xs"
  by (simp_all add: all_got_def)

lemma cstr_plain: "CHR 0x00 \<notin> set b \<Longrightarrow> cstr b = b"
  by (induction b) (auto simp: cstr_def)

lemma all_got_zero: "all_got xs \<Longrightarrow> CHR 0x00 \<notin> set (bytes_of xs)"
  by (induction xs) (auto simp: all_got_def bytes_of_def)

lemma read_some_got:
  assumes "all_got xs" "xs \<noteq> []" "n > 0"
  shows "\<exists>t r. read_some n xs = (Got t, r) \<and> t \<noteq> [] \<and> CHR 0x00 \<notin> set t \<and> all_got r \<and> bytes_of xs = t @ bytes_of r"
proof -
  obtain t ys where xs: "xs = Got t # ys" "t \<noteq> []" "CHR 0x00 \<notin> set t" "all_got ys"
    using assms(1,2) by (cases xs) (auto simp: all_got_def)
  then show ?thesis using assms(3) by (cases t) (auto dest: in_set_takeD in_set_dropD simp: append_eq_append_conv_if)
qed

section \<open>Lines\<close>

definition good_reader :: "rc_reader \<Rightarrow> bool" where
  "good_reader s \<longleftrightarrow> all_got (rd_input s) \<and> CHR 0x00 \<notin> set (drop (rd_head s) (rd_buffer s))"

definition rest_of :: "rc_reader \<Rightarrow> string" where
  "rest_of s = drop (rd_head s) (rd_buffer s) @ bytes_of (rd_input s)"

definition short_line :: "string \<Rightarrow> bool" where
  "short_line l \<longleftrightarrow> newline \<notin> set l \<and> length l < LIRC_PACKET_SIZE"

lemma takeWhile_upto: "newline \<notin> set l \<Longrightarrow> takeWhile (\<lambda>c. c \<noteq> newline) (l @ newline # r) = l"
  by (induction l) auto

lemma read_line_got:
  assumes "all_got xs" "CHR 0x00 \<notin> set b" "b @ bytes_of xs = l @ newline # r" "short_line l"
  shows "\<exists>b' xs'. read_line b xs = (Some (l, b'), xs') \<and> all_got xs' \<and> CHR 0x00 \<notin> set b' \<and>
    b' @ bytes_of xs' = l @ newline # r \<and> length l < length b'"
  using assms
proof (induction "length (bytes_of xs)" arbitrary: xs b rule: less_induct)
  case less
  have b0: "cstr b = b" by (rule cstr_plain [OF less.prems(2)])
  show ?case
  proof (cases "newline \<in> set b")
    case True
    then obtain l' r' where b: "b = l' @ newline # r'" "newline \<notin> set l'" by (metis split_list_first)
    have "l' @ newline # (r' @ bytes_of xs) = l @ newline # r" using less.prems(3) b(1) by simp
    then have "l' = l"
      using takeWhile_upto [OF b(2), of "r' @ bytes_of xs"] takeWhile_upto [of l r] less.prems(4)
      by (metis short_line_def)
    then have "read_line b xs = (Some (l, b), xs)"
      using True b0 b takeWhile_upto [of l r'] by (subst read_line.simps) simp
    then show ?thesis using less.prems b \<open>l' = l\<close> by simp
  next
    case False
    have pre: "length b \<le> length l"
    proof (rule ccontr)
      assume "\<not> length b \<le> length l"
      then have "newline = (b @ bytes_of xs) ! length l \<and> length l < length b" using less.prems(3) by simp
      then show False using False nth_mem [of "length l" b] by (auto simp: nth_append)
    qed
    then have len: "length b < LIRC_PACKET_SIZE" using less.prems(4) by (simp add: short_line_def)
    have "xs \<noteq> []" using less.prems(3) False by (cases xs) auto
    then obtain t r1 where t: "read_some (LIRC_PACKET_SIZE - length b) xs = (Got t, r1)" "t \<noteq> []" "CHR 0x00 \<notin> set t"
      "all_got r1" "bytes_of xs = t @ bytes_of r1"
      using read_some_got [OF less.prems(1), of "LIRC_PACKET_SIZE - length b"] len by auto
    have "read_line b xs = read_line (b @ t) r1"
      using False b0 len t by (subst read_line.simps) simp
    moreover have "length (bytes_of r1) < length (bytes_of xs)" using t(2,5) by simp
    ultimately show ?thesis using less.hyps [of r1 "b @ t"] t less.prems by simp
  qed
qed

lemma read_string_line:
  assumes "good_reader s" "rest_of s = l @ newline # r" "short_line l"
  shows "\<exists>s'. lirc_read_string s = (Some l, s') \<and> good_reader s' \<and> rest_of s' = r"
proof -
  let ?b = "drop (rd_head s) (rd_buffer s)"
  obtain b xs where b: "read_line ?b (rd_input s) = (Some (l, b), xs)" "all_got xs" "CHR 0x00 \<notin> set b"
    "b @ bytes_of xs = l @ newline # r" "length l < length b"
    using read_line_got [of "rd_input s" ?b l r] assms by (auto simp: good_reader_def rest_of_def)
  have "drop (Suc (length l)) b @ bytes_of xs = r"
    using arg_cong [OF b(4), of "drop (Suc (length l))"] b(5) by simp
  then show ?thesis
    using b cstr_plain [of ?b] assms(1) by (auto simp: lirc_read_string_def good_reader_def rest_of_def dest: in_set_dropD)
qed

section \<open>Packets\<close>

text \<open>The lines of a packet, one after the other; the packet ends with the last.\<close>

fun packet_lines :: "string \<Rightarrow> nat \<Rightarrow> packet \<Rightarrow> string list \<Rightarrow> packet_step" where
  "packet_lines command cap p [] = More p"
| "packet_lines command cap p (l # ls) =
     (case packet_line command cap l p of
        More p \<Rightarrow> packet_lines command cap p ls | Good p \<Rightarrow> if ls = [] then Good p else Bad | Bad \<Rightarrow> Bad)"

lemma packet_lines_append:
  "packet_lines command cap p ls = More q \<Longrightarrow> packet_lines command cap p (ls @ ls') = packet_lines command cap q ls'"
  by (induction ls arbitrary: p) (auto split: packet_step.splits if_splits)

lemma receive_lines:
  assumes "packet_lines command cap p ls = Good q" "list_all short_line ls"
    "good_reader s" "rest_of s = concat (map (\<lambda>l. l @ endl) ls) @ r"
  shows "\<exists>s'. receive_packet command cap p s = (Some q, s') \<and> good_reader s' \<and> rest_of s' = r"
  using assms
proof (induction ls arbitrary: p s)
  case (Cons l ls)
  have "rest_of s = l @ newline # (concat (map (\<lambda>l. l @ endl) ls) @ r)" using Cons.prems(4) by (simp add: endl_def)
  moreover have "short_line l" using Cons.prems(2) by simp
  ultimately obtain s' where s': "lirc_read_string s = (Some l, s')" "good_reader s'"
    "rest_of s' = concat (map (\<lambda>l. l @ endl) ls) @ r"
    using read_string_line [OF Cons.prems(3)] by blast
  show ?case
  proof (cases "packet_line command cap l p")
    case (More p')
    then show ?thesis using Cons.IH [of p' s'] Cons.prems s' by (subst receive_packet.simps) simp
  next
    case (Good p')
    then show ?thesis using Cons.prems s' by (subst receive_packet.simps) (simp split: if_splits)
  next
    case Bad
    then show ?thesis using Cons.prems by simp
  qed
qed simp

text \<open>The first strings that, with their terminating zeros, take less than \<open>cap\<close> bytes. A string that
  fills the buffer exactly is not among them.\<close>

fun with_room :: "nat \<Rightarrow> string list \<Rightarrow> string list" where
  "with_room cap [] = []"
| "with_room cap (t # ts) = (if length t + 1 < cap then t # with_room (cap - (length t + 1)) ts else [])"

lemma with_room_0 [simp]: "with_room 0 ts = []"
  by (cases ts) simp_all

lemma data_lines:
  assumes "pk_state p = PS_DATA_N" "int (pk_n p + length data) = uint (pk_data_n p)" "data \<noteq> []"
  shows "\<exists>q. packet_lines command cap p data = More q \<and> pk_state q = PS_END \<and> pk_status q = pk_status p \<and>
    pk_data_n q = pk_data_n p \<and> pk_copied q = pk_copied p @ with_room (cap - pk_written p) data"
  using assms
proof (induction data arbitrary: p)
  case (Cons t ts)
  have room: "Suc (length t) < cap - pk_written p \<longleftrightarrow> Suc (pk_written p + length t) < cap" by arith
  show ?case
  proof (cases "ts = []")
    case True
    then show ?thesis using Cons.prems by (simp add: packet_line_def Let_def room)
  next
    case False
    let ?p = "p\<lparr>pk_copied := (if pk_written p + length t + 1 < cap then pk_copied p @ [t] else pk_copied p),
      pk_written := pk_written p + length t + 1, pk_n := Suc (pk_n p), pk_state := PS_DATA_N\<rparr>"
    have "int (Suc (pk_n p)) \<noteq> uint (pk_data_n p)" using Cons.prems(2) False by (cases ts) auto
    then have "packet_line command cap t p = More ?p" using Cons.prems(1) by (simp add: packet_line_def Let_def)
    then show ?thesis using Cons.IH [of ?p] Cons.prems(2) False by (cases "pk_written p + length t + 1 < cap") (simp_all add: diff_diff_eq room)
  qed
qed simp

definition reply_lines :: "string \<Rightarrow> bool \<Rightarrow> string list \<Rightarrow> string list" where
  "reply_lines l success data =
     [''BEGIN'', l, if success then ''SUCCESS'' else ''ERROR''] @
     (if data = [] then [] else [''DATA'', show_int (int (length data))] @ data) @ [''END'']"

lemma reply_lines_text: "reply_packet (l @ endl) success data = concat (map (\<lambda>l. l @ endl) (reply_lines l success data))"
  by (simp add: reply_packet_def reply_lines_def protocol_strings)

lemma reply_words [simp]:
  "\<not> strcaseeq ''ERROR'' ''SUCCESS''" "\<not> strcaseeq ''ERROR'' ''END''" "\<not> strcaseeq ''DATA'' ''END''"
  by (simp_all add: strcaseeq_def)

lemma packet_reply:
  assumes n: "length data < 2 ^ 31"
  shows "\<exists>q. packet_lines (l @ endl) cap packet0 (reply_lines l success data) = Good q \<and>
    pk_status q = (if success then 0 else - 1) \<and> uint (pk_data_n q) = int (length data) \<and> pk_copied q = with_room cap data"
proof -
  let ?p = "packet0\<lparr>pk_status := (if success then 0 else - 1), pk_state := PS_DATA\<rparr>"
  have h: "packet_lines (l @ endl) cap packet0 [''BEGIN'', l, if success then ''SUCCESS'' else ''ERROR''] = More ?p"
    by (cases success) (simp_all add: packet_line_def packet0_def endl_def)
  show ?thesis
  proof (cases "data = []")
    case True
    then show ?thesis
      by (simp only: reply_lines_def packet_lines_append [OF h]) (simp add: packet_line_def packet0_def)
  next
    case False
    let ?n = "int (length data)" and ?q = "?p\<lparr>pk_data_n := word_of_int (int (length data)), pk_state := PS_DATA_N\<rparr>"
    have n': "0 < ?n" "?n < 2 ^ 31" using False n by simp_all
    have v: "strtoull (show_int ?n) = (word_of_int ?n, [], False)"
      using n' scan_show_dec(1) [of ?n] by (intro strtoull_value) (simp_all add: show_int_def)
    have w: "uint (word_of_int k :: 64 word) = k" "uint (word_of_int k :: u32) = k" if "0 < k" "k < 2 ^ 31" for k
      using that by (simp_all add: uint_word_of_int_eq take_bit_int_eq_self)
    have u: "(ucast (word_of_int ?n :: 64 word) :: u32) = word_of_int ?n" "uint (word_of_int ?n :: u32) = ?n"
      using w [OF n'] by (simp_all only: ucast_eq)
    then have z: "(word_of_int ?n :: u32) \<noteq> 0" using n' by (metis less_irrefl uint_0_iff)
    have d: "packet_lines (l @ endl) cap ?p [''DATA'', show_int ?n] = More ?q"
      using v u z n' show_int_nonempty [of ?n]
      by (simp add: packet_line_def packet0_def i32_range_def)
    obtain q where q: "packet_lines (l @ endl) cap ?q data = More q" "pk_state q = PS_END"
      "pk_status q = pk_status ?q" "pk_data_n q = pk_data_n ?q" "pk_copied q = with_room cap data"
      using data_lines [of ?q data "l @ endl" cap] u False by (auto simp: packet0_def)
    have "packet_lines (l @ endl) cap packet0 (reply_lines l success data) = Good q"
      using False q by (simp only: reply_lines_def packet_lines_append [OF h] packet_lines_append [OF d]
          packet_lines_append [OF q(1)] append_assoc if_False) (simp add: packet_line_def)
    then show ?thesis using q u by simp
  qed
qed

text \<open>A string that fills the buffer to its last byte is received but not copied.\<close>

lemma exact_fit_not_copied:
  "\<exists>q. packet_lines (l @ endl) (length t + 1) packet0 (reply_lines l True [t]) = Good q \<and>
    uint (pk_data_n q) = 1 \<and> pk_copied q = []"
  using packet_reply [of "[t]" l "length t + 1" True] by auto

text \<open>C13: Whatever the pieces in which its bytes arrive, a reply packet to the command, with less than
  \<open>2 ^ 31\<close> strings and lines shorter than a packet, gives \<open>lirc_send_command\<close> the number of its strings and
  its status. The caller's buffer gets the first strings, as many as take fewer bytes than it has; a string
  that would fill it exactly is not copied any more. Not a byte behind the packet is lost.\<close>

theorem reply_received:
  assumes "good_reader s" "rest_of s = reply_packet (l @ endl) success data @ r"
    "short_line l" "list_all short_line data" "length data < 2 ^ 31"
  shows "\<exists>s'. lirc_send_command True (l @ endl) cap s =
      ((int (length data), Some (if success then 0 else - 1), with_room cap data), s') \<and>
    good_reader s' \<and> rest_of s' = r"
proof -
  have "list_all short_line (reply_lines l success data)"
    using assms(3-5) value_ok_int [of "int (length data)"]
    by (simp add: reply_lines_def short_line_def value_ok_def i32_range_def LIRC_PACKET_SIZE_def)
  moreover obtain q where q: "packet_lines (l @ endl) cap packet0 (reply_lines l success data) = Good q"
    "pk_status q = (if success then 0 else - 1)" "uint (pk_data_n q) = int (length data)" "pk_copied q = with_room cap data"
    using packet_reply [OF assms(5)] by blast
  ultimately obtain s' where "receive_packet (l @ endl) cap packet0 s = (Some q, s')" "good_reader s'" "rest_of s' = r"
    using receive_lines [OF q(1) _ assms(1)] assms(2) by (auto simp: reply_lines_text)
  moreover have "i32 (int (length data)) = int (length data)" using assms(5) by (simp add: i32_range_def)
  ultimately show ?thesis using q by (simp add: lirc_send_command_def)
qed

section \<open>The stream of codes\<close>

definition nextcode_buffer :: "nextcode \<Rightarrow> string" where
  "nextcode_buffer s = (case nc_buffer s of None \<Rightarrow> [] | Some b \<Rightarrow> b)"

definition nextcode_ok :: "nextcode \<Rightarrow> bool" where
  "nextcode_ok s \<longleftrightarrow> CHR 0x00 \<notin> set (nextcode_buffer s) \<and> nc_end_len s = length (nextcode_buffer s) \<and>
     nc_end_len s \<le> nc_packet_size s \<and>
     list_all (\<lambda>x. case x of Got t \<Rightarrow> t \<noteq> [] \<and> CHR 0x00 \<notin> set t | _ \<Rightarrow> True) (nc_input s)"

definition nextcode_rest :: "nextcode \<Rightarrow> string" where
  "nextcode_rest s = nextcode_buffer s @ bytes_of (nc_input s)"

lemma bytes_of_other [simp]: "bytes_of (Again # xs) = bytes_of xs" "bytes_of (Failed # xs) = bytes_of xs"
  by (simp_all add: bytes_of_def)

lemma read_some_bytes:
  assumes "read_some n xs = (x, r)" "n > 0"
    "list_all (\<lambda>x. case x of Got t \<Rightarrow> t \<noteq> [] \<and> CHR 0x00 \<notin> set t | _ \<Rightarrow> True) xs"
  shows "bytes_of xs = (case x of Got t \<Rightarrow> t | _ \<Rightarrow> []) @ bytes_of r \<and>
    (case x of Got t \<Rightarrow> t \<noteq> [] \<and> CHR 0x00 \<notin> set t \<and> length t \<le> n | _ \<Rightarrow> True) \<and>
    list_all (\<lambda>x. case x of Got t \<Rightarrow> t \<noteq> [] \<and> CHR 0x00 \<notin> set t | _ \<Rightarrow> True) r"
  using assms
  by (cases "(n, xs)" rule: read_some.cases) (auto split: sock_read.splits if_splits dest: in_set_takeD in_set_dropD)

lemma take_code_line:
  assumes nl: "newline \<in> set b" and ok: "nextcode_ok s" "nc_buffer s = Some b" and t: "take_code b s = (r, code, s')"
  shows "nextcode_ok s' \<and> (\<exists>l. newline \<notin> set l \<and> code = Some (l @ [newline]) \<and> r = 0 \<and>
    nextcode_rest s = l @ newline # nextcode_rest s')"
proof -
  obtain l u where b: "b = l @ newline # u" "newline \<notin> set l" using nl by (metis split_list_first)
  have "CHR 0x00 \<notin> set b" using ok by (simp add: nextcode_ok_def nextcode_buffer_def)
  then have c: "cstr b = b" "cstr u = u" using b by (auto intro!: cstr_plain)
  have "code = Some (l @ [newline]) \<and> r = 0 \<and> s' = s\<lparr>nc_buffer := Some u, nc_end_len := length u\<rparr>"
    using t b c takeWhile_upto [OF b(2), of u] by (auto simp: take_code_def)
  then show ?thesis
    using ok b by (auto simp: nextcode_ok_def nextcode_rest_def nextcode_buffer_def)
qed

text \<open>C18: \<open>lirc_nextcode\<close> neither loses nor invents a byte of what \<open>lircd\<close> sends: what it returns is the
  first line with its newline, and it returns nothing only when no line is complete in its buffer.\<close>

theorem nextcode_stream:
  assumes "nextcode_ok s" "lirc_nextcode s = (r, code, s')"
  shows "nextcode_ok s' \<and>
    (case code of
       None \<Rightarrow> nextcode_rest s = nextcode_rest s' \<and> newline \<notin> set (nextcode_buffer s')
     | Some c \<Rightarrow> r = 0 \<and> nextcode_rest s = c @ nextcode_rest s' \<and> (\<exists>l. c = l @ [newline] \<and> newline \<notin> set l))"
proof -
  let ?b = "nextcode_buffer s" and ?s = "s\<lparr>nc_buffer := Some (nextcode_buffer s)\<rparr>"
  have z: "CHR 0x00 \<notin> set ?b" "cstr ?b = ?b" using assms(1) cstr_plain [of ?b] by (simp_all add: nextcode_ok_def)
  have start: "(case nc_buffer s of None \<Rightarrow> replicate (nc_end_len s) (CHR 0x00) | Some b \<Rightarrow> b) = ?b"
    using assms(1) by (auto simp: nextcode_ok_def nextcode_buffer_def split: option.splits)
  show ?thesis
  proof (cases "newline \<in> set ?b")
    case True
    then have t: "take_code ?b ?s = (r, code, s')" using assms(2) z start by (simp add: lirc_nextcode_def Let_def)
    have "nextcode_ok ?s" "nextcode_rest ?s = nextcode_rest s"
      using assms(1) by (simp_all add: nextcode_ok_def nextcode_rest_def nextcode_buffer_def)
    with take_code_line [OF True _ _ t] show ?thesis by auto
  next
    case False
    define k where "k = (if nc_end_len s \<ge> nc_packet_size s then nc_packet_size s + NEXT_PACKET_SIZE else nc_packet_size s)"
    have k: "nc_end_len s < k" "nc_packet_size s \<le> k"
      using assms(1) by (auto simp: k_def nextcode_ok_def NEXT_PACKET_SIZE_def)
    obtain x q where x: "read_some (k - nc_end_len s) (nc_input s) = (x, q)" by fastforce
    note rd = read_some_bytes [OF x]
    let ?s' = "?s\<lparr>nc_packet_size := k, nc_input := q\<rparr>"
    have nc: "lirc_nextcode s =
       (case x of
          Again \<Rightarrow> (0, None, ?s')
        | Failed \<Rightarrow> (- 1, None, ?s')
        | Got t \<Rightarrow>
            if t = [] then (- 1, None, ?s')
            else
              let u = ?s'\<lparr>nc_buffer := Some (?b @ t), nc_end_len := nc_end_len s + length t\<rparr>
              in if newline \<in> set (cstr (?b @ t)) then take_code (?b @ t) u else (0, None, u))"
      using False z x unfolding lirc_nextcode_def k_def Let_def start by (cases x) (simp_all cong: if_cong)
    show ?thesis
    proof (cases "\<exists>t. x = Got t")
      case None: False
      then have "code = None" "s' = ?s'"
        using assms(2) nc by (auto split: sock_read.splits)
      then show ?thesis
        using None assms(1) rd k False
        by (auto simp: nextcode_ok_def nextcode_rest_def nextcode_buffer_def split: sock_read.splits)
    next
      case True
      then obtain t where t: "x = Got t" by blast
      have t': "t \<noteq> []" "CHR 0x00 \<notin> set t" "length t \<le> k - nc_end_len s" "bytes_of (nc_input s) = t @ bytes_of q"
        using rd assms(1) k t by (auto simp: nextcode_ok_def)
      let ?t = "?s'\<lparr>nc_buffer := Some (?b @ t), nc_end_len := nc_end_len s + length t\<rparr>"
      have zt: "CHR 0x00 \<notin> set (?b @ t)" "cstr (?b @ t) = ?b @ t" using z t' cstr_plain [of "?b @ t"] by simp_all
      have len: "nc_end_len s + length t \<le> k" using t'(3) k by simp
      have ok: "nextcode_ok ?t" "nextcode_rest ?t = nextcode_rest s"
        using assms(1) rd k len t t' zt by (simp_all add: nextcode_ok_def nextcode_rest_def nextcode_buffer_def)
      have res: "(if newline \<in> set (?b @ t) then take_code (?b @ t) ?t else (0, None, ?t)) = (r, code, s')"
        using assms(2) unfolding nc t Let_def using t'(1) by (simp only: sock_read.case if_False zt(2))
      show ?thesis
      proof (cases "newline \<in> set (?b @ t)")
        case True
        with res have "take_code (?b @ t) ?t = (r, code, s')" by simp
        from take_code_line [OF True ok(1) _ this] ok(2) show ?thesis by auto
      next
        case nl: False
        from res have "code = None" "s' = ?t" by (simp_all only: nl if_False prod.inject)
        moreover have "nextcode_buffer ?t = ?b @ t" by (simp add: nextcode_buffer_def)
        ultimately show ?thesis using ok nl by simp
      qed
    qed
  qed
qed

text \<open>After \<open>lirc_deinit\<close> in the middle of a line, \<open>end_len\<close> still counts the bytes that were freed: the new
  buffer starts with a zero byte, behind which everything that is read is out of sight.\<close>

definition nextcode_stuck :: "nextcode \<Rightarrow> bool" where
  "nextcode_stuck s \<longleftrightarrow> (case nc_buffer s of None \<Rightarrow> nc_end_len s > 0 | Some b \<Rightarrow> b \<noteq> [] \<and> hd b = CHR 0x00)"

lemma reinit_loses_codes: "nextcode_stuck s \<Longrightarrow> lirc_nextcode s = (r, code, s') \<Longrightarrow> code = None \<and> nextcode_stuck s'"
  by (auto simp: nextcode_stuck_def lirc_nextcode_def cstr_def Let_def hd_append hd_replicate takeWhile_append1 takeWhile_append2
      neq_Nil_conv gr0_conv_Suc split: option.splits prod.splits sock_read.splits if_splits)

definition demo_reader :: rc_reader where
  "demo_reader = \<lparr>rd_buffer = [], rd_head = 0,
     rd_input = [Got (''BEG''), Got (''IN'' @ endl @ ''GETMODE''), Got (endl @ ''SUCCESS'' @ endl @ ''DATA'' @ endl @ ''1'' @ endl),
       Got (''tv'' @ endl @ ''END'' @ endl)]\<rparr>"

lemma reply_received_witness:
  "fst (lirc_send_command True (''GETMODE'' @ endl) LIRC_PACKET_SIZE demo_reader) = (1, Some 0, [''tv''])"
proof -
  have "good_reader demo_reader" by (simp add: demo_reader_def good_reader_def endl_def)
  moreover have "rest_of demo_reader = reply_packet (''GETMODE'' @ endl) True [''tv''] @ []"
    by (simp add: demo_reader_def rest_of_def reply_packet_def protocol_strings show_int_def show_dec_def numeral_eq_Suc)
  ultimately show ?thesis
    using reply_received [of demo_reader "''GETMODE''" True "[''tv'']" "[]" LIRC_PACKET_SIZE]
    by (auto simp: short_line_def LIRC_PACKET_SIZE_def)
qed

lemma nextcode_stream_witness:
  "nextcode_rest (snd (snd (lirc_nextcode \<lparr>nc_buffer = None, nc_packet_size = 100, nc_end_len = 0,
     nc_input = [Got (''a'' @ endl @ ''b''), Got endl]\<rparr>))) = ''b'' @ endl"
proof -
  let ?s = "\<lparr>nc_buffer = None, nc_packet_size = 100, nc_end_len = 0, nc_input = [Got (''a'' @ endl @ ''b''), Got endl]\<rparr>"
  have ok: "nextcode_ok ?s" by (simp add: nextcode_ok_def nextcode_buffer_def endl_def)
  have "fst (snd (lirc_nextcode ?s)) = Some (''a'' @ endl)" "nextcode_rest ?s = ''a'' @ endl @ ''b'' @ endl"
    by (simp_all add: lirc_nextcode_def take_code_def cstr_def endl_def nextcode_rest_def nextcode_buffer_def)
  with nextcode_stream [OF ok, of "fst (lirc_nextcode ?s)" "fst (snd (lirc_nextcode ?s))" "snd (snd (lirc_nextcode ?s))"]
  show ?thesis by simp
qed

end
