(* ===== verification/RcQueues.thy ===== *)
theory RcQueues
  imports RcServe RcReply RcDemo
begin

text \<open>
  \<open>lircrcd\<close> as a set of queues: for every client the replies to its future \<open>CODE\<close> requests. A code of
  \<open>lircd\<close> appends to the queues, a request takes the head.
\<close>

section \<open>The queue of a client\<close>

text \<open>A reply carries the code it is for, and the string, or \<open>None\<close> when there are no more.\<close>

definition event_replies :: "event_info \<Rightarrow> (string \<times> string option) list" where
  "event_replies e = map (\<lambda>t. (ei_code e, Some t)) (ei_first e) @ [(ei_code e, None)]"

definition replies :: "client_data \<Rightarrow> (string \<times> string option) list" where
  "replies c = concat (map event_replies (cd_events c))"

definition ask :: "string \<Rightarrow> (string \<times> string option) list \<Rightarrow> (string \<times> string option) list" where
  "ask a q = (case q of [] \<Rightarrow> [] | x # xs \<Rightarrow> if fst x = a then xs else q)"

definition answered_text :: "string \<Rightarrow> string \<Rightarrow> (string \<times> string option) list \<Rightarrow> string" where
  "answered_text m a q =
     (case q of [] \<Rightarrow> [] | (b, r) # xs \<Rightarrow> reply_packet m True (if a = b then (case r of None \<Rightarrow> [] | Some t \<Rightarrow> [t]) else []))"

definition answer_request :: "string \<Rightarrow> client_data \<Rightarrow> client_data" where
  "answer_request a c =
     (case cd_events c of
        [] \<Rightarrow> c\<lparr>cd_pending := Some a\<rparr>
      | e # es \<Rightarrow>
          if ei_code e = a
          then c\<lparr>cd_events := (case ei_first e of [] \<Rightarrow> es | t # ts \<Rightarrow> e\<lparr>ei_first := ts\<rparr> # es)\<rparr> else c)"

lemma replies_answer: "replies (answer_request a c) = ask a (replies c)"
  by (auto simp: answer_request_def replies_def ask_def event_replies_def split: list.splits)

lemma replies_nil [simp]: "replies c = [] \<longleftrightarrow> cd_events c = []"
  by (auto simp: replies_def event_replies_def)

lemma answer_frame [simp]: "cd_fd (answer_request a c) = cd_fd c" "cd_ident (answer_request a c) = cd_ident c"
  by (auto simp: answer_request_def split: list.splits)

lemma answer_pending_field: "cd_pending (answer_request a c) = (if cd_events c = [] then Some a else cd_pending c)"
  by (simp add: answer_request_def split: list.splits)

section \<open>Descriptors\<close>

lemma fd_index_distinct: "distinct (map cd_fd cs) \<Longrightarrow> i < length cs \<Longrightarrow> fd_index (cd_fd (cs ! i)) cs = Some i"
  by (induction cs arbitrary: i) (auto simp: less_Suc_eq_0_disj, metis imageI nth_mem)

lemma fd_index_update [simp]: "cd_fd c = cd_fd (cs ! i) \<Longrightarrow> map cd_fd (cs[i := c]) = map cd_fd cs"
  by (simp add: map_update) (metis list_update_id map_update)

section \<open>Requests\<close>

definition rcd_written :: "lircrcd \<Rightarrow> bool" where
  "rcd_written s \<longleftrightarrow> (\<forall>k. rcd_wr_ok s k)"

lemma rcd_write_all_ok:
  "rcd_written s \<Longrightarrow> rcd_write_all fd ts s =
     (True, s\<lparr>rcd_sent := rcd_sent s @ map (Pair fd) (filter (\<lambda>t. t \<noteq> []) ts),
              rcd_wr_count := rcd_wr_count s + length (filter (\<lambda>t. t \<noteq> []) ts)\<rparr>)"
  by (induction ts arbitrary: s) (simp_all add: rcd_write_all.simps rcd_write_def rcd_written_def)

definition sent_text :: "lircrcd \<Rightarrow> lircrcd \<Rightarrow> int \<Rightarrow> string \<Rightarrow> bool" where
  "sent_text s s' fd t \<longleftrightarrow> (\<exists>ts. rcd_sent s' = rcd_sent s @ map (Pair fd) ts \<and> concat ts = t)"

lemma rcd_write_all_text:
  "rcd_write_all fd ts s = (ok, s') \<Longrightarrow> rcd_written s \<Longrightarrow> ok \<and> sent_text s s' fd (concat ts)"
  using concat_nonempty [of ts] by (auto simp: rcd_write_all_ok sent_text_def)

definition rcd_kept :: "lircrcd \<Rightarrow> lircrcd \<Rightarrow> bool" where
  "rcd_kept s s' \<longleftrightarrow> rcd_config s' = rcd_config s \<and> rcd_lircd s' = rcd_lircd s \<and> rcd_wr_ok s' = rcd_wr_ok s"

lemma rcd_written_kept: "rcd_kept s s' \<Longrightarrow> rcd_written s' = rcd_written s"
  by (simp add: rcd_kept_def rcd_written_def)

lemma rcd_write_all_reply:
  assumes "rcd_write_all fd ts s = (ok, s')"
  shows "rcd_clis s' = rcd_clis s \<and> rcd_kept s s' \<and> (rcd_written s \<longrightarrow> ok \<and> sent_text s s' fd (concat ts))"
  using rcd_write_all_frame [of fd ts s] rcd_write_all_text [of fd ts s ok s'] assms by (simp add: rcd_kept_def)

lemma rcd_reply_text:
  "rcd_success fd m s = (ok, s') \<Longrightarrow> rcd_clis s' = rcd_clis s \<and> rcd_kept s s' \<and>
     (rcd_written s \<longrightarrow> ok \<and> sent_text s s' fd (reply_packet m True []))"
  "rcd_result fd m t s = (ok, s') \<Longrightarrow> rcd_clis s' = rcd_clis s \<and> rcd_kept s s' \<and>
     (rcd_written s \<longrightarrow> ok \<and> sent_text s s' fd (reply_packet m True [t]))"
  unfolding rcd_success_def rcd_result_def
  by (drule rcd_write_all_reply, simp add: reply_packet_def show_int_def show_dec_def numeral_eq_Suc)+

lemma rcd_client_clis [simp]: "rcd_clis (rcd_client f i s) = (rcd_clis s)[i := f (rcd_clis s ! i)]"
  "rcd_kept s (rcd_client f i s)" "rcd_kept s u \<Longrightarrow> rcd_kept s (rcd_client f i u)"
  "rcd_kept (rcd_client f i s) u = rcd_kept s u" "rcd_written (rcd_client f i s) = rcd_written s"
  "sent_text s (rcd_client f i u) = sent_text s u" "sent_text (rcd_client f i s) u = sent_text s u"
  by (auto simp: rcd_client_def rcd_kept_def sent_text_def rcd_written_def fun_eq_iff)

lemma code_func_answer:
  assumes "get_client_index fd s = Some i" "cd_pending (rcd_clis s ! i) = None" "code_func fd m (Some a) s = Some (ok, s')"
  shows "rcd_clis s' = (rcd_clis s)[i := answer_request a (rcd_clis s ! i)] \<and> rcd_kept s s' \<and>
    (rcd_written s \<longrightarrow> ok \<and> sent_text s s' fd (answered_text m a (replies (rcd_clis s ! i))))"
proof (cases "cd_events (rcd_clis s ! i)")
  case Nil
  then have "ok" "s' = rcd_client (\<lambda>c. c\<lparr>cd_pending := Some a\<rparr>) i s"
    using assms by (simp_all add: code_func_def Let_def)
  then show ?thesis using Nil by (simp add: answer_request_def answered_text_def replies_def sent_text_def)
next
  case (Cons e es)
  have q: "replies (rcd_clis s ! i) = (ei_code e, case ei_first e of [] \<Rightarrow> None | t # ts \<Rightarrow> Some t) #
      tl (replies (rcd_clis s ! i))"
    using Cons by (auto simp: replies_def event_replies_def split: list.splits)
  consider (other) "ei_code e \<noteq> a" | (no_more) "ei_code e = a" "ei_first e = []"
    | (string) t ts where "ei_code e = a" "ei_first e = t # ts" by (cases "ei_first e") auto
  then show ?thesis
  proof cases
    case other
    then have "rcd_success fd m s = (ok, s')" using assms Cons by (simp add: code_func_def Let_def)
    from rcd_reply_text(1) [OF this] show ?thesis
      using other Cons by (subst q) (auto simp: answer_request_def answered_text_def)
  next
    case no_more
    then have "rcd_success fd m (rcd_client (\<lambda>c. c\<lparr>cd_events := es\<rparr>) i s) = (ok, s')"
      using assms Cons by (simp add: code_func_def Let_def)
    from rcd_reply_text(1) [OF this] show ?thesis
      using no_more Cons by (subst q) (auto simp: answer_request_def answered_text_def)
  next
    case string
    then obtain u where u: "rcd_result fd m t s = (ok, u)" "s' = rcd_client (\<lambda>c. c\<lparr>cd_events := e\<lparr>ei_first := ts\<rparr> # es\<rparr>) i u"
      using assms Cons by (auto simp: code_func_def Let_def split: prod.splits)
    from rcd_reply_text(2) [OF u(1)] show ?thesis
      using string Cons by (subst q) (auto simp: u(2) answer_request_def answered_text_def)
  qed
qed

text \<open>C12: A \<open>CODE\<close> request takes the head of the client's queue of replies when it is for that code, and
  answers with it; for another code it is answered without a string and the queue stays; on an empty queue
  it waits. The other clients keep theirs.\<close>

theorem code_request:
  assumes "distinct (map cd_fd (rcd_clis s))" "i < length (rcd_clis s)" "cd_pending (rcd_clis s ! i) = None"
    "code_func (cd_fd (rcd_clis s ! i)) m (Some a) s = Some (ok, s')" "rcd_written s"
  shows "map replies (rcd_clis s') = (map replies (rcd_clis s))[i := ask a (replies (rcd_clis s ! i))] \<and>
    sent_text s s' (cd_fd (rcd_clis s ! i)) (answered_text m a (replies (rcd_clis s ! i))) \<and>
    cd_pending (rcd_clis s' ! i) = (if replies (rcd_clis s ! i) = [] then Some a else None)"
proof -
  have "get_client_index (cd_fd (rcd_clis s ! i)) s = Some i"
    using assms(1,2) by (simp add: get_client_index_def fd_index_distinct)
  from code_func_answer [OF this assms(3,4)] show ?thesis
    using assms(2,3,5) by (simp add: map_update replies_answer answer_pending_field)
qed

section \<open>Codes\<close>

text \<open>All strings that the entries yield for a code, with their programs.\<close>

function strings_of_code :: "string \<Rightarrow> lirc_config \<Rightarrow> ((string \<times> string option) list \<times> lirc_config) option" where
  "strings_of_code code c =
     (case code2charprog code c of
        None \<Rightarrow> None
      | Some (None, c) \<Rightarrow> Some ([], c)
      | Some (Some x, c) \<Rightarrow> map_option (\<lambda>(xs, c). (x # xs, c)) (strings_of_code code c))"
  by pat_completeness auto
termination
  by (relation "measure (\<lambda>(code, c). case cf_next c of None \<Rightarrow> 0 | Some i \<Rightarrow> Suc (length (cf_first c) - i))")
    (auto simp: code2charprog_def next_within_def split: option.splits dest!: code2char_internal_next)

declare strings_of_code.simps [simp del]

definition strings_for :: "(string \<times> string option) list \<Rightarrow> client_data \<Rightarrow> string list" where
  "strings_for xs c = map fst (filter (\<lambda>x. snd x = cd_ident c) xs)"

definition add_strings :: "string list \<Rightarrow> client_data \<Rightarrow> client_data" where
  "add_strings ts c =
     c\<lparr>cd_events := butlast (cd_events c) @ [(last (cd_events c))\<lparr>ei_first := ei_first (last (cd_events c)) @ ts\<rparr>]\<rparr>"

text \<open>Comparing a program with the name of a client faults when one of them is missing.\<close>

definition nameless :: "(string \<times> string option) list \<Rightarrow> client_data list \<Rightarrow> bool" where
  "nameless xs cs \<longleftrightarrow> (\<exists>x \<in> set xs. \<exists>c \<in> set cs. snd x = None \<or> cd_ident c = None)"

lemma nameless_Nil [simp]: "\<not> nameless [] cs"
  by (simp add: nameless_def)

lemma schedule_all_strings:
  "\<forall>c \<in> set cs. cd_events c \<noteq> [] \<Longrightarrow>
     schedule_all p t cs = (if nameless [(t, p)] cs then None else Some (map (\<lambda>c. add_strings (strings_for [(t, p)] c) c) cs))"
  by (induction cs) (auto simp: nameless_def schedule_def strings_for_def add_strings_def Let_def bind_eq_Some_conv split: option.splits)

lemma add_strings_more:
  "cd_events c \<noteq> [] \<Longrightarrow> add_strings ts (add_strings us c) = add_strings (us @ ts) c"
  "cd_events (add_strings ts c) \<noteq> []" "strings_for xs (add_strings ts c) = strings_for xs c"
  by (simp_all add: add_strings_def strings_for_def)

lemma add_no_strings: "cd_events c \<noteq> [] \<Longrightarrow> add_strings [] c = c"
  by (simp add: add_strings_def)

lemma nameless_add [simp]: "nameless xs (map (\<lambda>c. add_strings (f c) c) cs) = nameless xs cs"
  by (auto simp: nameless_def add_strings_def)

lemma schedule_code_strings:
  "\<forall>c \<in> set (rcd_clis s). cd_events c \<noteq> [] \<Longrightarrow>
     schedule_code code s =
       (case strings_of_code code (rcd_config s) of
          None \<Rightarrow> None
        | Some (xs, c) \<Rightarrow>
            if nameless xs (rcd_clis s) then None
            else Some (s\<lparr>rcd_config := c, rcd_clis := map (\<lambda>c. add_strings (strings_for xs c) c) (rcd_clis s)\<rparr>))"
proof (induction code s rule: schedule_code.induct)
  case (1 code s)
  note r = schedule_code.simps [of code s] strings_of_code.simps [of code "rcd_config s"]
  have none: "map (\<lambda>c. add_strings (strings_for [] c) c) (rcd_clis s) = rcd_clis s"
    using 1(2) by (intro map_idI) (simp add: strings_for_def add_no_strings)
  consider (fault) "code2charprog code (rcd_config s) = None"
    | (no_more) c where "code2charprog code (rcd_config s) = Some (None, c)"
    | (string) t p c where "code2charprog code (rcd_config s) = Some (Some (t, p), c)"
    by (metis option.exhaust prod.exhaust)
  then show ?case
  proof cases
    case string
    show ?thesis
    proof (cases "nameless [(t, p)] (rcd_clis s)")
      case True
      then show ?thesis
        using string by (simp add: r schedule_all_strings [OF 1(2)] split: option.split)
          (auto simp: nameless_def)
    next
      case False
      let ?cs = "map (\<lambda>c. add_strings (strings_for [(t, p)] c) c) (rcd_clis s)"
      have cs: "schedule_all p t (rcd_clis s) = Some ?cs" using False by (simp add: schedule_all_strings [OF 1(2)])
      have ih: "schedule_code code (s\<lparr>rcd_config := c, rcd_clis := ?cs\<rparr>) =
          (case strings_of_code code c of None \<Rightarrow> None
           | Some (xs, d) \<Rightarrow> if nameless xs (rcd_clis s) then None
               else Some (s\<lparr>rcd_config := d, rcd_clis := map (\<lambda>c. add_strings (strings_for xs c) c) ?cs\<rparr>))"
        using 1(1) [OF string refl refl refl cs] add_strings_more(2) by (simp split: option.split)
      have more: "map (\<lambda>c. add_strings (strings_for xs c) c) ?cs =
          map (\<lambda>c. add_strings (strings_for ((t, p) # xs) c) c) (rcd_clis s)" for xs
        using 1(2) by (simp add: add_strings_more) (simp add: strings_for_def)
      have nl: "nameless ((t, p) # xs) (rcd_clis s) = nameless xs (rcd_clis s)" for xs
        using False by (auto simp: nameless_def)
      show ?thesis using string cs False by (simp add: r ih more [unfolded map_map] nl split: option.split)
    qed
  qed (simp_all add: r none)
qed

lemma answer_pending_faults:
  "answer_pending is s = (if \<exists>i \<in> set is. cd_pending (rcd_clis s ! i) \<noteq> None then None else Some s)"
  by (induction "is" s rule: answer_pending.induct) (auto simp: into_array_def split: option.splits)

text \<open>Descriptors are different, and only a client without replies waits.\<close>

definition rcd_ok :: "lircrcd \<Rightarrow> bool" where
  "rcd_ok s \<longleftrightarrow> distinct (map cd_fd (rcd_clis s)) \<and> (\<forall>c \<in> set (rcd_clis s). cd_pending c \<noteq> None \<longrightarrow> cd_events c = [])"

lemma replies_new:
  "replies (add_strings ts (new_event code c)) =
     replies c @ map (\<lambda>t. (butlast code, Some t)) ts @ [(butlast code, None)]"
  by (simp add: replies_def add_strings_def new_event_def event_replies_def)

lemma new_event_frame [simp]:
  "cd_fd (add_strings ts (new_event code c)) = cd_fd c" "cd_pending (add_strings ts (new_event code c)) = cd_pending c"
  "cd_ident (add_strings ts (new_event code c)) = cd_ident c" "cd_events (add_strings ts (new_event code c)) \<noteq> []"
  "cd_events (new_event code c) \<noteq> []" "strings_for xs (new_event code c) = strings_for xs c"
  by (simp_all add: add_strings_def new_event_def strings_for_def)

definition waiting :: "lircrcd \<Rightarrow> bool" where
  "waiting s \<longleftrightarrow> (\<exists>c \<in> set (rcd_clis s). cd_pending c \<noteq> None)"

lemma answer_all: "answer_pending [0..<length (rcd_clis u)] u = (if waiting u then None else Some u)"
proof -
  have "(\<exists>i \<in> set [0..<length (rcd_clis u)]. cd_pending (rcd_clis u ! i) \<noteq> None) = waiting u"
    unfolding waiting_def by (simp only: set_conv_nth) auto
  then show ?thesis by (simp only: answer_pending_faults)
qed

lemma nameless_new [simp]: "nameless xs (map (new_event code) cs) = nameless xs cs"
  by (simp add: nameless_def new_event_def)

lemma handle_input_code:
  assumes "lirc_nextcode (rcd_lircd s) = (0, Some code, n)"
  shows "handle_input s =
    (case strings_of_code code (rcd_config s) of
       None \<Rightarrow> None
     | Some (xs, c) \<Rightarrow>
         if nameless xs (rcd_clis s) \<or> waiting s then None
         else Some (True, s\<lparr>rcd_lircd := n, rcd_config := c,
           rcd_clis := map (\<lambda>c. add_strings (strings_for xs c) (new_event code c)) (rcd_clis s)\<rparr>))"
proof -
  let ?t = "s\<lparr>rcd_lircd := n, rcd_clis := map (new_event code) (rcd_clis s)\<rparr>"
  have "\<forall>c \<in> set (rcd_clis ?t). cd_events c \<noteq> []" by simp
  from schedule_code_strings [OF this, of code]
  have "schedule_code code ?t = (case strings_of_code code (rcd_config s) of
       None \<Rightarrow> None
     | Some (xs, c) \<Rightarrow>
         if nameless xs (rcd_clis s) then None
         else Some (s\<lparr>rcd_lircd := n, rcd_config := c,
           rcd_clis := map (\<lambda>c. add_strings (strings_for xs c) (new_event code c)) (rcd_clis s)\<rparr>))"
    by (simp add: comp_def split: option.split)
  moreover have "handle_input s =
      do { u \<leftarrow> schedule_code code ?t; v \<leftarrow> answer_pending [0..<length (rcd_clis u)] u; Some (True, v) }"
    using assms by (simp add: handle_input_def)
  ultimately show ?thesis by (simp add: answer_all waiting_def split: option.split)
qed

lemma input_code_ok:
  "handle_input s = Some (True, s') \<Longrightarrow> rcd_ok s \<Longrightarrow> lirc_nextcode (rcd_lircd s) = (0, Some code, n) \<Longrightarrow> rcd_ok s'"
  by (auto simp: handle_input_code rcd_ok_def waiting_def comp_def split: option.splits if_splits)

text \<open>C11: A code of \<open>lircd\<close> is appended to the queue of every client: the strings that the entries yield for
  its program, in their order, and the mark that there are no more. Nobody is written to, and the clients
  keep their names and descriptors. This holds unless the daemon faults, and it faults exactly when matching
  the code does, when a string is found while a client has not sent its name (or the entry has no program),
  or when a client waits for a code, because the array for the text of its request is too short.\<close>

theorem input_queued:
  assumes "lirc_nextcode (rcd_lircd s) = (0, Some code, n)"
  shows "case strings_of_code code (rcd_config s) of
      None \<Rightarrow> handle_input s = None
    | Some (xs, c) \<Rightarrow>
        if nameless xs (rcd_clis s) \<or> waiting s then handle_input s = None
        else \<exists>s'. handle_input s = Some (True, s') \<and> rcd_config s' = c \<and> rcd_sent s' = rcd_sent s \<and>
          map replies (rcd_clis s') =
            map (\<lambda>c. replies c @ map (\<lambda>t. (butlast code, Some t)) (strings_for xs c) @ [(butlast code, None)]) (rcd_clis s) \<and>
          map cd_fd (rcd_clis s') = map cd_fd (rcd_clis s) \<and> map cd_ident (rcd_clis s') = map cd_ident (rcd_clis s) \<and>
          \<not> waiting s'"
  by (auto simp: handle_input_code [OF assms] replies_new waiting_def split: option.split)

section \<open>A demonstration\<close>

definition demo_lircrcd :: lircrcd where
  "demo_lircrcd = \<lparr>rcd_clis = [\<lparr>cd_fd = 5, cd_ident = Some ''vlc'', cd_events = [], cd_pending = None\<rparr>],
     rcd_config = demo_rc,
     rcd_link = \<lparr>ln_reader = \<lparr>rd_buffer = [], rd_head = 0, rd_input = []\<rparr>, ln_written = True, ln_junk = 0,
       ln_getmode = [], ln_setmode = [], ln_code = []\<rparr>,
     rcd_lircd = \<lparr>nc_buffer = None, nc_packet_size = 100, nc_end_len = 0, nc_input = [Got (''12 00 play tv'' @ endl)]\<rparr>,
     rcd_sent = [], rcd_wr_ok = (\<lambda>_. True), rcd_wr_count = 0, rcd_incoming = (\<lambda>_. [])\<rparr>"

lemma demo_nextcode: "\<exists>n. lirc_nextcode (rcd_lircd demo_lircrcd) = (0, Some (''12 00 play tv'' @ endl), n)"
  by (simp add: demo_lircrcd_def lirc_nextcode_def take_code_def cstr_def endl_def)

lemma input_queued_witness:
  "\<exists>xs c s'. strings_of_code (''12 00 play tv'' @ endl) demo_rc = Some (xs, c) \<and>
    handle_input demo_lircrcd = Some (True, s') \<and>
    map replies (rcd_clis s') =
      [map (\<lambda>t. (''12 00 play tv'', Some t)) (strings_for xs (rcd_clis demo_lircrcd ! 0)) @ [(''12 00 play tv'', None)]]"
proof -
  obtain n where n: "lirc_nextcode (rcd_lircd demo_lircrcd) = (0, Some (''12 00 play tv'' @ endl), n)"
    using demo_nextcode by blast
  have "handle_input demo_lircrcd \<noteq> None" by code_simp
  then show ?thesis
    using input_queued [OF n]
    by (auto simp: demo_lircrcd_def endl_def replies_def [of "\<lparr>cd_fd = _, cd_ident = _, cd_events = [], cd_pending = _\<rparr>"]
        split: option.splits if_splits)
qed

lemma waiting_request_faults: "handle_input (rcd_client (\<lambda>c. c\<lparr>cd_pending := Some ''c''\<rparr>) 0 demo_lircrcd) = None"
  by code_simp

definition demo_queue :: lircrcd where
  "demo_queue = demo_lircrcd\<lparr>rcd_clis :=
     [\<lparr>cd_fd = 5, cd_ident = Some ''vlc'', cd_events = [\<lparr>ei_code = ''c'', ei_first = [''on'']\<rparr>], cd_pending = None\<rparr>]\<rparr>"

lemma code_request_witness:
  "\<exists>s'. code_func 5 (''CODE c'' @ endl) (Some ''c'') demo_queue = Some (True, s') \<and> map replies (rcd_clis s') = [[(''c'', None)]]"
proof -
  have "map_option fst (code_func 5 (''CODE c'' @ endl) (Some ''c'') demo_queue) = Some True" by code_simp
  then obtain s' where s': "code_func (cd_fd (rcd_clis demo_queue ! 0)) (''CODE c'' @ endl) (Some ''c'') demo_queue = Some (True, s')"
    by (auto simp: demo_queue_def)
  have q: "distinct (map cd_fd (rcd_clis demo_queue))" "0 < length (rcd_clis demo_queue)"
    "cd_pending (rcd_clis demo_queue ! 0) = None" "rcd_written demo_queue"
    by (simp_all add: demo_queue_def demo_lircrcd_def rcd_written_def)
  from code_request [OF q(1,2,3) s' q(4)] s' show ?thesis
    by (simp add: demo_queue_def replies_def event_replies_def ask_def)
qed

end
