(* ===== verification/RcInvariant.thy ===== *)
theory RcInvariant
  imports RcQueues
begin

text \<open>
  The invariant of \<open>lircrcd\<close> through its main loop: every request that is answered with nothing yet waits,
  and it waits on an empty queue only.
\<close>

section \<open>Commands\<close>

definition rcd_keeps :: "lircrcd \<Rightarrow> lircrcd \<Rightarrow> bool" where
  "rcd_keeps s s' \<longleftrightarrow> (rcd_ok s \<longrightarrow> rcd_ok s') \<and> map cd_fd (rcd_clis s') = map cd_fd (rcd_clis s)"

lemma rcd_keeps_clis: "rcd_clis s' = rcd_clis s \<Longrightarrow> rcd_keeps s s'"
  by (simp add: rcd_keeps_def rcd_ok_def)

lemma rcd_keeps_trans: "rcd_keeps s t \<Longrightarrow> rcd_keeps t u \<Longrightarrow> rcd_keeps s u"
  by (simp add: rcd_keeps_def)

lemma rcd_keeps_update:
  assumes "rcd_clis s' = (rcd_clis s)[i := c]" "i < length (rcd_clis s)" "cd_fd c = cd_fd (rcd_clis s ! i)"
    "cd_pending (rcd_clis s ! i) \<noteq> None \<longrightarrow> cd_events (rcd_clis s ! i) = [] \<Longrightarrow> cd_pending c \<noteq> None \<longrightarrow> cd_events c = []"
  shows "rcd_keeps s s'"
proof -
  have "cd_pending c \<noteq> None \<longrightarrow> cd_events c = []" if "rcd_ok s"
    using that assms(2) by (intro assms(4)) (simp add: rcd_ok_def)
  then show ?thesis
    using assms(1-3) by (auto simp: rcd_keeps_def rcd_ok_def dest!: set_update_subset_insert [THEN subsetD])
qed

interpretation keeps: rcd_relation rcd_keeps
proof
  show "rcd_keeps s t \<Longrightarrow> rcd_keeps t u \<Longrightarrow> rcd_keeps s u" for s t u by (rule rcd_keeps_trans)
  show "rcd_write_all fd ts s = (ok, s') \<Longrightarrow> rcd_keeps s s'" for fd ts s ok s'
    by (drule rcd_write_all_reply) (auto intro: rcd_keeps_clis)
  show "rcd_keeps s (s\<lparr>rcd_config := c, rcd_link := l\<rparr>)" for s c l by (rule rcd_keeps_clis) simp
  show "i < length (rcd_clis s) \<Longrightarrow> cd_fd (f (rcd_clis s ! i)) = cd_fd (rcd_clis s ! i) \<Longrightarrow>
      (cd_pending (rcd_clis s ! i) \<noteq> None \<longrightarrow> cd_events (rcd_clis s ! i) = []) \<longrightarrow>
      (cd_pending (f (rcd_clis s ! i)) \<noteq> None \<longrightarrow> cd_events (f (rcd_clis s ! i)) = []) \<Longrightarrow> rcd_keeps s (rcd_client f i s)" for f i s
    by (rule rcd_keeps_update [where i = i and c = "f (rcd_clis s ! i)"]) simp_all
qed

lemma rcd_keeps_read: "rcd_read fd n s = (t, s') \<Longrightarrow> rcd_keeps s s'"
  by (drule rcd_read_clis) (rule rcd_keeps_clis)

lemma rcd_keeps_lines: "rcd_lines fd b s = Some (ok, s') \<Longrightarrow> rcd_keeps s s'"
proof (induction fd b s arbitrary: ok s' rule: rcd_lines.induct)
  case (1 fd b s)
  note ih = 1(1,2)
  show ?case
  proof (cases "next_line b")
    case None
    then show ?thesis using 1(3) by (subst (asm) rcd_lines.simps) (auto intro: rcd_keeps_clis)
  next
    case l: (Some lr)
    obtain line rest where lr: "lr = (line, rest)" by fastforce
    with 1(3) l obtain k t where k: "rcd_line fd line s = Some (k, t)"
      by (subst (asm) rcd_lines.simps) (auto split: option.splits)
    have "rcd_keeps t s'"
      using 1(3) l lr k ih [OF l lr [symmetric] k refl] rcd_keeps_read [of fd _ t]
      by (subst (asm) rcd_lines.simps)
        (auto split: option.splits prod.splits if_splits intro: rcd_keeps_clis, metis rcd_keeps_trans)
    then show ?thesis using keeps.line [OF k] rcd_keeps_trans by blast
  qed
qed

lemma rcd_keeps_command: "rcd_command fd s = Some (ok, s') \<Longrightarrow> rcd_keeps s s'"
  by (auto simp: rcd_command_def split: prod.splits option.splits if_splits
      intro: rcd_keeps_read rcd_keeps_trans [OF rcd_keeps_read rcd_keeps_lines])

section \<open>Rounds\<close>

lemma rcd_remove_keeps:
  assumes "rcd_ok s"
  shows "rcd_ok (rcd_remove i s) \<and> set (map cd_fd (rcd_clis (rcd_remove i s))) \<subseteq> set (map cd_fd (rcd_clis s))"
proof -
  have m: "map cd_fd (rcd_clis (rcd_remove i s)) = take i (map cd_fd (rcd_clis s)) @ drop (Suc i) (map cd_fd (rcd_clis s))"
    by (simp add: rcd_remove_def take_map drop_map)
  then have "distinct (map cd_fd (rcd_clis (rcd_remove i s)))"
    using assms set_take_disj_set_drop_if_distinct [of "map cd_fd (rcd_clis s)" i "Suc i"]
    by (simp add: rcd_ok_def distinct_drop)
  moreover have "set (rcd_clis (rcd_remove i s)) \<subseteq> set (rcd_clis s)"
    by (auto simp: rcd_remove_def dest: in_set_takeD in_set_dropD)
  ultimately show ?thesis using assms by (auto simp: rcd_ok_def)
qed

lemma rcd_serve_keeps:
  "rcd_serve i ready s = Some (go, s') \<Longrightarrow> rcd_ok s \<Longrightarrow>
     rcd_ok s' \<and> set (map cd_fd (rcd_clis s')) \<subseteq> set (map cd_fd (rcd_clis s))"
proof (induction i ready s arbitrary: go s' rule: rcd_serve.induct)
  case (1 i ready s)
  note ih = 1(1-3)
  let ?fd = "cd_fd (rcd_clis s ! i)"
  show ?case
  proof (cases "i < length (rcd_clis s)")
    case False
    then show ?thesis using 1(4,5) by (subst (asm) rcd_serve.simps) auto
  next
    case i: True
    show ?thesis
    proof (cases "?fd \<in> set ready")
      case False
      then show ?thesis using 1(4,5) i ih(3) [OF i refl False] by (subst (asm) rcd_serve.simps) simp
    next
      case True
      with 1(4) i obtain ok t where t: "rcd_command ?fd s = Some (ok, t)"
        by (subst (asm) rcd_serve.simps) (auto simp: Let_def split: option.splits)
      have k: "rcd_ok t" "set (map cd_fd (rcd_clis t)) = set (map cd_fd (rcd_clis s))"
        using rcd_keeps_command [OF t] 1(5) by (simp_all add: rcd_keeps_def)
      consider (ok) "ok" | (last) "\<not> ok" "rcd_clis (rcd_remove i t) = []" | (gone) "\<not> ok" "rcd_clis (rcd_remove i t) \<noteq> []"
        by blast
      then show ?thesis
      proof cases
        case ok
        then have "rcd_serve (Suc i) (removeAll ?fd ready) t = Some (go, s')"
          using 1(4) i True t by (subst (asm) rcd_serve.simps) (simp add: Let_def)
        then show ?thesis using ih(1) [OF i refl True t refl ok] k by blast
      next
        case last
        then have "s' = rcd_remove i t" using 1(4) i True t by (subst (asm) rcd_serve.simps) (simp add: Let_def)
        then show ?thesis using rcd_remove_keeps [OF k(1), of i] k by blast
      next
        case gone
        then have "rcd_serve i (removeAll ?fd ready) (rcd_remove i t) = Some (go, s')"
          using 1(4) i True t by (subst (asm) rcd_serve.simps) (simp add: Let_def)
        then show ?thesis using ih(2) [OF i refl True t refl gone] rcd_remove_keeps [OF k(1), of i] k by blast
      qed
    qed
  qed
qed

lemma rcd_add_ok: "rcd_ok s \<Longrightarrow> fd \<notin> set (map cd_fd (rcd_clis s)) \<Longrightarrow> rcd_ok (rcd_add fd s)"
  by (auto simp: rcd_ok_def rcd_add_def)

text \<open>C14: Through every round of the main loop the descriptors of the clients stay different, provided
  \<open>accept\<close> returns none that is in use, and a request only waits while there is nothing to answer_request it with.\<close>

theorem requests_wait_for_replies:
  assumes "rcd_round r s = Some (go, s')" "rcd_ok s" "\<forall>fd. rr_accept r = Some fd \<longrightarrow> fd \<notin> set (map cd_fd (rcd_clis s))"
  shows "rcd_ok s'"
proof -
  obtain k t where t: "rcd_serve 0 (rr_clients r) s = Some (k, t)"
    using assms(1) by (auto simp: rcd_round_def split: bind_splits)
  have t': "rcd_ok t" "set (map cd_fd (rcd_clis t)) \<subseteq> set (map cd_fd (rcd_clis s))"
    using rcd_serve_keeps [OF t assms(2)] by simp_all
  let ?u = "case rr_accept r of None \<Rightarrow> t | Some fd \<Rightarrow> rcd_add fd t"
  have u: "rcd_ok ?u"
  proof (cases "rr_accept r")
    case (Some fd)
    then have "fd \<notin> set (map cd_fd (rcd_clis t))" using t'(2) assms(3) by blast
    then show ?thesis using Some t'(1) rcd_add_ok by simp
  qed (use t' in simp)
  consider "\<not> k" | "k" "\<not> rr_lircd r" | (input) "k" "rr_lircd r" by blast
  then show ?thesis
  proof cases
    case input
    then obtain ok v where v: "handle_input ?u = Some (ok, v)" "s' = (if ok then v else v\<lparr>rcd_clis := []\<rparr>)"
      using assms(1) t by (auto simp: rcd_round_def split: bind_splits if_splits)
    show ?thesis
    proof (cases ok)
      case True
      then obtain code n where "lirc_nextcode (rcd_lircd ?u) = (0, Some code, n)"
        using v(1) by (auto simp: handle_input_def Let_def split: prod.splits if_splits bind_splits)
      then have "rcd_ok v" using input_code_ok [OF _ u] v(1) True by simp
      then show ?thesis using v(2) True by simp
    next
      case False
      then show ?thesis using v(2) by (simp add: rcd_ok_def)
    qed
  qed (use assms(1) t t' u in \<open>auto simp: rcd_round_def split: bind_splits\<close>)
qed

lemma requests_wait_for_replies_witness:
  "\<exists>go s'. rcd_round \<lparr>rr_clients = [], rr_accept = Some 6, rr_lircd = False\<rparr> demo_queue = Some (go, s') \<and> rcd_ok s'"
proof -
  let ?r = "\<lparr>rr_clients = [], rr_accept = Some 6, rr_lircd = False\<rparr>"
  have "map_option fst (rcd_round ?r demo_queue) = Some True" by code_simp
  then obtain go s' where r: "rcd_round ?r demo_queue = Some (go, s')" by auto
  have "rcd_ok demo_queue" by (simp add: demo_queue_def rcd_ok_def)
  then have "rcd_ok s'" by (rule requests_wait_for_replies [OF r]) (simp add: demo_queue_def)
  with r show ?thesis by blast
qed

text \<open>A client that has not sent its name yet stops the daemon when a code has a string for any program:
  the names are compared with \<open>strcmp\<close>.\<close>

lemma nameless_client_faults: "handle_input (rcd_add 6 demo_lircrcd) = None"
  by code_simp

text \<open>When a code is skipped, its replies are at the head of the queue for ever.\<close>

lemma skipped_code_blocks:
  "cd_events c = e # es \<Longrightarrow> ei_code e \<noteq> a \<Longrightarrow> cd_pending c = None \<Longrightarrow> answer_request a c = c"
  by (simp add: answer_request_def)

end
