(* ===== verification/RecScheme.thy ===== *)
theory RecScheme
  imports IrRemoteH
begin

text \<open>
  The histograms of \<open>daemons/irrecord.c\<close>: lists of classes of similar lengths
  (\<open>struct lengths\<close>), to which lengths are added one by one and whose classes are merged.

  A linked list is the list of its elements, a pointer into it the index of the element, NULL
  is \<open>None\<close> or the empty list. The globals \<open>eps\<close> (unsigned) and \<open>aeps\<close> (\<open>lirc_t\<close>) are
  arguments. An operand that meets an unsigned one is converted, as in C. A division by a
  count of zero is a fault; allocation succeeds.
\<close>

record lengths =
  l_count :: u32
  l_sum :: lirc_t
  upper_bound :: lirc_t
  lower_bound :: lirc_t
  l_min :: lirc_t
  l_max :: lirc_t

text \<open>Quotient of unsigned integers.\<close>

definition udiv :: "u32 \<Rightarrow> u32 \<Rightarrow> u32 option" where
  "udiv a b = (if b = 0 then None else Some (a div b))"

lemma udiv_Some [simp]: "b \<noteq> 0 \<Longrightarrow> udiv a b = Some (a div b)"
  by (simp add: udiv_def)

lemma udiv_None [simp]: "udiv a b = None \<longleftrightarrow> b = 0"
  by (simp add: udiv_def)

definition calc_signal :: "lengths \<Rightarrow> lirc_t option" where
  "calc_signal len = map_option sint (udiv (word_of_int (l_sum len)) (l_count len))"

section \<open>Adding a length\<close>

definition new_length :: "lirc_t \<Rightarrow> lengths" where
  "new_length len =
     \<lparr>l_count = 1, l_sum = len, upper_bound = i32 (len sdiv 100 * 100 + 99),
      lower_bound = i32 (len sdiv 100 * 100), l_min = len, l_max = len\<rparr>"

definition in_class :: "lirc_t \<Rightarrow> lengths \<Rightarrow> bool" where
  "in_class len l \<longleftrightarrow> lower_bound l \<le> len \<and> len \<le> upper_bound l"

definition count_length :: "lirc_t \<Rightarrow> lengths \<Rightarrow> lengths" where
  "count_length len l =
     l\<lparr>l_count := l_count l + 1, l_sum := i32 (l_sum l + len),
       l_min := (if l_min l > len then len else l_min l),
       l_max := (if l_max l > len then l_max l else len)\<rparr>"

fun add_length :: "lirc_t \<Rightarrow> lengths list \<Rightarrow> lengths list" where
  "add_length len [] = [new_length len]"
| "add_length len (l # ls) =
     (if in_class len l then count_length len l # ls else l # add_length len ls)"

section \<open>Merging classes\<close>

text \<open>The mean of both classes is \<open>q\<close>. The second alternative is meant to be the relative
  tolerance; its factors are not divided by 100.\<close>

definition within_abs :: "lirc_t \<Rightarrow> u32 \<Rightarrow> lengths \<Rightarrow> bool" where
  "within_abs ae q l \<longleftrightarrow>
     word_of_int (l_max l) \<le> q + word_of_int ae \<and> word_of_int (i32 (l_min l + ae)) \<ge> q"

definition within_rel :: "u32 \<Rightarrow> u32 \<Rightarrow> lengths \<Rightarrow> bool" where
  "within_rel e q l \<longleftrightarrow>
     word_of_int (l_max l) \<le> q * (100 + e) \<and> word_of_int (l_min l) \<ge> q * (100 - e)"

definition mergeable :: "u32 \<Rightarrow> lirc_t \<Rightarrow> lengths \<Rightarrow> lengths \<Rightarrow> bool option" where
  "mergeable e ae l i =
     do { q \<leftarrow> udiv (word_of_int (l_sum l) + word_of_int (l_sum i)) (l_count l + l_count i);
          Some (within_abs ae q l \<and> within_abs ae q i \<or> within_rel e q l \<and> within_rel e q i) }"

definition merge_two :: "lengths \<Rightarrow> lengths \<Rightarrow> lengths" where
  "merge_two l i =
     \<lparr>l_count = l_count l + l_count i, l_sum = i32 (l_sum l + l_sum i),
      upper_bound = (if upper_bound l > upper_bound i then upper_bound l else upper_bound i),
      lower_bound = (if lower_bound l > lower_bound i then lower_bound i else lower_bound l),
      l_min = (if l_min l > l_min i then l_min i else l_min l),
      l_max = (if l_max l > l_max i then l_max l else l_max i)\<rparr>"

text \<open>The inner loop: classes behind \<open>l\<close> that fit are merged into it, the others stay.\<close>

fun merge_into :: "u32 \<Rightarrow> lirc_t \<Rightarrow> lengths \<Rightarrow> lengths list \<Rightarrow> (lengths \<times> lengths list) option" where
  "merge_into e ae l [] = Some (l, [])"
| "merge_into e ae l (i # ls) =
     do { m \<leftarrow> mergeable e ae l i;
          if m then merge_into e ae (merge_two l i) ls
          else do { (l, ls) \<leftarrow> merge_into e ae l ls; Some (l, i # ls) } }"

lemma merge_into_length: "merge_into e ae l ls = Some (l', ls') \<Longrightarrow> length ls' \<le> length ls"
  by (induction ls arbitrary: l l' ls')
    (auto simp: bind_eq_Some_conv le_SucI split: if_splits prod.splits)

function merge_lengths :: "u32 \<Rightarrow> lirc_t \<Rightarrow> lengths list \<Rightarrow> lengths list option" where
  "merge_lengths e ae [] = Some []"
| "merge_lengths e ae (l # ls) =
     (case merge_into e ae l ls of
        None \<Rightarrow> None
      | Some (l, ls) \<Rightarrow> map_option (Cons l) (merge_lengths e ae ls))"
  by pat_completeness auto
termination
  by (relation "measure (\<lambda>(e, ae, ls). length ls)") (auto dest: merge_into_length)

text \<open>Every caller adds a length and merges the list.\<close>

definition add_merge :: "u32 \<Rightarrow> lirc_t \<Rightarrow> lirc_t \<Rightarrow> lengths list \<Rightarrow> lengths list option" where
  "add_merge e ae len ls = merge_lengths e ae (add_length len ls)"

section \<open>The most frequent class\<close>

fun max_scan :: "lengths list \<Rightarrow> nat \<Rightarrow> nat \<Rightarrow> u32 \<Rightarrow> u32 \<Rightarrow> nat \<times> u32" where
  "max_scan [] k best best_count sm = (best, sm)"
| "max_scan (l # ls) k best best_count sm =
     (if l_count l > best_count then max_scan ls (Suc k) k (l_count l) (sm + l_count l)
      else max_scan ls (Suc k) best best_count (sm + l_count l))"

text \<open>The index of the class and the sum of all counts, which is only stored for a list that is
  not empty.\<close>

definition get_max_length :: "lengths list \<Rightarrow> (nat \<times> u32) option" where
  "get_max_length ls =
     (case ls of [] \<Rightarrow> None | l # rest \<Rightarrow> Some (max_scan rest 1 0 (l_count l) (l_count l)))"

definition unlink_length :: "nat \<Rightarrow> lengths list \<Rightarrow> lengths list" where
  "unlink_length i ls = take i ls @ drop (Suc i) ls"

text \<open>The first class with more than \<open>n\<close> lengths.\<close>

definition frequent :: "u32 \<Rightarrow> lengths list \<Rightarrow> lengths option" where
  "frequent n ls = find (\<lambda>l. l_count l > n) ls"

text \<open>
  \<open>daemons/irrecord.c\<close>: the state of the analysis of recorded samples and the functions that
  read the parameters of the protocol off the histograms (\<open>get_scheme\<close>, \<open>get_header_length\<close>,
  \<open>get_trail_length\<close>, \<open>get_lead_length\<close>, \<open>get_repeat_length\<close>, \<open>get_data_length\<close>).

  The thirteen list heads \<open>first_space\<close>, \<dots>, \<open>first_repeats\<close> are one function \<open>hists\<close> from
  their names. The array \<open>lengths\<close> is \<open>length_counts\<close>; \<open>an_remote\<close> is the remote that is being
  determined. The members with the prefix \<open>an_\<close> are the local variables of \<open>get_lengths\<close> and
  the global \<open>count\<close>. What is printed is left out.
\<close>

section \<open>State\<close>

datatype hist =
    First_space | First_pulse | First_sum | First_gap | First_repeat_gap | First_signal_length
  | First_headerp | First_headers | First_1lead | First_3lead | First_trail
  | First_repeatp | First_repeats

datatype analyse_mode = MODE_GAP | MODE_HAVE_GAP

record analyser =
  g_eps :: u32
  g_aeps :: lirc_t
  hists :: "hist \<Rightarrow> lengths list"
  length_counts :: "u32 list"
  first_length :: u32
  first_lengths :: u32
  second_lengths :: u32
  count_spaces :: u32
  count_3repeats :: u32
  count_5repeats :: u32
  count_signals :: u32
  signals :: "lirc_t list"
  an_remote :: ir_remote
  an_count :: u32
  an_mode :: analyse_mode
  an_average :: lirc_t
  an_maxspace :: lirc_t
  an_sum :: lirc_t
  an_remaining_gap :: lirc_t
  an_header :: lirc_t
  an_first_signal :: int

definition MAX_SIGNALS :: nat where "MAX_SIGNALS = 200"
definition SAMPLES :: u32 where "SAMPLES = 80"
definition TH_SPACE_ENC :: u32 where "TH_SPACE_ENC = 80"
definition TH_HEADER :: u32 where "TH_HEADER = 90"
definition TH_REPEAT :: u32 where "TH_REPEAT = 90"
definition TH_TRAIL :: u32 where "TH_TRAIL = 90"
definition TH_LEAD :: u32 where "TH_LEAD = 90"
definition TH_IS_BIT :: u32 where "TH_IS_BIT = 10"
definition TH_RC6_SIGNAL :: lirc_t where "TH_RC6_SIGNAL = 550"
definition MIN_GAP :: lirc_t where "MIN_GAP = 20000"

definition set_hist :: "hist \<Rightarrow> lengths list \<Rightarrow> analyser \<Rightarrow> analyser" where
  "set_hist h ls s = s\<lparr>hists := (hists s)(h := ls)\<rparr>"

definition upd_remote :: "(ir_remote \<Rightarrow> ir_remote) \<Rightarrow> analyser \<Rightarrow> analyser" where
  "upd_remote f s = s\<lparr>an_remote := f (an_remote s)\<rparr>"

text \<open>The most frequent class of a list and the sum of the counts; NULL is dereferenced.\<close>

definition max_class :: "lengths list \<Rightarrow> (lengths \<times> u32) option" where
  "max_class ls = map_option (\<lambda>(i, sm). (ls ! i, sm)) (get_max_length ls)"

text \<open>The most frequent class and the list without it.\<close>

definition take_max :: "lengths list \<Rightarrow> (lengths \<times> lengths list) option" where
  "take_max ls = map_option (\<lambda>(i, _). (ls ! i, unlink_length i ls)) (get_max_length ls)"

definition at_least :: "u32 \<Rightarrow> lengths \<Rightarrow> u32 \<Rightarrow> bool" where
  "at_least th l sm \<longleftrightarrow> l_count l \<ge> sm * th div 100"

section \<open>The encoding\<close>

definition scheme_scan :: "u32 list \<Rightarrow> nat \<times> u32" where
  "scheme_scan t =
     fold (\<lambda>i (b, sm). (if t ! i > t ! b then i else b, sm + t ! i)) [1..<MAX_SIGNALS] (0, 0)"

definition space_scheme :: "nat \<Rightarrow> analyser \<Rightarrow> analyser" where
  "space_scheme n = upd_remote (\<lambda>r. set_protocol (r\<lparr>bits := int (Suc n)\<rparr>) SPACE_ENC)"

definition short_signal :: "lengths \<Rightarrow> lengths \<Rightarrow> bool option" where
  "short_signal a b =
     do { x \<leftarrow> calc_signal a;
          if x < TH_RC6_SIGNAL then Some True
          else do { y \<leftarrow> calc_signal b; Some (y < TH_RC6_SIGNAL) } }"

definition biphase_scheme ::
  "nat \<Rightarrow> lengths \<Rightarrow> lengths \<Rightarrow> lengths \<Rightarrow> lengths \<Rightarrow> analyser \<Rightarrow> analyser option" where
  "biphase_scheme n maxp max2p maxs max2s s =
     do { rc6 \<leftarrow> (if n > 20
                   then do { p \<leftarrow> short_signal maxp max2p;
                             if p then short_signal maxs max2s else Some False }
                   else Some False);
          Some (upd_remote (\<lambda>r. set_protocol r (if rc6 then RC6 else RC5)) s) }"

definition get_scheme :: "analyser \<Rightarrow> analyser option" where
  "get_scheme s =
     (case scheme_scan (length_counts s) of (n, sm) \<Rightarrow>
        if length_counts s ! n \<ge> TH_SPACE_ENC * sm div 100 then Some (space_scheme n s)
        else do {
          (maxp, ps) \<leftarrow> take_max (hists s First_pulse);
          s \<leftarrow> Some (set_hist First_pulse (maxp # ps) s);
          if ps = [] then Some (space_scheme n s)
          else do {
            (max2p, _) \<leftarrow> max_class ps;
            (maxs, ss) \<leftarrow> take_max (hists s First_space);
            s \<leftarrow> Some (set_hist First_space (maxs # ss) s);
            if ss = [] then Some (space_scheme n s)
            else do {
              (max2s, _) \<leftarrow> max_class ss;
              (maxs, _) \<leftarrow> max_class (hists s First_space);
              biphase_scheme n maxp max2p maxs max2s s } } })"

section \<open>Header, trail and lead\<close>

text \<open>Each of these returns 1 or 0, here \<open>True\<close> or \<open>False\<close>.\<close>

definition get_trail_length :: "analyser \<Rightarrow> (bool \<times> analyser) option" where
  "get_trail_length s =
     (if is_biphase (an_remote s) then Some (True, s)
      else do {
        (l, sm) \<leftarrow> max_class (hists s First_trail);
        if at_least TH_TRAIL l sm
        then do { c \<leftarrow> calc_signal l; Some (True, upd_remote (\<lambda>r. r\<lparr>ptrail := c\<rparr>) s) }
        else Some (True, s) })"

text \<open>\<open>first_lead\<close> is a copy of the head: when the class that is taken out and put in front of
  it is not the first, the list of the global variable has lost it.\<close>

definition hidden_lead :: "u32 \<Rightarrow> lirc_t \<Rightarrow> lirc_t \<Rightarrow> lirc_t \<Rightarrow> lirc_t option" where
  "hidden_lead e ae x y =
     (let a = (if x > y then y else x); b = (if x > y then x else y); d = c_abs (i32 (2 * a - b))
      in if word_of_int d < word_of_int b * e div 100 \<or> d < ae then Some a else None)"

definition get_lead_length :: "analyser \<Rightarrow> (bool \<times> analyser) option" where
  "get_lead_length s =
     (if \<not> is_biphase (an_remote s) \<or> has_header (an_remote s) then Some (True, s)
      else if is_rc6 (an_remote s) then Some (True, s)
      else
        let h = (if has_header (an_remote s) then First_3lead else First_1lead)
        in do {
          (i, sm) \<leftarrow> get_max_length (hists s h);
          let l = hists s h ! i; rest = unlink_length i (hists s h)
          in if at_least TH_LEAD l sm
             then do { c \<leftarrow> calc_signal l; Some (True, upd_remote (\<lambda>r. r\<lparr>plead := c\<rparr>) s) }
             else do {
               (l2, _) \<leftarrow> max_class rest;
               s \<leftarrow> Some (set_hist h (if i = 0 then l # rest else rest) s);
               a \<leftarrow> calc_signal l;
               b \<leftarrow> calc_signal l2;
               case hidden_lead (g_eps s) (g_aeps s) a b of
                 Some x \<Rightarrow> Some (True, upd_remote (\<lambda>r. r\<lparr>plead := x\<rparr>) s)
               | None \<Rightarrow> Some (True, s) } })"

definition get_header_length :: "analyser \<Rightarrow> (bool \<times> analyser) option" where
  "get_header_length s =
     (if hists s First_headerp = [] then Some (True, s)
      else do {
        (lp, sm) \<leftarrow> max_class (hists s First_headerp);
        if at_least TH_HEADER lp sm
        then do {
          (ls, sm) \<leftarrow> max_class (hists s First_headers);
          if at_least TH_HEADER ls sm
          then do {
            headerp \<leftarrow> calc_signal lp;
            headers \<leftarrow> calc_signal ls;
            s \<leftarrow> Some (upd_remote (\<lambda>r. r\<lparr>phead := headerp, shead := headers\<rparr>) s);
            Some (True, if first_lengths s < second_lengths s
                        then upd_remote (\<lambda>r. r\<lparr>flags := flags r OR NO_HEAD_REP\<rparr>) s else s) }
          else Some (True, s) }
        else Some (True, s) })"

section \<open>Repeat codes\<close>

definition repeat_lengths :: "lengths \<Rightarrow> lengths \<Rightarrow> analyser \<Rightarrow> (bool \<times> analyser) option" where
  "repeat_lengths lp ls s =
     (if count_5repeats s > count_3repeats s \<and> \<not> has_header (an_remote s) then Some (False, s)
      else do {
        s \<leftarrow> Some (if count_5repeats s > count_3repeats s \<and> has_header (an_remote s)
                  then upd_remote (\<lambda>r. r\<lparr>flags := flags r OR REPEAT_HEADER\<rparr>) s else s);
        repeatp \<leftarrow> calc_signal lp;
        repeats \<leftarrow> calc_signal ls;
        s \<leftarrow> Some (upd_remote (\<lambda>r. r\<lparr>prepeat := repeatp, srepeat := repeats\<rparr>) s);
        if flags (an_remote s) AND CONST_LENGTH = 0
        then do {
          (lg, _) \<leftarrow> max_class (hists s First_repeat_gap);
          g \<leftarrow> calc_signal lg;
          Some (True, upd_remote (\<lambda>r. r\<lparr>repeat_gap := word_of_int g\<rparr>) s) }
        else Some (True, s) })"

definition get_repeat_length :: "analyser \<Rightarrow> (bool \<times> analyser) option" where
  "get_repeat_length s =
     (let many3 = count_3repeats s > SAMPLES div 2; many5 = count_5repeats s > SAMPLES div 2
      in if many3 = many5 then Some (\<not> (many3 \<or> many5), s)
         else do {
           (lp, sm) \<leftarrow> max_class (hists s First_repeatp);
           if at_least TH_REPEAT lp sm
           then do {
             (ls, sm) \<leftarrow> max_class (hists s First_repeats);
             if at_least TH_REPEAT ls sm then repeat_lengths lp ls s else Some (True, s) }
           else Some (True, s) })"

section \<open>The lengths of the bits\<close>

text \<open>The second most frequent class, when it has at least a tenth of the lengths of the first.\<close>

definition second_class :: "lengths \<Rightarrow> lengths list \<Rightarrow> lengths option" where
  "second_class l rest =
     (case max_class rest of
        None \<Rightarrow> None
      | Some (l2, _) \<Rightarrow> if l_count l2 < l_count l * TH_IS_BIT div 100 then None else Some l2)"

definition half_bit :: "lirc_t \<Rightarrow> lirc_t \<Rightarrow> lirc_t" where
  "half_bit a b =
     (let mn = (if a > b then b else a); mx = (if a > b then a else b)
      in i32 (mn + mx sdiv 2) sdiv 2)"

definition biphase_lengths :: "lirc_t \<Rightarrow> lirc_t \<Rightarrow> lirc_t \<Rightarrow> lirc_t \<Rightarrow> ir_remote \<Rightarrow> ir_remote" where
  "biphase_lengths p1 p2 s1 s2 r =
     r\<lparr>pone := half_bit p1 p2, sone := half_bit s1 s2,
       pzero := half_bit p1 p2, szero := half_bit s1 s2\<rparr>"

definition pulse_lengths ::
  "hardware \<Rightarrow> lirc_t \<Rightarrow> lirc_t \<Rightarrow> lirc_t \<Rightarrow> ir_remote \<Rightarrow> ir_remote" where
  "pulse_lengths h p1 p2 s1 r =
     (let r = r\<lparr>pone := (if p1 > p2 then p1 else p2), sone := s1,
                pzero := (if p1 > p2 then p2 else p1), szero := s1\<rparr>
      in if expect h r (ptrail r) p1 \<or> expect h r (ptrail r) p2 then r\<lparr>ptrail := 0\<rparr> else r)"

definition space_lengths :: "lirc_t \<Rightarrow> lirc_t \<Rightarrow> lirc_t \<Rightarrow> ir_remote \<Rightarrow> ir_remote" where
  "space_lengths p1 s1 s2 r =
     r\<lparr>pone := p1, sone := (if s1 > s2 then s1 else s2),
       pzero := p1, szero := (if s1 > s2 then s2 else s1)\<rparr>"

text \<open>\<open>None\<close> as the inner result: no or an unknown encoding (\<open>return 0\<close>).\<close>

definition bit_lengths ::
  "hardware \<Rightarrow> lengths \<Rightarrow> lengths option \<Rightarrow> lengths \<Rightarrow> lengths option \<Rightarrow> ir_remote \<Rightarrow> ir_remote option option" where
  "bit_lengths h lp lp2 ls ls2 r =
     (if is_biphase r then
        (case (lp2, ls2) of
           (Some lp2, Some ls2) \<Rightarrow>
             do { p1 \<leftarrow> calc_signal lp; p2 \<leftarrow> calc_signal lp2;
                  s1 \<leftarrow> calc_signal ls; s2 \<leftarrow> calc_signal ls2;
                  Some (Some (biphase_lengths p1 p2 s1 s2 r)) }
         | _ \<Rightarrow> Some None)
      else
        (case (lp2, ls2) of
           (None, None) \<Rightarrow> Some None
         | (Some _, Some _) \<Rightarrow> Some None
         | (Some lp2, None) \<Rightarrow>
             do { p1 \<leftarrow> calc_signal lp; s1 \<leftarrow> calc_signal ls; p2 \<leftarrow> calc_signal lp2;
                  Some (Some (pulse_lengths h p1 p2 s1 r)) }
         | (None, Some ls2) \<Rightarrow>
             do { p1 \<leftarrow> calc_signal lp; s1 \<leftarrow> calc_signal ls; s2 \<leftarrow> calc_signal ls2;
                  Some (Some (space_lengths p1 s1 s2 r)) }))"

definition drop_header :: "hardware \<Rightarrow> ir_remote \<Rightarrow> ir_remote" where
  "drop_header h r =
     (if has_header r \<and> (\<not> has_repeat r \<or> flags r AND NO_HEAD_REP \<noteq> 0) then
        let r = (if \<not> is_biphase r \<and>
                    (expect h r (phead r) (pone r) \<and> expect h r (shead r) (sone r) \<or>
                     expect h r (phead r) (pzero r) \<and> expect h r (shead r) (szero r))
                 then r\<lparr>phead := 0, shead := 0, flags := flags r AND NOT NO_HEAD_REP\<rparr> else r)
        in if is_biphase r \<and> expect h r (shead r) (sone r)
           then r\<lparr>plead := phead r, phead := 0, shead := 0, flags := flags r AND NOT NO_HEAD_REP\<rparr>
           else r
      else r)"

definition number_of_bits :: "lengths list \<Rightarrow> ir_remote \<Rightarrow> ir_remote option" where
  "number_of_bits signal_lengths r =
     (if is_biphase r then
        do { (l, _) \<leftarrow> max_class signal_lengths;
             c \<leftarrow> calc_signal l;
             let data_length = i32 (c - plead r - phead r - shead r + i32 (pone r + sone r) sdiv 2);
                 bit_length = i32 (pone r + sone r);
                 n = i32 (data_length sdiv bit_length)
             in if bit_length = 0 then None
                else Some (r\<lparr>bits := (if is_rc6 r then i32 (n - 1) else n)\<rparr>) }
      else
        Some (r\<lparr>bits := i32 (bits r - (if has_header r then 2 else 0) + 1 -
                            (if ptrail r > 0 then 2 else 0)) sdiv 2\<rparr>))"

definition get_data_length :: "hardware \<Rightarrow> analyser \<Rightarrow> (bool \<times> analyser) option" where
  "get_data_length h s =
     do { (lp, sm) \<leftarrow> max_class (hists s First_pulse);
          if \<not> at_least TH_IS_BIT lp sm then Some (False, s)
          else do {
            (lp, ps) \<leftarrow> take_max (hists s First_pulse);
            s \<leftarrow> Some (set_hist First_pulse ps s);
            (ls, sm) \<leftarrow> max_class (hists s First_space);
            if \<not> at_least TH_IS_BIT ls sm then Some (False, s)
            else do {
              (ls, ss) \<leftarrow> take_max (hists s First_space);
              s \<leftarrow> Some (set_hist First_space ss s);
              s \<leftarrow> Some (upd_remote (\<lambda>r. r\<lparr>eps := sint (g_eps s), aeps := g_aeps s\<rparr>) s);
              b \<leftarrow> bit_lengths h lp (second_class lp ps) ls (second_class ls ss) (an_remote s);
              case b of
                None \<Rightarrow> Some (False, s)
              | Some r \<Rightarrow>
                  do { r \<leftarrow> number_of_bits (hists s First_signal_length) (drop_header h r);
                       Some (True, s\<lparr>an_remote := r\<rparr>) } } } }"

text \<open>The chain of calls at the end of the recording.\<close>

fun all_found :: "(analyser \<Rightarrow> (bool \<times> analyser) option) list \<Rightarrow> analyser \<Rightarrow> (bool \<times> analyser) option" where
  "all_found [] s = Some (True, s)"
| "all_found (f # fs) s = do { (ok, s) \<leftarrow> f s; if ok then all_found fs s else Some (False, s) }"

definition evaluate_lengths :: "hardware \<Rightarrow> analyser \<Rightarrow> (bool \<times> analyser) option" where
  "evaluate_lengths h s =
     do { s \<leftarrow> get_scheme s;
          all_found [get_header_length, get_trail_length, get_lead_length, get_repeat_length,
                     get_data_length h] s }"

end
