(* ===== verification/RecCodes.thy ===== *)
theory RecCodes
  imports IrRemoteH
begin

text \<open>
  \<open>daemons/irrecord.c\<close>: what is done with the codes of a remote once its buttons are known.
  Bits that are equal in all codes are moved to pre and post data (\<open>get_pre_data\<close>,
  \<open>get_post_data\<close>) or back (\<open>remove_pre_data\<close>, \<open>remove_post_data\<close>), zeros and ones are
  exchanged (\<open>invert_data\<close>), a trail pulse becomes a bit (\<open>remove_trail\<close>), and the toggle bit
  is taken out (\<open>set_toggle_bit_mask\<close>). A remote whose \<open>codes\<close> are NULL faults where the array
  is read.
\<close>

definition each_code :: "(ir_code \<Rightarrow> ir_code) \<Rightarrow> ir_ncode list \<Rightarrow> ir_ncode list" where
  "each_code f = map (\<lambda>c. c\<lparr>nc_code := f (nc_code c), nc_nodes := map f (nc_nodes c)\<rparr>)"

section \<open>Equal bits\<close>

text \<open>\<open>while (mask & 0x8000000000000000LL)\<close> and \<open>while (mask & 0x1)\<close>\<close>

lemma mod_once: "n \<le> x \<Longrightarrow> x < 2 * n \<Longrightarrow> x mod n = x - n" for x n :: int
  using mod_pos_geq [of n x] mod_pos_pos_trivial [of "x - n" n] by linarith

lemma push_top_less: "bit (m :: 64 word) 63 \<Longrightarrow> unat (push_bit 1 m) < unat m"
proof -
  assume "bit m 63"
  then have "bit (uint m) 63"
    by (simp add: bit_uint_iff)
  then have "odd (uint m div 2 ^ 63)"
    using bit_iff_odd by blast
  moreover have "uint m < 2 ^ 64"
    using uint_lt2p [of m] by simp
  moreover have "uint m div 2 ^ 63 \<noteq> 0"
    using \<open>odd (uint m div 2 ^ 63)\<close> by (metis even_zero)
  ultimately have "2 ^ 63 \<le> uint m"
    by (smt (verit) div_pos_pos_trivial uint_ge_0)
  have "uint (push_bit 1 m) = (2 * uint m) mod 2 ^ 64"
    by (simp add: push_bit_eq_mult uint_word_ariths mult.commute)
  also have "\<dots> = 2 * uint m - 2 ^ 64"
    by (rule mod_once) (use \<open>2 ^ 63 \<le> uint m\<close> \<open>uint m < 2 ^ 64\<close> in simp_all)
  finally have "uint (push_bit 1 m) < uint m"
    using \<open>uint m < 2 ^ 64\<close> by linarith
  then have "push_bit 1 m < m" by (simp only: word_less_def)
  then show ?thesis by (simp only: word_less_nat_alt)
qed

function leading_ones :: "ir_code \<Rightarrow> int \<Rightarrow> int" where
  "leading_ones m count = (if bit m 63 then leading_ones (push_bit 1 m) (count + 1) else count)"
  by pat_completeness auto
termination
  by (relation "measure (\<lambda>(m, _). unat m)") (use push_top_less in auto)

declare leading_ones.simps [simp del]

function trailing_ones :: "ir_code \<Rightarrow> int \<Rightarrow> int" where
  "trailing_ones m count =
     (if m AND 1 \<noteq> 0 then trailing_ones (drop_bit 1 m) (count + 1) else count)"
  by pat_completeness auto
termination
proof (relation "measure (\<lambda>(m, _). unat m)")
  fix m :: ir_code and count :: int
  assume "m AND 1 \<noteq> 0"
  then have "m \<noteq> 0" by auto
  then show "((drop_bit 1 m, count + 1), (m, count)) \<in> measure (\<lambda>(m, _). unat m)"
    using drop_bit_1_less by simp
qed simp

declare trailing_ones.simps [simp del]

text \<open>The mask of the equal bits and the last code. The comparison starts with the code of the
  first button, whose further codes are not looked at.\<close>

definition equal_step :: "ir_code \<Rightarrow> ir_code \<times> ir_code \<Rightarrow> ir_code \<times> ir_code" where
  "equal_step c ml = (fst ml AND NOT (snd ml XOR c), c)"

definition codes_of :: "ir_ncode list \<Rightarrow> ir_code list" where
  "codes_of cs = concat (map (\<lambda>c. nc_code c # nc_nodes c) cs)"

definition equal_bits :: "ir_ncode \<Rightarrow> ir_ncode list \<Rightarrow> ir_code \<times> ir_code" where
  "equal_bits c cs = fold equal_step (codes_of cs) (- 1, nc_code c)"

text \<open>Only even numbers of bits go to pre and post data.\<close>

definition even_bits :: "ir_remote \<Rightarrow> int \<Rightarrow> int" where
  "even_bits r count =
     (if count smod 8 \<noteq> 0 \<and> i32 (bits r - count) smod 8 \<noteq> 0 then count - count smod 8 else count)"

definition move_pre :: "int \<Rightarrow> ir_code \<Rightarrow> ir_ncode list \<Rightarrow> ir_remote \<Rightarrow> ir_remote" where
  "move_pre count lst cs r =
     (let b = i32 (bits r - count);
          m = shl64 (gen_mask count) b
      in r\<lparr>bits := b, pre_data_bits := count, pre_data := shr64 (lst AND m) b,
           codes := Some (each_code (\<lambda>x. x AND NOT m) cs)\<rparr>)"

definition get_pre_data :: "ir_remote \<Rightarrow> ir_remote option" where
  "get_pre_data r =
     (if bits r = 0 then Some r
      else do {
        cs \<leftarrow> codes r;
        case cs of
          c # d # rest \<Rightarrow>
            (case equal_bits c (d # rest) of (m, lst) \<Rightarrow>
               let count = even_bits r (i32 (leading_ones m 0 - (64 - bits r)))
               in Some (if count > 0 then move_pre count lst cs r else r))
        | _ \<Rightarrow> Some r })"

definition move_post :: "int \<Rightarrow> ir_code \<Rightarrow> ir_ncode list \<Rightarrow> ir_remote \<Rightarrow> ir_remote" where
  "move_post count lst cs r =
     r\<lparr>bits := i32 (bits r - count), post_data_bits := count,
       post_data := lst AND gen_mask count,
       codes := Some (each_code (\<lambda>x. shr64 x count) cs)\<rparr>"

definition get_post_data :: "ir_remote \<Rightarrow> ir_remote option" where
  "get_post_data r =
     (if bits r = 0 then Some r
      else do {
        cs \<leftarrow> codes r;
        case cs of
          c # d # rest \<Rightarrow>
            (case equal_bits c (d # rest) of (m, lst) \<Rightarrow>
               let count = even_bits r (trailing_ones m 0)
               in Some (if count > 0 then move_post count lst cs r else r))
        | _ \<Rightarrow> Some r })"

section \<open>The other direction\<close>

definition remove_pre_data :: "ir_remote \<Rightarrow> ir_remote option" where
  "remove_pre_data r =
     (if pre_data_bits r = 0 \<or> pre_p r \<noteq> 0 \<or> pre_s r \<noteq> 0 then Some r
      else do {
        cs \<leftarrow> codes r;
        Some (r\<lparr>codes := Some (each_code (\<lambda>x. x OR shl64 (pre_data r) (bits r)) cs),
                bits := i32 (bits r + pre_data_bits r), pre_data := 0, pre_data_bits := 0\<rparr>) })"

definition remove_post_data :: "ir_remote \<Rightarrow> ir_remote option" where
  "remove_post_data r =
     (if post_data_bits r = 0 then Some r
      else do {
        cs \<leftarrow> codes r;
        Some (r\<lparr>codes := Some (each_code (\<lambda>x. shl64 x (post_data_bits r) OR post_data r) cs),
                bits := i32 (bits r + post_data_bits r), post_data := 0, post_data_bits := 0\<rparr>) })"

section \<open>Inversion and trail\<close>

definition invert_data :: "ir_remote \<Rightarrow> ir_remote option" where
  "invert_data r =
     (let r = r\<lparr>pone := pzero r, sone := szero r, pzero := pone r, szero := sone r\<rparr>;
          r = (if has_pre r then r\<lparr>pre_data := pre_data r XOR gen_mask (pre_data_bits r)\<rparr> else r);
          r = (if has_post r then r\<lparr>post_data := post_data r XOR gen_mask (post_data_bits r)\<rparr> else r)
      in if bits r = 0 then Some r
         else do {
           cs \<leftarrow> codes r;
           Some (r\<lparr>codes := Some (each_code (\<lambda>x. x XOR gen_mask (bits r)) cs)\<rparr>) })"

definition remove_trail :: "hardware \<Rightarrow> ir_remote \<Rightarrow> ir_remote" where
  "remove_trail h r =
     (let push = (\<lambda>b. r\<lparr>post_data_bits := i32 (post_data_bits r + 1),
                         post_data := push_bit 1 (post_data r) OR b, ptrail := 0\<rparr>)
      in if \<not> is_space_enc r then r
         else if ptrail r = 0 then r
         else if expect h r (pone r) (pzero r) \<or> expect h r (pzero r) (pone r) then r
         else if \<not> (expect h r (sone r) (szero r) \<and> expect h r (szero r) (sone r)) then r
         else if expect h r (ptrail r) (pone r) then push 1
         else if expect h r (ptrail r) (pzero r) then push 0
         else r)"

section \<open>The toggle bit\<close>

text \<open>The bit of \<open>xor\<close> when it is a single one from \<open>m\<close> downwards, else 0.\<close>

function toggle_scan :: "ir_code \<Rightarrow> ir_code \<Rightarrow> ir_code" where
  "toggle_scan m x = (if m = 0 \<or> m = x then m else toggle_scan (drop_bit 1 m) x)"
  by pat_completeness auto
termination
  by (relation "measure (\<lambda>(m, _). unat m)") (use drop_bit_1_less in auto)

declare toggle_scan.simps [simp del]

text \<open>The further codes of a button keep the bit.\<close>

definition set_toggle_bit_mask :: "ir_code \<Rightarrow> ir_remote \<Rightarrow> ir_remote" where
  "set_toggle_bit_mask x r =
     (case codes r of
        None \<Rightarrow> r
      | Some cs \<Rightarrow>
          if toggle_scan (shl64 1 (i32 (bit_count r - 1))) x \<noteq> 0 then
            r\<lparr>toggle_bit_mask := x,
              codes := Some (map (\<lambda>c. c\<lparr>nc_code := nc_code c AND NOT x\<rparr>) cs)\<rparr>
          else if bit_count r = 15 \<and> x = 0x3ff then r\<lparr>toggle_mask := x\<rparr>
          else r\<lparr>toggle_bit_mask := x\<rparr>)"

end
