(* ===== verification/RecRecord.thy ===== *)
theory RecRecord
  imports RecScheme RecCodes ReceiveDecode DumpConfig
begin

text \<open>
  \<open>daemons/irrecord.c\<close>: recording with a receiver. The gap of a receiver that delivers codes
  (\<open>get_gap_length\<close>), the toggle bit (\<open>get_toggle_bit_mask\<close>), a button in raw mode or as a code
  (the loop of \<open>main\<close>), the use of a template and the final rewriting of the file.

  The receiver is a parameter: \<open>rec_ops\<close> holds what the program calls, on a state \<open>'h\<close> of its own.
  Loops that wait for the user or the receiver have no bound: the result \<open>None\<close> is a fault or
  a loop without end.
\<close>

section \<open>The receiver\<close>

record 'h rec_ops =
  op_wait :: "'h \<Rightarrow> bool \<times> 'h"
  op_available :: "'h \<Rightarrow> bool \<times> 'h"
  op_rec :: "'h \<Rightarrow> 'h"
  op_decode :: "ir_remote \<Rightarrow> 'h \<Rightarrow> (dec_result option \<times> ir_remote \<times> 'h) option"
  op_read :: "u32 \<Rightarrow> 'h \<Rightarrow> lirc_t \<times> 'h"
  op_time :: "'h \<Rightarrow> timeval \<times> 'h"
  op_flush :: "'h \<Rightarrow> 'h"
  op_forget :: "'h \<Rightarrow> 'h"
  op_reset :: "'h \<Rightarrow> bool \<times> 'h"

text \<open>\<open>while (availabledata ()) hw.rec_func (NULL)\<close>\<close>

partial_function (option) drain :: "'h rec_ops \<Rightarrow> 'h \<Rightarrow> 'h option" where
  "drain ops w =
     (case op_available ops w of (avail, w) \<Rightarrow> if avail then drain ops (op_rec ops w) else Some w)"

declare drain.simps [code]

section \<open>The gap between codes\<close>

text \<open>\<open>from_tv\<close> is the end of the reception before, \<open>None\<close> while \<open>flag\<close> is 0.\<close>

partial_function (option) gap_loop ::
  "'h rec_ops \<Rightarrow> u32 \<Rightarrow> lirc_t \<Rightarrow> timeval option \<Rightarrow> lengths list \<Rightarrow> ir_remote \<Rightarrow> 'h
     \<Rightarrow> (bool \<times> ir_remote \<times> 'h) option" where
  "gap_loop ops e ae from_tv gaps r w =
     Option.bind (drain ops w) (\<lambda>w.
     case op_wait ops w of (ok, w) \<Rightarrow>
       if \<not> ok then Some (False, r, w)
       else case op_time ops w of (start, w) \<Rightarrow>
         Option.bind (drain ops w) (\<lambda>w.
         case op_time ops w of (stop, w) \<Rightarrow>
           case from_tv of
             None \<Rightarrow> gap_loop ops e ae (Some stop) gaps r w
           | Some tv \<Rightarrow>
               Option.bind (add_merge e ae (i32 (uint (time_elapsed tv start))) gaps) (\<lambda>gaps.
               case frequent SAMPLES gaps of
                 None \<Rightarrow> gap_loop ops e ae (Some stop) gaps r w
               | Some l \<Rightarrow>
                   Option.bind (calc_signal l) (\<lambda>c. Some (True, r\<lparr>gap := word_of_int c\<rparr>, w)))))"

declare gap_loop.simps [code]

definition get_gap_length ::
  "'h rec_ops \<Rightarrow> u32 \<Rightarrow> lirc_t \<Rightarrow> ir_remote \<Rightarrow> 'h \<Rightarrow> (bool \<times> ir_remote \<times> 'h) option" where
  "get_gap_length ops e ae r w = gap_loop ops e ae None [] (r\<lparr>eps := sint e, aeps := ae\<rparr>) w"

section \<open>The toggle bit\<close>

record toggle_st =
  tg_retries :: int
  tg_flag :: bool
  tg_first :: ir_code
  tg_last :: ir_code
  tg_seq :: int
  tg_repeats :: int
  tg_found :: bool

definition keep_gaps :: "dec_result \<Rightarrow> ir_remote \<Rightarrow> ir_remote" where
  "keep_gaps d r = r\<lparr>min_remaining_gap := d_min_remaining_gap d, max_remaining_gap := d_max_remaining_gap d\<rparr>"

text \<open>For RC-6 the position of the bit of double length is searched, from the lowest bit up.\<close>

fun rc6_search ::
  "'h rec_ops \<Rightarrow> nat \<Rightarrow> int \<Rightarrow> ir_code \<Rightarrow> ir_remote \<Rightarrow> 'h \<Rightarrow> (dec_result option \<times> ir_remote \<times> 'h) option" where
  "rc6_search ops 0 i m r w = Some (None, r\<lparr>rc6_mask := 0\<rparr>, w)"
| "rc6_search ops (Suc n) i m r w =
     (if i < bits r then
        do { (res, r, w) \<leftarrow> op_decode ops (r\<lparr>rc6_mask := m\<rparr>) w;
             case res of
               Some d \<Rightarrow> Some (Some d, keep_gaps d r, w)
             | None \<Rightarrow> rc6_search ops n (i + 1) (push_bit 1 m) r w }
      else Some (None, r\<lparr>rc6_mask := 0\<rparr>, w))"

definition toggle_decode ::
  "'h rec_ops \<Rightarrow> ir_remote \<Rightarrow> 'h \<Rightarrow> (dec_result option \<times> ir_remote \<times> 'h) option" where
  "toggle_decode ops r w =
     (if is_rc6 r \<and> rc6_mask r = 0 then rc6_search ops (nat (bits r)) 0 1 r w
      else do { (res, r, w) \<leftarrow> op_decode ops r w;
                Some (res, case res of None \<Rightarrow> r | Some d \<Rightarrow> keep_gaps d r, w) })"

text \<open>What a decoded press means: the first one is the reference; one that is not a repeat
  counts as a new press and may differ in the toggle bit.\<close>

definition toggle_press :: "dec_result \<Rightarrow> ir_remote \<Rightarrow> toggle_st \<Rightarrow> ir_remote \<times> toggle_st" where
  "toggle_press d r t =
     (let code = d_code d; x = tg_first t XOR code
      in if \<not> tg_flag t then (r, t\<lparr>tg_flag := True, tg_first := code, tg_last := code\<rparr>)
         else if \<not> d_repeat d \<or> code \<noteq> tg_last t then
           (if \<not> tg_found t \<and> x \<noteq> 0 then set_toggle_bit_mask x r else r,
            t\<lparr>tg_seq := tg_seq t + 1, tg_found := (tg_found t \<or> x \<noteq> 0),
              tg_retries := tg_retries t - 1, tg_last := code\<rparr>)
         else (r, t\<lparr>tg_repeats := tg_repeats t + 1, tg_last := code\<rparr>))"

partial_function (option) toggle_loop ::
  "'h rec_ops \<Rightarrow> toggle_st \<Rightarrow> ir_remote \<Rightarrow> 'h \<Rightarrow> (toggle_st \<times> ir_remote \<times> 'h) option" where
  "toggle_loop ops t r w =
     (if tg_retries t \<le> 0 then Some (t, r, w)
      else case op_wait ops w of (ok, w) \<Rightarrow>
        if \<not> ok then Some (t, r, w)
        else Option.bind (toggle_decode ops r (op_rec ops w)) (\<lambda>(res, r, w).
          case res of
            None \<Rightarrow> toggle_loop ops (t\<lparr>tg_retries := tg_retries t - 1\<rparr>) r w
          | Some d \<Rightarrow> (case toggle_press d r t of (r, t) \<Rightarrow> toggle_loop ops t r w)))"

declare toggle_loop.simps [code]

definition toggle0 :: toggle_st where
  "toggle0 = \<lparr>tg_retries = 30, tg_flag = False, tg_first = 0, tg_last = 0, tg_seq = 0,
     tg_repeats = 0, tg_found = False\<rparr>"

definition has_sequences :: "ir_remote \<Rightarrow> bool" where
  "has_sequences r \<longleftrightarrow>
     (case codes r of None \<Rightarrow> False | Some cs \<Rightarrow> list_ex (\<lambda>c. nc_nodes c \<noteq> []) cs)"

definition get_toggle_bit_mask ::
  "'h rec_ops \<Rightarrow> ir_remote \<Rightarrow> 'h \<Rightarrow> (bool \<times> ir_remote \<times> 'h) option" where
  "get_toggle_bit_mask ops r w =
     (if has_sequences r then Some (True, r, w)
      else do {
        w \<leftarrow> drain ops w;
        (t, r, w) \<leftarrow> toggle_loop ops toggle0 r w;
        Some (tg_found t,
              if tg_seq t > 0 then r\<lparr>min_repeat := tg_repeats t sdiv tg_seq t\<rparr> else r, w) })"

section \<open>A button in raw mode\<close>

datatype raw_result = Raw_no_data | Raw_too_long | Raw_recorded "lirc_t list"

record raw_st =
  raw_count :: u32
  raw_sum :: lirc_t
  raw_signals :: "lirc_t list"

definition raw_timeout :: "ir_remote \<Rightarrow> raw_st \<Rightarrow> u32" where
  "raw_timeout r t = (if raw_count t = 0 then 10000000 else gap r * 5)"

definition leading_gap :: "ir_remote \<Rightarrow> lirc_t \<Rightarrow> bool" where
  "leading_gap r d \<longleftrightarrow>
     is_space d \<and> \<not> word_of_int d < gap r - gap r * word_of_int (eps r) div 100"

definition trailing_gap :: "ir_remote \<Rightarrow> lirc_t \<Rightarrow> lirc_t \<Rightarrow> bool" where
  "trailing_gap r sm d \<longleftrightarrow>
     is_space d \<and>
     (if is_const r
      then word_of_int d > (if gap r > word_of_int sm
                            then (gap r - word_of_int sm) * word_of_int (i32 (100 - eps r)) div 100 else 0)
      else word_of_int d > gap r * word_of_int (i32 (100 - eps r)) div 100)"

text \<open>One sample. \<open>None\<close> inside: the recording goes on; the flag asks to flush the receiver
  before, when the attempt starts over. \<open>raw_sum\<close> is not set back then.\<close>

definition raw_sample :: "ir_remote \<Rightarrow> lirc_t \<Rightarrow> raw_st \<Rightarrow> (raw_result option \<times> bool \<times> raw_st) option" where
  "raw_sample r d t =
     (if d = 0 \<and> raw_count t = 0 then Some (Some Raw_no_data, False, t)
      else
        let d = (if d = 0 then sint (gap r) else d); n = unat (raw_count t)
        in if n = 0 then
             (if leading_gap r d then Some (None, False, t\<lparr>raw_count := raw_count t + 1\<rparr>)
              else Some (None, True, t))
           else if trailing_gap r (raw_sum t) d then
             (if n mod 2 \<noteq> 0 then Some (None, True, t\<lparr>raw_count := 0\<rparr>)
              else if n - 1 \<le> length (raw_signals t)
                   then Some (Some (Raw_recorded (take (n - 1) (raw_signals t))), False, t) else None)
           else if n - 1 < length (raw_signals t) then
             Some (None, False, t\<lparr>raw_signals := (raw_signals t)[n - 1 := d AND PULSE_MASK],
                                  raw_sum := i32 (raw_sum t + (d AND PULSE_MASK)),
                                  raw_count := raw_count t + 1\<rparr>)
           else None)"

partial_function (option) raw_loop ::
  "'h rec_ops \<Rightarrow> ir_remote \<Rightarrow> raw_st \<Rightarrow> 'h \<Rightarrow> (raw_result \<times> 'h) option" where
  "raw_loop ops r t w =
     (if raw_count t \<ge> word_of_nat MAX_SIGNALS then Some (Raw_too_long, w)
      else case op_read ops (raw_timeout r t) w of (d, w) \<Rightarrow>
        Option.bind (raw_sample r d t) (\<lambda>(res, flush, t).
          case res of
            Some x \<Rightarrow> Some (x, w)
          | None \<Rightarrow> raw_loop ops r t (if flush then op_flush ops w else w)))"

declare raw_loop.simps [code]

definition record_raw :: "'h rec_ops \<Rightarrow> ir_remote \<Rightarrow> 'h \<Rightarrow> (raw_result \<times> 'h) option" where
  "record_raw ops r w =
     raw_loop ops r \<lparr>raw_count = 0, raw_sum = 0, raw_signals = replicate MAX_SIGNALS 0\<rparr> w"

section \<open>A button as a code\<close>

definition RETRIES :: nat where "RETRIES = 10"

text \<open>Receptions are decoded until one succeeds or none is waiting.\<close>

partial_function (option) decode_available ::
  "'h rec_ops \<Rightarrow> ir_remote \<Rightarrow> 'h \<Rightarrow> (dec_result option \<times> ir_remote \<times> 'h) option" where
  "decode_available ops r w =
     (case op_available ops w of (avail, w) \<Rightarrow>
        if \<not> avail then Some (None, r, w)
        else Option.bind (op_decode ops r (op_rec ops w)) (\<lambda>(res, r, w).
          case res of
            Some d \<Rightarrow> Some (Some d, r, w)
          | None \<Rightarrow> decode_available ops r w))"

declare decode_available.simps [code]

datatype code_result = Code_no_data | Code_failed | Code_recorded ir_ncode

text \<open>A second code is kept when the next reception has another one.\<close>

definition second_code ::
  "'h rec_ops \<Rightarrow> string \<Rightarrow> dec_result \<Rightarrow> ir_remote \<Rightarrow> 'h \<Rightarrow> (code_result \<times> ir_remote \<times> 'h) option" where
  "second_code ops button d r w =
     do { (res, r, w) \<leftarrow> op_decode ops r (op_rec ops w);
          Some (Code_recorded (ncode0\<lparr>nc_name := button, nc_code := d_code d,
                  nc_nodes := (case res of
                      None \<Rightarrow> []
                    | Some e \<Rightarrow> if d_code d \<noteq> d_code e then [d_code e] else [])\<rparr>), r, w) }"

text \<open>\<open>op_forget\<close> is \<open>last_remote = NULL\<close>. After a failure the receiver is reset; when that fails
  the program ends.\<close>

fun record_code ::
  "'h rec_ops \<Rightarrow> string \<Rightarrow> nat \<Rightarrow> ir_remote \<Rightarrow> 'h \<Rightarrow> (code_result \<times> ir_remote \<times> 'h) option" where
  "record_code ops button 0 r w = Some (Code_failed, r, w)"
| "record_code ops button (Suc n) r w =
     (case op_wait ops w of (ok, w) \<Rightarrow>
        if \<not> ok then Some (Code_no_data, r, w)
        else do {
          (res, r, w) \<leftarrow> decode_available ops r (op_forget ops w);
          case res of
            Some d \<Rightarrow> second_code ops button d r w
          | None \<Rightarrow>
              (if n > 0 then
                 (case op_reset ops w of (ok, w) \<Rightarrow>
                    if \<not> ok then Some (Code_failed, r, w)
                    else record_code ops button n r (op_flush ops w))
               else record_code ops button n r w) })"

section \<open>Names, templates and the final file\<close>

text \<open>A name is taken unless it has blanks, is reserved, or is not in the name space. The check
  of the name space is a parameter; \<open>None\<close> when checks are disabled.\<close>

datatype name_result = Name_end | Name_again | Name_taken

definition recorded_name :: "(string \<Rightarrow> bool) option \<Rightarrow> string \<Rightarrow> name_result" where
  "recorded_name in_namespace b =
     (if CHR '' '' \<in> set b \<or> CHR 0x09 \<in> set b then Name_again
      else if strcaseeq b ''begin'' \<or> strcaseeq b ''end'' then Name_again
      else if b = [] then Name_end
      else case in_namespace of
             None \<Rightarrow> Name_taken
           | Some f \<Rightarrow> if f b then Name_taken else Name_again)"

definition template_remote :: "ir_remote \<Rightarrow> ir_remote" where
  "template_remote t =
     (let r = t\<lparr>name := [], codes := None, last_code := None\<rparr>
      in if pre_p r = 0 \<and> pre_s r = 0 \<and> post_p r = 0 \<and> post_s r = 0
         then r\<lparr>bits := bit_count r, pre_data_bits := 0, post_data_bits := 0\<rparr> else r)"

text \<open>The first remote of the file that was written, before it is written again. \<open>ask\<close> tells
  that the toggle bit is to be found out with the receiver.\<close>

definition finish_recorded ::
  "'h rec_ops \<Rightarrow> bool \<Rightarrow> ir_remote \<Rightarrow> 'h \<Rightarrow> (ir_remote \<times> 'h) option" where
  "finish_recorded ops ask r w =
     do { (r, w) \<leftarrow>
            (if \<not> has_toggle_bit_mask r then
               (if ask then do { (_, r, w) \<leftarrow> get_toggle_bit_mask ops r w; Some (r, w) }
                else Some (r, w))
             else Some (set_toggle_bit_mask (toggle_bit_mask r) r, w));
          r \<leftarrow> get_pre_data r;
          r \<leftarrow> get_post_data r;
          Some (r, w) }"

text \<open>The test mode of a debug build.\<close>

definition test_remote :: "hardware \<Rightarrow> bool \<Rightarrow> bool \<Rightarrow> bool \<Rightarrow> bool \<Rightarrow> ir_remote \<Rightarrow> ir_remote option" where
  "test_remote h trail with_pre with_post invert r =
     do { r \<leftarrow> Some (if trail then remove_trail h r else r);
          r \<leftarrow> remove_pre_data r;
          r \<leftarrow> remove_post_data r;
          r \<leftarrow> if with_pre then get_pre_data r else Some r;
          r \<leftarrow> if with_post then get_post_data r else Some r;
          if invert then invert_data r else Some r }"

end
