(* ===== verification/RecCodeFacts.thy ===== *)
theory RecCodeFacts
  imports RecRecord TxFacts Demo
begin

text \<open>
  What the final steps of \<open>irrecord\<close> do to a remote: the bits that are moved to pre and post data
  are the same in all codes, nothing is lost, and the signal that is sent for a button is the
  same before and afterwards. The same holds for inverted data.
\<close>

section \<open>The mask of equal bits\<close>

lemma equal_step_simp: "equal_step c (m, a) = (m AND NOT (a XOR c), c)"
  by (simp add: equal_step_def)

lemma equal_fold:
  assumes "fold equal_step xs (m0, a) = (m, l)"
  shows "bit m k \<longleftrightarrow> bit m0 k \<and> (\<forall>x \<in> set (a # xs). bit x k = bit l k)"
  using assms
proof (induction xs arbitrary: m0 a)
  case Nil
  then show ?case by simp
next
  case (Cons x xs)
  have "fold equal_step xs (m0 AND NOT (a XOR x), x) = (m, l)"
    using Cons.prems by (simp add: equal_step_simp)
  note IH = Cons.IH [OF this]
  show ?case
    by (cases "k < 64") (auto simp: IH bit_and_iff bit_not_iff bit_xor_iff dest: bit_imp_le_length)
qed

lemma fold_equal_last: "snd (fold equal_step xs (m0, a)) = last (a # xs)"
  by (induction xs arbitrary: m0 a) (auto simp: equal_step_def)

lemma leading_ones_bits:
  "\<exists>t. leading_ones m c = c + int t \<and> t \<le> 64 \<and> (\<forall>k < t. bit m (63 - k))"
proof (induction m c rule: leading_ones.induct)
  case (1 m c)
  show ?case
  proof (cases "bit m 63")
    case True
    then obtain t where t: "leading_ones (push_bit 1 m) (c + 1) = c + 1 + int t"
      "\<forall>k < t. bit (push_bit 1 m) (63 - k)" "t \<le> 64"
      using 1 by auto
    have t63: "t \<le> 63"
    proof (rule ccontr)
      assume "\<not> t \<le> 63"
      then have "bit (push_bit 1 m) (63 - 63)" using t(2) by (metis not_le)
      then show False by (simp only: bit_push64) simp
    qed
    have "bit m (63 - k)" if k: "k < Suc t" for k
    proof (cases k)
      case (Suc j)
      then have "bit (push_bit 1 m) (63 - j)" using t(2) k by simp
      then have "bit m (63 - j - 1)" by (simp only: bit_push64)
      then show ?thesis using Suc by simp
    qed (use True in simp)
    then show ?thesis
      using t t63 True by (intro exI [of _ "Suc t"]) (simp add: leading_ones.simps [of m])
  qed (simp add: leading_ones.simps [of m])
qed

lemma trailing_ones_bits:
  "\<exists>t. trailing_ones m c = c + int t \<and> (\<forall>k < t. bit m k)"
proof (induction m c rule: trailing_ones.induct)
  case (1 m c)
  show ?case
  proof (cases "m AND 1 \<noteq> 0")
    case True
    then obtain t where t: "trailing_ones (drop_bit 1 m) (c + 1) = c + 1 + int t"
      "\<forall>k < t. bit (drop_bit 1 m) k"
      using 1 by blast
    have "bit m k" if k: "k < Suc t" for k
    proof (cases k)
      case 0
      then show ?thesis using True by (simp add: and_one_nonzero)
    next
      case (Suc j)
      then show ?thesis using t(2) k by (auto simp: bit_drop_bit_eq)
    qed
    then show ?thesis
      using t True by (intro exI [of _ "Suc t"]) (simp add: trailing_ones.simps [of m])
  qed (simp add: trailing_ones.simps [of m])
qed

lemma even_bits_range:
  assumes "0 < even_bits r c"
  shows "0 < c" "even_bits r c \<le> c"
proof -
  have pos: "0 < c"
  proof (rule ccontr)
    assume c: "\<not> 0 < c"
    then have "c - c smod 8 \<le> 0"
      using zmod_le_nonneg_dividend [of "- c" 8]
      by (cases "c = 0") (auto simp: signed_modulo_int_def sgn_if)
    then show False using assms c by (auto simp: even_bits_def split: if_splits)
  qed
  then show "0 < c" .
  have "0 \<le> c smod 8" using pos by (simp add: signed_modulo_int_def)
  then show "even_bits r c \<le> c" by (simp add: even_bits_def)
qed

section \<open>What is moved\<close>

definition fits :: "int \<Rightarrow> ir_code \<Rightarrow> bool" where
  "fits n x \<longleftrightarrow> x AND gen_mask n = x"

lemma fits_bit: "fits n x \<Longrightarrow> bit x k \<Longrightarrow> int k < n"
  unfolding fits_def by (metis bit_and_gen_mask)

text \<open>Buttons whose codes have at most \<open>bits\<close> bits; the first button is not a sequence.\<close>

definition plain_codes :: "ir_remote \<Rightarrow> ir_ncode list \<Rightarrow> bool" where
  "plain_codes r cs \<longleftrightarrow>
     codes r = Some cs \<and> 0 \<le> bits r \<and> bits r \<le> 64 \<and> (\<forall>x \<in> set (codes_of cs). fits (bits r) x) \<and>
     (\<forall>c cs'. cs = c # cs' \<longrightarrow> nc_nodes c = [])"

lemma codes_of_Cons: "codes_of (c # cs) = nc_code c # nc_nodes c @ codes_of cs"
  by (simp add: codes_of_def)

lemma equal_bits_all:
  assumes "equal_bits c cs = (m, l)" "nc_nodes c = []"
  shows "l \<in> set (codes_of (c # cs))"
    "bit m k \<Longrightarrow> x \<in> set (codes_of (c # cs)) \<Longrightarrow> bit x k = bit l k"
proof -
  have f: "fold equal_step (codes_of cs) (- 1, nc_code c) = (m, l)"
    using assms(1) by (simp add: equal_bits_def)
  have cs: "set (codes_of (c # cs)) = set (nc_code c # codes_of cs)"
    using assms(2) by (simp add: codes_of_Cons)
  have "l = last (nc_code c # codes_of cs)"
    using fold_equal_last [of "codes_of cs" "- 1" "nc_code c"] f by simp
  then show "l \<in> set (codes_of (c # cs))"
    unfolding cs by (metis last_in_set list.distinct(1))
  show "bit x k = bit l k" if "bit m k" "x \<in> set (codes_of (c # cs))"
    using equal_fold [OF f, of k] that unfolding cs by blast
qed

definition moved_pre :: "ir_remote \<Rightarrow> int \<Rightarrow> ir_code \<Rightarrow> ir_ncode list \<Rightarrow> ir_remote" where
  "moved_pre r k p cs = r\<lparr>bits := bits r - k, pre_data_bits := k, pre_data := p,
     codes := Some (each_code (take_bit (nat (bits r - k))) cs)\<rparr>"

definition moved_post :: "ir_remote \<Rightarrow> int \<Rightarrow> ir_code \<Rightarrow> ir_ncode list \<Rightarrow> ir_remote" where
  "moved_post r k p cs = r\<lparr>bits := bits r - k, post_data_bits := k, post_data := p,
     codes := Some (each_code (drop_bit (nat k)) cs)\<rparr>"

lemma map_codes_cong: "(\<And>x. x \<in> set (codes_of cs) \<Longrightarrow> f x = g x) \<Longrightarrow> each_code f cs = each_code g cs"
  by (induction cs) (auto simp: each_code_def codes_of_def intro: map_cong)

lemma get_pre_shape:
  assumes pc: "plain_codes r cs"
  shows "get_pre_data r = Some r \<or>
    (\<exists>k p. 0 < k \<and> k \<le> bits r \<and> (\<forall>x \<in> set (codes_of cs). drop_bit (nat (bits r - k)) x = p) \<and>
       get_pre_data r = Some (moved_pre r k p cs))"
proof -
  consider "bits r = 0" | "cs = []" | c where "cs = [c]" | c d rest where "cs = c # d # rest" "bits r \<noteq> 0"
    by (metis list.exhaust)
  then show ?thesis
  proof cases
    case 4
    obtain m l where ml: "equal_bits c (d # rest) = (m, l)" by fastforce
    have nodes: "nc_nodes c = []" using pc 4 by (simp add: plain_codes_def)
    obtain t where t: "leading_ones m 0 = int t" "t \<le> 64" "\<forall>k < t. bit m (63 - k)"
      using leading_ones_bits [of m 0] by auto
    have b: "0 < bits r" "bits r \<le> 64" using pc 4 by (auto simp: plain_codes_def)
    let ?k = "even_bits r (i32 (int t - (64 - bits r)))"
    have i: "i32 (int t - (64 - bits r)) = int t - (64 - bits r)"
      using t(2) b by (intro i32_id i32_rangeI) auto
    have g: "get_pre_data r = Some (if ?k > 0 then move_pre ?k l cs r else r)"
      using pc 4 ml t(1) by (simp add: get_pre_data_def plain_codes_def)
    show ?thesis
    proof (cases "?k > 0")
      case True
      let ?b = "bits r - ?k"
      have k: "?k \<le> int t - (64 - bits r)" "?k \<le> bits r"
        using even_bits_range [OF True] t(2) unfolding i by auto
      have eq: "bit x j = bit l j" if x: "x \<in> set (codes_of cs)" and j: "?b \<le> int j" "j < 64" for x j
      proof (cases "int j < bits r")
        case True
        have "63 - (63 - j) = j" "63 - j < t" using j k(1) True t(2) by auto
        then have "bit m j" using t(3) by metis
        then show ?thesis using equal_bits_all [OF ml nodes] x 4 by blast
      next
        case False
        have "\<not> bit y j" if "y \<in> set (codes_of cs)" for y
          using fits_bit [of "bits r" y j] pc that False by (auto simp: plain_codes_def)
        then show ?thesis using x equal_bits_all(1) [OF ml nodes] 4 by blast
      qed
      have ib: "i32 ?b = ?b" and b64: "?b < 64" "0 \<le> ?b"
        using k b True by (auto intro!: i32_id i32_rangeI)
      have m: "bit (shl64 (gen_mask ?k) ?b) j \<longleftrightarrow> ?b \<le> int j \<and> int j < bits r" for j
        using b64 b(2) by (auto simp: bit_push64 bit_gen_mask nat_le_iff)
      have l: "fits (bits r) l"
        using equal_bits_all(1) [OF ml nodes] pc 4 by (auto simp: plain_codes_def)
      have pre: "drop_bit (nat ?b) x = shr64 (l AND shl64 (gen_mask ?k) ?b) ?b"
        if "x \<in> set (codes_of cs)" for x
      proof (rule word64_eqI)
        fix j :: nat
        have "bit x (nat ?b + j) = bit (l AND shl64 (gen_mask ?k) ?b) (nat ?b + j)"
        proof (cases "nat ?b + j < 64")
          case True
          have "?b \<le> int (nat ?b + j)" using b64(2) by simp
          moreover have "bit l (nat ?b + j) \<Longrightarrow> int (nat ?b + j) < bits r" by (rule fits_bit [OF l])
          ultimately show ?thesis
            using eq [OF that _ True] m [of "nat ?b + j"] unfolding bit_and_iff by blast
        next
          case False
          then have "\<not> bit y (nat ?b + j)" for y :: ir_code
            using bit_imp_le_length [of y "nat ?b + j"] by auto
          then show ?thesis by blast
        qed
        then show "bit (drop_bit (nat ?b) x) j = bit (shr64 (l AND shl64 (gen_mask ?k) ?b) ?b) j"
          by (simp only: shr64_in [OF b64(2,1)] bit_drop_bit_eq comp_def)
      qed
      have "x AND NOT (shl64 (gen_mask ?k) ?b) = take_bit (nat ?b) x" if x: "x \<in> set (codes_of cs)" for x
      proof (rule word64_eqI)
        fix j :: nat assume j: "j < 64"
        have lt: "bit x j \<Longrightarrow> int j < bits r"
          using fits_bit pc x by (auto simp: plain_codes_def)
        have nb: "j < nat ?b \<longleftrightarrow> \<not> ?b \<le> int j"
          by (simp only: zless_nat_eq_int_zless not_le)
        have "bit (NOT (shl64 (gen_mask ?k) ?b)) j \<longleftrightarrow> \<not> (?b \<le> int j \<and> int j < bits r)"
          using j m [of j] by (simp only: bit_not_iff) simp
        then show "bit (x AND NOT (shl64 (gen_mask ?k) ?b)) j = bit (take_bit (nat ?b) x) j"
          using lt unfolding bit_and_iff bit_take_bit_iff nb by blast
      qed
      then have "each_code (\<lambda>x. x AND NOT (shl64 (gen_mask ?k) ?b)) cs = each_code (take_bit (nat ?b)) cs"
        by (rule map_codes_cong)
      then have "move_pre ?k l cs r = moved_pre r ?k (shr64 (l AND shl64 (gen_mask ?k) ?b) ?b) cs"
        by (simp add: move_pre_def moved_pre_def ib Let_def)
      then show ?thesis using g True pre k(2) by auto
    qed (use g in simp)
  qed (use pc in \<open>auto simp: get_pre_data_def plain_codes_def\<close>)
qed

lemma get_post_shape:
  assumes pc: "plain_codes r cs" and ne: "x0 \<in> set (codes_of cs)" "y0 \<in> set (codes_of cs)" "x0 \<noteq> y0"
  shows "get_post_data r = Some r \<or>
    (\<exists>k p. 0 < k \<and> k < bits r \<and> (\<forall>x \<in> set (codes_of cs). take_bit (nat k) x = p) \<and>
       get_post_data r = Some (moved_post r k p cs))"
proof -
  consider "bits r = 0" | "cs = []" | c where "cs = [c]" | c d rest where "cs = c # d # rest" "bits r \<noteq> 0"
    by (metis list.exhaust)
  then show ?thesis
  proof cases
    case 4
    obtain m l where ml: "equal_bits c (d # rest) = (m, l)" by fastforce
    have nodes: "nc_nodes c = []" using pc 4 by (simp add: plain_codes_def)
    obtain t where t: "trailing_ones m 0 = int t" "\<forall>k < t. bit m k"
      using trailing_ones_bits [of m 0] by auto
    have b: "0 < bits r" "bits r \<le> 64" using pc 4 by (auto simp: plain_codes_def)
    let ?k = "even_bits r (int t)"
    have g: "get_post_data r = Some (if ?k > 0 then move_post ?k l cs r else r)"
      using pc 4 ml t(1) by (simp add: get_post_data_def plain_codes_def)
    have eq: "bit x j = bit l j" if "x \<in> set (codes_of cs)" "j < t" for x j
      using equal_bits_all(2) [OF ml nodes, of j x] t(2) that 4 by blast
    have tb: "int t < bits r"
    proof (rule ccontr)
      assume "\<not> int t < bits r"
      have "x = l" if x: "x \<in> set (codes_of cs)" for x
      proof (rule word64_eqI)
        fix j
        have "fits (bits r) x" "fits (bits r) l"
          using pc x equal_bits_all(1) [OF ml nodes] 4 by (auto simp: plain_codes_def)
        then show "bit x j = bit l j"
          using eq [OF x, of j] fits_bit [of "bits r" _ j] \<open>\<not> int t < bits r\<close> by fastforce
      qed
      then show False using ne by metis
    qed
    show ?thesis
    proof (cases "?k > 0")
      case True
      have k: "?k \<le> int t" "?k < bits r" "?k < 64"
        using even_bits_range [OF True] tb b by auto
      have post: "take_bit (nat ?k) x = l AND gen_mask ?k" if x: "x \<in> set (codes_of cs)" for x
      proof (rule word64_eqI)
        fix j :: nat
        have "bit x j = bit l j" if "j < nat ?k"
          using eq [OF x] that k(1) by (simp add: zless_nat_eq_int_zless)
        then show "bit (take_bit (nat ?k) x) j = bit (l AND gen_mask ?k) j"
          unfolding bit_take_bit_iff bit_and_gen_mask zless_nat_eq_int_zless by blast
      qed
      have i: "i32 (bits r - ?k) = bits r - ?k"
        using k b True by (intro i32_id i32_rangeI) auto
      have "move_post ?k l cs r = moved_post r ?k (l AND gen_mask ?k) cs"
        using True k(3) by (simp add: move_post_def moved_post_def i each_code_def)
      then show ?thesis using g True post k(2) by auto
    qed (use g in simp)
  qed (use pc in \<open>auto simp: get_post_data_def plain_codes_def\<close>)
qed

section \<open>The signal of a button\<close>

lemma field_toks_split:
  "field_toks r m (a + b) x = field_toks r m a (drop_bit b x) @ field_toks r (drop_bit a m) b x"
proof -
  have 1: "map (\<lambda>i. bit_toks r (drop_bit i m) (bit x (a + b - 1 - i))) [0..<a] =
      map (\<lambda>i. bit_toks r (drop_bit i m) (bit (drop_bit b x) (a - 1 - i))) [0..<a]"
    by (rule map_cong) (auto simp: bit_drop_bit_eq intro!: arg_cong [of _ _ "bit x"] arg_cong [of _ _ "bit_toks r _"])
  have 2: "map (\<lambda>i. bit_toks r (drop_bit i m) (bit x (a + b - 1 - i))) [a..<a + b] =
      map (\<lambda>i. bit_toks r (drop_bit i (drop_bit a m)) (bit x (b - 1 - i))) [0..<b]"
  proof -
    have "[a..<a + b] = map (\<lambda>i. i + a) [0..<b]"
      by (simp add: map_add_upt add.commute)
    then show ?thesis by (simp add: add.commute)
  qed
  show ?thesis
    unfolding field_toks_def upt_add_eq_append [OF le0, of a b] map_append concat_append 1 [symmetric] 2 [symmetric]
    by simp
qed

lemma field_toks_cong:
  assumes "bit_toks r = bit_toks r'" "\<And>j. j < n \<Longrightarrow> bit x j = bit y j"
  shows "field_toks r m n x = field_toks r' m n y"
  unfolding field_toks_def using assms by (intro arg_cong [of _ _ concat] map_cong) auto

text \<open>The mask of the bit at position \<open>dn\<close> of a code of \<open>n\<close> bits.\<close>

lemma drop_position:
  assumes "0 \<le> dn" "0 \<le> i" "dn + i < n" "n \<le> 64"
  shows "drop_bit (nat i) (shl64 1 (i32 (n - 1 - dn))) = shl64 1 (i32 (n - 1 - (dn + i)))"
proof -
  have e: "i32 (n - 1 - dn) = n - 1 - dn" "i32 (n - 1 - (dn + i)) = n - 1 - (dn + i)"
    using assms by (auto intro!: i32_id i32_rangeI)
  show ?thesis
  proof (rule word64_eqI)
    fix j :: nat
    show "bit (drop_bit (nat i) (shl64 1 (i32 (n - 1 - dn)))) j = bit (shl64 1 (i32 (n - 1 - (dn + i)))) j"
      unfolding e bit_drop_bit_eq comp_def using assms
      by (subst (1 2) shl64_in) (auto simp: bit_push64 bit_1_iff simp del: push_bit_of_1)
  qed
qed

lemma bit_toks_moved [simp]:
  "bit_toks (moved_pre r k p cs) = bit_toks r" "bit_toks (moved_post r k p cs) = bit_toks r"
  by (intro ext, simp add: bit_toks_def toggled_bit_def one_toks_def zero_toks_def ir_preds
      moved_pre_def moved_post_def)+

lemma field_toks_moved [simp]:
  "field_toks (moved_pre r k p cs) = field_toks r" "field_toks (moved_post r k p cs) = field_toks r"
  by (simp_all add: field_toks_def fun_eq_iff)

lemma moved_pre_sel [simp]:
  "bits (moved_pre r k p cs) = bits r - k" "pre_data_bits (moved_pre r k p cs) = k"
  "pre_data (moved_pre r k p cs) = p" "post_data_bits (moved_pre r k p cs) = post_data_bits r"
  "post_data (moved_pre r k p cs) = post_data r" "flags (moved_pre r k p cs) = flags r"
  "pre_p (moved_pre r k p cs) = pre_p r" "pre_s (moved_pre r k p cs) = pre_s r"
  "post_p (moved_pre r k p cs) = post_p r" "post_s (moved_pre r k p cs) = post_s r"
  "phead (moved_pre r k p cs) = phead r" "shead (moved_pre r k p cs) = shead r"
  "codes (moved_pre r k p cs) = Some (each_code (take_bit (nat (bits r - k))) cs)"
  by (simp_all add: moved_pre_def)

lemma moved_post_sel [simp]:
  "bits (moved_post r k p cs) = bits r - k" "pre_data_bits (moved_post r k p cs) = pre_data_bits r"
  "pre_data (moved_post r k p cs) = pre_data r" "post_data_bits (moved_post r k p cs) = k"
  "post_data (moved_post r k p cs) = p" "flags (moved_post r k p cs) = flags r"
  "pre_p (moved_post r k p cs) = pre_p r" "pre_s (moved_post r k p cs) = pre_s r"
  "post_p (moved_post r k p cs) = post_p r" "post_s (moved_post r k p cs) = post_s r"
  "phead (moved_post r k p cs) = phead r" "shead (moved_post r k p cs) = shead r"
  "codes (moved_post r k p cs) = Some (each_code (drop_bit (nat k)) cs)"
  by (simp_all add: moved_post_def)

text \<open>The conditions under which the fields are sent bit by bit, one behind the other.\<close>

definition pre_free :: "ir_remote \<Rightarrow> bool" where
  "pre_free r \<longleftrightarrow> plain_bits r \<and> pre_data_bits r = 0 \<and> \<not> (pre_p r > 0 \<and> pre_s r > 0)"

definition post_free :: "ir_remote \<Rightarrow> bool" where
  "post_free r \<longleftrightarrow> plain_bits r \<and> post_data_bits r = 0 \<and> \<not> (post_p r > 0 \<and> post_s r > 0)"

definition short_fields :: "ir_remote \<Rightarrow> bool" where
  "short_fields r \<longleftrightarrow> 0 \<le> pre_data_bits r \<and> 0 \<le> bits r \<and> 0 \<le> post_data_bits r \<and>
     pre_data_bits r + bits r + post_data_bits r \<le> 64"

lemma short_bit_count: "short_fields r \<Longrightarrow> bit_count r = pre_data_bits r + bits r + post_data_bits r"
  unfolding short_fields_def bit_count_def by (simp add: i32_range_nonneg)

lemma short_field_sizes: "short_fields r \<Longrightarrow> field_sizes_ok r"
  by (simp add: short_fields_def field_sizes_ok_def)

lemma send_code_cong:
  assumes "plain_bits r" "field_sizes_ok r" "plain_bits r'" "field_sizes_ok r'"
    "code_toks r' c' rep = code_toks r c rep" "flags r' = flags r" "phead r' = phead r" "shead r' = shead r"
  shows "send_code r' c' rep b = send_code r c rep b"
  by (simp only: send_code_toks [OF assms(1,2)] send_code_toks [OF assms(3,4)] assms(5-8))

lemma part_toks_moved [simp]:
  "header_toks (moved_pre r k p cs) = header_toks r" "header_toks (moved_post r k p cs) = header_toks r"
  "lead_toks (moved_pre r k p cs) = lead_toks r" "lead_toks (moved_post r k p cs) = lead_toks r"
  "trail_toks (moved_pre r k p cs) = trail_toks r" "trail_toks (moved_post r k p cs) = trail_toks r"
  "foot_toks (moved_pre r k p cs) = foot_toks r" "foot_toks (moved_post r k p cs) = foot_toks r"
  by (simp_all add: header_toks_def lead_toks_def trail_toks_def foot_toks_def ir_preds
      moved_pre_def moved_post_def)

lemma moved_pre_signal:
  assumes r: "pre_free r" "short_fields r" and k: "0 < k" "k \<le> bits r"
    and p: "drop_bit (nat (bits r - k)) x = p"
  shows "send_code (moved_pre r k p cs) (take_bit (nat (bits r - k)) x) rep b = send_code r x rep b"
proof -
  let ?r = "moved_pre r k p cs" and ?n = "bits r - k"
  have f: "pre_data_bits r = 0" "0 \<le> bits r" "0 \<le> post_data_bits r" "bits r + post_data_bits r \<le> 64"
    "plain_bits r" "\<not> (pre_p r > 0 \<and> pre_s r > 0)"
    using r by (auto simp: pre_free_def short_fields_def)
  have s': "short_fields ?r" using f k by (simp add: short_fields_def)
  have T: "bit_count r = bits r + post_data_bits r" "bit_count ?r = bits r + post_data_bits r"
    using short_bit_count [OF r(2)] short_bit_count [OF s'] f by simp_all
  let ?m = "\<lambda>dn. shl64 1 (i32 (bits r + post_data_bits r - 1 - dn)) :: ir_code"
  have n: "nat (bits r) = nat k + nat ?n" using k by simp
  have "data_toks r x (bits r) 0 = field_toks r (?m 0) (nat k) p @ field_toks r (drop_bit (nat k) (?m 0)) (nat ?n) x"
    unfolding data_toks_def T n field_toks_split p by simp
  also have "field_toks r (drop_bit (nat k) (?m 0)) (nat ?n) x = field_toks r (?m k) (nat ?n) x"
  proof (cases "?n = 0")
    case False
    then have "drop_bit (nat k) (?m 0) = ?m (0 + k)"
      using k f by (intro drop_position) auto
    then show ?thesis by simp
  qed (simp add: field_toks_def)
  also have "field_toks r (?m k) (nat ?n) x = field_toks r (?m k) (nat ?n) (take_bit (nat ?n) x)"
    by (rule field_toks_cong) (simp_all add: bit_take_bit_iff)
  finally have d: "data_toks r x (bits r) 0 =
      data_toks ?r p k 0 @ data_toks ?r (take_bit (nat ?n) x) ?n k"
    unfolding data_toks_def T field_toks_moved by simp
  have post: "post_toks ?r = post_toks r"
    unfolding post_toks_def data_toks_def T field_toks_moved using f(1) by (simp add: has_post_def)
  have pre: "pre_toks ?r = data_toks ?r p k 0" "pre_toks r = []"
    using k f by (auto simp: pre_toks_def cond_toks_def has_pre_def)
  have "code_toks ?r (take_bit (nat ?n) x) rep = code_toks r x rep"
    unfolding code_toks_def pre post part_toks_moved using d f(1) by simp
  moreover have "plain_bits ?r" using f(5) by (simp add: plain_bits_def ir_preds)
  ultimately show ?thesis
    using f(5) short_field_sizes [OF r(2)] short_field_sizes [OF s']
    by (intro send_code_cong) simp_all
qed

lemma moved_post_signal:
  assumes r: "post_free r" "short_fields r" and k: "0 < k" "k < bits r"
    and p: "take_bit (nat k) x = p"
  shows "send_code (moved_post r k p cs) (drop_bit (nat k) x) rep b = send_code r x rep b"
proof -
  let ?r = "moved_post r k p cs" and ?n = "bits r - k"
  have f: "0 \<le> pre_data_bits r" "0 \<le> bits r" "post_data_bits r = 0" "pre_data_bits r + bits r \<le> 64"
    "plain_bits r" "\<not> (post_p r > 0 \<and> post_s r > 0)"
    using r by (auto simp: post_free_def short_fields_def)
  have s': "short_fields ?r" using f k by (simp add: short_fields_def)
  have T: "bit_count r = pre_data_bits r + bits r" "bit_count ?r = pre_data_bits r + bits r"
    using short_bit_count [OF r(2)] short_bit_count [OF s'] f by simp_all
  let ?m = "\<lambda>dn. shl64 1 (i32 (pre_data_bits r + bits r - 1 - dn)) :: ir_code"
  have n: "nat (bits r) = nat ?n + nat k" using k by simp
  have "data_toks r x (bits r) (pre_data_bits r) =
      field_toks r (?m (pre_data_bits r)) (nat ?n) (drop_bit (nat k) x) @
      field_toks r (drop_bit (nat ?n) (?m (pre_data_bits r))) (nat k) x"
    unfolding data_toks_def T n field_toks_split by simp
  also have "drop_bit (nat ?n) (?m (pre_data_bits r)) = ?m (pre_data_bits r + ?n)"
    using k f by (intro drop_position) auto
  also have "field_toks r (?m (pre_data_bits r + ?n)) (nat k) x =
      field_toks r (?m (pre_data_bits r + ?n)) (nat k) p"
    by (rule field_toks_cong) (simp_all add: bit_take_bit_iff p [symmetric])
  finally have d: "data_toks r x (bits r) (pre_data_bits r) =
      data_toks ?r (drop_bit (nat k) x) ?n (pre_data_bits r) @ data_toks ?r p k (pre_data_bits r + ?n)"
    unfolding data_toks_def T field_toks_moved by simp
  have i: "i32 (pre_data_bits r + ?n) = pre_data_bits r + ?n"
    using f k by (intro i32_id i32_range_nonneg) auto
  have pre: "pre_toks ?r = pre_toks r"
    unfolding pre_toks_def data_toks_def T field_toks_moved by (simp add: has_pre_def)
  have post: "post_toks ?r = data_toks ?r p k (pre_data_bits r + ?n)" "post_toks r = []"
    using k f by (auto simp: post_toks_def cond_toks_def has_post_def i)
  have "code_toks ?r (drop_bit (nat k) x) rep = code_toks r x rep"
    unfolding code_toks_def pre post part_toks_moved using d by simp
  moreover have "plain_bits ?r" using f(5) by (simp add: plain_bits_def ir_preds)
  ultimately show ?thesis
    using f(5) short_field_sizes [OF r(2)] short_field_sizes [OF s']
    by (intro send_code_cong) simp_all
qed

section \<open>The finished remote\<close>

lemma codes_of_map [simp]: "codes_of (each_code f cs) = map f (codes_of cs)"
  by (induction cs) (simp_all add: codes_of_def each_code_def)

lemma map_codes_compose [simp]: "each_code g (each_code f cs) = each_code (\<lambda>x. g (f x)) cs"
  by (simp add: each_code_def)

lemma map_codes_id [simp]: "each_code (\<lambda>x. x) cs = cs"
  by (induction cs) (simp_all add: each_code_def)

lemma map_codes_Cons [simp]:
  "each_code f (c # cs) = c\<lparr>nc_code := f (nc_code c), nc_nodes := map f (nc_nodes c)\<rparr> # each_code f cs"
  by (simp add: each_code_def)

lemma map_codes_Nil [simp]: "each_code f [] = []"
  by (simp add: each_code_def)

lemma take_bit_fits: "0 \<le> n \<Longrightarrow> fits n (take_bit (nat n) x)"
  unfolding fits_def
  by (rule word64_eqI) (auto simp: bit_and_gen_mask bit_take_bit_iff zless_nat_eq_int_zless)

lemma moved_pre_plain_codes:
  assumes "plain_codes r cs" "0 < k" "k \<le> bits r"
  shows "plain_codes (moved_pre r k p cs) (each_code (take_bit (nat (bits r - k))) cs)"
proof -
  let ?f = "take_bit (nat (bits r - k)) :: ir_code \<Rightarrow> ir_code"
  have "\<forall>x \<in> set (codes_of (each_code ?f cs)). fits (bits r - k) x"
    unfolding codes_of_map using assms(3) by (auto intro: take_bit_fits)
  moreover have "nc_nodes c = []" if eq: "each_code ?f cs = c # cs'" for c cs'
  proof -
    obtain a as where cs: "cs = a # as" using eq by (cases cs) simp_all
    then have "nc_nodes a = []" using assms(1) unfolding plain_codes_def by blast
    moreover have "c = a\<lparr>nc_code := ?f (nc_code a), nc_nodes := map ?f (nc_nodes a)\<rparr>"
      using eq cs by (simp only: map_codes_Cons list.inject)
    ultimately show ?thesis by simp
  qed
  moreover have "0 \<le> bits r - k" "bits r - k \<le> 64"
    using assms by (auto simp: plain_codes_def)
  ultimately show ?thesis
    unfolding plain_codes_def moved_pre_sel by blast
qed

text \<open>A remote as it was recorded: codes without pre and post data, at least two different ones.\<close>

definition recorded :: "ir_remote \<Rightarrow> ir_ncode list \<Rightarrow> bool" where
  "recorded r cs \<longleftrightarrow>
     plain_codes r cs \<and> pre_free r \<and> post_free r \<and> \<not> has_toggle_bit_mask r \<and>
     (\<exists>x y. x \<in> set (codes_of cs) \<and> y \<in> set (codes_of cs) \<and> x \<noteq> y)"

lemma recorded_short: "recorded r cs \<Longrightarrow> short_fields r"
  by (simp add: recorded_def plain_codes_def pre_free_def post_free_def short_fields_def)

lemma pre_then_post:
  assumes rec: "recorded r cs"
  obtains r1 f where "get_pre_data r = Some r1" "codes r1 = Some (each_code f cs)"
    "plain_codes r1 (each_code f cs)" "post_free r1" "short_fields r1"
    "\<And>x y. x \<in> set (codes_of cs) \<Longrightarrow> y \<in> set (codes_of cs) \<Longrightarrow> f x = f y \<Longrightarrow> x = y"
    "\<And>x rep b. x \<in> set (codes_of cs) \<Longrightarrow> send_code r1 (f x) rep b = send_code r x rep b"
proof -
  have pc: "plain_codes r cs" "pre_free r" "post_free r" "short_fields r"
    using rec recorded_short by (auto simp: recorded_def)
  consider "get_pre_data r = Some r"
    | k p where "0 < k" "k \<le> bits r" "\<forall>x \<in> set (codes_of cs). drop_bit (nat (bits r - k)) x = p"
        "get_pre_data r = Some (moved_pre r k p cs)"
    using get_pre_shape [OF pc(1)] by blast
  then show thesis
  proof cases
    case 1
    show thesis
      by (rule that [OF 1, of "\<lambda>x. x"]) (use pc in \<open>simp_all add: plain_codes_def\<close>)
  next
    case 2
    let ?r = "moved_pre r k p cs" and ?f = "take_bit (nat (bits r - k)) :: ir_code \<Rightarrow> ir_code"
    show thesis
    proof (rule that [OF 2(4), of ?f])
      show "plain_codes ?r (each_code ?f cs)" by (rule moved_pre_plain_codes [OF pc(1) 2(1,2)])
      show "post_free ?r" using pc(3) by (simp add: post_free_def plain_bits_def ir_preds)
      show "short_fields ?r"
        using pc(2,4) 2(1,2) by (simp add: short_fields_def pre_free_def)
      show "x = y" if "x \<in> set (codes_of cs)" "y \<in> set (codes_of cs)" "?f x = ?f y" for x y
        using 2(3) that by (metis bits_ident)
      show "send_code ?r (?f x) rep b = send_code r x rep b" if "x \<in> set (codes_of cs)" for x rep b
        using 2(3) that by (intro moved_pre_signal [OF pc(2,4) 2(1,2)]) simp
    qed simp
  qed
qed

lemma finished_signals:
  assumes rec: "recorded r cs"
  shows "\<exists>r' f. finish_recorded ops False r w = Some (r', w) \<and> codes r' = Some (each_code f cs) \<and>
    (\<forall>x \<in> set (codes_of cs). \<forall>rep b. send_code r' (f x) rep b = send_code r x rep b)"
proof -
  obtain r1 f where 1: "get_pre_data r = Some r1" "codes r1 = Some (each_code f cs)"
    "plain_codes r1 (each_code f cs)" "post_free r1" "short_fields r1"
    "\<And>x y. x \<in> set (codes_of cs) \<Longrightarrow> y \<in> set (codes_of cs) \<Longrightarrow> f x = f y \<Longrightarrow> x = y"
    "\<And>x rep b. x \<in> set (codes_of cs) \<Longrightarrow> send_code r1 (f x) rep b = send_code r x rep b"
    using pre_then_post [OF rec] by blast
  obtain x y where xy: "x \<in> set (codes_of cs)" "y \<in> set (codes_of cs)" "f x \<noteq> f y"
    using rec 1(6) unfolding recorded_def by metis
  have fin: "finish_recorded ops False r w = map_option (\<lambda>r. (r, w)) (get_post_data r1)"
    using rec 1(1) by (cases "get_post_data r1") (simp_all add: finish_recorded_def recorded_def)
  have m: "f x \<in> set (codes_of (each_code f cs))" "f y \<in> set (codes_of (each_code f cs))"
    using xy by auto
  consider "get_post_data r1 = Some r1"
    | k p where "0 < k" "k < bits r1" "\<forall>x \<in> set (codes_of (each_code f cs)). take_bit (nat k) x = p"
        "get_post_data r1 = Some (moved_post r1 k p (each_code f cs))"
    using get_post_shape [OF 1(3) m xy(3)] by blast
  then show ?thesis
  proof cases
    case 1
    then show ?thesis using fin \<open>codes r1 = Some (each_code f cs)\<close> 1(1) \<open>\<And>x rep b. x \<in> set (codes_of cs) \<Longrightarrow> send_code r1 (f x) rep b = send_code r x rep b\<close>
      by (intro exI [of _ r1] exI [of _ f]) simp
  next
    case 2
    let ?r = "moved_post r1 k p (each_code f cs)" and ?g = "\<lambda>x. drop_bit (nat k) (f x)"
    have "send_code ?r (?g x) rep b = send_code r x rep b" if "x \<in> set (codes_of cs)" for x rep b
      using 2(3) that 1(7) by (subst moved_post_signal [OF 1(4,5) 2(1,2)]) simp_all
    then show ?thesis using fin 2(4) by (intro exI [of _ ?r] exI [of _ ?g]) simp
  qed
qed

section \<open>Back to the recorded remote\<close>

lemma join_taken:
  assumes "0 \<le> n" "n < 64"
  shows "take_bit (nat n) x OR shl64 (drop_bit (nat n) x) n = (x :: ir_code)"
proof (rule word64_eqI)
  fix j :: nat assume j: "j < 64"
  show "bit (take_bit (nat n) x OR shl64 (drop_bit (nat n) x) n) j = bit x j"
    using assms j
    by (cases "j < nat n") (auto simp: bit_or_iff bit_take_bit_iff bit_push64 bit_drop_bit_eq)
qed

lemma join_dropped:
  assumes "0 \<le> n" "n < 64"
  shows "shl64 (drop_bit (nat n) x) n OR take_bit (nat n) x = (x :: ir_code)"
  using join_taken [OF assms] by (simp add: or.commute)

lemma join_middle:
  assumes "0 < k" "k < n" "n < 64"
  shows "drop_bit (nat k) (take_bit (nat n) x) OR shl64 (drop_bit (nat n) x) (n - k) = (drop_bit (nat k) x :: ir_code)"
proof (rule word64_eqI)
  fix j :: nat assume j: "j < 64"
  show "bit (drop_bit (nat k) (take_bit (nat n) x) OR shl64 (drop_bit (nat n) x) (n - k)) j =
      bit (drop_bit (nat k) x) j"
  proof (cases "j < nat (n - k)")
    case True
    then have "nat k + j < nat n" using assms by auto
    then show ?thesis
      using assms j True by (auto simp: bit_or_iff bit_take_bit_iff bit_push64 bit_drop_bit_eq)
  next
    case False
    then have e: "nat n + (j - nat (n - k)) = nat k + j" "\<not> nat k + j < nat n"
      using assms by auto
    have "bit (shl64 (drop_bit (nat n) x) (n - k)) j \<longleftrightarrow> bit x (nat n + (j - nat (n - k)))"
      using assms j False by (simp add: bit_push64 bit_drop_bit_eq)
    then show ?thesis
      unfolding bit_or_iff bit_drop_bit_eq comp_def bit_take_bit_iff e using e(2) by simp
  qed
qed

definition unmarked :: "ir_remote \<Rightarrow> bool" where
  "unmarked r \<longleftrightarrow> pre_data r = 0 \<and> post_data r = 0 \<and> pre_p r = 0 \<and> pre_s r = 0"

lemma restored_eq:
  assumes "recorded r cs" "unmarked r"
  shows "r\<lparr>codes := Some cs, bits := bits r, pre_data := 0, pre_data_bits := 0\<rparr> = r"
    "r\<lparr>codes := Some cs, bits := bits r, post_data := 0, post_data_bits := 0\<rparr> = r"
  using assms
  by (cases r, simp add: recorded_def plain_codes_def pre_free_def post_free_def unmarked_def)+

lemma restore_codes:
  "(\<And>x. x \<in> set (codes_of cs) \<Longrightarrow> f x = x) \<Longrightarrow> each_code f cs = cs"
  using map_codes_cong [of cs f "\<lambda>x. x"] by simp

lemma remove_pre_moved:
  assumes r: "recorded r cs" "unmarked r" and k: "0 < k" "k \<le> bits r"
    and p: "\<forall>x \<in> set (codes_of cs). drop_bit (nat (bits r - k)) x = p"
  shows "remove_pre_data (moved_pre r k p cs) = Some r"
proof -
  have b: "0 \<le> bits r - k" "bits r - k < 64" "bits r \<le> 64"
    using r(1) k by (auto simp: recorded_def plain_codes_def)
  have "each_code (\<lambda>x. take_bit (nat (bits r - k)) x OR shl64 p (bits r - k)) cs = cs"
    by (rule restore_codes) (use join_taken [OF b(1,2)] p in auto)
  then show ?thesis
    using restored_eq(1) [OF r] r(2) k b
    by (simp add: remove_pre_data_def unmarked_def i32_range_nonneg) (simp add: moved_pre_def)
qed

lemma remove_post_moved:
  assumes r: "recorded r cs" "unmarked r" and k: "0 < k" "k < bits r"
    and p: "\<forall>x \<in> set (codes_of cs). take_bit (nat k) x = p"
  shows "remove_post_data (moved_post r k p cs) = Some r"
proof -
  have b: "0 \<le> k" "k < 64" "bits r \<le> 64"
    using r(1) k by (auto simp: recorded_def plain_codes_def)
  have "each_code (\<lambda>x. shl64 (drop_bit (nat k) x) k OR p) cs = cs"
    by (rule restore_codes) (use join_dropped [OF b(1,2)] p in auto)
  then show ?thesis
    using restored_eq(2) [OF r] r(2) k b
    by (simp add: remove_post_data_def i32_range_nonneg) (simp add: moved_post_def)
qed

lemma remove_pre_both:
  assumes r: "recorded r cs" "unmarked r" and k: "0 < k" "k \<le> bits r" and j: "0 < j" "j < bits r - k"
    and p: "\<forall>x \<in> set (codes_of cs). drop_bit (nat (bits r - k)) x = p"
  shows "remove_pre_data (moved_post (moved_pre r k p cs) j q (each_code (take_bit (nat (bits r - k))) cs)) =
    Some (moved_post r j q cs)"
proof -
  have b: "bits r - k < 64" "bits r \<le> 64"
    using r(1) k by (auto simp: recorded_def plain_codes_def)
  have "each_code (\<lambda>x. drop_bit (nat j) (take_bit (nat (bits r - k)) x) OR shl64 p (bits r - k - j)) cs =
      each_code (drop_bit (nat j)) cs"
    by (rule map_codes_cong) (use join_middle [OF j b(1)] p in auto)
  moreover have "pre_data r = 0" "pre_data_bits r = 0"
    using r by (auto simp: recorded_def pre_free_def unmarked_def)
  ultimately show ?thesis
    using r(2) k j b
    by (simp add: remove_pre_data_def unmarked_def i32_range_nonneg)
      (cases r, simp add: moved_pre_def moved_post_def)
qed

lemma finish_shape:
  assumes rec: "recorded r cs"
  obtains r1 r' where "finish_recorded ops False r w = Some (r', w)" "get_post_data r1 = Some r'"
    "r1 = r \<or> (\<exists>k p. 0 < k \<and> k \<le> bits r \<and> (\<forall>x \<in> set (codes_of cs). drop_bit (nat (bits r - k)) x = p) \<and>
       r1 = moved_pre r k p cs)"
proof -
  have pc: "plain_codes r cs" using rec by (simp add: recorded_def)
  obtain r1 where r1: "get_pre_data r = Some r1" "r1 = r \<or> (\<exists>k p. 0 < k \<and> k \<le> bits r \<and>
      (\<forall>x \<in> set (codes_of cs). drop_bit (nat (bits r - k)) x = p) \<and> r1 = moved_pre r k p cs)"
    using get_pre_shape [OF pc] by blast
  obtain r' where "finish_recorded ops False r w = Some (r', w)"
    using finished_signals [OF rec, of ops w] by blast
  moreover from this r1(1) have "get_post_data r1 = Some r'"
    using rec by (cases "get_post_data r1") (simp_all add: finish_recorded_def recorded_def)
  ultimately show thesis using that r1(2) by blast
qed

lemma finished_undone:
  assumes r: "recorded r cs" "unmarked r"
  shows "\<exists>r'. finish_recorded ops False r w = Some (r', w) \<and>
    test_remote h False False False False r' = Some r"
proof -
  obtain r1 r' where f: "finish_recorded ops False r w = Some (r', w)" "get_post_data r1 = Some r'"
    and c: "r1 = r \<or> (\<exists>k p. 0 < k \<and> k \<le> bits r \<and> (\<forall>x \<in> set (codes_of cs). drop_bit (nat (bits r - k)) x = p) \<and>
       r1 = moved_pre r k p cs)"
    by (rule finish_shape [OF r(1), of ops w]) (rule that)
  have z: "pre_data_bits r = 0" "post_data_bits r = 0" and pc: "plain_codes r cs"
    using r(1) by (auto simp: recorded_def pre_free_def post_free_def)
  obtain x y where xy: "x \<in> set (codes_of cs)" "y \<in> set (codes_of cs)" "x \<noteq> y"
    using r(1) by (auto simp: recorded_def)
  have same: "remove_pre_data r = Some r" "remove_post_data r = Some r"
    using z by (simp_all add: remove_pre_data_def remove_post_data_def)
  have "Option.bind (remove_pre_data r') remove_post_data = Some r"
    using c
  proof (elim disjE exE conjE)
    assume r1: "r1 = r"
    from get_post_shape [OF pc xy] show ?thesis
    proof (elim disjE exE conjE)
      fix j q
      assume q: "0 < j" "j < bits r" "\<forall>x \<in> set (codes_of cs). take_bit (nat j) x = q"
        "get_post_data r = Some (moved_post r j q cs)"
      have "r' = moved_post r j q cs" using f(2) r1 q(4) by simp
      then have "remove_pre_data r' = Some r'" using z by (simp add: remove_pre_data_def)
      then show ?thesis using remove_post_moved [OF r q(1-3)] f(2) r1 q(4) by simp
    qed (use f(2) r1 same in simp)
  next
    fix k p
    assume k: "0 < k" "k \<le> bits r" and p: "\<forall>x \<in> set (codes_of cs). drop_bit (nat (bits r - k)) x = p"
      and r1: "r1 = moved_pre r k p cs"
    let ?f = "take_bit (nat (bits r - k)) :: ir_code \<Rightarrow> ir_code"
    have "?f x \<noteq> ?f y" using p xy by (metis bits_ident)
    then have ne: "?f x \<in> set (codes_of (each_code ?f cs))" "?f y \<in> set (codes_of (each_code ?f cs))" "?f x \<noteq> ?f y"
      using xy by auto
    from get_post_shape [OF moved_pre_plain_codes [OF pc k, of p] ne] show ?thesis
    proof (elim disjE exE conjE)
      assume "get_post_data (moved_pre r k p cs) = Some (moved_pre r k p cs)"
      then show ?thesis using remove_pre_moved [OF r k p] f(2) r1 same(2) by simp
    next
      fix j q
      assume j: "0 < j" "j < bits (moved_pre r k p cs)"
        and q: "\<forall>x \<in> set (codes_of (each_code ?f cs)). take_bit (nat j) x = q"
        and g: "get_post_data (moved_pre r k p cs) = Some (moved_post (moved_pre r k p cs) j q (each_code ?f cs))"
      have j': "j < bits r - k" using j(2) by simp
      have "take_bit (nat j) x = q" if "x \<in> set (codes_of cs)" for x
        using q that j j' by (auto simp: min_def)
      then have "remove_post_data (moved_post r j q cs) = Some r"
        using j' k by (intro remove_post_moved [OF r j(1)]) auto
      moreover have "r' = moved_post (moved_pre r k p cs) j q (each_code ?f cs)"
        using f(2) r1 g by simp
      ultimately show ?thesis
        using remove_pre_both [OF r k j(1) j' p, of q] by simp
    qed
  qed
  then show ?thesis using f(1) by (simp add: test_remote_def)
qed

section \<open>Inverted data\<close>

definition invertible :: "ir_remote \<Rightarrow> bool" where
  "invertible r \<longleftrightarrow> plain_bits r \<and> \<not> is_biphase r \<and> rc6_mask r = 0 \<and> \<not> has_toggle_bit_mask r \<and>
     field_sizes_ok r"

lemma inverted_bit_toks:
  assumes "invertible r" "pone r' = pzero r" "sone r' = szero r" "pzero r' = pone r" "szero r' = sone r"
    "flags r' = flags r" "rc6_mask r' = rc6_mask r" "toggle_bit_mask r' = toggle_bit_mask r"
    "toggle_mask r' = toggle_mask r" "toggle_mask_state r' = toggle_mask_state r"
  shows "bit_toks r' m (\<not> d) = bit_toks r m d"
  using assms
  by (auto simp: invertible_def bit_toks_def toggled_bit_def one_toks_def zero_toks_def ir_preds)

lemma inverted_field_toks:
  assumes "\<And>m d. bit_toks r' m (\<not> d) = bit_toks r m d" "k \<le> 64"
  shows "field_toks r' m (nat k) (x XOR gen_mask k) = field_toks r m (nat k) x"
proof -
  have "bit (x XOR gen_mask k) (nat k - 1 - i) \<longleftrightarrow> \<not> bit x (nat k - 1 - i)" if "i < nat k" for i
    using that assms(2) by (auto simp: bit_xor_iff bit_gen_mask)
  then show ?thesis
    unfolding field_toks_def using assms(1)
    by (intro arg_cong [of _ _ concat] map_cong refl) simp
qed

text \<open>The remote with zeros and ones exchanged.\<close>

definition inverted :: "ir_remote \<Rightarrow> ir_ncode list \<Rightarrow> ir_remote" where
  "inverted r cs = r\<lparr>pone := pzero r, sone := szero r, pzero := pone r, szero := sone r,
     pre_data := (if has_pre r then pre_data r XOR gen_mask (pre_data_bits r) else pre_data r),
     post_data := (if has_post r then post_data r XOR gen_mask (post_data_bits r) else post_data r),
     codes := Some (each_code (\<lambda>x. x XOR gen_mask (bits r)) cs)\<rparr>"

lemma invert_data_eq: "codes r = Some cs \<Longrightarrow> invert_data r = Some (inverted r cs)"
  by (cases "bits r = 0"; cases r) (auto simp: invert_data_def inverted_def ir_preds Let_def)

lemma inverted_sel [simp]:
  "bits (inverted r cs) = bits r" "pre_data_bits (inverted r cs) = pre_data_bits r"
  "post_data_bits (inverted r cs) = post_data_bits r" "flags (inverted r cs) = flags r"
  "phead (inverted r cs) = phead r" "shead (inverted r cs) = shead r"
  "plead (inverted r cs) = plead r" "ptrail (inverted r cs) = ptrail r"
  "pfoot (inverted r cs) = pfoot r" "sfoot (inverted r cs) = sfoot r"
  "pre_p (inverted r cs) = pre_p r" "pre_s (inverted r cs) = pre_s r"
  "post_p (inverted r cs) = post_p r" "post_s (inverted r cs) = post_s r"
  "codes (inverted r cs) = Some (each_code (\<lambda>x. x XOR gen_mask (bits r)) cs)"
  "has_pre r \<Longrightarrow> pre_data (inverted r cs) = pre_data r XOR gen_mask (pre_data_bits r)"
  "has_post r \<Longrightarrow> post_data (inverted r cs) = post_data r XOR gen_mask (post_data_bits r)"
  by (simp_all add: inverted_def)

lemma inverted_signal:
  assumes r: "invertible r"
  shows "send_code (inverted r cs) (x XOR gen_mask (bits r)) rep b = send_code r x rep b"
proof -
  let ?r = "inverted r cs"
  have B: "bit_toks ?r m (\<not> d) = bit_toks r m d" for m d
    by (rule inverted_bit_toks [OF r]) (simp_all add: inverted_def)
  have f: "pre_data_bits r \<le> 64" "bits r \<le> 64" "post_data_bits r \<le> 64" "plain_bits r" "field_sizes_ok r"
    using r by (auto simp: invertible_def field_sizes_ok_def)
  have bc: "bit_count ?r = bit_count r" by (simp add: bit_count_def)
  have d: "data_toks ?r (x XOR gen_mask n) n dn = data_toks r x n dn" if "n \<le> 64" for x n dn
    unfolding data_toks_def bc by (rule inverted_field_toks [OF B that])
  have h: "has_pre ?r = has_pre r" "has_post ?r = has_post r"
    by (simp_all add: has_pre_def has_post_def)
  have pre: "pre_toks ?r = pre_toks r"
    using f(1) by (cases "has_pre r") (simp_all add: pre_toks_def cond_toks_def h d)
  have post: "post_toks ?r = post_toks r"
    using f(3) by (cases "has_post r") (simp_all add: post_toks_def cond_toks_def h d)
  have part: "header_toks ?r = header_toks r" "lead_toks ?r = lead_toks r"
    "trail_toks ?r = trail_toks r" "foot_toks ?r = foot_toks r"
    by (simp_all add: header_toks_def lead_toks_def trail_toks_def foot_toks_def has_header_def has_foot_def)
  have "code_toks ?r (x XOR gen_mask (bits r)) rep = code_toks r x rep"
    unfolding code_toks_def pre post part using f(2) by (simp add: d)
  moreover have "plain_bits ?r" "field_sizes_ok ?r"
    using f(4,5) by (simp_all add: plain_bits_def field_sizes_ok_def ir_preds)
  ultimately show ?thesis
    using f(4,5) by (intro send_code_cong) simp_all
qed

lemma inverted_inverted:
  "codes r = Some cs \<Longrightarrow> inverted (inverted r cs) (each_code (\<lambda>x. x XOR gen_mask (bits r)) cs) = r"
  by (cases r) (simp add: inverted_def ir_preds xor.assoc)

section \<open>Properties\<close>

definition demo_recorded :: ir_remote where
  "demo_recorded = demo_remote\<lparr>pre_data_bits := 0, pre_data := 0, bits := 16,
     codes := Some [demo_button ''POWER'' 0xC15A, demo_button ''MUTE'' 0xC113]\<rparr>"

definition demo_ops :: "unit rec_ops" where
  "demo_ops = \<lparr>op_wait = (\<lambda>w. (False, w)), op_available = (\<lambda>w. (False, w)), op_rec = (\<lambda>w. w),
     op_decode = (\<lambda>r w. Some (None, r, w)), op_read = (\<lambda>t w. (0, w)), op_time = (\<lambda>w. (timeval0, w)),
     op_flush = (\<lambda>w. w), op_forget = (\<lambda>w. w), op_reset = (\<lambda>w. (True, w))\<rparr>"

lemma demo_recorded_ok:
  "recorded demo_recorded [demo_button ''POWER'' 0xC15A, demo_button ''MUTE'' 0xC113]"
  "unmarked demo_recorded"
proof -
  have "fits 16 0xC15A" "fits 16 0xC113"
    unfolding fits_def by code_simp+
  moreover have "codes demo_recorded = Some [demo_button ''POWER'' 0xC15A, demo_button ''MUTE'' 0xC113]"
    "bits demo_recorded = 16"
    by (simp_all add: demo_recorded_def)
  moreover have "codes_of [demo_button ''POWER'' 0xC15A, demo_button ''MUTE'' 0xC113] = [0xC15A, 0xC113]"
    "nc_nodes (demo_button ''POWER'' 0xC15A) = []"
    by (simp_all add: codes_of_def demo_button_def ncode0_def)
  ultimately have "plain_codes demo_recorded [demo_button ''POWER'' 0xC15A, demo_button ''MUTE'' 0xC113]"
    by (simp add: plain_codes_def)
  moreover have "(0xC15A :: ir_code) \<noteq> 0xC113" by simp
  moreover have "pre_free demo_recorded" "post_free demo_recorded" "\<not> has_toggle_bit_mask demo_recorded"
    by code_simp+
  ultimately show "recorded demo_recorded [demo_button ''POWER'' 0xC15A, demo_button ''MUTE'' 0xC113]"
    unfolding recorded_def \<open>codes_of _ = _\<close> by (metis list.set_intros)
  show "unmarked demo_recorded"
    by (simp add: unmarked_def demo_recorded_def demo_remote_def remote0_def)
qed

text \<open>C19: The last step of \<open>irrecord\<close>, which moves the bits that all codes share to pre and post
  data, does not change the signal of any button: what \<open>send_code\<close> writes to the transmit buffer
  is the same for the code in the finished remote as for the recorded code. This holds when no toggle bit is asked
  for, for a remote with at least two different codes of at most 64 bits, none wider than the remote says,
  neither XMP nor RC-MM, as yet without pre and post data and toggle bit mask (\<open>recorded\<close>), and whose first button is
  not a sequence; for such a first button the step is wrong, as \<open>first_sequence_lost\<close> shows.\<close>

theorem finished_sends_same:
  assumes "recorded r cs"
  shows "\<exists>r' f. finish_recorded ops False r w = Some (r', w) \<and> codes r' = Some (each_code f cs) \<and>
    (\<forall>x \<in> set (codes_of cs). \<forall>rep b. send_code r' (f x) rep b = send_code r x rep b)"
  by (rule finished_signals [OF assms])

lemma finished_sends_same_witness:
  "\<exists>r' f. finish_recorded demo_ops False demo_recorded () = Some (r', ()) \<and>
    codes r' = Some (each_code f [demo_button ''POWER'' 0xC15A, demo_button ''MUTE'' 0xC113]) \<and>
    (\<forall>x \<in> set (codes_of [demo_button ''POWER'' 0xC15A, demo_button ''MUTE'' 0xC113]).
       \<forall>rep b. send_code r' (f x) rep b = send_code demo_recorded x rep b)"
  by (rule finished_sends_same [OF demo_recorded_ok(1)])

text \<open>C20: The test mode of \<open>irrecord\<close> undoes the last step: with pre and post data removed from
  the finished remote, the recorded remote is there again, with all its codes. The remote is as before (\<open>recorded\<close>:
  at least two different codes, the first button no sequence, no pre and post data or toggle bit mask), no toggle
  bit is asked for, and the values of pre and post data and the lengths between are zero (\<open>unmarked\<close>).\<close>

theorem finished_is_undone:
  assumes "recorded r cs" "unmarked r"
  shows "\<exists>r'. finish_recorded ops False r w = Some (r', w) \<and>
    test_remote h False False False False r' = Some r"
  by (rule finished_undone [OF assms])

lemma finished_is_undone_witness:
  "\<exists>r'. finish_recorded demo_ops False demo_recorded () = Some (r', ()) \<and>
    test_remote demo_hw False False False False r' = Some demo_recorded"
  by (rule finished_is_undone [OF demo_recorded_ok])

text \<open>\<open>invert_data\<close> exchanges the lengths of zero and one and inverts every field, so that the
  signals stay the same; done twice it changes nothing.\<close>

theorem inverted_sends_same:
  assumes "invertible r" "codes r = Some cs"
  shows "\<exists>r'. invert_data r = Some r' \<and> codes r' = Some (each_code (\<lambda>x. x XOR gen_mask (bits r)) cs) \<and>
    (\<forall>x rep b. send_code r' (x XOR gen_mask (bits r)) rep b = send_code r x rep b) \<and>
    invert_data r' = Some r"
  using invert_data_eq [OF assms(2)] inverted_signal [OF assms(1)] inverted_inverted [OF assms(2)]
    invert_data_eq [of "inverted r cs" "each_code (\<lambda>x. x XOR gen_mask (bits r)) cs"]
  by (intro exI [of _ "inverted r cs"]) simp

lemma inverted_sends_same_witness:
  "\<exists>r'. invert_data demo_remote = Some r' \<and>
    codes r' = Some (each_code (\<lambda>x. x XOR gen_mask (bits demo_remote))
      [demo_button ''POWER'' 0x5A, demo_button ''MUTE'' 0x13]) \<and>
    (\<forall>x rep b. send_code r' (x XOR gen_mask (bits demo_remote)) rep b = send_code demo_remote x rep b) \<and>
    invert_data r' = Some demo_remote"
  by (rule inverted_sends_same)
    (simp_all add: invertible_def plain_bits_def field_sizes_ok_def ir_preds flag_defs demo_remote_def remote0_def)

text \<open>The further codes of the first button are not compared: here the second code 0xFF01 of the
  first button loses its upper byte, because only the other codes begin with 0xC1.\<close>

lemma first_sequence_lost:
  "map_option (\<lambda>r. (pre_data r, codes_of (the (codes r))))
     (get_pre_data (demo_recorded\<lparr>codes := Some
        [(demo_button ''POWER'' 0xC15A)\<lparr>nc_nodes := [0xFF01]\<rparr>, demo_button ''MUTE'' 0xC113]\<rparr>)) =
   Some (0xC1, [0x5A, 0x01, 0x13])"
  by code_simp

end
