(* ===== verification/RecAnalyse.thy ===== *)
theory RecAnalyse
  imports RecScheme
begin

text \<open>
  \<open>get_lengths\<close> of \<open>daemons/irrecord.c\<close>: the state machine that looks for the gap, then
  collects signals, one sample at a time, and evaluates them.

  \<open>analyse_sample\<close> is one round of the loop for a sample that was read; it tells whether the
  loop goes on, ends with a return value, or ends with the evaluation of what was collected. The driver's \<open>readdata (10000000)\<close> is the parameter
  \<open>rd\<close> with a state of its own; a fault of it is a fault of the loop. The loop has no
  bound of its own: \<open>get_lengths_loop\<close> is \<open>None\<close> when it does not end, \<open>Some None\<close> when it faults.
\<close>

datatype progress = Go_on analyser | Finished bool analyser | Evaluate analyser

section \<open>Recording lengths\<close>

definition record_length :: "hist \<Rightarrow> lirc_t \<Rightarrow> analyser \<Rightarrow> analyser option" where
  "record_length h len s =
     map_option (\<lambda>ls. set_hist h ls s) (add_merge (g_eps s) (g_aeps s) len (hists s h))"

definition signal_at :: "nat \<Rightarrow> analyser \<Rightarrow> lirc_t option" where
  "signal_at i s = (if i < length (signals s) then Some (signals s ! i) else None)"

fun record_signals :: "(hist \<times> nat) list \<Rightarrow> analyser \<Rightarrow> analyser option" where
  "record_signals [] s = Some s"
| "record_signals ((h, i) # xs) s =
     do { d \<leftarrow> signal_at i s; s \<leftarrow> record_length h d s; record_signals xs s }"

text \<open>\<open>lengths[i]\<close> is incremented or decremented.\<close>

definition bump :: "nat \<Rightarrow> u32 \<Rightarrow> analyser \<Rightarrow> analyser option" where
  "bump i d s =
     (if i < length (length_counts s)
      then Some (s\<lparr>length_counts := (length_counts s)[i := length_counts s ! i + d]\<rparr>) else None)"

section \<open>Looking for the gap\<close>

definition is_gap :: "lirc_t \<Rightarrow> analyser \<Rightarrow> bool" where
  "is_gap data s \<longleftrightarrow>
     data > MIN_GAP \<or> data > i32 (100 * an_average s) \<or>
     (data \<ge> 5000 \<and> count_spaces s > 10 \<and> data > i32 (5 * an_average s)) \<or>
     (data < 5000 \<and> count_spaces s > 10 \<and> data > i32 (5 * an_maxspace s) sdiv 2)"

definition initial_gap :: "lirc_t \<Rightarrow> ir_remote \<Rightarrow> lirc_t" where
  "initial_gap data r =
     (if is_const r then (if gap r > word_of_int data then sint (gap r - word_of_int data) else 0)
      else if has_repeat_gap r then sint (repeat_gap r) else sint (gap r))"

definition have_gap :: "bool \<Rightarrow> lirc_t \<Rightarrow> analyser \<Rightarrow> progress" where
  "have_gap force data s =
     (let s = s\<lparr>an_mode := MODE_HAVE_GAP, an_sum := 0, an_count := 0,
                an_remaining_gap := initial_gap data (an_remote s)\<rparr>
      in if force then Finished False s else Go_on s)"

definition gap_seen :: "bool \<Rightarrow> lirc_t \<Rightarrow> analyser \<Rightarrow> progress option" where
  "gap_seen force data s =
     do { s \<leftarrow> record_length First_sum (an_sum s) s;
          s \<leftarrow> record_length First_gap data s;
          s \<leftarrow> Some (s\<lparr>an_sum := 0, count_spaces := 0, an_average := 0, an_maxspace := 0\<rparr>);
          case frequent SAMPLES (hists s First_sum) of
            Some l \<Rightarrow>
              do { c \<leftarrow> calc_signal l;
                   Some (have_gap force data
                     (upd_remote (\<lambda>r. r\<lparr>gap := word_of_int c, flags := flags r OR CONST_LENGTH\<rparr>) s)) }
          | None \<Rightarrow>
              (case frequent SAMPLES (hists s First_gap) of
                 Some l \<Rightarrow>
                   do { c \<leftarrow> calc_signal l;
                        Some (have_gap force data (upd_remote (\<lambda>r. r\<lparr>gap := word_of_int c\<rparr>) s)) }
               | None \<Rightarrow> Some (Go_on s)) }"

definition limit_samples :: "analyser \<Rightarrow> progress" where
  "limit_samples s =
     (if an_count s > SAMPLES * word_of_nat MAX_SIGNALS * 2 then Finished False s else Go_on s)"

definition count_space :: "lirc_t \<Rightarrow> analyser \<Rightarrow> analyser option" where
  "count_space data s =
     do { a \<leftarrow> udiv (word_of_int (an_average s) * count_spaces s + word_of_int data)
                   (count_spaces s + 1);
          Some (s\<lparr>an_average := sint a, count_spaces := count_spaces s + 1,
                  an_maxspace := (if data > an_maxspace s then data else an_maxspace s)\<rparr>) }"

definition gap_sample :: "bool \<Rightarrow> lirc_t \<Rightarrow> analyser \<Rightarrow> progress option" where
  "gap_sample force data s =
     (let s = s\<lparr>an_sum := i32 (an_sum s + (data AND PULSE_MASK))\<rparr>
      in if an_average s = 0 \<and> is_space data then
           (if data > 100000 then Some (Go_on (s\<lparr>an_sum := 0\<rparr>))
            else Some (limit_samples (s\<lparr>an_average := data, an_maxspace := data\<rparr>)))
         else if is_space data then
           (if is_gap data s then gap_seen force data s
            else map_option limit_samples (count_space data s))
         else Some (limit_samples s))"

section \<open>Collecting signals\<close>

definition long_signal_parts :: "nat \<Rightarrow> (hist \<times> nat) list" where
  "long_signal_parts n =
     (First_1lead, 0) #
     map (\<lambda>i. (if i mod 2 \<noteq> 0 then First_space else First_pulse, i)) [2..<n - 2] @
     [(First_trail, n - 2)]"

text \<open>A signal with a header, when it follows the start of a button press or differs in length
  from such a signal.\<close>

definition header_parts :: "analyser \<Rightarrow> (hist \<times> nat) list" where
  "header_parts s =
     (if an_first_signal s = 1 \<or>
         first_length s > 2 \<and> first_length s - 2 \<noteq> an_count s - 2
      then [(First_3lead, 2), (First_headerp, 0), (First_headers, 1)] else [])"

definition count_lengths :: "analyser \<Rightarrow> analyser option" where
  "count_lengths s =
     (if an_first_signal s = 1 then
        do { a \<leftarrow> signal_at 0 s;
             b \<leftarrow> signal_at 1 s;
             Some (s\<lparr>first_lengths := first_lengths s + 1, first_length := an_count s - 2,
                     an_header := i32 (a + b)\<rparr>) }
      else if an_first_signal s = 0 \<and> first_length s - 2 = an_count s - 2 then
        do { s \<leftarrow> bump (unat (an_count s - 2)) (- 1) s;
             s \<leftarrow> bump (unat (an_count s)) 1 s;
             Some (s\<lparr>second_lengths := second_lengths s + 1\<rparr>) }
      else Some s)"

definition long_signal :: "lirc_t \<Rightarrow> analyser \<Rightarrow> analyser option" where
  "long_signal data s =
     do { s \<leftarrow> Some (s\<lparr>count_signals := count_signals s + 1\<rparr>);
          s \<leftarrow> record_signals (long_signal_parts (unat (an_count s))) s;
          s \<leftarrow> bump (unat (an_count s - 2)) 1 s;
          s \<leftarrow> record_length First_signal_length (i32 (an_sum s - data)) s;
          s \<leftarrow> record_signals (header_parts s) s;
          count_lengths s }"

definition signal_complete :: "lirc_t \<Rightarrow> analyser \<Rightarrow> analyser option" where
  "signal_complete data s =
     do { s \<leftarrow> if an_count s = 4 then
                record_signals [(First_repeatp, 0), (First_repeats, 1), (First_trail, 2),
                                (First_repeat_gap, 3)]
                  (s\<lparr>count_3repeats := count_3repeats s + 1\<rparr>)
              else if an_count s = 6 then
                record_signals [(First_headerp, 0), (First_headers, 1), (First_repeatp, 2),
                                (First_repeats, 3), (First_trail, 4), (First_repeat_gap, 5)]
                  (s\<lparr>count_5repeats := count_5repeats s + 1\<rparr>)
              else if an_count s > 6 then long_signal data s
              else Some s;
          Some (s\<lparr>an_count := 0, an_sum := 0\<rparr>) }"

definition rest_gap :: "analyser \<Rightarrow> lirc_t" where
  "rest_gap s =
     (let g = gap (an_remote s); sm = word_of_int (an_sum s)
      in if is_const (an_remote s) then (if g > sm then sint (g - sm) else 0) else sint g)"

definition ends_signal :: "lirc_t \<Rightarrow> analyser \<Rightarrow> bool" where
  "ends_signal d s \<longleftrightarrow>
     an_count s > 2 \<and>
     (word_of_int d \<ge> word_of_int (an_remaining_gap s) * (100 - g_eps s) div 100 \<or>
      d \<ge> i32 (an_remaining_gap s - g_aeps s))"

text \<open>The gap is not longer than usual: the next signal repeats this one.\<close>

definition usual_gap :: "lirc_t \<Rightarrow> analyser \<Rightarrow> bool" where
  "usual_gap d s \<longleftrightarrow>
     (let g = i32 (an_remaining_gap s + an_header s)
      in word_of_int d \<le> word_of_int g * (100 + g_eps s) div 100 \<or> d \<le> i32 (g + g_aeps s))"

definition store_signal :: "lirc_t \<Rightarrow> analyser \<Rightarrow> analyser option" where
  "store_signal d s =
     (let i = unat (an_count s - 1)
      in if i < length (signals s) then Some (s\<lparr>signals := (signals s)[i := d]\<rparr>) else None)"

definition signal_sample :: "lirc_t \<Rightarrow> analyser \<Rightarrow> progress option" where
  "signal_sample data s =
     (let d = data AND PULSE_MASK
      in if an_count s > word_of_nat MAX_SIGNALS then Some (Finished False s)
         else do {
           s \<leftarrow> store_signal d s;
           s \<leftarrow> Some (s\<lparr>an_remaining_gap := rest_gap s, an_sum := i32 (an_sum s + d)\<rparr>);
           if ends_signal d s
           then do {
             s \<leftarrow> if is_space data then signal_complete data s else Some s;
             if count_signals s \<ge> SAMPLES
             then Some (Evaluate s)
             else Some (Go_on
               (if usual_gap d s then s\<lparr>an_first_signal := 0, an_header := 0\<rparr>
                else s\<lparr>an_first_signal := 1\<rparr>)) }
           else Some (Go_on s) })"

section \<open>The loop\<close>

definition analyse_sample :: "bool \<Rightarrow> lirc_t \<Rightarrow> analyser \<Rightarrow> progress option" where
  "analyse_sample force data s =
     (if data = 0 then Some (Finished False s)
      else
        let s = s\<lparr>an_count := an_count s + 1\<rparr>
        in case an_mode s of
             MODE_GAP \<Rightarrow> gap_sample force data s
           | MODE_HAVE_GAP \<Rightarrow> signal_sample data s)"

text \<open>The loop over samples that have been read, as far as it gets.\<close>

fun analyse_samples :: "bool \<Rightarrow> lirc_t list \<Rightarrow> analyser \<Rightarrow> progress option" where
  "analyse_samples force [] s = Some (Go_on s)"
| "analyse_samples force (d # ds) s =
     (case analyse_sample force d s of
        Some (Go_on s) \<Rightarrow> analyse_samples force ds s
      | res \<Rightarrow> res)"

definition init_analyser :: "u32 \<Rightarrow> lirc_t \<Rightarrow> ir_remote \<Rightarrow> analyser" where
  "init_analyser e ae r =
     \<lparr>g_eps = e, g_aeps = ae, hists = (\<lambda>_. []), length_counts = replicate MAX_SIGNALS 0,
      first_length = 0, first_lengths = 0, second_lengths = 0, count_spaces = 0,
      count_3repeats = 0, count_5repeats = 0, count_signals = 0,
      signals = replicate MAX_SIGNALS 0, an_remote = r, an_count = 0, an_mode = MODE_GAP,
      an_average = 0, an_maxspace = 0, an_sum = 0, an_remaining_gap = 0, an_header = 0,
      an_first_signal = - 1\<rparr>"

partial_function (option) get_lengths_loop ::
  "('h \<Rightarrow> (lirc_t \<times> 'h) option) \<Rightarrow> hardware \<Rightarrow> bool \<Rightarrow> analyser \<Rightarrow> 'h
     \<Rightarrow> (bool \<times> analyser \<times> 'h) option option" where
  "get_lengths_loop rd h force s w =
     (case rd w of
        None \<Rightarrow> Some None
      | Some (data, w) \<Rightarrow>
          (case analyse_sample force data s of
             None \<Rightarrow> Some None
           | Some (Finished ok s) \<Rightarrow> Some (Some (ok, s, w))
           | Some (Evaluate s) \<Rightarrow> Some (map_option (\<lambda>(ok, s). (ok, s, w)) (evaluate_lengths h s))
           | Some (Go_on s) \<Rightarrow> get_lengths_loop rd h force s w))"

declare get_lengths_loop.simps [code]

text \<open>The return value, the remote and what is left of the samples; the histograms are freed.\<close>

definition get_lengths ::
  "('h \<Rightarrow> (lirc_t \<times> 'h) option) \<Rightarrow> hardware \<Rightarrow> u32 \<Rightarrow> lirc_t \<Rightarrow> bool \<Rightarrow> ir_remote \<Rightarrow> 'h
     \<Rightarrow> (bool \<times> ir_remote \<times> 'h) option option" where
  "get_lengths rd h e ae force r w =
     map_option (map_option (\<lambda>(ok, s, w). (ok, an_remote s, w)))
       (get_lengths_loop rd h force (init_analyser e ae r) w)"

end
