(* ===== verification/RecPartition.thy ===== *)
theory RecPartition
  imports RecScheme "HOL-Library.Multiset"
begin

text \<open>
  What the histograms of \<open>RecScheme\<close> stand for: a partition of the recorded lengths into classes,
  each with the number, the sum, the minimum and the maximum of its lengths. Adding a length
  adds it to one class, merging keeps every length, and the mean and the most frequent class
  are those of the lengths.
\<close>

section \<open>Classes and partitions\<close>

definition class_of :: "lengths \<Rightarrow> int multiset \<Rightarrow> bool" where
  "class_of l M \<longleftrightarrow>
     M \<noteq> {#} \<and> uint (l_count l) = int (size M) \<and> l_sum l = sum_mset M \<and>
     l_min l = Min (set_mset M) \<and> l_max l = Max (set_mset M)"

definition partitions :: "lengths list \<Rightarrow> int multiset list \<Rightarrow> bool" where
  "partitions ls Ms \<longleftrightarrow> list_all2 class_of ls Ms"

text \<open>Lengths whose number and sum stay in 31 bits.\<close>

definition countable_lengths :: "int multiset \<Rightarrow> bool" where
  "countable_lengths M \<longleftrightarrow>
     (\<forall>x \<in># M. 0 \<le> x) \<and> sum_mset M < 2147483648 \<and> size M < 2147483648"

lemma sum_mset_nonneg_int: "\<forall>x \<in># M. 0 \<le> x \<Longrightarrow> 0 \<le> sum_mset (M :: int multiset)"
  by (induction M) auto

lemma countable_union:
  "countable_lengths (M + N) \<Longrightarrow> countable_lengths M \<and> countable_lengths N"
  using sum_mset_nonneg_int [of M] sum_mset_nonneg_int [of N] by (auto simp: countable_lengths_def)

lemma countable_sub: "countable_lengths N \<Longrightarrow> M \<subseteq># N \<Longrightarrow> countable_lengths M"
  using countable_union [of M "N - M"] by simp

lemma member_le_sum:
  assumes "\<forall>x \<in># M. 0 \<le> x" "x \<in># M"
  shows "x \<le> sum_mset (M :: int multiset)"
proof -
  obtain N where M: "M = add_mset x N"
    using assms(2) by (blast dest: multi_member_split)
  then show ?thesis
    using sum_mset_nonneg_int [of N] assms(1) by simp
qed

lemma countable_element: "countable_lengths M \<Longrightarrow> x \<in># M \<Longrightarrow> 0 \<le> x \<and> x < 2147483648"
  using member_le_sum [of M x] by (auto simp: countable_lengths_def)

lemma class_elements:
  "class_of l M \<Longrightarrow> x \<in># M \<Longrightarrow> l_min l \<le> x \<and> x \<le> l_max l"
  by (auto simp: class_of_def)

section \<open>Adding\<close>

lemma new_length_class:
  "0 \<le> x \<Longrightarrow> class_of (new_length x) {#x#}"
  by (simp add: class_of_def new_length_def)

lemma uint_plus_one: "uint (c :: u32) < 4294967295 \<Longrightarrow> uint (c + 1) = uint c + 1"
  by (simp add: uint_word_ariths)

lemma count_length_class:
  assumes c: "class_of l M" and n: "countable_lengths (add_mset x M)"
  shows "class_of (count_length x l) (add_mset x M)"
proof -
  have x: "0 \<le> x" "sum_mset M + x < 2147483648" "int (size M) + 1 < 2147483648" "0 \<le> sum_mset M"
    using n sum_mset_nonneg_int [of M] by (auto simp: countable_lengths_def)
  have ne: "set_mset M \<noteq> {}" using c by (auto simp: class_of_def)
  have "uint (l_count l + 1) = int (size M) + 1"
    using c x by (simp add: class_of_def uint_plus_one)
  moreover have "i32 (sum_mset M + x) = sum_mset M + x"
    using x by (intro i32_id i32_range_nonneg) auto
  moreover have "l_min (count_length x l) = min x (l_min l)" "l_max (count_length x l) = max x (l_max l)"
    by (auto simp: count_length_def min_def max_def)
  moreover have "Min (insert x (set_mset M)) = min x (Min (set_mset M))"
    "Max (insert x (set_mset M)) = max x (Max (set_mset M))"
    using ne by auto
  ultimately show ?thesis
    using c by (simp add: class_of_def count_length_def add.commute)
qed

lemma add_length_partitions:
  assumes "partitions ls Ms" "countable_lengths (add_mset x (sum_list Ms))"
  shows "\<exists>Ns. partitions (add_length x ls) Ns \<and> sum_list Ns = add_mset x (sum_list Ms)"
  using assms
proof (induction ls arbitrary: Ms)
  case Nil
  then have "partitions [new_length x] [{#x#}]"
    by (auto simp: partitions_def countable_lengths_def intro: new_length_class)
  then show ?case using Nil by (auto simp: partitions_def)
next
  case (Cons l ls)
  then obtain M Ns where Ms: "Ms = M # Ns" "class_of l M" "partitions ls Ns"
    by (auto simp: partitions_def list_all2_Cons1)
  have u: "countable_lengths (add_mset x M)" "countable_lengths (add_mset x (sum_list Ns))"
    using countable_sub [OF Cons.prems(2)] Ms(1) by auto
  show ?case
  proof (cases "in_class x l")
    case True
    then have "partitions (add_length x (l # ls)) (add_mset x M # Ns)"
      using count_length_class [OF Ms(2) u(1)] Ms(3) by (simp add: partitions_def)
    then show ?thesis using Ms(1) by force
  next
    case False
    obtain Ks where "partitions (add_length x ls) Ks" "sum_list Ks = add_mset x (sum_list Ns)"
      using Cons.IH [OF Ms(3) u(2)] by auto
    then have "partitions (add_length x (l # ls)) (M # Ks)" "sum_list (M # Ks) = add_mset x (sum_list Ms)"
      using Ms False by (auto simp: partitions_def)
    then show ?thesis by blast
  qed
qed

section \<open>Merging\<close>

lemma merge_two_class:
  assumes "class_of l M" "class_of i N" and n: "countable_lengths (M + N)"
  shows "class_of (merge_two l i) (M + N)"
proof -
  have x: "sum_mset M + sum_mset N < 2147483648" "int (size M) + int (size N) < 2147483648"
    "0 \<le> sum_mset M" "0 \<le> sum_mset N"
    using n sum_mset_nonneg_int [of M] sum_mset_nonneg_int [of N] by (auto simp: countable_lengths_def)
  have ne: "set_mset M \<noteq> {}" "set_mset N \<noteq> {}" using assms by (auto simp: class_of_def)
  have "uint (l_count l + l_count i) = int (size M) + int (size N)"
    using assms(1,2) x by (simp add: class_of_def uint_word_ariths)
  moreover have "i32 (sum_mset M + sum_mset N) = sum_mset M + sum_mset N"
    using x by (intro i32_id i32_range_nonneg) auto
  moreover have "l_min (merge_two l i) = min (l_min l) (l_min i)"
    "l_max (merge_two l i) = max (l_max l) (l_max i)"
    by (auto simp: merge_two_def min_def max_def)
  moreover have "Min (set_mset M \<union> set_mset N) = min (Min (set_mset M)) (Min (set_mset N))"
    "Max (set_mset M \<union> set_mset N) = max (Max (set_mset M)) (Max (set_mset N))"
    using ne by (auto intro: Min_Un Max_Un)
  ultimately show ?thesis
    using assms(1,2) by (simp add: class_of_def merge_two_def del: Min.bounded_iff Max.bounded_iff)
qed

lemma mergeable_Some:
  assumes "class_of l M" "class_of i N" "countable_lengths (M + N)"
  shows "\<exists>b. mergeable e ae l i = Some b"
proof -
  have "uint (l_count l + l_count i) = int (size M) + int (size N)"
    using assms by (simp add: class_of_def countable_lengths_def uint_word_ariths)
  moreover have "M \<noteq> {#}" using assms(1) by (simp add: class_of_def)
  ultimately have "l_count l + l_count i \<noteq> 0"
    by (metis add_eq_0_iff_both_eq_0 of_nat_0_eq_iff of_nat_0_le_iff size_eq_0_iff_empty uint_0_eq
        add_nonneg_eq_0_iff)
  then show ?thesis by (simp add: mergeable_def)
qed

lemma merge_into_partitions:
  assumes "class_of l M" "partitions ls Ms" "countable_lengths (M + sum_list Ms)"
  shows "\<exists>l' ls' N Ns. merge_into e ae l ls = Some (l', ls') \<and> class_of l' N \<and> partitions ls' Ns \<and>
    N + sum_list Ns = M + sum_list Ms"
  using assms
proof (induction ls arbitrary: l M Ms)
  case Nil
  then show ?case by (auto simp: partitions_def)
next
  case (Cons i ls)
  then obtain N Ns where Ms: "Ms = N # Ns" "class_of i N" "partitions ls Ns"
    by (auto simp: partitions_def list_all2_Cons1)
  have u: "countable_lengths (M + N)" "countable_lengths (M + N + sum_list Ns)"
    "countable_lengths (M + sum_list Ns)"
    using countable_sub [OF Cons.prems(3)] Ms(1) by (auto simp: ac_simps)
  obtain b where b: "mergeable e ae l i = Some b"
    using mergeable_Some [OF Cons.prems(1) Ms(2) u(1)] by blast
  show ?case
  proof (cases b)
    case True
    then show ?thesis
      using Cons.IH [OF merge_two_class [OF Cons.prems(1) Ms(2) u(1)] Ms(3) u(2)] b Ms(1)
      by (simp add: add.assoc)
  next
    case False
    obtain l' ls' K Ks where k: "merge_into e ae l ls = Some (l', ls')" "class_of l' K"
      "partitions ls' Ks" "K + sum_list Ks = M + sum_list Ns"
      using Cons.IH [OF Cons.prems(1) Ms(3) u(3)] by blast
    then have "merge_into e ae l (i # ls) = Some (l', i # ls')" "partitions (i # ls') (N # Ks)"
      "K + sum_list (N # Ks) = M + sum_list Ms"
      using b False Ms(1,2) by (auto simp: partitions_def ac_simps)
    then show ?thesis using k(2) by blast
  qed
qed

lemma merge_lengths_partitions:
  assumes "partitions ls Ms" "countable_lengths (sum_list Ms)"
  shows "\<exists>ls' Ns. merge_lengths e ae ls = Some ls' \<and> partitions ls' Ns \<and> sum_list Ns = sum_list Ms"
  using assms
proof (induction "length ls" arbitrary: ls Ms rule: less_induct)
  case less
  show ?case
  proof (cases ls)
    case Nil
    then show ?thesis using less.prems by (auto simp: partitions_def)
  next
    case (Cons l ks)
    then obtain M Ns where Ms: "Ms = M # Ns" "class_of l M" "partitions ks Ns"
      using less.prems by (auto simp: partitions_def list_all2_Cons1)
    obtain l' ls' K Ks where k: "merge_into e ae l ks = Some (l', ls')" "class_of l' K"
      "partitions ls' Ks" "K + sum_list Ks = M + sum_list Ns"
      using merge_into_partitions [OF Ms(2,3)] less.prems(2) Ms(1) by fastforce
    have "length ls' < length ls"
      using merge_into_length [OF k(1)] Cons by simp
    moreover have "countable_lengths (sum_list Ks)"
      using countable_union [of K "sum_list Ks"] k(4) less.prems(2) Ms(1) by simp
    ultimately obtain rs Rs where r: "merge_lengths e ae ls' = Some rs" "partitions rs Rs"
      "sum_list Rs = sum_list Ks"
      using less.hyps k(3) by blast
    then have "merge_lengths e ae ls = Some (l' # rs)" "partitions (l' # rs) (K # Rs)"
      "sum_list (K # Rs) = sum_list Ms"
      using Cons k Ms(1) by (auto simp: partitions_def)
    then show ?thesis by blast
  qed
qed

section \<open>Recording\<close>

definition record_all :: "u32 \<Rightarrow> lirc_t \<Rightarrow> lirc_t list \<Rightarrow> lengths list \<Rightarrow> lengths list option" where
  "record_all e ae xs ls = fold (\<lambda>x res. Option.bind res (add_merge e ae x)) xs (Some ls)"

lemma record_all_simps [simp]:
  "record_all e ae [] ls = Some ls"
  "record_all e ae (x # xs) ls = Option.bind (add_merge e ae x ls) (record_all e ae xs)"
proof -
  have n: "fold (\<lambda>x res. Option.bind res (add_merge e ae x)) ys None = None" for ys
    by (induction ys) auto
  show "record_all e ae [] ls = Some ls"
    by (simp add: record_all_def)
  show "record_all e ae (x # xs) ls = Option.bind (add_merge e ae x ls) (record_all e ae xs)"
    by (cases "add_merge e ae x ls") (simp_all add: record_all_def [abs_def] n)
qed

lemma add_merge_partitions:
  assumes "partitions ls Ms" "countable_lengths (add_mset x (sum_list Ms))"
  shows "\<exists>ls' Ns. add_merge e ae x ls = Some ls' \<and> partitions ls' Ns \<and>
    sum_list Ns = add_mset x (sum_list Ms)"
  using add_length_partitions [OF assms] merge_lengths_partitions assms(2)
  unfolding add_merge_def by metis

lemma record_all_partitions:
  assumes "partitions ls Ms" "countable_lengths (mset xs + sum_list Ms)"
  shows "\<exists>ls' Ns. record_all e ae xs ls = Some ls' \<and> partitions ls' Ns \<and>
    sum_list Ns = mset xs + sum_list Ms"
  using assms
proof (induction xs arbitrary: ls Ms)
  case Nil
  then show ?case by auto
next
  case (Cons x xs)
  have "countable_lengths (add_mset x (sum_list Ms))"
    using countable_sub [OF Cons.prems(2)] by simp
  from add_merge_partitions [OF Cons.prems(1) this, of e ae]
  obtain ks Ks where k: "add_merge e ae x ls = Some ks" "partitions ks Ks"
    "sum_list Ks = add_mset x (sum_list Ms)"
    by blast
  have "countable_lengths (mset xs + sum_list Ks)"
    using Cons.prems(2) k(3) by simp
  from Cons.IH [OF k(2) this] show ?case
    using k by auto
qed

section \<open>The most frequent class and its mean\<close>

definition count_sum :: "lengths list \<Rightarrow> int" where
  "count_sum ls = sum_list (map (\<lambda>l. uint (l_count l)) ls)"

lemma count_sum_Cons [simp]: "count_sum (l # ls) = uint (l_count l) + count_sum ls"
  by (simp add: count_sum_def)

lemma count_sum_Nil [simp]: "count_sum [] = 0"
  by (simp add: count_sum_def)

lemma count_sum_nonneg [simp]: "0 \<le> count_sum ls"
  by (induction ls) auto

lemma count_sum_append [simp]: "count_sum (xs @ ys) = count_sum xs + count_sum ys"
  by (simp add: count_sum_def)

text \<open>\<open>pre\<close> is the part of the list that has been scanned, \<open>best\<close> the index of its best class.\<close>

definition best_of :: "lengths list \<Rightarrow> nat \<Rightarrow> bool" where
  "best_of ls i \<longleftrightarrow> i < length ls \<and> (\<forall>l \<in> set ls. l_count l \<le> l_count (ls ! i))"

lemma best_of_snoc:
  assumes "best_of pre b"
  shows "best_of (pre @ [l]) (if l_count l > l_count (pre ! b) then length pre else b)"
  using assms unfolding best_of_def by (auto simp: nth_append dest: order.strict_implies_order)

lemma max_scan_best:
  assumes "best_of pre b" "uint sm = count_sum pre" "count_sum pre + count_sum ls < 2147483648"
  shows "\<exists>i sm'. max_scan ls (length pre) b (l_count (pre ! b)) sm = (i, sm') \<and>
    best_of (pre @ ls) i \<and> uint sm' = count_sum (pre @ ls)"
  using assms
proof (induction ls arbitrary: pre b sm)
  case Nil
  then show ?case by simp
next
  case (Cons l ls)
  let ?b = "if l_count l > l_count (pre ! b) then length pre else b"
  have sm: "uint (sm + l_count l) = count_sum (pre @ [l])"
  proof -
    have "0 \<le> count_sum pre + uint (l_count l)" "count_sum pre + uint (l_count l) < 4294967296"
      using Cons.prems(3) count_sum_nonneg [of ls] count_sum_nonneg [of pre] uint_ge_0 [of "l_count l"]
      unfolding count_sum_Cons by linarith+
    then show ?thesis
      using Cons.prems(2) by (simp add: uint_word_ariths)
  qed
  have "\<exists>i sm'. max_scan ls (length (pre @ [l])) ?b (l_count ((pre @ [l]) ! ?b)) (sm + l_count l) = (i, sm') \<and>
      best_of ((pre @ [l]) @ ls) i \<and> uint sm' = count_sum ((pre @ [l]) @ ls)"
    using Cons.prems(3) by (intro Cons.IH [OF best_of_snoc [OF Cons.prems(1)] sm]) simp
  moreover have "max_scan (l # ls) (length pre) b (l_count (pre ! b)) sm =
      max_scan ls (length (pre @ [l])) ?b (l_count ((pre @ [l]) ! ?b)) (sm + l_count l)"
    using Cons.prems(1) by (simp add: best_of_def nth_append)
  ultimately show ?case by simp
qed

lemma get_max_length_best:
  assumes "ls \<noteq> []" "count_sum ls < 2147483648"
  shows "\<exists>i sm. get_max_length ls = Some (i, sm) \<and> best_of ls i \<and> uint sm = count_sum ls"
proof -
  obtain l ks where ls: "ls = l # ks" using assms(1) by (cases ls) auto
  have "best_of [l] 0" by (simp add: best_of_def)
  from max_scan_best [OF this, of "l_count l" ks] show ?thesis
    using assms(2) by (auto simp: ls get_max_length_def)
qed

lemma partition_counts:
  "partitions ls Ms \<Longrightarrow> count_sum ls = int (size (sum_list Ms))"
  unfolding partitions_def by (induction rule: list_all2_induct) (simp_all add: class_of_def)

lemma class_mean:
  assumes "class_of l M" "countable_lengths M"
  shows "calc_signal l = Some (sum_mset M div int (size M))"
proof -
  have M: "0 \<le> sum_mset M" "sum_mset M < 2147483648" "0 < size M" "l_count l \<noteq> 0"
    using assms sum_mset_nonneg_int [of M]
    by (auto simp: countable_lengths_def class_of_def nonempty_has_size)
  have q: "uint (word_of_int (sum_mset M) div l_count l) = sum_mset M div int (size M)"
    using assms(1) M(1,2) by (simp add: class_of_def uint_div uint_word_of_int)
  moreover have "0 \<le> sum_mset M div int (size M)" "sum_mset M div int (size M) \<le> sum_mset M"
    using M zdiv_mono2 [of "sum_mset M" 1 "int (size M)"] by (simp_all add: pos_imp_zdiv_nonneg_iff)
  ultimately have "sint (word_of_int (sum_mset M) div l_count l) = sum_mset M div int (size M)"
    using M(2) by (simp add: sint32_small)
  then show ?thesis
    using M(4) assms(1) by (simp add: calc_signal_def class_of_def)
qed

text \<open>Everything at once, for the lists \<open>get_lengths\<close> builds.\<close>

lemma recorded_classes:
  assumes "\<forall>x \<in> set xs. 0 \<le> x" "sum_list xs < 2147483648" "length xs < 2147483648" "xs \<noteq> []"
  shows "\<exists>ls Ms i. record_all e ae xs [] = Some ls \<and> list_all2 class_of ls Ms \<and>
    sum_list Ms = mset xs \<and> get_max_length ls = Some (i, word_of_nat (length xs)) \<and>
    i < length Ms \<and> (\<forall>M \<in> set Ms. size M \<le> size (Ms ! i)) \<and>
    calc_signal (ls ! i) = Some (sum_mset (Ms ! i) div int (size (Ms ! i)))"
proof -
  have c: "countable_lengths (mset xs)"
    using assms by (simp add: countable_lengths_def sum_mset_sum_list)
  have "partitions [] []" by (simp add: partitions_def)
  from record_all_partitions [OF this, of xs e ae]
  obtain ls Ms where r: "record_all e ae xs [] = Some ls" "partitions ls Ms" "sum_list Ms = mset xs"
    using c by auto
  have n: "count_sum ls = int (length xs)"
    using partition_counts [OF r(2)] r(3) by simp
  have "ls \<noteq> []"
    using n assms(4) by auto
  then obtain i sm where m: "get_max_length ls = Some (i, sm)" "best_of ls i" "uint sm = int (length xs)"
    using get_max_length_best [of ls] n assms(3) by auto
  have len: "length ls = length Ms" using r(2) by (simp add: partitions_def list_all2_lengthD)
  have i: "i < length ls" using m(2) by (simp add: best_of_def)
  have cl: "class_of (ls ! j) (Ms ! j)" if "j < length ls" for j
    using r(2) that by (simp add: partitions_def list_all2_nthD)
  have "size M \<le> size (Ms ! i)" if M: "M \<in> set Ms" for M
  proof -
    obtain j where j: "j < length ls" "M = Ms ! j" using M len by (auto simp: in_set_conv_nth)
    then have "uint (l_count (ls ! j)) \<le> uint (l_count (ls ! i))"
      using m(2) by (auto simp: best_of_def word_le_def)
    then show ?thesis using cl [OF j(1)] cl [OF i] j(2) by (simp add: class_of_def)
  qed
  moreover have "calc_signal (ls ! i) = Some (sum_mset (Ms ! i) div int (size (Ms ! i)))"
  proof (rule class_mean [OF cl [OF i]])
    have "Ms ! i \<subseteq># sum_list Ms"
      using i len by (metis in_set_conv_nth mset_subset_eq_add_left split_list sum_list.append
          sum_list.Cons add.left_commute)
    then show "countable_lengths (Ms ! i)"
      using countable_sub c r(3) by simp
  qed
  moreover have "sm = word_of_nat (length xs)"
    using m(3) by (metis of_int_of_nat_eq word_of_int_uint)
  ultimately show ?thesis
    using r m i len unfolding partitions_def
    by (intro exI [of _ ls] exI [of _ Ms] exI [of _ i]) auto
qed

section \<open>When classes are merged\<close>

lemma word_le_of_int:
  "0 \<le> a \<Longrightarrow> a < 4294967296 \<Longrightarrow> 0 \<le> b \<Longrightarrow> b < 4294967296 \<Longrightarrow>
    (word_of_int a :: u32) \<le> word_of_int b \<longleftrightarrow> a \<le> b"
  by (simp add: word_le_def uint_word_of_int)

lemma size_times_min:
  "\<forall>x \<in># M. m \<le> x \<Longrightarrow> int (size M) * m \<le> sum_mset (M :: int multiset)"
  by (induction M) (auto simp: algebra_simps)

lemma sum_times_max:
  "\<forall>x \<in># M. x \<le> m \<Longrightarrow> sum_mset (M :: int multiset) \<le> int (size M) * m"
  by (induction M) (auto simp: algebra_simps)

definition mean :: "int multiset \<Rightarrow> int" where
  "mean M = sum_mset M div int (size M)"

lemma mean_at_least:
  assumes "M \<noteq> {#}" "\<forall>x \<in># M. m \<le> x"
  shows "m \<le> mean M"
proof -
  have n: "0 < int (size M)" using assms(1) by (simp add: nonempty_has_size)
  have "(int (size M) * m) div int (size M) \<le> mean M"
    unfolding mean_def using size_times_min [OF assms(2)] n by (intro zdiv_mono1)
  moreover have "(int (size M) * m) div int (size M) = m"
    using n by (intro nonzero_mult_div_cancel_left) linarith
  ultimately show ?thesis by linarith
qed

lemma mean_at_most:
  assumes "M \<noteq> {#}" "\<forall>x \<in># M. x \<le> m"
  shows "mean M \<le> m"
proof -
  have n: "0 < int (size M)" using assms(1) by (simp add: nonempty_has_size)
  have "mean M \<le> (int (size M) * m) div int (size M)"
    unfolding mean_def using sum_times_max [OF assms(2)] n by (intro zdiv_mono1)
  moreover have "(int (size M) * m) div int (size M) = m"
    using n by (intro nonzero_mult_div_cancel_left) linarith
  ultimately show ?thesis by linarith
qed

lemma class_range:
  assumes "class_of l M"
  shows "l_min l \<in># M" "l_max l \<in># M"
  using assms Min_in [of "set_mset M"] Max_in [of "set_mset M"] by (auto simp: class_of_def)

lemma within_abs_class:
  assumes c: "class_of l M" and b: "\<forall>x \<in># M. 0 \<le> x \<and> x < 16777216"
    and q: "0 \<le> q" "q < 16777216" and ae: "0 \<le> ae" "ae < 16777216"
  shows "within_abs ae (word_of_int q) l \<longleftrightarrow> (\<forall>x \<in># M. \<bar>x - q\<bar> \<le> ae)"
proof -
  have r: "0 \<le> l_min l" "l_min l < 16777216" "0 \<le> l_max l" "l_max l < 16777216"
    using class_range [OF c] b by auto
  have "(word_of_int q :: u32) + word_of_int ae = word_of_int (q + ae)" by simp
  then have "within_abs ae (word_of_int q) l \<longleftrightarrow> l_max l \<le> q + ae \<and> q \<le> l_min l + ae"
    using r q ae by (simp add: within_abs_def word_le_of_int i32_range_nonneg del: of_int_add)
  also have "\<dots> \<longleftrightarrow> (\<forall>x \<in># M. \<bar>x - q\<bar> \<le> ae)"
  proof
    show "\<forall>x \<in># M. \<bar>x - q\<bar> \<le> ae" if "l_max l \<le> q + ae \<and> q \<le> l_min l + ae"
      using that class_elements [OF c] by fastforce
    show "l_max l \<le> q + ae \<and> q \<le> l_min l + ae" if "\<forall>x \<in># M. \<bar>x - q\<bar> \<le> ae"
      using that class_range [OF c] by force
  qed
  finally show ?thesis .
qed

lemma within_rel_class:
  assumes c: "class_of l M" and b: "\<forall>x \<in># M. 0 \<le> x \<and> x < 16777216"
    and q: "0 \<le> q" "q < 16777216" and e: "e \<le> 98" and w: "within_rel e (word_of_int q) l"
  shows "2 * q \<le> l_min l" "q = 0 \<Longrightarrow> l_max l = 0"
proof -
  have r: "0 \<le> l_min l" "l_min l < 16777216" "0 \<le> l_max l" "l_max l < 16777216"
    using class_range [OF c] b by auto
  have ue: "uint e \<le> 98" using e by (simp add: word_le_def)
  have "q * (100 - uint e) < 16777216 * 101"
  proof (rule mult_strict_mono)
    show "100 - uint e < 101" using uint_ge_0 [of e] by linarith
  qed (use q ue in auto)
  moreover have "0 \<le> q * (100 - uint e)" using q ue by simp
  moreover have "(word_of_int q :: u32) * (100 - e) = word_of_int (q * (100 - uint e))"
    by simp
  ultimately have "q * (100 - uint e) \<le> l_min l"
    using w r by (simp add: within_rel_def word_le_of_int del: of_int_mult of_int_diff)
  moreover have "q * 2 \<le> q * (100 - uint e)" using ue q by (intro mult_left_mono) auto
  ultimately show "2 * q \<le> l_min l" by simp
  show "l_max l = 0" if "q = 0"
  proof -
    have "(word_of_int (l_max l) :: u32) \<le> word_of_int 0"
      using w that by (simp add: within_rel_def)
    then show ?thesis using r word_le_of_int [of "l_max l" 0] by simp
  qed
qed

text \<open>The relative tolerance never decides: two classes are merged exactly when all their
  lengths are within \<open>aeps\<close> of their mean.\<close>

lemma mergeable_abs:
  assumes c: "class_of l M" "class_of i N" and n: "countable_lengths (M + N)"
    and b: "\<forall>x \<in># M + N. x < 16777216" and e: "e \<le> 98" and ae: "0 \<le> ae" "ae < 16777216"
  shows "mergeable e ae l i = Some (\<forall>x \<in># M + N. \<bar>x - mean (M + N)\<bar> \<le> ae)"
proof -
  let ?q = "mean (M + N)"
  have nn: "\<forall>x \<in># M + N. 0 \<le> x \<and> x < 16777216" "\<forall>x \<in># M. 0 \<le> x \<and> x < 16777216"
    "\<forall>x \<in># N. 0 \<le> x \<and> x < 16777216"
    using b n by (auto simp: countable_lengths_def)
  have ne: "M + N \<noteq> {#}" "M \<noteq> {#}" "N \<noteq> {#}" using c by (auto simp: class_of_def)
  have "\<forall>x \<in># M + N. x \<le> 16777215"
  proof
    fix x assume "x \<in># M + N"
    then have "x < 16777216" using nn(1) by blast
    then show "x \<le> 16777215" by simp
  qed
  moreover have "\<forall>x \<in># M + N. 0 \<le> x" using nn(1) by blast
  ultimately have q: "0 \<le> ?q" "?q < 16777216"
    using mean_at_least [OF ne(1), of 0] mean_at_most [OF ne(1), of 16777215] by linarith+
  have cl: "class_of (merge_two l i) (M + N)" by (rule merge_two_class [OF c n])
  have u: "uint (l_count l + l_count i) = int (size (M + N))"
    using cl by (simp add: class_of_def merge_two_def)
  then have z: "l_count l + l_count i \<noteq> 0"
    using ne(1) by (metis of_nat_0_eq_iff size_eq_0_iff_empty uint_0_eq)
  have s: "0 \<le> sum_mset (M + N)" "sum_mset (M + N) < 2147483648"
    using n sum_mset_nonneg_int [of "M + N"] by (auto simp: countable_lengths_def)
  have "uint ((word_of_int (l_sum l) + word_of_int (l_sum i)) div (l_count l + l_count i)) = ?q"
    using c s u by (simp add: class_of_def uint_div uint_word_of_int mean_def flip: of_int_add)
  then have d: "(word_of_int (l_sum l) + word_of_int (l_sum i)) div (l_count l + l_count i) = (word_of_int ?q :: u32)"
    by (metis word_of_int_uint)
  have abs: "within_abs ae (word_of_int ?q) l \<and> within_abs ae (word_of_int ?q) i \<longleftrightarrow>
      (\<forall>x \<in># M + N. \<bar>x - ?q\<bar> \<le> ae)"
    using within_abs_class [OF c(1) nn(2) q ae] within_abs_class [OF c(2) nn(3) q ae] by auto
  have rel: "\<forall>x \<in># M + N. \<bar>x - ?q\<bar> \<le> ae"
    if w: "within_rel e (word_of_int ?q) l" "within_rel e (word_of_int ?q) i"
  proof -
    note R = within_rel_class [OF c(1) nn(2) q e w(1)] within_rel_class [OF c(2) nn(3) q e w(2)]
    have "2 * ?q \<le> ?q"
      using R(1,3) class_elements [OF c(1)] class_elements [OF c(2)]
      by (intro mean_at_least [OF ne(1)]) (auto intro: order_trans)
    then have "?q = 0" using q by simp
    then have m: "l_max l = 0" "l_max i = 0" using R(2,4) by auto
    have all0: "x = 0" if x: "x \<in># M + N" for x
    proof -
      have "x \<le> 0"
        using x m class_elements [OF c(1), of x] class_elements [OF c(2), of x] by auto
      moreover have "0 \<le> x" using nn(1) x by blast
      ultimately show ?thesis by simp
    qed
    show ?thesis
    proof
      fix x assume "x \<in># M + N"
      then show "\<bar>x - ?q\<bar> \<le> ae" using all0 [of x] \<open>?q = 0\<close> ae(1) by simp
    qed
  qed
  show ?thesis
    using abs rel z by (auto simp: mergeable_def d)
qed

section \<open>Properties\<close>

text \<open>C30: Recording any lengths gives a partition of them into classes: every class has the
  number, the sum, the minimum and the maximum of its lengths, no length is lost or counted twice.
  \<open>get_max_length\<close> finds a largest class and the number of all lengths, and
  \<open>calc_signal\<close> gives the mean of the lengths of that class.\<close>

theorem lengths_are_partitioned:
  assumes "\<forall>x \<in> set xs. 0 \<le> x" "sum_list xs < 2147483648" "length xs < 2147483648" "xs \<noteq> []"
  shows "\<exists>ls Ms i. record_all e ae xs [] = Some ls \<and> list_all2 class_of ls Ms \<and>
    sum_list Ms = mset xs \<and> get_max_length ls = Some (i, word_of_nat (length xs)) \<and>
    i < length Ms \<and> (\<forall>M \<in> set Ms. size M \<le> size (Ms ! i)) \<and>
    calc_signal (ls ! i) = Some (sum_mset (Ms ! i) div int (size (Ms ! i)))"
  by (rule recorded_classes [OF assms])

lemma lengths_are_partitioned_witness:
  "\<exists>ls Ms i. record_all 30 100 [600, 1700, 640] [] = Some ls \<and> list_all2 class_of ls Ms \<and>
    sum_list Ms = mset [600, 1700, 640] \<and>
    get_max_length ls = Some (i, word_of_nat (length [600, 1700, 640 :: int])) \<and>
    i < length Ms \<and> (\<forall>M \<in> set Ms. size M \<le> size (Ms ! i)) \<and>
    calc_signal (ls ! i) = Some (sum_mset (Ms ! i) div int (size (Ms ! i)))"
  by (rule lengths_are_partitioned) simp_all

text \<open>\<open>merge_lengths\<close> merges two classes exactly when all their lengths are within
  \<open>aeps\<close> of their common mean. The relative tolerance, which the code tests as well, never
  decides: its comparison lacks the division by 100 and holds only for lengths of zero.\<close>

theorem merging_is_absolute:
  assumes "class_of l M" "class_of i N" "countable_lengths (M + N)"
    "\<forall>x \<in># M + N. x < 16777216" "e \<le> 98" "0 \<le> ae" "ae < 16777216"
  shows "mergeable e ae l i = Some (\<forall>x \<in># M + N. \<bar>x - mean (M + N)\<bar> \<le> ae)"
  by (rule mergeable_abs [OF assms])

lemma merging_is_absolute_witness:
  "mergeable 30 100 (new_length 1000) (new_length 1250) = Some False \<and>
   \<not> (\<forall>x \<in># {#1000#} + {#1250#}. \<bar>x - mean ({#1000#} + {#1250#})\<bar> \<le> 100)"
proof -
  have "mergeable 30 100 (new_length 1000) (new_length 1250) =
      Some (\<forall>x \<in># {#1000#} + {#1250#}. \<bar>x - mean ({#1000#} + {#1250#})\<bar> \<le> 100)"
    by (rule merging_is_absolute)
      (auto simp: class_of_def new_length_def countable_lengths_def)
  then show ?thesis by (simp add: mean_def)
qed

end
