(* ===== verification/RecSafety.thy ===== *)
theory RecSafety
  imports RecAnalyse RecPartition
begin

text \<open>
  The analysis of recorded samples never faults: whatever samples arrive, it stays within the
  arrays \<open>signals\<close> and \<open>lengths\<close>, never divides by a count of zero and finds the lists it
  dereferences filled. Only the number of bits of a biphase remote can divide by zero.
\<close>

section \<open>Histograms\<close>

definition good :: "int \<Rightarrow> lengths list \<Rightarrow> bool" where
  "good n ls \<longleftrightarrow> (\<forall>l \<in> set ls. l_count l \<noteq> 0) \<and> count_sum ls \<le> n"

lemma good_mono: "good n ls \<Longrightarrow> n \<le> m \<Longrightarrow> good m ls"
  by (auto simp: good_def)

lemma good_Nil [simp]: "0 \<le> n \<Longrightarrow> good n []"
  by (simp add: good_def)

lemma good_tail:
  assumes "good n (l # ls)"
  shows "good n ls"
proof -
  have "count_sum ls \<le> uint (l_count l) + count_sum ls" by simp
  also have "\<dots> \<le> n" using assms by (simp add: good_def)
  finally show ?thesis using assms by (simp add: good_def)
qed

lemma member_count_sum: "l \<in> set ls \<Longrightarrow> uint (l_count l) \<le> count_sum ls"
  by (induction ls) (auto intro: order_trans [OF _ add_left_mono [OF count_sum_nonneg]] add_increasing)

lemma uint_plus: "uint a + uint b < 4294967296 \<Longrightarrow> uint (a + b :: u32) = uint a + uint b"
  by (simp add: uint_word_ariths)

lemma sum_nonzero:
  assumes "uint a + uint b < 4294967296" "a \<noteq> 0"
  shows "(a :: u32) + b \<noteq> 0"
  using uint_plus [OF assms(1)] assms(2) uint_ge_0 [of a] uint_ge_0 [of b]
  by (metis add_nonneg_eq_0_iff uint_0_eq uint_0_iff)

lemma add_length_good:
  assumes "good n ls" "n < 2147483648"
  shows "good (n + 1) (add_length x ls) \<and> add_length x ls \<noteq> []"
proof -
  have "(\<forall>l \<in> set (add_length x ls). l_count l \<noteq> 0) \<and> count_sum (add_length x ls) = count_sum ls + 1"
    using assms unfolding good_def
  proof (induction ls arbitrary: n)
    case (Cons l ls)
    have c: "uint (l_count l) + count_sum ls \<le> n" "0 \<le> count_sum ls" using Cons.prems by auto
    then have u: "uint (l_count l + 1) = uint (l_count l) + 1"
      using Cons.prems(2) by (intro uint_plus_one) linarith
    then have "l_count l + 1 \<noteq> 0"
      using uint_ge_0 [of "l_count l"] by (metis add_nonneg_eq_0_iff uint_0_eq zero_neq_one zero_le_one)
    moreover have "count_sum ls \<le> n" using c uint_ge_0 [of "l_count l"] by linarith
    ultimately show ?case
      using u Cons.IH [of n] Cons.prems by (auto simp: count_length_def)
  qed (simp add: new_length_def)
  moreover have "add_length x ls \<noteq> []" by (cases ls) auto
  ultimately show ?thesis using assms by (simp add: good_def)
qed

lemma merge_into_good:
  assumes "good n (l # ls)" "n < 2147483648"
  shows "\<exists>l' ls'. merge_into e ae l ls = Some (l', ls') \<and> good n (l' # ls') \<and>
    count_sum (l' # ls') = count_sum (l # ls)"
  using assms
proof (induction ls arbitrary: l n)
  case (Cons i ls)
  have c: "uint (l_count l) + (uint (l_count i) + count_sum ls) \<le> n" "l_count l \<noteq> 0" "l_count i \<noteq> 0"
    "\<forall>l \<in> set ls. l_count l \<noteq> 0" "0 \<le> count_sum ls"
    using Cons.prems(1) by (auto simp: good_def)
  have lt: "uint (l_count l) + uint (l_count i) < 4294967296" using c Cons.prems(2) by linarith
  note u = uint_plus [OF lt] and nz = sum_nonzero [OF lt c(2)]
  obtain b where b: "mergeable e ae l i = Some b" using nz by (simp add: mergeable_def)
  show ?case
  proof (cases b)
    case True
    have "good n (merge_two l i # ls)" "count_sum (merge_two l i # ls) = count_sum (l # i # ls)"
      using c u nz by (auto simp: good_def merge_two_def)
    from Cons.IH [OF this(1) Cons.prems(2)] this(2) show ?thesis using b True by auto
  next
    case False
    have "good (n - uint (l_count i)) (l # ls)" using c by (auto simp: good_def)
    moreover have "n - uint (l_count i) < 2147483648"
      using Cons.prems(2) uint_ge_0 [of "l_count i"] by linarith
    ultimately obtain l' ls' where i: "merge_into e ae l ls = Some (l', ls')"
      "good (n - uint (l_count i)) (l' # ls')" "count_sum (l' # ls') = count_sum (l # ls)"
      using Cons.IH by blast
    have "good n (l' # i # ls')" using i(2) c(3) by (auto simp: good_def)
    moreover have "count_sum (l' # i # ls') = count_sum (l # i # ls)" using i(3) by simp
    ultimately show ?thesis using b False i(1) by (intro exI [of _ l'] exI [of _ "i # ls'"]) simp
  qed
qed simp

lemma merge_lengths_good:
  assumes "good n ls" "n < 2147483648"
  shows "\<exists>ls'. merge_lengths e ae ls = Some ls' \<and> good n ls' \<and> (ls \<noteq> [] \<longrightarrow> ls' \<noteq> [])"
proof -
  have "\<exists>ls'. merge_lengths e ae ls = Some ls' \<and> good (count_sum ls) ls' \<and> (ls \<noteq> [] \<longrightarrow> ls' \<noteq> [])"
    using assms
  proof (induction "length ls" arbitrary: ls n rule: less_induct)
    case less
    show ?case
    proof (cases ls)
      case (Cons l ks)
      obtain l' ks' where m: "merge_into e ae l ks = Some (l', ks')" "good n (l' # ks')"
        "count_sum (l' # ks') = count_sum (l # ks)"
        using merge_into_good less.prems unfolding Cons by blast
      have "good n ks'" using m(2) by (rule good_tail)
      moreover have "length ks' < length ls" using merge_into_length [OF m(1)] Cons by simp
      ultimately obtain rs where r: "merge_lengths e ae ks' = Some rs" "good (count_sum ks') rs"
        using less.hyps less.prems(2) by blast
      then show ?thesis using m Cons by (auto simp: good_def)
    qed simp
  qed
  then show ?thesis using good_mono assms(1) by (auto simp: good_def)
qed

lemma good_calc: "good n ls \<Longrightarrow> l \<in> set ls \<Longrightarrow> \<exists>c. calc_signal l = Some c"
  by (simp add: good_def calc_signal_def)

lemma max_class_good:
  assumes "good n ls" "n < 2147483648" "ls \<noteq> []"
  shows "\<exists>l sm. max_class ls = Some (l, sm) \<and> l \<in> set ls"
  using get_max_length_best [OF assms(3)] assms(1,2)
  by (auto simp: max_class_def good_def best_of_def)

lemma good_unlink:
  assumes "good n ls" "i < length ls"
  shows "good n (ls ! i # unlink_length i ls)" "set (unlink_length i ls) \<subseteq> set ls"
proof -
  have "ls = take i ls @ ls ! i # drop (Suc i) ls" using assms(2) by (rule id_take_nth_drop)
  then have c: "count_sum ls = count_sum (take i ls @ ls ! i # drop (Suc i) ls)" by simp
  have s: "set (unlink_length i ls) \<subseteq> set ls"
    using set_take_subset set_drop_subset by (fastforce simp: unlink_length_def)
  then show "set (unlink_length i ls) \<subseteq> set ls" .
  show "good n (ls ! i # unlink_length i ls)"
    using assms s c by (auto simp: good_def unlink_length_def)
qed

lemma take_max_good:
  assumes "good n ls" "n < 2147483648" "ls \<noteq> []"
  shows "\<exists>l rest. take_max ls = Some (l, rest) \<and> good n (l # rest)"
proof -
  obtain i sm where "get_max_length ls = Some (i, sm)" "best_of ls i"
    using get_max_length_best [OF assms(3)] assms(1,2) by (auto simp: good_def)
  then show ?thesis
    using good_unlink [OF assms(1)] by (auto simp: take_max_def best_of_def)
qed

section \<open>Recording\<close>

definition all_good :: "int \<Rightarrow> analyser \<Rightarrow> bool" where
  "all_good n s \<longleftrightarrow> (\<forall>h. good n (hists s h))"

lemma all_good_mono: "all_good n s \<Longrightarrow> n \<le> m \<Longrightarrow> all_good m s"
  by (auto simp: all_good_def intro: good_mono)

text \<open>A step that only adds to the lists in \<open>H\<close>, at most \<open>k\<close> lengths to each.\<close>

definition recorded_to :: "hist set \<Rightarrow> analyser \<Rightarrow> analyser \<Rightarrow> bool" where
  "recorded_to H s s' \<longleftrightarrow>
     s' = s\<lparr>hists := hists s'\<rparr> \<and> (\<forall>h. hists s h \<noteq> [] \<or> h \<in> H \<longrightarrow> hists s' h \<noteq> []) \<and>
     (\<forall>h. h \<notin> H \<longrightarrow> hists s' h = hists s h)"

lemma record_length_good:
  assumes "all_good n s" "n + 1 < 2147483648"
  shows "\<exists>s'. record_length h x s = Some s' \<and> all_good (n + 1) s' \<and> recorded_to {h} s s'"
proof -
  have g: "good n (hists s h)" using assms(1) by (simp add: all_good_def)
  have a: "good (n + 1) (add_length x (hists s h))" "add_length x (hists s h) \<noteq> []"
    using add_length_good [OF g] assms(2) by auto
  obtain ls where ls: "add_merge (g_eps s) (g_aeps s) x (hists s h) = Some ls" "good (n + 1) ls" "ls \<noteq> []"
    using merge_lengths_good [OF a(1) assms(2)] a(2) by (auto simp: add_merge_def)
  then show ?thesis
    using assms(1)
    by (auto simp: record_length_def set_hist_def all_good_def recorded_to_def intro: good_mono)
qed

lemma recorded_to_trans:
  "recorded_to H s s' \<Longrightarrow> recorded_to K s' s'' \<Longrightarrow> recorded_to (H \<union> K) s s''"
  unfolding recorded_to_def by (cases s, cases s', cases s'') auto

lemma recorded_to_sel:
  assumes "recorded_to H s s'"
  shows "signals s' = signals s" "length_counts s' = length_counts s" "an_count s' = an_count s"
    "an_mode s' = an_mode s" "count_spaces s' = count_spaces s" "count_signals s' = count_signals s"
    "count_3repeats s' = count_3repeats s" "count_5repeats s' = count_5repeats s"
    "first_length s' = first_length s" "an_first_signal s' = an_first_signal s" "an_sum s' = an_sum s"
    "an_remote s' = an_remote s" "g_eps s' = g_eps s" "g_aeps s' = g_aeps s"
  using assms unfolding recorded_to_def by (cases s, cases s', simp)+

lemma record_signals_good:
  assumes "all_good n s" "n + int (length xs) < 2147483648"
    "\<forall>(h, i) \<in> set xs. i < length (signals s)"
  shows "\<exists>s'. record_signals xs s = Some s' \<and> all_good (n + int (length xs)) s' \<and>
    recorded_to (fst ` set xs) s s'"
  using assms
proof (induction xs arbitrary: s n)
  case Nil
  then show ?case by (simp add: recorded_to_def)
next
  case (Cons x xs)
  obtain h i where x: "x = (h, i)" by (cases x)
  obtain s1 where s1: "record_length h (signals s ! i) s = Some s1" "all_good (n + 1) s1" "recorded_to {h} s s1"
    using record_length_good [OF Cons.prems(1)] Cons.prems(2) by fastforce
  have "\<exists>s'. record_signals xs s1 = Some s' \<and> all_good (n + 1 + int (length xs)) s' \<and>
      recorded_to (fst ` set xs) s1 s'"
    using Cons.prems(2,3) recorded_to_sel(1) [OF s1(3)] by (intro Cons.IH [OF s1(2)]) auto
  then obtain s2 where s2: "record_signals xs s1 = Some s2" "all_good (n + 1 + int (length xs)) s2"
    "recorded_to (fst ` set xs) s1 s2" by blast
  have "recorded_to (fst ` set (x # xs)) s s2"
    using recorded_to_trans [OF s1(3) s2(3)] x by simp
  then show ?case
    using s1(1) s2 Cons.prems(3) x by (auto simp: signal_at_def algebra_simps)
qed

section \<open>The invariant of the loop\<close>

text \<open>Lists that are dereferenced after signals or repeat codes were counted are filled.\<close>

definition filled :: "analyser \<Rightarrow> bool" where
  "filled s \<longleftrightarrow>
     (count_signals s \<noteq> 0 \<longrightarrow>
        (\<forall>h \<in> {First_space, First_pulse, First_trail, First_1lead, First_signal_length}. hists s h \<noteq> [])) \<and>
     (count_3repeats s \<noteq> 0 \<or> count_5repeats s \<noteq> 0 \<longrightarrow>
        (\<forall>h \<in> {First_repeatp, First_repeats, First_repeat_gap}. hists s h \<noteq> [])) \<and>
     (hists s First_headerp \<noteq> [] \<longrightarrow> hists s First_headers \<noteq> [])"

definition sound :: "int \<Rightarrow> analyser \<Rightarrow> bool" where
  "sound n s \<longleftrightarrow>
     all_good n s \<and> filled s \<and> length (signals s) = 200 \<and> length (length_counts s) = 200 \<and>
     uint (count_spaces s) \<le> n \<and> unat (first_length s) \<le> 198 \<and>
     (an_mode s = MODE_HAVE_GAP \<longrightarrow> unat (an_count s) \<le> 200)"

lemma recorded_to_filled:
  assumes "recorded_to H s s'" "filled s" "First_headerp \<in> H \<Longrightarrow> First_headers \<in> H"
  shows "filled s'"
proof -
  have keep: "hists s h \<noteq> [] \<or> h \<in> H \<Longrightarrow> hists s' h \<noteq> []" and same: "h \<notin> H \<Longrightarrow> hists s' h = hists s h" for h
    using assms(1) by (auto simp: recorded_to_def)
  show ?thesis
    unfolding filled_def recorded_to_sel [OF assms(1)]
    using assms(2,3) keep same [of First_headerp] unfolding filled_def by metis
qed

definition ends_soundly :: "int \<Rightarrow> progress \<Rightarrow> bool" where
  "ends_soundly n p \<longleftrightarrow>
     (case p of Go_on s \<Rightarrow> sound n s | Evaluate s \<Rightarrow> sound n s \<and> count_signals s \<noteq> 0 | Finished ok s \<Rightarrow> True)"

lemma sound_mono: "sound n s \<Longrightarrow> n \<le> m \<Longrightarrow> sound m s"
  by (auto simp: sound_def intro: all_good_mono)

lemma sound_gap_fields:
  "sound n s \<Longrightarrow> an_mode s = MODE_GAP \<Longrightarrow>
     sound n (s\<lparr>an_sum := a, an_average := b, an_maxspace := c\<rparr>)"
  "sound n s \<Longrightarrow> sound n (s\<lparr>an_sum := a\<rparr>)"
  "sound n s \<Longrightarrow> sound n (s\<lparr>an_average := b, an_maxspace := c\<rparr>)"
  by (auto simp: sound_def all_good_def filled_def)

lemma limit_soundly: "sound n s \<Longrightarrow> ends_soundly n (limit_samples s)"
  by (simp add: limit_samples_def ends_soundly_def)

lemma frequent_member: "frequent k ls = Some l \<Longrightarrow> l \<in> set ls"
  by (simp add: frequent_def find_Some_iff) (metis nth_mem)

lemma have_gap_soundly:
  assumes "sound n s"
  shows "ends_soundly n (have_gap force data (upd_remote f s))"
  using assms
  by (auto simp: have_gap_def ends_soundly_def sound_def all_good_def filled_def upd_remote_def Let_def)

lemma gap_seen_soundly:
  assumes s: "sound n s" "an_mode s = MODE_GAP" and n: "0 \<le> n" "n + 250 < 2147483648"
  shows "\<exists>p. gap_seen force data s = Some p \<and> ends_soundly (n + 250) p"
proof -
  have g: "all_good n s" using s(1) by (simp add: sound_def)
  obtain s1 where s1: "record_length First_sum (an_sum s) s = Some s1" "all_good (n + 1) s1"
    "recorded_to {First_sum} s s1"
    using record_length_good [OF g] n(2) by fastforce
  obtain s2 where s2: "record_length First_gap data s1 = Some s2" "all_good (n + 1 + 1) s2"
    "recorded_to {First_gap} s1 s2"
    using record_length_good [OF s1(2)] n(2) by fastforce
  have g2: "all_good (n + 2) s2" using s2(2) by (simp add: add.commute)
  let ?s = "s2\<lparr>an_sum := 0, count_spaces := 0, an_average := 0, an_maxspace := 0\<rparr>"
  have f: "filled s2"
    using recorded_to_filled [OF s2(3) recorded_to_filled [OF s1(3)]] s(1) by (simp add: sound_def)
  have "filled ?s" using f by (simp add: filled_def)
  moreover have "all_good (n + 250) ?s"
    using all_good_mono [OF g2, of "n + 250"] by (simp add: all_good_def)
  ultimately have snd: "sound (n + 250) ?s"
    using s n recorded_to_sel [OF s1(3)] recorded_to_sel [OF s2(3)] by (simp add: sound_def)
  have calc: "\<exists>c. calc_signal l = Some c" if "l \<in> set (hists s2 h)" for l h
    using good_calc [of "n + 2" "hists s2 h" l] g2 that by (auto simp: all_good_def)
  show ?thesis
  proof (cases "frequent SAMPLES (hists s2 First_sum)")
    case (Some l)
    then obtain c where "calc_signal l = Some c" using calc frequent_member by blast
    then show ?thesis
      using Some s1(1) s2(1) have_gap_soundly [OF snd] by (simp add: gap_seen_def)
  next
    case None
    show ?thesis
    proof (cases "frequent SAMPLES (hists s2 First_gap)")
      case (Some l)
      then obtain c where "calc_signal l = Some c" using calc frequent_member by blast
      then show ?thesis
        using None Some s1(1) s2(1) have_gap_soundly [OF snd] by (simp add: gap_seen_def)
    next
      case none2: None
      then show ?thesis
        using None s1(1) s2(1) snd by (simp add: gap_seen_def ends_soundly_def)
    qed
  qed
qed

lemma count_space_sound:
  assumes s: "sound n s" and n: "0 \<le> n" "n + 250 < 2147483648"
  shows "\<exists>s'. count_space data s = Some s' \<and> sound (n + 250) s'"
proof -
  have c: "uint (count_spaces s) \<le> n" using s by (simp add: sound_def)
  then have u: "uint (count_spaces s + 1) = uint (count_spaces s) + 1"
    using n by (intro uint_plus_one) linarith
  then have "count_spaces s + 1 \<noteq> 0"
    using uint_ge_0 [of "count_spaces s"] by (metis add_nonneg_eq_0_iff uint_0_eq zero_neq_one zero_le_one)
  then show ?thesis
    using s u c n sound_mono [OF s, of "n + 250"]
    by (auto simp: count_space_def sound_def all_good_def filled_def)
qed

lemma gap_sample_soundly:
  assumes s: "sound n s" "an_mode s = MODE_GAP" and n: "0 \<le> n" "n + 250 < 2147483648"
  shows "\<exists>p. gap_sample force data s = Some p \<and> ends_soundly (n + 250) p"
proof -
  let ?s = "s\<lparr>an_sum := i32 (an_sum s + (data AND PULSE_MASK))\<rparr>"
  have m: "sound n ?s" "an_mode ?s = MODE_GAP" using s sound_gap_fields(2) by simp_all
  have m2: "sound (n + 250) ?s" using m(1) by (rule sound_mono) simp
  obtain s' where s': "count_space data ?s = Some s'" "sound (n + 250) s'"
    using count_space_sound [OF m(1) n] by blast
  obtain p where p: "gap_seen force data ?s = Some p" "ends_soundly (n + 250) p"
    using gap_seen_soundly [OF m n] by blast
  show ?thesis
    using m2 s' p limit_soundly [OF m2] limit_soundly [OF s'(2)]
      limit_soundly [OF sound_gap_fields(3) [OF m2]] sound_gap_fields(2) [OF m2, of 0]
    by (auto simp: gap_sample_def Let_def ends_soundly_def)
qed

section \<open>A complete signal\<close>

definition grown :: "hist set \<Rightarrow> analyser \<Rightarrow> analyser \<Rightarrow> bool" where
  "grown H s s' \<longleftrightarrow>
     (\<forall>h. hists s h \<noteq> [] \<or> h \<in> H \<longrightarrow> hists s' h \<noteq> []) \<and> (\<forall>h. h \<notin> H \<longrightarrow> hists s' h = hists s h)"

lemma recorded_grown: "recorded_to H s s' \<Longrightarrow> grown H s s'"
  by (simp add: recorded_to_def grown_def)

lemma grown_filled:
  assumes "grown H s s'" "filled s" "First_headerp \<in> H \<Longrightarrow> First_headers \<in> H"
    "count_signals s' \<noteq> 0 \<Longrightarrow> count_signals s \<noteq> 0 \<or>
       {First_space, First_pulse, First_trail, First_1lead, First_signal_length} \<subseteq> H"
    "count_3repeats s' \<noteq> 0 \<or> count_5repeats s' \<noteq> 0 \<Longrightarrow> count_3repeats s \<noteq> 0 \<or> count_5repeats s \<noteq> 0 \<or>
       {First_repeatp, First_repeats, First_repeat_gap} \<subseteq> H"
  shows "filled s'"
  unfolding filled_def
proof (intro conjI impI ballI)
  fix h assume h: "h \<in> {First_space, First_pulse, First_trail, First_1lead, First_signal_length}"
    and "count_signals s' \<noteq> 0"
  then have "hists s h \<noteq> [] \<or> h \<in> H" using assms(2,4) unfolding filled_def by blast
  then show "hists s' h \<noteq> []" using assms(1) by (simp add: grown_def)
next
  fix h assume h: "h \<in> {First_repeatp, First_repeats, First_repeat_gap}"
    and "count_3repeats s' \<noteq> 0 \<or> count_5repeats s' \<noteq> 0"
  then have "hists s h \<noteq> [] \<or> h \<in> H" using assms(2,5) unfolding filled_def by blast
  then show "hists s' h \<noteq> []" using assms(1) by (simp add: grown_def)
next
  assume "hists s' First_headerp \<noteq> []"
  then have "hists s First_headers \<noteq> [] \<or> First_headers \<in> H"
    using assms(1-3) unfolding grown_def filled_def by metis
  then show "hists s' First_headers \<noteq> []" using assms(1) by (simp add: grown_def)
qed

text \<open>What a step of the second phase keeps besides the lists.\<close>

definition kept :: "analyser \<Rightarrow> analyser \<Rightarrow> bool" where
  "kept s s' \<longleftrightarrow>
     length (signals s') = length (signals s) \<and> length (length_counts s') = length (length_counts s) \<and>
     count_spaces s' = count_spaces s \<and> an_mode s' = an_mode s \<and> an_count s' = an_count s \<and>
     count_signals s' = count_signals s \<and> count_3repeats s' = count_3repeats s \<and>
     count_5repeats s' = count_5repeats s"

lemma recorded_kept: "recorded_to H s s' \<Longrightarrow> kept s s'"
  using recorded_to_sel by (simp add: kept_def)

lemma kept_trans: "kept s s' \<Longrightarrow> kept s' s'' \<Longrightarrow> kept s s''"
  by (simp add: kept_def)

lemma kept_refl: "kept s s"
  by (simp add: kept_def)

lemma bump_Some:
  "i < length (length_counts s) \<Longrightarrow> \<exists>s'. bump i d s = Some s' \<and> kept s s' \<and> hists s' = hists s \<and>
     first_length s' = first_length s \<and> signals s' = signals s \<and>
     an_first_signal s' = an_first_signal s"
  by (simp add: bump_def kept_def)

lemma count_index:
  assumes "6 < c" "unat c \<le> 200"
  shows "unat (c - 2 :: u32) = unat c - 2" "unat c \<le> 200" "6 < unat c"
proof -
  show "unat c \<le> 200" by (rule assms(2))
  show g: "6 < unat c" using assms(1) by (simp add: word_less_nat_alt)
  have "(2 :: u32) \<le> c" using g by (simp add: word_le_nat_alt)
  then show "unat (c - 2) = unat c - 2" by (simp add: unat_sub)
qed

lemma count_lengths_good:
  assumes s: "length (signals s) = 200" "length (length_counts s) = 200" "unat (first_length s) \<le> 198"
    and c: "6 < an_count s" "unat (an_count s) \<le> 200"
  shows "\<exists>s'. count_lengths s = Some s' \<and> kept s s' \<and> hists s' = hists s \<and> unat (first_length s') \<le> 198"
proof -
  note ci = count_index [OF c]
  have cl: "unat (an_count s - 2) \<le> 198"
    using ci by simp
  consider "an_first_signal s = 1"
    | "an_first_signal s \<noteq> 1" "an_first_signal s = 0 \<and> first_length s - 2 = an_count s - 2"
    | "an_first_signal s \<noteq> 1" "\<not> (an_first_signal s = 0 \<and> first_length s - 2 = an_count s - 2)"
    by blast
  then show ?thesis
  proof cases
    case 1
    then show ?thesis
      using s(1) cl by (simp add: count_lengths_def signal_at_def kept_def)
  next
    case 2
    then have "first_length s = an_count s" by simp
    then have i: "unat (an_count s - 2) < 200" "unat (an_count s) < 200"
      using s(3) ci(1) by simp_all
    obtain s1 where s1: "bump (unat (an_count s - 2)) (- 1) s = Some s1" "kept s s1" "hists s1 = hists s"
      "first_length s1 = first_length s"
      using bump_Some [of "unat (an_count s - 2)" s] i(1) s(2) by auto
    obtain s2 where s2: "bump (unat (an_count s1)) 1 s1 = Some s2" "kept s1 s2" "hists s2 = hists s1"
      "first_length s2 = first_length s1"
      using bump_Some [of "unat (an_count s1)" s1] i(2) s(2) s1(2) by (auto simp: kept_def)
    show ?thesis
      using 2 s1 s2 s(3) kept_trans [OF s1(2) s2(2)] by (simp add: count_lengths_def kept_def)
  next
    case 3
    then have "count_lengths s = Some s" by (auto simp: count_lengths_def)
    then show ?thesis using s(3) kept_refl by blast
  qed
qed

lemma header_parts_both:
  "First_headerp \<in> fst ` set (header_parts s) \<Longrightarrow> First_headers \<in> fst ` set (header_parts s)"
  by (cases "header_parts s = []") (force simp: header_parts_def split: if_splits)+

lemma long_parts_no_header: "First_headerp \<notin> fst ` set (long_signal_parts n)"
  by (auto simp: long_signal_parts_def split: if_splits)

lemma long_signal_good:
  assumes s: "all_good n s" "length (signals s) = 200" "length (length_counts s) = 200"
      "unat (first_length s) \<le> 198"
    and c: "6 < an_count s" "unat (an_count s) \<le> 200" and n: "n + 250 < 2147483648"
  shows "\<exists>s' H. long_signal data s = Some s' \<and> all_good (n + 250) s' \<and>
    kept (s\<lparr>count_signals := count_signals s + 1\<rparr>) s' \<and> unat (first_length s') \<le> 198 \<and> grown H s s' \<and>
    {First_space, First_pulse, First_trail, First_1lead, First_signal_length} \<subseteq> H \<and>
    (First_headerp \<in> H \<longrightarrow> First_headers \<in> H)"
proof -
  note ci = count_index [OF c]
  let ?s = "s\<lparr>count_signals := count_signals s + 1\<rparr>" and ?p = "long_signal_parts (unat (an_count s))"
  have "length ?p \<le> 198" using ci by (simp add: long_signal_parts_def del: nat_uint_eq)
  then have len: "int (length ?p) \<le> 198" by linarith
  have idx: "\<forall>(h, i) \<in> set ?p. i < length (signals ?s)"
    using ci s(2) by (auto simp: long_signal_parts_def)
  have "all_good n ?s" using s(1) by (simp add: all_good_def)
  from record_signals_good [OF this _ idx] len n
  obtain s1 where s1: "record_signals ?p ?s = Some s1" "all_good (n + int (length ?p)) s1"
    "recorded_to (fst ` set ?p) ?s s1" by auto
  have g1: "all_good (n + 198) s1" using all_good_mono [OF s1(2)] len by simp
  note k1 = recorded_kept [OF s1(3)]
  have "an_count s1 = an_count s" "length (length_counts s1) = 200"
    using k1 s(3) by (simp_all add: kept_def)
  then have "unat (an_count s1 - 2) < length (length_counts s1)" using ci by simp
  from bump_Some [OF this, of 1] obtain s2 where s2:
    "bump (unat (an_count s1 - 2)) 1 s1 = Some s2" "kept s1 s2" "hists s2 = hists s1"
    "first_length s2 = first_length s1" "an_first_signal s2 = an_first_signal s1" "signals s2 = signals s1"
    by blast
  have g2: "all_good (n + 198) s2" using g1 s2(3) by (simp add: all_good_def)
  obtain s3 where s3: "record_length First_signal_length (i32 (an_sum s2 - data)) s2 = Some s3"
    "all_good (n + 198 + 1) s3" "recorded_to {First_signal_length} s2 s3"
    using record_length_good [OF g2] n by fastforce
  have hp: "length (header_parts s3) \<le> 3" "\<forall>(h, i) \<in> set (header_parts s3). i < length (signals s3)"
    using k1 s2(2) recorded_kept [OF s3(3)] s(2) by (auto simp: header_parts_def kept_def)
  obtain s4 where s4: "record_signals (header_parts s3) s3 = Some s4"
    "all_good (n + 198 + 1 + int (length (header_parts s3))) s4"
    "recorded_to (fst ` set (header_parts s3)) s3 s4"
    using record_signals_good [OF s3(2) _ hp(2)] hp(1) n by fastforce
  have g4: "all_good (n + 250) s4" using all_good_mono [OF s4(2)] hp(1) by simp
  have k4: "kept ?s s4"
    using kept_trans k1 s2(2) recorded_kept [OF s3(3)] recorded_kept [OF s4(3)] by blast
  have f4: "first_length s4 = first_length s"
    using recorded_to_sel(9) [OF s1(3)] s2(4) recorded_to_sel(9) [OF s3(3)] recorded_to_sel(9) [OF s4(3)] by simp
  obtain s5 where s5: "count_lengths s4 = Some s5" "kept s4 s5" "hists s5 = hists s4" "unat (first_length s5) \<le> 198"
    using count_lengths_good [of s4] k4 f4 s c by (auto simp: kept_def)
  let ?H = "fst ` set ?p \<union> {First_signal_length} \<union> fst ` set (header_parts s3)"
  have "grown ?H s s5"
    using recorded_grown [OF s1(3)] recorded_grown [OF s3(3)] recorded_grown [OF s4(3)] s2(3) s5(3)
    by (auto simp: grown_def)
  moreover have "{First_space, First_pulse, First_trail, First_1lead, First_signal_length} \<subseteq> ?H"
  proof -
    have "(First_pulse, 2) \<in> set ?p" "(First_space, 3) \<in> set ?p" "(First_1lead, 0) \<in> set ?p"
      "(First_trail, unat (an_count s) - 2) \<in> set ?p"
      using ci by (auto simp: long_signal_parts_def image_iff)
    then show ?thesis by (force simp: image_iff)
  qed
  moreover have "First_headers \<in> ?H" if "First_headerp \<in> ?H"
    using that header_parts_both long_parts_no_header by blast
  moreover have "all_good (n + 250) s5" using g4 s5(3) by (simp add: all_good_def)
  moreover have "long_signal data s = Some s5"
    using s1(1) s2(1) s3(1) s4(1) s5(1) by (simp add: long_signal_def)
  ultimately show ?thesis
    using kept_trans [OF k4 s5(2)] s5(4) by blast
qed

lemma repeat_parts_good:
  assumes s: "all_good n s" "length (signals s) = 200" and n: "n + 250 < 2147483648"
    and p: "length xs \<le> 6" "\<forall>(h, i) \<in> set xs. i < 6"
  shows "\<exists>s'. record_signals xs s = Some s' \<and> all_good (n + 250) s' \<and> kept s s' \<and>
    first_length s' = first_length s \<and> grown (fst ` set xs) s s'"
proof -
  have "\<forall>(h, i) \<in> set xs. i < length (signals s)" using p(2) s(2) by fastforce
  from record_signals_good [OF s(1) _ this] p(1) n
  obtain s' where s': "record_signals xs s = Some s'" "all_good (n + int (length xs)) s'"
    "recorded_to (fst ` set xs) s s'" by auto
  moreover have "all_good (n + 250) s'" using all_good_mono [OF s'(2)] p(1) by simp
  ultimately show ?thesis
    using recorded_kept recorded_grown recorded_to_sel(9) [OF s'(3)] by blast
qed

lemma filled_counted:
  "filled s \<Longrightarrow> filled (s\<lparr>an_count := a, an_sum := b\<rparr>)"
  by (simp add: filled_def)

lemma signal_complete_sound:
  assumes s: "sound n s" "an_mode s = MODE_HAVE_GAP" and n: "n + 250 < 2147483648"
  shows "\<exists>s'. signal_complete data s = Some s' \<and> sound (n + 250) s'"
proof -
  have f: "all_good n s" "filled s" "length (signals s) = 200" "length (length_counts s) = 200"
    "uint (count_spaces s) \<le> n" "unat (first_length s) \<le> 198" "unat (an_count s) \<le> 200"
    using s by (auto simp: sound_def)
  have fin: "\<exists>s'. Option.bind res (\<lambda>s. Some (s\<lparr>an_count := 0, an_sum := 0\<rparr>)) = Some s' \<and> sound (n + 250) s'"
    if "res = Some t" "all_good (n + 250) t" "filled t" "length (signals t) = 200" "length (length_counts t) = 200"
      "count_spaces t = count_spaces s" "unat (first_length t) \<le> 198" for res t
    using that f(5) filled_counted [OF that(3), of 0 0] by (simp add: sound_def all_good_def)
  consider "an_count s = 4" | "an_count s = 6" | "6 < an_count s"
    | "an_count s \<noteq> 4" "an_count s \<noteq> 6" "\<not> 6 < an_count s" by blast
  then show ?thesis
  proof cases
    case 1
    let ?s = "s\<lparr>count_3repeats := count_3repeats s + 1\<rparr>"
    let ?xs = "[(First_repeatp, 0), (First_repeats, 1), (First_trail, 2), (First_repeat_gap, 3)] :: (hist \<times> nat) list"
    have "all_good n ?s" "length (signals ?s) = 200" using f by (simp_all add: all_good_def)
    from repeat_parts_good [OF this n, of ?xs]
    obtain t where t: "record_signals ?xs ?s = Some t" "all_good (n + 250) t" "kept ?s t"
      "first_length t = first_length s" "grown (fst ` set ?xs) ?s t"
      by auto
    have g: "grown (fst ` set ?xs) s t" using t(5) by (simp add: grown_def)
    have "filled t"
      by (rule grown_filled [OF g f(2)]) (use t(3) in \<open>simp_all add: kept_def\<close>)
    then show ?thesis
      using fin [OF t(1,2)] t(3,4) f 1 by (simp add: signal_complete_def kept_def)
  next
    case 2
    let ?s = "s\<lparr>count_5repeats := count_5repeats s + 1\<rparr>"
    let ?xs = "[(First_headerp, 0), (First_headers, 1), (First_repeatp, 2), (First_repeats, 3),
      (First_trail, 4), (First_repeat_gap, 5)] :: (hist \<times> nat) list"
    have "all_good n ?s" "length (signals ?s) = 200" using f by (simp_all add: all_good_def)
    from repeat_parts_good [OF this n, of ?xs]
    obtain t where t: "record_signals ?xs ?s = Some t" "all_good (n + 250) t" "kept ?s t"
      "first_length t = first_length s" "grown (fst ` set ?xs) ?s t"
      by auto
    have g: "grown (fst ` set ?xs) s t" using t(5) by (simp add: grown_def)
    have "filled t"
      by (rule grown_filled [OF g f(2)]) (use t(3) in \<open>simp_all add: kept_def\<close>)
    then show ?thesis
      using fin [OF t(1,2)] t(3,4) f 2 by (simp add: signal_complete_def kept_def)
  next
    case 3
    have not46: "an_count s \<noteq> 4" "an_count s \<noteq> 6" using 3 by auto
    obtain t H where t: "long_signal data s = Some t" "all_good (n + 250) t"
      "kept (s\<lparr>count_signals := count_signals s + 1\<rparr>) t" "unat (first_length t) \<le> 198" "grown H s t"
      "{First_space, First_pulse, First_trail, First_1lead, First_signal_length} \<subseteq> H"
      "First_headerp \<in> H \<longrightarrow> First_headers \<in> H"
      using long_signal_good [OF f(1,3,4,6) 3 f(7) n] by blast
    have "filled t"
      by (rule grown_filled [OF t(5) f(2)]) (use t(3,6,7) in \<open>auto simp: kept_def\<close>)
    then show ?thesis
      using fin [OF t(1,2)] t(3,4) f 3 not46 by (simp add: signal_complete_def kept_def)
  next
    case 4
    have "all_good (n + 250) s" using f(1) by (rule all_good_mono) simp
    then show ?thesis
      using fin [of "Some s" s] f 4 by (simp add: signal_complete_def)
  qed
qed

lemma signal_sample_soundly:
  assumes s: "sound n (s\<lparr>an_count := c\<rparr>)" "an_mode s = MODE_HAVE_GAP" and c: "unat c \<le> 200"
    and n: "0 \<le> n" "n + 250 < 2147483648"
  shows "\<exists>p. signal_sample data (s\<lparr>an_count := c + 1\<rparr>) = Some p \<and> ends_soundly (n + 250) p"
proof -
  let ?c = "c + 1" and ?d = "data AND PULSE_MASK"
  have c1: "unat ?c = unat c + 1" using c by (simp add: unat_word_ariths)
  show ?thesis
  proof (cases "?c > word_of_nat MAX_SIGNALS")
    case True
    then show ?thesis by (simp add: signal_sample_def ends_soundly_def)
  next
    case False
    then have c200: "unat ?c \<le> 200" by (simp add: MAX_SIGNALS_def word_le_nat_alt not_less)
    let ?t = "s\<lparr>an_count := ?c, signals := (signals s)[unat (?c - 1) := ?d]\<rparr>"
    let ?u = "?t\<lparr>an_remaining_gap := rest_gap ?t, an_sum := i32 (an_sum s + ?d)\<rparr>"
    have st: "store_signal ?d (s\<lparr>an_count := ?c\<rparr>) = Some ?t"
      using s(1) c200 c1 by (simp add: store_signal_def sound_def)
    have u: "sound n ?u" "an_mode ?u = MODE_HAVE_GAP"
      using s c200 by (auto simp: sound_def all_good_def filled_def)
    have step: "signal_sample data (s\<lparr>an_count := ?c\<rparr>) =
        (if ends_signal ?d ?u
         then do {
           s \<leftarrow> if is_space data then signal_complete data ?u else Some ?u;
           if count_signals s \<ge> SAMPLES then Some (Evaluate s)
           else Some (Go_on (if usual_gap ?d s then s\<lparr>an_first_signal := 0, an_header := 0\<rparr>
                             else s\<lparr>an_first_signal := 1\<rparr>)) }
         else Some (Go_on ?u))"
      using False st by (simp add: signal_sample_def Let_def)
    obtain v where v: "signal_complete data ?u = Some v" "sound (n + 250) v"
      using signal_complete_sound [OF u n(2)] by blast
    have u2: "sound (n + 250) ?u" using u(1) by (rule sound_mono) simp
    have go: "sound (n + 250) (x\<lparr>an_first_signal := a, an_header := b\<rparr>)" "sound (n + 250) (x\<lparr>an_first_signal := a\<rparr>)"
      if "sound (n + 250) x" for x a b
      using that by (auto simp: sound_def all_good_def filled_def)
    have ev: "count_signals x \<noteq> 0" if "count_signals x \<ge> SAMPLES" for x
      using that by (auto simp: SAMPLES_def)
    show ?thesis
      unfolding step using v u2 go [OF v(2)] go [OF u2] ev
      by (cases "ends_signal ?d ?u"; cases "is_space data") (auto simp: ends_soundly_def)
  qed
qed

lemma analyse_sample_soundly:
  assumes s: "sound n s" and n: "0 \<le> n" "n + 250 < 2147483648"
  shows "\<exists>p. analyse_sample force data s = Some p \<and> ends_soundly (n + 250) p"
proof (cases "data = 0")
  case True
  then show ?thesis by (simp add: analyse_sample_def ends_soundly_def)
next
  case False
  show ?thesis
  proof (cases "an_mode s")
    case MODE_GAP
    have "sound n (s\<lparr>an_count := an_count s + 1\<rparr>)"
      using s MODE_GAP by (simp add: sound_def all_good_def filled_def)
    from gap_sample_soundly [OF this _ n] show ?thesis
      using False MODE_GAP by (simp add: analyse_sample_def Let_def)
  next
    case MODE_HAVE_GAP
    have "unat (an_count s) \<le> 200" "sound n (s\<lparr>an_count := an_count s\<rparr>)"
      using s MODE_HAVE_GAP by (simp_all add: sound_def)
    from signal_sample_soundly [OF this(2) MODE_HAVE_GAP this(1) n] show ?thesis
      using False MODE_HAVE_GAP by (simp add: analyse_sample_def Let_def)
  qed
qed

lemma analyse_samples_soundly:
  assumes "sound n s" "0 \<le> n" "n + 250 * int (length ds) < 2147483648"
  shows "\<exists>p. analyse_samples force ds s = Some p \<and> ends_soundly (n + 250 * int (length ds)) p"
  using assms
proof (induction ds arbitrary: n s)
  case Nil
  then show ?case by (simp add: ends_soundly_def)
next
  case (Cons d ds)
  obtain p where p: "analyse_sample force d s = Some p" "ends_soundly (n + 250) p"
    using analyse_sample_soundly [OF Cons.prems(1,2)] Cons.prems(3) by fastforce
  show ?case
  proof (cases p)
    case (Go_on t)
    then have "sound (n + 250) t" using p(2) by (simp add: ends_soundly_def)
    from Cons.IH [OF this] show ?thesis
      using Cons.prems p(1) Go_on by (simp add: algebra_simps)
  next
    case (Finished ok t)
    then show ?thesis using p(1) by (simp add: ends_soundly_def)
  next
    case (Evaluate t)
    then show ?thesis
      using p sound_mono [of "n + 250" t "n + 250 * int (length (d # ds))"] by (simp add: ends_soundly_def)
  qed
qed

lemma init_sound: "sound 0 (init_analyser e ae r)"
  by (simp add: sound_def init_analyser_def all_good_def filled_def MAX_SIGNALS_def)

section \<open>The evaluation\<close>

definition ready_state :: "int \<Rightarrow> analyser \<Rightarrow> bool" where
  "ready_state n s \<longleftrightarrow> all_good n s \<and> filled s \<and> count_signals s \<noteq> 0 \<and> n < 2147483648"

definition same_protocol :: "ir_remote \<Rightarrow> ir_remote \<Rightarrow> bool" where
  "same_protocol r r' \<longleftrightarrow>
     flags r' AND IR_PROTOCOL_MASK = flags r AND IR_PROTOCOL_MASK \<and> rc6_mask r' = rc6_mask r"

lemma same_protocol_refl [simp]: "same_protocol r r"
  by (simp add: same_protocol_def)

lemma same_protocol_trans: "same_protocol r r' \<Longrightarrow> same_protocol r' r'' \<Longrightarrow> same_protocol r r''"
  by (simp add: same_protocol_def)

lemma same_protocol_biphase: "same_protocol r r' \<Longrightarrow> is_biphase r' = is_biphase r"
  by (simp add: same_protocol_def is_biphase_def is_rc5_def is_rc6_def)

lemma protocol_bits [simp]:
  "(f OR NO_HEAD_REP) AND IR_PROTOCOL_MASK = f AND IR_PROTOCOL_MASK"
  "(f OR REPEAT_HEADER) AND IR_PROTOCOL_MASK = f AND IR_PROTOCOL_MASK"
  "(f AND NOT NO_HEAD_REP) AND IR_PROTOCOL_MASK = f AND IR_PROTOCOL_MASK"
  by (simp_all add: flag_defs bit.conj_disj_distrib2 and.assoc)

lemma ready_remote [simp]: "ready_state n (upd_remote f s) = ready_state n s"
  by (simp add: ready_state_def upd_remote_def all_good_def filled_def)

lemma ready_remote2 [simp]: "ready_state n (s\<lparr>an_remote := r\<rparr>) = ready_state n s"
  by (simp add: ready_state_def all_good_def filled_def)

lemma hists_remote [simp]: "hists (upd_remote f s) = hists s" "an_remote (upd_remote f s) = f (an_remote s)"
  by (simp_all add: upd_remote_def)

lemma set_hist_sel [simp]:
  "an_remote (set_hist h ls s) = an_remote s" "hists (set_hist h ls s) = (hists s)(h := ls)"
  "length_counts (set_hist h ls s) = length_counts s" "g_eps (set_hist h ls s) = g_eps s"
  by (simp_all add: set_hist_def)

lemma ready_hist:
  "ready_state n s \<Longrightarrow> good n ls \<Longrightarrow> ls \<noteq> [] \<Longrightarrow> h \<noteq> First_headerp \<Longrightarrow> ready_state n (set_hist h ls s)"
  by (auto simp: ready_state_def all_good_def filled_def set_hist_def)

lemma ready_lists:
  assumes "ready_state n s"
  shows "good n (hists s h)" "n < 2147483648"
    "h \<in> {First_space, First_pulse, First_trail, First_1lead, First_signal_length} \<Longrightarrow> hists s h \<noteq> []"
  using assms by (auto simp: ready_state_def all_good_def filled_def)

lemma ready_max:
  assumes "ready_state n s" "hists s h \<noteq> []"
  obtains l sm c where "max_class (hists s h) = Some (l, sm)" "l \<in> set (hists s h)" "calc_signal l = Some c"
  using max_class_good [OF ready_lists(1,2) [OF assms(1)] assms(2)] good_calc [OF ready_lists(1) [OF assms(1)]]
  by blast

lemma good_members:
  assumes "good n (l # rest)" "n < 2147483648" "rest \<noteq> []"
  obtains l2 sm c c2 where "max_class rest = Some (l2, sm)" "calc_signal l = Some c" "calc_signal l2 = Some c2"
  using max_class_good [OF good_tail [OF assms(1)] assms(2,3)] good_calc [OF assms(1)]
  by (metis list.set_intros(1,2))

lemma short_signal_Some:
  "calc_signal a = Some x \<Longrightarrow> calc_signal b = Some y \<Longrightarrow> \<exists>c. short_signal a b = Some c"
  by (simp add: short_signal_def) blast

lemma get_scheme_ready:
  assumes s: "ready_state n s"
  shows "\<exists>s'. get_scheme s = Some s' \<and> ready_state n s'"
proof -
  obtain k sm where k: "scheme_scan (length_counts s) = (k, sm)" by fastforce
  show ?thesis
  proof (cases "length_counts s ! k \<ge> TH_SPACE_ENC * sm div 100")
    case True
    then show ?thesis using k s by (simp add: get_scheme_def space_scheme_def)
  next
    case False
    obtain p ps where p: "take_max (hists s First_pulse) = Some (p, ps)" "good n (p # ps)"
      using take_max_good ready_lists [OF s] by blast
    let ?s1 = "set_hist First_pulse (p # ps) s"
    have s1: "ready_state n ?s1" by (rule ready_hist [OF s p(2)]) auto
    show ?thesis
    proof (cases "ps = []")
      case True
      then show ?thesis using k p(1) s1 False by (simp add: get_scheme_def space_scheme_def)
    next
      case ps: False
      obtain p2 pm cp cp2 where p2: "max_class ps = Some (p2, pm)" "calc_signal p = Some cp" "calc_signal p2 = Some cp2"
        by (rule good_members [OF p(2) ready_lists(2) [OF s] ps])
      obtain q qs where q: "take_max (hists s First_space) = Some (q, qs)" "good n (q # qs)"
        using take_max_good ready_lists [OF s] by blast
      let ?s2 = "set_hist First_space (q # qs) ?s1"
      have s2: "ready_state n ?s2" by (rule ready_hist [OF s1 q(2)]) auto
      show ?thesis
      proof (cases "qs = []")
        case True
        then show ?thesis using k p(1) p2 q s2 False ps by (simp add: get_scheme_def space_scheme_def)
      next
        case qs: False
        obtain q2 qm cq cq2 where q2: "max_class qs = Some (q2, qm)" "calc_signal q2 = Some cq2"
          by (rule good_members [OF q(2) ready_lists(2) [OF s] qs])
        obtain q3 qm3 cq3 where q3: "max_class (q # qs) = Some (q3, qm3)" "calc_signal q3 = Some cq3"
        proof (rule ready_max [OF s2, of First_space])
          show "hists ?s2 First_space \<noteq> []" by simp
        qed simp
        obtain b1 b2 where "short_signal p p2 = Some b1" "short_signal q3 q2 = Some b2"
          using short_signal_Some p2 q2 q3 by meson
        then show ?thesis
          using k p(1) p2 q q2 q3 s2 False ps qs
          by (auto simp: get_scheme_def biphase_scheme_def)
      qed
    qed
  qed
qed

text \<open>A function of the evaluation that always returns.\<close>

definition returns :: "int \<Rightarrow> (analyser \<Rightarrow> (bool \<times> analyser) option) \<Rightarrow> bool" where
  "returns n f \<longleftrightarrow>
     (\<forall>s. ready_state n s \<longrightarrow>
        (\<exists>ok s'. f s = Some (ok, s') \<and> ready_state n s' \<and> same_protocol (an_remote s) (an_remote s')))"

lemma some_bool [simp]: "\<exists>b. b" "\<exists>b. \<not> b"
  by blast+

lemma trail_returns: "returns n get_trail_length"
  unfolding returns_def
proof (intro allI impI)
  fix s assume s: "ready_state n s"
  obtain l sm c where "max_class (hists s First_trail) = Some (l, sm)" "calc_signal l = Some c"
    by (rule ready_max [OF s, of First_trail]) (use ready_lists(3) [OF s] in auto)
  then show "\<exists>ok s'. get_trail_length s = Some (ok, s') \<and> ready_state n s' \<and> same_protocol (an_remote s) (an_remote s')"
    using s by (simp add: get_trail_length_def same_protocol_def)
qed

lemma lead_single:
  assumes "get_max_length [l] = Some (i, sm)"
  shows "at_least TH_LEAD ([l] ! i) sm"
proof -
  have i: "i = 0" "sm = l_count l" using assms by (auto simp: get_max_length_def)
  have "uint (sm * 90) \<le> uint sm * 90"
    by (simp add: uint_word_ariths zmod_le_nonneg_dividend)
  then have "uint (sm * 90) div 100 \<le> (uint sm * 90) div 100" by (rule zdiv_mono1) simp
  also have "\<dots> \<le> (uint sm * 100) div 100" by (rule zdiv_mono1) simp_all
  also have "\<dots> = uint sm" by simp
  finally show ?thesis
    using i by (simp add: at_least_def TH_LEAD_def word_le_def uint_div)
qed

lemma lead_returns: "returns n get_lead_length"
  unfolding returns_def
proof (intro allI impI)
  fix s assume s: "ready_state n s"
  show "\<exists>ok s'. get_lead_length s = Some (ok, s') \<and> ready_state n s' \<and> same_protocol (an_remote s) (an_remote s')"
  proof (cases "\<not> is_biphase (an_remote s) \<or> has_header (an_remote s) \<or> is_rc6 (an_remote s)")
    case True
    then show ?thesis using s by (auto simp: get_lead_length_def)
  next
    case False
    let ?ls = "hists s First_1lead"
    have ne: "?ls \<noteq> []" and g: "good n ?ls" "n < 2147483648" using ready_lists [OF s] by auto
    obtain i sm where m: "get_max_length ?ls = Some (i, sm)" "best_of ?ls i"
      using get_max_length_best [OF ne] g by (auto simp: good_def)
    let ?l = "?ls ! i" and ?rest = "unlink_length i ?ls"
    have gl: "good n (?l # ?rest)" using good_unlink(1) [OF g(1)] m(2) by (simp add: best_of_def)
    obtain c where c: "calc_signal ?l = Some c" using good_calc [OF gl] by auto
    show ?thesis
    proof (cases "at_least TH_LEAD ?l sm")
      case True
      then show ?thesis
        using False m(1) c s by (simp add: get_lead_length_def same_protocol_def Let_def)
    next
      case notall: False
      have rest: "?rest \<noteq> []"
      proof
        assume "?rest = []"
        then have "length ?ls = 1"
          using m(2) ne by (auto simp: unlink_length_def best_of_def le_Suc_eq)
        then obtain x where "?ls = [x]" by (auto simp: length_Suc_conv)
        then show False using lead_single [of x i sm] m(1) notall by simp
      qed
      obtain l2 sm2 c1 c2 where l2: "max_class ?rest = Some (l2, sm2)" "calc_signal ?l = Some c1" "calc_signal l2 = Some c2"
        by (rule good_members [OF gl g(2) rest])
      let ?new = "if i = 0 then ?l # ?rest else ?rest"
      have "ready_state n (set_hist First_1lead ?new s)"
        using rest gl good_tail [OF gl] by (intro ready_hist [OF s]) auto
      then show ?thesis
        using False m(1) c notall l2
        by (auto simp: get_lead_length_def same_protocol_def Let_def set_hist_def upd_remote_def
            split: option.splits)
    qed
  qed
qed

lemma header_returns: "returns n get_header_length"
  unfolding returns_def
proof (intro allI impI)
  fix s assume s: "ready_state n s"
  show "\<exists>ok s'. get_header_length s = Some (ok, s') \<and> ready_state n s' \<and> same_protocol (an_remote s) (an_remote s')"
  proof (cases "hists s First_headerp = []")
    case True
    then show ?thesis using s by (simp add: get_header_length_def)
  next
    case False
    obtain lp sm c where p: "max_class (hists s First_headerp) = Some (lp, sm)" "calc_signal lp = Some c"
      by (rule ready_max [OF s False])
    have "hists s First_headers \<noteq> []" using False s by (simp add: ready_state_def filled_def)
    then obtain ls sm2 c2 where q: "max_class (hists s First_headers) = Some (ls, sm2)" "calc_signal ls = Some c2"
      by (rule ready_max [OF s])
    show ?thesis
      using False p q s by (auto simp: get_header_length_def same_protocol_def)
  qed
qed

lemma repeat_returns: "returns n get_repeat_length"
  unfolding returns_def
proof (intro allI impI)
  fix s assume s: "ready_state n s"
  let ?m3 = "count_3repeats s > SAMPLES div 2" and ?m5 = "count_5repeats s > SAMPLES div 2"
  show "\<exists>ok s'. get_repeat_length s = Some (ok, s') \<and> ready_state n s' \<and> same_protocol (an_remote s) (an_remote s')"
  proof (cases "?m3 = ?m5")
    case True
    then show ?thesis using s by (simp add: get_repeat_length_def Let_def)
  next
    case False
    then have "count_3repeats s \<noteq> 0 \<or> count_5repeats s \<noteq> 0" by (auto simp: SAMPLES_def)
    then have ne: "hists s First_repeatp \<noteq> []" "hists s First_repeats \<noteq> []" "hists s First_repeat_gap \<noteq> []"
      using s by (auto simp: ready_state_def filled_def)
    obtain lp sm c where p: "max_class (hists s First_repeatp) = Some (lp, sm)" "calc_signal lp = Some c"
      by (rule ready_max [OF s ne(1)])
    obtain ls sm2 c2 where q: "max_class (hists s First_repeats) = Some (ls, sm2)" "calc_signal ls = Some c2"
      by (rule ready_max [OF s ne(2)])
    obtain lg sm3 c3 where g: "max_class (hists s First_repeat_gap) = Some (lg, sm3)" "calc_signal lg = Some c3"
      by (rule ready_max [OF s ne(3)])
    have "\<exists>ok s'. repeat_lengths lp ls s = Some (ok, s') \<and> ready_state n s' \<and> same_protocol (an_remote s) (an_remote s')"
      using p q g s by (auto simp: repeat_lengths_def same_protocol_def)
    then show ?thesis
      using False p(1) q(1) s by (auto simp: get_repeat_length_def Let_def)
  qed
qed

lemma all_found_returns:
  assumes "\<forall>f \<in> set fs. returns n f" "ready_state n s"
  shows "\<exists>ok s'. all_found fs s = Some (ok, s') \<and> ready_state n s' \<and> same_protocol (an_remote s) (an_remote s')"
  using assms
proof (induction fs arbitrary: s)
  case (Cons f fs)
  obtain ok s1 where f: "f s = Some (ok, s1)" "ready_state n s1" "same_protocol (an_remote s) (an_remote s1)"
    using Cons.prems by (auto simp: returns_def)
  show ?case
  proof (cases ok)
    case True
    obtain ok2 s2 where "all_found fs s1 = Some (ok2, s2)" "ready_state n s2" "same_protocol (an_remote s1) (an_remote s2)"
      using Cons.IH [OF _ f(2)] Cons.prems(1) by auto
    then show ?thesis using f True same_protocol_trans by auto
  qed (use f in simp)
qed simp

lemma drop_header_protocol: "same_protocol r (drop_header h r)"
  by (simp add: drop_header_def same_protocol_def Let_def)

lemma second_class_calc:
  "good n (l # rest) \<Longrightarrow> n < 2147483648 \<Longrightarrow> second_class l rest = Some l2 \<Longrightarrow> \<exists>c. calc_signal l2 = Some c"
  using max_class_good [of n rest] good_tail [of n l rest] good_calc [of n rest l2]
  by (cases "rest = []")
    (auto simp: second_class_def max_class_def get_max_length_def split: option.splits if_splits)

lemma data_returns:
  assumes s: "ready_state n s" and b: "\<not> is_biphase (an_remote s)"
  shows "\<exists>ok s'. get_data_length h s = Some (ok, s')"
proof -
  obtain p psm c0 where p: "max_class (hists s First_pulse) = Some (p, psm)" "calc_signal p = Some c0"
    by (rule ready_max [OF s, of First_pulse]) (use ready_lists(3) [OF s] in auto)
  obtain q qsm c1 where q: "max_class (hists s First_space) = Some (q, qsm)" "calc_signal q = Some c1"
    by (rule ready_max [OF s, of First_space]) (use ready_lists(3) [OF s] in auto)
  obtain lp ps where tp: "take_max (hists s First_pulse) = Some (lp, ps)" "good n (lp # ps)"
    using take_max_good ready_lists [OF s] by blast
  obtain ls ss where ts: "take_max (hists s First_space) = Some (ls, ss)" "good n (ls # ss)"
    using take_max_good ready_lists [OF s] by blast
  obtain cp cs where c: "calc_signal lp = Some cp" "calc_signal ls = Some cs"
    using good_calc [OF tp(2), of lp] good_calc [OF ts(2), of ls] by auto
  let ?r = "(an_remote s)\<lparr>eps := sint (g_eps s), aeps := g_aeps s\<rparr>"
  have br: "\<not> is_biphase ?r" using b by (simp add: is_biphase_def is_rc5_def is_rc6_def)
  have "\<exists>x. bit_lengths h lp (second_class lp ps) ls (second_class ls ss) ?r = Some x \<and>
      (\<forall>r. x = Some r \<longrightarrow> same_protocol ?r r)"
    using br c second_class_calc [OF tp(2) ready_lists(2) [OF s]] second_class_calc [OF ts(2) ready_lists(2) [OF s]]
    by (auto simp: bit_lengths_def pulse_lengths_def space_lengths_def same_protocol_def Let_def
        split: option.splits)
  then obtain x where x: "bit_lengths h lp (second_class lp ps) ls (second_class ls ss) ?r = Some x"
    "\<And>r. x = Some r \<Longrightarrow> same_protocol ?r r" by blast
  have nb: "\<exists>r'. number_of_bits sl (drop_header h r) = Some r'" if "x = Some r" for r sl
  proof -
    have "\<not> is_biphase (drop_header h r)"
      using same_protocol_biphase [OF same_protocol_trans [OF x(2) [OF that] drop_header_protocol]] br by simp
    then show ?thesis by (simp add: number_of_bits_def)
  qed
  show ?thesis
  proof (cases x)
    case None
    then show ?thesis
      using p(1) q(1) tp(1) ts(1) x(1) by (auto simp: get_data_length_def set_hist_def upd_remote_def)
  next
    case (Some r)
    obtain r' where "number_of_bits (hists s First_signal_length) (drop_header h r) = Some r'"
      using nb [OF Some] by blast
    then show ?thesis
      using p(1) q(1) tp(1) ts(1) x(1) Some by (auto simp: get_data_length_def set_hist_def upd_remote_def)
  qed
qed

lemma all_found_append:
  "all_found (fs @ [f]) s =
     (case all_found fs s of None \<Rightarrow> None | Some (ok, s) \<Rightarrow> if ok then all_found [f] s else Some (False, s))"
  by (induction fs arbitrary: s) (auto split: option.splits bind_splits)

lemma evaluation_returns:
  assumes s: "ready_state n s"
  shows "\<exists>s1 ok s2. get_scheme s = Some s1 \<and>
    all_found [get_header_length, get_trail_length, get_lead_length, get_repeat_length] s1 = Some (ok, s2) \<and>
    (\<not> is_biphase (an_remote s1) \<longrightarrow> evaluate_lengths h s \<noteq> None)"
proof -
  let ?fs = "[get_header_length, get_trail_length, get_lead_length, get_repeat_length]"
  obtain s1 where s1: "get_scheme s = Some s1" "ready_state n s1" using get_scheme_ready [OF s] by blast
  have "\<forall>f \<in> set ?fs. returns n f"
    using header_returns trail_returns lead_returns repeat_returns by simp
  from all_found_returns [OF this s1(2)] obtain ok s2 where
    s2: "all_found ?fs s1 = Some (ok, s2)" "ready_state n s2" "same_protocol (an_remote s1) (an_remote s2)"
    by blast
  have "evaluate_lengths h s \<noteq> None" if nb: "\<not> is_biphase (an_remote s1)"
  proof -
    obtain ok2 s3 where d: "get_data_length h s2 = Some (ok2, s3)"
      using data_returns [OF s2(2)] same_protocol_biphase [OF s2(3)] nb by blast
    have "evaluate_lengths h s = all_found (?fs @ [get_data_length h]) s1"
      using s1(1) by (simp add: evaluate_lengths_def)
    then show ?thesis
      unfolding all_found_append using s2(1) d by (cases ok2) auto
  qed
  then show ?thesis using s1(1) s2(1) by blast
qed

section \<open>Property\<close>

text \<open>C29: Whatever the samples, the analysis stays within its arrays, divides by no count of zero
  and dereferences no empty list. When 80 signals have been collected, the scheme, header, trail,
  lead and repeat are determined without a fault, and so are the bits, unless the encoding is
  biphase.\<close>

theorem analysis_is_safe:
  assumes "length ds \<le> 8000000"
  shows "\<exists>p. analyse_samples force ds (init_analyser e ae r) = Some p \<and>
    (\<forall>s. p = Evaluate s \<longrightarrow>
       (\<exists>s1 ok s2. get_scheme s = Some s1 \<and>
          all_found [get_header_length, get_trail_length, get_lead_length, get_repeat_length] s1 = Some (ok, s2) \<and>
          (\<not> is_biphase (an_remote s1) \<longrightarrow> evaluate_lengths h s \<noteq> None)))"
proof -
  let ?n = "0 + 250 * int (length ds)"
  have n: "?n < 2147483648" using assms by simp
  obtain p where p: "analyse_samples force ds (init_analyser e ae r) = Some p" "ends_soundly ?n p"
    using analyse_samples_soundly [OF init_sound order_refl n] by blast
  have "ready_state ?n s" if "p = Evaluate s" for s
    using p(2) that n by (simp add: ends_soundly_def sound_def ready_state_def)
  then show ?thesis using p(1) evaluation_returns by blast
qed

lemma analysis_is_safe_witness:
  "\<exists>p. analyse_samples False [16777716, 600, 16777716, 30000] (init_analyser 30 100 remote0) = Some p \<and>
    (\<forall>s. p = Evaluate s \<longrightarrow>
       (\<exists>s1 ok s2. get_scheme s = Some s1 \<and>
          all_found [get_header_length, get_trail_length, get_lead_length, get_repeat_length] s1 = Some (ok, s2) \<and>
          (\<not> is_biphase (an_remote s1) \<longrightarrow>
             evaluate_lengths \<lparr>rec_mode = LIRC_MODE_MODE2, send_mode = 0, features = 0, code_length = 0,
                resolution = 0\<rparr> s \<noteq> None)))"
  by (rule analysis_is_safe) simp

end
