(* ===== verification/RecEmulation.thy ===== *)
theory RecEmulation
  imports RecAnalyse ReceiveDecode DumpConfig
begin

text \<open>
  \<open>irrecord -a\<close>: \<open>emulation_readdata\<close> plays the raw codes of a configuration file as if they
  were received, and \<open>analyse_remote\<close> derives a remote with the parameters of a protocol and
  codes from them, with \<open>get_lengths\<close> and then with the decoder of \<open>daemons/receive.c\<close>.

  Pointers to codes are indices in the \<open>codes\<close> array of the remote that is played; the index
  behind the last code is the terminating entry without a name. The static variables are
  members of the record \<open>emulation\<close>.
\<close>

section \<open>The emulated receiver\<close>

record emulation =
  emulation_data :: ir_remote
  next_code :: "nat option"
  current_code :: "nat option"
  current_index :: nat
  current_rep :: int
  em_sum :: lirc_t

text \<open>A pause of a second and the start of the first or the chosen code.\<close>

definition restart_emulation :: "emulation \<Rightarrow> lirc_t \<times> emulation" where
  "restart_emulation em =
     (1000000,
      em\<lparr>current_code := (case next_code em of None \<Rightarrow> Some 0 | c \<Rightarrow> c), current_rep := 0, em_sum := 0\<rparr>)"

definition has_name :: "ir_ncode list \<Rightarrow> nat \<Rightarrow> bool" where
  "has_name cs i \<longleftrightarrow> i < length cs"

definition code_signals :: "ir_ncode list \<Rightarrow> nat \<Rightarrow> lirc_t list" where
  "code_signals cs i =
     (if i < length cs then (case nc_signals (cs ! i) of None \<Rightarrow> [] | Some xs \<Rightarrow> xs) else [])"

definition gap_after :: "emulation \<Rightarrow> lirc_t" where
  "gap_after em =
     (if is_const (emulation_data em)
      then sint (gap (emulation_data em) - word_of_int (em_sum em))
      else sint (gap (emulation_data em)))"

text \<open>At the end of a code: it is played three times, then the next one follows after a pause.
  With \<open>next_code\<close> the chosen code is played for ever.\<close>

definition end_of_code :: "ir_ncode list \<Rightarrow> nat \<Rightarrow> emulation \<Rightarrow> lirc_t \<times> emulation" where
  "end_of_code cs i em =
     (let (data, j, rep) =
            (case next_code em of
               Some n \<Rightarrow> (0, n, current_rep em)
             | None \<Rightarrow> if current_rep em + 1 > 2 then (1000000, Suc i, 0) else (0, i, current_rep em + 1));
          em = em\<lparr>current_code := Some j, current_rep := rep, current_index := 0\<rparr>
      in if \<not> has_name cs j then restart_emulation (em\<lparr>current_code := None\<rparr>)
         else (if data = 0 then gap_after em else data, em\<lparr>em_sum := 0\<rparr>))"

definition emulation_readdata :: "emulation \<Rightarrow> (lirc_t \<times> emulation) option" where
  "emulation_readdata em =
     (case current_code em of
        None \<Rightarrow> Some (restart_emulation em)
      | Some i \<Rightarrow>
          do { cs \<leftarrow> codes (emulation_data em);
               let xs = code_signals cs i; k = current_index em
               in Some (if k \<ge> length xs then end_of_code cs i em
                        else
                          let data = (if k mod 2 = 0 then xs ! k OR PULSE_BIT else xs ! k)
                          in (data, em\<lparr>current_index := Suc k,
                                       em_sum := i32 (em_sum em + (data AND PULSE_MASK))\<rparr>)) })"

definition start_emulation :: "ir_remote \<Rightarrow> emulation" where
  "start_emulation raw =
     \<lparr>emulation_data = raw, next_code = None, current_code = None, current_index = 0,
      current_rep = 0, em_sum = 0\<rparr>"

section \<open>Decoding what is played\<close>

text \<open>The decoder model takes its samples from a list. It gets the next \<open>n\<close> samples of the
  emulation and must leave some of them, so that it cannot have seen the end of the list; the
  emulation goes on behind those that were taken. \<open>None\<close>: a fault, or \<open>n\<close> is too small.\<close>

fun play :: "nat \<Rightarrow> emulation \<Rightarrow> (lirc_t list \<times> emulation) option" where
  "play 0 em = Some ([], em)"
| "play (Suc n) em =
     do { (d, em) \<leftarrow> emulation_readdata em; (ds, em) \<leftarrow> play n em; Some (d # ds, em) }"

definition with_emulation ::
  "nat \<Rightarrow> (decoder \<Rightarrow> ('a \<times> decoder) option) \<Rightarrow> emulation \<Rightarrow> decoder \<Rightarrow> ('a \<times> emulation \<times> decoder) option" where
  "with_emulation n f em s =
     do { (ds, _) \<leftarrow> play n em;
          (x, s) \<leftarrow> f (s\<lparr>hw_input := ds\<rparr>);
          if hw_input s = [] then None
          else do { (_, em) \<leftarrow> play (n - length (hw_input s)) em; Some (x, em, s) } }"

section \<open>Analysing a remote\<close>

text \<open>One button: its code, and a second one when the next signal has another code.\<close>

definition analyse_code ::
  "nat \<Rightarrow> addr \<Rightarrow> nat \<Rightarrow> ir_ncode \<Rightarrow> emulation \<Rightarrow> decoder \<Rightarrow> (ir_ncode option \<times> emulation \<times> decoder) option" where
  "analyse_code n p i c em s =
     do { (ret, em, s) \<leftarrow> with_emulation n (receive_decode p)
            (em\<lparr>current_code := None, current_index := 0, next_code := Some i\<rparr>) (init_rec_buffer s);
          case ret of
            None \<Rightarrow> Some (None, em, s)
          | Some d \<Rightarrow>
              do { (_, em, s) \<leftarrow> with_emulation n clear_rec_buffer em s;
                   (ret, em, s) \<leftarrow> with_emulation n (receive_decode p) em s;
                   Some (Some (ncode0\<lparr>nc_name := nc_name c, nc_code := d_code d,
                                      nc_nodes := (case ret of
                                          None \<Rightarrow> []
                                        | Some e \<Rightarrow> if d_code e \<noteq> d_code d then [d_code e] else [])\<rparr>),
                         em, s) } }"

text \<open>The hundredth decoded button makes the array grow; the new half is then cleared through
  the old pointer, which \<open>realloc\<close> has freed.\<close>

definition new_codes_count :: nat where "new_codes_count = 100"

fun analyse_codes ::
  "nat \<Rightarrow> addr \<Rightarrow> nat \<Rightarrow> ir_ncode list \<Rightarrow> emulation \<Rightarrow> decoder \<Rightarrow> ir_ncode list \<Rightarrow> (ir_ncode list \<times> decoder) option" where
  "analyse_codes n p i [] em s acc = Some (acc, s)"
| "analyse_codes n p i (c # cs) em s acc =
     do { (r, em, s) \<leftarrow> analyse_code n p i c em s;
          case r of
            None \<Rightarrow> analyse_codes n p (Suc i) cs em s acc
          | Some nc \<Rightarrow>
              if length acc + 1 \<ge> new_codes_count then None
              else analyse_codes n p (Suc i) cs em s (acc @ [nc]) }"

text \<open>The settings of the remote before its buttons are decoded.\<close>

definition analysed_head :: "ir_remote \<Rightarrow> ir_remote \<Rightarrow> ir_remote" where
  "analysed_head raw r =
     (let r = (if is_rc6 r \<and> bits r \<ge> 5 then r\<lparr>rc6_mask := shl64 1 (bits r - 5)\<rparr> else r)
      in r\<lparr>name := name raw, freq := freq raw\<rparr>)"

definition hw_emulation :: hardware where
  "hw_emulation = \<lparr>rec_mode = LIRC_MODE_MODE2, send_mode = 0, features = push_bit 16 LIRC_MODE_MODE2,
     code_length = 0, resolution = 0\<rparr>"

text \<open>The remote that is printed; \<open>None\<close> inside when the remote is not in raw mode. The return
  value of \<open>get_lengths\<close> is not looked at.\<close>

definition analyse_raw ::
  "nat \<Rightarrow> addr \<Rightarrow> ir_remote \<Rightarrow> decoder \<Rightarrow> (ir_remote option \<times> decoder) option" where
  "analyse_raw n p raw s =
     (if \<not> is_raw raw then Some (None, s)
      else do {
        res \<leftarrow> get_lengths emulation_readdata hw_emulation (word_of_int (eps raw)) (aeps raw) False
                 remote0 (start_emulation raw);
        (ok, r, em) \<leftarrow> res;
        s \<leftarrow> Some (s\<lparr>hw := hw_emulation, store := (store s)(p := analysed_head raw r)\<rparr>);
        cs \<leftarrow> codes raw;
        (new_codes, s) \<leftarrow> analyse_codes n p 0 cs em s [];
        Some (Some ((store s p)\<lparr>codes := Some new_codes\<rparr>), s) })"

definition analyse_remote ::
  "string \<Rightarrow> string \<Rightarrow> nat \<Rightarrow> addr \<Rightarrow> ir_remote \<Rightarrow> decoder \<Rightarrow> (string \<times> decoder) option" where
  "analyse_remote version date n p raw s =
     do { (res, s) \<leftarrow> analyse_raw n p raw s;
          case res of
            None \<Rightarrow> Some ('''', s)
          | Some r \<Rightarrow> do { t \<leftarrow> fprint_remotes version ''emulation'' date [r]; Some (t, s) } }"

fun for_each_remote ::
  "(ir_remote \<Rightarrow> 'a \<Rightarrow> (string \<times> 'a) option) \<Rightarrow> ir_remote list \<Rightarrow> 'a \<Rightarrow> (string \<times> 'a) option" where
  "for_each_remote f [] s = Some ('''', s)"
| "for_each_remote f (r # rs) s =
     do { (t, s) \<leftarrow> f r s; (ts, s) \<leftarrow> for_each_remote f rs s; Some (t @ ts, s) }"

end
