(* ===== verification/RecEnds.thy ===== *)
theory RecEnds
  imports RecEmulation ConfigFacts
begin

text \<open>
  When \<open>irrecord -a\<close> does not end: the loop of \<open>get_lengths\<close> has no bound on the pauses it skips
  before the first sample, and the emulation of a remote without raw codes delivers nothing else.
\<close>

section \<open>A loop that is never left\<close>

text \<open>The rule: an invariant under which every round reads a sample and goes on.\<close>

lemma get_lengths_loop_returns_not:
  assumes step: "\<And>s w. I s w \<Longrightarrow>
    \<exists>d w' s'. rd w = Some (d, w') \<and> analyse_sample force d s = Some (Go_on s') \<and> I s' w'"
    and ends: "get_lengths_loop rd h force s w = Some y"
  shows "\<not> I s w"
proof -
  have "rd = rd \<longrightarrow> force = force \<longrightarrow> \<not> I s w"
  proof (rule get_lengths_loop.raw_induct [where P = "\<lambda>rd' h force' s w y. rd' = rd \<longrightarrow> force' = force \<longrightarrow> \<not> I s w", OF _ ends],
      intro impI notI)
    fix f rd' h force' s w y
    assume IH: "\<And>rd' h force' s w y. f rd' h force' s w = Some y \<Longrightarrow> rd' = rd \<longrightarrow> force' = force \<longrightarrow> \<not> I s w"
      and eq: "(case rd' w of None \<Rightarrow> Some None
         | Some (data, w) \<Rightarrow>
          (case analyse_sample force' data s of
             None \<Rightarrow> Some None
           | Some (Finished ok s) \<Rightarrow> Some (Some (ok, s, w))
           | Some (Evaluate s) \<Rightarrow> Some (map_option (\<lambda>(ok, s). (ok, s, w)) (evaluate_lengths h s))
           | Some (Go_on s) \<Rightarrow> f rd' h force' s w)) = Some y"
      and same: "rd' = rd" "force' = force" and I: "I s w"
    obtain d w' s' where n: "rd w = Some (d, w')" "analyse_sample force d s = Some (Go_on s')" "I s' w'"
      using step [OF I] by blast
    then have "f rd h force s' w' = Some y" using eq same by simp
    then show False using IH n(3) by blast
  qed
  then show ?thesis by simp
qed

section \<open>A remote without raw codes\<close>

text \<open>The emulation is at the start or has announced the first code, which is not there.\<close>

definition nothing_to_play :: "emulation \<Rightarrow> bool" where
  "nothing_to_play em \<longleftrightarrow>
     codes (emulation_data em) = Some [] \<and> next_code em = None \<and> current_index em = 0 \<and>
     current_code em \<in> {None, Some 0} \<and> current_rep em = 0"

lemma nothing_to_play_pauses:
  "nothing_to_play em \<Longrightarrow>
     \<exists>em'. emulation_readdata em = Some (1000000, em') \<and> nothing_to_play em'"
  by (auto simp: nothing_to_play_def emulation_readdata_def restart_emulation_def code_signals_def
      end_of_code_def has_name_def)

lemma pause_is_skipped:
  assumes "an_mode s = MODE_GAP" "an_average s = 0"
  shows "\<exists>s'. analyse_sample force 1000000 s = Some (Go_on s') \<and> an_mode s' = MODE_GAP \<and> an_average s' = 0"
  using assms
  by (simp add: analyse_sample_def gap_sample_def Let_def is_space_def is_pulse_def PULSE_BIT_def)

lemma endless_analysis:
  assumes "codes raw = Some []"
  shows "get_lengths emulation_readdata h e ae force r (start_emulation raw) = None"
proof -
  let ?I = "\<lambda>s w. an_mode s = MODE_GAP \<and> an_average s = 0 \<and> nothing_to_play w"
  have I: "?I (init_analyser e ae r) (start_emulation raw)"
    using assms by (simp add: init_analyser_def start_emulation_def nothing_to_play_def)
  have step: "\<exists>d w' s'. emulation_readdata w = Some (d, w') \<and>
      analyse_sample force d s = Some (Go_on s') \<and> ?I s' w'" if "?I s w" for s w
    using that nothing_to_play_pauses [of w] pause_is_skipped [of s force] by blast
  have "get_lengths_loop emulation_readdata h force (init_analyser e ae r) (start_emulation raw) = None"
  proof (cases "get_lengths_loop emulation_readdata h force (init_analyser e ae r) (start_emulation raw)")
    case (Some y)
    have "\<not> ?I (init_analyser e ae r) (start_emulation raw)"
      by (rule get_lengths_loop_returns_not [where I = ?I, OF _ Some]) (rule step)
    then show ?thesis using I by simp
  qed
  then show ?thesis by (simp add: get_lengths_def)
qed

section \<open>Property\<close>

text \<open>The configuration file of a remote whose \<open>raw_codes\<close> section is empty.\<close>

definition empty_raw_text :: string where
  "empty_raw_text = concat (map (\<lambda>l. l @ [char_of (10::nat)])
     [''begin remote'', ''name r'', ''gap 40000'', ''begin raw_codes'', ''end raw_codes'', ''end remote''])"

lemma empty_raw_is_read:
  "(case read_config (\<lambda>_. None) None empty_raw_text init_send_buffer of
      Some (Some rs, _) \<Rightarrow> length rs = 1 \<and> list_all (\<lambda>r. is_raw r \<and> codes r = Some []) rs
    | _ \<Rightarrow> False)"
  by code_simp

text \<open>\<open>irrecord -a\<close> does not end on a raw remote without codes: every sample of the emulation
  is a pause of a second, \<open>get_lengths\<close> skips it before it looks at its limit of samples, and so
  the loop goes on for ever, whatever the hardware and the tolerances.\<close>

theorem empty_analysis_never_ends:
  assumes "codes raw = Some []"
  shows "get_lengths emulation_readdata h e ae force r (start_emulation raw) = None"
  by (rule endless_analysis [OF assms])

lemma empty_analysis_never_ends_witness:
  "\<exists>r b. read_config (\<lambda>_. None) None empty_raw_text init_send_buffer = Some (Some [r], b) \<and>
    is_raw r \<and>
    get_lengths emulation_readdata hw_emulation 30 100 False remote0 (start_emulation r) = None"
proof -
  obtain r b where "read_config (\<lambda>_. None) None empty_raw_text init_send_buffer = Some (Some [r], b)"
    "is_raw r" "codes r = Some []"
    using empty_raw_is_read by (auto simp: length_Suc_conv split: option.splits prod.splits)
  then show ?thesis using empty_analysis_never_ends by blast
qed

end
