(* ===== verification/SerialLine.thy ===== *)
theory SerialLine
  imports LircPrelude "HOL-Library.Word"
begin

text \<open>
  What drivers for serial devices see of the line: the bytes that arrive, with pauses in
  microseconds between them. A read error is an event of its own; after \<open>Hangup\<close> every read
  returns 0 at once. Behind the last event the line is silent for ever.
\<close>

type_synonym byte = "8 word"

datatype line_event = Byte byte | Pause int | Read_error | Hangup

text \<open>\<open>select\<close> with a timeout: is there something to read before it is over? What is left of a
  pause is waited for by the next call.\<close>

fun line_wait :: "int \<Rightarrow> line_event list \<Rightarrow> bool \<times> line_event list" where
  "line_wait t [] = (False, [])"
| "line_wait t (Pause d # es) =
     (if d < t then line_wait (t - d) es else (False, Pause (d - t) # es))"
| "line_wait t es = (True, es)"

text \<open>\<open>waitfordata\<close>: a timeout of 0 waits for ever. \<open>None\<close>: it does not return.\<close>

fun line_block :: "line_event list \<Rightarrow> line_event list option" where
  "line_block [] = None"
| "line_block (Pause d # es) = line_block es"
| "line_block es = Some es"

definition line_ready :: "int \<Rightarrow> line_event list \<Rightarrow> (bool \<times> line_event list) option" where
  "line_ready t es =
     (if t > 0 then Some (line_wait t es) else map_option (Pair True) (line_block es))"

lemma line_wait_length: "line_wait t es = (b, es') \<Longrightarrow> length es' \<le> length es"
  by (induction t es rule: line_wait.induct) (auto split: if_splits)

lemma line_wait_bytes [simp]: "line_wait t (map Byte (b # bs) @ es) = (True, map Byte (b # bs) @ es)"
  by simp

lemma line_ready_bytes [simp]: "line_ready t (Byte b # es) = Some (True, Byte b # es)"
  by (simp add: line_ready_def)

end
