(* ===== verification/HwIrtoy.thy ===== *)
theory HwIrtoy
  imports SerialLine Transmit HwDefault RcConfig
begin

text \<open>
  The driver for the USB Infrared Toy in sampling mode, \<open>daemons/hw_usbirtoy.c\<close>. The toy sends
  the length of every pulse and space in two bytes, in units of 21.3333 microseconds, and
  0xFFFF when the signal is over; signals are sent to it in the same form.

  The state has the members of \<open>struct tag_irtoy_t\<close>, the line from the toy, the successive writes
  to it and their success (all later ones succeed), and the transmit buffer.
\<close>

record irtoy =
  hwVersion :: int
  swVersion :: int
  protoVersion :: int
  awaitingNewSig :: bool
  toy_pulse :: bool
  toy_line :: "line_event list"
  toy_writes :: "bool list"
  toy_sent :: "byte list list"
  toy_buf :: sbuf

definition IRTOY_MINFWVERSION :: int where "IRTOY_MINFWVERSION = 20"
definition IRTOY_LONGSPACE :: lirc_t where [c_eval]: "IRTOY_LONGSPACE = 1000000"
definition IRTOY_COMMAND_TXSTART :: "byte list" where "IRTOY_COMMAND_TXSTART = [0x24, 0x25, 0x26, 0x03]"
definition IRTOY_TIMEOUT_READYFORDATA :: int where "IRTOY_TIMEOUT_READYFORDATA = 500000"
definition IRTOY_TIMEOUT_FLUSH :: int where "IRTOY_TIMEOUT_FLUSH = 20000"
definition IRTOY_TIMEOUT_SMODE_ENTER :: int where "IRTOY_TIMEOUT_SMODE_ENTER = 500000"
definition IRTOY_TIMEOUT_VERSION :: int where "IRTOY_TIMEOUT_VERSION = 500000"

definition ascii :: "char \<Rightarrow> byte" where "ascii c = word_of_nat (of_char c)"

section \<open>The line\<close>

text \<open>The bytes that were read; the function returns their number, or -1 when there are none. \<open>None\<close>:
  after a hangup the loop never ends, because \<open>read\<close> returns 0 and \<open>select\<close> is always ready.\<close>

fun read_with_timeout :: "nat \<Rightarrow> int \<Rightarrow> line_event list \<Rightarrow> (byte list \<times> line_event list) option" where
  "read_with_timeout 0 t es = Some ([], es)"
| "read_with_timeout (Suc n) t es =
     (case line_wait t es of
        (True, Byte b # es) \<Rightarrow>
          map_option (\<lambda>(bs, es). (b # bs, es)) (read_with_timeout n t es)
      | (True, Hangup # es) \<Rightarrow> None
      | (True, Read_error # es) \<Rightarrow> Some ([], es)
      | (_, es) \<Rightarrow> Some ([], es))"

lemma read_with_timeout_length:
  "read_with_timeout n t es = Some (bs, es') \<Longrightarrow> length es' + length bs \<le> length es"
proof (induction n t es arbitrary: bs es' rule: read_with_timeout.induct)
  case (2 n t es)
  then show ?case
    by (auto split: prod.splits bool.splits list.splits line_event.splits dest!: line_wait_length)
      fastforce+
qed auto

function irtoy_readflush :: "int \<Rightarrow> line_event list \<Rightarrow> line_event list option" where
  "irtoy_readflush t es =
     (case read_with_timeout 1 t es of
        None \<Rightarrow> None
      | Some (bs, es) \<Rightarrow> if bs = [] then Some es else irtoy_readflush t es)"
  by pat_completeness auto
termination
  by (relation "measure (\<lambda>(t, es). length es)") (auto simp del: read_with_timeout.simps dest!: read_with_timeout_length simp flip: length_greater_0_conv)

declare irtoy_readflush.simps [simp del]

definition toy_read :: "nat \<Rightarrow> int \<Rightarrow> irtoy \<Rightarrow> (byte list \<times> irtoy) option" where
  "toy_read n t d = map_option (\<lambda>(bs, es). (bs, d\<lparr>toy_line := es\<rparr>)) (read_with_timeout n t (toy_line d))"

definition toy_flush :: "irtoy \<Rightarrow> irtoy option" where
  "toy_flush d = map_option (\<lambda>es. d\<lparr>toy_line := es\<rparr>) (irtoy_readflush IRTOY_TIMEOUT_FLUSH (toy_line d))"

definition toy_write :: "byte list \<Rightarrow> irtoy \<Rightarrow> bool \<times> irtoy" where
  "toy_write bs d =
     (case toy_writes d of
        [] \<Rightarrow> (True, d\<lparr>toy_sent := toy_sent d @ [bs]\<rparr>)
      | ok # oks \<Rightarrow>
          (ok, d\<lparr>toy_writes := oks, toy_sent := (if ok then toy_sent d @ [bs] else toy_sent d)\<rparr>))"

section \<open>Receiving\<close>

text \<open>\<open>(lirc_t) (21.3333 * (double) n)\<close> and \<open>(lirc_t) ((double) x / 21.3333)\<close>. In double precision the
  product has this integer part for all numbers of 16 bits, and the quotient for all lengths
  below 2.7 seconds; longer ones need more than 16 bits.\<close>

definition irtoy_micros :: "int \<Rightarrow> lirc_t" where "irtoy_micros n = 213333 * n div 10000"

definition irtoy_units :: "lirc_t \<Rightarrow> lirc_t" where "irtoy_units x = 10000 * x sdiv 213333"

definition irtoy_read :: "lirc_t \<Rightarrow> irtoy \<Rightarrow> (lirc_t \<times> irtoy) option" where
  "irtoy_read timeout d =
     do { (ready, es) \<leftarrow> line_ready timeout (toy_line d);
          d \<leftarrow> Some (d\<lparr>toy_line := es\<rparr>);
          if \<not> ready then Some (0, d)
          else if awaitingNewSig d then
            Some (IRTOY_LONGSPACE, d\<lparr>toy_pulse := True, awaitingNewSig := False\<rparr>)
          else do {
            (dur, d) \<leftarrow> toy_read 2 0 d;
            case dur of
              [hi, lo] \<Rightarrow>
                Some (if hi = 0xff \<and> lo = 0xff then (IRTOY_LONGSPACE, d\<lparr>awaitingNewSig := True\<rparr>)
                      else
                        let data = irtoy_micros (256 * uint hi + uint lo)
                        in (if toy_pulse d then data OR PULSE_BIT else data,
                            d\<lparr>toy_pulse := \<not> toy_pulse d\<rparr>))
            | _ \<Rightarrow> Some (0, d) } }"

definition irtoy_readdata :: "lirc_t \<Rightarrow> irtoy \<Rightarrow> (lirc_t \<times> irtoy) option" where
  "irtoy_readdata timeout d = irtoy_read timeout d"

section \<open>Setup\<close>

definition text_of :: "byte list \<Rightarrow> string" where "text_of bs = map (\<lambda>b. char_of (unat b)) bs"

text \<open>\<open>atoi\<close> stops at the first character that is not a digit, the terminating zero at the latest.\<close>

definition atoi :: "string \<Rightarrow> int" where
  "atoi s =
     (let (neg, t) = number_sign (dropWhile is_space_char s);
          v = digits_value 10 (takeWhile (is_digit 10) t)
      in i32 (if neg then - v else v))"

definition irtoy_getversion :: "irtoy \<Rightarrow> (bool \<times> irtoy) option" where
  "irtoy_getversion d =
     do { d \<leftarrow> toy_flush d;
          (ok, d) \<leftarrow> Some (toy_write [ascii CHR ''v''] d);
          if \<not> ok then Some (False, d)
          else do {
            (buf, d) \<leftarrow> toy_read 4 IRTOY_TIMEOUT_VERSION d;
            if length buf \<noteq> 4 \<or> hd buf \<noteq> ascii CHR ''V'' then Some (False, d)
            else
              let vNum = atoi (text_of (tl buf))
              in Some (True, d\<lparr>hwVersion := vNum sdiv 100, swVersion := vNum smod 100\<rparr>) } }"

definition irtoy_reset :: "irtoy \<Rightarrow> (bool \<times> irtoy) option" where
  "irtoy_reset d =
     (case toy_write [0] d of (ok, d) \<Rightarrow>
        if \<not> ok then Some (False, d) else do { d \<leftarrow> toy_flush d; Some (True, d) })"

definition irtoy_enter_samplemode :: "irtoy \<Rightarrow> (bool \<times> irtoy) option" where
  "irtoy_enter_samplemode d =
     (case toy_write [ascii CHR ''s''] d of (ok, d) \<Rightarrow>
        if \<not> ok then Some (False, d)
        else do {
          (buf, d) \<leftarrow> toy_read 3 IRTOY_TIMEOUT_SMODE_ENTER d;
          if length buf \<noteq> 3 \<or> hd buf \<noteq> ascii CHR ''S'' then Some (False, d)
          else Some (True, d\<lparr>protoVersion := atoi (text_of (tl buf))\<rparr>) })"

definition irtoy_hw_init :: "irtoy \<Rightarrow> (bool \<times> irtoy) option" where
  "irtoy_hw_init d =
     do { d \<leftarrow> toy_flush (d\<lparr>hwVersion := 0, swVersion := 0, protoVersion := 0,
                           awaitingNewSig := True, toy_pulse := True\<rparr>);
          (ok, d) \<leftarrow> irtoy_reset d;
          if \<not> ok then Some (False, d)
          else do { (ok, d) \<leftarrow> irtoy_getversion d;
                    if \<not> ok then Some (False, d) else irtoy_enter_samplemode d } }"

text \<open>What happens to the lock and the device file in \<open>irtoy_init\<close>. With an old firmware they
  are left as they are, and \<open>dev\<close> points to memory that is freed.\<close>

datatype tty_step = Lock_failed | Open_failed | Setup_failed | Tty_ready

record toy_port =
  port_locked :: bool
  port_fd :: int
  port_dev :: "irtoy option"
  port_freed :: bool

definition irtoy_init :: "tty_step \<Rightarrow> int \<Rightarrow> irtoy \<Rightarrow> toy_port \<Rightarrow> (bool \<times> toy_port) option" where
  "irtoy_init tty fd d p =
     (case tty of
        Lock_failed \<Rightarrow> Some (False, p)
      | Open_failed \<Rightarrow> Some (False, p\<lparr>port_fd := - 1, port_locked := False\<rparr>)
      | Setup_failed \<Rightarrow> Some (False, p\<lparr>port_fd := fd, port_locked := False\<rparr>)
      | Tty_ready \<Rightarrow>
          do { (ok, d) \<leftarrow> irtoy_hw_init d;
               if \<not> ok then
                 Some (False, p\<lparr>port_fd := fd, port_locked := False, port_dev := None, port_freed := False\<rparr>)
               else if swVersion d < IRTOY_MINFWVERSION then
                 Some (False, p\<lparr>port_fd := fd, port_locked := True, port_dev := Some d, port_freed := True\<rparr>)
               else
                 Some (True, p\<lparr>port_fd := fd, port_locked := True, port_freed := False,
                               port_dev := Some (d\<lparr>toy_buf := init_send_buffer\<rparr>)\<rparr>) })"

definition irtoy_deinit :: "toy_port \<Rightarrow> toy_port option" where
  "irtoy_deinit p =
     (case port_dev p of
        None \<Rightarrow> None
      | Some d \<Rightarrow>
          if port_freed p then None
          else do { _ \<leftarrow> irtoy_reset d;
                    Some (p\<lparr>port_dev := None, port_fd := - 1, port_locked := False\<rparr>) })"

section \<open>Sending\<close>

text \<open>The toy tells how many bytes it takes next, and after the last ones how many it has sent. The
  result is that of the C function: 1, 0, or -1 when an answer is missing.\<close>

definition transmit_result :: "int \<Rightarrow> irtoy \<Rightarrow> (int \<times> irtoy) option" where
  "transmit_result len d =
     do { (reply, d) \<leftarrow> toy_read 4 IRTOY_TIMEOUT_READYFORDATA d;
          case reply of
            [a, hi, lo, b] \<Rightarrow>
              Some (if a \<noteq> ascii CHR ''t'' then 0
                    else if len \<noteq> 256 * uint hi + uint lo then 0
                    else if b \<noteq> ascii CHR ''C'' then 0 else 1, d)
          | _ \<Rightarrow> Some (- 1, d) }"

lemma toy_read_line: "toy_read n t d = Some (bs, d') \<Longrightarrow> length (toy_line d') + length bs \<le> length (toy_line d)"
  by (auto simp: toy_read_def dest!: read_with_timeout_length)

lemma toy_write_line [simp]: "toy_line (snd (toy_write bs d)) = toy_line d"
  by (simp add: toy_write_def split: list.splits)

lemma toy_write_eq: "toy_write bs d = (ok, d') \<Longrightarrow> toy_line d' = toy_line d"
  using toy_write_line [of bs d] by simp

function transmit_chunks :: "byte \<Rightarrow> byte list \<Rightarrow> irtoy \<Rightarrow> (int option \<times> irtoy) option" where
  "transmit_chunks room todo d =
     (if todo = [] then Some (None, d)
      else
        let now = take (unat room) todo; (ok, d1) = toy_write now d
        in if \<not> ok then Some (Some 0, d1)
           else case toy_read 1 IRTOY_TIMEOUT_READYFORDATA d1 of
                  None \<Rightarrow> None
                | Some ([], d) \<Rightarrow> Some (Some (- 1), d)
                | Some (room # _, d) \<Rightarrow> transmit_chunks room (drop (length now) todo) d)"
  by pat_completeness auto
termination
  by (relation "measure (\<lambda>(room, todo, d). length (toy_line d))")
    (auto dest!: toy_read_line toy_write_eq [OF sym])

declare transmit_chunks.simps [simp del]

definition irtoy_send_double_buffered :: "byte list \<Rightarrow> irtoy \<Rightarrow> (int \<times> irtoy) option" where
  "irtoy_send_double_buffered bs d =
     (case toy_write IRTOY_COMMAND_TXSTART d of (ok, d) \<Rightarrow>
        if \<not> ok then Some (0, d)
        else do {
          (room, d) \<leftarrow> toy_read 1 IRTOY_TIMEOUT_READYFORDATA d;
          case room of
            [] \<Rightarrow> Some (- 1, d)
          | r # _ \<Rightarrow>
              do { (res, d) \<leftarrow> transmit_chunks r bs d;
                   case res of
                     Some x \<Rightarrow> Some (x, d)
                   | None \<Rightarrow> transmit_result (int (length bs)) d } })"

text \<open>\<open>rawSB\<close> has room for \<open>WBUF_SIZE\<close> lengths and the end mark; a fault otherwise.\<close>

definition irtoy_bytes :: "lirc_t \<Rightarrow> byte list" where
  "irtoy_bytes x = (let v = irtoy_units x in [word_of_int (drop_bit 8 v), word_of_int v])"

definition raw_bytes :: "lirc_t list \<Rightarrow> byte list" where
  "raw_bytes xs = concat (map irtoy_bytes xs) @ [0xff, 0xff]"

definition irtoy_send :: "bool \<Rightarrow> ir_remote \<Rightarrow> ir_ncode \<Rightarrow> irtoy \<Rightarrow> (int \<times> ir_remote \<times> ir_ncode \<times> irtoy) option" where
  "irtoy_send repeating r c d =
     do { (ok, r, c, b) \<leftarrow> init_send repeating r c (toy_buf d);
          d \<leftarrow> Some (d\<lparr>toy_buf := b\<rparr>);
          if \<not> ok then Some (0, r, c, d)
          else do {
            xs \<leftarrow> buffer_samples b;
            if int (length xs) > WBUF_SIZE then None
            else do { (res, d) \<leftarrow> irtoy_send_double_buffered (raw_bytes xs) d; Some (res, r, c, d) } } }"

text \<open>The driver as \<open>lircd\<close> uses it: any result but 0 counts as success.\<close>

definition irtoy_send_func ::
  "bool \<Rightarrow> hardware \<Rightarrow> ir_remote \<Rightarrow> nat \<Rightarrow> irtoy \<Rightarrow> (bool \<times> ir_remote \<times> irtoy) option" where
  "irtoy_send_func repeating h r i d =
     do { c \<leftarrow> ncode_at r i;
          (res, r, c, d) \<leftarrow> irtoy_send repeating r c d;
          Some (res \<noteq> 0, put_code i c r, d) }"

end
