(* ===== verification/HwIrtoyFacts.thy ===== *)
theory HwIrtoyFacts
  imports HwIrtoy TxBounds EndToEnd
begin

text \<open>
  Facts about the driver of the USB Infrared Toy: what it sends is read back as the same signal,
  only shorter by the unit of the toy; a transmission it reports as complete has been written
  completely; and what happens when the toy does not answer or a raw signal is too long.
\<close>

section \<open>Units of the toy\<close>

definition irtoy_heard :: "lirc_t \<Rightarrow> lirc_t" where
  "irtoy_heard x = irtoy_micros (irtoy_units x)"

text \<open>At least one unit, and not the end mark.\<close>

definition toy_length :: "lirc_t \<Rightarrow> bool" where
  "toy_length x \<longleftrightarrow> 22 \<le> x \<and> x \<le> 1398077"

lemma toy_units_range: "toy_length x \<Longrightarrow> 0 < irtoy_units x \<and> irtoy_units x < 65535"
  by (auto simp: toy_length_def irtoy_units_def sdiv_pos)

lemma toy_heard_close:
  assumes "toy_length x"
  shows "irtoy_heard x \<le> x \<and> x - 22 \<le> irtoy_heard x"
proof -
  let ?u = "10000 * x div 213333"
  have u: "213333 * ?u \<le> 10000 * x" "10000 * x < 213333 * ?u + 213333" by simp_all
  have "213333 * ?u div 10000 \<le> x" using u(1) by simp
  moreover have "x - 22 \<le> 213333 * ?u div 10000" using u(2) by linarith
  ultimately show ?thesis
    using assms by (simp add: irtoy_heard_def irtoy_micros_def irtoy_units_def sdiv_pos toy_length_def)
qed

lemma toy_heard_pos: "toy_length x \<Longrightarrow> 0 < irtoy_heard x"
  using toy_units_range [of x] unfolding irtoy_heard_def irtoy_micros_def by linarith

section \<open>The bytes of a length\<close>

lemma uint_byte: "uint (word_of_int k :: byte) = k mod 256"
  by (simp add: uint_word_of_int)

lemma two_bytes:
  assumes "0 \<le> v" "v < 65535"
  shows "256 * uint (word_of_int (drop_bit 8 v) :: byte) + uint (word_of_int v :: byte) = v"
    and "\<not> (word_of_int (drop_bit 8 v) = (0xff :: byte) \<and> word_of_int v = (0xff :: byte))"
proof -
  have d: "drop_bit 8 v = v div 256" by (simp add: drop_bit_eq_div)
  have "v div 256 mod 256 = v div 256" using assms by simp
  then show eq: "256 * uint (word_of_int (drop_bit 8 v) :: byte) + uint (word_of_int v :: byte) = v"
    by (simp add: uint_byte d)
  show "\<not> (word_of_int (drop_bit 8 v) = (0xff :: byte) \<and> word_of_int v = (0xff :: byte))"
  proof
    assume "word_of_int (drop_bit 8 v) = (0xff :: byte) \<and> word_of_int v = (0xff :: byte)"
    with eq have "256 * uint (0xff :: byte) + uint (0xff :: byte) = v" by simp
    then show False using assms by simp
  qed
qed

section \<open>Reading a signal\<close>

lemma or_pulse_bit:
  assumes "0 \<le> v" "v < 16777216"
  shows "v OR PULSE_BIT = pulse_sample v"
proof -
  have "v = take_bit 24 v" using assms by (simp add: take_bit_int_eq_self)
  moreover have "take_bit 24 v AND push_bit 24 (1 :: int) = 0"
    by (rule bit_eqI) (simp only: bit_and_iff bit_take_bit_iff bit_push_bit_iff bit_0_eq, auto)
  ultimately have "v AND PULSE_BIT = 0" by (simp add: PULSE_BIT_def)
  then show ?thesis by (simp add: pulse_sample_def disjunctive_add_eq_or)
qed

lemma read_two_bytes: "read_with_timeout 2 t (Byte a # Byte b # es) = Some ([a, b], es)"
  by (simp add: eval_nat_numeral)

lemma toy_read_sample:
  assumes x: "toy_length x" and a: "\<not> awaitingNewSig d"
    and l: "toy_line d = map Byte (irtoy_bytes x) @ es"
  shows "irtoy_readdata t d =
    Some (if toy_pulse d then pulse_sample (irtoy_heard x) else irtoy_heard x,
          d\<lparr>toy_line := es, toy_pulse := \<not> toy_pulse d\<rparr>)"
proof -
  let ?v = "irtoy_units x"
  let ?hi = "word_of_int (drop_bit 8 ?v) :: byte" and ?lo = "word_of_int ?v :: byte"
  have v: "0 \<le> ?v" "?v < 65535" using toy_units_range [OF x] by simp_all
  have l': "toy_line d = Byte ?hi # Byte ?lo # es" using l by (simp add: irtoy_bytes_def Let_def)
  have w: "irtoy_micros (256 * uint ?hi + uint ?lo) = irtoy_heard x"
    by (simp only: two_bytes(1) [OF v] irtoy_heard_def)
  have h: "0 \<le> irtoy_heard x" "irtoy_heard x < 16777216"
    using toy_heard_pos [OF x] toy_heard_close [OF x] x by (auto simp: toy_length_def)
  have "irtoy_readdata t d = irtoy_read t d" by (simp add: irtoy_readdata_def)
  also have "\<dots> = Some (if toy_pulse d then irtoy_heard x OR PULSE_BIT else irtoy_heard x,
      d\<lparr>toy_line := es, toy_pulse := \<not> toy_pulse d\<rparr>)"
    using a two_bytes(2) [OF v]
    by (auto simp: irtoy_read_def l' toy_read_def read_two_bytes w Let_def)
  also have "irtoy_heard x OR PULSE_BIT = pulse_sample (irtoy_heard x)"
    by (rule or_pulse_bit [OF h])
  finally show ?thesis .
qed

fun irtoy_samples :: "lirc_t list \<Rightarrow> irtoy \<Rightarrow> (lirc_t list \<times> irtoy) option" where
  "irtoy_samples [] d = Some ([], d)"
| "irtoy_samples (t # ts) d =
     do { (x, d) \<leftarrow> irtoy_readdata t d; (xs, d) \<leftarrow> irtoy_samples ts d; Some (x # xs, d) }"

lemma toy_read_samples:
  assumes "\<forall>x \<in> set xs. toy_length x" "\<not> awaitingNewSig d" "length ts = length xs"
    and "toy_line d = map Byte (concat (map irtoy_bytes xs)) @ es"
  shows "irtoy_samples ts d =
    Some (mark_from (toy_pulse d) (map irtoy_heard xs),
          d\<lparr>toy_line := es, toy_pulse := (toy_pulse d = even (length xs))\<rparr>)"
  using assms
proof (induction xs arbitrary: ts d)
  case (Cons x xs)
  obtain t ts' where ts: "ts = t # ts'" using Cons.prems(3) by (cases ts) auto
  have s: "irtoy_readdata t d = Some (if toy_pulse d then pulse_sample (irtoy_heard x) else irtoy_heard x,
      d\<lparr>toy_line := map Byte (concat (map irtoy_bytes xs)) @ es, toy_pulse := \<not> toy_pulse d\<rparr>)"
    by (rule toy_read_sample) (use Cons.prems in simp_all)
  show ?case
    unfolding ts irtoy_samples.simps s
    using Cons.IH [of "d\<lparr>toy_line := map Byte (concat (map irtoy_bytes xs)) @ es, toy_pulse := \<not> toy_pulse d\<rparr>" ts']
      Cons.prems(1,2,3) ts by (cases "toy_pulse d") auto
qed simp

text \<open>From the start of a signal: a long space first, then the lengths, beginning with a pulse.\<close>

lemma toy_read_signal:
  assumes x: "\<forall>x \<in> set xs. toy_length x" and a: "awaitingNewSig d" and n: "length ts = Suc (length xs)" "xs \<noteq> []"
    and l: "toy_line d = map Byte (concat (map irtoy_bytes xs)) @ es"
  shows "\<exists>d'. irtoy_samples ts d = Some (IRTOY_LONGSPACE # mark_pulses (map irtoy_heard xs), d') \<and>
    toy_line d' = es \<and> \<not> awaitingNewSig d'"
proof -
  obtain t ts' where ts: "ts = t # ts'" "length ts' = length xs" using n by (cases ts) auto
  obtain b bs where b: "concat (map irtoy_bytes xs) = b # bs"
    using n(2) by (cases xs) (auto simp: irtoy_bytes_def Let_def)
  let ?d = "d\<lparr>toy_pulse := True, awaitingNewSig := False\<rparr>"
  have "irtoy_readdata t d = Some (IRTOY_LONGSPACE, ?d)"
    using a by (simp add: irtoy_readdata_def irtoy_read_def l b)
  moreover have "irtoy_samples ts' ?d =
      Some (mark_from True (map irtoy_heard xs), ?d\<lparr>toy_line := es, toy_pulse := (True = even (length xs))\<rparr>)"
    using toy_read_samples [OF x _ ts(2), of ?d es] l by simp
  ultimately show ?thesis by (simp add: ts mark_pulses_def)
qed

text \<open>The toy is silent behind the signal: \<open>lircd\<close> sees that nothing more comes, as long as it does
  not wait longer than the toy does.\<close>

lemma toy_silent:
  "toy_line d = Pause p # es \<Longrightarrow> 0 < t \<Longrightarrow> t \<le> p \<Longrightarrow>
     irtoy_readdata t d = Some (0, d\<lparr>toy_line := Pause (p - t) # es\<rparr>)"
  by (simp add: irtoy_readdata_def irtoy_read_def line_ready_def)

text \<open>A signal of the toy is within the tolerances of every remote that allows 22 microseconds.\<close>

lemma toy_received:
  assumes "\<forall>x \<in> set xs. toy_length x \<and> tolerance_fits h r x"
    and "22 \<le> max (uint (resolution h)) (aeps r)"
  shows "received h r xs (map irtoy_heard xs)"
proof -
  have "len24 (irtoy_heard x) \<and> expect h r (irtoy_heard x) x" if x: "x \<in> set xs" for x
  proof -
    have t: "toy_length x" "tolerance_fits h r x" using assms(1) x by simp_all
    have y: "0 < irtoy_heard x" "irtoy_heard x \<le> x" "x - 22 \<le> irtoy_heard x" "irtoy_heard x < 16777216"
      using toy_heard_pos [OF t(1)] toy_heard_close [OF t(1)] t(1) by (auto simp: toy_length_def)
    have "\<bar>x - irtoy_heard x\<bar> \<le> tolerance h r x"
      using y assms(2) by (simp add: tolerance_def)
    then show ?thesis using expect_iff [OF t(2)] y by (simp add: len24_def)
  qed
  then show ?thesis by (simp add: received_def list_all2_conv_all_nth)
qed

section \<open>Sending\<close>

lemma toy_write_sent: "toy_write bs d = (ok, d') \<Longrightarrow> toy_sent d' = (if ok then toy_sent d @ [bs] else toy_sent d)"
  by (auto simp: toy_write_def split: list.splits if_splits)

lemma toy_read_sent: "toy_read n t d = Some (bs, d') \<Longrightarrow> toy_sent d' = toy_sent d"
  by (auto simp: toy_read_def)

lemma transmit_chunks_result: "transmit_chunks room todo d = Some (Some x, d') \<Longrightarrow> x \<in> {0, - 1}"
proof (induction room todo d rule: transmit_chunks.induct)
  case (1 room todo d)
  then show ?case
    by (subst (asm) (2) transmit_chunks.simps)
      (auto simp: Let_def split: if_splits prod.splits option.splits list.splits)
qed

text \<open>The bytes among the events of the line. What a read returns is taken from their front.\<close>

definition line_bytes :: "line_event list \<Rightarrow> byte list" where
  "line_bytes es = concat (map (\<lambda>e. case e of Byte b \<Rightarrow> [b] | _ \<Rightarrow> []) es)"

lemma line_bytes_simps [simp]:
  "line_bytes [] = []" "line_bytes (Byte b # es) = b # line_bytes es" "line_bytes (Pause n # es) = line_bytes es"
  "line_bytes (Read_error # es) = line_bytes es" "line_bytes (Hangup # es) = line_bytes es"
  "line_bytes (map Byte bs @ es) = bs @ line_bytes es"
  by (simp_all add: line_bytes_def comp_def concat_map_singleton [of id, simplified])

lemma line_wait_line_bytes: "line_wait t es = (rdy, es') \<Longrightarrow> line_bytes es' = line_bytes es"
  by (induction t es rule: line_wait.induct) (auto split: if_splits)

lemma read_line_bytes: "read_with_timeout n t es = Some (bs, es') \<Longrightarrow> line_bytes es = bs @ line_bytes es' \<and> length bs \<le> n"
proof (induction n t es arbitrary: bs es' rule: read_with_timeout.induct)
  case (2 n t es)
  obtain rdy fs where w: "line_wait t es = (rdy, fs)" by fastforce
  note l = line_wait_line_bytes [OF w]
  show ?case
  proof (cases "rdy \<and> (\<exists>b gs. fs = Byte b # gs)")
    case True
    then obtain b gs where g: rdy "fs = Byte b # gs" by blast
    obtain bs' where "read_with_timeout n t gs = Some (bs', es')" "bs = b # bs'" using 2(2) w g by auto
    then show ?thesis using 2(1) [OF w [symmetric] _ g(2)] g l by simp
  next
    case False
    then show ?thesis using 2(2) w l by (auto split: bool.splits list.splits line_event.splits)
  qed
qed simp

lemma toy_read_got: "toy_read n t d = Some (bs, d') \<Longrightarrow> line_bytes (toy_line d) = bs @ line_bytes (toy_line d') \<and> length bs \<le> n"
  by (auto simp: toy_read_def dest: read_line_bytes)

text \<open>The pieces in which \<open>bs\<close> is written to a toy that grants room for \<open>gs\<close> bytes: after each
  piece there is a grant for the next one.\<close>

fun granted :: "byte list \<Rightarrow> byte list \<Rightarrow> byte list list \<Rightarrow> bool" where
  "granted [] bs cs \<longleftrightarrow> False"
| "granted (g # gs) bs [] \<longleftrightarrow> gs = [] \<and> bs = []"
| "granted (g # gs) bs (c # cs) \<longleftrightarrow> bs \<noteq> [] \<and> c = take (unat g) bs \<and> granted gs (drop (unat g) bs) cs"

lemma granted_concat: "granted gs bs cs \<Longrightarrow> concat cs = bs"
  by (induction gs bs cs rule: granted.induct) auto

lemma transmit_chunks_sent:
  "transmit_chunks room todo d = Some (None, d') \<Longrightarrow>
     \<exists>gs chunks. toy_sent d' = toy_sent d @ chunks \<and> granted (room # gs) todo chunks \<and>
       line_bytes (toy_line d) = gs @ line_bytes (toy_line d')"
proof (induction room todo d rule: transmit_chunks.induct)
  case (1 room todo d)
  show ?case
  proof (cases "todo = []")
    case True
    then show ?thesis using 1(2) by (subst (asm) transmit_chunks.simps) simp
  next
    case False
    let ?now = "take (unat room) todo"
    obtain d1 where w: "toy_write ?now d = (True, d1)"
      using 1(2) False by (subst (asm) transmit_chunks.simps) (auto simp: Let_def split: prod.splits if_splits)
    obtain r rs d2 where rd: "toy_read 1 IRTOY_TIMEOUT_READYFORDATA d1 = Some (r # rs, d2)"
      and go: "transmit_chunks r (drop (length ?now) todo) d2 = Some (None, d')"
      using 1(2) False w by (subst (asm) transmit_chunks.simps)
        (auto simp: Let_def split: prod.splits if_splits option.splits list.splits)
    have rest: "drop (length ?now) todo = drop (unat room) todo" by (simp add: min_def)
    have "\<exists>gs chunks. toy_sent d' = toy_sent d2 @ chunks \<and> granted (r # gs) (drop (length ?now) todo) chunks \<and>
        line_bytes (toy_line d2) = gs @ line_bytes (toy_line d')"
      by (rule "1.IH" [OF False refl w [symmetric] _ _ rd _ _ go]) simp_all
    then obtain gs chunks where c: "toy_sent d' = toy_sent d2 @ chunks" "granted (r # gs) (drop (unat room) todo) chunks"
      "line_bytes (toy_line d2) = gs @ line_bytes (toy_line d')" unfolding rest by blast
    have "line_bytes (toy_line d) = r # line_bytes (toy_line d2)"
      using toy_read_got [OF rd] toy_write_eq [OF w] by simp
    moreover have "granted (room # r # gs) todo (?now # chunks)" using False c(2) by simp
    moreover have "toy_sent d' = toy_sent d @ ?now # chunks"
      using c(1) toy_write_sent [OF w] toy_read_sent [OF rd] by simp
    ultimately show ?thesis using c(3) by (intro exI [of _ "r # gs"] exI [of _ "?now # chunks"]) simp
  qed
qed

lemma transmit_result_sent: "transmit_result n d = Some (x, d') \<Longrightarrow> toy_sent d' = toy_sent d"
  by (cases "toy_read 4 IRTOY_TIMEOUT_READYFORDATA d")
    (auto simp: transmit_result_def dest: toy_read_sent split: list.splits)

lemma transmit_result_confirmed:
  "transmit_result n d = Some (1, d') \<Longrightarrow>
     \<exists>hi lo. line_bytes (toy_line d) = [ascii CHR ''t'', hi, lo, ascii CHR ''C''] @ line_bytes (toy_line d') \<and>
       n = 256 * uint hi + uint lo"
  by (cases "toy_read 4 IRTOY_TIMEOUT_READYFORDATA d")
    (auto simp: transmit_result_def dest!: toy_read_got split: list.splits if_splits)

text \<open>The conversation in which a toy takes \<open>bs\<close>: \<open>d\<close> is the driver before and \<open>d'\<close> after it.\<close>

definition toy_took :: "byte list \<Rightarrow> irtoy \<Rightarrow> irtoy \<Rightarrow> bool" where
  "toy_took bs d d' \<longleftrightarrow>
     (\<exists>gs chunks hi lo. toy_sent d' = toy_sent d @ IRTOY_COMMAND_TXSTART # chunks \<and>
        granted gs bs chunks \<and> concat chunks = bs \<and>
        line_bytes (toy_line d) = gs @ [ascii CHR ''t'', hi, lo, ascii CHR ''C''] @ line_bytes (toy_line d') \<and>
        int (length bs) = 256 * uint hi + uint lo)"

lemma sent_completely:
  assumes "irtoy_send_double_buffered bs d = Some (1, d')"
  shows "toy_took bs d d'"
proof -
  obtain d1 where w: "toy_write IRTOY_COMMAND_TXSTART d = (True, d1)"
    using assms by (auto simp: irtoy_send_double_buffered_def split: prod.splits if_splits)
  obtain r rs d2 res d3 where rd: "toy_read 1 IRTOY_TIMEOUT_READYFORDATA d1 = Some (r # rs, d2)"
    and c: "transmit_chunks r bs d2 = Some (res, d3)"
    and e: "(case res of None \<Rightarrow> transmit_result (int (length bs)) d3 | Some x \<Rightarrow> Some (x, d3)) = Some (1, d')"
  proof -
    obtain room d2 where rd: "toy_read 1 IRTOY_TIMEOUT_READYFORDATA d1 = Some (room, d2)"
      using assms w by (auto simp: irtoy_send_double_buffered_def bind_eq_Some_conv)
    moreover obtain r rs where "room = r # rs"
      using assms w rd by (cases room) (auto simp: irtoy_send_double_buffered_def)
    ultimately show ?thesis
      using assms w that by (auto simp: irtoy_send_double_buffered_def bind_eq_Some_conv)
  qed
  have res: "res = None"
    using e transmit_chunks_result [of r bs d2 _ d3] c by (cases res) auto
  then have ok: "transmit_result (int (length bs)) d3 = Some (1, d')" using e by simp
  obtain gs chunks where g: "toy_sent d3 = toy_sent d2 @ chunks" "granted (r # gs) bs chunks"
      "line_bytes (toy_line d2) = gs @ line_bytes (toy_line d3)"
    using transmit_chunks_sent c res by blast
  obtain hi lo where h: "line_bytes (toy_line d3) = [ascii CHR ''t'', hi, lo, ascii CHR ''C''] @ line_bytes (toy_line d')"
      "int (length bs) = 256 * uint hi + uint lo"
    using transmit_result_confirmed [OF ok] by blast
  have "line_bytes (toy_line d) = (r # gs) @ [ascii CHR ''t'', hi, lo, ascii CHR ''C''] @ line_bytes (toy_line d')"
    using toy_read_got [OF rd] toy_write_eq [OF w] g(3) h(1) by simp
  moreover have "toy_sent d' = toy_sent d @ IRTOY_COMMAND_TXSTART # chunks"
    using transmit_result_sent [OF ok] g(1) toy_write_sent [OF w] toy_read_sent [OF rd] by simp
  ultimately show ?thesis
    unfolding toy_took_def using g(2) granted_concat [OF g(2)] h(2)
    by (intro exI [of _ "r # gs"] exI [of _ chunks] exI [of _ hi] exI [of _ lo]) (intro conjI)
qed

text \<open>The numbers of bytes that the toy grants: one at the start and one after each piece.\<close>

fun grants :: "nat \<Rightarrow> byte list \<Rightarrow> bool" where
  "grants n [] \<longleftrightarrow> False"
| "grants n (r # rs) \<longleftrightarrow> (if n = 0 then rs = [] else grants (n - unat r) rs)"

definition toy_answers :: "nat \<Rightarrow> byte list \<Rightarrow> line_event list" where
  "toy_answers n gs =
     map Byte (gs @ [ascii CHR ''t'', word_of_nat (n div 256), word_of_nat n, ascii CHR ''C''])"

lemma toy_read_Byte: "toy_line d = Byte b # es \<Longrightarrow> toy_read 1 t d = Some ([b], d\<lparr>toy_line := es\<rparr>)"
  by (simp add: toy_read_def)

lemma transmit_chunks_granted:
  "grants (length todo) (r # rs) \<Longrightarrow> toy_writes d = [] \<Longrightarrow> toy_line d = map Byte rs @ es \<Longrightarrow>
     \<exists>d'. transmit_chunks r todo d = Some (None, d') \<and> toy_line d' = es"
proof (induction rs arbitrary: r todo d)
  case Nil
  then have "todo = []" by (cases "todo = []") auto
  then show ?case using Nil by (subst transmit_chunks.simps) simp
next
  case (Cons r' rs)
  then have ne: "todo \<noteq> []" by auto
  let ?now = "take (unat r) todo"
  let ?d = "d\<lparr>toy_sent := toy_sent d @ [?now]\<rparr>"
  have w: "toy_write ?now d = (True, ?d)" using Cons.prems(2) by (simp add: toy_write_def)
  have rd: "toy_read 1 IRTOY_TIMEOUT_READYFORDATA ?d = Some ([r'], ?d\<lparr>toy_line := map Byte rs @ es\<rparr>)"
    by (rule toy_read_Byte) (use Cons.prems(3) in simp)
  have "length (drop (length ?now) todo) = length todo - unat r" by (simp add: min_def)
  then have "\<exists>d'. transmit_chunks r' (drop (length ?now) todo) (?d\<lparr>toy_line := map Byte rs @ es\<rparr>) = Some (None, d') \<and>
      toy_line d' = es"
    using Cons.prems ne by (intro Cons.IH) auto
  then show ?case by (subst transmit_chunks.simps) (use ne w rd in \<open>simp add: Let_def\<close>)
qed



section \<open>Properties\<close>

lemma length_raw_bytes: "length (raw_bytes xs) = 2 * length xs + 2"
  by (induction xs) (simp_all add: raw_bytes_def irtoy_bytes_def Let_def)

lemma transmit_result_ok:
  assumes "toy_line d = map Byte [ascii CHR ''t'', word_of_nat (n div 256), word_of_nat n, ascii CHR ''C''] @ es" "n < 65536"
  shows "transmit_result (int n) d = Some (1, d\<lparr>toy_line := es\<rparr>)"
proof -
  have u: "uint (word_of_nat k :: byte) = int (k mod 256)" for k
    by (simp add: unsigned_of_nat take_bit_eq_mod)
  have "n div 256 mod 256 = n div 256" using assms(2) by simp
  then have "256 * uint (word_of_nat (n div 256) :: byte) + uint (word_of_nat n :: byte) =
      256 * int (n div 256) + int (n mod 256)"
    unfolding u by (simp only:)
  also have "\<dots> = int (256 * (n div 256) + n mod 256)" by (simp only: of_nat_mult of_nat_add of_nat_numeral)
  also have "\<dots> = int n" by (simp only: mult_div_mod_eq)
  finally have "256 * uint (word_of_nat (n div 256) :: byte) + uint (word_of_nat n :: byte) = int n" .
  moreover have "read_with_timeout 4 t (map Byte [a, b, c, e] @ es) = Some ([a, b, c, e], es)" for t a b c e
    by (simp add: eval_nat_numeral)
  ultimately show ?thesis
    using assms(1) by (simp add: transmit_result_def toy_read_def)
qed

lemma transmitted:
  assumes "grants (length bs) gs" "length bs < 65536" "toy_writes d = []"
    and l: "toy_line d = toy_answers (length bs) gs @ es"
  shows "\<exists>d'. irtoy_send_double_buffered bs d = Some (1, d') \<and> toy_line d' = es"
proof -
  obtain r rs where gs: "gs = r # rs" using assms(1) by (cases gs) auto
  let ?t = "map Byte [ascii CHR ''t'', word_of_nat (length bs div 256), word_of_nat (length bs), ascii CHR ''C''] @ es"
  let ?d = "d\<lparr>toy_sent := toy_sent d @ [IRTOY_COMMAND_TXSTART]\<rparr>"
  have w: "toy_write IRTOY_COMMAND_TXSTART d = (True, ?d)" using assms(3) by (simp add: toy_write_def)
  have rd: "toy_read 1 IRTOY_TIMEOUT_READYFORDATA ?d = Some ([r], ?d\<lparr>toy_line := map Byte rs @ ?t\<rparr>)"
    by (rule toy_read_Byte) (simp add: l toy_answers_def gs)
  obtain d2 where c: "transmit_chunks r bs (?d\<lparr>toy_line := map Byte rs @ ?t\<rparr>) = Some (None, d2)" "toy_line d2 = ?t"
    using transmit_chunks_granted [of bs r rs "?d\<lparr>toy_line := map Byte rs @ ?t\<rparr>" ?t] assms(1,3) gs by auto
  show ?thesis
    using transmit_result_ok [OF c(2) assms(2)] w rd c(1) by (simp add: irtoy_send_double_buffered_def)
qed

text \<open>C4: A button that one toy sends and another one hears is reported. The remote is space encoded, alone
  in the list, and tolerates 22 microseconds; the button is pressed anew. With a toy that grants room
  for the whole signal and confirms it, \<open>irtoy_send\<close> returns 1 and has written exactly the lengths of
  the signal and the end mark. A driver on whose line these lengths arrive delivers a long space and then the
  pulses and spaces, each at most 22 microseconds shorter; the mark that the hearing toy sends in the silence
  after a signal is not needed for this and stays on the line, with whatever else follows. From these
  samples \<open>decode_all\<close> makes the message of the button. That the message reaches the clients is not part
  of this.\<close>

theorem press_through_toys:
  fixes s :: "'z lircd_rel_scheme"
  assumes "space_encoded (store s p)" "masked_remote (store s p)" "bits_distinct (hw s) (store s p)"
    and "codes (store s p) = Some cs" "first_button (store s p) i" "can_send_once (store s p) (cs ! i)"
    and xs: "xs = frame_samples (store s p) (nc_code (cs ! i)) False"
    and "\<forall>x \<in> set xs. toy_length x \<and> tolerance_fits (hw s) (store s p) x"
    and "22 \<le> max (uint (resolution (hw s))) (aeps (store s p))"
    and "grants (2 * length xs + 2) gs" "toy_writes d = []" "toy_line d = toy_answers (2 * length xs + 2) gs @ es"
    and "awaitingNewSig e" "toy_line e = map Byte (concat (map irtoy_bytes xs)) @ fs" "length ts = Suc (length xs)"
    and "listening p IRTOY_LONGSPACE (map irtoy_heard xs) s"
    and "press_message (store s p) i = Some msg" "length msg \<le> PACKET_SIZE"
  shows "(\<exists>r' c' d' chunks. irtoy_send False (store s p) (cs ! i) d = Some (1, r', c', d') \<and> toy_line d' = es \<and>
       toy_sent d' = toy_sent d @ IRTOY_COMMAND_TXSTART # chunks \<and>
       concat chunks = concat (map irtoy_bytes xs) @ [0xff, 0xff]) \<and>
     (\<exists>e'. irtoy_samples ts e = Some (whole_input s, e') \<and> toy_line e' = fs) \<and>
     (\<exists>s'. decode_all receive_decode [p] s = Some (Some msg, s') \<and> last_code (store s' p) = Some i)"
proof (intro conjI)
  have f: "frame_ok (store s p) (nc_code (cs ! i)) False" by (rule can_send_once_frame [OF assms(6)])
  have n: "length xs \<le> 256" using frame_ok_length [OF f] xs by simp
  have ne: "xs \<noteq> []"
    using code_toks_space_encoded(3) [OF assms(1), of "nc_code (cs ! i)"]
    by (auto simp: xs frame_samples_space_encoded [OF assms(1)])
  obtain r' b' where b: "init_send False (store s p) (cs ! i) (toy_buf d) = Some (True, r', cs ! i, b')"
      "buffer_samples b' = Some xs"
    using init_send_frame [OF assms(1,6)] xs by blast
  let ?d = "d\<lparr>toy_buf := b'\<rparr>"
  obtain d' where d': "irtoy_send_double_buffered (raw_bytes xs) ?d = Some (1, d')" "toy_line d' = es"
    using transmitted [of "raw_bytes xs" gs ?d es] n assms by (auto simp: length_raw_bytes)
  have "irtoy_send False (store s p) (cs ! i) d = Some (1, r', cs ! i, d')"
    using n b d'(1) by (simp add: irtoy_send_def WBUF_SIZE_def)
  then show "\<exists>r' c' d' chunks. irtoy_send False (store s p) (cs ! i) d = Some (1, r', c', d') \<and> toy_line d' = es \<and>
       toy_sent d' = toy_sent d @ IRTOY_COMMAND_TXSTART # chunks \<and>
       concat chunks = concat (map irtoy_bytes xs) @ [0xff, 0xff]"
    using sent_completely [OF d'(1)] d'(2) by (auto simp: raw_bytes_def toy_took_def)
  show "\<exists>e'. irtoy_samples ts e = Some (whole_input s, e') \<and> toy_line e' = fs"
    using toy_read_signal [of xs e ts fs] assms ne by (auto simp: listening_def)
  have "received (hw s) (store s p) (frame_samples (store s p) (nc_code (cs ! i)) False) (map irtoy_heard xs)"
    using toy_received [OF assms(8,9)] xs by simp
  from decode_all_frame [OF assms(1,2,5,4,3,16) f this assms(17,18)]
  show "\<exists>s'. decode_all receive_decode [p] s = Some (Some msg, s') \<and> last_code (store s' p) = Some i" by blast
qed

text \<open>C23: A transmission for which \<open>irtoy_send_double_buffered\<close> returns 1 has been taken by the toy: the
  driver has written the start of a transmission and then all the bytes in order, each piece as long as the
  toy granted for it or the rest, with a grant behind every piece; and the bytes that were read from the toy
  are these grants and a report of exactly the number of bytes, complete.\<close>

theorem success_means_sent:
  assumes "irtoy_send_double_buffered bs d = Some (1, d')"
  shows "\<exists>gs chunks hi lo. toy_sent d' = toy_sent d @ IRTOY_COMMAND_TXSTART # chunks \<and>
     granted gs bs chunks \<and> concat chunks = bs \<and>
     line_bytes (toy_line d) = gs @ [ascii CHR ''t'', hi, lo, ascii CHR ''C''] @ line_bytes (toy_line d') \<and>
     int (length bs) = 256 * uint hi + uint lo"
  using sent_completely [OF assms] unfolding toy_took_def .

text \<open>A toy that does not answer: \<open>irtoy_send\<close> has written only the command that starts a
  transmission and returns -1, which counts as success, so that the button is taken to be sent.\<close>

theorem unanswered_is_success:
  assumes "space_encoded r" "can_send_once r (cs ! i)" "codes r = Some cs" "i < length cs"
    and "toy_line d = []" "toy_writes d = []"
  shows "\<exists>r' d'. irtoy_send_func False h r i d = Some (True, r', d') \<and>
    toy_sent d' = toy_sent d @ [IRTOY_COMMAND_TXSTART]"
proof -
  let ?xs = "frame_samples r (nc_code (cs ! i)) False"
  obtain r' b' where b: "init_send False r (cs ! i) (toy_buf d) = Some (True, r', cs ! i, b')" "buffer_samples b' = Some ?xs"
    using init_send_frame [OF assms(1,2)] by blast
  have n: "length ?xs \<le> 256" using frame_ok_length [OF can_send_once_frame [OF assms(2)]] by simp
  have "irtoy_send_double_buffered bs (d\<lparr>toy_buf := b'\<rparr>) =
      Some (- 1, d\<lparr>toy_buf := b', toy_sent := toy_sent d @ [IRTOY_COMMAND_TXSTART], toy_line := []\<rparr>)" for bs
    using assms(5,6) by (simp add: irtoy_send_double_buffered_def toy_write_def toy_read_def)
  then show ?thesis
    using b n assms(3,4) by (simp add: irtoy_send_func_def irtoy_send_def ncode_at_def WBUF_SIZE_def)
qed


section \<open>A concrete toy\<close>

definition demo_toy :: "line_event list \<Rightarrow> irtoy" where
  "demo_toy es = \<lparr>hwVersion = 2, swVersion = 22, protoVersion = 1, awaitingNewSig = True, toy_pulse = True,
     toy_line = es, toy_writes = [], toy_sent = [], toy_buf = init_send_buffer\<rparr>"

definition demo_toy_signal :: "lirc_t list" where
  "demo_toy_signal = frame_samples demo_remote 0x13 False"

lemma demo_toy_signal_ok:
  "length demo_toy_signal = 35"
  "list_all (\<lambda>x. toy_length x \<and> tolerance_fits demo_hw demo_remote x) demo_toy_signal"
  by code_simp+

lemma press_through_toys_witness:
  "(\<exists>r' c' d' chunks. irtoy_send False demo_remote (demo_button ''MUTE'' 0x13)
        (demo_toy (toy_answers 72 [62, 62, 62])) = Some (1, r', c', d') \<and>
      toy_sent d' = IRTOY_COMMAND_TXSTART # chunks \<and>
      concat chunks = concat (map irtoy_bytes demo_toy_signal) @ [0xff, 0xff]) \<and>
   (\<exists>e'. irtoy_samples (replicate 36 0) (demo_toy (map Byte (concat (map irtoy_bytes demo_toy_signal)))) =
      Some (1000000 # mark_pulses (map irtoy_heard demo_toy_signal), e')) \<and>
   (\<exists>s'. decode_all receive_decode [0] (demo_lircd (1000000 # mark_pulses (map irtoy_heard demo_toy_signal))) =
      Some (Some (''000000000000c113 00 MUTE TV'' @ [CHR 0x0A]), s') \<and> last_code (store s' 0) = Some 1)"
proof -
  let ?s = "demo_lircd (1000000 # mark_pulses (map irtoy_heard demo_toy_signal))"
  let ?cs = "[demo_button ''POWER'' 0x5A, demo_button ''MUTE'' 0x13]"
  let ?d = "demo_toy (toy_answers 72 [62, 62, 62])"
  let ?e = "demo_toy (map Byte (concat (map irtoy_bytes demo_toy_signal)))"
  have s: "store ?s 0 = demo_remote" "hw ?s = demo_hw" by (simp_all add: demo_lircd_def)
  have c: "?cs ! 1 = demo_button ''MUTE'' 0x13" "nc_code (demo_button ''MUTE'' 0x13) = 0x13"
    by (simp_all add: demo_button_def)
  have m: "space_encoded demo_remote" "masked_remote demo_remote" "bits_distinct demo_hw demo_remote"
    "first_button demo_remote 1" "can_send_once demo_remote (demo_button ''MUTE'' 0x13)"
    "press_message demo_remote 1 = Some (''000000000000c113 00 MUTE TV'' @ [CHR 0x0A])"
    "samples_mode demo_hw" "grants 72 [62, 62, 62]"
    by code_simp+
  have k: "codes demo_remote = Some ?cs" "22 \<le> max (uint (resolution demo_hw)) (aeps demo_remote)"
    by (simp_all add: demo_remote_def)
  have l: "listening 0 IRTOY_LONGSPACE (map irtoy_heard demo_toy_signal) ?s"
    using m(7)
    by (simp add: demo_lircd_def listening_def gap_accepted_def len24_def rx_ok_def RBUF_SIZE_def
        timerisset_def timeval0_def whole_input_def fresh_press_def IRTOY_LONGSPACE_def)
  have t: "toy_writes ?d = []" "toy_line ?d = toy_answers 72 [62, 62, 62] @ []" "toy_sent ?d = []"
    "awaitingNewSig ?e" "toy_line ?e = map Byte (concat (map irtoy_bytes demo_toy_signal)) @ []"
    by (simp_all add: demo_toy_def)
  have w: "whole_input ?s = 1000000 # mark_pulses (map irtoy_heard demo_toy_signal)"
    by (simp add: whole_input_def demo_lircd_def)
  note p = press_through_toys [of ?s 0 ?cs 1 demo_toy_signal "[62, 62, 62]" ?d "[]" ?e "[]" "replicate 36 0"
      "''000000000000c113 00 MUTE TV'' @ [CHR 0x0A]", unfolded s c]
  have "2 * length demo_toy_signal + 2 = 72" "length (replicate 36 (0 :: lirc_t)) = Suc (length demo_toy_signal)"
    using demo_toy_signal_ok(1) by simp_all
  note p = p [unfolded this, OF m(1-3) k(1) m(4,5) demo_toy_signal_def _ k(2) m(8) t(1,2,4,5) refl l m(6)]
  have "\<forall>x \<in> set demo_toy_signal. toy_length x \<and> tolerance_fits demo_hw demo_remote x"
    using demo_toy_signal_ok(2) by (simp add: list_all_iff)
  from p [OF this] show ?thesis using t(3) w by (auto simp: PACKET_SIZE_def)
qed

lemma success_means_sent_witness:
  "\<exists>d' gs chunks hi lo. irtoy_send_double_buffered [1, 2, 3] (demo_toy (toy_answers 3 [2, 2, 2])) = Some (1, d') \<and>
     toy_sent d' = IRTOY_COMMAND_TXSTART # chunks \<and> granted gs [1, 2, 3] chunks \<and>
     [2, 2, 2, 116, 0, 3, 67] = gs @ [116, hi, lo, 67] @ line_bytes (toy_line d') \<and> 3 = 256 * uint hi + uint lo"
proof -
  let ?d = "demo_toy (toy_answers 3 [2, 2, 2])"
  have "grants (length [1, 2, 3 :: byte]) [2, 2, 2]" by code_simp
  then have g: "grants (length [1, 2, 3 :: byte]) [2, 2, 2]" .
  have n3: "length [1, 2, 3 :: byte] = 3" by simp
  have "length [1, 2, 3 :: byte] < 65536" "toy_writes ?d = []"
    "toy_line ?d = toy_answers (length [1, 2, 3 :: byte]) [2, 2, 2] @ []"
    by (simp, simp add: demo_toy_def) (simp only: n3 demo_toy_def irtoy.simps append_Nil2)
  from transmitted [OF g this] obtain d' where d': "irtoy_send_double_buffered [1, 2, 3] ?d = Some (1, d')" by blast
  have "line_bytes (toy_line ?d) = [2, 2, 2, 116, 0, 3, 67]" "ascii CHR ''t'' = 116" "ascii CHR ''C'' = 67"
    by code_simp+
  with success_means_sent [OF d'] d' show ?thesis by (auto simp: demo_toy_def)
qed

lemma unanswered_is_success_witness:
  "\<exists>r' d'. irtoy_send_func False demo_hw demo_remote 1 (demo_toy []) = Some (True, r', d') \<and>
     toy_sent d' = [IRTOY_COMMAND_TXSTART]"
proof -
  let ?cs = "[demo_button ''POWER'' 0x5A, demo_button ''MUTE'' 0x13]"
  have "space_encoded demo_remote" "can_send_once demo_remote (demo_button ''MUTE'' 0x13)"
    by code_simp+
  then have "\<exists>r' d'. irtoy_send_func False demo_hw demo_remote 1 (demo_toy []) = Some (True, r', d') \<and>
     toy_sent d' = toy_sent (demo_toy []) @ [IRTOY_COMMAND_TXSTART]"
    by (intro unanswered_is_success [where cs = ?cs]) (simp_all add: demo_remote_def demo_toy_def)
  then show ?thesis by (simp add: demo_toy_def)
qed

text \<open>For a remote that is not in raw mode \<open>irtoy_send\<close> never writes behind the array \<open>rawSB\<close>; the
  signal of a raw button is not checked, and one with more than 256 lengths is written behind it.\<close>

theorem raw_array_bounds:
  assumes "init_send repeating r c (toy_buf d) = Some (True, r', c', b)" "buffer_samples b = Some xs"
  shows "(\<not> is_raw r \<longrightarrow> irtoy_send repeating r c d =
      map_option (\<lambda>(res, d). (res, r', c', d)) (irtoy_send_double_buffered (raw_bytes xs) (d\<lparr>toy_buf := b\<rparr>))) \<and>
    (256 < length xs \<longrightarrow> irtoy_send repeating r c d = None)"
proof -
  have "\<not> is_raw r \<Longrightarrow> length xs \<le> 256"
    using init_send_fits [OF assms(1)] buffer_samples_fit [OF assms(2)] by (simp add: WBUF_SIZE_def)
  then show ?thesis
    using assms
    by (cases "irtoy_send_double_buffered (raw_bytes xs) (d\<lparr>toy_buf := b\<rparr>)"; cases "is_raw r")
      (simp_all add: irtoy_send_def WBUF_SIZE_def split: prod.splits)
qed

definition long_raw_button :: ir_ncode where
  "long_raw_button = ncode0\<lparr>nc_name := ''RAW'', nc_signals := Some (replicate 257 500)\<rparr>"

lemma raw_array_bounds_witness:
  "irtoy_send False (remote0\<lparr>flags := RAW_CODES, gap := 40000, codes := Some [long_raw_button]\<rparr>) long_raw_button
     (demo_toy []) = None"
proof -
  let ?r = "remote0\<lparr>flags := RAW_CODES, gap := 40000, codes := Some [long_raw_button]\<rparr>"
  have "(case init_send False ?r long_raw_button init_send_buffer of
      Some (ok, r', c', b) \<Rightarrow> ok \<and> buffer_samples b = Some (replicate 257 500) | None \<Rightarrow> False)"
    by code_simp
  then obtain r' c' b where "init_send False ?r long_raw_button (toy_buf (demo_toy [])) = Some (True, r', c', b)"
    "buffer_samples b = Some (replicate 257 500)"
    by (auto simp: demo_toy_def split: option.splits)
  from raw_array_bounds [OF this] show ?thesis by simp
qed

end
