(* ===== verification/Lircmd.thy ===== *)
theory Lircmd
  imports HwIrtoy ConfigRead RcClient
begin

text \<open>
  The mouse daemon \<open>daemons/lircmd.c\<close>, a client of \<open>lircd\<close>: button presses that \<open>lircd\<close> reports
  are turned into the packets of a mouse, which are written to a fifo. The part for Linux input
  devices is compiled on Linux only and left out, and so is what is logged.

  \<open>ALL\<close> as a remote or button is \<open>None\<close>. The state is \<open>ms\<close>, the static \<open>buttons\<close> of \<open>msend\<close>, the
  list of translations, and the packets that have been written.
\<close>

section \<open>Directives and state\<close>

datatype mouse_directive =
    move_n | move_ne | move_e | move_se | move_s | move_sw | move_w | move_nw | move_in | move_out
  | button1_down | button1_up | button1_toggle | button1_click
  | button2_down | button2_up | button2_toggle | button2_click
  | button3_down | button3_up | button3_toggle | button3_click
  | mouse_activate | mouse_toggle_activate | ignore

definition BUTTON1 :: int where [c_eval]: "BUTTON1 = 4"
definition BUTTON2 :: int where [c_eval]: "BUTTON2 = 2"
definition BUTTON3 :: int where [c_eval]: "BUTTON3 = 1"

definition map_buttons :: "int \<Rightarrow> nat" where
  "map_buttons b = (if b = BUTTON1 then 0 else if b = BUTTON2 then 1 else 2)"

record config_mouse =
  cm_string :: string
  cm_d :: mouse_directive
  cm_x :: int
  cm_y :: int
  cm_z :: int
  cm_down :: int
  cm_up :: int
  cm_toggle :: bool

definition mouse_entry :: "string \<Rightarrow> mouse_directive \<Rightarrow> int \<Rightarrow> int \<Rightarrow> int \<Rightarrow> int \<Rightarrow> int \<Rightarrow> bool \<Rightarrow> config_mouse" where
  "mouse_entry s d x y z down up toggle =
     \<lparr>cm_string = s, cm_d = d, cm_x = x, cm_y = y, cm_z = z, cm_down = down, cm_up = up, cm_toggle = toggle\<rparr>"

definition config_table :: "config_mouse list" where
  "config_table =
     [mouse_entry ''MOVE_N'' move_n 0 1 0 0 0 False,
      mouse_entry ''MOVE_NE'' move_ne 1 1 0 0 0 False,
      mouse_entry ''MOVE_E'' move_e 1 0 0 0 0 False,
      mouse_entry ''MOVE_SE'' move_se 1 (- 1) 0 0 0 False,
      mouse_entry ''MOVE_S'' move_s 0 (- 1) 0 0 0 False,
      mouse_entry ''MOVE_SW'' move_sw (- 1) (- 1) 0 0 0 False,
      mouse_entry ''MOVE_W'' move_w (- 1) 0 0 0 0 False,
      mouse_entry ''MOVE_NW'' move_nw (- 1) 1 0 0 0 False,
      mouse_entry ''MOVE_IN'' move_in 0 0 (- 1) 0 0 False,
      mouse_entry ''MOVE_OUT'' move_out 0 0 1 0 0 False,
      mouse_entry ''BUTTON1_DOWN'' button1_down 0 0 0 BUTTON1 0 False,
      mouse_entry ''BUTTON1_UP'' button1_up 0 0 0 0 BUTTON1 False,
      mouse_entry ''BUTTON1_TOGGLE'' button1_toggle 0 0 0 BUTTON1 BUTTON1 True,
      mouse_entry ''BUTTON1_CLICK'' button1_click 0 0 0 BUTTON1 BUTTON1 False,
      mouse_entry ''BUTTON2_DOWN'' button2_down 0 0 0 BUTTON2 0 False,
      mouse_entry ''BUTTON2_UP'' button2_up 0 0 0 0 BUTTON2 False,
      mouse_entry ''BUTTON2_TOGGLE'' button2_toggle 0 0 0 BUTTON2 BUTTON2 True,
      mouse_entry ''BUTTON2_CLICK'' button2_click 0 0 0 BUTTON2 BUTTON2 False,
      mouse_entry ''BUTTON3_DOWN'' button3_down 0 0 0 BUTTON3 0 False,
      mouse_entry ''BUTTON3_UP'' button3_up 0 0 0 0 BUTTON3 False,
      mouse_entry ''BUTTON3_TOGGLE'' button3_toggle 0 0 0 BUTTON3 BUTTON3 True,
      mouse_entry ''BUTTON3_CLICK'' button3_click 0 0 0 BUTTON3 BUTTON3 False,
      mouse_entry ''IGNORE'' ignore 0 0 0 0 0 False]"

datatype mouse_protocol = mouse_systems | imps_2 | im_serial

record trans_mouse =
  tm_remote :: "string option"
  tm_button :: "string option"
  tm_directive :: mouse_directive

record state_mouse =
  ms_protocol :: mouse_protocol
  ms_always_active :: bool
  ms_toggle_active :: bool
  ms_active :: bool
  ms_acc_start :: int
  ms_acc_max :: int
  ms_acc_fak :: int
  ms_buttons :: "bool list"

definition state_mouse0 :: state_mouse where
  "state_mouse0 = \<lparr>ms_protocol = mouse_systems, ms_always_active = True, ms_toggle_active = False,
     ms_active = False, ms_acc_start = 2, ms_acc_max = 20, ms_acc_fak = 2,
     ms_buttons = [False, False, False]\<rparr>"

record lircmd =
  md_ms :: state_mouse
  md_buttons :: int
  md_list :: "trans_mouse list"
  md_out :: "byte list list"

section \<open>Packets\<close>

text \<open>The factor by which a move is repeated while the button is held.\<close>

definition acceleration :: "state_mouse \<Rightarrow> int \<Rightarrow> int" where
  "acceleration m rep =
     (if rep \<ge> ms_acc_start m then
        if i32 (rep * ms_acc_fak m) \<ge> ms_acc_max m then ms_acc_max m else i32 (rep * ms_acc_fak m)
      else 1)"

definition mouse_packet :: "mouse_protocol \<Rightarrow> int \<Rightarrow> int \<Rightarrow> int \<Rightarrow> int \<Rightarrow> byte list" where
  "mouse_packet p b dx dy dz =
     (case p of
        mouse_systems \<Rightarrow>
          [NOT (word_of_int (b OR 0x78)), word_of_int dx, word_of_int dy, 0, 0]
      | imps_2 \<Rightarrow>
          [(if b AND BUTTON1 \<noteq> 0 then 0x01 else 0) OR (if b AND BUTTON3 \<noteq> 0 then 0x02 else 0) OR
             (if b AND BUTTON2 \<noteq> 0 then 0x04 else 0) OR 0x08 OR
             (if dx < 0 then 0x10 else 0) OR (if dy < 0 then 0x20 else 0),
           word_of_int (dx + (if dx \<ge> 0 then 0 else 256)),
           word_of_int (dy + (if dy \<ge> 0 then 0 else 256)),
           word_of_int dz]
      | im_serial \<Rightarrow>
          let dy = - dy
          in [(if b AND BUTTON1 \<noteq> 0 then 0x20 else 0) OR (if b AND BUTTON3 \<noteq> 0 then 0x10 else 0) OR
                0x40 OR word_of_int (drop_bit 6 (dx AND 0xC0)) OR word_of_int (drop_bit 4 (dy AND 0xC0)),
              word_of_int (dx AND NOT 0xC0), word_of_int (dy AND NOT 0xC0),
              (if dz < 0 then 0x0f else 0) OR (if dz > 0 then 0x01 else 0) OR
                (if b AND BUTTON2 \<noteq> 0 then 0x10 else 0)])"

definition msend :: "int \<Rightarrow> int \<Rightarrow> int \<Rightarrow> int \<Rightarrow> int \<Rightarrow> int \<Rightarrow> lircmd \<Rightarrow> lircmd" where
  "msend dx dy dz rep buttp buttr s =
     (let b = (md_buttons s OR buttp) AND NOT buttr
      in s\<lparr>md_buttons := b,
           md_out := md_out s @ replicate (nat (acceleration (md_ms s) rep))
                                  (mouse_packet (ms_protocol (md_ms s)) b dx dy dz)\<rparr>)"

definition mouse_move :: "int \<Rightarrow> int \<Rightarrow> int \<Rightarrow> int \<Rightarrow> lircmd \<Rightarrow> lircmd" where
  "mouse_move dx dy dz rep s = msend dx dy dz rep 0 0 s"

definition note_button :: "int \<Rightarrow> int \<Rightarrow> bool \<Rightarrow> state_mouse \<Rightarrow> state_mouse" where
  "note_button bs b v m =
     (if bs AND b \<noteq> 0 then m\<lparr>ms_buttons := (ms_buttons m)[map_buttons b := v]\<rparr> else m)"

definition note_buttons :: "int \<Rightarrow> bool \<Rightarrow> state_mouse \<Rightarrow> state_mouse" where
  "note_buttons bs v m = note_button bs BUTTON3 v (note_button bs BUTTON2 v (note_button bs BUTTON1 v m))"

definition mouse_button :: "int \<Rightarrow> int \<Rightarrow> int \<Rightarrow> lircmd \<Rightarrow> lircmd" where
  "mouse_button down up rep s =
     (if rep = 0 then
        let s = msend 0 0 0 rep down up s
        in s\<lparr>md_ms := note_buttons up False (note_buttons down True (md_ms s))\<rparr>
      else s)"

section \<open>The circle\<close>

text \<open>The moves of one octant; \<open>a\<close> and \<open>b\<close> are the directions for the two kinds of step.\<close>

function circle_octant :: "int \<times> int \<Rightarrow> int \<times> int \<Rightarrow> int \<Rightarrow> int \<Rightarrow> int \<Rightarrow> int \<Rightarrow> int \<Rightarrow> (int \<times> int) list" where
  "circle_octant a b d incX incY x y =
     (if \<not> x < y then []
      else if d \<ge> 0 then
        a # circle_octant a b (d - (incY - 2) + (incX + 2 + 1)) (incX + 2) (incY - 2) (x + 1) (y - 1)
      else b # circle_octant a b (d + (incX + 2 + 1)) (incX + 2) incY (x + 1) y)"
  by pat_completeness auto
termination
  by (relation "measure (\<lambda>(a, b, d, incX, incY, x, y). nat (y - x))") (auto split: if_splits)

declare circle_octant.simps [simp del]

definition circle_dd :: "int list" where "circle_dd = [1, 0, - 1, - 1, - 1, 0, 1, 1]"

definition circle_moves :: "int \<Rightarrow> int \<Rightarrow> int \<Rightarrow> (int \<times> int) list" where
  "circle_moves r dirx diry =
     concat (map (\<lambda>i. circle_octant
         (dirx * circle_dd ! i, diry * circle_dd ! ((i + 8 - 6) mod 8))
         (dirx * circle_dd ! ((i + 8 - 1) mod 8), diry * circle_dd ! ((i + 8 - 7) mod 8))
         (1 - r) 0 (2 * r) 0 r) [0..<8])"

definition mouse_circle :: "int \<Rightarrow> int \<Rightarrow> int \<Rightarrow> lircmd \<Rightarrow> lircmd" where
  "mouse_circle r dirx diry s = fold (\<lambda>(dx, dy). mouse_move dx dy 0 0) (circle_moves r dirx diry) s"

definition CIRCLE :: int where "CIRCLE = 10"

definition activate :: "lircmd \<Rightarrow> lircmd" where
  "activate s = mouse_circle CIRCLE 1 1 (s\<lparr>md_ms := (md_ms s)\<lparr>ms_active := True\<rparr>\<rparr>)"

definition deactivate :: "lircmd \<Rightarrow> lircmd" where
  "deactivate s =
     (let s = mouse_button 0 (BUTTON1 OR BUTTON2 OR BUTTON3) 0 s
      in mouse_circle CIRCLE (- 1) 1 (s\<lparr>md_ms := (md_ms s)\<lparr>ms_active := False\<rparr>\<rparr>))"

section \<open>From button presses to packets\<close>

definition tm_matches :: "string \<Rightarrow> string \<Rightarrow> trans_mouse \<Rightarrow> bool" where
  "tm_matches button remote tm \<longleftrightarrow>
     (case tm_remote tm of None \<Rightarrow> True | Some r \<Rightarrow> strcaseeq remote r) \<and>
     (case tm_button tm of None \<Rightarrow> True | Some b \<Rightarrow> strcaseeq button b)"

definition change_active :: "mouse_directive \<Rightarrow> int \<Rightarrow> lircmd \<Rightarrow> lircmd" where
  "change_active d rep s =
     (let m = md_ms s
      in if d = mouse_activate then
           (if \<not> ms_active m \<and> \<not> ms_always_active m then activate s else s)
         else if d = mouse_toggle_activate \<and> rep = 0 \<and> \<not> ms_always_active m then
           (if \<not> ms_active m
            then let s = activate s in s\<lparr>md_ms := (md_ms s)\<lparr>ms_toggle_active := True\<rparr>\<rparr>
            else deactivate s)
         else s)"

definition run_entry :: "config_mouse \<Rightarrow> int \<Rightarrow> lircmd \<Rightarrow> lircmd" where
  "run_entry c rep s =
     (let s = (if cm_x c \<noteq> 0 \<or> cm_y c \<noteq> 0 \<or> cm_z c \<noteq> 0 then mouse_move (cm_x c) (cm_y c) (cm_z c) rep s else s)
      in if cm_toggle c then
           (if \<not> ms_buttons (md_ms s) ! map_buttons (cm_up c) then mouse_button (cm_down c) 0 rep s
            else mouse_button 0 (cm_up c) rep s)
         else if cm_down c \<noteq> 0 \<and> cm_up c \<noteq> 0 then mouse_button 0 (cm_up c) rep (mouse_button (cm_down c) 0 rep s)
         else if cm_down c \<noteq> 0 \<or> cm_up c \<noteq> 0 then mouse_button (cm_down c) (cm_up c) rep s
         else s)"

definition run_mouse_directive :: "mouse_directive \<Rightarrow> int \<Rightarrow> lircmd \<Rightarrow> lircmd" where
  "run_mouse_directive d rep s =
     (if d \<noteq> ignore \<and> (ms_active (md_ms s) \<or> ms_always_active (md_ms s)) then
        (case find (\<lambda>c. cm_d c = d) config_table of None \<Rightarrow> s | Some c \<Rightarrow> run_entry c rep s)
      else s)"

fun conv_list :: "int \<Rightarrow> string \<Rightarrow> string \<Rightarrow> trans_mouse list \<Rightarrow> bool \<times> lircmd \<Rightarrow> bool \<times> lircmd" where
  "conv_list rep button remote [] fs = fs"
| "conv_list rep button remote (tm # tms) (found, s) =
     (if tm_matches button remote tm then
        conv_list rep button remote tms
          (True, run_mouse_directive (tm_directive tm) rep (change_active (tm_directive tm) rep s))
      else conv_list rep button remote tms (found, s))"

definition mouse_conv :: "int \<Rightarrow> string \<Rightarrow> string \<Rightarrow> lircmd \<Rightarrow> lircmd" where
  "mouse_conv rep button remote s =
     (case conv_list rep button remote (md_list s) (False, s) of (found, s) \<Rightarrow>
        if \<not> found \<and> ms_active (md_ms s) \<and> \<not> ms_always_active (md_ms s) \<and> \<not> ms_toggle_active (md_ms s)
        then deactivate s else s)"

section \<open>The configuration file\<close>

definition MD_PACKET_SIZE :: nat where [c_eval]: "MD_PACKET_SIZE = 256"

definition protocol_named :: "string \<Rightarrow> mouse_protocol option" where
  "protocol_named n =
     (if strcaseeq ''MouseSystems'' n then Some mouse_systems
      else if strcaseeq ''IMPS/2'' n then Some imps_2
      else if strcaseeq ''IntelliMouse'' n then Some im_serial else None)"

definition protocol_line :: "string list \<Rightarrow> state_mouse \<Rightarrow> state_mouse" where
  "protocol_line args m =
     (case args of
        [] \<Rightarrow> m
      | n # _ \<Rightarrow> (case protocol_named n of None \<Rightarrow> m | Some p \<Rightarrow> m\<lparr>ms_protocol := p\<rparr>))"

definition accelerator_line :: "state_mouse \<Rightarrow> string list \<Rightarrow> state_mouse \<Rightarrow> state_mouse" where
  "accelerator_line old args m =
     (let m = (case args of [] \<Rightarrow> m | a # _ \<Rightarrow> m\<lparr>ms_acc_start := atoi a\<rparr>);
          m = (if length args > 1 then m\<lparr>ms_acc_max := atoi (args ! 1)\<rparr> else m);
          m = (if length args > 2 then m\<lparr>ms_acc_fak := atoi (args ! 2)\<rparr> else m)
      in if length args > 3
         then m\<lparr>ms_acc_start := ms_acc_start old, ms_acc_max := ms_acc_max old, ms_acc_fak := ms_acc_fak old\<rparr>
         else m)"

definition name_or_any :: "string \<Rightarrow> string option" where
  "name_or_any n = (if n = ''*'' then None else Some n)"

definition directive_named :: "string \<Rightarrow> mouse_directive option" where
  "directive_named n =
     (if strcaseeq ''ACTIVATE'' n then Some mouse_activate
      else if strcaseeq ''TOGGLE_ACTIVATE'' n then Some mouse_toggle_activate
      else map_option cm_d (find (\<lambda>c. strcaseeq (cm_string c) n) config_table))"

definition trans_line :: "string list \<Rightarrow> state_mouse \<times> trans_mouse list \<Rightarrow> state_mouse \<times> trans_mouse list" where
  "trans_line ts ml =
     (case (ts, ml) of
        ([n, r, b], m, tms) \<Rightarrow>
          (case directive_named n of
             None \<Rightarrow> (m, tms)
           | Some d \<Rightarrow>
               (if d = mouse_activate \<or> d = mouse_toggle_activate then m\<lparr>ms_always_active := False\<rparr> else m,
                tms @ [\<lparr>tm_remote = name_or_any r, tm_button = name_or_any b, tm_directive = d\<rparr>]))
      | _ \<Rightarrow> ml)"

definition mouse_line :: "state_mouse \<Rightarrow> string \<Rightarrow> state_mouse \<times> trans_mouse list \<Rightarrow> state_mouse \<times> trans_mouse list" where
  "mouse_line old l ml =
     (case ml of (m, tms) \<Rightarrow>
        if l \<noteq> [] \<and> hd l = CHR ''#'' then (m, tms)
        else case blank_tokens l of
               [] \<Rightarrow> (m, tms)
             | d # args \<Rightarrow>
                 if strcaseeq ''PROTOCOL'' d then (protocol_line args m, tms)
                 else if strcaseeq ''ACCELERATOR'' d then (accelerator_line old args m, tms)
                 else trans_line (d # args) (m, tms))"

text \<open>\<open>None\<close>: the file is refused because of a line that is too long.\<close>

fun mouse_lines :: "state_mouse \<Rightarrow> string list \<Rightarrow> state_mouse \<times> trans_mouse list \<Rightarrow> (state_mouse \<times> trans_mouse list) option" where
  "mouse_lines old [] ml = Some ml"
| "mouse_lines old (l # ls) ml =
     (if length l = MD_PACKET_SIZE - 1 \<and> last l \<noteq> CHR 0x0A then None
      else mouse_lines old ls (mouse_line old (strip_line l) ml))"

definition read_mouse_config :: "string \<Rightarrow> state_mouse \<Rightarrow> (state_mouse \<times> trans_mouse list) option" where
  "read_mouse_config text ms =
     mouse_lines ms (fgets_lines (MD_PACKET_SIZE - 1) text)
       (ms\<lparr>ms_always_active := True, ms_toggle_active := False\<rparr>, [])"

definition set_config :: "state_mouse \<times> trans_mouse list \<Rightarrow> lircmd \<Rightarrow> lircmd" where
  "set_config ml s = s\<lparr>md_ms := fst ml, md_list := snd ml\<rparr>"

text \<open>\<open>None\<close> as the file: it cannot be opened.\<close>

definition dohup :: "string option \<Rightarrow> lircmd \<Rightarrow> lircmd" where
  "dohup file s =
     (case file of
        None \<Rightarrow> s
      | Some text \<Rightarrow>
          (case read_mouse_config text (md_ms s) of None \<Rightarrow> s | Some ml \<Rightarrow> set_config ml s))"

section \<open>The main loop\<close>

text \<open>The buffer holds a string; \<open>mb_len\<close> is the result of the last \<open>read\<close>, \<open>mb_end\<close> is \<open>end_len\<close>.\<close>

record mouse_loop =
  mb_mouse :: lircmd
  mb_buffer :: string
  mb_len :: nat
  mb_end :: nat

text \<open>The conversions of \<open>sscanf (buffer, "%*llx %x %s %s\n", \<dots>)\<close>, when all three values are set.\<close>

definition scanf_word :: "string \<Rightarrow> (string \<times> string) option" where
  "scanf_word s =
     (let t = dropWhile is_space_char s; w = takeWhile (\<lambda>c. \<not> is_space_char c) t
      in if w = [] then None else Some (w, drop (length w) t))"

definition scanf_event :: "string \<Rightarrow> (int \<times> string \<times> string) option" where
  "scanf_event s =
     do { (_, r) \<leftarrow> scanf_hex s; (rep, r) \<leftarrow> scanf_hex r;
          (button, r) \<leftarrow> scanf_word r; (remote, r) \<leftarrow> scanf_word r;
          Some (i32 rep, button, remote) }"

definition after_line :: "string \<Rightarrow> string" where
  "after_line s = drop 1 (dropWhile (\<lambda>c. c \<noteq> CHR 0x0A) s)"

text \<open>The body of the loop behind the \<open>read\<close>. A zero is written at \<open>len + end_len\<close>, which is a fault
  behind the array; otherwise it is at or behind the end of the string.\<close>

definition mouse_event :: "mouse_loop \<Rightarrow> mouse_loop option" where
  "mouse_event s =
     (if mb_len s + mb_end s > MD_PACKET_SIZE then None
      else if CHR 0x0A \<notin> set (mb_buffer s) then Some (s\<lparr>mb_end := 0\<rparr>)
      else
        let r = after_line (mb_buffer s); ev = scanf_event (mb_buffer s);
            s = s\<lparr>mb_buffer := r, mb_end := length r\<rparr>
        in Some (case ev of
                   None \<Rightarrow> s
                 | Some (rep, button, remote) \<Rightarrow>
                     s\<lparr>mb_mouse := mouse_conv rep button remote (mb_mouse s)\<rparr>))"

lemma after_line_shorter: "CHR 0x0A \<in> set s \<Longrightarrow> length (after_line s) < length s"
  by (induction s) (auto simp: after_line_def)

lemma mouse_event_shorter:
  "mouse_event s = Some s' \<Longrightarrow> CHR 0x0A \<in> set (mb_buffer s) \<Longrightarrow> length (mb_buffer s') < length (mb_buffer s)"
  using after_line_shorter [of "mb_buffer s"]
  by (auto simp: mouse_event_def Let_def split: if_splits option.splits prod.splits)

text \<open>All lines that are already in the buffer.\<close>

function mouse_drain :: "mouse_loop \<Rightarrow> mouse_loop option" where
  "mouse_drain s =
     (if CHR 0x0A \<in> set (mb_buffer s)
      then case mouse_event s of None \<Rightarrow> None | Some s \<Rightarrow> mouse_drain s
      else Some s)"
  by pat_completeness auto
termination
  by (relation "measure (\<lambda>s. length (mb_buffer s))") (auto dest: mouse_event_shorter)

declare mouse_drain.simps [simp del]

text \<open>What \<open>read\<close> reports: text (without zeros), an interruption by \<open>SIGHUP\<close> with the file that is
  read then, or the end of the connection.\<close>

datatype mouse_input = Mouse_text string | Mouse_hup "string option" | Mouse_closed

fun mouse_loop_run :: "mouse_input list \<Rightarrow> mouse_loop \<Rightarrow> mouse_loop option" where
  "mouse_loop_run [] s = mouse_drain s"
| "mouse_loop_run (i # is) s =
     do { s \<leftarrow> mouse_drain s;
          case i of
            Mouse_closed \<Rightarrow> Some s
          | Mouse_hup file \<Rightarrow>
              mouse_loop_run is (s\<lparr>mb_mouse := dohup file (mb_mouse s)\<rparr>)
          | Mouse_text t \<Rightarrow>
              let t = take (MD_PACKET_SIZE - mb_end s) t
              in if t = [] then Some s
                 else do {
                   s \<leftarrow> mouse_event (s\<lparr>mb_buffer := take (mb_end s) (mb_buffer s) @ t, mb_len := length t\<rparr>);
                   mouse_loop_run is s } }"

definition lircmd0 :: "state_mouse \<Rightarrow> trans_mouse list \<Rightarrow> mouse_loop" where
  "lircmd0 m tms = \<lparr>mb_mouse = \<lparr>md_ms = m, md_buttons = 0, md_list = tms, md_out = []\<rparr>,
     mb_buffer = [], mb_len = 0, mb_end = 0\<rparr>"

text \<open>\<open>main\<close> with the text of the configuration file; \<open>None\<close> as the inner result: it is refused.\<close>

definition lircmd_main :: "string \<Rightarrow> mouse_input list \<Rightarrow> mouse_loop option option" where
  "lircmd_main text is =
     (case read_mouse_config text state_mouse0 of
        None \<Rightarrow> Some None
      | Some (m, tms) \<Rightarrow> map_option Some (mouse_loop_run is (lircmd0 m tms)))"

end
