(* ===== verification/LircmdFacts.thy ===== *)
theory LircmdFacts
  imports Lircmd
begin

text \<open>
  Facts about \<open>lircmd\<close>: the circle the pointer draws is closed; the state of the buttons that is
  sent is the one that is remembered; messages that arrive line by line are all translated, and
  two messages in one read leave the buffer.
\<close>

section \<open>The circle\<close>

definition opposite :: "int \<times> int \<Rightarrow> int \<times> int" where "opposite v = (- fst v, - snd v)"

definition path_sum :: "(int \<times> int) list \<Rightarrow> int \<times> int" where
  "path_sum ms = (sum_list (map fst ms), sum_list (map snd ms))"

lemma circle_octant_opposite:
  "circle_octant (opposite a) (opposite b) d incX incY x y = map opposite (circle_octant a b d incX incY x y)"
proof (induction a b d incX incY x y rule: circle_octant.induct)
  case (1 a b d incX incY x y)
  show ?case
    by (subst (1 2) circle_octant.simps) (use 1 in \<open>simp add: not_less\<close>)
qed

lemma opposite_sum:
  "sum_list (map fst (map opposite ms)) = - sum_list (map fst ms)"
  "sum_list (map snd (map opposite ms)) = - sum_list (map snd ms)"
  by (induction ms) (simp_all add: opposite_def)

definition octant :: "int \<Rightarrow> int \<Rightarrow> int \<Rightarrow> nat \<Rightarrow> (int \<times> int) list" where
  "octant r dirx diry i = circle_octant
     (dirx * circle_dd ! i, diry * circle_dd ! ((i + 8 - 6) mod 8))
     (dirx * circle_dd ! ((i + 8 - 1) mod 8), diry * circle_dd ! ((i + 8 - 7) mod 8))
     (1 - r) 0 (2 * r) 0 r"

lemma octant_opposite:
  assumes "i < 4"
  shows "octant r dirx diry (i + 4) = map opposite (octant r dirx diry i)"
proof -
  have "i = 0 \<or> i = 1 \<or> i = 2 \<or> i = 3" using assms by linarith
  then have "(dirx * circle_dd ! (i + 4), diry * circle_dd ! ((i + 4 + 8 - 6) mod 8)) =
      opposite (dirx * circle_dd ! i, diry * circle_dd ! ((i + 8 - 6) mod 8))"
    and "(dirx * circle_dd ! ((i + 4 + 8 - 1) mod 8), diry * circle_dd ! ((i + 4 + 8 - 7) mod 8)) =
      opposite (dirx * circle_dd ! ((i + 8 - 1) mod 8), diry * circle_dd ! ((i + 8 - 7) mod 8))"
    by (auto simp: opposite_def circle_dd_def)
  then show ?thesis unfolding octant_def by (simp only: circle_octant_opposite)
qed

lemma circle_is_octants: "circle_moves r dirx diry = concat (map (octant r dirx diry) [0..<8])"
  by (simp add: circle_moves_def octant_def [abs_def])

lemma circle_path_sum: "path_sum (circle_moves r dirx diry) = (0, 0)"
proof -
  let ?o = "octant r dirx diry"
  have "[0..<8] = [0, 1, 2, 3, 0 + 4, 1 + 4, 2 + 4, 3 + (4 :: nat)]" by code_simp
  then have "circle_moves r dirx diry = concat (map ?o [0, 1, 2, 3, 0 + 4, 1 + 4, 2 + 4, 3 + 4])"
    by (simp only: circle_is_octants)
  also have "\<dots> = ?o 0 @ ?o 1 @ ?o 2 @ ?o 3 @ map opposite (?o 0) @ map opposite (?o 1) @
      map opposite (?o 2) @ map opposite (?o 3)"
    using octant_opposite [of 0 r dirx diry] octant_opposite [of 1 r dirx diry]
      octant_opposite [of 2 r dirx diry] octant_opposite [of 3 r dirx diry] by simp
  finally show ?thesis by (simp add: path_sum_def opposite_sum del: map_map)
qed

section \<open>Buttons\<close>

text \<open>The bits of \<open>buttons\<close> for what \<open>ms\<close> remembers.\<close>

definition pressed_bits :: "bool list \<Rightarrow> int" where
  "pressed_bits bs = (if bs ! 0 then 4 else 0) + (if bs ! 1 then 2 else 0) + (if bs ! 2 then 1 else 0)"

definition buttons_agree :: "lircmd \<Rightarrow> bool" where
  "buttons_agree s \<longleftrightarrow>
     length (ms_buttons (md_ms s)) = 3 \<and> md_buttons s = pressed_bits (ms_buttons (md_ms s))"

definition inactive :: "lircmd \<Rightarrow> bool" where
  "inactive s \<longleftrightarrow> \<not> ms_active (md_ms s) \<and> \<not> ms_always_active (md_ms s)"

definition released :: "lircmd \<Rightarrow> bool" where
  "released s \<longleftrightarrow> buttons_agree s \<and> (inactive s \<longrightarrow> md_buttons s = 0)"

text \<open>The arguments with which buttons are pressed and released.\<close>

definition button_args :: "(int \<times> int) list" where
  "button_args = [(4, 0), (2, 0), (1, 0), (0, 4), (0, 2), (0, 1), (0, 7)]"

definition note_list :: "int \<Rightarrow> int \<Rightarrow> bool list \<Rightarrow> bool list" where
  "note_list down up bs =
     [(bs ! 0 \<or> down AND 4 \<noteq> 0) \<and> up AND 4 = 0, (bs ! 1 \<or> down AND 2 \<noteq> 0) \<and> up AND 2 = 0,
      (bs ! 2 \<or> down AND 1 \<noteq> 0) \<and> up AND 1 = 0]"

lemma note_buttons_list:
  "ms_buttons m = [a, b, c] \<Longrightarrow>
     ms_buttons (note_buttons up False (note_buttons down True m)) = note_list down up [a, b, c] \<and>
     ms_active (note_buttons up False (note_buttons down True m)) = ms_active m \<and>
     ms_always_active (note_buttons up False (note_buttons down True m)) = ms_always_active m"
  by (simp add: note_buttons_def note_button_def map_buttons_def note_list_def BUTTON1_def BUTTON2_def BUTTON3_def)

lemma pressed_step:
  assumes "(down, up) \<in> set button_args"
  shows "(pressed_bits [a, b, c] OR down) AND NOT up = pressed_bits (note_list down up [a, b, c])"
proof -
  have "list_all (\<lambda>(d, u). list_all (\<lambda>a. list_all (\<lambda>b. list_all (\<lambda>c.
      (pressed_bits [a, b, c] OR d) AND NOT u = pressed_bits (note_list d u [a, b, c]))
      [True, False]) [True, False]) [True, False]) button_args"
    by code_simp
  then show ?thesis using assms by (cases a; cases b; cases c) (auto simp: list_all_iff)
qed

lemma mouse_button_agree:
  assumes "(down, up) \<in> set button_args" "buttons_agree s"
  shows "buttons_agree (mouse_button down up rep s) \<and>
    ms_active (md_ms (mouse_button down up rep s)) = ms_active (md_ms s) \<and>
    ms_always_active (md_ms (mouse_button down up rep s)) = ms_always_active (md_ms s)"
proof -
  obtain a b c where m: "ms_buttons (md_ms s) = [a, b, c]"
    using assms(2) by (auto simp: buttons_agree_def eval_nat_numeral length_Suc_conv)
  have "length (note_list down up [a, b, c]) = 3" by (simp add: note_list_def)
  then show ?thesis
    using assms(2) pressed_step [OF assms(1), of a b c] note_buttons_list [OF m, of up down] m
    by (simp add: buttons_agree_def mouse_button_def msend_def Let_def)
qed

lemma deactivation_releases:
  assumes "buttons_agree s"
  shows "md_buttons (mouse_button 0 7 0 s) = 0"
proof -
  obtain a b c where m: "ms_buttons (md_ms s) = [a, b, c]"
    using assms by (auto simp: buttons_agree_def eval_nat_numeral length_Suc_conv)
  have "(0, 7) \<in> set button_args" by (simp add: button_args_def)
  from pressed_step [OF this, of a b c] have "(pressed_bits [a, b, c] OR 0) AND NOT 7 = 0"
    by (simp add: note_list_def pressed_bits_def)
  then show ?thesis using assms m by (simp add: mouse_button_def msend_def buttons_agree_def Let_def)
qed

text \<open>Moving changes only what is sent.\<close>

lemma mouse_move_state [simp]:
  "md_ms (mouse_move dx dy dz rep s) = md_ms s" "md_buttons (mouse_move dx dy dz rep s) = md_buttons s"
  by (simp_all add: mouse_move_def msend_def Let_def)

lemma mouse_circle_state [simp]:
  "md_ms (mouse_circle r dx dy s) = md_ms s" "md_buttons (mouse_circle r dx dy s) = md_buttons s"
proof -
  have "md_ms (fold (\<lambda>(dx, dy). mouse_move dx dy 0 0) ms s) = md_ms s \<and>
      md_buttons (fold (\<lambda>(dx, dy). mouse_move dx dy 0 0) ms s) = md_buttons s" for ms
    by (induction ms arbitrary: s) (simp_all add: split_beta)
  then show "md_ms (mouse_circle r dx dy s) = md_ms s" "md_buttons (mouse_circle r dx dy s) = md_buttons s"
    by (simp_all add: mouse_circle_def)
qed

lemma activate_released: "buttons_agree s \<Longrightarrow> released (activate s) \<and> ms_active (md_ms (activate s))"
  by (simp add: activate_def released_def buttons_agree_def inactive_def)

lemma deactivate_released: "buttons_agree s \<Longrightarrow> released (deactivate s)"
  using mouse_button_agree [of 0 7 s 0] deactivation_releases [of s]
  by (simp add: deactivate_def released_def buttons_agree_def button_args_def BUTTON1_def BUTTON2_def
      BUTTON3_def Let_def)

lemma change_active_released: "released s \<Longrightarrow> released (change_active d rep s)"
  using activate_released [of s] deactivate_released [of s]
  by (auto simp: change_active_def Let_def released_def buttons_agree_def inactive_def)

text \<open>An entry of the table moves or uses one button.\<close>

lemma table_args:
  assumes "c \<in> set config_table"
  shows "cm_down c = 0 \<and> cm_up c = 0 \<and> \<not> cm_toggle c \<or>
    (cm_down c = 0 \<or> (cm_down c, 0) \<in> set button_args) \<and> (cm_up c = 0 \<or> (0, cm_up c) \<in> set button_args) \<and>
    (cm_toggle c \<longrightarrow> cm_down c \<noteq> 0 \<and> cm_up c \<noteq> 0)"
proof -
  have "list_all (\<lambda>c. cm_down c = 0 \<and> cm_up c = 0 \<and> \<not> cm_toggle c \<or>
    (cm_down c = 0 \<or> (cm_down c, 0) \<in> set button_args) \<and> (cm_up c = 0 \<or> (0, cm_up c) \<in> set button_args) \<and>
    (cm_toggle c \<longrightarrow> cm_down c \<noteq> 0 \<and> cm_up c \<noteq> 0)) config_table"
    by code_simp
  then show ?thesis using assms by (simp add: list_all_iff)
qed

definition same_activity :: "lircmd \<Rightarrow> lircmd \<Rightarrow> bool" where
  "same_activity s s' \<longleftrightarrow> buttons_agree s' \<and> ms_active (md_ms s') = ms_active (md_ms s) \<and>
     ms_always_active (md_ms s') = ms_always_active (md_ms s)"

lemma button_same_activity:
  "(down, up) \<in> set button_args \<Longrightarrow> buttons_agree s \<Longrightarrow> same_activity s (mouse_button down up rep s)"
  using mouse_button_agree by (simp add: same_activity_def)

lemma same_activity_trans: "same_activity s t \<Longrightarrow> same_activity t u \<Longrightarrow> same_activity s u"
  by (simp add: same_activity_def)

lemma run_entry_activity:
  assumes "c \<in> set config_table" "buttons_agree s"
  shows "same_activity s (run_entry c rep s)"
proof -
  let ?s = "if cm_x c \<noteq> 0 \<or> cm_y c \<noteq> 0 \<or> cm_z c \<noteq> 0 then mouse_move (cm_x c) (cm_y c) (cm_z c) rep s else s"
  have s: "same_activity s ?s" "buttons_agree ?s" using assms(2) by (simp_all add: same_activity_def buttons_agree_def)
  note t = table_args [OF assms(1)]
  have b: "same_activity s (mouse_button d u rep ?s)" "buttons_agree (mouse_button d u rep ?s)"
    if "(d, u) \<in> set button_args" for d u
    using same_activity_trans [OF s(1) button_same_activity [OF that s(2)]] by (auto simp: same_activity_def)
  have two: "same_activity s (mouse_button 0 u rep (mouse_button d 0 rep ?s))"
    if "(d, 0) \<in> set button_args" "(0, u) \<in> set button_args" for d u
    using same_activity_trans [OF b(1) [OF that(1)] button_same_activity [OF that(2) b(2) [OF that(1)]]] .
  show ?thesis
    unfolding run_entry_def Let_def using t s b two by auto
qed

lemma run_mouse_directive_released: "released s \<Longrightarrow> released (run_mouse_directive d rep s)"
proof -
  assume s: "released s"
  show ?thesis
  proof (cases "d \<noteq> ignore \<and> \<not> inactive s")
    case True
    have "same_activity s (run_mouse_directive d rep s)"
      using s True run_entry_activity [of _ s rep]
      by (auto simp: run_mouse_directive_def inactive_def released_def same_activity_def find_Some_iff split: option.splits)
    then show ?thesis using True by (auto simp: released_def same_activity_def inactive_def)
  next
    case False
    then have "run_mouse_directive d rep s = s" by (auto simp: run_mouse_directive_def inactive_def)
    then show ?thesis using s by simp
  qed
qed

lemma conv_list_released: "released (snd fs) \<Longrightarrow> released (snd (conv_list rep button remote tms fs))"
  by (induction rep button remote tms fs rule: conv_list.induct)
    (auto intro: run_mouse_directive_released change_active_released)

lemma mouse_conv_released: "released s \<Longrightarrow> released (mouse_conv rep button remote s)"
proof -
  assume "released s"
  then have r: "released (snd (conv_list rep button remote (md_list s) (False, s)))"
    by (intro conv_list_released) simp
  obtain found t where c: "conv_list rep button remote (md_list s) (False, s) = (found, t)" by fastforce
  then have "released t" "released (deactivate t)"
    using r deactivate_released [of t] by (simp_all add: released_def)
  then show ?thesis by (simp add: mouse_conv_def c)
qed

lemma mouse_conv_agree: "buttons_agree s \<Longrightarrow> buttons_agree (mouse_conv rep button remote s)"
proof -
  have step: "buttons_agree (run_mouse_directive d rep (change_active d rep s))" if s: "buttons_agree s" for d rep s
  proof -
    have c: "buttons_agree (change_active d rep s)"
      using activate_released [OF s] deactivate_released [OF s] s
      by (auto simp: change_active_def Let_def released_def buttons_agree_def)
    show ?thesis
      using c run_entry_activity [OF _ c, of _ rep]
      by (auto simp: run_mouse_directive_def same_activity_def find_Some_iff split: option.splits)
  qed
  have list: "buttons_agree (snd fs) \<Longrightarrow> buttons_agree (snd (conv_list rep button remote tms fs))" for tms fs
    by (induction rep button remote tms fs rule: conv_list.induct) (auto intro: step)
  assume s: "buttons_agree s"
  obtain found t where c: "conv_list rep button remote (md_list s) (False, s) = (found, t)" by fastforce
  have "buttons_agree t" using list [of "(False, s)" "md_list s"] s c by simp
  then show ?thesis
    using deactivate_released [of t] by (simp add: mouse_conv_def c released_def)
qed

section \<open>Packets\<close>

text \<open>The buttons that the receiver of a packet sees: packets of five bytes are those of Mouse Systems,
  among the others the serial ones have bit 6 of the first byte set.\<close>

definition shown_buttons :: "byte list \<Rightarrow> int" where
  "shown_buttons p = pressed_bits
     (if length p = 5 then [\<not> bit (p ! 0) 2, \<not> bit (p ! 0) 1, \<not> bit (p ! 0) 0]
      else if bit (p ! 0) 6 then [bit (p ! 0) 5, bit (p ! 3) 4, bit (p ! 0) 4]
      else [bit (p ! 0) 0, bit (p ! 0) 2, bit (p ! 0) 1])"

lemma pressed_bit:
  "bit (pressed_bits [a, b, c]) 2 = a" "bit (pressed_bits [a, b, c]) (Suc 0) = b" "bit (pressed_bits [a, b, c]) 0 = c"
  "pressed_bits [a, b, c] AND BUTTON1 \<noteq> 0 \<longleftrightarrow> a" "pressed_bits [a, b, c] AND BUTTON2 \<noteq> 0 \<longleftrightarrow> b"
  "pressed_bits [a, b, c] AND BUTTON3 \<noteq> 0 \<longleftrightarrow> c"
  by (cases a; cases b; cases c; simp add: pressed_bits_def BUTTON1_def BUTTON2_def BUTTON3_def bit_numeral_rec)+

lemma packet_shows: "shown_buttons (mouse_packet p (pressed_bits [a, b, c]) dx dy dz) = pressed_bits [a, b, c]"
proof (cases p)
  case mouse_systems
  have "bit (NOT (word_of_int (pressed_bits [a, b, c] OR 0x78) :: byte)) k \<longleftrightarrow> \<not> bit (pressed_bits [a, b, c]) k" if "k < 3" for k
    using that by (auto simp: bit_simps less_Suc_eq numeral_eq_Suc)
  then show ?thesis using mouse_systems by (simp add: mouse_packet_def shown_buttons_def pressed_bit)
next
  case imps_2
  then show ?thesis
    by (simp add: mouse_packet_def shown_buttons_def pressed_bit bit_simps)
next
  case im_serial
  then show ?thesis
    by (simp add: mouse_packet_def shown_buttons_def pressed_bit bit_simps Let_def)
qed

text \<open>What the receiver takes for pressed after all packets, at first nothing.\<close>

definition last_shown :: "lircmd \<Rightarrow> int" where
  "last_shown s = (if md_out s = [] then 0 else shown_buttons (last (md_out s)))"

definition told :: "lircmd \<Rightarrow> bool" where
  "told s \<longleftrightarrow> buttons_agree s \<and> 0 < ms_acc_start (md_ms s) \<and> md_buttons s = last_shown s"

lemma buttons_agree_bits: "buttons_agree s \<Longrightarrow> \<exists>a b c. ms_buttons (md_ms s) = [a, b, c] \<and> md_buttons s = pressed_bits [a, b, c]"
  by (auto simp: buttons_agree_def eval_nat_numeral length_Suc_conv)

lemma msend_shows:
  assumes "buttons_agree t" "md_buttons t = md_buttons (msend dx dy dz rep down up s)"
  shows "last_shown (msend dx dy dz rep down up s) =
    (if 0 < acceleration (md_ms s) rep then md_buttons (msend dx dy dz rep down up s) else last_shown s)"
proof -
  obtain a b c where "md_buttons t = pressed_bits [a, b, c]" using buttons_agree_bits [OF assms(1)] by blast
  then have "(md_buttons s OR down) AND NOT up = pressed_bits [a, b, c]" using assms(2) by (simp add: msend_def Let_def)
  then show ?thesis by (auto simp: msend_def last_shown_def packet_shows Let_def)
qed

lemma told_move:
  assumes "told s"
  shows "told (mouse_move dx dy dz rep s)"
proof -
  let ?t = "mouse_move dx dy dz rep s"
  have a: "buttons_agree ?t" using assms by (simp add: told_def buttons_agree_def)
  have "last_shown ?t = md_buttons ?t"
    using msend_shows [OF a, of dx dy dz rep 0 0 s] assms by (simp add: mouse_move_def [symmetric] told_def)
  then show ?thesis using a assms by (simp add: told_def)
qed

lemma acceleration_start: "0 < ms_acc_start m \<Longrightarrow> acceleration m 0 = 1"
  by (simp add: acceleration_def)

lemma note_buttons_start [simp]: "ms_acc_start (note_buttons bs v m) = ms_acc_start m"
  by (simp add: note_buttons_def note_button_def)

lemma told_button:
  assumes "(down, up) \<in> set button_args" "told s"
  shows "told (mouse_button down up rep s)"
proof (cases "rep = 0")
  case True
  have a: "buttons_agree (mouse_button down up rep s)"
    using mouse_button_agree [OF assms(1)] assms(2) by (simp add: told_def)
  have m: "md_buttons (mouse_button down up rep s) = md_buttons (msend 0 0 0 rep down up s)"
      "last_shown (mouse_button down up rep s) = last_shown (msend 0 0 0 rep down up s)"
      "ms_acc_start (md_ms (mouse_button down up rep s)) = ms_acc_start (md_ms s)"
    using True by (simp_all add: mouse_button_def last_shown_def Let_def) (simp add: msend_def Let_def)
  show ?thesis
    using msend_shows [OF a m(1)] m a assms(2) True by (simp add: told_def acceleration_start)
qed (use assms in \<open>simp add: mouse_button_def\<close>)

lemma told_moves: "told s \<Longrightarrow> told (fold (\<lambda>(dx, dy). mouse_move dx dy 0 0) ms s)"
  by (induction ms arbitrary: s) (auto intro: told_move)

lemma told_activity [simp]:
  "told (s\<lparr>md_ms := (md_ms s)\<lparr>ms_active := v\<rparr>\<rparr>) = told s"
  "told (s\<lparr>md_ms := (md_ms s)\<lparr>ms_toggle_active := v\<rparr>\<rparr>) = told s"
  by (simp_all add: told_def buttons_agree_def last_shown_def)

lemma told_activate: "told s \<Longrightarrow> told (activate s)"
  unfolding activate_def mouse_circle_def by (rule told_moves) simp

lemma told_deactivate: "told s \<Longrightarrow> told (deactivate s)"
  unfolding deactivate_def mouse_circle_def Let_def
  by (rule told_moves) (simp add: told_button button_args_def BUTTON1_def BUTTON2_def BUTTON3_def)

lemma told_change_active: "told s \<Longrightarrow> told (change_active d rep s)"
  by (simp add: change_active_def Let_def told_activate told_deactivate)

lemma told_entry:
  assumes "c \<in> set config_table" "told s"
  shows "told (run_entry c rep s)"
proof -
  let ?s = "if cm_x c \<noteq> 0 \<or> cm_y c \<noteq> 0 \<or> cm_z c \<noteq> 0 then mouse_move (cm_x c) (cm_y c) (cm_z c) rep s else s"
  have s: "told ?s" using assms(2) told_move by simp
  show ?thesis
    unfolding run_entry_def Let_def using table_args [OF assms(1)] s told_button by auto
qed

lemma told_conv_list: "told (snd fs) \<Longrightarrow> told (snd (conv_list rep button remote tms fs))"
proof (induction rep button remote tms fs rule: conv_list.induct)
  case (2 rep button remote tm tms found s)
  have "told (run_mouse_directive d rep (change_active d rep s))" for d
    using told_change_active [of s d rep] told_entry [of _ "change_active d rep s" rep] 2(3)
    by (auto simp: run_mouse_directive_def find_Some_iff split: option.splits)
  then show ?case using 2 by simp
qed simp

lemma told_conv: "told s \<Longrightarrow> told (mouse_conv rep button remote s)"
  using told_conv_list [of "(False, s)" rep button remote "md_list s"] told_deactivate
  by (cases "conv_list rep button remote (md_list s) (False, s)") (simp add: mouse_conv_def)

section \<open>Configuration files\<close>

lemma config_line_buttons [simp]:
  "ms_buttons (protocol_line args m) = ms_buttons m"
  "ms_buttons (accelerator_line old args m) = ms_buttons m"
  by (simp_all add: protocol_line_def accelerator_line_def Let_def split: list.splits option.splits)

lemma trans_line_buttons [simp]: "ms_buttons (fst (trans_line ts ml)) = ms_buttons (fst ml)"
  by (auto simp: trans_line_def split: prod.splits list.splits option.splits)

lemma mouse_line_buttons: "ms_buttons (fst (mouse_line old l ml)) = ms_buttons (fst ml)"
  by (simp add: mouse_line_def split: prod.splits list.splits)

lemma mouse_lines_buttons: "mouse_lines old ls ml = Some ml' \<Longrightarrow> ms_buttons (fst ml') = ms_buttons (fst ml)"
  by (induction old ls ml rule: mouse_lines.induct) (auto simp: mouse_line_buttons split: if_splits)

lemma read_config_buttons: "read_mouse_config text m = Some (m', tms) \<Longrightarrow> ms_buttons m' = ms_buttons m"
  using mouse_lines_buttons by (fastforce simp: read_mouse_config_def)

lemma dohup_agree: "buttons_agree s \<Longrightarrow> buttons_agree (dohup file s)"
  by (auto simp: dohup_def set_config_def buttons_agree_def dest: read_config_buttons split: option.splits prod.splits)

text \<open>A file whose \<open>ACCELERATOR\<close> lines set no start below 1.\<close>

definition starts_late :: "string \<Rightarrow> bool" where
  "starts_late l \<longleftrightarrow>
     (case blank_tokens (strip_line l) of d # a # _ \<Rightarrow> strcaseeq ''ACCELERATOR'' d \<longrightarrow> 0 < atoi a | _ \<Rightarrow> True)"

definition accelerators_ok :: "string \<Rightarrow> bool" where
  "accelerators_ok text = list_all starts_late (fgets_lines (MD_PACKET_SIZE - 1) text)"

lemma config_line_start [simp]:
  "ms_acc_start (protocol_line args m) = ms_acc_start m"
  "ms_acc_start (fst (trans_line ts ml)) = ms_acc_start (fst ml)"
  by (auto simp: protocol_line_def trans_line_def split: prod.splits list.splits option.splits)

lemma accelerator_line_start:
  "0 < ms_acc_start old \<Longrightarrow> 0 < ms_acc_start m \<Longrightarrow> (\<forall>a as. args = a # as \<longrightarrow> 0 < atoi a) \<Longrightarrow>
     0 < ms_acc_start (accelerator_line old args m)"
  by (auto simp: accelerator_line_def Let_def split: list.splits)

lemma mouse_line_start:
  assumes "starts_late l" "0 < ms_acc_start old" "0 < ms_acc_start (fst ml)"
  shows "0 < ms_acc_start (fst (mouse_line old (strip_line l) ml))"
proof (cases "blank_tokens (strip_line l)")
  case (Cons d args)
  have "strcaseeq ''ACCELERATOR'' d \<Longrightarrow> 0 < ms_acc_start (accelerator_line old args (fst ml))"
    using accelerator_line_start [OF assms(2,3)] assms(1) Cons by (cases args) (simp_all add: starts_late_def)
  then show ?thesis using Cons assms(3) by (simp add: mouse_line_def split_beta)
qed (use assms(3) in \<open>simp add: mouse_line_def split_beta\<close>)

lemma mouse_lines_start:
  "mouse_lines old ls ml = Some ml' \<Longrightarrow> list_all starts_late ls \<Longrightarrow> 0 < ms_acc_start old \<Longrightarrow> 0 < ms_acc_start (fst ml) \<Longrightarrow>
     0 < ms_acc_start (fst ml')"
  by (induction old ls ml rule: mouse_lines.induct) (auto simp: mouse_line_start split: if_splits)

lemma read_config_start:
  "read_mouse_config text m = Some (m', tms) \<Longrightarrow> accelerators_ok text \<Longrightarrow> 0 < ms_acc_start m \<Longrightarrow> 0 < ms_acc_start m'"
  using mouse_lines_start by (fastforce simp: read_mouse_config_def accelerators_ok_def)

lemma told_dohup: "told s \<Longrightarrow> (\<forall>text. cfg = Some text \<longrightarrow> accelerators_ok text) \<Longrightarrow> told (dohup cfg s)"
  using dohup_agree [of s cfg]
  by (auto simp: dohup_def set_config_def told_def last_shown_def dest: read_config_start split: option.splits prod.splits)

section \<open>The main loop\<close>

lemma mouse_event_keeps:
  assumes "\<And>rep button remote s. P s \<Longrightarrow> P (mouse_conv rep button remote s)" "P (mb_mouse s)" "mouse_event s = Some s'"
  shows "P (mb_mouse s')"
  using assms by (auto simp: mouse_event_def Let_def split: if_splits option.splits prod.splits)

lemma mouse_drain_keeps:
  assumes conv: "\<And>rep button remote s. P s \<Longrightarrow> P (mouse_conv rep button remote s)"
  shows "P (mb_mouse s) \<Longrightarrow> mouse_drain s = Some s' \<Longrightarrow> P (mb_mouse s')"
proof (induction s rule: mouse_drain.induct)
  case (1 s)
  show ?case
  proof (cases "CHR 0x0A \<in> set (mb_buffer s)")
    case False
    then show ?thesis using 1 by (simp add: mouse_drain.simps)
  next
    case True
    then obtain t where t: "mouse_event s = Some t" "mouse_drain t = Some s'"
      using "1.prems"(2) by (subst (asm) mouse_drain.simps) (auto split: option.splits)
    have "P (mb_mouse t)" by (rule mouse_event_keeps [where P = P]) (use conv "1.prems"(1) t in auto)
    then show ?thesis by (rule "1.IH" [OF True t(1) _ t(2)])
  qed
qed

lemma mouse_run_keeps:
  assumes conv: "\<And>rep button remote s. P s \<Longrightarrow> P (mouse_conv rep button remote s)"
    and hup: "\<And>cfg s. Mouse_hup cfg \<in> set is \<Longrightarrow> P s \<Longrightarrow> P (dohup cfg s)"
  shows "P (mb_mouse s) \<Longrightarrow> mouse_loop_run is s = Some s' \<Longrightarrow> P (mb_mouse s')"
  using hup
proof (induction "is" arbitrary: s)
  case Nil
  show ?case by (rule mouse_drain_keeps [where P = P and s = s]) (use conv Nil in auto)
next
  case (Cons i ins)
  obtain t where t: "mouse_drain s = Some t" using Cons.prems(2) by (cases "mouse_drain s") auto
  have p: "P (mb_mouse t)" by (rule mouse_drain_keeps [where P = P and s = s]) (use conv Cons.prems(1) t in auto)
  note IH = Cons.IH [OF _ _ Cons.prems(3)]
  show ?case
  proof (cases i)
    case (Mouse_text x)
    show ?thesis
    proof (cases "take (MD_PACKET_SIZE - mb_end t) x = []")
      case True
      then show ?thesis using Cons.prems(2) p t Mouse_text by simp
    next
      case False
      let ?t = "t\<lparr>mb_buffer := take (mb_end t) (mb_buffer t) @ take (MD_PACKET_SIZE - mb_end t) x,
          mb_len := length (take (MD_PACKET_SIZE - mb_end t) x)\<rparr>"
      obtain u where u: "mouse_event ?t = Some u" "mouse_loop_run ins u = Some s'"
        using Cons.prems(2) t Mouse_text False by (auto simp: Let_def bind_eq_Some_conv)
      have "P (mb_mouse u)" by (rule mouse_event_keeps [where P = P and s = ?t]) (use conv p u(1) in auto)
      then show ?thesis by (rule IH [OF _ u(2)]) auto
    qed
  next
    case (Mouse_hup cfg)
    have d: "P (mb_mouse (t\<lparr>mb_mouse := dohup cfg (mb_mouse t)\<rparr>))" using Cons.prems(3) Mouse_hup p by simp
    have "mouse_loop_run ins (t\<lparr>mb_mouse := dohup cfg (mb_mouse t)\<rparr>) = Some s'"
      using Cons.prems(2) t Mouse_hup by simp
    then show ?thesis by (rule IH [OF d]) auto
  next
    case Mouse_closed
    then show ?thesis using Cons.prems(2) p t by simp
  qed
qed


section \<open>Lines in the buffer\<close>

text \<open>The events of single lines, translated one after the other.\<close>

definition run_event :: "string \<Rightarrow> lircmd \<Rightarrow> lircmd" where
  "run_event l s =
     (case scanf_event l of None \<Rightarrow> s | Some (rep, button, remote) \<Rightarrow> mouse_conv rep button remote s)"

definition is_line :: "string \<Rightarrow> bool" where
  "is_line l \<longleftrightarrow> l \<noteq> [] \<and> last l = CHR 0x0A \<and> CHR 0x0A \<notin> set (butlast l) \<and> length l \<le> MD_PACKET_SIZE"

lemma is_line_form: "is_line l \<Longrightarrow> \<exists>b. l = b @ [CHR 0x0A] \<and> CHR 0x0A \<notin> set b"
  using append_butlast_last_id [of l] by (metis is_line_def)

lemma after_only_line: "CHR 0x0A \<notin> set b \<Longrightarrow> after_line (b @ CHR 0x0A # r) = r"
  by (induction b) (auto simp: after_line_def)

lemma line_is_an_event:
  assumes "is_line l" "mb_end s = 0"
  shows "mouse_event (s\<lparr>mb_buffer := l, mb_len := length l\<rparr>) =
    Some (s\<lparr>mb_buffer := [], mb_len := length l, mb_mouse := run_event l (mb_mouse s)\<rparr>)"
proof -
  obtain b where b: "l = b @ [CHR 0x0A]" "CHR 0x0A \<notin> set b" using is_line_form [OF assms(1)] by blast
  have "after_line l = []" "CHR 0x0A \<in> set l" using after_only_line [OF b(2), of "[]"] b(1) by simp_all
  moreover have "length l \<le> MD_PACKET_SIZE" using assms(1) by (simp add: is_line_def)
  ultimately show ?thesis
    using assms(2) by (cases s) (simp add: mouse_event_def run_event_def Let_def split: option.split)
qed

lemma lines_run:
  assumes "list_all is_line ls" "mb_end s = 0" "mb_buffer s = []"
  shows "\<exists>s'. mouse_loop_run (map Mouse_text ls) s = Some s' \<and> mb_mouse s' = fold run_event ls (mb_mouse s) \<and>
    mb_buffer s' = [] \<and> mb_end s' = 0"
  using assms
proof (induction ls arbitrary: s)
  case Nil
  then show ?case by (simp add: mouse_drain.simps)
next
  case (Cons l ls)
  have l: "is_line l" "l \<noteq> []" "length l \<le> MD_PACKET_SIZE" using Cons.prems(1) by (simp_all add: is_line_def)
  let ?u = "s\<lparr>mb_buffer := [], mb_len := length l, mb_mouse := run_event l (mb_mouse s)\<rparr>"
  have "mouse_loop_run (map Mouse_text (l # ls)) s = mouse_loop_run (map Mouse_text ls) ?u"
    using l(2,3) Cons.prems(2,3) line_is_an_event [OF l(1) Cons.prems(2)]
    by (simp add: mouse_drain.simps Let_def MD_PACKET_SIZE_def)
  then show ?case using Cons.IH [of ?u] Cons.prems by simp
qed

section \<open>Properties\<close>

text \<open>The circle that shows the user that the mouse has been activated returns to where it began,
  for every radius and both directions.\<close>

theorem circle_closes: "path_sum (circle_moves r dirx diry) = (0, 0)"
  by (rule circle_path_sum)

text \<open>C22: Whatever is received, and however often the configuration file is read again, the two memories of the
  daemon for the buttons agree; unless the file has been read again, no button is held while the mouse is
  not active; and what the packets so far show the receiver as pressed, in the protocol of the last one, is
  what the daemon remembers, provided no \<open>ACCELERATOR\<close> line has set a start below 1.\<close>

theorem no_button_without_activity:
  assumes "lircmd_main text ins = Some (Some s)"
  shows "buttons_agree (mb_mouse s) \<and>
    ((\<forall>cfg. Mouse_hup cfg \<notin> set ins) \<and> inactive (mb_mouse s) \<longrightarrow> md_buttons (mb_mouse s) = 0) \<and>
    (accelerators_ok text \<and> (\<forall>cfg. Mouse_hup (Some cfg) \<in> set ins \<longrightarrow> accelerators_ok cfg) \<longrightarrow>
       last_shown (mb_mouse s) = md_buttons (mb_mouse s))"
proof -
  obtain m tms where m: "read_mouse_config text state_mouse0 = Some (m, tms)"
      and r: "mouse_loop_run ins (lircmd0 m tms) = Some s"
    using assms by (auto simp: lircmd_main_def split: option.splits)
  have a: "buttons_agree (mb_mouse (lircmd0 m tms))" "released (mb_mouse (lircmd0 m tms))"
    using read_config_buttons [OF m]
    by (simp_all add: lircmd0_def released_def buttons_agree_def state_mouse0_def pressed_bits_def)
  have "buttons_agree (mb_mouse s)"
    by (rule mouse_run_keeps [where P = buttons_agree, OF _ _ a(1) r]) (auto intro: mouse_conv_agree dohup_agree)
  moreover have "released (mb_mouse s)" if "\<forall>cfg. Mouse_hup cfg \<notin> set ins"
    by (rule mouse_run_keeps [where P = released, OF _ _ a(2) r]) (use that in \<open>auto intro: mouse_conv_released\<close>)
  moreover have "told (mb_mouse s)"
    if ok: "accelerators_ok text" "\<forall>cfg. Mouse_hup (Some cfg) \<in> set ins \<longrightarrow> accelerators_ok cfg"
  proof -
    have t: "told (mb_mouse (lircmd0 m tms))"
      using a(1) read_config_start [OF m ok(1)] by (simp add: told_def lircmd0_def last_shown_def state_mouse0_def)
    show ?thesis
      by (rule mouse_run_keeps [where P = told, OF _ _ t r]) (use ok(2) in \<open>auto intro: told_conv told_dohup\<close>)
  qed
  ultimately show ?thesis by (auto simp: released_def told_def)
qed

text \<open>A run that ends in a state with a property.\<close>

definition ends_with :: "(lircmd \<Rightarrow> bool) \<Rightarrow> mouse_loop option option \<Rightarrow> bool" where
  "ends_with P r = (case r of Some (Some s) \<Rightarrow> P (mb_mouse s) | _ \<Rightarrow> False)"

lemma ends_withD: "ends_with P r \<Longrightarrow> \<exists>s. r = Some (Some s) \<and> P (mb_mouse s)"
  by (simp add: ends_with_def split: option.splits)

definition demo_mouse_config :: string where
  "demo_mouse_config = ''BUTTON1_DOWN TV OK'' @ [CHR 0x0A]"

definition demo_trans :: "trans_mouse list" where
  "demo_trans = [\<lparr>tm_remote = Some ''TV'', tm_button = Some ''OK'', tm_directive = button1_down\<rparr>]"

definition active_mouse_config :: string where
  "active_mouse_config = ''ACTIVATE * OK'' @ [CHR 0x0A]"

definition ok_line :: string where "ok_line = ''1 00 OK TV'' @ [CHR 0x0A]"

lemma demo_mouse_reads: "read_mouse_config demo_mouse_config state_mouse0 = Some (state_mouse0, demo_trans)"
  by code_simp

lemma demo_button_held:
  "\<exists>s. lircmd_main demo_mouse_config [Mouse_text ok_line] = Some (Some s) \<and>
     md_buttons (mb_mouse s) = 4 \<and> \<not> inactive (mb_mouse s) \<and> md_out (mb_mouse s) = [[0x83, 0, 0, 0, 0]]"
proof -
  have "ends_with (\<lambda>s. md_buttons s = 4 \<and> \<not> inactive s \<and> md_out s = [[0x83, 0, 0, 0, 0]])
      (map_option Some (mouse_loop_run [Mouse_text ok_line] (lircmd0 state_mouse0 demo_trans)))"
    by code_simp
  then show ?thesis unfolding lircmd_main_def demo_mouse_reads option.case prod.case by (rule ends_withD)
qed

theorem no_button_without_activity_witness:
  "\<exists>s. lircmd_main demo_mouse_config [Mouse_text ok_line] = Some (Some s) \<and> buttons_agree (mb_mouse s) \<and>
     md_buttons (mb_mouse s) = 4 \<and> last_shown (mb_mouse s) = 4"
proof -
  have "accelerators_ok demo_mouse_config" by code_simp
  then show ?thesis
    using demo_button_held no_button_without_activity [of demo_mouse_config "[Mouse_text ok_line]"] by fastforce
qed

text \<open>With a start of 0 the acceleration of a new press is 0, and no packet tells of it.\<close>

definition eager_config :: string where
  "eager_config = ''ACCELERATOR 0'' @ [CHR 0x0A] @ demo_mouse_config"

lemma press_not_shown:
  "(case read_mouse_config eager_config state_mouse0 of
      Some (m, tms) \<Rightarrow> ends_with (\<lambda>s. md_buttons s = 4 \<and> md_out s = [])
        (map_option Some (mouse_loop_run [Mouse_text ok_line] (lircmd0 m tms)))
    | None \<Rightarrow> False)"
  by code_simp

text \<open>Reading the file again can deactivate the mouse with the button down.\<close>

lemma reload_keeps_button:
  "\<exists>s. lircmd_main demo_mouse_config [Mouse_text ok_line, Mouse_hup (Some active_mouse_config)] = Some (Some s) \<and>
     md_buttons (mb_mouse s) = 4 \<and> inactive (mb_mouse s)"
proof -
  have "ends_with (\<lambda>s. md_buttons s = 4 \<and> inactive s)
      (map_option Some (mouse_loop_run [Mouse_text ok_line, Mouse_hup (Some active_mouse_config)]
        (lircmd0 state_mouse0 demo_trans)))"
    by code_simp
  then show ?thesis unfolding lircmd_main_def demo_mouse_reads option.case prod.case by (rule ends_withD)
qed

text \<open>Messages that arrive one line at a time are all translated, in their order, whatever else
  they contain, and nothing stays in the buffer.\<close>

theorem single_lines_are_handled:
  assumes "read_mouse_config text state_mouse0 = Some (m, tms)" "list_all is_line ls"
  shows "\<exists>s. lircmd_main text (map Mouse_text ls) = Some (Some s) \<and>
    mb_mouse s = fold run_event ls (mb_mouse (lircmd0 m tms)) \<and> mb_buffer s = []"
  using lines_run [OF assms(2), of "lircmd0 m tms"] assms(1) by (auto simp: lircmd_main_def lircmd0_def)

text \<open>C28: Two messages that arrive in one read can make the daemon write behind its buffer: the length
  of the read is added a second time to what is left of it.\<close>

theorem two_messages_overflow:
  assumes "read_mouse_config text state_mouse0 = Some (m, tms)"
    and "CHR 0x0A \<notin> set b" "CHR 0x0A \<in> set rest" "length (b @ CHR 0x0A # rest) \<le> MD_PACKET_SIZE"
    and "length (b @ CHR 0x0A # rest) + length rest > MD_PACKET_SIZE"
  shows "lircmd_main text (Mouse_text (b @ CHR 0x0A # rest) # ins) = None"
proof -
  let ?t = "b @ CHR 0x0A # rest"
  let ?s = "(lircmd0 m tms)\<lparr>mb_buffer := ?t, mb_len := length ?t\<rparr>"
  have ev: "\<exists>u. mouse_event ?s = Some u \<and> mb_len u = length ?t \<and> mb_end u = length rest \<and> mb_buffer u = rest"
    using assms(4) after_only_line [OF assms(2), of rest]
    by (simp add: mouse_event_def lircmd0_def Let_def split: option.split prod.split)
  then obtain u where u: "mouse_event ?s = Some u" "mb_len u = length ?t" "mb_end u = length rest" "mb_buffer u = rest"
    by blast
  have "mouse_drain u = None"
    using u assms(3,5) by (subst mouse_drain.simps) (simp add: mouse_event_def)
  then have "mouse_loop_run ins u = None" by (cases ins) simp_all
  then show ?thesis
    using u(1) assms(1,4) by (simp add: lircmd_main_def mouse_drain.simps lircmd0_def Let_def)
qed

theorem single_lines_are_handled_witness:
  "\<exists>s. lircmd_main demo_mouse_config (map Mouse_text [ok_line, ok_line]) = Some (Some s) \<and> mb_buffer s = []"
proof -
  have "list_all is_line [ok_line, ok_line]" by code_simp
  then show ?thesis using demo_mouse_reads single_lines_are_handled by blast
qed

definition long_message :: string where "long_message = replicate 99 CHR ''a''"

theorem two_messages_overflow_witness:
  "lircmd_main demo_mouse_config
     [Mouse_text (long_message @ CHR 0x0A # long_message @ [CHR 0x0A])] = None"
proof -
  have l: "CHR 0x0A \<notin> set long_message" "CHR 0x0A \<in> set (long_message @ [CHR 0x0A])"
    "length (long_message @ CHR 0x0A # long_message @ [CHR 0x0A]) \<le> MD_PACKET_SIZE"
    "length (long_message @ CHR 0x0A # long_message @ [CHR 0x0A]) + length (long_message @ [CHR 0x0A]) > MD_PACKET_SIZE"
    by (simp_all add: long_message_def MD_PACKET_SIZE_def)
  then show ?thesis using demo_mouse_reads two_messages_overflow [OF _ l] by blast
qed

end
