(* ===== verification/Irsend.thy ===== *)
theory Irsend
  imports RcClient Commands
begin

text \<open>
  The program \<open>tools/irsend.c\<close>, which sends the commands for its arguments to \<open>lircd\<close> and waits for
  every reply. \<open>getopt_long\<close> and \<open>connect\<close> are results that are given. Every other outcome is a value:
  \<open>None\<close> is a write behind the buffer on the stack.
\<close>

section \<open>The connection\<close>

text \<open>The static buffer and \<open>ptr\<close> of \<open>read_string\<close>, what \<open>read\<close> and \<open>write\<close> yield, what has been
  written, and the lines of data that have been printed. A timeout is a failed read; when no result of a
  \<open>write\<close> is given, everything is accepted.\<close>

record irsend_link =
  is_buffer :: string
  is_ptr :: nat
  is_input :: "sock_read list"
  is_writes :: "int list"
  is_written :: string
  is_printed :: "string list"

definition SEND_PACKET_SIZE :: nat where [c_eval]: "SEND_PACKET_SIZE = 256"

text \<open>The loop of \<open>read_string\<close>: the bytes in the buffer, from which a line and the string behind it
  are taken.\<close>

function send_read_line :: "string \<Rightarrow> sock_read list \<Rightarrow> (string \<times> string) option \<times> sock_read list" where
  "send_read_line b input =
     (if CHR 0x0A \<in> set b
      then (Some (takeWhile (\<lambda>c. c \<noteq> CHR 0x0A) b, drop 1 (dropWhile (\<lambda>c. c \<noteq> CHR 0x0A) b)), input)
      else if SEND_PACKET_SIZE \<le> length b then (None, input)
      else
        (case read_some (SEND_PACKET_SIZE - length b) input of
           (Got t, r) \<Rightarrow> if t = [] then (None, r) else send_read_line (cstr (b @ t)) r
         | (_, r) \<Rightarrow> (None, r)))"
  by pat_completeness auto
termination
  by (relation "measure (\<lambda>(b, input). pending input)") (auto dest: read_some_pending [OF sym])

declare send_read_line.simps [simp del]

definition read_string :: "irsend_link \<Rightarrow> string option \<times> irsend_link" where
  "read_string s =
     (case send_read_line (if is_ptr s > 0 then cstr (drop (is_ptr s) (is_buffer s)) else []) (is_input s) of
        (None, r) \<Rightarrow> (None, s\<lparr>is_ptr := 0, is_input := r\<rparr>)
      | (Some (line, rest), r) \<Rightarrow>
          (Some line, s\<lparr>is_buffer := line @ CHR 0x00 # rest, is_ptr := length line + 1, is_input := r\<rparr>))"

section \<open>Sending a packet\<close>

text \<open>The loop around \<open>write\<close>.\<close>

function write_packet :: "string \<Rightarrow> irsend_link \<Rightarrow> bool \<times> irsend_link" where
  "write_packet d s =
     (if d = [] then (True, s)
      else case is_writes s of
             [] \<Rightarrow> (True, s\<lparr>is_written := is_written s @ d\<rparr>)
           | w # ws \<Rightarrow>
               if w < 0 then (False, s\<lparr>is_writes := ws\<rparr>)
               else write_packet (drop (nat w) d) (s\<lparr>is_writes := ws, is_written := is_written s @ take (nat w) d\<rparr>))"
  by pat_completeness auto
termination
  by (relation "measure (\<lambda>(d, s). length (is_writes s))") auto

declare write_packet.simps [simp del]

text \<open>The local variables behind the writes, and one line of the reply.\<close>

record send_reply =
  sr_state :: packet_state
  sr_status :: int
  sr_n :: nat
  sr_data_n :: u32

definition send_reply0 :: send_reply where
  "send_reply0 = \<lparr>sr_state = PS_BEGIN, sr_status = 0, sr_n = 0, sr_data_n = 0\<rparr>"

datatype send_step = Go_on send_reply | Return int

definition send_line :: "string \<Rightarrow> string \<Rightarrow> send_reply \<Rightarrow> send_step" where
  "send_line packet t r =
     (case sr_state r of
        PS_BEGIN \<Rightarrow> Go_on (if strcaseeq t ''BEGIN'' then r\<lparr>sr_state := PS_MESSAGE\<rparr> else r)
      | PS_MESSAGE \<Rightarrow>
          Go_on (if \<not> strcaseeq t (take (length t) packet) \<or> length t + 1 \<noteq> length packet
                 then r\<lparr>sr_state := PS_BEGIN\<rparr> else r\<lparr>sr_state := PS_STATUS\<rparr>)
      | PS_STATUS \<Rightarrow>
          if strcaseeq t ''SUCCESS'' then Go_on (r\<lparr>sr_status := 0, sr_state := PS_DATA\<rparr>)
          else if strcaseeq t ''END'' then Return 0
          else if strcaseeq t ''ERROR'' then Go_on (r\<lparr>sr_status := - 1, sr_state := PS_DATA\<rparr>)
          else Return (- 1)
      | PS_DATA \<Rightarrow>
          if strcaseeq t ''END'' then Return (sr_status r)
          else if strcaseeq t ''DATA'' then Go_on (r\<lparr>sr_state := PS_N\<rparr>)
          else Return (- 1)
      | PS_N \<Rightarrow>
          (case strtoull t of (v, rest, _) \<Rightarrow>
             let n = ucast v :: u32
             in if t = [] \<or> rest \<noteq> [] then Return (- 1)
                else if n = 0 then Go_on (r\<lparr>sr_data_n := n, sr_state := PS_END\<rparr>)
                else Go_on (r\<lparr>sr_data_n := n, sr_state := PS_DATA_N\<rparr>))
      | PS_DATA_N \<Rightarrow>
          let r = r\<lparr>sr_n := Suc (sr_n r)\<rparr>
          in Go_on (if int (sr_n r) = uint (sr_data_n r) then r\<lparr>sr_state := PS_END\<rparr> else r)
      | PS_END \<Rightarrow> if strcaseeq t ''END'' then Return (sr_status r) else Return (- 1))"

definition link_bytes :: "irsend_link \<Rightarrow> nat" where
  "link_bytes s = (if is_ptr s > 0 then length (cstr (drop (is_ptr s) (is_buffer s))) else 0) + pending (is_input s)"

lemma cstr_length: "length (cstr t) \<le> length t"
  unfolding cstr_def by (rule length_takeWhile_le)

lemma send_read_line_pending:
  "send_read_line b input = (Some (line, rest), r) \<Longrightarrow> length line + length rest + 1 + pending r \<le> length b + pending input"
proof (induction b input arbitrary: line rest r rule: send_read_line.induct)
  case (1 b input)
  show ?case
  proof (cases "CHR 0x0A \<in> set b")
    case True
    have "b = takeWhile (\<lambda>c. c \<noteq> CHR 0x0A) b @ dropWhile (\<lambda>c. c \<noteq> CHR 0x0A) b" by simp
    then have "length b = length (takeWhile (\<lambda>c. c \<noteq> CHR 0x0A) b) + length (dropWhile (\<lambda>c. c \<noteq> CHR 0x0A) b)"
      by (metis length_append)
    moreover have "dropWhile (\<lambda>c. c \<noteq> CHR 0x0A) b \<noteq> []" using True by simp
    ultimately show ?thesis
      using 1(2) True by (subst (asm) send_read_line.simps) (cases "dropWhile (\<lambda>c. c \<noteq> CHR 0x0A) b"; auto)
  next
    case False
    then obtain t q where t: "read_some (SEND_PACKET_SIZE - length b) input = (Got t, q)" "t \<noteq> []"
      "\<not> SEND_PACKET_SIZE \<le> length b" "send_read_line (cstr (b @ t)) q = (Some (line, rest), r)"
      using 1(2) by (subst (asm) send_read_line.simps) (auto split: if_splits prod.splits sock_read.splits)
    have "length line + length rest + 1 + pending r \<le> length (cstr (b @ t)) + pending q"
      by (rule 1(1) [OF False t(3) t(1) [symmetric] refl t(2) t(4)])
    then show ?thesis using read_some_pending [OF t(1)] cstr_length [of "b @ t"] by simp
  qed
qed

lemma read_string_shorter: "read_string s = (Some line, s') \<Longrightarrow> link_bytes s' < link_bytes s"
proof -
  assume r: "read_string s = (Some line, s')"
  let ?b = "if is_ptr s > 0 then cstr (drop (is_ptr s) (is_buffer s)) else []"
  obtain rest q where q: "send_read_line ?b (is_input s) = (Some (line, rest), q)"
      and s': "s' = s\<lparr>is_buffer := line @ CHR 0x00 # rest, is_ptr := length line + 1, is_input := q\<rparr>"
    using r by (auto simp: read_string_def split: prod.splits option.splits)
  have "link_bytes s' = length (cstr rest) + pending q" by (simp add: s' link_bytes_def)
  moreover have "link_bytes s = length ?b + pending (is_input s)" by (simp add: link_bytes_def)
  ultimately show ?thesis using send_read_line_pending [OF q] cstr_length [of rest] by linarith
qed

function send_receive :: "string \<Rightarrow> send_reply \<Rightarrow> irsend_link \<Rightarrow> int \<times> irsend_link" where
  "send_receive packet r s =
     (case read_string s of
        (None, s) \<Rightarrow> (- 1, s)
      | (Some t, s) \<Rightarrow>
          let s = (if sr_state r = PS_DATA_N then s\<lparr>is_printed := is_printed s @ [t]\<rparr> else s)
          in case send_line packet t r of Go_on r \<Rightarrow> send_receive packet r s | Return v \<Rightarrow> (v, s))"
  by pat_completeness auto
termination
  by (relation "measure (\<lambda>(p, r, s). link_bytes s)")
    (auto dest!: read_string_shorter [OF sym] simp: link_bytes_def)

declare send_receive.simps [simp del]

definition send_packet :: "string \<Rightarrow> irsend_link \<Rightarrow> int \<times> irsend_link" where
  "send_packet packet s =
     (case write_packet packet s of
        (False, s) \<Rightarrow> (- 1, s)
      | (True, s) \<Rightarrow> send_receive packet send_reply0 s)"

section \<open>The commands\<close>

datatype send_exit = Exit_success | Exit_failure

text \<open>\<open>sprintf\<close> into the buffer on the stack, and \<open>send_packet\<close>.\<close>

definition format_and_send :: "string \<Rightarrow> irsend_link \<Rightarrow> (int \<times> irsend_link) option" where
  "format_and_send packet s = (if length packet + 1 > SEND_PACKET_SIZE + 1 then None else Some (send_packet packet s))"

fun join_codes :: "string \<Rightarrow> string list \<Rightarrow> string option" where
  "join_codes b [] = Some b"
| "join_codes b (c # cs) =
     (if length b + length c + 2 < SEND_PACKET_SIZE then join_codes (b @ '' '' @ c) cs else None)"

definition set_transmitters_packet :: "string \<Rightarrow> string list \<Rightarrow> string option" where
  "set_transmitters_packet directive args =
     (case args of
        [] \<Rightarrow> None
      | c # cs \<Rightarrow>
          if length directive + length c + 2 < SEND_PACKET_SIZE
          then map_option (\<lambda>b. b @ [CHR 0x0A]) (join_codes (directive @ '' '' @ c) cs) else None)"

definition code_packet :: "string \<Rightarrow> string \<Rightarrow> ulong \<Rightarrow> string \<Rightarrow> string" where
  "code_packet directive remote count c =
     (if strcaseeq directive ''SEND_ONCE'' \<and> uint count > 1
      then directive @ '' '' @ remote @ '' '' @ c @ '' '' @ show_int (uint count) @ [CHR 0x0A]
      else directive @ '' '' @ remote @ '' '' @ c @ [CHR 0x0A])"

fun send_codes ::
  "string \<Rightarrow> string \<Rightarrow> ulong \<Rightarrow> string list \<Rightarrow> irsend_link \<Rightarrow> (send_exit \<times> irsend_link) option" where
  "send_codes directive remote count [] s = Some (Exit_success, s)"
| "send_codes directive remote count (c # cs) s =
     (if length directive + length remote + length c + 3 < SEND_PACKET_SIZE
      then do { (v, s) \<leftarrow> format_and_send (code_packet directive remote count c) s;
                if v = - 1 then Some (Exit_failure, s) else send_codes directive remote count cs s }
      else Some (Exit_failure, s))"

text \<open>The part of \<open>main\<close> behind \<open>SET_TRANSMITTERS\<close>. When all arguments have been used up, \<open>remote\<close> is
  the null pointer behind them, and the comparison with \<open>argc\<close> fails.\<close>

definition send_rest ::
  "string \<Rightarrow> ulong \<Rightarrow> string list \<Rightarrow> irsend_link \<Rightarrow> (send_exit \<times> irsend_link) option" where
  "send_rest directive count args s =
     (if strcaseeq directive ''simulate'' then
        (case args of
           [c] \<Rightarrow>
             if length directive + length c + 2 < SEND_PACKET_SIZE
             then do { (v, s) \<leftarrow> format_and_send (directive @ '' '' @ c @ [CHR 0x0A]) s;
                       Some (if v = - 1 then Exit_failure else Exit_success, s) }
             else Some (Exit_failure, s)
         | _ \<Rightarrow> Some (Exit_failure, s))
      else
        (case args of
           [] \<Rightarrow> Some (Exit_success, s)
         | [remote] \<Rightarrow> Some (Exit_failure, s)
         | remote # cs \<Rightarrow> send_codes directive remote count cs s))"

definition send_commands ::
  "string \<Rightarrow> ulong \<Rightarrow> string list \<Rightarrow> irsend_link \<Rightarrow> (send_exit \<times> irsend_link) option" where
  "send_commands directive count args s =
     (if strcaseeq directive ''set_transmitters'' then
        (case set_transmitters_packet directive args of
           None \<Rightarrow> Some (Exit_failure, s)
         | Some p \<Rightarrow>
             do { (v, s) \<leftarrow> format_and_send p s;
                  if v = - 1 then Some (Exit_failure, s) else send_rest directive count [] s })
      else send_rest directive count args s)"

section \<open>Options\<close>

text \<open>What \<open>getopt_long\<close> yields, one option after the other.\<close>

datatype send_option = Opt_help | Opt_version | Opt_device string | Opt_address string | Opt_count string | Opt_bad

record send_options =
  so_lircd :: "string option"
  so_address :: "string option"
  so_port :: "16 word"
  so_count :: ulong

definition send_options0 :: send_options where
  "send_options0 = \<lparr>so_lircd = None, so_address = None, so_port = 8765, so_count = 1\<rparr>"

text \<open>The address before the colon and the port behind it.\<close>

definition address_option :: "string \<Rightarrow> send_options \<Rightarrow> send_options option" where
  "address_option a os =
     (if CHR '':'' \<in> set a then
        let p = drop 1 (dropWhile (\<lambda>c. c \<noteq> CHR '':'') a); (val, rest) = strtoul10 p
        in if p = [] \<or> rest \<noteq> [] \<or> uint val < 1 \<or> uint val > 65535 then None
           else Some (os\<lparr>so_address := Some (takeWhile (\<lambda>c. c \<noteq> CHR '':'') a), so_port := ucast val\<rparr>)
      else Some (os\<lparr>so_address := Some a\<rparr>))"

fun parse_options :: "send_option list \<Rightarrow> send_options \<Rightarrow> send_exit + send_options" where
  "parse_options [] os = Inr os"
| "parse_options (Opt_help # r) os = Inl Exit_success"
| "parse_options (Opt_version # r) os = Inl Exit_success"
| "parse_options (Opt_bad # r) os = Inl Exit_failure"
| "parse_options (Opt_device d # r) os = parse_options r (os\<lparr>so_lircd := Some d\<rparr>)"
| "parse_options (Opt_address a # r) os =
     (case address_option a os of None \<Rightarrow> Inl Exit_failure | Some os \<Rightarrow> parse_options r os)"
| "parse_options (Opt_count t # r) os =
     (case strtoul10 t of (v, rest) \<Rightarrow>
        if t = [] \<or> rest \<noteq> [] then Inl Exit_failure else parse_options r (os\<lparr>so_count := v\<rparr>))"

text \<open>\<open>connected\<close> is whether a socket could be opened and connected with these options.\<close>

definition irsend_main ::
  "(send_options \<Rightarrow> bool) \<Rightarrow> send_option list \<Rightarrow> string list \<Rightarrow> irsend_link \<Rightarrow> (send_exit \<times> irsend_link) option" where
  "irsend_main connected opts args s =
     (case parse_options opts send_options0 of
        Inl e \<Rightarrow> Some (e, s)
      | Inr os \<Rightarrow>
          if length args < 2 then Some (Exit_failure, s)
          else if (case so_lircd os of None \<Rightarrow> False | Some l \<Rightarrow> length l + 1 > SUN_PATH) then Some (Exit_failure, s)
          else if \<not> connected os then Some (Exit_failure, s)
          else send_commands (hd args) (so_count os) (tl args) s)"

end
