(* ===== verification/IrsendFacts.thy ===== *)
theory IrsendFacts
  imports Irsend RcReply
begin

text \<open>
  Facts about \<open>irsend\<close>: its reading of a reply is that of the client library, it finds the reply of
  \<open>lircd\<close> among the events that are sent to all clients, and what it writes into its buffer fits unless
  a number of repetitions is appended.
\<close>

section \<open>Two readers of one protocol\<close>

definition reply_of :: "packet \<Rightarrow> send_reply" where
  "reply_of p = \<lparr>sr_state = pk_state p, sr_status = pk_status p, sr_n = pk_n p, sr_data_n = pk_data_n p\<rparr>"

lemma send_line_packet_line:
  "send_line packet t (reply_of p) =
     (case packet_line packet cap t p of
        More q \<Rightarrow> Go_on (reply_of q) | Good q \<Rightarrow> Return (pk_status q) | Bad \<Rightarrow> Return (- 1))"
  by (cases "pk_state p") (simp_all add: send_line_def packet_line_def reply_of_def Let_def split: prod.split)

section \<open>Lines\<close>

definition link_buffer :: "irsend_link \<Rightarrow> string" where
  "link_buffer s = (if is_ptr s > 0 then cstr (drop (is_ptr s) (is_buffer s)) else [])"

definition link_rest :: "irsend_link \<Rightarrow> string" where
  "link_rest s = link_buffer s @ bytes_of (is_input s)"

definition short_send_line :: "string \<Rightarrow> bool" where
  "short_send_line l \<longleftrightarrow> newline \<notin> set l \<and> length l < SEND_PACKET_SIZE"

lemma dropWhile_upto: "newline \<notin> set l \<Longrightarrow> dropWhile (\<lambda>c. c \<noteq> newline) (l @ newline # r) = newline # r"
  by (induction l) auto

lemma line_prefix:
  assumes "newline \<notin> set b" "b @ c = l @ newline # r"
  shows "length b \<le> length l"
proof (rule ccontr)
  assume "\<not> length b \<le> length l"
  then have "newline = (b @ c) ! length l \<and> length l < length b" using assms(2) by simp
  then show False using assms(1) nth_mem [of "length l" b] by (auto simp: nth_append)
qed

lemma send_read_line_got:
  assumes "all_got xs" "CHR 0x00 \<notin> set b" "b @ bytes_of xs = l @ newline # r" "short_send_line l"
  shows "\<exists>b' xs'. send_read_line b xs = (Some (l, b'), xs') \<and> all_got xs' \<and> CHR 0x00 \<notin> set b' \<and> b' @ bytes_of xs' = r"
  using assms
proof (induction "length (bytes_of xs)" arbitrary: xs b rule: less_induct)
  case less
  show ?case
  proof (cases "newline \<in> set b")
    case True
    then obtain l' r' where b: "b = l' @ newline # r'" "newline \<notin> set l'" by (metis split_list_first)
    have eq: "l' @ newline # (r' @ bytes_of xs) = l @ newline # r" using less.prems(3) b(1) by simp
    then have "l' = l"
      using takeWhile_upto [OF b(2), of "r' @ bytes_of xs"] takeWhile_upto [of l r] less.prems(4)
      by (metis short_send_line_def)
    then have "send_read_line b xs = (Some (l, r'), xs)"
      using True b takeWhile_upto [of l r'] dropWhile_upto [of l r'] by (subst send_read_line.simps) simp
    then show ?thesis using less.prems(1,2) eq b \<open>l' = l\<close> by simp
  next
    case False
    have len: "length b < SEND_PACKET_SIZE"
      using line_prefix [OF False less.prems(3)] less.prems(4) by (simp add: short_send_line_def)
    have "xs \<noteq> []" using less.prems(3) False by (cases xs) auto
    then obtain t r1 where t: "read_some (SEND_PACKET_SIZE - length b) xs = (Got t, r1)" "t \<noteq> []" "CHR 0x00 \<notin> set t"
      "all_got r1" "bytes_of xs = t @ bytes_of r1"
      using read_some_got [OF less.prems(1), of "SEND_PACKET_SIZE - length b"] len by auto
    have "cstr (b @ t) = b @ t" using less.prems(2) t(3) by (intro cstr_plain) simp
    then have "send_read_line b xs = send_read_line (b @ t) r1"
      using False len t by (subst send_read_line.simps) simp
    moreover have "length (bytes_of r1) < length (bytes_of xs)" using t(2,5) by simp
    ultimately show ?thesis using less.hyps [of r1 "b @ t"] t less.prems by simp
  qed
qed

lemma link_rest_frame [simp]:
  "link_rest (s\<lparr>is_written := w\<rparr>) = link_rest s" "link_rest (s\<lparr>is_printed := p\<rparr>) = link_rest s"
  by (simp_all add: link_rest_def link_buffer_def)

lemma cstr_no_zero [simp]: "CHR 0x00 \<notin> set (cstr t)"
  by (auto simp: cstr_def dest: set_takeWhileD)

lemma read_send_line:
  assumes "all_got (is_input s)" "link_rest s = l @ newline # r" "short_send_line l"
  shows "\<exists>s'. read_string s = (Some l, s') \<and> all_got (is_input s') \<and> link_rest s' = r \<and>
    is_printed s' = is_printed s \<and> is_written s' = is_written s"
proof -
  have "CHR 0x00 \<notin> set (link_buffer s)" by (simp add: link_buffer_def)
  then obtain b xs where b: "send_read_line (link_buffer s) (is_input s) = (Some (l, b), xs)" "all_got xs"
    "CHR 0x00 \<notin> set b" "b @ bytes_of xs = r"
    using send_read_line_got [OF assms(1), of "link_buffer s" l r] assms(2,3) by (auto simp: link_rest_def)
  then show ?thesis
    using cstr_plain [of b] by (simp add: read_string_def link_buffer_def [symmetric])
      (simp add: link_rest_def link_buffer_def)
qed

section \<open>The reply\<close>

text \<open>Lines up to the end of the packet; with a buffer that is large enough, what the library copies is
  what \<open>irsend\<close> prints.\<close>

lemma packet_line_written:
  assumes "packet_line packet cap t p = More q \<or> packet_line packet cap t p = Good q" "pk_written p + length t + 1 < cap"
  shows "pk_copied q = pk_copied p @ (if pk_state p = PS_DATA_N then [t] else []) \<and>
    pk_written q \<le> pk_written p + length t + 1"
  using assms by (cases "pk_state p") (auto simp: packet_line_def Let_def split: if_splits prod.splits)

lemma send_receive_lines:
  assumes "packet_lines packet cap p ls = Good q" "list_all short_send_line ls"
    "all_got (is_input s)" "link_rest s = concat (map (\<lambda>l. l @ endl) ls) @ r"
    "pk_written p + sum_list (map (\<lambda>l. length l + 1) ls) < cap" "is_printed s = pr @ pk_copied p"
  shows "\<exists>s'. send_receive packet (reply_of p) s = (pk_status q, s') \<and> all_got (is_input s') \<and> link_rest s' = r \<and>
    is_printed s' = pr @ pk_copied q \<and> is_written s' = is_written s"
  using assms
proof (induction ls arbitrary: p s)
  case (Cons l ls)
  have "link_rest s = l @ newline # (concat (map (\<lambda>l. l @ endl) ls) @ r)" using Cons.prems(4) by (simp add: endl_def)
  moreover have "short_send_line l" using Cons.prems(2) by simp
  ultimately obtain t where t: "read_string s = (Some l, t)" "all_got (is_input t)"
    "link_rest t = concat (map (\<lambda>l. l @ endl) ls) @ r" "is_printed t = is_printed s" "is_written t = is_written s"
    using read_send_line [OF Cons.prems(3)] by blast
  let ?t = "if pk_state p = PS_DATA_N then t\<lparr>is_printed := is_printed t @ [l]\<rparr> else t"
  have f: "all_got (is_input ?t)" "link_rest ?t = concat (map (\<lambda>l. l @ endl) ls) @ r" "is_written ?t = is_written s"
    using t by simp_all
  have step: "send_receive packet (reply_of p) s =
      (case packet_line packet cap l p of
         More q \<Rightarrow> send_receive packet (reply_of q) ?t | Good q \<Rightarrow> (pk_status q, ?t) | Bad \<Rightarrow> (- 1, ?t))"
    using t(1) send_line_packet_line [of packet l p cap]
    by (subst send_receive.simps) (simp add: reply_of_def Let_def split: packet_step.split)
  have w: "pk_written p + length l + 1 < cap" using Cons.prems(5) by simp
  show ?case
  proof (cases "packet_line packet cap l p")
    case (More p')
    have c: "pk_copied p' = pk_copied p @ (if pk_state p = PS_DATA_N then [l] else [])"
      "pk_written p' \<le> pk_written p + length l + 1"
      using packet_line_written [OF disjI1 [OF More] w] by simp_all
    have g: "packet_lines packet cap p' ls = Good q" using Cons.prems(1) More by simp
    have ls: "list_all short_send_line ls" using Cons.prems(2) by simp
    have wr: "pk_written p' + sum_list (map (\<lambda>l. length l + 1) ls) < cap" using c(2) Cons.prems(5) by simp
    have pr: "is_printed ?t = pr @ pk_copied p'" using c(1) Cons.prems(6) t(4) by simp
    show ?thesis using Cons.IH [OF g ls f(1,2) wr pr] f(3) unfolding step More by simp
  next
    case (Good p')
    then have "ls = []" "p' = q" using Cons.prems(1) by (simp_all split: if_splits)
    then show ?thesis
      using packet_line_written [OF disjI2 [OF Good] w] Cons.prems(6) t f Good unfolding step
      by simp
  next
    case Bad
    then show ?thesis using Cons.prems by simp
  qed
qed simp

text \<open>What \<open>lircd\<close> sends to all clients: single lines, and the packet that announces a new
  configuration.\<close>

definition broadcast_lines :: "string \<Rightarrow> string list \<Rightarrow> bool" where
  "broadcast_lines l b \<longleftrightarrow>
     (\<exists>t. b = [t] \<and> \<not> strcaseeq t ''BEGIN'') \<or> (\<exists>t. b = [''BEGIN'', t, ''END''] \<and> \<not> strcaseeq t l)"

lemma packet0_state: "pk_state packet0 = PS_BEGIN" "packet0\<lparr>pk_state := PS_BEGIN\<rparr> = packet0"
  by (simp_all add: packet0_def)

lemma broadcast_skipped:
  assumes "broadcast_lines l b"
  shows "packet_lines (l @ endl) cap packet0 b = More packet0"
  using assms
proof (unfold broadcast_lines_def, elim disjE exE conjE)
  fix t assume "b = [t]" "\<not> strcaseeq t ''BEGIN''"
  then show ?thesis by (simp add: packet_line_def packet0_state)
next
  fix t assume b: "b = [''BEGIN'', t, ''END'']" "\<not> strcaseeq t l"
  have "packet_line (l @ endl) cap t (packet0\<lparr>pk_state := PS_MESSAGE\<rparr>) = More packet0"
    using b(2) packet0_state(2) by (auto simp: packet_line_def endl_def)
  then show ?thesis using b(1) by (simp add: packet_line_def packet0_state strcaseeq_def)
qed

lemma broadcasts_skipped:
  "list_all (broadcast_lines l) bs \<Longrightarrow> packet_lines (l @ endl) cap packet0 (concat bs) = More packet0"
  by (induction bs) (simp_all add: broadcast_skipped packet_lines_append)

lemma with_room_all: "sum_list (map (\<lambda>l. length l + 1) ts) < cap \<Longrightarrow> with_room cap ts = ts"
  by (induction ts arbitrary: cap) simp_all

lemma write_all_accepted: "is_writes s = [] \<Longrightarrow> d \<noteq> [] \<Longrightarrow> write_packet d s = (True, s\<lparr>is_written := is_written s @ d\<rparr>)"
  by (subst write_packet.simps) simp

text \<open>C5: When \<open>lircd\<close> answers, however the bytes are cut into reads and whatever it has sent to all
  clients before, \<open>irsend\<close> returns whether the command succeeded, prints the data and leaves what follows
  for the next command.\<close>

theorem irsend_gets_its_answer:
  assumes "is_writes s = []" "all_got (is_input s)"
    and "link_rest s = concat (map (\<lambda>l. l @ endl) (concat bs)) @ reply_packet (l @ endl) success data @ later"
    and "list_all (broadcast_lines l) bs" "length data < 2 ^ 31"
    and "list_all (\<lambda>l. CHR 0x0A \<notin> set l \<and> length l < SEND_PACKET_SIZE) (concat bs @ l # data)"
  shows "\<exists>s'. send_packet (l @ endl) s = (if success then 0 else - 1, s') \<and> is_printed s' = is_printed s @ data \<and>
    is_written s' = is_written s @ l @ endl \<and> all_got (is_input s') \<and> link_rest s' = later"
proof -
  let ?ls = "concat bs @ reply_lines l success data"
  let ?cap = "Suc (sum_list (map (\<lambda>l. length l + 1) ?ls))"
  obtain q where q: "packet_lines (l @ endl) ?cap packet0 (reply_lines l success data) = Good q"
    "pk_status q = (if success then 0 else - 1)" "pk_copied q = with_room ?cap data"
    using packet_reply [OF assms(5)] by blast
  have g: "packet_lines (l @ endl) ?cap packet0 ?ls = Good q"
    using packet_lines_append [OF broadcasts_skipped [OF assms(4)], of ?cap "reply_lines l success data"] q(1) by simp
  have c: "pk_copied q = data" unfolding q(3) by (rule with_room_all) (simp add: reply_lines_def)
  let ?s = "s\<lparr>is_written := is_written s @ l @ endl\<rparr>"
  have n: "newline \<notin> set (show_int (int (length data)))" by simp
  have "length (show_int (int (length data))) < SEND_PACKET_SIZE"
    using value_ok_int [of "int (length data)"] assms(5) by (simp add: value_ok_def i32_range_def SEND_PACKET_SIZE_def)
  then have sh: "list_all short_send_line ?ls"
    using assms(6) n by (auto simp: reply_lines_def short_send_line_def list_all_iff SEND_PACKET_SIZE_def)
  have "\<exists>s'. send_receive (l @ endl) (reply_of packet0) ?s = (pk_status q, s') \<and> all_got (is_input s') \<and> link_rest s' = later \<and>
    is_printed s' = is_printed s @ pk_copied q \<and> is_written s' = is_written ?s"
    by (rule send_receive_lines [OF g sh])
      (use assms(2,3) in \<open>simp_all add: reply_lines_text packet0_def\<close>)
  moreover have "write_packet (l @ endl) s = (True, ?s)" using write_all_accepted [OF assms(1)] by (simp add: endl_def)
  moreover have "send_reply0 = reply_of packet0" by (simp add: send_reply0_def reply_of_def packet0_def)
  ultimately show ?thesis using q(2) c by (auto simp: send_packet_def)
qed

section \<open>The buffer\<close>

lemma join_codes_length: "join_codes b cs = Some t \<Longrightarrow> length b + 1 < SEND_PACKET_SIZE \<Longrightarrow> length t + 1 < SEND_PACKET_SIZE"
  by (induction b cs rule: join_codes.induct) (auto split: if_splits)

lemma transmitters_fit: "set_transmitters_packet d args = Some p \<Longrightarrow> length p < SEND_PACKET_SIZE"
  by (auto simp: set_transmitters_packet_def dest!: join_codes_length split: list.splits if_splits)

lemma code_packet_fits:
  "\<not> (strcaseeq d ''SEND_ONCE'' \<and> uint n > 1) \<Longrightarrow> length d + length r + length c + 3 < SEND_PACKET_SIZE \<Longrightarrow>
     length (code_packet d r n c) \<le> SEND_PACKET_SIZE"
  by (auto simp: code_packet_def)

lemma send_codes_fit:
  "\<not> (strcaseeq d ''SEND_ONCE'' \<and> uint n > 1) \<Longrightarrow> send_codes d r n cs s \<noteq> None"
proof (induction cs arbitrary: s)
  case (Cons c cs)
  then show ?case
    using code_packet_fits [OF Cons.prems, of r c] by (auto simp: format_and_send_def split: prod.splits)
qed simp

lemma send_rest_fits:
  "\<not> (strcaseeq d ''SEND_ONCE'' \<and> uint n > 1) \<Longrightarrow> send_rest d n args s \<noteq> None"
  using send_codes_fit [of d n]
  by (auto simp: send_rest_def format_and_send_def simp del: send_codes.simps split: list.splits prod.splits)

text \<open>C27: The packet fits into its buffer for all arguments, unless \<open>SEND_ONCE\<close> is used with a number of
  repetitions.\<close>

theorem packet_fits_buffer:
  assumes "irsend_main connected opts args s = None"
  shows "\<exists>os. parse_options opts send_options0 = Inr os \<and> strcaseeq (hd args) ''SEND_ONCE'' \<and> uint (so_count os) > 1"
proof -
  have "strcaseeq d ''SEND_ONCE'' \<and> uint n > 1" if c: "send_commands d n rest s = None" for d n rest
  proof (rule ccontr)
    assume "\<not> (strcaseeq d ''SEND_ONCE'' \<and> uint n > 1)"
    from send_rest_fits [OF this] have fits: "send_rest d n a t = None \<longleftrightarrow> False" for a t by blast
    show False
    proof (cases "strcaseeq d ''set_transmitters''")
      case False
      then show False using c fits by (simp add: send_commands_def)
    next
      case True
      then obtain p where p: "set_transmitters_packet d rest = Some p"
        using c by (auto simp: send_commands_def split: option.splits)
      then show False
        using True c fits transmitters_fit [OF p]
        by (auto simp: send_commands_def format_and_send_def fits simp del: not_None_eq split: if_splits prod.splits)
    qed
  qed
  then show ?thesis using assms by (auto simp: irsend_main_def split: sum.splits if_splits)
qed

text \<open>A number of repetitions is not counted when the length is checked.\<close>

definition long_code :: string where "long_code = replicate 240 CHR ''k''"

lemma repetitions_overflow:
  "irsend_main (\<lambda>os. True) [Opt_count ''4000000''] [''SEND_ONCE'', ''r'', long_code] s = None"
proof -
  have o: "parse_options [Opt_count ''4000000''] send_options0 = Inr (send_options0\<lparr>so_count := 4000000\<rparr>)" by code_simp
  have "length (code_packet ''SEND_ONCE'' ''r'' 4000000 long_code) = 261" by code_simp
  moreover have "strcaseeq ''SEND_ONCE'' ''SEND_ONCE''" "\<not> strcaseeq ''SEND_ONCE'' ''set_transmitters''"
    "\<not> strcaseeq ''SEND_ONCE'' ''simulate''"
    by code_simp+
  ultimately show ?thesis
    using o by (simp add: irsend_main_def send_options0_def send_commands_def send_rest_def
        format_and_send_def SEND_PACKET_SIZE_def long_code_def)
qed

theorem packet_fits_buffer_witness:
  "\<exists>os. parse_options [Opt_count ''4000000''] send_options0 = Inr os \<and> uint (so_count os) > 1"
  using packet_fits_buffer [OF repetitions_overflow] by blast

definition demo_link :: irsend_link where
  "demo_link = \<lparr>is_buffer = [], is_ptr = 0,
     is_input = [Got (''01 00 a r'' @ endl @ ''BEG''), Got (''IN'' @ endl @ ''SIGHUP'' @ endl @ ''END'' @ endl @ ''BEGIN'' @ endl),
       Got (''list'' @ endl @ ''SUCCESS'' @ endl @ ''DATA'' @ endl @ ''1'' @ endl), Got (''tv'' @ endl @ ''END'' @ endl)],
     is_writes = [], is_written = [], is_printed = []\<rparr>"

theorem irsend_gets_its_answer_witness:
  "\<exists>s. send_packet (''list'' @ endl) demo_link = (0, s) \<and> is_printed s = [''tv'']"
proof -
  let ?bs = "[[''01 00 a r''], [''BEGIN'', ''SIGHUP'', ''END'']]"
  have i: "all_got (is_input demo_link)" by (simp add: demo_link_def endl_def)
  have d: "link_rest demo_link =
      concat (map (\<lambda>l. l @ endl) (concat ?bs)) @ reply_packet (''list'' @ endl) True [''tv''] @ []"
    by (simp add: demo_link_def link_rest_def link_buffer_def reply_packet_def protocol_strings show_int_def show_dec_def numeral_eq_Suc)
  have b: "list_all (broadcast_lines ''list'') ?bs" by (simp add: broadcast_lines_def strcaseeq_def)
  have w: "is_writes demo_link = []" "is_printed demo_link = []" by (simp_all add: demo_link_def)
  show ?thesis
    using irsend_gets_its_answer [OF w(1) i d b] w(2) by (auto simp: SEND_PACKET_SIZE_def)
qed

end
