(* ===== verification/SerialDrivers.thy ===== *)
theory SerialDrivers
  imports SerialLine DecodeAll
begin

text \<open>
  Receivers on a serial port that send a few bytes for every button, \<open>daemons/hw_creative.c\<close>,
  \<open>hw_pixelview.c\<close>, \<open>hw_uirt2.c\<close>, \<open>hw_usbx.c\<close>, \<open>hw_pinsys.c\<close>, \<open>hw_logitech.c\<close> and
  \<open>hw_mp3anywhere.c\<close>: how a code is put together from the bytes (\<open>rec_func\<close>), and how it is fitted to a
  remote (\<open>decode_func\<close>).

  The state of the daemon is extended by the line and by the static variables that all of these
  drivers have: the bytes, the times, the length of a signal and the code.
\<close>

record serial_rx = lircd_rel +
  sl_line :: "line_event list"
  sl_b :: "byte list"
  sl_start :: timeval
  sl_end :: timeval
  sl_last :: timeval
  sl_signal_length :: lirc_t
  sl_pre :: ir_code
  sl_code :: ir_code

section \<open>Reading\<close>

text \<open>\<open>read (hw.fd, &x, 1)\<close> on a port that does not block: \<open>None\<close> is a result other than 1.\<close>

fun read_byte :: "line_event list \<Rightarrow> byte option \<times> line_event list" where
  "read_byte (Byte b # es) = (Some b, es)"
| "read_byte (Read_error # es) = (None, es)"
| "read_byte es = (None, es)"

text \<open>The loop \<open>for (i = 0; i < n; i++)\<close> that waits for every byte but the first, reads it into \<open>b[i]\<close>
  and checks the bytes so far; \<open>None\<close>: it has returned.\<close>

fun read_frame ::
  "int \<Rightarrow> (nat \<Rightarrow> byte list \<Rightarrow> bool) \<Rightarrow> nat \<Rightarrow> nat \<Rightarrow> byte list \<Rightarrow> line_event list \<Rightarrow> byte list option \<times> line_event list" where
  "read_frame timeout ok 0 i b es = (Some b, es)"
| "read_frame timeout ok (Suc n) i b es =
     (case (if i > 0 then line_wait timeout es else (True, es)) of
        (False, es) \<Rightarrow> (None, es)
      | (True, es) \<Rightarrow>
          (case read_byte es of
             (None, es) \<Rightarrow> (None, es)
           | (Some x, es) \<Rightarrow>
               if ok i (b[i := x]) then read_frame timeout ok n (Suc i) (b[i := x]) es else (None, es)))"

text \<open>\<open>last = end; gettimeofday (&start, NULL)\<close>, and \<open>gettimeofday (&end, NULL)\<close>.\<close>

definition frame_start :: "'z serial_rx_scheme \<Rightarrow> 'z serial_rx_scheme" where
  "frame_start s = (let s = s\<lparr>sl_last := sl_end s\<rparr>; (now, s) = gettimeofday s in s\<lparr>sl_start := now\<rparr>)"

definition frame_end :: "'z serial_rx_scheme \<Rightarrow> 'z serial_rx_scheme" where
  "frame_end s = (let (now, s) = gettimeofday s in s\<lparr>sl_end := now\<rparr>)"

text \<open>\<open>map_code\<close> and \<open>map_gap\<close> as a \<open>decode_func\<close>.\<close>

definition mapped ::
  "int \<Rightarrow> ir_code \<Rightarrow> int \<Rightarrow> ir_code \<Rightarrow> int \<Rightarrow> ir_code \<Rightarrow> addr \<Rightarrow> 'z serial_rx_scheme \<Rightarrow> dec_result option" where
  "mapped pre_n pre code_n code post_n post p s =
     map_option (\<lambda>(a, c, t).
         let (rep, min_gap, max_gap) = map_gap (hw s) (store s p) (sl_start s) (sl_last s) (sl_signal_length s)
         in \<lparr>d_pre = a, d_code = c, d_post = t, d_repeat = rep,
             d_min_remaining_gap = min_gap, d_max_remaining_gap = max_gap\<rparr>)
       (map_code (store s p) pre_n pre code_n code post_n post)"

section \<open>Opening and closing\<close>

text \<open>What becomes of the lock file and of \<open>hw.fd\<close>.\<close>

record serial_port =
  sp_locked :: bool
  sp_open :: bool
  sp_fd :: int

text \<open>The calls of the \<open>init\<close> functions in their order, with their outcome: the lock, \<open>open\<close> (the
  descriptor, or a negative number), and the calls that set up the terminal.\<close>

record serial_setup =
  su_lock :: bool
  su_open :: int
  su_tty :: "bool list"

definition serial_deinit :: "serial_port \<Rightarrow> serial_port" where
  "serial_deinit p = p\<lparr>sp_open := False, sp_locked := False\<rparr>"

definition serial_init :: "serial_setup \<Rightarrow> serial_port \<Rightarrow> bool \<times> serial_port" where
  "serial_init u p =
     (if \<not> su_lock u then (False, p)
      else if su_open u < 0 then (False, p\<lparr>sp_fd := su_open u, sp_locked := False\<rparr>)
      else
        let p = p\<lparr>sp_locked := True, sp_open := True, sp_fd := su_open u\<rparr>
        in if list_all id (su_tty u) then (True, p) else (False, serial_deinit p))"

text \<open>The length of a signal of \<open>n\<close> bits at \<open>bps\<close> bits per second, in microseconds.\<close>

definition signal_length_at :: "u32 \<Rightarrow> u32 \<Rightarrow> lirc_t" where
  "signal_length_at n bps = sint ((n * 1000000) div bps)"

definition init_with ::
  "lirc_t \<Rightarrow> serial_setup \<Rightarrow> serial_port \<Rightarrow> 'z serial_rx_scheme \<Rightarrow> (bool \<times> serial_port) \<times> 'z serial_rx_scheme" where
  "init_with len u p s = (serial_init u p, s\<lparr>sl_signal_length := len\<rparr>)"

text \<open>\<open>creative_init\<close>, \<open>pixelview_init\<close>, \<open>logitech_init\<close>, \<open>mp3anywhere_init\<close> and \<open>pinsys_init\<close> when the
  device can be opened.\<close>

definition creative_init where "creative_init = init_with 108000"
definition pixelview_init where "pixelview_init = init_with (signal_length_at 30 1200)"
definition logitech_init where "logitech_init = init_with (signal_length_at 16 1200)"
definition mp3anywhere_init where "mp3anywhere_init = init_with (signal_length_at 8 9600)"
definition pinsys_init where "pinsys_init = init_with (signal_length_at (24 + (24 div 24) * 2) 1200)"

text \<open>\<open>autodetect\<close> of the Pinnacle driver: \<open>lock i\<close> is whether port \<open>i\<close> can be locked, \<open>found\<close> whether a
  device file can be opened and the receiver answers there.\<close>

definition pinsys_autodetect :: "(nat \<Rightarrow> bool) \<Rightarrow> (string \<Rightarrow> bool) \<Rightarrow> nat option" where
  "pinsys_autodetect lock found = find (\<lambda>i. lock i \<and> found ''/dev/ttyS0'') [0..<4]"

text \<open>\<open>uirt2_init\<close> and \<open>usbx_init\<close>.\<close>

definition uirt2_init where "uirt2_init = serial_init"

definition usbx_deinit :: "serial_port \<Rightarrow> serial_port" where
  "usbx_deinit p = p\<lparr>sp_open := False, sp_fd := - 1, sp_locked := False\<rparr>"

definition usbx_init :: "serial_setup \<Rightarrow> serial_port \<Rightarrow> bool \<times> serial_port" where
  "usbx_init u p =
     (if \<not> su_lock u then (False, p)
      else if su_open u < 0 then (False, p\<lparr>sp_fd := su_open u, sp_locked := False\<rparr>)
      else
        let p = p\<lparr>sp_locked := True, sp_open := True, sp_fd := su_open u\<rparr>
        in if list_all id (su_tty u) then (True, p) else (False, usbx_deinit p))"

section \<open>Creative\<close>

definition creative_ok :: "nat \<Rightarrow> byte list \<Rightarrow> bool" where
  "creative_ok i b \<longleftrightarrow> b ! 0 = 0x4d \<and> b ! 1 = 0x05 \<and> (i = 5 \<longrightarrow> b ! 2 = NOT (b ! 3))"

definition two_bytes :: "byte \<Rightarrow> byte \<Rightarrow> ir_code" where
  "two_bytes a b = push_bit 8 (ucast a) OR ucast b"

definition creative_decode :: "addr \<Rightarrow> 'z serial_rx_scheme \<Rightarrow> (dec_result option \<times> 'z serial_rx_scheme) option" where
  "creative_decode p s = Some (mapped 16 (sl_pre s) 16 (sl_code s) 0 0 p s, s)"

definition creative_rec :: "addr list \<Rightarrow> 'z serial_rx_scheme \<Rightarrow> (string option \<times> 'z serial_rx_scheme) option" where
  "creative_rec remotes s =
     (let s = frame_start (s\<lparr>sl_b := (sl_b s)[0 := 0x4d, 1 := 0x05, 4 := 0xac, 5 := 0x21]\<rparr>)
      in case read_frame 20000 creative_ok 6 0 (sl_b s) (sl_line s) of
           (None, es) \<Rightarrow> Some (None, s\<lparr>sl_line := es\<rparr>)
         | (Some b, es) \<Rightarrow>
             let s = frame_end (s\<lparr>sl_line := es, sl_b := b\<rparr>);
                 s = s\<lparr>sl_pre := reverse (two_bytes (b ! 4) (b ! 5)) 16,
                       sl_code := reverse (two_bytes (b ! 2) (b ! 3)) 16\<rparr>
             in decode_all creative_decode remotes s)"

section \<open>PixelView\<close>

text \<open>The bits of a byte as they are sent, with the stop bit behind them.\<close>

definition framed_byte :: "byte \<Rightarrow> ir_code" where
  "framed_byte x = push_bit 1 (reverse (ucast x) 8) OR 1"

definition pixelview_decode :: "addr \<Rightarrow> 'z serial_rx_scheme \<Rightarrow> (dec_result option \<times> 'z serial_rx_scheme) option" where
  "pixelview_decode p s = Some (mapped 10 (sl_pre s) 20 (sl_code s) 0 0 p s, s)"

definition pixelview_rec :: "addr list \<Rightarrow> 'z serial_rx_scheme \<Rightarrow> (string option \<times> 'z serial_rx_scheme) option" where
  "pixelview_rec remotes s =
     (let s = frame_start s
      in case read_frame 50000 (\<lambda>i b. True) 3 0 (sl_b s) (sl_line s) of
           (None, es) \<Rightarrow> Some (None, s\<lparr>sl_line := es\<rparr>)
         | (Some b, es) \<Rightarrow>
             let s = frame_end (s\<lparr>sl_line := es, sl_b := b\<rparr>);
                 s = s\<lparr>sl_pre := framed_byte (b ! 0),
                       sl_code := push_bit 10 (framed_byte (b ! 1)) OR framed_byte (b ! 2)\<rparr>
             in decode_all pixelview_decode remotes s)"

section \<open>UIRT2 and USBX\<close>

definition append_byte :: "byte \<Rightarrow> ir_code \<Rightarrow> ir_code" where
  "append_byte x code = push_bit 8 code OR ucast x"

definition uirt2_decode :: "addr \<Rightarrow> 'z serial_rx_scheme \<Rightarrow> (dec_result option \<times> 'z serial_rx_scheme) option" where
  "uirt2_decode p s = Some (mapped 0 0 48 (sl_code s) 0 0 p (s\<lparr>sl_signal_length := 0\<rparr>), s)"

definition uirt2_rec :: "addr list \<Rightarrow> 'z serial_rx_scheme \<Rightarrow> (string option \<times> 'z serial_rx_scheme) option" where
  "uirt2_rec remotes s =
     (let s = frame_start s
      in case read_frame 20000 (\<lambda>i b. True) 6 0 (sl_b s) (sl_line s) of
           (None, es) \<Rightarrow> Some (None, s\<lparr>sl_line := es\<rparr>)
         | (Some b, es) \<Rightarrow>
             let s = frame_end (s\<lparr>sl_line := es, sl_b := b\<rparr>)
             in decode_all uirt2_decode remotes (s\<lparr>sl_code := fold append_byte (take 6 b) 0\<rparr>))"

definition USBX_REPEAT_FLAG :: ir_code where [c_eval]: "USBX_REPEAT_FLAG = 1"

definition usbx_decode :: "addr \<Rightarrow> 'z serial_rx_scheme \<Rightarrow> (dec_result option \<times> 'z serial_rx_scheme) option" where
  "usbx_decode p s =
     (let r = store s p
      in if flags r AND CONST_LENGTH \<noteq> 0 then Some (None, s)
         else
           Some (map_option (\<lambda>(a, c, t).
               \<lparr>d_pre = a, d_code = c, d_post = t, d_repeat = (sl_code s AND USBX_REPEAT_FLAG \<noteq> 0),
                d_min_remaining_gap = min_gap r, d_max_remaining_gap = max_gap r\<rparr>)
             (map_code r 0 0 48 (sl_code s AND NOT USBX_REPEAT_FLAG) 0 0), s))"

text \<open>A timeout ends the loop, the bytes so far are used; after a read error the device is closed.\<close>

fun usbx_bytes :: "nat \<Rightarrow> nat \<Rightarrow> byte list \<Rightarrow> line_event list \<Rightarrow> (byte list \<times> nat) option \<times> line_event list" where
  "usbx_bytes 0 i b es = (Some (b, i), es)"
| "usbx_bytes (Suc n) i b es =
     (case (if i > 0 then line_wait 20000 es else (True, es)) of
        (False, es) \<Rightarrow> (Some (b, i), es)
      | (True, es) \<Rightarrow>
          (case read_byte es of
             (None, es) \<Rightarrow> (None, es)
           | (Some x, es) \<Rightarrow> usbx_bytes n (Suc i) (b[i := x]) es))"

text \<open>The first component is whether the device has been closed.\<close>

definition usbx_rec ::
  "addr list \<Rightarrow> 'z serial_rx_scheme \<Rightarrow> (bool \<times> string option \<times> 'z serial_rx_scheme) option" where
  "usbx_rec remotes s =
     (case usbx_bytes 6 0 (sl_b s) (sl_line s) of
        (None, es) \<Rightarrow> Some (True, None, s\<lparr>sl_line := es\<rparr>)
      | (Some (b, x), es) \<Rightarrow>
          map_option (Pair False)
            (decode_all usbx_decode remotes (s\<lparr>sl_line := es, sl_b := b, sl_code := fold append_byte (take x b) 0\<rparr>)))"

section \<open>Pinnacle Systems\<close>

definition PINSYS_REPEAT_FLAG :: ir_code where [c_eval]: "PINSYS_REPEAT_FLAG = 0x000040"
definition PINSYS_REPEAT_MASK :: ir_code where [c_eval]: "PINSYS_REPEAT_MASK = 0x00e840"

definition pinsys_decode :: "addr \<Rightarrow> 'z serial_rx_scheme \<Rightarrow> (dec_result option \<times> 'z serial_rx_scheme) option" where
  "pinsys_decode p s =
     (let rep = (sl_code s AND PINSYS_REPEAT_FLAG \<noteq> 0);
          code = (if rep then sl_code s XOR PINSYS_REPEAT_MASK else sl_code s)
      in Some (map_option (\<lambda>d.
              if tv_sec (sl_start s) - tv_sec (sl_last s) < 2 \<and> rep then d\<lparr>d_repeat := True\<rparr> else d)
            (mapped 0 0 24 code 0 0 p s), s))"

text \<open>\<open>tcflush\<close> drops what has arrived.\<close>

definition line_flush :: "line_event list \<Rightarrow> line_event list" where
  "line_flush es = dropWhile (\<lambda>e. case e of Byte _ \<Rightarrow> True | _ \<Rightarrow> False) es"

fun pinsys_bytes :: "nat \<Rightarrow> nat \<Rightarrow> byte list \<Rightarrow> line_event list \<Rightarrow> byte list option \<times> line_event list" where
  "pinsys_bytes 0 i b es = (Some b, es)"
| "pinsys_bytes (Suc n) i b es =
     (case (if i > 0 then line_wait 20000 es else (True, es)) of
        (False, es) \<Rightarrow> (None, line_flush es)
      | (True, es) \<Rightarrow>
          (case read_byte es of
             (None, es) \<Rightarrow> (None, es)
           | (Some x, es) \<Rightarrow> pinsys_bytes n (Suc i) (b[i := x]) es))"

definition pinsys_rec :: "addr list \<Rightarrow> 'z serial_rx_scheme \<Rightarrow> (string option \<times> 'z serial_rx_scheme) option" where
  "pinsys_rec remotes s =
     (let s = frame_start s
      in case pinsys_bytes 3 0 (sl_b s) (sl_line s) of
           (None, es) \<Rightarrow> Some (None, s\<lparr>sl_line := es\<rparr>)
         | (Some b, es) \<Rightarrow>
             let s = frame_end (s\<lparr>sl_line := es, sl_b := b\<rparr>)
             in decode_all pinsys_decode remotes
                  (s\<lparr>sl_code := ucast (b ! 2) OR push_bit 8 (ucast (b ! 1)) OR push_bit 16 (ucast (b ! 0))\<rparr>))"

section \<open>Logitech\<close>

text \<open>The bytes up to 0xAA, from \<open>b[1]\<close> on; a byte of the mouse ends the loop too.\<close>

fun logitech_bytes :: "nat \<Rightarrow> nat \<Rightarrow> byte list \<Rightarrow> line_event list \<Rightarrow> byte list option \<times> line_event list" where
  "logitech_bytes 0 i b es = (Some b, es)"
| "logitech_bytes (Suc n) i b es =
     (if b ! i = 0xAA \<or> i + 1 \<ge> 16 then (Some b, es)
      else case line_wait 50000 es of
        (False, es) \<Rightarrow> (None, es)
      | (True, es) \<Rightarrow>
          (case read_byte es of
             (None, es) \<Rightarrow> (None, es)
           | (Some x, es) \<Rightarrow>
               if 0x40 \<le> x \<and> x \<le> 0x6F then (Some (b[i + 1 := x, 1 := 0xA0, 2 := x]), es)
               else logitech_bytes n (i + 1) (b[i + 1 := x]) es))"

definition logitech_decode :: "addr \<Rightarrow> 'z serial_rx_scheme \<Rightarrow> (dec_result option \<times> 'z serial_rx_scheme) option" where
  "logitech_decode p s = Some (mapped 8 (sl_pre s) 8 (sl_code s) 0 0 p s, s)"

definition logitech_rec :: "addr list \<Rightarrow> 'z serial_rx_scheme \<Rightarrow> (string option \<times> 'z serial_rx_scheme) option" where
  "logitech_rec remotes s =
     (let s = frame_start (s\<lparr>sl_b := (sl_b s)[0 := 0x00]\<rparr>)
      in case logitech_bytes 16 0 (sl_b s) (sl_line s) of
           (None, es) \<Rightarrow> Some (None, s\<lparr>sl_line := es\<rparr>)
         | (Some b, es) \<Rightarrow>
             let s = frame_end (s\<lparr>sl_line := es, sl_b := b\<rparr>);
                 rep = (b ! 1 \<noteq> 0xA0)
             in decode_all logitech_decode remotes
                  (s\<lparr>sl_pre := (if \<not> rep then ucast (b ! 1) else 0xA0), sl_code := ucast (b ! 2)\<rparr>))"

section \<open>MP3 Anywhere\<close>

fun mp3anywhere_bytes :: "nat \<Rightarrow> nat \<Rightarrow> byte list \<Rightarrow> line_event list \<Rightarrow> byte list option \<times> line_event list" where
  "mp3anywhere_bytes 0 i b es = (Some b, es)"
| "mp3anywhere_bytes (Suc n) i b es =
     (if b ! i = 0xAD \<or> i + 1 \<ge> 16 then (Some b, es)
      else case line_wait 50000 es of
        (False, es) \<Rightarrow> (None, es)
      | (True, es) \<Rightarrow>
          (case read_byte es of
             (None, es) \<Rightarrow> (None, es)
           | (Some x, es) \<Rightarrow>
               let b = b[i + 1 := x]
               in if b ! 1 \<noteq> 0xd5 \<or> b ! 2 \<noteq> 0xaa \<or> b ! 3 \<noteq> 0xee \<or> b ! 5 \<noteq> 0xad then (None, es)
                  else mp3anywhere_bytes n (i + 1) b es))"

definition mp3anywhere_decode :: "addr \<Rightarrow> 'z serial_rx_scheme \<Rightarrow> (dec_result option \<times> 'z serial_rx_scheme) option" where
  "mp3anywhere_decode p s = Some (mapped 24 (sl_pre s) 8 (sl_code s) 0 0 p s, s)"

definition mp3anywhere_rec :: "addr list \<Rightarrow> 'z serial_rx_scheme \<Rightarrow> (string option \<times> 'z serial_rx_scheme) option" where
  "mp3anywhere_rec remotes s =
     (let s = frame_start (s\<lparr>sl_b := (sl_b s)[0 := 0x00, 1 := 0xd5, 2 := 0xaa, 3 := 0xee, 5 := 0xad]\<rparr>)
      in case mp3anywhere_bytes 16 0 (sl_b s) (sl_line s) of
           (None, es) \<Rightarrow> Some (None, s\<lparr>sl_line := es\<rparr>)
         | (Some b, es) \<Rightarrow>
             let s = frame_end (s\<lparr>sl_line := es, sl_b := b\<rparr>)
             in decode_all mp3anywhere_decode remotes (s\<lparr>sl_pre := 0xD5AAEE, sl_code := ucast (b ! 4)\<rparr>))"

end
