(* ===== verification/SerialDrivers2.thy ===== *)
theory SerialDrivers2
  imports SerialDrivers
begin

text \<open>
  Receivers on a serial port that keep track of what has been received before:
  \<open>daemons/hw_pcmak.c\<close>, \<open>hw_ea65.c\<close>, \<open>hw_mplay.c\<close>, \<open>hw_silitek.c\<close> and \<open>hw_mouseremote.c\<close>.
\<close>

lemma line_byte_shorter:
  "(b, es1) = line_wait t es \<Longrightarrow> (Some x, es2) = read_byte es1 \<Longrightarrow> length es2 < length es"
  by (cases es1 rule: read_byte.cases) (auto dest!: line_wait_length [OF sym])

section \<open>Opening\<close>

text \<open>The PS/2 version of the Mouse Remote does not configure a terminal.\<close>

definition pcmak_init where "pcmak_init = init_with (signal_length_at 16 1200)"
definition ea65_init where "ea65_init = serial_init"
definition silitek_init where "silitek_init = serial_init"
definition mouseremote_init where "mouseremote_init = init_with (signal_length_at 32 1200)"

definition mouseremote_ps2_init ::
  "serial_setup \<Rightarrow> serial_port \<Rightarrow> 'z serial_rx_scheme \<Rightarrow> (bool \<times> serial_port) \<times> 'z serial_rx_scheme" where
  "mouseremote_ps2_init u = init_with (signal_length_at 32 1200) (u\<lparr>su_tty := []\<rparr>)"

section \<open>PCMAK\<close>

record pcmak = serial_rx +
  repeat_counter :: int
  pressed_key :: int

definition pcmak_button :: "byte \<Rightarrow> bool" where
  "pcmak_button x \<longleftrightarrow>
     0x01 \<le> x \<and> x \<le> 0x2B \<or> 0x41 \<le> x \<and> x \<le> 0x6B \<or> 0x2F \<le> x \<and> x \<le> 0x31 \<or>
     x = 0x5F \<or> x = 0x79 \<or> x = 0x75"

definition pcmak_decode :: "addr \<Rightarrow> 'z serial_rx_scheme \<Rightarrow> (dec_result option \<times> 'z serial_rx_scheme) option" where
  "pcmak_decode p s = Some (mapped 8 (sl_pre s) 8 (sl_code s) 0 0 p s, s)"

text \<open>One byte: the counters, and the button that is reported.\<close>

definition pcmak_byte :: "byte \<Rightarrow> int \<times> int \<Rightarrow> (int \<times> int) \<times> byte option" where
  "pcmak_byte x c =
     (case c of (counter, key) \<Rightarrow>
        if x = 0xAA then ((0, key), None)
        else if pcmak_button x then
          (if counter < 1 then ((counter + 1, uint x), None)
           else if key = uint x then ((counter, key), Some x) else ((counter, key), None))
        else ((counter, key), None))"

function pcmak_loop :: "int \<times> int \<Rightarrow> line_event list \<Rightarrow> byte option \<times> (int \<times> int) \<times> line_event list" where
  "pcmak_loop c es =
     (case line_wait 50000 es of
        (False, es) \<Rightarrow> (None, c, es)
      | (True, es) \<Rightarrow>
          (case read_byte es of
             (None, es) \<Rightarrow> (None, c, es)
           | (Some x, es) \<Rightarrow>
               (case pcmak_byte x c of
                  (c, Some key) \<Rightarrow> (Some key, c, es)
                | (c, None) \<Rightarrow> pcmak_loop c es)))"
  by pat_completeness auto
termination
  by (relation "measure (\<lambda>(c, es). length es)") (auto dest: line_byte_shorter)

declare pcmak_loop.simps [simp del]

definition pcmak_rec :: "addr list \<Rightarrow> 'z pcmak_scheme \<Rightarrow> (string option \<times> 'z pcmak_scheme) option" where
  "pcmak_rec remotes s =
     (let s = frame_start s
      in case pcmak_loop (repeat_counter s, pressed_key s) (sl_line s) of
           (res, (counter, key), es) \<Rightarrow>
             let s = s\<lparr>repeat_counter := counter, pressed_key := key, sl_line := es\<rparr>
             in case res of
                  None \<Rightarrow> Some (None, s)
                | Some x \<Rightarrow> decode_all pcmak_decode remotes ((frame_end s)\<lparr>sl_pre := 0xAA, sl_code := ucast x\<rparr>))"

section \<open>EA65\<close>

text \<open>One \<open>read\<close> of at most five bytes: what has arrived so far.\<close>

fun read_bytes :: "nat \<Rightarrow> line_event list \<Rightarrow> byte list \<times> line_event list" where
  "read_bytes (Suc n) (Byte b # es) = (case read_bytes n es of (bs, es) \<Rightarrow> (b # bs, es))"
| "read_bytes n (Read_error # es) = ([], if n = 5 then es else Read_error # es)"
| "read_bytes n es = ([], es)"

text \<open>The code of a packet; \<open>None\<close>: it is ignored. With another second byte the old code stays.\<close>

definition ea65_code :: "byte list \<Rightarrow> ir_code \<Rightarrow> ir_code option" where
  "ea65_code d code =
     (if length d < 4 then None
      else if d ! 0 \<noteq> 0xa0 then None
      else if d ! 1 = 0x01 then
        (if length d < 5 then None
         else Some (push_bit 16 (ucast (d ! 2)) OR push_bit 8 (ucast (d ! 3)) OR ucast (d ! 4)))
      else if d ! 1 = 0x04 then Some (push_bit 16 0xff OR push_bit 8 (ucast (d ! 2)) OR ucast (d ! 3))
      else Some code)"

definition ea65_decode :: "addr \<Rightarrow> 'z serial_rx_scheme \<Rightarrow> (dec_result option \<times> 'z serial_rx_scheme) option" where
  "ea65_decode p s =
     (let d = i32 ((tv_sec (sl_start s) - tv_sec (sl_last s)) * 1000000 + tv_usec (sl_start s) - tv_usec (sl_last s))
      in Some (map_option (\<lambda>(a, c, t).
             \<lparr>d_pre = a, d_code = c, d_post = t,
              d_repeat = (\<not> tv_sec (sl_start s) - tv_sec (sl_last s) \<ge> 2 \<and> d < 960000),
              d_min_remaining_gap = 0, d_max_remaining_gap = 0\<rparr>)
           (map_code (store s p) 0 0 24 (sl_code s) 0 0), s))"

definition ea65_receive :: "addr list \<Rightarrow> 'z serial_rx_scheme \<Rightarrow> (string option \<times> 'z serial_rx_scheme) option" where
  "ea65_receive remotes s =
     (let s = frame_start s
      in case line_wait 60000 (sl_line s) of
           (False, es) \<Rightarrow> Some (None, s\<lparr>sl_line := es\<rparr>)
         | (True, es) \<Rightarrow>
             (case read_bytes 5 es of (d, es) \<Rightarrow>
                let s = s\<lparr>sl_line := es\<rparr>
                in case ea65_code d (sl_code s) of
                     None \<Rightarrow> Some (None, s)
                   | Some c \<Rightarrow> decode_all ea65_decode remotes (frame_end (s\<lparr>sl_code := c\<rparr>))))"

section \<open>MPlay\<close>

record mplay_data =
  rc_code :: ir_code
  repeat_flag :: bool
  last_reception_time :: timeval
  timeout_repetition_flag :: bool

record mplay = lircd_rel +
  mplay_local_data :: mplay_data
  mp_line :: "line_event list"
  mp_port :: serial_port

definition MPLAY_REPEAT_CODE :: byte where [c_eval]: "MPLAY_REPEAT_CODE = 0x7e"
definition MAX_TIME_BETWEEN_TWO_REPETITION_CODE :: ulong where
  [c_eval]: "MAX_TIME_BETWEEN_TWO_REPETITION_CODE = 500000"

definition mplay_deinit :: "serial_port \<Rightarrow> serial_port" where
  "mplay_deinit p = p\<lparr>sp_open := False, sp_locked := False, sp_fd := - 1\<rparr>"

text \<open>The result stays 1 when the port cannot be configured.\<close>

definition mplay_init :: "serial_setup \<Rightarrow> serial_port \<Rightarrow> bool \<times> serial_port" where
  "mplay_init u p =
     (if \<not> su_lock u then (False, p)
      else
        let p = p\<lparr>sp_locked := True, sp_fd := su_open u\<rparr>
        in if su_open u < 0 then (False, mplay_deinit p)
           else
             let p = p\<lparr>sp_open := True\<rparr>
             in (True, if list_all id (su_tty u) then p else mplay_deinit p))"

text \<open>\<open>mplay2_init\<close>: the calls of \<open>su_tty\<close> are those for the attributes of the terminal, the \<open>write\<close> and the
  \<open>read\<close>.\<close>

definition mplay2_init :: "serial_setup \<Rightarrow> serial_port \<Rightarrow> bool \<times> serial_port" where
  "mplay2_init u p =
     (if \<not> su_lock u then (False, p)
      else if su_open u < 0 then (False, p\<lparr>sp_fd := su_open u, sp_locked := False\<rparr>)
      else
        let p = p\<lparr>sp_locked := True, sp_open := True, sp_fd := su_open u\<rparr>
        in if list_all id (su_tty u) then (True, p) else (False, mplay_deinit p))"

text \<open>What is done with a byte that has arrived at the time \<open>now\<close>; \<open>False\<close>: it is ignored.\<close>

definition mplay_byte :: "byte \<Rightarrow> timeval \<Rightarrow> mplay_data \<Rightarrow> bool \<times> mplay_data" where
  "mplay_byte x now m =
     (if x = MPLAY_REPEAT_CODE then
        (if timeout_repetition_flag m then (False, m)
         else if time_elapsed (last_reception_time m) now \<le> MAX_TIME_BETWEEN_TWO_REPETITION_CODE
           then (True, m\<lparr>repeat_flag := True, last_reception_time := now\<rparr>)
           else (False, m\<lparr>timeout_repetition_flag := True, repeat_flag := False\<rparr>))
      else (True, m\<lparr>rc_code := ucast x, repeat_flag := False, timeout_repetition_flag := False,
                    last_reception_time := now\<rparr>))"

definition mplay_decode :: "addr \<Rightarrow> 'z mplay_scheme \<Rightarrow> (dec_result option \<times> 'z mplay_scheme) option" where
  "mplay_decode p s =
     Some (map_option (\<lambda>(a, c, t).
         \<lparr>d_pre = a, d_code = c, d_post = t, d_repeat = repeat_flag (mplay_local_data s),
          d_min_remaining_gap = 0, d_max_remaining_gap = 0\<rparr>)
       (map_code (store s p) 0 0 8 (rc_code (mplay_local_data s)) 0 0), s)"

definition mplay_rec :: "addr list \<Rightarrow> 'z mplay_scheme \<Rightarrow> (string option \<times> 'z mplay_scheme) option" where
  "mplay_rec remotes s =
     (case read_byte (mp_line s) of (x, es) \<Rightarrow>
        let (now, s) = gettimeofday (s\<lparr>mp_line := es\<rparr>)
        in case x of
             None \<Rightarrow> Some (None, s\<lparr>mp_port := mplay_deinit (mp_port s)\<rparr>)
           | Some x \<Rightarrow>
               (case mplay_byte x now (mplay_local_data s) of (decode, m) \<Rightarrow>
                  let s = s\<lparr>mplay_local_data := m\<rparr>
                  in if decode then decode_all mplay_decode remotes s else Some (None, s)))"

section \<open>Silitek\<close>

record silitek = serial_rx +
  do_repeat :: bool

text \<open>After \<open>read\<close> has failed with -1 the function reports success, and the byte is the old one.\<close>

definition silitek_read :: "byte \<Rightarrow> line_event list \<Rightarrow> byte option \<times> line_event list" where
  "silitek_read old es =
     (case line_wait 20000 es of
        (False, es) \<Rightarrow> (None, es)
      | (True, Byte x # es) \<Rightarrow> (Some x, es)
      | (True, Read_error # es) \<Rightarrow> (Some old, es)
      | (True, es) \<Rightarrow> (None, es))"

definition silitek_start :: "byte \<Rightarrow> bool" where
  "silitek_start x \<longleftrightarrow> x = 0x3f \<or> x = 0x31 \<or> x = 0x2a \<or> x = 0x7c \<or> x = 0x7f \<or> x = 0xfd \<or> x = 0xfe"

definition mouse_distance :: "byte \<Rightarrow> int" where
  "mouse_distance x =
     (if x AND 0x20 = 0x20 then 32 - uint (x AND 0x1f) else uint (x AND 0x1f))"

definition mouse_direction :: "int \<Rightarrow> int \<Rightarrow> byte" where
  "mouse_direction x y =
     (if y > 0 \<and> x = 0 then 0x05
      else if y > x \<and> x > 0 then 0x04
      else if x = y \<and> x > 0 then 0x03
      else if x > y \<and> y > 0 then 0x02
      else if x > 0 \<and> y = 0 then 0x01 else 0x00)"

text \<open>The three bytes after they have been evaluated, and \<open>do_repeat\<close>.\<close>

definition silitek_event :: "byte \<Rightarrow> byte \<Rightarrow> byte \<Rightarrow> (byte \<times> byte \<times> byte) \<times> bool" where
  "silitek_event b0 b1 b2 =
     (if b0 = 0x7c \<or> b0 = 0x7f \<or> b0 = 0xfd \<or> b0 = 0xfe then
        (if b1 = 0x80 \<and> b2 = 0x80 then
           ((if b0 = 0xfd then (0xaa, 0xa0, 0xbb)
             else if b0 = 0xfe then (0xaa, 0x0a, 0xbb)
             else if b0 = 0x7f then (0xaa, 0xaa, 0xbb)
             else (0xaa, b1, b2)), True)
         else
           let x = mouse_distance b1; y = mouse_distance b2;
               sign = (if b1 AND 0x20 = 0x20 then 0x10 else 0) OR (if b2 AND 0x20 = 0x20 then 0x01 else 0)
           in ((0xaa, sign, mouse_direction x y), \<not> (x < 4 \<and> y < 4)))
      else ((if b0 \<noteq> 0x2a then 0xbb else 0xcc, b1, b2), True))"

definition silitek_decode :: "addr \<Rightarrow> 'z silitek_scheme \<Rightarrow> (dec_result option \<times> 'z silitek_scheme) option" where
  "silitek_decode p s =
     Some (map_option (\<lambda>d. if do_repeat s then d else d\<lparr>d_repeat := False\<rparr>)
       (mapped 0 0 24 (sl_code s) 0 0 p (s\<lparr>sl_signal_length := 0\<rparr>)), s)"

text \<open>\<open>sl_start\<close> is \<open>current\<close>.\<close>

definition silitek_rec :: "addr list \<Rightarrow> 'z silitek_scheme \<Rightarrow> (string option \<times> 'z silitek_scheme) option" where
  "silitek_rec remotes s =
     (let s = s\<lparr>do_repeat := True\<rparr>
      in case silitek_read (sl_b s ! 0) (sl_line s) of
           (None, es) \<Rightarrow> Some (None, s\<lparr>sl_line := es\<rparr>)
         | (Some b0, es) \<Rightarrow>
             let s = s\<lparr>sl_line := es, sl_b := (sl_b s)[0 := b0]\<rparr>
             in if \<not> silitek_start b0 then Some (None, s)
                else
                  let s = s\<lparr>sl_last := sl_start s\<rparr>
                  in case silitek_read (sl_b s ! 1) es of
                       (None, es) \<Rightarrow> Some (None, s\<lparr>sl_line := es\<rparr>)
                     | (Some b1, es) \<Rightarrow>
                         let s = s\<lparr>sl_line := es, sl_b := (sl_b s)[1 := b1]\<rparr>
                         in case silitek_read (sl_b s ! 2) es of
                              (None, es) \<Rightarrow> Some (None, s\<lparr>sl_line := es\<rparr>)
                            | (Some b2, es) \<Rightarrow>
                                (case silitek_event b0 b1 b2 of
                                   ((c0, c1, c2), rep) \<Rightarrow>
                                     let s = s\<lparr>sl_line := es, sl_b := (sl_b s)[0 := c0, 1 := c1, 2 := c2], do_repeat := rep,
                                               sl_code := push_bit 16 (ucast c0) + push_bit 8 (ucast c1) + ucast c2\<rparr>;
                                         (now, s) = gettimeofday s
                                     in decode_all silitek_decode remotes (s\<lparr>sl_start := now\<rparr>)))"

section \<open>Mouse Remote\<close>

text \<open>A byte as a signed \<open>char\<close>.\<close>

definition signed_char :: "byte \<Rightarrow> int" where "signed_char x = sint x"

definition mouse_sync :: "bool \<Rightarrow> byte \<Rightarrow> bool" where
  "mouse_sync serial x \<longleftrightarrow> (if serial then x AND 0xC0 = 0x40 else x AND 0x0C = 0x08)"

text \<open>The three bytes from \<open>b[i]\<close> on. A byte that cannot be in its place is passed over, or the packet
  starts anew behind it.\<close>

function mouse_bytes :: "bool \<Rightarrow> nat \<Rightarrow> byte list \<Rightarrow> line_event list \<Rightarrow> byte list option \<times> line_event list" where
  "mouse_bytes serial i b es =
     (if \<not> i < 3 then (Some b, es)
      else case line_wait 50000 es of
        (False, es) \<Rightarrow> (None, es)
      | (True, es) \<Rightarrow>
          (case read_byte es of
             (None, es) \<Rightarrow> (None, es)
           | (Some x, es) \<Rightarrow>
               if i = 0 \<and> \<not> mouse_sync serial x then mouse_bytes serial i (b[i := x]) es
               else if serial \<and> i > 0 \<and> (x AND 0x40 \<noteq> 0 \<or> x = 0x80) then mouse_bytes serial 0 (b[i := x]) es
               else mouse_bytes serial (Suc i) (b[i := x]) es))"
  by pat_completeness auto
termination
  by (relation "measure (\<lambda>(m, i, b, es). length es)") (auto dest: line_byte_shorter)

declare mouse_bytes.simps [simp del]

text \<open>The code for a movement.\<close>

definition mouse_axis :: "int \<Rightarrow> int \<Rightarrow> ir_code \<Rightarrow> ir_code \<Rightarrow> ir_code" where
  "mouse_axis d other bit_value code =
     (if d = 1 \<or> d = 2 \<or> d = 8 then
        let code = code OR bit_value
        in if d = 2 \<and> other \<noteq> 1 then code OR 0x0200 else if d = 8 then code OR 0x0400 else code
      else code)"

definition mouse_code :: "int \<Rightarrow> int \<Rightarrow> ir_code" where
  "mouse_code dx dy =
     (let code = (if dy < 0 then 0x80 else 0); code = (if dx < 0 then code OR 0x08 else code);
          dy = \<bar>dy\<bar>; dx = \<bar>dx\<bar>;
          code = mouse_axis dy dx 0x10 code; code = mouse_axis dx dy 0x01 code
      in if dy = 4 \<or> dy = 16 then code OR 0x30
         else if dx = 4 \<or> dx = 16 then code OR 0x03 else code)"

text \<open>The code for three bytes; \<open>None\<close>: nothing is reported.\<close>

definition mouse_event_code :: "bool \<Rightarrow> byte \<Rightarrow> byte \<Rightarrow> byte \<Rightarrow> ir_code option" where
  "mouse_event_code serial b0 b1 b2 =
     (let moved = (\<lambda>stat dx dy.
            let code = mouse_code dx dy
            in if code \<noteq> 0 then Some (code OR 0x0100)
               else if dx = 0 \<and> dy = 0 then Some (0x0800 OR stat) else None)
      in if serial then
           (if b0 AND 0x0c \<noteq> 0x0c \<and> b2 = 0x3f \<and> b2 AND 0x07 \<noteq> 0
            then Some (word_of_int (signed_char b1) OR push_bit 6 (ucast (b0 AND 0x03)))
            else moved (drop_bit 3 (ucast (b0 AND 0x20)) OR drop_bit 4 (ucast (b0 AND 0x10)))
                   (signed_char (push_bit 6 (b0 AND 0x03) OR (b1 AND 0x3F)))
                   (- signed_char (push_bit 4 (b0 AND 0x0C) OR (b2 AND 0x3F))))
         else
           (if b2 = 0x7f then (if b0 \<noteq> 0x08 then None else Some (ucast b1))
            else moved (push_bit 2 (ucast (b0 AND 0x01)) OR drop_bit 1 (ucast (b0 AND 0x06)))
                   (signed_char b1) (signed_char b2)))"

definition mouseremote_decode :: "addr \<Rightarrow> 'z serial_rx_scheme \<Rightarrow> (dec_result option \<times> 'z serial_rx_scheme) option" where
  "mouseremote_decode p s = Some (mapped 8 0x08 16 (sl_code s) 8 0x7f p s, s)"

definition mouseremote_rec ::
  "bool \<Rightarrow> addr list \<Rightarrow> 'z serial_rx_scheme \<Rightarrow> (string option \<times> 'z serial_rx_scheme) option" where
  "mouseremote_rec serial remotes s =
     (let s = frame_start (s\<lparr>sl_pre := 0x08\<rparr>)
      in case mouse_bytes serial 0 [0x08, 0, 0x7f] (sl_line s) of
           (None, es) \<Rightarrow> Some (None, s\<lparr>sl_line := es\<rparr>)
         | (Some b, es) \<Rightarrow>
             let s = frame_end (s\<lparr>sl_line := es\<rparr>)
             in case mouse_event_code serial (b ! 0) (b ! 1) (b ! 2) of
                  None \<Rightarrow> Some (None, if \<not> serial \<and> b ! 2 = 0x7f then s else s\<lparr>sl_code := 0\<rparr>)
                | Some c \<Rightarrow> decode_all mouseremote_decode remotes (s\<lparr>sl_code := c\<rparr>))"

end
