(* ===== verification/SerialFacts.thy ===== *)
theory SerialFacts
  imports SerialDrivers2 EndToEnd
begin

text \<open>
  Facts about the receivers on serial ports. Their decoders share a contract, stated as a locale:
  they hand the code they have heard to \<open>map_code\<close>. From it follows that the button with this code is
  reported to the clients, whatever fields the remote divides it into. Then the particular behaviour of
  single drivers.
\<close>

section \<open>Drivers that use map_code\<close>

type_synonym heard_code = "(int \<times> ir_code) \<times> (int \<times> ir_code) \<times> (int \<times> ir_code)"

locale code_driver =
  fixes dec :: "addr \<Rightarrow> 'z lircd_rel_scheme \<Rightarrow> (dec_result option \<times> 'z lircd_rel_scheme) option"
    and accepts :: "ir_remote \<Rightarrow> bool"
    and heard :: "'z lircd_rel_scheme \<Rightarrow> heard_code"
  assumes decodes: "heard s = ((a, pre), (b, code), (c, post)) \<Longrightarrow> accepts (store s p) \<Longrightarrow>
      map_code (store s p) a pre b code c post = Some (x, y, z) \<Longrightarrow>
      \<exists>d. dec p s = Some (Some d, s) \<and> d_pre d = x \<and> d_code d = y \<and> d_post d = z"
    and refuses: "heard s = ((a, pre), (b, code), (c, post)) \<Longrightarrow>
      map_code (store s p) a pre b code c post = None \<Longrightarrow> dec p s = Some (None, s)"
    and steady: "heard (s\<lparr>decoding := ps\<rparr>) = heard s"

lemma join_parts:
  assumes "0 \<le> n" "0 \<le> m" "0 \<le> l" "l + n + m < 64"
    and "join_fields l pre n code m post = join_fields l pre' n code' m post'"
  shows "pre AND gen_mask l = pre' AND gen_mask l" "code AND gen_mask n = code' AND gen_mask n"
    "post AND gen_mask m = post' AND gen_mask m"
proof -
  have b: "bit (join_fields l pre n code m post) k = bit (join_fields l pre' n code' m post') k" for k
    using assms(5) by simp
  show "pre AND gen_mask l = pre' AND gen_mask l"
  proof (rule word64_eqI)
    fix k :: nat
    show "bit (pre AND gen_mask l) k = bit (pre' AND gen_mask l) k"
      using b [of "k + nat (n + m)"] assms(1-4) by (auto simp: bit_join_fields bit_and_gen_mask)
  qed
  show "code AND gen_mask n = code' AND gen_mask n" by (rule join_inj [OF assms])
  show "post AND gen_mask m = post' AND gen_mask m"
  proof (rule word64_eqI)
    fix k :: nat
    show "bit (post AND gen_mask m) k = bit (post' AND gen_mask m) k"
      using b [of k] assms(1-4) by (auto simp: bit_join_fields bit_and_gen_mask split: if_splits)
  qed
qed

text \<open>The whole code of button \<open>i\<close>.\<close>

definition button_code :: "ir_remote \<Rightarrow> nat \<Rightarrow> ir_code" where
  "button_code r i =
     (case codes r of
        None \<Rightarrow> 0
      | Some cs \<Rightarrow> join_fields (pre_data_bits r) (pre_data r) (bits r) (nc_code (cs ! i)) (post_data_bits r) (post_data r))"

definition heard_total :: "heard_code \<Rightarrow> int" where
  "heard_total h = fst (fst h) + fst (fst (snd h)) + fst (snd (snd h))"

definition heard_value :: "heard_code \<Rightarrow> ir_code" where
  "heard_value h =
     join_fields (fst (fst h)) (snd (fst h)) (fst (fst (snd h))) (snd (fst (snd h))) (fst (snd (snd h))) (snd (snd (snd h)))"

definition heard_ok :: "heard_code \<Rightarrow> bool" where
  "heard_ok h \<longleftrightarrow> 0 \<le> fst (fst h) \<and> 0 \<le> fst (fst (snd h)) \<and> 0 \<le> fst (snd (snd h)) \<and> heard_total h < 64"

text \<open>Remote \<open>r\<close> has the button, as the first one with its code.\<close>

definition knows_button :: "ir_remote \<Rightarrow> nat \<Rightarrow> heard_code \<Rightarrow> bool" where
  "knows_button r i h \<longleftrightarrow> plain_remote r \<and> masked_remote r \<and> first_button r i \<and>
     bit_count r = heard_total h \<and> button_code r i = heard_value h"

lemma map_code_button:
  assumes "knows_button r i h" "heard_ok h" "codes r = Some cs" "h = ((a, pre), (b, code), (c, post))"
  shows "map_code r a pre b code c post =
    Some (pre_data r AND gen_mask (pre_data_bits r), nc_code (cs ! i) AND gen_mask (bits r),
      post_data r AND gen_mask (post_data_bits r))"
proof -
  have r: "fields_fit r" "\<not> is_raw r"
    using assms(1) by (simp_all add: knows_button_def plain_remote_def masked_remote_def)
  have n: "0 \<le> a" "0 \<le> b" "0 \<le> c" "a + b + c < 64" "a + b + c = bit_count r"
    using assms by (simp_all add: heard_ok_def heard_total_def knows_button_def)
  obtain x y z where m: "map_code r a pre b code c post = Some (x, y, z)"
      "gen_ir_code r x y z = join_fields a pre b code c post"
      "x AND gen_mask (pre_data_bits r) = x" "y AND gen_mask (bits r) = y" "z AND gen_mask (post_data_bits r) = z"
    using map_code_fields [OF r n(1-4), of pre code post] n(5) by (auto split: option.splits)
  have f: "0 \<le> bits r" "0 \<le> post_data_bits r" "0 \<le> pre_data_bits r" "pre_data_bits r + bits r + post_data_bits r < 64"
    using r(1) by (auto simp: fields_fit_def)
  have "join_fields (pre_data_bits r) x (bits r) y (post_data_bits r) z =
      join_fields (pre_data_bits r) (pre_data r) (bits r) (nc_code (cs ! i)) (post_data_bits r) (post_data r)"
    using m(2) assms(1,3,4) by (simp add: gen_ir_code_join [OF r(2)] knows_button_def button_code_def heard_value_def)
  from join_parts [OF f this] show ?thesis using m by simp
qed

context code_driver
begin

lemma button_reported:
  assumes b: "knows_button (store s p) i (heard s)" "heard_ok (heard s)" "accepts (store s p)"
    and c: "codes (store s p) = Some cs" and f: "fresh_press p s"
    and m: "press_message (store s p) i = Some msg" "length msg \<le> PACKET_SIZE"
  shows "\<exists>s'. decode_all dec [p] s = Some (Some msg, s') \<and> decoding s' = [] \<and> last_remote s' = Some p \<and>
    last_code (store s' p) = Some i \<and> reps (store s' p) = 0 \<and> release_remote (rel s') = Some p \<and> release_ncode (rel s') = Some i"
proof -
  let ?s = "s\<lparr>decoding := [p]\<rparr>" and ?r = "store s p"
  obtain a pre b code c post where h: "heard s = ((a, pre), (b, code), (c, post))" by (metis prod.exhaust)
  have k: "plain_remote ?r" "masked_remote ?r" "first_button ?r i" using b(1) by (simp_all add: knows_button_def)
  obtain d where d: "dec p ?s = Some (Some d, ?s)" "d_pre d = pre_data ?r AND gen_mask (pre_data_bits ?r)"
      "d_code d = nc_code (cs ! i) AND gen_mask (bits ?r)" "d_post d = post_data ?r AND gen_mask (post_data_bits ?r)"
    using decodes [of ?s a pre b code c post p] map_code_button [OF b(1,2) assms(4) h] h b(3) steady by auto
  have t: "try_remote dec p ?s = Some (Some (d, i, 0), ?s)"
    using get_code_plain_button [OF k assms(4)] d by (simp add: try_remote_def set_remote_same)
  have cs: "single_codes cs" "i < length cs" using k(3) assms(4) by (auto simp: first_button_def)
  have tb: "\<not> has_toggle_mask ?r" "\<not> has_toggle_bit_mask ?r" "\<not> is_xmp ?r"
    using k(1) by (simp_all add: plain_remote_def ir_preds)
  have "\<exists>s'. button_event p i 0 d ?s = Some (Some msg, s') \<and> decoding s' = [] \<and> last_remote s' = Some p \<and>
     store s' p = pressed (store ?s p) i (clock ?s (ticks ?s)) (d_min_remaining_gap d) (d_max_remaining_gap d) \<and>
     release_remote (rel s') = Some p \<and> release_ncode (rel s') = Some i"
    by (rule button_event_fresh [OF _ _ cs]) (use f assms(4) tb m in \<open>simp_all add: fresh_press_def\<close>)
  then show ?thesis unfolding decode_all_def decode_loop.simps t by (auto simp: pressed_def)
qed

text \<open>A remote with another number of bits has no such button.\<close>

lemma other_length_ignored:
  assumes "heard_ok (heard s)" "fields_fit (store s p)" "\<not> is_raw (store s p)" "bit_count (store s p) \<noteq> heard_total (heard s)"
  shows "\<exists>s'. decode_all dec [p] s = Some (None, s') \<and> last_remote s' = None"
proof -
  let ?s = "s\<lparr>decoding := [p]\<rparr>"
  obtain a pre b code c post where h: "heard s = ((a, pre), (b, code), (c, post))" by (metis prod.exhaust)
  then have n: "0 \<le> a" "0 \<le> b" "0 \<le> c" "a + b + c < 64" "a + b + c \<noteq> bit_count (store s p)"
    using assms(1,4) by (simp_all add: heard_ok_def heard_total_def)
  have "map_code (store ?s p) a pre b code c post = None"
    using map_code_fields [OF assms(2,3) n(1-4), of pre code post] n(5) by (auto split: option.splits)
  then have "dec p ?s = Some (None, ?s)" using refuses [of ?s a pre b code c post p] h steady by simp
  then show ?thesis by (simp add: decode_all_def try_remote_def)
qed

end

section \<open>The drivers\<close>

lemma mapped_some:
  "map_code (store s p) a pre b code c post = Some (x, y, z) \<Longrightarrow>
     \<exists>d. mapped a pre b code c post p s = Some d \<and> d_pre d = x \<and> d_code d = y \<and> d_post d = z"
  by (simp add: mapped_def split: prod.split)

lemma mapped_none: "map_code (store s p) a pre b code c post = None \<Longrightarrow> mapped a pre b code c post p s = None"
  by (simp add: mapped_def)

definition creative_heard :: "'z serial_rx_scheme \<Rightarrow> heard_code" where
  "creative_heard s = ((16, sl_pre s), (16, sl_code s), (0, 0))"

interpretation creative: code_driver creative_decode "\<lambda>r. True" creative_heard
  by unfold_locales (auto simp: creative_decode_def creative_heard_def dest: mapped_some mapped_none)

definition pixelview_heard :: "'z serial_rx_scheme \<Rightarrow> heard_code" where
  "pixelview_heard s = ((10, sl_pre s), (20, sl_code s), (0, 0))"

interpretation pixelview: code_driver pixelview_decode "\<lambda>r. True" pixelview_heard
  by unfold_locales (auto simp: pixelview_decode_def pixelview_heard_def dest: mapped_some mapped_none)

definition bytes_heard :: "int \<Rightarrow> 'z serial_rx_scheme \<Rightarrow> heard_code" where
  "bytes_heard n s = ((0, 0), (n, sl_code s), (0, 0))"

lemma mapped_frame [simp]: "store (s\<lparr>sl_signal_length := 0\<rparr>) = store s" by simp

interpretation uirt2: code_driver uirt2_decode "\<lambda>r. True" "bytes_heard 48"
proof unfold_locales
  show "bytes_heard 48 s = ((a, pre), (b, code), (c, post)) \<Longrightarrow> True \<Longrightarrow>
      map_code (store s p) a pre b code c post = Some (x, y, z) \<Longrightarrow>
      \<exists>d. uirt2_decode p s = Some (Some d, s) \<and> d_pre d = x \<and> d_code d = y \<and> d_post d = z"
    for s :: "'z serial_rx_scheme" and a pre b code c post p x y z
    using mapped_some [of "s\<lparr>sl_signal_length := 0\<rparr>" p a pre b code c post x y z]
    by (auto simp: uirt2_decode_def bytes_heard_def)
qed (auto simp: uirt2_decode_def bytes_heard_def intro: mapped_none)

definition usbx_heard :: "'z serial_rx_scheme \<Rightarrow> heard_code" where
  "usbx_heard s = ((0, 0), (48, sl_code s AND NOT USBX_REPEAT_FLAG), (0, 0))"

interpretation usbx: code_driver usbx_decode "\<lambda>r. flags r AND CONST_LENGTH = 0" usbx_heard
  by unfold_locales (auto simp: usbx_decode_def usbx_heard_def Let_def)

definition pinsys_heard :: "'z serial_rx_scheme \<Rightarrow> heard_code" where
  "pinsys_heard s = ((0, 0),
     (24, if sl_code s AND PINSYS_REPEAT_FLAG \<noteq> 0 then sl_code s XOR PINSYS_REPEAT_MASK else sl_code s), (0, 0))"

lemma pinsys_decode_heard:
  "pinsys_decode p s = Some (map_option (\<lambda>d.
       if tv_sec (sl_start s) - tv_sec (sl_last s) < 2 \<and> sl_code s AND PINSYS_REPEAT_FLAG \<noteq> 0
       then d\<lparr>d_repeat := True\<rparr> else d) (mapped 0 0 24 (snd (fst (snd (pinsys_heard s)))) 0 0 p s), s)"
  by (simp add: pinsys_decode_def pinsys_heard_def Let_def)

interpretation pinsys: code_driver pinsys_decode "\<lambda>r. True" pinsys_heard
proof unfold_locales
  fix s :: "'z serial_rx_scheme" and a pre b code c post p x y z
  assume h: "pinsys_heard s = ((a, pre), (b, code), (c, post))"
  then have n: "a = 0" "pre = 0" "b = 24" "c = 0" "post = 0" by (auto simp: pinsys_heard_def)
  show "pinsys_decode p s = Some (None, s)" if "map_code (store s p) a pre b code c post = None"
    using mapped_none [OF that] h n by (simp add: pinsys_decode_heard)
  assume m: "map_code (store s p) a pre b code c post = Some (x, y, z)"
  show "\<exists>d. pinsys_decode p s = Some (Some d, s) \<and> d_pre d = x \<and> d_code d = y \<and> d_post d = z"
  proof -
    obtain d where d: "mapped 0 0 24 code 0 0 p s = Some d" "d_pre d = x" "d_code d = y" "d_post d = z"
      using mapped_some [OF m] n by auto
    let ?d = "if tv_sec (sl_start s) - tv_sec (sl_last s) < 2 \<and> sl_code s AND PINSYS_REPEAT_FLAG \<noteq> 0
      then d\<lparr>d_repeat := True\<rparr> else d"
    have "pinsys_decode p s = Some (Some ?d, s)" using d h by (simp add: pinsys_decode_heard)
    moreover have "d_pre ?d = x" "d_code ?d = y" "d_post ?d = z" using d by simp_all
    ultimately show ?thesis by blast
  qed
next
  show "pinsys_heard (s\<lparr>decoding := ps\<rparr>) = pinsys_heard s" for s :: "'z serial_rx_scheme" and ps
    by (simp add: pinsys_heard_def)
qed

definition pair_heard :: "'z serial_rx_scheme \<Rightarrow> heard_code" where
  "pair_heard s = ((8, sl_pre s), (8, sl_code s), (0, 0))"

interpretation logitech: code_driver logitech_decode "\<lambda>r. True" pair_heard
  by unfold_locales (auto simp: logitech_decode_def pair_heard_def dest: mapped_some mapped_none)

interpretation pcmak_rx: code_driver pcmak_decode "\<lambda>r. True" pair_heard
  by unfold_locales (auto simp: pcmak_decode_def pair_heard_def dest: mapped_some mapped_none)

definition mp3anywhere_heard :: "'z serial_rx_scheme \<Rightarrow> heard_code" where
  "mp3anywhere_heard s = ((24, sl_pre s), (8, sl_code s), (0, 0))"

interpretation mp3anywhere: code_driver mp3anywhere_decode "\<lambda>r. True" mp3anywhere_heard
  by unfold_locales (auto simp: mp3anywhere_decode_def mp3anywhere_heard_def dest: mapped_some mapped_none)

interpretation ea65: code_driver ea65_decode "\<lambda>r. True" "bytes_heard 24"
  by unfold_locales (auto simp: ea65_decode_def bytes_heard_def Let_def)

definition mplay_heard :: "'z mplay_scheme \<Rightarrow> heard_code" where
  "mplay_heard s = ((0, 0), (8, rc_code (mplay_local_data s)), (0, 0))"

interpretation mplay_rx: code_driver mplay_decode "\<lambda>r. True" mplay_heard
  by unfold_locales (auto simp: mplay_decode_def mplay_heard_def)

definition mouse_heard :: "'z serial_rx_scheme \<Rightarrow> heard_code" where
  "mouse_heard s = ((8, 0x08), (16, sl_code s), (8, 0x7f))"

interpretation mouseremote: code_driver mouseremote_decode "\<lambda>r. True" mouse_heard
  by unfold_locales (auto simp: mouseremote_decode_def mouse_heard_def dest: mapped_some mapped_none)

interpretation silitek_rx: code_driver silitek_decode "\<lambda>r. True" "bytes_heard 24"
proof unfold_locales
  show "bytes_heard 24 s = ((a, pre), (b, code), (c, post)) \<Longrightarrow> True \<Longrightarrow>
      map_code (store s p) a pre b code c post = Some (x, y, z) \<Longrightarrow>
      \<exists>d. silitek_decode p s = Some (Some d, s) \<and> d_pre d = x \<and> d_code d = y \<and> d_post d = z"
    for s :: "'z silitek_scheme" and a pre b code c post p x y z
    using mapped_some [of "s\<lparr>sl_signal_length := 0\<rparr>" p a pre b code c post x y z]
    by (cases "do_repeat s") (auto simp: silitek_decode_def bytes_heard_def)
qed (auto simp: silitek_decode_def bytes_heard_def intro: mapped_none)


section \<open>Frames\<close>

text \<open>Bytes with a pause before each of them.\<close>

definition spaced :: "(int \<times> byte) list \<Rightarrow> line_event list" where
  "spaced xs = concat (map (\<lambda>(d, b). [Pause d, Byte b]) xs)"

lemma spaced_simps [simp]: "spaced [] = []" "spaced ((d, b) # xs) = Pause d # Byte b # spaced xs"
  by (simp_all add: spaced_def)

text \<open>The six bytes of a Creative receiver.\<close>

lemma creative_frame_read:
  assumes "length b = 6" "d1 < 20000" "d2 < 20000" "d3 < 20000" "d4 < 20000" "d5 < 20000"
  shows "read_frame 20000 creative_ok 6 0 (b[0 := 0x4d, 1 := 0x05, 4 := 0xac, 5 := 0x21])
      (Byte 0x4d # spaced [(d1, 0x05), (d2, x), (d3, y), (d4, e), (d5, f)] @ es) =
    (if x = NOT y then Some [0x4d, 0x05, x, y, e, f] else None, es)"
proof -
  obtain b0 b1 b2 b3 b4 b5 where b: "b = [b0, b1, b2, b3, b4, b5]"
    using assms(1) by (auto simp: length_Suc_conv eval_nat_numeral)
  show ?thesis unfolding b using assms(2-6) by (simp add: creative_ok_def eval_nat_numeral)
qed

definition creative_code :: "byte \<Rightarrow> byte \<Rightarrow> byte \<Rightarrow> heard_code" where
  "creative_code x e f =
     ((16, reverse (two_bytes e f) 16), (16, reverse (two_bytes x (NOT x)) 16), (0, 0))"

text \<open>C21: A button press on a Creative receiver, six bytes with pauses below 20 milliseconds, reaches
  the clients as the message for the button whose code the four last bytes hold, when the third and
  fourth byte are complements; if they are not, nothing is reported.\<close>

theorem creative_press_reported:
  fixes s :: "'z serial_rx_scheme"
  assumes "length (sl_b s) = 6" "list_all (\<lambda>d. d < 20000) [d1, d2, d3, d4, d5]"
    and "sl_line s = Byte 0x4d # spaced [(d1, 0x05), (d2, x), (d3, y), (d4, e), (d5, f)] @ es"
    and "knows_button (store s p) i (creative_code x e f)" "fresh_press p s"
    and "press_message (store s p) i = Some msg" "length msg \<le> PACKET_SIZE"
  shows "if x = NOT y
    then \<exists>s'. creative_rec [p] s = Some (Some msg, s') \<and> last_remote s' = Some p \<and> last_code (store s' p) = Some i \<and>
      release_remote (rel s') = Some p \<and> release_ncode (rel s') = Some i
    else \<exists>s'. creative_rec [p] s = Some (None, s') \<and> sl_line s' = es \<and> store s' = store s"
proof -
  let ?b = "(sl_b s)[0 := 0x4d, 1 := 0x05, 4 := 0xac, 5 := 0x21]"
  have fr: "read_frame 20000 creative_ok 6 0 ?b (sl_line s) = (if x = NOT y then Some [0x4d, 0x05, x, y, e, f] else None, es)"
    unfolding assms(3) using assms(1,2) by (intro creative_frame_read) simp_all
  have st: "sl_b (frame_start (s\<lparr>sl_b := ?b\<rparr>)) = ?b" "sl_line (frame_start (s\<lparr>sl_b := ?b\<rparr>)) = sl_line s"
    "store (frame_start t) = store t" "last_decoded (frame_start t) = last_decoded t"
    "store (frame_end t) = store t" "last_decoded (frame_end t) = last_decoded t" for t :: "'z serial_rx_scheme"
    by (simp_all add: frame_start_def frame_end_def gettimeofday_def Let_def)
  show ?thesis
  proof (cases "x = NOT y")
    case False
    then show ?thesis using fr st by (simp add: creative_rec_def Let_def)
  next
    case True
    then have y: "y = NOT x" by simp
    define t where "t = (frame_end ((frame_start (s\<lparr>sl_b := ?b\<rparr>))\<lparr>sl_line := es, sl_b := [0x4d, 0x05, x, y, e, f]\<rparr>))
      \<lparr>sl_pre := reverse (two_bytes e f) 16, sl_code := reverse (two_bytes x y) 16\<rparr>"
    have h: "creative_heard t = creative_code x e f" by (simp add: t_def creative_heard_def creative_code_def y)
    have r: "store t = store s" "last_decoded t = last_decoded s" by (simp_all add: t_def st)
    have "first_button (store s p) i" using assms(4) by (simp add: knows_button_def)
    then obtain cs where cs: "codes (store s p) = Some cs" by (auto simp: first_button_def split: option.splits)
    have ok: "heard_ok (creative_heard t)" by (simp add: h creative_code_def heard_ok_def heard_total_def)
    have "creative_rec [p] s = decode_all creative_decode [p] t"
      using fr st True by (simp add: creative_rec_def t_def Let_def)
    moreover have "\<exists>s'. decode_all creative_decode [p] t = Some (Some msg, s') \<and> decoding s' = [] \<and> last_remote s' = Some p \<and>
      last_code (store s' p) = Some i \<and> reps (store s' p) = 0 \<and> release_remote (rel s') = Some p \<and> release_ncode (rel s') = Some i"
      by (rule creative.button_reported [OF _ ok _ _ _ _ assms(7)])
        (use assms(4-6) cs h r in \<open>simp_all add: fresh_press_def\<close>)
    ultimately show ?thesis using True by auto
  qed
qed

section \<open>Repeats of the MPlay receiver\<close>

text \<open>What is decoded for a sequence of bytes and times: the code and whether it is a repeat.\<close>

fun mplay_reports :: "(byte \<times> timeval) list \<Rightarrow> mplay_data \<Rightarrow> (ir_code \<times> bool) option list" where
  "mplay_reports [] m = []"
| "mplay_reports ((x, now) # es) m =
     (case mplay_byte x now m of
        (decode, m) \<Rightarrow> (if decode then Some (rc_code m, repeat_flag m) else None) # mplay_reports es m)"

text \<open>Which of the signals at the given times follow each other closely.\<close>

fun unbroken :: "timeval \<Rightarrow> timeval list \<Rightarrow> bool list" where
  "unbroken t [] = []"
| "unbroken t (u # us) =
     (if time_elapsed t u \<le> MAX_TIME_BETWEEN_TWO_REPETITION_CODE then True # unbroken u us
      else replicate (Suc (length us)) False)"

lemma mplay_ignores: "timeout_repetition_flag m \<Longrightarrow>
    mplay_reports (map (Pair MPLAY_REPEAT_CODE) ts) m = replicate (length ts) None"
  by (induction ts) (simp_all add: mplay_byte_def)

lemma mplay_chain:
  "\<not> timeout_repetition_flag m \<Longrightarrow> mplay_reports (map (Pair MPLAY_REPEAT_CODE) ts) m =
     map (\<lambda>ok. if ok then Some (rc_code m, True) else None) (unbroken (last_reception_time m) ts)"
proof (induction ts arbitrary: m)
  case (Cons t ts)
  show ?case
  proof (cases "time_elapsed (last_reception_time m) t \<le> MAX_TIME_BETWEEN_TWO_REPETITION_CODE")
    case True
    let ?m = "m\<lparr>repeat_flag := True, last_reception_time := t\<rparr>"
    have "mplay_byte MPLAY_REPEAT_CODE t m = (True, ?m)" using Cons.prems True by (simp add: mplay_byte_def)
    then show ?thesis using Cons.IH [of ?m] Cons.prems True by simp
  next
    case False
    let ?m = "m\<lparr>timeout_repetition_flag := True, repeat_flag := False\<rparr>"
    have "mplay_byte MPLAY_REPEAT_CODE t m = (False, ?m)" using Cons.prems False by (simp add: mplay_byte_def)
    then show ?thesis using mplay_ignores [of ?m ts] False by simp
  qed
qed simp

text \<open>After a button the MPlay receiver reports its repeat signals as repeats of this button as long as each
  comes within half a second of the one before; from the first late one on they are all ignored, until
  the next button.\<close>

theorem mplay_repeats:
  assumes "x \<noteq> MPLAY_REPEAT_CODE"
  shows "mplay_reports ((x, t) # map (Pair MPLAY_REPEAT_CODE) ts) m =
    Some (ucast x, False) # map (\<lambda>ok. if ok then Some (ucast x, True) else None) (unbroken t ts)"
  using assms mplay_chain [of "m\<lparr>rc_code := ucast x, repeat_flag := False, timeout_repetition_flag := False,
      last_reception_time := t\<rparr>" ts]
  by (simp add: mplay_byte_def)

definition demo_mplay_times :: "timeval list" where
  "demo_mplay_times = [\<lparr>tv_sec = 5, tv_usec = 300000\<rparr>, \<lparr>tv_sec = 6, tv_usec = 0\<rparr>, \<lparr>tv_sec = 6, tv_usec = 100000\<rparr>]"

theorem mplay_repeats_witness:
  "mplay_reports ((0x12, \<lparr>tv_sec = 5, tv_usec = 0\<rparr>) # map (Pair MPLAY_REPEAT_CODE) demo_mplay_times)
       \<lparr>rc_code = 0, repeat_flag = False, last_reception_time = timeval0, timeout_repetition_flag = False\<rparr> =
     [Some (0x12, False), Some (0x12, True), None, None]"
proof -
  have u: "unbroken \<lparr>tv_sec = 5, tv_usec = 0\<rparr> demo_mplay_times = [True, False, False]" by code_simp
  have c: "(ucast (0x12 :: byte) :: ir_code) = 0x12" by simp
  have "(0x12 :: byte) \<noteq> MPLAY_REPEAT_CODE" by (simp add: MPLAY_REPEAT_CODE_def)
  from mplay_repeats [OF this] show ?thesis by (simp add: u c)
qed

section \<open>Opening the port\<close>

lemma serial_init_keeps_nothing:
  "serial_init u p = (False, p') \<Longrightarrow> \<not> sp_locked p \<Longrightarrow> \<not> sp_open p \<Longrightarrow> \<not> sp_locked p' \<and> \<not> sp_open p'"
  by (auto simp: serial_init_def serial_deinit_def Let_def split: if_splits)

text \<open>The search for the Pinnacle receiver looks at the first port only, under four names.\<close>

lemma autodetect_first_port_only:
  "\<not> found ''/dev/ttyS0'' \<Longrightarrow> pinsys_autodetect lock found = None"
  "found ''/dev/ttyS0'' \<Longrightarrow> \<not> lock 0 \<Longrightarrow> lock 1 \<Longrightarrow> pinsys_autodetect lock found = Some 1"
proof -
  have l: "[0..<4] = [0, 1, 2, 3 :: nat]" by code_simp
  show "\<not> found ''/dev/ttyS0'' \<Longrightarrow> pinsys_autodetect lock found = None"
    "found ''/dev/ttyS0'' \<Longrightarrow> \<not> lock 0 \<Longrightarrow> lock 1 \<Longrightarrow> pinsys_autodetect lock found = Some 1"
    by (simp_all add: pinsys_autodetect_def l)
qed

text \<open>When the terminal cannot be configured, \<open>mplay_init\<close> closes the port and releases the
  lock, but reports success, and the daemon goes on with the descriptor -1.\<close>

theorem mplay_init_claims_success:
  assumes "su_lock u" "su_open u \<ge> 0" "\<not> list_all id (su_tty u)"
  shows "fst (mplay_init u p) \<and> \<not> sp_open (snd (mplay_init u p)) \<and> \<not> sp_locked (snd (mplay_init u p)) \<and>
    sp_fd (snd (mplay_init u p)) = - 1 \<and> \<not> fst (serial_init u p)"
  using assms by (simp add: mplay_init_def mplay_deinit_def serial_init_def Let_def)

theorem mplay_init_claims_success_witness:
  "fst (mplay_init \<lparr>su_lock = True, su_open = 4, su_tty = [True, False]\<rparr>
     \<lparr>sp_locked = False, sp_open = False, sp_fd = - 1\<rparr>)"
  using mplay_init_claims_success [of "\<lparr>su_lock = True, su_open = 4, su_tty = [True, False]\<rparr>"] by simp

section \<open>Single frames\<close>

text \<open>A packet of an EA65 with an unknown second byte reports the button before it once more.\<close>

lemma ea65_unknown_packet: "ea65_code [0xa0, 0x02, x, y] code = Some code"
  by (simp add: ea65_code_def)

text \<open>A read error in a Silitek driver counts as a byte, whose value is the one before.\<close>

lemma silitek_error_is_byte: "silitek_read old (Read_error # es) = (Some old, es)"
  by (simp add: silitek_read_def)

text \<open>When the code of an MP3 Anywhere receiver is 0xAD, the byte that ends the packet stays on the line.\<close>

lemma mp3anywhere_end_in_code:
  "mp3anywhere_bytes 16 0 [0, 0xd5, 0xaa, 0xee, 7, 0xad, 0, 0, 0, 0, 0, 0, 0, 0, 0, 0]
      (map Byte [0xd5, 0xaa, 0xee, 0xad, 0xad]) =
    (Some [0, 0xd5, 0xaa, 0xee, 0xad, 0xad, 0, 0, 0, 0, 0, 0, 0, 0, 0, 0], [Byte 0xad])"
  by code_simp

section \<open>A press\<close>

definition demo_creative_remote :: ir_remote where
  "demo_creative_remote = demo_remote\<lparr>flags := 0, bits := 16, pre_data_bits := 16, pre_data := 0x8435,
     codes := Some [demo_button ''POWER'' 0xC03F, demo_button ''MUTE'' 0x807F]\<rparr>"

definition demo_creative :: "unit serial_rx_scheme" where
  "demo_creative = lircd_rel.extend ((demo_lircd [])\<lparr>store := (\<lambda>_. demo_creative_remote)\<rparr>)
     (serial_rx.fields (Byte 0x4d # spaced [(100, 0x05), (100, 0xFE), (100, 0x01), (100, 0xac), (100, 0x21)])
       (replicate 6 0) timeval0 timeval0 timeval0 108000 0 0)"

theorem creative_press_reported_witness:
  "\<exists>s'. creative_rec [0] demo_creative = Some (Some (''000000008435807f 00 MUTE TV'' @ [CHR 0x0A]), s') \<and>
     last_code (store s' 0) = Some 1"
proof -
  have s: "store demo_creative 0 = demo_creative_remote" "sl_b demo_creative = replicate 6 0"
    "sl_line demo_creative = Byte 0x4d # spaced [(100, 0x05), (100, 0xFE), (100, 0x01), (100, 0xac), (100, 0x21)] @ []"
    "fresh_press 0 demo_creative"
    by (simp_all add: demo_creative_def demo_lircd_def lircd_rel.defs serial_rx.defs fresh_press_def)
  have "knows_button demo_creative_remote 1 (creative_code 0xFE 0xac 0x21)"
    "press_message demo_creative_remote 1 = Some (''000000008435807f 00 MUTE TV'' @ [CHR 0x0A])"
    by code_simp+
  then show ?thesis
    using creative_press_reported [of demo_creative 100 100 100 100 100 "0xFE" "0x01" "0xac" "0x21" "[]" 0 1
        "''000000008435807f 00 MUTE TV'' @ [CHR 0x0A]"] s
    by (auto simp: PACKET_SIZE_def)
qed

end
