(* ===== verification/Uirt2.thy ===== *)
theory Uirt2
  imports HwIrtoy DaemonLaws TxBounds
begin

text \<open>
  The protocol of the UIRT2, a receiver and transmitter on a serial port, \<open>daemons/hw_uirt2_common.c\<close>:
  commands with checksums, the version of the firmware, modes, received lengths, and the two
  formats in which signals are sent.

  The state has the members of \<open>struct tag_uirt2_t\<close>, the static variable of \<open>uirt2_read_raw\<close>, the line, the
  success of the successive writes (all later ones succeed), what has been written, the clock, and the times that
  the driver has slept. \<open>None\<close>: a read that never returns because the line was hung up.
\<close>

record uirt2 =
  u_mode :: int
  u_version :: int
  u_pre_delay :: timeval
  u_pre_time :: timeval
  u_new_signal :: bool
  u_pulse :: bool
  u_line :: "line_event list"
  u_writes :: "bool list"
  u_sent :: "byte list list"
  u_clock :: "nat \<Rightarrow> timeval"
  u_ticks :: nat
  u_slept :: "timeval list"

definition UIRT2_UNIT :: int where [c_eval]: "UIRT2_UNIT = 50"
definition UIRT2_SETMODEUIR :: byte where "UIRT2_SETMODEUIR = 0x20"
definition UIRT2_SETMODERAW :: byte where "UIRT2_SETMODERAW = 0x21"
definition UIRT2_SETMODESTRUC :: byte where "UIRT2_SETMODESTRUC = 0x22"
definition UIRT2_GETVERSION :: byte where "UIRT2_GETVERSION = 0x23"
definition UIRT2_DOTXRAW :: byte where "UIRT2_DOTXRAW = 0x36"
definition UIRT2_CSERROR :: byte where "UIRT2_CSERROR = 0x80"
definition UIRT2_FREQ_40 :: byte where "UIRT2_FREQ_40 = 0x00"
definition UIRT2_FREQ_38 :: byte where "UIRT2_FREQ_38 = 0x40"
definition UIRT2_FREQ_36 :: byte where "UIRT2_FREQ_36 = 0xC0"
definition UIRT2_MODE_UIR :: int where "UIRT2_MODE_UIR = 0"
definition UIRT2_MODE_RAW :: int where "UIRT2_MODE_RAW = 1"
definition UIRT2_MODE_STRUC :: int where "UIRT2_MODE_STRUC = 2"
definition UIRT2_MAX_BITS :: int where [c_eval]: "UIRT2_MAX_BITS = 128"

section \<open>The line\<close>

text \<open>\<open>select\<close> is taken to leave its timeout as it is, as on the BSD systems: every byte is waited for 200 ms.\<close>

definition readagain :: "nat \<Rightarrow> uirt2 \<Rightarrow> (byte list \<times> uirt2) option" where
  "readagain n d = map_option (\<lambda>(bs, es). (bs, d\<lparr>u_line := es\<rparr>)) (read_with_timeout n 200000 (u_line d))"

definition mywaitfordata :: "int \<Rightarrow> uirt2 \<Rightarrow> bool \<times> uirt2" where
  "mywaitfordata usec d = (case line_wait usec (u_line d) of (ready, es) \<Rightarrow> (ready, d\<lparr>u_line := es\<rparr>))"

lemma readagain_line: "readagain n d = Some (bs, d') \<Longrightarrow> length (u_line d') + length bs \<le> length (u_line d)"
  by (auto simp: readagain_def dest!: read_with_timeout_length)

lemma mywaitfordata_line: "mywaitfordata t d = (ready, d') \<Longrightarrow> length (u_line d') \<le> length (u_line d)"
  by (auto simp: mywaitfordata_def split: prod.splits dest!: line_wait_length)

function uirt2_readflush :: "int \<Rightarrow> uirt2 \<Rightarrow> uirt2 option" where
  "uirt2_readflush timeout d =
     (case mywaitfordata timeout d of
        (False, d) \<Rightarrow> Some d
      | (True, d) \<Rightarrow>
          (case readagain 1 d of
             None \<Rightarrow> None
           | Some (bs, d) \<Rightarrow> if bs = [] then Some d else uirt2_readflush timeout d))"
  by pat_completeness auto
termination
proof (relation "measure (\<lambda>(t, d). length (u_line d))")
  fix t d ready d1 res bs d2
  assume a: "(ready, d1) = mywaitfordata t d" "readagain 1 d1 = Some res" "(bs, d2) = res" "bs \<noteq> []"
  have "length (u_line d2) + length bs \<le> length (u_line d1)" using readagain_line [of 1 d1 bs d2] a(2,3) by simp
  moreover have "length (u_line d1) \<le> length (u_line d)" using mywaitfordata_line [OF a(1) [symmetric]] .
  moreover obtain b bs' where "bs = b # bs'" using a(4) by (cases bs) simp_all
  ultimately show "((t, d2), t, d) \<in> measure (\<lambda>(t, d). length (u_line d))" by simp
qed auto

declare uirt2_readflush.simps [simp del]

section \<open>Commands\<close>

definition checksum :: "byte list \<Rightarrow> byte" where "checksum bs = fold (\<lambda>b c. c - b) bs 0"

text \<open>The pause before a command: the device is still sending.\<close>

definition pre_command_delay :: "uirt2 \<Rightarrow> uirt2" where
  "pre_command_delay d =
     (if timerisset (u_pre_delay d) then
        let cur = u_clock d (u_ticks d); d = d\<lparr>u_ticks := Suc (u_ticks d)\<rparr>;
            diff = timersub cur (u_pre_time d);
            d = (if timercmp_less diff (u_pre_delay d)
                 then d\<lparr>u_slept := u_slept d @ [timersub (u_pre_delay d) diff]\<rparr> else d)
        in d\<lparr>u_pre_delay := timeval0\<rparr>
      else d)"

definition uirt2_write :: "byte list \<Rightarrow> uirt2 \<Rightarrow> bool \<times> uirt2" where
  "uirt2_write bs d =
     (case u_writes d of
        [] \<Rightarrow> (True, d\<lparr>u_sent := u_sent d @ [bs]\<rparr>)
      | ok # oks \<Rightarrow> (ok, d\<lparr>u_writes := oks, u_sent := (if ok then u_sent d @ [bs] else u_sent d)\<rparr>))"

text \<open>\<open>command_ext\<close> with the bytes of the command and the number of bytes of the answer; the inner
  \<open>None\<close> is the result -1.\<close>

definition command_ext :: "byte list \<Rightarrow> nat \<Rightarrow> uirt2 \<Rightarrow> (byte list option \<times> uirt2) option" where
  "command_ext bs n d =
     do { d \<leftarrow> uirt2_readflush 0 (pre_command_delay d);
          (ok, d) \<leftarrow> Some (uirt2_write (bs @ [checksum bs]) d);
          if \<not> ok then Some (None, d)
          else do {
            (ready, d) \<leftarrow> Some (mywaitfordata 1000000 d);
            if \<not> ready then Some (None, d)
            else do {
              (out, d) \<leftarrow> readagain n d;
              if length out < n then Some (None, d)
              else if n > 1 \<and> checksum out \<noteq> 0 then Some (None, d)
              else Some (Some out, d) } } }"

text \<open>\<open>command\<close>: -1, or whether the answer is no error.\<close>

definition command :: "byte list \<Rightarrow> uirt2 \<Rightarrow> (int \<times> uirt2) option" where
  "command bs d =
     do { (out, d) \<leftarrow> command_ext bs 1 d;
          Some (case out of None \<Rightarrow> - 1 | Some out \<Rightarrow> if out ! 0 < UIRT2_CSERROR then 1 else 0, d) }"

definition version_of :: "byte list \<Rightarrow> int" where
  "version_of out = uint (out ! 1) + 256 * uint (out ! 0)"

definition uirt2_getversion :: "uirt2 \<Rightarrow> (int option \<times> uirt2) option" where
  "uirt2_getversion d =
     (if u_version d \<noteq> 0 then Some (Some (u_version d), d)
      else do {
        (out, d) \<leftarrow> command_ext [UIRT2_GETVERSION] 3 d;
        case out of
          Some out \<Rightarrow> Some (Some (version_of out), d)
        | None \<Rightarrow>
            do { d \<leftarrow> uirt2_readflush 200000 d;
                 (out, d) \<leftarrow> command_ext [UIRT2_GETVERSION] 8 d;
                 Some (map_option version_of out, d) } })"

text \<open>\<open>uirt2_init\<close>: whether there is a device.\<close>

definition uirt2_open :: "uirt2 \<Rightarrow> (bool \<times> uirt2) option" where
  "uirt2_open d =
     do { d \<leftarrow> uirt2_readflush 200000 (d\<lparr>u_version := 0, u_pre_delay := timeval0, u_pre_time := timeval0,
                                          u_new_signal := True, u_mode := UIRT2_MODE_UIR\<rparr>);
          (v, d) \<leftarrow> uirt2_getversion d;
          Some (case v of None \<Rightarrow> (False, d) | Some v \<Rightarrow> (True, d\<lparr>u_version := v\<rparr>)) }"

definition uirt2_setmode :: "int \<Rightarrow> uirt2 \<Rightarrow> (bool \<times> uirt2) option" where
  "uirt2_setmode m d =
     (if u_mode d = m then Some (True, d)
      else if m \<notin> {UIRT2_MODE_UIR, UIRT2_MODE_RAW, UIRT2_MODE_STRUC} then Some (False, d)
      else do {
        (res, d) \<leftarrow> command [if m = UIRT2_MODE_UIR then UIRT2_SETMODEUIR
                            else if m = UIRT2_MODE_RAW then UIRT2_SETMODERAW else UIRT2_SETMODESTRUC] d;
        if res < 0 then Some (False, d) else Some (True, d\<lparr>u_mode := m\<rparr>) })"

section \<open>Receiving\<close>

text \<open>The inner \<open>None\<close>: \<open>waitfordata\<close> never returns, because the timeout is 0 and nothing comes.\<close>

function uirt2_read_raw_loop :: "lirc_t \<Rightarrow> uirt2 \<Rightarrow> (lirc_t \<times> uirt2) option" where
  "uirt2_read_raw_loop timeout d =
     (case line_ready timeout (u_line d) of
        None \<Rightarrow> None
      | Some (False, es) \<Rightarrow> Some (0, d\<lparr>u_line := es\<rparr>)
      | Some (True, es) \<Rightarrow>
          (case readagain 1 (d\<lparr>u_line := es\<rparr>) of
             None \<Rightarrow> None
           | Some ([], d) \<Rightarrow> Some (0, d)
           | Some (b # _, d) \<Rightarrow>
               if b = 0xff then uirt2_read_raw_loop timeout (d\<lparr>u_new_signal := True\<rparr>)
               else if u_new_signal d then
                 (case readagain 1 d of
                    None \<Rightarrow> None
                  | Some ([], d) \<Rightarrow> Some (0, d)
                  | Some (c # _, d) \<Rightarrow>
                      Some (UIRT2_UNIT * (256 * uint b + uint c), d\<lparr>u_pulse := True, u_new_signal := False\<rparr>))
               else
                 let data = UIRT2_UNIT * uint b; data = (if data = 0 then 1 else data)
                 in Some (if u_pulse d then data OR PULSE_BIT else data, d\<lparr>u_pulse := \<not> u_pulse d\<rparr>)))"
  by pat_completeness auto
termination
proof (relation "measure (\<lambda>(t, d). length (u_line d))")
  fix t :: lirc_t and d :: uirt2 and res ready es r bs d1 b bs'
  assume a: "line_ready t (u_line d) = Some res" "(ready, es) = res" "readagain 1 (d\<lparr>u_line := es\<rparr>) = Some r"
    "(bs, d1) = r" "bs = b # bs'"
  have "length es \<le> length (u_line d)"
  proof -
    have "line_block xs = Some ys \<Longrightarrow> length ys \<le> length xs" for xs ys
      by (induction xs rule: line_block.induct) auto
    then show ?thesis using a(1,2) line_wait_length by (auto simp: line_ready_def split: if_splits)
  qed
  moreover have "length (u_line d1) + length bs \<le> length es"
    using readagain_line [of 1 "d\<lparr>u_line := es\<rparr>" bs d1] a(3,4) by simp
  ultimately show "((t, d1\<lparr>u_new_signal := True\<rparr>), t, d) \<in> measure (\<lambda>(t, d). length (u_line d))" using a(5) by simp
qed auto

declare uirt2_read_raw_loop.simps [simp del]

definition uirt2_read_raw :: "lirc_t \<Rightarrow> uirt2 \<Rightarrow> (lirc_t \<times> uirt2) option" where
  "uirt2_read_raw timeout d =
     (if u_mode d \<noteq> UIRT2_MODE_RAW then Some (- 1, d) else uirt2_read_raw_loop timeout d)"

text \<open>In the mode of the older receiver: up to six bytes of a code. The inner \<open>None\<close> is the wrong mode.\<close>

primrec read_uir_bytes :: "nat \<Rightarrow> uirt2 \<Rightarrow> (byte list \<times> uirt2) option" where
  "read_uir_bytes 0 d = Some ([], d)"
| "read_uir_bytes (Suc n) d =
     do { (bs, d) \<leftarrow> readagain 1 d;
          if bs = [] then Some ([], d)
          else do { (cs, d) \<leftarrow> read_uir_bytes n d; Some (bs @ cs, d) } }"

definition uirt2_read_uir :: "uirt2 \<Rightarrow> (byte list option \<times> uirt2) option" where
  "uirt2_read_uir d =
     (if u_mode d \<noteq> UIRT2_MODE_UIR then Some (None, d)
      else map_option (\<lambda>(bs, d). (Some bs, d)) (read_uir_bytes 6 d))"

section \<open>Ports\<close>

text \<open>The general purpose ports, which no driver uses. \<open>uirt2_getgpio\<close> copies 22 bytes from an array of three and
  is not modelled.\<close>

definition UIRT2_CODE_SIZE :: nat where "UIRT2_CODE_SIZE = 6"

definition uirt2_getgpiocaps :: "uirt2 \<Rightarrow> ((int \<times> byte list) option \<times> uirt2) option" where
  "uirt2_getgpiocaps d =
     do { (out, d) \<leftarrow> command_ext [0x30, 1] 6 d;
          Some (map_option (\<lambda>out. (uint (out ! 0), take 4 (drop 1 out))) out, d) }"

definition uirt2_getgpiocfg :: "int \<Rightarrow> uirt2 \<Rightarrow> ((byte list \<times> int \<times> int) option \<times> uirt2) option" where
  "uirt2_getgpiocfg slot d =
     do { (out, d) \<leftarrow> command_ext [0x31, 2, word_of_int slot] 9 d;
          Some (map_option (\<lambda>out. (take UIRT2_CODE_SIZE out, uint (out ! UIRT2_CODE_SIZE), 5 * uint (out ! (UIRT2_CODE_SIZE + 1)))) out, d) }"

text \<open>The bytes behind the slot are put into the array, but its length is given as 2.\<close>

definition uirt2_setgpiocfg :: "int \<Rightarrow> byte list \<Rightarrow> int \<Rightarrow> int \<Rightarrow> uirt2 \<Rightarrow> (int \<times> uirt2) option" where
  "uirt2_setgpiocfg slot cs action duration d =
     (let bs = [0x32, 4 + word_of_nat UIRT2_CODE_SIZE, word_of_int slot] @ take UIRT2_CODE_SIZE cs
            @ [word_of_int action, word_of_int (duration sdiv 5)]
      in command (take (2 + 1) bs) d)"

definition uirt2_setgpio :: "int \<Rightarrow> int \<Rightarrow> uirt2 \<Rightarrow> (int \<times> uirt2) option" where
  "uirt2_setgpio action duration d = command [0x34, 3, word_of_int action, word_of_int (duration sdiv 5)] d"

definition uirt2_refreshgpio :: "uirt2 \<Rightarrow> (int \<times> uirt2) option" where
  "uirt2_refreshgpio d = command [0x35, 1] d"

section \<open>Sending\<close>

definition uirt2_calc_freq :: "u32 \<Rightarrow> byte" where
  "uirt2_calc_freq f =
     (if sint f > 39000 then UIRT2_FREQ_40 else if sint f > 37000 then UIRT2_FREQ_38 else UIRT2_FREQ_36)"

definition uirt2_send_raw :: "byte list \<Rightarrow> uirt2 \<Rightarrow> (int \<times> uirt2) option" where
  "uirt2_send_raw bs d = command (UIRT2_DOTXRAW # word_of_nat (length bs + 1) # bs) d"

text \<open>\<open>rs_dat\<close> holds the 16 bytes of \<open>bDatBits\<close> and \<open>bCheck\<close> behind them: the structure is packed.\<close>

record remstruct1_data =
  rs_ISDlyHi :: byte
  rs_ISDlyLo :: byte
  rs_Bits :: byte
  rs_Hdr1 :: byte
  rs_Hdr0 :: byte
  rs_Off0 :: byte
  rs_Off1 :: byte
  rs_On0 :: byte
  rs_On1 :: byte
  rs_dat :: "byte list"

definition struct_bytes :: "remstruct1_data \<Rightarrow> byte list" where
  "struct_bytes s = [rs_ISDlyHi s, rs_ISDlyLo s, rs_Bits s, rs_Hdr1 s, rs_Hdr0 s, rs_Off0 s, rs_Off1 s, rs_On0 s, rs_On1 s]
     @ rs_dat s"

text \<open>Bit \<open>i\<close> of the data, and the length it stands for in units.\<close>

definition struct_bit :: "remstruct1_data \<Rightarrow> nat \<Rightarrow> bool" where
  "struct_bit s i = bit (rs_dat s ! (i div 8)) (i mod 8)"

definition bit_units :: "remstruct1_data \<Rightarrow> nat \<Rightarrow> byte" where
  "bit_units s i =
     (if i mod 2 = 1 then (if struct_bit s i then rs_Off1 s else rs_Off0 s)
      else (if struct_bit s i then rs_On1 s else rs_On0 s))"

definition calc_bits_length :: "remstruct1_data \<Rightarrow> u32" where
  "calc_bits_length s = 50 * sum_list (map (\<lambda>i. ucast (bit_units s i)) [0..<unat (rs_Bits s)])"

definition calc_struct1_length :: "int \<Rightarrow> remstruct1_data \<Rightarrow> u32" where
  "calc_struct1_length rep s =
     word_of_int (rep + 1) *
       (word_of_int (UIRT2_UNIT * (uint (rs_ISDlyLo s) + 256 * uint (rs_ISDlyHi s))) +
        word_of_int (UIRT2_UNIT * (uint (rs_Hdr1 s) + uint (rs_Hdr0 s))) + calc_bits_length s)"

text \<open>The frequency as a period of 0.2 microseconds, which fits 7 bits.\<close>

definition carrier_period :: "int \<Rightarrow> int" where
  "carrier_period f =
     (if f = 0 \<or> ((5000000 sdiv f) + 1) sdiv 2 \<ge> 0x80 then 0x80 else ((5000000 sdiv f) + 1) sdiv 2)"

definition uirt2_send_struct1 :: "u32 \<Rightarrow> int \<Rightarrow> remstruct1_data \<Rightarrow> uirt2 \<Rightarrow> (int \<times> uirt2) option" where
  "uirt2_send_struct1 f rep s d =
     do { (res, d) \<leftarrow>
            (if u_version d \<ge> 0x0905 then
               command ([0x37, 29, word_of_int (carrier_period (sint f)), word_of_int rep] @ struct_bytes s) d
             else
               command ((uirt2_calc_freq f + word_of_int (if rep > 0x1f then 0x1f else rep))
                        # butlast (struct_bytes s)) d);
          let delay = calc_struct1_length rep s; now = u_clock d (u_ticks d)
          in Some (res, d\<lparr>u_ticks := Suc (u_ticks d), u_pre_time := now,
                         u_pre_delay := \<lparr>tv_sec = uint (delay div 1000000), tv_usec = uint (delay mod 1000000)\<rparr>\<rparr>) }"

text \<open>
  The driver \<open>daemons/hw_uirt2_raw.c\<close>: the queue of received lengths, setup, and sending: the
  signal is compressed into a header and one bit for every further pulse and space, where two lengths
  each are possible, or sent as it is.
\<close>

section \<open>Receiving\<close>

record uirt2_raw =
  ur_dev :: uirt2
  ur_buf :: "nat \<Rightarrow> lirc_t"
  ur_rptr :: nat
  ur_wptr :: nat
  ur_send :: sbuf

definition rec_size :: nat where [c_eval]: "rec_size = 200"

definition queue_put :: "lirc_t \<Rightarrow> uirt2_raw \<Rightarrow> bool \<times> uirt2_raw" where
  "queue_put x s =
     (let next = (ur_wptr s + 1) mod rec_size
      in if next \<noteq> ur_rptr s then (True, s\<lparr>ur_buf := (ur_buf s)(ur_wptr s := x), ur_wptr := next\<rparr>) else (False, s))"

definition queue_get :: "uirt2_raw \<Rightarrow> lirc_t option \<times> uirt2_raw" where
  "queue_get s =
     (if ur_wptr s \<noteq> ur_rptr s
      then (Some (ur_buf s (ur_rptr s)), s\<lparr>ur_rptr := (ur_rptr s + 1) mod rec_size\<rparr>) else (None, s))"

definition queue_is_empty :: "uirt2_raw \<Rightarrow> bool" where "queue_is_empty s \<longleftrightarrow> ur_wptr s = ur_rptr s"

definition queue_clear :: "uirt2_raw \<Rightarrow> uirt2_raw" where "queue_clear s = s\<lparr>ur_rptr := 0, ur_wptr := 0\<rparr>"

definition raw_read :: "lirc_t \<Rightarrow> uirt2_raw \<Rightarrow> (lirc_t \<times> uirt2_raw) option" where
  "raw_read timeout s = map_option (\<lambda>(x, d). (x, s\<lparr>ur_dev := d\<rparr>)) (uirt2_read_raw timeout (ur_dev s))"

definition queue_next :: "uirt2_raw \<Rightarrow> lirc_t \<times> uirt2_raw" where
  "queue_next s = (case queue_get s of (None, s) \<Rightarrow> (0, s) | (Some x, s) \<Rightarrow> (x, s))"

definition uirt2_raw_readdata :: "lirc_t \<Rightarrow> uirt2_raw \<Rightarrow> (lirc_t \<times> uirt2_raw) option" where
  "uirt2_raw_readdata timeout s =
     (if queue_is_empty s then
        do { (x, s) \<leftarrow> raw_read timeout s;
             if x = 0 then Some (0, s) else Some (queue_next (snd (queue_put x s))) }
      else Some (queue_next s))"

text \<open>The part of \<open>uirt2_raw_rec\<close> without remotes.\<close>

definition uirt2_raw_rec_none :: "uirt2_raw \<Rightarrow> uirt2_raw option" where
  "uirt2_raw_rec_none s =
     do { (x, s) \<leftarrow> raw_read 1 (queue_clear s);
          Some (if x \<noteq> 0 then snd (queue_put x s) else s) }"

section \<open>Setup\<close>

text \<open>What becomes of the lock, the descriptor and the DTR line. \<open>dtr\<close> is whether that line can be set at start-up.\<close>

record uirt2_port =
  up_locked :: bool
  up_fd :: int
  up_dtr :: bool
  up_dev :: "uirt2_raw option"

definition uirt2_raw_deinit :: "uirt2_raw \<Rightarrow> uirt2_port \<Rightarrow> uirt2_port option" where
  "uirt2_raw_deinit s p =
     do { (v, _) \<leftarrow> uirt2_getversion (ur_dev s);
          p \<leftarrow> Some (if \<exists>n \<in> set_option v. n \<ge> 0x0905 then p\<lparr>up_dtr := True\<rparr> else p);
          Some (p\<lparr>up_dev := None, up_fd := - 1, up_locked := False\<rparr>) }"

definition uirt2_raw_init :: "tty_step \<Rightarrow> bool \<Rightarrow> int \<Rightarrow> uirt2_raw \<Rightarrow> uirt2_port \<Rightarrow> (bool \<times> uirt2_port) option" where
  "uirt2_raw_init tty dtr fd s p =
     (case tty of
        Lock_failed \<Rightarrow> Some (False, p)
      | Open_failed \<Rightarrow> Some (False, p\<lparr>up_fd := - 1, up_locked := False\<rparr>)
      | Setup_failed \<Rightarrow> Some (False, p\<lparr>up_fd := fd, up_locked := False\<rparr>)
      | Tty_ready \<Rightarrow>
          do { (found, d) \<leftarrow> uirt2_open (ur_dev s);
               if \<not> found then Some (False, p\<lparr>up_fd := fd, up_locked := False, up_dev := None\<rparr>)
               else do {
                 (ok, d) \<leftarrow> uirt2_setmode UIRT2_MODE_RAW d;
                 s \<leftarrow> Some (s\<lparr>ur_dev := d\<rparr>);
                 if \<not> ok then map_option (Pair False) (uirt2_raw_deinit s (p\<lparr>up_fd := fd, up_locked := True\<rparr>))
                 else do {
                   (v, d) \<leftarrow> uirt2_getversion d;
                   case v of
                     None \<Rightarrow> map_option (Pair False) (uirt2_raw_deinit s (p\<lparr>up_fd := fd, up_locked := True\<rparr>))
                   | Some v \<Rightarrow>
                       if v \<ge> 0x0905 \<and> \<not> dtr
                       then map_option (Pair False) (uirt2_raw_deinit s (p\<lparr>up_fd := fd, up_locked := True\<rparr>))
                       else Some (True, p\<lparr>up_fd := fd, up_locked := True,
                              up_dtr := (if v \<ge> 0x0905 then False else up_dtr p),
                              up_dev := Some (s\<lparr>ur_dev := d, ur_rptr := 0, ur_wptr := 0, ur_send := init_send_buffer\<rparr>)\<rparr>) } } })"

section \<open>Raw transmission\<close>

text \<open>The bytes for one length. \<open>Inl\<close>: more than 48 bytes. The second component of the result counts how
  often the length was split; every time the loop over the signal gets two rounds longer.\<close>

function raw_value :: "int \<Rightarrow> byte list \<Rightarrow> nat \<Rightarrow> unit + byte list \<times> nat" where
  "raw_value val out k =
     (if \<not> val > 0 then Inr (out, k)
      else
        let (out, val, k) = (if val > 255 then (out @ [254, 1], val - 255, k + 1) else (out @ [word_of_int val], 0, k))
        in if length out > 48 then Inl () else raw_value val out k)"
  by pat_completeness auto
termination
  by (relation "measure (\<lambda>(val, out, k). nat val)") (auto split: if_splits)

declare raw_value.simps [simp del]

text \<open>\<open>None\<close>: a value behind the end of the signal is read.\<close>

function raw_loop_bytes :: "lirc_t list \<Rightarrow> nat \<Rightarrow> nat \<Rightarrow> byte list \<Rightarrow> (unit + byte list) option" where
  "raw_loop_bytes buf len i out =
     (if \<not> i < len then Some (Inr out)
      else if \<not> i < length buf then None
      else case raw_value (buf ! i sdiv UIRT2_UNIT) out 0 of
             Inl _ \<Rightarrow> Some (Inl ())
           | Inr (out, k) \<Rightarrow> raw_loop_bytes buf (len + 2 * k) (Suc i) out)"
  by pat_completeness auto
termination
  by (relation "measure (\<lambda>(buf, len, i, out). length buf - i)") auto

declare raw_loop_bytes.simps [simp del]

text \<open>The bytes are put behind two zeros, and the frequency and one repeat behind them.\<close>

definition uirt2_send_mode2_raw :: "ir_remote \<Rightarrow> lirc_t list \<Rightarrow> uirt2 \<Rightarrow> (int \<times> uirt2) option" where
  "uirt2_send_mode2_raw r buf d =
     do { out \<leftarrow> raw_loop_bytes buf (length buf) 0 [];
          case out of
            Inl _ \<Rightarrow> Some (0, d)
          | Inr out \<Rightarrow>
              do { (res, d) \<leftarrow> uirt2_send_raw ([0, 0] @ out @ [uirt2_calc_freq (freq r) + 1]) d;
                   Some (if res = 0 then 0 else 1, d) } }"

section \<open>Compressed transmission\<close>

definition set_data_bit :: "nat \<Rightarrow> bool \<Rightarrow> byte list \<Rightarrow> byte list" where
  "set_data_bit offset b dest =
     (let i = offset div 8; j = offset mod 8
      in dest[i := (if b then dest ! i OR push_bit j 1 else dest ! i AND NOT (push_bit j 1))])"

text \<open>The index of a length in the table, in which the first two different ones are noted.\<close>

fun calc_data_bit :: "hardware \<Rightarrow> ir_remote \<Rightarrow> int \<Rightarrow> int \<Rightarrow> int list \<Rightarrow> (nat \<times> int list) option" where
  "calc_data_bit h r x unit [] = None"
| "calc_data_bit h r x unit (t # ts) =
     (if t = 0 then Some (0, x sdiv unit # ts)
      else if expect h r x (i32 (t * unit)) then Some (0, t # ts)
      else map_option (\<lambda>(i, ts). (Suc i, t # ts)) (calc_data_bit h r x unit ts))"

record struct_state =
  ss_rem :: remstruct1_data
  ss_on :: "int list"
  ss_off :: "int list"
  ss_bits :: nat

definition struct_state0 :: struct_state where
  "struct_state0 = \<lparr>ss_rem = \<lparr>rs_ISDlyHi = 0, rs_ISDlyLo = 0, rs_Bits = 0, rs_Hdr1 = 0, rs_Hdr0 = 0, rs_Off0 = 0,
       rs_Off1 = 0, rs_On0 = 0, rs_On1 = 0, rs_dat = replicate 17 0\<rparr>,
     ss_on = [0, 0], ss_off = [0, 0], ss_bits = 0\<rparr>"

text \<open>A length that is in no table can be the gap behind a signal that is repeated: then the signal consists of
  equal parts, the last one without its gap.\<close>

definition repeated_parts :: "ir_remote \<Rightarrow> lirc_t list \<Rightarrow> nat \<Rightarrow> int option" where
  "repeated_parts r buf i =
     (let part = Suc i
      in if \<not> (i mod 2 = 1 \<and> buf ! i = min_remaining_gap r) then None
         else if (length buf + 1) mod part \<noteq> 0 then None
         else
           let n = (length buf + 1) div part
           in if list_all (\<lambda>j. let k = (if j + 1 = n then part - 1 else part)
                               in take k buf = take k (drop (j * part) buf)) [1..<n]
              then Some (int n) else None)"

text \<open>\<open>Inl\<close>: the signal cannot be sent like this. The result has the number of repeats.\<close>

function struct_loop ::
  "hardware \<Rightarrow> ir_remote \<Rightarrow> int \<Rightarrow> lirc_t list \<Rightarrow> nat \<Rightarrow> struct_state \<Rightarrow> unit + int \<times> struct_state" where
  "struct_loop h r unit buf i s =
     (if \<not> i < length buf then Inr (1, s)
      else
        let x = buf ! i; len = x sdiv unit
        in if len > 255 then Inl ()
           else if i = 0 then struct_loop h r unit buf 1 (s\<lparr>ss_rem := (ss_rem s)\<lparr>rs_Hdr1 := word_of_int len\<rparr>\<rparr>)
           else if i = 1 then struct_loop h r unit buf 2 (s\<lparr>ss_rem := (ss_rem s)\<lparr>rs_Hdr0 := word_of_int len\<rparr>\<rparr>)
           else case calc_data_bit h r x unit (if i mod 2 = 1 then ss_off s else ss_on s) of
                  None \<Rightarrow>
                    (case repeated_parts r buf i of None \<Rightarrow> Inl () | Some n \<Rightarrow> Inr (n, s))
                | Some (b, table) \<Rightarrow>
                    if int i - 2 > UIRT2_MAX_BITS then Inl ()
                    else
                      let s = (if i mod 2 = 1 then s\<lparr>ss_off := table\<rparr> else s\<lparr>ss_on := table\<rparr>)
                      in struct_loop h r unit buf (Suc i)
                           (s\<lparr>ss_rem := (ss_rem s)\<lparr>rs_dat := set_data_bit (i - 2) (b \<noteq> 0) (rs_dat (ss_rem s))\<rparr>,
                              ss_bits := Suc (ss_bits s)\<rparr>))"
  by pat_completeness auto
termination
  by (relation "measure (\<lambda>(h, r, unit, buf, i, s). length buf - i)") auto

declare struct_loop.simps [simp del]

definition finish_struct :: "ir_remote \<Rightarrow> int \<Rightarrow> struct_state \<Rightarrow> remstruct1_data" where
  "finish_struct r unit s =
     (let g = min_remaining_gap r sdiv unit
      in (ss_rem s)\<lparr>rs_ISDlyHi := word_of_int (g sdiv 256), rs_ISDlyLo := word_of_int g, rs_Bits := word_of_nat (ss_bits s),
         rs_Off0 := word_of_int (ss_off s ! 0), rs_Off1 := word_of_int (ss_off s ! 1),
         rs_On0 := word_of_int (ss_on s ! 0), rs_On1 := word_of_int (ss_on s ! 1)\<rparr>)"

text \<open>The unit of the lengths, in microseconds.\<close>

definition struct_unit :: "int \<Rightarrow> u32 \<Rightarrow> int" where
  "struct_unit v f =
     (if v \<ge> 0x0905 then (carrier_period (sint f) * 100) sdiv 125 else UIRT2_UNIT)"

text \<open>The outer \<open>None\<close> is also a division by a unit of 0.\<close>

definition uirt2_send_mode2_struct1 ::
  "hardware \<Rightarrow> ir_remote \<Rightarrow> lirc_t list \<Rightarrow> uirt2 \<Rightarrow> (int \<times> uirt2) option" where
  "uirt2_send_mode2_struct1 h r buf d =
     do { (v, d) \<leftarrow> uirt2_getversion d;
          case v of
            None \<Rightarrow> Some (- 1, d)
          | Some v \<Rightarrow>
              let f = (if freq r = 0 then DEFAULT_FREQ else freq r); unit = struct_unit v f
              in if unit = 0 then None
                 else case struct_loop h r unit buf 0 struct_state0 of
                        Inl _ \<Rightarrow> Some (0, d)
                      | Inr (n, s) \<Rightarrow> uirt2_send_struct1 f n (finish_struct r unit s) d }"

definition uirt2_send :: "bool \<Rightarrow> hardware \<Rightarrow> ir_remote \<Rightarrow> ir_ncode \<Rightarrow> uirt2_raw \<Rightarrow>
    (int \<times> ir_remote \<times> ir_ncode \<times> uirt2_raw) option" where
  "uirt2_send repeating h r c s =
     do { (ok, r, c, b) \<leftarrow> init_send repeating r c (ur_send s);
          s \<leftarrow> Some (s\<lparr>ur_send := b\<rparr>);
          if \<not> ok then Some (0, r, c, s)
          else do {
            xs \<leftarrow> buffer_samples b;
            if xs = [] then Some (0, r, c, s)
            else do {
              (res, d) \<leftarrow> uirt2_send_mode2_struct1 h r xs (ur_dev s);
              (res, d) \<leftarrow> (if res = 0 \<and> length xs < 48 then uirt2_send_mode2_raw r xs d else Some (res, d));
              Some (res, r, c, s\<lparr>ur_dev := d\<rparr>) } } }"

end
