(* ===== verification/Uirt2Facts.thy ===== *)
theory Uirt2Facts
  imports Uirt2 Demo
begin

text \<open>
  What the UIRT2 is told to send. A raw packet spells the signal in units of 50 microseconds, and
  is only reached when no length exceeds 255 units; the compressed form spells the header and all
  further lengths up to the tolerance of the remote, and repeats them as often as the signal does.
\<close>

section \<open>Raw packets\<close>

lemma raw_value_short:
  assumes "0 \<le> val" "val \<le> 255"
  shows "raw_value val out k =
    (if val = 0 then Inr (out, k) else if length out \<ge> 48 then Inl () else Inr (out @ [word_of_int val], k))"
  using assms by (subst raw_value.simps) (simp add: raw_value.simps [of 0])

lemma raw_value_count: "raw_value val out k = Inr (out', k') \<Longrightarrow> k \<le> k'"
proof (induction val out k rule: raw_value.induct)
  case (1 val out k)
  show ?case
    using "1.prems" "1.IH" [of "if val > 255 then (out @ [254, 1], val - 255, k + 1) else (out @ [word_of_int val], 0, k)"]
    by (subst (asm) raw_value.simps) (fastforce split: if_splits)
qed

lemma raw_value_long: "val > 255 \<Longrightarrow> raw_value val out k = Inr (out', k') \<Longrightarrow> k < k'"
  by (subst (asm) raw_value.simps) (auto split: if_splits dest!: raw_value_count)

text \<open>Once the loop has been made longer than the signal it cannot end well.\<close>

lemma raw_loop_longer: "i \<le> length buf \<Longrightarrow> length buf < len \<Longrightarrow> raw_loop_bytes buf len i out \<noteq> Some (Inr out')"
proof (induction buf len i out rule: raw_loop_bytes.induct)
  case (1 buf len i out)
  then show ?case
    by (subst raw_loop_bytes.simps) (auto split: sum.splits)
qed

abbreviation in_units :: "lirc_t list \<Rightarrow> byte list" where
  "in_units xs \<equiv> map word_of_int (filter (\<lambda>n. n > 0) (map (\<lambda>x. x sdiv UIRT2_UNIT) xs))"

lemma sdiv_unit_nonneg: "0 \<le> x \<Longrightarrow> 0 \<le> x sdiv UIRT2_UNIT"
  by (simp add: c_eval signed_divide_int_def sgn_if)

lemma raw_loop_spells:
  assumes "raw_loop_bytes buf (length buf) i out = Some (Inr out')" "\<forall>x\<in>set buf. 0 \<le> x"
  shows "out' = out @ in_units (drop i buf) \<and> (\<forall>x\<in>set (drop i buf). x sdiv UIRT2_UNIT \<le> 255) \<and>
         (length out \<le> 48 \<longrightarrow> length out' \<le> 48)"
  using assms
proof (induction "length buf - i" arbitrary: i out)
  case 0
  then show ?case by (subst (asm) raw_loop_bytes.simps) simp
next
  case (Suc n)
  then have i: "i < length buf" by simp
  let ?v = "buf ! i sdiv UIRT2_UNIT"
  have nonneg: "0 \<le> ?v" using Suc.prems(2) i by (simp add: sdiv_unit_nonneg)
  obtain o1 k where r: "raw_value ?v out 0 = Inr (o1, k)" "raw_loop_bytes buf (length buf + 2 * k) (Suc i) o1 = Some (Inr out')"
    using Suc.prems(1) i by (subst (asm) raw_loop_bytes.simps) (auto split: sum.splits)
  have k: "k = 0" using raw_loop_longer [of "Suc i" buf "length buf + 2 * k" o1 out'] r(2) i by (cases k) auto
  then have short: "?v \<le> 255" using raw_value_long [OF _ r(1)] by (meson gr_implies_not0 leI)
  have o1: "o1 = out @ in_units [buf ! i] \<and> (length out \<le> 48 \<longrightarrow> length o1 \<le> 48)"
    using r(1) raw_value_short [OF nonneg short, of out 0] nonneg by (auto split: if_splits)
  have n: "n = length buf - Suc i" using Suc.hyps(2) by simp
  have "out' = o1 @ in_units (drop (Suc i) buf) \<and> (\<forall>x\<in>set (drop (Suc i) buf). x sdiv UIRT2_UNIT \<le> 255) \<and>
    (length o1 \<le> 48 \<longrightarrow> length out' \<le> 48)"
    by (rule Suc.hyps(1) [OF n _ Suc.prems(2)]) (use r(2) k in simp)
  moreover have "drop i buf = buf ! i # drop (Suc i) buf" using i by (simp add: Cons_nth_drop_Suc)
  ultimately show ?case using o1 short by auto
qed

section \<open>What a command puts on the line\<close>

lemma readagain_sent: "readagain n d = Some (bs, d') \<Longrightarrow> u_sent d' = u_sent d"
  by (auto simp: readagain_def)

lemma mywaitfordata_sent: "mywaitfordata t d = (ready, d') \<Longrightarrow> u_sent d' = u_sent d"
  by (auto simp: mywaitfordata_def split: prod.splits)

lemma readflush_sent: "uirt2_readflush t d = Some d' \<Longrightarrow> u_sent d' = u_sent d"
proof (induction t d rule: uirt2_readflush.induct)
  case (1 t d)
  obtain ready d1 where w: "mywaitfordata t d = (ready, d1)" by fastforce
  show ?case
  proof (cases ready)
    case False
    then show ?thesis using "1.prems" w mywaitfordata_sent [OF w] by (simp add: uirt2_readflush.simps [of t d])
  next
    case True
    then obtain bs d2 where r: "readagain 1 d1 = Some (bs, d2)"
      using "1.prems" w by (cases "readagain 1 d1") (auto simp: uirt2_readflush.simps [of t d])
    have s: "u_sent d2 = u_sent d" using readagain_sent [OF r] mywaitfordata_sent [OF w] by simp
    show ?thesis
    proof (cases "bs = []")
      case True
      then show ?thesis using "1.prems" w r s \<open>ready\<close> by (simp add: uirt2_readflush.simps [of t d])
    next
      case False
      then have "uirt2_readflush t d2 = Some d'"
        using "1.prems" w r \<open>ready\<close> by (simp add: uirt2_readflush.simps [of t d])
      then show ?thesis using "1.IH" [of True d1 "(bs, d2)" bs d2] w r s \<open>ready\<close> False by simp
    qed
  qed
qed

lemma pre_command_delay_sent [simp]: "u_sent (pre_command_delay d) = u_sent d"
  by (simp add: pre_command_delay_def Let_def)

lemma uirt2_write_sent:
  "uirt2_write bs d = (ok, d') \<Longrightarrow> u_sent d' = (if ok then u_sent d @ [bs] else u_sent d)"
  by (auto simp: uirt2_write_def split: list.splits)

lemma command_ext_sent:
  assumes "command_ext bs n d = Some (out, d')"
  shows "u_sent d' = u_sent d @ [bs @ [checksum bs]] \<or> out = None \<and> u_sent d' = u_sent d"
proof -
  obtain d1 where f: "uirt2_readflush 0 (pre_command_delay d) = Some d1"
    using assms by (cases "uirt2_readflush 0 (pre_command_delay d)") (simp_all add: command_ext_def)
  obtain ok d2 where w: "uirt2_write (bs @ [checksum bs]) d1 = (ok, d2)" by fastforce
  obtain ready d3 where m: "mywaitfordata 1000000 d2 = (ready, d3)" by fastforce
  have s1: "u_sent d1 = u_sent d" using readflush_sent [OF f] by simp
  have s2: "u_sent d2 = (if ok then u_sent d @ [bs @ [checksum bs]] else u_sent d)"
    using uirt2_write_sent [OF w] s1 by simp
  have s3: "u_sent d3 = u_sent d2" by (rule mywaitfordata_sent [OF m])
  show ?thesis
  proof (cases "ok \<and> ready")
    case True
    then obtain bs' d4 where r: "readagain n d3 = Some (bs', d4)"
      using assms f w m by (cases "readagain n d3") (auto simp: command_ext_def)
    then have "d' = d4" using assms f w m True by (simp add: command_ext_def split: if_splits)
    then show ?thesis using readagain_sent [OF r] s3 s2 True by simp
  next
    case False
    then show ?thesis using assms f w m s2 s3 by (auto simp: command_ext_def split: if_splits)
  qed
qed

lemma command_sent:
  assumes "command bs d = Some (res, d')"
  shows "u_sent d' = u_sent d @ [bs @ [checksum bs]] \<or> res = - 1 \<and> u_sent d' = u_sent d"
  using assms command_ext_sent by (fastforce simp: command_def bind_eq_Some_conv)

lemma checksum_fold: "fold (\<lambda>b c. c - b) bs a = (a - sum_list bs :: byte)"
  by (induction bs arbitrary: a) auto

text \<open>The sum of a command and its checksum is 0, which is what an answer is checked for, too.\<close>

lemma checksum_closes: "checksum (bs @ [checksum bs]) = 0"
  by (simp add: checksum_def checksum_fold)

definition raw_packet :: "ir_remote \<Rightarrow> lirc_t list \<Rightarrow> byte list" where
  "raw_packet r buf =
     [UIRT2_DOTXRAW, word_of_nat (length (in_units buf) + 4), 0, 0] @ in_units buf @ [uirt2_calc_freq (freq r) + 1]"

theorem raw_packet_spells:
  assumes "uirt2_send_mode2_raw r buf d = Some (res, d')" "\<forall>x\<in>set buf. 0 \<le> x"
  shows "u_sent d' = u_sent d \<or>
    (\<forall>x\<in>set buf. x sdiv UIRT2_UNIT \<le> 255) \<and> length (in_units buf) \<le> 48 \<and>
    u_sent d' = u_sent d @ [raw_packet r buf @ [checksum (raw_packet r buf)]]"
proof -
  obtain o1 where o1: "raw_loop_bytes buf (length buf) 0 [] = Some o1"
    using assms(1) by (cases "raw_loop_bytes buf (length buf) 0 []") (simp_all add: uirt2_send_mode2_raw_def)
  show ?thesis
  proof (cases o1)
    case (Inl e)
    then show ?thesis using assms(1) o1 by (simp add: uirt2_send_mode2_raw_def)
  next
    case (Inr out)
    have spell: "out = in_units buf" "\<forall>x\<in>set buf. x sdiv UIRT2_UNIT \<le> 255" "length out \<le> 48"
      using raw_loop_spells [of buf 0 "[]" out] o1 Inr assms(2) by (simp only: drop_0 append_Nil list.size; blast)+
    obtain res' where "command (raw_packet r buf) d = Some (res', d')"
      using assms(1) o1 Inr spell(1)
      by (cases "command (raw_packet r buf) d")
         (auto simp: uirt2_send_mode2_raw_def uirt2_send_raw_def raw_packet_def add.commute [of 4])
    from command_sent [OF this] spell show ?thesis by auto
  qed
qed

section \<open>The compressed form\<close>

definition close_to :: "hardware \<Rightarrow> ir_remote \<Rightarrow> int \<Rightarrow> lirc_t \<Rightarrow> int \<Rightarrow> bool" where
  "close_to h r unit x t \<longleftrightarrow> t = x sdiv unit \<or> expect h r x (i32 (t * unit))"

text \<open>The lengths that the bytes stand for, in units.\<close>

definition struct_lengths :: "remstruct1_data \<Rightarrow> int list" where
  "struct_lengths m = uint (rs_Hdr1 m) # uint (rs_Hdr0 m) # map (\<lambda>i. uint (bit_units m i)) [0..<unat (rs_Bits m)]"

lemma sdiv_units_pos: "0 < (u::int) \<Longrightarrow> u \<le> x \<Longrightarrow> x sdiv u = x div u \<and> 0 < x div u"
  by (simp add: signed_divide_int_def pos_imp_zdiv_pos_iff)

lemma calc_data_bit_found:
  assumes "calc_data_bit h r x u t = Some (b, t')" "0 < x sdiv u"
  shows "b < length t \<and> length t' = length t \<and> close_to h r u x (t' ! b) \<and> t' ! b \<noteq> 0 \<and>
    (\<forall>k. t ! k \<noteq> 0 \<longrightarrow> k < length t \<longrightarrow> t' ! k = t ! k) \<and>
    (\<forall>v\<in>set t'. v \<in> set t \<or> v = x sdiv u)"
  using assms
proof (induction h r x u t arbitrary: b t' rule: calc_data_bit.induct)
  case (2 h r x u t ts)
  show ?case
  proof (cases "t = 0 \<or> expect h r x (i32 (t * u))")
    case True
    then show ?thesis using "2.prems" by (auto simp: close_to_def nth_Cons split: if_splits nat.splits)
  next
    case False
    then obtain b1 t1 where r: "calc_data_bit h r x u ts = Some (b1, t1)" "b = Suc b1" "t' = t # t1"
      using "2.prems" by auto
    show ?thesis using "2.IH" [OF _ _ r(1) "2.prems"(2)] False r(2,3) by (auto simp: nth_Cons split: nat.splits)
  qed
qed simp

lemma set_data_bit_length [simp]: "length (set_data_bit i b ds) = length ds"
  by (simp add: set_data_bit_def Let_def)

lemma set_data_bit_bit:
  assumes "i div 8 < length ds"
  shows "bit (set_data_bit i b ds ! (j div 8)) (j mod 8) = (if j = i then b else bit (ds ! (j div 8)) (j mod 8))"
proof (cases "j div 8 = i div 8")
  case True
  then have "j = i \<longleftrightarrow> j mod 8 = i mod 8" by (metis div_mult_mod_eq)
  then show ?thesis using assms True
    by (auto simp: set_data_bit_def Let_def bit_or_iff bit_and_iff bit_not_iff bit_exp_iff possible_bit_def)
next
  case False
  then show ?thesis using assms by (auto simp: set_data_bit_def Let_def)
qed

definition table_of :: "struct_state \<Rightarrow> nat \<Rightarrow> int list" where
  "table_of s i = (if i mod 2 = 1 then ss_off s else ss_on s)"

definition note_bit :: "nat \<Rightarrow> nat \<Rightarrow> int list \<Rightarrow> struct_state \<Rightarrow> struct_state" where
  "note_bit i b table s =
     (let s = (if i mod 2 = 1 then s\<lparr>ss_off := table\<rparr> else s\<lparr>ss_on := table\<rparr>)
      in s\<lparr>ss_rem := (ss_rem s)\<lparr>rs_dat := set_data_bit (i - 2) (b \<noteq> 0) (rs_dat (ss_rem s))\<rparr>, ss_bits := Suc (ss_bits s)\<rparr>)"

text \<open>The first \<open>i\<close> lengths of the signal are spelled.\<close>

definition well_sized :: "lirc_t list \<Rightarrow> int \<Rightarrow> nat \<Rightarrow> struct_state \<Rightarrow> bool" where
  "well_sized buf u i s \<longleftrightarrow>
     2 \<le> i \<and> i \<le> 131 \<and> ss_bits s = i - 2 \<and> length (ss_on s) = 2 \<and> length (ss_off s) = 2 \<and>
     length (rs_dat (ss_rem s)) = 17 \<and> (\<forall>v\<in>set (ss_on s) \<union> set (ss_off s). 0 \<le> v \<and> v \<le> 255) \<and>
     uint (rs_Hdr1 (ss_rem s)) = buf ! 0 sdiv u \<and> uint (rs_Hdr0 (ss_rem s)) = buf ! 1 sdiv u"

definition spelled :: "hardware \<Rightarrow> ir_remote \<Rightarrow> int \<Rightarrow> lirc_t list \<Rightarrow> struct_state \<Rightarrow> nat \<Rightarrow> bool" where
  "spelled h r u buf s j \<longleftrightarrow>
     (let t = table_of s j ! (if struct_bit (ss_rem s) j then 1 else 0) in t \<noteq> 0 \<and> close_to h r u (buf ! (j + 2)) t)"

lemma table_of_even [simp]: "2 \<le> i \<Longrightarrow> table_of s (i - 2) = table_of s i"
  by (cases "even i") (auto simp: table_of_def mod2_eq_if)

lemma note_bit_fields [simp]:
  "ss_bits (note_bit i b t s) = Suc (ss_bits s)"
  "rs_dat (ss_rem (note_bit i b t s)) = set_data_bit (i - 2) (b \<noteq> 0) (rs_dat (ss_rem s))"
  "rs_Hdr1 (ss_rem (note_bit i b t s)) = rs_Hdr1 (ss_rem s)"
  "rs_Hdr0 (ss_rem (note_bit i b t s)) = rs_Hdr0 (ss_rem s)"
  "ss_on (note_bit i b t s) = (if i mod 2 = 1 then ss_on s else t)"
  "ss_off (note_bit i b t s) = (if i mod 2 = 1 then t else ss_off s)"
  by (simp_all add: note_bit_def Let_def)

lemma table_of_note_bit: "table_of (note_bit i b t s) j = (if i mod 2 = j mod 2 then t else table_of s j)"
  by (auto simp: table_of_def mod2_eq_if)

lemma note_bit_sized:
  assumes "well_sized buf u i s" "i \<le> 130" "calc_data_bit h r x u (table_of s i) = Some (b, t)"
    "0 < x sdiv u" "x sdiv u \<le> 255"
  shows "well_sized buf u (Suc i) (note_bit i b t s)"
proof -
  have "length t = 2" "\<forall>v\<in>set t. 0 \<le> v \<and> v \<le> 255"
    using calc_data_bit_found [OF assms(3,4)] assms(1,4,5)
    by (auto simp: well_sized_def table_of_def split: if_splits)
  then show ?thesis using assms(1,2) by (auto simp: well_sized_def)
qed

lemma note_bit_spelled:
  assumes "well_sized buf u i s" "i \<le> 130" "calc_data_bit h r (buf ! i) u (table_of s i) = Some (b, t)"
    "0 < buf ! i sdiv u" "\<forall>j < i - 2. spelled h r u buf s j" "j < Suc i - 2"
  shows "spelled h r u buf (note_bit i b t s) j"
proof -
  note found = calc_data_bit_found [OF assms(3,4)]
  have sized: "(i - 2) div 8 < length (rs_dat (ss_rem s))" "2 \<le> i" and len: "length (table_of s k) = 2" for k
    using assms(1,2) by (auto simp: well_sized_def table_of_def)
  have bit: "struct_bit (ss_rem (note_bit i b t s)) k = (if k = i - 2 then b \<noteq> 0 else struct_bit (ss_rem s) k)" for k
    using set_data_bit_bit [OF sized(1)] by (simp add: struct_bit_def)
  show ?thesis
  proof (cases "j = i - 2")
    case True
    have b: "b = 0 \<or> b = 1" using found len [of i] by (elim conjE) arith
    have t: "t ! b \<noteq> 0" "close_to h r u (buf ! i) (t ! b)" using found by blast+
    have j2: "j + 2 = i" using True sized(2) by simp
    have par: "i mod 2 = j mod 2" by (simp add: j2 [symmetric])
    have e: "table_of (note_bit i b t s) j = t" by (simp add: table_of_note_bit par)
    have f: "struct_bit (ss_rem (note_bit i b t s)) j = (b \<noteq> 0)" using bit [of j] True by simp
    have "t ! (if b \<noteq> 0 then 1 else 0) = t ! b" using b by (elim disjE) simp_all
    then show ?thesis using t unfolding spelled_def Let_def e f j2 by (simp only: simp_thms)
  next
    case False
    then have j: "j < i - 2" using assms(6) by simp
    let ?k = "if struct_bit (ss_rem s) j then 1 else 0 :: nat"
    have old: "table_of s j ! ?k \<noteq> 0" "close_to h r u (buf ! (j + 2)) (table_of s j ! ?k)"
      using assms(5) j by (simp_all add: spelled_def Let_def)
    have "i mod 2 = j mod 2 \<Longrightarrow> table_of s i = table_of s j" by (simp add: table_of_def)
    then have "i mod 2 = j mod 2 \<Longrightarrow> t ! ?k = table_of s j ! ?k"
      using found old(1) len [of i] by simp
    then have e: "table_of (note_bit i b t s) j ! ?k = table_of s j ! ?k" by (cases "i mod 2 = j mod 2") (simp_all only: table_of_note_bit if_True if_False simp_thms)
    have f: "struct_bit (ss_rem (note_bit i b t s)) j = struct_bit (ss_rem s) j" using bit [of j] False by simp
    show ?thesis using old unfolding spelled_def Let_def f e by (simp only: simp_thms)
  qed
qed

lemma struct_loop_spells:
  assumes "struct_loop h r u buf i s = Inr (n, s')" "well_sized buf u i s" "\<forall>j < i - 2. spelled h r u buf s j"
    "i \<le> length buf" "0 < u" "\<forall>x\<in>set buf. u \<le> x"
  shows "\<exists>k. well_sized buf u k s' \<and> (\<forall>j < k - 2. spelled h r u buf s' j) \<and>
    (n = 1 \<and> k = length buf \<or> k < length buf \<and> repeated_parts r buf k = Some n \<and> buf ! k sdiv u \<le> 255)"
  using assms(1-4)
proof (induction "length buf - i" arbitrary: i s)
  case 0
  then show ?case by (subst (asm) struct_loop.simps) auto
next
  case (Suc m)
  then have i: "i < length buf" "2 \<le> i" by (simp_all add: well_sized_def)
  have pos: "0 < buf ! i sdiv u" using sdiv_units_pos assms(5,6) i(1) by simp
  have short: "\<not> buf ! i sdiv u > 255"
    using Suc.prems(1) i by (subst (asm) struct_loop.simps) (auto simp: Let_def)
  show ?case
  proof (cases "calc_data_bit h r (buf ! i) u (table_of s i)")
    case None
    then have "repeated_parts r buf i = Some n \<and> s' = s"
      using Suc.prems(1) i short
      by (subst (asm) struct_loop.simps) (auto simp: Let_def table_of_def split: option.splits)
    then show ?thesis using Suc.prems i short by (auto simp: not_less)
  next
    case (Some bt)
    obtain b t where bt: "calc_data_bit h r (buf ! i) u (table_of s i) = Some (b, t)" using Some by (cases bt) simp
    have i2: "i \<noteq> 0" "i \<noteq> 1" using i by simp_all
    have small: "\<not> int i - 2 > UIRT2_MAX_BITS"
    proof
      assume "int i - 2 > UIRT2_MAX_BITS"
      then show False
        using Suc.prems(1) i i2 short bt by (subst (asm) struct_loop.simps) (simp add: Let_def table_of_def)
    qed
    have step: "struct_loop h r u buf (Suc i) (note_bit i b t s) = Inr (n, s')"
      using Suc.prems(1) i i2 short bt small
      by (subst (asm) struct_loop.simps) (simp add: Let_def table_of_def note_bit_def)
    have "i \<le> 130" using small by (simp add: UIRT2_MAX_BITS_def)
    note next_sized = note_bit_sized [OF Suc.prems(2) this bt pos]
    have sp: "\<forall>j < Suc i - 2. spelled h r u buf (note_bit i b t s) j"
      using note_bit_spelled [OF Suc.prems(2) \<open>i \<le> 130\<close> bt pos Suc.prems(3)] by blast
    show ?thesis using Suc.hyps(1) [OF _ step next_sized sp] Suc.hyps(2) short i by auto
  qed
qed

text \<open>The start: two lengths for the header.\<close>

lemma struct_loop_start:
  assumes "struct_loop h r u buf 0 struct_state0 = Inr (n, s')" "2 \<le> length buf" "0 < u" "\<forall>x\<in>set buf. u \<le> x"
  obtains s where "struct_loop h r u buf 2 s = Inr (n, s')" "well_sized buf u 2 s"
proof -
  define s1 where "s1 = struct_state0\<lparr>ss_rem := (ss_rem struct_state0)\<lparr>rs_Hdr1 := word_of_int (buf ! 0 sdiv u)\<rparr>\<rparr>"
  define s2 where "s2 = s1\<lparr>ss_rem := (ss_rem s1)\<lparr>rs_Hdr0 := word_of_int (buf ! 1 sdiv u)\<rparr>\<rparr>"
  have len: "0 < length buf" "1 < length buf" using assms(2) by linarith+
  have a: "struct_loop h r u buf 1 s1 = Inr (n, s') \<and> \<not> buf ! 0 sdiv u > 255"
    using assms(1) len by (subst (asm) struct_loop.simps) (simp add: Let_def s1_def split: if_splits)
  then have b: "struct_loop h r u buf 2 s2 = Inr (n, s') \<and> \<not> buf ! 1 sdiv u > 255"
    using len by (elim conjE) (subst (asm) struct_loop.simps, simp add: Let_def s2_def split: if_splits)
  have pos: "0 < buf ! 0 sdiv u" "0 < buf ! 1 sdiv u" using sdiv_units_pos assms(3,4) len by simp_all
  have "uint (word_of_int v :: byte) = v" if "0 < v" "\<not> v > 255" for v
    using that by (simp add: take_bit_int_eq_self uint_word_of_int_eq)
  then have "well_sized buf u 2 s2"
    using a b pos by (simp add: well_sized_def s2_def s1_def struct_state0_def)
  then show ?thesis using that b by blast
qed

lemma concat_of_parts:
  assumes "length xs = n * m" "\<forall>j < n. take m (drop (j * m) xs) = p"
  shows "xs = concat (replicate n p)"
  using assms
proof (induction n arbitrary: xs)
  case (Suc n)
  have "xs = take m xs @ drop m xs" by simp
  moreover have "take m xs = p" using Suc.prems(2) by force
  moreover have "take m (drop (j * m) (drop m xs)) = p" if "j < n" for j
    using Suc.prems(2) [rule_format, of "Suc j"] that by (simp add: add.commute)
  then have "drop m xs = concat (replicate n p)" using Suc.IH [of "drop m xs"] Suc.prems(1) by simp
  ultimately show ?case by simp
qed simp

lemma repeated_parts_concat:
  assumes "repeated_parts r buf k = Some n" "k < length buf"
  shows "1 < n \<and> buf ! k = min_remaining_gap r \<and> buf @ [buf ! k] = concat (replicate (nat n) (take k buf @ [buf ! k]))"
proof -
  define part where "part = Suc k"
  define m where "m = (length buf + 1) div part"
  have gap: "buf ! k = min_remaining_gap r" and dvd: "(length buf + 1) mod part = 0" and n: "n = int m"
    and all: "list_all (\<lambda>j. let k = (if j + 1 = m then part - 1 else part)
                in take k buf = take k (drop (j * part) buf)) [1..<m]"
    using assms(1) unfolding repeated_parts_def by (auto simp: Let_def part_def m_def list_all_iff split: if_splits)
  have len: "length buf + 1 = m * part" using dvd m_def by (metis add.right_neutral div_mult_mod_eq)
  have m2: "1 < m"
  proof (rule ccontr)
    assume "\<not> 1 < m"
    then have "m * part \<le> part" by (cases m) auto
    then show False using len assms(2) by (simp add: part_def)
  qed
  have head: "take part (buf @ [g]) = take k buf @ [buf ! k]" for g
    using assms(2) by (simp add: part_def take_Suc_conv_app_nth)
  have "take part (drop (j * part) (buf @ [buf ! k])) = take k buf @ [buf ! k]" if j: "j < m" for j
  proof (cases "j = 0")
    case True
    then show ?thesis using head by simp
  next
    case False
    then have mem: "j \<in> set [1..<m]" using j by simp
    show ?thesis
    proof (cases "Suc j = m")
      case True
      have l: "length buf = j * part + k" using len True [symmetric] by (simp add: part_def)
      have "take k buf = take k (drop (j * part) buf)" using bspec [OF all [unfolded list_all_iff] mem] True by (simp add: Let_def part_def)
      then show ?thesis using l by (simp add: part_def)
    next
      case False
      then have "(j + 2) * part \<le> m * part" using j by (intro mult_le_mono1) simp
      then have l: "j * part + part \<le> length buf" using len by (simp add: part_def)
      have "take part buf = take part (drop (j * part) buf)" using bspec [OF all [unfolded list_all_iff] mem] False by (simp add: Let_def)
      then show ?thesis using l head [of "buf ! k"] assms(2) by (simp add: part_def)
    qed
  qed
  then have "buf @ [buf ! k] = concat (replicate m (take k buf @ [buf ! k]))"
    using concat_of_parts [of "buf @ [buf ! k]" m part] len by simp
  then show ?thesis using m2 n gap by simp
qed

lemma finish_struct_lengths:
  assumes "well_sized buf u k s" "\<forall>j < k - 2. spelled h r u buf s j" "k \<le> length buf"
  shows "list_all2 (close_to h r u) (take k buf) (struct_lengths (finish_struct r u s))"
proof -
  let ?m = "finish_struct r u s"
  have sz: "2 \<le> k" "k \<le> 131" "ss_bits s = k - 2" using assms(1) by (simp_all add: well_sized_def)
  have bits: "unat (rs_Bits ?m) = k - 2"
  proof -
    have "rs_Bits ?m = word_of_nat (k - 2)" by (simp add: finish_struct_def Let_def sz(3))
    then show ?thesis using sz(2) by (simp only: unat_of_nat) simp
  qed
  have byte: "uint (word_of_int v :: byte) = v" if "0 \<le> v" "v \<le> 255" for v
    using that by (simp add: take_bit_int_eq_self uint_word_of_int_eq)
  have mem: "0 \<le> ss_on s ! b \<and> ss_on s ! b \<le> 255" "0 \<le> ss_off s ! b \<and> ss_off s ! b \<le> 255" if "b < 2" for b
    using assms(1) that by (auto simp: well_sized_def)
  have sbit: "struct_bit ?m j = struct_bit (ss_rem s) j" for j
    by (simp add: struct_bit_def finish_struct_def Let_def)
  have unit: "uint (bit_units ?m j) = table_of s j ! (if struct_bit (ss_rem s) j then 1 else 0)" for j
    using mem [of 0] mem [of 1]
    by (simp add: bit_units_def sbit table_of_def byte) (simp add: finish_struct_def Let_def byte)
  have hdr: "uint (rs_Hdr1 ?m) = buf ! 0 sdiv u" "uint (rs_Hdr0 ?m) = buf ! 1 sdiv u"
    using assms(1) by (simp_all add: well_sized_def finish_struct_def Let_def)
  have "close_to h r u (buf ! (j + 2)) (uint (bit_units ?m j))" if "j < k - 2" for j
    using assms(2) that by (simp add: spelled_def unit Let_def)
  then have "list_all2 (close_to h r u) (take (k - 2) (drop 2 buf)) (map (\<lambda>i. uint (bit_units ?m i)) [0..<k - 2])"
    using assms(3) sz by (simp add: list_all2_conv_all_nth add.commute)
  moreover have "take k buf = buf ! 0 # buf ! 1 # take (k - 2) (drop 2 buf)"
    using assms(3) sz by (cases buf; cases "tl buf"; cases k; cases "k - 1") auto
  ultimately show ?thesis by (simp add: struct_lengths_def bits hdr close_to_def)
qed

theorem struct_spells_signal:
  assumes "struct_loop h r u buf 0 struct_state0 = Inr (n, s)" "2 \<le> length buf" "0 < u" "\<forall>x\<in>set buf. u \<le> x"
  shows "\<exists>k g. list_all2 (close_to h r u) (take k buf) (struct_lengths (finish_struct r u s)) \<and>
    buf @ [g] = concat (replicate (nat n) (take k buf @ [g])) \<and> (n = 1 \<or> 1 < n \<and> g = min_remaining_gap r \<and> g sdiv u \<le> 255)"
proof -
  obtain s2 where s2: "struct_loop h r u buf 2 s2 = Inr (n, s)" "well_sized buf u 2 s2"
    using struct_loop_start [OF assms] .
  have "\<forall>j < 2 - 2. spelled h r u buf s2 j" by simp
  then obtain k where k: "well_sized buf u k s" "\<forall>j < k - 2. spelled h r u buf s j"
    "n = 1 \<and> k = length buf \<or> k < length buf \<and> repeated_parts r buf k = Some n \<and> buf ! k sdiv u \<le> 255"
    using struct_loop_spells [OF s2 _ assms(2-4)] by blast
  then have "list_all2 (close_to h r u) (take k buf) (struct_lengths (finish_struct r u s))"
    by (intro finish_struct_lengths) auto
  moreover have "\<exists>g. buf @ [g] = concat (replicate (nat n) (take k buf @ [g])) \<and> (n = 1 \<or> 1 < n \<and> g = min_remaining_gap r \<and> g sdiv u \<le> 255)"
    using k(3) repeated_parts_concat [of r buf k n] by auto
  ultimately show ?thesis by blast
qed

text \<open>A device that has told its version is not asked again.\<close>

lemma getversion_known: "u_version d \<noteq> 0 \<Longrightarrow> uirt2_getversion d = Some (Some (u_version d), d)"
  by (simp add: uirt2_getversion_def)

definition struct_packet :: "u32 \<Rightarrow> int \<Rightarrow> remstruct1_data \<Rightarrow> byte list" where
  "struct_packet f n m = [0x37, 29, word_of_int (carrier_period (sint f)), word_of_int n] @ struct_bytes m"

lemma send_struct1_sent:
  assumes "uirt2_send_struct1 f n m d = Some (res, d')" "u_version d \<ge> 0x0905"
  shows "u_sent d' = u_sent d \<or> u_sent d' = u_sent d @ [struct_packet f n m @ [checksum (struct_packet f n m)]]"
proof -
  obtain r1 d1 where c: "command (struct_packet f n m) d = Some (r1, d1)"
    using assms by (cases "command (struct_packet f n m) d") (auto simp: uirt2_send_struct1_def struct_packet_def)
  then have "u_sent d' = u_sent d1"
    using assms by (auto simp: uirt2_send_struct1_def struct_packet_def Let_def)
  then show ?thesis using command_sent [OF c] by auto
qed

definition carrier_of :: "ir_remote \<Rightarrow> u32" where
  "carrier_of r = (if freq r = 0 then DEFAULT_FREQ else freq r)"

text \<open>The pause between repetitions, in units, as it is written into a packet.\<close>

definition packet_gap :: "remstruct1_data \<Rightarrow> int" where
  "packet_gap m = 256 * uint (rs_ISDlyHi m) + uint (rs_ISDlyLo m)"

lemma finish_struct_gap:
  assumes "0 \<le> min_remaining_gap r" "0 < u"
  shows "packet_gap (finish_struct r u s) = min_remaining_gap r sdiv u mod 65536"
proof -
  let ?g = "min_remaining_gap r sdiv u"
  have "0 \<le> ?g" using assms by (simp add: signed_divide_int_def sgn_if pos_imp_zdiv_nonneg_iff)
  then have "?g sdiv 256 = ?g div 256" by (simp add: signed_divide_int_def sgn_if)
  then have "packet_gap (finish_struct r u s) = 256 * (?g div 256 mod 256) + ?g mod 256"
    by (simp add: packet_gap_def finish_struct_def Let_def uint_word_of_int)
  also have "\<dots> = ?g mod (256 * 256)" by (simp only: zmod_zmult2_eq)
  finally show ?thesis by simp
qed

text \<open>C24: What a UIRT2 with firmware 9.5 or later is sent in the compressed form spells a signal of at least two
  lengths, none of them shorter than a unit: the lengths of the
  packet are those of the signal in units, or another length that the tolerance of the remote takes for the
  same, and the signal is the spelled part as often as the packet says, each time with the gap of the
  remote, which is at most 255 units long, between them. The pause in the packet is this gap in units, cut to
  16 bits. Otherwise nothing is sent.\<close>

theorem compressed_packet_spells:
  assumes "uirt2_send_mode2_struct1 h r buf d = Some (res, d')" "u_version d \<ge> 0x0905"
    "u = struct_unit (u_version d) (carrier_of r)" "0 < u" "2 \<le> length buf" "\<forall>x\<in>set buf. u \<le> x"
    "0 \<le> min_remaining_gap r"
  shows "u_sent d' = u_sent d \<or>
    (\<exists>m n k g. u_sent d' = u_sent d @ [struct_packet (carrier_of r) n m @ [checksum (struct_packet (carrier_of r) n m)]] \<and>
      list_all2 (close_to h r u) (take k buf) (struct_lengths m) \<and>
      packet_gap m = min_remaining_gap r sdiv u mod 65536 \<and>
      buf @ [g] = concat (replicate (nat n) (take k buf @ [g])) \<and> (n = 1 \<or> 1 < n \<and> g = min_remaining_gap r \<and> g sdiv u \<le> 255))"
proof (cases "struct_loop h r u buf 0 struct_state0")
  case (Inl e)
  then have "d' = d"
    using assms(1-4) by (simp add: uirt2_send_mode2_struct1_def getversion_known carrier_of_def Let_def)
  then show ?thesis by simp
next
  case (Inr ns)
  obtain n s where ns: "struct_loop h r u buf 0 struct_state0 = Inr (n, s)" using Inr by (cases ns) simp
  then have "uirt2_send_struct1 (carrier_of r) n (finish_struct r u s) d = Some (res, d')"
    using assms(1-4) by (simp add: uirt2_send_mode2_struct1_def getversion_known carrier_of_def Let_def)
  then show ?thesis
    using send_struct1_sent [OF _ assms(2)] struct_spells_signal [OF ns assms(5,4,6)]
      finish_struct_gap [OF assms(7,4)] by blast
qed

text \<open>A length below a unit leaves its entry of the table empty, and a later length takes it: the pulse of 40
  microseconds is sent as one of 520.\<close>

lemma short_pulse_sent_long:
  "(case struct_loop demo_hw demo_remote 52 [9000, 4500, 40, 560, 560] 0 struct_state0 of
      Inr (n, s) \<Rightarrow> struct_lengths (finish_struct demo_remote 52 s) = [173, 86, 10, 10, 10]
    | Inl _ \<Rightarrow> False)"
  by code_simp

text \<open>A signal of a header and three bits through a device with firmware 9.5; the second bit is the longer one.\<close>

definition demo_uirt2 :: uirt2 where
  "demo_uirt2 = \<lparr>u_mode = UIRT2_MODE_RAW, u_version = 0x0905, u_pre_delay = timeval0, u_pre_time = timeval0,
     u_new_signal = True, u_pulse = False, u_line = [Pause 1000, Byte 0x21], u_writes = [], u_sent = [],
     u_clock = (\<lambda>_. timeval0), u_ticks = 0, u_slept = []\<rparr>"

definition demo_lengths :: "lirc_t list" where
  "demo_lengths = [9000, 4500, 560, 560, 580, 1690, 560]"

definition device_sent :: "byte list list \<Rightarrow> (int \<times> uirt2) option \<Rightarrow> bool" where
  "device_sent bss r = (case r of Some (res, d) \<Rightarrow> u_sent d = bss | None \<Rightarrow> False)"

lemma device_sentD: "device_sent bss r \<Longrightarrow> \<exists>res d. r = Some (res, d) \<and> u_sent d = bss"
  by (simp add: device_sent_def split: option.splits prod.splits)

text \<open>The write fails, and 1 is returned.\<close>

lemma lost_packet_is_success:
  "device_sent [] (uirt2_send_mode2_raw demo_remote [600, 300] (demo_uirt2\<lparr>u_writes := [False]\<rparr>)) \<and>
   map_option fst (uirt2_send_mode2_raw demo_remote [600, 300] (demo_uirt2\<lparr>u_writes := [False]\<rparr>)) = Some 1"
  by code_simp

definition gap_remote :: ir_remote where
  "gap_remote = demo_remote\<lparr>min_remaining_gap := 40000\<rparr>"

lemma demo_uirt2_sends: "device_sent [[55, 29, 66, 1, 3, 1, 5, 173, 86, 10, 32, 10, 0, 8, 0, 0, 0, 0, 0, 0, 0, 0, 0, 0, 0, 0, 0, 0, 0, 0, 33]]
    (uirt2_send_mode2_struct1 demo_hw gap_remote demo_lengths demo_uirt2)"
  by code_simp

theorem compressed_packet_spells_witness:
  "\<exists>res d' m n k g. uirt2_send_mode2_struct1 demo_hw gap_remote demo_lengths demo_uirt2 = Some (res, d') \<and>
      u_sent d' = [struct_packet (carrier_of gap_remote) n m @ [checksum (struct_packet (carrier_of gap_remote) n m)]] \<and>
      list_all2 (close_to demo_hw gap_remote 52) (take k demo_lengths) (struct_lengths m) \<and>
      packet_gap m = 769 \<and>
      demo_lengths @ [g] = concat (replicate (nat n) (take k demo_lengths @ [g]))"
proof -
  obtain res d' where d: "uirt2_send_mode2_struct1 demo_hw gap_remote demo_lengths demo_uirt2 = Some (res, d')" "u_sent d' \<noteq> []"
    using device_sentD [OF demo_uirt2_sends] by auto
  have v: "u_version demo_uirt2 \<ge> 0x0905" "u_sent demo_uirt2 = []" by (simp_all add: demo_uirt2_def)
  have u: "52 = struct_unit (u_version demo_uirt2) (carrier_of gap_remote)" by code_simp
  have l: "2 \<le> length demo_lengths" "\<forall>x\<in>set demo_lengths. 52 \<le> x" by (simp_all add: demo_lengths_def)
  have g: "min_remaining_gap gap_remote sdiv 52 mod 65536 = 769" by code_simp
  have "(0::int) < 52" "0 \<le> min_remaining_gap gap_remote" by code_simp+
  from compressed_packet_spells [OF d(1) v(1) u this(1) l this(2)] obtain m n k g where
    "u_sent d' = [struct_packet (carrier_of gap_remote) n m @ [checksum (struct_packet (carrier_of gap_remote) n m)]]"
    "list_all2 (close_to demo_hw gap_remote 52) (take k demo_lengths) (struct_lengths m)"
    "packet_gap m = 769"
    "demo_lengths @ [g] = concat (replicate (nat n) (take k demo_lengths @ [g]))"
    unfolding v(2) append_Nil g using d(2) by metis
  with d(1) show ?thesis by (intro exI conjI)
qed

section \<open>Reception\<close>

text \<open>The bytes behind the first gap are pulses and spaces in turn.\<close>

fun heard_lengths :: "bool \<Rightarrow> byte list \<Rightarrow> lirc_t list" where
  "heard_lengths pulse [] = []"
| "heard_lengths pulse (b # bs) =
     (let x = (if b = 0 then 1 else UIRT2_UNIT * uint b)
      in (if pulse then x OR PULSE_BIT else x) # heard_lengths (\<not> pulse) bs)"

primrec read_lengths :: "nat \<Rightarrow> lirc_t \<Rightarrow> uirt2 \<Rightarrow> (lirc_t list \<times> uirt2) option" where
  "read_lengths 0 t d = Some ([], d)"
| "read_lengths (Suc n) t d =
     do { (x, d) \<leftarrow> uirt2_read_raw t d; (xs, d) \<leftarrow> read_lengths n t d; Some (x # xs, d) }"

lemma readagain_byte: "u_line d = Byte b # es \<Longrightarrow> readagain (Suc 0) d = Some ([b], d\<lparr>u_line := es\<rparr>)"
  by (simp add: readagain_def)

lemma read_raw_marker:
  assumes "u_mode d = UIRT2_MODE_RAW" "u_line d = Byte 0xff # es"
  shows "uirt2_read_raw t d = uirt2_read_raw t (d\<lparr>u_line := es, u_new_signal := True\<rparr>)"
  using assms by (simp add: uirt2_read_raw_def uirt2_read_raw_loop.simps [of t d] readagain_byte)

lemma read_raw_gap:
  assumes "u_mode d = UIRT2_MODE_RAW" "u_line d = Byte hi # Byte lo # es" "hi \<noteq> 0xff" "u_new_signal d"
  shows "uirt2_read_raw t d =
    Some (UIRT2_UNIT * (256 * uint hi + uint lo), d\<lparr>u_line := es, u_pulse := True, u_new_signal := False\<rparr>)"
  using assms by (simp add: uirt2_read_raw_def uirt2_read_raw_loop.simps [of t d] readagain_byte)

lemma read_raw_length:
  assumes "u_mode d = UIRT2_MODE_RAW" "u_line d = Byte b # es" "b \<noteq> 0xff" "\<not> u_new_signal d"
  shows "uirt2_read_raw t d =
    Some (hd (heard_lengths (u_pulse d) [b]), d\<lparr>u_line := es, u_pulse := \<not> u_pulse d\<rparr>)"
  using assms
  by (simp add: uirt2_read_raw_def uirt2_read_raw_loop.simps [of t d] readagain_byte UIRT2_UNIT_def Let_def
      uint_0_iff)

lemma read_lengths_rest:
  assumes "u_mode d = UIRT2_MODE_RAW" "u_line d = map Byte bs @ es" "0xff \<notin> set bs" "\<not> u_new_signal d"
  shows "\<exists>d'. read_lengths (length bs) t d = Some (heard_lengths (u_pulse d) bs, d') \<and> u_line d' = es"
  using assms
proof (induction bs arbitrary: d)
  case (Cons b bs)
  then show ?case
    using read_raw_length [of d b "map Byte bs @ es" t] Cons.IH [of "d\<lparr>u_line := map Byte bs @ es, u_pulse := \<not> u_pulse d\<rparr>"]
    by (auto simp: Let_def)
qed simp

text \<open>In raw mode the bytes behind a marker are read as the gap before the signal and then
  as its pulses and spaces in turn, in units of 50 microseconds, and nothing else is taken from the line.\<close>

theorem uirt2_hears_signal:
  assumes "u_mode d = UIRT2_MODE_RAW" "u_line d = map Byte (0xff # hi # lo # bs) @ es" "0xff \<notin> set (hi # bs)"
  shows "\<exists>d'. read_lengths (Suc (length bs)) t d =
    Some (UIRT2_UNIT * (256 * uint hi + uint lo) # heard_lengths True bs, d') \<and> u_line d' = es"
proof -
  let ?d = "d\<lparr>u_line := map Byte bs @ es, u_pulse := True, u_new_signal := False\<rparr>"
  have "uirt2_read_raw t d = Some (UIRT2_UNIT * (256 * uint hi + uint lo), ?d)"
    using read_raw_marker [of d "map Byte (hi # lo # bs) @ es" t]
      read_raw_gap [of "d\<lparr>u_line := map Byte (hi # lo # bs) @ es, u_new_signal := True\<rparr>" hi lo "map Byte bs @ es" t]
      assms by simp
  then show ?thesis using read_lengths_rest [of ?d bs es t] assms by auto
qed

theorem uirt2_hears_signal_witness:
  "\<exists>d'. read_lengths 4 0 (demo_uirt2\<lparr>u_line := map Byte [0xff, 2, 8, 180, 90, 0] @ [Pause 100]\<rparr>) =
    Some ([26000, 9000 OR PULSE_BIT, 4500, 1 OR PULSE_BIT], d') \<and> u_line d' = [Pause 100]"
proof -
  let ?d = "demo_uirt2\<lparr>u_line := map Byte [0xff, 2, 8, 180, 90, 0] @ [Pause 100]\<rparr>"
  have a: "u_mode ?d = UIRT2_MODE_RAW" "u_line ?d = map Byte (0xff # 2 # 8 # [180, 90, 0]) @ [Pause 100]"
    by (simp_all add: demo_uirt2_def)
  have b: "(0xff :: byte) \<notin> set (2 # [180, 90, 0])" by simp
  have c: "Suc (length [180, 90, 0 :: byte]) = 4" by simp
  have e: "UIRT2_UNIT * (256 * uint (2 :: byte) + uint (8 :: byte)) # heard_lengths True [180, 90, 0] =
    [26000, 9000 OR PULSE_BIT, 4500, 1 OR PULSE_BIT]"
    by (simp add: UIRT2_UNIT_def)
  show ?thesis using uirt2_hears_signal [OF a b, of 0] unfolding c e .
qed

end
