(* ===== verification/SampleDrivers.thy ===== *)
theory SampleDrivers
  imports IrTypes CText Commands SerialLine
begin

text \<open>
  Drivers that compute lengths from samples of the line, and the samples from lengths:
  \<open>daemons/hw_ftdi.c\<close> (a serial chip in bit mode), \<open>hw_udp.c\<close> (lengths in datagrams), the input half of the
  callback of \<open>hw_audio.c\<close> and the signal handler of \<open>hw_audio_alsa.c\<close> (sound cards).
\<close>

section \<open>The FTDI chip: configuration\<close>

record ftdi_config =
  fc_vendor :: int
  fc_product :: int
  fc_desc :: "string option"
  fc_serial :: "string option"
  fc_input :: int
  fc_baud :: int
  fc_output :: int
  fc_txbaud :: int

definition ftdi_config0 :: ftdi_config where
  "ftdi_config0 = \<lparr>fc_vendor = 0x0403, fc_product = 0x6001, fc_desc = None, fc_serial = None, fc_input = 1,
     fc_baud = 9600, fc_output = 2, fc_txbaud = 65536\<rparr>"

definition TXBUFSZ :: int where "TXBUFSZ = 65536"

text \<open>The part before the first character \<open>c\<close>, and what is behind it, if it is there: \<open>strchr\<close> and the
  zero that is written over the character.\<close>

definition cut_at :: "char \<Rightarrow> string \<Rightarrow> string \<times> string option" where
  "cut_at c s = (takeWhile (\<lambda>d. d \<noteq> c) s, case dropWhile (\<lambda>d. d \<noteq> c) s of [] \<Rightarrow> None | _ # t \<Rightarrow> Some t)"

lemma cut_at_length: "cut_at c s = (a, Some t) \<Longrightarrow> length t < length s"
  using length_dropWhile_le [of "\<lambda>d. d \<noteq> c" s] by (auto simp: cut_at_def split: list.splits)

text \<open>An option \<open>key=value\<close>. \<open>None\<close>: it is not understood.\<close>

definition ftdi_option :: "string \<Rightarrow> ftdi_config \<Rightarrow> ftdi_config option" where
  "ftdi_option p cfg =
     (if p = [] then Some cfg
      else case cut_at (CHR ''='') p of
        (_, None) \<Rightarrow> None
      | (key, Some val) \<Rightarrow>
          let n = i32 (fst (strtol val))
          in if key = ''vendor'' then Some (cfg\<lparr>fc_vendor := n\<rparr>)
             else if key = ''product'' then Some (cfg\<lparr>fc_product := n\<rparr>)
             else if key = ''desc'' then Some (cfg\<lparr>fc_desc := Some val\<rparr>)
             else if key = ''serial'' then Some (cfg\<lparr>fc_serial := Some val\<rparr>)
             else if key = ''input'' then Some (cfg\<lparr>fc_input := n\<rparr>)
             else if key = ''baud'' then Some (cfg\<lparr>fc_baud := n\<rparr>)
             else if key = ''output'' then Some (cfg\<lparr>fc_output := n\<rparr>)
             else if key = ''txbaud'' then Some (cfg\<lparr>fc_txbaud := n\<rparr>)
             else None)"

text \<open>The options are static variables: those before the one that is not understood stay set.\<close>

function ftdi_options :: "string \<Rightarrow> ftdi_config \<Rightarrow> bool \<times> ftdi_config" where
  "ftdi_options p cfg =
     (case cut_at (CHR '','') p of
        (opt, rest) \<Rightarrow>
          (case ftdi_option opt cfg of
             None \<Rightarrow> (False, cfg)
           | Some cfg \<Rightarrow> (case rest of None \<Rightarrow> (True, cfg) | Some p \<Rightarrow> ftdi_options p cfg)))"
  by pat_completeness auto
termination
  by (relation "measure (\<lambda>(p, cfg). length p)") (auto dest: cut_at_length [OF sym])

declare ftdi_options.simps [simp del]

section \<open>The FTDI chip: reception\<close>

record ftdi_rx =
  fr_laststate :: "bool option"
  fr_rxctr :: u32

definition ftdi_rx0 :: ftdi_rx where "ftdi_rx0 = \<lparr>fr_laststate = None, fr_rxctr = 0\<rparr>"

definition input_state :: "ftdi_config \<Rightarrow> byte \<Rightarrow> bool" where
  "input_state cfg b \<longleftrightarrow> 0 \<le> fc_input cfg \<and> fc_input cfg < 8 \<and> bit b (nat (fc_input cfg))"

text \<open>The product is a \<open>long long\<close>; its quotient is cut to 32 bits. \<open>None\<close>: a division by zero.\<close>

definition ftdi_usecs :: "ftdi_config \<Rightarrow> u32 \<Rightarrow> lirc_t option" where
  "ftdi_usecs cfg n =
     (let rate = i32 (fc_baud cfg * 32)
      in if rate = 0 then None
         else let usecs = i32 ((uint n * 1000000) sdiv rate)
              in Some (if usecs > PULSE_MASK then PULSE_MASK else usecs))"

definition parse_sample :: "ftdi_config \<Rightarrow> byte \<Rightarrow> ftdi_rx \<Rightarrow> (lirc_t list \<times> ftdi_rx) option" where
  "parse_sample cfg b s =
     (let cur = input_state cfg b; s = s\<lparr>fr_rxctr := fr_rxctr s + 1\<rparr>
      in if fr_laststate s = Some cur then Some ([], s)
         else case ftdi_usecs cfg (fr_rxctr s) of
                None \<Rightarrow> None
              | Some usecs \<Rightarrow>
                  Some ([if cur then usecs OR PULSE_BIT else usecs], s\<lparr>fr_laststate := Some cur, fr_rxctr := 0\<rparr>))"

text \<open>The lengths that are written to the pipe.\<close>

fun parsesamples :: "ftdi_config \<Rightarrow> byte list \<Rightarrow> ftdi_rx \<Rightarrow> (lirc_t list \<times> ftdi_rx) option" where
  "parsesamples cfg [] s = Some ([], s)"
| "parsesamples cfg (b # bs) s =
     do { (xs, s) \<leftarrow> parse_sample cfg b s; (ys, s) \<leftarrow> parsesamples cfg bs s; Some (xs @ ys, s) }"

text \<open>The other end of the pipe. \<open>None\<close>: it waits for ever.\<close>

definition hwftdi_readdata :: "lirc_t \<Rightarrow> lirc_t list \<Rightarrow> (lirc_t \<times> lirc_t list) option" where
  "hwftdi_readdata timeout pipe =
     (case pipe of [] \<Rightarrow> if timeout > 0 then Some (0, []) else None | x # xs \<Rightarrow> Some (x, xs))"

section \<open>The FTDI chip: transmission\<close>

record ftdi_tx =
  ft_div :: u32
  ft_val :: bool
  ft_buf :: "byte list"

definition ftdi_width :: "u32 \<Rightarrow> lirc_t \<Rightarrow> nat" where
  "ftdi_width f_sample pulse = nat (uint (f_sample * word_of_int (pulse AND PULSE_MASK)) div 1000000)"

text \<open>One sample. \<open>None\<close>: the buffer is full and 0 is returned.\<close>

definition carrier_sample :: "u32 \<Rightarrow> u32 \<Rightarrow> bool \<Rightarrow> ftdi_tx \<Rightarrow> ftdi_tx option" where
  "carrier_sample f_sample f_carrier sendpulse t =
     (let d = ft_div t + f_carrier * 2;
          t = (if d \<ge> f_sample then t\<lparr>ft_div := d - f_sample, ft_val := \<not> ft_val t\<rparr> else t\<lparr>ft_div := d\<rparr>);
          t = t\<lparr>ft_buf := ft_buf t @ [if sendpulse \<and> ft_val t then 255 else 0]\<rparr>
      in if int (length (ft_buf t)) \<ge> TXBUFSZ - 1 then None else Some t)"

primrec carrier_samples :: "nat \<Rightarrow> u32 \<Rightarrow> u32 \<Rightarrow> bool \<Rightarrow> ftdi_tx \<Rightarrow> ftdi_tx option" where
  "carrier_samples 0 fs fc p t = Some t"
| "carrier_samples (Suc n) fs fc p t = do { t \<leftarrow> carrier_sample fs fc p t; carrier_samples n fs fc p t }"

primrec carrier_lengths :: "lirc_t list \<Rightarrow> u32 \<Rightarrow> u32 \<Rightarrow> bool \<Rightarrow> ftdi_tx \<Rightarrow> ftdi_tx option" where
  "carrier_lengths [] fs fc p t = Some t"
| "carrier_lengths (x # xs) fs fc p t =
     do { t \<leftarrow> carrier_samples (ftdi_width fs x) fs fc (\<not> p) t; carrier_lengths xs fs fc (\<not> p) t }"

definition ftdi_carrier :: "ir_remote \<Rightarrow> u32" where
  "ftdi_carrier r = (if freq r = 0 then DEFAULT_FREQ else freq r)"

text \<open>What the child process is given to send, with the zero that turns the transmitter off.\<close>

definition ftdi_pattern :: "ftdi_config \<Rightarrow> ir_remote \<Rightarrow> lirc_t list \<Rightarrow> byte list option" where
  "ftdi_pattern cfg r xs =
     map_option (\<lambda>t. ft_buf t @ [0])
       (carrier_lengths xs (word_of_int (i32 (fc_txbaud cfg * 8))) (ftdi_carrier r) False \<lparr>ft_div = 0, ft_val = False, ft_buf = []\<rparr>)"

definition hwftdi_send :: "bool \<Rightarrow> ftdi_config \<Rightarrow> ir_remote \<Rightarrow> ir_ncode \<Rightarrow> sbuf \<Rightarrow>
    (int \<times> byte list option \<times> ir_remote \<times> ir_ncode \<times> sbuf) option" where
  "hwftdi_send repeating cfg r c b =
     do { (ok, r, c, b) \<leftarrow> init_send repeating r c b;
          if \<not> ok then Some (0, None, r, c, b)
          else do {
            xs \<leftarrow> buffer_samples b;
            case ftdi_pattern cfg r xs of
              None \<Rightarrow> Some (0, None, r, c, b)
            | Some out \<Rightarrow> Some (1, Some out, r, c, b) } }"

section \<open>Lengths in datagrams\<close>

text \<open>What happens at the socket: a datagram, an error of \<open>recv\<close>, or a time in which nothing comes.\<close>

datatype udp_event = Datagram "byte list" | Recv_error | Silence

record udp =
  ud_buf :: "byte list"
  ud_ptr :: nat
  ud_more :: bool
  ud_events :: "udp_event list"

text \<open>\<open>ud_more\<close>: \<open>hw.fd\<close> is the descriptor of /dev/zero.\<close>

fun udp_wait :: "lirc_t \<Rightarrow> udp_event list \<Rightarrow> (bool \<times> udp_event list) option" where
  "udp_wait t [] = (if t > 0 then Some (False, []) else None)"
| "udp_wait t (Silence # es) = (if t > 0 then Some (False, es) else udp_wait t es)"
| "udp_wait t es = Some (True, es)"

definition udp_length :: "byte \<Rightarrow> byte \<Rightarrow> lirc_t" where
  "udp_length lo hi =
     (let tmp = push_bit 8 (ucast hi) OR ucast lo :: u32; usecs = ((tmp AND 0x7FFF) * 15625) div 256
      in (if hi AND 0x80 \<noteq> 0 then 0 else PULSE_BIT) OR (uint usecs AND PULSE_MASK))"

definition udp_next :: "udp \<Rightarrow> lirc_t \<times> udp" where
  "udp_next s =
     (let x = udp_length (ud_buf s ! ud_ptr s) (ud_buf s ! (ud_ptr s + 1)); p = ud_ptr s + 2
      in (x, s\<lparr>ud_ptr := p, ud_more := (p + 2 \<le> length (ud_buf s))\<rparr>))"

definition udp_readdata :: "lirc_t \<Rightarrow> udp \<Rightarrow> (lirc_t \<times> udp) option" where
  "udp_readdata timeout s =
     (let s = s\<lparr>ud_more := False\<rparr>
      in if ud_ptr s + 2 > length (ud_buf s) then
           (case udp_wait timeout (ud_events s) of
              None \<Rightarrow> None
            | Some (False, es) \<Rightarrow> Some (0, s\<lparr>ud_events := es\<rparr>)
            | Some (True, Datagram bs # es) \<Rightarrow>
                let bs = take 8192 bs; bs = (if odd (length bs) then butlast bs else bs); s = s\<lparr>ud_buf := bs, ud_events := es\<rparr>
                in if bs = [] then Some (0, s) else Some (udp_next (s\<lparr>ud_ptr := 0\<rparr>))
            | Some (True, _ # es) \<Rightarrow> Some (0, s\<lparr>ud_buf := [], ud_events := es\<rparr>)
            | Some (True, []) \<Rightarrow> None)
         else Some (udp_next s))"

text \<open>Which descriptors are open, and the port the socket is bound to.\<close>

record udp_port =
  upo_zero :: bool
  upo_socket :: bool
  upo_port :: int
  upo_listening :: bool

definition udp_init :: "string \<Rightarrow> bool \<Rightarrow> bool \<Rightarrow> bool \<Rightarrow> udp_port \<Rightarrow> bool \<times> udp_port" where
  "udp_init dev zero_ok socket_ok bind_ok p =
     (let port = i32 (fst (strtol10 dev))
      in if port = 0 then (False, p)
         else if \<not> zero_ok then (False, p)
         else if \<not> socket_ok then (False, p\<lparr>upo_zero := False\<rparr>)
         else if \<not> bind_ok then (False, p\<lparr>upo_zero := False, upo_socket := False\<rparr>)
         else (True, p\<lparr>upo_zero := True, upo_socket := True, upo_port := port mod 65536, upo_listening := True\<rparr>))"

definition udp_deinit :: "udp_port \<Rightarrow> udp_port" where
  "udp_deinit p = p\<lparr>upo_zero := False, upo_socket := False, upo_listening := False\<rparr>"

section \<open>The sound card with PortAudio\<close>

text \<open>The input half of \<open>recordCallback\<close>. The output half computes with floating point numbers and is left
  out; only the count of samples to ignore comes from it. \<open>None\<close> is a division by a rate of zero.\<close>

record pa_data =
  pa_frame0 :: int
  pa_frame1 :: int
  pa_lastSign :: int
  pa_pulseSign :: int
  pa_lastCount :: u32
  pa_ignore :: int
  pa_rate :: int

definition pa_data0 :: "int \<Rightarrow> pa_data" where
  "pa_data0 rate = \<lparr>pa_frame0 = 128, pa_frame1 = 128, pa_lastSign = 0, pa_pulseSign = 0, pa_lastCount = 0,
     pa_ignore = 0, pa_rate = rate\<rparr>"

definition pa_time :: "pa_data \<Rightarrow> u32" where
  "pa_time d = (pa_lastCount d * 1000000) div word_of_int (pa_rate d)"

text \<open>The sign of a change, when it ends a pulse or a space, and the code that is added.\<close>

definition pa_change :: "int \<Rightarrow> pa_data \<Rightarrow> lirc_t list \<times> pa_data" where
  "pa_change sign d =
     ([if sign = pa_pulseSign d then sint (pa_time d) else sint (pa_time d) OR PULSE_BIT],
      d\<lparr>pa_lastSign := sign, pa_lastCount := 0\<rparr>)"

definition pa_sample :: "byte \<Rightarrow> pa_data \<Rightarrow> (lirc_t list \<times> pa_data) option" where
  "pa_sample b d =
     (let (x, d) = (if pa_ignore d \<noteq> 0 then (128, d\<lparr>pa_ignore := pa_ignore d - 1\<rparr>) else (uint b, d));
          big = \<bar>pa_frame0 d - x\<bar> > 100;
          d = (if big \<and> pa_pulseSign d = 0 then d\<lparr>pa_pulseSign := (if x > pa_frame0 d then 1 else - 1)\<rparr> else d);
          sign = (if big \<and> pa_lastCount d > 0 \<and> x > pa_frame0 d \<and> pa_lastSign d \<le> 0 then 1
                  else if big \<and> pa_lastCount d > 0 \<and> x < pa_frame0 d \<and> pa_lastSign d \<ge> 0 then - 1 else 0)
      in if sign \<noteq> 0 \<and> pa_rate d = 0 then None
         else
           let (xs, d) = (if sign \<noteq> 0 then pa_change sign d else ([], d));
               d = (if pa_lastCount d < 100000 then d\<lparr>pa_lastCount := pa_lastCount d + 1\<rparr> else d)
           in Some (xs, d\<lparr>pa_frame0 := pa_frame1 d, pa_frame1 := x\<rparr>))"

text \<open>The samples of the first channel of a buffer.\<close>

fun pa_samples :: "byte list \<Rightarrow> pa_data \<Rightarrow> (lirc_t list \<times> pa_data) option" where
  "pa_samples [] d = Some ([], d)"
| "pa_samples (b # bs) d =
     do { (xs, d) \<leftarrow> pa_sample b d; (ys, d) \<leftarrow> pa_samples bs d; Some (xs @ ys, d) }"

section \<open>The sound card with ALSA\<close>

text \<open>The static variables of \<open>alsa_sig_io\<close>.\<close>

record alsa =
  al_ps :: int
  al_count :: u32
  al_level :: int
  al_pulse :: bool
  al_max :: int
  al_min :: int
  al_waiting :: int

definition alsa0 :: alsa where
  "alsa0 = \<lparr>al_ps = 0x80, al_count = 0, al_level = 0, al_pulse = False, al_max = 0x80, al_min = 0x80, al_waiting = 0\<rparr>"

text \<open>After an underrun.\<close>

definition alsa_reset :: "alsa \<Rightarrow> alsa" where
  "alsa_reset s = s\<lparr>al_count := 0, al_waiting := 0, al_level := 0, al_pulse := False, al_max := 0x80, al_min := 0x80\<rparr>"

datatype alsa_format = S16_LE | S8 | U8

text \<open>A sample made unsigned; of 16 bits the high byte counts.\<close>

definition alsa_unsigned :: "alsa_format \<Rightarrow> byte list \<Rightarrow> int" where
  "alsa_unsigned f bs =
     (case f of S16_LE \<Rightarrow> uint (bs ! 1 XOR 0x80) | S8 \<Rightarrow> uint (bs ! 0 XOR 0x80) | U8 \<Rightarrow> uint (bs ! 0))"

definition alsa_mulconst :: "u32 \<Rightarrow> u32" where "alsa_mulconst rate = 256000000 div rate"

definition alsa_maxcount :: "u32 \<Rightarrow> u32" where
  "alsa_maxcount rate = push_bit 8 (0xFFFFFFFF div alsa_mulconst rate)"

text \<open>The middle, the level and the wait for the middle to be crossed.\<close>

definition alsa_track :: "int \<Rightarrow> alsa \<Rightarrow> int \<times> alsa" where
  "alsa_track cs s =
     (let sz = (al_min s + al_max s) div 2;
          s = (if cs \<le> sz then s\<lparr>al_min := (al_min s * 7 + cs) div 8\<rparr> else s);
          s = (if cs \<ge> sz then s\<lparr>al_max := (al_max s * 7 + cs) div 8\<rparr> else s)
      in (sz, s\<lparr>al_level := (al_level s * 7 + \<bar>cs - sz\<bar>) div 8\<rparr>))"

definition alsa_crossed :: "int \<Rightarrow> int \<Rightarrow> alsa \<Rightarrow> bool" where
  "alsa_crossed cs sz s \<longleftrightarrow> bit ((cs - sz) XOR (al_ps s - sz)) 7"

text \<open>The length up to the crossing, and the count that is left. \<open>None\<close>: a division by zero.\<close>

definition alsa_length :: "u32 \<Rightarrow> int \<Rightarrow> int \<Rightarrow> alsa \<Rightarrow> (lirc_t \<times> u32) option" where
  "alsa_length rate cs sz s =
     (if al_count s \<ge> alsa_maxcount rate then Some (PULSE_MASK, 0)
      else if cs = al_ps s then None
      else
        let delta = ((sz - cs) * 256) sdiv (cs - al_ps s)
        in Some (i32 (((uint (al_count s) + delta) * uint (alsa_mulconst rate)) div 65536), word_of_int (- delta)))"

definition alsa_emit :: "lirc_t \<Rightarrow> alsa \<Rightarrow> lirc_t \<times> alsa" where
  "alsa_emit x s =
     (let p = (al_pulse s \<and> \<not> x > 20000) in (if p then x OR PULSE_BIT else x, s\<lparr>al_pulse := \<not> p\<rparr>))"

text \<open>\<open>0 - 1 - 0x400\<close> and \<open>0 - 1 - 0x200\<close> are \<open>UINT_MAX - 0x400\<close> and \<open>UINT_MAX - 0x200\<close>.\<close>

definition alsa_sample :: "u32 \<Rightarrow> int \<Rightarrow> alsa \<Rightarrow> (lirc_t list \<times> alsa) option" where
  "alsa_sample rate cs s =
     (case alsa_track cs s of (sz, s) \<Rightarrow>
        let sl = max 16 (al_level s); xz = alsa_crossed cs sz s;
            s = (if al_waiting s \<noteq> 0 \<and> \<not> xz then s\<lparr>al_waiting := al_waiting s - 1\<rparr> else s);
            s = (if \<bar>cs - al_ps s\<bar> > sl div 2 \<and> xz then s\<lparr>al_waiting := 2\<rparr> else s)
        in do {
             (xs, s) \<leftarrow>
               (if al_waiting s \<noteq> 0 \<and> xz then
                  do { (x, n) \<leftarrow> alsa_length rate cs sz s;
                       (x, s) \<leftarrow> Some (alsa_emit x (s\<lparr>al_waiting := 0, al_count := n\<rparr>));
                       Some ([x], s) }
                else Some ([], s));
             s \<leftarrow> Some (s\<lparr>al_ps := cs\<rparr>);
             Some (xs, if al_count s < - 1 - 0x400 \<or> al_count s > - 1 - 0x200 then s\<lparr>al_count := al_count s + 0x100\<rparr> else s) })"

fun alsa_samples :: "u32 \<Rightarrow> int list \<Rightarrow> alsa \<Rightarrow> (lirc_t list \<times> alsa) option" where
  "alsa_samples rate [] s = Some ([], s)"
| "alsa_samples rate (cs # css) s =
     do { (xs, s) \<leftarrow> alsa_sample rate cs s; (ys, s) \<leftarrow> alsa_samples rate css s; Some (xs @ ys, s) }"

definition READ_BUFFER_SIZE :: nat where "READ_BUFFER_SIZE = 2 * 4096"

text \<open>The samples of one channel; with 8 bits there is only one.\<close>

definition alsa_frames :: "alsa_format \<Rightarrow> nat \<Rightarrow> nat \<Rightarrow> nat \<Rightarrow> byte list \<Rightarrow> int list" where
  "alsa_frames f channels channel n buff =
     map (\<lambda>i. alsa_unsigned f (drop (if f = S16_LE then i * 2 * channels + 2 * channel else i) buff)) [0..<n]"

text \<open>The handler, when \<open>avail\<close> frames can be read. \<open>None\<close> is also a division by a rate of zero or one for
  which there is no time between two samples.\<close>

definition alsa_sig_io ::
  "u32 \<Rightarrow> alsa_format \<Rightarrow> nat \<Rightarrow> nat \<Rightarrow> bool \<Rightarrow> nat \<Rightarrow> byte list \<Rightarrow> alsa \<Rightarrow> (lirc_t list \<times> alsa) option" where
  "alsa_sig_io rate f channels channel underrun avail buff s =
     (if rate = 0 \<or> alsa_mulconst rate = 0 then None
      else
        let s = (if underrun then alsa_reset s else s);
            n = min avail (READ_BUFFER_SIZE div ((if f = S16_LE then 2 else 1) * channels))
        in alsa_samples rate (alsa_frames f channels channel n buff) s)"

end
