(* ===== verification/SampleFacts.thy ===== *)
theory SampleFacts
  imports SampleDrivers Demo
begin

text \<open>
  Facts about the drivers that work on samples: the pattern of the FTDI chip is the carrier switched on and off with
  the signal, its reception is run-length coding however the samples are cut into buffers, and
  the lengths of datagrams come in their order. Three computations that go wrong.
\<close>

section \<open>The carrier\<close>

text \<open>The level of the carrier after \<open>n\<close> samples, with two changes in a period.\<close>

definition carrier_level :: "u32 \<Rightarrow> u32 \<Rightarrow> nat \<Rightarrow> bool" where
  "carrier_level fs fc n \<longleftrightarrow> odd (int n * (2 * uint fc) div uint fs)"

lemma carrier_level_nat: "carrier_level fs fc n \<longleftrightarrow> odd (n * (2 * unat fc) div unat fs)"
proof -
  have "int (n * (2 * unat fc) div unat fs) = int n * (2 * uint fc) div uint fs"
    by (simp only: zdiv_int of_nat_mult uint_nat of_nat_numeral)
  then show ?thesis unfolding carrier_level_def by (metis even_of_nat_iff)
qed

text \<open>The samples from number \<open>n\<close> on, for widths that are pulses and spaces in turn.\<close>

fun modulated :: "u32 \<Rightarrow> u32 \<Rightarrow> nat \<Rightarrow> bool \<Rightarrow> nat list \<Rightarrow> byte list" where
  "modulated fs fc n pulse [] = []"
| "modulated fs fc n pulse (w # ws) =
     map (\<lambda>k. if pulse \<and> carrier_level fs fc (Suc k) then 255 else 0) [n..<n + w]
       @ modulated fs fc (n + w) (\<not> pulse) ws"

definition carrier_sane :: "u32 \<Rightarrow> u32 \<Rightarrow> bool" where
  "carrier_sane fs fc \<longleftrightarrow> 0 < unat fs \<and> 2 * unat fc \<le> unat fs \<and> unat fs + 2 * unat fc < 2 ^ 32"

definition in_phase :: "u32 \<Rightarrow> u32 \<Rightarrow> ftdi_tx \<Rightarrow> bool" where
  "in_phase fs fc t \<longleftrightarrow>
     unat (ft_div t) = (length (ft_buf t) * (2 * unat fc)) mod unat fs \<and>
     ft_val t = carrier_level fs fc (length (ft_buf t))"

definition fits_tx :: "ftdi_tx \<Rightarrow> bool" where "fits_tx t \<longleftrightarrow> int (length (ft_buf t)) < TXBUFSZ - 1"

lemma phase_step:
  fixes F G n :: nat
  assumes "0 < F" "G \<le> F"
  shows "(Suc n * G) mod F = (if (n * G) mod F + G \<ge> F then (n * G) mod F + G - F else (n * G) mod F + G) \<and>
    (Suc n * G) div F = (if (n * G) mod F + G \<ge> F then Suc (n * G div F) else n * G div F)"
proof -
  let ?r = "(n * G) mod F" and ?q = "n * G div F"
  have e: "Suc n * G = ?q * F + (?r + G)" using div_mult_mod_eq [of "n * G" F] by simp
  have r: "?r < F" using assms(1) by simp
  have div_mod: "m mod F = b \<and> m div F = a" if "m = a * F + b" "b < F" for m a b using that by simp
  show ?thesis
  proof (cases "?r + G \<ge> F")
    case True
    have "Suc n * G = Suc ?q * F + (?r + G - F)" using e True by simp
    moreover have "?r + G - F < F" using r assms(2) by linarith
    ultimately show ?thesis using div_mod [of "Suc n * G" "Suc ?q" "?r + G - F"] True by (simp only: if_True simp_thms)
  next
    case False
    then have "?r + G < F" by simp
    then show ?thesis using div_mod [OF e] False by (simp only: if_False simp_thms)
  qed
qed

lemma carrier_sample_in_phase:
  assumes "carrier_sample fs fc p t = Some t'" "in_phase fs fc t" "carrier_sane fs fc"
  shows "in_phase fs fc t' \<and>
    ft_buf t' = ft_buf t @ [if p \<and> carrier_level fs fc (Suc (length (ft_buf t))) then 255 else 0] \<and>
    fits_tx t'"
proof -
  let ?F = "unat fs" and ?G = "2 * unat fc" and ?n = "length (ft_buf t)"
  have sane: "0 < ?F" "?G \<le> ?F" "?F + ?G < 2 ^ 32" using assms(3) by (simp_all add: carrier_sane_def)
  have r: "unat (ft_div t) = (?n * ?G) mod ?F" and v: "ft_val t = odd (?n * ?G div ?F)"
    using assms(2) by (simp_all add: in_phase_def carrier_level_nat)
  have "unat (ft_div t) < ?F" using r sane(1) by simp
  then have small: "unat (ft_div t) + ?G < 2 ^ 32" using sane(3) by linarith
  have "unat fc * unat (2 :: u32) < 2 ^ 32" using sane(2,3) by simp
  then have g: "unat (fc * 2) = ?G" using unat_mult_lem [of fc 2] by simp
  then have d: "unat (ft_div t + fc * 2) = unat (ft_div t) + ?G"
    using small unat_add_lem [of "ft_div t" "fc * 2"] by (simp only: g) simp
  have ge: "ft_div t + fc * 2 \<ge> fs \<longleftrightarrow> unat (ft_div t) + ?G \<ge> ?F" by (simp add: word_le_nat_alt d)
  have sub: "ft_div t + fc * 2 \<ge> fs \<Longrightarrow> unat (ft_div t + fc * 2 - fs) = unat (ft_div t) + ?G - ?F"
    using d by (simp add: unat_sub)
  note step = phase_step [OF sane(1,2), of ?n]
  show ?thesis
  proof (cases "ft_div t + fc * 2 \<ge> fs")
    case True
    then have le: "(?n * ?G) mod ?F + ?G \<ge> ?F" using ge r by simp
    have "carrier_level fs fc (Suc ?n) = (\<not> ft_val t)" using step le v by (simp only: carrier_level_nat if_True even_Suc simp_thms)
    moreover have "ft_buf t' = ft_buf t @ [if p \<and> (\<not> ft_val t) then 255 else 0] \<and> ft_val t' = (\<not> ft_val t) \<and>
        ft_div t' = ft_div t + fc * 2 - fs \<and> fits_tx t'"
      using assms(1) True by (auto simp: carrier_sample_def Let_def fits_tx_def split: if_splits)
    moreover have "unat (ft_div t + fc * 2 - fs) = (Suc ?n * ?G) mod ?F" using sub [OF True] step le r by (simp only: if_True)
    ultimately show ?thesis by (simp add: in_phase_def)
  next
    case False
    then have le: "\<not> (?n * ?G) mod ?F + ?G \<ge> ?F" using ge r by simp
    have "carrier_level fs fc (Suc ?n) = ft_val t" using step le v by (simp only: carrier_level_nat if_False simp_thms)
    moreover have "ft_buf t' = ft_buf t @ [if p \<and> ft_val t then 255 else 0] \<and> ft_val t' = ft_val t \<and>
        ft_div t' = ft_div t + fc * 2 \<and> fits_tx t'"
      using assms(1) False by (auto simp: carrier_sample_def Let_def fits_tx_def split: if_splits)
    moreover have "unat (ft_div t + fc * 2) = (Suc ?n * ?G) mod ?F" using d step le r by (simp only: if_False)
    ultimately show ?thesis by (simp add: in_phase_def)
  qed
qed

lemma carrier_samples_in_phase:
  assumes "carrier_samples n fs fc p t = Some t'" "in_phase fs fc t" "carrier_sane fs fc"
  shows "in_phase fs fc t' \<and> ft_buf t' = ft_buf t @
      map (\<lambda>k. if p \<and> carrier_level fs fc (Suc k) then 255 else 0) [length (ft_buf t)..<length (ft_buf t) + n] \<and>
    (fits_tx t \<longrightarrow> fits_tx t')"
  using assms(1,2)
proof (induction n arbitrary: t)
  case (Suc n)
  obtain t1 where t1: "carrier_sample fs fc p t = Some t1" "carrier_samples n fs fc p t1 = Some t'"
    using Suc.prems(1) by (auto simp: bind_eq_Some_conv)
  note one = carrier_sample_in_phase [OF t1(1) Suc.prems(2) assms(3)]
  have "[length (ft_buf t)..<length (ft_buf t) + Suc n] = length (ft_buf t) # [length (ft_buf t1)..<length (ft_buf t1) + n]"
    using one upt_conv_Cons [of "length (ft_buf t)" "length (ft_buf t) + Suc n"] by simp
  then show ?case using Suc.IH [OF t1(2)] one by simp
qed simp

lemma carrier_lengths_in_phase:
  assumes "carrier_lengths xs fs fc p t = Some t'" "in_phase fs fc t" "carrier_sane fs fc" "fits_tx t"
  shows "ft_buf t' = ft_buf t @ modulated fs fc (length (ft_buf t)) (\<not> p) (map (ftdi_width fs) xs) \<and>
    fits_tx t'"
  using assms(1,2,4)
proof (induction xs arbitrary: p t)
  case (Cons x xs)
  obtain t1 where t1: "carrier_samples (ftdi_width fs x) fs fc (\<not> p) t = Some t1"
    "carrier_lengths xs fs fc (\<not> p) t1 = Some t'"
    using Cons.prems(1) by (auto simp: bind_eq_Some_conv)
  note some = carrier_samples_in_phase [OF t1(1) Cons.prems(2) assms(3)]
  show ?case using Cons.IH [OF t1(2)] some Cons.prems(3) by simp
qed simp

lemma ftdi_width_exact:
  assumes "0 \<le> x" "x \<le> PULSE_MASK" "x * uint fs < 2 ^ 32"
  shows "ftdi_width fs x = nat (x * uint fs div 1000000)"
proof -
  have m: "x AND PULSE_MASK = x"
    using assms(1,2) by (intro pulse_mask_id) (simp_all add: PULSE_MASK_def)
  have "uint (fs * word_of_int x) = x * uint fs"
    using assms by (simp add: uint_word_ariths uint_word_of_int mult.commute mod_mult_right_eq)
  then show ?thesis by (simp add: ftdi_width_def m)
qed

text \<open>C25: The pattern the FTDI chip is given is the carrier during the pulses of the signal and
  zero during its spaces, each as long as the signal says, with the phase of the carrier running on, and a zero at the
  end; it fits into the buffer. This holds for signals in which every length times the sample rate is below
  \<open>2 ^ 32\<close> (at the default rate, shorter than 8192 microseconds), and for sample rates below \<open>2 ^ 31\<close> with carriers of at most
  half of it; longer lengths are cut, as \<open>long_pulse_wraps\<close> shows.\<close>

theorem ftdi_pattern_modulated:
  assumes "ftdi_pattern cfg r xs = Some out" "fs = word_of_int (i32 (fc_txbaud cfg * 8))"
    "carrier_sane fs (ftdi_carrier r)" "\<forall>x\<in>set xs. 0 \<le> x \<and> x \<le> PULSE_MASK \<and> x * uint fs < 2 ^ 32"
  shows "out = modulated fs (ftdi_carrier r) 0 True (map (\<lambda>x. nat (x * uint fs div 1000000)) xs) @ [0] \<and> int (length out) \<le> TXBUFSZ - 1"
proof -
  let ?t = "\<lparr>ft_div = 0, ft_val = False, ft_buf = []\<rparr> :: ftdi_tx"
  obtain t where t: "carrier_lengths xs fs (ftdi_carrier r) False ?t = Some t" "out = ft_buf t @ [0]"
    using assms(1,2) by (auto simp: ftdi_pattern_def)
  have "in_phase fs (ftdi_carrier r) ?t" "fits_tx ?t"
    by (simp_all add: in_phase_def carrier_level_nat fits_tx_def TXBUFSZ_def)
  note lengths = carrier_lengths_in_phase [OF t(1) this(1) assms(3) this(2)]
  have "map (ftdi_width fs) xs = map (\<lambda>x. nat (x * uint fs div 1000000)) xs"
    using assms(4) ftdi_width_exact by simp
  with lengths t(2) show ?thesis by (auto simp only: fits_tx_def length_append append_Nil list.size) simp
qed

definition slow_config :: ftdi_config where "slow_config = ftdi_config0\<lparr>fc_txbaud := 16000\<rparr>"

definition slow_remote :: ir_remote where "slow_remote = demo_remote\<lparr>freq := 36000\<rparr>"

theorem ftdi_pattern_modulated_witness:
  "ftdi_pattern slow_config slow_remote [100, 50, 60] = Some (modulated 128000 36000 0 True [12, 6, 7] @ [0]) \<and>
   modulated 128000 36000 0 True [12, 6, 7] =
     [0, 255, 255, 0, 0, 255, 255, 0, 255, 255, 0, 0, 0, 0, 0, 0, 0, 0, 0, 255, 255, 0, 0, 255, 0]"
proof -
  have some: "case ftdi_pattern slow_config slow_remote [100, 50, 60] of None \<Rightarrow> False | Some _ \<Rightarrow> True" by code_simp
  then obtain out where out: "ftdi_pattern slow_config slow_remote [100, 50, 60] = Some out"
    by (cases "ftdi_pattern slow_config slow_remote [100, 50, 60]") simp_all
  have fs: "128000 = word_of_int (i32 (fc_txbaud slow_config * 8))" by code_simp
  have c: "ftdi_carrier slow_remote = 36000" by code_simp
  have sane: "carrier_sane 128000 (ftdi_carrier slow_remote)" unfolding c by (simp add: carrier_sane_def)
  have small: "\<forall>x\<in>set [100, 50, 60 :: int]. 0 \<le> x \<and> x \<le> PULSE_MASK \<and> x * uint (128000 :: u32) < 2 ^ 32"
    by (simp add: PULSE_MASK_def)
  have "out = modulated 128000 36000 0 True [12, 6, 7] @ [0]"
    using ftdi_pattern_modulated [OF out fs sane small] unfolding c by simp
  moreover have "modulated 128000 36000 0 True [12, 6, 7] =
     [0, 255, 255, 0, 0, 255, 255, 0, 255, 255, 0, 0, 0, 0, 0, 0, 0, 0, 0, 255, 255, 0, 0, 255, 0]" by code_simp
  ultimately show ?thesis using out by simp
qed

text \<open>With the default rate a header of 9000 microseconds is sent as one of 807: the product of the rate and the length
  is computed in 32 bits.\<close>

lemma long_pulse_wraps:
  "ftdi_width 524288 9000 = 423 \<and> ftdi_width 524288 807 = 423 \<and> nat (9000 * uint (524288 :: u32) div 1000000) = 4718"
  by code_simp

section \<open>Run lengths\<close>

lemma parsesamples_append:
  "parsesamples cfg (bs @ cs) s =
     do { (xs, s) \<leftarrow> parsesamples cfg bs s; (ys, s) \<leftarrow> parsesamples cfg cs s; Some (xs @ ys, s) }"
  by (induction bs arbitrary: s) (auto simp: bind_eq_Some_conv split: option.splits prod.splits Option.bind_splits)

primrec parse_buffers :: "ftdi_config \<Rightarrow> byte list list \<Rightarrow> ftdi_rx \<Rightarrow> (lirc_t list \<times> ftdi_rx) option" where
  "parse_buffers cfg [] s = Some ([], s)"
| "parse_buffers cfg (b # bs) s =
     do { (xs, s) \<leftarrow> parsesamples cfg b s; (ys, s) \<leftarrow> parse_buffers cfg bs s; Some (xs @ ys, s) }"

lemma parse_buffers_concat: "parse_buffers cfg bs s = parsesamples cfg (concat bs) s"
  by (induction bs arbitrary: s) (simp_all add: parsesamples_append)

text \<open>The lengths of runs of equal samples: each is reported, by the first sample of the next one, as the time its
  samples take; low samples are a pulse.\<close>

definition run_time :: "ftdi_config \<Rightarrow> nat \<Rightarrow> lirc_t" where
  "run_time cfg n = min PULSE_MASK (int n * 1000000 div (fc_baud cfg * 32))"

fun run_lengths :: "ftdi_config \<Rightarrow> nat \<Rightarrow> (byte \<times> nat) list \<Rightarrow> lirc_t list" where
  "run_lengths cfg m [] = []"
| "run_lengths cfg m ((b, n) # rs) =
     (if input_state cfg b then run_time cfg m OR PULSE_BIT else run_time cfg m) # run_lengths cfg n rs"

fun runs_alternate :: "ftdi_config \<Rightarrow> bool option \<Rightarrow> (byte \<times> nat) list \<Rightarrow> bool" where
  "runs_alternate cfg l [] \<longleftrightarrow> True"
| "runs_alternate cfg l ((b, n) # rs) \<longleftrightarrow>
     l \<noteq> Some (input_state cfg b) \<and> 0 < n \<and> runs_alternate cfg (Some (input_state cfg b)) rs"

abbreviation run_samples :: "(byte \<times> nat) list \<Rightarrow> byte list" where
  "run_samples rs \<equiv> concat (map (\<lambda>(b, n). replicate n b) rs)"

definition rate_sane :: "ftdi_config \<Rightarrow> nat \<Rightarrow> bool" where
  "rate_sane cfg n \<longleftrightarrow> 0 < fc_baud cfg \<and> fc_baud cfg * 32 < 2 ^ 31 \<and> n < 2 ^ 32 \<and> int n * 1000000 div (fc_baud cfg * 32) < 2 ^ 31"

lemma ftdi_usecs_run_time:
  assumes "rate_sane cfg n" "unat c = n"
  shows "ftdi_usecs cfg c = Some (run_time cfg n)"
proof -
  have r: "i32 (fc_baud cfg * 32) = fc_baud cfg * 32" "0 < fc_baud cfg * 32"
    using assms(1) by (simp_all add: rate_sane_def i32_range_nonneg)
  have u: "uint c = int n" using assms(2) by (simp flip: assms(2))
  have q: "(int n * 1000000) sdiv (fc_baud cfg * 32) = int n * 1000000 div (fc_baud cfg * 32)"
    using r(2) by (intro sdiv_pos) simp_all
  have "0 \<le> int n * 1000000 div (fc_baud cfg * 32)" using r(2) by (intro pos_imp_zdiv_nonneg_iff [THEN iffD2]) simp_all
  then have "i32 (int n * 1000000 div (fc_baud cfg * 32)) = int n * 1000000 div (fc_baud cfg * 32)"
    using assms(1) by (intro i32_id i32_range_nonneg) (simp_all add: rate_sane_def)
  then show ?thesis using r by (simp add: ftdi_usecs_def Let_def u q run_time_def min_def)
qed

text \<open>The rest of a run only counts.\<close>

lemma parse_same_level:
  "fr_laststate s = Some (input_state cfg b) \<Longrightarrow>
   parsesamples cfg (replicate n b) s = Some ([], s\<lparr>fr_rxctr := fr_rxctr s + word_of_nat n\<rparr>)"
proof (induction n arbitrary: s)
  case (Suc n)
  then show ?case by (simp add: parse_sample_def Let_def add.assoc)
qed simp

lemma parse_run:
  assumes "fr_laststate s \<noteq> Some (input_state cfg b)" "unat (fr_rxctr s + 1) = m" "rate_sane cfg m"
  shows "parsesamples cfg (replicate (Suc n) b) s =
    Some ([if input_state cfg b then run_time cfg m OR PULSE_BIT else run_time cfg m],
      \<lparr>fr_laststate = Some (input_state cfg b), fr_rxctr = word_of_nat n\<rparr>)"
proof -
  have u: "ftdi_usecs cfg (fr_rxctr s + 1) = Some (run_time cfg m)" by (rule ftdi_usecs_run_time [OF assms(3,2)])
  have one: "parse_sample cfg b s = Some ([if input_state cfg b then run_time cfg m OR PULSE_BIT else run_time cfg m],
      s\<lparr>fr_rxctr := 0, fr_laststate := Some (input_state cfg b)\<rparr>)"
    using assms(1) u by (simp add: parse_sample_def Let_def)
  show ?thesis by (simp add: one parse_same_level)
qed

lemma parse_runs:
  assumes "runs_alternate cfg (fr_laststate s) rs" "unat (fr_rxctr s + 1) = m" "rate_sane cfg m"
    "\<forall>(b, n)\<in>set rs. rate_sane cfg n"
  shows "\<exists>s'. parsesamples cfg (run_samples rs) s = Some (run_lengths cfg m rs, s')"
  using assms
proof (induction rs arbitrary: s m)
  case (Cons bn rs)
  obtain b n where bn: "bn = (b, Suc n)" using Cons.prems(1) by (cases bn) (auto elim: gr0_implies_Suc [THEN exE])
  let ?s = "\<lparr>fr_laststate = Some (input_state cfg b), fr_rxctr = word_of_nat n\<rparr> :: ftdi_rx"
  have run: "parsesamples cfg (replicate (Suc n) b) s =
    Some ([if input_state cfg b then run_time cfg m OR PULSE_BIT else run_time cfg m], ?s)"
    using Cons.prems(1) bn by (intro parse_run Cons.prems(2,3)) simp
  have sane: "rate_sane cfg (Suc n)" using Cons.prems(4) bn by simp
  then have "unat (fr_rxctr ?s + 1) = Suc n"
  proof -
    have w: "fr_rxctr ?s + 1 = word_of_nat (Suc n)" by simp
    have "Suc n < 2 ^ LENGTH(32)" using sane by (simp add: rate_sane_def)
    then show ?thesis unfolding w unat_of_nat by (rule mod_less)
  qed
  then have "\<exists>s'. parsesamples cfg (run_samples rs) ?s = Some (run_lengths cfg (Suc n) rs, s')"
    using Cons.prems(1,4) bn sane by (intro Cons.IH) simp_all
  then obtain s' where rest: "parsesamples cfg (run_samples rs) ?s = Some (run_lengths cfg (Suc n) rs, s')" ..
  have e: "run_samples (bn # rs) = replicate (Suc n) b @ run_samples rs" by (simp add: bn)
  show ?case unfolding e parsesamples_append run by (simp add: rest) (simp add: bn)
qed simp

text \<open>The time of a run of 36 minutes does not fit into 32 bits, and becomes negative before it is compared with the
  greatest length.\<close>

lemma long_run_negative: "ftdi_usecs ftdi_config0 660000000 = Some (- 2146529796)"
  by code_simp

text \<open>C26: However the samples are cut into buffers, the FTDI receiver reports every run of equal samples with
  the time it lasted, capped at the greatest length, low runs as pulses and high runs as spaces. This holds
  for runs that last less than \<open>2 ^ 31\<close> microseconds, which is 35 minutes, and fewer than \<open>2 ^ 32\<close> samples, at
  positive rates below \<open>2 ^ 26\<close> baud; the silence of a receiver that is idle for longer is not reported with
  its time.\<close>

theorem ftdi_hears_runs:
  assumes "concat bss = run_samples rs" "runs_alternate cfg (fr_laststate s) rs"
    "rate_sane cfg (unat (fr_rxctr s + 1))" "\<forall>(b, n)\<in>set rs. rate_sane cfg n"
  shows "\<exists>s'. parse_buffers cfg bss s = Some (run_lengths cfg (unat (fr_rxctr s + 1)) rs, s')"
  unfolding parse_buffers_concat assms(1) by (rule parse_runs [OF assms(2) refl assms(3,4)])

theorem ftdi_hears_runs_witness:
  "\<exists>s'. parse_buffers ftdi_config0 [[0, 0], [0, 2], [2, 0]] ftdi_rx0 =
     Some (run_lengths ftdi_config0 1 [(0, 3), (2, 2), (0, 1)], s') \<and>
   run_lengths ftdi_config0 1 [(0, 3), (2, 2), (0, 1)] = [3, 9 OR PULSE_BIT, 6]"
proof -
  have sane: "rate_sane ftdi_config0 n" if "n \<le> 3" for n
  proof -
    have "n = 0 \<or> n = 1 \<or> n = 2 \<or> n = 3" using that by arith
    then show ?thesis by (elim disjE) (simp_all add: rate_sane_def ftdi_config0_def)
  qed
  have a: "concat [[0, 0], [0, 2], [2, 0]] = run_samples [(0, 3), (2, 2), (0, 1)]" by (simp add: numeral_eq_Suc)
  have b: "runs_alternate ftdi_config0 (fr_laststate ftdi_rx0) [(0, 3), (2, 2), (0, 1)]" by code_simp
  have c: "unat (fr_rxctr ftdi_rx0 + 1) = 1" by (simp add: ftdi_rx0_def)
  have d: "\<forall>(b, n)\<in>set [(0, 3), (2, 2), (0 :: byte, 1)]. rate_sane ftdi_config0 n" using sane by simp
  have e: "run_lengths ftdi_config0 1 [(0, 3), (2, 2), (0, 1)] = [3, 9 OR PULSE_BIT, 6]" by code_simp
  have "rate_sane ftdi_config0 (unat (fr_rxctr ftdi_rx0 + 1))" unfolding c by (rule sane) simp
  from ftdi_hears_runs [OF a b this d] show ?thesis unfolding c using e by blast
qed

section \<open>Datagrams\<close>

fun udp_lengths :: "byte list \<Rightarrow> lirc_t list" where
  "udp_lengths (lo # hi # bs) = udp_length lo hi # udp_lengths bs"
| "udp_lengths _ = []"

text \<open>The lengths of \<open>n\<close> calls, and after each whether \<open>hw.fd\<close> is always ready.\<close>

primrec udp_reads :: "nat \<Rightarrow> lirc_t \<Rightarrow> udp \<Rightarrow> ((lirc_t \<times> bool) list \<times> udp) option" where
  "udp_reads 0 t s = Some ([], s)"
| "udp_reads (Suc n) t s =
     do { (x, s) \<leftarrow> udp_readdata t s; (xs, s') \<leftarrow> udp_reads n t s; Some ((x, ud_more s) # xs, s') }"

lemma drop_one: "drop (Suc n) xs = tl (drop n xs)"
  by (simp add: drop_Suc tl_drop)

lemma udp_next_drop:
  assumes "drop (ud_ptr s) (ud_buf s) = lo # hi # bs"
  shows "udp_next s = (udp_length lo hi, s\<lparr>ud_ptr := ud_ptr s + 2, ud_more := (2 \<le> length bs)\<rparr>) \<and>
    drop (ud_ptr s + 2) (ud_buf s) = bs \<and> ud_ptr s + 2 \<le> length (ud_buf s)"
proof -
  have len: "length (ud_buf s) = ud_ptr s + 2 + length bs" using arg_cong [OF assms, of length] by simp
  have "ud_buf s ! ud_ptr s = lo" using nth_via_drop [OF assms] .
  moreover have "drop (Suc (ud_ptr s)) (ud_buf s) = hi # bs" using drop_one [of "ud_ptr s" "ud_buf s"] assms by simp
  then have "ud_buf s ! Suc (ud_ptr s) = hi" "drop (ud_ptr s + 2) (ud_buf s) = bs"
    using drop_one [of "Suc (ud_ptr s)" "ud_buf s"] by (simp_all add: nth_via_drop)
  ultimately show ?thesis using len by (simp add: udp_next_def Let_def)
qed

text \<open>The rest of a datagram is read without the socket; \<open>hw.fd\<close> is ready exactly as long as something is left.\<close>

definition with_marks :: "lirc_t list \<Rightarrow> (lirc_t \<times> bool) list" where
  "with_marks xs = zip xs (replicate (length xs - 1) True @ [False])"

lemma with_marks_Cons: "with_marks (x # xs) = (x, xs \<noteq> []) # with_marks xs"
  by (cases xs) (simp_all add: with_marks_def)

lemma udp_lengths_empty: "udp_lengths bs = [] \<longleftrightarrow> length bs < 2"
  by (cases bs rule: udp_lengths.cases) auto

lemma udp_reads_rest:
  assumes "drop (ud_ptr s) (ud_buf s) = bs" "ud_ptr s \<le> length (ud_buf s)" "even (length bs)"
  shows "\<exists>s'. udp_reads (length (udp_lengths bs)) t s = Some (with_marks (udp_lengths bs), s') \<and>
    ud_events s' = ud_events s \<and> ud_ptr s' = length (ud_buf s')"
  using assms
proof (induction bs arbitrary: s rule: udp_lengths.induct)
  case (1 lo hi bs)
  note nxt = udp_next_drop [OF "1.prems"(1)]
  let ?s = "s\<lparr>ud_more := False\<rparr>"
  have "drop (ud_ptr ?s) (ud_buf ?s) = lo # hi # bs" using "1.prems"(1) by simp
  note nxt' = udp_next_drop [OF this]
  let ?s1 = "s\<lparr>ud_ptr := ud_ptr s + 2, ud_more := (2 \<le> length bs)\<rparr>"
  have step: "udp_readdata t s = Some (udp_length lo hi, ?s1)"
    using nxt' by (simp add: udp_readdata_def)
  obtain s' where s': "udp_reads (length (udp_lengths bs)) t ?s1 = Some (with_marks (udp_lengths bs), s')"
    "ud_events s' = ud_events s" "ud_ptr s' = length (ud_buf s')"
    using "1.IH" [of ?s1] nxt "1.prems"(3) by auto
  have "(2 \<le> length bs) = (udp_lengths bs \<noteq> [])" using udp_lengths_empty [of bs] by auto
  then show ?case using step s' by (simp add: with_marks_Cons)
qed (simp_all add: with_marks_def)

text \<open>The lengths of a datagram are returned in their order by as many calls, without another look at
  the socket, and the main loop, which waits for \<open>hw.fd\<close>, is told to come back exactly as long as there are more.\<close>

theorem datagram_is_heard:
  assumes "ud_events s = Datagram bs # es" "bs \<noteq> []" "even (length bs)" "length bs \<le> 8192" "ud_ptr s + 2 > length (ud_buf s)"
  shows "\<exists>s'. udp_reads (length (udp_lengths bs)) t s = Some (with_marks (udp_lengths bs), s') \<and>
    ud_events s' = es \<and> ud_ptr s' + 2 > length (ud_buf s')"
proof -
  let ?s = "s\<lparr>ud_more := False, ud_buf := bs, ud_events := es, ud_ptr := 0\<rparr>"
  obtain lo hi cs where bs: "bs = lo # hi # cs" using assms(2,3) by (cases bs rule: udp_lengths.cases) auto
  have w: "udp_wait t (Datagram bs # es) = Some (True, Datagram bs # es)" by simp
  have "udp_readdata t s = Some (udp_next ?s)"
    using assms by (simp add: udp_readdata_def Let_def)
  moreover have "udp_readdata t ?s = Some (udp_next ?s)"
  proof -
    have e: "?s\<lparr>ud_more := False\<rparr> = ?s" by (cases s) simp
    have "\<not> ud_ptr ?s + 2 > length (ud_buf ?s)" by (simp add: bs)
    then show ?thesis by (simp only: udp_readdata_def Let_def e if_False)
  qed
  ultimately have same: "udp_readdata t s = udp_readdata t ?s" by simp
  have "udp_reads (length (udp_lengths bs)) t s = udp_reads (length (udp_lengths bs)) t ?s"
    by (simp add: bs same [unfolded bs])
  then show ?thesis using udp_reads_rest [of ?s bs t] assms(3) by auto
qed

theorem datagram_is_heard_witness:
  "\<exists>s'. udp_reads 2 0 \<lparr>ud_buf = [], ud_ptr = 0, ud_more = False, ud_events = [Datagram [147, 0, 73, 0x80]]\<rparr> =
     Some ([(8972 OR PULSE_BIT, True), (4455, False)], s')"
proof -
  let ?s = "\<lparr>ud_buf = [], ud_ptr = 0, ud_more = False, ud_events = [Datagram [147, 0, 73, 0x80]]\<rparr> :: udp"
  have l: "length (udp_lengths [147, 0, 73, 0x80]) = 2" by simp
  have m: "with_marks (udp_lengths [147, 0, 73, 0x80]) = [(8972 OR PULSE_BIT, True), (4455, False)]" by code_simp
  show ?thesis using datagram_is_heard [of ?s "[147, 0, 73, 0x80]" "[]" 0] unfolding l m by auto
qed

section \<open>Sound cards\<close>

text \<open>The ALSA handler never divides by the difference of equal samples.\<close>

lemma alsa_track_ps: "alsa_track cs s = (sz, s') \<Longrightarrow> al_ps s' = al_ps s"
  by (auto simp: alsa_track_def Let_def split: if_splits)

lemma alsa_crossed_moves: "alsa_crossed cs sz s \<Longrightarrow> cs \<noteq> al_ps s"
  by (auto simp: alsa_crossed_def)

lemma alsa_length_total: "cs \<noteq> al_ps s \<Longrightarrow> alsa_length rate cs sz s \<noteq> None"
  by (simp add: alsa_length_def Let_def)

lemma alsa_crossed_waiting [simp]: "alsa_crossed cs sz (s\<lparr>al_waiting := w\<rparr>) = alsa_crossed cs sz s"
  by (simp add: alsa_crossed_def)

lemma alsa_sample_total: "alsa_sample rate cs s \<noteq> None"
proof -
  obtain sz s1 where t: "alsa_track cs s = (sz, s1)" by fastforce
  show ?thesis
  proof (cases "alsa_crossed cs sz s1")
    case False
    then show ?thesis by (simp add: alsa_sample_def t Let_def)
  next
    case True
    then have ps: "cs \<noteq> al_ps s1" by (rule alsa_crossed_moves)
    obtain x n where a: "alsa_length rate cs sz s1 = Some (x, n)" using alsa_length_total [OF ps] by fastforce
    obtain y m where b: "alsa_length rate cs sz (s1\<lparr>al_waiting := 2\<rparr>) = Some (y, m)"
      using alsa_length_total [of cs "s1\<lparr>al_waiting := 2\<rparr>"] ps by fastforce
    show ?thesis using True by (simp add: alsa_sample_def t Let_def a b split: prod.splits)
  qed
qed

lemma alsa_samples_total: "alsa_samples rate css s \<noteq> None"
proof (induction css arbitrary: s)
  case (Cons cs css)
  obtain xs s2 where "alsa_sample rate cs s = Some (xs, s2)" using alsa_sample_total [of rate cs s] by auto
  then show ?case using Cons.IH [of s2] by auto
qed simp

text \<open>The handler starts in the middle, so that the first length is negative. With the rate of 8000 a rising edge over two samples: bit 7 of the differences is not their sign, the
  second sample counts as a crossing, and the pulse that is reported has a negative length.\<close>

lemma alsa_negative_length:
  "map_option fst (alsa_samples 8000 (replicate 30 72 @ [200, 240]) alsa0) = Some [- 125, 3777 OR PULSE_BIT, - 203]"
  by code_simp

text \<open>At 48000 samples in a second the time of a gap of 4295 samples, 89 milliseconds, is 0.\<close>

lemma long_gap_wraps:
  "pa_time ((pa_data0 48000)\<lparr>pa_lastCount := 4294\<rparr>) = 89458 \<and> pa_time ((pa_data0 48000)\<lparr>pa_lastCount := 4295\<rparr>) = 0"
  by code_simp

end
